(* ===== verification/TPM_Prelude.thy ===== *)
theory TPM_Prelude
  imports Main "HOL-Library.Word"
begin

unbundle bit_operations_syntax

text \<open>
  Shared vocabulary of the development: machine integer types, byte strings, TPM response
  codes and handles of \<^verbatim>\<open>TpmTypes.h\<close>, the failure-mode outcome of \<^verbatim>\<open>pAssert\<close>/\<^verbatim>\<open>FAIL\<close>
  (\<^verbatim>\<open>GpMacros.h\<close>), response-code processing (\<^verbatim>\<open>ResponseCodeProcessing.c\<close>), and the generic
  lemmas on words and lists that the component theories use.

  A C function that may enter failure mode returns an \<open>outcome\<close>: \<open>Ret x\<close> when it returns
  \<open>x\<close> and \<open>FailureMode\<close> when a \<^verbatim>\<open>pAssert\<close> or \<^verbatim>\<open>FAIL\<close> leaves it by \<^verbatim>\<open>longjmp\<close>.
  \<^verbatim>\<open>TPM2B\<close> buffers are byte lists; the \<^verbatim>\<open>size\<close> member is the length of the list.
\<close>

section \<open>Machine types\<close>

type_synonym u8 = "8 word"
type_synonym u16 = "16 word"
type_synonym u32 = "32 word"
type_synonym u64 = "64 word"
type_synonym bytes = "u8 list"

type_synonym TPM_RC = u32
type_synonym TPM_HANDLE = u32
type_synonym TPM_ALG_ID = u16
type_synonym TPM_CC = u32
type_synonym TPM_ST = u16

section \<open>Failure mode\<close>

datatype 'a outcome = Ret 'a | FailureMode

definition pAssert :: "bool \<Rightarrow> 'a outcome \<Rightarrow> 'a outcome" where
  "pAssert a k = (if a then k else FailureMode)"

fun obind :: "'a outcome \<Rightarrow> ('a \<Rightarrow> 'b outcome) \<Rightarrow> 'b outcome" where
  "obind (Ret x) f = f x"
| "obind FailureMode f = FailureMode"

lemma pAssert_simps [simp]: "pAssert True k = k" "pAssert False k = FailureMode"
  by (simp_all add: pAssert_def)

lemma pAssert_Ret_iff [simp]: "pAssert a k = Ret x \<longleftrightarrow> a \<and> k = Ret x"
  by (simp add: pAssert_def)

lemma obind_cong [fundef_cong]:
  "m = m' \<Longrightarrow> (\<And>x. m' = Ret x \<Longrightarrow> f x = g x) \<Longrightarrow> obind m f = obind m' g"
  by (cases m') auto

lemma obind_Ret_iff: "obind m f = Ret y \<longleftrightarrow> (\<exists>x. m = Ret x \<and> f x = Ret y)"
  by (cases m) auto

section \<open>Response codes\<close>

named_theorems tpm_consts

definition TPM_RC_SUCCESS :: TPM_RC where [tpm_consts]: "TPM_RC_SUCCESS = 0"
definition RC_FMT1 :: TPM_RC where [tpm_consts]: "RC_FMT1 = 0x080"
definition TPM_RC_FAILURE :: TPM_RC where [tpm_consts]: "TPM_RC_FAILURE = 0x101"
definition TPM_RC_TOO_MANY_CONTEXTS :: TPM_RC where [tpm_consts]: "TPM_RC_TOO_MANY_CONTEXTS = 0x12E"
definition TPM_RC_NO_RESULT :: TPM_RC where [tpm_consts]: "TPM_RC_NO_RESULT = 0x154"
definition TPM_RC_ATTRIBUTES :: TPM_RC where [tpm_consts]: "TPM_RC_ATTRIBUTES = 0x082"
definition TPM_RC_VALUE :: TPM_RC where [tpm_consts]: "TPM_RC_VALUE = 0x084"
definition TPM_RC_HIERARCHY :: TPM_RC where [tpm_consts]: "TPM_RC_HIERARCHY = 0x085"
definition TPM_RC_MODE :: TPM_RC where [tpm_consts]: "TPM_RC_MODE = 0x089"
definition TPM_RC_TYPE :: TPM_RC where [tpm_consts]: "TPM_RC_TYPE = 0x08A"
definition TPM_RC_HANDLE :: TPM_RC where [tpm_consts]: "TPM_RC_HANDLE = 0x08B"
definition TPM_RC_SCHEME :: TPM_RC where [tpm_consts]: "TPM_RC_SCHEME = 0x092"
definition TPM_RC_SIZE :: TPM_RC where [tpm_consts]: "TPM_RC_SIZE = 0x095"
definition TPM_RC_SIGNATURE :: TPM_RC where [tpm_consts]: "TPM_RC_SIGNATURE = 0x09B"
definition TPM_RC_KEY :: TPM_RC where [tpm_consts]: "TPM_RC_KEY = 0x09C"
definition TPM_RC_TICKET :: TPM_RC where [tpm_consts]: "TPM_RC_TICKET = 0x0A0"
definition TPM_RC_ONE_SHOT_SIGNATURE :: TPM_RC where [tpm_consts]: "TPM_RC_ONE_SHOT_SIGNATURE = 0x0AC"
definition TPM_RC_CONTEXT_GAP :: TPM_RC where [tpm_consts]: "TPM_RC_CONTEXT_GAP = 0x901"
definition TPM_RC_OBJECT_MEMORY :: TPM_RC where [tpm_consts]: "TPM_RC_OBJECT_MEMORY = 0x902"
definition TPM_RC_SESSION_MEMORY :: TPM_RC where [tpm_consts]: "TPM_RC_SESSION_MEMORY = 0x903"
definition TPM_RC_SESSION_HANDLES :: TPM_RC where [tpm_consts]: "TPM_RC_SESSION_HANDLES = 0x905"
definition TPM_RC_NV_RATE :: TPM_RC where [tpm_consts]: "TPM_RC_NV_RATE = 0x920"
definition TPM_RC_NV_UNAVAILABLE :: TPM_RC where [tpm_consts]: "TPM_RC_NV_UNAVAILABLE = 0x923"
definition TPM_RC_REFERENCE_H0 :: TPM_RC where [tpm_consts]: "TPM_RC_REFERENCE_H0 = 0x910"
definition TPM_RC_EXPIRED :: TPM_RC where [tpm_consts]: "TPM_RC_EXPIRED = 0x0A3"
definition TPM_RC_CPHASH :: TPM_RC where [tpm_consts]: "TPM_RC_CPHASH = 0x151"
definition TPM_RC_NONCE :: TPM_RC where [tpm_consts]: "TPM_RC_NONCE = 0x08F"

definition TPM_RC_P :: TPM_RC where [tpm_consts]: "TPM_RC_P = 0x040"
definition TPM_RC_1 :: TPM_RC where [tpm_consts]: "TPM_RC_1 = 0x100"
definition TPM_RC_2 :: TPM_RC where [tpm_consts]: "TPM_RC_2 = 0x200"
definition TPM_RC_3 :: TPM_RC where [tpm_consts]: "TPM_RC_3 = 0x300"
definition TPM_RC_H :: TPM_RC where [tpm_consts]: "TPM_RC_H = 0x000"
definition TPM_RC_KEY_SIZE :: TPM_RC where [tpm_consts]: "TPM_RC_KEY_SIZE = 0x087"

text \<open>
  \<^verbatim>\<open>TPM_RCS_x\<close> and \<^verbatim>\<open>TPM_RC_x\<close> have the same value in \<^verbatim>\<open>TpmTypes.h\<close>; the development uses
  the \<^verbatim>\<open>TPM_RC_x\<close> constant for both.
\<close>

definition RcSafeAddToResult :: "TPM_RC \<Rightarrow> TPM_RC \<Rightarrow> TPM_RC" where
  "RcSafeAddToResult responseCode modifier =
     (if responseCode AND RC_FMT1 \<noteq> 0 \<and> responseCode AND 0xf40 = 0
      then responseCode + modifier else responseCode)"

section \<open>Handles\<close>

definition HR_HANDLE_MASK :: TPM_HANDLE where [tpm_consts]: "HR_HANDLE_MASK = 0x00FFFFFF"
definition HR_RANGE_MASK :: TPM_HANDLE where [tpm_consts]: "HR_RANGE_MASK = 0xFF000000"
definition HR_SHIFT :: nat where [tpm_consts]: "HR_SHIFT = 24"
definition TPM_HT_PCR :: u8 where [tpm_consts]: "TPM_HT_PCR = 0x00"
definition TPM_HT_NV_INDEX :: u8 where [tpm_consts]: "TPM_HT_NV_INDEX = 0x01"
definition TPM_HT_PERMANENT :: u8 where [tpm_consts]: "TPM_HT_PERMANENT = 0x40"
definition TPM_HT_HMAC_SESSION :: u8 where [tpm_consts]: "TPM_HT_HMAC_SESSION = 0x02"
definition TPM_HT_POLICY_SESSION :: u8 where [tpm_consts]: "TPM_HT_POLICY_SESSION = 0x03"
definition TPM_HT_TRANSIENT :: u8 where [tpm_consts]: "TPM_HT_TRANSIENT = 0x80"
definition HMAC_SESSION_FIRST :: TPM_HANDLE where [tpm_consts]: "HMAC_SESSION_FIRST = 0x02000000"
definition POLICY_SESSION_FIRST :: TPM_HANDLE where [tpm_consts]: "POLICY_SESSION_FIRST = 0x03000000"
definition TPM_RH_OWNER :: TPM_HANDLE where [tpm_consts]: "TPM_RH_OWNER = 0x40000001"
definition TPM_RH_NULL :: TPM_HANDLE where [tpm_consts]: "TPM_RH_NULL = 0x40000007"
definition TPM_RH_UNASSIGNED :: TPM_HANDLE where [tpm_consts]: "TPM_RH_UNASSIGNED = 0x40000008"
definition TPM_RH_LOCKOUT :: TPM_HANDLE where [tpm_consts]: "TPM_RH_LOCKOUT = 0x4000000A"

definition HandleGetType :: "TPM_HANDLE \<Rightarrow> u8" where
  "HandleGetType handle = ucast (drop_bit HR_SHIFT (handle AND HR_RANGE_MASK))"

section \<open>Words\<close>

lemma unat_u32_of_nat [simp]: "n < 2 ^ 32 \<Longrightarrow> unat (word_of_nat n :: u32) = n"
  by (simp add: unat_of_nat take_bit_nat_eq_self)

lemma unat_u16_of_nat [simp]: "n < 2 ^ 16 \<Longrightarrow> unat (word_of_nat n :: u16) = n"
  by (simp add: unat_of_nat take_bit_nat_eq_self)

lemma unat_mult_u64: "unat a * unat b < 2 ^ 64 \<Longrightarrow> unat (a * b :: u64) = unat a * unat b"
  by (simp add: unat_word_ariths)

lemma unat_plus_le_u64: "unat (a + b :: u64) \<le> unat a + unat b"
  by (simp add: unat_word_ariths)

lemma unat_uminus_of_nat:
  assumes "0 < k" "k < 2 ^ 64"
  shows "unat (- of_nat k :: u64) = 2 ^ 64 - k"
proof -
  have "(- of_nat k :: u64) = of_nat (2 ^ 64 - k)"
    using assms(2) by (simp add: of_nat_diff)
  then have "unat (- of_nat k :: u64) = unat (of_nat (2 ^ 64 - k) :: u64)"
    by (rule arg_cong)
  also have "\<dots> = 2 ^ 64 - k"
    using assms(1) by (simp only: unat_of_nat take_bit_nat_eq_self) simp
  finally show ?thesis .
qed

section \<open>Search loops\<close>

text \<open>
  The loop \<^verbatim>\<open>for(i = 0; i < N; i++) if(P(a[i])) break;\<close> over an array \<open>a\<close> of length \<open>N\<close>: the
  value of \<open>i\<close> after the loop, which is \<open>N\<close> when no element satisfies \<open>P\<close>.
\<close>

fun first_index :: "('a \<Rightarrow> bool) \<Rightarrow> 'a list \<Rightarrow> nat" where
  "first_index P [] = 0"
| "first_index P (x # xs) = (if P x then 0 else Suc (first_index P xs))"

lemma first_index_le [simp]: "first_index P xs \<le> length xs"
  by (induction xs) auto

lemma first_index_less_iff: "first_index P xs < length xs \<longleftrightarrow> (\<exists>x \<in> set xs. P x)"
  by (induction xs) auto

lemma first_index_eq_length_iff: "first_index P xs = length xs \<longleftrightarrow> (\<forall>x \<in> set xs. \<not> P x)"
  by (induction xs) auto

lemma first_index_nth: "first_index P xs < length xs \<Longrightarrow> P (xs ! first_index P xs)"
  by (induction xs) auto

lemma first_index_least: "i < first_index P xs \<Longrightarrow> \<not> P (xs ! i)"
  by (induction xs arbitrary: i) (auto simp: nth_Cons split: nat.splits if_splits)

section \<open>Counting in lists\<close>

lemma length_filter_update:
  "k < length xs \<Longrightarrow> int (length (filter P (xs[k := v]))) =
     int (length (filter P xs)) - of_bool (P (xs ! k)) + of_bool (P v)"
proof (induction xs arbitrary: k)
  case Nil
  then show ?case by simp
next
  case (Cons x xs)
  then show ?case
    using Cons.IH [of "k - 1"] by (cases k) simp_all
qed

lemma length_filter_pos_iff: "0 < length (filter P xs) \<longleftrightarrow> (\<exists>x \<in> set xs. P x)"
  by (induction xs) auto

section \<open>Transition systems\<close>

text \<open>
  The interface of a component that runs as a sequence of steps: a predicate for its start
  states, a step relation, and an invariant that holds at the start and that every step keeps.
\<close>

locale safe_system =
  fixes start :: "'s \<Rightarrow> bool"
    and step :: "'s \<Rightarrow> 's \<Rightarrow> bool"
    and inv :: "'s \<Rightarrow> bool"
  assumes start_inv: "start s \<Longrightarrow> inv s"
    and step_inv: "inv s \<Longrightarrow> step s t \<Longrightarrow> inv t"
begin

lemma steps_inv: "step\<^sup>*\<^sup>* s t \<Longrightarrow> inv s \<Longrightarrow> inv t"
  by (induction rule: rtranclp_induct) (auto intro: step_inv)

lemma reachable_inv: "start s \<Longrightarrow> step\<^sup>*\<^sup>* s t \<Longrightarrow> inv t"
  by (blast intro: steps_inv start_inv)

end

end
