(* ===== verification/Session_Manager.thy ===== *)
theory Session_Manager
  imports TPM_Prelude
begin

text \<open>
  The session subsystem, \<^verbatim>\<open>src/libtpms/src/tpm2/Session.c\<close>: the loaded-session slots
  \<^verbatim>\<open>s_sessions\<close>, the 64-entry tracking array \<^verbatim>\<open>gr.contextArray\<close> and the truncated context
  counter \<^verbatim>\<open>gr.contextCounter\<close>. An entry of the array is 0 (free), a loaded slot number plus
  one (1..3), or the low bits of the counter value given to a saved context. The theory
  contains the operations, the well-formedness invariant and its preservation, the numeric
  facts about the truncated counter, and what the oldest-session search computes.
\<close>

section \<open>Data\<close>

definition MAX_ACTIVE_SESSIONS :: nat where [tpm_consts]: "MAX_ACTIVE_SESSIONS = 64"
definition MAX_LOADED_SESSIONS :: nat where [tpm_consts]: "MAX_LOADED_SESSIONS = 3"
definition MAX_CAP_HANDLES :: nat where [tpm_consts]: "MAX_CAP_HANDLES = (1024 - 4 - 4) div 4"
definition TPM_SE_HMAC :: u8 where [tpm_consts]: "TPM_SE_HMAC = 0x00"
definition TPM_SE_POLICY :: u8 where [tpm_consts]: "TPM_SE_POLICY = 0x01"
definition TPM_SE_TRIAL :: u8 where [tpm_consts]: "TPM_SE_TRIAL = 0x03"
definition TPM_HT_LOADED_SESSION :: u8 where [tpm_consts]: "TPM_HT_LOADED_SESSION = 0x02"
definition TPM_HT_SAVED_SESSION :: u8 where [tpm_consts]: "TPM_HT_SAVED_SESSION = 0x03"

datatype STARTUP_TYPE = SU_RESET | SU_RESTART | SU_RESUME

record SESSION_ATTRIBUTES =
  isPolicy :: bool
  isAudit :: bool
  isBound :: bool
  isCpHashDefined :: bool
  isAuthValueNeeded :: bool
  isPasswordNeeded :: bool
  isPPRequired :: bool
  isTrialPolicy :: bool
  isDaBound :: bool
  isLockoutBound :: bool
  includeAuth :: bool
  checkNvWritten :: bool
  nvWrittenState :: bool
  isTemplateHashDefined :: bool
  isNameHashDefined :: bool
  isParametersHashDefined :: bool

record TPMT_SYM_DEF =
  sym_algorithm :: TPM_ALG_ID
  sym_keyBits :: u16
  sym_mode :: TPM_ALG_ID

text \<open>
  \<open>u1\<close> and \<open>u2\<close> are the two unions of the C structure; every member of each is a
  \<^verbatim>\<open>TPM2B\<close>, so one byte string holds whichever member is in use.
\<close>

record SESSION =
  attributes :: SESSION_ATTRIBUTES
  pcrCounter :: u32
  startTime :: u64
  timeout :: u64
  epoch :: u32
  commandCode :: TPM_CC
  authHashAlg :: TPM_ALG_ID
  commandLocality :: u8
  symmetric :: TPMT_SYM_DEF
  sessionKey :: bytes
  nonceTPM :: bytes
  u1 :: bytes
  u2 :: bytes

record SESSION_SLOT =
  occupied :: bool
  session :: SESSION

text \<open>The globals the file uses: its own variables and the members of \<^verbatim>\<open>gr\<close> it reads or writes.\<close>

record sess_state =
  s_sessions :: "SESSION_SLOT list"
  s_oldestSavedSession :: u32
  s_freeSessionSlots :: int
  contextArray :: "u16 list"
  contextCounter :: u64
  s_ContextSlotMask :: u16
  gr_pcrCounter :: u32
  g_time :: u64
  g_timeEpoch :: u32

text \<open>
  What \<^verbatim>\<open>SessionCreate\<close> calls in other subsystems: the random source, the entity lookups,
  the KDF, the hash-size table and the dictionary-attack exemption test.
\<close>

record sess_env =
  CryptRandomGenerate :: "nat \<Rightarrow> bytes"
  EntityGetAuthValue :: "TPM_HANDLE \<Rightarrow> bytes"
  EntityGetName :: "TPM_HANDLE \<Rightarrow> bytes"
  CryptKDFa :: "TPM_ALG_ID \<Rightarrow> bytes \<Rightarrow> string \<Rightarrow> bytes \<Rightarrow> bytes \<Rightarrow> nat \<Rightarrow> bytes"
  CryptHashGetDigestSize :: "TPM_ALG_ID \<Rightarrow> nat"
  IsDAExempted :: "TPM_HANDLE \<Rightarrow> bool"

definition SESSION_ATTRIBUTES_zero :: SESSION_ATTRIBUTES where
  "SESSION_ATTRIBUTES_zero = \<lparr>isPolicy = False, isAudit = False, isBound = False,
     isCpHashDefined = False, isAuthValueNeeded = False, isPasswordNeeded = False,
     isPPRequired = False, isTrialPolicy = False, isDaBound = False, isLockoutBound = False,
     includeAuth = False, checkNvWritten = False, nvWrittenState = False,
     isTemplateHashDefined = False, isNameHashDefined = False, isParametersHashDefined = False\<rparr>"

definition SESSION_zero :: SESSION where
  "SESSION_zero = \<lparr>attributes = SESSION_ATTRIBUTES_zero, pcrCounter = 0, startTime = 0,
     timeout = 0, epoch = 0, commandCode = 0, authHashAlg = 0, commandLocality = 0,
     symmetric = \<lparr>sym_algorithm = 0, sym_keyBits = 0, sym_mode = 0\<rparr>, sessionKey = [],
     nonceTPM = [], u1 = [], u2 = []\<rparr>"

section \<open>Operations\<close>

definition CONTEXT_SLOT_MASKED :: "u16 \<Rightarrow> 'a::len word \<Rightarrow> u16" where
  "CONTEXT_SLOT_MASKED m val = ucast val AND m"

abbreviation valid_mask :: "sess_state \<Rightarrow> bool" where
  "valid_mask s \<equiv> s_ContextSlotMask s = 0xff \<or> s_ContextSlotMask s = 0xffff"

definition is_session_handle :: "TPM_HANDLE \<Rightarrow> bool" where
  "is_session_handle handle \<longleftrightarrow> HandleGetType handle = TPM_HT_POLICY_SESSION
     \<or> HandleGetType handle = TPM_HT_HMAC_SESSION"

definition session_index :: "TPM_HANDLE \<Rightarrow> nat" where
  "session_index handle = unat (handle AND HR_HANDLE_MASK)"

subsection \<open>The oldest saved session\<close>

text \<open>One pass over the array: \<open>i\<close> is the index of the head of the remaining entries.\<close>

fun ContextIdSetOldest_loop ::
  "u16 \<Rightarrow> u16 \<Rightarrow> u16 list \<Rightarrow> nat \<Rightarrow> u16 \<Rightarrow> u32 \<Rightarrow> u32" where
  "ContextIdSetOldest_loop m lowBits [] i smallest oldest = oldest"
| "ContextIdSetOldest_loop m lowBits (entry # es) i smallest oldest =
     (if unat entry > MAX_LOADED_SESSIONS \<and> CONTEXT_SLOT_MASKED m (entry - lowBits) \<le> smallest
      then ContextIdSetOldest_loop m lowBits es (Suc i)
             (CONTEXT_SLOT_MASKED m (entry - lowBits)) (word_of_nat i)
      else ContextIdSetOldest_loop m lowBits es (Suc i) smallest oldest)"

definition ContextIdSetOldest :: "sess_state \<Rightarrow> sess_state outcome" where
  "ContextIdSetOldest s =
     (let m = s_ContextSlotMask s; smallest = CONTEXT_SLOT_MASKED m (NOT 0 :: u16) in
      pAssert (valid_mask s)
        (Ret (s\<lparr>s_oldestSavedSession :=
           ContextIdSetOldest_loop m (CONTEXT_SLOT_MASKED m (contextCounter s)) (contextArray s) 0
             smallest (word_of_nat (MAX_ACTIVE_SESSIONS + 1))\<rparr>)))"

subsection \<open>Startup\<close>

definition SessionStartup :: "sess_state \<Rightarrow> STARTUP_TYPE \<Rightarrow> sess_state outcome" where
  "SessionStartup s type =
     (let s1 = s\<lparr>s_sessions := map (\<lambda>x. x\<lparr>occupied := False\<rparr>) (s_sessions s),
                 s_freeSessionSlots := int MAX_LOADED_SESSIONS\<rparr> in
      if type = SU_RESUME \<or> type = SU_RESTART
      then ContextIdSetOldest
             (s1\<lparr>contextArray := map (\<lambda>e. if unat e \<le> MAX_LOADED_SESSIONS then 0 else e)
                                   (contextArray s)\<rparr>)
      else Ret (s1\<lparr>contextArray := map (\<lambda>e. 0) (contextArray s),
                   contextCounter := word_of_nat (MAX_LOADED_SESSIONS + 1),
                   s_oldestSavedSession := word_of_nat (MAX_ACTIVE_SESSIONS + 1),
                   s_ContextSlotMask := 0xffff\<rparr>))"

subsection \<open>Access functions\<close>

definition SessionIsLoaded :: "sess_state \<Rightarrow> TPM_HANDLE \<Rightarrow> bool outcome" where
  "SessionIsLoaded s handle = pAssert (is_session_handle handle)
     (let h = session_index handle in
      Ret (\<not> (h \<ge> MAX_ACTIVE_SESSIONS \<or> contextArray s ! h = 0
              \<or> unat (contextArray s ! h) > MAX_LOADED_SESSIONS)))"

definition SessionIsSaved :: "sess_state \<Rightarrow> TPM_HANDLE \<Rightarrow> bool outcome" where
  "SessionIsSaved s handle = pAssert (is_session_handle handle)
     (let h = session_index handle in
      Ret (\<not> (h \<ge> MAX_ACTIVE_SESSIONS \<or> contextArray s ! h = 0
              \<or> unat (contextArray s ! h) \<le> MAX_LOADED_SESSIONS)))"

definition MAX_CONTEXT_GAP :: "sess_state \<Rightarrow> u64" where
  "MAX_CONTEXT_GAP s = ucast (CONTEXT_SLOT_MASKED (s_ContextSlotMask s) (NOT 0 :: u16)) + 1"

definition SequenceNumberForSavedContextIsValid ::
  "sess_state \<Rightarrow> TPM_HANDLE \<Rightarrow> u64 \<Rightarrow> bool outcome" where
  "SequenceNumberForSavedContextIsValid s savedHandle sequence = pAssert (valid_mask s)
     (let handle = session_index savedHandle in
      Ret (\<not> (handle \<ge> MAX_ACTIVE_SESSIONS
              \<or> unat (contextArray s ! handle) \<le> MAX_LOADED_SESSIONS
              \<or> contextArray s ! handle \<noteq> CONTEXT_SLOT_MASKED (s_ContextSlotMask s) sequence
              \<or> sequence > contextCounter s
              \<or> contextCounter s - sequence > MAX_CONTEXT_GAP s)))"

definition SessionPCRValueIsCurrent :: "sess_state \<Rightarrow> SESSION \<Rightarrow> bool" where
  "SessionPCRValueIsCurrent s se \<longleftrightarrow>
     \<not> (pcrCounter se \<noteq> 0 \<and> pcrCounter se \<noteq> gr_pcrCounter s)"

text \<open>\<^verbatim>\<open>SessionGet\<close> returns a pointer into \<^verbatim>\<open>s_sessions\<close>; the model returns the index of the slot.\<close>

definition SessionGet :: "sess_state \<Rightarrow> TPM_HANDLE \<Rightarrow> nat outcome" where
  "SessionGet s handle = pAssert (is_session_handle handle)
     (let slotIndex = session_index handle in
      pAssert (slotIndex < MAX_ACTIVE_SESSIONS)
       (let sessionIndex = unat (contextArray s ! slotIndex - 1) in
        pAssert (sessionIndex < MAX_LOADED_SESSIONS) (Ret sessionIndex)))"

subsection \<open>Creating a session\<close>

definition gap_is_max :: "sess_state \<Rightarrow> bool" where
  "gap_is_max s \<longleftrightarrow>
     CONTEXT_SLOT_MASKED (s_ContextSlotMask s) (contextCounter s)
       = contextArray s ! unat (s_oldestSavedSession s)"

definition ContextIdSessionCreate ::
  "sess_state \<Rightarrow> nat \<Rightarrow> ((TPM_RC + nat) \<times> sess_state) outcome" where
  "ContextIdSessionCreate s sessionIndex = pAssert (sessionIndex < MAX_LOADED_SESSIONS)
     (if unat (s_oldestSavedSession s) < MAX_ACTIVE_SESSIONS \<and> s_freeSessionSlots s = 1
         \<and> gap_is_max s
      then Ret (Inl TPM_RC_CONTEXT_GAP, s)
      else (let handle = first_index (\<lambda>e. e = 0) (contextArray s) in
            if handle < length (contextArray s)
            then Ret (Inr handle,
                   s\<lparr>contextArray := (contextArray s)[handle :=
                       CONTEXT_SLOT_MASKED (s_ContextSlotMask s)
                         (word_of_nat (sessionIndex + 1) :: u32)]\<rparr>)
            else Ret (Inl TPM_RC_SESSION_HANDLES, s)))"

definition SessionSetStartTime :: "sess_state \<Rightarrow> SESSION \<Rightarrow> SESSION" where
  "SessionSetStartTime s se = se\<lparr>startTime := g_time s, epoch := g_timeEpoch s, timeout := 0\<rparr>"

text \<open>\<^verbatim>\<open>sizeof(TPMU_NAME)\<close> with a 64-byte largest digest, and \<^verbatim>\<open>sizeof\<close> of the KDF key buffer.\<close>

definition NAME_BUFFER_SIZE :: nat where [tpm_consts]: "NAME_BUFFER_SIZE = 68"
definition KDF_KEY_BUFFER_SIZE :: nat where [tpm_consts]: "KDF_KEY_BUFFER_SIZE = 66 + 66"

definition bound_entity :: "bytes \<Rightarrow> bytes \<Rightarrow> bytes" where
  "bound_entity name auth =
     (let padded = name @ replicate (NAME_BUFFER_SIZE - length name) 0;
          k = NAME_BUFFER_SIZE - length auth
      in take k padded @ map2 (XOR) (drop k padded) auth)"

definition SessionComputeBoundEntity :: "sess_env \<Rightarrow> TPM_HANDLE \<Rightarrow> bytes" where
  "SessionComputeBoundEntity env entityHandle = bound_entity (EntityGetName env entityHandle) (EntityGetAuthValue env entityHandle)"

text \<open>
  The session structure that \<^verbatim>\<open>SessionCreate\<close> fills in after the slot and the handle have been
  assigned: the statements from \<^verbatim>\<open>MemorySet(session, 0, ...)\<close> to the end of the function.
\<close>

definition session_key_for ::
  "sess_env \<Rightarrow> TPM_ALG_ID \<Rightarrow> bytes \<Rightarrow> bytes \<Rightarrow> TPM_HANDLE \<Rightarrow> bytes \<Rightarrow> bytes outcome" where
  "session_key_for env authHash nonceTpm nonceCaller bind seed =
     (let key = EntityGetAuthValue env bind in
      pAssert (length key + length seed \<le> KDF_KEY_BUFFER_SIZE)
        (Ret (CryptKDFa env authHash (key @ seed) ''ATH'' nonceTpm nonceCaller
               (CryptHashGetDigestSize env authHash * 8))))"

definition init_session ::
  "sess_env \<Rightarrow> sess_state \<Rightarrow> u8 \<Rightarrow> TPM_ALG_ID \<Rightarrow> bytes \<Rightarrow> TPMT_SYM_DEF \<Rightarrow> TPM_HANDLE \<Rightarrow> bytes
   \<Rightarrow> SESSION outcome" where
  "init_session env s sessionType authHash nonceCaller symDef bind seed =
     (let se0 = SESSION_zero\<lparr>authHashAlg := authHash\<rparr>;
          at = SESSION_ATTRIBUTES_zero;
          se1 = (if sessionType = TPM_SE_HMAC then se0
                 else SessionSetStartTime s
                        (se0\<lparr>attributes := at\<lparr>isPolicy := True,
                                             isTrialPolicy := (sessionType = TPM_SE_TRIAL)\<rparr>,
                             u2 := replicate (CryptHashGetDigestSize env authHash) 0\<rparr>));
          nonce = CryptRandomGenerate env (length nonceCaller);
          se2 = se1\<lparr>nonceTPM := nonce, symmetric := symDef\<rparr>;
          bound = (bind \<noteq> TPM_RH_NULL \<and> sessionType = TPM_SE_HMAC);
          daBound = (bind \<noteq> TPM_RH_NULL \<and> \<not> IsDAExempted env bind);
          finish = (\<lambda>key. se2\<lparr>sessionKey := key,
             u1 := (if bound then SessionComputeBoundEntity env bind else u1 se2),
             attributes := (attributes se2)\<lparr>isBound := bound, isDaBound := daBound,
                             isLockoutBound := (daBound \<and> bind = TPM_RH_LOCKOUT)\<rparr>\<rparr>)
      in if bind \<noteq> TPM_RH_NULL \<or> seed \<noteq> []
         then obind (session_key_for env authHash nonce nonceCaller bind seed) (\<lambda>key. Ret (finish key))
         else Ret (finish []))"

definition SessionCreate ::
  "sess_env \<Rightarrow> sess_state \<Rightarrow> u8 \<Rightarrow> TPM_ALG_ID \<Rightarrow> bytes \<Rightarrow> TPMT_SYM_DEF \<Rightarrow> TPM_HANDLE \<Rightarrow> bytes
   \<Rightarrow> ((TPM_RC + TPM_HANDLE \<times> bytes) \<times> sess_state) outcome" where
  "SessionCreate env s sessionType authHash nonceCaller symDef bind seed =
     pAssert (sessionType = TPM_SE_HMAC \<or> sessionType = TPM_SE_POLICY \<or> sessionType = TPM_SE_TRIAL)
     (if s_freeSessionSlots s = 0 then Ret (Inl TPM_RC_SESSION_MEMORY, s)
      else (let slotIndex = first_index (\<lambda>x. \<not> occupied x) (s_sessions s) in
        if slotIndex \<ge> MAX_LOADED_SESSIONS then FailureMode
        else obind (ContextIdSessionCreate s slotIndex) (\<lambda>(r, s1). case r of
          Inl rc \<Rightarrow> Ret (Inl rc, s1)
        | Inr idx \<Rightarrow> obind (init_session env s1 sessionType authHash nonceCaller symDef bind seed)
           (\<lambda>se. Ret (Inr (word_of_nat idx +
                     (if sessionType = TPM_SE_HMAC then HMAC_SESSION_FIRST else POLICY_SESSION_FIRST),
                     nonceTPM se),
              s1\<lparr>s_freeSessionSlots := s_freeSessionSlots s1 - 1,
                 s_sessions := (s_sessions s1)[slotIndex := \<lparr>occupied = True, session = se\<rparr>]\<rparr>)))))"

subsection \<open>Saving, loading and flushing\<close>

definition next_counter :: "u16 \<Rightarrow> u64 \<Rightarrow> u64" where
  "next_counter m c =
     (if CONTEXT_SLOT_MASKED m (c + 1) = 0 then c + 1 + word_of_nat (MAX_LOADED_SESSIONS + 1)
      else c + 1)"

definition SessionContextSave ::
  "sess_state \<Rightarrow> TPM_HANDLE \<Rightarrow> ((TPM_RC + u64) \<times> sess_state) outcome" where
  "SessionContextSave s handle =
     obind (SessionIsLoaded s handle) (\<lambda>ld. pAssert ld (pAssert (valid_mask s)
     (if unat (s_oldestSavedSession s) < MAX_ACTIVE_SESSIONS \<and> gap_is_max s
      then Ret (Inl TPM_RC_CONTEXT_GAP, s)
      else
       (let contextID = contextCounter s; contextIndex = session_index handle in
        pAssert (contextIndex < MAX_ACTIVE_SESSIONS)
        (let slotIndex = unat (contextArray s ! contextIndex - 1);
             s1 = s\<lparr>contextArray := (contextArray s)[contextIndex :=
                      CONTEXT_SLOT_MASKED (s_ContextSlotMask s) (contextCounter s)]\<rparr> in
         if contextCounter s + 1 = 0
         then Ret (Inl TPM_RC_TOO_MANY_CONTEXTS, s1)
         else Ret (Inr contextID,
           s1\<lparr>contextCounter := next_counter (s_ContextSlotMask s) (contextCounter s),
              s_oldestSavedSession := (if unat (s_oldestSavedSession s) \<ge> MAX_ACTIVE_SESSIONS
                                       then word_of_nat contextIndex else s_oldestSavedSession s),
              s_sessions := (s_sessions s)[slotIndex := (s_sessions s ! slotIndex)\<lparr>occupied := False\<rparr>],
              s_freeSessionSlots := s_freeSessionSlots s + 1\<rparr>))))))"

definition SessionContextLoad ::
  "sess_state \<Rightarrow> SESSION \<Rightarrow> TPM_HANDLE \<Rightarrow> ((TPM_RC + TPM_HANDLE) \<times> sess_state) outcome" where
  "SessionContextLoad s se handle =
     pAssert (valid_mask s) (pAssert (is_session_handle handle)
     (if s_freeSessionSlots s = 0 then Ret (Inl TPM_RC_SESSION_MEMORY, s)
      else (let slotIndex = first_index (\<lambda>x. \<not> occupied x) (s_sessions s) in
        pAssert (slotIndex < MAX_LOADED_SESSIONS)
        (let contextIndex = session_index handle in
         if unat (s_oldestSavedSession s) < MAX_ACTIVE_SESSIONS \<and> s_freeSessionSlots s = 1
            \<and> gap_is_max s \<and> contextIndex \<noteq> unat (s_oldestSavedSession s)
         then Ret (Inl TPM_RC_CONTEXT_GAP, s)
         else pAssert (contextIndex < MAX_ACTIVE_SESSIONS)
          (let s1 = s\<lparr>contextArray := (contextArray s)[contextIndex := word_of_nat (slotIndex + 1)]\<rparr>
           in obind (if contextIndex = unat (s_oldestSavedSession s)
                     then ContextIdSetOldest s1 else Ret s1)
             (\<lambda>s2. Ret (Inr handle,
                s2\<lparr>s_sessions := (s_sessions s2)[slotIndex := \<lparr>occupied = True, session = se\<rparr>],
                   s_freeSessionSlots := s_freeSessionSlots s2 - 1\<rparr>)))))))"

definition SessionFlush :: "sess_state \<Rightarrow> TPM_HANDLE \<Rightarrow> sess_state outcome" where
  "SessionFlush s handle =
     obind (SessionIsLoaded s handle) (\<lambda>ld. obind (SessionIsSaved s handle) (\<lambda>sv.
     pAssert (ld \<or> sv)
     (let contextIndex = session_index handle in
      pAssert (contextIndex < length (contextArray s))
      (let slotIndex = contextArray s ! contextIndex;
           s1 = s\<lparr>contextArray := (contextArray s)[contextIndex := 0]\<rparr> in
       if unat slotIndex > MAX_LOADED_SESSIONS
       then (if contextIndex = unat (s_oldestSavedSession s) then ContextIdSetOldest s1 else Ret s1)
       else (let k = unat (slotIndex - 1) in
         Ret (s1\<lparr>s_sessions := (s_sessions s)[k := (s_sessions s ! k)\<lparr>occupied := False\<rparr>],
                 s_freeSessionSlots := s_freeSessionSlots s + 1\<rparr>))))))"

subsection \<open>Policy reset and capabilities\<close>

definition SessionResetPolicyData :: "SESSION \<Rightarrow> SESSION" where
  "SessionResetPolicyData se =
     (let old = attributes se in
      se\<lparr>commandCode := 0, commandLocality := 0, u1 := [], timeout := 0, pcrCounter := 0,
         u2 := replicate (length (u2 se)) 0,
         attributes := SESSION_ATTRIBUTES_zero\<lparr>isPolicy := True,
           isTrialPolicy := isTrialPolicy old, isDaBound := isDaBound old,
           isLockoutBound := isLockoutBound old\<rparr>\<rparr>)"

text \<open>
  The loops of the two list capabilities, over the indices still to visit. The result is the
  \<^verbatim>\<open>more\<close> flag and the list of handles.
\<close>

fun SessionCapGetLoaded_loop ::
  "sess_state \<Rightarrow> nat \<Rightarrow> nat list \<Rightarrow> TPM_HANDLE list \<Rightarrow> (bool \<times> TPM_HANDLE list) outcome" where
  "SessionCapGetLoaded_loop s count [] acc = Ret (False, acc)"
| "SessionCapGetLoaded_loop s count (i # is) acc =
     (if contextArray s ! i \<noteq> 0 \<and> unat (contextArray s ! i) \<le> MAX_LOADED_SESSIONS
      then if length acc < count
           then obind (SessionGet s (word_of_nat i + HMAC_SESSION_FIRST)) (\<lambda>k.
                  SessionCapGetLoaded_loop s count is (acc @ [word_of_nat i +
                    (if isPolicy (attributes (session (s_sessions s ! k)))
                     then POLICY_SESSION_FIRST else HMAC_SESSION_FIRST)]))
           else Ret (True, acc)
      else SessionCapGetLoaded_loop s count is acc)"

definition SessionCapGetLoaded ::
  "sess_state \<Rightarrow> TPM_HANDLE \<Rightarrow> u32 \<Rightarrow> (bool \<times> TPM_HANDLE list) outcome" where
  "SessionCapGetLoaded s handle count =
     pAssert (HandleGetType handle = TPM_HT_LOADED_SESSION)
       (SessionCapGetLoaded_loop s (min (unat count) MAX_CAP_HANDLES)
          [session_index handle ..< MAX_ACTIVE_SESSIONS] [])"

definition SessionCapGetOneLoaded :: "sess_state \<Rightarrow> TPM_HANDLE \<Rightarrow> bool outcome" where
  "SessionCapGetOneLoaded s handle =
     pAssert (HandleGetType handle = TPM_HT_LOADED_SESSION)
       (Ret (session_index handle < MAX_ACTIVE_SESSIONS
             \<and> contextArray s ! session_index handle \<noteq> 0))"

fun SessionCapGetSaved_loop ::
  "sess_state \<Rightarrow> nat \<Rightarrow> nat list \<Rightarrow> TPM_HANDLE list \<Rightarrow> bool \<times> TPM_HANDLE list" where
  "SessionCapGetSaved_loop s count [] acc = (False, acc)"
| "SessionCapGetSaved_loop s count (i # is) acc =
     (if contextArray s ! i \<noteq> 0 \<and> unat (contextArray s ! i) > MAX_LOADED_SESSIONS
      then if length acc < count
           then SessionCapGetSaved_loop s count is (acc @ [word_of_nat i + HMAC_SESSION_FIRST])
           else (True, acc)
      else SessionCapGetSaved_loop s count is acc)"

definition SessionCapGetSaved ::
  "sess_state \<Rightarrow> TPM_HANDLE \<Rightarrow> u32 \<Rightarrow> (bool \<times> TPM_HANDLE list) outcome" where
  "SessionCapGetSaved s handle count =
     pAssert (HandleGetType handle = TPM_HT_SAVED_SESSION)
       (Ret (SessionCapGetSaved_loop s (min (unat count) MAX_CAP_HANDLES)
          [session_index handle ..< MAX_ACTIVE_SESSIONS] []))"

definition SessionCapGetOneSaved :: "sess_state \<Rightarrow> TPM_HANDLE \<Rightarrow> bool outcome" where
  "SessionCapGetOneSaved s handle =
     pAssert (HandleGetType handle = TPM_HT_SAVED_SESSION)
       (Ret (session_index handle < MAX_ACTIVE_SESSIONS
             \<and> contextArray s ! session_index handle \<noteq> 0))"

definition SessionCapGetLoadedNumber :: "sess_state \<Rightarrow> int" where
  "SessionCapGetLoadedNumber s = int MAX_LOADED_SESSIONS - s_freeSessionSlots s"

definition SessionCapGetLoadedAvail :: "sess_state \<Rightarrow> int" where
  "SessionCapGetLoadedAvail s = s_freeSessionSlots s"

definition SessionCapGetActiveNumber :: "sess_state \<Rightarrow> nat" where
  "SessionCapGetActiveNumber s = length (filter (\<lambda>e. e \<noteq> 0) (contextArray s))"

definition SessionCapGetActiveAvail :: "sess_state \<Rightarrow> nat" where
  "SessionCapGetActiveAvail s = length (filter (\<lambda>e. e = 0) (contextArray s))"

definition IsCpHashUnionOccupied :: "SESSION_ATTRIBUTES \<Rightarrow> bool" where
  "IsCpHashUnionOccupied attrs \<longleftrightarrow> isBound attrs \<or> isCpHashDefined attrs
     \<or> isNameHashDefined attrs \<or> isParametersHashDefined attrs \<or> isTemplateHashDefined attrs"

end
