(* ===== verification/Session_Invariant.thy ===== *)
theory Session_Invariant
  imports Session_Manager
begin

text \<open>
  The invariant of the session subsystem and its preservation: arithmetic of the truncated
  counter, what the oldest-session search computes, and one lemma per operation of
  \<^verbatim>\<open>Session.c\<close> (startup, create, save, load, flush). The two updates \<open>occupy\<close> and \<open>vacate\<close>
  are what create and load, respectively save and flush, have in common.
\<close>

section \<open>The truncated counter\<close>

definition slot_range :: "u16 \<Rightarrow> nat" where
  "slot_range m = unat m + 1"

lemma CONTEXT_SLOT_MASKED_unat:
  fixes v :: "'a::len word"
  assumes "m = 0xff \<or> m = 0xffff" and "16 \<le> LENGTH('a)"
  shows "unat (CONTEXT_SLOT_MASKED m v) = unat v mod slot_range m"
proof -
  have u: "unat (ucast v :: u16) = unat v mod 65536"
    by (simp add: unsigned_ucast_eq take_bit_eq_mod)
  have "(0xffff :: u16) = -1"
    by simp
  then have a: "x AND (0xffff :: u16) = x" for x
    by (simp only: and.right_neutral)
  have "x AND (0xff :: u16) = take_bit 8 x" for x
    by (simp add: take_bit_eq_mask mask_eq_exp_minus_1)
  then have b: "unat (x AND (0xff :: u16)) = unat x mod 256" for x
    by (simp add: unat_mod take_bit_eq_mod)
  show ?thesis
    using assms(1)
  proof
    assume "m = 0xff"
    then show ?thesis
      by (simp add: CONTEXT_SLOT_MASKED_def slot_range_def b u mod_mod_cancel)
  next
    assume "m = 0xffff"
    then show ?thesis
      by (simp add: CONTEXT_SLOT_MASKED_def slot_range_def a u)
  qed
qed

lemma mod_256_wrap:
  fixes a b :: nat
  assumes "a < 256" and "b < 256" and "a < b"
  shows "(a + 65536 - b) mod 256 = a + 256 - b"
proof -
  have "a + 65536 - b = (a + 256 - b) + 255 * 256"
    using assms by simp
  moreover have "a + 256 - b < 256"
    using assms by simp
  ultimately show ?thesis by (metis mod_less mod_mult_self1)
qed

lemma slot_dist_unat:
  fixes e low :: u16
  assumes "m = 0xff \<or> m = 0xffff" and "unat e < slot_range m" and "unat low < slot_range m"
  shows "unat (CONTEXT_SLOT_MASKED m (e - low)) =
    (if unat low \<le> unat e then unat e - unat low else unat e + slot_range m - unat low)"
proof -
  have s: "unat (e - low) = (if unat low \<le> unat e then unat e - unat low
                             else unat e + 65536 - unat low)"
    by (simp add: unat_sub_if_size word_size)
  have d: "unat (CONTEXT_SLOT_MASKED m (e - low)) = unat (e - low) mod slot_range m"
    using assms(1) by (rule CONTEXT_SLOT_MASKED_unat) simp
  from assms(1) show ?thesis
  proof
    assume m: "m = 0xff"
    then have "slot_range m = 256" by (simp add: slot_range_def)
    with assms(2,3) show ?thesis
      by (auto simp: d s mod_256_wrap)
  next
    assume m: "m = 0xffff"
    then have "slot_range m = 65536" by (simp add: slot_range_def)
    with assms(2,3) show ?thesis
      by (auto simp: d s)
  qed
qed

section \<open>The oldest-session search\<close>

abbreviation slot_saved :: "u16 \<Rightarrow> bool" where
  "slot_saved e \<equiv> MAX_LOADED_SESSIONS < unat e"

lemma ContextIdSetOldest_loop_cases:
  fixes m low :: u16
  defines "D \<equiv> \<lambda>e. CONTEXT_SLOT_MASKED m (e - low)"
  defines "r \<equiv> \<lambda>es i sm old. ContextIdSetOldest_loop m low es i sm old"
  shows "(r es i sm old = old \<and> (\<forall>j < length es. slot_saved (es ! j) \<longrightarrow> sm < D (es ! j)))
    \<or> (\<exists>j < length es. slot_saved (es ! j) \<and> r es i sm old = word_of_nat (i + j)
         \<and> D (es ! j) \<le> sm \<and> (\<forall>k < length es. slot_saved (es ! k) \<longrightarrow> D (es ! j) \<le> D (es ! k)))"
proof (induction es arbitrary: i sm old)
  case Nil
  then show ?case by (simp add: r_def)
next
  case (Cons e es)
  show ?case
  proof (cases "slot_saved e \<and> D e \<le> sm")
    case True
    then have r: "r (e # es) i sm old = r es (Suc i) (D e) (word_of_nat i)"
      by (simp add: r_def D_def)
    from Cons.IH [of "Suc i" "D e" "word_of_nat i"] show ?thesis
    proof (elim disjE exE conjE)
      assume "r es (Suc i) (D e) (word_of_nat i) = word_of_nat i"
        and "\<forall>j < length es. slot_saved (es ! j) \<longrightarrow> D e < D (es ! j)"
      then show ?thesis
        using True r by (intro disjI2 exI [of _ 0]) (auto simp: nth_Cons split: nat.splits)
    next
      fix j
      assume "j < length es" and "slot_saved (es ! j)" and "D (es ! j) \<le> D e"
        and "r es (Suc i) (D e) (word_of_nat i) = word_of_nat (Suc i + j)"
        and "\<forall>k < length es. slot_saved (es ! k) \<longrightarrow> D (es ! j) \<le> D (es ! k)"
      then show ?thesis
        using True r by (intro disjI2 exI [of _ "Suc j"]) (auto simp: nth_Cons split: nat.splits)
    qed
  next
    case False
    then have r: "r (e # es) i sm old = r es (Suc i) sm old"
      by (auto simp: r_def D_def)
    from Cons.IH [of "Suc i" sm old] show ?thesis
    proof (elim disjE exE conjE)
      assume "r es (Suc i) sm old = old"
        and "\<forall>j < length es. slot_saved (es ! j) \<longrightarrow> sm < D (es ! j)"
      then show ?thesis
        using False r by (auto simp: nth_Cons split: nat.splits)
    next
      fix j
      assume "j < length es" and "slot_saved (es ! j)" and "D (es ! j) \<le> sm"
        and "r es (Suc i) sm old = word_of_nat (Suc i + j)"
        and "\<forall>k < length es. slot_saved (es ! k) \<longrightarrow> D (es ! j) \<le> D (es ! k)"
      then show ?thesis
        using False r by (intro disjI2 exI [of _ "Suc j"]) (auto simp: nth_Cons split: nat.splits)
    qed
  qed
qed

section \<open>The session invariant\<close>

abbreviation low_bits :: "sess_state \<Rightarrow> u16" where
  "low_bits s \<equiv> CONTEXT_SLOT_MASKED (s_ContextSlotMask s) (contextCounter s)"

definition saved :: "sess_state \<Rightarrow> nat \<Rightarrow> bool" where
  "saved s i \<longleftrightarrow> i < MAX_ACTIVE_SESSIONS \<and> slot_saved (contextArray s ! i)"

text \<open>How far the counter is from reaching the value of entry \<open>i\<close> again: the older, the smaller.\<close>

definition slot_dist :: "sess_state \<Rightarrow> nat \<Rightarrow> u16" where
  "slot_dist s i = CONTEXT_SLOT_MASKED (s_ContextSlotMask s) (contextArray s ! i - low_bits s)"

definition oldest_ok :: "sess_state \<Rightarrow> bool" where
  "oldest_ok s \<longleftrightarrow>
     (if \<exists>i. saved s i
      then saved s (unat (s_oldestSavedSession s))
        \<and> (\<forall>i. saved s i \<longrightarrow> slot_dist s (unat (s_oldestSavedSession s)) \<le> slot_dist s i)
      else MAX_ACTIVE_SESSIONS \<le> unat (s_oldestSavedSession s))"

text \<open>
  The tracking data that survives in \<^verbatim>\<open>gr\<close>: entries fit the mask, the low bits of the counter
  are never one of the values that mean free or loaded, and no two entries in use are equal.
\<close>

definition track_ok :: "sess_state \<Rightarrow> bool" where
  "track_ok s \<longleftrightarrow> length (contextArray s) = MAX_ACTIVE_SESSIONS \<and> valid_mask s
     \<and> (\<forall>i < MAX_ACTIVE_SESSIONS. unat (contextArray s ! i) < slot_range (s_ContextSlotMask s))
     \<and> MAX_LOADED_SESSIONS < unat (low_bits s)
     \<and> (\<forall>i < MAX_ACTIVE_SESSIONS. \<forall>j < MAX_ACTIVE_SESSIONS.
          contextArray s ! i \<noteq> 0 \<and> contextArray s ! i = contextArray s ! j \<longrightarrow> i = j)"

definition slots_ok :: "sess_state \<Rightarrow> bool" where
  "slots_ok s \<longleftrightarrow> length (s_sessions s) = MAX_LOADED_SESSIONS
     \<and> s_freeSessionSlots s = int (length (filter (\<lambda>x. \<not> occupied x) (s_sessions s)))
     \<and> (\<forall>k < MAX_LOADED_SESSIONS. occupied (s_sessions s ! k) \<longleftrightarrow>
          (\<exists>i < MAX_ACTIVE_SESSIONS. unat (contextArray s ! i) = k + 1))"

text \<open>At the maximum gap a slot is always left, so that the oldest session can be recycled.\<close>

definition gap_reserve :: "sess_state \<Rightarrow> bool" where
  "gap_reserve s \<longleftrightarrow>
     (saved s (unat (s_oldestSavedSession s)) \<and> gap_is_max s \<longrightarrow> 1 \<le> s_freeSessionSlots s)"

definition sess_inv :: "sess_state \<Rightarrow> bool" where
  "sess_inv s \<longleftrightarrow> track_ok s \<and> slots_ok s \<and> oldest_ok s \<and> gap_reserve s"

lemma low_bits_less: "valid_mask s \<Longrightarrow> unat (low_bits s) < slot_range (s_ContextSlotMask s)"
  by (subst CONTEXT_SLOT_MASKED_unat) (auto simp: slot_range_def)

lemma low_bits_unat:
  "valid_mask s \<Longrightarrow> unat (low_bits s) = unat (contextCounter s) mod slot_range (s_ContextSlotMask s)"
  by (rule CONTEXT_SLOT_MASKED_unat) auto

lemma slot_dist_eq:
  assumes "track_ok s" and "i < MAX_ACTIVE_SESSIONS"
  shows "unat (slot_dist s i) =
    (if unat (low_bits s) \<le> unat (contextArray s ! i)
     then unat (contextArray s ! i) - unat (low_bits s)
     else unat (contextArray s ! i) + slot_range (s_ContextSlotMask s) - unat (low_bits s))"
  unfolding slot_dist_def
  by (rule slot_dist_unat) (use assms low_bits_less in \<open>auto simp: track_ok_def\<close>)

lemma wrap_diff_0_iff:
  fixes e l n :: nat
  shows "l < n \<Longrightarrow> (if l \<le> e then e - l else e + n - l) = 0 \<longleftrightarrow> e = l"
  by auto

lemma slot_dist_0_iff:
  assumes "track_ok s" and "i < MAX_ACTIVE_SESSIONS"
  shows "slot_dist s i = 0 \<longleftrightarrow> contextArray s ! i = low_bits s"
proof -
  have "unat (low_bits s) < slot_range (s_ContextSlotMask s)"
    using assms by (intro low_bits_less) (simp add: track_ok_def)
  then have "unat (slot_dist s i) = 0 \<longleftrightarrow> unat (contextArray s ! i) = unat (low_bits s)"
    by (subst slot_dist_eq [OF assms]) (rule wrap_diff_0_iff)
  then show ?thesis by (simp add: word_unat_eq_iff)
qed

text \<open>What \<^verbatim>\<open>ContextIdSetOldest\<close> computes, for any tracking data.\<close>

lemma ContextIdSetOldest_Ret:
  assumes "valid_mask s" and len: "length (contextArray s) = MAX_ACTIVE_SESSIONS"
  shows "\<exists>o'. ContextIdSetOldest s = Ret (s\<lparr>s_oldestSavedSession := o'\<rparr>)
    \<and> oldest_ok (s\<lparr>s_oldestSavedSession := o'\<rparr>)"
proof -
  let ?m = "s_ContextSlotMask s"
  let ?o = "ContextIdSetOldest_loop ?m (low_bits s) (contextArray s) 0
             (CONTEXT_SLOT_MASKED ?m (NOT 0 :: u16)) (word_of_nat (MAX_ACTIVE_SESSIONS + 1))"
  have top: "CONTEXT_SLOT_MASKED ?m v \<le> CONTEXT_SLOT_MASKED ?m (NOT 0 :: u16)" for v :: u16
    using assms(1) by (auto simp: CONTEXT_SLOT_MASKED_def intro: word_and_le1)
  have "oldest_ok (s\<lparr>s_oldestSavedSession := ?o\<rparr>)"
    using ContextIdSetOldest_loop_cases [of ?m "low_bits s" "contextArray s" 0
        "CONTEXT_SLOT_MASKED ?m (NOT 0 :: u16)" "word_of_nat (MAX_ACTIVE_SESSIONS + 1)"]
  proof (elim disjE exE conjE)
    assume "?o = word_of_nat (MAX_ACTIVE_SESSIONS + 1)"
      and "\<forall>j<length (contextArray s). slot_saved (contextArray s ! j) \<longrightarrow>
        CONTEXT_SLOT_MASKED ?m (NOT 0 :: u16) < CONTEXT_SLOT_MASKED ?m (contextArray s ! j - low_bits s)"
    then show ?thesis
      using top len by (auto simp: oldest_ok_def saved_def not_less [symmetric] tpm_consts)
  next
    fix j
    assume "j < length (contextArray s)" and "slot_saved (contextArray s ! j)" and o: "?o = word_of_nat (0 + j)"
      and "\<forall>k<length (contextArray s). slot_saved (contextArray s ! k) \<longrightarrow>
        CONTEXT_SLOT_MASKED ?m (contextArray s ! j - low_bits s)
          \<le> CONTEXT_SLOT_MASKED ?m (contextArray s ! k - low_bits s)"
    moreover from this have "unat ?o = j"
      using len by (simp add: tpm_consts)
    ultimately show ?thesis
      using len by (auto simp: oldest_ok_def saved_def slot_dist_def)
  qed
  moreover have "ContextIdSetOldest s = Ret (s\<lparr>s_oldestSavedSession := ?o\<rparr>)"
    using assms(1) by (simp add: ContextIdSetOldest_def Let_def pAssert_def)
  ultimately show ?thesis by blast
qed

lemma masked_slot_number:
  assumes "m = 0xff \<or> m = 0xffff" and "k < MAX_LOADED_SESSIONS"
  shows "CONTEXT_SLOT_MASKED m (word_of_nat (k + 1) :: u32) = word_of_nat (k + 1)"
proof -
  have "k + 1 < slot_range m"
    using assms by (auto simp: slot_range_def tpm_consts)
  moreover have "unat (word_of_nat (k + 1) :: u32) = k + 1" "unat (word_of_nat (k + 1) :: u16) = k + 1"
    using assms(2) by (subst unat_u32_of_nat unat_u16_of_nat; simp add: tpm_consts)+
  ultimately show ?thesis
    by (intro word_unat_eq_iff [THEN iffD2]) (simp add: CONTEXT_SLOT_MASKED_unat [OF assms(1)])
qed

lemma unat_slot_number: "k < MAX_LOADED_SESSIONS \<Longrightarrow> unat (word_of_nat (Suc k) :: u16) = Suc k"
  by (rule unat_u16_of_nat) (simp add: tpm_consts)

lemma first_free_slot:
  assumes "slots_ok s" and "s_freeSessionSlots s \<noteq> 0"
  defines "k \<equiv> first_index (\<lambda>x. \<not> occupied x) (s_sessions s)"
  shows "k < MAX_LOADED_SESSIONS" and "\<not> occupied (s_sessions s ! k)"
proof -
  from assms have "0 < length (filter (\<lambda>x. \<not> occupied x) (s_sessions s))"
    by (simp add: slots_ok_def)
  then have "k < length (s_sessions s)"
    by (simp add: k_def first_index_less_iff length_filter_pos_iff del: length_greater_0_conv)
  then show "k < MAX_LOADED_SESSIONS" and "\<not> occupied (s_sessions s ! k)"
    using assms(1) first_index_nth [of "\<lambda>x. \<not> occupied x" "s_sessions s"]
    by (auto simp: k_def slots_ok_def)
qed

text \<open>Loading a session into slot \<open>k\<close>: the common part of create and load.\<close>

definition occupy :: "sess_state \<Rightarrow> nat \<Rightarrow> nat \<Rightarrow> SESSION \<Rightarrow> sess_state" where
  "occupy s h k se = s\<lparr>contextArray := (contextArray s)[h := word_of_nat (k + 1)],
     s_sessions := (s_sessions s)[k := \<lparr>occupied = True, session = se\<rparr>],
     s_freeSessionSlots := s_freeSessionSlots s - 1\<rparr>"

lemma occupy_entry:
  "length (contextArray s) = MAX_ACTIVE_SESSIONS \<Longrightarrow> i < MAX_ACTIVE_SESSIONS \<Longrightarrow>
     contextArray (occupy s h k se) ! i = (if i = h then word_of_nat (k + 1) else contextArray s ! i)"
  by (simp add: occupy_def nth_list_update)

lemma occupy_slots_ok:
  assumes "track_ok s" and "slots_ok s" and "h < MAX_ACTIVE_SESSIONS" and "k < MAX_LOADED_SESSIONS"
    and "\<not> occupied (s_sessions s ! k)" and "contextArray s ! h = 0 \<or> saved s h"
  shows "track_ok (occupy s h k se)" and "slots_ok (occupy s h k se)"
proof -
  have len: "length (contextArray s) = MAX_ACTIVE_SESSIONS" "length (s_sessions s) = MAX_LOADED_SESSIONS"
    using assms by (auto simp: track_ok_def slots_ok_def)
  note e = occupy_entry [OF len(1)]
  have k: "unat (word_of_nat (Suc k) :: u16) = Suc k"
    using assms(4) by (rule unat_slot_number)
  have free: "\<forall>i < MAX_ACTIVE_SESSIONS. unat (contextArray s ! i) \<noteq> Suc k"
    using assms(2,4,5) by (auto simp: slots_ok_def)
  then have free': "\<forall>i < MAX_ACTIVE_SESSIONS. contextArray s ! i \<noteq> word_of_nat (Suc k)"
    using k by auto
  have "Suc k < slot_range (s_ContextSlotMask s)"
    using assms(1,4) by (auto simp: track_ok_def slot_range_def tpm_consts)
  moreover have "length (contextArray (occupy s h k se)) = MAX_ACTIVE_SESSIONS"
    using len by (simp add: occupy_def)
  moreover have "low_bits (occupy s h k se) = low_bits s" "s_ContextSlotMask (occupy s h k se) = s_ContextSlotMask s"
    by (simp_all add: occupy_def)
  ultimately show "track_ok (occupy s h k se)"
    using assms(1) free' k by (auto simp: track_ok_def e split: if_splits)
  have h: "\<forall>j < MAX_LOADED_SESSIONS. unat (contextArray s ! h) \<noteq> Suc j"
    using assms(6) by (auto simp: saved_def tpm_consts)
  have occ: "occupied (s_sessions (occupy s h k se) ! j) \<longleftrightarrow>
      (\<exists>i < MAX_ACTIVE_SESSIONS. unat (contextArray (occupy s h k se) ! i) = j + 1)"
    if j: "j < MAX_LOADED_SESSIONS" for j
  proof (cases "j = k")
    case True
    then show ?thesis
      using assms(3,4) len k e [of h h k se] by (auto simp: occupy_def intro!: exI [of _ h])
  next
    case False
    have "occupied (s_sessions s ! j) \<longleftrightarrow> (\<exists>i < MAX_ACTIVE_SESSIONS. unat (contextArray s ! i) = j + 1)"
      using assms(2) j by (simp add: slots_ok_def)
    moreover have "(unat (contextArray (occupy s h k se) ! i) = j + 1) \<longleftrightarrow> unat (contextArray s ! i) = j + 1"
      if "i < MAX_ACTIVE_SESSIONS" for i
      using that h j False k by (auto simp: e)
    ultimately show ?thesis
      using False by (auto simp: occupy_def)
  qed
  have "int (length (filter (\<lambda>x. \<not> occupied x) (s_sessions (occupy s h k se)))) = s_freeSessionSlots s - 1"
    using assms(2,4,5) len by (simp add: occupy_def length_filter_update slots_ok_def)
  with occ len show "slots_ok (occupy s h k se)"
    by (simp add: slots_ok_def occupy_def)
qed

text \<open>
  Taking the session at array index \<open>h\<close> out of its slot and writing \<open>v\<close> to the entry: the
  common part of saving (\<open>v\<close> is the context identifier) and flushing (\<open>v = 0\<close>) a loaded session.
\<close>

definition vacate :: "sess_state \<Rightarrow> nat \<Rightarrow> u16 \<Rightarrow> sess_state" where
  "vacate s h v = (let k = unat (contextArray s ! h - 1) in
     s\<lparr>contextArray := (contextArray s)[h := v],
       s_sessions := (s_sessions s)[k := (s_sessions s ! k)\<lparr>occupied := False\<rparr>],
       s_freeSessionSlots := s_freeSessionSlots s + 1\<rparr>)"

definition is_loaded :: "sess_state \<Rightarrow> nat \<Rightarrow> bool" where
  "is_loaded s i \<longleftrightarrow> i < MAX_ACTIVE_SESSIONS \<and> contextArray s ! i \<noteq> 0 \<and> \<not> slot_saved (contextArray s ! i)"

lemma is_loaded_slot:
  assumes "is_loaded s h"
  defines "k \<equiv> unat (contextArray s ! h - 1)"
  shows "k < MAX_LOADED_SESSIONS" and "unat (contextArray s ! h) = Suc k"
proof -
  have "0 < unat (contextArray s ! h)"
    using assms(1) by (simp add: is_loaded_def unat_gt_0)
  moreover from this have "k = unat (contextArray s ! h) - 1"
    by (simp add: k_def unat_sub word_le_nat_alt)
  moreover have "unat (contextArray s ! h) \<le> MAX_LOADED_SESSIONS"
    using assms(1) by (simp add: is_loaded_def)
  ultimately show "k < MAX_LOADED_SESSIONS" and "unat (contextArray s ! h) = Suc k"
    by linarith+
qed

lemma vacate_entry:
  "length (contextArray s) = MAX_ACTIVE_SESSIONS \<Longrightarrow> i < MAX_ACTIVE_SESSIONS \<Longrightarrow>
     contextArray (vacate s h v) ! i = (if i = h then v else contextArray s ! i)"
  by (simp add: vacate_def Let_def nth_list_update)

lemma vacate_slots_ok:
  assumes "track_ok s" and "slots_ok s" and "is_loaded s h" and v: "v = 0 \<or> slot_saved v"
  shows "slots_ok (vacate s h v)"
proof -
  have len: "length (contextArray s) = MAX_ACTIVE_SESSIONS" "length (s_sessions s) = MAX_LOADED_SESSIONS"
    using assms by (auto simp: track_ok_def slots_ok_def)
  note e = vacate_entry [OF len(1)]
  define k where "k = unat (contextArray s ! h - 1)"
  have k: "k < MAX_LOADED_SESSIONS" "unat (contextArray s ! h) = Suc k"
    using is_loaded_slot [OF assms(3)] by (simp_all add: k_def)
  have h: "h < MAX_ACTIVE_SESSIONS"
    using assms(3) by (simp add: is_loaded_def)
  have uniq: "i = h" if "i < MAX_ACTIVE_SESSIONS" "unat (contextArray s ! i) = Suc k" for i
  proof -
    from that k have "contextArray s ! i = contextArray s ! h"
      by (simp add: word_unat_eq_iff)
    moreover from that have "contextArray s ! i \<noteq> 0" by auto
    ultimately show ?thesis
      using assms(1) that(1) h by (simp add: track_ok_def)
  qed
  have v': "\<forall>j < MAX_LOADED_SESSIONS. unat v \<noteq> Suc j"
    using v by auto
  have occ: "occupied (s_sessions (vacate s h v) ! j) \<longleftrightarrow>
      (\<exists>i < MAX_ACTIVE_SESSIONS. unat (contextArray (vacate s h v) ! i) = j + 1)"
    if j: "j < MAX_LOADED_SESSIONS" for j
  proof (cases "j = k")
    case True
    have "\<not> occupied (s_sessions (vacate s h v) ! k)"
      using k len by (simp add: vacate_def Let_def k_def)
    moreover have "unat (contextArray (vacate s h v) ! i) \<noteq> Suc k" if "i < MAX_ACTIVE_SESSIONS" for i
      using that uniq v' k by (auto simp: e)
    ultimately show ?thesis
      using True by auto
  next
    case False
    have "occupied (s_sessions s ! j) \<longleftrightarrow> (\<exists>i < MAX_ACTIVE_SESSIONS. unat (contextArray s ! i) = j + 1)"
      using assms(2) j by (simp add: slots_ok_def)
    moreover have "(unat (contextArray (vacate s h v) ! i) = j + 1) \<longleftrightarrow> unat (contextArray s ! i) = j + 1"
      if "i < MAX_ACTIVE_SESSIONS" for i
      using that v' j False k by (auto simp: e)
    moreover have "s_sessions (vacate s h v) ! j = s_sessions s ! j"
      using False by (simp add: vacate_def Let_def k_def)
    ultimately show ?thesis by auto
  qed
  have "occupied (s_sessions s ! k)"
    using assms(2) k h by (auto simp: slots_ok_def)
  then have "int (length (filter (\<lambda>x. \<not> occupied x) (s_sessions (vacate s h v)))) = s_freeSessionSlots s + 1"
    using assms(2) k len by (simp add: vacate_def Let_def k_def [symmetric] length_filter_update slots_ok_def)
  with occ len show ?thesis
    by (simp add: slots_ok_def vacate_def Let_def)
qed

section \<open>Startup and flushing\<close>

lemma filter_all_free: "filter (\<lambda>x. \<not> occupied x) (map (\<lambda>x. x\<lparr>occupied := False\<rparr>) xs)
    = map (\<lambda>x. x\<lparr>occupied := False\<rparr>) xs"
  by (induction xs) auto

lemma oldest_ok_none: "oldest_ok s \<Longrightarrow> \<not> saved s i \<Longrightarrow> i = unat (s_oldestSavedSession s) \<Longrightarrow>
    MAX_ACTIVE_SESSIONS \<le> i \<and> (\<forall>j. \<not> saved s j)"
  by (auto simp: oldest_ok_def split: if_splits)

lemma SessionStartup_inv:
  assumes "length (contextArray s) = MAX_ACTIVE_SESSIONS" and "length (s_sessions s) = MAX_LOADED_SESSIONS"
    and "type = SU_RESET \<or> track_ok s"
  shows "\<exists>s'. SessionStartup s type = Ret s' \<and> sess_inv s'"
proof (cases "type = SU_RESET")
  case True
  let ?s = "s\<lparr>s_sessions := map (\<lambda>x. x\<lparr>occupied := False\<rparr>) (s_sessions s),
      s_freeSessionSlots := int MAX_LOADED_SESSIONS, contextArray := map (\<lambda>e. 0) (contextArray s),
      contextCounter := word_of_nat (MAX_LOADED_SESSIONS + 1),
      s_oldestSavedSession := word_of_nat (MAX_ACTIVE_SESSIONS + 1), s_ContextSlotMask := 0xffff\<rparr>"
  have "SessionStartup s type = Ret ?s"
    using True by (simp add: SessionStartup_def Let_def)
  moreover have "low_bits ?s = 4"
    by (simp add: CONTEXT_SLOT_MASKED_def tpm_consts)
  then have "track_ok ?s"
    using assms(1) by (simp add: track_ok_def slot_range_def tpm_consts)
  moreover have "slots_ok ?s"
    using assms(1,2) by (simp add: slots_ok_def filter_all_free)
  moreover have "\<not> saved ?s i" for i
    using assms(1) by (simp add: saved_def)
  then have "oldest_ok ?s" and "gap_reserve ?s"
    by (simp_all add: oldest_ok_def gap_reserve_def tpm_consts)
  ultimately show ?thesis by (auto simp: sess_inv_def)
next
  case False
  with assms(3) have t: "track_ok s" by blast
  let ?s = "s\<lparr>s_sessions := map (\<lambda>x. x\<lparr>occupied := False\<rparr>) (s_sessions s),
      s_freeSessionSlots := int MAX_LOADED_SESSIONS,
      contextArray := map (\<lambda>e. if unat e \<le> MAX_LOADED_SESSIONS then 0 else e) (contextArray s)\<rparr>"
  have "SessionStartup s type = ContextIdSetOldest ?s"
    using False by (cases type) (simp_all add: SessionStartup_def Let_def)
  moreover obtain o' where "ContextIdSetOldest ?s = Ret (?s\<lparr>s_oldestSavedSession := o'\<rparr>)"
      and "oldest_ok (?s\<lparr>s_oldestSavedSession := o'\<rparr>)"
    using ContextIdSetOldest_Ret [of ?s] t by (auto simp: track_ok_def)
  moreover have "track_ok (?s\<lparr>s_oldestSavedSession := o'\<rparr>)"
    using t by (auto simp: track_ok_def slot_range_def)
  moreover have "slots_ok (?s\<lparr>s_oldestSavedSession := o'\<rparr>)"
    using assms(1,2) by (auto simp: slots_ok_def filter_all_free tpm_consts split: if_splits)
  moreover have "gap_reserve (?s\<lparr>s_oldestSavedSession := o'\<rparr>)"
    by (simp add: gap_reserve_def tpm_consts)
  ultimately show ?thesis by (auto simp: sess_inv_def)
qed

lemma track_ok_cong:
  "contextArray t = contextArray s \<Longrightarrow> s_ContextSlotMask t = s_ContextSlotMask s \<Longrightarrow>
     contextCounter t = contextCounter s \<Longrightarrow> track_ok s \<longleftrightarrow> track_ok t"
  by (simp add: track_ok_def)

lemma oldest_ok_cong:
  assumes "oldest_ok s" and "\<And>i. saved t i = saved s i" and "\<And>i. saved s i \<Longrightarrow> slot_dist t i = slot_dist s i"
    and "s_oldestSavedSession t = s_oldestSavedSession s"
  shows "oldest_ok t"
  using assms by (auto simp: oldest_ok_def split: if_splits)

lemma oldest_ok_drop:
  assumes "oldest_ok s" and "saved s h" and "h \<noteq> unat (s_oldestSavedSession s)"
    and "\<And>i. saved t i \<longleftrightarrow> saved s i \<and> i \<noteq> h" and "\<And>i. saved t i \<Longrightarrow> slot_dist t i = slot_dist s i"
    and "s_oldestSavedSession t = s_oldestSavedSession s"
  shows "oldest_ok t"
  using assms by (auto simp: oldest_ok_def split: if_splits)

text \<open>Once the oldest entry has gone, the gap is not at its maximum.\<close>

lemma drop_oldest_no_gap:
  assumes "track_ok s" and "oldest_ok s" and h: "saved s h" "h = unat (s_oldestSavedSession s)"
    and t: "saved t i" "contextArray t ! i = contextArray s ! i" "saved s i" "i \<noteq> h"
    and "low_bits t = low_bits s"
  shows "contextArray t ! i \<noteq> low_bits t"
proof
  assume "contextArray t ! i = low_bits t"
  with assms have "contextArray s ! i = low_bits s" by simp
  moreover have i: "i < MAX_ACTIVE_SESSIONS" "h < MAX_ACTIVE_SESSIONS"
    using t(3) h(1) by (auto simp: saved_def)
  ultimately have "slot_dist s i = 0"
    using slot_dist_0_iff [OF assms(1)] by simp
  moreover have "slot_dist s h \<le> slot_dist s i"
    using assms(2) h t(3) by (auto simp: oldest_ok_def split: if_splits)
  ultimately have "slot_dist s h = 0"
    by (simp add: word_le_nat_alt word_unat_eq_iff)
  then have "contextArray s ! h = low_bits s"
    using slot_dist_0_iff [OF assms(1)] i by simp
  with \<open>contextArray s ! i = low_bits s\<close> have "contextArray s ! i = contextArray s ! h" by simp
  moreover have "contextArray s ! i \<noteq> 0"
    using t(3) by (auto simp: saved_def)
  ultimately show False
    using assms(1) t(4) i by (auto simp: track_ok_def)
qed

text \<open>Re-running the search after the oldest entry has been removed.\<close>

lemma recompute_oldest:
  assumes s: "track_ok s" "oldest_ok s" "saved s h" "h = unat (s_oldestSavedSession s)"
    and t: "track_ok t" "low_bits t = low_bits s"
      "\<And>i. saved t i \<Longrightarrow> saved s i \<and> i \<noteq> h \<and> contextArray t ! i = contextArray s ! i"
  shows "\<exists>o'. ContextIdSetOldest t = Ret (t\<lparr>s_oldestSavedSession := o'\<rparr>)
    \<and> oldest_ok (t\<lparr>s_oldestSavedSession := o'\<rparr>) \<and> gap_reserve (t\<lparr>s_oldestSavedSession := o'\<rparr>)"
proof -
  obtain o' where o: "ContextIdSetOldest t = Ret (t\<lparr>s_oldestSavedSession := o'\<rparr>)"
      "oldest_ok (t\<lparr>s_oldestSavedSession := o'\<rparr>)"
    using ContextIdSetOldest_Ret [of t] t(1) by (auto simp: track_ok_def)
  have sv: "saved (t\<lparr>s_oldestSavedSession := o'\<rparr>) i = saved t i" for i
    by (simp add: saved_def)
  have "gap_reserve (t\<lparr>s_oldestSavedSession := o'\<rparr>)"
    using drop_oldest_no_gap [OF s, of t "unat o'"] t(2) t(3) [of "unat o'"]
    by (auto simp: gap_reserve_def sv gap_is_max_def)
  with o show ?thesis by blast
qed

lemma saved_array_cong:
  "contextArray t = contextArray s \<Longrightarrow> saved t i = saved s i"
  by (simp add: saved_def)

lemma is_loaded_iff:
  assumes "is_session_handle handle"
  shows "SessionIsLoaded s handle = Ret (is_loaded s (session_index handle))"
    and "SessionIsSaved s handle = Ret (saved s (session_index handle))"
  using assms by (auto simp: SessionIsLoaded_def SessionIsSaved_def is_loaded_def saved_def Let_def
    pAssert_def not_le not_less unat_gt_0 tpm_consts)

lemma SessionIsLoaded_RetD: "SessionIsLoaded s handle = Ret b \<Longrightarrow> is_session_handle handle"
  by (simp add: SessionIsLoaded_def)

subsection \<open>Flush\<close>

lemma clear_entry_track_ok:
  assumes "track_ok s" and "h < MAX_ACTIVE_SESSIONS"
  shows "track_ok (s\<lparr>contextArray := (contextArray s)[h := 0]\<rparr>)"
  using assms by (auto simp: track_ok_def nth_list_update slot_range_def)

lemma clear_saved_slots_ok:
  assumes "track_ok s" and "slots_ok s" and "saved s h"
  shows "slots_ok (s\<lparr>contextArray := (contextArray s)[h := 0]\<rparr>)"
proof -
  have "h < length (contextArray s)" and "MAX_LOADED_SESSIONS < unat (contextArray s ! h)"
    using assms by (auto simp: saved_def track_ok_def)
  then have "unat ((contextArray s)[h := 0] ! i) = Suc k \<longleftrightarrow> unat (contextArray s ! i) = Suc k"
    if "k < MAX_LOADED_SESSIONS" for i k
    using that by (cases "i = h") auto
  with assms(2) show ?thesis by (simp add: slots_ok_def)
qed

lemma SessionFlush_inv:
  assumes inv: "sess_inv s" and f: "SessionFlush s handle = Ret s'"
  shows "sess_inv s'"
proof -
  have hs: "is_session_handle handle"
    using f by (auto simp: SessionFlush_def obind_Ret_iff dest: SessionIsLoaded_RetD)
  let ?h = "session_index handle"
  have t: "track_ok s" "slots_ok s" "oldest_ok s" "gap_reserve s"
    using inv by (simp_all add: sess_inv_def)
  have len: "length (contextArray s) = MAX_ACTIVE_SESSIONS"
    using t(1) by (simp add: track_ok_def)
  let ?c = "s\<lparr>contextArray := (contextArray s)[?h := 0]\<rparr>"
  show ?thesis
  proof (cases "saved s ?h")
    case True
    then have h: "?h < MAX_ACTIVE_SESSIONS" "MAX_LOADED_SESSIONS < unat (contextArray s ! ?h)"
      by (auto simp: saved_def)
    have f': "(if ?h = unat (s_oldestSavedSession s) then ContextIdSetOldest ?c else Ret ?c) = Ret s'"
      using f h by (simp add: SessionFlush_def is_loaded_iff [OF hs] True Let_def)
    have c: "track_ok ?c" "slots_ok ?c"
      using clear_entry_track_ok [OF t(1) h(1)] clear_saved_slots_ok [OF t(1,2) True] by auto
    have sv: "saved ?c i \<longleftrightarrow> saved s i \<and> i \<noteq> ?h" for i
      using len h(1) by (auto simp: saved_def nth_list_update split: if_splits)
    show ?thesis
    proof (cases "?h = unat (s_oldestSavedSession s)")
      case old: True
      obtain o' where "ContextIdSetOldest ?c = Ret (?c\<lparr>s_oldestSavedSession := o'\<rparr>)"
        "oldest_ok (?c\<lparr>s_oldestSavedSession := o'\<rparr>)" "gap_reserve (?c\<lparr>s_oldestSavedSession := o'\<rparr>)"
        using recompute_oldest [OF t(1,3) True old c(1)] sv by auto
      with f' old c show ?thesis
        by (auto simp: sess_inv_def track_ok_def slots_ok_def)
    next
      case False
      have "oldest_ok ?c"
        by (rule oldest_ok_drop [OF t(3) True False sv]) (auto simp: slot_dist_def sv)
      moreover have "gap_reserve ?c"
        using t(4) False by (auto simp: gap_reserve_def sv gap_is_max_def)
      ultimately show ?thesis
        using f' False c by (simp add: sess_inv_def)
    qed
  next
    case False
    with f have ld: "is_loaded s ?h"
      by (simp add: SessionFlush_def is_loaded_iff [OF hs])
    then have h: "?h < MAX_ACTIVE_SESSIONS" "\<not> slot_saved (contextArray s ! ?h)"
      by (auto simp: is_loaded_def)
    have s': "s' = vacate s ?h 0"
      using f False ld h len by (simp add: SessionFlush_def is_loaded_iff [OF hs] Let_def vacate_def)
    have "track_ok s'"
      using clear_entry_track_ok [OF t(1) h(1)]
      by (rule track_ok_cong [THEN iffD1, rotated -1]) (simp_all add: s' vacate_def Let_def)
    moreover have "slots_ok s'"
      unfolding s' by (rule vacate_slots_ok [OF t(1,2) ld]) simp
    moreover have e: "contextArray s' ! i = (if i = ?h then 0 else contextArray s ! i)"
        if "i < MAX_ACTIVE_SESSIONS" for i
      using that by (simp add: s' vacate_entry [OF len])
    then have sv: "saved s' i = saved s i" for i
      using h by (auto simp: saved_def split: if_splits)
    have "slot_dist s' i = slot_dist s i" if "saved s i" for i
      using that e False by (auto simp: slot_dist_def saved_def s' vacate_def Let_def)
    then have "oldest_ok s'"
      by (intro oldest_ok_cong [OF t(3) sv]) (simp_all add: s' vacate_def Let_def)
    moreover have "gap_reserve s'"
      using t(2,4) by (auto simp: gap_reserve_def s' vacate_def Let_def slots_ok_def)
    ultimately show ?thesis by (simp add: sess_inv_def)
  qed
qed

subsection \<open>Create\<close>

lemma occupy_frame:
  "contextCounter (occupy s h k se) = contextCounter s" "s_oldestSavedSession (occupy s h k se) = s_oldestSavedSession s"
  "s_freeSessionSlots (occupy s h k se) = s_freeSessionSlots s - 1"
  "s_ContextSlotMask (occupy s h k se) = s_ContextSlotMask s"
  by (simp_all add: occupy_def)

lemma occupy_saved:
  assumes "track_ok s" and "h < MAX_ACTIVE_SESSIONS" and "k < MAX_LOADED_SESSIONS"
  shows "saved (occupy s h k se) i \<longleftrightarrow> saved s i \<and> i \<noteq> h"
    and "i < MAX_ACTIVE_SESSIONS \<Longrightarrow> i \<noteq> h \<Longrightarrow> slot_dist (occupy s h k se) i = slot_dist s i"
proof -
  have len: "length (contextArray s) = MAX_ACTIVE_SESSIONS"
    using assms(1) by (simp add: track_ok_def)
  have "\<not> slot_saved (word_of_nat (k + 1))"
    using unat_slot_number [OF assms(3)] assms(3) by simp
  then show "saved (occupy s h k se) i \<longleftrightarrow> saved s i \<and> i \<noteq> h"
    by (auto simp: saved_def occupy_entry [OF len] split: if_splits)
  show "i < MAX_ACTIVE_SESSIONS \<Longrightarrow> i \<noteq> h \<Longrightarrow> slot_dist (occupy s h k se) i = slot_dist s i"
    by (simp add: slot_dist_def occupy_entry [OF len] occupy_frame)
qed

lemma SessionCreate_cases:
  assumes inv: "sess_inv s" and c: "SessionCreate env s st ah nc sd bind seed = Ret (r, s')"
  obtains rc where "r = Inl rc" and "s' = s"
  | k h se where "k < MAX_LOADED_SESSIONS" and "\<not> occupied (s_sessions s ! k)"
      and "h < MAX_ACTIVE_SESSIONS" and "contextArray s ! h = 0" and "s' = occupy s h k se"
      and "s_freeSessionSlots s \<noteq> 0"
      and "\<not> (unat (s_oldestSavedSession s) < MAX_ACTIVE_SESSIONS \<and> s_freeSessionSlots s = 1 \<and> gap_is_max s)"
      and "r = Inr (word_of_nat h + (if st = TPM_SE_HMAC then HMAC_SESSION_FIRST else POLICY_SESSION_FIRST), nonceTPM se)"
proof -
  have t: "track_ok s" "slots_ok s"
    using inv by (simp_all add: sess_inv_def)
  have len: "length (contextArray s) = MAX_ACTIVE_SESSIONS"
    using t(1) by (simp add: track_ok_def)
  let ?k = "first_index (\<lambda>x. \<not> occupied x) (s_sessions s)"
  let ?h = "first_index (\<lambda>e. e = 0) (contextArray s)"
  show thesis
  proof (cases "s_freeSessionSlots s = 0")
    case True
    then show thesis using c that(1) by (auto simp: SessionCreate_def)
  next
    case False
    note k = first_free_slot [OF t(2) False]
    have mk: "CONTEXT_SLOT_MASKED (s_ContextSlotMask s) (word_of_nat (?k + 1) :: u32) = word_of_nat (?k + 1)"
      using t(1) k(1) by (intro masked_slot_number) (auto simp: track_ok_def)
    show thesis
    proof (cases "\<exists>rc. ContextIdSessionCreate s ?k = Ret (Inl rc, s)")
      case True
      then show thesis using c False k that(1) by (auto simp: SessionCreate_def Let_def not_le)
    next
      case create: False
      then have gap: "\<not> (unat (s_oldestSavedSession s) < MAX_ACTIVE_SESSIONS
            \<and> s_freeSessionSlots s = 1 \<and> gap_is_max s)"
        and h: "?h < MAX_ACTIVE_SESSIONS"
        using k len by (auto simp: ContextIdSessionCreate_def Let_def pAssert_def split: if_splits)
      have cr: "ContextIdSessionCreate s ?k =
          Ret (Inr ?h, s\<lparr>contextArray := (contextArray s)[?h := word_of_nat (?k + 1)]\<rparr>)"
        using gap h k len mk by (auto simp: ContextIdSessionCreate_def Let_def pAssert_def)
      have "contextArray s ! ?h = 0"
        using first_index_nth [of "\<lambda>e. e = 0" "contextArray s"] h len by simp
      moreover obtain se where
          "s' = s\<lparr>contextArray := (contextArray s)[?h := word_of_nat (?k + 1)],
             s_freeSessionSlots := s_freeSessionSlots s - 1,
             s_sessions := (s_sessions s)[?k := \<lparr>occupied = True, session = se\<rparr>]\<rparr>"
          "r = Inr (word_of_nat ?h + (if st = TPM_SE_HMAC then HMAC_SESSION_FIRST else POLICY_SESSION_FIRST),
             nonceTPM se)"
        using False c k(1) by (auto simp: SessionCreate_def Let_def cr obind_Ret_iff not_le)
      ultimately show thesis
        using gap False by (intro that(2) [OF k h, of se]) (simp_all add: occupy_def)
    qed
  qed
qed

lemma SessionCreate_inv:
  assumes inv: "sess_inv s" and c: "SessionCreate env s st ah nc sd bind seed = Ret (r, s')"
  shows "sess_inv s'"
  using inv c
proof (cases rule: SessionCreate_cases)
  case 1
  with inv show ?thesis by simp
next
  case (2 k h se)
  have t: "track_ok s" "slots_ok s" "oldest_ok s" "gap_reserve s"
    using inv by (simp_all add: sess_inv_def)
  have ns: "\<not> saved s h"
    using 2 by (simp add: saved_def)
  have sv: "saved s' i = saved s i" for i
    using occupy_saved(1) [OF t(1) 2(3,1), of se i] ns 2(5) by auto
  have d: "slot_dist s' i = slot_dist s i" if "saved s i" for i
    using that occupy_saved(2) [OF t(1) 2(3,1), of i se] ns 2(5) by (auto simp: saved_def)
  have "oldest_ok s'"
    by (rule oldest_ok_cong [OF t(3) sv d]) (simp_all add: 2(5) occupy_frame)
  moreover have "track_ok s'" "slots_ok s'"
    using occupy_slots_ok [OF t(1,2) 2(3,1,2)] 2(4,5) by auto
  moreover have "gap_reserve s'"
  proof -
    have "0 < s_freeSessionSlots s"
      using t(2) 2(6) by (auto simp: slots_ok_def)
    moreover have "gap_is_max s" if "saved s (unat (s_oldestSavedSession s))" "gap_is_max s'"
    proof -
      from that(1) ns have "unat (s_oldestSavedSession s) \<noteq> h" by auto
      with that t(1) show ?thesis
        by (simp add: gap_is_max_def 2(5) occupy_frame occupy_entry track_ok_def saved_def)
    qed
    moreover have o: "s_oldestSavedSession s' = s_oldestSavedSession s"
        "s_freeSessionSlots s' = s_freeSessionSlots s - 1"
      by (simp_all add: 2(5) occupy_frame)
    ultimately show ?thesis
      using 2(7) unfolding gap_reserve_def o sv by (auto simp: saved_def)
  qed
  ultimately show ?thesis by (simp add: sess_inv_def)
qed

subsection \<open>Load\<close>

lemma SessionContextLoad_cases:
  assumes inv: "sess_inv s" and sv: "saved s (session_index handle)"
    and l: "SessionContextLoad s se handle = Ret (r, s')"
  obtains (error) rc where "r = Inl rc" and "s' = s"
  | (loaded) k o' where "k < MAX_LOADED_SESSIONS" and "\<not> occupied (s_sessions s ! k)"
      and "s_freeSessionSlots s \<noteq> 0" and "r = Inr handle"
      and "s' = (occupy s (session_index handle) k se)\<lparr>s_oldestSavedSession := o'\<rparr>"
      and "session_index handle \<noteq> unat (s_oldestSavedSession s) \<Longrightarrow> o' = s_oldestSavedSession s
        \<and> \<not> (s_freeSessionSlots s = 1 \<and> gap_is_max s)"
      and "session_index handle = unat (s_oldestSavedSession s) \<Longrightarrow>
        oldest_ok s' \<and> \<not> (saved s' (unat (s_oldestSavedSession s')) \<and> gap_is_max s')"
proof -
  have t: "track_ok s" "slots_ok s" "oldest_ok s"
    using inv by (simp_all add: sess_inv_def)
  let ?h = "session_index handle"
  have h: "?h < MAX_ACTIVE_SESSIONS"
    using sv by (simp add: saved_def)
  have hs: "is_session_handle handle" and vm: "valid_mask s"
    using l by (auto simp: SessionContextLoad_def)
  have old: "unat (s_oldestSavedSession s) < MAX_ACTIVE_SESSIONS"
    using t(3) sv by (auto simp: oldest_ok_def saved_def split: if_splits)
  show thesis
  proof (cases "s_freeSessionSlots s = 0 \<or> s_freeSessionSlots s = 1 \<and> gap_is_max s
      \<and> ?h \<noteq> unat (s_oldestSavedSession s)")
    case True
    then show thesis
      using l error old by (auto simp: SessionContextLoad_def Let_def hs vm)
  next
    case False
    then have free: "s_freeSessionSlots s \<noteq> 0" by blast
    note k = first_free_slot [OF t(2) free]
    define k' where "k' = first_index (\<lambda>x. \<not> occupied x) (s_sessions s)"
    let ?s1 = "s\<lparr>contextArray := (contextArray s)[?h := word_of_nat (k' + 1)]\<rparr>"
    have l': "obind (if ?h = unat (s_oldestSavedSession s) then ContextIdSetOldest ?s1 else Ret ?s1)
        (\<lambda>s2. Ret (Inr handle,
           s2\<lparr>s_sessions := (s_sessions s2)[k' := \<lparr>occupied = True, session = se\<rparr>],
              s_freeSessionSlots := s_freeSessionSlots s2 - 1\<rparr>)) = Ret (r, s')"
      using l False k h hs vm by (auto simp: SessionContextLoad_def Let_def k'_def split: if_splits)
    have k'': "k' < MAX_LOADED_SESSIONS" "\<not> occupied (s_sessions s ! k')"
      using k by (simp_all add: k'_def)
    let ?t = "occupy s ?h k' se"
    have tt: "track_ok ?t" "slots_ok ?t"
      using occupy_slots_ok [OF t(1,2) h k''] sv by auto
    note os = occupy_saved [OF t(1) h k''(1)]
    show thesis
    proof (cases "?h = unat (s_oldestSavedSession s)")
      case False': False
      with l' have "s' = ?t" "r = Inr handle"
        by (simp_all add: occupy_def)
      with loaded [OF k'' free, of "s_oldestSavedSession s"] False' False show thesis
        by (simp add: occupy_def)
    next
      case True
      have s1: "track_ok ?s1"
        using tt(1) by (rule track_ok_cong [THEN iffD1, rotated -1]) (simp_all add: occupy_def)
      have sv1: "saved ?s1 i \<longleftrightarrow> saved ?t i" for i
        by (simp add: saved_def occupy_def)
      have "contextArray ?s1 ! i = contextArray s ! i" if "saved ?s1 i" for i
        using that os(1) [of se i] unfolding sv1 by simp
      then obtain o' where o: "ContextIdSetOldest ?s1 = Ret (?s1\<lparr>s_oldestSavedSession := o'\<rparr>)"
        "oldest_ok (?s1\<lparr>s_oldestSavedSession := o'\<rparr>)" "gap_reserve (?s1\<lparr>s_oldestSavedSession := o'\<rparr>)"
        using recompute_oldest [OF t(1,3) sv True s1] sv1 os(1) [of se] by auto
      have s': "s' = ?t\<lparr>s_oldestSavedSession := o'\<rparr>" "r = Inr handle"
        using l' True o(1) by (auto simp: occupy_def)
      have nogap: "\<not> (saved s' (unat o') \<and> gap_is_max s')"
      proof
        assume a: "saved s' (unat o') \<and> gap_is_max s'"
        then have sv': "saved ?t (unat o')"
          by (simp add: s' saved_def)
        then have "saved s (unat o')" "unat o' \<noteq> ?h"
          using os(1) [of se] by auto
        moreover have "contextArray ?t ! unat o' = contextArray s ! unat o'"
          using calculation t(1) by (simp add: occupy_entry track_ok_def saved_def)
        ultimately have "contextArray ?t ! unat o' \<noteq> low_bits ?t"
          using drop_oldest_no_gap [OF t(1,3) sv True sv'] by (simp add: occupy_frame)
        with a show False by (simp add: s' gap_is_max_def)
      qed
      have "oldest_ok s'"
        by (rule oldest_ok_cong [OF o(2)]) (simp_all add: s' saved_def slot_dist_def occupy_def)
      moreover have "s_oldestSavedSession s' = o'"
        by (simp add: s')
      ultimately show thesis
        using loaded [OF k'' free s'(2,1)] True nogap by simp
    qed
  qed
qed

lemma SessionContextLoad_inv:
  assumes inv: "sess_inv s" and sv: "saved s (session_index handle)"
    and l: "SessionContextLoad s se handle = Ret (r, s')"
  shows "sess_inv s'"
  using inv sv l
proof (cases rule: SessionContextLoad_cases)
  case error
  with inv show ?thesis by simp
next
  case (loaded k o')
  let ?h = "session_index handle"
  let ?t = "occupy s ?h k se"
  have t: "track_ok s" "slots_ok s" "oldest_ok s" "gap_reserve s"
    using inv by (simp_all add: sess_inv_def)
  have h: "?h < MAX_ACTIVE_SESSIONS"
    using sv by (simp add: saved_def)
  have tt: "track_ok ?t" "slots_ok ?t"
    using occupy_slots_ok [OF t(1,2) h loaded(1,2)] sv by auto
  have "track_ok s'"
    using tt(1) by (rule track_ok_cong [THEN iffD1, rotated -1]) (simp_all add: loaded(5))
  moreover have "slots_ok s'"
    using tt(2) by (simp add: loaded(5) slots_ok_def)
  moreover have "oldest_ok s' \<and> gap_reserve s'"
  proof (cases "?h = unat (s_oldestSavedSession s)")
    case True
    with loaded(7) show ?thesis by (auto simp: gap_reserve_def)
  next
    case False
    note o = loaded(6) [OF False]
    have s': "s' = ?t"
      using o by (simp add: loaded(5) occupy_def)
    note os = occupy_saved [OF t(1) h loaded(1)]
    have oo: "oldest_ok s'"
      unfolding s' using os by (intro oldest_ok_drop [OF t(3) sv False]) (auto simp: saved_def occupy_frame)
    have "gap_is_max ?t = gap_is_max s" if "saved s (unat (s_oldestSavedSession s))"
      using t(1) False that by (simp add: gap_is_max_def occupy_frame occupy_entry track_ok_def saved_def)
    moreover have "0 < s_freeSessionSlots s"
      using t(2) loaded(3) by (auto simp: slots_ok_def)
    ultimately have "gap_reserve s'"
      using o unfolding gap_reserve_def s' os(1) occupy_frame by auto
    with oo show ?thesis by blast
  qed
  ultimately show ?thesis by (simp add: sess_inv_def)
qed

subsection \<open>Save\<close>

text \<open>Distances on the counter circle, as natural numbers: \<open>l\<close> is the position of the counter.\<close>

definition circ_dist :: "nat \<Rightarrow> nat \<Rightarrow> nat \<Rightarrow> nat" where
  "circ_dist n l e = (if l \<le> e then e - l else e + n - l)"

definition circ_next :: "nat \<Rightarrow> nat \<Rightarrow> nat" where
  "circ_next n l = (if l + 1 = n then MAX_LOADED_SESSIONS + 1 else l + 1)"

lemma circ_dist_next_mono:
  assumes "l < n" and "e < n" and "e' < n" and "e \<noteq> l" and "e' \<noteq> l"
    and "MAX_LOADED_SESSIONS < e" and "MAX_LOADED_SESSIONS < e'"
    and "circ_dist n l e \<le> circ_dist n l e'"
  shows "circ_dist n (circ_next n l) e \<le> circ_dist n (circ_next n l) e'"
  using assms by (auto simp: circ_dist_def circ_next_def split: if_splits)

lemma circ_dist_next_youngest:
  assumes "l < n" and "e < n" and "e \<noteq> l" and "MAX_LOADED_SESSIONS < e" and "MAX_LOADED_SESSIONS < l"
  shows "circ_dist n (circ_next n l) e \<le> circ_dist n (circ_next n l) l"
  using assms by (auto simp: circ_dist_def circ_next_def split: if_splits)

lemma slot_dist_circ:
  "track_ok s \<Longrightarrow> i < MAX_ACTIVE_SESSIONS \<Longrightarrow>
     unat (slot_dist s i) = circ_dist (slot_range (s_ContextSlotMask s)) (unat (low_bits s))
       (unat (contextArray s ! i))"
  by (simp add: slot_dist_eq circ_dist_def)

text \<open>The counter after a save: it steps by one, or skips the slot numbers when its low bits wrap.\<close>

lemma mod_Suc_cases:
  fixes c n :: nat
  assumes "1 < n"
  shows "(c + 1) mod n = (if c mod n + 1 = n then 0 else c mod n + 1)"
  using assms by (simp add: mod_Suc)

lemma next_counter_unat:
  assumes m: "m = 0xff \<or> m = 0xffff" and c: "c + 1 \<noteq> 0"
  defines "n \<equiv> slot_range m"
  shows "unat (next_counter m c) = (if unat c mod n + 1 = n then unat c + 5 else unat c + 1)"
proof -
  have n: "n = 256 \<or> n = 65536"
    using m by (auto simp: n_def slot_range_def)
  have c1: "unat (c + 1) = unat c + 1"
    using c unatSuc [of c] by (simp add: add.commute)
  have z: "CONTEXT_SLOT_MASKED m (c + 1) = 0 \<longleftrightarrow> unat c mod n + 1 = n"
  proof -
    have "CONTEXT_SLOT_MASKED m (c + 1) = 0 \<longleftrightarrow> unat (CONTEXT_SLOT_MASKED m (c + 1)) = 0"
      by (simp add: word_unat_eq_iff)
    also have "\<dots> \<longleftrightarrow> (unat c + 1) mod n = 0"
      using m by (simp add: CONTEXT_SLOT_MASKED_unat c1 n_def)
    also have "\<dots> \<longleftrightarrow> unat c mod n + 1 = n"
      using n by (subst mod_Suc_cases) auto
    finally show ?thesis .
  qed
  have skip: "unat (c + 1 + 4) = unat c + 5" if "unat c mod n + 1 = n"
  proof -
    have "(unat c + 1) mod n = 0"
      using that n by (subst mod_Suc_cases) auto
    then obtain q where q: "unat c + 1 = n * q"
      by (auto simp: mod_eq_0_iff_dvd elim: dvdE)
    moreover have "unat (c + 1) < 2 ^ LENGTH(64)"
      by (rule unsigned_less)
    then have "unat c + 1 < 2 ^ 64"
      using c1 by simp
    ultimately have "n * q + 4 < 2 ^ 64"
      using n by auto
    then have "unat (c + 1) + unat (4 :: u64) < 2 ^ 64"
      using q c1 by simp
    then show ?thesis
      using c1 unat_add_lem [of "c + 1" 4] by simp
  qed
  show ?thesis
    using z c1 skip by (auto simp: next_counter_def tpm_consts)
qed

lemma next_low_bits:
  assumes m: "m = 0xff \<or> m = 0xffff" and c: "c + 1 \<noteq> (0 :: u64)"
  shows "unat (CONTEXT_SLOT_MASKED m (next_counter m c)) =
    circ_next (slot_range m) (unat (CONTEXT_SLOT_MASKED m c))"
proof -
  have n: "slot_range m = 256 \<or> slot_range m = 65536"
    using m by (auto simp: slot_range_def)
  have "(x + 5) mod slot_range m = 4" if "x mod slot_range m + 1 = slot_range m" for x
  proof -
    have "(x + 1) mod slot_range m = 0"
      using that n by (subst mod_Suc_cases) auto
    then have "(x + 1 + 4) mod slot_range m = 4 mod slot_range m"
      by (metis add_0 mod_add_left_eq)
    then show ?thesis using n by (auto simp: add.commute)
  qed
  moreover have "(x + 1) mod slot_range m = x mod slot_range m + 1" if "x mod slot_range m + 1 \<noteq> slot_range m" for x
    using that n by (subst mod_Suc_cases) auto
  ultimately show ?thesis
    by (simp add: CONTEXT_SLOT_MASKED_unat [OF m] next_counter_unat [OF m c] circ_next_def tpm_consts)
qed

lemma SessionContextSave_cases:
  assumes inv: "sess_inv s" and v: "SessionContextSave s handle = Ret (r, s')"
  obtains (gap) "r = Inl TPM_RC_CONTEXT_GAP" and "s' = s" and "saved s (unat (s_oldestSavedSession s))"
      and "gap_is_max s"
  | (overflow) "r = Inl TPM_RC_TOO_MANY_CONTEXTS" and "contextCounter s + 1 = 0"
      and "s' = s\<lparr>contextArray := (contextArray s)[session_index handle := low_bits s]\<rparr>"
  | (saved) "r = Inr (contextCounter s)" and "contextCounter s + 1 \<noteq> 0"
      and "is_loaded s (session_index handle)"
      and "saved s (unat (s_oldestSavedSession s)) \<Longrightarrow> \<not> gap_is_max s"
      and "s' = (vacate s (session_index handle) (low_bits s))
             \<lparr>contextCounter := next_counter (s_ContextSlotMask s) (contextCounter s),
              s_oldestSavedSession := (if \<exists>i. saved s i then s_oldestSavedSession s
                                       else word_of_nat (session_index handle))\<rparr>"
proof -
  have hs: "is_session_handle handle"
    using v by (auto simp: SessionContextSave_def obind_Ret_iff dest: SessionIsLoaded_RetD)
  have ld: "is_loaded s (session_index handle)" and vm: "valid_mask s"
    using v by (auto simp: SessionContextSave_def is_loaded_iff(1) [OF hs])
  have o: "(\<exists>i. saved s i) \<longleftrightarrow> unat (s_oldestSavedSession s) < MAX_ACTIVE_SESSIONS"
      "saved s (unat (s_oldestSavedSession s)) \<longleftrightarrow> unat (s_oldestSavedSession s) < MAX_ACTIVE_SESSIONS"
    using inv by (auto simp: sess_inv_def oldest_ok_def saved_def split: if_splits)
  have h: "session_index handle < MAX_ACTIVE_SESSIONS"
    using ld by (simp add: is_loaded_def)
  show thesis
  proof (cases "unat (s_oldestSavedSession s) < MAX_ACTIVE_SESSIONS \<and> gap_is_max s")
    case True
    then show thesis
      using v gap o by (auto simp: SessionContextSave_def is_loaded_iff(1) [OF hs] ld)
  next
    case no_gap: False
    show thesis
    proof (cases "contextCounter s + 1 = 0")
      case True
      then show thesis
        using v no_gap h vm by (intro overflow) (auto simp: SessionContextSave_def is_loaded_iff(1) [OF hs] ld Let_def)
    next
      case False
      then have "r = Inr (contextCounter s)"
        "s' = s\<lparr>contextArray := (contextArray s)[session_index handle := low_bits s],
              contextCounter := next_counter (s_ContextSlotMask s) (contextCounter s),
              s_oldestSavedSession := (if \<exists>i. saved s i then s_oldestSavedSession s
                                       else word_of_nat (session_index handle)),
              s_sessions := (s_sessions s)[unat (contextArray s ! session_index handle - 1) :=
                 (s_sessions s ! unat (contextArray s ! session_index handle - 1))\<lparr>occupied := False\<rparr>],
              s_freeSessionSlots := s_freeSessionSlots s + 1\<rparr>"
        using v no_gap h vm o(1)
        by (auto simp: SessionContextSave_def is_loaded_iff(1) [OF hs] ld Let_def)
      then show thesis
        using saved False ld no_gap o(2) by (auto simp: vacate_def Let_def)
    qed
  qed
qed

lemma no_gap_fresh:
  assumes "track_ok s" and "oldest_ok s" and "saved s (unat (s_oldestSavedSession s)) \<Longrightarrow> \<not> gap_is_max s"
    and i: "i < MAX_ACTIVE_SESSIONS"
  shows "contextArray s ! i \<noteq> low_bits s"
proof
  assume a: "contextArray s ! i = low_bits s"
  then have sv: "saved s i"
    using assms(1) i by (simp add: saved_def track_ok_def)
  let ?o = "unat (s_oldestSavedSession s)"
  have o: "saved s ?o" "slot_dist s ?o \<le> slot_dist s i"
    using assms(2) sv by (auto simp: oldest_ok_def split: if_splits)
  have "slot_dist s i = 0"
    using slot_dist_0_iff [OF assms(1) i] a by simp
  with o have "slot_dist s ?o = 0" by simp
  then have "contextArray s ! ?o = low_bits s"
    using slot_dist_0_iff [OF assms(1)] o(1) by (simp add: saved_def)
  with assms(3) [OF o(1)] show False by (simp add: gap_is_max_def)
qed

lemma SessionContextSave_inv:
  assumes inv: "sess_inv s" and v: "SessionContextSave s handle = Ret (r, s')"
    and ok: "r \<noteq> Inl TPM_RC_TOO_MANY_CONTEXTS"
  shows "sess_inv s'"
  using inv v
proof (cases rule: SessionContextSave_cases)
  case gap
  with inv show ?thesis by simp
next
  case overflow
  with ok show ?thesis by simp
next
  case c: saved
  let ?h = "session_index handle"
  let ?m = "s_ContextSlotMask s"
  have t: "track_ok s" "slots_ok s" "oldest_ok s"
    using inv by (simp_all add: sess_inv_def)
  have h: "?h < MAX_ACTIVE_SESSIONS" and hl: "\<not> saved s ?h"
    using c(3) by (auto simp: is_loaded_def saved_def)
  have len: "length (contextArray s) = MAX_ACTIVE_SESSIONS" and vm: "valid_mask s"
    and low: "MAX_LOADED_SESSIONS < unat (low_bits s)"
    using t(1) by (auto simp: track_ok_def)
  have fresh: "contextArray s ! i \<noteq> low_bits s" if "i < MAX_ACTIVE_SESSIONS" for i
    using c(4) that by (rule no_gap_fresh [OF t(1,3)])
  have e: "contextArray s' ! i = (if i = ?h then low_bits s else contextArray s ! i)"
    if "i < MAX_ACTIVE_SESSIONS" for i
    using that by (simp add: c(5) vacate_entry [OF len])
  have fr: "s_ContextSlotMask s' = ?m" "length (contextArray s') = MAX_ACTIVE_SESSIONS"
    using len by (simp_all add: c(5) vacate_def Let_def)
  have low': "unat (low_bits s') = circ_next (slot_range ?m) (unat (low_bits s))"
    using next_low_bits [OF vm c(2)] by (simp add: c(5) vacate_def Let_def)
  have lt: "unat (low_bits s) < slot_range ?m"
    using vm by (rule low_bits_less)
  have inj: "i = j" if "i < MAX_ACTIVE_SESSIONS" "j < MAX_ACTIVE_SESSIONS" "contextArray s' ! i \<noteq> 0"
      "contextArray s' ! i = contextArray s' ! j" for i j
  proof -
    have "\<lbrakk>contextArray s ! i \<noteq> 0; contextArray s ! i = contextArray s ! j\<rbrakk> \<Longrightarrow> i = j"
      using t(1) that(1,2) unfolding track_ok_def by blast
    then show ?thesis
      using that e [OF that(1)] e [OF that(2)] fresh [OF that(1)] fresh [OF that(2)] by (metis (full_types))
  qed
  have rng': "unat (contextArray s' ! i) < slot_range ?m" if "i < MAX_ACTIVE_SESSIONS" for i
    using that t(1) lt by (simp add: e track_ok_def)
  have "MAX_LOADED_SESSIONS < unat (low_bits s')"
    using low by (simp add: low' circ_next_def)
  with inj rng' have tr: "track_ok s'"
    using vm unfolding track_ok_def fr by blast
  have sv: "saved s' i \<longleftrightarrow> saved s i \<or> i = ?h" for i
    using e h low by (auto simp: saved_def)
  have "slots_ok (vacate s ?h (low_bits s))"
    by (rule vacate_slots_ok [OF t(1,2) c(3)]) (simp add: low)
  then have sl: "slots_ok s'"
    by (simp add: c(5) slots_ok_def)
  have rng: "unat (contextArray s ! i) < slot_range ?m" if "saved s i" for i
    using that t(1) by (simp add: track_ok_def saved_def)
  have d: "unat (slot_dist s' i) = circ_dist (slot_range ?m) (circ_next (slot_range ?m) (unat (low_bits s)))
      (if i = ?h then unat (low_bits s) else unat (contextArray s ! i))" if "saved s' i" for i
    using that slot_dist_circ [OF tr, of i] by (simp add: saved_def e fr low' [unfolded fr])
  have young: "slot_dist s' i \<le> slot_dist s' ?h" if "saved s i" for i
  proof -
    have i: "i < MAX_ACTIVE_SESSIONS" "i \<noteq> ?h" "MAX_LOADED_SESSIONS < unat (contextArray s ! i)"
      using that hl by (auto simp: saved_def)
    then have "unat (contextArray s ! i) \<noteq> unat (low_bits s)"
      using fresh by (simp add: word_unat_eq_iff)
    then show ?thesis
      unfolding word_le_nat_alt
      using that i d [of i] d [of ?h] sv low circ_dist_next_youngest [OF lt rng [OF that]] by simp
  qed
  have mono: "slot_dist s' i \<le> slot_dist s' j" if "saved s i" "saved s j" "slot_dist s i \<le> slot_dist s j" for i j
  proof -
    have ij: "i < MAX_ACTIVE_SESSIONS" "j < MAX_ACTIVE_SESSIONS" "i \<noteq> ?h" "j \<noteq> ?h"
      using that hl by (auto simp: saved_def)
    then have "unat (contextArray s ! i) \<noteq> unat (low_bits s)" "unat (contextArray s ! j) \<noteq> unat (low_bits s)"
      using fresh by (auto simp: word_unat_eq_iff)
    moreover have "circ_dist (slot_range ?m) (unat (low_bits s)) (unat (contextArray s ! i))
        \<le> circ_dist (slot_range ?m) (unat (low_bits s)) (unat (contextArray s ! j))"
      using that(3) ij by (simp add: word_le_nat_alt slot_dist_circ [OF t(1)])
    ultimately show ?thesis
      unfolding word_le_nat_alt using that(1,2) ij sv d rng circ_dist_next_mono [OF lt]
      by (simp add: saved_def)
  qed
  have "oldest_ok s'"
  proof (cases "\<exists>i. saved s i")
    case True
    then have "saved s (unat (s_oldestSavedSession s))"
        "\<forall>i. saved s i \<longrightarrow> slot_dist s (unat (s_oldestSavedSession s)) \<le> slot_dist s i"
      using t(3) by (auto simp: oldest_ok_def)
    moreover have "s_oldestSavedSession s' = s_oldestSavedSession s"
      using True by (simp add: c(5))
    ultimately show ?thesis
      using mono young by (auto simp: oldest_ok_def sv)
  next
    case False
    then have "unat (s_oldestSavedSession s') = ?h"
      using h by (simp add: c(5) tpm_consts)
    then show ?thesis
      using False by (auto simp: oldest_ok_def sv)
  qed
  moreover have "gap_reserve s'"
    using sl t(2) by (auto simp: gap_reserve_def c(5) vacate_def Let_def slots_ok_def)
  ultimately show ?thesis
    using tr sl by (simp add: sess_inv_def)
qed

end
