(* ===== verification/Session_Protocol.thy ===== *)
theory Session_Protocol
  imports Session_Invariant
begin

text \<open>
  The session subsystem as a protocol: steps are the calls that commands make, a ghost
  component records the context identifiers handed out by saves. The properties of the
  subsystem (replay protection, exactness of the gap check, recoverability at the maximum
  gap, freshness of handles, the capability lists) are at the end of the theory.
\<close>

section \<open>Context identifiers\<close>

text \<open>
  \<open>ids i\<close> is the full 64-bit identifier that the last save of the session at array index \<open>i\<close>
  returned (the value the saved context carries as its sequence number). The array keeps only
  its low bits; \<open>ids_ok\<close> says how the two are related for every saved session.
\<close>

definition ids_ok :: "sess_state \<Rightarrow> (nat \<Rightarrow> u64) \<Rightarrow> bool" where
  "ids_ok s ids \<longleftrightarrow> (\<forall>i. saved s i \<longrightarrow>
     unat (ids i) mod slot_range (s_ContextSlotMask s) = unat (contextArray s ! i)
     \<and> unat (ids i) < unat (contextCounter s)
     \<and> unat (contextCounter s) \<le> unat (ids i) + slot_range (s_ContextSlotMask s))"

text \<open>The distance on the circle determines the age of a context exactly.\<close>

lemma circ_dist_age:
  fixes g c n :: nat
  assumes "g < c" and "c \<le> g + n" and "0 < n"
  shows "c + circ_dist n (c mod n) (g mod n) = g + n"
proof -
  have "c div n = g div n \<or> c div n = g div n + 1"
  proof -
    have "g div n \<le> c div n"
      using assms by (simp add: div_le_mono)
    moreover have "c div n \<le> (g + n) div n"
      using assms by (simp add: div_le_mono)
    moreover have "(g + n) div n = g div n + 1"
      using assms(3) by (simp add: div_add_self2)
    ultimately show ?thesis by linarith
  qed
  moreover define p where "p = n * (g div n)"
  moreover have "c = n * (c div n) + c mod n" and g: "g = p + g mod n"
    by (simp_all add: p_def)
  ultimately have c: "c = p + c mod n \<or> c = p + n + c mod n"
    by (elim disjE) (simp_all add: algebra_simps)
  have "c mod n < n" "g mod n < n"
    using assms by simp_all
  then show ?thesis
    using assms(1,2) g c unfolding circ_dist_def by (auto split: if_split)
qed

lemma ids_age:
  assumes "track_ok s" and "ids_ok s ids" and "saved s i"
  shows "unat (contextCounter s) + unat (slot_dist s i) = unat (ids i) + slot_range (s_ContextSlotMask s)"
proof -
  have "valid_mask s"
    using assms(1) by (simp add: track_ok_def)
  then show ?thesis
    using assms circ_dist_age [of "unat (ids i)" "unat (contextCounter s)" "slot_range (s_ContextSlotMask s)"]
    by (simp add: slot_dist_circ saved_def ids_ok_def low_bits_unat slot_range_def)
qed

lemma ids_ok_cong:
  assumes "ids_ok s ids" and "\<And>i. saved t i \<Longrightarrow> saved s i \<and> contextArray t ! i = contextArray s ! i \<and> ids' i = ids i"
    and "s_ContextSlotMask t = s_ContextSlotMask s" and "contextCounter t = contextCounter s"
  shows "ids_ok t ids'"
  using assms by (simp add: ids_ok_def)

lemma SessionContextSave_ids:
  assumes inv: "sess_inv s" and ids: "ids_ok s ids" and v: "SessionContextSave s handle = Ret (Inr cid, s')"
  shows "ids_ok s' (ids(session_index handle := cid))"
  using inv v
proof (cases rule: SessionContextSave_cases)
  case c: saved
  let ?h = "session_index handle"
  let ?n = "slot_range (s_ContextSlotMask s)"
  have t: "track_ok s" "oldest_ok s"
    using inv by (simp_all add: sess_inv_def)
  have vm: "valid_mask s" and len: "length (contextArray s) = MAX_ACTIVE_SESSIONS"
    and low: "MAX_LOADED_SESSIONS < unat (low_bits s)"
    using t(1) by (auto simp: track_ok_def)
  have h: "?h < MAX_ACTIVE_SESSIONS" and hl: "\<not> saved s ?h"
    using c(3) by (auto simp: is_loaded_def saved_def)
  have e: "contextArray s' ! i = (if i = ?h then low_bits s else contextArray s ! i)"
    if "i < MAX_ACTIVE_SESSIONS" for i
    using that by (simp add: c(5) vacate_entry [OF len])
  have m: "s_ContextSlotMask s' = s_ContextSlotMask s"
    by (simp add: c(5) vacate_def Let_def)
  have cnt: "unat (contextCounter s') =
      (if unat (low_bits s) + 1 = ?n then unat (contextCounter s) + 5 else unat (contextCounter s) + 1)"
    using next_counter_unat [OF vm c(2)] by (simp add: c(5) low_bits_unat [OF vm])
  have n: "5 \<le> ?n"
    using vm by (auto simp: slot_range_def)
  show ?thesis
    unfolding ids_ok_def m
  proof (intro allI impI)
    fix i
    assume a: "saved s' i"
    show "unat ((ids(?h := cid)) i) mod ?n = unat (contextArray s' ! i)
      \<and> unat ((ids(?h := cid)) i) < unat (contextCounter s')
      \<and> unat (contextCounter s') \<le> unat ((ids(?h := cid)) i) + ?n"
    proof (cases "i = ?h")
      case True
      then show ?thesis
        using c(1) h n cnt by (simp add: e low_bits_unat [OF vm])
    next
      case False
      then have sv: "saved s i"
        using a e [of i] by (simp add: saved_def)
      then have i: "i < MAX_ACTIVE_SESSIONS" "MAX_LOADED_SESSIONS < unat (contextArray s ! i)"
        by (auto simp: saved_def)
      have "contextArray s ! i \<noteq> low_bits s"
        using c(4) i(1) by (rule no_gap_fresh [OF t])
      then have ne: "unat (contextArray s ! i) \<noteq> unat (low_bits s)"
        by (simp add: word_unat_eq_iff)
      have "unat (contextCounter s) + circ_dist ?n (unat (low_bits s)) (unat (contextArray s ! i)) = unat (ids i) + ?n"
        using ids_age [OF t(1) ids sv] slot_dist_circ [OF t(1) i(1)] by simp
      moreover have "(if unat (low_bits s) + 1 = ?n then 5 else 1)
          \<le> circ_dist ?n (unat (low_bits s)) (unat (contextArray s ! i))"
        using ne i(2) low_bits_less [OF vm] t(1) i(1)
        by (auto simp: circ_dist_def track_ok_def tpm_consts)
      ultimately have "unat (contextCounter s') \<le> unat (ids i) + ?n"
        using cnt by (simp split: if_splits)
      then show ?thesis
        using ids sv False cnt i e by (auto simp: ids_ok_def)
    qed
  qed
qed simp_all

section \<open>The session protocol\<close>

text \<open>
  One step is one call from a command: \<^verbatim>\<open>TPM2_StartAuthSession\<close> (create), \<^verbatim>\<open>TPM2_ContextSave\<close>
  (save), \<^verbatim>\<open>TPM2_ContextLoad\<close> (the sequence-number check, then load), \<^verbatim>\<open>TPM2_FlushContext\<close>
  (flush) and \<^verbatim>\<open>TPM2_Startup\<close>. The second component records the identifiers handed out. A save
  that reports \<^verbatim>\<open>TPM_RC_TOO_MANY_CONTEXTS\<close> (the 64-bit counter is used up) is not a step: what
  it leaves behind is described by a property of its own.
\<close>

type_synonym sess_config = "sess_state \<times> (nat \<Rightarrow> u64)"

inductive sess_step :: "sess_config \<Rightarrow> sess_config \<Rightarrow> bool" where
  create: "SessionCreate env s sessionType authHash nonceCaller symDef bind seed = Ret (r, s')
     \<Longrightarrow> sess_step (s, ids) (s', ids)"
| save: "SessionContextSave s handle = Ret (Inr cid, s')
     \<Longrightarrow> sess_step (s, ids) (s', ids(session_index handle := cid))"
| save_refused: "SessionContextSave s handle = Ret (Inl rc, s') \<Longrightarrow> rc \<noteq> TPM_RC_TOO_MANY_CONTEXTS
     \<Longrightarrow> sess_step (s, ids) (s', ids)"
| load: "SequenceNumberForSavedContextIsValid s handle sequence = Ret True
     \<Longrightarrow> SessionContextLoad s se handle = Ret (r, s') \<Longrightarrow> sess_step (s, ids) (s', ids)"
| flush: "SessionFlush s handle = Ret s' \<Longrightarrow> sess_step (s, ids) (s', ids)"
| startup: "SessionStartup s type = Ret s' \<Longrightarrow> sess_step (s, ids) (s', ids)"

inductive sess_start :: "sess_config \<Rightarrow> bool" where
  "length (contextArray s) = MAX_ACTIVE_SESSIONS \<Longrightarrow> length (s_sessions s) = MAX_LOADED_SESSIONS
     \<Longrightarrow> SessionStartup s SU_RESET = Ret s' \<Longrightarrow> sess_start (s', ids)"

inductive_cases sess_startE: "sess_start (s, ids)"

definition sess_config_ok :: "sess_config \<Rightarrow> bool" where
  "sess_config_ok c \<longleftrightarrow> sess_inv (fst c) \<and> ids_ok (fst c) (snd c)"

lemma valid_sequence_saved:
  "SequenceNumberForSavedContextIsValid s handle sequence = Ret True \<Longrightarrow> saved s (session_index handle)"
  by (auto simp: SequenceNumberForSavedContextIsValid_def Let_def saved_def)

lemma SessionStartup_saved:
  assumes "SessionStartup s type = Ret s'" and "length (contextArray s) = MAX_ACTIVE_SESSIONS"
  shows "if type = SU_RESET then \<not> saved s' i
    else (saved s' i \<longleftrightarrow> saved s i) \<and> (saved s i \<longrightarrow> contextArray s' ! i = contextArray s ! i)
      \<and> s_ContextSlotMask s' = s_ContextSlotMask s \<and> contextCounter s' = contextCounter s"
  using assms
  by (cases type) (auto simp: SessionStartup_def ContextIdSetOldest_def Let_def saved_def split: if_splits)

lemma SessionStartup_ids:
  assumes "ids_ok s ids" and "SessionStartup s type = Ret s'" and "length (contextArray s) = MAX_ACTIVE_SESSIONS"
  shows "ids_ok s' ids"
  using SessionStartup_saved [OF assms(2,3)] assms(1)
  by (cases "type = SU_RESET") (auto simp: ids_ok_def)

lemma SessionCreate_ids:
  assumes inv: "sess_inv s" and "ids_ok s ids" and c: "SessionCreate env s st ah nc sd bind seed = Ret (r, s')"
  shows "ids_ok s' ids"
  using inv c
proof (cases rule: SessionCreate_cases)
  case 1
  with assms(2) show ?thesis by simp
next
  case (2 k h se)
  have t: "track_ok s" using inv by (simp add: sess_inv_def)
  then show ?thesis
    using 2(3,4,5) occupy_saved(1) [OF t 2(3,1), of se]
    by (intro ids_ok_cong [OF assms(2)]) (auto simp: occupy_frame occupy_entry saved_def track_ok_def)
qed

lemma SessionContextLoad_ids:
  assumes inv: "sess_inv s" and "ids_ok s ids" and sv: "saved s (session_index handle)"
    and l: "SessionContextLoad s se handle = Ret (r, s')"
  shows "ids_ok s' ids"
  using inv sv l
proof (cases rule: SessionContextLoad_cases)
  case error
  with assms(2) show ?thesis by simp
next
  case (loaded k o')
  have t: "track_ok s" using inv by (simp add: sess_inv_def)
  have h: "session_index handle < MAX_ACTIVE_SESSIONS" using sv by (simp add: saved_def)
  have s': "saved s' i = saved (occupy s (session_index handle) k se) i"
     "contextArray s' = contextArray (occupy s (session_index handle) k se)" for i
    by (simp_all add: loaded(5) saved_def)
  show ?thesis
    using occupy_saved(1) [OF t h loaded(1), of se] t
    by (intro ids_ok_cong [OF assms(2)])
      (auto simp: s' occupy_entry saved_def track_ok_def loaded(5) occupy_frame)
qed

lemma SessionFlush_ids:
  assumes inv: "sess_inv s" and ids: "ids_ok s ids" and f: "SessionFlush s handle = Ret s'"
  shows "ids_ok s' ids"
proof -
  have hs: "is_session_handle handle"
    using f by (auto simp: SessionFlush_def obind_Ret_iff dest: SessionIsLoaded_RetD)
  have a: "contextArray s' = (contextArray s)[session_index handle := 0]"
      "s_ContextSlotMask s' = s_ContextSlotMask s" "contextCounter s' = contextCounter s"
    using f by (auto simp: SessionFlush_def is_loaded_iff [OF hs] ContextIdSetOldest_def Let_def split: if_splits)
  have len: "length (contextArray s) = MAX_ACTIVE_SESSIONS"
    using inv by (simp add: sess_inv_def track_ok_def)
  have "contextArray s' ! i = (if i = session_index handle then 0 else contextArray s ! i)"
    if "i < MAX_ACTIVE_SESSIONS" for i
    using that len by (cases "session_index handle < MAX_ACTIVE_SESSIONS") (auto simp: a nth_list_update)
  then show ?thesis
    using a by (intro ids_ok_cong [OF ids]) (auto simp: saved_def split: if_splits)
qed

lemma sess_step_ok:
  assumes "sess_step c d" and "sess_config_ok c"
  shows "sess_config_ok d"
  using assms
proof (induction rule: sess_step.induct)
  case (create env s st ah nc sd bind seed r s' ids)
  then show ?case by (auto simp: sess_config_ok_def intro: SessionCreate_inv SessionCreate_ids)
next
  case (save s handle cid s' ids)
  then show ?case
    by (auto simp: sess_config_ok_def intro: SessionContextSave_inv SessionContextSave_ids)
next
  case (save_refused s handle rc s' ids)
  then have inv: "sess_inv s" and "ids_ok s ids"
    by (simp_all add: sess_config_ok_def)
  moreover have "s' = s"
    using inv save_refused(1,2) by (cases rule: SessionContextSave_cases) auto
  ultimately show ?case by (simp add: sess_config_ok_def)
next
  case (load s handle sequence se r s' ids)
  then show ?case
    using valid_sequence_saved [OF load(1)]
    by (auto simp: sess_config_ok_def intro: SessionContextLoad_inv SessionContextLoad_ids)
next
  case (flush s handle s' ids)
  then show ?case by (auto simp: sess_config_ok_def intro: SessionFlush_inv SessionFlush_ids)
next
  case (startup s type s' ids)
  then have t: "track_ok s" "slots_ok s" "ids_ok s ids"
    by (simp_all add: sess_config_ok_def sess_inv_def)
  then have "sess_inv s'"
    using SessionStartup_inv [of s type] startup(1) by (auto simp: track_ok_def slots_ok_def)
  then show ?case
    using SessionStartup_ids [OF t(3) startup(1)] t(1) by (simp add: sess_config_ok_def track_ok_def)
qed

interpretation session: safe_system sess_start sess_step sess_config_ok
proof
  fix c
  assume "sess_start c"
  then show "sess_config_ok c"
  proof cases
    case (1 s s' ids)
    have "sess_inv s'"
      using SessionStartup_inv [of s SU_RESET] 1 by auto
    moreover have "ids_ok s' ids"
      using SessionStartup_saved [OF 1(4,2)] by (simp add: ids_ok_def)
    ultimately show ?thesis using 1(1) by (simp add: sess_config_ok_def)
  qed
next
  fix c d
  assume "sess_config_ok c" and "sess_step c d"
  then show "sess_config_ok d" by (blast intro: sess_step_ok)
qed

section \<open>Properties\<close>


lemma SequenceNumber_iff:
  assumes "sess_inv s" and "ids_ok s ids" and sv: "saved s (session_index handle)" and lt: "q < contextCounter s"
  shows "SequenceNumberForSavedContextIsValid s handle q = Ret (q = ids (session_index handle))"
proof -
  let ?h = "session_index handle"
  let ?n = "slot_range (s_ContextSlotMask s)"
  have vm: "valid_mask s"
    using assms(1) by (simp add: sess_inv_def track_ok_def)
  have h: "?h < MAX_ACTIVE_SESSIONS" "MAX_LOADED_SESSIONS < unat (contextArray s ! ?h)"
    using sv by (auto simp: saved_def)
  have i: "unat (ids ?h) mod ?n = unat (contextArray s ! ?h)" "unat (ids ?h) < unat (contextCounter s)"
      "unat (contextCounter s) \<le> unat (ids ?h) + ?n"
    using assms(2) sv by (auto simp: ids_ok_def)
  have g: "unat (MAX_CONTEXT_GAP s) = ?n"
    using vm by (auto simp: MAX_CONTEXT_GAP_def CONTEXT_SLOT_MASKED_def slot_range_def)
  have d: "unat (contextCounter s - q) = unat (contextCounter s) - unat q"
    using lt by (simp add: unat_sub)
  have q: "unat q < unat (contextCounter s)"
    using lt by (simp add: word_less_nat_alt)
  have m: "contextArray s ! ?h = CONTEXT_SLOT_MASKED (s_ContextSlotMask s) q \<longleftrightarrow>
      unat (ids ?h) mod ?n = unat q mod ?n"
    using i(1) CONTEXT_SLOT_MASKED_unat [OF vm, of q] by (simp add: word_unat_eq_iff)
  have "unat q = unat (ids ?h)" if "unat (ids ?h) mod ?n = unat q mod ?n" "unat (contextCounter s) \<le> unat q + ?n"
  proof -
    have "unat (contextCounter s) + circ_dist ?n (unat (contextCounter s) mod ?n) (unat q mod ?n) = unat q + ?n"
      using q that(2) by (intro circ_dist_age) (simp_all add: slot_range_def)
    moreover have "unat (contextCounter s) + circ_dist ?n (unat (contextCounter s) mod ?n) (unat (ids ?h) mod ?n)
        = unat (ids ?h) + ?n"
      using i by (intro circ_dist_age) (simp_all add: slot_range_def)
    ultimately show ?thesis using that(1) by simp
  qed
  then have "(unat (ids ?h) mod ?n = unat q mod ?n \<and> unat (contextCounter s) \<le> unat q + ?n) \<longleftrightarrow> q = ids ?h"
    using i by (auto simp: word_unat_eq_iff)
  moreover have "\<not> contextCounter s < q" "MAX_CONTEXT_GAP s < contextCounter s - q \<longleftrightarrow>
      \<not> unat (contextCounter s) \<le> unat q + ?n"
    using q by (auto simp: word_less_nat_alt g d)
  ultimately show ?thesis
    using h vm m
    by (simp add: SequenceNumberForSavedContextIsValid_def Let_def not_le pAssert_def) (metis not_less)
qed

text \<open>
  C17: replay protection. In a reachable state, of all the identifiers handed out so far (those below the counter) the check of \<^verbatim>\<open>TPM2_ContextLoad\<close> accepts exactly the one given to the last save of that session; every older context of the session is refused, although only 16 bits of the identifier are kept.
\<close>

theorem context_replay_protection:
  assumes "sess_start c" and "sess_step\<^sup>*\<^sup>* c (s, ids)"
    and "saved s (session_index handle)" and "q < contextCounter s"
  shows "SequenceNumberForSavedContextIsValid s handle q = Ret (q = ids (session_index handle))"
  using session.reachable_inv [OF assms(1,2)] assms(3,4)
  by (intro SequenceNumber_iff) (simp_all add: sess_config_ok_def)

text \<open>
  \<^verbatim>\<open>s_oldestSavedSession\<close> really is the oldest: whenever a session is saved, the index designates a saved session whose full 64-bit identifier is the least of all saved sessions.
\<close>

theorem oldest_has_least_id:
  assumes "sess_start c" and "sess_step\<^sup>*\<^sup>* c (s, ids)" and "saved s i"
  shows "saved s (unat (s_oldestSavedSession s)) \<and> ids (unat (s_oldestSavedSession s)) \<le> ids i"
proof -
  let ?o = "unat (s_oldestSavedSession s)"
  have inv: "sess_inv s" "ids_ok s ids"
    using session.reachable_inv [OF assms(1,2)] by (simp_all add: sess_config_ok_def)
  then have o: "saved s ?o" "slot_dist s ?o \<le> slot_dist s i" and t: "track_ok s"
    using assms(3) by (auto simp: sess_inv_def oldest_ok_def split: if_splits)
  from ids_age [OF t inv(2) o(1)] ids_age [OF t inv(2) assms(3)] o(2)
  have "unat (ids ?o) \<le> unat (ids i)"
    by (simp add: word_le_nat_alt)
  with o(1) show ?thesis by (simp add: word_le_nat_alt)
qed

text \<open>
  \<^verbatim>\<open>SessionContextSave\<close> compares the counter with the oldest entry only, and that is enough: it refuses with \<^verbatim>\<open>TPM_RC_CONTEXT_GAP\<close>, leaving the state unchanged, exactly when some saved session has the value that would be assigned.
\<close>

theorem context_gap_exact:
  assumes "sess_inv s" and "is_session_handle handle" and "is_loaded s (session_index handle)"
  shows "SessionContextSave s handle = Ret (Inl TPM_RC_CONTEXT_GAP, s) \<longleftrightarrow> (\<exists>i. saved s i \<and> contextArray s ! i = low_bits s)"
proof
  assume "SessionContextSave s handle = Ret (Inl TPM_RC_CONTEXT_GAP, s)"
  with assms(1) show "\<exists>i. saved s i \<and> contextArray s ! i = low_bits s"
    by (cases rule: SessionContextSave_cases) (auto simp: gap_is_max_def tpm_consts)
next
  assume "\<exists>i. saved s i \<and> contextArray s ! i = low_bits s"
  then obtain i where i: "saved s i" "contextArray s ! i = low_bits s" by blast
  have t: "track_ok s" "oldest_ok s"
    using assms(1) by (simp_all add: sess_inv_def)
  have "saved s (unat (s_oldestSavedSession s)) \<and> gap_is_max s"
    using no_gap_fresh [OF t, of i] i t(2) by (auto simp: saved_def oldest_ok_def split: if_splits)
  then show "SessionContextSave s handle = Ret (Inl TPM_RC_CONTEXT_GAP, s)"
    using assms(3) t(1) by (simp add: SessionContextSave_def is_loaded_iff(1) [OF assms(2)] saved_def track_ok_def)
qed

lemma SessionContextLoad_oldest_Ret:
  assumes inv: "sess_inv s" and hs: "is_session_handle handle" and free: "s_freeSessionSlots s \<noteq> 0"
    and sv: "saved s (session_index handle)" and old: "session_index handle = unat (s_oldestSavedSession s)"
  shows "\<exists>s'. SessionContextLoad s se handle = Ret (Inr handle, s')"
proof -
  let ?h = "session_index handle"
  have t: "track_ok s" "slots_ok s"
    using inv by (simp_all add: sess_inv_def)
  have h: "?h < MAX_ACTIVE_SESSIONS"
    using sv by (simp add: saved_def)
  note k = first_free_slot [OF t(2) free]
  show ?thesis
    using k free hs old h t(1)
    by (auto simp: SessionContextLoad_def Let_def ContextIdSetOldest_def track_ok_def)
qed

text \<open>
  C18: the gap can always be resolved. At the maximum gap the oldest context passes the sequence check, can be loaded, and can then be saved again with the current counter value.
\<close>

theorem gap_recoverable:
  assumes "sess_config_ok (s, ids)"
    and "saved s (unat (s_oldestSavedSession s))" and "gap_is_max s" and "contextCounter s + 1 \<noteq> 0"
    and "is_session_handle handle" and "session_index handle = unat (s_oldestSavedSession s)"
  shows "SequenceNumberForSavedContextIsValid s handle (ids (session_index handle)) = Ret True
    \<and> (\<exists>s1 s2. SessionContextLoad s se handle = Ret (Inr handle, s1)
        \<and> SessionContextSave s1 handle = Ret (Inr (contextCounter s), s2))"
proof -
  have inv: "sess_inv s" "ids_ok s ids"
    using assms(1) by (simp_all add: sess_config_ok_def)
  let ?h = "session_index handle"
  have sv: "saved s ?h"
    using assms(2,6) by simp
  have "ids ?h < contextCounter s"
    using inv(2) sv by (simp add: ids_ok_def word_less_nat_alt)
  with inv sv have valid: "SequenceNumberForSavedContextIsValid s handle (ids ?h) = Ret True"
    by (simp add: SequenceNumber_iff)
  have "s_freeSessionSlots s \<noteq> 0"
    using inv(1) assms(2,3) by (auto simp: sess_inv_def gap_reserve_def)
  then obtain s1 where l: "SessionContextLoad s se handle = Ret (Inr handle, s1)"
    using SessionContextLoad_oldest_Ret [OF inv(1) assms(5) _ sv assms(6)] by blast
  have inv1: "sess_inv s1"
    using inv(1) sv l by (rule SessionContextLoad_inv)
  from inv(1) sv l have s1: "is_loaded s1 ?h \<and> \<not> (saved s1 (unat (s_oldestSavedSession s1)) \<and> gap_is_max s1)
      \<and> contextCounter s1 = contextCounter s"
  proof (cases rule: SessionContextLoad_cases)
    case (loaded k o')
    have "contextArray s1 ! ?h = word_of_nat (Suc k)"
      using inv(1) sv by (simp add: loaded(5) occupy_entry sess_inv_def track_ok_def saved_def)
    moreover have "unat (word_of_nat (Suc k) :: u16) = Suc k"
      using loaded(1) by (rule unat_slot_number)
    ultimately have "is_loaded s1 ?h"
      using sv loaded(1) by (auto simp: is_loaded_def saved_def)
    then show ?thesis
      using loaded(5,7) assms(6) by (simp add: occupy_frame)
  qed simp
  have o1: "unat (s_oldestSavedSession s1) < MAX_ACTIVE_SESSIONS \<longrightarrow> saved s1 (unat (s_oldestSavedSession s1))"
    using inv1 by (auto simp: sess_inv_def oldest_ok_def split: if_splits)
  have "\<exists>s2. SessionContextSave s1 handle = Ret (Inr (contextCounter s), s2)"
    using s1 o1 inv1 assms(4)
    by (auto simp: SessionContextSave_def is_loaded_iff(1) [OF assms(5)] Let_def sess_inv_def track_ok_def is_loaded_def)
  with valid l show ?thesis by blast
qed

text \<open>The index of every handle the subsystem can assign, checked entry by entry.\<close>

lemma session_handle_index_all:
  "list_all (\<lambda>h. session_index (word_of_nat h + HMAC_SESSION_FIRST) = h
      \<and> session_index (word_of_nat h + POLICY_SESSION_FIRST) = h
      \<and> is_session_handle (word_of_nat h + HMAC_SESSION_FIRST)
      \<and> is_session_handle (word_of_nat h + POLICY_SESSION_FIRST)) [0..<MAX_ACTIVE_SESSIONS]"
  by code_simp

lemma session_handle_index:
  assumes "h < MAX_ACTIVE_SESSIONS"
  shows "session_index (word_of_nat h + (if b then HMAC_SESSION_FIRST else POLICY_SESSION_FIRST)) = h"
    and "is_session_handle (word_of_nat h + (if b then HMAC_SESSION_FIRST else POLICY_SESSION_FIRST))"
  using session_handle_index_all assms by (auto simp: list_all_iff)

text \<open>
  a handle returned by \<^verbatim>\<open>SessionCreate\<close> was not active before, is loaded afterwards, refers to a slot that was free, and no other session is affected.
\<close>

theorem SessionCreate_fresh:
  assumes "sess_inv s" and "SessionCreate env s sessionType authHash nonceCaller symDef bind seed = Ret (Inr (handle, nonce), s')"
  shows "SessionIsLoaded s handle = Ret False \<and> SessionIsSaved s handle = Ret False
    \<and> SessionIsLoaded s' handle = Ret True
    \<and> (\<forall>i < MAX_ACTIVE_SESSIONS. i \<noteq> session_index handle \<longrightarrow> contextArray s' ! i = contextArray s ! i)
    \<and> (\<exists>k. SessionGet s' handle = Ret k \<and> \<not> occupied (s_sessions s ! k)
         \<and> occupied (s_sessions s' ! k) \<and> nonceTPM (session (s_sessions s' ! k)) = nonce)"
  using assms
proof (cases rule: SessionCreate_cases)
  case (2 k h se)
  have len: "length (contextArray s) = MAX_ACTIVE_SESSIONS" "length (s_sessions s) = MAX_LOADED_SESSIONS"
    using assms(1) by (simp_all add: sess_inv_def track_ok_def slots_ok_def)
  have hd: "handle = word_of_nat h + (if sessionType = TPM_SE_HMAC then HMAC_SESSION_FIRST else POLICY_SESSION_FIRST)"
    and nonce: "nonce = nonceTPM se"
    using 2(8) by auto
  have idx: "session_index handle = h" and hs: "is_session_handle handle"
    unfolding hd using session_handle_index [OF 2(3)] by blast+
  have e: "contextArray s' ! i = (if i = h then word_of_nat (Suc k) else contextArray s ! i)" if "i < MAX_ACTIVE_SESSIONS" for i
    using that len by (simp add: 2(5) occupy_entry)
  have k: "unat (word_of_nat (Suc k) :: u16) = Suc k"
    using 2(1) by (rule unat_slot_number)
  have "is_loaded s' h"
    using e [OF 2(3)] k 2(1,3) by (auto simp: is_loaded_def)
  moreover have "\<not> is_loaded s h" "\<not> saved s h"
    using 2(4) by (auto simp: is_loaded_def saved_def)
  moreover have "SessionGet s' handle = Ret k"
  proof -
    have "unat (word_of_nat (Suc k) - 1 :: u16) = k"
      using k by (subst unat_sub) (auto simp: word_le_nat_alt)
    then show ?thesis
      using e [OF 2(3)] 2(1,3) by (simp add: SessionGet_def hs idx)
  qed
  moreover have "s_sessions s' ! k = \<lparr>occupied = True, session = se\<rparr>"
    using 2(1) len by (simp add: 2(5) occupy_def)
  ultimately show ?thesis
    using 2(2) e nonce by (auto simp: is_loaded_iff [OF hs] idx)
qed simp

text \<open>
  when the 64-bit counter is exhausted, \<^verbatim>\<open>SessionContextSave\<close> returns \<^verbatim>\<open>TPM_RC_TOO_MANY_CONTEXTS\<close> after it has overwritten the array entry: the session now counts as saved, its slot stays occupied and the free count is not raised, so the slot is lost.
\<close>

theorem counter_overflow_leaks_slot:
  assumes "sess_inv s" and "is_session_handle handle" and "is_loaded s (session_index handle)"
    and "contextCounter s + 1 = 0" and "\<not> (saved s (unat (s_oldestSavedSession s)) \<and> gap_is_max s)"
  shows "\<exists>s'. SessionContextSave s handle = Ret (Inl TPM_RC_TOO_MANY_CONTEXTS, s')
    \<and> SessionIsSaved s' handle = Ret True \<and> s_sessions s' = s_sessions s
    \<and> s_freeSessionSlots s' = s_freeSessionSlots s \<and> \<not> sess_inv s'"
proof -
  let ?h = "session_index handle"
  let ?s' = "s\<lparr>contextArray := (contextArray s)[?h := low_bits s]\<rparr>"
  have t: "track_ok s" "slots_ok s"
    using assms(1) by (simp_all add: sess_inv_def)
  have len: "length (contextArray s) = MAX_ACTIVE_SESSIONS" and vm: "valid_mask s"
    and low: "MAX_LOADED_SESSIONS < unat (low_bits s)"
    using t(1) by (auto simp: track_ok_def)
  have h: "?h < MAX_ACTIVE_SESSIONS"
    using assms(3) by (simp add: is_loaded_def)
  have o: "unat (s_oldestSavedSession s) < MAX_ACTIVE_SESSIONS \<longrightarrow> saved s (unat (s_oldestSavedSession s))"
    using assms(1) by (auto simp: sess_inv_def oldest_ok_def split: if_splits)
  have r: "SessionContextSave s handle = Ret (Inl TPM_RC_TOO_MANY_CONTEXTS, ?s')"
    using assms(3,4,5) o h vm
    by (auto simp: SessionContextSave_def is_loaded_iff(1) [OF assms(2)] Let_def)
  define k where "k = unat (contextArray s ! ?h - 1)"
  have k: "k < MAX_LOADED_SESSIONS" "unat (contextArray s ! ?h) = Suc k"
    using is_loaded_slot [OF assms(3)] by (simp_all add: k_def)
  have "occupied (s_sessions s ! k)"
    using t(2) k h by (auto simp: slots_ok_def)
  moreover have "unat (contextArray ?s' ! i) \<noteq> Suc k" if i: "i < MAX_ACTIVE_SESSIONS" for i
  proof (cases "i = ?h")
    case True
    then show ?thesis using low k(1) h len by simp
  next
    case False
    have "contextArray s ! i \<noteq> 0 \<longrightarrow> contextArray s ! i = contextArray s ! ?h \<longrightarrow> i = ?h"
      using t(1) i h unfolding track_ok_def by blast
    then show ?thesis
      using False k(2) by (auto simp: word_unat_eq_iff)
  qed
  ultimately have "\<not> slots_ok ?s'"
    using k(1) by (auto simp: slots_ok_def)
  moreover have "SessionIsSaved ?s' handle = Ret True"
    using h len low by (simp add: is_loaded_iff(2) [OF assms(2)] saved_def)
  ultimately show ?thesis
    using r by (auto simp: sess_inv_def)
qed

text \<open>
  \<^verbatim>\<open>SessionCapGetOneLoaded\<close> answers YES for a session that is saved and not loaded.
\<close>

theorem CapGetOneLoaded_reports_saved:
  assumes "saved s (session_index handle)" and "HandleGetType handle = TPM_HT_LOADED_SESSION"
  shows "SessionCapGetOneLoaded s handle = Ret True \<and> SessionIsLoaded s handle = Ret False"
  using assms
  by (auto simp: SessionCapGetOneLoaded_def SessionIsLoaded_def is_session_handle_def saved_def Let_def
      pAssert_def tpm_consts)

text \<open>The list of saved sessions, as a specification over the tracking array.\<close>

definition saved_handles :: "sess_state \<Rightarrow> nat list \<Rightarrow> TPM_HANDLE list" where
  "saved_handles s is = map (\<lambda>i. word_of_nat i + HMAC_SESSION_FIRST) (filter (saved s) is)"

lemma SessionCapGetSaved_loop_spec:
  "list_all (\<lambda>i. i < MAX_ACTIVE_SESSIONS) is \<Longrightarrow> length acc \<le> count \<Longrightarrow>
     SessionCapGetSaved_loop s count is acc =
       (count < length acc + length (saved_handles s is),
        acc @ take (count - length acc) (saved_handles s is))"
proof (induction "is" arbitrary: acc)
  case Nil
  then show ?case by (simp add: saved_handles_def)
next
  case (Cons i "is")
  have "contextArray s ! i \<noteq> 0 \<and> slot_saved (contextArray s ! i) \<longleftrightarrow> saved s i"
    using Cons.prems(1) by (auto simp: saved_def)
  with Cons show ?case
    by (auto simp: saved_handles_def Suc_diff_Suc take_Cons' Suc_leI)
qed

text \<open>
  \<^verbatim>\<open>SessionCapGetSaved\<close> returns the handles of the saved sessions from the start index on, in increasing order and cut to the requested count, and reports more exactly when some did not fit.
\<close>

theorem SessionCapGetSaved_spec:
  assumes "HandleGetType handle = TPM_HT_SAVED_SESSION"
  shows "SessionCapGetSaved s handle count =
    (let all = saved_handles s [session_index handle ..< MAX_ACTIVE_SESSIONS];
         n = min (unat count) MAX_CAP_HANDLES
     in Ret (n < length all, take n all))"
  using assms SessionCapGetSaved_loop_spec [of "[session_index handle ..< MAX_ACTIVE_SESSIONS]" "[]"]
  by (simp add: SessionCapGetSaved_def Let_def list_all_iff)

section \<open>Instances\<close>

definition demo_env :: sess_env where
  "demo_env = \<lparr>CryptRandomGenerate = (\<lambda>n. replicate n 7), EntityGetAuthValue = (\<lambda>_. []),
     EntityGetName = (\<lambda>_. []), CryptKDFa = (\<lambda>_ _ _ _ _ n. replicate (n div 8) 1),
     CryptHashGetDigestSize = (\<lambda>_. 32), IsDAExempted = (\<lambda>_. True)\<rparr>"

definition demo_boot :: sess_state where
  "demo_boot = \<lparr>s_sessions = replicate 3 \<lparr>occupied = False, session = SESSION_zero\<rparr>,
     s_oldestSavedSession = 65, s_freeSessionSlots = 3, contextArray = replicate 64 0,
     contextCounter = 4, s_ContextSlotMask = 0xffff, gr_pcrCounter = 0, g_time = 0, g_timeEpoch = 0\<rparr>"

definition demo_sym :: TPMT_SYM_DEF where
  "demo_sym = \<lparr>sym_algorithm = 0x10, sym_keyBits = 0, sym_mode = 0\<rparr>"

definition demo_st :: "('a \<times> sess_state) outcome \<Rightarrow> sess_state" where
  "demo_st r = (case r of Ret (_, s) \<Rightarrow> s | FailureMode \<Rightarrow> demo_boot)"

definition demo_create :: "((TPM_RC + TPM_HANDLE \<times> bytes) \<times> sess_state) outcome" where
  "demo_create = SessionCreate demo_env demo_boot TPM_SE_HMAC 0xB (replicate 16 0) demo_sym TPM_RH_NULL []"

definition demo_s1 :: sess_state where "demo_s1 = demo_st demo_create"
definition demo_s2 :: sess_state where "demo_s2 = demo_st (SessionContextSave demo_s1 0x02000000)"

lemma demo_create_eq: "demo_create = Ret (Inr (0x02000000, replicate 16 7), demo_s1)"
  by code_simp

lemma demo_save_eq: "SessionContextSave demo_s1 0x02000000 = Ret (Inr 4, demo_s2)"
  by code_simp

lemma demo_saved: "saved demo_s2 0" "contextCounter demo_s2 = 5" "session_index 0x02000000 = 0"
    "is_session_handle 0x02000000"
  by code_simp+

lemma demo_start: "sess_start (demo_boot, ids)"
proof (rule sess_start.intros)
  show "SessionStartup demo_boot SU_RESET = Ret demo_boot"
    by (simp add: SessionStartup_def Let_def demo_boot_def tpm_consts)
qed (simp_all add: demo_boot_def tpm_consts)

lemma demo_reachable: "sess_step\<^sup>*\<^sup>* (demo_boot, \<lambda>_. 0) (demo_s2, (\<lambda>_. 0)(0 := 4))"
proof -
  have "sess_step (demo_boot, \<lambda>_. 0) (demo_s1, \<lambda>_. 0)"
    using demo_create_eq unfolding demo_create_def by (rule sess_step.create)
  moreover have "sess_step (demo_s1, \<lambda>_. 0) (demo_s2, (\<lambda>_. 0)(0 := 4))"
    using sess_step.save [OF demo_save_eq] by (simp add: demo_saved)
  ultimately show ?thesis by simp
qed


theorem context_replay_protection_witness:
  "SequenceNumberForSavedContextIsValid demo_s2 0x02000000 4 = Ret True
    \<and> SequenceNumberForSavedContextIsValid demo_s2 0x02000000 3 = Ret False"
  using context_replay_protection [OF demo_start demo_reachable, of "0x02000000" 4]
    context_replay_protection [OF demo_start demo_reachable, of "0x02000000" 3]
  by (simp add: demo_saved)

theorem oldest_has_least_id_witness: "saved demo_s2 (unat (s_oldestSavedSession demo_s2))"
  using oldest_has_least_id [OF demo_start demo_reachable demo_saved(1)] by blast

lemma demo_boot_inv: "sess_inv demo_boot"
  using session.reachable_inv [OF demo_start rtranclp.rtrancl_refl, of "\<lambda>_. 0"]
  by (simp add: sess_config_ok_def)

lemma demo_s1_inv: "sess_inv demo_s1"
  using SessionCreate_inv [OF demo_boot_inv demo_create_eq [unfolded demo_create_def]] .

lemma demo_s1_facts: "is_loaded demo_s1 0" "s_oldestSavedSession demo_s1 = 65" "contextArray demo_s1 ! 0 = 1"
  by code_simp+

theorem context_gap_exact_witness:
  "SessionContextSave demo_s1 0x02000000 = Ret (Inl TPM_RC_CONTEXT_GAP, demo_s1) \<longleftrightarrow>
     (\<exists>i. saved demo_s1 i \<and> contextArray demo_s1 ! i = low_bits demo_s1)"
  using context_gap_exact [OF demo_s1_inv, of "0x02000000"] by (simp add: demo_saved demo_s1_facts)

theorem SessionCreate_fresh_witness: "SessionIsLoaded demo_s1 0x02000000 = Ret True"
  using SessionCreate_fresh [OF demo_boot_inv demo_create_eq [unfolded demo_create_def]] by blast

definition demo_full :: sess_state where
  "demo_full = demo_s1\<lparr>contextCounter := 0xFFFFFFFFFFFFFFFF\<rparr>"

lemma demo_full_inv: "sess_inv demo_full"
proof -
  have ns: "\<not> saved demo_s1 i" for i
    using demo_s1_inv by (auto simp: sess_inv_def oldest_ok_def demo_s1_facts saved_def tpm_consts split: if_splits)
  have "s_ContextSlotMask demo_s1 = 0xffff" by code_simp
  then have "MAX_LOADED_SESSIONS < unat (low_bits demo_full)"
    by (simp add: demo_full_def CONTEXT_SLOT_MASKED_def tpm_consts)
  then have "track_ok demo_full"
    using demo_s1_inv by (auto simp: sess_inv_def track_ok_def demo_full_def)
  then show ?thesis
    using demo_s1_inv ns by (auto simp: sess_inv_def slots_ok_def oldest_ok_def gap_reserve_def saved_def demo_full_def split: if_splits)
qed

theorem counter_overflow_leaks_slot_witness:
  "\<exists>s'. SessionContextSave demo_full 0x02000000 = Ret (Inl TPM_RC_TOO_MANY_CONTEXTS, s') \<and> \<not> sess_inv s'"
proof -
  have "is_loaded demo_full 0" and "\<not> saved demo_full (unat (s_oldestSavedSession demo_full))"
    and "contextCounter demo_full + 1 = 0"
    using demo_s1_facts by (simp_all add: demo_full_def is_loaded_def saved_def tpm_consts)
  then show ?thesis
    using counter_overflow_leaks_slot [OF demo_full_inv, of "0x02000000"] by (auto simp: demo_saved)
qed

theorem CapGetOneLoaded_reports_saved_witness:
  "SessionCapGetOneLoaded demo_s2 0x02000000 = Ret True \<and> SessionIsLoaded demo_s2 0x02000000 = Ret False"
proof -
  have "HandleGetType 0x02000000 = TPM_HT_LOADED_SESSION" by code_simp
  then show ?thesis
    using CapGetOneLoaded_reports_saved [of demo_s2 "0x02000000"] by (simp add: demo_saved)
qed

theorem SessionCapGetSaved_spec_witness:
  "SessionCapGetSaved demo_s2 0x03000000 10 = Ret (False, [0x02000000])"
proof -
  have t: "HandleGetType 0x03000000 = TPM_HT_SAVED_SESSION" and i: "session_index 0x03000000 = 0"
    and l: "saved_handles demo_s2 [0..<MAX_ACTIVE_SESSIONS] = [0x02000000]"
    by code_simp+
  show ?thesis
    using SessionCapGetSaved_spec [OF t, of demo_s2 10] by (simp add: i l Let_def MAX_CAP_HANDLES_def)
qed

definition demo_gap :: sess_state where
  "demo_gap = demo_boot\<lparr>contextArray := (replicate 64 0)[0 := 4], contextCounter := 0x10004,
     s_oldestSavedSession := 0\<rparr>"

lemma demo_gap_entry: "i < MAX_ACTIVE_SESSIONS \<Longrightarrow> contextArray demo_gap ! i = (if i = 0 then 4 else 0)"
  by (simp add: demo_gap_def demo_boot_def tpm_consts nth_list_update)

lemma demo_gap_saved: "saved demo_gap i \<longleftrightarrow> i = 0"
  using demo_gap_entry [of i] by (auto simp: saved_def tpm_consts split: if_splits)

lemma demo_gap_facts:
  "length (contextArray demo_gap) = MAX_ACTIVE_SESSIONS" "s_ContextSlotMask demo_gap = 0xffff"
  "low_bits demo_gap = 4" "s_oldestSavedSession demo_gap = 0" "contextCounter demo_gap = 0x10004"
  "s_freeSessionSlots demo_gap = 3" "s_sessions demo_gap = replicate 3 \<lparr>occupied = False, session = SESSION_zero\<rparr>"
  by (simp_all add: demo_gap_def demo_boot_def CONTEXT_SLOT_MASKED_def tpm_consts)

lemma demo_gap_ok: "sess_config_ok (demo_gap, \<lambda>_. 4)"
proof -
  have "track_ok demo_gap"
    using demo_gap_entry demo_gap_facts by (simp add: track_ok_def slot_range_def tpm_consts)
  moreover have "slots_ok demo_gap"
    using demo_gap_entry by (auto simp: slots_ok_def demo_gap_facts tpm_consts split: if_splits)
  moreover have "oldest_ok demo_gap" "gap_reserve demo_gap"
    by (simp_all add: oldest_ok_def gap_reserve_def demo_gap_saved demo_gap_facts)
  moreover have "ids_ok demo_gap (\<lambda>_. 4)"
    using demo_gap_entry [of 0] by (simp add: ids_ok_def demo_gap_saved demo_gap_facts slot_range_def tpm_consts)
  ultimately show ?thesis by (simp add: sess_config_ok_def sess_inv_def)
qed

theorem gap_recoverable_witness:
  "SequenceNumberForSavedContextIsValid demo_gap 0x02000000 4 = Ret True
    \<and> (\<exists>s1 s2. SessionContextLoad demo_gap SESSION_zero 0x02000000 = Ret (Inr 0x02000000, s1)
        \<and> SessionContextSave s1 0x02000000 = Ret (Inr 0x10004, s2))"
proof -
  have i: "session_index 0x02000000 = 0" and h: "is_session_handle 0x02000000"
    by code_simp+
  show ?thesis
    using gap_recoverable [OF demo_gap_ok, of "0x02000000" SESSION_zero] demo_gap_entry [of 0]
    by (simp add: demo_gap_saved demo_gap_facts gap_is_max_def i h CONTEXT_SLOT_MASKED_def tpm_consts)
qed

end
