(* ===== verification/Platform_Clock.thy ===== *)
theory Platform_Clock
  imports TPM_Prelude
begin

text \<open>
  The simulated tick timer, \<^verbatim>\<open>src/libtpms/src/tpm2/Clock.c\<close>: the variables of
  \<^verbatim>\<open>PlatformData.h\<close> as a record, one definition per platform function. The readings of
  \<^verbatim>\<open>clock_gettime\<close> are arguments (\<open>mon\<close> for \<^verbatim>\<open>CLOCK_MONOTONIC\<close>, \<open>rtc\<close> for
  \<^verbatim>\<open>CLOCK_REALTIME\<close>, in milliseconds). All arithmetic is modulo \<open>2 ^ 64\<close> as in C. The theory
  shows that the rate divisor stays in its band, that a read never moves the timer back, and
  how far the timer can drift from the reported system time.
\<close>

section \<open>State and operations\<close>

record plat_clock =
  s_realTimePrevious :: u64
  s_lastSystemTime :: u64
  s_lastReportedTime :: u64
  s_tpmTime :: u64
  s_hostMonotonicAdjustTime :: u64
  s_suspendedElapsedTime :: u64
  s_timerReset :: bool
  s_timerStopped :: bool
  s_adjustRate :: u32

definition CLOCK_NOMINAL :: u32 where [tpm_consts]: "CLOCK_NOMINAL = 30000"
definition CLOCK_ADJUST_COARSE :: u32 where [tpm_consts]: "CLOCK_ADJUST_COARSE = 300"
definition CLOCK_ADJUST_MEDIUM :: u32 where [tpm_consts]: "CLOCK_ADJUST_MEDIUM = 30"
definition CLOCK_ADJUST_FINE :: u32 where [tpm_consts]: "CLOCK_ADJUST_FINE = 1"
definition CLOCK_ADJUST_LIMIT :: u32 where [tpm_consts]: "CLOCK_ADJUST_LIMIT = 5000"

datatype plat_ClockAdjustStep =
    PLAT_TPM_CLOCK_ADJUST_COARSE_SLOWER
  | PLAT_TPM_CLOCK_ADJUST_MEDIUM_SLOWER
  | PLAT_TPM_CLOCK_ADJUST_FINE_SLOWER
  | PLAT_TPM_CLOCK_ADJUST_FINE_FASTER
  | PLAT_TPM_CLOCK_ADJUST_MEDIUM_FASTER
  | PLAT_TPM_CLOCK_ADJUST_COARSE_FASTER

text \<open>The signed comparison \<^verbatim>\<open>timediff >= 0\<close> is a test of the top bit.\<close>

definition ClockAdjustPostResume ::
  "u64 \<Rightarrow> u64 \<Rightarrow> u64 \<Rightarrow> bool \<Rightarrow> plat_clock \<Rightarrow> plat_clock" where
  "ClockAdjustPostResume rtc mon backthen timesAreRealtime c =
     (if timesAreRealtime
      then c\<lparr>s_suspendedElapsedTime := rtc, s_hostMonotonicAdjustTime := - mon,
             s_lastSystemTime := rtc, s_lastReportedTime := rtc\<rparr>
      else if 0 \<le> sint (rtc - backthen)
      then c\<lparr>s_suspendedElapsedTime := s_suspendedElapsedTime c + (rtc - backthen)\<rparr>
      else c)"

definition plat_TimerReset :: "plat_clock \<Rightarrow> plat_clock" where
  "plat_TimerReset c = c\<lparr>s_lastSystemTime := 0, s_tpmTime := 0,
     s_adjustRate := CLOCK_NOMINAL, s_timerReset := True, s_timerStopped := True,
     s_hostMonotonicAdjustTime := 0, s_suspendedElapsedTime := 0\<rparr>"

definition plat_TimerRestart :: "plat_clock \<Rightarrow> plat_clock" where
  "plat_TimerRestart c = c\<lparr>s_timerStopped := True\<rparr>"

definition plat_RealTime :: "u64 \<Rightarrow> plat_clock \<Rightarrow> u64" where
  "plat_RealTime mon c = mon + (s_hostMonotonicAdjustTime c + s_suspendedElapsedTime c)"

text \<open>
  \<^verbatim>\<open>_plat__TimerRead\<close> in two parts: tracking the system time (\<open>track_system_time\<close>, which leaves
  the reported time in \<^verbatim>\<open>s_lastReportedTime\<close>) and the rate adjustment.
\<close>

definition track_system_time :: "u64 \<Rightarrow> plat_clock \<Rightarrow> plat_clock" where
  "track_system_time timeNow c =
     (let c1 = (if s_lastSystemTime c = 0
                then c\<lparr>s_lastSystemTime := timeNow, s_lastReportedTime := 0,
                       s_realTimePrevious := 0\<rparr> else c);
          c2 = (if timeNow < s_lastReportedTime c1
                then c1\<lparr>s_lastSystemTime := timeNow\<rparr> else c1)
      in c2\<lparr>s_lastReportedTime := s_lastReportedTime c2 + timeNow - s_lastSystemTime c2,
            s_lastSystemTime := timeNow\<rparr>)"

definition adjust_rate :: "plat_clock \<Rightarrow> plat_clock" where
  "adjust_rate c =
     (let timeNow = s_lastReportedTime c in
      if timeNow \<le> s_realTimePrevious c then c
      else let timeDiff = timeNow - s_realTimePrevious c;
               adjustedTimeDiff = (timeDiff * ucast CLOCK_NOMINAL) div ucast (s_adjustRate c);
               readjustedTimeDiff =
                 (adjustedTimeDiff * ucast (s_adjustRate c)) div ucast CLOCK_NOMINAL
           in c\<lparr>s_tpmTime := s_tpmTime c + adjustedTimeDiff,
                s_realTimePrevious := s_realTimePrevious c + readjustedTimeDiff\<rparr>)"

definition plat_TimerRead :: "u64 \<Rightarrow> plat_clock \<Rightarrow> u64 \<times> plat_clock" where
  "plat_TimerRead mon c =
     (let c' = adjust_rate (track_system_time (plat_RealTime mon c) c) in (s_tpmTime c', c'))"

definition plat_TimerWasReset :: "plat_clock \<Rightarrow> bool \<times> plat_clock" where
  "plat_TimerWasReset c = (s_timerReset c, c\<lparr>s_timerReset := False\<rparr>)"

definition plat_TimerWasStopped :: "plat_clock \<Rightarrow> bool \<times> plat_clock" where
  "plat_TimerWasStopped c = (s_timerStopped c, c\<lparr>s_timerStopped := False\<rparr>)"

fun rate_step :: "plat_ClockAdjustStep \<Rightarrow> u32 \<Rightarrow> u32" where
  "rate_step PLAT_TPM_CLOCK_ADJUST_COARSE_SLOWER r = r + CLOCK_ADJUST_COARSE"
| "rate_step PLAT_TPM_CLOCK_ADJUST_MEDIUM_SLOWER r = r + CLOCK_ADJUST_MEDIUM"
| "rate_step PLAT_TPM_CLOCK_ADJUST_FINE_SLOWER r = r + CLOCK_ADJUST_FINE"
| "rate_step PLAT_TPM_CLOCK_ADJUST_FINE_FASTER r = r - CLOCK_ADJUST_FINE"
| "rate_step PLAT_TPM_CLOCK_ADJUST_MEDIUM_FASTER r = r - CLOCK_ADJUST_MEDIUM"
| "rate_step PLAT_TPM_CLOCK_ADJUST_COARSE_FASTER r = r - CLOCK_ADJUST_COARSE"

definition plat_ClockRateAdjust :: "plat_ClockAdjustStep \<Rightarrow> plat_clock \<Rightarrow> plat_clock" where
  "plat_ClockRateAdjust adjust c =
     (let r = rate_step adjust (s_adjustRate c);
          r1 = (if CLOCK_NOMINAL + CLOCK_ADJUST_LIMIT < r
                then CLOCK_NOMINAL + CLOCK_ADJUST_LIMIT else r);
          r2 = (if r1 < CLOCK_NOMINAL - CLOCK_ADJUST_LIMIT
                then CLOCK_NOMINAL - CLOCK_ADJUST_LIMIT else r1)
      in c\<lparr>s_adjustRate := r2\<rparr>)"

section \<open>The rate band\<close>

definition rate_ok :: "plat_clock \<Rightarrow> bool" where
  "rate_ok c \<longleftrightarrow> 25000 \<le> unat (s_adjustRate c) \<and> unat (s_adjustRate c) \<le> 35000"

text \<open>The steps of the timer: every platform call, with any argument.\<close>

inductive timer_step :: "plat_clock \<Rightarrow> plat_clock \<Rightarrow> bool" where
  ts_reset: "timer_step c (plat_TimerReset c)"
| ts_restart: "timer_step c (plat_TimerRestart c)"
| ts_read: "timer_step c (snd (plat_TimerRead mon c))"
| ts_wasReset: "timer_step c (snd (plat_TimerWasReset c))"
| ts_wasStopped: "timer_step c (snd (plat_TimerWasStopped c))"
| ts_adjust: "timer_step c (plat_ClockRateAdjust a c)"
| ts_resume: "timer_step c (ClockAdjustPostResume rtc mon backthen rt c)"

lemma rate_ok_ClockRateAdjust: "rate_ok (plat_ClockRateAdjust a c)"
  by (auto simp: rate_ok_def plat_ClockRateAdjust_def Let_def word_less_nat_alt tpm_consts)

lemma track_system_time_rate [simp]: "s_adjustRate (track_system_time t c) = s_adjustRate c"
  by (simp add: track_system_time_def Let_def)

lemma track_system_time_tpmTime [simp]: "s_tpmTime (track_system_time t c) = s_tpmTime c"
  by (simp add: track_system_time_def Let_def)

lemma adjust_rate_rate [simp]: "s_adjustRate (adjust_rate c) = s_adjustRate c"
  by (simp add: adjust_rate_def Let_def)

lemma adjust_rate_reported [simp]: "s_lastReportedTime (adjust_rate c) = s_lastReportedTime c"
  by (simp add: adjust_rate_def Let_def)

lemma TimerRead_rate [simp]: "s_adjustRate (snd (plat_TimerRead m c)) = s_adjustRate c"
  by (simp add: plat_TimerRead_def Let_def)

lemma rate_ok_step: "rate_ok c \<Longrightarrow> timer_step c d \<Longrightarrow> rate_ok d"
  by (erule timer_step.cases)
    (auto simp: rate_ok_ClockRateAdjust, auto simp: rate_ok_def plat_TimerReset_def
      plat_TimerRestart_def plat_TimerWasReset_def plat_TimerWasStopped_def
      ClockAdjustPostResume_def CLOCK_NOMINAL_def)

interpretation timer: safe_system "\<lambda>c. \<exists>c0. c = plat_TimerReset c0" timer_step rate_ok
proof unfold_locales
  show "rate_ok c" if "\<exists>c0. c = plat_TimerReset c0" for c
    using that by (auto simp: rate_ok_def plat_TimerReset_def CLOCK_NOMINAL_def)
qed (rule rate_ok_step)

section \<open>Reading the timer\<close>

text \<open>What one adjustment does on natural numbers, when the products stay below \<open>2 ^ 64\<close>.\<close>

definition adj :: "nat \<Rightarrow> nat \<Rightarrow> nat" where
  "adj r diff = diff * 30000 div r"

definition readj :: "nat \<Rightarrow> nat \<Rightarrow> nat" where
  "readj r diff = adj r diff * r div 30000"

lemma adj_times_le: "adj r d * r \<le> d * 30000"
  unfolding adj_def by (rule div_times_less_eq_dividend)

lemma readj_le: "readj r d \<le> d"
  using div_le_mono [OF adj_times_le, of r d 30000] by (simp add: readj_def)

lemma adj_upper:
  assumes "25000 \<le> r"
  shows "5 * adj r d \<le> 6 * d"
proof -
  have "adj r d * 25000 \<le> adj r d * r"
    using assms by (rule mult_le_mono2)
  also have "\<dots> \<le> d * 30000"
    by (rule adj_times_le)
  finally show ?thesis by simp
qed

lemma adj_lower:
  assumes "r \<le> 35000" "0 < r"
  shows "6 * d < 7 * (adj r d + 1)"
proof -
  have "d * 30000 < (adj r d + 1) * r"
    using dividend_less_times_div [OF \<open>0 < r\<close>, of "d * 30000"] by (simp add: adj_def algebra_simps)
  also have "\<dots> \<le> (adj r d + 1) * 35000"
    using assms(1) by (intro mult_le_mono2)
  finally show ?thesis by simp
qed

lemma adj_le_readj:
  assumes "30000 \<le> r"
  shows "adj r d \<le> readj r d"
proof -
  have "adj r d * 30000 \<le> adj r d * r"
    using assms by simp
  then have "adj r d * 30000 div 30000 \<le> adj r d * r div 30000"
    by (rule div_le_mono)
  then show ?thesis by (simp add: readj_def)
qed

lemma unat_rate_u64: "unat (ucast (r :: u32) :: u64) = unat r"
  by (simp add: unsigned_ucast_eq take_bit_nat_eq_self [OF less_trans [OF unsigned_less]])

lemma adjusted_unat:
  assumes "d * 30000 < 2 ^ 64" "unat diff = d"
  shows "unat ((diff * ucast CLOCK_NOMINAL) div (ucast (r :: u32)) :: u64) = adj (unat r) d"
proof -
  have "unat (diff * ucast CLOCK_NOMINAL :: u64) = d * 30000"
    using assms by (simp add: CLOCK_NOMINAL_def unat_word_ariths)
  then show ?thesis by (simp add: unat_div unat_rate_u64 adj_def)
qed

lemma readjusted_unat:
  assumes "d * 30000 < 2 ^ 64" "unat (a :: u64) = adj (unat r) d"
  shows "unat ((a * ucast (r :: u32)) div ucast CLOCK_NOMINAL) = readj (unat r) d"
proof -
  have "adj (unat r) d * unat r < 2 ^ 64"
    using adj_times_le assms(1) by (rule le_less_trans)
  then have "unat (a * ucast r) = adj (unat r) d * unat r"
    using assms(2) by (simp add: unat_word_ariths unat_rate_u64)
  then show ?thesis by (simp add: unat_div CLOCK_NOMINAL_def readj_def)
qed

text \<open>The distance between the reported time and the part of it already accounted for.\<close>

definition pending_ms :: "plat_clock \<Rightarrow> nat" where
  "pending_ms c = unat (s_lastReportedTime c) - unat (s_realTimePrevious c)"

lemma adjust_rate_unat:
  assumes "pending_ms c * 30000 < 2 ^ 64"
    and "unat (s_tpmTime c) + adj (unat (s_adjustRate c)) (pending_ms c) < 2 ^ 64"
  shows "unat (s_tpmTime (adjust_rate c))
           = unat (s_tpmTime c) + adj (unat (s_adjustRate c)) (pending_ms c)"
    and "unat (s_realTimePrevious (adjust_rate c))
           = unat (s_realTimePrevious c) + readj (unat (s_adjustRate c)) (pending_ms c)"
proof -
  let ?d = "s_lastReportedTime c - s_realTimePrevious c"
  let ?a = "(?d * ucast CLOCK_NOMINAL) div ucast (s_adjustRate c) :: u64"
  have "unat (s_tpmTime (adjust_rate c))
           = unat (s_tpmTime c) + adj (unat (s_adjustRate c)) (pending_ms c) \<and>
        unat (s_realTimePrevious (adjust_rate c))
           = unat (s_realTimePrevious c) + readj (unat (s_adjustRate c)) (pending_ms c)"
  proof (cases "s_lastReportedTime c \<le> s_realTimePrevious c")
    case True
    then have "pending_ms c = 0"
      by (simp add: pending_ms_def word_le_nat_alt)
    with True show ?thesis
      by (simp add: adjust_rate_def Let_def adj_def readj_def)
  next
    case False
    then have le: "s_realTimePrevious c \<le> s_lastReportedTime c"
      by simp
    then have d: "unat ?d = pending_ms c"
      by (simp add: pending_ms_def unat_sub)
    note a = adjusted_unat [OF assms(1) d, of "s_adjustRate c"]
    note b = readjusted_unat [OF assms(1) a]
    have "readj (unat (s_adjustRate c)) (pending_ms c) \<le> pending_ms c"
      by (rule readj_le)
    then have "unat (s_realTimePrevious c) + readj (unat (s_adjustRate c)) (pending_ms c) < 2 ^ 64"
      using le unsigned_less [where 'a = nat, of "s_lastReportedTime c"]
      by (simp add: pending_ms_def word_le_nat_alt)
    then show ?thesis
      using False a b assms(2) by (simp add: adjust_rate_def Let_def unat_word_ariths)
  qed
  then show "unat (s_tpmTime (adjust_rate c))
           = unat (s_tpmTime c) + adj (unat (s_adjustRate c)) (pending_ms c)"
    and "unat (s_realTimePrevious (adjust_rate c))
           = unat (s_realTimePrevious c) + readj (unat (s_adjustRate c)) (pending_ms c)"
    by simp_all
qed

section \<open>Tracking the system time\<close>

lemma track_first:
  "s_lastSystemTime c = 0 \<Longrightarrow> track_system_time t c
     = c\<lparr>s_lastSystemTime := t, s_lastReportedTime := 0, s_realTimePrevious := 0\<rparr>"
  by (simp add: track_system_time_def Let_def)

lemma track_later:
  "s_lastSystemTime c \<noteq> 0 \<Longrightarrow> s_lastReportedTime c \<le> t \<Longrightarrow> track_system_time t c
     = c\<lparr>s_lastReportedTime := s_lastReportedTime c + t - s_lastSystemTime c,
         s_lastSystemTime := t\<rparr>"
  by (simp add: track_system_time_def Let_def)

text \<open>The reads of the timer at the system times of a list, in order.\<close>

definition reads :: "u64 list \<Rightarrow> plat_clock \<Rightarrow> plat_clock" where
  "reads ts c = fold (\<lambda>t c. snd (plat_TimerRead t c)) ts c"

lemma reads_simps [simp]:
  "reads [] c = c" "reads (t # ts) c = reads ts (snd (plat_TimerRead t c))"
  by (simp_all add: reads_def)

text \<open>The state between two reads at the nominal rate, \<open>t0\<close> being the first reading.\<close>

definition nominal_at :: "u64 \<Rightarrow> u64 \<Rightarrow> plat_clock \<Rightarrow> bool" where
  "nominal_at t0 t c \<longleftrightarrow> s_hostMonotonicAdjustTime c = 0 \<and> s_suspendedElapsedTime c = 0 \<and>
     s_adjustRate c = 30000 \<and> s_lastSystemTime c = t \<and> 0 < t0 \<and> t0 \<le> t \<and>
     s_lastReportedTime c = t - t0 \<and> s_realTimePrevious c = t - t0 \<and> s_tpmTime c = t - t0"

lemma nominal_first_read:
  "0 < t0 \<Longrightarrow> nominal_at t0 t0 (snd (plat_TimerRead t0 (plat_TimerReset c)))"
  by (simp add: nominal_at_def plat_TimerRead_def Let_def plat_RealTime_def plat_TimerReset_def
      track_first adjust_rate_def CLOCK_NOMINAL_def)

lemma adjust_rate_nominal:
  assumes "s_adjustRate c = 30000" "pending_ms c * 30000 < 2 ^ 64"
    and "s_tpmTime c = s_realTimePrevious c" "s_realTimePrevious c \<le> s_lastReportedTime c"
  shows "s_tpmTime (adjust_rate c) = s_lastReportedTime c"
    and "s_realTimePrevious (adjust_rate c) = s_lastReportedTime c"
proof -
  have r: "unat (s_adjustRate c) = 30000"
    using assms(1) by simp
  have p: "unat (s_realTimePrevious c) + pending_ms c = unat (s_lastReportedTime c)"
    using assms(4) by (simp add: pending_ms_def word_le_nat_alt)
  then have "unat (s_tpmTime c) + adj (unat (s_adjustRate c)) (pending_ms c) < 2 ^ 64"
    using assms(3) unsigned_less [where 'a = nat, of "s_lastReportedTime c"]
    unfolding r by (simp add: adj_def)
  note u = adjust_rate_unat [OF assms(2) this, unfolded r]
  show "s_tpmTime (adjust_rate c) = s_lastReportedTime c"
    and "s_realTimePrevious (adjust_rate c) = s_lastReportedTime c"
    using u p assms(3) by (simp_all add: word_unat_eq_iff adj_def readj_def)
qed

lemma adjust_rate_other [simp]:
  "s_hostMonotonicAdjustTime (adjust_rate c) = s_hostMonotonicAdjustTime c"
  "s_suspendedElapsedTime (adjust_rate c) = s_suspendedElapsedTime c"
  "s_lastSystemTime (adjust_rate c) = s_lastSystemTime c"
  by (simp_all add: adjust_rate_def Let_def)

lemma nominal_next_read:
  assumes n: "nominal_at t0 t c" and le: "t \<le> t'" and b: "unat t' * 30000 < 2 ^ 64"
  shows "nominal_at t0 t' (snd (plat_TimerRead t' c))"
proof -
  let ?c = "c\<lparr>s_lastReportedTime := t' - t0, s_lastSystemTime := t'\<rparr>"
  have t0: "t0 \<le> t" "0 < t0" "t0 \<le> t'"
    using n le by (auto simp: nominal_at_def)
  have "t - t0 \<le> t'"
    using t0 le by (simp add: word_le_nat_alt unat_sub)
  moreover have "t \<noteq> 0"
    using t0 by auto
  ultimately have tr: "track_system_time (plat_RealTime t' c) c = ?c"
    using n by (subst track_later) (auto simp: nominal_at_def plat_RealTime_def)
  have "pending_ms ?c \<le> unat t'"
    using t0 by (simp add: pending_ms_def unat_sub)
  with b have "pending_ms ?c * 30000 < 2 ^ 64"
    by simp
  moreover have "t - t0 \<le> t' - t0"
    using t0 le by (simp add: word_le_nat_alt unat_sub)
  ultimately have "s_tpmTime (adjust_rate ?c) = t' - t0"
    "s_realTimePrevious (adjust_rate ?c) = t' - t0"
    using adjust_rate_nominal [of ?c] n by (simp_all add: nominal_at_def)
  with n t0 show ?thesis
    by (simp add: nominal_at_def plat_TimerRead_def Let_def tr)
qed

lemma nominal_reads:
  "nominal_at t0 t c \<Longrightarrow> sorted (t # ts) \<Longrightarrow> \<forall>x \<in> set ts. unat x * 30000 < 2 ^ 64
     \<Longrightarrow> nominal_at t0 (last (t # ts)) (reads ts c)"
proof (induction ts arbitrary: t c)
  case Nil
  then show ?case by simp
next
  case (Cons x ts)
  have "nominal_at t0 x (snd (plat_TimerRead x c))"
    using Cons.prems by (intro nominal_next_read) auto
  with Cons.IH [of x] Cons.prems show ?case by simp
qed

section \<open>Properties\<close>

text \<open>
  The divisor of the rate adjustment stays between 25000 and 35000 in every state that the
  platform calls can reach from a timer reset, so the division of \<^verbatim>\<open>_plat__TimerRead\<close> is
  never by zero and the adjustment never leaves the band of \<^verbatim>\<open>CLOCK_ADJUST_LIMIT\<close>.
\<close>
theorem timer_rate_in_band:
  "timer_step\<^sup>*\<^sup>* (plat_TimerReset c0) c \<Longrightarrow> rate_ok c"
  using timer.reachable_inv [of "plat_TimerReset c0" c] by blast

theorem timer_rate_in_band_witness:
  "rate_ok (plat_ClockRateAdjust PLAT_TPM_CLOCK_ADJUST_COARSE_FASTER
     (plat_TimerReset \<lparr>s_realTimePrevious = 0, s_lastSystemTime = 0, s_lastReportedTime = 0,
        s_tpmTime = 0, s_hostMonotonicAdjustTime = 0, s_suspendedElapsedTime = 0,
        s_timerReset = False, s_timerStopped = False, s_adjustRate = 0\<rparr>))"
  by (rule timer_rate_in_band) (rule r_into_rtranclp, rule ts_adjust)

text \<open>
  A read of the timer never moves TPM time back, and the step it takes differs from the
  \<open>d\<close> milliseconds of reported system time not yet accounted for by at most the factor
  \<open>6/5\<close> upwards and \<open>6/7\<close> (less one rounded millisecond) downwards; at a nominal or slower
  rate the step is at most the amount of system time it marks as used. The bounds on the
  inputs exclude only a wrap of the 64-bit products and sums.
\<close>
theorem timer_read_bounds:
  assumes "rate_ok c"
    and "c1 = track_system_time (plat_RealTime m c) c"
    and "plat_TimerRead m c = (t, c')"
    and "pending_ms c1 * 30000 < 2 ^ 64"
    and "unat (s_tpmTime c) + 2 * pending_ms c1 < 2 ^ 64"
  shows "t = s_tpmTime c' \<and> s_tpmTime c \<le> t
    \<and> 5 * (unat t - unat (s_tpmTime c)) \<le> 6 * pending_ms c1
    \<and> 6 * pending_ms c1 < 7 * (unat t - unat (s_tpmTime c) + 1)
    \<and> pending_ms c' \<le> pending_ms c1
    \<and> (30000 \<le> unat (s_adjustRate c) \<longrightarrow>
         unat t - unat (s_tpmTime c)
           \<le> unat (s_realTimePrevious c') - unat (s_realTimePrevious c1))"
proof -
  let ?r = "unat (s_adjustRate c)" and ?d = "pending_ms c1"
  have r: "25000 \<le> ?r" "?r \<le> 35000" and c1: "s_adjustRate c1 = s_adjustRate c"
    "s_tpmTime c1 = s_tpmTime c" and c': "c' = adjust_rate c1" "t = s_tpmTime c'"
    using assms(1-3) by (auto simp: rate_ok_def plat_TimerRead_def Let_def)
  have rate_pos: "0 < ?r"
    using r(1) by simp
  note up = adj_upper [OF r(1), of ?d] and low = adj_lower [OF r(2) rate_pos, of ?d]
  have "unat (s_tpmTime c1) + adj (unat (s_adjustRate c1)) (pending_ms c1) < 2 ^ 64"
    using up assms(5) by (simp add: c1)
  note u = adjust_rate_unat [OF assms(4) this, unfolded c1, folded c'(1)]
  have step: "unat t - unat (s_tpmTime c) = adj ?r ?d" "s_tpmTime c \<le> t"
    using u(1) by (simp_all add: c'(2) word_le_nat_alt)
  have "s_lastReportedTime c' = s_lastReportedTime c1"
    by (simp add: c'(1))
  then have "pending_ms c' \<le> pending_ms c1"
    using u(2) by (simp add: pending_ms_def)
  moreover have used: "unat (s_realTimePrevious c') - unat (s_realTimePrevious c1) = readj ?r ?d"
    using u(2) by simp
  ultimately show ?thesis
    unfolding step(1) used using up low r(1) step(2) c'(2) adj_le_readj [of ?r ?d] by blast
qed

definition demo_clock :: plat_clock where
  "demo_clock = \<lparr>s_realTimePrevious = 1000, s_lastSystemTime = 5000, s_lastReportedTime = 1001,
     s_tpmTime = 1000, s_hostMonotonicAdjustTime = 0, s_suspendedElapsedTime = 0,
     s_timerReset = False, s_timerStopped = False, s_adjustRate = 29700\<rparr>"

theorem timer_read_bounds_witness:
  "fst (plat_TimerRead 5100 demo_clock) = 1102
   \<and> pending_ms (snd (plat_TimerRead 5100 demo_clock))
       \<le> pending_ms (track_system_time (plat_RealTime 5100 demo_clock) demo_clock)"
proof -
  let ?c1 = "track_system_time (plat_RealTime 5100 demo_clock) demo_clock"
  have v: "fst (plat_TimerRead 5100 demo_clock) = 1102"
    by (simp add: plat_TimerRead_def demo_clock_def track_system_time_def plat_RealTime_def
        adjust_rate_def CLOCK_NOMINAL_def)
  have "rate_ok demo_clock"
    by (simp add: rate_ok_def demo_clock_def)
  moreover have "pending_ms ?c1 * 30000 < 2 ^ 64"
    "unat (s_tpmTime demo_clock) + 2 * pending_ms ?c1 < 2 ^ 64"
    by (simp_all add: pending_ms_def demo_clock_def track_system_time_def plat_RealTime_def)
  ultimately show ?thesis
    using timer_read_bounds [OF _ refl surjective_pairing] v by blast
qed

text \<open>
  At the nominal rate the timer is exact. After a timer reset, reads at a nondecreasing
  sequence of system times leave the TPM time at the last reading minus the first one, however
  the reads are spaced, with nothing lost to rounding.
\<close>
theorem timer_exact_at_nominal:
  assumes "0 < t0" "sorted (t0 # ts)" "\<forall>x \<in> set ts. unat x * 30000 < 2 ^ 64"
  shows "s_tpmTime (reads (t0 # ts) (plat_TimerReset c)) = last (t0 # ts) - t0"
  using nominal_reads [OF nominal_first_read [OF assms(1)] assms(2,3)]
  by (simp only: reads_simps nominal_at_def)

theorem timer_exact_at_nominal_witness:
  "s_tpmTime (reads [5000, 5001, 5001, 9300] (plat_TimerReset demo_clock)) = 4300"
  using timer_exact_at_nominal [of 5000 "[5001, 5001, 9300]" demo_clock] by simp

text \<open>
  When the rate has been adjusted to run faster than nominal, the timer is not bounded by
  the system time. With one millisecond of reported time outstanding, every read adds a
  millisecond to the TPM time and marks none of the system time as used: \<open>n\<close> reads at one and
  the same system time advance the TPM time by \<open>n\<close>.
\<close>
theorem timer_reads_run_ahead:
  assumes "25000 \<le> unat (s_adjustRate c)" "unat (s_adjustRate c) < 30000"
    and "plat_RealTime m c = s_lastSystemTime c" "s_lastSystemTime c \<noteq> 0"
    and "s_lastReportedTime c \<le> s_lastSystemTime c"
    and "s_lastReportedTime c = s_realTimePrevious c + 1" "s_lastReportedTime c \<noteq> 0"
  shows "s_tpmTime (reads (replicate n m) c) = s_tpmTime c + of_nat n"
proof -
  let ?r = "s_adjustRate c"
  have div1: "(30000 :: u64) div ucast ?r = 1" "ucast ?r div (30000 :: u64) = 0"
    using assms(1,2) by (simp_all add: word_unat_eq_iff unat_div unat_rate_u64 div_nat_eqI)
  have gt: "\<not> s_lastReportedTime c \<le> s_realTimePrevious c"
    using assms(6,7) unatSuc [of "s_realTimePrevious c"]
    by (simp add: word_le_nat_alt add.commute)
  have diff: "s_lastReportedTime c - s_realTimePrevious c = 1"
    using assms(6) by simp
  have step: "snd (plat_TimerRead m (c\<lparr>s_tpmTime := x\<rparr>)) = c\<lparr>s_tpmTime := x + 1\<rparr>" for x
    using assms(3-5) gt diff div1
    by (cases c) (simp add: plat_TimerRead_def Let_def plat_RealTime_def track_later
        adjust_rate_def CLOCK_NOMINAL_def)
  have "reads (replicate n m) (c\<lparr>s_tpmTime := x\<rparr>) = c\<lparr>s_tpmTime := x + of_nat n\<rparr>" for x
    by (induction n arbitrary: x) (simp_all add: step add.assoc)
  from this [of "s_tpmTime c"] show ?thesis by simp
qed

theorem timer_reads_run_ahead_witness:
  "s_tpmTime (reads (replicate 100000 5000) demo_clock) = 101000"
  using timer_reads_run_ahead [of demo_clock 5000 100000]
  by (simp add: demo_clock_def plat_RealTime_def)

text \<open>
  The guard against a system time that goes backwards compares the new reading with the
  reported time and not with the previous reading. A reading \<open>t\<close> below the previous one by
  more than the reported time, but not below the reported time, wraps the reported time to a
  value near \<open>2 ^ 64\<close> instead of holding it.
\<close>
theorem backward_system_time_wraps:
  assumes "s_lastReportedTime c \<le> t" "t < s_lastSystemTime c"
    and "unat (s_lastReportedTime c) + unat t < unat (s_lastSystemTime c)"
  shows "unat (s_lastReportedTime (track_system_time t c))
    = 2 ^ 64 - (unat (s_lastSystemTime c) - unat t - unat (s_lastReportedTime c))"
proof -
  let ?k = "unat (s_lastSystemTime c) - unat t - unat (s_lastReportedTime c)"
  have k: "0 < ?k" "?k < 2 ^ 64"
    using assms(3) unsigned_less [where 'a = nat, of "s_lastSystemTime c"] by auto
  have "s_lastReportedTime (track_system_time t c)
          = s_lastReportedTime c + t - s_lastSystemTime c"
    using assms(1,2) by (subst track_later) auto
  also have "\<dots> = - of_nat ?k"
    using assms(3) by (simp add: of_nat_diff)
  finally show ?thesis
    using unat_uminus_of_nat [OF k] by simp
qed

theorem backward_system_time_wraps_witness:
  "unat (s_lastReportedTime (track_system_time 3000 demo_clock)) = 2 ^ 64 - 999"
  using backward_system_time_wraps [of demo_clock 3000] by (simp add: demo_clock_def)

end
