(* ===== verification/DA_Time.thy ===== *)
theory DA_Time
  imports Platform_Clock Session_Manager
begin

text \<open>
  Time keeping and dictionary-attack protection: \<^verbatim>\<open>Time.c\<close>, \<^verbatim>\<open>DA.c\<close>, \<^verbatim>\<open>ClockCommands.c\<close>,
  \<^verbatim>\<open>DictionaryCommands.c\<close>, \<^verbatim>\<open>StartupCommands.c\<close>, the NV status and commit points of
  \<^verbatim>\<open>NVReserved.c\<close> and \<^verbatim>\<open>ExecCommand.c\<close>, and the lockout functions of \<^verbatim>\<open>SessionProcess.c\<close>.
  The state has the RAM copies \<open>gp\<close>, \<open>go\<close> and \<open>gr\<close> (the members these files use), the image
  \<open>s_NV\<close> to which \<^verbatim>\<open>NvWrite\<close> posts, and the committed \<open>storage\<close> which a power loss goes back
  to. The build is the configured one: \<^verbatim>\<open>ACCUMULATE_SELF_HEAL_TIMER\<close> and \<^verbatim>\<open>USE_DA_USED\<close> are
  YES, \<^verbatim>\<open>CLOCK_STOPS\<close> is NO.
\<close>

section \<open>State\<close>

record PERSISTENT_DATA =
  failedTries :: u32
  maxTries :: u32
  recoveryTime :: u32
  lockoutRecovery :: u32
  lockOutAuthEnabled :: bool
  orderlyState :: u16
  timeEpoch :: u32
  resetCount :: u32
  totalResetCount :: u64

record ORDERLY_DATA =
  clock :: u64
  clockSafe :: bool
  selfHealTimer :: u64
  lockoutTimer :: u64
  go_time :: u64

record STATE_RESET_DATA =
  clearCount :: u32
  restartCount :: u32
  objectContextID :: u64

record nv_image =
  nv_gp :: PERSISTENT_DATA
  nv_go :: ORDERLY_DATA
  nv_gr :: STATE_RESET_DATA

record tpm =
  gp :: PERSISTENT_DATA
  go :: ORDERLY_DATA
  gr :: STATE_RESET_DATA
  s_NV :: nv_image
  storage :: nv_image
  g_updateNV :: bool
  g_NvStatus :: TPM_RC
  g_nvOk :: bool
  time_ms :: u64
  g_daUsed :: bool
  g_prevOrderlyState :: u16
  s_DAPendingOnNV :: bool
  s_initialized :: bool
  g_StartupLocality3 :: bool
  g_DrtmPreStartup :: bool
  g_powerWasLost :: bool
  g_clearOrderly :: bool
  g_pcrReConfig :: bool
  plat :: plat_clock

text \<open>\<open>time_ms\<close> is \<^verbatim>\<open>g_time\<close>, a name the session theory uses for its own copy.\<close>

definition SU_NONE_VALUE :: u16 where [tpm_consts]: "SU_NONE_VALUE = 0xFFFF"
definition SU_DA_USED_VALUE :: u16 where [tpm_consts]: "SU_DA_USED_VALUE = SU_NONE_VALUE - 1"
definition TPM_SU_CLEAR :: u16 where [tpm_consts]: "TPM_SU_CLEAR = 0"
definition TPM_SU_STATE :: u16 where [tpm_consts]: "TPM_SU_STATE = 1"
definition PRE_STARTUP_FLAG :: u16 where [tpm_consts]: "PRE_STARTUP_FLAG = 0x8000"
definition STARTUP_LOCALITY_3 :: u16 where [tpm_consts]: "STARTUP_LOCALITY_3 = 0x4000"
definition TPM_RS_PW :: TPM_HANDLE where [tpm_consts]: "TPM_RS_PW = 0x40000009"
definition TPM_RC_AUTH_FAIL :: TPM_RC where [tpm_consts]: "TPM_RC_AUTH_FAIL = 0x08E"
definition TPM_RC_BAD_AUTH :: TPM_RC where [tpm_consts]: "TPM_RC_BAD_AUTH = 0x0A2"
definition TPM_RC_LOCALITY :: TPM_RC where [tpm_consts]: "TPM_RC_LOCALITY = 0x907"
definition TPM_RC_LOCKOUT :: TPM_RC where [tpm_consts]: "TPM_RC_LOCKOUT = 0x921"
definition TPM_RC_NV_UNINITIALIZED :: TPM_RC where [tpm_consts]: "TPM_RC_NV_UNINITIALIZED = 0x14A"

section \<open>NV\<close>

definition IS_ORDERLY :: "u16 \<Rightarrow> bool" where
  "IS_ORDERLY v \<longleftrightarrow> v < SU_DA_USED_VALUE"

abbreviation NV_IS_ORDERLY :: "tpm \<Rightarrow> bool" where
  "NV_IS_ORDERLY s \<equiv> IS_ORDERLY (orderlyState (gp s))"

abbreviation NV_IS_AVAILABLE :: "tpm \<Rightarrow> bool" where
  "NV_IS_AVAILABLE s \<equiv> g_NvStatus s = TPM_RC_SUCCESS"

text \<open>
  \<^verbatim>\<open>NV_SYNC_PERSISTENT(item)\<close> posts one member of \<open>gp\<close>; \<open>cp src dst\<close> copies that member from
  \<open>src\<close> to \<open>dst\<close>.
\<close>

definition NV_SYNC_PERSISTENT ::
  "(PERSISTENT_DATA \<Rightarrow> PERSISTENT_DATA \<Rightarrow> PERSISTENT_DATA) \<Rightarrow> tpm \<Rightarrow> tpm" where
  "NV_SYNC_PERSISTENT cp s =
     s\<lparr>s_NV := (s_NV s)\<lparr>nv_gp := cp (gp s) (nv_gp (s_NV s))\<rparr>, g_updateNV := True\<rparr>"

abbreviation "cp_failedTries p q \<equiv> q\<lparr>failedTries := failedTries p\<rparr>"
abbreviation "cp_maxTries p q \<equiv> q\<lparr>maxTries := maxTries p\<rparr>"
abbreviation "cp_recoveryTime p q \<equiv> q\<lparr>recoveryTime := recoveryTime p\<rparr>"
abbreviation "cp_lockoutRecovery p q \<equiv> q\<lparr>lockoutRecovery := lockoutRecovery p\<rparr>"
abbreviation "cp_lockOutAuthEnabled p q \<equiv> q\<lparr>lockOutAuthEnabled := lockOutAuthEnabled p\<rparr>"
abbreviation "cp_orderlyState p q \<equiv> q\<lparr>orderlyState := orderlyState p\<rparr>"
abbreviation "cp_timeEpoch p q \<equiv> q\<lparr>timeEpoch := timeEpoch p\<rparr>"
abbreviation "cp_resetCount p q \<equiv> q\<lparr>resetCount := resetCount p\<rparr>"
abbreviation "cp_totalResetCount p q \<equiv> q\<lparr>totalResetCount := totalResetCount p\<rparr>"

definition NvWrite_go :: "tpm \<Rightarrow> tpm" where
  "NvWrite_go s = s\<lparr>s_NV := (s_NV s)\<lparr>nv_go := go s\<rparr>, g_updateNV := True\<rparr>"

definition NvWrite_gr :: "tpm \<Rightarrow> tpm" where
  "NvWrite_gr s = s\<lparr>s_NV := (s_NV s)\<lparr>nv_gr := gr s\<rparr>, g_updateNV := True\<rparr>"

datatype nv_ready = NV_READY | NV_WRITEFAILURE | NV_RATE_LIMIT

fun NvCheckState :: "nv_ready \<Rightarrow> tpm \<Rightarrow> tpm" where
  "NvCheckState NV_READY s = s\<lparr>g_NvStatus := TPM_RC_SUCCESS\<rparr>"
| "NvCheckState NV_WRITEFAILURE s = s\<lparr>g_NvStatus := TPM_RC_NV_UNAVAILABLE\<rparr>"
| "NvCheckState NV_RATE_LIMIT s = s\<lparr>g_NvStatus := TPM_RC_NV_RATE\<rparr>"

definition NvClearOrderly :: "tpm \<Rightarrow> TPM_RC \<times> tpm" where
  "NvClearOrderly s =
     (if orderlyState (gp s) < SU_DA_USED_VALUE \<and> g_NvStatus s \<noteq> TPM_RC_SUCCESS
      then (g_NvStatus s, s) else (TPM_RC_SUCCESS, s\<lparr>g_clearOrderly := True\<rparr>))"

section \<open>Dictionary attack\<close>

definition DAPreInstall_Init :: "tpm \<Rightarrow> tpm" where
  "DAPreInstall_Init s =
     NV_SYNC_PERSISTENT cp_lockOutAuthEnabled (NV_SYNC_PERSISTENT cp_lockoutRecovery
       (NV_SYNC_PERSISTENT cp_recoveryTime (NV_SYNC_PERSISTENT cp_maxTries
         (NV_SYNC_PERSISTENT cp_failedTries
           (s\<lparr>gp := (gp s)\<lparr>failedTries := 0, maxTries := 3, recoveryTime := 1000,
              lockoutRecovery := 1000, lockOutAuthEnabled := True\<rparr>\<rparr>)))))"

definition DARegisterFailure :: "TPM_HANDLE \<Rightarrow> tpm \<Rightarrow> tpm" where
  "DARegisterFailure handle s =
     (if handle = TPM_RH_LOCKOUT then s\<lparr>go := (go s)\<lparr>lockoutTimer := time_ms s\<rparr>\<rparr>
      else s\<lparr>go := (go s)\<lparr>selfHealTimer := time_ms s\<rparr>\<rparr>)"

text \<open>
  \<^verbatim>\<open>DASelfHeal\<close> in its two halves. \<^verbatim>\<open>g_time\<close> is unsigned, so the subtraction of the
  \<^verbatim>\<open>INT64\<close> value and the two divisions are unsigned 64-bit operations.
\<close>

definition heal_tries :: "tpm \<Rightarrow> tpm" where
  "heal_tries s =
     (if failedTries (gp s) \<noteq> 0
      then if recoveryTime (gp s) = 0
           then NV_SYNC_PERSISTENT cp_failedTries (s\<lparr>gp := (gp s)\<lparr>failedTries := 0\<rparr>\<rparr>)
           else let decreaseCount =
                      ((time_ms s - selfHealTimer (go s)) div 1000) div ucast (recoveryTime (gp s));
                    f = (if failedTries (gp s) \<le> ucast decreaseCount then 0
                         else failedTries (gp s) - ucast decreaseCount);
                    s1 = s\<lparr>gp := (gp s)\<lparr>failedTries := f\<rparr>,
                           go := (go s)\<lparr>selfHealTimer := selfHealTimer (go s)
                             + (decreaseCount * ucast (recoveryTime (gp s))) * 1000\<rparr>\<rparr>
                in if decreaseCount \<noteq> 0 then NV_SYNC_PERSISTENT cp_failedTries s1 else s1
      else s)"

definition heal_lockout :: "tpm \<Rightarrow> tpm" where
  "heal_lockout s =
     (if \<not> lockOutAuthEnabled (gp s) \<and> lockoutRecovery (gp s) \<noteq> 0
         \<and> ucast (lockoutRecovery (gp s)) \<le> (time_ms s - lockoutTimer (go s)) div 1000
      then NV_SYNC_PERSISTENT cp_lockOutAuthEnabled (s\<lparr>gp := (gp s)\<lparr>lockOutAuthEnabled := True\<rparr>\<rparr>)
      else s)"

definition DASelfHeal :: "tpm \<Rightarrow> tpm" where
  "DASelfHeal s = heal_lockout (heal_tries s)"

section \<open>Time\<close>

definition NV_CLOCK_UPDATE_INTERVAL :: nat where [tpm_consts]: "NV_CLOCK_UPDATE_INTERVAL = 12"

definition CLOCK_UPDATE_MASK :: u64 where
  "CLOCK_UPDATE_MASK = push_bit NV_CLOCK_UPDATE_INTERVAL 1 - 1"

definition TimePowerOn :: "u64 \<Rightarrow> tpm \<Rightarrow> tpm" where
  "TimePowerOn mon s = (case plat_TimerRead mon (plat s) of (t, c) \<Rightarrow> s\<lparr>time_ms := t, plat := c\<rparr>)"

definition TimeNewEpoch :: "tpm \<Rightarrow> tpm" where
  "TimeNewEpoch s =
     (let s1 = NV_SYNC_PERSISTENT cp_timeEpoch (s\<lparr>gp := (gp s)\<lparr>timeEpoch := timeEpoch (gp s) + 1\<rparr>\<rparr>)
      in s1\<lparr>plat := snd (plat_TimerWasStopped (plat s1))\<rparr>)"

definition TimeStartup :: "tpm \<Rightarrow> tpm" where
  "TimeStartup s = (if NV_IS_ORDERLY s then s else s\<lparr>go := (go s)\<lparr>clockSafe := False\<rparr>\<rparr>)"

text \<open>The write of \<open>go\<close> restores \<^verbatim>\<open>g_updateNV\<close>: on its own it is posted but not committed.\<close>

definition TimeClockUpdate :: "u64 \<Rightarrow> tpm \<Rightarrow> tpm outcome" where
  "TimeClockUpdate newTime s =
     (if (clock (go s) OR CLOCK_UPDATE_MASK) < (newTime OR CLOCK_UPDATE_MASK)
      then pAssert (NV_IS_AVAILABLE s)
        (Ret ((NvWrite_go (s\<lparr>go := (go s)\<lparr>clockSafe := True, clock := newTime\<rparr>\<rparr>))
                \<lparr>g_updateNV := g_updateNV s\<rparr>))
      else Ret (s\<lparr>go := (go s)\<lparr>clock := newTime\<rparr>\<rparr>))"

definition consume_stopped :: "tpm \<Rightarrow> tpm" where
  "consume_stopped s =
     (case plat_TimerWasStopped (plat s) of (stopped, c) \<Rightarrow>
        if stopped then TimeNewEpoch (s\<lparr>plat := c\<rparr>) else s\<lparr>plat := c\<rparr>)"

definition TimeUpdate :: "u64 \<Rightarrow> tpm \<Rightarrow> tpm outcome" where
  "TimeUpdate mon s =
     (let s1 = consume_stopped s in
      case plat_TimerRead mon (plat s1) of (t, c) \<Rightarrow>
        let elapsed = t - time_ms s1;
            s2 = s1\<lparr>plat := c, time_ms := time_ms s1 + elapsed\<rparr>
        in obind (TimeClockUpdate (clock (go s2) + elapsed) s2) (\<lambda>s3. Ret (DASelfHeal s3)))"

definition TimeUpdateToCurrent :: "u64 \<Rightarrow> tpm \<Rightarrow> tpm outcome" where
  "TimeUpdateToCurrent mon s =
     (if \<not> NV_IS_AVAILABLE s \<or> \<not> s_initialized s then Ret s else TimeUpdate mon s)"

text \<open>\<^verbatim>\<open>TPM_CLOCK_ADJUST\<close> is a signed byte.\<close>

definition TimeSetAdjustRate :: "u8 \<Rightarrow> tpm \<Rightarrow> tpm outcome" where
  "TimeSetAdjustRate adjust s =
     (let rate = (\<lambda>a. Ret (s\<lparr>plat := plat_ClockRateAdjust a (plat s)\<rparr>)) in
      if adjust = - 3 then rate PLAT_TPM_CLOCK_ADJUST_COARSE_SLOWER
      else if adjust = 3 then rate PLAT_TPM_CLOCK_ADJUST_COARSE_FASTER
      else if adjust = - 2 then rate PLAT_TPM_CLOCK_ADJUST_MEDIUM_SLOWER
      else if adjust = 2 then rate PLAT_TPM_CLOCK_ADJUST_MEDIUM_FASTER
      else if adjust = - 1 then rate PLAT_TPM_CLOCK_ADJUST_FINE_SLOWER
      else if adjust = 1 then rate PLAT_TPM_CLOCK_ADJUST_FINE_FASTER
      else if adjust = 0 then Ret s
      else FailureMode)"

record TPMS_CLOCK_INFO =
  ci_clock :: u64
  ci_resetCount :: u32
  ci_restartCount :: u32
  ci_safe :: bool

definition TimeFillInfo :: "tpm \<Rightarrow> TPMS_CLOCK_INFO" where
  "TimeFillInfo s = \<lparr>ci_clock = clock (go s), ci_resetCount = resetCount (gp s),
     ci_restartCount = restartCount (gr s),
     ci_safe = (if NV_IS_AVAILABLE s then clockSafe (go s) else False)\<rparr>"

section \<open>Commands\<close>

definition TPM2_DictionaryAttackLockReset :: "tpm \<Rightarrow> TPM_RC \<times> tpm" where
  "TPM2_DictionaryAttackLockReset s =
     (if \<not> NV_IS_AVAILABLE s then (g_NvStatus s, s)
      else (TPM_RC_SUCCESS,
            NV_SYNC_PERSISTENT cp_failedTries (s\<lparr>gp := (gp s)\<lparr>failedTries := 0\<rparr>\<rparr>)))"

definition TPM2_DictionaryAttackParameters :: "u32 \<Rightarrow> u32 \<Rightarrow> u32 \<Rightarrow> tpm \<Rightarrow> TPM_RC \<times> tpm" where
  "TPM2_DictionaryAttackParameters newMaxTries newRecoveryTime newLockoutRecovery s =
     (if \<not> NV_IS_AVAILABLE s then (g_NvStatus s, s)
      else (TPM_RC_SUCCESS,
            NV_SYNC_PERSISTENT cp_lockoutRecovery (NV_SYNC_PERSISTENT cp_recoveryTime
              (NV_SYNC_PERSISTENT cp_maxTries (NV_SYNC_PERSISTENT cp_failedTries
                (s\<lparr>gp := (gp s)\<lparr>maxTries := newMaxTries, recoveryTime := newRecoveryTime,
                   lockoutRecovery := newLockoutRecovery\<rparr>\<rparr>))))))"

definition TPM2_ReadClock :: "tpm \<Rightarrow> u64 \<times> TPMS_CLOCK_INFO" where
  "TPM2_ReadClock s = (time_ms s, TimeFillInfo s)"

definition TPM2_ClockSet :: "u64 \<Rightarrow> tpm \<Rightarrow> (TPM_RC \<times> tpm) outcome" where
  "TPM2_ClockSet newTime s =
     (if 0xFFFF000000000000 < newTime \<or> newTime < clock (go s)
      then Ret (TPM_RC_VALUE + (TPM_RC_P + TPM_RC_1), s)
      else if \<not> NV_IS_AVAILABLE s then Ret (g_NvStatus s, s)
      else obind (TimeClockUpdate newTime s) (\<lambda>s'. Ret (TPM_RC_SUCCESS, s')))"

definition TPM2_ClockRateAdjust :: "u8 \<Rightarrow> tpm \<Rightarrow> (TPM_RC \<times> tpm) outcome" where
  "TPM2_ClockRateAdjust rateAdjust s =
     obind (TimeSetAdjustRate rateAdjust s) (\<lambda>s'. Ret (TPM_RC_SUCCESS, s'))"

section \<open>Startup and shutdown\<close>

text \<open>
  The results of the other subsystems that \<^verbatim>\<open>TPM2_Startup\<close> starts; their state is not part of
  this theory.
\<close>

record subsystem_results =
  ok_CryptStartup :: bool
  ok_HierarchyStartup :: bool
  ok_PCRStartup :: bool
  ok_CommandAuditStartup :: bool
  ok_ActStartup :: bool
  ok_SessionStartup :: bool
  ok_ObjectStartup :: bool
  ok_NvEntityStartup :: bool

definition DAStartup_timers :: "tpm \<Rightarrow> tpm" where
  "DAStartup_timers s =
     (let (wasReset, c) = plat_TimerWasReset (plat s); s1 = s\<lparr>plat := c\<rparr> in
      if \<not> wasReset then s1
      else if \<not> NV_IS_ORDERLY s1
      then s1\<lparr>go := (go s1)\<lparr>selfHealTimer := 0, lockoutTimer := 0\<rparr>\<rparr>
      else s1\<lparr>go := (go s1)\<lparr>selfHealTimer := selfHealTimer (go s1) - go_time (go s1),
                             lockoutTimer := lockoutTimer (go s1) - go_time (go s1)\<rparr>\<rparr>)"

definition DAStartup :: "u64 \<Rightarrow> tpm \<Rightarrow> tpm outcome" where
  "DAStartup mon s =
     (let s1 = DAStartup_timers s;
          s2 = (if lockoutRecovery (gp s1) = 0
                then NV_SYNC_PERSISTENT cp_lockOutAuthEnabled
                       (s1\<lparr>gp := (gp s1)\<lparr>lockOutAuthEnabled := True\<rparr>\<rparr>)
                else s1);
          s3 = (if recoveryTime (gp s2) \<noteq> 0 \<and> failedTries (gp s2) < maxTries (gp s2)
                   \<and> \<not> IS_ORDERLY (g_prevOrderlyState s2)
                then NV_SYNC_PERSISTENT cp_failedTries
                       (s2\<lparr>gp := (gp s2)\<lparr>failedTries := failedTries (gp s2) + of_bool (g_daUsed s2)\<rparr>,
                           g_daUsed := False\<rparr>)
                else s2)
      in TimeUpdate mon s3)"

definition startup_orderly :: "tpm \<Rightarrow> tpm" where
  "startup_orderly s =
     (let used = (orderlyState (gp s) = SU_DA_USED_VALUE);
          st = (if used then SU_NONE_VALUE else orderlyState (gp s));
          prev = (if IS_ORDERLY st then st AND NOT (PRE_STARTUP_FLAG OR STARTUP_LOCALITY_3) else st)
      in s\<lparr>g_daUsed := used, gp := (gp s)\<lparr>orderlyState := st\<rparr>, g_prevOrderlyState := prev\<rparr>)"

definition startup_counters :: "STARTUP_TYPE \<Rightarrow> tpm \<Rightarrow> tpm" where
  "startup_counters startup s =
     (case startup of
        SU_RESUME \<Rightarrow> s\<lparr>gr := (gr s)\<lparr>restartCount := restartCount (gr s) + 1\<rparr>\<rparr>
      | SU_RESTART \<Rightarrow> s\<lparr>gr := (gr s)\<lparr>clearCount := clearCount (gr s) + 1,
                                      restartCount := restartCount (gr s) + 1\<rparr>\<rparr>
      | SU_RESET \<Rightarrow>
          (let s1 = s\<lparr>gr := (gr s)\<lparr>objectContextID := 0, clearCount := 0\<rparr>\<rparr>;
               s2 = NV_SYNC_PERSISTENT cp_resetCount
                      (s1\<lparr>gp := (gp s1)\<lparr>resetCount := resetCount (gp s1) + 1\<rparr>\<rparr>);
               s3 = NV_SYNC_PERSISTENT cp_totalResetCount
                      (s2\<lparr>gp := (gp s2)\<lparr>totalResetCount := totalResetCount (gp s2) + 1\<rparr>\<rparr>)
           in s3\<lparr>gr := (gr s3)\<lparr>restartCount := 0\<rparr>\<rparr>))"

definition startup_subsystems ::
  "subsystem_results \<Rightarrow> u64 \<Rightarrow> STARTUP_TYPE \<Rightarrow> tpm \<Rightarrow> (bool \<times> tpm) outcome" where
  "startup_subsystems subs mon startup s =
     (if \<not> ok_CryptStartup subs then Ret (False, s)
      else obind (DAStartup mon (TimeStartup (s\<lparr>s_initialized := True\<rparr>))) (\<lambda>s1.
        if ok_HierarchyStartup subs \<and> ok_PCRStartup subs \<and> ok_CommandAuditStartup subs
           \<and> ok_ActStartup subs
        then Ret (ok_SessionStartup subs \<and> ok_ObjectStartup subs \<and> ok_NvEntityStartup subs,
                  startup_counters startup s1)
        else Ret (False, s1)))"

text \<open>
  \<^verbatim>\<open>TPM2_Startup\<close> in three parts: the checks of a Resume, the choice of the startup type with the
  reload of \<open>gr\<close>, and the rest.
\<close>

definition startup_check :: "u16 \<Rightarrow> tpm \<Rightarrow> TPM_RC" where
  "startup_check startupType s =
     (if startupType \<noteq> TPM_SU_STATE then TPM_RC_SUCCESS
      else if g_prevOrderlyState s \<noteq> TPM_SU_STATE then TPM_RC_VALUE + (TPM_RC_P + TPM_RC_1)
      else if \<not> g_nvOk s then TPM_RC_NV_UNINITIALIZED
      else if g_DrtmPreStartup s \<noteq> (orderlyState (gp s) AND PRE_STARTUP_FLAG \<noteq> 0)
      then TPM_RC_VALUE + (TPM_RC_P + TPM_RC_1)
      else if g_StartupLocality3 s \<noteq> (orderlyState (gp s) AND STARTUP_LOCALITY_3 \<noteq> 0)
      then TPM_RC_LOCALITY
      else TPM_RC_SUCCESS)"

definition startup_restore :: "u16 \<Rightarrow> tpm \<Rightarrow> STARTUP_TYPE \<times> tpm" where
  "startup_restore startupType s =
     (let s1 = s\<lparr>gp := (gp s)\<lparr>orderlyState := g_prevOrderlyState s\<rparr>\<rparr> in
      if orderlyState (gp s1) = TPM_SU_STATE \<and> g_nvOk s1
      then (if startupType = TPM_SU_STATE then SU_RESUME else SU_RESTART,
            s1\<lparr>gr := nv_gr (s_NV s1)\<rparr>)
      else (SU_RESET, s1))"

definition startup_finish :: "bool \<Rightarrow> tpm \<Rightarrow> TPM_RC \<times> tpm" where
  "startup_finish OK s =
     (let s1 = s\<lparr>gp := (gp s)\<lparr>orderlyState := SU_NONE_VALUE\<rparr>\<rparr> in
      if OK then (TPM_RC_SUCCESS, (NV_SYNC_PERSISTENT cp_orderlyState s1)\<lparr>g_powerWasLost := False\<rparr>)
      else (TPM_RC_FAILURE, s1))"

definition startup_run ::
  "subsystem_results \<Rightarrow> u64 \<Rightarrow> STARTUP_TYPE \<times> tpm \<Rightarrow> (TPM_RC \<times> tpm) outcome" where
  "startup_run subs mon p = obind (startup_subsystems subs mon (fst p) (snd p))
     (\<lambda>(OK, s). Ret (startup_finish OK s))"

definition startup_from ::
  "subsystem_results \<Rightarrow> u64 \<Rightarrow> u16 \<Rightarrow> tpm \<Rightarrow> (TPM_RC \<times> tpm) outcome" where
  "startup_from subs mon startupType s =
     (if startup_check startupType s \<noteq> TPM_RC_SUCCESS then Ret (startup_check startupType s, s)
      else startup_run subs mon (startup_restore startupType s))"

definition TPM2_Startup ::
  "subsystem_results \<Rightarrow> u64 \<Rightarrow> u8 \<Rightarrow> u16 \<Rightarrow> tpm \<Rightarrow> (TPM_RC \<times> tpm) outcome" where
  "TPM2_Startup subs mon locality startupType s =
     (if \<not> NV_IS_AVAILABLE s then Ret (g_NvStatus s, s)
      else if locality \<noteq> 0 \<and> locality \<noteq> 3 then Ret (TPM_RC_LOCALITY, s)
      else startup_from subs mon startupType (startup_orderly
        (s\<lparr>g_StartupLocality3 := ((if g_DrtmPreStartup s then 0 else locality) = 3)\<rparr>)))"

definition TPM2_Shutdown :: "u16 \<Rightarrow> tpm \<Rightarrow> TPM_RC \<times> tpm" where
  "TPM2_Shutdown shutdownType s =
     (if \<not> NV_IS_AVAILABLE s then (g_NvStatus s, s)
      else if g_pcrReConfig s \<and> shutdownType = TPM_SU_STATE
      then (TPM_RC_TYPE + (TPM_RC_P + TPM_RC_1), s)
      else
        let s1 = s\<lparr>gp := (gp s)\<lparr>orderlyState := shutdownType\<rparr>, g_daUsed := False,
                   go := (go s)\<lparr>go_time := time_ms s\<rparr>\<rparr>;
            s2 = NvWrite_go s1
        in if shutdownType = TPM_SU_STATE
           then let s3 = NvWrite_gr s2;
                    st = (if g_DrtmPreStartup s3 then TPM_SU_STATE OR PRE_STARTUP_FLAG
                          else if g_StartupLocality3 s3 then TPM_SU_STATE OR STARTUP_LOCALITY_3
                          else shutdownType)
                in (TPM_RC_SUCCESS, NV_SYNC_PERSISTENT cp_orderlyState
                      (s3\<lparr>gp := (gp s3)\<lparr>orderlyState := st\<rparr>\<rparr>))
           else if shutdownType \<noteq> TPM_SU_CLEAR
           then (TPM_RC_VALUE + (TPM_RC_P + TPM_RC_1), s2)
           else (TPM_RC_SUCCESS, NV_SYNC_PERSISTENT cp_orderlyState s2))"

text \<open>
  \<^verbatim>\<open>_TPM_Init\<close> without a saved volatile state (\<^verbatim>\<open>VolatileLoad\<close> leaves \<^verbatim>\<open>restored\<close> FALSE):
  \<open>nvOk\<close> and \<open>cryptOk\<close> are the results of \<^verbatim>\<open>NvPowerOn\<close> and \<^verbatim>\<open>CryptInit\<close>. After a power loss
  \<^verbatim>\<open>NvPowerOn\<close> reloads the NV image from storage.
\<close>

definition TPM_Init :: "bool \<Rightarrow> bool \<Rightarrow> bool \<Rightarrow> u64 \<Rightarrow> tpm \<Rightarrow> tpm outcome" where
  "TPM_Init powerLost nvOk cryptOk mon s =
     (let lost = (g_powerWasLost s \<or> powerLost);
          s1 = s\<lparr>g_powerWasLost := lost, s_initialized := False, g_DrtmPreStartup := False,
                 s_NV := (if lost then storage s else s_NV s), g_nvOk := (\<not> lost \<or> nvOk)\<rparr>
      in pAssert (g_nvOk s1 \<and> cryptOk)
           (Ret (TimePowerOn mon (s1\<lparr>gp := nv_gp (s_NV s1), go := nv_go (s_NV s1)\<rparr>))))"

definition plat_Signal_PowerOn :: "tpm \<Rightarrow> tpm" where
  "plat_Signal_PowerOn s = s\<lparr>plat := plat_TimerReset (plat s)\<rparr>"

section \<open>Authorization failures\<close>

text \<open>
  \<open>objNoDA\<close> and \<open>nvNoDA\<close> stand for the attribute lookups of the object and NV index that the
  handle designates.
\<close>

definition IsDAExempted ::
  "(TPM_HANDLE \<Rightarrow> bool) \<Rightarrow> (TPM_HANDLE \<Rightarrow> bool) \<Rightarrow> TPM_HANDLE \<Rightarrow> bool" where
  "IsDAExempted objNoDA nvNoDA handle =
     (if HandleGetType handle = TPM_HT_PERMANENT then handle \<noteq> TPM_RH_LOCKOUT
      else if HandleGetType handle = TPM_HT_TRANSIENT
      then if 0x80FF0000 \<le> handle \<and> handle \<le> 0x80FF00FF then True else objNoDA handle
      else if HandleGetType handle = TPM_HT_NV_INDEX then nvNoDA handle
      else HandleGetType handle = TPM_HT_PCR)"

definition record_failure :: "TPM_HANDLE \<Rightarrow> tpm \<Rightarrow> (TPM_RC \<times> tpm) outcome" where
  "record_failure handle s =
     (if handle = TPM_RH_LOCKOUT
      then pAssert (lockOutAuthEnabled (gp s))
        (let s1 = s\<lparr>gp := (gp s)\<lparr>lockOutAuthEnabled := False\<rparr>\<rparr>;
             s2 = (if lockoutRecovery (gp s1) = 0 then s1
                   else if NV_IS_AVAILABLE s1 then NV_SYNC_PERSISTENT cp_lockOutAuthEnabled s1
                   else s1\<lparr>s_DAPendingOnNV := True\<rparr>)
         in Ret (TPM_RC_AUTH_FAIL, DARegisterFailure handle s2))
      else
        let s2 = (if recoveryTime (gp s) = 0 then s
                  else let s1 = s\<lparr>gp := (gp s)\<lparr>failedTries := failedTries (gp s) + 1\<rparr>\<rparr>
                       in if NV_IS_AVAILABLE s1 then NV_SYNC_PERSISTENT cp_failedTries s1
                          else s1\<lparr>s_DAPendingOnNV := True\<rparr>)
        in Ret (TPM_RC_AUTH_FAIL, DARegisterFailure handle s2))"

definition IncrementLockout ::
  "(TPM_HANDLE \<Rightarrow> bool) \<Rightarrow> (TPM_HANDLE \<Rightarrow> bool) \<Rightarrow> sess_state \<Rightarrow> TPM_HANDLE \<Rightarrow> TPM_HANDLE \<Rightarrow> tpm
     \<Rightarrow> (TPM_RC \<times> tpm) outcome" where
  "IncrementLockout objNoDA nvNoDA ss handle sessionHandle s =
     (if sessionHandle = TPM_RS_PW
      then if IsDAExempted objNoDA nvNoDA handle then Ret (TPM_RC_BAD_AUTH, s)
           else record_failure handle s
      else obind (SessionGet ss sessionHandle) (\<lambda>k.
        let a = attributes (session (s_sessions ss ! k));
            h = (if isLockoutBound a then TPM_RH_LOCKOUT else handle)
        in if \<not> isDaBound a \<and> (IsDAExempted objNoDA nvNoDA h \<or> \<not> includeAuth a)
           then Ret (TPM_RC_BAD_AUTH, s)
           else record_failure h s))"

definition CheckLockedOut :: "bool \<Rightarrow> tpm \<Rightarrow> TPM_RC \<times> tpm" where
  "CheckLockedOut lockoutAuthCheck s =
     (if \<not> NV_IS_AVAILABLE s \<and> NV_IS_ORDERLY s then (g_NvStatus s, s)
      else if s_DAPendingOnNV s \<and> \<not> NV_IS_AVAILABLE s then (g_NvStatus s, s)
      else
        let s1 = (if s_DAPendingOnNV s
                  then (NV_SYNC_PERSISTENT cp_failedTries
                          (NV_SYNC_PERSISTENT cp_lockOutAuthEnabled s))\<lparr>s_DAPendingOnNV := False\<rparr>
                  else s)
        in if lockoutAuthCheck
           then if \<not> lockOutAuthEnabled (gp s1) then (TPM_RC_LOCKOUT, s1) else (TPM_RC_SUCCESS, s1)
           else if maxTries (gp s1) \<le> failedTries (gp s1) then (TPM_RC_LOCKOUT, s1)
           else if \<not> g_daUsed s1
           then if \<not> NV_IS_AVAILABLE s1 then (g_NvStatus s1, s1)
                else (TPM_RC_SUCCESS, NV_SYNC_PERSISTENT cp_orderlyState
                        (s1\<lparr>g_daUsed := True, gp := (gp s1)\<lparr>orderlyState := SU_DA_USED_VALUE\<rparr>\<rparr>))
           else (TPM_RC_SUCCESS, s1))"

text \<open>
  \<^verbatim>\<open>CheckPWAuthSession\<close>: \<open>getAuth\<close> stands for \<^verbatim>\<open>EntityGetAuthValue\<close>, which returns the value
  with its trailing zeros removed.
\<close>

definition MemoryRemoveTrailingZeros :: "bytes \<Rightarrow> bytes" where
  "MemoryRemoveTrailingZeros b = rev (dropWhile (\<lambda>x. x = 0) (rev b))"

definition CheckPWAuthSession ::
  "(TPM_HANDLE \<Rightarrow> bool) \<Rightarrow> (TPM_HANDLE \<Rightarrow> bool) \<Rightarrow> (TPM_HANDLE \<Rightarrow> bytes) \<Rightarrow> sess_state
     \<Rightarrow> TPM_HANDLE \<Rightarrow> TPM_HANDLE \<Rightarrow> bytes \<Rightarrow> tpm \<Rightarrow> (TPM_RC \<times> tpm) outcome" where
  "CheckPWAuthSession objNoDA nvNoDA getAuth ss handle sessionHandle inputAuth s =
     (if MemoryRemoveTrailingZeros inputAuth = getAuth handle then Ret (TPM_RC_SUCCESS, s)
      else IncrementLockout objNoDA nvNoDA ss handle sessionHandle s)"

text \<open>The password path of \<^verbatim>\<open>CheckAuthSession\<close>: the lockout check, then the comparison.\<close>

definition check_pw_auth ::
  "(TPM_HANDLE \<Rightarrow> bool) \<Rightarrow> (TPM_HANDLE \<Rightarrow> bool) \<Rightarrow> (TPM_HANDLE \<Rightarrow> bytes) \<Rightarrow> sess_state
     \<Rightarrow> TPM_HANDLE \<Rightarrow> bytes \<Rightarrow> tpm \<Rightarrow> (TPM_RC \<times> tpm) outcome" where
  "check_pw_auth objNoDA nvNoDA getAuth ss handle inputAuth s =
     (if IsDAExempted objNoDA nvNoDA handle
      then CheckPWAuthSession objNoDA nvNoDA getAuth ss handle TPM_RS_PW inputAuth s
      else case CheckLockedOut (handle = TPM_RH_LOCKOUT) s of (rc, s1) \<Rightarrow>
        if rc \<noteq> TPM_RC_SUCCESS then Ret (rc, s1)
        else CheckPWAuthSession objNoDA nvNoDA getAuth ss handle TPM_RS_PW inputAuth s1)"

section \<open>Around a command\<close>

text \<open>The parts of \<^verbatim>\<open>ExecuteCommand\<close> before the command is parsed and after \<^verbatim>\<open>Cleanup\<close>.\<close>

definition exec_begin :: "nv_ready \<Rightarrow> u64 \<Rightarrow> tpm \<Rightarrow> tpm outcome" where
  "exec_begin nv mon s =
     TimeUpdateToCurrent mon (NvCheckState nv (s\<lparr>g_updateNV := False, g_clearOrderly := False\<rparr>))"

definition exec_end :: "bool \<Rightarrow> tpm \<Rightarrow> tpm outcome" where
  "exec_end commitOk s =
     (let s1 = (if g_clearOrderly s \<and> NV_IS_ORDERLY s
                then NV_SYNC_PERSISTENT cp_orderlyState (s\<lparr>gp := (gp s)\<lparr>orderlyState :=
                       (if g_daUsed s then SU_DA_USED_VALUE else SU_NONE_VALUE)\<rparr>\<rparr>)
                else s)
      in if g_updateNV s1
         then pAssert commitOk (Ret (s1\<lparr>storage := s_NV s1, g_updateNV := False\<rparr>))
         else Ret s1)"

end
