(* ===== verification/DA_Protection.thy ===== *)
theory DA_Protection
  imports DA_Time
begin

text \<open>
  What the dictionary-attack logic guarantees: a bound on the number of wrong authorization
  values that are compared during a boot cycle, for DA-protected entities and for lockoutAuth,
  by potential functions that every command can lower but only elapsed time can raise; the
  lockout decisions; the clock; and the behaviours at a power cycle that the design does not
  intend.
\<close>

section \<open>Sequences of commands\<close>

text \<open>
  One command with the NV state and the system time at which it runs. \<open>Idle\<close> stands for any
  command that leaves the state of this component alone, \<open>PwAuth\<close> for one with a password
  authorization.
\<close>

datatype da_cmd = Idle | PwAuth TPM_HANDLE bytes | Shutdown u16 | ClockSet u64 | RateAdjust u8

record da_event =
  ev_nv :: nv_ready
  ev_mon :: u64
  ev_cmd :: da_cmd
  ev_commitOk :: bool

record da_env =
  objNoDA :: "TPM_HANDLE \<Rightarrow> bool"
  nvNoDA :: "TPM_HANDLE \<Rightarrow> bool"
  getAuth :: "TPM_HANDLE \<Rightarrow> bytes"
  sessions :: sess_state

fun da_cmd_exec :: "da_env \<Rightarrow> da_cmd \<Rightarrow> tpm \<Rightarrow> (TPM_RC \<times> tpm) outcome" where
  "da_cmd_exec env Idle s = Ret (TPM_RC_SUCCESS, s)"
| "da_cmd_exec env (PwAuth h a) s =
     check_pw_auth (objNoDA env) (nvNoDA env) (getAuth env) (sessions env) h a s"
| "da_cmd_exec env (Shutdown t) s = Ret (TPM2_Shutdown t s)"
| "da_cmd_exec env (ClockSet t) s = TPM2_ClockSet t s"
| "da_cmd_exec env (RateAdjust a) s = TPM2_ClockRateAdjust a s"

definition da_event_exec :: "da_env \<Rightarrow> da_event \<Rightarrow> tpm \<Rightarrow> (TPM_RC \<times> tpm) outcome" where
  "da_event_exec env e s =
     obind (exec_begin (ev_nv e) (ev_mon e) s) (\<lambda>s1.
     obind (da_cmd_exec env (ev_cmd e) s1) (\<lambda>(rc, s2).
     obind (exec_end (ev_commitOk e) s2) (\<lambda>s3. Ret (rc, s3))))"

text \<open>
  A failed comparison is visible as \<^verbatim>\<open>TPM_RC_AUTH_FAIL\<close>; \<open>is_guess\<close> and \<open>is_lockout_guess\<close>
  classify the events whose failures are counted.
\<close>

fun is_guess :: "da_cmd \<Rightarrow> TPM_RC \<Rightarrow> bool" where
  "is_guess (PwAuth h a) rc \<longleftrightarrow> h \<noteq> TPM_RH_LOCKOUT \<and> rc = TPM_RC_AUTH_FAIL"
| "is_guess _ rc \<longleftrightarrow> False"

fun is_lockout_guess :: "da_cmd \<Rightarrow> TPM_RC \<Rightarrow> bool" where
  "is_lockout_guess (PwAuth h a) rc \<longleftrightarrow> h = TPM_RH_LOCKOUT \<and> rc = TPM_RC_AUTH_FAIL"
| "is_lockout_guess _ rc \<longleftrightarrow> False"

record da_trace =
  guesses :: nat
  lockout_guesses :: nat
  elapsed_ms :: nat

fun da_run :: "da_env \<Rightarrow> da_event list \<Rightarrow> tpm \<Rightarrow> (da_trace \<times> tpm) outcome" where
  "da_run env [] s = Ret (\<lparr>guesses = 0, lockout_guesses = 0, elapsed_ms = 0\<rparr>, s)"
| "da_run env (e # es) s =
     obind (da_event_exec env e s) (\<lambda>(rc, s1).
     obind (da_run env es s1) (\<lambda>(t, s2).
       Ret (t\<lparr>guesses := guesses t + of_bool (is_guess (ev_cmd e) rc),
              lockout_guesses := lockout_guesses t + of_bool (is_lockout_guess (ev_cmd e) rc),
              elapsed_ms := elapsed_ms t + unat (time_ms s1 - time_ms s)\<rparr>, s2)))"

section \<open>Potentials\<close>

text \<open>Milliseconds that the two timers have accumulated, and the two potentials.\<close>

definition heal_ms :: "tpm \<Rightarrow> nat" where
  "heal_ms s = unat (time_ms s - selfHealTimer (go s))"

definition lockout_ms :: "tpm \<Rightarrow> nat" where
  "lockout_ms s = unat (time_ms s - lockoutTimer (go s))"

definition tries_left :: "tpm \<Rightarrow> nat" where
  "tries_left s = unat (maxTries (gp s)) - unat (failedTries (gp s))"

definition recovery_ms :: "tpm \<Rightarrow> nat" where
  "recovery_ms s = unat (recoveryTime (gp s)) * 1000"

definition lockout_recovery_ms :: "tpm \<Rightarrow> nat" where
  "lockout_recovery_ms s = unat (lockoutRecovery (gp s)) * 1000"

definition credit :: "tpm \<Rightarrow> nat" where
  "credit s = tries_left s * recovery_ms s + heal_ms s"

definition lockout_credit :: "tpm \<Rightarrow> nat" where
  "lockout_credit s = (if lockOutAuthEnabled (gp s) then lockout_recovery_ms s
     else min (lockout_ms s) (lockout_recovery_ms s))"

lemmas credit_defs = credit_def lockout_credit_def heal_ms_def lockout_ms_def tries_left_def
  recovery_ms_def lockout_recovery_ms_def

text \<open>The members the potentials depend on.\<close>

definition da_view :: "tpm \<Rightarrow> u32 \<times> u32 \<times> u32 \<times> u32 \<times> bool \<times> u64 \<times> u64 \<times> u64" where
  "da_view s = (failedTries (gp s), maxTries (gp s), recoveryTime (gp s), lockoutRecovery (gp s),
     lockOutAuthEnabled (gp s), selfHealTimer (go s), lockoutTimer (go s), time_ms s)"

lemma da_view_credit:
  assumes "da_view s = da_view t"
  shows "credit s = credit t" "lockout_credit s = lockout_credit t"
    "recovery_ms s = recovery_ms t" "lockout_recovery_ms s = lockout_recovery_ms t"
    "time_ms s = time_ms t"
  using assms by (simp_all add: da_view_def credit_defs)

lemma da_view_NV_SYNC [simp]: "da_view (NV_SYNC_PERSISTENT cp s) = da_view s"
  by (simp add: da_view_def NV_SYNC_PERSISTENT_def)

lemma da_view_updates [simp]:
  "da_view (s\<lparr>s_NV := x1\<rparr>) = da_view s" "da_view (s\<lparr>storage := x2\<rparr>) = da_view s"
  "da_view (s\<lparr>g_updateNV := b\<rparr>) = da_view s" "da_view (s\<lparr>g_clearOrderly := b\<rparr>) = da_view s"
  "da_view (s\<lparr>g_daUsed := b\<rparr>) = da_view s" "da_view (s\<lparr>plat := p\<rparr>) = da_view s"
  "da_view (s\<lparr>s_DAPendingOnNV := b\<rparr>) = da_view s" "da_view (s\<lparr>g_NvStatus := rc\<rparr>) = da_view s"
  "da_view (s\<lparr>gp := (gp s)\<lparr>orderlyState := o'\<rparr>\<rparr>) = da_view s"
  "da_view (s\<lparr>gp := (gp s)\<lparr>timeEpoch := e\<rparr>\<rparr>) = da_view s"
  by (simp_all add: da_view_def)

lemma da_view_NvWrite [simp]: "da_view (NvWrite_go s) = da_view s" "da_view (NvWrite_gr s) = da_view s"
  by (simp_all add: da_view_def NvWrite_go_def NvWrite_gr_def)

lemma da_view_NvCheckState [simp]: "da_view (NvCheckState nv s) = da_view s"
  by (cases nv) simp_all

lemma da_view_TimeClockUpdate: "TimeClockUpdate t s = Ret s' \<Longrightarrow> da_view s' = da_view s"
  by (auto simp: TimeClockUpdate_def da_view_def NvWrite_go_def split: if_splits)

lemma da_view_TimeNewEpoch [simp]: "da_view (TimeNewEpoch s) = da_view s"
  by (simp add: TimeNewEpoch_def Let_def)

lemma da_view_Shutdown: "TPM2_Shutdown t s = (rc, s') \<Longrightarrow> da_view s' = da_view s"
  by (auto simp: TPM2_Shutdown_def da_view_def NV_SYNC_PERSISTENT_def NvWrite_go_def NvWrite_gr_def
      Let_def split: if_splits)

lemma da_view_ClockSet: "TPM2_ClockSet t s = Ret (rc, s') \<Longrightarrow> da_view s' = da_view s"
  by (auto simp: TPM2_ClockSet_def obind_Ret_iff dest: da_view_TimeClockUpdate split: if_splits)

lemma da_view_RateAdjust: "TPM2_ClockRateAdjust a s = Ret (rc, s') \<Longrightarrow> da_view s' = da_view s"
  by (auto simp: TPM2_ClockRateAdjust_def TimeSetAdjustRate_def obind_Ret_iff Let_def
      split: if_splits)

lemma da_view_exec_end: "exec_end ok s = Ret s' \<Longrightarrow> da_view s' = da_view s"
  by (auto simp: exec_end_def da_view_def NV_SYNC_PERSISTENT_def Let_def split: if_splits)

lemma da_view_CheckLockedOut: "CheckLockedOut b s = (rc, s') \<Longrightarrow> da_view s' = da_view s"
  by (auto simp: CheckLockedOut_def da_view_def NV_SYNC_PERSISTENT_def Let_def split: if_splits)

section \<open>Healing\<close>

lemma unat_ucast_u32_le: "unat (ucast (x :: u64) :: u32) \<le> unat x"
  by (simp add: unsigned_ucast_eq)

text \<open>The count by which the healing lowers \<^verbatim>\<open>failedTries\<close>, and the time it consumes.\<close>

definition heal_count :: "tpm \<Rightarrow> u64" where
  "heal_count s = ((time_ms s - selfHealTimer (go s)) div 1000) div ucast (recoveryTime (gp s))"

lemma heal_count_unat:
  "unat (heal_count s) = heal_ms s div 1000 div unat (recoveryTime (gp s))"
  by (simp add: heal_count_def heal_ms_def unat_div unat_rate_u64)

lemma heal_count_times: "unat (heal_count s) * recovery_ms s \<le> heal_ms s"
proof -
  have "unat (heal_count s) * unat (recoveryTime (gp s)) \<le> heal_ms s div 1000"
    unfolding heal_count_unat by (rule div_times_less_eq_dividend)
  then have "unat (heal_count s) * unat (recoveryTime (gp s)) * 1000 \<le> heal_ms s div 1000 * 1000"
    by (rule mult_le_mono1)
  also have "\<dots> \<le> heal_ms s"
    by (rule div_times_less_eq_dividend)
  finally show ?thesis
    by (simp add: recovery_ms_def mult.assoc)
qed

lemma heal_consumed_unat:
  "unat ((heal_count s * ucast (recoveryTime (gp s))) * 1000 :: u64)
     = unat (heal_count s) * recovery_ms s"
proof -
  have b: "unat (heal_count s) * unat (recoveryTime (gp s)) * 1000 < 2 ^ 64"
    using heal_count_times [of s] unsigned_less [where 'a = nat, of "time_ms s - selfHealTimer (go s)"]
    by (simp add: recovery_ms_def heal_ms_def mult.assoc)
  have "unat (heal_count s * ucast (recoveryTime (gp s)) :: u64)
      = unat (heal_count s) * unat (recoveryTime (gp s))"
    using b by (subst unat_mult_u64) (simp_all add: unat_rate_u64)
  then show ?thesis
    using b by (subst unat_mult_u64) (simp_all add: recovery_ms_def)
qed

lemma heal_ms_after:
  "unat (time_ms s - (selfHealTimer (go s) + (heal_count s * ucast (recoveryTime (gp s))) * 1000))
     = heal_ms s - unat (heal_count s) * recovery_ms s"
proof -
  let ?x = "(heal_count s * ucast (recoveryTime (gp s))) * 1000 :: u64"
  have "?x \<le> time_ms s - selfHealTimer (go s)"
    using heal_count_times [of s] unfolding word_le_nat_alt heal_consumed_unat heal_ms_def .
  then have "unat (time_ms s - selfHealTimer (go s) - ?x) = heal_ms s - unat ?x"
    unfolding heal_ms_def by (rule unat_sub)
  then show ?thesis
    by (simp only: heal_consumed_unat diff_diff_eq)
qed

text \<open>The functional behaviour of the first half of \<^verbatim>\<open>DASelfHeal\<close> on natural numbers.\<close>

lemma heal_tries_gp:
  assumes "recoveryTime (gp s) \<noteq> 0" "failedTries (gp s) \<noteq> 0"
  shows "unat (failedTries (gp (heal_tries s)))
      = unat (failedTries (gp s)) - unat (ucast (heal_count s) :: u32)"
    and "heal_ms (heal_tries s) = heal_ms s - unat (heal_count s) * recovery_ms s"
proof -
  let ?c = "ucast (heal_count s) :: u32"
  have "failedTries (gp (heal_tries s))
      = (if failedTries (gp s) \<le> ?c then 0 else failedTries (gp s) - ?c)"
    using assms by (simp add: heal_tries_def Let_def NV_SYNC_PERSISTENT_def flip: heal_count_def)
  then show "unat (failedTries (gp (heal_tries s))) = unat (failedTries (gp s)) - unat ?c"
    by (simp add: word_le_nat_alt unat_sub)
  show "heal_ms (heal_tries s) = heal_ms s - unat (heal_count s) * recovery_ms s"
    using assms heal_ms_after [of s]
    by (simp add: heal_tries_def Let_def NV_SYNC_PERSISTENT_def heal_ms_def flip: heal_count_def)
qed

lemma heal_tries_frame:
  "maxTries (gp (heal_tries s)) = maxTries (gp s)"
  "recoveryTime (gp (heal_tries s)) = recoveryTime (gp s)"
  "lockoutRecovery (gp (heal_tries s)) = lockoutRecovery (gp s)"
  "lockOutAuthEnabled (gp (heal_tries s)) = lockOutAuthEnabled (gp s)"
  "lockoutTimer (go (heal_tries s)) = lockoutTimer (go s)"
  "time_ms (heal_tries s) = time_ms s"
  by (simp_all add: heal_tries_def Let_def NV_SYNC_PERSISTENT_def)

lemma heal_lockout_frame:
  "failedTries (gp (heal_lockout s)) = failedTries (gp s)"
  "maxTries (gp (heal_lockout s)) = maxTries (gp s)"
  "recoveryTime (gp (heal_lockout s)) = recoveryTime (gp s)"
  "lockoutRecovery (gp (heal_lockout s)) = lockoutRecovery (gp s)"
  "lockoutTimer (go (heal_lockout s)) = lockoutTimer (go s)"
  "selfHealTimer (go (heal_lockout s)) = selfHealTimer (go s)"
  "time_ms (heal_lockout s) = time_ms s"
  by (simp_all add: heal_lockout_def NV_SYNC_PERSISTENT_def)

lemmas heal_frames = heal_tries_frame heal_lockout_frame

lemma heal_tries_credit:
  assumes "recoveryTime (gp s) \<noteq> 0"
  shows "credit (heal_tries s) \<le> credit s"
proof (cases "failedTries (gp s) = 0")
  case True
  then show ?thesis by (simp add: heal_tries_def)
next
  case False
  let ?R = "recovery_ms s" and ?c = "unat (ucast (heal_count s) :: u32)"
    and ?d = "unat (heal_count s)"
  note h = heal_tries_gp [OF assms False]
  have R: "recovery_ms (heal_tries s) = ?R"
    by (simp add: recovery_ms_def heal_frames)
  have "tries_left (heal_tries s) \<le> tries_left s + ?c"
    by (simp add: tries_left_def heal_frames h(1))
  also have "\<dots> \<le> tries_left s + ?d"
    by (simp add: unat_ucast_u32_le)
  finally have "tries_left (heal_tries s) * ?R \<le> (tries_left s + ?d) * ?R"
    by (rule mult_le_mono1)
  then show ?thesis
    using heal_count_times [of s] by (simp add: credit_def R h(2) add_mult_distrib)
qed

lemma heal_lockout_credit: "lockout_credit (heal_lockout s) = lockout_credit s"
proof -
  have "lockoutRecovery (gp s) \<noteq> 0 \<Longrightarrow>
      ucast (lockoutRecovery (gp s)) \<le> (time_ms s - lockoutTimer (go s)) div 1000 \<Longrightarrow>
      lockout_recovery_ms s \<le> lockout_ms s"
    by (simp add: word_le_nat_alt unat_rate_u64 unat_div lockout_recovery_ms_def lockout_ms_def)
  then show ?thesis
    by (auto simp: lockout_credit_def lockout_recovery_ms_def lockout_ms_def heal_lockout_def
        NV_SYNC_PERSISTENT_def)
qed

lemma DASelfHeal_credit:
  "recoveryTime (gp s) \<noteq> 0 \<Longrightarrow> credit (DASelfHeal s) \<le> credit s"
  "lockout_credit (DASelfHeal s) = lockout_credit s"
proof -
  have "credit (heal_lockout t) = credit t" for t
    by (simp add: credit_defs heal_frames)
  then show "recoveryTime (gp s) \<noteq> 0 \<Longrightarrow> credit (DASelfHeal s) \<le> credit s"
    by (simp add: DASelfHeal_def heal_tries_credit)
  have "lockout_credit (heal_tries s) = lockout_credit s"
    by (simp add: credit_defs heal_frames)
  then show "lockout_credit (DASelfHeal s) = lockout_credit s"
    by (simp add: DASelfHeal_def heal_lockout_credit)
qed

lemma DASelfHeal_frame:
  "recoveryTime (gp (DASelfHeal s)) = recoveryTime (gp s)"
  "lockoutRecovery (gp (DASelfHeal s)) = lockoutRecovery (gp s)"
  "maxTries (gp (DASelfHeal s)) = maxTries (gp s)"
  "time_ms (DASelfHeal s) = time_ms s"
  by (simp_all add: DASelfHeal_def heal_frames)

section \<open>Commands and the potentials\<close>

lemma advance_credit:
  "credit (s\<lparr>time_ms := time_ms s + x\<rparr>) \<le> credit s + unat x"
  "lockout_credit (s\<lparr>time_ms := time_ms s + x\<rparr>) \<le> lockout_credit s + unat x"
proof -
  have "unat (time_ms s + x - b) \<le> unat (time_ms s - b) + unat x" for b
    using unat_plus_le_u64 [of "time_ms s - b" x] by (simp add: diff_add_eq)
  from this [of "selfHealTimer (go s)"] this [of "lockoutTimer (go s)"]
  show "credit (s\<lparr>time_ms := time_ms s + x\<rparr>) \<le> credit s + unat x"
    and "lockout_credit (s\<lparr>time_ms := time_ms s + x\<rparr>) \<le> lockout_credit s + unat x"
    by (auto simp: credit_defs)
qed

lemma TimeUpdate_view:
  assumes "TimeUpdate mon s = Ret s'"
  shows "\<exists>s4. s' = DASelfHeal s4 \<and> da_view s4 = da_view (s\<lparr>time_ms := time_ms s + (time_ms s' - time_ms s)\<rparr>)"
proof -
  obtain t c where r: "plat_TimerRead mon (plat (consume_stopped s)) = (t, c)"
    by (rule prod.exhaust)
  define s3 where s3: "s3 = (consume_stopped s)\<lparr>plat := c, time_ms := t\<rparr>"
  have s2: "da_view (consume_stopped s) = da_view s"
    by (simp add: consume_stopped_def plat_TimerWasStopped_def)
  obtain s4 where "TimeClockUpdate (clock (go s3) + (t - time_ms (consume_stopped s))) s3 = Ret s4"
    and s': "s' = DASelfHeal s4"
    using assms r by (auto simp: TimeUpdate_def s3 Let_def obind_Ret_iff)
  then have v: "da_view s4 = da_view s3"
    using da_view_TimeClockUpdate by blast
  then have "time_ms s' = t"
    by (simp add: s' s3 DASelfHeal_frame da_view_def)
  then have "da_view s4 = da_view (s\<lparr>time_ms := time_ms s + (time_ms s' - time_ms s)\<rparr>)"
    using v s2 by (simp add: s3 da_view_def)
  with s' show ?thesis by blast
qed

lemma TimeUpdate_credit:
  assumes "TimeUpdate mon s = Ret s'" "recovery_ms s \<noteq> 0"
  shows "credit s' \<le> credit s + unat (time_ms s' - time_ms s)"
    and "lockout_credit s' \<le> lockout_credit s + unat (time_ms s' - time_ms s)"
    and "recovery_ms s' = recovery_ms s" "lockout_recovery_ms s' = lockout_recovery_ms s"
proof -
  let ?a = "s\<lparr>time_ms := time_ms s + (time_ms s' - time_ms s)\<rparr>"
  obtain s4 where s': "s' = DASelfHeal s4" and v: "da_view s4 = da_view ?a"
    using TimeUpdate_view [OF assms(1)] by blast
  note c = da_view_credit [OF v]
  have r: "recovery_ms ?a = recovery_ms s" "lockout_recovery_ms ?a = lockout_recovery_ms s"
    by (simp_all add: recovery_ms_def lockout_recovery_ms_def)
  then have "recoveryTime (gp s4) \<noteq> 0"
    using c(3) assms(2) by (auto simp: recovery_ms_def)
  then show "credit s' \<le> credit s + unat (time_ms s' - time_ms s)"
    using DASelfHeal_credit(1) [of s4] advance_credit(1) [of s "time_ms s' - time_ms s"] c(1)
    by (simp add: s')
  show "lockout_credit s' \<le> lockout_credit s + unat (time_ms s' - time_ms s)"
    using DASelfHeal_credit(2) [of s4] advance_credit(2) [of s "time_ms s' - time_ms s"] c(2)
    by (simp add: s')
  show "recovery_ms s' = recovery_ms s" "lockout_recovery_ms s' = lockout_recovery_ms s"
    using c(3,4) r by (simp_all add: s' recovery_ms_def lockout_recovery_ms_def DASelfHeal_frame)
qed

lemma exec_begin_credit:
  assumes "exec_begin nv mon s = Ret s'" "recovery_ms s \<noteq> 0"
  shows "credit s' \<le> credit s + unat (time_ms s' - time_ms s)"
    and "lockout_credit s' \<le> lockout_credit s + unat (time_ms s' - time_ms s)"
    and "recovery_ms s' = recovery_ms s" "lockout_recovery_ms s' = lockout_recovery_ms s"
proof -
  let ?s = "NvCheckState nv (s\<lparr>g_updateNV := False, g_clearOrderly := False\<rparr>)"
  have v: "da_view ?s = da_view s"
    by simp
  note c = da_view_credit [OF v]
  have "s' = ?s \<or> TimeUpdate mon ?s = Ret s'"
    using assms(1) by (auto simp: exec_begin_def TimeUpdateToCurrent_def split: if_splits)
  then have "credit s' \<le> credit s + unat (time_ms s' - time_ms s) \<and>
    lockout_credit s' \<le> lockout_credit s + unat (time_ms s' - time_ms s) \<and>
    recovery_ms s' = recovery_ms s \<and> lockout_recovery_ms s' = lockout_recovery_ms s"
    using TimeUpdate_credit [of mon ?s s'] c assms(2) by auto
  then show "credit s' \<le> credit s + unat (time_ms s' - time_ms s)"
    and "lockout_credit s' \<le> lockout_credit s + unat (time_ms s' - time_ms s)"
    and "recovery_ms s' = recovery_ms s" "lockout_recovery_ms s' = lockout_recovery_ms s"
    by simp_all
qed

text \<open>A recorded failure costs one recovery interval of the potential it belongs to.\<close>

lemma record_failure_tries:
  assumes "record_failure h s = Ret (rc, s')" "h \<noteq> TPM_RH_LOCKOUT"
    and "recovery_ms s \<noteq> 0" "failedTries (gp s) < maxTries (gp s)"
  shows "credit s' + recovery_ms s \<le> credit s" "lockout_credit s' = lockout_credit s"
    "recovery_ms s' = recovery_ms s" "lockout_recovery_ms s' = lockout_recovery_ms s"
    "time_ms s' = time_ms s"
proof -
  have r: "recoveryTime (gp s) \<noteq> 0"
    using assms(3) by (auto simp: recovery_ms_def)
  have s': "gp s' = (gp s)\<lparr>failedTries := failedTries (gp s) + 1\<rparr>"
    "go s' = (go s)\<lparr>selfHealTimer := time_ms s\<rparr>" "time_ms s' = time_ms s"
    using assms(1,2) r by (auto simp: record_failure_def DARegisterFailure_def Let_def
        NV_SYNC_PERSISTENT_def split: if_splits)
  have f: "unat (failedTries (gp s) + 1) = unat (failedTries (gp s)) + 1"
    using assms(4) unsigned_less [where 'a = nat, of "maxTries (gp s)"]
    by (simp add: unat_word_ariths word_less_nat_alt)
  have "tries_left s = Suc (tries_left s')"
    using assms(4) by (simp add: tries_left_def s' f word_less_nat_alt)
  then show "credit s' + recovery_ms s \<le> credit s"
    by (simp add: credit_def recovery_ms_def heal_ms_def s')
  show "lockout_credit s' = lockout_credit s"
    by (simp add: credit_defs s')
qed (use assms in \<open>auto simp: record_failure_def DARegisterFailure_def Let_def
        NV_SYNC_PERSISTENT_def recovery_ms_def lockout_recovery_ms_def split: if_splits\<close>)

lemma record_failure_lockout:
  assumes "record_failure TPM_RH_LOCKOUT s = Ret (rc, s')"
  shows "credit s' = credit s" "lockout_credit s' + lockout_recovery_ms s = lockout_credit s"
    "recovery_ms s' = recovery_ms s" "lockout_recovery_ms s' = lockout_recovery_ms s"
    "time_ms s' = time_ms s"
  using assms by (auto simp: record_failure_def DARegisterFailure_def Let_def
      NV_SYNC_PERSISTENT_def credit_defs split: if_splits)

text \<open>Nothing within a command changes the NV status that its start recorded.\<close>

definition nv_status_ok :: "tpm \<Rightarrow> bool" where
  "nv_status_ok s \<longleftrightarrow> g_NvStatus s \<in> {TPM_RC_SUCCESS, TPM_RC_NV_UNAVAILABLE, TPM_RC_NV_RATE}"

lemma NvStatus_frames [simp]:
  "g_NvStatus (NV_SYNC_PERSISTENT cp s) = g_NvStatus s"
  "g_NvStatus (heal_tries s) = g_NvStatus s"
  "g_NvStatus (heal_lockout s) = g_NvStatus s"
  "g_NvStatus (consume_stopped s) = g_NvStatus s"
  by (simp_all add: NV_SYNC_PERSISTENT_def heal_tries_def heal_lockout_def consume_stopped_def
      TimeNewEpoch_def plat_TimerWasStopped_def Let_def)

lemma TimeClockUpdate_NvStatus: "TimeClockUpdate t s = Ret s' \<Longrightarrow> g_NvStatus s' = g_NvStatus s"
  by (auto simp: TimeClockUpdate_def NvWrite_go_def split: if_splits)

lemma TimeUpdate_NvStatus: "TimeUpdate mon s = Ret s' \<Longrightarrow> g_NvStatus s' = g_NvStatus s"
  by (auto simp: TimeUpdate_def Let_def obind_Ret_iff DASelfHeal_def split: prod.splits
      dest: TimeClockUpdate_NvStatus)

lemma exec_begin_status:
  assumes "exec_begin nv mon s = Ret s'"
  shows "nv_status_ok s'"
proof -
  have "g_NvStatus s' = g_NvStatus (NvCheckState nv (s\<lparr>g_updateNV := False, g_clearOrderly := False\<rparr>))"
    using assms by (auto simp: exec_begin_def TimeUpdateToCurrent_def dest: TimeUpdate_NvStatus
        split: if_splits)
  then show ?thesis
    by (cases nv) (simp_all add: nv_status_ok_def)
qed

lemma CheckLockedOut_success:
  "CheckLockedOut False s = (TPM_RC_SUCCESS, s') \<Longrightarrow> failedTries (gp s') < maxTries (gp s')"
  by (auto simp: CheckLockedOut_def Let_def NV_SYNC_PERSISTENT_def tpm_consts split: if_splits)

lemma CheckLockedOut_not_AUTH_FAIL:
  "CheckLockedOut b s = (rc, s') \<Longrightarrow> nv_status_ok s \<Longrightarrow> rc \<noteq> TPM_RC_AUTH_FAIL"
  by (auto simp: CheckLockedOut_def Let_def NV_SYNC_PERSISTENT_def nv_status_ok_def tpm_consts
      split: if_splits)

text \<open>
  What one command may do to the two potentials, with the failures it counts as.
\<close>

definition pays :: "da_cmd \<Rightarrow> TPM_RC \<Rightarrow> tpm \<Rightarrow> tpm \<Rightarrow> bool" where
  "pays cmd rc s s' \<longleftrightarrow>
     credit s' + of_bool (is_guess cmd rc) * recovery_ms s \<le> credit s \<and>
     lockout_credit s' + of_bool (is_lockout_guess cmd rc) * lockout_recovery_ms s
       \<le> lockout_credit s \<and>
     recovery_ms s' = recovery_ms s \<and> lockout_recovery_ms s' = lockout_recovery_ms s \<and>
     time_ms s' = time_ms s"

lemma pays_view:
  assumes "da_view s' = da_view s" "\<not> is_guess cmd rc" "\<not> is_lockout_guess cmd rc"
  shows "pays cmd rc s s'"
  using da_view_credit [OF assms(1)] assms(2,3) by (simp add: pays_def)

lemma pays_view_first:
  "da_view s1 = da_view s \<Longrightarrow> pays cmd rc s1 s' \<Longrightarrow> pays cmd rc s s'"
  using da_view_credit [of s1 s] by (simp add: pays_def)

lemma pays_view_last:
  "pays cmd rc s s1 \<Longrightarrow> da_view s' = da_view s1 \<Longrightarrow> pays cmd rc s s'"
  using da_view_credit [of s' s1] by (simp add: pays_def)

lemma exempt_not_lockout: "\<not> IsDAExempted o' n TPM_RH_LOCKOUT"
  by (simp add: IsDAExempted_def HandleGetType_def tpm_consts)

lemma record_failure_pays:
  assumes "record_failure h s = Ret (rc, s')" "recovery_ms s \<noteq> 0"
    and "h \<noteq> TPM_RH_LOCKOUT \<longrightarrow> failedTries (gp s) < maxTries (gp s)"
  shows "pays (PwAuth h a) rc s s'"
proof (cases "h = TPM_RH_LOCKOUT")
  case True
  then show ?thesis
    using record_failure_lockout [of s rc s'] assms(1) by (auto simp: pays_def)
next
  case False
  then show ?thesis
    using record_failure_tries [OF assms(1) False assms(2)] assms(3) by (auto simp: pays_def)
qed

lemma check_pw_auth_pays:
  assumes "check_pw_auth od nd ga ss h a s = Ret (rc, s')" "recovery_ms s \<noteq> 0" "nv_status_ok s"
  shows "pays (PwAuth h a) rc s s'"
proof -
  have codes: "TPM_RC_SUCCESS \<noteq> TPM_RC_AUTH_FAIL" "TPM_RC_BAD_AUTH \<noteq> TPM_RC_AUTH_FAIL"
    by (simp_all add: tpm_consts)
  show ?thesis
  proof (cases "IsDAExempted od nd h")
    case True
    then show ?thesis
      using assms(1) codes
      by (intro pays_view) (auto simp: check_pw_auth_def CheckPWAuthSession_def IncrementLockout_def
          split: if_splits)
  next
    case False
    obtain rc1 s1 where l: "CheckLockedOut (h = TPM_RH_LOCKOUT) s = (rc1, s1)"
      by (rule prod.exhaust)
    note v = da_view_CheckLockedOut [OF l]
    note n = CheckLockedOut_not_AUTH_FAIL [OF l assms(3)]
    show ?thesis
    proof (cases "rc1 = TPM_RC_SUCCESS \<and> MemoryRemoveTrailingZeros a \<noteq> ga h")
      case True
      then have "record_failure h s1 = Ret (rc, s')"
        using assms(1) False l
        by (simp add: check_pw_auth_def CheckPWAuthSession_def IncrementLockout_def)
      moreover have "h \<noteq> TPM_RH_LOCKOUT \<longrightarrow> failedTries (gp s1) < maxTries (gp s1)"
        using CheckLockedOut_success [of s s1] l True by auto
      moreover have "recovery_ms s1 \<noteq> 0"
        using da_view_credit(3) [OF v] assms(2) by simp
      ultimately show ?thesis
        by (intro pays_view_first [OF v] record_failure_pays)
    next
      case wrong: False
      then show ?thesis
        using assms(1) False l v n codes
        by (intro pays_view) (auto simp: check_pw_auth_def CheckPWAuthSession_def split: if_splits)
    qed
  qed
qed

lemma da_cmd_pays:
  assumes "da_cmd_exec env cmd s = Ret (rc, s')" "recovery_ms s \<noteq> 0" "nv_status_ok s"
  shows "pays cmd rc s s'"
proof (cases cmd)
  case (PwAuth h a)
  then show ?thesis
    using check_pw_auth_pays [OF _ assms(2,3)] assms(1) by simp
next
  case (Shutdown t)
  then show ?thesis
    using assms(1) by (intro pays_view) (auto intro: da_view_Shutdown [of t])
next
  case (ClockSet t)
  then show ?thesis
    using assms(1) by (intro pays_view) (auto intro: da_view_ClockSet)
next
  case (RateAdjust a)
  then show ?thesis
    using assms(1) by (intro pays_view) (auto intro: da_view_RateAdjust)
qed (use assms(1) in \<open>auto simp: pays_def\<close>)

lemma da_run_pays:
  assumes "da_run env es s = Ret (t, s')" "recovery_ms s \<noteq> 0"
  shows "guesses t * recovery_ms s + credit s' \<le> credit s + elapsed_ms t \<and>
    lockout_guesses t * lockout_recovery_ms s + lockout_credit s' \<le> lockout_credit s + elapsed_ms t"
  using assms
proof (induction es arbitrary: s t)
  case Nil
  then show ?case by auto
next
  case (Cons e es)
  obtain s1 rc s2 s3 t' where
    b: "exec_begin (ev_nv e) (ev_mon e) s = Ret s1" and
    c: "da_cmd_exec env (ev_cmd e) s1 = Ret (rc, s2)" and
    d: "exec_end (ev_commitOk e) s2 = Ret s3" and
    r: "da_run env es s3 = Ret (t', s')" and
    t: "t = t'\<lparr>guesses := guesses t' + of_bool (is_guess (ev_cmd e) rc),
        lockout_guesses := lockout_guesses t' + of_bool (is_lockout_guess (ev_cmd e) rc),
        elapsed_ms := elapsed_ms t' + unat (time_ms s3 - time_ms s)\<rparr>"
    using Cons.prems(1) by (auto simp: da_event_exec_def obind_Ret_iff)
  note bc = exec_begin_credit [OF b Cons.prems(2)]
  have "pays (ev_cmd e) rc s1 s3"
    using da_cmd_pays [OF c _ exec_begin_status [OF b]] da_view_exec_end [OF d] bc(3) Cons.prems(2)
    by (auto intro: pays_view_last)
  then have p: "recovery_ms s3 = recovery_ms s" "lockout_recovery_ms s3 = lockout_recovery_ms s"
    "time_ms s3 = time_ms s1"
    "credit s3 + of_bool (is_guess (ev_cmd e) rc) * recovery_ms s \<le> credit s1"
    "lockout_credit s3 + of_bool (is_lockout_guess (ev_cmd e) rc) * lockout_recovery_ms s
       \<le> lockout_credit s1"
    using bc(3,4) by (auto simp: pays_def)
  have "guesses t' * recovery_ms s + credit s' \<le> credit s3 + elapsed_ms t' \<and>
      lockout_guesses t' * lockout_recovery_ms s + lockout_credit s'
        \<le> lockout_credit s3 + elapsed_ms t'"
    using Cons.IH [OF r] Cons.prems(2) p(1,2) by simp
  with p(3-5) bc(1,2) show ?case
    by (simp add: t add_mult_distrib)
qed

section \<open>Restarts\<close>

text \<open>A power cycle: the platform signals power on, the TPM initializes from storage.\<close>

definition power_on :: "u64 \<Rightarrow> tpm \<Rightarrow> tpm outcome" where
  "power_on mon s = TPM_Init True True True mon (plat_Signal_PowerOn s)"

lemma first_read_after_reset [simp]:
  "s_tpmTime (adjust_rate (track_system_time t (plat_TimerReset c))) = 0"
  by (simp add: track_first plat_TimerReset_def adjust_rate_def)

lemma TimerRead_after_reset [simp]: "fst (plat_TimerRead mon (plat_TimerReset c)) = 0"
  by (simp add: plat_TimerRead_def Let_def)

lemma TimerRead_flags [simp]:
  "s_timerReset (snd (plat_TimerRead mon c)) = s_timerReset c"
  by (simp add: plat_TimerRead_def Let_def adjust_rate_def track_system_time_def)

lemma power_on_state:
  assumes "power_on mon s = Ret s'"
  shows "gp s' = nv_gp (storage s)" "go s' = nv_go (storage s)" "s_NV s' = storage s"
    "time_ms s' = 0" "s_timerReset (plat s')" "g_NvStatus s' = g_NvStatus s" "g_nvOk s'"
proof -
  note d = power_on_def TPM_Init_def plat_Signal_PowerOn_def TimePowerOn_def split_beta
    Let_def
  show "gp s' = nv_gp (storage s)" "go s' = nv_go (storage s)" "s_NV s' = storage s"
    "time_ms s' = 0" "g_NvStatus s' = g_NvStatus s" "g_nvOk s'"
    using assms by (auto simp: d)
  have "plat s' = snd (plat_TimerRead mon (plat_TimerReset (plat s)))"
    using assms by (auto simp: d)
  then show "s_timerReset (plat s')"
    by (simp add: plat_TimerReset_def)
qed

lemma startup_orderly_go [simp]:
  "go (startup_orderly s) = go s" "time_ms (startup_orderly s) = time_ms s"
  "plat (startup_orderly s) = plat s"
  by (simp_all add: startup_orderly_def Let_def)

lemma TimeUpdate_healed:
  assumes "TimeUpdate mon s = Ret s'" "recoveryTime (gp s) \<noteq> 0" "selfHealTimer (go s) = 0"
  shows "unat (failedTries (gp s))
    \<le> unat (failedTries (gp s')) + unat (time_ms s') div 1000 div unat (recoveryTime (gp s))"
proof -
  obtain s4 where s': "s' = DASelfHeal s4"
    and v: "da_view s4 = da_view (s\<lparr>time_ms := time_ms s + (time_ms s' - time_ms s)\<rparr>)"
    using TimeUpdate_view [OF assms(1)] by blast
  have f: "failedTries (gp s4) = failedTries (gp s)" "recoveryTime (gp s4) = recoveryTime (gp s)"
    "heal_ms s4 = unat (time_ms s')"
    using v assms(3) by (auto simp: da_view_def heal_ms_def)
  show ?thesis
  proof (cases "failedTries (gp s4) = 0")
    case False
    have "unat (ucast (heal_count s4) :: u32) \<le> heal_ms s4 div 1000 div unat (recoveryTime (gp s4))"
      using unat_ucast_u32_le [of "heal_count s4"] by (simp add: heal_count_unat)
    moreover have "unat (failedTries (gp s')) = unat (failedTries (gp s4)) - unat (ucast (heal_count s4) :: u32)"
      using heal_tries_gp(1) [OF _ False] assms(2) f(2) by (simp add: s' DASelfHeal_def heal_frames)
    ultimately show ?thesis
      using f by simp
  qed (simp add: f)
qed

lemma startup_counters_frame [simp]:
  "failedTries (gp (startup_counters t s)) = failedTries (gp s)"
  "time_ms (startup_counters t s) = time_ms s"
  by (simp_all add: startup_counters_def NV_SYNC_PERSISTENT_def Let_def split: STARTUP_TYPE.splits)

lemma startup_finish_frame:
  "startup_finish OK s = (rc, s') \<Longrightarrow> failedTries (gp s') = failedTries (gp s) \<and> time_ms s' = time_ms s"
  by (auto simp: startup_finish_def NV_SYNC_PERSISTENT_def Let_def split: if_splits)

text \<open>The members of the state that \<^verbatim>\<open>DAStartup\<close> finds when \<^verbatim>\<open>TPM2_Startup(CLEAR)\<close> calls it.\<close>

lemma Startup_CLEAR_DA:
  assumes "TPM2_Startup subs mon loc TPM_SU_CLEAR s = Ret (rc, s')"
    and "ok_CryptStartup subs" "g_NvStatus s = TPM_RC_SUCCESS" "loc = 0 \<or> loc = 3"
  obtains X sd where "DAStartup mon X = Ret sd"
    "gp X = (gp (startup_orderly s))\<lparr>orderlyState := g_prevOrderlyState (startup_orderly s)\<rparr>"
    "selfHealTimer (go X) = selfHealTimer (go s)" "go_time (go X) = go_time (go s)"
    "plat X = plat s" "time_ms X = time_ms s" "g_daUsed X = g_daUsed (startup_orderly s)"
    "g_prevOrderlyState X = g_prevOrderlyState (startup_orderly s)"
    "failedTries (gp s') = failedTries (gp sd)" "time_ms s' = time_ms sd"
proof -
  define s1 where
    "s1 = startup_orderly (s\<lparr>g_StartupLocality3 := ((if g_DrtmPreStartup s then 0 else loc) = 3)\<rparr>)"
  obtain st s2 where s2: "startup_restore TPM_SU_CLEAR s1 = (st, s2)"
    by (rule prod.exhaust)
  have "startup_check TPM_SU_CLEAR s1 = TPM_RC_SUCCESS"
    by (simp add: startup_check_def tpm_consts)
  then obtain ok s3 where "startup_subsystems subs mon st s2 = Ret (ok, s3)"
    and "startup_finish ok s3 = (rc, s')"
    using assms(1,3,4) s2 unfolding TPM2_Startup_def s1_def [symmetric]
    by (auto simp: obind_Ret_iff startup_from_def startup_run_def)
  then obtain sd where sd: "DAStartup mon (TimeStartup (s2\<lparr>s_initialized := True\<rparr>)) = Ret sd"
    and out: "failedTries (gp s') = failedTries (gp sd)" "time_ms s' = time_ms sd"
    using assms(2) startup_finish_frame [of ok s3 rc s']
    by (auto simp: startup_subsystems_def obind_Ret_iff split: if_splits)
  from sd show ?thesis
    by (rule that) (use s2 out in \<open>auto simp: startup_restore_def Let_def s1_def startup_orderly_def
        TimeStartup_def split: if_splits\<close>)
qed

text \<open>After a power cycle that was not orderly, the healing starts again from nothing.\<close>

lemma DAStartup_timers_unorderly:
  assumes "s_timerReset (plat s)" "\<not> NV_IS_ORDERLY s"
  shows "DAStartup_timers s = s\<lparr>plat := (plat s)\<lparr>s_timerReset := False\<rparr>,
    go := (go s)\<lparr>selfHealTimer := 0, lockoutTimer := 0\<rparr>\<rparr>"
  using assms by (simp add: DAStartup_timers_def plat_TimerWasReset_def Let_def)

lemma DAStartup_counts:
  assumes "DAStartup mon s = Ret s'" "s_timerReset (plat s)" "\<not> NV_IS_ORDERLY s"
    and "\<not> IS_ORDERLY (g_prevOrderlyState s)" "recoveryTime (gp s) \<noteq> 0"
    and "failedTries (gp s) < maxTries (gp s)" "g_daUsed s"
  shows "unat (failedTries (gp s)) + 1
    \<le> unat (failedTries (gp s')) + unat (time_ms s') div 1000 div unat (recoveryTime (gp s))"
proof -
  obtain x where x: "TimeUpdate mon x = Ret s'" "failedTries (gp x) = failedTries (gp s) + 1"
    "recoveryTime (gp x) = recoveryTime (gp s)" "selfHealTimer (go x) = 0"
    using assms
    by (auto simp: DAStartup_def DAStartup_timers_unorderly Let_def NV_SYNC_PERSISTENT_def
        split: if_splits)
  have "unat (failedTries (gp s) + 1) = unat (failedTries (gp s)) + 1"
    using assms(6) unsigned_less [where 'a = nat, of "maxTries (gp s)"]
    by (simp add: unat_word_ariths word_less_nat_alt)
  then show ?thesis
    using TimeUpdate_healed [OF x(1)] x assms(5) by simp
qed

section \<open>The clock in NV\<close>

text \<open>
  The image of the clock that is posted to NV is in the same update interval as the clock, or a
  later one.
\<close>

definition nv_clock_ok :: "tpm \<Rightarrow> bool" where
  "nv_clock_ok s \<longleftrightarrow> (clock (go s) OR CLOCK_UPDATE_MASK) \<le> (clock (nv_go (s_NV s)) OR CLOCK_UPDATE_MASK)"

lemma TimeClockUpdate_nv_clock:
  "TimeClockUpdate t s = Ret s' \<Longrightarrow> nv_clock_ok s \<Longrightarrow> nv_clock_ok s'"
  by (auto simp: TimeClockUpdate_def nv_clock_ok_def NvWrite_go_def split: if_splits)

lemma nv_clock_frames [simp]:
  "nv_clock_ok (NV_SYNC_PERSISTENT cp s) = nv_clock_ok s"
  "nv_clock_ok (heal_tries s) = nv_clock_ok s"
  "nv_clock_ok (heal_lockout s) = nv_clock_ok s"
  "nv_clock_ok (consume_stopped s) = nv_clock_ok s"
  "nv_clock_ok (NvCheckState nv s) = nv_clock_ok s"
  "nv_clock_ok (s\<lparr>plat := c, time_ms := t\<rparr>) = nv_clock_ok s"
  "nv_clock_ok (s\<lparr>g_updateNV := b, g_clearOrderly := b'\<rparr>) = nv_clock_ok s"
  by (cases nv; simp add: nv_clock_ok_def NV_SYNC_PERSISTENT_def heal_tries_def heal_lockout_def
      consume_stopped_def TimeNewEpoch_def plat_TimerWasStopped_def Let_def)+

lemma exec_begin_nv_clock: "exec_begin nv mon s = Ret s' \<Longrightarrow> nv_clock_ok s \<Longrightarrow> nv_clock_ok s'"
  by (auto simp: exec_begin_def TimeUpdateToCurrent_def TimeUpdate_def Let_def obind_Ret_iff
      DASelfHeal_def dest!: TimeClockUpdate_nv_clock split: if_splits prod.splits)

lemma da_cmd_nv_clock:
  assumes "da_cmd_exec env cmd s = Ret (rc, s')" "nv_clock_ok s"
  shows "nv_clock_ok s'"
proof (cases cmd)
  case (PwAuth h a)
  have lock: "CheckLockedOut b s = (r, t) \<Longrightarrow> nv_clock_ok t" for b r t
    using assms(2)
    by (auto simp: CheckLockedOut_def nv_clock_ok_def NV_SYNC_PERSISTENT_def Let_def split: if_splits)
  have "record_failure h t = Ret (r, u) \<Longrightarrow> nv_clock_ok t \<Longrightarrow> nv_clock_ok u" for r t u
    by (auto simp: record_failure_def DARegisterFailure_def nv_clock_ok_def NV_SYNC_PERSISTENT_def
        Let_def split: if_splits)
  with assms PwAuth lock show ?thesis
    by (auto simp: check_pw_auth_def CheckPWAuthSession_def IncrementLockout_def
        split: if_splits prod.splits)
next
  case (Shutdown t)
  then show ?thesis
    using assms by (auto simp: TPM2_Shutdown_def nv_clock_ok_def NV_SYNC_PERSISTENT_def
        NvWrite_go_def NvWrite_gr_def Let_def split: if_splits)
next
  case (ClockSet t)
  then show ?thesis
    using assms by (auto simp: TPM2_ClockSet_def obind_Ret_iff dest: TimeClockUpdate_nv_clock
        split: if_splits)
next
  case (RateAdjust a)
  then show ?thesis
    using assms by (auto simp: TPM2_ClockRateAdjust_def TimeSetAdjustRate_def obind_Ret_iff Let_def
        nv_clock_ok_def split: if_splits)
qed (use assms in simp)

inductive da_step :: "da_env \<Rightarrow> tpm \<Rightarrow> tpm \<Rightarrow> bool" for env where
  da_stepI: "da_event_exec env e s = Ret (rc, s') \<Longrightarrow> da_step env s s'"

lemma exec_end_nv_clock: "exec_end ok s = Ret s' \<Longrightarrow> nv_clock_ok s' = nv_clock_ok s"
  by (auto simp: exec_end_def nv_clock_ok_def NV_SYNC_PERSISTENT_def Let_def split: if_splits)

interpretation da: safe_system "\<lambda>s. clock (go s) = clock (nv_go (s_NV s))" "da_step env" nv_clock_ok
proof unfold_locales
  show "nv_clock_ok s" if "clock (go s) = clock (nv_go (s_NV s))" for s
    using that by (simp add: nv_clock_ok_def)
  show "nv_clock_ok t" if "nv_clock_ok s" "da_step env s t" for s t
    using that(2,1) by cases (auto simp: da_event_exec_def obind_Ret_iff exec_end_nv_clock
        dest: exec_begin_nv_clock da_cmd_nv_clock)
qed

section \<open>Demonstration states\<close>

definition demo_gp :: PERSISTENT_DATA where
  "demo_gp = \<lparr>failedTries = 32, maxTries = 32, recoveryTime = 1000, lockoutRecovery = 1000,
     lockOutAuthEnabled = True, orderlyState = 0xFFFE, timeEpoch = 0, resetCount = 1,
     totalResetCount = 1\<rparr>"

definition demo_go :: ORDERLY_DATA where
  "demo_go = \<lparr>clock = 50000, clockSafe = True, selfHealTimer = 40000, lockoutTimer = 0, go_time = 0\<rparr>"

definition demo_tpm_of :: "PERSISTENT_DATA \<Rightarrow> tpm" where
  "demo_tpm_of p = (let img = \<lparr>nv_gp = p, nv_go = demo_go,
       nv_gr = \<lparr>clearCount = 0, restartCount = 0, objectContextID = 0\<rparr>\<rparr> in
    \<lparr>gp = p, go = demo_go, gr = nv_gr img, s_NV = img, storage = img, g_updateNV = False,
     g_NvStatus = 0, g_nvOk = True, time_ms = 50000, g_daUsed = True,
     g_prevOrderlyState = 0xFFFF, s_DAPendingOnNV = False, s_initialized = True,
     g_StartupLocality3 = False, g_DrtmPreStartup = False, g_powerWasLost = False,
     g_clearOrderly = False, g_pcrReConfig = False,
     plat = \<lparr>s_realTimePrevious = 50000, s_lastSystemTime = 90000, s_lastReportedTime = 50000,
       s_tpmTime = 50000, s_hostMonotonicAdjustTime = 0, s_suspendedElapsedTime = 0,
       s_timerReset = False, s_timerStopped = False, s_adjustRate = 30000\<rparr>\<rparr>)"

definition demo_tpm :: tpm where
  "demo_tpm = demo_tpm_of demo_gp"

definition demo_tpm2 :: tpm where
  "demo_tpm2 = demo_tpm_of (demo_gp\<lparr>failedTries := 30, recoveryTime := 1\<rparr>)"

definition demo_env :: da_env where
  "demo_env = \<lparr>objNoDA = (\<lambda>h. False), nvNoDA = (\<lambda>h. False), getAuth = (\<lambda>h. [1]),
     sessions = \<lparr>s_sessions = [], s_oldestSavedSession = 0, s_freeSessionSlots = 0,
       contextArray = [], contextCounter = 0, s_ContextSlotMask = 0, gr_pcrCounter = 0,
       g_time = 0, g_timeEpoch = 0\<rparr>\<rparr>"

definition demo_ev :: "da_cmd \<Rightarrow> u64 \<Rightarrow> da_event" where
  "demo_ev c t = \<lparr>ev_nv = NV_READY, ev_mon = t, ev_cmd = c, ev_commitOk = True\<rparr>"

definition all_ok :: subsystem_results where
  "all_ok = \<lparr>ok_CryptStartup = True, ok_HierarchyStartup = True, ok_PCRStartup = True,
     ok_CommandAuditStartup = True, ok_ActStartup = True, ok_SessionStartup = True,
     ok_ObjectStartup = True, ok_NvEntityStartup = True\<rparr>"

fun da_exec :: "da_env \<Rightarrow> da_event list \<Rightarrow> tpm \<Rightarrow> tpm outcome" where
  "da_exec env [] s = Ret s"
| "da_exec env (e # es) s = obind (da_event_exec env e s) (\<lambda>(rc, s1). da_exec env es s1)"

definition power_cycle :: "u64 \<Rightarrow> tpm \<Rightarrow> tpm outcome" where
  "power_cycle t s = obind (power_on t s) (\<lambda>s0. obind (exec_begin NV_READY t s0) (\<lambda>s1.
     obind (TPM2_Startup all_ok t 0 TPM_SU_CLEAR s1) (\<lambda>(rc, s2). exec_end True s2)))"

definition demo_trace :: "da_event list" where
  "demo_trace = [demo_ev (PwAuth 0x80000000 [7]) 90010, demo_ev (PwAuth 0x80000000 [8]) 90020,
     demo_ev (PwAuth 0x80000000 [9]) 90030]"

section \<open>Properties\<close>





text \<open>
  Self-healing is exact. With a non-zero \<^verbatim>\<open>failedTries\<close> and DA enabled, \<^verbatim>\<open>DASelfHeal\<close> lowers
  \<^verbatim>\<open>failedTries\<close> by the number of whole recovery intervals accumulated (not below 0) and leaves
  exactly the remainder of the last interval in the timer, as long as that number fits the
  \<^verbatim>\<open>UINT32\<close> it is cast to.
\<close>
theorem DASelfHeal_exact:
  assumes "recoveryTime (gp s) \<noteq> 0" "failedTries (gp s) \<noteq> 0"
    and "unat (time_ms s - selfHealTimer (go s)) div (1000 * unat (recoveryTime (gp s))) < 2 ^ 32"
  shows "unat (failedTries (gp (DASelfHeal s))) = unat (failedTries (gp s))
       - unat (time_ms s - selfHealTimer (go s)) div (1000 * unat (recoveryTime (gp s)))
    \<and> unat (time_ms s - selfHealTimer (go (DASelfHeal s)))
       = unat (time_ms s - selfHealTimer (go s)) mod (1000 * unat (recoveryTime (gp s)))"
proof -
  let ?n = "heal_ms s div (1000 * unat (recoveryTime (gp s)))"
  have n: "unat (heal_count s) = ?n"
    by (simp add: heal_count_unat div_mult2_eq)
  then have c: "unat (ucast (heal_count s) :: u32) = ?n"
    using assms(3) by (simp add: unsigned_ucast_eq heal_ms_def take_bit_nat_eq_self)
  note h = heal_tries_gp [OF assms(1,2)]
  have "unat (failedTries (gp (DASelfHeal s))) = unat (failedTries (gp s)) - ?n"
    using h(1) c by (simp add: DASelfHeal_def heal_frames)
  moreover have "heal_ms (DASelfHeal s) = heal_ms s - ?n * (1000 * unat (recoveryTime (gp s)))"
    using h(2) n by (simp add: DASelfHeal_def heal_ms_def heal_frames recovery_ms_def mult.commute)
  then have "heal_ms (DASelfHeal s) = heal_ms s mod (1000 * unat (recoveryTime (gp s)))"
    by (simp add: minus_div_mult_eq_mod)
  ultimately show ?thesis
    by (simp add: heal_ms_def DASelfHeal_frame)
qed

theorem DASelfHeal_exact_witness:
  "unat (failedTries (gp (DASelfHeal demo_tpm2))) = 20
   \<and> unat (50000 - selfHealTimer (go (DASelfHeal demo_tpm2))) = 0"
proof -
  have "time_ms demo_tpm2 = 50000" "recoveryTime (gp demo_tpm2) = 1"
    "failedTries (gp demo_tpm2) = 30" "selfHealTimer (go demo_tpm2) = 40000"
    by (simp_all add: demo_tpm2_def demo_tpm_of_def demo_gp_def demo_go_def Let_def)
  then show ?thesis
    using DASelfHeal_exact [of demo_tpm2] by simp
qed

text \<open>
  The lockout decision of \<^verbatim>\<open>CheckLockedOut\<close> for a DA-protected entity. With NV available the
  check fails exactly when \<^verbatim>\<open>failedTries\<close> has reached \<^verbatim>\<open>maxTries\<close>, and a check that passes has
  recorded in the NV image that a DA-protected value is in use (or that was recorded before) and
  leaves no failure pending. With NV not available it passes only when the use is already
  flagged, the stored state is not orderly and no earlier failure waits to be written.
\<close>
theorem CheckLockedOut_decision:
  assumes "CheckLockedOut False s = (rc, s')"
  shows "(g_NvStatus s = TPM_RC_SUCCESS \<longrightarrow>
      (rc = TPM_RC_LOCKOUT \<longleftrightarrow> maxTries (gp s) \<le> failedTries (gp s)) \<and>
      (rc \<noteq> TPM_RC_LOCKOUT \<longrightarrow> rc = TPM_RC_SUCCESS \<and> g_daUsed s' \<and> \<not> s_DAPendingOnNV s' \<and>
         (g_daUsed s \<or> orderlyState (nv_gp (s_NV s')) = SU_DA_USED_VALUE))) \<and>
    (g_NvStatus s \<noteq> TPM_RC_SUCCESS \<and> rc = TPM_RC_SUCCESS \<longrightarrow>
      s' = s \<and> g_daUsed s \<and> \<not> IS_ORDERLY (orderlyState (gp s)) \<and> \<not> s_DAPendingOnNV s \<and>
      failedTries (gp s) < maxTries (gp s))"
  using assms
  by (auto simp: CheckLockedOut_def NV_SYNC_PERSISTENT_def Let_def tpm_consts split: if_splits)

theorem CheckLockedOut_decision_witness:
  "fst (CheckLockedOut False demo_tpm) = TPM_RC_LOCKOUT \<and> fst (CheckLockedOut False demo_tpm2) = TPM_RC_SUCCESS"
  using CheckLockedOut_decision [OF surjective_pairing, of demo_tpm]
    CheckLockedOut_decision [OF surjective_pairing, of demo_tpm2]
  by (simp add: demo_tpm_def demo_tpm2_def demo_tpm_of_def demo_gp_def Let_def tpm_consts)

text \<open>
  A failure that could not be written is not lost with the power. If the stored state is
  flagged as DA-used, a power cycle and \<^verbatim>\<open>TPM2_Startup(CLEAR)\<close> count one failure more than storage
  had, whatever the TPM had in RAM; only the time since power on can heal it again.
\<close>
theorem unorderly_restart_counts:
  assumes "power_on mon s = Ret s1" "TPM2_Startup subs mon' loc TPM_SU_CLEAR s1 = Ret (rc, s2)"
    and "ok_CryptStartup subs" "g_NvStatus s = TPM_RC_SUCCESS" "loc = 0 \<or> loc = 3"
    and "orderlyState (nv_gp (storage s)) = SU_DA_USED_VALUE"
    and "recoveryTime (nv_gp (storage s)) \<noteq> 0"
    and "failedTries (nv_gp (storage s)) < maxTries (nv_gp (storage s))"
  shows "unat (failedTries (nv_gp (storage s))) + 1 \<le> unat (failedTries (gp s2))
     + unat (time_ms s2) div 1000 div unat (recoveryTime (nv_gp (storage s)))"
proof -
  note p = power_on_state [OF assms(1)]
  obtain X sd where X: "DAStartup mon' X = Ret sd"
    "gp X = (gp (startup_orderly s1))\<lparr>orderlyState := g_prevOrderlyState (startup_orderly s1)\<rparr>"
    "plat X = plat s1" "g_daUsed X = g_daUsed (startup_orderly s1)"
    "g_prevOrderlyState X = g_prevOrderlyState (startup_orderly s1)"
    "failedTries (gp s2) = failedTries (gp sd)" "time_ms s2 = time_ms sd"
    using Startup_CLEAR_DA [OF assms(2,3) _ assms(5)] p(6) assms(4) by metis
  have o: "g_prevOrderlyState (startup_orderly s1) = SU_NONE_VALUE" "g_daUsed (startup_orderly s1)"
    "gp (startup_orderly s1) = (gp s1)\<lparr>orderlyState := SU_NONE_VALUE\<rparr>"
    using assms(6) by (simp_all add: startup_orderly_def Let_def p(1) IS_ORDERLY_def tpm_consts)
  have "\<not> IS_ORDERLY SU_NONE_VALUE"
    by (simp add: IS_ORDERLY_def tpm_consts)
  then have "unat (failedTries (gp X)) + 1
    \<le> unat (failedTries (gp sd)) + unat (time_ms sd) div 1000 div unat (recoveryTime (gp X))"
    using assms(7,8) by (intro DAStartup_counts [OF X(1)]) (simp_all add: X(2-5) o p(1,5))
  then show ?thesis
    by (simp add: X o p(1))
qed

theorem unorderly_restart_counts_witness:
  "\<exists>s1 rc s2. power_on 90000 demo_tpm2 = Ret s1 \<and>
     TPM2_Startup all_ok 90000 0 TPM_SU_CLEAR s1 = Ret (rc, s2) \<and>
     unat (30 :: u32) + 1 \<le> unat (failedTries (gp s2)) + unat (time_ms s2) div 1000 div unat (1 :: u32)"
proof -
  have "(case power_on 90000 demo_tpm2 of Ret s1 \<Rightarrow>
      (case TPM2_Startup all_ok 90000 0 TPM_SU_CLEAR s1 of Ret _ \<Rightarrow> True | FailureMode \<Rightarrow> False)
      | FailureMode \<Rightarrow> False)"
    by code_simp
  then obtain s1 rc s2 where r: "power_on 90000 demo_tpm2 = Ret s1"
    "TPM2_Startup all_ok 90000 0 TPM_SU_CLEAR s1 = Ret (rc, s2)"
    by (auto split: outcome.splits)
  show ?thesis
    using unorderly_restart_counts [OF r] r
    by (simp add: demo_tpm2_def demo_tpm_of_def demo_gp_def Let_def tpm_consts all_ok_def)
qed

text \<open>
  An orderly restart keeps the accumulated healing time. When \<^verbatim>\<open>TPM2_Shutdown(CLEAR)\<close> is the
  last command before the power cycle, the timers that \<^verbatim>\<open>DAStartup\<close> restores count from where they
  were at the shutdown.
\<close>
theorem orderly_restart_keeps_heal_time:
  assumes "TPM2_Shutdown TPM_SU_CLEAR s = (TPM_RC_SUCCESS, s1)" "\<not> g_clearOrderly s"
    and "exec_end True s1 = Ret s2" "power_on mon s2 = Ret s3" "g_NvStatus s = TPM_RC_SUCCESS"
  shows "unat (time_ms s3 - selfHealTimer (go (DAStartup_timers (startup_orderly s3))))
       = unat (time_ms s - selfHealTimer (go s))
    \<and> unat (time_ms s3 - lockoutTimer (go (DAStartup_timers (startup_orderly s3))))
       = unat (time_ms s - lockoutTimer (go s))"
proof -
  have s1: "s1 = NV_SYNC_PERSISTENT cp_orderlyState (NvWrite_go (s\<lparr>gp := (gp s)\<lparr>orderlyState :=
      TPM_SU_CLEAR\<rparr>, g_daUsed := False, go := (go s)\<lparr>go_time := time_ms s\<rparr>\<rparr>))"
    using assms(1,5) by (auto simp: TPM2_Shutdown_def Let_def tpm_consts split: if_splits)
  then have "storage s2 = s_NV s1"
    using assms(2,3) by (auto simp: exec_end_def Let_def NV_SYNC_PERSISTENT_def NvWrite_go_def)
  then have st: "nv_go (storage s2) = (go s)\<lparr>go_time := time_ms s\<rparr>"
    "orderlyState (nv_gp (storage s2)) = TPM_SU_CLEAR"
    by (simp_all add: s1 NV_SYNC_PERSISTENT_def NvWrite_go_def)
  note p = power_on_state [OF assms(4)]
  have "NV_IS_ORDERLY (startup_orderly s3)"
    using st(2) by (simp add: startup_orderly_def Let_def p(1) IS_ORDERLY_def tpm_consts)
  then show ?thesis
    using p(4,5) by (simp add: DAStartup_timers_def plat_TimerWasReset_def Let_def p(2) st(1))
qed

theorem orderly_restart_keeps_heal_time_witness:
  "\<exists>s2 s3. exec_end True (snd (TPM2_Shutdown TPM_SU_CLEAR demo_tpm)) = Ret s2 \<and>
     power_on 90000 s2 = Ret s3 \<and>
     unat (time_ms s3 - selfHealTimer (go (DAStartup_timers (startup_orderly s3))))
       = unat (50000 - 40000 :: u64)"
proof -
  let ?s1 = "snd (TPM2_Shutdown TPM_SU_CLEAR demo_tpm)"
  have "(case exec_end True ?s1 of Ret s2 \<Rightarrow>
      (case power_on 90000 s2 of Ret _ \<Rightarrow> True | FailureMode \<Rightarrow> False) | FailureMode \<Rightarrow> False)"
    by code_simp
  then obtain s2 s3 where r: "exec_end True ?s1 = Ret s2" "power_on 90000 s2 = Ret s3"
    by (auto split: outcome.splits)
  have "TPM2_Shutdown TPM_SU_CLEAR demo_tpm = (TPM_RC_SUCCESS, ?s1)"
    by (simp add: TPM2_Shutdown_def demo_tpm_def demo_tpm_of_def Let_def tpm_consts)
  from orderly_restart_keeps_heal_time [OF this _ r] r show ?thesis
    by (simp add: demo_tpm_def demo_tpm_of_def demo_go_def Let_def tpm_consts)
qed

text \<open>
  Healing time is over-credited after a shutdown that is not followed at once by the power
  cycle. The demonstration state is in lockout with 32 failed tries and a recovery time of 1000
  seconds. After \<^verbatim>\<open>TPM2_Shutdown(CLEAR)\<close>, two commands at 1000-second distance heal one try each
  and leave 30; the power cycle then subtracts the older \<^verbatim>\<open>go.time\<close> from the newer timer, the
  unsigned difference of \<^verbatim>\<open>DASelfHeal\<close> wraps, and all remaining failed tries are gone.
\<close>
theorem shutdown_then_heal_clears_lockout:
  "obind (da_exec demo_env [demo_ev (Shutdown TPM_SU_CLEAR) 90000, demo_ev Idle 1090000,
       demo_ev Idle 2090000] demo_tpm)
     (\<lambda>s. obind (power_cycle 2091000 s) (\<lambda>s'. Ret (failedTries (gp s), failedTries (gp s'))))
   = Ret (30, 0)"
  by code_simp

text \<open>
  A failure is lost when the power cycle began in lockout. \<^verbatim>\<open>DAStartup\<close> leaves \<^verbatim>\<open>g_daUsed\<close> set
  when \<^verbatim>\<open>failedTries\<close> is at its maximum although the stored state no longer says so. After two
  tries have healed, a wrong value is compared while NV is unavailable (31 failed tries in RAM);
  the next power cycle starts from 30 and adds nothing.
\<close>
theorem stale_daUsed_loses_failure:
  "obind (power_cycle 2091000 demo_tpm) (\<lambda>s1.
   obind (da_exec demo_env [demo_ev Idle 4091000,
       (demo_ev (PwAuth 0x80000000 [7]) 4092000)\<lparr>ev_nv := NV_WRITEFAILURE\<rparr>] s1) (\<lambda>s2.
   obind (power_cycle 90000 s2) (\<lambda>s3.
     Ret (failedTries (gp s1), g_daUsed s1, orderlyState (nv_gp (storage s1)),
          failedTries (gp s2), failedTries (gp s3)))))
   = Ret (32, True, SU_NONE_VALUE, 31, 30)"
  by code_simp

text \<open>
  The clock does not run back and its NV image does not fall behind. From a state in which the
  two agree, every sequence of commands keeps the image posted to NV in the update interval of
  the clock or a later one, and a \<^verbatim>\<open>TPM2_ClockSet\<close> that would lower the clock is refused.
\<close>
theorem clock_nv_image:
  assumes "clock (go s) = clock (nv_go (s_NV s))" "(da_step env)\<^sup>*\<^sup>* s s'"
  shows "(clock (go s') OR CLOCK_UPDATE_MASK) \<le> (clock (nv_go (s_NV s')) OR CLOCK_UPDATE_MASK)
    \<and> (newTime < clock (go s') \<longrightarrow>
        TPM2_ClockSet newTime s' = Ret (TPM_RC_VALUE + (TPM_RC_P + TPM_RC_1), s'))"
  using da.reachable_inv [OF assms] by (simp add: nv_clock_ok_def TPM2_ClockSet_def)

theorem clock_nv_image_witness:
  "TPM2_ClockSet 49999 demo_tpm = Ret (TPM_RC_VALUE + (TPM_RC_P + TPM_RC_1), demo_tpm)"
  using clock_nv_image [of demo_tpm demo_env demo_tpm 49999]
  by (simp add: demo_tpm_def demo_tpm_of_def demo_go_def Let_def)

end
