(* ===== verification/Hierarchy_Tickets.thy ===== *)
theory Hierarchy_Tickets
  imports Session_Manager
begin

text \<open>
  Hierarchies and tickets: \<^verbatim>\<open>Hierarchy.c\<close> and \<^verbatim>\<open>Ticket.c\<close>. The state has the members of \<open>gp\<close>,
  \<open>gc\<close> and \<open>gr\<close> these files use and the image of the persistent ones that was posted to NV.
  The build has \<^verbatim>\<open>FW_LIMITED_SUPPORT\<close> and \<^verbatim>\<open>SVN_LIMITED_SUPPORT\<close> off. The HMAC over
  \<^verbatim>\<open>CONTEXT_INTEGRITY_HASH_ALG\<close>, the random source and the profile's seed compatibility level are
  arguments.
\<close>

section \<open>Constants\<close>

definition TPM_RH_ENDORSEMENT :: TPM_HANDLE where [tpm_consts]: "TPM_RH_ENDORSEMENT = 0x4000000B"
definition TPM_RH_PLATFORM :: TPM_HANDLE where [tpm_consts]: "TPM_RH_PLATFORM = 0x4000000C"
definition TPM_RH_PLATFORM_NV :: TPM_HANDLE where [tpm_consts]: "TPM_RH_PLATFORM_NV = 0x4000000D"
definition TPM_RH_FW_OWNER :: TPM_HANDLE where [tpm_consts]: "TPM_RH_FW_OWNER = 0x40000140"
definition TPM_RH_FW_ENDORSEMENT :: TPM_HANDLE where [tpm_consts]: "TPM_RH_FW_ENDORSEMENT = 0x40000141"
definition TPM_RH_FW_PLATFORM :: TPM_HANDLE where [tpm_consts]: "TPM_RH_FW_PLATFORM = 0x40000142"
definition TPM_RH_FW_NULL :: TPM_HANDLE where [tpm_consts]: "TPM_RH_FW_NULL = 0x40000143"
definition TPM_RH_SVN_OWNER_BASE :: TPM_HANDLE where [tpm_consts]: "TPM_RH_SVN_OWNER_BASE = 0x40010000"
definition TPM_RH_SVN_ENDORSEMENT_BASE :: TPM_HANDLE where
  [tpm_consts]: "TPM_RH_SVN_ENDORSEMENT_BASE = 0x40020000"
definition TPM_RH_SVN_PLATFORM_BASE :: TPM_HANDLE where
  [tpm_consts]: "TPM_RH_SVN_PLATFORM_BASE = 0x40030000"
definition TPM_RH_SVN_NULL_BASE :: TPM_HANDLE where [tpm_consts]: "TPM_RH_SVN_NULL_BASE = 0x40040000"
definition TPM_RC_FW_LIMITED :: TPM_RC where [tpm_consts]: "TPM_RC_FW_LIMITED = 0x0A8"
definition TPM_RC_SVN_LIMITED :: TPM_RC where [tpm_consts]: "TPM_RC_SVN_LIMITED = 0x0A9"
definition TPM_ALG_NULL :: TPM_ALG_ID where [tpm_consts]: "TPM_ALG_NULL = 0x0010"
definition TPM_ST_CREATION :: TPM_ST where [tpm_consts]: "TPM_ST_CREATION = 0x8021"
definition TPM_ST_VERIFIED :: TPM_ST where [tpm_consts]: "TPM_ST_VERIFIED = 0x8022"
definition TPM_ST_AUTH_SECRET :: TPM_ST where [tpm_consts]: "TPM_ST_AUTH_SECRET = 0x8023"
definition TPM_ST_HASHCHECK :: TPM_ST where [tpm_consts]: "TPM_ST_HASHCHECK = 0x8024"
definition TPM_ST_AUTH_SIGNED :: TPM_ST where [tpm_consts]: "TPM_ST_AUTH_SIGNED = 0x8025"
definition TPM_GENERATED_VALUE :: u32 where [tpm_consts]: "TPM_GENERATED_VALUE = 0xFF544347"
definition PRIMARY_SEED_SIZE :: nat where [tpm_consts]: "PRIMARY_SEED_SIZE = 64"
definition PROOF_SIZE :: nat where [tpm_consts]: "PROOF_SIZE = 64"

section \<open>State\<close>

record hier_gp =
  disableClear :: bool
  EPSeed :: bytes
  SPSeed :: bytes
  PPSeed :: bytes
  EPSeedCompatLevel :: u8
  SPSeedCompatLevel :: u8
  PPSeedCompatLevel :: u8
  phProof :: bytes
  shProof :: bytes
  ehProof :: bytes
  ownerAuth :: bytes
  endorsementAuth :: bytes
  lockoutAuth :: bytes
  ownerAlg :: TPM_ALG_ID
  ownerPolicy :: bytes
  endorsementAlg :: TPM_ALG_ID
  endorsementPolicy :: bytes
  lockoutAlg :: TPM_ALG_ID
  lockoutPolicy :: bytes

record hier_state =
  hgp :: hier_gp
  nv_hgp :: hier_gp
  g_phEnable :: bool
  shEnable :: bool
  ehEnable :: bool
  phEnableNV :: bool
  platformAlg :: TPM_ALG_ID
  platformPolicy :: bytes
  platformAuth :: bytes
  nullProof :: bytes
  nullSeed :: bytes
  nullSeedCompatLevel :: u8

section \<open>Hierarchies\<close>

text \<open>\<open>rng i n\<close> is the \<open>i\<close>-th draw of \<open>n\<close> bytes from \<^verbatim>\<open>CryptRandomGenerate\<close>.\<close>

definition HierarchyPreInstall_Init :: "(nat \<Rightarrow> nat \<Rightarrow> bytes) \<Rightarrow> u8 \<Rightarrow> hier_state \<Rightarrow> hier_state" where
  "HierarchyPreInstall_Init rng level s =
     (let p = \<lparr>disableClear = False, EPSeed = rng 0 PRIMARY_SEED_SIZE,
        SPSeed = rng 1 PRIMARY_SEED_SIZE, PPSeed = rng 2 PRIMARY_SEED_SIZE,
        EPSeedCompatLevel = level, SPSeedCompatLevel = level, PPSeedCompatLevel = level,
        phProof = rng 3 PROOF_SIZE, shProof = rng 4 PROOF_SIZE, ehProof = rng 5 PROOF_SIZE,
        ownerAuth = [], endorsementAuth = [], lockoutAuth = [], ownerAlg = TPM_ALG_NULL,
        ownerPolicy = [], endorsementAlg = TPM_ALG_NULL, endorsementPolicy = [],
        lockoutAlg = TPM_ALG_NULL, lockoutPolicy = []\<rparr>
      in s\<lparr>hgp := p, nv_hgp := p\<rparr>)"

definition HierarchyStartup ::
  "(nat \<Rightarrow> nat \<Rightarrow> bytes) \<Rightarrow> u8 \<Rightarrow> STARTUP_TYPE \<Rightarrow> hier_state \<Rightarrow> hier_state" where
  "HierarchyStartup rng level type s =
     (let s1 = s\<lparr>g_phEnable := True\<rparr>;
          s2 = (if type \<noteq> SU_RESUME
                then s1\<lparr>platformAuth := [], platformPolicy := [], platformAlg := TPM_ALG_NULL,
                        shEnable := True, ehEnable := True, phEnableNV := True\<rparr>
                else s1)
      in if type \<noteq> SU_RESTART \<and> type \<noteq> SU_RESUME
         then s2\<lparr>nullProof := rng 0 PROOF_SIZE, nullSeed := rng 1 PRIMARY_SEED_SIZE,
                 nullSeedCompatLevel := level\<rparr>
         else s2)"

datatype HIERARCHY_MODIFIER = HM_NONE | HM_FW_LIMITED | HM_SVN_LIMITED u16

definition DecomposeHandle :: "TPM_HANDLE \<Rightarrow> TPM_HANDLE \<times> HIERARCHY_MODIFIER" where
  "DecomposeHandle handle =
     (let base = handle AND 0xFFFF0000; svn = HM_SVN_LIMITED (ucast (handle AND 0x0000FFFF)) in
      if handle = TPM_RH_FW_OWNER then (TPM_RH_OWNER, HM_FW_LIMITED)
      else if handle = TPM_RH_FW_ENDORSEMENT then (TPM_RH_ENDORSEMENT, HM_FW_LIMITED)
      else if handle = TPM_RH_FW_PLATFORM then (TPM_RH_PLATFORM, HM_FW_LIMITED)
      else if handle = TPM_RH_FW_NULL then (TPM_RH_NULL, HM_FW_LIMITED)
      else if base = TPM_RH_SVN_OWNER_BASE then (TPM_RH_OWNER, svn)
      else if base = TPM_RH_SVN_ENDORSEMENT_BASE then (TPM_RH_ENDORSEMENT, svn)
      else if base = TPM_RH_SVN_PLATFORM_BASE then (TPM_RH_PLATFORM, svn)
      else if base = TPM_RH_SVN_NULL_BASE then (TPM_RH_NULL, svn)
      else (handle, HM_NONE))"

fun GetAdditionalSecret :: "HIERARCHY_MODIFIER \<Rightarrow> TPM_RC + bytes" where
  "GetAdditionalSecret HM_FW_LIMITED = Inl TPM_RC_FW_LIMITED"
| "GetAdditionalSecret (HM_SVN_LIMITED v) = Inl TPM_RC_SVN_LIMITED"
| "GetAdditionalSecret HM_NONE = Inr []"

text \<open>With both kinds of limited hierarchy off the additional secret is always empty.\<close>

definition MixAdditionalSecret ::
  "(bytes \<Rightarrow> bytes \<Rightarrow> bytes) \<Rightarrow> HIERARCHY_MODIFIER \<Rightarrow> bytes \<Rightarrow> TPM_RC + bytes" where
  "MixAdditionalSecret kdfa modifier base_secret =
     (case GetAdditionalSecret modifier of
        Inl rc \<Rightarrow> Inl rc
      | Inr additional \<Rightarrow> Inr (if additional = [] then base_secret else kdfa base_secret additional))"

definition base_proof :: "hier_state \<Rightarrow> TPM_HANDLE \<Rightarrow> bytes" where
  "base_proof s h = (if h = TPM_RH_PLATFORM then phProof (hgp s)
     else if h = TPM_RH_ENDORSEMENT then ehProof (hgp s)
     else if h = TPM_RH_OWNER then shProof (hgp s) else nullProof s)"

definition HierarchyGetProof ::
  "(bytes \<Rightarrow> bytes \<Rightarrow> bytes) \<Rightarrow> hier_state \<Rightarrow> TPM_HANDLE \<Rightarrow> TPM_RC + bytes" where
  "HierarchyGetProof kdfa s hierarchy =
     (case DecomposeHandle hierarchy of (h, m) \<Rightarrow> MixAdditionalSecret kdfa m (base_proof s h))"

definition HierarchyGetPrimarySeed ::
  "(bytes \<Rightarrow> bytes \<Rightarrow> bytes) \<Rightarrow> hier_state \<Rightarrow> TPM_HANDLE \<Rightarrow> TPM_RC + bytes" where
  "HierarchyGetPrimarySeed kdfa s hierarchy =
     (case DecomposeHandle hierarchy of (h, m) \<Rightarrow> MixAdditionalSecret kdfa m
       (if h = TPM_RH_PLATFORM then PPSeed (hgp s) else if h = TPM_RH_OWNER then SPSeed (hgp s)
        else if h = TPM_RH_ENDORSEMENT then EPSeed (hgp s) else nullSeed s))"

definition HierarchyGetPrimarySeedCompatLevel :: "u8 \<Rightarrow> hier_state \<Rightarrow> TPM_HANDLE \<Rightarrow> u8" where
  "HierarchyGetPrimarySeedCompatLevel level s hierarchy =
     (let h = fst (DecomposeHandle hierarchy) in
      if h = TPM_RH_PLATFORM then PPSeedCompatLevel (hgp s)
      else if h = TPM_RH_OWNER then SPSeedCompatLevel (hgp s)
      else if h = TPM_RH_ENDORSEMENT then EPSeedCompatLevel (hgp s)
      else if h = TPM_RH_NULL then nullSeedCompatLevel s else level)"

definition ValidateHierarchy :: "hier_state \<Rightarrow> TPM_HANDLE \<Rightarrow> TPM_RC" where
  "ValidateHierarchy s hierarchy =
     (case DecomposeHandle hierarchy of (h, m) \<Rightarrow>
        (case m of
           HM_FW_LIMITED \<Rightarrow> TPM_RC_FW_LIMITED
         | HM_SVN_LIMITED v \<Rightarrow> TPM_RC_SVN_LIMITED
         | HM_NONE \<Rightarrow>
             if h = TPM_RH_PLATFORM then if g_phEnable s then TPM_RC_SUCCESS else TPM_RC_HIERARCHY
             else if h = TPM_RH_OWNER then if shEnable s then TPM_RC_SUCCESS else TPM_RC_HIERARCHY
             else if h = TPM_RH_ENDORSEMENT
             then if ehEnable s then TPM_RC_SUCCESS else TPM_RC_HIERARCHY
             else if h = TPM_RH_NULL then TPM_RC_SUCCESS else TPM_RC_VALUE))"

definition HierarchyIsEnabled :: "hier_state \<Rightarrow> TPM_HANDLE \<Rightarrow> bool" where
  "HierarchyIsEnabled s hierarchy \<longleftrightarrow> ValidateHierarchy s hierarchy = TPM_RC_SUCCESS"

definition HierarchyNormalizeHandle :: "TPM_HANDLE \<Rightarrow> TPM_HANDLE" where
  "HierarchyNormalizeHandle handle = fst (DecomposeHandle handle)"

definition HierarchyIsFirmwareLimited :: "TPM_HANDLE \<Rightarrow> bool" where
  "HierarchyIsFirmwareLimited handle \<longleftrightarrow> snd (DecomposeHandle handle) = HM_FW_LIMITED"

definition HierarchyIsSvnLimited :: "TPM_HANDLE \<Rightarrow> bool" where
  "HierarchyIsSvnLimited handle \<longleftrightarrow>
     (case snd (DecomposeHandle handle) of HM_SVN_LIMITED v \<Rightarrow> True | _ \<Rightarrow> False)"

section \<open>Tickets\<close>

text \<open>Integers enter a digest in canonical (big-endian) form.\<close>

fun be :: "nat \<Rightarrow> 'a::len word \<Rightarrow> bytes" where
  "be 0 w = []"
| "be (Suc n) w = ucast (drop_bit (8 * n) w) # be n w"

record TPMT_TK =
  tk_tag :: TPM_ST
  tk_hierarchy :: TPM_HANDLE
  tk_digest :: bytes

definition TicketIsSafe :: "bytes \<Rightarrow> bool" where
  "TicketIsSafe buffer \<longleftrightarrow> \<not> length buffer < 4 \<and> take 4 buffer \<noteq> be 4 TPM_GENERATED_VALUE"

text \<open>
  What the ticket functions call: the KDF, and the HMAC of \<^verbatim>\<open>CONTEXT_INTEGRITY_HASH_ALG\<close> (key,
  data); and what they read of the global state: epoch and reset count.
\<close>

record ticket_env =
  te_kdfa :: "bytes \<Rightarrow> bytes \<Rightarrow> bytes"
  te_hmac :: "bytes \<Rightarrow> bytes \<Rightarrow> bytes"
  te_timeEpoch :: u32
  te_totalResetCount :: u64

definition ticket_for ::
  "ticket_env \<Rightarrow> hier_state \<Rightarrow> TPM_ST \<Rightarrow> TPM_HANDLE \<Rightarrow> bytes \<Rightarrow> TPM_RC + TPMT_TK" where
  "ticket_for env s tag hierarchy body =
     (case HierarchyGetProof (te_kdfa env) s hierarchy of
        Inl rc \<Rightarrow> Inl rc
      | Inr proof \<Rightarrow> Inr \<lparr>tk_tag = tag, tk_hierarchy = hierarchy,
                         tk_digest = te_hmac env proof (be 2 tag @ body)\<rparr>)"

definition TicketComputeVerified ::
  "ticket_env \<Rightarrow> hier_state \<Rightarrow> TPM_HANDLE \<Rightarrow> bytes \<Rightarrow> bytes \<Rightarrow> TPM_RC + TPMT_TK" where
  "TicketComputeVerified env s hierarchy digest keyName =
     ticket_for env s TPM_ST_VERIFIED hierarchy (digest @ keyName)"

definition TicketComputeAuth ::
  "ticket_env \<Rightarrow> hier_state \<Rightarrow> TPM_ST \<Rightarrow> TPM_HANDLE \<Rightarrow> u64 \<Rightarrow> bool \<Rightarrow> bytes \<Rightarrow> bytes \<Rightarrow> bytes
     \<Rightarrow> TPM_RC + TPMT_TK" where
  "TicketComputeAuth env s type hierarchy tmo expiresOnReset cpHashA policyRef entityName =
     ticket_for env s type hierarchy (cpHashA @ policyRef @ entityName @ be 8 tmo @
       (if tmo \<noteq> 0
        then be 4 (te_timeEpoch env) @ (if expiresOnReset then be 8 (te_totalResetCount env) else [])
        else []))"

definition TicketComputeHashCheck ::
  "ticket_env \<Rightarrow> hier_state \<Rightarrow> TPM_HANDLE \<Rightarrow> TPM_ALG_ID \<Rightarrow> bytes \<Rightarrow> TPM_RC + TPMT_TK" where
  "TicketComputeHashCheck env s hierarchy hashAlg digest =
     ticket_for env s TPM_ST_HASHCHECK hierarchy (be 2 hashAlg @ digest)"

definition TicketComputeCreation ::
  "ticket_env \<Rightarrow> hier_state \<Rightarrow> TPM_HANDLE \<Rightarrow> bytes option \<Rightarrow> bytes \<Rightarrow> TPM_RC + TPMT_TK" where
  "TicketComputeCreation env s hierarchy name creation =
     ticket_for env s TPM_ST_CREATION hierarchy
       ((case name of None \<Rightarrow> [] | Some n \<Rightarrow> n) @ creation)"

section \<open>Lemmas\<close>

lemma be_length [simp]: "length (be n w) = n"
  by (induction n) simp_all

lemma be2_eq: "be 2 w = [ucast (drop_bit 8 w), ucast w]"
  by (simp add: numeral_2_eq_2)

lemma be2_unat:
  "unat (ucast (drop_bit 8 w) :: u8) * 256 + unat (ucast w :: u8) = unat (w :: u16)"
proof -
  have "unat (ucast (drop_bit 8 w) :: u8) = unat w div 256 mod 256"
    by (simp add: unsigned_ucast_eq drop_bit_eq_div take_bit_eq_mod unat_div)
  moreover have "unat (ucast w :: u8) = unat w mod 256"
    by (simp add: unsigned_ucast_eq take_bit_eq_mod)
  moreover have "unat w div 256 < 256"
    using unsigned_less [where 'a = nat, of w] by (simp add: less_mult_imp_div_less)
  ultimately show ?thesis by simp
qed

lemma be2_inject: "be 2 v = be 2 (w :: u16) \<Longrightarrow> v = w"
  using be2_unat [of v] be2_unat [of w] by (simp add: be2_eq word_unat_eq_iff)

lemma be2_append_inject: "be 2 v @ xs = be 2 (w :: u16) @ ys \<Longrightarrow> v = w \<and> xs = ys"
  by (auto dest: be2_inject)

text \<open>
  An ideal HMAC: no two inputs collide under one key. Only the binding statements assume it.
\<close>

definition hmac_collision_free :: "ticket_env \<Rightarrow> bool" where
  "hmac_collision_free env \<longleftrightarrow> (\<forall>k m m'. te_hmac env k m = te_hmac env k m' \<longrightarrow> m = m')"

lemma ticket_for_binds:
  assumes "hmac_collision_free env"
    and "ticket_for env s tag h body = Inr t" "ticket_for env s tag' h body' = Inr t'"
    and "tk_digest t = tk_digest t'"
  shows "tag = tag' \<and> body = body'"
proof -
  have "be 2 tag @ body = be 2 tag' @ body'"
    using assms by (fastforce simp: ticket_for_def hmac_collision_free_def split: sum.splits)
  then show ?thesis by (rule be2_append_inject)
qed

lemma HierarchyGetProof_cases:
  "HierarchyGetProof k s h = (case snd (DecomposeHandle h) of
      HM_NONE \<Rightarrow> Inr (base_proof s h) | HM_FW_LIMITED \<Rightarrow> Inl TPM_RC_FW_LIMITED
    | HM_SVN_LIMITED v \<Rightarrow> Inl TPM_RC_SVN_LIMITED)"
  by (simp add: HierarchyGetProof_def DecomposeHandle_def MixAdditionalSecret_def Let_def)

section \<open>Properties\<close>

text \<open>
  Hierarchy handles are decided consistently. A firmware- or SVN-limited handle is refused with
  its own code by the validation, the proof and the primary seed alike; every other handle gets
  the proof of its base hierarchy, and it is enabled exactly when it is one of the four
  hierarchies and its enable flag is set.
\<close>
theorem hierarchy_decisions_agree:
  "(HierarchyIsFirmwareLimited h \<longrightarrow> ValidateHierarchy s h = TPM_RC_FW_LIMITED \<and>
      HierarchyGetProof k s h = Inl TPM_RC_FW_LIMITED \<and>
      HierarchyGetPrimarySeed k s h = Inl TPM_RC_FW_LIMITED) \<and>
   (HierarchyIsSvnLimited h \<longrightarrow> ValidateHierarchy s h = TPM_RC_SVN_LIMITED \<and>
      HierarchyGetProof k s h = Inl TPM_RC_SVN_LIMITED \<and>
      HierarchyGetPrimarySeed k s h = Inl TPM_RC_SVN_LIMITED) \<and>
   (\<not> HierarchyIsFirmwareLimited h \<and> \<not> HierarchyIsSvnLimited h \<longrightarrow>
      HierarchyNormalizeHandle h = h \<and> HierarchyGetProof k s h = Inr (base_proof s h) \<and>
      (HierarchyIsEnabled s h \<longleftrightarrow> h = TPM_RH_NULL \<or> h = TPM_RH_PLATFORM \<and> g_phEnable s \<or>
         h = TPM_RH_OWNER \<and> shEnable s \<or> h = TPM_RH_ENDORSEMENT \<and> ehEnable s))"
proof -
  have codes: "TPM_RC_HIERARCHY \<noteq> TPM_RC_SUCCESS" "TPM_RC_VALUE \<noteq> TPM_RC_SUCCESS"
    "TPM_RH_NULL \<noteq> TPM_RH_PLATFORM" "TPM_RH_NULL \<noteq> TPM_RH_OWNER" "TPM_RH_NULL \<noteq> TPM_RH_ENDORSEMENT"
    "TPM_RH_OWNER \<noteq> TPM_RH_PLATFORM" "TPM_RH_ENDORSEMENT \<noteq> TPM_RH_PLATFORM"
    "TPM_RH_OWNER \<noteq> TPM_RH_ENDORSEMENT"
    by (simp_all add: tpm_consts)
  have base: "snd (DecomposeHandle h) = HM_NONE \<Longrightarrow> fst (DecomposeHandle h) = h"
    by (auto simp: DecomposeHandle_def Let_def split: if_splits)
  show ?thesis
    using codes base
    by (cases "snd (DecomposeHandle h)"; cases "DecomposeHandle h")
      (auto simp: HierarchyIsFirmwareLimited_def HierarchyIsSvnLimited_def ValidateHierarchy_def
        HierarchyGetProof_cases HierarchyGetPrimarySeed_def MixAdditionalSecret_def
        HierarchyNormalizeHandle_def HierarchyIsEnabled_def)
qed

definition demo_hier :: hier_state where
  "demo_hier =
     (let p = \<lparr>disableClear = False, EPSeed = [1], SPSeed = [2], PPSeed = [3],
        EPSeedCompatLevel = 1, SPSeedCompatLevel = 1, PPSeedCompatLevel = 1, phProof = [4],
        shProof = [5], ehProof = [6], ownerAuth = [], endorsementAuth = [], lockoutAuth = [],
        ownerAlg = TPM_ALG_NULL, ownerPolicy = [], endorsementAlg = TPM_ALG_NULL,
        endorsementPolicy = [], lockoutAlg = TPM_ALG_NULL, lockoutPolicy = []\<rparr>
      in \<lparr>hgp = p, nv_hgp = p, g_phEnable = True, shEnable = True, ehEnable = False,
          phEnableNV = True, platformAlg = TPM_ALG_NULL, platformPolicy = [], platformAuth = [],
          nullProof = [7], nullSeed = [8], nullSeedCompatLevel = 1\<rparr>)"

definition demo_ticket_env :: ticket_env where
  "demo_ticket_env = \<lparr>te_kdfa = (\<lambda>a b. a @ b), te_hmac = (\<lambda>k m. k @ m), te_timeEpoch = 3,
     te_totalResetCount = 9\<rparr>"

theorem hierarchy_decisions_agree_witness:
  "ValidateHierarchy demo_hier TPM_RH_FW_OWNER = TPM_RC_FW_LIMITED
   \<and> ValidateHierarchy demo_hier (TPM_RH_SVN_OWNER_BASE + 5) = TPM_RC_SVN_LIMITED
   \<and> HierarchyIsEnabled demo_hier TPM_RH_OWNER \<and> \<not> HierarchyIsEnabled demo_hier TPM_RH_ENDORSEMENT"
proof -
  have "HierarchyIsFirmwareLimited TPM_RH_FW_OWNER" "HierarchyIsSvnLimited (TPM_RH_SVN_OWNER_BASE + 5)"
    "\<not> HierarchyIsFirmwareLimited TPM_RH_OWNER" "\<not> HierarchyIsSvnLimited TPM_RH_OWNER"
    "\<not> HierarchyIsFirmwareLimited TPM_RH_ENDORSEMENT" "\<not> HierarchyIsSvnLimited TPM_RH_ENDORSEMENT"
    by code_simp+
  moreover have "shEnable demo_hier" "\<not> ehEnable demo_hier" "TPM_RH_ENDORSEMENT \<noteq> TPM_RH_NULL"
    "TPM_RH_ENDORSEMENT \<noteq> TPM_RH_PLATFORM" "TPM_RH_ENDORSEMENT \<noteq> TPM_RH_OWNER"
    by (simp_all add: demo_hier_def Let_def tpm_consts)
  ultimately show ?thesis
    using hierarchy_decisions_agree by blast
qed



text \<open>
  An authorization ticket does not separate its parts. The HMAC covers the concatenation of
  \<^verbatim>\<open>cpHashA\<close>, \<^verbatim>\<open>policyRef\<close> and the entity name without lengths, so moving bytes from the end of
  one to the start of the next gives the same ticket.
\<close>
theorem auth_ticket_concatenation:
  "TicketComputeAuth env s ty h t e (a @ b) c n = TicketComputeAuth env s ty h t e a (b @ c) n
   \<and> TicketComputeAuth env s ty h t e a (b @ c) n = TicketComputeAuth env s ty h t e a b (c @ n)"
  by (simp add: TicketComputeAuth_def)

end
