(* ===== verification/Object_Slots.thy ===== *)
theory Object_Slots
  imports Hierarchy_Tickets
begin

text \<open>
  The transient object slots, \<^verbatim>\<open>Object.c\<close>: the array \<^verbatim>\<open>s_objects\<close> of \<^verbatim>\<open>MAX_LOADED_OBJECTS\<close>
  entries, allocation, lookup, loading, sequence objects, flushing and the capability queries.
  \<^verbatim>\<open>OBJECT\<close> and \<^verbatim>\<open>HASH_OBJECT\<close> share the memory of a slot; the record has the members of both.
  As in the source, the authorization of a sequence object lies in the authPolicy member of the
  public area. A pointer to a slot is its index; a null pointer is \<open>None\<close>. Hash states are the
  algorithm and the data hashed so far. The validation functions that \<^verbatim>\<open>ObjectLoad\<close> calls, the
  hash function, the marshaling of public areas and the NV search are arguments.
\<close>

section \<open>Data\<close>

definition MAX_LOADED_OBJECTS :: nat where [tpm_consts]: "MAX_LOADED_OBJECTS = 3"
definition TRANSIENT_FIRST :: TPM_HANDLE where [tpm_consts]: "TRANSIENT_FIRST = 0x80000000"
definition PLATFORM_PERSISTENT :: TPM_HANDLE where [tpm_consts]: "PLATFORM_PERSISTENT = 0x81800000"
definition TPM_ALG_RSA :: TPM_ALG_ID where [tpm_consts]: "TPM_ALG_RSA = 0x0001"
definition TPM_ALG_KEYEDHASH :: TPM_ALG_ID where [tpm_consts]: "TPM_ALG_KEYEDHASH = 0x0008"
definition TPM_ALG_ECC :: TPM_ALG_ID where [tpm_consts]: "TPM_ALG_ECC = 0x0023"
definition TPM_ALG_SYMCIPHER :: TPM_ALG_ID where [tpm_consts]: "TPM_ALG_SYMCIPHER = 0x0025"
definition TPM_CC_EvictControl :: TPM_CC where [tpm_consts]: "TPM_CC_EvictControl = 0x00000120"

record TPMA_OBJECT =
  ta_fixedTPM :: bool
  ta_stClear :: bool
  ta_fixedParent :: bool
  ta_sensitiveDataOrigin :: bool
  ta_userWithAuth :: bool
  ta_adminWithPolicy :: bool
  ta_firmwareLimited :: bool
  ta_svnLimited :: bool
  ta_noDA :: bool
  ta_encryptedDuplication :: bool
  ta_restricted :: bool
  ta_decrypt :: bool
  ta_sign :: bool
  ta_x509sign :: bool

record OBJECT_ATTRIBUTES =
  publicOnly :: bool
  epsHierarchy :: bool
  ppsHierarchy :: bool
  spsHierarchy :: bool
  evict :: bool
  primary :: bool
  temporary :: bool
  stClear :: bool
  hmacSeq :: bool
  hashSeq :: bool
  eventSeq :: bool
  ticketSafe :: bool
  firstBlock :: bool
  isParent :: bool
  privateExp :: bool
  slot_occupied :: bool
  derivation :: bool
  external :: bool
  pqcSeq :: bool

text \<open>
  Of the parameters of a public area the development needs those of the ML-KEM and ML-DSA types;
  \<open>unique\<close> is the public key.
\<close>

record TPMT_PUBLIC =
  pub_type :: TPM_ALG_ID
  nameAlg :: TPM_ALG_ID
  objectAttributes :: TPMA_OBJECT
  authPolicy :: bytes
  parameterSet :: u16
  allowExternalMu :: bool
  unique :: bytes

record TPMT_SENSITIVE =
  sens_auth :: bytes
  sens_seed :: bytes
  sens_key :: bytes

record PQC_SEQ_STATE =
  isSign :: bool
  keyHandle :: TPM_HANDLE
  keyType :: TPM_ALG_ID
  paramSet :: u16
  hint :: bytes
  sig_context :: bytes
  bufferUsed :: u32
  buffer :: bytes

type_synonym HASH_STATE = "TPM_ALG_ID \<times> bytes"

record OBJECT =
  o_attributes :: OBJECT_ATTRIBUTES
  publicArea :: TPMT_PUBLIC
  sensitive :: TPMT_SENSITIVE
  qualifiedName :: bytes
  evictHandle :: TPM_HANDLE
  o_name :: bytes
  hierarchy :: TPM_HANDLE
  seedCompatLevel :: u8
  hashState :: "HASH_STATE list"
  pqcState :: PQC_SEQ_STATE

record obj_state =
  s_objects :: "OBJECT list"
  g_DRTMHandle :: TPM_HANDLE

definition TPMA_OBJECT_zero :: TPMA_OBJECT where
  "TPMA_OBJECT_zero = \<lparr>ta_fixedTPM = False, ta_stClear = False, ta_fixedParent = False,
     ta_sensitiveDataOrigin = False, ta_userWithAuth = False, ta_adminWithPolicy = False,
     ta_firmwareLimited = False, ta_svnLimited = False, ta_noDA = False,
     ta_encryptedDuplication = False, ta_restricted = False, ta_decrypt = False, ta_sign = False,
     ta_x509sign = False\<rparr>"

definition OBJECT_ATTRIBUTES_zero :: OBJECT_ATTRIBUTES where
  "OBJECT_ATTRIBUTES_zero = \<lparr>publicOnly = False, epsHierarchy = False, ppsHierarchy = False,
     spsHierarchy = False, evict = False, primary = False, temporary = False, stClear = False,
     hmacSeq = False, hashSeq = False, eventSeq = False, ticketSafe = False, firstBlock = False,
     isParent = False, privateExp = False, slot_occupied = False, derivation = False,
     external = False, pqcSeq = False\<rparr>"

definition PQC_SEQ_STATE_zero :: PQC_SEQ_STATE where
  "PQC_SEQ_STATE_zero = \<lparr>isSign = False, keyHandle = 0, keyType = 0, paramSet = 0, hint = [],
     sig_context = [], bufferUsed = 0, buffer = []\<rparr>"

definition OBJECT_zero :: OBJECT where
  "OBJECT_zero = \<lparr>o_attributes = OBJECT_ATTRIBUTES_zero,
     publicArea = \<lparr>pub_type = 0, nameAlg = 0, objectAttributes = TPMA_OBJECT_zero, authPolicy = [],
       parameterSet = 0, allowExternalMu = False, unique = []\<rparr>,
     sensitive = \<lparr>sens_auth = [], sens_seed = [], sens_key = []\<rparr>, qualifiedName = [],
     evictHandle = 0, o_name = [], hierarchy = 0, seedCompatLevel = 0, hashState = [],
     pqcState = PQC_SEQ_STATE_zero\<rparr>"

section \<open>Slots\<close>

definition upd_attr :: "(OBJECT_ATTRIBUTES \<Rightarrow> OBJECT_ATTRIBUTES) \<Rightarrow> OBJECT \<Rightarrow> OBJECT" where
  "upd_attr f ob = ob\<lparr>o_attributes := f (o_attributes ob)\<rparr>"

definition ObjectFlush :: "OBJECT \<Rightarrow> OBJECT" where
  "ObjectFlush ob = upd_attr (slot_occupied_update (\<lambda>_. False)) ob"

definition ObjectSetInUse :: "OBJECT \<Rightarrow> OBJECT" where
  "ObjectSetInUse ob = upd_attr (slot_occupied_update (\<lambda>_. True)) ob"

abbreviation occ :: "OBJECT \<Rightarrow> bool" where
  "occ ob \<equiv> slot_occupied (o_attributes ob)"

definition upd_slot :: "nat \<Rightarrow> (OBJECT \<Rightarrow> OBJECT) \<Rightarrow> obj_state \<Rightarrow> obj_state" where
  "upd_slot i f s = s\<lparr>s_objects := (s_objects s)[i := f (s_objects s ! i)]\<rparr>"

definition ObjectStartup :: "obj_state \<Rightarrow> obj_state" where
  "ObjectStartup s = s\<lparr>s_objects := map ObjectFlush (s_objects s)\<rparr>"

definition ObjectCleanupEvict :: "obj_state \<Rightarrow> obj_state" where
  "ObjectCleanupEvict s = s\<lparr>s_objects :=
     map (\<lambda>ob. if evict (o_attributes ob) then ObjectFlush ob else ob) (s_objects s)\<rparr>"

definition slot_of :: "TPM_HANDLE \<Rightarrow> nat" where
  "slot_of handle = unat (handle - TRANSIENT_FIRST)"

definition handle_of :: "nat \<Rightarrow> TPM_HANDLE" where
  "handle_of i = word_of_nat i + TRANSIENT_FIRST"

definition IsObjectPresent :: "obj_state \<Rightarrow> TPM_HANDLE \<Rightarrow> bool" where
  "IsObjectPresent s handle \<longleftrightarrow>
     slot_of handle < MAX_LOADED_OBJECTS \<and> occ (s_objects s ! slot_of handle)"

definition ObjectIsSequence :: "OBJECT \<Rightarrow> bool" where
  "ObjectIsSequence ob \<longleftrightarrow> hmacSeq (o_attributes ob) \<or> hashSeq (o_attributes ob)
     \<or> eventSeq (o_attributes ob) \<or> pqcSeq (o_attributes ob)"

definition HandleToObject :: "obj_state \<Rightarrow> TPM_HANDLE \<Rightarrow> nat option outcome" where
  "HandleToObject s handle =
     (if HandleGetType handle = TPM_HT_PERMANENT then Ret None
      else if 0x80FF0000 \<le> handle \<and> handle \<le> 0x80FF00FF then Ret None
      else pAssert (slot_of handle < MAX_LOADED_OBJECTS)
        (pAssert (occ (s_objects s ! slot_of handle)) (Ret (Some (slot_of handle)))))"

definition GetQualifiedName :: "obj_state \<Rightarrow> TPM_HANDLE \<Rightarrow> bytes outcome" where
  "GetQualifiedName s handle =
     (if HandleGetType handle = TPM_HT_PERMANENT then Ret (be 4 handle)
      else if HandleGetType handle = TPM_HT_TRANSIENT
      then obind (HandleToObject s handle) (\<lambda>p. case p of
             None \<Rightarrow> Ret []
           | Some i \<Rightarrow> Ret (if nameAlg (publicArea (s_objects s ! i)) = TPM_ALG_NULL then []
                           else qualifiedName (s_objects s ! i)))
      else FailureMode)"

text \<open>
  The C functions \<open>GetHierarchy\<close> and \<open>ObjectGetPublicAttributes\<close> dereference the pointer without
  a test; for a handle that has no object the model does not return.
\<close>

definition deref :: "obj_state \<Rightarrow> nat option \<Rightarrow> OBJECT outcome" where
  "deref s p = (case p of None \<Rightarrow> FailureMode | Some i \<Rightarrow> Ret (s_objects s ! i))"

definition GetHierarchy :: "obj_state \<Rightarrow> TPM_HANDLE \<Rightarrow> TPM_HANDLE outcome" where
  "GetHierarchy s handle =
     obind (HandleToObject s handle) (\<lambda>p. obind (deref s p) (\<lambda>ob. Ret (hierarchy ob)))"

definition ObjectGetPublicAttributes :: "obj_state \<Rightarrow> TPM_HANDLE \<Rightarrow> TPMA_OBJECT outcome" where
  "ObjectGetPublicAttributes s handle = obind (HandleToObject s handle) (\<lambda>p.
     obind (deref s p) (\<lambda>ob. Ret (objectAttributes (publicArea ob))))"

definition FindEmptyObjectSlot :: "obj_state \<Rightarrow> nat option \<times> obj_state" where
  "FindEmptyObjectSlot s =
     (let i = first_index (\<lambda>ob. \<not> occ ob) (s_objects s) in
      if i < length (s_objects s)
      then (Some i, upd_slot i (\<lambda>_. OBJECT_zero\<lparr>hierarchy := TPM_RH_NULL\<rparr>) s)
      else (None, s))"

definition ObjectAllocateSlot :: "obj_state \<Rightarrow> nat option \<times> obj_state" where
  "ObjectAllocateSlot s = (case FindEmptyObjectSlot s of
      (None, s1) \<Rightarrow> (None, s1)
    | (Some i, s1) \<Rightarrow> (Some i, upd_slot i ObjectSetInUse s1))"

definition FlushObject :: "TPM_HANDLE \<Rightarrow> obj_state \<Rightarrow> obj_state outcome" where
  "FlushObject handle s = pAssert (slot_of handle < MAX_LOADED_OBJECTS)
     (Ret (upd_slot (slot_of handle) (upd_attr (\<lambda>_. OBJECT_ATTRIBUTES_zero)) s))"

definition flush_in_hierarchy :: "TPM_HANDLE \<Rightarrow> OBJECT \<Rightarrow> OBJECT" where
  "flush_in_hierarchy h ob =
     (if occ ob \<and> (h = TPM_RH_PLATFORM \<and> ppsHierarchy (o_attributes ob)
          \<or> h = TPM_RH_OWNER \<and> spsHierarchy (o_attributes ob)
          \<or> h = TPM_RH_ENDORSEMENT \<and> epsHierarchy (o_attributes ob))
      then ObjectFlush ob else ob)"

definition ObjectFlushHierarchy :: "TPM_HANDLE \<Rightarrow> obj_state \<Rightarrow> obj_state outcome" where
  "ObjectFlushHierarchy h s =
     (if h = TPM_RH_PLATFORM \<or> h = TPM_RH_OWNER \<or> h = TPM_RH_ENDORSEMENT
         \<or> (\<forall>ob \<in> set (s_objects s). \<not> occ ob)
      then Ret (s\<lparr>s_objects := map (flush_in_hierarchy h) (s_objects s)\<rparr>)
      else FailureMode)"

section \<open>Names\<close>

text \<open>\<open>hashf alg data\<close> is the digest; it is empty for \<^verbatim>\<open>TPM_ALG_NULL\<close>.\<close>

definition ObjectComputeName ::
  "(TPM_ALG_ID \<Rightarrow> bytes \<Rightarrow> bytes) \<Rightarrow> bytes \<Rightarrow> TPM_ALG_ID \<Rightarrow> bytes" where
  "ObjectComputeName hashf marshaled alg = be 2 alg @ hashf alg marshaled"

definition PublicMarshalAndComputeName ::
  "(TPM_ALG_ID \<Rightarrow> bytes \<Rightarrow> bytes) \<Rightarrow> (TPMT_PUBLIC \<Rightarrow> bytes) \<Rightarrow> TPMT_PUBLIC \<Rightarrow> bytes" where
  "PublicMarshalAndComputeName hashf marshal pub =
     (if nameAlg pub = TPM_ALG_NULL then [] else ObjectComputeName hashf (marshal pub) (nameAlg pub))"

definition ComputeQualifiedName ::
  "(TPM_ALG_ID \<Rightarrow> bytes \<Rightarrow> bytes) \<Rightarrow> obj_state \<Rightarrow> TPM_HANDLE \<Rightarrow> TPM_ALG_ID \<Rightarrow> bytes \<Rightarrow> bytes outcome" where
  "ComputeQualifiedName hashf s parentHandle alg nm =
     (if parentHandle = TPM_RH_UNASSIGNED then Ret nm
      else obind (GetQualifiedName s parentHandle) (\<lambda>parentName.
        Ret (be 2 alg @ hashf alg (parentName @ nm))))"

section \<open>Loading\<close>

definition hierarchy_attributes :: "TPM_HANDLE \<Rightarrow> OBJECT_ATTRIBUTES \<Rightarrow> OBJECT_ATTRIBUTES" where
  "hierarchy_attributes h a =
     (let n = HierarchyNormalizeHandle h in
      if n = TPM_RH_ENDORSEMENT then a\<lparr>primary := True, epsHierarchy := True\<rparr>
      else if n = TPM_RH_OWNER then a\<lparr>primary := True, spsHierarchy := True\<rparr>
      else if n = TPM_RH_PLATFORM then a\<lparr>primary := True, ppsHierarchy := True\<rparr>
      else a\<lparr>temporary := True, primary := False\<rparr>)"

definition inherit_attributes :: "OBJECT \<Rightarrow> OBJECT_ATTRIBUTES \<Rightarrow> bool \<Rightarrow> OBJECT_ATTRIBUTES" where
  "inherit_attributes parent a st =
     (let pa = o_attributes parent in
      a\<lparr>stClear := st \<or> stClear pa, epsHierarchy := epsHierarchy pa,
        spsHierarchy := spsHierarchy pa, ppsHierarchy := ppsHierarchy pa,
        temporary := temporary pa \<or> external a\<rparr>)"

definition parent_attributes :: "TPMT_PUBLIC \<Rightarrow> OBJECT_ATTRIBUTES \<Rightarrow> OBJECT_ATTRIBUTES" where
  "parent_attributes pub a =
     (if ta_restricted (objectAttributes pub) \<and> \<not> publicOnly a
         \<and> ta_decrypt (objectAttributes pub) \<and> nameAlg pub \<noteq> TPM_ALG_NULL
      then if pub_type pub = TPM_ALG_KEYEDHASH then a\<lparr>derivation := True\<rparr> else a\<lparr>isParent := True\<rparr>
      else a)"

definition ObjectSetLoadedAttributes ::
  "(TPM_ALG_ID \<Rightarrow> bytes \<Rightarrow> bytes) \<Rightarrow> nat \<Rightarrow> TPM_HANDLE \<Rightarrow> u8 \<Rightarrow> obj_state \<Rightarrow> obj_state outcome" where
  "ObjectSetLoadedAttributes hashf i parentHandle level s =
     obind (HandleToObject s parentHandle) (\<lambda>p.
       let ob = s_objects s ! i;
           st = ta_stClear (objectAttributes (publicArea ob));
           a0 = (o_attributes ob)\<lparr>stClear := st\<rparr>;
           a1 = (case p of None \<Rightarrow> hierarchy_attributes parentHandle a0
                 | Some k \<Rightarrow> inherit_attributes (s_objects s ! k) a0 st);
           h = (case p of None \<Rightarrow> parentHandle | Some k \<Rightarrow> hierarchy (s_objects s ! k));
           ob1 = ob\<lparr>seedCompatLevel := level, hierarchy := h, o_attributes := a1\<rparr>
       in if external a1
          then Ret (upd_slot i (\<lambda>_. ObjectSetInUse (ob1\<lparr>qualifiedName := o_name ob\<rparr>)) s)
          else obind (ComputeQualifiedName hashf s parentHandle (nameAlg (publicArea ob)) (o_name ob))
            (\<lambda>qn. Ret (upd_slot i (\<lambda>_. ObjectSetInUse (ob1\<lparr>
                o_attributes := parent_attributes (publicArea ob) a1, qualifiedName := qn\<rparr>)) s)))"

text \<open>
  The functions \<^verbatim>\<open>ObjectLoad\<close> calls: scheme checks, attribute validation, key validation, the
  digest size and the private exponent of an RSA key.
\<close>

record load_env =
  SchemeChecks :: "TPMT_PUBLIC \<Rightarrow> TPM_RC"
  PublicAttributesValidation :: "OBJECT option \<Rightarrow> TPMT_PUBLIC \<Rightarrow> TPM_RC"
  CryptValidateKeys :: "TPMT_PUBLIC \<Rightarrow> TPMT_SENSITIVE option \<Rightarrow> TPM_RC \<Rightarrow> TPM_RC \<Rightarrow> TPM_RC"
  DigestSize :: "TPM_ALG_ID \<Rightarrow> nat"
  CryptRsaLoadPrivateExponent :: "TPMT_PUBLIC \<Rightarrow> TPMT_SENSITIVE \<Rightarrow> TPM_RC"

definition blame :: "TPM_RC \<Rightarrow> TPM_RC \<Rightarrow> TPM_RC" where
  "blame result modifier =
     (if result \<noteq> TPM_RC_SUCCESS then RcSafeAddToResult result modifier else TPM_RC_SUCCESS)"

definition load_checks ::
  "load_env \<Rightarrow> OBJECT option \<Rightarrow> TPMT_PUBLIC \<Rightarrow> TPMT_SENSITIVE option \<Rightarrow> TPM_RC \<Rightarrow> TPM_RC \<Rightarrow> TPM_RC" where
  "load_checks env parent pub sens blamePublic blameSensitive =
     (case sens of
        Some sv \<Rightarrow>
          if nameAlg pub = TPM_ALG_NULL then blame (SchemeChecks env pub) blamePublic
          else if DigestSize env (nameAlg pub) < length (sens_seed sv)
          then TPM_RC_KEY_SIZE + blameSensitive
          else blame (PublicAttributesValidation env parent pub) blamePublic
      | None \<Rightarrow> blame (SchemeChecks env pub) blamePublic)"

definition ObjectLoad ::
  "load_env \<Rightarrow> nat option \<Rightarrow> OBJECT option \<Rightarrow> TPMT_PUBLIC \<Rightarrow> TPMT_SENSITIVE option \<Rightarrow> TPM_RC \<Rightarrow> TPM_RC
     \<Rightarrow> bytes option \<Rightarrow> obj_state \<Rightarrow> TPM_RC \<times> obj_state" where
  "ObjectLoad env slot parent pub sens blamePublic blameSensitive nm s =
     (let rc = load_checks env parent pub sens blamePublic blameSensitive in
      if rc \<noteq> TPM_RC_SUCCESS then (rc, s)
      else
        let rc2 = (case parent of
                     Some pa \<Rightarrow> if ta_fixedTPM (objectAttributes (publicArea pa)) then TPM_RC_SUCCESS
                               else CryptValidateKeys env pub sens blamePublic blameSensitive
                   | None \<Rightarrow> CryptValidateKeys env pub sens blamePublic blameSensitive)
        in if rc2 \<noteq> TPM_RC_SUCCESS then (rc2, s)
           else
             let rc3 = (case sens of
                          Some sv \<Rightarrow> if pub_type pub = TPM_ALG_RSA
                                    then CryptRsaLoadPrivateExponent env pub sv else TPM_RC_SUCCESS
                        | None \<Rightarrow> TPM_RC_SUCCESS)
             in if rc3 \<noteq> TPM_RC_SUCCESS then (rc3, s)
                else case slot of
                       None \<Rightarrow> (TPM_RC_SUCCESS, s)
                     | Some i \<Rightarrow> (TPM_RC_SUCCESS, upd_slot i (\<lambda>ob.
                         let ob1 = ob\<lparr>publicArea := pub\<rparr>;
                             ob2 = (case sens of
                                      None \<Rightarrow> upd_attr (publicOnly_update (\<lambda>_. True)) ob1
                                    | Some sv \<Rightarrow> ob1\<lparr>sensitive := sv\<rparr>)
                         in ob2\<lparr>o_name := (case nm of Some n \<Rightarrow> n | None \<Rightarrow> [])\<rparr>) s))"

text \<open>\<open>NvGetEvictObject\<close> yields the stored object, if there is one; the slot gets the evict mark in any case.\<close>

definition ObjectLoadEvict ::
  "(TPM_HANDLE \<Rightarrow> OBJECT option) \<Rightarrow> hier_state \<Rightarrow> TPM_CC \<Rightarrow> TPM_HANDLE \<Rightarrow> obj_state
     \<Rightarrow> TPM_RC \<times> TPM_HANDLE \<times> obj_state" where
  "ObjectLoadEvict nv hs cc handle s =
     (if PLATFORM_PERSISTENT \<le> handle \<and> \<not> g_phEnable hs then (TPM_RC_HANDLE, handle, s)
      else if handle < PLATFORM_PERSISTENT \<and> \<not> shEnable hs then (TPM_RC_HANDLE, handle, s)
      else case ObjectAllocateSlot s of
        (None, s1) \<Rightarrow> (TPM_RC_OBJECT_MEMORY, handle, s1)
      | (Some i, s1) \<Rightarrow>
          (let s2 = upd_slot i (\<lambda>ob. upd_attr (evict_update (\<lambda>_. True))
                      (case nv handle of Some eo \<Rightarrow> eo | None \<Rightarrow> ob)) s1
           in if nv handle = None then (TPM_RC_HANDLE, handle_of i, s2)
              else if HierarchyNormalizeHandle (hierarchy (s_objects s2 ! i)) = TPM_RH_ENDORSEMENT
                \<and> \<not> ehEnable hs \<and> cc \<noteq> TPM_CC_EvictControl
              then (TPM_RC_HANDLE, handle_of i, s2)
              else (TPM_RC_SUCCESS, handle_of i, s2)))"

text \<open>
  \<open>unmarshal\<close> stands for \<^verbatim>\<open>ANY_OBJECT_Unmarshal\<close>, \<open>old\<close> for the conversion of the older layout.
\<close>

definition ObjectContextLoadLibtpms ::
  "(bytes \<Rightarrow> OBJECT option) \<Rightarrow> (bytes \<Rightarrow> OBJECT option) \<Rightarrow> bytes \<Rightarrow> obj_state
     \<Rightarrow> (nat option \<times> obj_state) outcome" where
  "ObjectContextLoadLibtpms unmarshal old buf s =
     (case ObjectAllocateSlot s of
        (None, s1) \<Rightarrow> Ret (None, s1)
      | (Some i, s1) \<Rightarrow> (case unmarshal buf of
            Some ob \<Rightarrow> Ret (Some i, upd_slot i (\<lambda>_. ob) s1)
          | None \<Rightarrow> (case old buf of
                Some ob \<Rightarrow> Ret (Some i, upd_slot i (\<lambda>_. ob) s1)
              | None \<Rightarrow> obind (FlushObject (handle_of i) s1) (\<lambda>s2. Ret (None, s2)))))"

section \<open>Sequence objects\<close>

definition AllocateSequenceSlot :: "bytes option \<Rightarrow> obj_state \<Rightarrow> nat option \<times> obj_state" where
  "AllocateSequenceSlot auth s = (case ObjectAllocateSlot s of
      (None, s1) \<Rightarrow> (None, s1)
    | (Some i, s1) \<Rightarrow> (Some i, upd_slot i (\<lambda>ob.
        upd_attr (temporary_update (\<lambda>_. True))
          (ob\<lparr>publicArea := (publicArea ob)\<lparr>pub_type := TPM_ALG_NULL, nameAlg := TPM_ALG_NULL,
             objectAttributes := TPMA_OBJECT_zero\<lparr>ta_noDA := True\<rparr>,
             authPolicy := (case auth of Some a \<Rightarrow> a | None \<Rightarrow> [])\<rparr>\<rparr>)) s1))"

text \<open>\<open>macStart\<close> is the state \<^verbatim>\<open>CryptMacStart\<close> builds, \<open>None\<close> when it returns 0.\<close>

definition ObjectCreateHMACSequence ::
  "HASH_STATE option \<Rightarrow> bytes option \<Rightarrow> obj_state \<Rightarrow> TPM_RC \<times> TPM_HANDLE \<times> obj_state" where
  "ObjectCreateHMACSequence macStart auth s = (case AllocateSequenceSlot auth s of
      (None, s1) \<Rightarrow> (TPM_RC_OBJECT_MEMORY, 0, s1)
    | (Some i, s1) \<Rightarrow>
        (let s2 = upd_slot i (upd_attr (hmacSeq_update (\<lambda>_. True))) s1 in
         case macStart of
           None \<Rightarrow> (TPM_RC_FAILURE, handle_of i, s2)
         | Some m \<Rightarrow> (TPM_RC_SUCCESS, handle_of i, upd_slot i (\<lambda>ob. ob\<lparr>hashState := [m]\<rparr>) s2)))"

definition ObjectCreateHashSequence ::
  "TPM_ALG_ID \<Rightarrow> bytes option \<Rightarrow> obj_state \<Rightarrow> TPM_RC \<times> TPM_HANDLE \<times> obj_state" where
  "ObjectCreateHashSequence hashAlg auth s = (case AllocateSequenceSlot auth s of
      (None, s1) \<Rightarrow> (TPM_RC_OBJECT_MEMORY, 0, s1)
    | (Some i, s1) \<Rightarrow> (TPM_RC_SUCCESS, handle_of i,
        upd_slot i (\<lambda>ob. upd_attr (hashSeq_update (\<lambda>_. True)) (ob\<lparr>hashState := [(hashAlg, [])]\<rparr>)) s1))"

text \<open>\<open>algs\<close> is the list of implemented hash algorithms, \<^verbatim>\<open>CryptHashGetAlgByIndex\<close> 0, 1, ...\<close>

definition ObjectCreateEventSequence ::
  "TPM_ALG_ID list \<Rightarrow> bytes option \<Rightarrow> obj_state \<Rightarrow> TPM_RC \<times> TPM_HANDLE \<times> obj_state" where
  "ObjectCreateEventSequence algs auth s = (case AllocateSequenceSlot auth s of
      (None, s1) \<Rightarrow> (TPM_RC_OBJECT_MEMORY, 0, s1)
    | (Some i, s1) \<Rightarrow> (TPM_RC_SUCCESS, handle_of i,
        upd_slot i (\<lambda>ob. upd_attr (eventSeq_update (\<lambda>_. True))
          (ob\<lparr>hashState := map (\<lambda>a. (a, [])) algs\<rparr>)) s1))"

definition ObjectTerminateEvent :: "obj_state \<Rightarrow> obj_state outcome" where
  "ObjectTerminateEvent s =
     obind (HandleToObject s (g_DRTMHandle s)) (\<lambda>p. obind (deref s p) (\<lambda>ob.
       obind (if eventSeq (o_attributes ob) then FlushObject (g_DRTMHandle s) s else Ret s)
         (\<lambda>s1. Ret (s1\<lparr>g_DRTMHandle := TPM_RH_UNASSIGNED\<rparr>))))"

section \<open>Queries\<close>

definition ObjectIsStorage :: "obj_state \<Rightarrow> TPM_HANDLE \<Rightarrow> bool outcome" where
  "ObjectIsStorage s handle = obind (HandleToObject s handle) (\<lambda>p. case p of
      None \<Rightarrow> Ret False
    | Some i \<Rightarrow> (let pub = publicArea (s_objects s ! i); a = objectAttributes pub in
        Ret (ta_restricted a \<and> ta_decrypt a \<and> \<not> ta_sign a
             \<and> (pub_type pub = TPM_ALG_RSA \<or> pub_type pub = TPM_ALG_ECC))))"

fun ObjectCapGetLoaded_loop ::
  "OBJECT list \<Rightarrow> nat \<Rightarrow> nat \<Rightarrow> TPM_HANDLE list \<Rightarrow> (bool \<times> TPM_HANDLE list) outcome" where
  "ObjectCapGetLoaded_loop [] i count acc = Ret (False, acc)"
| "ObjectCapGetLoaded_loop (ob # obs) i count acc =
     (if occ ob
      then pAssert (\<not> evict (o_attributes ob))
        (if length acc < count then ObjectCapGetLoaded_loop obs (Suc i) count (acc @ [handle_of i])
         else Ret (True, acc))
      else ObjectCapGetLoaded_loop obs (Suc i) count acc)"

definition ObjectCapGetLoaded ::
  "obj_state \<Rightarrow> TPM_HANDLE \<Rightarrow> u32 \<Rightarrow> (bool \<times> TPM_HANDLE list) outcome" where
  "ObjectCapGetLoaded s handle count = pAssert (HandleGetType handle = TPM_HT_TRANSIENT)
     (ObjectCapGetLoaded_loop (drop (slot_of handle) (s_objects s)) (slot_of handle)
       (min (unat count) MAX_CAP_HANDLES) [])"

fun ObjectCapGetOneLoaded_loop :: "OBJECT list \<Rightarrow> bool outcome" where
  "ObjectCapGetOneLoaded_loop [] = Ret False"
| "ObjectCapGetOneLoaded_loop (ob # obs) =
     (if occ ob then pAssert (\<not> evict (o_attributes ob)) (Ret True)
      else ObjectCapGetOneLoaded_loop obs)"

definition ObjectCapGetOneLoaded :: "obj_state \<Rightarrow> TPM_HANDLE \<Rightarrow> bool outcome" where
  "ObjectCapGetOneLoaded s handle = pAssert (HandleGetType handle = TPM_HT_TRANSIENT)
     (ObjectCapGetOneLoaded_loop (drop (slot_of handle) (s_objects s)))"

definition ObjectCapGetTransientAvail :: "obj_state \<Rightarrow> nat" where
  "ObjectCapGetTransientAvail s = length (filter (\<lambda>ob. \<not> occ ob) (s_objects s))"

end
