(* ===== verification/Pqc_Crypto.thy ===== *)
theory Pqc_Crypto
  imports Object_Slots
begin

text \<open>
  The ML-KEM and ML-DSA primitives of the TPM, \<^verbatim>\<open>crypto/openssl/CryptMlKem.c\<close> and
  \<^verbatim>\<open>crypto/openssl/CryptMlDsa.c\<close>, in the native build (the \<^verbatim>\<open>__EMSCRIPTEN__\<close> sections and the
  test-only deterministic signing are off). The OpenSSL EVP calls and the random sources are the
  record \<open>evp\<close>; its type parameter is the provider's key. Sizes and parameter sets are those of
  \<^verbatim>\<open>TpmAlgorithmDefines.h\<close> and \<^verbatim>\<open>TpmTypes.h\<close>.
\<close>

section \<open>Constants\<close>

definition TPM_ALG_MLKEM :: TPM_ALG_ID where [tpm_consts]: "TPM_ALG_MLKEM = 0x00A0"
definition TPM_ALG_MLDSA :: TPM_ALG_ID where [tpm_consts]: "TPM_ALG_MLDSA = 0x00A1"
definition TPM_ALG_HASH_MLDSA :: TPM_ALG_ID where [tpm_consts]: "TPM_ALG_HASH_MLDSA = 0x00A2"
definition TPM_ALG_SHA256 :: TPM_ALG_ID where [tpm_consts]: "TPM_ALG_SHA256 = 0x000B"
definition TPM_ALG_SHA384 :: TPM_ALG_ID where [tpm_consts]: "TPM_ALG_SHA384 = 0x000C"
definition TPM_ALG_SHA512 :: TPM_ALG_ID where [tpm_consts]: "TPM_ALG_SHA512 = 0x000D"
definition TPM_ALG_SHA3_256 :: TPM_ALG_ID where [tpm_consts]: "TPM_ALG_SHA3_256 = 0x0027"
definition TPM_ALG_SHA3_384 :: TPM_ALG_ID where [tpm_consts]: "TPM_ALG_SHA3_384 = 0x0028"
definition TPM_ALG_SHA3_512 :: TPM_ALG_ID where [tpm_consts]: "TPM_ALG_SHA3_512 = 0x0029"
definition TPM_MLKEM_NONE :: u16 where [tpm_consts]: "TPM_MLKEM_NONE = 0"
definition TPM_MLKEM_512 :: u16 where [tpm_consts]: "TPM_MLKEM_512 = 1"
definition TPM_MLKEM_768 :: u16 where [tpm_consts]: "TPM_MLKEM_768 = 2"
definition TPM_MLKEM_1024 :: u16 where [tpm_consts]: "TPM_MLKEM_1024 = 3"
definition TPM_MLDSA_NONE :: u16 where [tpm_consts]: "TPM_MLDSA_NONE = 0"
definition TPM_MLDSA_44 :: u16 where [tpm_consts]: "TPM_MLDSA_44 = 1"
definition TPM_MLDSA_65 :: u16 where [tpm_consts]: "TPM_MLDSA_65 = 2"
definition TPM_MLDSA_87 :: u16 where [tpm_consts]: "TPM_MLDSA_87 = 3"
definition MLKEM_SHARED_SECRET_SIZE :: nat where [tpm_consts]: "MLKEM_SHARED_SECRET_SIZE = 32"
definition MLKEM_PRIVATE_SEED_SIZE :: nat where [tpm_consts]: "MLKEM_PRIVATE_SEED_SIZE = 64"
definition MLDSA_PRIVATE_SEED_SIZE :: nat where [tpm_consts]: "MLDSA_PRIVATE_SEED_SIZE = 32"

section \<open>The provider\<close>

text \<open>
  One member per EVP entry point, as the calls of one command see it. A call that returns a value
  \<open>\<le> 0\<close> (or a null pointer) is \<open>False\<close> or \<open>None\<close>. \<open>DRBG_Generate\<close> is the draw from the TPM's own
  generator, used when a \<^verbatim>\<open>RAND_STATE\<close> is passed; \<open>RAND_bytes\<close> the one from OpenSSL.
\<close>

record 'k evp =
  DRBG_Generate :: "nat \<Rightarrow> bytes option"
  RAND_bytes :: "nat \<Rightarrow> bytes option"
  CTX_new_from_name :: "string \<Rightarrow> bool"
  fromdata_init :: "string \<Rightarrow> bool"
  fromdata_seed :: "string \<Rightarrow> bytes \<Rightarrow> 'k option"
  fromdata_pub :: "string \<Rightarrow> bytes \<Rightarrow> 'k option"
  keygen_init :: "string \<Rightarrow> bool"
  keygen_set_seed :: "string \<Rightarrow> bytes \<Rightarrow> bool"
  keygen_generate :: "string \<Rightarrow> bytes \<Rightarrow> 'k option"
  get_pub_key :: "'k \<Rightarrow> bytes option"
  CTX_new_from_pkey :: "'k \<Rightarrow> bool"
  encapsulate_init :: "'k \<Rightarrow> bool"
  encapsulate :: "'k \<Rightarrow> (bytes \<times> bytes) option"
  decapsulate_init :: "'k \<Rightarrow> bool"
  decapsulate :: "'k \<Rightarrow> bytes \<Rightarrow> bytes option"
  MD_CTX_new :: bool
  sign_init :: "'k \<Rightarrow> string option \<Rightarrow> bool"
  verify_init :: "'k \<Rightarrow> string option \<Rightarrow> bool"
  set_context_string :: "'k \<Rightarrow> bytes \<Rightarrow> bool"
  DigestSign_len :: "'k \<Rightarrow> string option \<Rightarrow> bytes option \<Rightarrow> bytes \<Rightarrow> nat option"
  DigestSign :: "'k \<Rightarrow> string option \<Rightarrow> bytes option \<Rightarrow> bytes \<Rightarrow> bytes option"
  DigestVerify :: "'k \<Rightarrow> string option \<Rightarrow> bytes option \<Rightarrow> bytes \<Rightarrow> bytes \<Rightarrow> bool"

definition PkeyFromSeed :: "'k evp \<Rightarrow> string \<Rightarrow> bytes \<Rightarrow> 'k option" where
  "PkeyFromSeed ev algName seed =
     (if \<not> CTX_new_from_name ev algName then None
      else if \<not> fromdata_init ev algName then None
      else fromdata_seed ev algName seed)"

definition PkeyFromPub :: "'k evp \<Rightarrow> string \<Rightarrow> bytes \<Rightarrow> 'k option" where
  "PkeyFromPub ev algName pub =
     (if \<not> CTX_new_from_name ev algName then None
      else if \<not> fromdata_init ev algName then None
      else fromdata_pub ev algName pub)"

definition draw_seed :: "'k evp \<Rightarrow> bool \<Rightarrow> nat \<Rightarrow> bytes option" where
  "draw_seed ev useDrbg n = (if useDrbg then DRBG_Generate ev n else RAND_bytes ev n)"

text \<open>The import from the seed, with the generation from the same seed as the second attempt.\<close>

definition seed_or_generate :: "'k evp \<Rightarrow> string \<Rightarrow> bytes \<Rightarrow> 'k option" where
  "seed_or_generate ev algName seed =
     (case PkeyFromSeed ev algName seed of
        Some k \<Rightarrow> Some k
      | None \<Rightarrow> if CTX_new_from_name ev algName \<and> keygen_init ev algName
                  \<and> keygen_set_seed ev algName seed
               then keygen_generate ev algName seed else None)"

section \<open>ML-KEM\<close>

definition CryptMlKemAlgName :: "u16 \<Rightarrow> string option" where
  "CryptMlKemAlgName ps = (if ps = TPM_MLKEM_512 then Some ''ML-KEM-512''
     else if ps = TPM_MLKEM_768 then Some ''ML-KEM-768''
     else if ps = TPM_MLKEM_1024 then Some ''ML-KEM-1024'' else None)"

definition CryptMlKemPubKeySize :: "u16 \<Rightarrow> nat" where
  "CryptMlKemPubKeySize ps = (if ps = TPM_MLKEM_512 then 800 else if ps = TPM_MLKEM_768 then 1184
     else if ps = TPM_MLKEM_1024 then 1568 else 0)"

definition CryptMlKemCtSize :: "u16 \<Rightarrow> nat" where
  "CryptMlKemCtSize ps = (if ps = TPM_MLKEM_512 then 768 else if ps = TPM_MLKEM_768 then 1088
     else if ps = TPM_MLKEM_1024 then 1568 else 0)"

definition MlKem_GetParamSet :: "TPMT_PUBLIC \<Rightarrow> u16" where
  "MlKem_GetParamSet pub = (if pub_type pub = TPM_ALG_MLKEM then parameterSet pub else TPM_MLKEM_NONE)"

text \<open>The result carries the public key and the private seed that are stored on success.\<close>

definition CryptMlKemGenerateKey :: "'k evp \<Rightarrow> bool \<Rightarrow> TPMT_PUBLIC \<Rightarrow> TPM_RC + bytes \<times> bytes" where
  "CryptMlKemGenerateKey ev useDrbg pub =
     (case CryptMlKemAlgName (MlKem_GetParamSet pub) of
        None \<Rightarrow> Inl TPM_RC_SCHEME
      | Some algName \<Rightarrow>
          let expectedPub = CryptMlKemPubKeySize (MlKem_GetParamSet pub) in
          if expectedPub = 0 then Inl TPM_RC_SCHEME
          else case draw_seed ev useDrbg MLKEM_PRIVATE_SEED_SIZE of
            None \<Rightarrow> Inl TPM_RC_NO_RESULT
          | Some seed \<Rightarrow> (case seed_or_generate ev algName seed of
              None \<Rightarrow> Inl TPM_RC_FAILURE
            | Some k \<Rightarrow> (case get_pub_key ev k of
                None \<Rightarrow> Inl TPM_RC_FAILURE
              | Some pk \<Rightarrow> if length pk \<noteq> expectedPub then Inl TPM_RC_FAILURE
                          else Inr (pk, seed))))"

definition CryptMlKemEncapsulate :: "'k evp \<Rightarrow> OBJECT \<Rightarrow> TPM_RC + bytes \<times> bytes" where
  "CryptMlKemEncapsulate ev kemKey =
     (let pub = publicArea kemKey; ps = MlKem_GetParamSet pub in
      case CryptMlKemAlgName ps of
        None \<Rightarrow> Inl TPM_RC_SCHEME
      | Some algName \<Rightarrow>
          if CryptMlKemCtSize ps = 0 then Inl TPM_RC_SCHEME
          else case PkeyFromPub ev algName (unique pub) of
            None \<Rightarrow> Inl TPM_RC_KEY
          | Some k \<Rightarrow>
              if \<not> CTX_new_from_pkey ev k then Inl TPM_RC_FAILURE
              else if \<not> encapsulate_init ev k then Inl TPM_RC_FAILURE
              else case encapsulate ev k of
                None \<Rightarrow> Inl TPM_RC_FAILURE
              | Some (ct, ss) \<Rightarrow>
                  if length ct \<noteq> CryptMlKemCtSize ps \<or> length ss \<noteq> MLKEM_SHARED_SECRET_SIZE
                  then Inl TPM_RC_SIZE else Inr (ss, ct))"

definition CryptMlKemDecapsulate :: "'k evp \<Rightarrow> bytes \<Rightarrow> OBJECT \<Rightarrow> TPM_RC + bytes" where
  "CryptMlKemDecapsulate ev ciphertext kemKey =
     (let ps = MlKem_GetParamSet (publicArea kemKey) in
      case CryptMlKemAlgName ps of
        None \<Rightarrow> Inl TPM_RC_SCHEME
      | Some algName \<Rightarrow>
          if length ciphertext \<noteq> CryptMlKemCtSize ps then Inl TPM_RC_SIZE
          else case PkeyFromSeed ev algName (sens_key (sensitive kemKey)) of
            None \<Rightarrow> Inl TPM_RC_KEY
          | Some k \<Rightarrow>
              if \<not> CTX_new_from_pkey ev k then Inl TPM_RC_FAILURE
              else if \<not> decapsulate_init ev k then Inl TPM_RC_FAILURE
              else case decapsulate ev k ciphertext of
                None \<Rightarrow> Inl TPM_RC_FAILURE
              | Some ss \<Rightarrow> if length ss \<noteq> MLKEM_SHARED_SECRET_SIZE then Inl TPM_RC_SIZE
                          else Inr ss)"

section \<open>ML-DSA\<close>

definition CryptMlDsaAlgName :: "u16 \<Rightarrow> string option" where
  "CryptMlDsaAlgName ps = (if ps = TPM_MLDSA_44 then Some ''ML-DSA-44''
     else if ps = TPM_MLDSA_65 then Some ''ML-DSA-65''
     else if ps = TPM_MLDSA_87 then Some ''ML-DSA-87'' else None)"

definition CryptMlDsaPubKeySize :: "u16 \<Rightarrow> nat" where
  "CryptMlDsaPubKeySize ps = (if ps = TPM_MLDSA_44 then 1312 else if ps = TPM_MLDSA_65 then 1952
     else if ps = TPM_MLDSA_87 then 2592 else 0)"

definition CryptMlDsaSigSize :: "u16 \<Rightarrow> nat" where
  "CryptMlDsaSigSize ps = (if ps = TPM_MLDSA_44 then 2420 else if ps = TPM_MLDSA_65 then 3309
     else if ps = TPM_MLDSA_87 then 4627 else 0)"

definition MlDsa_GetParamSet :: "TPMT_PUBLIC \<Rightarrow> u16" where
  "MlDsa_GetParamSet pub =
     (if pub_type pub = TPM_ALG_MLDSA \<or> pub_type pub = TPM_ALG_HASH_MLDSA then parameterSet pub
      else TPM_MLDSA_NONE)"

definition hash_name :: "TPM_ALG_ID \<Rightarrow> string option" where
  "hash_name alg = (if alg = TPM_ALG_SHA256 then Some ''SHA256''
     else if alg = TPM_ALG_SHA384 then Some ''SHA384''
     else if alg = TPM_ALG_SHA512 then Some ''SHA512''
     else if alg = TPM_ALG_SHA3_256 then Some ''SHA3-256''
     else if alg = TPM_ALG_SHA3_384 then Some ''SHA3-384''
     else if alg = TPM_ALG_SHA3_512 then Some ''SHA3-512'' else None)"

definition HashMlDsaInstance :: "u16 \<Rightarrow> TPM_ALG_ID \<Rightarrow> string option" where
  "HashMlDsaInstance ps hashAlg =
     (case CryptMlDsaAlgName ps of None \<Rightarrow> None
      | Some n \<Rightarrow> (case hash_name hashAlg of None \<Rightarrow> None | Some h \<Rightarrow> Some (n @ ''-with-'' @ h)))"

definition CryptMlDsaGenerateKey :: "'k evp \<Rightarrow> bool \<Rightarrow> TPMT_PUBLIC \<Rightarrow> TPM_RC + bytes \<times> bytes" where
  "CryptMlDsaGenerateKey ev useDrbg pub =
     (case CryptMlDsaAlgName (MlDsa_GetParamSet pub) of
        None \<Rightarrow> Inl TPM_RC_SCHEME
      | Some algName \<Rightarrow>
          let expectedPub = CryptMlDsaPubKeySize (MlDsa_GetParamSet pub) in
          if expectedPub = 0 then Inl TPM_RC_SCHEME
          else case draw_seed ev useDrbg MLDSA_PRIVATE_SEED_SIZE of
            None \<Rightarrow> Inl TPM_RC_NO_RESULT
          | Some seed \<Rightarrow> (case seed_or_generate ev algName seed of
              None \<Rightarrow> Inl TPM_RC_FAILURE
            | Some k \<Rightarrow> (case get_pub_key ev k of
                None \<Rightarrow> Inl TPM_RC_FAILURE
              | Some pk \<Rightarrow> if length pk \<noteq> expectedPub then Inl TPM_RC_FAILURE
                          else Inr (pk, seed))))"

text \<open>
  A signature structure: \<open>mldsa\<close> is the signature of an ML-DSA key, \<open>hm_hash\<close> and \<open>hm_signature\<close>
  the two members for HashML-DSA.
\<close>

record TPMT_SIGNATURE =
  sigAlg :: TPM_ALG_ID
  mldsa :: bytes
  hm_hash :: TPM_ALG_ID
  hm_signature :: bytes

text \<open>
  The instance parameter of a HashML-DSA key: \<open>Inl\<close> when there is no such instance, \<open>Inr None\<close>
  for a plain ML-DSA key.
\<close>

definition instance_param :: "TPMT_PUBLIC \<Rightarrow> TPM_RC + string option" where
  "instance_param pub =
     (if pub_type pub = TPM_ALG_HASH_MLDSA
      then case HashMlDsaInstance (MlDsa_GetParamSet pub) (nameAlg pub) of
             None \<Rightarrow> Inl TPM_RC_SCHEME | Some i \<Rightarrow> Inr (Some i)
      else Inr None)"

definition nonempty_ctx :: "bytes option \<Rightarrow> bytes option" where
  "nonempty_ctx ctx = (case ctx of Some c \<Rightarrow> if 0 < length c then Some c else None | None \<Rightarrow> None)"

definition context_ok :: "'k evp \<Rightarrow> 'k \<Rightarrow> bytes option \<Rightarrow> bool" where
  "context_ok ev k ctx = (case nonempty_ctx ctx of None \<Rightarrow> True | Some c \<Rightarrow> set_context_string ev k c)"

definition select_sigAlg :: "TPMT_PUBLIC \<Rightarrow> TPMT_SIGNATURE \<Rightarrow> TPMT_SIGNATURE" where
  "select_sigAlg pub sig =
     (if pub_type pub = TPM_ALG_MLDSA then sig\<lparr>sigAlg := TPM_ALG_MLDSA\<rparr>
      else if pub_type pub = TPM_ALG_HASH_MLDSA then sig\<lparr>sigAlg := TPM_ALG_HASH_MLDSA\<rparr> else sig)"

definition store_signature :: "bytes \<Rightarrow> TPMT_SIGNATURE \<Rightarrow> TPMT_SIGNATURE" where
  "store_signature sg sig =
     (if sigAlg sig = TPM_ALG_MLDSA then sig\<lparr>mldsa := sg\<rparr>
      else if sigAlg sig = TPM_ALG_HASH_MLDSA then sig\<lparr>hm_signature := sg\<rparr> else sig)"

definition CryptMlDsaSign ::
  "'k evp \<Rightarrow> TPMT_SIGNATURE \<Rightarrow> OBJECT \<Rightarrow> bytes \<Rightarrow> bytes option \<Rightarrow> TPM_RC \<times> TPMT_SIGNATURE" where
  "CryptMlDsaSign ev sigOut key hIn ctx =
     (let pub = publicArea key; ps = MlDsa_GetParamSet pub in
      case CryptMlDsaAlgName ps of
        None \<Rightarrow> (TPM_RC_SCHEME, sigOut)
      | Some algName \<Rightarrow>
          if CryptMlDsaSigSize ps = 0 then (TPM_RC_SCHEME, sigOut)
          else case PkeyFromSeed ev algName (sens_key (sensitive key)) of
            None \<Rightarrow> (TPM_RC_KEY, sigOut)
          | Some k \<Rightarrow>
              if \<not> MD_CTX_new ev then (TPM_RC_FAILURE, sigOut)
              else case instance_param pub of
                Inl rc \<Rightarrow> (rc, sigOut)
              | Inr inst \<Rightarrow>
                  if \<not> sign_init ev k inst then (TPM_RC_FAILURE, sigOut)
                  else if \<not> context_ok ev k ctx then (TPM_RC_FAILURE, sigOut)
                  else if DigestSign_len ev k inst (nonempty_ctx ctx) hIn
                    \<noteq> Some (CryptMlDsaSigSize ps) then (TPM_RC_FAILURE, sigOut)
                  else case DigestSign ev k inst (nonempty_ctx ctx) hIn of
                    None \<Rightarrow> (TPM_RC_FAILURE, select_sigAlg pub sigOut)
                  | Some sg \<Rightarrow> (TPM_RC_SUCCESS, store_signature sg (select_sigAlg pub sigOut)))"

text \<open>Selecting the union member of a signature to be checked.\<close>

definition signature_bytes :: "TPMT_SIGNATURE \<Rightarrow> bytes option" where
  "signature_bytes sig = (if sigAlg sig = TPM_ALG_MLDSA then Some (mldsa sig)
     else if sigAlg sig = TPM_ALG_HASH_MLDSA then Some (hm_signature sig) else None)"

definition CryptMlDsaValidateSignature ::
  "'k evp \<Rightarrow> TPMT_SIGNATURE \<Rightarrow> OBJECT \<Rightarrow> bytes \<Rightarrow> bytes option \<Rightarrow> TPM_RC" where
  "CryptMlDsaValidateSignature ev sig key digest ctx =
     (let pub = publicArea key; ps = MlDsa_GetParamSet pub in
      case CryptMlDsaAlgName ps of
        None \<Rightarrow> TPM_RC_SCHEME
      | Some algName \<Rightarrow>
          if CryptMlDsaSigSize ps = 0 then TPM_RC_SCHEME
          else case signature_bytes sig of
            None \<Rightarrow> TPM_RC_SCHEME
          | Some sg \<Rightarrow>
              if length sg \<noteq> CryptMlDsaSigSize ps then TPM_RC_SIGNATURE
              else case PkeyFromPub ev algName (unique pub) of
                None \<Rightarrow> TPM_RC_KEY
              | Some k \<Rightarrow>
                  if \<not> MD_CTX_new ev then TPM_RC_SIGNATURE
                  else case instance_param pub of
                    Inl rc \<Rightarrow> rc
                  | Inr inst \<Rightarrow>
                      if \<not> verify_init ev k inst then TPM_RC_FAILURE
                      else if \<not> context_ok ev k ctx then TPM_RC_FAILURE
                      else if DigestVerify ev k inst (nonempty_ctx ctx) digest sg
                      then TPM_RC_SUCCESS else TPM_RC_SIGNATURE)"

definition CryptMlDsaSignMessage ::
  "'k evp \<Rightarrow> TPMT_SIGNATURE \<Rightarrow> OBJECT \<Rightarrow> bytes \<Rightarrow> bytes option \<Rightarrow> TPM_RC \<times> TPMT_SIGNATURE" where
  "CryptMlDsaSignMessage ev sigOut key msg ctx =
     (let pub = publicArea key; ps = MlDsa_GetParamSet pub in
      case CryptMlDsaAlgName ps of
        None \<Rightarrow> (TPM_RC_SCHEME, sigOut)
      | Some algName \<Rightarrow>
          if CryptMlDsaSigSize ps = 0 then (TPM_RC_SCHEME, sigOut)
          else case PkeyFromSeed ev algName (sens_key (sensitive key)) of
            None \<Rightarrow> (TPM_RC_KEY, sigOut)
          | Some k \<Rightarrow>
              if \<not> MD_CTX_new ev then (TPM_RC_FAILURE, sigOut)
              else case instance_param pub of
                Inl rc \<Rightarrow> (rc, sigOut)
              | Inr inst \<Rightarrow>
                  if \<not> sign_init ev k inst then (TPM_RC_FAILURE, sigOut)
                  else if \<not> context_ok ev k ctx then (TPM_RC_FAILURE, sigOut)
                  else if DigestSign_len ev k inst (nonempty_ctx ctx) msg
                    \<noteq> Some (CryptMlDsaSigSize ps) then (TPM_RC_FAILURE, sigOut)
                  else case DigestSign ev k inst (nonempty_ctx ctx) msg of
                    None \<Rightarrow> (TPM_RC_FAILURE, select_sigAlg pub sigOut)
                  | Some sg \<Rightarrow> (TPM_RC_SUCCESS, store_signature sg (select_sigAlg pub sigOut)))"

definition CryptMlDsaValidateSignatureMessage ::
  "'k evp \<Rightarrow> TPMT_SIGNATURE \<Rightarrow> OBJECT \<Rightarrow> bytes \<Rightarrow> bytes option \<Rightarrow> TPM_RC" where
  "CryptMlDsaValidateSignatureMessage ev sig key msg ctx =
     (let pub = publicArea key; ps = MlDsa_GetParamSet pub in
      case CryptMlDsaAlgName ps of
        None \<Rightarrow> TPM_RC_SCHEME
      | Some algName \<Rightarrow>
          if CryptMlDsaSigSize ps = 0 then TPM_RC_SCHEME
          else case signature_bytes sig of
            None \<Rightarrow> TPM_RC_SCHEME
          | Some sg \<Rightarrow>
              if length sg \<noteq> CryptMlDsaSigSize ps then TPM_RC_SIGNATURE
              else case PkeyFromPub ev algName (unique pub) of
                None \<Rightarrow> TPM_RC_KEY
              | Some k \<Rightarrow>
                  if \<not> MD_CTX_new ev then TPM_RC_SIGNATURE
                  else case instance_param pub of
                    Inl rc \<Rightarrow> rc
                  | Inr inst \<Rightarrow>
                      if \<not> verify_init ev k inst then TPM_RC_FAILURE
                      else if \<not> context_ok ev k ctx then TPM_RC_FAILURE
                      else if DigestVerify ev k inst (nonempty_ctx ctx) msg sg
                      then TPM_RC_SUCCESS else TPM_RC_SIGNATURE)"

end
