(* ===== verification/Object_Pool.thy ===== *)
theory Object_Pool
  imports Object_Slots
begin

text \<open>
  The contract of the object slots as a locale and its interpretation on the definitions of
  \<^verbatim>\<open>Object.c\<close>: allocation hands out a free handle, a handle keeps its object until it is released,
  and no operation disturbs another handle. Clients of the slots (the sequence commands) rest on
  the facts of the interpretation.
\<close>

section \<open>The contract\<close>

locale slot_pool =
  fixes ok :: "'s \<Rightarrow> bool"
    and lookup :: "'s \<Rightarrow> 'h \<Rightarrow> 'o option"
    and alloc :: "'s \<Rightarrow> ('h \<times> 's) option"
    and release :: "'h \<Rightarrow> 's \<Rightarrow> 's option"
    and put :: "'h \<Rightarrow> 'o \<Rightarrow> 's \<Rightarrow> 's"
    and live :: "'o \<Rightarrow> bool"
    and cap :: nat
  assumes alloc_some: "ok s \<Longrightarrow> alloc s = Some (h, t) \<Longrightarrow>
      ok t \<and> lookup s h = None \<and> lookup t h \<noteq> None \<and> (\<forall>k. k \<noteq> h \<longrightarrow> lookup t k = lookup s k)"
    and alloc_full: "ok s \<Longrightarrow> alloc s = None \<longleftrightarrow> card (dom (lookup s)) = cap"
    and bounded: "ok s \<Longrightarrow> finite (dom (lookup s)) \<and> card (dom (lookup s)) \<le> cap"
    and release_some: "ok s \<Longrightarrow> lookup s h \<noteq> None \<Longrightarrow>
      \<exists>t. release h s = Some t \<and> ok t \<and> lookup t h = None \<and> (\<forall>k. k \<noteq> h \<longrightarrow> lookup t k = lookup s k)"
    and put_live: "ok s \<Longrightarrow> lookup s h \<noteq> None \<Longrightarrow> live x \<Longrightarrow>
      ok (put h x s) \<and> lookup (put h x s) h = Some x \<and> (\<forall>k. k \<noteq> h \<longrightarrow> lookup (put h x s) k = lookup s k)"
begin

text \<open>The life of a handle: allocated, given contents, released; the pool is as it was.\<close>

lemma life_cycle:
  assumes "ok s" "alloc s = Some (h, t)" "live x"
  shows "\<exists>u. release h (put h x t) = Some u \<and> ok u \<and> lookup u = lookup s"
proof -
  have t: "ok t" "lookup s h = None" "lookup t h \<noteq> None" "\<forall>k. k \<noteq> h \<longrightarrow> lookup t k = lookup s k"
    using alloc_some [OF assms(1,2)] by auto
  note p = put_live [OF t(1,3) assms(3)]
  then obtain u where u: "release h (put h x t) = Some u" "ok u" "lookup u h = None"
    "\<forall>k. k \<noteq> h \<longrightarrow> lookup u k = lookup (put h x t) k"
    using release_some [of "put h x t" h] by auto
  have "lookup u k = lookup s k" for k
    using u(3,4) p t(2,4) by (cases "k = h") auto
  then have "lookup u = lookup s"
    by (rule ext)
  with u show ?thesis by blast
qed

lemma dom_after_release:
  assumes "lookup t h = None" "\<forall>k. k \<noteq> h \<longrightarrow> lookup t k = lookup s k"
  shows "dom (lookup t) = dom (lookup s) - {h}"
proof -
  have "lookup t k = (if k = h then None else lookup s k)" for k
    using assms by simp
  then show ?thesis
    by (auto simp: dom_def split: if_splits)
qed

lemma alloc_after_release:
  assumes "ok s" "lookup s h \<noteq> None" "release h s = Some t"
  shows "alloc t \<noteq> None"
proof -
  have t: "ok t" "dom (lookup t) = dom (lookup s) - {h}"
    using release_some [OF assms(1,2)] assms(3) dom_after_release [of t h s] by auto
  have "card (dom (lookup s)) \<le> cap" "finite (dom (lookup s))"
    using bounded [OF assms(1)] by auto
  moreover have "h \<in> dom (lookup s)"
    using assms(2) by auto
  ultimately have "card (dom (lookup t)) < cap"
    unfolding t(2) by (metis card_Diff1_less less_le_trans)
  then show ?thesis
    using alloc_full [OF t(1)] by simp
qed

lemma alloc_card:
  assumes "ok s" "alloc s = Some (h, t)"
  shows "card (dom (lookup t)) = Suc (card (dom (lookup s)))"
proof -
  note a = alloc_some [OF assms]
  have "k \<in> dom (lookup t) \<longleftrightarrow> k = h \<or> k \<in> dom (lookup s)" for k
    using a by (cases "k = h") auto
  then have "dom (lookup t) = insert h (dom (lookup s))" "h \<notin> dom (lookup s)"
    using a by auto
  then show ?thesis
    using bounded [OF assms(1)] by simp
qed

end

section \<open>The slots satisfy it\<close>

definition obj_ok :: "obj_state \<Rightarrow> bool" where
  "obj_ok s \<longleftrightarrow> length (s_objects s) = MAX_LOADED_OBJECTS"

definition obj_lookup :: "obj_state \<Rightarrow> TPM_HANDLE \<Rightarrow> OBJECT option" where
  "obj_lookup s h = (if IsObjectPresent s h then Some (s_objects s ! slot_of h) else None)"

definition obj_alloc :: "obj_state \<Rightarrow> (TPM_HANDLE \<times> obj_state) option" where
  "obj_alloc s = (case ObjectAllocateSlot s of (None, t) \<Rightarrow> None | (Some i, t) \<Rightarrow> Some (handle_of i, t))"

definition obj_release :: "TPM_HANDLE \<Rightarrow> obj_state \<Rightarrow> obj_state option" where
  "obj_release h s = (case FlushObject h s of Ret t \<Rightarrow> Some t | FailureMode \<Rightarrow> None)"

definition obj_put :: "TPM_HANDLE \<Rightarrow> OBJECT \<Rightarrow> obj_state \<Rightarrow> obj_state" where
  "obj_put h x s = upd_slot (slot_of h) (\<lambda>_. x) s"

lemma slot_handle [simp]: "i < 2 ^ 32 \<Longrightarrow> slot_of (handle_of i) = i"
  by (simp add: slot_of_def handle_of_def)

lemma handle_slot [simp]: "handle_of (slot_of h) = h"
  by (simp add: slot_of_def handle_of_def)

lemma slot_of_inject: "slot_of h = slot_of k \<longleftrightarrow> h = k"
  by (metis handle_slot)

lemma upd_slot_length [simp]: "length (s_objects (upd_slot i f s)) = length (s_objects s)"
  by (simp add: upd_slot_def)

lemma upd_slot_nth:
  "j < length (s_objects s) \<Longrightarrow>
     s_objects (upd_slot i f s) ! j = (if i = j then f (s_objects s ! j) else s_objects s ! j)"
  by (simp add: upd_slot_def nth_list_update)

lemma upd_slot_upd_slot [simp]: "upd_slot i f (upd_slot i g s) = upd_slot i (f \<circ> g) s"
  by (cases "i < length (s_objects s)") (simp_all add: upd_slot_def list_update_beyond not_less)

lemma obj_ok_upd_slot [simp]: "obj_ok (upd_slot i f s) = obj_ok s"
  by (simp add: obj_ok_def)

lemma obj_lookup_upd:
  assumes "obj_ok s" "slot_of h < MAX_LOADED_OBJECTS"
  shows "obj_lookup (upd_slot (slot_of h) f s) k =
    (if k = h then (if occ (f (s_objects s ! slot_of h)) then Some (f (s_objects s ! slot_of h)) else None)
     else obj_lookup s k)"
  using assms
  by (auto simp: obj_lookup_def IsObjectPresent_def obj_ok_def upd_slot_nth slot_of_inject
      split: if_splits)

lemma obj_lookup_Some:
  "obj_lookup s h = Some x \<longleftrightarrow> slot_of h < MAX_LOADED_OBJECTS \<and> s_objects s ! slot_of h = x \<and> occ x"
  by (auto simp: obj_lookup_def IsObjectPresent_def)

lemma obj_lookup_occ: "obj_lookup s h = Some ob \<Longrightarrow> occ ob"
  by (simp add: obj_lookup_Some)

definition fresh_object :: OBJECT where
  "fresh_object = ObjectSetInUse (OBJECT_zero\<lparr>hierarchy := TPM_RH_NULL\<rparr>)"

lemma occ_fresh [simp]: "occ fresh_object"
  by (simp add: fresh_object_def ObjectSetInUse_def upd_attr_def)

lemma ObjectAllocateSlot_Some:
  assumes "obj_ok s"
  shows "ObjectAllocateSlot s = (Some i, t) \<longleftrightarrow>
    i = first_index (\<lambda>ob. \<not> occ ob) (s_objects s) \<and> i < MAX_LOADED_OBJECTS \<and>
    t = upd_slot i (\<lambda>_. fresh_object) s"
  using assms
  by (auto simp: ObjectAllocateSlot_def FindEmptyObjectSlot_def Let_def obj_ok_def fresh_object_def
      comp_def split: option.splits prod.splits)

lemma ObjectAllocateSlot_None:
  "ObjectAllocateSlot s = (None, t) \<longleftrightarrow> (\<forall>ob \<in> set (s_objects s). occ ob) \<and> t = s"
  using first_index_less_iff [of "\<lambda>ob. \<not> occ ob" "s_objects s"]
  by (auto simp: ObjectAllocateSlot_def FindEmptyObjectSlot_def Let_def)

lemma handle_of_small: "i < MAX_LOADED_OBJECTS \<Longrightarrow> slot_of (handle_of i) = i"
  by (simp add: MAX_LOADED_OBJECTS_def)

lemma obj_alloc_Some:
  assumes "obj_ok s" "obj_alloc s = Some (h, t)"
  shows "slot_of h < MAX_LOADED_OBJECTS" "obj_lookup s h = None"
    "t = upd_slot (slot_of h) (\<lambda>_. fresh_object) s"
proof -
  obtain i where a: "ObjectAllocateSlot s = (Some i, t)" and h: "h = handle_of i"
    using assms(2) by (auto simp: obj_alloc_def split: prod.splits option.splits)
  note i = a [unfolded ObjectAllocateSlot_Some [OF assms(1)]]
  have sl: "slot_of h = i"
    using i by (simp add: h handle_of_small)
  show "slot_of h < MAX_LOADED_OBJECTS" "t = upd_slot (slot_of h) (\<lambda>_. fresh_object) s"
    using i by (simp_all add: sl)
  have "\<not> occ (s_objects s ! i)"
    using i first_index_nth [of "\<lambda>ob. \<not> occ ob" "s_objects s"] assms(1) by (auto simp: obj_ok_def)
  then show "obj_lookup s h = None"
    by (simp add: obj_lookup_def IsObjectPresent_def sl)
qed

lemma dom_obj_lookup:
  "dom (obj_lookup s) = handle_of ` {i. i < MAX_LOADED_OBJECTS \<and> occ (s_objects s ! i)}"
proof (intro set_eqI iffI)
  fix h assume "h \<in> dom (obj_lookup s)"
  then have "slot_of h \<in> {i. i < MAX_LOADED_OBJECTS \<and> occ (s_objects s ! i)}"
    by (auto simp: obj_lookup_Some)
  then show "h \<in> handle_of ` {i. i < MAX_LOADED_OBJECTS \<and> occ (s_objects s ! i)}"
    by (metis handle_slot imageI)
qed (auto simp: obj_lookup_Some handle_of_small)

lemma card_obj_lookup:
  "card (dom (obj_lookup s)) = card {i. i < MAX_LOADED_OBJECTS \<and> occ (s_objects s ! i)}"
  unfolding dom_obj_lookup
  by (rule card_image) (auto simp: inj_on_def dest!: arg_cong [of _ _ slot_of] simp: handle_of_small)

lemma card_full:
  "card {i. i < (n :: nat) \<and> P i} = n \<longleftrightarrow> (\<forall>i < n. P i)"
proof
  assume c: "card {i. i < n \<and> P i} = n"
  have "{i. i < n \<and> P i} = {..<n}"
    by (rule card_subset_eq) (use c in auto)
  then show "\<forall>i < n. P i" by auto
next
  assume "\<forall>i < n. P i"
  then have "{i. i < n \<and> P i} = {..<n}" by auto
  then show "card {i. i < n \<and> P i} = n" by simp
qed

interpretation slots: slot_pool obj_ok obj_lookup obj_alloc obj_release obj_put occ MAX_LOADED_OBJECTS
proof unfold_locales
  fix s h t assume ok: "obj_ok s" and a: "obj_alloc s = Some (h, t)"
  note d = obj_alloc_Some [OF ok a]
  show "obj_ok t \<and> obj_lookup s h = None \<and> obj_lookup t h \<noteq> None \<and>
      (\<forall>k. k \<noteq> h \<longrightarrow> obj_lookup t k = obj_lookup s k)"
    using ok d by (simp add: obj_lookup_upd)
next
  fix s assume ok: "obj_ok s"
  have "obj_alloc s = None \<longleftrightarrow> (\<forall>ob \<in> set (s_objects s). occ ob)"
    using ObjectAllocateSlot_None [of s]
    by (cases "ObjectAllocateSlot s") (auto simp: obj_alloc_def split: option.splits)
  also have "\<dots> \<longleftrightarrow> (\<forall>i < MAX_LOADED_OBJECTS. occ (s_objects s ! i))"
    using ok by (auto simp: obj_ok_def all_set_conv_all_nth)
  finally show "obj_alloc s = None \<longleftrightarrow> card (dom (obj_lookup s)) = MAX_LOADED_OBJECTS"
    by (simp add: card_obj_lookup card_full)
  have "{i. i < MAX_LOADED_OBJECTS \<and> occ (s_objects s ! i)} \<subseteq> {..<MAX_LOADED_OBJECTS}" by auto
  then show "finite (dom (obj_lookup s)) \<and> card (dom (obj_lookup s)) \<le> MAX_LOADED_OBJECTS"
    using card_mono [of "{..<MAX_LOADED_OBJECTS}"] card_obj_lookup [of s]
    by (auto simp: dom_obj_lookup)
next
  fix s h assume ok: "obj_ok s" and l: "obj_lookup s h \<noteq> None"
  then have "slot_of h < MAX_LOADED_OBJECTS"
    by (auto simp: obj_lookup_Some)
  with ok show "\<exists>t. obj_release h s = Some t \<and> obj_ok t \<and> obj_lookup t h = None \<and>
      (\<forall>k. k \<noteq> h \<longrightarrow> obj_lookup t k = obj_lookup s k)"
    by (auto simp: obj_release_def FlushObject_def obj_lookup_upd upd_attr_def
        OBJECT_ATTRIBUTES_zero_def)
next
  fix s h x assume ok: "obj_ok s" and l: "obj_lookup s h \<noteq> None" and x: "occ x"
  then have "slot_of h < MAX_LOADED_OBJECTS"
    by (auto simp: obj_lookup_Some)
  with ok x show "obj_ok (obj_put h x s) \<and> obj_lookup (obj_put h x s) h = Some x \<and>
      (\<forall>k. k \<noteq> h \<longrightarrow> obj_lookup (obj_put h x s) k = obj_lookup s k)"
    by (simp add: obj_put_def obj_lookup_upd)
qed

section \<open>Evict objects and hierarchies\<close>

definition no_evict :: "obj_state \<Rightarrow> bool" where
  "no_evict s \<longleftrightarrow> (\<forall>ob \<in> set (s_objects s). occ ob \<longrightarrow> \<not> evict (o_attributes ob))"

lemma occ_ObjectFlush [simp]: "\<not> occ (ObjectFlush ob)"
  by (simp add: ObjectFlush_def upd_attr_def)

lemma obj_lookup_map:
  assumes "obj_ok s" "\<And>ob. occ ob \<Longrightarrow> occ (f ob) \<Longrightarrow> f ob = ob" "\<And>ob. \<not> occ ob \<Longrightarrow> \<not> occ (f ob)"
  shows "obj_lookup (s\<lparr>s_objects := map f (s_objects s)\<rparr>) h =
    (case obj_lookup s h of None \<Rightarrow> None | Some ob \<Rightarrow> if occ (f ob) then Some ob else None)"
  using assms by (auto simp: obj_lookup_def IsObjectPresent_def obj_ok_def)

lemma ObjectCleanupEvict_lookup:
  "obj_ok s \<Longrightarrow> obj_lookup (ObjectCleanupEvict s) h =
    (case obj_lookup s h of None \<Rightarrow> None
     | Some ob \<Rightarrow> if evict (o_attributes ob) then None else Some ob)"
  unfolding ObjectCleanupEvict_def
  by (subst obj_lookup_map) (auto dest: obj_lookup_occ split: option.splits)

lemma no_evict_lookup:
  "obj_ok s \<Longrightarrow> no_evict s \<Longrightarrow> obj_lookup s h = Some ob \<Longrightarrow> \<not> evict (o_attributes ob)"
  by (auto simp: obj_lookup_Some no_evict_def obj_ok_def all_set_conv_all_nth)

lemma ObjectLoadEvict_frame:
  assumes "obj_ok s" "ObjectLoadEvict nv hs cc h s = (rc, h', t)"
  shows "t = s \<or> (\<exists>i ob. obj_alloc s = Some (handle_of i, upd_slot i (\<lambda>_. fresh_object) s)
    \<and> i < MAX_LOADED_OBJECTS \<and> t = upd_slot i (\<lambda>_. ob) s \<and> evict (o_attributes ob) \<and> h' = handle_of i)"
proof (cases "ObjectAllocateSlot s")
  case (Pair p s1)
  show ?thesis
  proof (cases p)
    case None
    then show ?thesis
      using assms(2) Pair ObjectAllocateSlot_None [of s s1]
      by (auto simp: ObjectLoadEvict_def split: if_splits)
  next
    case (Some i)
    have s1: "s1 = upd_slot i (\<lambda>_. fresh_object) s" "i < MAX_LOADED_OBJECTS"
      using Pair Some ObjectAllocateSlot_Some [OF assms(1)] by auto
    then have a: "obj_alloc s = Some (handle_of i, upd_slot i (\<lambda>_. fresh_object) s)"
      using Pair Some by (simp add: obj_alloc_def)
    define ob where
      "ob = upd_attr (evict_update (\<lambda>_. True)) (case nv h of Some eo \<Rightarrow> eo | None \<Rightarrow> fresh_object)"
    have "upd_slot i (\<lambda>x. upd_attr (evict_update (\<lambda>_. True)) (case nv h of Some eo \<Rightarrow> eo | None \<Rightarrow> x)) s1
        = upd_slot i (\<lambda>_. ob) s"
      by (simp add: s1(1) ob_def comp_def)
    then have "t = s \<or> t = upd_slot i (\<lambda>_. ob) s \<and> h' = handle_of i"
      using assms(2) Pair Some by (simp add: ObjectLoadEvict_def Let_def split: if_splits)
    moreover have "evict (o_attributes ob)"
      by (simp add: ob_def upd_attr_def)
    ultimately show ?thesis
      using a s1(2) by blast
  qed
qed

section \<open>Properties\<close>

text \<open>
  C27: The life of a transient slot. When a slot is free, \<^verbatim>\<open>ObjectAllocateSlot\<close> returns a handle that
  was not in use and changes no other handle; whatever occupied contents the slot is given,
  \<^verbatim>\<open>FlushObject\<close> then succeeds and leaves every handle as it was before the allocation. When it
  returns nothing, all \<^verbatim>\<open>MAX_LOADED_OBJECTS\<close> slots are occupied.
\<close>
theorem slot_life_cycle:
  assumes "length (s_objects s) = MAX_LOADED_OBJECTS"
  shows "case ObjectAllocateSlot s of
      (Some i, t) \<Rightarrow> \<not> IsObjectPresent s (handle_of i) \<and> IsObjectPresent t (handle_of i)
        \<and> (\<forall>k. k \<noteq> handle_of i \<longrightarrow> obj_lookup t k = obj_lookup s k)
        \<and> (\<forall>x. occ x \<longrightarrow> (\<exists>u. FlushObject (handle_of i) (upd_slot i (\<lambda>_. x) t) = Ret u
              \<and> obj_lookup u = obj_lookup s))
    | (None, t) \<Rightarrow> t = s \<and> (\<forall>i < MAX_LOADED_OBJECTS. IsObjectPresent s (handle_of i))"
proof -
  have ok: "obj_ok s"
    using assms by (simp add: obj_ok_def)
  obtain p t where a: "ObjectAllocateSlot s = (p, t)"
    by (rule prod.exhaust)
  show ?thesis
  proof (cases p)
    case None
    then show ?thesis
      using a ObjectAllocateSlot_None [of s t] assms
      by (simp add: IsObjectPresent_def handle_of_small)
  next
    case (Some i)
    have al: "obj_alloc s = Some (handle_of i, t)"
      using a Some by (simp add: obj_alloc_def)
    have i: "slot_of (handle_of i) = i"
      using a Some ObjectAllocateSlot_Some [OF ok] by (auto simp: handle_of_small)
    have life: "\<exists>u. FlushObject (handle_of i) (upd_slot i (\<lambda>_. x) t) = Ret u \<and> obj_lookup u = obj_lookup s"
      if "occ x" for x
      using slots.life_cycle [OF ok al that]
      by (auto simp: obj_release_def obj_put_def i split: outcome.splits)
    show ?thesis
      using slots.alloc_some [OF ok al] life
      by (auto simp: a Some obj_lookup_def split: if_splits)
  qed
qed

definition demo_obj :: obj_state where
  "demo_obj = \<lparr>s_objects = [fresh_object, OBJECT_zero, OBJECT_zero],
     g_DRTMHandle = TPM_RH_UNASSIGNED\<rparr>"

theorem slot_life_cycle_witness:
  "\<not> IsObjectPresent demo_obj (handle_of 1)
   \<and> fst (ObjectAllocateSlot demo_obj) = Some 1"
proof -
  have "\<not> occ OBJECT_zero"
    by (simp add: OBJECT_zero_def OBJECT_ATTRIBUTES_zero_def)
  then have a: "ObjectAllocateSlot demo_obj = (Some 1, snd (ObjectAllocateSlot demo_obj))"
    by (simp add: ObjectAllocateSlot_def FindEmptyObjectSlot_def demo_obj_def Let_def)
  have "length (s_objects demo_obj) = MAX_LOADED_OBJECTS"
    by (simp add: demo_obj_def MAX_LOADED_OBJECTS_def)
  from slot_life_cycle [OF this] show ?thesis
    by (subst (asm) a) (subst a, simp)
qed

text \<open>
  A persistent object does not leak its slot. Whatever \<^verbatim>\<open>ObjectLoadEvict\<close> returns - success or
  any of its errors - the cleanup at the end of the command restores every handle to what it was
  before the load.
\<close>
theorem evict_slot_restored:
  assumes "length (s_objects s) = MAX_LOADED_OBJECTS" "no_evict s"
    and "ObjectLoadEvict nv hs cc h s = (rc, h', t)"
  shows "obj_lookup (ObjectCleanupEvict t) = obj_lookup s"
proof
  fix k
  have ok: "obj_ok s"
    using assms(1) by (simp add: obj_ok_def)
  consider "t = s" | i ob where "obj_alloc s = Some (handle_of i, upd_slot i (\<lambda>_. fresh_object) s)"
    "i < MAX_LOADED_OBJECTS" "t = upd_slot i (\<lambda>_. ob) s" "evict (o_attributes ob)"
    using ObjectLoadEvict_frame [OF ok assms(3)] by blast
  then show "obj_lookup (ObjectCleanupEvict t) k = obj_lookup s k"
  proof cases
    case 1
    then show ?thesis
      using no_evict_lookup [OF ok assms(2)] ok
      by (auto simp: ObjectCleanupEvict_lookup split: option.splits)
  next
    case 2
    note f = obj_lookup_upd [OF ok, of "handle_of i", unfolded handle_of_small [OF 2(2)], OF 2(2)]
    have "obj_lookup s (handle_of i) = None"
      using slots.alloc_some [OF ok 2(1)] by blast
    then show ?thesis
      using 2(3,4) ok no_evict_lookup [OF ok assms(2)]
      by (auto simp: ObjectCleanupEvict_lookup f split: option.splits)
  qed
qed

theorem evict_slot_restored_witness:
  "obj_lookup (ObjectCleanupEvict (snd (snd (ObjectLoadEvict (\<lambda>_. None) demo_hier 0 0x81000000 demo_obj))))
   = obj_lookup demo_obj"
proof -
  have "length (s_objects demo_obj) = MAX_LOADED_OBJECTS" "no_evict demo_obj"
    by (simp_all add: demo_obj_def MAX_LOADED_OBJECTS_def no_evict_def fresh_object_def
        ObjectSetInUse_def upd_attr_def OBJECT_zero_def OBJECT_ATTRIBUTES_zero_def)
  from evict_slot_restored [OF this, of "\<lambda>_. None" demo_hier 0 "0x81000000"] show ?thesis
    by (metis prod.collapse)
qed

text \<open>
  \<^verbatim>\<open>ObjectFlushHierarchy\<close> removes exactly the loaded objects of the hierarchy: a handle is
  present afterwards if and only if it was present before and its object does not carry the
  attribute of that hierarchy, and the objects that remain are unchanged.
\<close>
theorem ObjectFlushHierarchy_exact:
  assumes "length (s_objects s) = MAX_LOADED_OBJECTS"
    and "h = TPM_RH_PLATFORM \<or> h = TPM_RH_OWNER \<or> h = TPM_RH_ENDORSEMENT"
  shows "\<exists>t. ObjectFlushHierarchy h s = Ret t \<and> (\<forall>k. obj_lookup t k =
    (case obj_lookup s k of None \<Rightarrow> None
     | Some ob \<Rightarrow> if (h = TPM_RH_PLATFORM \<and> ppsHierarchy (o_attributes ob))
          \<or> (h = TPM_RH_OWNER \<and> spsHierarchy (o_attributes ob))
          \<or> (h = TPM_RH_ENDORSEMENT \<and> epsHierarchy (o_attributes ob)) then None else Some ob))"
proof -
  have ok: "obj_ok s"
    using assms(1) by (simp add: obj_ok_def)
  let ?t = "s\<lparr>s_objects := map (flush_in_hierarchy h) (s_objects s)\<rparr>"
  have "ObjectFlushHierarchy h s = Ret ?t"
    using assms(2) by (auto simp: ObjectFlushHierarchy_def)
  moreover have "obj_lookup ?t k = (case obj_lookup s k of None \<Rightarrow> None
      | Some ob \<Rightarrow> if occ (flush_in_hierarchy h ob) then Some ob else None)" for k
    using ok by (rule obj_lookup_map) (auto simp: flush_in_hierarchy_def split: if_splits)
  ultimately show ?thesis
    by (auto simp: flush_in_hierarchy_def dest: obj_lookup_occ split: option.splits)
qed

theorem ObjectFlushHierarchy_exact_witness:
  "\<exists>t. ObjectFlushHierarchy TPM_RH_OWNER demo_obj = Ret t \<and> obj_lookup t (handle_of 1) = None"
proof -
  have "length (s_objects demo_obj) = MAX_LOADED_OBJECTS"
    by (simp add: demo_obj_def MAX_LOADED_OBJECTS_def)
  from ObjectFlushHierarchy_exact [OF this, of TPM_RH_OWNER]
  obtain t where t: "ObjectFlushHierarchy TPM_RH_OWNER demo_obj = Ret t"
    "obj_lookup demo_obj (handle_of 1) = None \<Longrightarrow> obj_lookup t (handle_of 1) = None"
    by (force split: option.splits)
  have "obj_lookup demo_obj (handle_of 1) = None"
    by (simp add: obj_lookup_def IsObjectPresent_def demo_obj_def OBJECT_zero_def
        OBJECT_ATTRIBUTES_zero_def)
  with t show ?thesis by blast
qed

text \<open>
  \<^verbatim>\<open>ObjectCapGetOneLoaded\<close> does not answer for the handle it is given: it searches from that
  slot onwards, so for a slot that is empty it says loaded as soon as any later slot is occupied.
\<close>
theorem ObjectCapGetOneLoaded_searches_on:
  assumes "s_objects s = [a, b, c]" "\<not> occ a" "occ b" "\<not> evict (o_attributes b)"
  shows "\<not> IsObjectPresent s TRANSIENT_FIRST \<and> ObjectCapGetOneLoaded s TRANSIENT_FIRST = Ret True"
  using assms
  by (simp add: ObjectCapGetOneLoaded_def IsObjectPresent_def slot_of_def HandleGetType_def tpm_consts)

theorem ObjectCapGetOneLoaded_searches_on_witness:
  "ObjectCapGetOneLoaded \<lparr>s_objects = [OBJECT_zero, fresh_object, OBJECT_zero],
     g_DRTMHandle = TPM_RH_UNASSIGNED\<rparr> TRANSIENT_FIRST = Ret True"
  using ObjectCapGetOneLoaded_searches_on [of "\<lparr>s_objects = [OBJECT_zero, fresh_object, OBJECT_zero],
     g_DRTMHandle = TPM_RH_UNASSIGNED\<rparr>" OBJECT_zero fresh_object OBJECT_zero]
  by (simp add: fresh_object_def ObjectSetInUse_def upd_attr_def OBJECT_zero_def
      OBJECT_ATTRIBUTES_zero_def)

end
