(* ===== verification/Pqc_Commands.thy ===== *)
theory Pqc_Commands
  imports Pqc_Crypto Object_Pool
begin

text \<open>
  The commands of the ML-KEM and ML-DSA extension: the sign and verify sequences
  (\<^verbatim>\<open>PqcSequence.c\<close>, \<^verbatim>\<open>PqcSequenceCommands.c\<close>), the digest commands (\<^verbatim>\<open>PqcMlDsaCommands.c\<close>) and
  encapsulation (\<^verbatim>\<open>PqcKemCommands.c\<close>), over the object slots and the EVP provider. A command that
  changes slots returns the new state. A handle argument is one that passed the unmarshaling; a
  null pointer that the code dereferences, and a failed \<^verbatim>\<open>pAssert\<close> of \<^verbatim>\<open>HandleToObject\<close>, are
  \<open>FailureMode\<close>. The output structure a command fills is an argument where the command may leave
  parts of it as they are.
\<close>

section \<open>Constants\<close>

definition MAX_PQC_SEQ_BUFFER :: u32 where [tpm_consts]: "MAX_PQC_SEQ_BUFFER = 4 * 1024"
definition TPM_ST_MESSAGE_VERIFIED :: TPM_ST where [tpm_consts]: "TPM_ST_MESSAGE_VERIFIED = 0x8026"
definition TPM_ST_DIGEST_VERIFIED :: TPM_ST where [tpm_consts]: "TPM_ST_DIGEST_VERIFIED = 0x8027"
definition RC_SignSequenceStart_keyHandle :: TPM_RC where
  [tpm_consts]: "RC_SignSequenceStart_keyHandle = TPM_RC_H + TPM_RC_1"
definition RC_VerifySequenceStart_keyHandle :: TPM_RC where
  [tpm_consts]: "RC_VerifySequenceStart_keyHandle = TPM_RC_H + TPM_RC_1"
definition RC_VerifySequenceStart_hint :: TPM_RC where
  [tpm_consts]: "RC_VerifySequenceStart_hint = TPM_RC_P + TPM_RC_2"
definition RC_SignSequenceComplete_sequenceHandle :: TPM_RC where
  [tpm_consts]: "RC_SignSequenceComplete_sequenceHandle = TPM_RC_H + TPM_RC_1"
definition RC_SignSequenceComplete_keyHandle :: TPM_RC where
  [tpm_consts]: "RC_SignSequenceComplete_keyHandle = TPM_RC_H + TPM_RC_2"
definition RC_VerifySequenceComplete_sequenceHandle :: TPM_RC where
  [tpm_consts]: "RC_VerifySequenceComplete_sequenceHandle = TPM_RC_H + TPM_RC_1"
definition RC_VerifySequenceComplete_keyHandle :: TPM_RC where
  [tpm_consts]: "RC_VerifySequenceComplete_keyHandle = TPM_RC_H + TPM_RC_2"
definition RC_VerifySequenceComplete_signature :: TPM_RC where
  [tpm_consts]: "RC_VerifySequenceComplete_signature = TPM_RC_P + TPM_RC_1"
definition RC_SignDigest_keyHandle :: TPM_RC where
  [tpm_consts]: "RC_SignDigest_keyHandle = TPM_RC_H + TPM_RC_1"
definition RC_SignDigest_validation :: TPM_RC where
  [tpm_consts]: "RC_SignDigest_validation = TPM_RC_P + TPM_RC_3"
definition RC_VerifyDigestSignature_keyHandle :: TPM_RC where
  [tpm_consts]: "RC_VerifyDigestSignature_keyHandle = TPM_RC_H + TPM_RC_1"
definition RC_VerifyDigestSignature_signature :: TPM_RC where
  [tpm_consts]: "RC_VerifyDigestSignature_signature = TPM_RC_P + TPM_RC_3"
definition RC_Encapsulate_keyHandle :: TPM_RC where
  [tpm_consts]: "RC_Encapsulate_keyHandle = TPM_RC_H + TPM_RC_1"
definition RC_Decapsulate_keyHandle :: TPM_RC where
  [tpm_consts]: "RC_Decapsulate_keyHandle = TPM_RC_H + TPM_RC_1"

section \<open>Sequence slots\<close>

text \<open>
  The sequence occupies an object slot. \<^verbatim>\<open>MemorySet\<close> clears the bytes of a \<^verbatim>\<open>HASH_OBJECT\<close>, which
  end before the hierarchy and seed level of the slot's \<^verbatim>\<open>OBJECT\<close>.
\<close>

definition pqc_sequence_object :: "bool \<Rightarrow> bytes option \<Rightarrow> OBJECT \<Rightarrow> OBJECT" where
  "pqc_sequence_object sign auth ob =
     OBJECT_zero\<lparr>hierarchy := hierarchy ob, seedCompatLevel := seedCompatLevel ob,
       o_attributes := OBJECT_ATTRIBUTES_zero\<lparr>slot_occupied := True, pqcSeq := True,
         hmacSeq := False, hashSeq := False, eventSeq := False\<rparr>,
       publicArea := (publicArea OBJECT_zero)\<lparr>pub_type := TPM_ALG_NULL, nameAlg := TPM_ALG_NULL,
         authPolicy := (case auth of Some a \<Rightarrow> a | None \<Rightarrow> [])\<rparr>,
       pqcState := PQC_SEQ_STATE_zero\<lparr>isSign := sign\<rparr>\<rparr>"

definition PqcSequenceAllocate ::
  "bool \<Rightarrow> bytes option \<Rightarrow> obj_state \<Rightarrow> TPM_HANDLE \<times> obj_state" where
  "PqcSequenceAllocate sign auth s = (case ObjectAllocateSlot s of
      (None, s1) \<Rightarrow> (TPM_RH_UNASSIGNED, s1)
    | (Some i, s1) \<Rightarrow> (handle_of i, upd_slot i (pqc_sequence_object sign auth) s1))"

definition PqcSequenceIsHandle :: "obj_state \<Rightarrow> TPM_HANDLE \<Rightarrow> bool outcome" where
  "PqcSequenceIsHandle s handle =
     (if HandleGetType handle \<noteq> TPM_HT_TRANSIENT then Ret False
      else if \<not> IsObjectPresent s handle then Ret False
      else obind (HandleToObject s handle) (\<lambda>p. obind (deref s p) (\<lambda>ob.
        Ret (pqcSeq (o_attributes ob)))))"

definition PqcSequenceFromHandle :: "obj_state \<Rightarrow> TPM_HANDLE \<Rightarrow> nat option outcome" where
  "PqcSequenceFromHandle s handle = obind (PqcSequenceIsHandle s handle) (\<lambda>b.
     if \<not> b then Ret None else HandleToObject s handle)"

definition PqcSequenceFlush :: "TPM_HANDLE \<Rightarrow> obj_state \<Rightarrow> obj_state outcome" where
  "PqcSequenceFlush handle s = obind (PqcSequenceIsHandle s handle) (\<lambda>b.
     if b then FlushObject handle s else Ret s)"

text \<open>
  \<open>buffer\<close> holds the bytes of the array that were written; the copy starts at \<open>bufferUsed\<close>. The
  length of the data is a \<^verbatim>\<open>UINT16\<close>.
\<close>

definition PqcSequenceUpdate :: "PQC_SEQ_STATE option \<Rightarrow> bytes \<Rightarrow> TPM_RC \<times> PQC_SEQ_STATE option" where
  "PqcSequenceUpdate seq data =
     (case seq of
        None \<Rightarrow> (TPM_RC_HANDLE, None)
      | Some q \<Rightarrow>
          if isSign q then (TPM_RC_ONE_SHOT_SIGNATURE, Some q)
          else if length data = 0 then (TPM_RC_SUCCESS, Some q)
          else if bufferUsed q + word_of_nat (length data) > MAX_PQC_SEQ_BUFFER
          then (TPM_RC_SIZE, Some q)
          else (TPM_RC_SUCCESS, Some (q\<lparr>buffer := take (unat (bufferUsed q)) (buffer q) @ data,
                 bufferUsed := bufferUsed q + word_of_nat (length data)\<rparr>)))"

section \<open>Starting a sequence\<close>

definition get_signing_key ::
  "obj_state \<Rightarrow> TPM_HANDLE \<Rightarrow> bool \<Rightarrow> (TPM_RC + nat) outcome" where
  "get_signing_key s kh forSign = obind (HandleToObject s kh) (\<lambda>p.
     case p of
       None \<Rightarrow> Ret (Inl TPM_RC_HANDLE)
     | Some i \<Rightarrow>
         let pub = publicArea (s_objects s ! i) in
         if (if forSign then \<not> ta_sign (objectAttributes pub)
             else \<not> ta_sign (objectAttributes pub)) then Ret (Inl TPM_RC_KEY)
         else if pub_type pub \<noteq> TPM_ALG_MLDSA \<and> pub_type pub \<noteq> TPM_ALG_HASH_MLDSA
         then Ret (Inl TPM_RC_SCHEME)
         else Ret (Inr i))"

definition bind_key :: "TPM_HANDLE \<Rightarrow> TPMT_PUBLIC \<Rightarrow> bytes \<Rightarrow> bytes \<Rightarrow> PQC_SEQ_STATE \<Rightarrow> PQC_SEQ_STATE" where
  "bind_key kh pub ctx hnt q =
     q\<lparr>keyHandle := kh, keyType := pub_type pub, paramSet := parameterSet pub, sig_context := ctx,
       hint := hnt\<rparr>"

definition upd_pqc :: "(PQC_SEQ_STATE \<Rightarrow> PQC_SEQ_STATE) \<Rightarrow> OBJECT \<Rightarrow> OBJECT" where
  "upd_pqc f ob = ob\<lparr>pqcState := f (pqcState ob)\<rparr>"

definition TPM2_SignSequenceStart ::
  "TPM_HANDLE \<Rightarrow> bytes \<Rightarrow> bytes \<Rightarrow> obj_state \<Rightarrow> ((TPM_RC + TPM_HANDLE) \<times> obj_state) outcome" where
  "TPM2_SignSequenceStart kh auth ctx s = obind (get_signing_key s kh True) (\<lambda>r.
     case r of
       Inl rc \<Rightarrow> Ret (Inl (rc + RC_SignSequenceStart_keyHandle), s)
     | Inr key \<Rightarrow>
         (case PqcSequenceAllocate True (Some auth) s of (h, s1) \<Rightarrow>
            if h = TPM_RH_UNASSIGNED then Ret (Inl TPM_RC_OBJECT_MEMORY, s1)
            else obind (PqcSequenceFromHandle s1 h) (\<lambda>q.
              case q of
                None \<Rightarrow> Ret (Inl TPM_RC_OBJECT_MEMORY, s1)
              | Some i \<Rightarrow> Ret (Inr h, upd_slot i (\<lambda>ob. upd_pqc
                  (bind_key kh (publicArea (s_objects s1 ! key)) ctx (hint (pqcState ob))) ob) s1))))"

definition TPM2_VerifySequenceStart ::
  "TPM_HANDLE \<Rightarrow> bytes \<Rightarrow> bytes \<Rightarrow> bytes \<Rightarrow> obj_state
     \<Rightarrow> ((TPM_RC + TPM_HANDLE) \<times> obj_state) outcome" where
  "TPM2_VerifySequenceStart kh auth hnt ctx s = obind (get_signing_key s kh False) (\<lambda>r.
     case r of
       Inl rc \<Rightarrow> Ret (Inl (rc + RC_VerifySequenceStart_keyHandle), s)
     | Inr key \<Rightarrow>
         if length hnt \<noteq> 0 then Ret (Inl (TPM_RC_VALUE + RC_VerifySequenceStart_hint), s)
         else (case PqcSequenceAllocate False (Some auth) s of (h, s1) \<Rightarrow>
            if h = TPM_RH_UNASSIGNED then Ret (Inl TPM_RC_OBJECT_MEMORY, s1)
            else obind (PqcSequenceFromHandle s1 h) (\<lambda>q.
              case q of
                None \<Rightarrow> Ret (Inl TPM_RC_OBJECT_MEMORY, s1)
              | Some i \<Rightarrow> Ret (Inr h, upd_slot i (\<lambda>ob. upd_pqc
                  (bind_key kh (publicArea (s_objects s1 ! key)) ctx hnt) ob) s1))))"

section \<open>Completing a sequence\<close>

text \<open>The early returns that flush the sequence first.\<close>

definition flush_return :: "TPM_HANDLE \<Rightarrow> 'a \<Rightarrow> obj_state \<Rightarrow> ('a \<times> obj_state) outcome" where
  "flush_return h r s = obind (PqcSequenceFlush h s) (\<lambda>s1. Ret (r, s1))"

definition seq_context :: "PQC_SEQ_STATE \<Rightarrow> bytes option" where
  "seq_context q = (if 0 < length (sig_context q) then Some (sig_context q) else None)"

definition TPM2_SignSequenceComplete ::
  "'k evp \<Rightarrow> TPM_HANDLE \<Rightarrow> TPM_HANDLE \<Rightarrow> bytes \<Rightarrow> TPMT_SIGNATURE \<Rightarrow> obj_state
     \<Rightarrow> ((TPM_RC \<times> TPMT_SIGNATURE) \<times> obj_state) outcome" where
  "TPM2_SignSequenceComplete ev sh kh buf out s = obind (PqcSequenceFromHandle s sh) (\<lambda>p.
     case p of
       None \<Rightarrow> Ret ((TPM_RC_HANDLE + RC_SignSequenceComplete_sequenceHandle, out), s)
     | Some i \<Rightarrow>
         let q = pqcState (s_objects s ! i) in
         if \<not> isSign q then Ret ((TPM_RC_MODE + RC_SignSequenceComplete_sequenceHandle, out), s)
         else if kh \<noteq> keyHandle q
         then flush_return sh (TPM_RC_HANDLE + RC_SignSequenceComplete_keyHandle, out) s
         else if bufferUsed q \<noteq> 0 then flush_return sh (TPM_RC_ONE_SHOT_SIGNATURE, out) s
         else obind (HandleToObject s kh) (\<lambda>kp.
           case kp of
             None \<Rightarrow> flush_return sh (TPM_RC_HANDLE + RC_SignSequenceComplete_keyHandle, out) s
           | Some k \<Rightarrow>
               flush_return sh (CryptMlDsaSignMessage ev out (s_objects s ! k) buf (seq_context q)) s))"

definition message_ticket ::
  "ticket_env \<Rightarrow> hier_state \<Rightarrow> TPM_HANDLE \<Rightarrow> OBJECT \<Rightarrow> TPM_RC + TPMT_TK" where
  "message_ticket te hs hier key =
     (if hier = TPM_RH_NULL \<or> nameAlg (publicArea key) = TPM_ALG_NULL
      then Inr \<lparr>tk_tag = TPM_ST_MESSAGE_VERIFIED, tk_hierarchy = hier, tk_digest = []\<rparr>
      else case HierarchyGetProof (te_kdfa te) hs hier of
        Inl rc \<Rightarrow> Inl rc
      | Inr proof \<Rightarrow> Inr \<lparr>tk_tag = TPM_ST_MESSAGE_VERIFIED, tk_hierarchy = hier,
          tk_digest = te_hmac te proof (be 2 TPM_ST_MESSAGE_VERIFIED @ be 4 hier @ o_name key)\<rparr>)"

definition TPM2_VerifySequenceComplete ::
  "'k evp \<Rightarrow> ticket_env \<Rightarrow> hier_state \<Rightarrow> TPM_HANDLE \<Rightarrow> TPM_HANDLE \<Rightarrow> TPMT_SIGNATURE \<Rightarrow> obj_state
     \<Rightarrow> ((TPM_RC + TPMT_TK) \<times> obj_state) outcome" where
  "TPM2_VerifySequenceComplete ev te hs sh kh sig s = obind (PqcSequenceFromHandle s sh) (\<lambda>p.
     case p of
       None \<Rightarrow> Ret (Inl (TPM_RC_HANDLE + RC_VerifySequenceComplete_sequenceHandle), s)
     | Some i \<Rightarrow>
         let q = pqcState (s_objects s ! i) in
         if isSign q then Ret (Inl (TPM_RC_MODE + RC_VerifySequenceComplete_sequenceHandle), s)
         else if kh \<noteq> keyHandle q
         then flush_return sh (Inl (TPM_RC_HANDLE + RC_VerifySequenceComplete_keyHandle)) s
         else obind (HandleToObject s kh) (\<lambda>kp.
           case kp of
             None \<Rightarrow> flush_return sh (Inl (TPM_RC_HANDLE + RC_VerifySequenceComplete_keyHandle)) s
           | Some k \<Rightarrow>
               let key = s_objects s ! k;
                   rc = CryptMlDsaValidateSignatureMessage ev sig key
                          (take (unat (bufferUsed q)) (buffer q)) (seq_context q)
               in if rc \<noteq> TPM_RC_SUCCESS
                  then flush_return sh (Inl (rc + RC_VerifySequenceComplete_signature)) s
                  else obind (GetHierarchy s kh) (\<lambda>hier.
                    flush_return sh (message_ticket te hs hier key) s)))"

section \<open>Digest commands\<close>

definition IsSigningObject :: "obj_state \<Rightarrow> nat option \<Rightarrow> bool" where
  "IsSigningObject s p = (case p of
      None \<Rightarrow> True
    | Some i \<Rightarrow> ta_sign (objectAttributes (publicArea (s_objects s ! i)))
        \<and> pub_type (publicArea (s_objects s ! i)) \<noteq> TPM_ALG_SYMCIPHER)"

definition opt_context :: "bytes \<Rightarrow> bytes option" where
  "opt_context ctx = (if 0 < length ctx then Some ctx else None)"

definition external_mu_refused :: "TPMT_PUBLIC \<Rightarrow> bool" where
  "external_mu_refused pub \<longleftrightarrow> pub_type pub = TPM_ALG_MLDSA \<and> \<not> allowExternalMu pub"

definition TPM2_SignDigest ::
  "'k evp \<Rightarrow> TPM_HANDLE \<Rightarrow> bytes \<Rightarrow> bytes \<Rightarrow> TPMT_TK \<Rightarrow> TPMT_SIGNATURE \<Rightarrow> obj_state
     \<Rightarrow> (TPM_RC \<times> TPMT_SIGNATURE) outcome" where
  "TPM2_SignDigest ev kh ctx digest validation out s = obind (HandleToObject s kh) (\<lambda>p.
     if \<not> IsSigningObject s p then Ret (TPM_RC_KEY + RC_SignDigest_keyHandle, out)
     else obind (deref s p) (\<lambda>key.
       let pub = publicArea key in
       if pub_type pub \<noteq> TPM_ALG_MLDSA \<and> pub_type pub \<noteq> TPM_ALG_HASH_MLDSA
       then Ret (TPM_RC_ATTRIBUTES + RC_SignDigest_keyHandle, out)
       else if external_mu_refused pub then Ret (TPM_RC_ATTRIBUTES + RC_SignDigest_keyHandle, out)
       else if ta_restricted (objectAttributes pub) \<and> tk_hierarchy validation = TPM_RH_NULL
       then Ret (TPM_RC_TICKET + RC_SignDigest_validation, out)
       else Ret (CryptMlDsaSign ev out key digest (opt_context ctx))))"

text \<open>The result is the ticket and its \<^verbatim>\<open>metadata.digestVerified\<close>.\<close>

definition TPM2_VerifyDigestSignature ::
  "'k evp \<Rightarrow> ticket_env \<Rightarrow> hier_state \<Rightarrow> TPM_HANDLE \<Rightarrow> bytes \<Rightarrow> bytes \<Rightarrow> TPMT_SIGNATURE \<Rightarrow> obj_state
     \<Rightarrow> (TPM_RC + TPMT_TK \<times> TPM_ALG_ID) outcome" where
  "TPM2_VerifyDigestSignature ev te hs kh ctx digest sig s =
     obind (HandleToObject s kh) (\<lambda>p. obind (deref s p) (\<lambda>key.
       let pub = publicArea key in
       if \<not> ta_sign (objectAttributes pub)
       then Ret (Inl (TPM_RC_ATTRIBUTES + RC_VerifyDigestSignature_keyHandle))
       else if external_mu_refused pub
       then Ret (Inl (TPM_RC_ATTRIBUTES + RC_VerifyDigestSignature_keyHandle))
       else
         let result = CryptMlDsaValidateSignature ev sig key digest (opt_context ctx) in
         if result \<noteq> TPM_RC_SUCCESS
         then Ret (Inl (RcSafeAddToResult result RC_VerifyDigestSignature_signature))
         else obind (GetHierarchy s kh) (\<lambda>hier.
           if hier = TPM_RH_NULL \<or> nameAlg pub = TPM_ALG_NULL
           then Ret (Inr (\<lparr>tk_tag = TPM_ST_DIGEST_VERIFIED, tk_hierarchy = TPM_RH_NULL,
                           tk_digest = []\<rparr>, TPM_ALG_NULL))
           else case TicketComputeVerified te hs hier digest (o_name key) of
             Inl rc \<Rightarrow> Ret (Inl rc)
           | Inr t \<Rightarrow> Ret (Inr (t\<lparr>tk_tag := TPM_ST_DIGEST_VERIFIED\<rparr>,
               if sigAlg sig = TPM_ALG_HASH_MLDSA then hm_hash sig else TPM_ALG_NULL)))))"

section \<open>Encapsulation\<close>

definition TPM2_Encapsulate ::
  "'k evp \<Rightarrow> TPM_HANDLE \<Rightarrow> obj_state \<Rightarrow> (TPM_RC + bytes \<times> bytes) outcome" where
  "TPM2_Encapsulate ev kh s = obind (HandleToObject s kh) (\<lambda>p. obind (deref s p) (\<lambda>kemKey.
     if pub_type (publicArea kemKey) \<noteq> TPM_ALG_MLKEM
     then Ret (Inl (TPM_RC_ATTRIBUTES + RC_Encapsulate_keyHandle))
     else Ret (CryptMlKemEncapsulate ev kemKey)))"

definition TPM2_Decapsulate ::
  "'k evp \<Rightarrow> TPM_HANDLE \<Rightarrow> bytes \<Rightarrow> obj_state \<Rightarrow> (TPM_RC + bytes) outcome" where
  "TPM2_Decapsulate ev kh ct s = obind (HandleToObject s kh) (\<lambda>p. obind (deref s p) (\<lambda>kemKey.
     if pub_type (publicArea kemKey) \<noteq> TPM_ALG_MLKEM
     then Ret (Inl (TPM_RC_ATTRIBUTES + RC_Decapsulate_keyHandle))
     else Ret (CryptMlKemDecapsulate ev ct kemKey)))"

end
