(* ===== verification/Sequence_Commands.thy ===== *)
theory Sequence_Commands
  imports Pqc_Commands
begin

text \<open>
  The sequence commands of \<^verbatim>\<open>HashCommands.c\<close>: starting hash, event and MAC sequences,
  \<^verbatim>\<open>TPM2_SequenceUpdate\<close> with its dispatch to the ML-DSA sequences, and
  \<^verbatim>\<open>TPM2_SequenceComplete\<close>. The digest of an algorithm, the end of a MAC and the selection of a
  MAC scheme are arguments; a hash state that was ended is removed from the object.
\<close>

section \<open>Definitions\<close>

definition RC_MAC_Start_handle :: TPM_RC where
  [tpm_consts]: "RC_MAC_Start_handle = TPM_RC_H + TPM_RC_1"
definition RC_MAC_Start_inScheme :: TPM_RC where
  [tpm_consts]: "RC_MAC_Start_inScheme = TPM_RC_P + TPM_RC_2"
definition RC_SequenceUpdate_sequenceHandle :: TPM_RC where
  [tpm_consts]: "RC_SequenceUpdate_sequenceHandle = TPM_RC_P + TPM_RC_1"
definition RC_SequenceComplete_sequenceHandle :: TPM_RC where
  [tpm_consts]: "RC_SequenceComplete_sequenceHandle = TPM_RC_H + TPM_RC_1"

text \<open>
  \<open>selectMac\<close> is \<^verbatim>\<open>CryptSelectMac\<close>: a response code and the scheme it settles on; \<open>macStart\<close> is
  \<^verbatim>\<open>CryptMacStart\<close> for that scheme and key.
\<close>

definition TPM2_MAC_Start ::
  "(TPMT_PUBLIC \<Rightarrow> TPM_ALG_ID \<Rightarrow> TPM_RC \<times> TPM_ALG_ID) \<Rightarrow> (TPM_ALG_ID \<Rightarrow> OBJECT \<Rightarrow> HASH_STATE option)
     \<Rightarrow> TPM_HANDLE \<Rightarrow> bytes \<Rightarrow> TPM_ALG_ID \<Rightarrow> obj_state \<Rightarrow> (TPM_RC \<times> TPM_HANDLE \<times> obj_state) outcome" where
  "TPM2_MAC_Start selectMac macStart handle auth inScheme s =
     obind (HandleToObject s handle) (\<lambda>p. obind (deref s p) (\<lambda>key.
       let pub = publicArea key in
       case selectMac pub inScheme of (result, scheme) \<Rightarrow>
         if result = TPM_RC_TYPE then Ret (TPM_RC_TYPE + RC_MAC_Start_handle, 0, s)
         else if result \<noteq> TPM_RC_SUCCESS
         then Ret (RcSafeAddToResult result RC_MAC_Start_inScheme, 0, s)
         else if ta_restricted (objectAttributes pub)
         then Ret (TPM_RC_ATTRIBUTES + RC_MAC_Start_handle, 0, s)
         else if \<not> ta_sign (objectAttributes pub)
         then Ret (TPM_RC_KEY + RC_MAC_Start_handle, 0, s)
         else Ret (ObjectCreateHMACSequence (macStart scheme key) (Some auth) s)))"

definition TPM2_HashSequenceStart ::
  "TPM_ALG_ID list \<Rightarrow> bytes \<Rightarrow> TPM_ALG_ID \<Rightarrow> obj_state \<Rightarrow> TPM_RC \<times> TPM_HANDLE \<times> obj_state" where
  "TPM2_HashSequenceStart algs auth hashAlg s =
     (if hashAlg = TPM_ALG_NULL then ObjectCreateEventSequence algs (Some auth) s
      else ObjectCreateHashSequence hashAlg (Some auth) s)"

definition digest_update :: "bytes \<Rightarrow> HASH_STATE \<Rightarrow> HASH_STATE" where
  "digest_update data st = (fst st, snd st @ data)"

definition update_first :: "bytes \<Rightarrow> HASH_STATE list \<Rightarrow> HASH_STATE list" where
  "update_first data sts = (case sts of [] \<Rightarrow> [] | st # r \<Rightarrow> digest_update data st # r)"

definition first_block :: "bytes \<Rightarrow> OBJECT_ATTRIBUTES \<Rightarrow> OBJECT_ATTRIBUTES" where
  "first_block data a =
     (if \<not> firstBlock a
      then let a1 = a\<lparr>firstBlock := True\<rparr> in if TicketIsSafe data then a1\<lparr>ticketSafe := True\<rparr> else a1
      else a)"

definition update_hash_object :: "bytes \<Rightarrow> OBJECT \<Rightarrow> OBJECT" where
  "update_hash_object data ob =
     (if eventSeq (o_attributes ob) then ob\<lparr>hashState := map (digest_update data) (hashState ob)\<rparr>
      else if hashSeq (o_attributes ob)
      then (upd_attr (first_block data) ob)\<lparr>hashState := update_first data (hashState ob)\<rparr>
      else if hmacSeq (o_attributes ob) then ob\<lparr>hashState := update_first data (hashState ob)\<rparr>
      else ob)"

definition TPM2_SequenceUpdate ::
  "TPM_HANDLE \<Rightarrow> bytes \<Rightarrow> obj_state \<Rightarrow> (TPM_RC \<times> obj_state) outcome" where
  "TPM2_SequenceUpdate sh data s = obind (PqcSequenceIsHandle s sh) (\<lambda>isPqc.
     if isPqc
     then obind (PqcSequenceFromHandle s sh) (\<lambda>q.
       case q of
         None \<Rightarrow> Ret (TPM_RC_HANDLE + RC_SequenceUpdate_sequenceHandle, s)
       | Some i \<Rightarrow>
           (case PqcSequenceUpdate (Some (pqcState (s_objects s ! i))) data of
              (rc, None) \<Rightarrow> Ret (rc, s)
            | (rc, Some q') \<Rightarrow> Ret (rc, upd_slot i (upd_pqc (\<lambda>_. q')) s)))
     else obind (HandleToObject s sh) (\<lambda>p. obind (deref s p) (\<lambda>ob.
       if \<not> ObjectIsSequence ob then Ret (TPM_RC_MODE + RC_SequenceUpdate_sequenceHandle, s)
       else Ret (TPM_RC_SUCCESS, upd_slot (slot_of sh) (update_hash_object data) s))))"

text \<open>
  The ticket of a completed hash sequence; the response code of \<^verbatim>\<open>TicketComputeHashCheck\<close> is not
  looked at, so on an error the digest stays what the output structure held, \<open>old\<close>.
\<close>

definition hashcheck_ticket ::
  "ticket_env \<Rightarrow> hier_state \<Rightarrow> bytes \<Rightarrow> TPM_HANDLE \<Rightarrow> bool \<Rightarrow> TPM_ALG_ID \<Rightarrow> bytes \<Rightarrow> TPMT_TK" where
  "hashcheck_ticket te hs old hier safe hashAlg digest =
     (if hier = TPM_RH_NULL
      then \<lparr>tk_tag = TPM_ST_HASHCHECK, tk_hierarchy = hier, tk_digest = []\<rparr>
      else if \<not> safe
      then \<lparr>tk_tag = TPM_ST_HASHCHECK, tk_hierarchy = TPM_RH_NULL, tk_digest = []\<rparr>
      else case TicketComputeHashCheck te hs hier hashAlg digest of
        Inl rc \<Rightarrow> \<lparr>tk_tag = TPM_ST_HASHCHECK, tk_hierarchy = hier, tk_digest = old\<rparr>
      | Inr t \<Rightarrow> t)"

definition safe_at_end :: "bytes \<Rightarrow> OBJECT_ATTRIBUTES \<Rightarrow> bool" where
  "safe_at_end data a \<longleftrightarrow> ticketSafe a \<or> \<not> firstBlock a \<and> TicketIsSafe data"

definition end_sequence :: "bytes \<Rightarrow> OBJECT \<Rightarrow> OBJECT" where
  "end_sequence data ob = (upd_attr (\<lambda>a. a\<lparr>evict := True,
       ticketSafe := (if hashSeq a then safe_at_end data a else ticketSafe a)\<rparr>) ob)\<lparr>hashState := []\<rparr>"

definition TPM2_SequenceComplete ::
  "(TPM_ALG_ID \<Rightarrow> bytes \<Rightarrow> bytes) \<Rightarrow> (HASH_STATE \<Rightarrow> bytes) \<Rightarrow> ticket_env \<Rightarrow> hier_state \<Rightarrow> bytes
     \<Rightarrow> TPM_HANDLE \<Rightarrow> bytes \<Rightarrow> TPM_HANDLE \<Rightarrow> obj_state
     \<Rightarrow> ((TPM_RC + bytes \<times> TPMT_TK) \<times> obj_state) outcome" where
  "TPM2_SequenceComplete hashf macEnd te hs old sh data hier s =
     obind (HandleToObject s sh) (\<lambda>p. obind (deref s p) (\<lambda>ob.
       let a = o_attributes ob in
       if \<not> hashSeq a \<and> \<not> hmacSeq a
       then Ret (Inl (TPM_RC_MODE + RC_SequenceComplete_sequenceHandle), s)
       else case hashState ob of
         [] \<Rightarrow> FailureMode
       | st # r \<Rightarrow>
           let s1 = upd_slot (slot_of sh) (end_sequence data) s;
               st1 = digest_update data st
           in if hashSeq a
              then let d = hashf (fst st1) (snd st1)
                   in Ret (Inr (d, hashcheck_ticket te hs old hier (safe_at_end data a) (fst st) d), s1)
              else Ret (Inr (macEnd st1,
                   \<lparr>tk_tag = TPM_ST_HASHCHECK, tk_hierarchy = TPM_RH_NULL, tk_digest = []\<rparr>), s1)))"

end
