(* ===== verification/Pqc_Sequences.thy ===== *)
theory Pqc_Sequences
  imports Sequence_Commands DA_Time
begin

text \<open>
  Properties of the sequence commands, over the contract of the object slots: what a started
  sequence holds, how updates fill its buffer, that completion releases the slot, and what the
  tickets and the dictionary-attack logic see of it.
\<close>

section \<open>Handles of loaded objects\<close>

lemma slot_handle_type:
  assumes "slot_of h < MAX_LOADED_OBJECTS"
  shows "HandleGetType h = TPM_HT_TRANSIENT" "HandleGetType h \<noteq> TPM_HT_PERMANENT"
    "\<not> (0x80FF0000 \<le> h \<and> h \<le> 0x80FF00FF)" "h \<noteq> TPM_RH_UNASSIGNED"
proof -
  have "slot_of h = 0 \<or> slot_of h = 1 \<or> slot_of h = 2"
    using assms by (auto simp: MAX_LOADED_OBJECTS_def)
  then have "h = handle_of 0 \<or> h = handle_of 1 \<or> h = handle_of 2"
    by (metis handle_slot)
  then have "h = 0x80000000 \<or> h = 0x80000001 \<or> h = 0x80000002"
    by (auto simp: handle_of_def TRANSIENT_FIRST_def)
  then show "HandleGetType h = TPM_HT_TRANSIENT" "HandleGetType h \<noteq> TPM_HT_PERMANENT"
    "\<not> (0x80FF0000 \<le> h \<and> h \<le> 0x80FF00FF)" "h \<noteq> TPM_RH_UNASSIGNED"
    by (auto simp: HandleGetType_def tpm_consts)
qed

lemma HandleToObject_loaded:
  assumes "obj_lookup s h = Some ob"
  shows "HandleToObject s h = Ret (Some (slot_of h))" "deref s (Some (slot_of h)) = Ret ob"
    "s_objects s ! slot_of h = ob" "slot_of h < MAX_LOADED_OBJECTS"
    "GetHierarchy s h = Ret (hierarchy ob)"
  using assms slot_handle_type [of h]
  by (auto simp: obj_lookup_Some HandleToObject_def deref_def GetHierarchy_def)

definition seq_at :: "obj_state \<Rightarrow> TPM_HANDLE \<Rightarrow> PQC_SEQ_STATE option" where
  "seq_at s h = (case obj_lookup s h of
      Some ob \<Rightarrow> if pqcSeq (o_attributes ob) then Some (pqcState ob) else None | None \<Rightarrow> None)"

lemma seq_at_Some:
  "seq_at s h = Some q \<longleftrightarrow> (\<exists>ob. obj_lookup s h = Some ob \<and> pqcSeq (o_attributes ob) \<and> pqcState ob = q)"
  by (auto simp: seq_at_def split: option.splits if_splits)

lemma PqcSequenceIsHandle_eq: "PqcSequenceIsHandle s h = Ret (seq_at s h \<noteq> None)"
proof (cases "obj_lookup s h")
  case None
  then show ?thesis
    by (auto simp: PqcSequenceIsHandle_def seq_at_def obj_lookup_def split: if_splits)
next
  case (Some ob)
  then have "IsObjectPresent s h"
    by (auto simp: obj_lookup_def split: if_splits)
  then show ?thesis
    using HandleToObject_loaded [OF Some] slot_handle_type [of h] Some
    by (simp add: PqcSequenceIsHandle_def seq_at_def)
qed

lemma PqcSequenceFromHandle_eq:
  "PqcSequenceFromHandle s h = Ret (if seq_at s h = None then None else Some (slot_of h))"
proof (cases "seq_at s h")
  case (Some q)
  then have "HandleToObject s h = Ret (Some (slot_of h))"
    unfolding seq_at_Some by (auto simp: HandleToObject_loaded)
  with Some show ?thesis
    by (simp add: PqcSequenceFromHandle_def PqcSequenceIsHandle_eq)
qed (simp add: PqcSequenceFromHandle_def PqcSequenceIsHandle_eq)

lemma seq_at_nth: "seq_at s h = Some q \<Longrightarrow> pqcState (s_objects s ! slot_of h) = q"
  by (auto simp: seq_at_Some HandleToObject_loaded)

lemma seq_at_lookup: "seq_at s h = Some q \<Longrightarrow> obj_lookup s h \<noteq> None"
  by (auto simp: seq_at_Some)

section \<open>Flushing\<close>

definition flushed :: "TPM_HANDLE \<Rightarrow> obj_state \<Rightarrow> obj_state" where
  "flushed h s = upd_slot (slot_of h) (upd_attr (\<lambda>_. OBJECT_ATTRIBUTES_zero)) s"

lemma FlushObject_loaded:
  "obj_lookup s h \<noteq> None \<Longrightarrow> FlushObject h s = Ret (flushed h s)"
  by (auto simp: FlushObject_def flushed_def dest: HandleToObject_loaded(4))

lemma obj_release_flushed:
  "obj_lookup s h \<noteq> None \<Longrightarrow> obj_release h s = Some (flushed h s)"
  by (simp add: obj_release_def FlushObject_loaded)

lemma flushed_lookup:
  assumes "obj_ok s" "obj_lookup s h \<noteq> None"
  shows "obj_ok (flushed h s)" "obj_lookup (flushed h s) = (obj_lookup s)(h := None)"
    "obj_alloc (flushed h s) \<noteq> None"
  using slots.release_some [OF assms] slots.alloc_after_release [OF assms]
  by (auto simp: obj_release_flushed assms(2) [unfolded not_None_eq])

lemma flush_return_seq:
  "seq_at s h \<noteq> None \<Longrightarrow> flush_return h r s = Ret (r, flushed h s)"
  by (auto simp: flush_return_def PqcSequenceFlush_def PqcSequenceIsHandle_eq seq_at_Some
      FlushObject_loaded)

section \<open>Starting\<close>

definition signing_pub :: "TPMT_PUBLIC \<Rightarrow> bool" where
  "signing_pub pub \<longleftrightarrow> ta_sign (objectAttributes pub)
     \<and> (pub_type pub = TPM_ALG_MLDSA \<or> pub_type pub = TPM_ALG_HASH_MLDSA)"

lemma get_signing_key_loaded:
  assumes "obj_lookup s kh = Some key" "signing_pub (publicArea key)"
  shows "get_signing_key s kh b = Ret (Inr (slot_of kh))"
  using HandleToObject_loaded [OF assms(1)] assms(2)
  by (auto simp: get_signing_key_def signing_pub_def Let_def)

lemma PqcSequenceAllocate_Some:
  assumes "obj_ok s" "obj_alloc s = Some (h, t)"
  shows "PqcSequenceAllocate b auth s
    = (h, upd_slot (slot_of h) (\<lambda>_. pqc_sequence_object b auth fresh_object) s)"
    "slot_of h < MAX_LOADED_OBJECTS" "obj_lookup s h = None"
proof -
  obtain i where a: "ObjectAllocateSlot s = (Some i, t)" and h: "h = handle_of i"
    using assms(2) by (auto simp: obj_alloc_def split: prod.splits option.splits)
  have i: "i < MAX_LOADED_OBJECTS" "t = upd_slot i (\<lambda>_. fresh_object) s"
    using a ObjectAllocateSlot_Some [OF assms(1)] by auto
  show "PqcSequenceAllocate b auth s
    = (h, upd_slot (slot_of h) (\<lambda>_. pqc_sequence_object b auth fresh_object) s)"
    using a i by (simp add: PqcSequenceAllocate_def h handle_of_small comp_def)
  show "slot_of h < MAX_LOADED_OBJECTS" "obj_lookup s h = None"
    using obj_alloc_Some [OF assms] by auto
qed

definition started :: "bool \<Rightarrow> TPM_HANDLE \<Rightarrow> TPMT_PUBLIC \<Rightarrow> bytes \<Rightarrow> bytes \<Rightarrow> OBJECT" where
  "started sign kh pub auth ctx =
     upd_pqc (bind_key kh pub ctx []) (pqc_sequence_object sign (Some auth) fresh_object)"

lemma occ_pqc [simp]:
  "occ (pqc_sequence_object b a ob)" "occ (upd_pqc f ob) = occ ob"
  "pqcSeq (o_attributes (pqc_sequence_object b a ob))"
  "o_attributes (upd_pqc f ob) = o_attributes ob"
  "pqcState (upd_pqc f ob) = f (pqcState ob)"
  "pqcState (pqc_sequence_object b a ob) = PQC_SEQ_STATE_zero\<lparr>isSign := b\<rparr>"
  by (simp_all add: pqc_sequence_object_def upd_pqc_def)

text \<open>Either start command; the hint of a verification is empty.\<close>

definition start_sequence ::
  "bool \<Rightarrow> TPM_HANDLE \<Rightarrow> bytes \<Rightarrow> bytes \<Rightarrow> obj_state \<Rightarrow> ((TPM_RC + TPM_HANDLE) \<times> obj_state) outcome" where
  "start_sequence sign kh auth ctx s =
     (if sign then TPM2_SignSequenceStart kh auth ctx s else TPM2_VerifySequenceStart kh auth [] ctx s)"

lemma seq_start:
  assumes "obj_ok s" "obj_lookup s kh = Some key" "signing_pub (publicArea key)"
    and "obj_alloc s = Some (h, t)"
  shows "\<exists>u. start_sequence sign kh auth ctx s = Ret (Inr h, u) \<and> obj_ok u
    \<and> obj_lookup u = (obj_lookup s)(h \<mapsto> started sign kh (publicArea key) auth ctx)"
proof -
  note al = PqcSequenceAllocate_Some [OF assms(1,4)]
  define t1 where "t1 b = upd_slot (slot_of h) (\<lambda>_. pqc_sequence_object b (Some auth) fresh_object) s" for b
  have lk: "obj_lookup (t1 b) = (obj_lookup s)(h \<mapsto> pqc_sequence_object b (Some auth) fresh_object)" for b
    using obj_lookup_upd [OF assms(1) al(2)] by (auto simp: t1_def)
  have ne: "kh \<noteq> h"
    using al(3) assms(2) by auto
  have seq: "seq_at (t1 b) h = Some (PQC_SEQ_STATE_zero\<lparr>isSign := b\<rparr>)" for b
    by (simp add: seq_at_def lk)
  have key: "s_objects (t1 b) ! slot_of kh = key" for b
    using HandleToObject_loaded(3) [of "t1 b" kh key] ne assms(2) by (simp add: lk)
  have h: "h \<noteq> TPM_RH_UNASSIGNED"
    using slot_handle_type [OF al(2)] by simp
  define u where "u b = upd_slot (slot_of h) (\<lambda>ob. upd_pqc
      (bind_key kh (publicArea (s_objects (t1 b) ! slot_of kh)) ctx (hint (pqcState ob))) ob) (t1 b)" for b
  have uu: "u b = upd_slot (slot_of h) (\<lambda>_. started b kh (publicArea key) auth ctx) s" for b
    by (simp add: u_def key) (simp add: t1_def comp_def started_def PQC_SEQ_STATE_zero_def)
  have "start_sequence sign kh auth ctx s = Ret (Inr h, u sign)"
    by (auto simp: start_sequence_def TPM2_SignSequenceStart_def TPM2_VerifySequenceStart_def
        get_signing_key_loaded [OF assms(2,3)] al(1) t1_def [symmetric] h PqcSequenceFromHandle_eq
        seq u_def) (simp add: t1_def comp_def PQC_SEQ_STATE_zero_def)
  moreover have "obj_ok (u sign)"
    using assms(1) by (simp add: uu)
  moreover have "obj_lookup (u sign) = (obj_lookup s)(h \<mapsto> started sign kh (publicArea key) auth ctx)"
    using obj_lookup_upd [OF assms(1) al(2)] by (auto simp: uu started_def)
  ultimately show ?thesis by blast
qed

section \<open>Updates\<close>

text \<open>
  The specification of a verification buffer: each chunk is appended if it fits and is refused
  otherwise.
\<close>

fun absorb :: "bytes \<Rightarrow> bytes list \<Rightarrow> TPM_RC list \<times> bytes" where
  "absorb acc [] = ([], acc)"
| "absorb acc (c # cs) =
     (if 4096 < length acc + length c
      then case absorb acc cs of (rcs, r) \<Rightarrow> (TPM_RC_SIZE # rcs, r)
      else case absorb (acc @ c) cs of (rcs, r) \<Rightarrow> (TPM_RC_SUCCESS # rcs, r))"

text \<open>\<^verbatim>\<open>TPM2_SequenceUpdate\<close> once per chunk.\<close>

fun feed :: "TPM_HANDLE \<Rightarrow> bytes list \<Rightarrow> obj_state \<Rightarrow> (TPM_RC list \<times> obj_state) outcome" where
  "feed sh [] s = Ret ([], s)"
| "feed sh (c # cs) s = obind (TPM2_SequenceUpdate sh c s) (\<lambda>(rc, s1).
     obind (feed sh cs s1) (\<lambda>(rcs, s2). Ret (rc # rcs, s2)))"

definition seq_wf :: "PQC_SEQ_STATE \<Rightarrow> bool" where
  "seq_wf q \<longleftrightarrow> length (buffer q) = unat (bufferUsed q) \<and> length (buffer q) \<le> 4096"

definition with_buffer :: "bytes \<Rightarrow> PQC_SEQ_STATE \<Rightarrow> PQC_SEQ_STATE" where
  "with_buffer b q = q\<lparr>buffer := b, bufferUsed := word_of_nat (length b)\<rparr>"

lemma seq_wf_with_buffer: "seq_wf q \<Longrightarrow> with_buffer (buffer q) q = q"
  by (simp add: seq_wf_def with_buffer_def)

lemma with_buffer_sel [simp]:
  "isSign (with_buffer b q) = isSign q" "buffer (with_buffer b q) = b"
  "with_buffer b (with_buffer c q) = with_buffer b q"
  "sig_context (with_buffer b q) = sig_context q" "keyHandle (with_buffer b q) = keyHandle q"
  by (simp_all add: with_buffer_def)

lemma seq_wf_with [simp]: "length b \<le> 4096 \<Longrightarrow> seq_wf (with_buffer b q)"
  by (simp add: seq_wf_def with_buffer_def take_bit_nat_eq_self unat_of_nat)

lemma PqcSequenceUpdate_wf:
  assumes "seq_wf q" "\<not> isSign q" "length c < 2 ^ 16"
  shows "PqcSequenceUpdate (Some q) c =
    (if 4096 < length (buffer q) + length c then (TPM_RC_SIZE, Some q)
     else (TPM_RC_SUCCESS, Some (with_buffer (buffer q @ c) q)))"
proof -
  let ?n = "length (buffer q) + length c"
  have w: "bufferUsed q + word_of_nat (length c) = (word_of_nat ?n :: u32)"
    using assms(1) by (simp add: seq_wf_def)
  have "unat (word_of_nat ?n :: u32) = ?n"
    using assms(1,3) by (intro unat_u32_of_nat) (simp add: seq_wf_def)
  then have "MAX_PQC_SEQ_BUFFER < word_of_nat ?n \<longleftrightarrow> 4096 < ?n"
    by (simp add: word_less_nat_alt MAX_PQC_SEQ_BUFFER_def del: of_nat_add)
  moreover have "c = [] \<Longrightarrow> with_buffer (buffer q @ c) q = q"
    using seq_wf_with_buffer [OF assms(1)] by simp
  ultimately show ?thesis
    using assms w by (auto simp: PqcSequenceUpdate_def with_buffer_def seq_wf_def simp del: of_nat_add)
qed

lemma upd_pqc_lookup:
  assumes "obj_ok s" "obj_lookup s h = Some ob"
  shows "obj_lookup (upd_slot (slot_of h) (upd_pqc f) s) = (obj_lookup s)(h \<mapsto> upd_pqc f ob)"
proof -
  note l = HandleToObject_loaded [OF assms(2)]
  have "occ ob"
    using assms(2) by (rule obj_lookup_occ)
  then show ?thesis
    using obj_lookup_upd [OF assms(1) l(4)] l(3) by auto
qed

lemma SequenceUpdate_verify:
  assumes "obj_ok s" "obj_lookup s sh = Some ob" "pqcSeq (o_attributes ob)"
    and "seq_wf (pqcState ob)" "\<not> isSign (pqcState ob)" "length c < 2 ^ 16"
  defines "fits \<equiv> length (buffer (pqcState ob)) + length c \<le> 4096"
  shows "\<exists>u. TPM2_SequenceUpdate sh c s = Ret (if fits then TPM_RC_SUCCESS else TPM_RC_SIZE, u)
    \<and> obj_ok u \<and> obj_lookup u = (obj_lookup s)(sh \<mapsto> if fits
        then upd_pqc (with_buffer (buffer (pqcState ob) @ c)) ob else ob)"
proof -
  have sq: "seq_at s sh = Some (pqcState ob)"
    using assms(2,3) by (simp add: seq_at_def)
  have nth: "s_objects s ! slot_of sh = ob"
    using HandleToObject_loaded [OF assms(2)] by simp
  define q' where "q' = (if fits then with_buffer (buffer (pqcState ob) @ c) (pqcState ob) else pqcState ob)"
  have up: "PqcSequenceUpdate (Some (pqcState ob)) c = (if fits then TPM_RC_SUCCESS else TPM_RC_SIZE, Some q')"
    using PqcSequenceUpdate_wf [OF assms(4-6)] by (auto simp: fits_def q'_def not_le)
  have "TPM2_SequenceUpdate sh c s = Ret (if fits then TPM_RC_SUCCESS else TPM_RC_SIZE,
      upd_slot (slot_of sh) (upd_pqc (\<lambda>_. q')) s)"
    by (simp add: TPM2_SequenceUpdate_def PqcSequenceIsHandle_eq PqcSequenceFromHandle_eq sq nth up)
  moreover have "upd_pqc (\<lambda>_. q') ob = (if fits
        then upd_pqc (with_buffer (buffer (pqcState ob) @ c)) ob else ob)"
    by (simp add: upd_pqc_def q'_def)
  ultimately show ?thesis
    using upd_pqc_lookup [OF assms(1,2), of "\<lambda>_. q'"] assms(1) by simp
qed

lemma feed_verify:
  assumes "obj_ok s" "obj_lookup s sh = Some ob" "pqcSeq (o_attributes ob)"
    and "seq_wf (pqcState ob)" "\<not> isSign (pqcState ob)" "\<forall>c \<in> set cs. length c < 2 ^ 16"
  shows "\<exists>u. feed sh cs s = Ret (fst (absorb (buffer (pqcState ob)) cs), u) \<and> obj_ok u
    \<and> obj_lookup u = (obj_lookup s)(sh \<mapsto>
        upd_pqc (with_buffer (snd (absorb (buffer (pqcState ob)) cs))) ob)
    \<and> length (snd (absorb (buffer (pqcState ob)) cs)) \<le> 4096"
  using assms
proof (induction cs arbitrary: s ob)
  case Nil
  then have "upd_pqc (with_buffer (buffer (pqcState ob))) ob = ob"
    by (simp add: upd_pqc_def seq_wf_with_buffer)
  with Nil show ?case
    by (auto simp: seq_wf_def)
next
  case (Cons c cs)
  let ?b = "buffer (pqcState ob)"
  let ?fits = "length ?b + length c \<le> 4096"
  let ?ob = "if ?fits then upd_pqc (with_buffer (?b @ c)) ob else ob"
  obtain u where u: "TPM2_SequenceUpdate sh c s = Ret (if ?fits then TPM_RC_SUCCESS else TPM_RC_SIZE, u)"
    "obj_ok u" "obj_lookup u = (obj_lookup s)(sh \<mapsto> ?ob)"
    using SequenceUpdate_verify [OF Cons.prems(1-5)] Cons.prems(6) by force
  have ob: "obj_lookup u sh = Some ?ob" "pqcSeq (o_attributes ?ob)" "seq_wf (pqcState ?ob)"
    "\<not> isSign (pqcState ?ob)" "\<forall>c \<in> set cs. length c < 2 ^ 16"
    using u(3) Cons.prems by auto
  have b: "buffer (pqcState ?ob) = (if ?fits then ?b @ c else ?b)"
    by simp
  have up: "upd_pqc (with_buffer x) ?ob = upd_pqc (with_buffer x) ob" for x
    by (simp add: upd_pqc_def)
  from Cons.IH [OF u(2) ob] obtain v where
    "feed sh cs u = Ret (fst (absorb (if ?fits then ?b @ c else ?b) cs), v)" "obj_ok v"
    "obj_lookup v = (obj_lookup u)(sh \<mapsto>
       upd_pqc (with_buffer (snd (absorb (if ?fits then ?b @ c else ?b) cs))) ob)"
    "length (snd (absorb (if ?fits then ?b @ c else ?b) cs)) \<le> 4096"
    unfolding b up by blast
  then show ?case
    using u by (auto split: prod.splits simp: not_le)
qed

lemma absorb_fits:
  "length acc + length (concat cs) \<le> 4096 \<Longrightarrow>
     absorb acc cs = (replicate (length cs) TPM_RC_SUCCESS, acc @ concat cs)"
  by (induction cs arbitrary: acc) auto

section \<open>Completion\<close>

lemma SignSequenceComplete_eq:
  assumes "seq_at s sh = Some q" "obj_lookup s kh = Some key"
  shows "TPM2_SignSequenceComplete ev sh kh buf out s =
    (if \<not> isSign q then Ret ((TPM_RC_MODE + RC_SignSequenceComplete_sequenceHandle, out), s)
     else Ret (if kh \<noteq> keyHandle q then (TPM_RC_HANDLE + RC_SignSequenceComplete_keyHandle, out)
               else if bufferUsed q \<noteq> 0 then (TPM_RC_ONE_SHOT_SIGNATURE, out)
               else CryptMlDsaSignMessage ev out key buf (seq_context q), flushed sh s))"
  using assms HandleToObject_loaded [OF assms(2)]
  by (cases "kh = keyHandle q")
    (simp_all add: TPM2_SignSequenceComplete_def PqcSequenceFromHandle_eq seq_at_nth flush_return_seq Let_def)

lemma VerifySequenceComplete_eq:
  assumes "seq_at s sh = Some q" "obj_lookup s kh = Some key"
  shows "TPM2_VerifySequenceComplete ev te hs sh kh sig s =
    (if isSign q then Ret (Inl (TPM_RC_MODE + RC_VerifySequenceComplete_sequenceHandle), s)
     else let rc = CryptMlDsaValidateSignatureMessage ev sig key
                     (take (unat (bufferUsed q)) (buffer q)) (seq_context q)
          in Ret (if kh \<noteq> keyHandle q then Inl (TPM_RC_HANDLE + RC_VerifySequenceComplete_keyHandle)
               else if rc \<noteq> TPM_RC_SUCCESS then Inl (rc + RC_VerifySequenceComplete_signature)
               else message_ticket te hs (hierarchy key) key, flushed sh s))"
  using assms HandleToObject_loaded [OF assms(2)]
  by (cases "kh = keyHandle q")
    (simp_all add: TPM2_VerifySequenceComplete_def PqcSequenceFromHandle_eq seq_at_nth flush_return_seq Let_def)

section \<open>An instance of the provider\<close>

text \<open>
  A concrete provider for the witnesses. A key is its algorithm name and its seed or public key,
  whose first byte determines everything; a signature repeats a checksum of context and message.
\<close>

definition toy_tag :: "string \<times> bytes \<Rightarrow> string option \<Rightarrow> bytes option \<Rightarrow> bytes \<Rightarrow> u8" where
  "toy_tag k inst ctx m = hd (snd k) + sum_list (case ctx of None \<Rightarrow> [] | Some c \<Rightarrow> c) + sum_list m"

definition demo_evp :: "(string \<times> bytes) evp" where
  "demo_evp = \<lparr>DRBG_Generate = (\<lambda>n. Some (replicate n 7)), RAND_bytes = (\<lambda>n. Some (replicate n 7)),
     CTX_new_from_name = (\<lambda>_. True), fromdata_init = (\<lambda>_. True),
     fromdata_seed = (\<lambda>alg seed. Some (alg, seed)), fromdata_pub = (\<lambda>alg pk. Some (alg, pk)),
     keygen_init = (\<lambda>_. True), keygen_set_seed = (\<lambda>_ _. True),
     keygen_generate = (\<lambda>alg seed. Some (alg, seed)),
     get_pub_key = (\<lambda>k. Some (replicate (if fst k = ''ML-DSA-44'' then 1312 else 800) (hd (snd k)))),
     CTX_new_from_pkey = (\<lambda>_. True), encapsulate_init = (\<lambda>_. True),
     encapsulate = (\<lambda>k. Some (replicate 768 3, replicate 32 (hd (snd k) + 3))),
     decapsulate_init = (\<lambda>_. True),
     decapsulate = (\<lambda>k ct. Some (replicate 32 (hd (snd k) + hd ct))),
     MD_CTX_new = True, sign_init = (\<lambda>_ _. True), verify_init = (\<lambda>_ _. True),
     set_context_string = (\<lambda>_ _. True), DigestSign_len = (\<lambda>_ _ _ _. Some 2420),
     DigestSign = (\<lambda>k inst ctx m. Some (replicate 2420 (toy_tag k inst ctx m))),
     DigestVerify = (\<lambda>k inst ctx m sg. sg = replicate 2420 (toy_tag k inst ctx m))\<rparr>"

definition demo_kh :: TPM_HANDLE where "demo_kh = 0x80000000"
definition demo_sh :: TPM_HANDLE where "demo_sh = 0x80000001"

lemma demo_handles: "demo_sh \<noteq> demo_kh" "slot_of demo_sh = 1" "slot_of demo_kh = 0"
  by (simp_all add: demo_kh_def demo_sh_def slot_of_def TRANSIENT_FIRST_def)

definition demo_pub :: TPMT_PUBLIC where
  "demo_pub = \<lparr>pub_type = TPM_ALG_MLDSA, nameAlg = TPM_ALG_SHA256,
     objectAttributes = TPMA_OBJECT_zero\<lparr>ta_sign := True, ta_restricted := True\<rparr>, authPolicy = [],
     parameterSet = TPM_MLDSA_44, allowExternalMu = True, unique = replicate 1312 7\<rparr>"

definition demo_key :: OBJECT where
  "demo_key = fresh_object\<lparr>publicArea := demo_pub, hierarchy := TPM_RH_OWNER, o_name := [1, 2, 3],
     sensitive := \<lparr>sens_auth = [], sens_seed = [], sens_key = replicate 32 7\<rparr>\<rparr>"

definition demo_seq :: "bool \<Rightarrow> bytes \<Rightarrow> OBJECT" where
  "demo_seq sign msg = upd_pqc (with_buffer msg) (started sign demo_kh demo_pub [] [])"

definition demo_slots :: "bool \<Rightarrow> bytes \<Rightarrow> obj_state" where
  "demo_slots sign msg = \<lparr>s_objects = [demo_key, demo_seq sign msg, OBJECT_zero],
     g_DRTMHandle = TPM_RH_UNASSIGNED\<rparr>"

definition demo_sig :: "u8 \<Rightarrow> TPMT_SIGNATURE" where
  "demo_sig v = \<lparr>sigAlg = TPM_ALG_MLDSA, mldsa = replicate 2420 v, hm_hash = 0, hm_signature = []\<rparr>"

lemma demo_slots_ok: "length (s_objects (demo_slots b m)) = MAX_LOADED_OBJECTS"
  by (simp add: demo_slots_def MAX_LOADED_OBJECTS_def)

lemma demo_slots_lookup:
  "obj_lookup (demo_slots b m) demo_kh = Some demo_key"
  "obj_lookup (demo_slots b m) demo_sh = Some (demo_seq b m)"
  by (simp_all add: obj_lookup_Some demo_slots_def MAX_LOADED_OBJECTS_def demo_seq_def started_def
      demo_key_def demo_handles)

lemma demo_seq_sel:
  "pqcSeq (o_attributes (demo_seq b m))" "isSign (pqcState (demo_seq b m)) = b"
  "keyHandle (pqcState (demo_seq b m)) = demo_kh" "buffer (pqcState (demo_seq b m)) = m"
  "bufferUsed (pqcState (demo_seq b m)) = word_of_nat (length m)"
  "sig_context (pqcState (demo_seq b m)) = []"
  by (simp_all add: demo_seq_def started_def bind_key_def with_buffer_def)

lemma demo_seq_at: "seq_at (demo_slots b m) demo_sh = Some (pqcState (demo_seq b m))"
  by (simp add: seq_at_Some demo_slots_lookup demo_seq_sel)

lemma demo_verify_message:
  "CryptMlDsaValidateSignatureMessage demo_evp (demo_sig (7 + sum_list m)) demo_key m None = TPM_RC_SUCCESS"
  by (simp add: CryptMlDsaValidateSignatureMessage_def demo_evp_def demo_sig_def demo_key_def
      demo_pub_def MlDsa_GetParamSet_def CryptMlDsaAlgName_def CryptMlDsaSigSize_def
      signature_bytes_def PkeyFromPub_def instance_param_def context_ok_def nonempty_ctx_def
      toy_tag_def tpm_consts Let_def)

section \<open>Properties\<close>

text \<open>
  C30: \<^verbatim>\<open>TPM2_SequenceUpdate\<close> on an ML-DSA verification sequence implements the append-if-it-fits
  specification over any series of chunks: the response codes and the collected message are those
  of the specification, the buffer never exceeds its 4096 bytes, no other handle is touched and
  the bound key, the context and the attributes of the sequence stay. A signing sequence refuses
  every chunk and stays as it is.
\<close>
theorem sequence_updates_refine:
  assumes "length (s_objects s) = MAX_LOADED_OBJECTS" "obj_lookup s sh = Some ob"
    and "pqcSeq (o_attributes ob)" "seq_wf (pqcState ob)" "\<forall>c \<in> set cs. length c < 2 ^ 16"
  shows "(\<not> isSign (pqcState ob) \<longrightarrow>
       (\<exists>u. feed sh cs s = Ret (fst (absorb (buffer (pqcState ob)) cs), u)
         \<and> obj_lookup u = (obj_lookup s)(sh \<mapsto>
             ob\<lparr>pqcState := (pqcState ob)\<lparr>buffer := snd (absorb (buffer (pqcState ob)) cs),
                 bufferUsed := word_of_nat (length (snd (absorb (buffer (pqcState ob)) cs)))\<rparr>\<rparr>)
         \<and> length (snd (absorb (buffer (pqcState ob)) cs)) \<le> 4096))
    \<and> (isSign (pqcState ob) \<longrightarrow> feed sh cs s = Ret (map (\<lambda>_. TPM_RC_ONE_SHOT_SIGNATURE) cs, s))"
proof (intro conjI impI)
  assume "\<not> isSign (pqcState ob)"
  with feed_verify [of s sh ob cs] assms show "\<exists>u. feed sh cs s = Ret (fst (absorb (buffer (pqcState ob)) cs), u)
         \<and> obj_lookup u = (obj_lookup s)(sh \<mapsto>
             ob\<lparr>pqcState := (pqcState ob)\<lparr>buffer := snd (absorb (buffer (pqcState ob)) cs),
                 bufferUsed := word_of_nat (length (snd (absorb (buffer (pqcState ob)) cs)))\<rparr>\<rparr>)
         \<and> length (snd (absorb (buffer (pqcState ob)) cs)) \<le> 4096"
    by (auto simp: obj_ok_def upd_pqc_def with_buffer_def)
next
  assume sg: "isSign (pqcState ob)"
  have ok: "obj_ok s"
    using assms(1) by (simp add: obj_ok_def)
  note l = HandleToObject_loaded [OF assms(2)]
  have "upd_slot (slot_of sh) (upd_pqc (\<lambda>_. pqcState ob)) s = s"
    using list_update_id [of "s_objects s" "slot_of sh"] by (simp add: upd_slot_def upd_pqc_def l(3))
  moreover have "seq_at s sh = Some (pqcState ob)"
    using assms(2,3) by (simp add: seq_at_def)
  ultimately have "TPM2_SequenceUpdate sh c s = Ret (TPM_RC_ONE_SHOT_SIGNATURE, s)" for c
    using sg l(3) by (simp add: TPM2_SequenceUpdate_def PqcSequenceIsHandle_eq
        PqcSequenceFromHandle_eq PqcSequenceUpdate_def)
  then show "feed sh cs s = Ret (map (\<lambda>_. TPM_RC_ONE_SHOT_SIGNATURE) cs, s)"
    by (induction cs) simp_all
qed

theorem sequence_updates_refine_witness:
  "\<exists>u. feed demo_sh [[1], [2, 3]] (demo_slots False []) = Ret ([TPM_RC_SUCCESS, TPM_RC_SUCCESS], u)
    \<and> seq_at u demo_sh = Some ((pqcState (demo_seq False []))\<lparr>buffer := [1, 2, 3], bufferUsed := 3\<rparr>)"
proof -
  have wf: "seq_wf (pqcState (demo_seq False []))"
    by (simp add: seq_wf_def demo_seq_sel)
  have "\<forall>c \<in> set [[1], [2, 3 :: u8]]. length c < 2 ^ 16" by simp
  from sequence_updates_refine [OF demo_slots_ok demo_slots_lookup(2) demo_seq_sel(1) wf this]
  show ?thesis
    by (auto simp: demo_seq_sel seq_at_def)
qed

text \<open>
  C31: Completing a sequence releases its slot whatever the outcome: after
  \<^verbatim>\<open>TPM2_SignSequenceComplete\<close> on a signing sequence, or \<^verbatim>\<open>TPM2_VerifySequenceComplete\<close> on a
  verification sequence, with any loaded key, the sequence handle is gone, every other handle has
  its object and a slot can be allocated. A completion of the wrong kind changes nothing.
\<close>
theorem sequence_complete_releases:
  assumes "length (s_objects s) = MAX_LOADED_OBJECTS" "seq_at s sh = Some q"
    and "obj_lookup s kh = Some key"
  shows "(isSign q \<longrightarrow>
        (\<exists>r u. TPM2_SignSequenceComplete ev sh kh buf out s = Ret (r, u)
          \<and> obj_lookup u = (obj_lookup s)(sh := None) \<and> fst (ObjectAllocateSlot u) \<noteq> None)
        \<and> TPM2_VerifySequenceComplete ev te hs sh kh sig s
            = Ret (Inl (TPM_RC_MODE + RC_VerifySequenceComplete_sequenceHandle), s))
    \<and> (\<not> isSign q \<longrightarrow>
        (\<exists>r u. TPM2_VerifySequenceComplete ev te hs sh kh sig s = Ret (r, u)
          \<and> obj_lookup u = (obj_lookup s)(sh := None) \<and> fst (ObjectAllocateSlot u) \<noteq> None)
        \<and> TPM2_SignSequenceComplete ev sh kh buf out s
            = Ret ((TPM_RC_MODE + RC_SignSequenceComplete_sequenceHandle, out), s))"
proof -
  have ok: "obj_ok s"
    using assms(1) by (simp add: obj_ok_def)
  note f = flushed_lookup [OF ok seq_at_lookup [OF assms(2)]]
  have "fst (ObjectAllocateSlot (flushed sh s)) \<noteq> None"
    using f(3) by (auto simp: obj_alloc_def split: prod.splits option.splits)
  moreover have "isSign q \<Longrightarrow> \<exists>r. TPM2_SignSequenceComplete ev sh kh buf out s = Ret (r, flushed sh s)"
    "\<not> isSign q \<Longrightarrow> \<exists>r. TPM2_VerifySequenceComplete ev te hs sh kh sig s = Ret (r, flushed sh s)"
    using SignSequenceComplete_eq [OF assms(2,3), of ev buf out]
      VerifySequenceComplete_eq [OF assms(2,3), of ev te hs sig] unfolding Let_def by metis+
  ultimately show ?thesis
    using f(2) by (cases "isSign q")
      (simp_all add: SignSequenceComplete_eq [OF assms(2,3)] VerifySequenceComplete_eq [OF assms(2,3)] Let_def)
qed

theorem sequence_complete_releases_witness:
  "\<exists>r u. TPM2_SignSequenceComplete demo_evp demo_sh demo_kh [5] (demo_sig 0) (demo_slots True [])
      = Ret (r, u) \<and> obj_lookup u demo_sh = None \<and> obj_lookup u demo_kh = Some demo_key"
proof -
  have "demo_sh \<noteq> demo_kh"
    by (rule demo_handles)
  then show ?thesis
    using sequence_complete_releases [OF demo_slots_ok demo_seq_at [of True "[]"] demo_slots_lookup(1),
      of demo_evp "[5]" "demo_sig 0" demo_ticket_env demo_hier "demo_sig 0"]
    by (auto simp: demo_seq_sel demo_slots_lookup)
qed

text \<open>
  The ticket of \<^verbatim>\<open>TPM2_VerifySequenceComplete\<close> does not depend on the message or the
  signature: two successful verifications by keys of the same name, name algorithm and hierarchy
  give the same ticket, whatever the two sequences had collected.
\<close>
theorem message_ticket_ignores_message:
  assumes "seq_at s sh = Some q" "obj_lookup s kh = Some key"
    and "seq_at s' sh' = Some q'" "obj_lookup s' kh' = Some key'"
    and "o_name key = o_name key'" "hierarchy key = hierarchy key'"
    and "nameAlg (publicArea key) = nameAlg (publicArea key')"
    and "TPM2_VerifySequenceComplete ev te hs sh kh sig s = Ret (Inr t, u)"
    and "TPM2_VerifySequenceComplete ev te hs sh' kh' sig' s' = Ret (Inr t', u')"
  shows "t = t'"
proof -
  have "message_ticket te hs (hierarchy key) key = Inr t"
    using assms(8) [unfolded VerifySequenceComplete_eq [OF assms(1,2)] Let_def] by (auto split: if_splits)
  moreover have "message_ticket te hs (hierarchy key') key' = Inr t'"
    using assms(9) [unfolded VerifySequenceComplete_eq [OF assms(3,4)] Let_def] by (auto split: if_splits)
  moreover have "message_ticket te hs (hierarchy key) key = message_ticket te hs (hierarchy key') key'"
    unfolding message_ticket_def assms(5-7) ..
  ultimately show ?thesis by simp
qed

theorem message_ticket_ignores_message_witness:
  "\<exists>t u v. TPM2_VerifySequenceComplete demo_evp demo_ticket_env demo_hier demo_sh demo_kh
        (demo_sig 8) (demo_slots False [1]) = Ret (Inr t, u)
    \<and> TPM2_VerifySequenceComplete demo_evp demo_ticket_env demo_hier demo_sh demo_kh
        (demo_sig 9) (demo_slots False [2]) = Ret (Inr t, v)"
proof -
  have d: "\<exists>t u. TPM2_VerifySequenceComplete demo_evp demo_ticket_env demo_hier demo_sh demo_kh
        (demo_sig (7 + sum_list [x])) (demo_slots False [x]) = Ret (Inr t, u)" for x
    using demo_verify_message [of "[x]"]
    by (simp add: VerifySequenceComplete_eq [OF demo_seq_at demo_slots_lookup(1)] demo_seq_sel
        seq_context_def message_ticket_def HierarchyGetProof_cases DecomposeHandle_def demo_key_def
        tpm_consts)
  obtain t u where a: "TPM2_VerifySequenceComplete demo_evp demo_ticket_env demo_hier demo_sh
      demo_kh (demo_sig 8) (demo_slots False [1]) = Ret (Inr t, u)"
    using d [of 1] by auto
  obtain t' v where b: "TPM2_VerifySequenceComplete demo_evp demo_ticket_env demo_hier demo_sh
      demo_kh (demo_sig 9) (demo_slots False [2]) = Ret (Inr t', v)"
    using d [of 2] by auto
  have "t = t'"
    using message_ticket_ignores_message [OF demo_seq_at demo_slots_lookup(1) demo_seq_at
      demo_slots_lookup(1) refl refl refl a b] .
  with a b show ?thesis by blast
qed

text \<open>
  \<^verbatim>\<open>TPM2_SignSequenceComplete\<close> compares handles, not keys: whatever key is loaded under the
  handle recorded at the start signs the message, also when its type or parameter set is not the
  one the sequence recorded.
\<close>
theorem sign_sequence_signs_with_current_key:
  assumes "seq_at s sh = Some q" "isSign q" "bufferUsed q = 0"
    and "obj_lookup s (keyHandle q) = Some key"
  shows "\<exists>u. TPM2_SignSequenceComplete ev sh (keyHandle q) buf out s
      = Ret (CryptMlDsaSignMessage ev out key buf
          (if 0 < length (sig_context q) then Some (sig_context q) else None), u)"
  using assms(2,3) by (simp add: SignSequenceComplete_eq [OF assms(1,4)] seq_context_def)

theorem sign_sequence_signs_with_current_key_witness:
  "\<exists>u. TPM2_SignSequenceComplete demo_evp demo_sh demo_kh [5] (demo_sig 0)
      (upd_slot 0 (\<lambda>_. demo_key\<lparr>publicArea := demo_pub\<lparr>parameterSet := TPM_MLDSA_87\<rparr>\<rparr>) (demo_slots True []))
    = Ret (CryptMlDsaSignMessage demo_evp (demo_sig 0)
        (demo_key\<lparr>publicArea := demo_pub\<lparr>parameterSet := TPM_MLDSA_87\<rparr>\<rparr>) [5] None, u)"
proof -
  let ?k = "demo_key\<lparr>publicArea := demo_pub\<lparr>parameterSet := TPM_MLDSA_87\<rparr>\<rparr>"
  let ?s = "upd_slot 0 (\<lambda>_. ?k) (demo_slots True [])"
  have ok: "obj_ok (demo_slots True [])"
    by (simp add: obj_ok_def demo_slots_ok)
  have l: "obj_lookup ?s = (obj_lookup (demo_slots True []))(demo_kh \<mapsto> ?k)"
    using obj_lookup_upd [OF ok, of demo_kh]
    by (auto simp: MAX_LOADED_OBJECTS_def demo_key_def demo_handles)
  have "demo_sh \<noteq> demo_kh"
    by (rule demo_handles)
  then have "seq_at ?s demo_sh = Some (pqcState (demo_seq True []))"
    by (simp add: seq_at_def l demo_slots_lookup demo_seq_sel)
  from sign_sequence_signs_with_current_key [OF this, of ?k demo_evp "[5]" "demo_sig 0"] show ?thesis
    by (simp add: demo_seq_sel l)
qed

text \<open>
  A restricted key signs any digest in \<^verbatim>\<open>TPM2_SignDigest\<close> as soon as the ticket names a
  hierarchy other than the null one: neither the tag nor the digest of the ticket is looked at.
\<close>
theorem restricted_SignDigest_any_ticket:
  assumes "obj_lookup s kh = Some key" "ta_restricted (objectAttributes (publicArea key))"
    and "ta_sign (objectAttributes (publicArea key))"
    and "pub_type (publicArea key) = TPM_ALG_HASH_MLDSA
      \<or> pub_type (publicArea key) = TPM_ALG_MLDSA \<and> allowExternalMu (publicArea key)"
  shows "TPM2_SignDigest ev kh ctx digest ticket out s =
    Ret (if tk_hierarchy ticket = TPM_RH_NULL then (TPM_RC_TICKET + RC_SignDigest_validation, out)
         else CryptMlDsaSign ev out key digest (if 0 < length ctx then Some ctx else None))"
  using assms HandleToObject_loaded [OF assms(1)]
  by (auto simp: TPM2_SignDigest_def IsSigningObject_def external_mu_refused_def opt_context_def
      Let_def tpm_consts)

theorem restricted_SignDigest_any_ticket_witness:
  "TPM2_SignDigest demo_evp demo_kh [] [1, 2]
     \<lparr>tk_tag = 0, tk_hierarchy = TPM_RH_OWNER, tk_digest = []\<rparr> (demo_sig 0) (demo_slots True [])
   = Ret (CryptMlDsaSign demo_evp (demo_sig 0) demo_key [1, 2] None)"
  using restricted_SignDigest_any_ticket [OF demo_slots_lookup(1), of demo_evp "[]" "[1, 2]"
      "\<lparr>tk_tag = 0, tk_hierarchy = TPM_RH_OWNER, tk_digest = []\<rparr>" "demo_sig 0" True "[]"]
  by (simp add: demo_key_def demo_pub_def TPMA_OBJECT_zero_def tpm_consts)

text \<open>
  A started ML-DSA sequence is not exempt from the dictionary-attack logic, while a hash
  sequence is: the slot of the former does not carry noDA and its handle is not in the range that
  \<^verbatim>\<open>IsDAExempted\<close> exempts.
\<close>
theorem pqc_sequence_not_DA_exempt:
  assumes "length (s_objects s) = MAX_LOADED_OBJECTS" "obj_lookup s kh = Some key"
    and "ta_sign (objectAttributes (publicArea key))"
    and "pub_type (publicArea key) = TPM_ALG_MLDSA \<or> pub_type (publicArea key) = TPM_ALG_HASH_MLDSA"
    and "TPM2_SignSequenceStart kh auth ctx s = Ret (Inr sh, u)"
    and "ObjectCreateHashSequence alg (Some auth) s = (TPM_RC_SUCCESS, hh, v)"
    and "noDA = (\<lambda>w h. case ObjectGetPublicAttributes w h of Ret a \<Rightarrow> ta_noDA a | FailureMode \<Rightarrow> False)"
  shows "\<not> IsDAExempted (noDA u) nvNoDA sh \<and> IsDAExempted (noDA v) nvNoDA hh"
proof -
  have ok: "obj_ok s"
    using assms(1) by (simp add: obj_ok_def)
  obtain i where a: "ObjectAllocateSlot s = (Some i, snd (ObjectAllocateSlot s))"
    using assms(6) by (cases "ObjectAllocateSlot s", cases "fst (ObjectAllocateSlot s)")
      (auto simp: ObjectCreateHashSequence_def AllocateSequenceSlot_def tpm_consts)
  then have i: "ObjectAllocateSlot s = (Some i, upd_slot i (\<lambda>_. fresh_object) s)"
    "i < MAX_LOADED_OBJECTS"
    using ObjectAllocateSlot_Some [OF ok] by metis+
  then have hv: "hh = handle_of i"
    "v = upd_slot i (\<lambda>ob. upd_attr (hashSeq_update (\<lambda>_. True)) (ob\<lparr>hashState := [(alg, [])]\<rparr>))
           (snd (AllocateSequenceSlot (Some auth) s))"
    using assms(6) by (simp_all add: ObjectCreateHashSequence_def AllocateSequenceSlot_def)
  have al: "obj_alloc s = Some (hh, upd_slot i (\<lambda>_. fresh_object) s)"
    using i hv by (simp add: obj_alloc_def)
  have sl: "slot_of hh = i"
    using i hv by (simp add: handle_of_small)
  from seq_start [OF ok assms(2) _ al, of True auth ctx] assms(3-5)
  have u: "sh = hh" "obj_lookup u hh = Some (started True kh (publicArea key) auth ctx)"
    by (auto simp: signing_pub_def start_sequence_def)
  obtain vo where v: "obj_lookup v hh = Some vo" "ta_noDA (objectAttributes (publicArea vo))"
    using i hv(2) obj_lookup_upd [OF ok, of hh] sl
    by (auto simp: AllocateSequenceSlot_def comp_def upd_attr_def fresh_object_def ObjectSetInUse_def)
  note t = slot_handle_type [of hh]
  have "noDA v hh" "\<not> noDA u hh"
    using HandleToObject_loaded [OF v(1)] HandleToObject_loaded [OF u(2)] v(2)
    by (simp_all add: assms(7) ObjectGetPublicAttributes_def started_def upd_pqc_def
        pqc_sequence_object_def OBJECT_zero_def TPMA_OBJECT_zero_def)
  moreover have "TPM_HT_TRANSIENT \<noteq> TPM_HT_PERMANENT"
    by (simp add: tpm_consts)
  ultimately show ?thesis
    using t i(2) sl u(1) by (simp add: IsDAExempted_def)
qed

theorem pqc_sequence_not_DA_exempt_witness:
  "\<exists>sh u. TPM2_SignSequenceStart demo_kh [] [] (demo_slots True []) = Ret (Inr sh, u)
    \<and> \<not> IsDAExempted (\<lambda>h. case ObjectGetPublicAttributes u h of Ret a \<Rightarrow> ta_noDA a | FailureMode \<Rightarrow> False)
          (\<lambda>_. False) sh"
proof -
  let ?s = "demo_slots True []"
  have ok: "obj_ok ?s"
    by (simp add: obj_ok_def demo_slots_ok)
  have sp: "ta_sign (objectAttributes (publicArea demo_key))"
    "pub_type (publicArea demo_key) = TPM_ALG_MLDSA \<or> pub_type (publicArea demo_key) = TPM_ALG_HASH_MLDSA"
    by (simp_all add: demo_key_def demo_pub_def TPMA_OBJECT_zero_def)
  have "first_index (\<lambda>ob. \<not> occ ob) (s_objects ?s) = 2"
    by (simp add: demo_slots_def demo_key_def demo_seq_def started_def OBJECT_zero_def
        OBJECT_ATTRIBUTES_zero_def)
  then have a: "ObjectAllocateSlot ?s = (Some 2, upd_slot 2 (\<lambda>_. fresh_object) ?s)"
    using ObjectAllocateSlot_Some [OF ok, of 2] by (simp add: MAX_LOADED_OBJECTS_def)
  then have "obj_alloc ?s = Some (handle_of 2, upd_slot 2 (\<lambda>_. fresh_object) ?s)"
    by (simp add: obj_alloc_def)
  from seq_start [OF ok demo_slots_lookup(1) _ this, of True "[]" "[]"] sp
  obtain u where u: "TPM2_SignSequenceStart demo_kh [] [] ?s = Ret (Inr (handle_of 2), u)"
    by (auto simp: signing_pub_def start_sequence_def)
  moreover obtain hh v where
    "ObjectCreateHashSequence TPM_ALG_SHA256 (Some []) ?s = (TPM_RC_SUCCESS, hh, v)"
    by (simp add: ObjectCreateHashSequence_def AllocateSequenceSlot_def a)
  ultimately show ?thesis
    using pqc_sequence_not_DA_exempt [OF demo_slots_ok demo_slots_lookup(1) sp u _ refl,
      of TPM_ALG_SHA256 hh v "\<lambda>_. False"] by blast
qed

end
