(* ===== verification/Pqc_Roundtrip.thy ===== *)
theory Pqc_Roundtrip
  imports Pqc_Sequences
begin

text \<open>
  End-to-end properties of the ML-KEM and ML-DSA commands under the documented behaviour of the
  EVP provider: encapsulation and decapsulation with a key the TPM generated, and a signing
  sequence followed by a verification sequence over the same message in any partition into chunks.
\<close>

section \<open>What the provider promises\<close>

text \<open>
  FIPS 203 and 204 correctness of the provider: the key pair imported from a seed and the public
  key exported from it belong together.
\<close>

definition kem_correct :: "'k evp \<Rightarrow> bool" where
  "kem_correct ev \<longleftrightarrow> (\<forall>alg seed k pk k' ct ss.
     fromdata_seed ev alg seed = Some k \<and> get_pub_key ev k = Some pk
       \<and> fromdata_pub ev alg pk = Some k' \<and> encapsulate ev k' = Some (ct, ss)
     \<longrightarrow> CTX_new_from_pkey ev k \<and> decapsulate_init ev k \<and> decapsulate ev k ct = Some ss)"

definition mldsa_correct :: "'k evp \<Rightarrow> bool" where
  "mldsa_correct ev \<longleftrightarrow> (\<forall>alg seed k pk. fromdata_seed ev alg seed = Some k \<and> get_pub_key ev k = Some pk
     \<longrightarrow> (\<exists>k'. fromdata_pub ev alg pk = Some k'
       \<and> (\<forall>inst. sign_init ev k inst \<longrightarrow> verify_init ev k' inst)
       \<and> (\<forall>c. set_context_string ev k c \<longrightarrow> set_context_string ev k' c)
       \<and> (\<forall>inst c m n sg. DigestSign_len ev k inst c m = Some n \<and> DigestSign ev k inst c m = Some sg
            \<longrightarrow> length sg = n \<and> DigestVerify ev k' inst c m sg)))"

section \<open>Generated keys\<close>

lemma seed_or_generate_import:
  "PkeyFromSeed ev alg seed = Some k \<Longrightarrow> seed_or_generate ev alg seed = Some k"
  by (simp add: seed_or_generate_def)

lemma PkeyFromSeed_Some:
  "PkeyFromSeed ev alg seed = Some k \<longleftrightarrow>
     CTX_new_from_name ev alg \<and> fromdata_init ev alg \<and> fromdata_seed ev alg seed = Some k"
  by (simp add: PkeyFromSeed_def)

lemma PkeyFromPub_Some:
  "PkeyFromPub ev alg pk = Some k \<longleftrightarrow>
     CTX_new_from_name ev alg \<and> fromdata_init ev alg \<and> fromdata_pub ev alg pk = Some k"
  by (simp add: PkeyFromPub_def)

lemma kem_generated:
  assumes "CryptMlKemGenerateKey ev drbg pub = Inr (pk, seed)"
    and "CryptMlKemAlgName (MlKem_GetParamSet pub) = Some alg" "PkeyFromSeed ev alg seed = Some k"
  shows "get_pub_key ev k = Some pk" "length pk = CryptMlKemPubKeySize (MlKem_GetParamSet pub)"
  using assms seed_or_generate_import [OF assms(3)]
  by (auto simp: CryptMlKemGenerateKey_def Let_def split: if_splits option.splits)

lemma mldsa_generated:
  assumes "CryptMlDsaGenerateKey ev drbg pub = Inr (pk, seed)"
    and "CryptMlDsaAlgName (MlDsa_GetParamSet pub) = Some alg" "PkeyFromSeed ev alg seed = Some k"
  shows "get_pub_key ev k = Some pk"
  using assms seed_or_generate_import [OF assms(3)]
  by (auto simp: CryptMlDsaGenerateKey_def Let_def split: if_splits option.splits)

lemma Encapsulate_Inr:
  assumes "CryptMlKemEncapsulate ev key = Inr (ss, ct)"
  defines "ps \<equiv> MlKem_GetParamSet (publicArea key)"
  shows "\<exists>alg k'. CryptMlKemAlgName ps = Some alg \<and> PkeyFromPub ev alg (unique (publicArea key)) = Some k'
    \<and> encapsulate ev k' = Some (ct, ss) \<and> length ct = CryptMlKemCtSize ps
    \<and> length ss = MLKEM_SHARED_SECRET_SIZE"
  using assms by (auto simp: CryptMlKemEncapsulate_def Let_def split: if_splits option.splits)

lemma SignMessage_success:
  assumes "CryptMlDsaSignMessage ev out key m ctx = (TPM_RC_SUCCESS, sig)"
  defines "pub \<equiv> publicArea key"
  shows "\<exists>alg k inst sg. CryptMlDsaAlgName (MlDsa_GetParamSet pub) = Some alg
    \<and> CryptMlDsaSigSize (MlDsa_GetParamSet pub) \<noteq> 0
    \<and> PkeyFromSeed ev alg (sens_key (sensitive key)) = Some k \<and> MD_CTX_new ev
    \<and> instance_param pub = Inr inst \<and> sign_init ev k inst \<and> context_ok ev k ctx
    \<and> DigestSign_len ev k inst (nonempty_ctx ctx) m = Some (CryptMlDsaSigSize (MlDsa_GetParamSet pub))
    \<and> DigestSign ev k inst (nonempty_ctx ctx) m = Some sg
    \<and> sig = store_signature sg (select_sigAlg pub out)"
  using assms
  by (auto simp: CryptMlDsaSignMessage_def instance_param_def Let_def tpm_consts
      split: if_splits option.splits sum.splits)

lemma signature_bytes_store:
  "pub_type pub = TPM_ALG_MLDSA \<or> pub_type pub = TPM_ALG_HASH_MLDSA \<Longrightarrow>
     signature_bytes (store_signature sg (select_sigAlg pub out)) = Some sg"
  by (auto simp: signature_bytes_def store_signature_def select_sigAlg_def tpm_consts)

lemma context_ok_mono:
  "(\<And>c. set_context_string ev k c \<Longrightarrow> set_context_string ev k' c) \<Longrightarrow> context_ok ev k ctx \<Longrightarrow> context_ok ev k' ctx"
  by (auto simp: context_ok_def split: option.splits)

text \<open>A signature the TPM produced with a generated key verifies under the public key.\<close>

lemma signed_message_verifies:
  assumes sp: "pub_type (publicArea key) = TPM_ALG_MLDSA \<or> pub_type (publicArea key) = TPM_ALG_HASH_MLDSA"
    and gen: "CryptMlDsaGenerateKey ev drbg (publicArea key)
      = Inr (unique (publicArea key), sens_key (sensitive key))"
    and law: "mldsa_correct ev"
    and sig: "CryptMlDsaSignMessage ev out key m ctx = (TPM_RC_SUCCESS, sig)"
  shows "CryptMlDsaValidateSignatureMessage ev sig key m ctx = TPM_RC_SUCCESS"
proof -
  obtain alg k inst sg where s: "CryptMlDsaAlgName (MlDsa_GetParamSet (publicArea key)) = Some alg"
    "CryptMlDsaSigSize (MlDsa_GetParamSet (publicArea key)) \<noteq> 0"
    "PkeyFromSeed ev alg (sens_key (sensitive key)) = Some k" "MD_CTX_new ev"
    "instance_param (publicArea key) = Inr inst" "sign_init ev k inst" "context_ok ev k ctx"
    "DigestSign_len ev k inst (nonempty_ctx ctx) m
      = Some (CryptMlDsaSigSize (MlDsa_GetParamSet (publicArea key)))"
    "DigestSign ev k inst (nonempty_ctx ctx) m = Some sg"
    "sig = store_signature sg (select_sigAlg (publicArea key) out)"
    using SignMessage_success [OF sig] by blast
  have "fromdata_seed ev alg (sens_key (sensitive key)) = Some k"
    "get_pub_key ev k = Some (unique (publicArea key))" "CTX_new_from_name ev alg" "fromdata_init ev alg"
    using s(3) mldsa_generated [OF gen s(1,3)] by (simp_all add: PkeyFromSeed_Some)
  then obtain k' where "PkeyFromPub ev alg (unique (publicArea key)) = Some k'"
    "verify_init ev k' inst" "context_ok ev k' ctx"
    "length sg = CryptMlDsaSigSize (MlDsa_GetParamSet (publicArea key))"
    "DigestVerify ev k' inst (nonempty_ctx ctx) m sg"
    using law [unfolded mldsa_correct_def] s(6-9) context_ok_mono unfolding PkeyFromPub_Some by metis
  with s signature_bytes_store [OF sp, of sg out] show ?thesis
    by (simp add: CryptMlDsaValidateSignatureMessage_def)
qed

section \<open>Runs of the sequence commands\<close>

lemma started_sel:
  "pqcSeq (o_attributes (started b kh pub auth ctx))"
  "isSign (pqcState (started b kh pub auth ctx)) = b"
  "keyHandle (pqcState (started b kh pub auth ctx)) = kh"
  "bufferUsed (pqcState (started b kh pub auth ctx)) = 0"
  "buffer (pqcState (started b kh pub auth ctx)) = []"
  "sig_context (pqcState (started b kh pub auth ctx)) = ctx"
  by (simp_all add: started_def bind_key_def PQC_SEQ_STATE_zero_def)

lemma sign_run:
  assumes ok: "obj_ok s" and key: "obj_lookup s kh = Some key" and sp: "signing_pub (publicArea key)"
    and al: "obj_alloc s \<noteq> None"
    and sg: "CryptMlDsaSignMessage ev out key m (if 0 < length ctx then Some ctx else None)
      = (TPM_RC_SUCCESS, sig)"
  shows "\<exists>h s1 s2. TPM2_SignSequenceStart kh auth ctx s = Ret (Inr h, s1)
    \<and> TPM2_SignSequenceComplete ev h kh m out s1 = Ret ((TPM_RC_SUCCESS, sig), s2)
    \<and> obj_ok s2 \<and> obj_lookup s2 = obj_lookup s \<and> obj_alloc s2 \<noteq> None"
proof -
  obtain h t where h: "obj_alloc s = Some (h, t)"
    using al by auto
  have nh: "obj_lookup s h = None" "kh \<noteq> h"
    using slots.alloc_some [OF ok h] key by auto
  obtain s1 where s1: "TPM2_SignSequenceStart kh auth ctx s = Ret (Inr h, s1)" "obj_ok s1"
    "obj_lookup s1 = (obj_lookup s)(h \<mapsto> started True kh (publicArea key) auth ctx)"
    using seq_start [OF ok key sp h, of True auth ctx] by (auto simp: start_sequence_def)
  have q: "seq_at s1 h = Some (pqcState (started True kh (publicArea key) auth ctx))"
    "obj_lookup s1 kh = Some key"
    using nh key by (simp_all add: seq_at_def s1(3) started_sel)
  have "TPM2_SignSequenceComplete ev h kh m out s1 = Ret ((TPM_RC_SUCCESS, sig), flushed h s1)"
    using sg by (simp add: SignSequenceComplete_eq [OF q] started_sel seq_context_def split: if_splits)
  moreover note f = flushed_lookup [OF s1(2) seq_at_lookup [OF q(1)]]
  moreover have "obj_lookup (flushed h s1) = obj_lookup s"
    using f(2) nh(1) by (auto simp: s1(3))
  ultimately show ?thesis
    using s1(1) by blast
qed

lemma length_le_concat: "c \<in> set cs \<Longrightarrow> length c \<le> length (concat cs)"
  by (induction cs) auto

lemma verify_run:
  assumes ok: "obj_ok s" and key: "obj_lookup s kh = Some key" and sp: "signing_pub (publicArea key)"
    and al: "obj_alloc s \<noteq> None" and len: "length (concat chunks) \<le> 4096"
    and ver: "CryptMlDsaValidateSignatureMessage ev sig key (concat chunks)
      (if 0 < length ctx then Some ctx else None) = TPM_RC_SUCCESS"
  shows "\<exists>h s1 s2 s3. TPM2_VerifySequenceStart kh auth [] ctx s = Ret (Inr h, s1)
    \<and> feed h chunks s1 = Ret (replicate (length chunks) TPM_RC_SUCCESS, s2)
    \<and> TPM2_VerifySequenceComplete ev te hs h kh sig s2
        = Ret (message_ticket te hs (hierarchy key) key, s3) \<and> obj_lookup s3 = obj_lookup s"
proof -
  obtain h t where h: "obj_alloc s = Some (h, t)"
    using al by auto
  have nh: "obj_lookup s h = None" "kh \<noteq> h"
    using slots.alloc_some [OF ok h] key by auto
  define st where "st = started False kh (publicArea key) auth ctx"
  note sel = started_sel [of False kh "publicArea key" auth ctx, folded st_def]
  obtain s1 where s1: "TPM2_VerifySequenceStart kh auth [] ctx s = Ret (Inr h, s1)" "obj_ok s1"
    "obj_lookup s1 = (obj_lookup s)(h \<mapsto> st)"
    using seq_start [OF ok key sp h, of False auth ctx] by (auto simp: start_sequence_def st_def)
  have "\<forall>c \<in> set chunks. length c < 2 ^ 16"
    using len by (auto dest!: length_le_concat)
  moreover have "seq_wf (pqcState st)" "\<not> isSign (pqcState st)" "obj_lookup s1 h = Some st"
    using sel by (simp_all add: seq_wf_def s1(3))
  ultimately obtain s2 where s2: "feed h chunks s1 = Ret (replicate (length chunks) TPM_RC_SUCCESS, s2)"
    "obj_ok s2" "obj_lookup s2 = (obj_lookup s)(h \<mapsto> upd_pqc (with_buffer (concat chunks)) st)"
    using feed_verify [OF s1(2) _ sel(1), of h chunks] absorb_fits [of "[]" chunks] len by (auto simp: sel s1(3))
  let ?q = "with_buffer (concat chunks) (pqcState st)"
  have q: "seq_at s2 h = Some ?q" "obj_lookup s2 kh = Some key"
    using nh key sel(1) by (simp_all add: seq_at_def s2(3))
  have "unat (bufferUsed ?q) = length (concat chunks)"
    using seq_wf_with [OF len] unfolding seq_wf_def by simp
  then have "TPM2_VerifySequenceComplete ev te hs h kh sig s2
      = Ret (message_ticket te hs (hierarchy key) key, flushed h s2)"
    using ver by (simp add: VerifySequenceComplete_eq [OF q] sel seq_context_def split: if_splits)
  moreover have "obj_lookup (flushed h s2) = obj_lookup s"
    using flushed_lookup(2) [OF s2(2) seq_at_lookup [OF q(1)]] nh(1) by (auto simp: s2(3))
  ultimately show ?thesis
    using s1(1) s2(1) by blast
qed

section \<open>Properties\<close>

text \<open>
  C28: Encapsulation and decapsulation agree. For a loaded ML-KEM object whose public key and seed
  came from \<^verbatim>\<open>CryptMlKemGenerateKey\<close>, whose seed the provider can import and whose shared secret
  and ciphertext came from \<^verbatim>\<open>TPM2_Encapsulate\<close> under its handle, \<^verbatim>\<open>TPM2_Decapsulate\<close> of that
  ciphertext under the same handle returns that shared secret; both have the sizes of FIPS 203 and
  a ciphertext of any other length is refused with TPM_RC_SIZE.
\<close>
theorem kem_round_trip:
  assumes "obj_lookup s kh = Some key" "pub_type (publicArea key) = TPM_ALG_MLKEM"
    and "CryptMlKemGenerateKey ev drbg (publicArea key)
      = Inr (unique (publicArea key), sens_key (sensitive key))"
    and "CryptMlKemAlgName (parameterSet (publicArea key)) = Some alg"
    and "PkeyFromSeed ev alg (sens_key (sensitive key)) \<noteq> None"
    and "kem_correct ev"
    and "TPM2_Encapsulate ev kh s = Ret (Inr (ss, ct))"
  shows "TPM2_Decapsulate ev kh ct s = Ret (Inr ss) \<and> length ss = 32
    \<and> length ct = CryptMlKemCtSize (parameterSet (publicArea key))
    \<and> (length ct' \<noteq> length ct \<longrightarrow> TPM2_Decapsulate ev kh ct' s = Ret (Inl TPM_RC_SIZE))"
proof -
  note l = HandleToObject_loaded [OF assms(1)]
  have ps: "MlKem_GetParamSet (publicArea key) = parameterSet (publicArea key)"
    by (simp add: MlKem_GetParamSet_def assms(2))
  have "CryptMlKemEncapsulate ev key = Inr (ss, ct)"
    using assms(7) l by (simp add: TPM2_Encapsulate_def assms(2))
  from Encapsulate_Inr [OF this] obtain k' where e:
    "PkeyFromPub ev alg (unique (publicArea key)) = Some k'" "encapsulate ev k' = Some (ct, ss)"
    "length ct = CryptMlKemCtSize (parameterSet (publicArea key))" "length ss = MLKEM_SHARED_SECRET_SIZE"
    using assms(4) by (auto simp: ps)
  obtain k where k: "PkeyFromSeed ev alg (sens_key (sensitive key)) = Some k"
    using assms(5) by auto
  have "get_pub_key ev k = Some (unique (publicArea key))"
    using kem_generated(1) [OF assms(3) _ k] assms(4) by (simp add: ps)
  then have "CTX_new_from_pkey ev k \<and> decapsulate_init ev k \<and> decapsulate ev k ct = Some ss"
    using assms(6) e(1,2) k unfolding kem_correct_def PkeyFromSeed_Some PkeyFromPub_Some by blast
  then have "CryptMlKemDecapsulate ev ct key = Inr ss"
    using e k assms(4) by (simp add: CryptMlKemDecapsulate_def ps)
  moreover have "length ct' \<noteq> length ct \<Longrightarrow> CryptMlKemDecapsulate ev ct' key = Inl TPM_RC_SIZE"
    using e(3) assms(4) by (simp add: CryptMlKemDecapsulate_def ps)
  ultimately show ?thesis
    using l e by (simp add: TPM2_Decapsulate_def assms(2) MLKEM_SHARED_SECRET_SIZE_def)
qed

definition demo_kem :: OBJECT where
  "demo_kem = fresh_object\<lparr>publicArea := demo_pub\<lparr>pub_type := TPM_ALG_MLKEM, parameterSet := TPM_MLKEM_512,
     unique := replicate 800 7\<rparr>, sensitive := \<lparr>sens_auth = [], sens_seed = [], sens_key = replicate 64 7\<rparr>\<rparr>"

definition demo_kem_slots :: obj_state where
  "demo_kem_slots = \<lparr>s_objects = [demo_kem, OBJECT_zero, OBJECT_zero], g_DRTMHandle = TPM_RH_UNASSIGNED\<rparr>"

lemmas kem_defs = CryptMlKemGenerateKey_def CryptMlKemEncapsulate_def MlKem_GetParamSet_def
  CryptMlKemAlgName_def CryptMlKemPubKeySize_def CryptMlKemCtSize_def PkeyFromSeed_def PkeyFromPub_def
  draw_seed_def seed_or_generate_def

theorem kem_round_trip_witness:
  "\<exists>ss ct. TPM2_Encapsulate demo_evp demo_kh demo_kem_slots = Ret (Inr (ss, ct))
    \<and> TPM2_Decapsulate demo_evp demo_kh ct demo_kem_slots = Ret (Inr ss)"
proof -
  have l: "obj_lookup demo_kem_slots demo_kh = Some demo_kem"
    by (simp add: obj_lookup_Some demo_kem_slots_def demo_handles MAX_LOADED_OBJECTS_def demo_kem_def)
  have t: "pub_type (publicArea demo_kem) = TPM_ALG_MLKEM"
    by (simp add: demo_kem_def)
  have g: "CryptMlKemGenerateKey demo_evp True (publicArea demo_kem)
      = Inr (unique (publicArea demo_kem), sens_key (sensitive demo_kem))"
    by (simp add: demo_kem_def demo_evp_def kem_defs demo_pub_def tpm_consts)
  have a: "CryptMlKemAlgName (parameterSet (publicArea demo_kem)) = Some ''ML-KEM-512''"
    by (simp add: demo_kem_def CryptMlKemAlgName_def)
  have i: "PkeyFromSeed demo_evp ''ML-KEM-512'' (sens_key (sensitive demo_kem)) \<noteq> None"
    by (simp add: PkeyFromSeed_def demo_evp_def)
  have c: "kem_correct demo_evp"
    by (auto simp: kem_correct_def demo_evp_def)
  have e: "TPM2_Encapsulate demo_evp demo_kh demo_kem_slots = Ret (Inr (replicate 32 10, replicate 768 3))"
    using HandleToObject_loaded [OF l]
    by (simp add: TPM2_Encapsulate_def demo_kem_def demo_evp_def kem_defs demo_pub_def tpm_consts)
  show ?thesis
    using kem_round_trip [OF l t g a i c e] e by blast
qed

text \<open>
  C29: Signing and verification sequences fit together. With a loaded ML-DSA or HashML-DSA signing
  key that was generated by the TPM, a free slot and a provider that is correct, when the message
  can be signed then the run of \<^verbatim>\<open>TPM2_SignSequenceStart\<close>, \<^verbatim>\<open>TPM2_SignSequenceComplete\<close>,
  \<^verbatim>\<open>TPM2_VerifySequenceStart\<close>, one \<^verbatim>\<open>TPM2_SequenceUpdate\<close> for each chunk of any partition of the
  message up to 4096 bytes, and \<^verbatim>\<open>TPM2_VerifySequenceComplete\<close> succeeds in every step, ends with the
  message ticket of the key, and leaves every handle with the object it had.
\<close>
theorem sequence_round_trip:
  assumes "length (s_objects s) = MAX_LOADED_OBJECTS" "obj_lookup s kh = Some key"
    and "ta_sign (objectAttributes (publicArea key))"
    and "pub_type (publicArea key) = TPM_ALG_MLDSA \<or> pub_type (publicArea key) = TPM_ALG_HASH_MLDSA"
    and "CryptMlDsaGenerateKey ev drbg (publicArea key)
      = Inr (unique (publicArea key), sens_key (sensitive key))"
    and "mldsa_correct ev" "fst (ObjectAllocateSlot s) \<noteq> None" "length (concat chunks) \<le> 4096"
    and "CryptMlDsaSignMessage ev out key (concat chunks) (if 0 < length ctx then Some ctx else None)
      = (TPM_RC_SUCCESS, sig)"
  shows "\<exists>h s1 s2 h' s3 s4 s5.
    TPM2_SignSequenceStart kh auth ctx s = Ret (Inr h, s1)
    \<and> TPM2_SignSequenceComplete ev h kh (concat chunks) out s1 = Ret ((TPM_RC_SUCCESS, sig), s2)
    \<and> TPM2_VerifySequenceStart kh auth [] ctx s2 = Ret (Inr h', s3)
    \<and> feed h' chunks s3 = Ret (replicate (length chunks) TPM_RC_SUCCESS, s4)
    \<and> TPM2_VerifySequenceComplete ev te hs h' kh sig s4
        = Ret (message_ticket te hs (hierarchy key) key, s5)
    \<and> obj_lookup s5 = obj_lookup s"
proof -
  have ok: "obj_ok s" and sp: "signing_pub (publicArea key)"
    using assms(1,3,4) by (auto simp: obj_ok_def signing_pub_def)
  have al: "obj_alloc s \<noteq> None"
    using assms(7) by (cases "ObjectAllocateSlot s") (auto simp: obj_alloc_def)
  from sign_run [OF ok assms(2) sp al assms(9)] obtain h s1 s2 where s:
    "TPM2_SignSequenceStart kh auth ctx s = Ret (Inr h, s1)"
    "TPM2_SignSequenceComplete ev h kh (concat chunks) out s1 = Ret ((TPM_RC_SUCCESS, sig), s2)"
    "obj_ok s2" "obj_lookup s2 = obj_lookup s" "obj_alloc s2 \<noteq> None" by blast
  have "obj_lookup s2 kh = Some key"
    using assms(2) s(4) by simp
  from verify_run [OF s(3) this sp s(5) assms(8) signed_message_verifies [OF assms(4,5,6,9)]] s
  show ?thesis by metis
qed

theorem sequence_round_trip_witness:
  "\<exists>h s1 s2 h' s3 s4 t s5.
    TPM2_SignSequenceStart demo_kh [] [9] (demo_slots True []) = Ret (Inr h, s1)
    \<and> TPM2_SignSequenceComplete demo_evp h demo_kh [1, 2, 3] (demo_sig 0) s1
        = Ret ((TPM_RC_SUCCESS, demo_sig 22), s2)
    \<and> TPM2_VerifySequenceStart demo_kh [] [] [9] s2 = Ret (Inr h', s3)
    \<and> feed h' [[1, 2], [3]] s3 = Ret ([TPM_RC_SUCCESS, TPM_RC_SUCCESS], s4)
    \<and> TPM2_VerifySequenceComplete demo_evp demo_ticket_env demo_hier h' demo_kh (demo_sig 22) s4
        = Ret (Inr t, s5)"
proof -
  let ?s = "demo_slots True []"
  have sp: "ta_sign (objectAttributes (publicArea demo_key))"
    "pub_type (publicArea demo_key) = TPM_ALG_MLDSA \<or> pub_type (publicArea demo_key) = TPM_ALG_HASH_MLDSA"
    by (simp_all add: demo_key_def demo_pub_def TPMA_OBJECT_zero_def)
  have g: "CryptMlDsaGenerateKey demo_evp True (publicArea demo_key)
      = Inr (unique (publicArea demo_key), sens_key (sensitive demo_key))"
    by (simp add: CryptMlDsaGenerateKey_def MlDsa_GetParamSet_def CryptMlDsaAlgName_def
        CryptMlDsaPubKeySize_def PkeyFromSeed_def draw_seed_def seed_or_generate_def demo_key_def
        demo_evp_def demo_pub_def tpm_consts)
  have c: "mldsa_correct demo_evp"
    by (auto simp: mldsa_correct_def demo_evp_def toy_tag_def)
  have "\<not> occ OBJECT_zero"
    by (simp add: OBJECT_zero_def OBJECT_ATTRIBUTES_zero_def)
  then have a: "fst (ObjectAllocateSlot ?s) \<noteq> None"
    using ObjectAllocateSlot_None [of ?s "snd (ObjectAllocateSlot ?s)"]
    by (cases "ObjectAllocateSlot ?s") (auto simp: demo_slots_def)
  have m: "length (concat [[1, 2], [3 :: u8]]) \<le> 4096" by simp
  have s: "CryptMlDsaSignMessage demo_evp (demo_sig 0) demo_key (concat [[1, 2], [3]])
      (if 0 < length [9 :: u8] then Some [9] else None) = (TPM_RC_SUCCESS, demo_sig 22)"
    by (simp add: CryptMlDsaSignMessage_def MlDsa_GetParamSet_def CryptMlDsaAlgName_def
        CryptMlDsaSigSize_def PkeyFromSeed_def instance_param_def context_ok_def nonempty_ctx_def
        select_sigAlg_def store_signature_def toy_tag_def demo_key_def demo_evp_def demo_pub_def
        demo_sig_def tpm_consts Let_def)
  have t: "\<exists>t. message_ticket demo_ticket_env demo_hier (hierarchy demo_key) demo_key = Inr t"
    by (simp add: message_ticket_def HierarchyGetProof_cases DecomposeHandle_def demo_key_def tpm_consts)
  show ?thesis
    using sequence_round_trip [OF demo_slots_ok demo_slots_lookup(1) sp g c a m s,
        of "[]" demo_ticket_env demo_hier] t by fastforce
qed

end
