(* ===== verification/NV_Store.thy ===== *)
theory NV_Store
  imports Object_Slots DA_Time
begin

text \<open>
  The dynamic part of NV memory, \<^verbatim>\<open>NVDynamic.c\<close>: user-defined NV indexes and persistent objects,
  and the orderly RAM. The linked list of entries that ends in a marker with the maximum counter
  is a list of entries and the value in the marker; a reference (\<^verbatim>\<open>NV_REF\<close>, \<^verbatim>\<open>NV_RAM_REF\<close>) is the
  position of an entry, an iterator the position it reached. Sizes are kept in bytes as the code
  computes them: the addresses of an entry and of the end are the start of the space plus the
  sizes of the entries before. The sizes of the C structures and the two bounds of the space depend
  on the target and are part of the state. \<open>nv_ramData\<close> is the image of the orderly RAM in the backing
  store, written at the end of a command when the command set \<^verbatim>\<open>UT_ORDERLY\<close>.
\<close>

section \<open>Data\<close>

definition TPM_HT_PERSISTENT :: u8 where [tpm_consts]: "TPM_HT_PERSISTENT = 0x81"
definition PERSISTENT_FIRST :: TPM_HANDLE where [tpm_consts]: "PERSISTENT_FIRST = 0x81000000"
definition PERSISTENT_LAST :: TPM_HANDLE where [tpm_consts]: "PERSISTENT_LAST = 0x81FFFFFF"
definition TPM_NT_ORDINARY :: nat where [tpm_consts]: "TPM_NT_ORDINARY = 0x0"
definition TPM_NT_COUNTER :: nat where [tpm_consts]: "TPM_NT_COUNTER = 0x1"
definition TPM_NT_BITS :: nat where [tpm_consts]: "TPM_NT_BITS = 0x2"
definition TPM_NT_EXTEND :: nat where [tpm_consts]: "TPM_NT_EXTEND = 0x4"
definition TPM_NT_PIN_FAIL :: nat where [tpm_consts]: "TPM_NT_PIN_FAIL = 0x8"
definition TPM_NT_PIN_PASS :: nat where [tpm_consts]: "TPM_NT_PIN_PASS = 0x9"
definition TPM_RC_NV_SPACE :: TPM_RC where [tpm_consts]: "TPM_RC_NV_SPACE = 0x14B"
definition MIN_EVICT_OBJECTS :: nat where [tpm_consts]: "MIN_EVICT_OBJECTS = 7"
definition MIN_COUNTER_INDICES :: nat where [tpm_consts]: "MIN_COUNTER_INDICES = 8"
definition RAM_INDEX_SPACE :: nat where [tpm_consts]: "RAM_INDEX_SPACE = 512"
definition MAX_ORDERLY_COUNT :: u64 where [tpm_consts]: "MAX_ORDERLY_COUNT = push_bit 8 1 - 1"
definition sizeof_NV_RAM_HEADER :: nat where [tpm_consts]: "sizeof_NV_RAM_HEADER = 12"
definition sizeof_NV_LIST_TERMINATOR :: nat where [tpm_consts]: "sizeof_NV_LIST_TERMINATOR = 12"

record TPMA_NV =
  na_PPWRITE :: bool
  na_OWNERWRITE :: bool
  na_AUTHWRITE :: bool
  na_POLICYWRITE :: bool
  na_TPM_NT :: nat
  na_POLICY_DELETE :: bool
  na_WRITELOCKED :: bool
  na_WRITEALL :: bool
  na_WRITEDEFINE :: bool
  na_WRITE_STCLEAR :: bool
  na_GLOBALLOCK :: bool
  na_PPREAD :: bool
  na_OWNERREAD :: bool
  na_AUTHREAD :: bool
  na_POLICYREAD :: bool
  na_NO_DA :: bool
  na_ORDERLY :: bool
  na_CLEAR_STCLEAR :: bool
  na_READLOCKED :: bool
  na_WRITTEN :: bool
  na_PLATFORMCREATE :: bool
  na_READ_STCLEAR :: bool

record TPMS_NV_PUBLIC =
  nvIndex :: TPM_HANDLE
  nv_nameAlg :: TPM_ALG_ID
  nv_attributes :: TPMA_NV
  nv_authPolicy :: bytes
  dataSize :: u16

record NV_INDEX =
  nv_public :: TPMS_NV_PUBLIC
  nv_auth :: bytes

text \<open>
  An index entry has the size field, the descriptor and the data area (none for an orderly
  index); a persistent object has the size field, its handle and the stored object.
\<close>

datatype nv_entry =
    IndexEntry (entry_size: nat) (entry_index: NV_INDEX) (entry_data: bytes)
  | EvictEntry (entry_size: nat) (evict_handle: TPM_HANDLE) (evict_object: bytes)

fun entry_handle :: "nv_entry \<Rightarrow> TPM_HANDLE" where
  "entry_handle (IndexEntry n ix d) = nvIndex (nv_public ix)"
| "entry_handle (EvictEntry n h b) = h"

record NV_RAM_ENTRY =
  r_size :: nat
  r_handle :: TPM_HANDLE
  r_attributes :: TPMA_NV
  r_data :: bytes

record nv_state =
  nv_list :: "nv_entry list"
  nv_endCount :: u64
  s_maxCounter :: u64
  nv_userDynamic :: nat
  s_evictNvEnd :: nat
  sizeof_NV_INDEX :: nat
  sizeof_OBJECT :: nat
  s_indexOrderlyRam :: "NV_RAM_ENTRY list"
  nv_ramData :: "NV_RAM_ENTRY list"
  s_cachedNvRef :: "nat option"
  s_cachedNvIndex :: NV_INDEX
  s_cachedNvRamRef :: "nat option"
  nvStatus :: TPM_RC
  updateOrderly :: bool
  clearOrderly :: bool

abbreviation nt_of :: "TPMA_NV \<Rightarrow> nat" where
  "nt_of a \<equiv> na_TPM_NT a"

definition IsNvOrdinaryIndex :: "TPMA_NV \<Rightarrow> bool" where "IsNvOrdinaryIndex a \<longleftrightarrow> nt_of a = TPM_NT_ORDINARY"
definition IsNvCounterIndex :: "TPMA_NV \<Rightarrow> bool" where "IsNvCounterIndex a \<longleftrightarrow> nt_of a = TPM_NT_COUNTER"
definition IsNvBitsIndex :: "TPMA_NV \<Rightarrow> bool" where "IsNvBitsIndex a \<longleftrightarrow> nt_of a = TPM_NT_BITS"
definition IsNvExtendIndex :: "TPMA_NV \<Rightarrow> bool" where "IsNvExtendIndex a \<longleftrightarrow> nt_of a = TPM_NT_EXTEND"

text \<open>Integers are kept in canonical form; \<open>from_be\<close> is \<^verbatim>\<open>BYTE_ARRAY_TO_UINT64\<close>.\<close>

definition from_be :: "bytes \<Rightarrow> u64" where
  "from_be bs = word_of_nat (foldl (\<lambda>n b. n * 256 + unat b) 0 bs)"

section \<open>Traversal\<close>

definition NvNext :: "nv_state \<Rightarrow> nat \<Rightarrow> nat option \<times> nat" where
  "NvNext s iter = (if iter < length (nv_list s) then (Some iter, Suc iter) else (None, iter))"

function NvNextByType :: "nv_state \<Rightarrow> nat \<Rightarrow> u8 \<Rightarrow> nat option \<times> nat" where
  "NvNextByType s iter type = (case NvNext s iter of
      (None, it) \<Rightarrow> (None, it)
    | (Some a, it) \<Rightarrow> if HandleGetType (entry_handle (nv_list s ! a)) = type then (Some a, it)
                     else NvNextByType s it type)"
  by pat_completeness auto
termination
  by (relation "measure (\<lambda>(s, iter, type). length (nv_list s) - iter)")
    (auto simp: NvNext_def split: if_splits)

declare NvNextByType.simps [simp del]

lemma NvNextByType_advances:
  "NvNextByType s iter type = (Some a, it) \<Longrightarrow> iter < it \<and> it \<le> length (nv_list s) \<and> it = Suc a \<and> iter \<le> a"
proof (induction s iter type rule: NvNextByType.induct)
  case (1 s iter type)
  show ?case
  proof (cases "iter < length (nv_list s)")
    case True
    then have n: "NvNext s iter = (Some iter, Suc iter)"
      by (simp add: NvNext_def)
    show ?thesis
      using "1.prems" "1.IH" [OF n [symmetric] refl] True
      by (subst (asm) NvNextByType.simps) (auto simp: n split: if_splits)
  next
    case False
    then show ?thesis
      using "1.prems" by (subst (asm) NvNextByType.simps) (simp add: NvNext_def)
  qed
qed

text \<open>The loops over \<^verbatim>\<open>NvNextByType\<close>: all entries of a type, in order.\<close>

function nv_scan :: "nv_state \<Rightarrow> nat \<Rightarrow> u8 \<Rightarrow> nat list" where
  "nv_scan s iter type = (case NvNextByType s iter type of
      (None, it) \<Rightarrow> [] | (Some a, it) \<Rightarrow> a # nv_scan s it type)"
  by pat_completeness auto
termination
  by (relation "measure (\<lambda>(s, iter, type). length (nv_list s) - iter)")
    (auto dest!: NvNextByType_advances [OF HOL.sym])

declare nv_scan.simps [simp del]

function NvFindHandle_loop :: "nv_state \<Rightarrow> nat \<Rightarrow> TPM_HANDLE \<Rightarrow> nat option" where
  "NvFindHandle_loop s iter handle = (case NvNext s iter of
      (None, it) \<Rightarrow> None
    | (Some a, it) \<Rightarrow> if entry_handle (nv_list s ! a) = handle then Some a
                     else NvFindHandle_loop s it handle)"
  by pat_completeness auto
termination
  by (relation "measure (\<lambda>(s, iter, h). length (nv_list s) - iter)")
    (auto simp: NvNext_def split: if_splits)

declare NvFindHandle_loop.simps [simp del]

definition NvFindHandle :: "nv_state \<Rightarrow> TPM_HANDLE \<Rightarrow> nat option" where
  "NvFindHandle s handle = NvFindHandle_loop s 0 handle"

definition NvGetEnd :: "nv_state \<Rightarrow> nat" where
  "NvGetEnd s = nv_userDynamic s + sum_list (map entry_size (nv_list s))"

definition NvGetFreeBytes :: "nv_state \<Rightarrow> nat" where
  "NvGetFreeBytes s = s_evictNvEnd s - NvGetEnd s"

definition index_at :: "nv_state \<Rightarrow> nat \<Rightarrow> TPMA_NV" where
  "index_at s i = nv_attributes (nv_public (entry_index (nv_list s ! i)))"

definition NvCapGetIndexNumber :: "nv_state \<Rightarrow> nat" where
  "NvCapGetIndexNumber s = length (nv_scan s 0 TPM_HT_NV_INDEX)"

definition NvCapGetPersistentNumber :: "nv_state \<Rightarrow> nat" where
  "NvCapGetPersistentNumber s = length (nv_scan s 0 TPM_HT_PERSISTENT)"

definition NvCapGetCounterNumber :: "nv_state \<Rightarrow> nat" where
  "NvCapGetCounterNumber s = length (filter (\<lambda>i. IsNvCounterIndex (index_at s i)) (nv_scan s 0 TPM_HT_NV_INDEX))"

definition NV_EVICT_OBJECT_SIZE :: "nv_state \<Rightarrow> nat" where
  "NV_EVICT_OBJECT_SIZE s = 4 + 4 + sizeof_OBJECT s"

definition NV_INDEX_COUNTER_SIZE :: "nv_state \<Rightarrow> nat" where
  "NV_INDEX_COUNTER_SIZE s = 4 + sizeof_NV_INDEX s + 8"

definition NV_RAM_INDEX_COUNTER_SIZE :: nat where
  "NV_RAM_INDEX_COUNTER_SIZE = sizeof_NV_RAM_HEADER + 8"

definition evict_reserve :: "nv_state \<Rightarrow> nat" where
  "evict_reserve s = (if NvCapGetPersistentNumber s < MIN_EVICT_OBJECTS
     then (MIN_EVICT_OBJECTS - NvCapGetPersistentNumber s) * NV_EVICT_OBJECT_SIZE s else 0)"

definition counter_reserve :: "nv_state \<Rightarrow> nat" where
  "counter_reserve s = (if NvCapGetCounterNumber s < MIN_COUNTER_INDICES
     then (MIN_COUNTER_INDICES - NvCapGetCounterNumber s) * NV_INDEX_COUNTER_SIZE s else 0)"

definition NvTestSpace :: "nv_state \<Rightarrow> nat \<Rightarrow> bool \<Rightarrow> bool \<Rightarrow> bool" where
  "NvTestSpace s sz isIndex isCounter =
     (let remainBytes = NvGetFreeBytes s;
          reserved = 4 + sizeof_NV_LIST_TERMINATOR + (if isIndex then evict_reserve s else 0)
            + (if \<not> isIndex \<or> \<not> isCounter then counter_reserve s else 0)
      in reserved < remainBytes \<and> sz \<le> remainBytes \<and> sz + reserved \<le> remainBytes)"

section \<open>Adding and deleting entries\<close>

text \<open>
  The marker takes the current maximum counter along. \<open>NvWriteNvListEnd\<close> checks that it fits.
\<close>

definition NvWriteNvListEnd :: "nat \<Rightarrow> nv_state \<Rightarrow> nv_state outcome" where
  "NvWriteNvListEnd endRef s = pAssert (endRef + sizeof_NV_LIST_TERMINATOR \<le> s_evictNvEnd s)
     (Ret (s\<lparr>nv_endCount := s_maxCounter s\<rparr>))"

definition NvAdd :: "nv_entry \<Rightarrow> nv_state \<Rightarrow> (TPM_RC \<times> nv_state) outcome" where
  "NvAdd e s =
     (if nvStatus s \<noteq> TPM_RC_SUCCESS then Ret (nvStatus s, s)
      else obind (NvWriteNvListEnd (NvGetEnd s + entry_size e) s) (\<lambda>s1.
        Ret (TPM_RC_SUCCESS, s1\<lparr>nv_list := nv_list s @ [e]\<rparr>)))"

definition remove_at :: "nat \<Rightarrow> 'a list \<Rightarrow> 'a list" where
  "remove_at i xs = take i xs @ drop (Suc i) xs"

definition NvDelete :: "nat \<Rightarrow> nv_state \<Rightarrow> (TPM_RC \<times> nv_state) outcome" where
  "NvDelete i s =
     (if nvStatus s \<noteq> TPM_RC_SUCCESS then Ret (nvStatus s, s)
      else obind (NvWriteNvListEnd (NvGetEnd s - entry_size (nv_list s ! i)) s) (\<lambda>s1.
        Ret (TPM_RC_SUCCESS, s1\<lparr>nv_list := remove_at i (nv_list s)\<rparr>)))"

section \<open>Orderly RAM\<close>

definition NvRamGetEnd :: "nv_state \<Rightarrow> nat" where
  "NvRamGetEnd s = sum_list (map r_size (s_indexOrderlyRam s))"

definition NvRamTestSpaceIndex :: "nv_state \<Rightarrow> nat \<Rightarrow> bool" where
  "NvRamTestSpaceIndex s sz \<longleftrightarrow> RAM_INDEX_SPACE - NvRamGetEnd s \<ge> sizeof_NV_RAM_HEADER + sz"

definition NvRamGetIndex :: "nv_state \<Rightarrow> TPM_HANDLE \<Rightarrow> nat option" where
  "NvRamGetIndex s handle =
     (let i = first_index (\<lambda>r. r_handle r = handle) (s_indexOrderlyRam s) in
      if i < length (s_indexOrderlyRam s) then Some i else None)"

definition NvUpdateIndexOrderlyData :: "nv_state \<Rightarrow> nv_state" where
  "NvUpdateIndexOrderlyData s = s\<lparr>nv_ramData := s_indexOrderlyRam s\<rparr>"

definition NvAddRAM :: "TPMS_NV_PUBLIC \<Rightarrow> nv_state \<Rightarrow> nv_state outcome" where
  "NvAddRAM pub s =
     (let n = sizeof_NV_RAM_HEADER + unat (dataSize pub) in
      pAssert (NvRamGetEnd s + n \<le> RAM_INDEX_SPACE)
        (Ret (s\<lparr>s_indexOrderlyRam := s_indexOrderlyRam s @
                 [\<lparr>r_size = n, r_handle = nvIndex pub, r_attributes = nv_attributes pub,
                   r_data = replicate (unat (dataSize pub)) 0\<rparr>],
               updateOrderly := True\<rparr>)))"

definition NvDeleteRAM :: "TPM_HANDLE \<Rightarrow> nv_state \<Rightarrow> nv_state outcome" where
  "NvDeleteRAM handle s = (case NvRamGetIndex s handle of
      None \<Rightarrow> FailureMode
    | Some i \<Rightarrow> Ret (s\<lparr>s_indexOrderlyRam := remove_at i (s_indexOrderlyRam s), updateOrderly := True\<rparr>))"

definition upd_ram :: "nat \<Rightarrow> (NV_RAM_ENTRY \<Rightarrow> NV_RAM_ENTRY) \<Rightarrow> nv_state \<Rightarrow> nv_state" where
  "upd_ram i f s = s\<lparr>s_indexOrderlyRam := (s_indexOrderlyRam s)[i := f (s_indexOrderlyRam s ! i)]\<rparr>"

section \<open>Index access\<close>

fun upd_index :: "(NV_INDEX \<Rightarrow> NV_INDEX) \<Rightarrow> nv_entry \<Rightarrow> nv_entry" where
  "upd_index f (IndexEntry n ix d) = IndexEntry n (f ix) d"
| "upd_index f (EvictEntry n h b) = EvictEntry n h b"

fun upd_data :: "(bytes \<Rightarrow> bytes) \<Rightarrow> nv_entry \<Rightarrow> nv_entry" where
  "upd_data f (IndexEntry n ix d) = IndexEntry n ix (f d)"
| "upd_data f (EvictEntry n h b) = EvictEntry n h b"

definition upd_entry :: "nat \<Rightarrow> (nv_entry \<Rightarrow> nv_entry) \<Rightarrow> nv_state \<Rightarrow> nv_state" where
  "upd_entry i f s = s\<lparr>nv_list := (nv_list s)[i := f (nv_list s ! i)]\<rparr>"

definition set_attributes :: "TPMA_NV \<Rightarrow> NV_INDEX \<Rightarrow> NV_INDEX" where
  "set_attributes a ix = ix\<lparr>nv_public := (nv_public ix)\<lparr>nv_attributes := a\<rparr>\<rparr>"

text \<open>A write of part of an entry: nothing when the contents are the same.\<close>

definition NvConditionallyWrite ::
  "nat \<Rightarrow> (nv_entry \<Rightarrow> nv_entry) \<Rightarrow> nv_state \<Rightarrow> TPM_RC \<times> nv_state" where
  "NvConditionallyWrite i f s =
     (if f (nv_list s ! i) \<noteq> nv_list s ! i
      then (nvStatus s, if nvStatus s = TPM_RC_SUCCESS then upd_entry i f s else s)
      else (TPM_RC_SUCCESS, s))"

definition NvWriteNvIndexAttributes :: "nat \<Rightarrow> TPMA_NV \<Rightarrow> nv_state \<Rightarrow> TPM_RC \<times> nv_state" where
  "NvWriteNvIndexAttributes i a s = NvConditionallyWrite i (upd_index (set_attributes a)) s"

definition NvWriteIndexAttributes ::
  "TPM_HANDLE \<Rightarrow> nat \<Rightarrow> TPMA_NV \<Rightarrow> nv_state \<Rightarrow> (TPM_RC \<times> nv_state) outcome" where
  "NvWriteIndexAttributes handle i a s =
     (if na_ORDERLY a
      then case NvRamGetIndex s handle of
             None \<Rightarrow> FailureMode
           | Some r \<Rightarrow> Ret (TPM_RC_SUCCESS, upd_ram r (r_attributes_update (\<lambda>_. a)) s)
      else Ret (NvWriteNvIndexAttributes i a s))"

definition NvWriteIndexAuth :: "nat option \<Rightarrow> bytes \<Rightarrow> nv_state \<Rightarrow> (TPM_RC \<times> nv_state) outcome" where
  "NvWriteIndexAuth loc auth s =
     (let s1 = (if loc = s_cachedNvRef s
                then s\<lparr>s_cachedNvIndex := (s_cachedNvIndex s)\<lparr>nv_auth := auth\<rparr>\<rparr> else s)
      in case loc of
           None \<Rightarrow> FailureMode
         | Some i \<Rightarrow> Ret (NvConditionallyWrite i (upd_index (\<lambda>ix. ix\<lparr>nv_auth := auth\<rparr>)) s1))"

definition NvIndexCacheInit :: "nv_state \<Rightarrow> nv_state" where
  "NvIndexCacheInit s = s\<lparr>s_cachedNvRef := None, s_cachedNvRamRef := None,
     s_cachedNvIndex := (s_cachedNvIndex s)\<lparr>nv_public :=
       (nv_public (s_cachedNvIndex s))\<lparr>nvIndex := TPM_RH_UNASSIGNED\<rparr>\<rparr>\<rparr>"

text \<open>
  The descriptor is loaded into the cache; the result is its reference, \<open>None\<close> when there is no
  such index. A handle that designates a persistent object, whose bytes the C code would take for
  a descriptor, does not occur: the callers pass handles of type \<^verbatim>\<open>TPM_HT_NV_INDEX\<close>.
\<close>

definition NvGetIndexInfo :: "TPM_HANDLE \<Rightarrow> nv_state \<Rightarrow> (nat option \<times> nv_state) outcome" where
  "NvGetIndexInfo handle s =
     (if nvIndex (nv_public (s_cachedNvIndex s)) \<noteq> handle
      then
        let s1 = s\<lparr>s_cachedNvIndex := (s_cachedNvIndex s)\<lparr>nv_public :=
                     (nv_public (s_cachedNvIndex s))\<lparr>nvIndex := TPM_RH_UNASSIGNED\<rparr>\<rparr>,
                   s_cachedNvRamRef := None, s_cachedNvRef := NvFindHandle s handle\<rparr>
        in case NvFindHandle s handle of
             None \<Rightarrow> Ret (None, s1)
           | Some i \<Rightarrow> (case nv_list s ! i of
               EvictEntry n h b \<Rightarrow> FailureMode
             | IndexEntry n ix d \<Rightarrow>
                 let s2 = s1\<lparr>s_cachedNvIndex := ix\<rparr> in
                 if na_ORDERLY (nv_attributes (nv_public ix))
                 then (case NvRamGetIndex s handle of
                         None \<Rightarrow> FailureMode
                       | Some r \<Rightarrow> Ret (Some i, s2\<lparr>s_cachedNvRamRef := Some r,
                           s_cachedNvIndex := set_attributes (r_attributes (s_indexOrderlyRam s ! r)) ix\<rparr>))
                 else Ret (Some i, s2))
      else Ret (s_cachedNvRef s, s))"

abbreviation cached_pub :: "nv_state \<Rightarrow> TPMS_NV_PUBLIC" where
  "cached_pub s \<equiv> nv_public (s_cachedNvIndex s)"

definition NvIsPlatformPersistentHandle :: "TPM_HANDLE \<Rightarrow> bool" where
  "NvIsPlatformPersistentHandle h \<longleftrightarrow> h \<ge> PLATFORM_PERSISTENT \<and> h \<le> PERSISTENT_LAST"

definition NvIsOwnerPersistentHandle :: "TPM_HANDLE \<Rightarrow> bool" where
  "NvIsOwnerPersistentHandle h \<longleftrightarrow> h \<ge> PERSISTENT_FIRST \<and> h < PLATFORM_PERSISTENT"

definition NvIndexIsDefined :: "nv_state \<Rightarrow> TPM_HANDLE \<Rightarrow> bool" where
  "NvIndexIsDefined s h \<longleftrightarrow> NvFindHandle s h \<noteq> None"

definition NvIndexIsAccessible :: "hier_state \<Rightarrow> TPM_HANDLE \<Rightarrow> nv_state \<Rightarrow> (TPM_RC \<times> nv_state) outcome" where
  "NvIndexIsAccessible hs handle s = obind (NvGetIndexInfo handle s) (\<lambda>(loc, s1).
     case loc of
       None \<Rightarrow> Ret (TPM_RC_HANDLE, s1)
     | Some i \<Rightarrow>
         if \<not> shEnable hs \<or> \<not> phEnableNV hs
         then if \<not> na_PLATFORMCREATE (nv_attributes (cached_pub s1))
              then Ret (if \<not> shEnable hs then TPM_RC_HANDLE else TPM_RC_SUCCESS, s1)
              else Ret (if \<not> phEnableNV hs then TPM_RC_HANDLE else TPM_RC_SUCCESS, s1)
         else Ret (TPM_RC_SUCCESS, s1))"

definition slice :: "nat \<Rightarrow> nat \<Rightarrow> bytes \<Rightarrow> bytes" where
  "slice offset sz d = take sz (drop offset d)"

text \<open>
  For an orderly index the C code compares the size with an unsigned difference; the callers
  have checked that the offset is within the data.
\<close>

definition NvGetIndexData ::
  "NV_INDEX \<Rightarrow> nat option \<Rightarrow> nat \<Rightarrow> nat \<Rightarrow> nv_state \<Rightarrow> bytes outcome" where
  "NvGetIndexData ix loc offset sz s =
     (let a = nv_attributes (nv_public ix) in
      pAssert (na_WRITTEN a)
       (if na_ORDERLY a
        then case NvRamGetIndex s (nvIndex (nv_public ix)) of
               None \<Rightarrow> FailureMode
             | Some r \<Rightarrow>
                 let d = r_data (s_indexOrderlyRam s ! r) in
                 pAssert (offset \<le> length d \<and> sz \<le> length d - offset) (Ret (slice offset sz d))
        else case loc of
               None \<Rightarrow> FailureMode
             | Some i \<Rightarrow>
                 pAssert (offset \<le> unat (dataSize (nv_public ix))
                     \<and> sz \<le> unat (dataSize (nv_public ix)) - offset)
                   (Ret (slice offset sz (entry_data (nv_list s ! i))))))"

definition NvGetUINT64Data :: "NV_INDEX \<Rightarrow> nat option \<Rightarrow> nv_state \<Rightarrow> u64 outcome" where
  "NvGetUINT64Data ix loc s = obind (NvGetIndexData ix loc 0 8 s) (\<lambda>d. Ret (from_be d))"

definition overwrite :: "nat \<Rightarrow> bytes \<Rightarrow> bytes \<Rightarrow> bytes" where
  "overwrite offset new d = take offset d @ new @ drop (offset + length new) d"

text \<open>
  The first write sets the written attribute in the cache and in the entry (or in RAM), and clears
  the data of an ordinary index: NV memory to its erase value, RAM to zero.
\<close>

definition set_written :: "nat \<Rightarrow> nv_state \<Rightarrow> TPM_RC \<times> nv_state" where
  "set_written sz s =
     (let a = (nv_attributes (cached_pub s))\<lparr>na_WRITTEN := True\<rparr>;
          n = unat (dataSize (cached_pub s));
          s1 = s\<lparr>s_cachedNvIndex := set_attributes a (s_cachedNvIndex s)\<rparr>
      in if \<not> na_ORDERLY a
         then let i = the (s_cachedNvRef s) in
           case NvWriteNvIndexAttributes i a s1 of (rc, s2) \<Rightarrow>
             if rc \<noteq> TPM_RC_SUCCESS then (rc, s2)
             else (TPM_RC_SUCCESS, if IsNvOrdinaryIndex a \<and> n > sz
                     then upd_entry i (upd_data (\<lambda>d. replicate n 0xFF)) s2 else s2)
         else let r = the (s_cachedNvRamRef s);
                  s2 = upd_ram r (r_attributes_update (\<lambda>_. a)) s1
           in (TPM_RC_SUCCESS,
               if IsNvCounterIndex a then s2\<lparr>updateOrderly := True\<rparr>
               else if IsNvOrdinaryIndex a then upd_ram r (r_data_update (\<lambda>_. replicate n 0)) s2
               else s2))"

definition NvWriteIndexData :: "nat \<Rightarrow> bytes \<Rightarrow> nv_state \<Rightarrow> (TPM_RC \<times> nv_state) outcome" where
  "NvWriteIndexData offset data s =
     pAssert (offset \<le> unat (dataSize (cached_pub s))
         \<and> length data \<le> unat (dataSize (cached_pub s)) - offset)
      (case (if \<not> na_WRITTEN (nv_attributes (cached_pub s)) then set_written (length data) s
             else (TPM_RC_SUCCESS, s)) of (rc, s1) \<Rightarrow>
        if rc \<noteq> TPM_RC_SUCCESS then Ret (rc, s1)
        else if na_ORDERLY (nv_attributes (cached_pub s1))
        then Ret (TPM_RC_SUCCESS,
          (upd_ram (the (s_cachedNvRamRef s1)) (r_data_update (overwrite offset data)) s1)\<lparr>clearOrderly := True\<rparr>)
        else Ret (NvConditionallyWrite (the (s_cachedNvRef s1)) (upd_data (overwrite offset data)) s1))"

definition NvWriteUINT64Data :: "u64 \<Rightarrow> nv_state \<Rightarrow> (TPM_RC \<times> nv_state) outcome" where
  "NvWriteUINT64Data v s = NvWriteIndexData 0 (be 8 v) s"

section \<open>Defining and deleting\<close>

definition NvUpdateMaxCount :: "u64 \<Rightarrow> nv_state \<Rightarrow> nv_state" where
  "NvUpdateMaxCount c s = (if c > s_maxCounter s then s\<lparr>s_maxCounter := c\<rparr> else s)"

text \<open>\<open>mem\<close> is what the memory behind the new descriptor holds; it becomes the data area.\<close>

definition NvDefineIndex ::
  "bytes \<Rightarrow> TPMS_NV_PUBLIC \<Rightarrow> bytes \<Rightarrow> nv_state \<Rightarrow> (TPM_RC \<times> nv_state) outcome" where
  "NvDefineIndex mem pub auth s =
     (let a = nv_attributes pub;
          entrySize = sizeof_NV_INDEX s + (if \<not> na_ORDERLY a then unat (dataSize pub) else 0)
      in if \<not> NvTestSpace s entrySize True (IsNvCounterIndex a) then Ret (TPM_RC_NV_SPACE, s)
         else if na_ORDERLY a \<and> \<not> NvRamTestSpaceIndex s (unat (dataSize pub)) then Ret (TPM_RC_NV_SPACE, s)
         else obind (NvAdd (IndexEntry (4 + entrySize) \<lparr>nv_public = pub, nv_auth = auth\<rparr>
                             (if \<not> na_ORDERLY a then take (unat (dataSize pub)) (mem @ replicate (unat (dataSize pub)) 0xFF)
                              else [])) s) (\<lambda>(rc, s1).
           if rc = TPM_RC_SUCCESS \<and> na_ORDERLY a
           then obind (NvAddRAM pub s1) (\<lambda>s2. Ret (rc, s2)) else Ret (rc, s1)))"

text \<open>\<open>blob\<close> is the stored form of the object, \<^verbatim>\<open>NvObjectToBuffer\<close>.\<close>

definition NvAddEvictObject :: "TPM_HANDLE \<Rightarrow> bytes \<Rightarrow> nv_state \<Rightarrow> (TPM_RC \<times> nv_state) outcome" where
  "NvAddEvictObject eh blob s =
     (if \<not> NvTestSpace s (length blob + 4) False False then Ret (TPM_RC_NV_SPACE, s)
      else NvAdd (EvictEntry (4 + 4 + length blob) eh blob) s)"

text \<open>Before a counter is deleted, its value enters the maximum.\<close>

definition note_deleted_counter :: "NV_INDEX \<Rightarrow> nat option \<Rightarrow> nv_state \<Rightarrow> nv_state outcome" where
  "note_deleted_counter ix loc s =
     (if IsNvCounterIndex (nv_attributes (nv_public ix)) \<and> na_WRITTEN (nv_attributes (nv_public ix))
      then obind (NvGetUINT64Data ix loc s) (\<lambda>c. Ret (NvUpdateMaxCount c s)) else Ret s)"

definition NvDeleteIndex :: "NV_INDEX \<Rightarrow> nat option \<Rightarrow> nv_state \<Rightarrow> (TPM_RC \<times> nv_state) outcome" where
  "NvDeleteIndex ix loc s =
     obind (note_deleted_counter ix loc s) (\<lambda>s1.
       case loc of
         None \<Rightarrow> FailureMode
       | Some i \<Rightarrow> obind (NvDelete i s1) (\<lambda>(rc, s2).
           if rc \<noteq> TPM_RC_SUCCESS then Ret (rc, s2)
           else obind (if na_ORDERLY (nv_attributes (nv_public ix))
                       then NvDeleteRAM (nvIndex (nv_public ix)) s2 else Ret s2) (\<lambda>s3.
             Ret (TPM_RC_SUCCESS, NvIndexCacheInit s3))))"

definition NvDeleteEvict :: "TPM_HANDLE \<Rightarrow> nv_state \<Rightarrow> (TPM_RC \<times> nv_state) outcome" where
  "NvDeleteEvict handle s = (case NvFindHandle s handle of
      None \<Rightarrow> Ret (TPM_RC_SUCCESS, s) | Some i \<Rightarrow> NvDelete i s)"

end
