(* ===== verification/NV_Scan.thy ===== *)
theory NV_Scan
  imports NV_Store
begin

text \<open>
  The operations of \<^verbatim>\<open>NVDynamic.c\<close> that traverse all of NV memory: flushing a hierarchy, the global
  write lock, the capability queries with their insertion sort, and the processing at startup.
\<close>

section \<open>Flushing a hierarchy\<close>

text \<open>
  \<open>stored_attribute k b\<close> is bit \<open>k\<close> of the \<^verbatim>\<open>OBJECT_ATTRIBUTES\<close> that are read from the first octets of
  a stored object (bit 1 is epsHierarchy, 2 ppsHierarchy, 3 spsHierarchy on a little-endian target).
\<close>

fun stored_attribute :: "nat \<Rightarrow> bytes \<Rightarrow> bool" where
  "stored_attribute k [] = False"
| "stored_attribute k (b # bs) = bit b k"

definition flush_object :: "TPM_HANDLE \<Rightarrow> bytes \<Rightarrow> bool" where
  "flush_object hier b \<longleftrightarrow> hier = TPM_RH_PLATFORM \<and> stored_attribute 2 b
     \<or> hier = TPM_RH_OWNER \<and> stored_attribute 3 b
     \<or> hier = TPM_RH_ENDORSEMENT \<and> stored_attribute 1 b"

lemma NvDelete_Ret_SUCCESS:
  "NvDelete i s = Ret (TPM_RC_SUCCESS, s') \<Longrightarrow>
     nvStatus s = TPM_RC_SUCCESS \<and> s' = s\<lparr>nv_endCount := s_maxCounter s, nv_list := remove_at i (nv_list s)\<rparr>"
  by (auto simp: NvDelete_def NvWriteNvListEnd_def obind_Ret_iff split: if_splits)

lemma note_deleted_counter_list:
  "note_deleted_counter ix loc s = Ret s1 \<Longrightarrow> nv_list s1 = nv_list s"
  by (auto simp: note_deleted_counter_def obind_Ret_iff NvUpdateMaxCount_def split: if_splits)

lemma NvDeleteIndex_list:
  assumes "NvDeleteIndex ix (Some i) s = Ret (TPM_RC_SUCCESS, s')"
  shows "nv_list s' = remove_at i (nv_list s)"
proof -
  obtain s1 s2 s3 where "note_deleted_counter ix (Some i) s = Ret s1"
    and "NvDelete i s1 = Ret (TPM_RC_SUCCESS, s2)"
    and "(if na_ORDERLY (nv_attributes (nv_public ix))
          then NvDeleteRAM (nvIndex (nv_public ix)) s2 else Ret s2) = Ret s3"
    and "s' = NvIndexCacheInit s3"
    using assms by (auto simp: NvDeleteIndex_def obind_Ret_iff split: if_split_asm)
  then show ?thesis
    using note_deleted_counter_list NvDelete_Ret_SUCCESS [of i s1 s2]
    by (auto simp: NvDeleteRAM_def NvIndexCacheInit_def split: if_splits option.splits)
qed

lemma length_remove_at [simp]: "i < length xs \<Longrightarrow> length (remove_at i xs) = length xs - 1"
  by (simp add: remove_at_def)

text \<open>
  After a deletion the scan starts again. The entry is matched by its handle type: an index entry
  has a handle of type \<^verbatim>\<open>TPM_HT_NV_INDEX\<close> and a persistent object one of type \<^verbatim>\<open>TPM_HT_PERSISTENT\<close>.
\<close>

function NvFlushHierarchy_loop :: "TPM_HANDLE \<Rightarrow> nat \<Rightarrow> nv_state \<Rightarrow> (TPM_RC \<times> nv_state) outcome" where
  "NvFlushHierarchy_loop hier iter s =
     (if iter < length (nv_list s)
      then
        let h = entry_handle (nv_list s ! iter) in
        if HandleGetType h = TPM_HT_NV_INDEX
        then
          if hier = TPM_RH_ENDORSEMENT \<or> hier = TPM_RH_PLATFORM
          then NvFlushHierarchy_loop hier (Suc iter) s
          else
            let ix = entry_index (nv_list s ! iter) in
            if \<not> na_PLATFORMCREATE (nv_attributes (nv_public ix))
            then obind (NvDeleteIndex ix (Some iter) s) (\<lambda>r.
                   if fst r \<noteq> TPM_RC_SUCCESS then Ret r
                   else NvFlushHierarchy_loop hier 0 (snd r))
            else NvFlushHierarchy_loop hier (Suc iter) s
        else if HandleGetType h = TPM_HT_PERSISTENT
        then
          if flush_object hier (evict_object (nv_list s ! iter))
          then obind (NvDelete iter s) (\<lambda>r.
                 if fst r \<noteq> TPM_RC_SUCCESS then Ret r
                 else NvFlushHierarchy_loop hier 0 (snd r))
          else NvFlushHierarchy_loop hier (Suc iter) s
        else FailureMode
      else Ret (TPM_RC_SUCCESS, s))"
  by pat_completeness auto
termination
proof (relation "measures [\<lambda>(hier, iter, s). length (nv_list s),
    \<lambda>(hier, iter, s). length (nv_list s) - iter]", goal_cases)
  case (3 hier iter s h ix r)
  then show ?case
    using NvDeleteIndex_list [of ix iter s "snd r"] by (cases r) auto
next
  case (5 hier iter s h r)
  then show ?case
    using NvDelete_Ret_SUCCESS [of iter s "snd r"] by (cases r) auto
qed simp_all

declare NvFlushHierarchy_loop.simps [simp del]

definition NvFlushHierarchy :: "TPM_HANDLE \<Rightarrow> nv_state \<Rightarrow> (TPM_RC \<times> nv_state) outcome" where
  "NvFlushHierarchy hier s = NvFlushHierarchy_loop hier 0 s"

section \<open>Global write lock\<close>

text \<open>Writing attributes moves no entry, so the entries to visit are known at the start.\<close>

fun lock_indexes :: "nat list \<Rightarrow> nv_state \<Rightarrow> TPM_RC \<times> nv_state" where
  "lock_indexes [] s = (TPM_RC_SUCCESS, s)"
| "lock_indexes (i # is) s =
     (let a = index_at s i in
      if \<not> na_ORDERLY a \<and> na_GLOBALLOCK a
      then case NvWriteNvIndexAttributes i (a\<lparr>na_WRITELOCKED := True\<rparr>) s of (rc, s1) \<Rightarrow>
             if rc \<noteq> TPM_RC_SUCCESS then (rc, s1) else lock_indexes is s1
      else lock_indexes is s)"

definition lock_ram :: "NV_RAM_ENTRY \<Rightarrow> NV_RAM_ENTRY" where
  "lock_ram r = (if na_GLOBALLOCK (r_attributes r)
     then r\<lparr>r_attributes := (r_attributes r)\<lparr>na_WRITELOCKED := True\<rparr>\<rparr> else r)"

definition NvSetGlobalLock :: "nv_state \<Rightarrow> TPM_RC \<times> nv_state" where
  "NvSetGlobalLock s =
     (case lock_indexes (nv_scan s 0 TPM_HT_NV_INDEX) s of (rc, s1) \<Rightarrow>
        if rc \<noteq> TPM_RC_SUCCESS then (rc, s1)
        else (rc, s1\<lparr>s_indexOrderlyRam := map lock_ram (s_indexOrderlyRam s1)\<rparr>))"

section \<open>Capabilities\<close>

text \<open>The inner loop: \<open>for(j = count - 1; j > i; j--) handle[j] = handle[j - 1]\<close>.\<close>

fun shift_up :: "TPM_HANDLE list \<Rightarrow> nat \<Rightarrow> nat \<Rightarrow> TPM_HANDLE list" where
  "shift_up hl i 0 = hl"
| "shift_up hl i (Suc j) = (if Suc j > i then shift_up (hl[Suc j := hl ! j]) i j else hl)"

text \<open>The list grows by a cell of the array when it has not reached the maximum count.\<close>

definition InsertSort :: "TPM_HANDLE list \<Rightarrow> nat \<Rightarrow> TPM_HANDLE \<Rightarrow> TPM_HANDLE list" where
  "InsertSort hl count h =
     (if count = 0 then hl
      else if hl = [] then [h]
      else
        let originalCount = length hl;
            hl1 = (if originalCount < count then hl @ [0] else hl);
            i = first_index (\<lambda>x. x > h) hl;
            hl2 = (if i < originalCount then shift_up hl1 i (length hl1 - 1) else hl1)
        in if i < originalCount \<or> length hl1 > originalCount then hl2[i := h] else hl2)"

text \<open>The body of the loop of \<^verbatim>\<open>NvCapGetPersistent\<close> and \<^verbatim>\<open>NvCapGetIndex\<close>, and the loop.\<close>

definition cap_insert :: "TPM_HANDLE \<Rightarrow> nat \<Rightarrow> bool \<times> TPM_HANDLE list \<Rightarrow> TPM_HANDLE \<Rightarrow> bool \<times> TPM_HANDLE list" where
  "cap_insert start count acc h =
     (if h < start then acc
      else (fst acc \<or> length (snd acc) = count, InsertSort (snd acc) count h))"

definition cap_handles :: "nv_state \<Rightarrow> u8 \<Rightarrow> TPM_HANDLE \<Rightarrow> nat \<Rightarrow> bool \<times> TPM_HANDLE list" where
  "cap_handles s type start count =
     foldl (cap_insert start (min count MAX_CAP_HANDLES)) (False, [])
       (map (\<lambda>i. entry_handle (nv_list s ! i)) (nv_scan s 0 type))"

definition NvCapGetPersistent :: "TPM_HANDLE \<Rightarrow> nat \<Rightarrow> nv_state \<Rightarrow> (bool \<times> TPM_HANDLE list) outcome" where
  "NvCapGetPersistent handle count s =
     pAssert (HandleGetType handle = TPM_HT_PERSISTENT) (Ret (cap_handles s TPM_HT_PERSISTENT handle count))"

definition NvCapGetIndex :: "TPM_HANDLE \<Rightarrow> nat \<Rightarrow> nv_state \<Rightarrow> (bool \<times> TPM_HANDLE list) outcome" where
  "NvCapGetIndex handle count s =
     pAssert (HandleGetType handle = TPM_HT_NV_INDEX) (Ret (cap_handles s TPM_HT_NV_INDEX handle count))"

definition NvCapGetOnePersistent :: "TPM_HANDLE \<Rightarrow> nv_state \<Rightarrow> bool outcome" where
  "NvCapGetOnePersistent handle s = pAssert (HandleGetType handle = TPM_HT_PERSISTENT)
     (Ret (\<exists>i \<in> set (nv_scan s 0 TPM_HT_PERSISTENT). entry_handle (nv_list s ! i) = handle))"

definition NvCapGetOneIndex :: "TPM_HANDLE \<Rightarrow> nv_state \<Rightarrow> bool outcome" where
  "NvCapGetOneIndex handle s = pAssert (HandleGetType handle = TPM_HT_NV_INDEX)
     (Ret (\<exists>i \<in> set (nv_scan s 0 TPM_HT_NV_INDEX). entry_handle (nv_list s ! i) = handle))"

text \<open>The terminator is taken off only together with a reserve.\<close>

definition avail_after :: "nat \<Rightarrow> nat \<Rightarrow> nat \<Rightarrow> nat" where
  "avail_after avail missing n = (if 0 < missing then avail - (sizeof_NV_LIST_TERMINATOR + missing * n) else avail)"

definition NvCapGetPersistentAvail :: "nv_state \<Rightarrow> nat" where
  "NvCapGetPersistentAvail s =
     avail_after (NvGetFreeBytes s) (MIN_COUNTER_INDICES - NvCapGetCounterNumber s) (NV_INDEX_COUNTER_SIZE s)
       div NV_EVICT_OBJECT_SIZE s"

definition NvCapGetCounterAvail :: "nv_state \<Rightarrow> nat" where
  "NvCapGetCounterAvail s =
     (let nv = avail_after (NvGetFreeBytes s) (MIN_EVICT_OBJECTS - NvCapGetPersistentNumber s) (NV_EVICT_OBJECT_SIZE s);
          ram = RAM_INDEX_SPACE - NvRamGetEnd s
      in if nv div NV_INDEX_COUNTER_SIZE s > ram div NV_RAM_INDEX_COUNTER_SIZE
         then ram div NV_RAM_INDEX_COUNTER_SIZE else nv div NV_INDEX_COUNTER_SIZE s)"

section \<open>Startup\<close>

definition NvReadMaxCount :: "nv_state \<Rightarrow> u64" where
  "NvReadMaxCount s = s_maxCounter s"

definition NvSetMaxCount :: "u64 \<Rightarrow> nv_state \<Rightarrow> nv_state" where
  "NvSetMaxCount v s = s\<lparr>s_maxCounter := v\<rparr>"

definition NvGetMaxCount :: "nv_state \<Rightarrow> u64" where
  "NvGetMaxCount s = nv_endCount s"

definition NvSetStartupAttributes :: "TPMA_NV \<Rightarrow> STARTUP_TYPE \<Rightarrow> TPMA_NV" where
  "NvSetStartupAttributes a type =
     (let a1 = a\<lparr>na_READLOCKED := False\<rparr>;
          a2 = (if \<not> IsNvCounterIndex a1 \<and> (na_CLEAR_STCLEAR a1 \<or> na_ORDERLY a1 \<and> type = SU_RESET)
                then a1\<lparr>na_WRITTEN := False\<rparr> else a1)
      in if \<not> na_WRITTEN a2 \<or> \<not> na_WRITEDEFINE a2 then a2\<lparr>na_WRITELOCKED := False\<rparr> else a2)"

fun startup_indexes :: "STARTUP_TYPE \<Rightarrow> nat list \<Rightarrow> nv_state \<Rightarrow> nv_state" where
  "startup_indexes type [] s = s"
| "startup_indexes type (i # is) s =
     startup_indexes type is
       (if na_ORDERLY (index_at s i) then s
        else snd (NvWriteNvIndexAttributes i (NvSetStartupAttributes (index_at s i) type) s))"

definition startup_ram :: "STARTUP_TYPE \<Rightarrow> u16 \<Rightarrow> NV_RAM_ENTRY \<Rightarrow> NV_RAM_ENTRY" where
  "startup_ram type prevOrderly r =
     (let a = NvSetStartupAttributes (r_attributes r) type;
          r1 = r\<lparr>r_attributes := a\<rparr>
      in if IsNvCounterIndex a \<and> prevOrderly = SU_NONE_VALUE
         then r1\<lparr>r_data := be 8 (from_be (take 8 (r_data r)) OR MAX_ORDERLY_COUNT) @ drop 8 (r_data r)\<rparr>
         else r1)"

definition NvEntityStartup :: "STARTUP_TYPE \<Rightarrow> u16 \<Rightarrow> nv_state \<Rightarrow> nv_state" where
  "NvEntityStartup type prevOrderly s =
     (let s1 = s\<lparr>s_indexOrderlyRam := nv_ramData s\<rparr>;
          s2 = NvSetMaxCount (NvGetMaxCount s1) s1
      in if type = SU_RESUME then s2
         else
           let s3 = startup_indexes type (nv_scan s2 0 TPM_HT_NV_INDEX) s2
           in s3\<lparr>s_indexOrderlyRam := map (startup_ram type prevOrderly) (s_indexOrderlyRam s3)\<rparr>)"

end
