(* ===== verification/NV_Commands.thy ===== *)
theory NV_Commands
  imports NV_Scan Pqc_Crypto
begin

text \<open>
  The NV commands, \<^verbatim>\<open>NVCommands.c\<close>, with the access checks of \<^verbatim>\<open>NV_spt.c\<close>. A handler takes the
  unmarshaled parameters and returns the response code and the new NV state. Before a handler
  runs, handle processing has found the index with \<^verbatim>\<open>NvIndexIsAccessible\<close>; a missing index, a null
  pointer in the C code, is \<open>FailureMode\<close> here. The hash function is an argument.
\<close>

section \<open>Constants and helpers\<close>

definition TPM_RC_NV_RANGE :: TPM_RC where [tpm_consts]: "TPM_RC_NV_RANGE = 0x146"
definition TPM_RC_NV_LOCKED :: TPM_RC where [tpm_consts]: "TPM_RC_NV_LOCKED = 0x148"
definition TPM_RC_NV_AUTHORIZATION :: TPM_RC where [tpm_consts]: "TPM_RC_NV_AUTHORIZATION = 0x149"
definition TPM_RC_NV_DEFINED :: TPM_RC where [tpm_consts]: "TPM_RC_NV_DEFINED = 0x14C"
definition MAX_NV_INDEX_SIZE :: u16 where [tpm_consts]: "MAX_NV_INDEX_SIZE = 8192"
definition MAX_NV_BUFFER_SIZE :: u16 where [tpm_consts]: "MAX_NV_BUFFER_SIZE = 1024"
definition RC_NV_DefineSpace_authHandle :: TPM_RC where [tpm_consts]: "RC_NV_DefineSpace_authHandle = TPM_RC_H + TPM_RC_1"
definition RC_NV_DefineSpace_auth :: TPM_RC where [tpm_consts]: "RC_NV_DefineSpace_auth = TPM_RC_P + TPM_RC_1"
definition RC_NV_DefineSpace_publicInfo :: TPM_RC where [tpm_consts]: "RC_NV_DefineSpace_publicInfo = TPM_RC_P + TPM_RC_2"
definition RC_NV_UndefineSpace_nvIndex :: TPM_RC where [tpm_consts]: "RC_NV_UndefineSpace_nvIndex = TPM_RC_H + TPM_RC_2"
definition RC_NV_UndefineSpaceSpecial_nvIndex :: TPM_RC where [tpm_consts]: "RC_NV_UndefineSpaceSpecial_nvIndex = TPM_RC_H + TPM_RC_1"
definition RC_NV_Write_offset :: TPM_RC where [tpm_consts]: "RC_NV_Write_offset = TPM_RC_P + TPM_RC_2"
definition RC_NV_Increment_nvIndex :: TPM_RC where [tpm_consts]: "RC_NV_Increment_nvIndex = TPM_RC_H + TPM_RC_2"
definition RC_NV_Extend_nvIndex :: TPM_RC where [tpm_consts]: "RC_NV_Extend_nvIndex = TPM_RC_H + TPM_RC_2"
definition RC_NV_SetBits_nvIndex :: TPM_RC where [tpm_consts]: "RC_NV_SetBits_nvIndex = TPM_RC_H + TPM_RC_2"
definition RC_NV_WriteLock_nvIndex :: TPM_RC where [tpm_consts]: "RC_NV_WriteLock_nvIndex = TPM_RC_H + TPM_RC_2"
definition RC_NV_Read_size :: TPM_RC where [tpm_consts]: "RC_NV_Read_size = TPM_RC_P + TPM_RC_1"
definition RC_NV_Read_offset :: TPM_RC where [tpm_consts]: "RC_NV_Read_offset = TPM_RC_P + TPM_RC_2"
definition RC_NV_ReadLock_nvIndex :: TPM_RC where [tpm_consts]: "RC_NV_ReadLock_nvIndex = TPM_RC_H + TPM_RC_2"
definition RC_NV_ChangeAuth_newAuth :: TPM_RC where [tpm_consts]: "RC_NV_ChangeAuth_newAuth = TPM_RC_P + TPM_RC_1"
definition TPM_ALG_SHA1 :: TPM_ALG_ID where [tpm_consts]: "TPM_ALG_SHA1 = 0x0004"

text \<open>The hash algorithms that the build has; for any other the null descriptor with size 0.\<close>

definition CryptHashGetDigestSize :: "TPM_ALG_ID \<Rightarrow> nat" where
  "CryptHashGetDigestSize alg =
     (if alg = TPM_ALG_SHA1 then 20 else if alg = TPM_ALG_SHA256 then 32
      else if alg = TPM_ALG_SHA384 then 48 else if alg = TPM_ALG_SHA512 then 64 else 0)"

definition NvReadAccessChecks :: "TPM_HANDLE \<Rightarrow> TPM_HANDLE \<Rightarrow> TPMA_NV \<Rightarrow> TPM_RC" where
  "NvReadAccessChecks authHandle nvHandle a =
     (if na_READLOCKED a then TPM_RC_NV_LOCKED
      else if authHandle = TPM_RH_OWNER \<and> \<not> na_OWNERREAD a then TPM_RC_NV_AUTHORIZATION
      else if authHandle = TPM_RH_PLATFORM \<and> \<not> na_PPREAD a then TPM_RC_NV_AUTHORIZATION
      else if authHandle \<noteq> TPM_RH_OWNER \<and> authHandle \<noteq> TPM_RH_PLATFORM \<and> authHandle \<noteq> nvHandle
      then TPM_RC_NV_AUTHORIZATION
      else if \<not> na_WRITTEN a then TPM_RC_NV_UNINITIALIZED
      else TPM_RC_SUCCESS)"

definition NvWriteAccessChecks :: "TPM_HANDLE \<Rightarrow> TPM_HANDLE \<Rightarrow> TPMA_NV \<Rightarrow> TPM_RC" where
  "NvWriteAccessChecks authHandle nvHandle a =
     (if na_WRITELOCKED a then TPM_RC_NV_LOCKED
      else if authHandle = TPM_RH_OWNER \<and> \<not> na_OWNERWRITE a then TPM_RC_NV_AUTHORIZATION
      else if authHandle = TPM_RH_PLATFORM \<and> \<not> na_PPWRITE a then TPM_RC_NV_AUTHORIZATION
      else if authHandle \<noteq> TPM_RH_OWNER \<and> authHandle \<noteq> TPM_RH_PLATFORM \<and> authHandle \<noteq> nvHandle
      then TPM_RC_NV_AUTHORIZATION
      else TPM_RC_SUCCESS)"

definition flag_at :: "nat \<Rightarrow> bool \<Rightarrow> u32" where
  "flag_at k b = push_bit k (of_bool b)"

definition TPMA_NV_TO_UINT32 :: "TPMA_NV \<Rightarrow> u32" where
  "TPMA_NV_TO_UINT32 a =
     flag_at 0 (na_PPWRITE a) OR flag_at 1 (na_OWNERWRITE a) OR flag_at 2 (na_AUTHWRITE a)
     OR flag_at 3 (na_POLICYWRITE a) OR push_bit 4 (word_of_nat (na_TPM_NT a) AND 0xF)
     OR flag_at 10 (na_POLICY_DELETE a) OR flag_at 11 (na_WRITELOCKED a) OR flag_at 12 (na_WRITEALL a)
     OR flag_at 13 (na_WRITEDEFINE a) OR flag_at 14 (na_WRITE_STCLEAR a) OR flag_at 15 (na_GLOBALLOCK a)
     OR flag_at 16 (na_PPREAD a) OR flag_at 17 (na_OWNERREAD a) OR flag_at 18 (na_AUTHREAD a)
     OR flag_at 19 (na_POLICYREAD a) OR flag_at 25 (na_NO_DA a) OR flag_at 26 (na_ORDERLY a)
     OR flag_at 27 (na_CLEAR_STCLEAR a) OR flag_at 28 (na_READLOCKED a) OR flag_at 29 (na_WRITTEN a)
     OR flag_at 30 (na_PLATFORMCREATE a) OR flag_at 31 (na_READ_STCLEAR a)"

definition TPMS_NV_PUBLIC_Marshal :: "TPMS_NV_PUBLIC \<Rightarrow> bytes" where
  "TPMS_NV_PUBLIC_Marshal p =
     be 4 (nvIndex p) @ be 2 (nv_nameAlg p) @ be 4 (TPMA_NV_TO_UINT32 (nv_attributes p))
     @ be 2 (word_of_nat (length (nv_authPolicy p)) :: u16) @ nv_authPolicy p @ be 2 (dataSize p)"

definition NvGetIndexName :: "(TPM_ALG_ID \<Rightarrow> bytes \<Rightarrow> bytes) \<Rightarrow> TPMS_NV_PUBLIC \<Rightarrow> bytes" where
  "NvGetIndexName hashf p = be 2 (nv_nameAlg p) @ hashf (nv_nameAlg p) (TPMS_NV_PUBLIC_Marshal p)"

definition SessionRemoveAssociationToHandle :: "TPM_HANDLE \<Rightarrow> TPM_HANDLE list \<Rightarrow> TPM_HANDLE list" where
  "SessionRemoveAssociationToHandle handle associated =
     map (\<lambda>h. if h = HierarchyNormalizeHandle handle then TPM_RH_NULL else h) associated"

definition with_index ::
  "TPM_HANDLE \<Rightarrow> nv_state \<Rightarrow> (nat \<Rightarrow> TPMS_NV_PUBLIC \<Rightarrow> nv_state \<Rightarrow> 'a outcome) \<Rightarrow> 'a outcome" where
  "with_index h s k = obind (NvGetIndexInfo h s) (\<lambda>(loc, s1).
     case loc of None \<Rightarrow> FailureMode | Some i \<Rightarrow> k i (cached_pub s1) s1)"

section \<open>Defining and undefining\<close>

definition supported_type :: "nat \<Rightarrow> bool" where
  "supported_type nt \<longleftrightarrow> nt \<in> {TPM_NT_COUNTER, TPM_NT_BITS, TPM_NT_EXTEND, TPM_NT_PIN_PASS, TPM_NT_PIN_FAIL, TPM_NT_ORDINARY}"

definition size_ok :: "TPMS_NV_PUBLIC \<Rightarrow> bool" where
  "size_ok p \<longleftrightarrow>
     (let nt = nt_of (nv_attributes p) in
      if nt = TPM_NT_ORDINARY then dataSize p \<le> MAX_NV_INDEX_SIZE
      else if nt = TPM_NT_EXTEND then unat (dataSize p) = CryptHashGetDigestSize (nv_nameAlg p)
      else dataSize p = 8)"

definition type_attributes_ok :: "TPMA_NV \<Rightarrow> bool" where
  "type_attributes_ok a \<longleftrightarrow>
     (if nt_of a = TPM_NT_COUNTER then \<not> na_CLEAR_STCLEAR a
      else if nt_of a = TPM_NT_PIN_FAIL
      then na_NO_DA a \<and> \<not> (na_AUTHWRITE a \<or> na_GLOBALLOCK a \<or> na_WRITEDEFINE a)
      else if nt_of a = TPM_NT_PIN_PASS then \<not> (na_AUTHWRITE a \<or> na_GLOBALLOCK a \<or> na_WRITEDEFINE a)
      else True)"

definition TPM2_NV_DefineSpace ::
  "hier_state \<Rightarrow> bytes \<Rightarrow> TPM_HANDLE \<Rightarrow> bytes \<Rightarrow> TPMS_NV_PUBLIC \<Rightarrow> nv_state \<Rightarrow> (TPM_RC \<times> nv_state) outcome" where
  "TPM2_NV_DefineSpace hs mem authHandle auth p s =
     (let a = nv_attributes p;
          nameSize = CryptHashGetDigestSize (nv_nameAlg p);
          auth1 = MemoryRemoveTrailingZeros auth
      in if length (nv_authPolicy p) \<noteq> 0 \<and> length (nv_authPolicy p) \<noteq> nameSize
         then Ret (TPM_RC_SIZE + RC_NV_DefineSpace_publicInfo, s)
         else if length auth1 > nameSize then Ret (TPM_RC_SIZE + RC_NV_DefineSpace_auth, s)
         else if authHandle = TPM_RH_PLATFORM \<and> \<not> phEnableNV hs
         then Ret (TPM_RC_HIERARCHY + RC_NV_DefineSpace_authHandle, s)
         else if \<not> supported_type (nt_of a) then Ret (TPM_RC_ATTRIBUTES + RC_NV_DefineSpace_publicInfo, s)
         else if \<not> size_ok p then Ret (TPM_RC_SIZE + RC_NV_DefineSpace_publicInfo, s)
         else if \<not> type_attributes_ok a then Ret (TPM_RC_ATTRIBUTES + RC_NV_DefineSpace_publicInfo, s)
         else if na_WRITTEN a \<or> na_WRITELOCKED a \<or> na_READLOCKED a
         then Ret (TPM_RC_ATTRIBUTES + RC_NV_DefineSpace_publicInfo, s)
         else if \<not> na_OWNERREAD a \<and> \<not> na_PPREAD a \<and> \<not> na_AUTHREAD a \<and> \<not> na_POLICYREAD a
         then Ret (TPM_RC_ATTRIBUTES + RC_NV_DefineSpace_publicInfo, s)
         else if \<not> na_OWNERWRITE a \<and> \<not> na_PPWRITE a \<and> \<not> na_AUTHWRITE a \<and> \<not> na_POLICYWRITE a
         then Ret (TPM_RC_ATTRIBUTES + RC_NV_DefineSpace_publicInfo, s)
         else if na_CLEAR_STCLEAR a \<and> na_WRITEDEFINE a
         then Ret (TPM_RC_ATTRIBUTES + RC_NV_DefineSpace_publicInfo, s)
         else if na_PLATFORMCREATE a \<and> authHandle = TPM_RH_OWNER
               \<or> \<not> na_PLATFORMCREATE a \<and> authHandle = TPM_RH_PLATFORM
         then Ret (TPM_RC_ATTRIBUTES + RC_NV_DefineSpace_authHandle, s)
         else if na_POLICY_DELETE a \<and> TPM_RH_PLATFORM \<noteq> authHandle
         then Ret (TPM_RC_ATTRIBUTES + RC_NV_DefineSpace_publicInfo, s)
         else if dataSize p > MAX_NV_BUFFER_SIZE \<and> na_WRITEALL a
         then Ret (TPM_RC_SIZE + RC_NV_DefineSpace_publicInfo, s)
         else if NvIndexIsDefined s (nvIndex p) then Ret (TPM_RC_NV_DEFINED, s)
         else NvDefineIndex mem p auth1 s)"

definition TPM2_NV_UndefineSpace :: "TPM_HANDLE \<Rightarrow> TPM_HANDLE \<Rightarrow> nv_state \<Rightarrow> (TPM_RC \<times> nv_state) outcome" where
  "TPM2_NV_UndefineSpace authHandle h s = with_index h s (\<lambda>i p s1.
     if na_POLICY_DELETE (nv_attributes p) then Ret (TPM_RC_ATTRIBUTES + RC_NV_UndefineSpace_nvIndex, s1)
     else if authHandle = TPM_RH_OWNER \<and> na_PLATFORMCREATE (nv_attributes p)
     then Ret (TPM_RC_NV_AUTHORIZATION, s1)
     else NvDeleteIndex (s_cachedNvIndex s1) (Some i) s1)"

definition TPM2_NV_UndefineSpaceSpecial ::
  "TPM_HANDLE \<Rightarrow> TPM_HANDLE list \<Rightarrow> nv_state \<Rightarrow> ((TPM_RC \<times> TPM_HANDLE list) \<times> nv_state) outcome" where
  "TPM2_NV_UndefineSpaceSpecial h associated s = with_index h s (\<lambda>i p s1.
     if \<not> na_POLICY_DELETE (nv_attributes p)
     then Ret ((TPM_RC_ATTRIBUTES + RC_NV_UndefineSpaceSpecial_nvIndex, associated), s1)
     else obind (NvDeleteIndex (s_cachedNvIndex s1) (Some i) s1) (\<lambda>(rc, s2).
       Ret ((rc, if rc = TPM_RC_SUCCESS then SessionRemoveAssociationToHandle h associated else associated), s2)))"

section \<open>Writing\<close>

definition TPM2_NV_Write ::
  "TPM_HANDLE \<Rightarrow> TPM_HANDLE \<Rightarrow> u16 \<Rightarrow> bytes \<Rightarrow> nv_state \<Rightarrow> (TPM_RC \<times> nv_state) outcome" where
  "TPM2_NV_Write authHandle h offset data s = with_index h s (\<lambda>i p s1.
     let a = nv_attributes p; rc = NvWriteAccessChecks authHandle h a in
     if rc \<noteq> TPM_RC_SUCCESS then Ret (rc, s1)
     else if IsNvCounterIndex a \<or> IsNvBitsIndex a \<or> IsNvExtendIndex a then Ret (TPM_RC_ATTRIBUTES, s1)
     else if offset > dataSize p then Ret (TPM_RC_VALUE + RC_NV_Write_offset, s1)
     else if length data > unat (dataSize p) - unat offset then Ret (TPM_RC_NV_RANGE, s1)
     else if na_WRITEALL a \<and> length data < unat (dataSize p) then Ret (TPM_RC_NV_RANGE, s1)
     else NvWriteIndexData (unat offset) data s1)"

definition TPM2_NV_Increment :: "TPM_HANDLE \<Rightarrow> TPM_HANDLE \<Rightarrow> nv_state \<Rightarrow> (TPM_RC \<times> nv_state) outcome" where
  "TPM2_NV_Increment authHandle h s = with_index h s (\<lambda>i p s1.
     let a = nv_attributes p; rc = NvWriteAccessChecks authHandle h a in
     if rc \<noteq> TPM_RC_SUCCESS then Ret (rc, s1)
     else if \<not> IsNvCounterIndex a then Ret (TPM_RC_ATTRIBUTES + RC_NV_Increment_nvIndex, s1)
     else obind (if \<not> na_WRITTEN a then Ret (NvReadMaxCount s1)
                 else NvGetUINT64Data (s_cachedNvIndex s1) (Some i) s1) (\<lambda>c.
       obind (NvWriteUINT64Data (c + 1) s1) (\<lambda>(rc, s2).
         Ret (rc, if rc = TPM_RC_SUCCESS \<and> na_ORDERLY a \<and> (c + 1) AND MAX_ORDERLY_COUNT = 0
                  then s2\<lparr>updateOrderly := True\<rparr> else s2))))"

definition TPM2_NV_Extend ::
  "(TPM_ALG_ID \<Rightarrow> bytes \<Rightarrow> bytes) \<Rightarrow> TPM_HANDLE \<Rightarrow> TPM_HANDLE \<Rightarrow> bytes \<Rightarrow> nv_state \<Rightarrow> (TPM_RC \<times> nv_state) outcome" where
  "TPM2_NV_Extend hashf authHandle h data s = with_index h s (\<lambda>i p s1.
     let a = nv_attributes p; rc = NvWriteAccessChecks authHandle h a;
         n = CryptHashGetDigestSize (nv_nameAlg p)
     in if rc \<noteq> TPM_RC_SUCCESS then Ret (rc, s1)
        else if \<not> IsNvExtendIndex a then Ret (TPM_RC_ATTRIBUTES + RC_NV_Extend_nvIndex, s1)
        else obind (if na_WRITTEN a then NvGetIndexData (s_cachedNvIndex s1) (Some i) 0 n s1
                    else Ret (replicate n 0)) (\<lambda>old.
          NvWriteIndexData 0 (hashf (nv_nameAlg p) (old @ data)) s1))"

definition TPM2_NV_SetBits ::
  "TPM_HANDLE \<Rightarrow> TPM_HANDLE \<Rightarrow> u64 \<Rightarrow> nv_state \<Rightarrow> (TPM_RC \<times> nv_state) outcome" where
  "TPM2_NV_SetBits authHandle h bits s = with_index h s (\<lambda>i p s1.
     let a = nv_attributes p; rc = NvWriteAccessChecks authHandle h a in
     if rc \<noteq> TPM_RC_SUCCESS then Ret (rc, s1)
     else if \<not> IsNvBitsIndex a then Ret (TPM_RC_ATTRIBUTES + RC_NV_SetBits_nvIndex, s1)
     else obind (if \<not> na_WRITTEN a then Ret 0 else NvGetUINT64Data (s_cachedNvIndex s1) (Some i) s1)
       (\<lambda>v. NvWriteUINT64Data (v OR bits) s1))"

section \<open>Locks and authorization\<close>

definition TPM2_NV_WriteLock :: "TPM_HANDLE \<Rightarrow> TPM_HANDLE \<Rightarrow> nv_state \<Rightarrow> (TPM_RC \<times> nv_state) outcome" where
  "TPM2_NV_WriteLock authHandle h s = with_index h s (\<lambda>i p s1.
     let a = nv_attributes p; rc = NvWriteAccessChecks authHandle h a in
     if rc \<noteq> TPM_RC_SUCCESS
     then Ret (if rc = TPM_RC_NV_AUTHORIZATION then rc else TPM_RC_SUCCESS, s1)
     else if \<not> na_WRITEDEFINE a \<and> \<not> na_WRITE_STCLEAR a
     then Ret (TPM_RC_ATTRIBUTES + RC_NV_WriteLock_nvIndex, s1)
     else NvWriteIndexAttributes (nvIndex p) i (a\<lparr>na_WRITELOCKED := True\<rparr>) s1)"

definition TPM2_NV_GlobalWriteLock :: "nv_state \<Rightarrow> (TPM_RC \<times> nv_state) outcome" where
  "TPM2_NV_GlobalWriteLock s = Ret (NvSetGlobalLock s)"

definition TPM2_NV_ReadLock :: "TPM_HANDLE \<Rightarrow> TPM_HANDLE \<Rightarrow> nv_state \<Rightarrow> (TPM_RC \<times> nv_state) outcome" where
  "TPM2_NV_ReadLock authHandle h s = with_index h s (\<lambda>i p s1.
     let a = nv_attributes p; rc = NvReadAccessChecks authHandle h a in
     if rc = TPM_RC_NV_AUTHORIZATION then Ret (TPM_RC_NV_AUTHORIZATION, s1)
     else if rc = TPM_RC_NV_LOCKED then Ret (TPM_RC_SUCCESS, s1)
     else if \<not> na_READ_STCLEAR a then Ret (TPM_RC_ATTRIBUTES + RC_NV_ReadLock_nvIndex, s1)
     else NvWriteIndexAttributes (nvIndex p) i (a\<lparr>na_READLOCKED := True\<rparr>) s1)"

definition TPM2_NV_ChangeAuth :: "TPM_HANDLE \<Rightarrow> bytes \<Rightarrow> nv_state \<Rightarrow> (TPM_RC \<times> nv_state) outcome" where
  "TPM2_NV_ChangeAuth h newAuth s = with_index h s (\<lambda>i p s1.
     let auth = MemoryRemoveTrailingZeros newAuth in
     if length auth > CryptHashGetDigestSize (nv_nameAlg p)
     then Ret (TPM_RC_SIZE + RC_NV_ChangeAuth_newAuth, s1)
     else NvWriteIndexAuth (Some i) auth s1)"

section \<open>Reading\<close>

definition TPM2_NV_ReadPublic ::
  "(TPM_ALG_ID \<Rightarrow> bytes \<Rightarrow> bytes) \<Rightarrow> TPM_HANDLE \<Rightarrow> nv_state \<Rightarrow> ((TPM_RC \<times> TPMS_NV_PUBLIC \<times> bytes) \<times> nv_state) outcome" where
  "TPM2_NV_ReadPublic hashf h s = with_index h s (\<lambda>i p s1.
     Ret ((TPM_RC_SUCCESS, p, NvGetIndexName hashf p), s1))"

definition TPM2_NV_Read ::
  "TPM_HANDLE \<Rightarrow> TPM_HANDLE \<Rightarrow> u16 \<Rightarrow> u16 \<Rightarrow> nv_state \<Rightarrow> ((TPM_RC \<times> bytes) \<times> nv_state) outcome" where
  "TPM2_NV_Read authHandle h sz offset s = with_index h s (\<lambda>i p s1.
     let rc = NvReadAccessChecks authHandle h (nv_attributes p) in
     if rc \<noteq> TPM_RC_SUCCESS then Ret ((rc, []), s1)
     else if sz > MAX_NV_BUFFER_SIZE then Ret ((TPM_RC_VALUE + RC_NV_Read_size, []), s1)
     else if offset > dataSize p then Ret ((TPM_RC_VALUE + RC_NV_Read_offset, []), s1)
     else if unat sz > unat (dataSize p) - unat offset then Ret ((TPM_RC_NV_RANGE, []), s1)
     else obind (NvGetIndexData (s_cachedNvIndex s1) (Some i) (unat offset) (unat sz) s1) (\<lambda>d.
       Ret ((TPM_RC_SUCCESS, d), s1)))"

end
