(* ===== verification/NV_Invariant.thy ===== *)
theory NV_Invariant
  imports NV_Commands
begin

text \<open>
  The well-formedness of NV memory and the abstract view of it: a map from handles to index
  descriptors with their data. The list of entries and the orderly RAM are lists with distinct
  keys; the operations on positions are updates of the maps they represent.
\<close>

section \<open>Lists with keys\<close>

definition kmap :: "('a \<Rightarrow> 'k) \<Rightarrow> 'a list \<Rightarrow> 'k \<rightharpoonup> 'a" where
  "kmap key xs = map_of (map (\<lambda>x. (key x, x)) xs)"

lemma kmap_Nil [simp]: "kmap key [] = Map.empty"
  by (simp add: kmap_def)

lemma kmap_Cons [simp]: "kmap key (x # xs) = (kmap key xs)(key x \<mapsto> x)"
  by (simp add: kmap_def)

lemma kmap_None_iff: "kmap key xs k = None \<longleftrightarrow> k \<notin> key ` set xs"
  by (induction xs) auto

lemma kmap_SomeD: "kmap key xs k = Some x \<Longrightarrow> x \<in> set xs \<and> key x = k"
  by (induction xs) (auto split: if_splits)

lemma kmap_self: "distinct (map key xs) \<Longrightarrow> x \<in> set xs \<Longrightarrow> kmap key xs (key x) = Some x"
  by (induction xs) (auto, metis imageI)

lemma kmap_nth: "distinct (map key xs) \<Longrightarrow> i < length xs \<Longrightarrow> kmap key xs (key (xs ! i)) = Some (xs ! i)"
  by (simp add: kmap_self)

lemma kmap_snoc: "key x \<notin> key ` set xs \<Longrightarrow> kmap key (xs @ [x]) = (kmap key xs)(key x \<mapsto> x)"
  by (induction xs) auto

lemma kmap_update:
  "distinct (map key xs) \<Longrightarrow> i < length xs \<Longrightarrow> key y = key (xs ! i) \<Longrightarrow>
     kmap key (xs[i := y]) = (kmap key xs)(key y \<mapsto> y)"
proof (induction xs arbitrary: i)
  case Nil
  then show ?case by simp
next
  case (Cons x xs)
  have "key (xs ! j) \<noteq> key x" if "j < length xs" for j
    using Cons.prems(1) imageI [OF nth_mem [OF that], of key] by auto
  with Cons show ?case
    by (cases i) (auto simp: fun_eq_iff)
qed

lemma map_key_update: "i < length xs \<Longrightarrow> key y = key (xs ! i) \<Longrightarrow> map key (xs[i := y]) = map key xs"
  by (simp add: map_update list_update_same_conv)

lemma kmap_remove_at:
  "distinct (map key xs) \<Longrightarrow> i < length xs \<Longrightarrow> kmap key (remove_at i xs) = (kmap key xs)(key (xs ! i) := None)"
proof (induction xs arbitrary: i)
  case Nil
  then show ?case by simp
next
  case (Cons x xs)
  then show ?case
  proof (cases i)
    case 0
    then show ?thesis
      using Cons.prems by (auto simp: remove_at_def fun_eq_iff kmap_None_iff)
  next
    case (Suc j)
    have "key (xs ! j) \<in> key ` set xs"
      using Cons.prems Suc by simp
    then have "key (xs ! j) \<noteq> key x"
      using Cons.prems by auto
    then show ?thesis
      using Cons.IH [of j] Cons.prems Suc by (auto simp: remove_at_def fun_eq_iff)
  qed
qed

lemma set_remove_at: "set (remove_at i xs) \<subseteq> set xs"
  by (auto simp: remove_at_def dest: in_set_takeD in_set_dropD)

lemma map_remove_at: "map f (remove_at i xs) = remove_at i (map f xs)"
  by (simp add: remove_at_def take_map drop_map)

lemma distinct_remove_at: "distinct (map key xs) \<Longrightarrow> distinct (map key (remove_at i xs))"
  unfolding map_remove_at
  by (simp add: remove_at_def set_take_disj_set_drop_if_distinct)

lemma sum_list_remove_at:
  "i < length xs \<Longrightarrow> sum_list (remove_at i xs) = sum_list xs - (xs ! i :: nat)"
proof (induction xs arbitrary: i)
  case Nil
  then show ?case by simp
next
  case (Cons x xs)
  have "xs ! j \<le> sum_list xs" if "j < length xs" for j
    using that by (simp add: elem_le_sum_list)
  with Cons show ?case
    by (cases i) (auto simp: remove_at_def)
qed

lemma kmap_map: "(\<And>x. key (f x) = key x) \<Longrightarrow> kmap key (map f xs) k = map_option f (kmap key xs k)"
  by (induction xs) auto

lemma first_index_kmap:
  "kmap key xs k = Some x \<Longrightarrow> first_index (\<lambda>y. key y = k) xs < length xs \<and> 
     key (xs ! first_index (\<lambda>y. key y = k) xs) = k"
  using first_index_nth [of "\<lambda>y. key y = k" xs]
  by (auto simp: first_index_less_iff dest: kmap_SomeD)

section \<open>Entries and orderly RAM as maps\<close>

definition entry_of :: "nv_state \<Rightarrow> TPM_HANDLE \<rightharpoonup> nv_entry" where
  "entry_of s = kmap entry_handle (nv_list s)"

definition ram_of :: "nv_state \<Rightarrow> TPM_HANDLE \<rightharpoonup> NV_RAM_ENTRY" where
  "ram_of s = kmap r_handle (s_indexOrderlyRam s)"

lemma NvFindHandle_loop_spec:
  "NvFindHandle_loop s iter h =
     (let j = first_index (\<lambda>e. entry_handle e = h) (drop iter (nv_list s)) in
      if iter + j < length (nv_list s) then Some (iter + j) else None)"
proof (induction s iter h rule: NvFindHandle_loop.induct)
  case (1 s iter h)
  show ?case
  proof (cases "iter < length (nv_list s)")
    case True
    then have n: "NvNext s iter = (Some iter, Suc iter)" and d: "drop iter (nv_list s) = nv_list s ! iter # drop (Suc iter) (nv_list s)"
      by (simp_all add: NvNext_def Cons_nth_drop_Suc)
    show ?thesis
      using "1.IH" [OF n [symmetric] refl] True
      by (subst NvFindHandle_loop.simps) (simp add: n d Let_def)
  next
    case False
    then show ?thesis
      by (subst NvFindHandle_loop.simps) (simp add: NvNext_def)
  qed
qed

lemma NvFindHandle_spec:
  "NvFindHandle s h = (let j = first_index (\<lambda>e. entry_handle e = h) (nv_list s) in
      if j < length (nv_list s) then Some j else None)"
  by (simp add: NvFindHandle_def NvFindHandle_loop_spec Let_def)

lemma NvFindHandle_None_iff: "NvFindHandle s h = None \<longleftrightarrow> entry_of s h = None"
  by (auto simp: NvFindHandle_spec entry_of_def kmap_None_iff Let_def first_index_less_iff)

lemma NvFindHandle_SomeD:
  assumes "NvFindHandle s h = Some i"
  shows "i < length (nv_list s) \<and> entry_handle (nv_list s ! i) = h"
  using assms first_index_nth [of "\<lambda>e. entry_handle e = h" "nv_list s"]
  by (auto simp: NvFindHandle_spec Let_def split: if_splits)

lemma NvRamGetIndex_None_iff: "NvRamGetIndex s h = None \<longleftrightarrow> ram_of s h = None"
  by (auto simp: NvRamGetIndex_def ram_of_def kmap_None_iff Let_def first_index_less_iff)

lemma NvRamGetIndex_SomeD:
  assumes "NvRamGetIndex s h = Some i"
  shows "i < length (s_indexOrderlyRam s) \<and> r_handle (s_indexOrderlyRam s ! i) = h"
  using assms first_index_nth [of "\<lambda>r. r_handle r = h" "s_indexOrderlyRam s"]
  by (auto simp: NvRamGetIndex_def Let_def split: if_splits)

section \<open>Well-formedness\<close>

definition orderly_entry :: "nv_entry \<Rightarrow> bool" where
  "orderly_entry e \<longleftrightarrow> (case e of IndexEntry n ix d \<Rightarrow> na_ORDERLY (nv_attributes (nv_public ix)) | _ \<Rightarrow> False)"

text \<open>The attributes that never change after the definition of an index.\<close>

definition fixed_attributes :: "TPMA_NV \<Rightarrow> TPMA_NV" where
  "fixed_attributes a = a\<lparr>na_WRITELOCKED := False, na_READLOCKED := False, na_WRITTEN := False\<rparr>"

definition public_ok :: "TPMS_NV_PUBLIC \<Rightarrow> bool" where
  "public_ok p \<longleftrightarrow> HandleGetType (nvIndex p) = TPM_HT_NV_INDEX \<and> size_ok p \<and> type_attributes_ok (nv_attributes p)
     \<and> supported_type (nt_of (nv_attributes p))"

fun entry_ok :: "nat \<Rightarrow> nv_entry \<Rightarrow> bool" where
  "entry_ok n (IndexEntry k ix d) \<longleftrightarrow> public_ok (nv_public ix) \<and> k = 4 + n + length d \<and>
     length d = (if na_ORDERLY (nv_attributes (nv_public ix)) then 0 else unat (dataSize (nv_public ix)))"
| "entry_ok n (EvictEntry k h b) \<longleftrightarrow> HandleGetType h = TPM_HT_PERSISTENT \<and> k = 8 + length b"

fun ram_matches :: "nv_entry \<Rightarrow> NV_RAM_ENTRY \<Rightarrow> bool" where
  "ram_matches (IndexEntry n ix d) r \<longleftrightarrow> na_ORDERLY (nv_attributes (nv_public ix))
     \<and> length (r_data r) = unat (dataSize (nv_public ix))
     \<and> fixed_attributes (r_attributes r) = fixed_attributes (nv_attributes (nv_public ix))"
| "ram_matches (EvictEntry n h b) r \<longleftrightarrow> False"

text \<open>The orderly RAM, or its saved image, belongs to the entries.\<close>

definition ram_wf :: "nv_entry list \<Rightarrow> NV_RAM_ENTRY list \<Rightarrow> bool" where
  "ram_wf es rs \<longleftrightarrow> distinct (map r_handle rs)
     \<and> (\<forall>r \<in> set rs. r_size r = sizeof_NV_RAM_HEADER + length (r_data r)
          \<and> (\<exists>e. kmap entry_handle es (r_handle r) = Some e \<and> ram_matches e r))
     \<and> (\<forall>e \<in> set es. orderly_entry e \<longrightarrow> kmap r_handle rs (entry_handle e) \<noteq> None)
     \<and> sum_list (map r_size rs) \<le> RAM_INDEX_SPACE"

definition nv_wf :: "nv_state \<Rightarrow> bool" where
  "nv_wf s \<longleftrightarrow> distinct (map entry_handle (nv_list s))
     \<and> (\<forall>e \<in> set (nv_list s). entry_ok (sizeof_NV_INDEX s) e)
     \<and> ram_wf (nv_list s) (s_indexOrderlyRam s)
     \<and> NvGetEnd s + sizeof_NV_LIST_TERMINATOR \<le> s_evictNvEnd s"

lemma nv_wfD:
  assumes "nv_wf s"
  shows "distinct (map entry_handle (nv_list s))" "distinct (map r_handle (s_indexOrderlyRam s))"
    "e \<in> set (nv_list s) \<Longrightarrow> entry_ok (sizeof_NV_INDEX s) e"
    "ram_wf (nv_list s) (s_indexOrderlyRam s)"
    "NvGetEnd s + sizeof_NV_LIST_TERMINATOR \<le> s_evictNvEnd s"
  using assms by (auto simp: nv_wf_def ram_wf_def)

text \<open>The abstract view: descriptor, with the attributes from RAM for an orderly index, and data.\<close>

definition view_entry :: "(TPM_HANDLE \<rightharpoonup> NV_RAM_ENTRY) \<Rightarrow> TPM_HANDLE \<Rightarrow> nv_entry \<Rightarrow> (NV_INDEX \<times> bytes) option" where
  "view_entry rm h e = (case e of
      EvictEntry n h' b \<Rightarrow> None
    | IndexEntry n ix d \<Rightarrow>
        if na_ORDERLY (nv_attributes (nv_public ix))
        then map_option (\<lambda>r. (set_attributes (r_attributes r) ix, r_data r)) (rm h)
        else Some (ix, d))"

definition nv_lookup :: "nv_state \<Rightarrow> TPM_HANDLE \<rightharpoonup> NV_INDEX \<times> bytes" where
  "nv_lookup s h = Option.bind (entry_of s h) (view_entry (ram_of s) h)"

lemma fixed_attributes_simps [simp]:
  "na_ORDERLY (fixed_attributes a) = na_ORDERLY a" "na_TPM_NT (fixed_attributes a) = na_TPM_NT a"
  "na_PLATFORMCREATE (fixed_attributes a) = na_PLATFORMCREATE a"
  "na_GLOBALLOCK (fixed_attributes a) = na_GLOBALLOCK a" "na_CLEAR_STCLEAR (fixed_attributes a) = na_CLEAR_STCLEAR a"
  "na_WRITEDEFINE (fixed_attributes a) = na_WRITEDEFINE a" "na_NO_DA (fixed_attributes a) = na_NO_DA a"
  "na_AUTHWRITE (fixed_attributes a) = na_AUTHWRITE a"
  "fixed_attributes (a\<lparr>na_WRITTEN := b\<rparr>) = fixed_attributes a"
  "fixed_attributes (a\<lparr>na_WRITELOCKED := b\<rparr>) = fixed_attributes a"
  "fixed_attributes (a\<lparr>na_READLOCKED := b\<rparr>) = fixed_attributes a"
  by (simp_all add: fixed_attributes_def)

lemma type_attributes_ok_fixed: "type_attributes_ok (fixed_attributes a) = type_attributes_ok a"
  by (simp add: type_attributes_ok_def)

lemma fixed_attributes_eqD:
  assumes "fixed_attributes a = fixed_attributes b"
  shows "na_ORDERLY a = na_ORDERLY b" "na_TPM_NT a = na_TPM_NT b" "na_PLATFORMCREATE a = na_PLATFORMCREATE b"
    "na_GLOBALLOCK a = na_GLOBALLOCK b" "na_CLEAR_STCLEAR a = na_CLEAR_STCLEAR b" "na_WRITEDEFINE a = na_WRITEDEFINE b"
    "type_attributes_ok a = type_attributes_ok b"
  using assms by (metis fixed_attributes_simps(1), metis fixed_attributes_simps(2), metis fixed_attributes_simps(3),
      metis fixed_attributes_simps(4), metis fixed_attributes_simps(5), metis fixed_attributes_simps(6),
      metis type_attributes_ok_fixed)

lemma set_attributes_simps [simp]:
  "nvIndex (nv_public (set_attributes a ix)) = nvIndex (nv_public ix)"
  "nv_attributes (nv_public (set_attributes a ix)) = a"
  "dataSize (nv_public (set_attributes a ix)) = dataSize (nv_public ix)"
  "nv_nameAlg (nv_public (set_attributes a ix)) = nv_nameAlg (nv_public ix)"
  "nv_authPolicy (nv_public (set_attributes a ix)) = nv_authPolicy (nv_public ix)"
  "nv_auth (set_attributes a ix) = nv_auth ix"
  "set_attributes a (set_attributes b ix) = set_attributes a ix"
  by (simp_all add: set_attributes_def)

lemma set_attributes_self [simp]: "set_attributes (nv_attributes (nv_public ix)) ix = ix"
  by (simp add: set_attributes_def)

lemma public_ok_set_attributes:
  "fixed_attributes a = fixed_attributes (nv_attributes (nv_public ix)) \<Longrightarrow>
     public_ok (nv_public (set_attributes a ix)) = public_ok (nv_public ix)"
  using fixed_attributes_eqD [of a "nv_attributes (nv_public ix)"]
  by (simp add: public_ok_def size_ok_def)

lemma orderly_entry_simps [simp]:
  "orderly_entry (IndexEntry n ix d) = na_ORDERLY (nv_attributes (nv_public ix))"
  "\<not> orderly_entry (EvictEntry n h b)"
  by (simp_all add: orderly_entry_def)

lemma ram_wf_orderly:
  assumes "ram_wf es rs" "kmap entry_handle es h = Some e" "orderly_entry e"
  obtains r where "kmap r_handle rs h = Some r" "ram_matches e r"
proof -
  have e: "e \<in> set es" "entry_handle e = h"
    using kmap_SomeD [OF assms(2)] by auto
  then obtain r where r: "kmap r_handle rs h = Some r"
    using assms(1,3) by (auto simp: ram_wf_def)
  then have "ram_matches e r"
    using assms(1,2) kmap_SomeD [OF r] by (force simp: ram_wf_def)
  with r show ?thesis
    by (rule that)
qed

text \<open>What the view of an index of a well-formed state looks like.\<close>

lemma nv_lookup_ok:
  assumes "nv_wf s" "nv_lookup s h = Some (ix, d)"
  shows "nvIndex (nv_public ix) = h" "public_ok (nv_public ix)" "length d = unat (dataSize (nv_public ix))"
    "HandleGetType h = TPM_HT_NV_INDEX"
proof -
  obtain n ix0 d0 where e: "entry_of s h = Some (IndexEntry n ix0 d0)"
    and v: "view_entry (ram_of s) h (IndexEntry n ix0 d0) = Some (ix, d)"
    using assms(2) by (cases "entry_of s h") (auto simp: nv_lookup_def view_entry_def split: nv_entry.splits)
  have in_list: "IndexEntry n ix0 d0 \<in> set (nv_list s)" and h: "nvIndex (nv_public ix0) = h"
    using kmap_SomeD [of entry_handle "nv_list s" h] e by (auto simp: entry_of_def)
  have ok: "entry_ok (sizeof_NV_INDEX s) (IndexEntry n ix0 d0)"
    using nv_wfD(3) [OF assms(1) in_list] .
  have *: "nvIndex (nv_public ix) = h \<and> public_ok (nv_public ix) \<and> length d = unat (dataSize (nv_public ix))"
  proof (cases "na_ORDERLY (nv_attributes (nv_public ix0))")
    case True
    then obtain r where r: "ram_of s h = Some r" "ram_matches (IndexEntry n ix0 d0) r"
      using ram_wf_orderly [OF nv_wfD(4) [OF assms(1)], of h "IndexEntry n ix0 d0"] e
      by (auto simp: entry_of_def ram_of_def)
    then show ?thesis
      using v ok h True public_ok_set_attributes [of "r_attributes r" ix0] by (auto simp: view_entry_def)
  next
    case False
    then show ?thesis
      using v ok h by (auto simp: view_entry_def)
  qed
  then show "nvIndex (nv_public ix) = h" "public_ok (nv_public ix)" "length d = unat (dataSize (nv_public ix))"
    "HandleGetType h = TPM_HT_NV_INDEX"
    by (auto simp: public_ok_def)
qed

section \<open>The index cache\<close>

lemma store_cache_simps [simp]:
  fixes s :: nv_state
  defines "s' \<equiv> \<lambda>c r ix. s\<lparr>s_cachedNvRef := c, s_cachedNvRamRef := r, s_cachedNvIndex := ix\<rparr>"
  shows "entry_of (s' c r ix) = entry_of s" "ram_of (s' c r ix) = ram_of s"
    "nv_lookup (s' c r ix) = nv_lookup s" "nv_wf (s' c r ix) = nv_wf s"
  by (simp_all add: s'_def entry_of_def ram_of_def nv_lookup_def nv_wf_def NvGetEnd_def fun_eq_iff)

definition cached_at :: "nv_state \<Rightarrow> TPM_HANDLE \<Rightarrow> nat \<Rightarrow> NV_INDEX \<Rightarrow> bytes \<Rightarrow> bool" where
  "cached_at s h i ix d \<longleftrightarrow> nv_wf s \<and> s_cachedNvRef s = Some i \<and> s_cachedNvIndex s = ix
     \<and> i < length (nv_list s) \<and> entry_handle (nv_list s ! i) = h \<and> nv_lookup s h = Some (ix, d)
     \<and> (na_ORDERLY (nv_attributes (nv_public ix)) \<longrightarrow>
          (\<exists>r < length (s_indexOrderlyRam s). s_cachedNvRamRef s = Some r \<and> r_handle (s_indexOrderlyRam s ! r) = h))"

lemma entry_of_nth: "nv_wf s \<Longrightarrow> i < length (nv_list s) \<Longrightarrow> entry_of s (entry_handle (nv_list s ! i)) = Some (nv_list s ! i)"
  unfolding entry_of_def by (rule kmap_nth) (simp_all add: nv_wfD)

lemma ram_of_nth:
  "nv_wf s \<Longrightarrow> r < length (s_indexOrderlyRam s) \<Longrightarrow> ram_of s (r_handle (s_indexOrderlyRam s ! r)) = Some (s_indexOrderlyRam s ! r)"
  unfolding ram_of_def by (rule kmap_nth) (simp_all add: nv_wfD)

lemma cached_at_plain:
  assumes "cached_at s h i ix d" "\<not> na_ORDERLY (nv_attributes (nv_public ix))"
  shows "nv_list s ! i = IndexEntry (4 + sizeof_NV_INDEX s + length d) ix d"
proof -
  have wf: "nv_wf s" and i: "i < length (nv_list s)" "entry_handle (nv_list s ! i) = h"
    and lk: "nv_lookup s h = Some (ix, d)"
    using assms(1) by (auto simp: cached_at_def)
  have e: "entry_of s h = Some (nv_list s ! i)"
    using entry_of_nth [OF wf i(1)] i(2) by simp
  then obtain n ix0 d0 where x: "nv_list s ! i = IndexEntry n ix0 d0"
    and v: "view_entry (ram_of s) h (IndexEntry n ix0 d0) = Some (ix, d)"
    using lk by (cases "nv_list s ! i") (auto simp: nv_lookup_def view_entry_def)
  have ok: "entry_ok (sizeof_NV_INDEX s) (IndexEntry n ix0 d0)"
    using nv_wfD(3) [OF wf nth_mem [OF i(1)]] unfolding x .
  have "\<not> na_ORDERLY (nv_attributes (nv_public ix0))"
  proof
    assume o: "na_ORDERLY (nv_attributes (nv_public ix0))"
    then obtain r where "ram_of s h = Some r" "ram_matches (IndexEntry n ix0 d0) r"
      using ram_wf_orderly [OF nv_wfD(4) [OF wf], of h "IndexEntry n ix0 d0"] e x
      by (auto simp: entry_of_def ram_of_def)
    then show False
      using o v assms(2) fixed_attributes_eqD(1) [of "r_attributes r" "nv_attributes (nv_public ix0)"]
      by (auto simp: view_entry_def)
  qed
  then show ?thesis
    using v ok x by (auto simp: view_entry_def)
qed

lemma cached_at_orderly:
  assumes "cached_at s h i ix d" "na_ORDERLY (nv_attributes (nv_public ix))"
  obtains r ix0 where "s_cachedNvRamRef s = Some r" "r < length (s_indexOrderlyRam s)"
    "r_handle (s_indexOrderlyRam s ! r) = h" "NvRamGetIndex s h = Some r"
    "r_data (s_indexOrderlyRam s ! r) = d" "r_attributes (s_indexOrderlyRam s ! r) = nv_attributes (nv_public ix)"
    "nv_list s ! i = IndexEntry (4 + sizeof_NV_INDEX s) ix0 []" "ix = set_attributes (nv_attributes (nv_public ix)) ix0"
    "na_ORDERLY (nv_attributes (nv_public ix0))"
    "fixed_attributes (nv_attributes (nv_public ix)) = fixed_attributes (nv_attributes (nv_public ix0))"
proof -
  have wf: "nv_wf s" and i: "i < length (nv_list s)" "entry_handle (nv_list s ! i) = h"
    and lk: "nv_lookup s h = Some (ix, d)"
    using assms(1) by (auto simp: cached_at_def)
  obtain r where r: "s_cachedNvRamRef s = Some r" "r < length (s_indexOrderlyRam s)"
    "r_handle (s_indexOrderlyRam s ! r) = h"
    using assms by (auto simp: cached_at_def)
  have rm: "ram_of s h = Some (s_indexOrderlyRam s ! r)"
    using ram_of_nth [OF wf r(2)] r(3) by simp
  have e: "entry_of s h = Some (nv_list s ! i)"
    using entry_of_nth [OF wf i(1)] i(2) by simp
  then obtain n ix0 d0 where x: "nv_list s ! i = IndexEntry n ix0 d0"
    and v: "view_entry (ram_of s) h (IndexEntry n ix0 d0) = Some (ix, d)"
    using lk by (cases "nv_list s ! i") (auto simp: nv_lookup_def view_entry_def)
  have ok: "entry_ok (sizeof_NV_INDEX s) (IndexEntry n ix0 d0)"
    using nv_wfD(3) [OF wf nth_mem [OF i(1)]] unfolding x .
  have o: "na_ORDERLY (nv_attributes (nv_public ix0))"
    using v assms(2) by (auto simp: view_entry_def split: if_splits)
  then have m: "ram_matches (IndexEntry n ix0 d0) (s_indexOrderlyRam s ! r)"
    using ram_wf_orderly [OF nv_wfD(4) [OF wf], of h "IndexEntry n ix0 d0"] e x rm
    by (auto simp: entry_of_def ram_of_def)
  have "NvRamGetIndex s h \<noteq> None"
    using rm by (simp add: NvRamGetIndex_None_iff)
  then obtain r' where r': "NvRamGetIndex s h = Some r'"
    by auto
  then have "r' = r"
    using NvRamGetIndex_SomeD [OF r'] r nv_wfD(2) [OF wf] by (metis length_map nth_eq_iff_index_eq nth_map)
  then show ?thesis
    using that [of r ix0] r r' v ok x o m rm by (auto simp: view_entry_def)
qed

lemma NvGetIndexInfo_found:
  assumes "nv_wf s" "nvIndex (cached_pub s) = TPM_RH_UNASSIGNED" "nv_lookup s h = Some (ix, d)"
  obtains i r where
    "NvGetIndexInfo h s = Ret (Some i, s\<lparr>s_cachedNvRef := Some i, s_cachedNvRamRef := r, s_cachedNvIndex := ix\<rparr>)"
    "cached_at (s\<lparr>s_cachedNvRef := Some i, s_cachedNvRamRef := r, s_cachedNvIndex := ix\<rparr>) h i ix d"
proof -
  have h: "HandleGetType h = TPM_HT_NV_INDEX"
    using nv_lookup_ok [OF assms(1,3)] by simp
  then have ne: "TPM_RH_UNASSIGNED \<noteq> h"
    by (auto simp: HandleGetType_def tpm_consts)
  obtain n ix0 d0 where e: "entry_of s h = Some (IndexEntry n ix0 d0)"
    and v: "view_entry (ram_of s) h (IndexEntry n ix0 d0) = Some (ix, d)"
    using assms(3) by (cases "entry_of s h") (auto simp: nv_lookup_def view_entry_def split: nv_entry.splits)
  obtain i where f: "NvFindHandle s h = Some i"
    using e NvFindHandle_None_iff [of s h] by (cases "NvFindHandle s h") auto
  have i: "i < length (nv_list s)" "entry_handle (nv_list s ! i) = h"
    using NvFindHandle_SomeD [OF f] by auto
  have x: "nv_list s ! i = IndexEntry n ix0 d0"
    using entry_of_nth [OF assms(1) i(1)] i(2) e by simp
  show ?thesis
  proof (cases "na_ORDERLY (nv_attributes (nv_public ix0))")
    case True
    then obtain r where r: "ram_of s h = Some r" "ram_matches (IndexEntry n ix0 d0) r"
      using ram_wf_orderly [OF nv_wfD(4) [OF assms(1)], of h "IndexEntry n ix0 d0"] e
      by (auto simp: entry_of_def ram_of_def)
    then obtain k where k: "NvRamGetIndex s h = Some k"
      using NvRamGetIndex_None_iff [of s h] by (cases "NvRamGetIndex s h") auto
    have k': "k < length (s_indexOrderlyRam s)" "r_handle (s_indexOrderlyRam s ! k) = h"
      using NvRamGetIndex_SomeD [OF k] by auto
    then have rk: "s_indexOrderlyRam s ! k = r"
      using ram_of_nth [OF assms(1) k'(1)] r by simp
    have ix: "ix = set_attributes (r_attributes r) ix0" "d = r_data r"
      using v True r by (auto simp: view_entry_def)
    show ?thesis
    proof (rule that [of i "Some k"])
      show "NvGetIndexInfo h s = Ret (Some i, s\<lparr>s_cachedNvRef := Some i, s_cachedNvRamRef := Some k, s_cachedNvIndex := ix\<rparr>)"
        using f x k True assms(2) ne rk ix by (simp add: NvGetIndexInfo_def Let_def)
    qed (use assms k' i ix True in \<open>auto simp: cached_at_def\<close>)
  next
    case False
    then have ix: "ix = ix0" "d = d0"
      using v by (auto simp: view_entry_def)
    show ?thesis
    proof (rule that [of i None])
      show "NvGetIndexInfo h s = Ret (Some i, s\<lparr>s_cachedNvRef := Some i, s_cachedNvRamRef := None, s_cachedNvIndex := ix\<rparr>)"
        using f x False assms(2) ne ix by (simp add: NvGetIndexInfo_def Let_def)
    qed (use assms i ix False in \<open>auto simp: cached_at_def\<close>)
  qed
qed

section \<open>Updates of entries and of RAM\<close>

definition same_index :: "NV_INDEX \<Rightarrow> NV_INDEX \<Rightarrow> bool" where
  "same_index ix ix' \<longleftrightarrow> nvIndex (nv_public ix') = nvIndex (nv_public ix) \<and> nv_nameAlg (nv_public ix') = nv_nameAlg (nv_public ix)
     \<and> dataSize (nv_public ix') = dataSize (nv_public ix)
     \<and> fixed_attributes (nv_attributes (nv_public ix')) = fixed_attributes (nv_attributes (nv_public ix))"

lemma same_index_refl [simp]: "same_index ix ix"
  by (simp add: same_index_def)

lemma same_index_set_attributes [simp]:
  "same_index ix (set_attributes a ix) \<longleftrightarrow> fixed_attributes a = fixed_attributes (nv_attributes (nv_public ix))"
  by (simp add: same_index_def)

lemma same_index_auth [simp]: "same_index ix (ix\<lparr>nv_auth := x\<rparr>)"
  by (simp add: same_index_def)

lemma same_index_ok:
  assumes "same_index ix ix'"
  shows "public_ok (nv_public ix') = public_ok (nv_public ix)"
    "na_ORDERLY (nv_attributes (nv_public ix')) = na_ORDERLY (nv_attributes (nv_public ix))"
  using assms fixed_attributes_eqD [of "nv_attributes (nv_public ix')" "nv_attributes (nv_public ix)"]
  by (simp_all add: same_index_def public_ok_def size_ok_def)

lemma ram_wf_update_entry:
  assumes "ram_wf es rs" "distinct (map entry_handle es)" "i < length es" "es ! i = IndexEntry n ix d"
    and "same_index ix ix'"
  shows "ram_wf (es[i := IndexEntry n ix' d']) rs"
proof -
  have k: "kmap entry_handle (es[i := IndexEntry n ix' d']) = (kmap entry_handle es)(nvIndex (nv_public ix) \<mapsto> IndexEntry n ix' d')"
    using kmap_update [OF assms(2,3), of "IndexEntry n ix' d'"] assms(4,5) by (simp add: same_index_def)
  have old: "kmap entry_handle es (nvIndex (nv_public ix)) = Some (IndexEntry n ix d)"
    using kmap_nth [OF assms(2,3)] assms(4) by simp
  have m: "ram_matches (IndexEntry n ix' d') r = ram_matches (IndexEntry n ix d) r" for r
    using assms(5) same_index_ok(2) [OF assms(5)] by (auto simp: same_index_def)
  have "\<exists>e. kmap entry_handle (es[i := IndexEntry n ix' d']) (r_handle r) = Some e \<and> ram_matches e r"
    if r: "r \<in> set rs" for r
  proof -
    obtain e where e: "kmap entry_handle es (r_handle r) = Some e" "ram_matches e r"
      using assms(1) r by (auto simp: ram_wf_def)
    show ?thesis
    proof (cases "r_handle r = nvIndex (nv_public ix)")
      case True
      then show ?thesis
        using e old m [of r] by (simp add: k)
    qed (use e in \<open>simp add: k\<close>)
  qed
  moreover have "kmap r_handle rs (entry_handle e) \<noteq> None"
    if "e \<in> set (es[i := IndexEntry n ix' d'])" "orderly_entry e" for e
  proof -
    have "IndexEntry n ix d \<in> set es"
      using assms(3,4) by (metis nth_mem)
    moreover have "e = IndexEntry n ix' d' \<or> e \<in> set es"
      using that(1) set_update_subset_insert [of es i] by blast
    moreover have "entry_handle (IndexEntry n ix' d') = entry_handle (IndexEntry n ix d)"
      "orderly_entry (IndexEntry n ix' d') = orderly_entry (IndexEntry n ix d)"
      using assms(5) same_index_ok(2) [OF assms(5)] by (simp_all add: same_index_def)
    ultimately show ?thesis
      using that(2) assms(1) unfolding ram_wf_def by metis
  qed
  ultimately show ?thesis
    using assms(1) by (auto simp: ram_wf_def)
qed

lemma entry_of_upd_entry:
  assumes "nv_wf s" "i < length (nv_list s)" "entry_handle (f (nv_list s ! i)) = entry_handle (nv_list s ! i)"
  shows "entry_of (upd_entry i f s) = (entry_of s)(entry_handle (nv_list s ! i) \<mapsto> f (nv_list s ! i))"
  using kmap_update [OF nv_wfD(1) [OF assms(1)] assms(2), of "f (nv_list s ! i)"] assms(3)
  by (simp add: entry_of_def upd_entry_def)

lemma nv_wf_upd_entry:
  assumes "nv_wf s" "i < length (nv_list s)" "nv_list s ! i = IndexEntry n ix d"
    and "f (IndexEntry n ix d) = IndexEntry n ix' d'" "same_index ix ix'" "length d' = length d"
  shows "nv_wf (upd_entry i f s)"
    and "nv_lookup (upd_entry i f s) = (nv_lookup s)(nvIndex (nv_public ix) :=
           view_entry (ram_of s) (nvIndex (nv_public ix)) (IndexEntry n ix' d'))"
proof -
  let ?e = "IndexEntry n ix' d'"
  have l: "nv_list (upd_entry i f s) = (nv_list s)[i := ?e]"
    by (simp add: upd_entry_def assms(3,4))
  have h: "entry_handle ?e = entry_handle (nv_list s ! i)"
    using assms(3,5) by (simp add: same_index_def)
  have ok: "entry_ok (sizeof_NV_INDEX s) ?e"
    using nv_wfD(3) [OF assms(1) nth_mem [OF assms(2)]] assms(3,5,6) same_index_ok [OF assms(5)]
    by (auto simp: same_index_def)
  have mh: "map entry_handle ((nv_list s)[i := ?e]) = map entry_handle (nv_list s)"
    using map_key_update [OF assms(2) h] .
  have mz: "map entry_size ((nv_list s)[i := ?e]) = map entry_size (nv_list s)"
    using map_key_update [OF assms(2), of entry_size ?e] assms(3) by simp
  have fr: "sizeof_NV_INDEX (upd_entry i f s) = sizeof_NV_INDEX s" "s_evictNvEnd (upd_entry i f s) = s_evictNvEnd s"
    "s_indexOrderlyRam (upd_entry i f s) = s_indexOrderlyRam s" "NvGetEnd (upd_entry i f s) = NvGetEnd s"
    using mz by (simp_all add: NvGetEnd_def l) (simp_all add: upd_entry_def)
  have "entry_ok (sizeof_NV_INDEX s) e" if "e \<in> set ((nv_list s)[i := ?e])" for e
    using that ok nv_wfD(3) [OF assms(1)] set_update_subset_insert [of "nv_list s" i ?e] by blast
  then show "nv_wf (upd_entry i f s)"
    using assms(1) ram_wf_update_entry [OF nv_wfD(4) [OF assms(1)] nv_wfD(1) [OF assms(1)] assms(2,3,5), of d']
    unfolding nv_wf_def l fr mh by blast
  have "ram_of (upd_entry i f s) = ram_of s"
    by (simp add: ram_of_def upd_entry_def)
  then show "nv_lookup (upd_entry i f s) = (nv_lookup s)(nvIndex (nv_public ix) :=
           view_entry (ram_of s) (nvIndex (nv_public ix)) ?e)"
    using entry_of_upd_entry [OF assms(1,2), of f] h assms(3,4)
    by (intro ext) (simp add: nv_lookup_def)
qed

lemma ram_wf_update_ram:
  assumes "ram_wf es rs" "k < length rs" "r_handle r' = r_handle (rs ! k)" "r_size r' = r_size (rs ! k)"
    and "length (r_data r') = length (r_data (rs ! k))"
    and "fixed_attributes (r_attributes r') = fixed_attributes (r_attributes (rs ! k))"
  shows "ram_wf es (rs[k := r'])"
proof -
  have m: "ram_matches e r' = ram_matches e (rs ! k)" for e
    using assms(5,6) by (cases e) auto
  have d: "distinct (map r_handle rs)"
    using assms(1) by (simp add: ram_wf_def)
  have h: "map r_handle (rs[k := r']) = map r_handle rs" and z: "map r_size (rs[k := r']) = map r_size rs"
    using map_key_update [OF assms(2), of r_handle r'] map_key_update [OF assms(2), of r_size r'] assms(3,4) by simp_all
  have n: "kmap r_handle (rs[k := r']) x = None \<longleftrightarrow> kmap r_handle rs x = None" for x
    using h by (metis kmap_None_iff list.set_map)
  have "rs ! k \<in> set rs"
    using assms(2) by simp
  then have "r_size r = sizeof_NV_RAM_HEADER + length (r_data r)
      \<and> (\<exists>e. kmap entry_handle es (r_handle r) = Some e \<and> ram_matches e r)" if "r \<in> set (rs[k := r'])" for r
    using that set_update_subset_insert [of rs k r'] assms m by (auto simp: ram_wf_def)
  then show ?thesis
    using assms(1) unfolding ram_wf_def h z n by blast
qed

lemma nv_wf_upd_ram:
  assumes "nv_wf s" "k < length (s_indexOrderlyRam s)" "s_indexOrderlyRam s ! k = r"
    and "r_handle (g r) = r_handle r" "r_size (g r) = r_size r" "length (r_data (g r)) = length (r_data r)"
    and "fixed_attributes (r_attributes (g r)) = fixed_attributes (r_attributes r)"
    and "entry_of s (r_handle r) = Some (IndexEntry n ix d)" "na_ORDERLY (nv_attributes (nv_public ix))"
  shows "nv_wf (upd_ram k g s)"
    and "nv_lookup (upd_ram k g s) = (nv_lookup s)(r_handle r \<mapsto> (set_attributes (r_attributes (g r)) ix, r_data (g r)))"
proof -
  show "nv_wf (upd_ram k g s)"
    using assms(1) ram_wf_update_ram [OF nv_wfD(4) [OF assms(1)] assms(2), of "g r"] assms(3-7)
    by (simp add: nv_wf_def upd_ram_def NvGetEnd_def)
  have r: "ram_of (upd_ram k g s) = (ram_of s)(r_handle r \<mapsto> g r)"
    using kmap_update [OF nv_wfD(2) [OF assms(1)] assms(2), of "g r"] assms(3,4)
    by (simp add: ram_of_def upd_ram_def)
  have "entry_of (upd_ram k g s) = entry_of s"
    by (simp add: entry_of_def upd_ram_def)
  then show "nv_lookup (upd_ram k g s) = (nv_lookup s)(r_handle r \<mapsto> (set_attributes (r_attributes (g r)) ix, r_data (g r)))"
    using assms(8,9) by (auto simp: nv_lookup_def fun_eq_iff r view_entry_def bind_eq_Some_conv split: nv_entry.splits Option.bind_splits)
qed

section \<open>Reading and writing the data of an index\<close>

lemma NvGetIndexData_cached:
  assumes "cached_at s h i ix d" "na_WRITTEN (nv_attributes (nv_public ix))"
    and "offset \<le> unat (dataSize (nv_public ix))" "sz \<le> unat (dataSize (nv_public ix)) - offset"
  shows "NvGetIndexData (s_cachedNvIndex s) (Some i) offset sz s = Ret (slice offset sz d)"
proof -
  have wf: "nv_wf s" and lk: "nv_lookup s h = Some (ix, d)" and c: "s_cachedNvIndex s = ix"
    using assms(1) by (auto simp: cached_at_def)
  have h: "nvIndex (nv_public ix) = h" and len: "length d = unat (dataSize (nv_public ix))"
    using nv_lookup_ok [OF wf lk] by auto
  show ?thesis
  proof (cases "na_ORDERLY (nv_attributes (nv_public ix))")
    case True
    then obtain r where "NvRamGetIndex s h = Some r" "r_data (s_indexOrderlyRam s ! r) = d"
      using cached_at_orderly [OF assms(1)] by metis
    then show ?thesis
      using True assms(2-4) by (simp add: NvGetIndexData_def Let_def c h len)
  next
    case False
    then show ?thesis
      using cached_at_plain [OF assms(1) False] assms(2-4)
      by (simp add: NvGetIndexData_def Let_def c)
  qed
qed

text \<open>The data of an index when the first write begins.\<close>

definition first_clear :: "NV_INDEX \<Rightarrow> nat \<Rightarrow> bytes \<Rightarrow> bytes" where
  "first_clear ix n d =
     (let a = nv_attributes (nv_public ix) in
      if na_WRITTEN a \<or> \<not> IsNvOrdinaryIndex a then d
      else if na_ORDERLY a then replicate (length d) 0
      else if n < length d then replicate (length d) 0xFF else d)"

lemma length_first_clear [simp]: "length (first_clear ix n d) = length d"
  by (simp add: first_clear_def Let_def)

lemma length_overwrite [simp]: "offset + length new \<le> length d \<Longrightarrow> length (overwrite offset new d) = length d"
  by (simp add: overwrite_def)

definition written :: "NV_INDEX \<Rightarrow> NV_INDEX" where
  "written ix = set_attributes ((nv_attributes (nv_public ix))\<lparr>na_WRITTEN := True\<rparr>) ix"

definition written_index :: "NV_INDEX \<Rightarrow> nat \<Rightarrow> bytes \<Rightarrow> bytes \<Rightarrow> NV_INDEX \<times> bytes" where
  "written_index ix offset data d = (written ix, overwrite offset data (first_clear ix (length data) d))"

text \<open>What the operations on one index leave alone.\<close>

definition nv_frame :: "nv_state \<Rightarrow> nv_state \<Rightarrow> bool" where
  "nv_frame s s' \<longleftrightarrow> map entry_handle (nv_list s') = map entry_handle (nv_list s)
     \<and> nv_endCount s' = nv_endCount s \<and> s_maxCounter s' = s_maxCounter s \<and> nv_ramData s' = nv_ramData s
     \<and> nvStatus s' = nvStatus s \<and> s_evictNvEnd s' = s_evictNvEnd s \<and> nv_userDynamic s' = nv_userDynamic s
     \<and> sizeof_NV_INDEX s' = sizeof_NV_INDEX s \<and> sizeof_OBJECT s' = sizeof_OBJECT s
     \<and> NvGetEnd s' = NvGetEnd s"

lemma nv_frame_refl [simp]: "nv_frame s s"
  by (simp add: nv_frame_def)

lemma nv_frame_trans: "nv_frame s t \<Longrightarrow> nv_frame t u \<Longrightarrow> nv_frame s u"
  by (simp add: nv_frame_def)

lemma nv_frame_cache [simp]:
  "nv_frame s (t\<lparr>s_cachedNvIndex := x\<rparr>) = nv_frame s t" "nv_frame s (t\<lparr>s_cachedNvRef := y\<rparr>) = nv_frame s t"
  "nv_frame s (t\<lparr>s_cachedNvRamRef := z\<rparr>) = nv_frame s t" "nv_frame s (t\<lparr>updateOrderly := b\<rparr>) = nv_frame s t"
  "nv_frame s (t\<lparr>clearOrderly := c\<rparr>) = nv_frame s t"
  by (simp_all add: nv_frame_def NvGetEnd_def)

lemma nv_frame_upd_ram [simp]: "nv_frame s (upd_ram k g t) = nv_frame s t"
  by (simp add: nv_frame_def upd_ram_def NvGetEnd_def)

lemma nv_frame_upd_entry:
  assumes "nv_frame s t" "i < length (nv_list t)" "nv_list t ! i = IndexEntry n ix d"
    "f (IndexEntry n ix d) = IndexEntry n ix' d'" "nvIndex (nv_public ix') = nvIndex (nv_public ix)"
  shows "nv_frame s (upd_entry i f t)"
  using assms map_key_update [of i "nv_list t" entry_handle "IndexEntry n ix' d'"]
    map_key_update [of i "nv_list t" entry_size "IndexEntry n ix' d'"]
  by (simp add: nv_frame_def upd_entry_def NvGetEnd_def)

lemma store_field_simps [simp]:
  fixes s :: nv_state
  shows "nv_lookup (s\<lparr>s_cachedNvIndex := x\<rparr>) = nv_lookup s" "nv_wf (s\<lparr>s_cachedNvIndex := x\<rparr>) = nv_wf s"
    "nv_lookup (s\<lparr>updateOrderly := b\<rparr>) = nv_lookup s" "nv_wf (s\<lparr>updateOrderly := b\<rparr>) = nv_wf s"
    "nv_lookup (s\<lparr>clearOrderly := c\<rparr>) = nv_lookup s" "nv_wf (s\<lparr>clearOrderly := c\<rparr>) = nv_wf s"
    "ram_of (s\<lparr>s_cachedNvIndex := x\<rparr>) = ram_of s" "ram_of (s\<lparr>updateOrderly := b\<rparr>) = ram_of s"
    "ram_of (s\<lparr>clearOrderly := c\<rparr>) = ram_of s" "ram_of (upd_entry i f s) = ram_of s"
    "entry_of (s\<lparr>s_cachedNvIndex := x\<rparr>) = entry_of s" "entry_of (s\<lparr>updateOrderly := b\<rparr>) = entry_of s"
    "entry_of (s\<lparr>clearOrderly := c\<rparr>) = entry_of s" "entry_of (upd_ram k g s) = entry_of s"
  by (simp_all add: entry_of_def ram_of_def nv_lookup_def nv_wf_def NvGetEnd_def fun_eq_iff upd_entry_def upd_ram_def)

lemma upd_fusion:
  "i < length (nv_list s) \<Longrightarrow> upd_entry i f (upd_entry i g s) = upd_entry i (f \<circ> g) s"
  "k < length (s_indexOrderlyRam s) \<Longrightarrow> upd_ram k p (upd_ram k q s) = upd_ram k (p \<circ> q) s"
  by (simp_all add: upd_entry_def upd_ram_def)

lemma upd_fields [simp]:
  "nvStatus (upd_entry i f s) = nvStatus s" "s_cachedNvRef (upd_entry i f s) = s_cachedNvRef s"
  "s_cachedNvRamRef (upd_entry i f s) = s_cachedNvRamRef s" "s_cachedNvIndex (upd_entry i f s) = s_cachedNvIndex s"
  "s_indexOrderlyRam (upd_entry i f s) = s_indexOrderlyRam s" "updateOrderly (upd_entry i f s) = updateOrderly s"
  "length (nv_list (upd_entry i f s)) = length (nv_list s)" "clearOrderly (upd_entry i f s) = clearOrderly s"
  "nvStatus (upd_ram k g s) = nvStatus s" "s_cachedNvRef (upd_ram k g s) = s_cachedNvRef s"
  "s_cachedNvRamRef (upd_ram k g s) = s_cachedNvRamRef s" "s_cachedNvIndex (upd_ram k g s) = s_cachedNvIndex s"
  "nv_list (upd_ram k g s) = nv_list s" "updateOrderly (upd_ram k g s) = updateOrderly s"
  "length (s_indexOrderlyRam (upd_ram k g s)) = length (s_indexOrderlyRam s)"
  by (simp_all add: upd_entry_def upd_ram_def)

lemma NvConditionallyWrite_available:
  "nvStatus s = TPM_RC_SUCCESS \<Longrightarrow> i < length (nv_list s) \<Longrightarrow> NvConditionallyWrite i f s = (TPM_RC_SUCCESS, upd_entry i f s)"
  by (auto simp: NvConditionallyWrite_def upd_entry_def)

lemma NvConditionallyWrite_unavailable:
  "nvStatus s \<noteq> TPM_RC_SUCCESS \<Longrightarrow>
     NvConditionallyWrite i f s = (if f (nv_list s ! i) \<noteq> nv_list s ! i then nvStatus s else TPM_RC_SUCCESS, s)"
  by (auto simp: NvConditionallyWrite_def)

text \<open>A write to an index in NV memory, with NV memory available.\<close>

lemma NvWriteIndexData_plain:
  assumes "cached_at s h i ix d" "\<not> na_ORDERLY (nv_attributes (nv_public ix))" "nvStatus s = TPM_RC_SUCCESS"
    and "offset \<le> unat (dataSize (nv_public ix))" "length data \<le> unat (dataSize (nv_public ix)) - offset"
  obtains f where "NvWriteIndexData offset data s = Ret (TPM_RC_SUCCESS, upd_entry i f (s\<lparr>s_cachedNvIndex := written ix\<rparr>))"
    and "\<And>n. f (IndexEntry n ix d) = IndexEntry n (written ix) (overwrite offset data (first_clear ix (length data) d))"
proof -
  let ?a = "nv_attributes (nv_public ix)"
  let ?s = "s\<lparr>s_cachedNvIndex := written ix\<rparr>"
  have c: "s_cachedNvRef s = Some i" "s_cachedNvIndex s = ix" "i < length (nv_list s)" "nv_wf s" "nv_lookup s h = Some (ix, d)"
    using assms(1) by (auto simp: cached_at_def)
  have len: "length d = unat (dataSize (nv_public ix))"
    using nv_lookup_ok [OF c(4,5)] by simp
  show ?thesis
  proof (cases "na_WRITTEN ?a")
    case True
    then have w: "written ix = ix"
      by (simp add: written_def)
    have s: "s\<lparr>s_cachedNvIndex := ix\<rparr> = s"
      using c(2) by (cases s) simp
    show ?thesis
    proof (rule that [of "upd_data (overwrite offset data)"])
      show "NvWriteIndexData offset data s = Ret (TPM_RC_SUCCESS, upd_entry i (upd_data (overwrite offset data)) ?s)"
        using assms(2-5) True c unfolding w s
        by (simp add: NvWriteIndexData_def NvConditionallyWrite_available)
    qed (simp add: w first_clear_def True)
  next
    case False
    let ?g = "upd_index (set_attributes (?a\<lparr>na_WRITTEN := True\<rparr>))"
    let ?c = "\<lambda>e. if IsNvOrdinaryIndex ?a \<and> length data < length d then upd_data (\<lambda>_. replicate (length d) 0xFF) e else e"
    have o: "IsNvOrdinaryIndex (?a\<lparr>na_WRITTEN := True\<rparr>) = IsNvOrdinaryIndex ?a"
      by (simp add: IsNvOrdinaryIndex_def)
    have sw: "set_written (length data) s = (TPM_RC_SUCCESS, upd_entry i (?c \<circ> ?g) ?s)"
      using assms(2,3) c len
      by (auto simp: set_written_def Let_def NvWriteNvIndexAttributes_def written_def o
          NvConditionallyWrite_available upd_fusion comp_def)
    show ?thesis
    proof (rule that [of "upd_data (overwrite offset data) \<circ> (?c \<circ> ?g)"])
      show "NvWriteIndexData offset data s
          = Ret (TPM_RC_SUCCESS, upd_entry i (upd_data (overwrite offset data) \<circ> (?c \<circ> ?g)) ?s)"
        using assms(2-5) False c
        by (simp add: NvWriteIndexData_def sw NvConditionallyWrite_available upd_fusion written_def)
    qed (use False assms(2) in \<open>simp add: first_clear_def written_def Let_def\<close>)
  qed
qed

lemma NvWriteIndexData_plain_unavailable:
  assumes "cached_at s h i ix d" "\<not> na_ORDERLY (nv_attributes (nv_public ix))" "nvStatus s \<noteq> TPM_RC_SUCCESS"
    and "offset \<le> unat (dataSize (nv_public ix))" "length data \<le> unat (dataSize (nv_public ix)) - offset"
  shows "NvWriteIndexData offset data s =
    Ret (if na_WRITTEN (nv_attributes (nv_public ix)) \<and> overwrite offset data d = d then TPM_RC_SUCCESS else nvStatus s,
         s\<lparr>s_cachedNvIndex := written ix\<rparr>)"
proof -
  let ?a = "nv_attributes (nv_public ix)"
  have c: "s_cachedNvRef s = Some i" "s_cachedNvIndex s = ix"
    using assms(1) by (auto simp: cached_at_def)
  have e: "nv_list s ! i = IndexEntry (4 + sizeof_NV_INDEX s + length d) ix d"
    by (rule cached_at_plain [OF assms(1,2)])
  have "set_attributes (?a\<lparr>na_WRITTEN := True\<rparr>) ix \<noteq> ix" if "\<not> na_WRITTEN ?a"
    using that set_attributes_simps(2) [of "?a\<lparr>na_WRITTEN := True\<rparr>" ix] by (metis TPMA_NV.select_convs(20) TPMA_NV.surjective TPMA_NV.update_convs(20))
  then show ?thesis
    using assms(2-5) c e
    by (auto simp: NvWriteIndexData_def set_written_def Let_def NvWriteNvIndexAttributes_def written_def
        NvConditionallyWrite_unavailable)
qed

text \<open>A write to an orderly index, with or without NV memory available.\<close>

lemma NvWriteIndexData_orderly:
  assumes "cached_at s h i ix d" "na_ORDERLY (nv_attributes (nv_public ix))" "s_cachedNvRamRef s = Some k"
    and "offset \<le> unat (dataSize (nv_public ix))" "length data \<le> unat (dataSize (nv_public ix)) - offset"
    and "k < length (s_indexOrderlyRam s)"
  obtains g u where "NvWriteIndexData offset data s = Ret (TPM_RC_SUCCESS,
      (upd_ram k g (s\<lparr>s_cachedNvIndex := written ix\<rparr>))\<lparr>updateOrderly := u, clearOrderly := True\<rparr>)"
    and "\<And>r. r_data r = d \<Longrightarrow> r_attributes r = nv_attributes (nv_public ix) \<Longrightarrow>
      g r = r\<lparr>r_attributes := nv_attributes (nv_public (written ix)),
              r_data := overwrite offset data (first_clear ix (length data) d)\<rparr>"
    and "u = (updateOrderly s \<or> \<not> na_WRITTEN (nv_attributes (nv_public ix)) \<and> IsNvCounterIndex (nv_attributes (nv_public ix)))"
proof -
  let ?a = "nv_attributes (nv_public ix)"
  let ?a' = "?a\<lparr>na_WRITTEN := True\<rparr>"
  let ?s = "s\<lparr>s_cachedNvIndex := written ix\<rparr>"
  have c: "s_cachedNvRef s = Some i" "s_cachedNvIndex s = ix" "nv_wf s" "nv_lookup s h = Some (ix, d)"
    using assms(1) by (auto simp: cached_at_def)
  have len: "length d = unat (dataSize (nv_public ix))"
    using nv_lookup_ok [OF c(3,4)] by simp
  have up: "upd_ram k g s = (upd_ram k g s)\<lparr>updateOrderly := updateOrderly s\<rparr>" for g and s :: nv_state
    by (simp add: upd_ram_def)
  show ?thesis
  proof (cases "na_WRITTEN ?a")
    case True
    then have w: "written ix = ix"
      by (simp add: written_def)
    have s: "s\<lparr>s_cachedNvIndex := ix\<rparr> = s"
      using c(2) by (cases s) simp
    have "NvWriteIndexData offset data s = Ret (TPM_RC_SUCCESS,
        (upd_ram k (r_data_update (overwrite offset data)) ?s)\<lparr>updateOrderly := updateOrderly s, clearOrderly := True\<rparr>)"
      using assms(2-5) True c unfolding w s
      by (simp add: NvWriteIndexData_def up [symmetric])
    then show ?thesis
      by (rule that) (auto simp: w first_clear_def True)
  next
    case False
    let ?g = "r_attributes_update (\<lambda>_. ?a')"
    let ?c = "\<lambda>r. if IsNvOrdinaryIndex ?a then r_data_update (\<lambda>_. replicate (length d) 0) r else r"
    let ?u = "updateOrderly s \<or> IsNvCounterIndex ?a"
    have o: "IsNvOrdinaryIndex ?a' = IsNvOrdinaryIndex ?a" "IsNvCounterIndex ?a' = IsNvCounterIndex ?a"
      by (simp_all add: IsNvOrdinaryIndex_def IsNvCounterIndex_def)
    have x: "\<not> (IsNvOrdinaryIndex ?a \<and> IsNvCounterIndex ?a)"
      by (auto simp: IsNvOrdinaryIndex_def IsNvCounterIndex_def tpm_consts)
    have sw: "set_written (length data) s = (TPM_RC_SUCCESS, (upd_ram k (?c \<circ> ?g) ?s)\<lparr>updateOrderly := ?u\<rparr>)"
    proof (cases "IsNvCounterIndex ?a")
      case True
      with x assms(2,3,6) c len show ?thesis
        by (simp add: set_written_def Let_def written_def o upd_fusion comp_def)
    next
      case nc: False
      have "upd_ram k q ?s = (upd_ram k q ?s)\<lparr>updateOrderly := updateOrderly s\<rparr>" for q
        by (simp add: upd_ram_def)
      with nc assms(2,3,6) c len show ?thesis
        by (simp add: set_written_def Let_def written_def o upd_fusion comp_def)
    qed
    have "NvWriteIndexData offset data s = Ret (TPM_RC_SUCCESS,
        (upd_ram k (r_data_update (overwrite offset data) \<circ> (?c \<circ> ?g)) ?s)\<lparr>updateOrderly := ?u, clearOrderly := True\<rparr>)"
    proof -
      have "upd_ram k p ((upd_ram k q ?s)\<lparr>updateOrderly := ?u\<rparr>) = (upd_ram k (p \<circ> q) ?s)\<lparr>updateOrderly := ?u\<rparr>" for p q
        using assms(6) by (simp add: upd_ram_def)
      then show ?thesis
        using assms(2-5) False c by (simp add: NvWriteIndexData_def sw written_def)
    qed
    then show ?thesis
      by (rule that) (use False assms(2) in \<open>auto simp: first_clear_def written_def Let_def\<close>)
  qed
qed

lemma same_index_written [simp]: "same_index ix (written ix)"
  by (simp add: written_def)

text \<open>Both cases together, on the abstract view.\<close>

lemma NvWriteIndexData_spec:
  assumes "cached_at s h i ix d"
    and "offset \<le> unat (dataSize (nv_public ix))" "length data \<le> unat (dataSize (nv_public ix)) - offset"
  obtains (ok) s' where "NvWriteIndexData offset data s = Ret (TPM_RC_SUCCESS, s')" "nv_wf s'" "nv_frame s s'"
      "nv_lookup s' = (nv_lookup s)(h \<mapsto> written_index ix offset data d)"
      "\<not> na_ORDERLY (nv_attributes (nv_public ix)) \<Longrightarrow>
         s_indexOrderlyRam s' = s_indexOrderlyRam s \<and> updateOrderly s' = updateOrderly s"
      "na_ORDERLY (nv_attributes (nv_public ix)) \<Longrightarrow>
         (\<exists>r. ram_of s h = Some r \<and> ram_of s' = (ram_of s)(h \<mapsto>
            r\<lparr>r_attributes := nv_attributes (nv_public (written ix)), r_data := snd (written_index ix offset data d)\<rparr>))
         \<and> nv_list s' = nv_list s
         \<and> updateOrderly s' = (updateOrderly s \<or> \<not> na_WRITTEN (nv_attributes (nv_public ix)) \<and> IsNvCounterIndex (nv_attributes (nv_public ix)))"
  | (unavailable) "NvWriteIndexData offset data s = Ret (nvStatus s, s\<lparr>s_cachedNvIndex := written ix\<rparr>)"
      "nvStatus s \<noteq> TPM_RC_SUCCESS" "\<not> na_ORDERLY (nv_attributes (nv_public ix))"
proof -
  have c: "nv_wf s" "nv_lookup s h = Some (ix, d)" "i < length (nv_list s)" "entry_handle (nv_list s ! i) = h"
    using assms(1) by (auto simp: cached_at_def)
  have h: "nvIndex (nv_public ix) = h" and len: "length d = unat (dataSize (nv_public ix))"
    using nv_lookup_ok [OF c(1,2)] by auto
  have wl: "length (snd (written_index ix offset data d)) = length d"
    using assms(2,3) len by (simp add: written_index_def)
  show ?thesis
  proof (cases "na_ORDERLY (nv_attributes (nv_public ix))")
    case True
    obtain k ix0 where k: "s_cachedNvRamRef s = Some k" "k < length (s_indexOrderlyRam s)"
      "r_handle (s_indexOrderlyRam s ! k) = h" "r_data (s_indexOrderlyRam s ! k) = d"
      "r_attributes (s_indexOrderlyRam s ! k) = nv_attributes (nv_public ix)"
      "nv_list s ! i = IndexEntry (4 + sizeof_NV_INDEX s) ix0 []" "na_ORDERLY (nv_attributes (nv_public ix0))"
      "ix = set_attributes (nv_attributes (nv_public ix)) ix0"
      using cached_at_orderly [OF assms(1) True] by metis
    obtain g u where w: "NvWriteIndexData offset data s = Ret (TPM_RC_SUCCESS,
        (upd_ram k g (s\<lparr>s_cachedNvIndex := written ix\<rparr>))\<lparr>updateOrderly := u, clearOrderly := True\<rparr>)"
      and g: "\<And>r. r_data r = d \<Longrightarrow> r_attributes r = nv_attributes (nv_public ix) \<Longrightarrow>
        g r = r\<lparr>r_attributes := nv_attributes (nv_public (written ix)),
                r_data := overwrite offset data (first_clear ix (length data) d)\<rparr>"
      and u: "u = (updateOrderly s \<or> \<not> na_WRITTEN (nv_attributes (nv_public ix)) \<and> IsNvCounterIndex (nv_attributes (nv_public ix)))"
      using NvWriteIndexData_orderly [OF assms(1) True k(1) assms(2,3) k(2)] by blast
    let ?r = "s_indexOrderlyRam s ! k"
    let ?s = "s\<lparr>s_cachedNvIndex := written ix\<rparr>"
    have gr: "g ?r = ?r\<lparr>r_attributes := nv_attributes (nv_public (written ix)), r_data := snd (written_index ix offset data d)\<rparr>"
      using g [OF k(4,5)] by (simp add: written_index_def)
    have e: "entry_of ?s (r_handle ?r) = Some (IndexEntry (4 + sizeof_NV_INDEX s) ix0 [])"
      using entry_of_nth [OF c(1,3)] c(4) k(3,6) by simp
    have f: "fixed_attributes (r_attributes (g ?r)) = fixed_attributes (r_attributes ?r)"
      using k(5) by (simp add: gr written_def)
    have wi: "written ix = set_attributes (nv_attributes (nv_public (written ix))) ix0"
      using k(8) by (metis set_attributes_simps(2) set_attributes_simps(7) written_def)
    have wf: "nv_wf (upd_ram k g ?s)"
      and lk: "nv_lookup (upd_ram k g ?s) = (nv_lookup ?s)(r_handle ?r \<mapsto> (set_attributes (r_attributes (g ?r)) ix0, r_data (g ?r)))"
      using nv_wf_upd_ram [of ?s k ?r g, OF _ _ _ _ _ _ f e k(7)] c(1) k(2,4) wl gr by simp_all
    have ro: "ram_of (upd_ram k g ?s) = (ram_of s)(h \<mapsto> g ?r)" "ram_of s h = Some ?r"
      using kmap_update [OF nv_wfD(2) [OF c(1)] k(2), of "g ?r"] gr k(3) ram_of_nth [OF c(1) k(2)]
      by (simp_all add: ram_of_def upd_ram_def)
    show ?thesis
      by (rule ok [OF w]) (use wf lk ro gr k(3) wi u True in \<open>simp_all add: written_index_def\<close>)
  next
    case False
    show ?thesis
    proof (cases "nvStatus s = TPM_RC_SUCCESS")
      case True
      obtain f where w: "NvWriteIndexData offset data s = Ret (TPM_RC_SUCCESS, upd_entry i f (s\<lparr>s_cachedNvIndex := written ix\<rparr>))"
        and f: "\<And>n. f (IndexEntry n ix d) = IndexEntry n (written ix) (overwrite offset data (first_clear ix (length data) d))"
        using NvWriteIndexData_plain [OF assms(1) False True assms(2,3)] by blast
      let ?s = "s\<lparr>s_cachedNvIndex := written ix\<rparr>" and ?n = "4 + sizeof_NV_INDEX s + length d"
      have e: "nv_list ?s ! i = IndexEntry ?n ix d"
        using cached_at_plain [OF assms(1) False] by simp
      have p: "nv_wf ?s" "i < length (nv_list ?s)"
        "f (IndexEntry ?n ix d) = IndexEntry ?n (written ix) (snd (written_index ix offset data d))"
        using c f by (simp_all add: written_index_def)
      have "nv_wf (upd_entry i f ?s)"
        and "nv_lookup (upd_entry i f ?s) = (nv_lookup ?s)(nvIndex (nv_public ix) := view_entry (ram_of ?s) (nvIndex (nv_public ix))
               (IndexEntry ?n (written ix) (snd (written_index ix offset data d))))"
        using nv_wf_upd_entry [where f = f, OF p(1,2) e p(3) same_index_written wl] by simp_all
      moreover have "nv_frame s (upd_entry i f ?s)"
        by (rule nv_frame_upd_entry [where f = f, OF _ p(2) e p(3)]) (simp_all add: written_def)
      moreover have "\<not> na_ORDERLY (nv_attributes (nv_public (written ix)))"
        using False by (simp add: written_def)
      ultimately show ?thesis
        by (intro ok [OF w]) (simp_all add: h view_entry_def written_index_def False)
    next
      case na: False
      show ?thesis
      proof (cases "na_WRITTEN (nv_attributes (nv_public ix)) \<and> overwrite offset data d = d")
        case True
        then have "written_index ix offset data d = (ix, d)" "written ix = ix"
          by (simp_all add: written_index_def written_def first_clear_def)
        then show ?thesis
          using NvWriteIndexData_plain_unavailable [OF assms(1) False na assms(2,3)] True c
          by (intro ok [of "s\<lparr>s_cachedNvIndex := ix\<rparr>"]) (simp_all add: fun_upd_idem False)
      next
        case ne: False
        then show ?thesis
          using NvWriteIndexData_plain_unavailable [OF assms(1) False na assms(2,3)] na False
          by (intro unavailable) simp_all
      qed
    qed
  qed
qed

end
