(* ===== verification/NV_Operations.thy ===== *)
theory NV_Operations
  imports NV_Invariant
begin

text \<open>
  The effect of the operations of \<^verbatim>\<open>NVDynamic.c\<close> on the abstract view of NV memory: attribute and
  authorization writes, definition and deletion of an index. Every operation keeps the state
  well-formed, and none enters failure mode on a well-formed state.
\<close>

section \<open>Attributes and authorization\<close>

lemma NvWriteIndexAttributes_spec:
  assumes "cached_at s h i ix d" "fixed_attributes a = fixed_attributes (nv_attributes (nv_public ix))"
  obtains (ok) s' where "NvWriteIndexAttributes h i a s = Ret (TPM_RC_SUCCESS, s')" "nv_wf s'" "nv_frame s s'"
      "nv_lookup s' = (nv_lookup s)(h \<mapsto> (set_attributes a ix, d))"
      "updateOrderly s' = updateOrderly s"
      "\<not> na_ORDERLY (nv_attributes (nv_public ix)) \<Longrightarrow> s_indexOrderlyRam s' = s_indexOrderlyRam s"
      "na_ORDERLY (nv_attributes (nv_public ix)) \<Longrightarrow>
         (\<exists>r. ram_of s h = Some r \<and> ram_of s' = (ram_of s)(h \<mapsto> r\<lparr>r_attributes := a\<rparr>)) \<and> nv_list s' = nv_list s"
  | (unavailable) "NvWriteIndexAttributes h i a s = Ret (nvStatus s, s)"
      "nvStatus s \<noteq> TPM_RC_SUCCESS" "\<not> na_ORDERLY (nv_attributes (nv_public ix))"
proof -
  have c: "nv_wf s" "nv_lookup s h = Some (ix, d)" "i < length (nv_list s)" "entry_handle (nv_list s ! i) = h"
    using assms(1) by (auto simp: cached_at_def)
  have h: "nvIndex (nv_public ix) = h"
    using nv_lookup_ok [OF c(1,2)] by auto
  have o: "na_ORDERLY a = na_ORDERLY (nv_attributes (nv_public ix))"
    using fixed_attributes_eqD(1) [OF assms(2)] .
  show ?thesis
  proof (cases "na_ORDERLY (nv_attributes (nv_public ix))")
    case True
    obtain k ix0 where k: "NvRamGetIndex s h = Some k" "k < length (s_indexOrderlyRam s)"
      "r_handle (s_indexOrderlyRam s ! k) = h" "r_data (s_indexOrderlyRam s ! k) = d"
      "r_attributes (s_indexOrderlyRam s ! k) = nv_attributes (nv_public ix)"
      "nv_list s ! i = IndexEntry (4 + sizeof_NV_INDEX s) ix0 []" "na_ORDERLY (nv_attributes (nv_public ix0))"
      "ix = set_attributes (nv_attributes (nv_public ix)) ix0"
      using cached_at_orderly [OF assms(1) True] by metis
    let ?g = "r_attributes_update (\<lambda>_. a)"
    have e: "entry_of s (r_handle (s_indexOrderlyRam s ! k)) = Some (IndexEntry (4 + sizeof_NV_INDEX s) ix0 [])"
      using entry_of_nth [OF c(1,3)] c(4) k(3,6) by simp
    have wi: "set_attributes a ix0 = set_attributes a ix"
      using k(8) by (metis set_attributes_simps(7))
    have "nv_wf (upd_ram k ?g s)"
      and "nv_lookup (upd_ram k ?g s) = (nv_lookup s)(h \<mapsto> (set_attributes a ix, d))"
      using nv_wf_upd_ram [of s k "s_indexOrderlyRam s ! k" ?g, OF c(1) k(2) refl _ _ _ _ e k(7)] k(3-5) assms(2) wi
      by simp_all
    moreover have "ram_of (upd_ram k ?g s) = (ram_of s)(h \<mapsto> (s_indexOrderlyRam s ! k)\<lparr>r_attributes := a\<rparr>)"
      "ram_of s h = Some (s_indexOrderlyRam s ! k)"
      using kmap_update [OF nv_wfD(2) [OF c(1)] k(2), of "?g (s_indexOrderlyRam s ! k)"] k(3) ram_of_nth [OF c(1) k(2)]
      by (simp_all add: ram_of_def upd_ram_def)
    ultimately show ?thesis
      using True k(1) by (intro ok [of "upd_ram k ?g s"]) (simp_all add: NvWriteIndexAttributes_def o)
  next
    case False
    let ?f = "upd_index (set_attributes a)" and ?n = "4 + sizeof_NV_INDEX s + length d"
    have e: "nv_list s ! i = IndexEntry ?n ix d"
      using cached_at_plain [OF assms(1) False] .
    have p: "?f (IndexEntry ?n ix d) = IndexEntry ?n (set_attributes a ix) d" "same_index ix (set_attributes a ix)"
      using assms(2) by simp_all
    show ?thesis
    proof (cases "nvStatus s = TPM_RC_SUCCESS")
      case True
      have "nv_frame s (upd_entry i ?f s)"
        by (rule nv_frame_upd_entry [where f = ?f, OF _ c(3) e p(1)]) simp_all
      then show ?thesis
        using nv_wf_upd_entry [where f = ?f, OF c(1,3) e p refl] True False c(3) h
        by (intro ok [of "upd_entry i ?f s"])
          (simp_all add: NvWriteIndexAttributes_def NvWriteNvIndexAttributes_def o NvConditionallyWrite_available view_entry_def)
    next
      case na: False
      show ?thesis
      proof (cases "set_attributes a ix = ix")
        case True
        then show ?thesis
          using na False c e
          by (intro ok [of s]) (simp_all add: NvWriteIndexAttributes_def NvWriteNvIndexAttributes_def o
              NvConditionallyWrite_unavailable fun_upd_idem)
      next
        case ne: False
        then show ?thesis
          using na False e
          by (intro unavailable) (simp_all add: NvWriteIndexAttributes_def NvWriteNvIndexAttributes_def o
              NvConditionallyWrite_unavailable)
      qed
    qed
  qed
qed

lemma NvWriteIndexAuth_spec:
  assumes "cached_at s h i ix d"
  obtains (ok) s' where "NvWriteIndexAuth (Some i) auth s = Ret (TPM_RC_SUCCESS, s')" "nv_wf s'" "nv_frame s s'"
      "nv_lookup s' = (nv_lookup s)(h \<mapsto> (ix\<lparr>nv_auth := auth\<rparr>, d))"
      "s_indexOrderlyRam s' = s_indexOrderlyRam s" "updateOrderly s' = updateOrderly s"
  | (unavailable) x where "NvWriteIndexAuth (Some i) auth s = Ret (nvStatus s, s\<lparr>s_cachedNvIndex := x\<rparr>)"
      "nvStatus s \<noteq> TPM_RC_SUCCESS"
proof -
  let ?f = "upd_index (\<lambda>ix. ix\<lparr>nv_auth := auth\<rparr>)"
  let ?s = "s\<lparr>s_cachedNvIndex := ix\<lparr>nv_auth := auth\<rparr>\<rparr>"
  have c: "nv_wf s" "nv_lookup s h = Some (ix, d)" "i < length (nv_list s)" "entry_handle (nv_list s ! i) = h"
    "s_cachedNvRef s = Some i" "s_cachedNvIndex s = ix"
    using assms by (auto simp: cached_at_def)
  have h: "nvIndex (nv_public ix) = h"
    using nv_lookup_ok [OF c(1,2)] by auto
  have w: "NvWriteIndexAuth (Some i) auth s = Ret (NvConditionallyWrite i ?f ?s)"
    using c(5,6) by (simp add: NvWriteIndexAuth_def)
  obtain n ix0 d0 where e: "nv_list s ! i = IndexEntry n ix0 d0"
    and v: "view_entry (ram_of s) h (IndexEntry n ix0 d0) = Some (ix, d)"
    using c(2) entry_of_nth [OF c(1,3)] c(4) by (cases "nv_list s ! i") (auto simp: nv_lookup_def view_entry_def)
  have h0: "nvIndex (nv_public ix0) = h"
    using c(4) e by simp
  have v': "view_entry (ram_of s) h (IndexEntry n (ix0\<lparr>nv_auth := auth\<rparr>) d0) = Some (ix\<lparr>nv_auth := auth\<rparr>, d)"
    using v by (auto simp: view_entry_def set_attributes_def split: if_splits)
  have p: "nv_wf ?s" "i < length (nv_list ?s)" "nv_list ?s ! i = IndexEntry n ix0 d0"
    "?f (IndexEntry n ix0 d0) = IndexEntry n (ix0\<lparr>nv_auth := auth\<rparr>) d0"
    using c(1,3) e by simp_all
  show ?thesis
  proof (cases "nvStatus s = TPM_RC_SUCCESS")
    case True
    have "nv_frame s (upd_entry i ?f ?s)"
      by (rule nv_frame_upd_entry [where f = ?f, OF _ p(2-4)]) simp_all
    then show ?thesis
      using nv_wf_upd_entry [where f = ?f, OF p same_index_auth refl] True c(3) v' h0
      by (intro ok [of "upd_entry i ?f ?s"]) (simp_all add: w NvConditionallyWrite_available)
  next
    case False
    show ?thesis
    proof (cases "ix0\<lparr>nv_auth := auth\<rparr> = ix0")
      case True
      then have "Some (ix\<lparr>nv_auth := auth\<rparr>, d) = Some (ix, d)"
        using v v' by simp
      then show ?thesis
        using False True c e by (intro ok [of ?s]) (simp_all add: w NvConditionallyWrite_unavailable fun_upd_idem)
    next
      case ne: False
      then show ?thesis
        using False e by (intro unavailable [of "ix\<lparr>nv_auth := auth\<rparr>"]) (simp_all add: w NvConditionallyWrite_unavailable)
    qed
  qed
qed

section \<open>Adding and removing entries\<close>

lemma ram_matches_orderly: "ram_matches e r \<Longrightarrow> orderly_entry e"
  by (cases e) auto

lemma ram_wf_add_entry:
  assumes "ram_wf es rs" "entry_handle e \<notin> entry_handle ` set es" "\<not> orderly_entry e"
  shows "ram_wf (es @ [e]) rs"
  using assms kmap_snoc [of entry_handle e es] kmap_None_iff [of entry_handle es "entry_handle e"]
  by (fastforce simp: ram_wf_def)

lemma ram_wf_add_both:
  assumes "ram_wf es rs" "entry_handle e \<notin> entry_handle ` set es" "ram_matches e r" "r_handle r = entry_handle e"
    and "r_size r = sizeof_NV_RAM_HEADER + length (r_data r)" "sum_list (map r_size rs) + r_size r \<le> RAM_INDEX_SPACE"
  shows "ram_wf (es @ [e]) (rs @ [r])"
proof -
  have k: "kmap entry_handle (es @ [e]) = (kmap entry_handle es)(entry_handle e \<mapsto> e)"
    using kmap_snoc [OF assms(2)] .
  have n: "kmap entry_handle es (entry_handle e) = None"
    using assms(2) by (simp add: kmap_None_iff)
  have fresh: "r_handle r \<notin> r_handle ` set rs"
    using assms(1,4) n by (auto simp: ram_wf_def)
  then have kr: "kmap r_handle (rs @ [r]) = (kmap r_handle rs)(r_handle r \<mapsto> r)"
    by (rule kmap_snoc)
  have "\<exists>e'. kmap entry_handle (es @ [e]) (r_handle x) = Some e' \<and> ram_matches e' x" if x: "x \<in> set (rs @ [r])" for x
  proof (cases "x = r")
    case True
    then show ?thesis
      using assms(3,4) by (simp add: k)
  next
    case False
    with x have "x \<in> set rs"
      by simp
    moreover have "r_handle x \<noteq> entry_handle e"
      using fresh calculation assms(4) by (metis imageI)
    ultimately show ?thesis
      using assms(1) by (simp add: ram_wf_def k)
  qed
  then show ?thesis
    using assms fresh unfolding ram_wf_def kr by auto
qed

lemma ram_wf_remove_entry:
  assumes "ram_wf es rs" "distinct (map entry_handle es)" "i < length es" "\<not> orderly_entry (es ! i)"
  shows "ram_wf (remove_at i es) rs"
proof -
  have k: "kmap entry_handle (remove_at i es) = (kmap entry_handle es)(entry_handle (es ! i) := None)"
    by (rule kmap_remove_at [OF assms(2,3)])
  have "\<exists>e. kmap entry_handle (remove_at i es) (r_handle r) = Some e \<and> ram_matches e r" if r: "r \<in> set rs" for r
  proof -
    obtain e where e: "kmap entry_handle es (r_handle r) = Some e" "ram_matches e r"
      using assms(1) r by (auto simp: ram_wf_def)
    then have "r_handle r \<noteq> entry_handle (es ! i)"
      using kmap_nth [OF assms(2,3)] assms(4) ram_matches_orderly [of e r] by auto
    with e show ?thesis
      by (simp add: k)
  qed
  then show ?thesis
    using assms(1) set_remove_at [of i es] unfolding ram_wf_def by blast
qed

lemma ram_wf_remove_both:
  assumes "ram_wf es rs" "distinct (map entry_handle es)" "i < length es" "j < length rs"
    and "r_handle (rs ! j) = entry_handle (es ! i)"
  shows "ram_wf (remove_at i es) (remove_at j rs)"
proof -
  have dr: "distinct (map r_handle rs)"
    using assms(1) by (simp add: ram_wf_def)
  have k: "kmap entry_handle (remove_at i es) = (kmap entry_handle es)(entry_handle (es ! i) := None)"
    by (rule kmap_remove_at [OF assms(2,3)])
  have kr: "kmap r_handle (remove_at j rs) = (kmap r_handle rs)(entry_handle (es ! i) := None)"
    using kmap_remove_at [OF dr assms(4)] assms(5) by simp
  have "r_size r = sizeof_NV_RAM_HEADER + length (r_data r) \<and>
      (\<exists>e. kmap entry_handle (remove_at i es) (r_handle r) = Some e \<and> ram_matches e r)"
    if r: "r \<in> set (remove_at j rs)" for r
  proof -
    have "kmap r_handle (remove_at j rs) (r_handle r) = Some r"
      using kmap_self [OF distinct_remove_at [OF dr] r] .
    then have "r_handle r \<noteq> entry_handle (es ! i)"
      by (auto simp: kr)
    moreover have "r \<in> set rs"
      using r set_remove_at [of j rs] by blast
    ultimately show ?thesis
      using assms(1) by (simp add: ram_wf_def k)
  qed
  moreover have "kmap r_handle (remove_at j rs) (entry_handle e) \<noteq> None"
    if e: "e \<in> set (remove_at i es)" "orderly_entry e" for e
  proof -
    have "kmap entry_handle (remove_at i es) (entry_handle e) = Some e"
      using kmap_self [OF distinct_remove_at [OF assms(2)] e(1)] .
    then have "entry_handle e \<noteq> entry_handle (es ! i)"
      by (auto simp: k)
    moreover have "e \<in> set es"
      using e(1) set_remove_at [of i es] by blast
    ultimately show ?thesis
      using assms(1) e(2) by (simp add: ram_wf_def kr)
  qed
  moreover have "sum_list (map r_size (remove_at j rs)) \<le> sum_list (map r_size rs)"
    using assms(4) by (simp add: map_remove_at sum_list_remove_at)
  ultimately show ?thesis
    using assms(1) distinct_remove_at [OF dr] unfolding ram_wf_def by fastforce
qed

definition nv_consts :: "nv_state \<Rightarrow> nv_state \<Rightarrow> bool" where
  "nv_consts s s' \<longleftrightarrow> nvStatus s' = nvStatus s \<and> s_evictNvEnd s' = s_evictNvEnd s \<and> nv_userDynamic s' = nv_userDynamic s
     \<and> sizeof_NV_INDEX s' = sizeof_NV_INDEX s \<and> sizeof_OBJECT s' = sizeof_OBJECT s \<and> nv_ramData s' = nv_ramData s"

lemma NvTestSpace_room:
  "NvTestSpace s sz isIndex isCounter \<Longrightarrow> NvGetEnd s + (4 + sz) + sizeof_NV_LIST_TERMINATOR \<le> s_evictNvEnd s"
  by (auto simp: NvTestSpace_def Let_def NvGetFreeBytes_def)

lemma NvAdd_spec:
  assumes "nv_wf s" "entry_handle e \<notin> entry_handle ` set (nv_list s)" "entry_ok (sizeof_NV_INDEX s) e"
    and "NvGetEnd s + entry_size e + sizeof_NV_LIST_TERMINATOR \<le> s_evictNvEnd s"
  shows "NvAdd e s = Ret (if nvStatus s \<noteq> TPM_RC_SUCCESS then (nvStatus s, s)
           else (TPM_RC_SUCCESS, s\<lparr>nv_endCount := s_maxCounter s, nv_list := nv_list s @ [e]\<rparr>))"
  using assms(4) by (simp add: NvAdd_def NvWriteNvListEnd_def)

lemma entry_of_None: "entry_of s h = None \<longleftrightarrow> h \<notin> entry_handle ` set (nv_list s)"
  by (simp add: entry_of_def kmap_None_iff)

lemma nv_lookup_undefined: "entry_of s h = None \<Longrightarrow> nv_lookup s h = None"
  by (simp add: nv_lookup_def)

definition new_index_data :: "bytes \<Rightarrow> TPMS_NV_PUBLIC \<Rightarrow> bytes" where
  "new_index_data mem pub = (if na_ORDERLY (nv_attributes pub) then replicate (unat (dataSize pub)) 0
     else take (unat (dataSize pub)) (mem @ replicate (unat (dataSize pub)) 0xFF))"

lemma length_new_index_data [simp]: "length (new_index_data mem pub) = unat (dataSize pub)"
  by (auto simp: new_index_data_def min_def)

lemma NvDefineIndex_spec:
  assumes "nv_wf s" "entry_of s (nvIndex pub) = None" "public_ok pub"
  obtains (space) "NvDefineIndex mem pub auth s = Ret (TPM_RC_NV_SPACE, s)"
  | (unavailable) "NvDefineIndex mem pub auth s = Ret (nvStatus s, s)" "nvStatus s \<noteq> TPM_RC_SUCCESS"
  | (ok) s' where "NvDefineIndex mem pub auth s = Ret (TPM_RC_SUCCESS, s')" "nv_wf s'" "nv_consts s s'"
      "nv_lookup s' = (nv_lookup s)(nvIndex pub \<mapsto> (\<lparr>nv_public = pub, nv_auth = auth\<rparr>, new_index_data mem pub))"
      "nv_endCount s' = s_maxCounter s" "s_maxCounter s' = s_maxCounter s"
      "na_ORDERLY (nv_attributes pub) \<Longrightarrow> updateOrderly s'"
      "\<not> na_ORDERLY (nv_attributes pub) \<Longrightarrow> s_indexOrderlyRam s' = s_indexOrderlyRam s \<and> updateOrderly s' = updateOrderly s
         \<and> (\<exists>e. nv_list s' = nv_list s @ [e] \<and> entry_handle e = nvIndex pub \<and> \<not> orderly_entry e)"
proof -
  let ?o = "na_ORDERLY (nv_attributes pub)" and ?n = "unat (dataSize pub)" and ?h = "nvIndex pub"
  let ?sz = "sizeof_NV_INDEX s + (if \<not> ?o then ?n else 0)"
  let ?d = "if \<not> ?o then take ?n (mem @ replicate ?n 0xFF) else []"
  let ?e = "IndexEntry (4 + ?sz) \<lparr>nv_public = pub, nv_auth = auth\<rparr> ?d"
  let ?s1 = "s\<lparr>nv_endCount := s_maxCounter s, nv_list := nv_list s @ [?e]\<rparr>"
  have fresh: "entry_handle ?e \<notin> entry_handle ` set (nv_list s)"
    using assms(2) by (simp add: entry_of_None)
  have ok_e: "entry_ok (sizeof_NV_INDEX s) ?e"
    using assms(3) by (auto simp: min_def)
  have en: "entry_of ?s1 = (entry_of s)(?h \<mapsto> ?e)"
    using kmap_snoc [OF fresh] by (simp add: entry_of_def)
  consider "\<not> NvTestSpace s ?sz True (IsNvCounterIndex (nv_attributes pub)) \<or> ?o \<and> \<not> NvRamTestSpaceIndex s ?n"
    | "NvTestSpace s ?sz True (IsNvCounterIndex (nv_attributes pub))" "?o \<longrightarrow> NvRamTestSpaceIndex s ?n" "nvStatus s \<noteq> TPM_RC_SUCCESS"
    | "NvTestSpace s ?sz True (IsNvCounterIndex (nv_attributes pub))" "?o \<longrightarrow> NvRamTestSpaceIndex s ?n" "nvStatus s = TPM_RC_SUCCESS"
    by blast
  then show ?thesis
  proof cases
    case 1
    then show ?thesis
      by (intro space) (auto simp: NvDefineIndex_def Let_def)
  next
    case 2
    have room: "NvGetEnd s + entry_size ?e + sizeof_NV_LIST_TERMINATOR \<le> s_evictNvEnd s"
      using NvTestSpace_room [OF 2(1)] by simp
    show ?thesis
      using 2 NvAdd_spec [OF assms(1) fresh ok_e room]
      by (intro unavailable) (auto simp: NvDefineIndex_def Let_def)
  next
    case 3
    have room: "NvGetEnd s + entry_size ?e + sizeof_NV_LIST_TERMINATOR \<le> s_evictNvEnd s"
      using NvTestSpace_room [OF 3(1)] by simp
    have add: "NvAdd ?e s = Ret (TPM_RC_SUCCESS, ?s1)"
      using NvAdd_spec [OF assms(1) fresh ok_e room] 3(3) by simp
    have list: "distinct (map entry_handle (nv_list ?s1))" "\<And>e. e \<in> set (nv_list ?s1) \<Longrightarrow> entry_ok (sizeof_NV_INDEX s) e"
      "NvGetEnd ?s1 + sizeof_NV_LIST_TERMINATOR \<le> s_evictNvEnd s"
      using nv_wfD(1,3) [OF assms(1)] fresh ok_e room by (auto simp: NvGetEnd_def)
    show ?thesis
    proof (cases ?o)
      case True
      let ?r = "\<lparr>r_size = sizeof_NV_RAM_HEADER + ?n, r_handle = ?h, r_attributes = nv_attributes pub, r_data = replicate ?n 0\<rparr>"
      let ?s2 = "?s1\<lparr>s_indexOrderlyRam := s_indexOrderlyRam s @ [?r], updateOrderly := True\<rparr>"
      have fit: "sum_list (map r_size (s_indexOrderlyRam s)) + r_size ?r \<le> RAM_INDEX_SPACE"
        using 3(2) True nv_wfD(4) [OF assms(1)] by (simp add: NvRamTestSpaceIndex_def NvRamGetEnd_def ram_wf_def sizeof_NV_RAM_HEADER_def)
      have m: "ram_matches ?e ?r"
        using True by simp
      have rw: "ram_wf (nv_list s @ [?e]) (s_indexOrderlyRam s @ [?r])"
        by (rule ram_wf_add_both [OF nv_wfD(4) [OF assms(1)] fresh m _ _ fit]) simp_all
      have "NvAddRAM pub ?s1 = Ret ?s2"
        using fit by (simp add: NvAddRAM_def Let_def NvRamGetEnd_def add.commute)
      then have def: "NvDefineIndex mem pub auth s = Ret (TPM_RC_SUCCESS, ?s2)"
        using 3 True add by (simp add: NvDefineIndex_def Let_def)
      have "nv_wf ?s2"
        using list rw True by (auto simp: nv_wf_def NvGetEnd_def)
      moreover have "r_handle ?r \<notin> r_handle ` set (s_indexOrderlyRam s)"
        using nv_wfD(4) [OF assms(1)] assms(2) by (auto simp: ram_wf_def entry_of_def)
      then have "ram_of ?s2 = (ram_of s)(?h \<mapsto> ?r)"
        using kmap_snoc [of r_handle ?r "s_indexOrderlyRam s"] by (simp add: ram_of_def)
      then have "nv_lookup ?s2 = (nv_lookup s)(?h \<mapsto> (\<lparr>nv_public = pub, nv_auth = auth\<rparr>, new_index_data mem pub))"
        using en True by (intro ext) (auto simp: nv_lookup_def entry_of_def view_entry_def set_attributes_def new_index_data_def
            split: nv_entry.splits Option.bind_splits)
      ultimately show ?thesis
        using True by (intro ok [OF def]) (simp_all add: nv_consts_def)
    next
      case False
      have def: "NvDefineIndex mem pub auth s = Ret (TPM_RC_SUCCESS, ?s1)"
        using 3 False add by (simp add: NvDefineIndex_def Let_def)
      have "ram_wf (nv_list s @ [?e]) (s_indexOrderlyRam s)"
        by (rule ram_wf_add_entry [OF nv_wfD(4) [OF assms(1)] fresh]) (use False in simp)
      then have "nv_wf ?s1"
        using list False by (auto simp: nv_wf_def NvGetEnd_def)
      moreover have "ram_of ?s1 = ram_of s"
        by (simp add: ram_of_def)
      then have "nv_lookup ?s1 = (nv_lookup s)(?h \<mapsto> (\<lparr>nv_public = pub, nv_auth = auth\<rparr>, new_index_data mem pub))"
        using en False by (intro ext) (simp add: nv_lookup_def view_entry_def new_index_data_def)
      ultimately show ?thesis
        using False by (intro ok [OF def]) (simp_all add: nv_consts_def)
    qed
  qed
qed

text \<open>The maximum counter after the deletion of an index.\<close>

definition max_after_delete :: "NV_INDEX \<Rightarrow> bytes \<Rightarrow> u64 \<Rightarrow> u64" where
  "max_after_delete ix d m =
     (if IsNvCounterIndex (nv_attributes (nv_public ix)) \<and> na_WRITTEN (nv_attributes (nv_public ix))
      then max m (from_be (slice 0 8 d)) else m)"

lemma counter_size:
  "public_ok p \<Longrightarrow> nt_of (nv_attributes p) \<in> {TPM_NT_COUNTER, TPM_NT_BITS} \<Longrightarrow> dataSize p = 8"
  by (auto simp: public_ok_def size_ok_def Let_def tpm_consts split: if_splits)

lemma NvGetUINT64Data_cached:
  assumes "cached_at s h i ix d" "na_WRITTEN (nv_attributes (nv_public ix))" "dataSize (nv_public ix) = 8"
  shows "NvGetUINT64Data (s_cachedNvIndex s) (Some i) s = Ret (from_be (slice 0 8 d))"
  using NvGetIndexData_cached [OF assms(1,2), of 0 8] assms(3) by (simp add: NvGetUINT64Data_def)

lemma note_deleted_counter_cached:
  assumes "cached_at s h i ix d"
  shows "note_deleted_counter (s_cachedNvIndex s) (Some i) s =
    Ret (s\<lparr>s_maxCounter := max_after_delete ix d (s_maxCounter s)\<rparr>)"
proof (cases "IsNvCounterIndex (nv_attributes (nv_public ix)) \<and> na_WRITTEN (nv_attributes (nv_public ix))")
  case True
  have c: "nv_wf s" "nv_lookup s h = Some (ix, d)" "s_cachedNvIndex s = ix"
    using assms by (auto simp: cached_at_def)
  have "dataSize (nv_public ix) = 8"
    using counter_size nv_lookup_ok [OF c(1,2)] True by (auto simp: IsNvCounterIndex_def)
  then show ?thesis
    using True NvGetUINT64Data_cached [OF assms] c(3)
    by (auto simp: note_deleted_counter_def max_after_delete_def NvUpdateMaxCount_def max_def)
next
  case False
  then show ?thesis
    using assms by (auto simp: note_deleted_counter_def max_after_delete_def cached_at_def)
qed

lemma NvDelete_available:
  assumes "nvStatus s = TPM_RC_SUCCESS" "NvGetEnd s + sizeof_NV_LIST_TERMINATOR \<le> s_evictNvEnd s"
  shows "NvDelete i s = Ret (TPM_RC_SUCCESS, s\<lparr>nv_endCount := s_maxCounter s, nv_list := remove_at i (nv_list s)\<rparr>)"
proof -
  have "NvGetEnd s - entry_size (nv_list s ! i) + sizeof_NV_LIST_TERMINATOR \<le> s_evictNvEnd s"
    using assms(2) by linarith
  then show ?thesis
    using assms(1) by (simp add: NvDelete_def NvWriteNvListEnd_def)
qed

text \<open>Removing an entry keeps the state well-formed, when the orderly RAM follows.\<close>

lemma nv_wf_remove:
  assumes "nv_wf s" "i < length (nv_list s)" "nv_list s' = remove_at i (nv_list s)"
    and "ram_wf (remove_at i (nv_list s)) (s_indexOrderlyRam s')" "nv_consts s s'"
  shows "nv_wf s'"
proof -
  have "NvGetEnd s' \<le> NvGetEnd s"
    using assms(2,3,5) by (simp add: NvGetEnd_def nv_consts_def map_remove_at sum_list_remove_at)
  moreover have "entry_ok (sizeof_NV_INDEX s') e" if "e \<in> set (nv_list s')" for e
    using that assms(3,5) set_remove_at [of i "nv_list s"] nv_wfD(3) [OF assms(1)] by (auto simp: nv_consts_def)
  ultimately show ?thesis
    using assms(3-5) nv_wfD(5) [OF assms(1)] distinct_remove_at [OF nv_wfD(1) [OF assms(1)]]
    by (auto simp: nv_wf_def nv_consts_def)
qed

lemma NvDeleteIndex_spec:
  assumes "cached_at s h i ix d"
  obtains (unavailable) "NvDeleteIndex (s_cachedNvIndex s) (Some i) s
        = Ret (nvStatus s, s\<lparr>s_maxCounter := max_after_delete ix d (s_maxCounter s)\<rparr>)"
      "nvStatus s \<noteq> TPM_RC_SUCCESS"
  | (ok) s' where "NvDeleteIndex (s_cachedNvIndex s) (Some i) s = Ret (TPM_RC_SUCCESS, s')" "nv_wf s'" "nv_consts s s'"
      "nv_lookup s' = (nv_lookup s)(h := None)" "nv_list s' = remove_at i (nv_list s)"
      "s_maxCounter s' = max_after_delete ix d (s_maxCounter s)" "nv_endCount s' = s_maxCounter s'"
      "na_ORDERLY (nv_attributes (nv_public ix)) \<Longrightarrow> updateOrderly s'"
      "\<not> na_ORDERLY (nv_attributes (nv_public ix)) \<Longrightarrow> s_indexOrderlyRam s' = s_indexOrderlyRam s \<and> updateOrderly s' = updateOrderly s
         \<and> \<not> orderly_entry (nv_list s ! i)"
proof -
  let ?m = "max_after_delete ix d (s_maxCounter s)"
  let ?s1 = "s\<lparr>s_maxCounter := ?m\<rparr>"
  let ?s2 = "?s1\<lparr>nv_endCount := ?m, nv_list := remove_at i (nv_list s)\<rparr>"
  have c: "nv_wf s" "nv_lookup s h = Some (ix, d)" "s_cachedNvIndex s = ix" "i < length (nv_list s)" "entry_handle (nv_list s ! i) = h"
    using assms by (auto simp: cached_at_def)
  have h: "nvIndex (nv_public ix) = h"
    using nv_lookup_ok [OF c(1,2)] by simp
  note nd = note_deleted_counter_cached [OF assms]
  have room: "NvGetEnd ?s1 + sizeof_NV_LIST_TERMINATOR \<le> s_evictNvEnd ?s1"
    using nv_wfD(5) [OF c(1)] by (simp add: NvGetEnd_def)
  have en: "kmap entry_handle (remove_at i (nv_list s)) = (entry_of s)(h := None)"
    using kmap_remove_at [OF nv_wfD(1) [OF c(1)] c(4)] c(5) by (simp add: entry_of_def)
  show ?thesis
  proof (cases "nvStatus s = TPM_RC_SUCCESS")
    case False
    then show ?thesis
      using nd by (intro unavailable) (simp_all add: NvDeleteIndex_def NvDelete_def)
  next
    case av: True
    have del: "NvDelete i ?s1 = Ret (TPM_RC_SUCCESS, ?s2)"
      using NvDelete_available [OF _ room] av by simp
    show ?thesis
    proof (cases "na_ORDERLY (nv_attributes (nv_public ix))")
      case True
      obtain k where k: "NvRamGetIndex s h = Some k" "k < length (s_indexOrderlyRam s)" "r_handle (s_indexOrderlyRam s ! k) = h"
        using cached_at_orderly [OF assms True] by metis
      let ?s3 = "?s2\<lparr>s_indexOrderlyRam := remove_at k (s_indexOrderlyRam s), updateOrderly := True\<rparr>"
      have "NvRamGetIndex ?s2 h = Some k"
        using k(1) by (simp add: NvRamGetIndex_def)
      then have r: "NvDeleteIndex (s_cachedNvIndex s) (Some i) s = Ret (TPM_RC_SUCCESS, NvIndexCacheInit ?s3)"
        using nd del True h c(3) by (simp add: NvDeleteIndex_def NvDeleteRAM_def)
      have con: "nv_consts s (NvIndexCacheInit ?s3)"
        by (simp add: nv_consts_def NvIndexCacheInit_def)
      have "nv_wf (NvIndexCacheInit ?s3)"
        by (rule nv_wf_remove [OF c(1,4) _ _ con])
          (use ram_wf_remove_both [OF nv_wfD(4) [OF c(1)] nv_wfD(1) [OF c(1)] c(4) k(2)] k(3) c(5)
           in \<open>simp_all add: NvIndexCacheInit_def\<close>)
      moreover have "ram_of (NvIndexCacheInit ?s3) = (ram_of s)(h := None)"
        using kmap_remove_at [OF nv_wfD(2) [OF c(1)] k(2)] k(3) by (simp add: ram_of_def NvIndexCacheInit_def)
      then have "nv_lookup (NvIndexCacheInit ?s3) = (nv_lookup s)(h := None)"
        using en by (intro ext) (auto simp: nv_lookup_def entry_of_def NvIndexCacheInit_def view_entry_def
            split: nv_entry.splits Option.bind_splits)
      ultimately show ?thesis
        using True con by (intro ok [OF r]) (simp_all add: NvIndexCacheInit_def)
    next
      case False
      have r: "NvDeleteIndex (s_cachedNvIndex s) (Some i) s = Ret (TPM_RC_SUCCESS, NvIndexCacheInit ?s2)"
        using nd del False c(3) by (simp add: NvDeleteIndex_def)
      have no: "\<not> orderly_entry (nv_list s ! i)"
        using cached_at_plain [OF assms False] False by simp
      have con: "nv_consts s (NvIndexCacheInit ?s2)"
        by (simp add: nv_consts_def NvIndexCacheInit_def)
      have "nv_wf (NvIndexCacheInit ?s2)"
        by (rule nv_wf_remove [OF c(1,4) _ _ con])
          (use ram_wf_remove_entry [OF nv_wfD(4) [OF c(1)] nv_wfD(1) [OF c(1)] c(4) no]
           in \<open>simp_all add: NvIndexCacheInit_def\<close>)
      moreover have "ram_of (NvIndexCacheInit ?s2) = ram_of s"
        by (simp add: ram_of_def NvIndexCacheInit_def)
      then have "nv_lookup (NvIndexCacheInit ?s2) = (nv_lookup s)(h := None)"
        using en by (intro ext) (auto simp: nv_lookup_def entry_of_def NvIndexCacheInit_def)
      ultimately show ?thesis
        using False con no by (intro ok [OF r]) (simp_all add: NvIndexCacheInit_def)
    qed
  qed
qed

end
