(* ===== verification/NV_Protocol.thy ===== *)
theory NV_Protocol
  imports NV_Operations
begin

text \<open>
  NV memory as a transition system: the commands framed by \<^verbatim>\<open>ExecuteCommand\<close>, persistent objects,
  changes of the availability of NV memory, orderly restarts and power failures. The invariant
  relates the list of entries, the orderly RAM and its saved image; from it follows that the
  value of a counter never decreases.
\<close>

section \<open>Commands on a well-formed state\<close>

lemma with_index_found:
  assumes "nv_wf s" "nvIndex (cached_pub s) = TPM_RH_UNASSIGNED" "nv_lookup s h = Some (ix, d)"
  obtains i r where
    "with_index h s k = k i (nv_public ix) (s\<lparr>s_cachedNvRef := Some i, s_cachedNvRamRef := r, s_cachedNvIndex := ix\<rparr>)"
    "cached_at (s\<lparr>s_cachedNvRef := Some i, s_cachedNvRamRef := r, s_cachedNvIndex := ix\<rparr>) h i ix d"
proof -
  obtain i r where
    "NvGetIndexInfo h s = Ret (Some i, s\<lparr>s_cachedNvRef := Some i, s_cachedNvRamRef := r, s_cachedNvIndex := ix\<rparr>)"
    "cached_at (s\<lparr>s_cachedNvRef := Some i, s_cachedNvRamRef := r, s_cachedNvIndex := ix\<rparr>) h i ix d"
    using NvGetIndexInfo_found [OF assms] by blast
  then show ?thesis
    by (intro that) (simp_all add: with_index_def)
qed

lemma with_index_undefined:
  assumes "nv_wf s" "nvIndex (cached_pub s) = TPM_RH_UNASSIGNED" "s_cachedNvRef s = None" "nv_lookup s h = None"
  shows "with_index h s k = FailureMode"
proof (cases "h = TPM_RH_UNASSIGNED")
  case True
  then show ?thesis
    using assms(2,3) by (simp add: with_index_def NvGetIndexInfo_def)
next
  case False
  show ?thesis
  proof (cases "NvFindHandle s h")
    case None
    then show ?thesis
      using False assms(2) by (simp add: with_index_def NvGetIndexInfo_def Let_def)
  next
    case (Some i)
    have i: "i < length (nv_list s)" "entry_handle (nv_list s ! i) = h"
      using NvFindHandle_SomeD [OF Some] by auto
    have e: "entry_of s h = Some (nv_list s ! i)"
      using entry_of_nth [OF assms(1) i(1)] i(2) by simp
    have "\<exists>n b. nv_list s ! i = EvictEntry n h b"
    proof (cases "nv_list s ! i")
      case (IndexEntry n ix d)
      then have "orderly_entry (nv_list s ! i)"
        using assms(4) e by (auto simp: nv_lookup_def view_entry_def split: if_splits)
      then obtain r where "ram_of s h = Some r"
        using ram_wf_orderly [OF nv_wfD(4) [OF assms(1)], of h] e by (auto simp: entry_of_def ram_of_def)
      then show ?thesis
        using assms(4) e IndexEntry by (auto simp: nv_lookup_def view_entry_def split: if_splits)
    qed (use i in auto)
    then show ?thesis
      using False Some assms(2) by (auto simp: with_index_def NvGetIndexInfo_def Let_def)
  qed
qed

text \<open>The frame of a command: flags and cache at the start, the saved image at the end.\<close>

definition begin_command :: "nv_state \<Rightarrow> nv_state" where
  "begin_command s = NvIndexCacheInit (s\<lparr>updateOrderly := False, clearOrderly := False\<rparr>)"

definition end_command :: "nv_state \<Rightarrow> nv_state" where
  "end_command s = (if updateOrderly s then NvUpdateIndexOrderlyData s else s)"

definition ExecuteNv :: "(nv_state \<Rightarrow> ('a \<times> nv_state) outcome) \<Rightarrow> nv_state \<Rightarrow> ('a \<times> nv_state) outcome" where
  "ExecuteNv cmd s = obind (cmd (begin_command s)) (\<lambda>(x, s1). Ret (x, end_command s1))"

section \<open>The invariant\<close>

abbreviation saved_of :: "nv_state \<Rightarrow> TPM_HANDLE \<rightharpoonup> NV_RAM_ENTRY" where
  "saved_of s \<equiv> kmap r_handle (nv_ramData s)"

definition ram_value :: "NV_RAM_ENTRY \<Rightarrow> u64" where
  "ram_value r = from_be (take 8 (r_data r))"

text \<open>
  The saved image of an orderly counter has the same written attribute and differs from the counter
  only in the bits that are set at a startup after a power failure.
\<close>

definition saved_counters :: "nv_state \<Rightarrow> bool" where
  "saved_counters s \<longleftrightarrow> (\<forall>h r r'. ram_of s h = Some r \<and> saved_of s h = Some r' \<and> IsNvCounterIndex (r_attributes r) \<longrightarrow>
     na_WRITTEN (r_attributes r') = na_WRITTEN (r_attributes r) \<and>
     (na_WRITTEN (r_attributes r) \<longrightarrow> drop_bit 8 (ram_value r') = drop_bit 8 (ram_value r)))"

definition saved_ok :: "nv_state \<Rightarrow> bool" where
  "saved_ok s \<longleftrightarrow> ram_wf (nv_list s) (nv_ramData s) \<and> saved_counters s"

definition nv_inv :: "nv_state \<Rightarrow> bool" where
  "nv_inv s \<longleftrightarrow> nv_wf s \<and> saved_ok s"

text \<open>During a command the saved image may be due for a write.\<close>

definition nv_mid :: "nv_state \<Rightarrow> bool" where
  "nv_mid s \<longleftrightarrow> nv_wf s \<and> (updateOrderly s \<or> saved_ok s)"

lemma begin_command_simps [simp]:
  "nv_lookup (begin_command s) = nv_lookup s" "nv_wf (begin_command s) = nv_wf s"
  "saved_ok (begin_command s) = saved_ok s" "nvIndex (cached_pub (begin_command s)) = TPM_RH_UNASSIGNED"
  "s_cachedNvRef (begin_command s) = None" "\<not> updateOrderly (begin_command s)"
  "s_maxCounter (begin_command s) = s_maxCounter s" "nv_endCount (begin_command s) = nv_endCount s"
  "nvStatus (begin_command s) = nvStatus s" "entry_of (begin_command s) = entry_of s" "nv_list (begin_command s) = nv_list s"
  by (simp_all add: begin_command_def NvIndexCacheInit_def nv_lookup_def nv_wf_def saved_ok_def saved_counters_def
      NvGetEnd_def entry_of_def ram_of_def fun_eq_iff)

lemma begin_command_mid: "nv_inv s \<Longrightarrow> nv_mid (begin_command s)"
  by (simp add: nv_inv_def nv_mid_def)

lemma end_command_simps [simp]:
  "nv_lookup (end_command s) = nv_lookup s" "nv_wf (end_command s) = nv_wf s" "s_maxCounter (end_command s) = s_maxCounter s"
  "nv_endCount (end_command s) = nv_endCount s" "nvStatus (end_command s) = nvStatus s"
  by (simp_all add: end_command_def NvUpdateIndexOrderlyData_def nv_lookup_def nv_wf_def NvGetEnd_def entry_of_def ram_of_def fun_eq_iff)

lemma end_command_inv: "nv_mid s \<Longrightarrow> nv_inv (end_command s)"
  by (auto simp: nv_mid_def nv_inv_def end_command_def NvUpdateIndexOrderlyData_def saved_ok_def saved_counters_def
      nv_wf_def NvGetEnd_def ram_of_def)

lemma saved_ok_cache [simp]:
  fixes s :: nv_state
  shows "saved_ok (s\<lparr>s_cachedNvIndex := x\<rparr>) = saved_ok s" "saved_ok (s\<lparr>s_maxCounter := m\<rparr>) = saved_ok s"
    "saved_ok (s\<lparr>s_cachedNvRef := a, s_cachedNvRamRef := b, s_cachedNvIndex := x\<rparr>) = saved_ok s"
    "nv_lookup (s\<lparr>s_maxCounter := m\<rparr>) = nv_lookup s" "nv_wf (s\<lparr>s_maxCounter := m\<rparr>) = nv_wf s"
    "saved_ok (s\<lparr>s_cachedNvRef := a\<rparr>) = saved_ok s" "saved_ok (s\<lparr>s_cachedNvRamRef := b\<rparr>) = saved_ok s"
    "nv_lookup (s\<lparr>s_cachedNvRef := a\<rparr>) = nv_lookup s" "nv_lookup (s\<lparr>s_cachedNvRamRef := b\<rparr>) = nv_lookup s"
    "nv_wf (s\<lparr>s_cachedNvRef := a\<rparr>) = nv_wf s" "nv_wf (s\<lparr>s_cachedNvRamRef := b\<rparr>) = nv_wf s"
  by (simp_all add: saved_ok_def saved_counters_def ram_of_def nv_lookup_def nv_wf_def NvGetEnd_def entry_of_def fun_eq_iff)

lemma ExecuteNv_Ret:
  "ExecuteNv cmd s = Ret (x, s') \<longleftrightarrow> (\<exists>s1. cmd (begin_command s) = Ret (x, s1) \<and> s' = end_command s1)"
  by (auto simp: ExecuteNv_def obind_Ret_iff)

section \<open>The saved image on the abstract view\<close>

lemma nv_lookup_orderlyI:
  "entry_of s h = Some (IndexEntry n ix0 d0) \<Longrightarrow> na_ORDERLY (nv_attributes (nv_public ix0)) \<Longrightarrow> ram_of s h = Some r \<Longrightarrow>
     nv_lookup s h = Some (set_attributes (r_attributes r) ix0, r_data r)"
  by (simp add: nv_lookup_def view_entry_def)

lemma nv_lookup_orderlyE:
  assumes "nv_wf s" "nv_lookup s h = Some (ix, d)" "na_ORDERLY (nv_attributes (nv_public ix))"
  obtains n ix0 d0 r where "entry_of s h = Some (IndexEntry n ix0 d0)" "na_ORDERLY (nv_attributes (nv_public ix0))"
    "ram_of s h = Some r" "ram_matches (IndexEntry n ix0 d0) r" "ix = set_attributes (r_attributes r) ix0" "d = r_data r"
proof -
  obtain n ix0 d0 where e: "entry_of s h = Some (IndexEntry n ix0 d0)"
    and v: "view_entry (ram_of s) h (IndexEntry n ix0 d0) = Some (ix, d)"
    using assms(2) by (cases "entry_of s h") (auto simp: nv_lookup_def view_entry_def split: nv_entry.splits)
  then have o: "na_ORDERLY (nv_attributes (nv_public ix0))"
    using assms(3) by (auto simp: view_entry_def split: if_splits)
  then obtain r where "ram_of s h = Some r" "ram_matches (IndexEntry n ix0 d0) r"
    using ram_wf_orderly [OF nv_wfD(4) [OF assms(1)], of h "IndexEntry n ix0 d0"] e by (auto simp: entry_of_def ram_of_def)
  then show ?thesis
    using that [OF e o] v o by (simp add: view_entry_def)
qed

definition saved_matches :: "NV_INDEX \<Rightarrow> NV_RAM_ENTRY \<Rightarrow> bool" where
  "saved_matches ix r \<longleftrightarrow> na_ORDERLY (nv_attributes (nv_public ix)) \<and> length (r_data r) = unat (dataSize (nv_public ix))
     \<and> fixed_attributes (r_attributes r) = fixed_attributes (nv_attributes (nv_public ix))"

lemma ram_wf_lookup:
  assumes "nv_wf s"
  shows "ram_wf (nv_list s) rs \<longleftrightarrow> distinct (map r_handle rs) \<and> sum_list (map r_size rs) \<le> RAM_INDEX_SPACE
    \<and> (\<forall>r \<in> set rs. r_size r = sizeof_NV_RAM_HEADER + length (r_data r)
         \<and> (\<exists>ix d. nv_lookup s (r_handle r) = Some (ix, d) \<and> saved_matches ix r))
    \<and> (\<forall>h ix d. nv_lookup s h = Some (ix, d) \<and> na_ORDERLY (nv_attributes (nv_public ix)) \<longrightarrow> kmap r_handle rs h \<noteq> None)"
proof -
  have a: "(\<exists>e. kmap entry_handle (nv_list s) h = Some e \<and> ram_matches e r) \<longleftrightarrow>
      (\<exists>ix d. nv_lookup s h = Some (ix, d) \<and> saved_matches ix r)" for h r
  proof
    assume "\<exists>e. kmap entry_handle (nv_list s) h = Some e \<and> ram_matches e r"
    then obtain n ix0 d0 where e: "entry_of s h = Some (IndexEntry n ix0 d0)" "ram_matches (IndexEntry n ix0 d0) r"
      by (metis entry_of_def ram_matches.elims(2))
    then obtain r0 where r0: "ram_of s h = Some r0" "ram_matches (IndexEntry n ix0 d0) r0"
      using ram_wf_orderly [OF nv_wfD(4) [OF assms], of h "IndexEntry n ix0 d0"] by (auto simp: entry_of_def ram_of_def)
    then have "nv_lookup s h = Some (set_attributes (r_attributes r0) ix0, r_data r0)"
      using e by (auto intro: nv_lookup_orderlyI)
    moreover have "saved_matches (set_attributes (r_attributes r0) ix0) r"
      using e(2) r0(2) fixed_attributes_eqD(1) [of "r_attributes r0" "nv_attributes (nv_public ix0)"]
      by (simp add: saved_matches_def)
    ultimately show "\<exists>ix d. nv_lookup s h = Some (ix, d) \<and> saved_matches ix r"
      by blast
  next
    assume "\<exists>ix d. nv_lookup s h = Some (ix, d) \<and> saved_matches ix r"
    then obtain ix d where l: "nv_lookup s h = Some (ix, d)" and m: "saved_matches ix r"
      by blast
    obtain n ix0 d0 r0 where "entry_of s h = Some (IndexEntry n ix0 d0)" "ram_matches (IndexEntry n ix0 d0) r0"
      "ix = set_attributes (r_attributes r0) ix0"
      using nv_lookup_orderlyE [OF assms l] m unfolding saved_matches_def by metis
    then show "\<exists>e. kmap entry_handle (nv_list s) h = Some e \<and> ram_matches e r"
      using m by (auto simp: saved_matches_def entry_of_def)
  qed
  have b: "(\<forall>e \<in> set (nv_list s). orderly_entry e \<longrightarrow> kmap r_handle rs (entry_handle e) \<noteq> None) \<longleftrightarrow>
      (\<forall>h ix d. nv_lookup s h = Some (ix, d) \<and> na_ORDERLY (nv_attributes (nv_public ix)) \<longrightarrow> kmap r_handle rs h \<noteq> None)"
  proof (intro iffI ballI allI impI)
    fix h ix d
    assume x: "\<forall>e \<in> set (nv_list s). orderly_entry e \<longrightarrow> kmap r_handle rs (entry_handle e) \<noteq> None"
      and l: "nv_lookup s h = Some (ix, d) \<and> na_ORDERLY (nv_attributes (nv_public ix))"
    obtain n ix0 d0 where e: "entry_of s h = Some (IndexEntry n ix0 d0)" "na_ORDERLY (nv_attributes (nv_public ix0))"
      using nv_lookup_orderlyE [OF assms l [THEN conjunct1] l [THEN conjunct2]] by metis
    then have "IndexEntry n ix0 d0 \<in> set (nv_list s)" "entry_handle (IndexEntry n ix0 d0) = h"
      using kmap_SomeD [of entry_handle "nv_list s" h] by (auto simp: entry_of_def)
    then show "kmap r_handle rs h \<noteq> None"
      using x e(2) by (metis orderly_entry_simps(1))
  next
    fix e
    assume x: "\<forall>h ix d. nv_lookup s h = Some (ix, d) \<and> na_ORDERLY (nv_attributes (nv_public ix)) \<longrightarrow> kmap r_handle rs h \<noteq> None"
      and e: "e \<in> set (nv_list s)" "orderly_entry e"
    have k: "entry_of s (entry_handle e) = Some e"
      using kmap_self [OF nv_wfD(1) [OF assms] e(1)] by (simp add: entry_of_def)
    then obtain r where r: "ram_of s (entry_handle e) = Some r" "ram_matches e r"
      using ram_wf_orderly [OF nv_wfD(4) [OF assms], of "entry_handle e" e] e(2) by (auto simp: entry_of_def ram_of_def)
    obtain n ix0 d0 where i: "e = IndexEntry n ix0 d0" "na_ORDERLY (nv_attributes (nv_public ix0))"
      using e(2) by (cases e) auto
    then have "nv_lookup s (entry_handle e) = Some (set_attributes (r_attributes r) ix0, r_data r)"
      using k r(1) nv_lookup_orderlyI by blast
    moreover have "na_ORDERLY (r_attributes r)"
      using r(2) i fixed_attributes_eqD(1) [of "r_attributes r" "nv_attributes (nv_public ix0)"] by simp
    ultimately show "kmap r_handle rs (entry_handle e) \<noteq> None"
      using x by (metis set_attributes_simps(2))
  qed
  show ?thesis
    unfolding ram_wf_def a b by blast
qed

lemma saved_counters_lookup:
  assumes "nv_wf s"
  shows "saved_counters s \<longleftrightarrow> (\<forall>h ix d r'. nv_lookup s h = Some (ix, d) \<and> na_ORDERLY (nv_attributes (nv_public ix))
      \<and> saved_of s h = Some r' \<and> IsNvCounterIndex (nv_attributes (nv_public ix)) \<longrightarrow>
    na_WRITTEN (r_attributes r') = na_WRITTEN (nv_attributes (nv_public ix)) \<and>
    (na_WRITTEN (nv_attributes (nv_public ix)) \<longrightarrow> drop_bit 8 (ram_value r') = drop_bit 8 (from_be (take 8 d))))"
    (is "_ = ?R")
proof
  assume s: "saved_counters s"
  show ?R
  proof (intro allI impI, elim conjE)
    fix h ix d r'
    assume l: "nv_lookup s h = Some (ix, d)" "na_ORDERLY (nv_attributes (nv_public ix))"
      and r': "saved_of s h = Some r'" and c: "IsNvCounterIndex (nv_attributes (nv_public ix))"
    obtain r where "ram_of s h = Some r" "r_attributes r = nv_attributes (nv_public ix)" "d = r_data r"
      using nv_lookup_orderlyE [OF assms l] by (metis set_attributes_simps(2))
    then show "na_WRITTEN (r_attributes r') = na_WRITTEN (nv_attributes (nv_public ix)) \<and>
      (na_WRITTEN (nv_attributes (nv_public ix)) \<longrightarrow> drop_bit 8 (ram_value r') = drop_bit 8 (from_be (take 8 d)))"
      using s r' c unfolding saved_counters_def by (metis ram_value_def)
  qed
next
  assume R: ?R
  show "saved_counters s"
    unfolding saved_counters_def
  proof (intro allI impI, elim conjE)
    fix h r r'
    assume r: "ram_of s h = Some r" and r': "saved_of s h = Some r'" and c: "IsNvCounterIndex (r_attributes r)"
    have "r \<in> set (s_indexOrderlyRam s)" "r_handle r = h"
      using kmap_SomeD [of r_handle "s_indexOrderlyRam s" h r] r by (auto simp: ram_of_def)
    then obtain e where e: "entry_of s h = Some e" "ram_matches e r"
      using nv_wfD(4) [OF assms] by (auto simp: ram_wf_def entry_of_def)
    then obtain n ix0 d0 where i: "e = IndexEntry n ix0 d0" "na_ORDERLY (nv_attributes (nv_public ix0))"
      by (cases e) auto
    then have "nv_lookup s h = Some (set_attributes (r_attributes r) ix0, r_data r)
        \<and> na_ORDERLY (nv_attributes (nv_public (set_attributes (r_attributes r) ix0)))"
      using e r nv_lookup_orderlyI [of s h n ix0 d0 r]
        fixed_attributes_eqD(1) [of "r_attributes r" "nv_attributes (nv_public ix0)"] by simp
    then show "na_WRITTEN (r_attributes r') = na_WRITTEN (r_attributes r) \<and>
      (na_WRITTEN (r_attributes r) \<longrightarrow> drop_bit 8 (ram_value r') = drop_bit 8 (ram_value r))"
      using R r' c unfolding ram_value_def by (metis set_attributes_simps(2))
  qed
qed

text \<open>What a step may do to an orderly index without a write of the saved image.\<close>

definition keeps_saved :: "NV_INDEX \<times> bytes \<Rightarrow> NV_INDEX \<times> bytes \<Rightarrow> bool" where
  "keeps_saved v v' \<longleftrightarrow> same_index (fst v) (fst v') \<and>
     (IsNvCounterIndex (nv_attributes (nv_public (fst v))) \<longrightarrow>
        na_WRITTEN (nv_attributes (nv_public (fst v'))) = na_WRITTEN (nv_attributes (nv_public (fst v))) \<and>
        (na_WRITTEN (nv_attributes (nv_public (fst v))) \<longrightarrow>
           drop_bit 8 (from_be (take 8 (snd v'))) = drop_bit 8 (from_be (take 8 (snd v)))))"

lemma keeps_saved_refl [simp]: "keeps_saved v v"
  by (simp add: keeps_saved_def)

definition is_orderly :: "NV_INDEX \<times> bytes \<Rightarrow> bool" where
  "is_orderly v \<longleftrightarrow> na_ORDERLY (nv_attributes (nv_public (fst v)))"

lemma keeps_saved_orderly: "keeps_saved v v' \<Longrightarrow> is_orderly v' = is_orderly v"
  using same_index_ok(2) by (auto simp: keeps_saved_def is_orderly_def)

lemma saved_ok_cong:
  assumes "nv_wf s" "nv_wf s'" "saved_ok s" "nv_ramData s' = nv_ramData s"
    and fw: "\<And>h v. nv_lookup s h = Some v \<Longrightarrow> is_orderly v \<Longrightarrow> \<exists>v'. nv_lookup s' h = Some v' \<and> keeps_saved v v'"
    and bw: "\<And>h v'. nv_lookup s' h = Some v' \<Longrightarrow> is_orderly v' \<Longrightarrow> \<exists>v. nv_lookup s h = Some v \<and> keeps_saved v v'"
  shows "saved_ok s'"
proof -
  have rw: "ram_wf (nv_list s) (nv_ramData s)" and sc: "saved_counters s"
    using assms(3) by (auto simp: saved_ok_def)
  have "\<exists>ix d. nv_lookup s' (r_handle r) = Some (ix, d) \<and> saved_matches ix r" if r: "r \<in> set (nv_ramData s)" for r
  proof -
    obtain ix d where l: "nv_lookup s (r_handle r) = Some (ix, d)" "saved_matches ix r"
      using rw r unfolding ram_wf_lookup [OF assms(1)] by blast
    then obtain v' where v': "nv_lookup s' (r_handle r) = Some v'" "keeps_saved (ix, d) v'"
      using fw [OF l(1)] by (auto simp: saved_matches_def is_orderly_def)
    have "saved_matches (fst v') r"
      using l(2) v'(2) same_index_ok(2) [of ix "fst v'"] by (auto simp: saved_matches_def keeps_saved_def same_index_def)
    then show ?thesis
      using v'(1) by (cases v') auto
  qed
  moreover have "saved_of s h \<noteq> None"
    if l': "nv_lookup s' h = Some (ix', d')" and o: "na_ORDERLY (nv_attributes (nv_public ix'))" for h ix' d'
  proof -
    obtain v where v: "nv_lookup s h = Some v" "keeps_saved v (ix', d')"
      using bw [OF l'] o by (auto simp: is_orderly_def)
    then have "is_orderly v"
      using keeps_saved_orderly [OF v(2)] o by (simp add: is_orderly_def)
    then show ?thesis
      using rw v(1) unfolding ram_wf_lookup [OF assms(1)] by (cases v) (auto simp: is_orderly_def)
  qed
  ultimately have rw': "ram_wf (nv_list s') (nv_ramData s')"
    using rw unfolding ram_wf_lookup [OF assms(2)] assms(4) by (auto simp: ram_wf_def)
  have "na_WRITTEN (r_attributes r') = na_WRITTEN (nv_attributes (nv_public ix')) \<and>
      (na_WRITTEN (nv_attributes (nv_public ix')) \<longrightarrow> drop_bit 8 (ram_value r') = drop_bit 8 (from_be (take 8 d')))"
    if l': "nv_lookup s' h = Some (ix', d')" "na_ORDERLY (nv_attributes (nv_public ix'))"
      and r': "saved_of s h = Some r'" and c: "IsNvCounterIndex (nv_attributes (nv_public ix'))" for h ix' d' r'
  proof -
    obtain ix d where v: "nv_lookup s h = Some (ix, d)" "keeps_saved (ix, d) (ix', d')"
      using bw [OF l'(1)] l'(2) by (auto simp: is_orderly_def)
    have f: "na_ORDERLY (nv_attributes (nv_public ix))" "IsNvCounterIndex (nv_attributes (nv_public ix))"
      using v(2) l'(2) c fixed_attributes_eqD(1,2) [of "nv_attributes (nv_public ix')" "nv_attributes (nv_public ix)"]
      by (auto simp: keeps_saved_def same_index_def IsNvCounterIndex_def)
    then show ?thesis
      using sc v r' unfolding saved_counters_lookup [OF assms(1)] by (fastforce simp: keeps_saved_def)
  qed
  then have "saved_counters s'"
    unfolding saved_counters_lookup [OF assms(2)] assms(4) by blast
  with rw' show ?thesis
    by (simp add: saved_ok_def)
qed

lemma saved_ok_update:
  assumes "nv_wf s" "nv_wf s'" "saved_ok s" "nv_ramData s' = nv_ramData s"
    and "nv_lookup s h = Some v" "nv_lookup s' = (nv_lookup s)(h \<mapsto> v')" "is_orderly v \<or> is_orderly v' \<Longrightarrow> keeps_saved v v'"
  shows "saved_ok s'"
proof (rule saved_ok_cong [OF assms(1-4)])
  fix x u
  assume "nv_lookup s x = Some u" "is_orderly u"
  then show "\<exists>u'. nv_lookup s' x = Some u' \<and> keeps_saved u u'"
    using assms(5-7) by (cases "x = h") (auto intro: exI [of _ v'])
next
  fix x u'
  assume "nv_lookup s' x = Some u'" "is_orderly u'"
  then show "\<exists>u. nv_lookup s x = Some u \<and> keeps_saved u u'"
    using assms(5-7) by (cases "x = h") (auto intro: exI [of _ v])
qed

lemma saved_ok_add_remove:
  assumes "nv_wf s" "nv_wf s'" "saved_ok s" "nv_ramData s' = nv_ramData s" "nv_lookup s' = (nv_lookup s)(h := w)"
    and "\<And>v. nv_lookup s h = Some v \<Longrightarrow> \<not> is_orderly v" "\<And>v. w = Some v \<Longrightarrow> \<not> is_orderly v"
  shows "saved_ok s'"
  by (rule saved_ok_cong [OF assms(1-4)]) (use assms(5-7) keeps_saved_refl in \<open>auto split: if_splits\<close>)

section \<open>Counter arithmetic\<close>

lemma MAX_ORDERLY_COUNT_mask: "MAX_ORDERLY_COUNT = mask 8"
  by (simp add: MAX_ORDERLY_COUNT_def mask_eq_exp_minus_1 push_bit_eq_mult)

lemma AND_MAX_ORDERLY_COUNT: "x AND MAX_ORDERLY_COUNT = take_bit 8 x"
  by (simp add: MAX_ORDERLY_COUNT_mask take_bit_eq_mask)

lemma increment_keeps_high_bits:
  fixes c :: u64
  assumes "(c + 1) AND MAX_ORDERLY_COUNT \<noteq> 0"
  shows "drop_bit 8 (c + 1) = drop_bit 8 c"
proof -
  have n0: "unat (c + 1) mod 256 \<noteq> 0"
  proof
    assume "unat (c + 1) mod 256 = 0"
    moreover have "unat (take_bit 8 (c + 1)) = take_bit 8 (unat (c + 1))"
      by (rule unsigned_take_bit_eq)
    then have "unat (take_bit 8 (c + 1)) = unat (c + 1) mod 256"
      by (simp only: take_bit_nat_def) simp
    ultimately have "take_bit 8 (c + 1) = 0"
      by (metis unat_eq_zero)
    then show False
      using assms by (simp add: AND_MAX_ORDERLY_COUNT)
  qed
  then have "c + 1 \<noteq> 0"
    by (metis mod_0 unsigned_0)
  then have u: "unat (c + 1) = Suc (unat c)"
    using unatSuc [of c] by (simp add: add.commute)
  have "unat (drop_bit 8 (c + 1)) = unat (drop_bit 8 c)"
    using n0 unfolding unat_drop_bit_eq u by (simp add: drop_bit_eq_div div_Suc)
  then show ?thesis
    by (simp add: word_unat_eq_iff)
qed

lemma saved_bits_bound:
  fixes a b :: u64
  assumes "drop_bit 8 a = drop_bit 8 b"
  shows "b \<le> a OR MAX_ORDERLY_COUNT"
proof -
  have "a OR MAX_ORDERLY_COUNT = b OR MAX_ORDERLY_COUNT"
  proof (rule bit_word_eqI)
    fix n
    have "bit (drop_bit 8 a) (n - 8) = bit (drop_bit 8 b) (n - 8)"
      using assms by simp
    then show "bit (a OR MAX_ORDERLY_COUNT) n = bit (b OR MAX_ORDERLY_COUNT) n" if "n < LENGTH(64)"
      using that by (cases "n < 8")
        (auto simp: MAX_ORDERLY_COUNT_mask bit_or_iff bit_drop_bit_eq bit_mask_iff simp del: mask_numeral)
  qed
  then show ?thesis
    using le_word_or2 [of b MAX_ORDERLY_COUNT] by simp
qed

lemma foldl_be:
  "foldl (\<lambda>n b. n * 256 + unat b) acc (be n (w :: u64)) = acc * 256 ^ n + unat w mod 256 ^ n"
proof (induction n arbitrary: acc)
  case 0
  then show ?case by simp
next
  case (Suc n)
  have u: "unat (ucast (drop_bit (8 * n) w) :: u8) = unat w div 256 ^ n mod 256"
  proof -
    have "unat (ucast (drop_bit (8 * n) w) :: u8) = unat (drop_bit (8 * n) w) mod 256"
      by (simp add: unsigned_ucast_eq take_bit_nat_def)
    also have "unat (drop_bit (8 * n) w) = unat w div 256 ^ n"
      unfolding unat_drop_bit_eq by (simp add: drop_bit_eq_div power_mult)
    finally show ?thesis .
  qed
  have "unat w mod 256 ^ Suc n = 256 ^ n * (unat w div 256 ^ n mod 256) + unat w mod 256 ^ n"
    using mod_mult2_eq [of "unat w" "256 ^ n" 256] by (simp add: mult.commute)
  then show ?case
    by (simp only: be.simps foldl_Cons u Suc.IH) (simp add: algebra_simps)
qed

lemma from_be_be [simp]: "from_be (be 8 v) = v"
proof -
  have "unat v < 256 ^ 8"
    using unsigned_less [of v] by simp
  then have "foldl (\<lambda>n b. n * 256 + unat b) 0 (be 8 v) = unat v"
    by (simp only: foldl_be) simp
  then show ?thesis
    by (simp add: from_be_def)
qed

lemma length_be [simp]: "length (be n w) = n"
  by (induction n) simp_all

section \<open>Counters only grow\<close>

definition cval :: "NV_INDEX \<times> bytes \<Rightarrow> u64 option" where
  "cval v = (if IsNvCounterIndex (nv_attributes (nv_public (fst v))) \<and> na_WRITTEN (nv_attributes (nv_public (fst v)))
     then Some (from_be (take 8 (snd v))) else None)"

definition counter_value :: "nv_state \<Rightarrow> TPM_HANDLE \<Rightarrow> u64 option" where
  "counter_value s h = Option.bind (nv_lookup s h) cval"

text \<open>
  \<open>v\<close> is a floor of the counter with handle \<open>h\<close>: its value is at least \<open>v\<close>, or there is no written
  counter with this handle and the maximum of the deleted counters, in memory and in the marker,
  is at least \<open>v\<close>.
\<close>

definition counter_floor :: "nv_state \<Rightarrow> TPM_HANDLE \<Rightarrow> u64 \<Rightarrow> bool" where
  "counter_floor s h v \<longleftrightarrow> (case counter_value s h of Some x \<Rightarrow> v \<le> x | None \<Rightarrow> v \<le> s_maxCounter s \<and> v \<le> nv_endCount s)"

definition nv_good :: "nv_state \<Rightarrow> nv_state \<Rightarrow> bool" where
  "nv_good s s' \<longleftrightarrow> nv_mid s' \<and> (\<forall>h v. counter_floor s h v \<longrightarrow> counter_floor s' h v)"

lemma nv_good_same:
  assumes "nv_mid s" "nv_wf s' = nv_wf s" "updateOrderly s' = updateOrderly s" "saved_ok s' = saved_ok s"
    and "nv_lookup s' = nv_lookup s" "s_maxCounter s \<le> s_maxCounter s'" "nv_endCount s' = nv_endCount s"
  shows "nv_good s s'"
  using assms by (auto simp: nv_good_def nv_mid_def counter_floor_def counter_value_def split: option.splits)

lemma nv_good_update:
  assumes "nv_mid s" "nv_wf s'" "nv_frame s s'" "nv_lookup s h = Some v" "nv_lookup s' = (nv_lookup s)(h \<mapsto> v')"
    and "case (cval v, cval v') of (Some x, Some y) \<Rightarrow> x \<le> y | (Some x, None) \<Rightarrow> False
           | (None, Some y) \<Rightarrow> s_maxCounter s \<le> y | (None, None) \<Rightarrow> True"
    and "updateOrderly s \<Longrightarrow> updateOrderly s'"
    and "\<not> updateOrderly s' \<Longrightarrow> is_orderly v \<or> is_orderly v' \<Longrightarrow> keeps_saved v v'"
  shows "nv_good s s'"
proof -
  have f: "s_maxCounter s' = s_maxCounter s" "nv_endCount s' = nv_endCount s" "nv_ramData s' = nv_ramData s"
    using assms(3) by (auto simp: nv_frame_def)
  have "nv_mid s'"
  proof (cases "updateOrderly s'")
    case False
    then show ?thesis
      using assms(1,2,7) saved_ok_update [OF _ assms(2) _ f(3) assms(4,5) assms(8)] by (auto simp: nv_mid_def)
  qed (use assms(2) in \<open>simp add: nv_mid_def\<close>)
  moreover have "counter_floor s' x y" if "counter_floor s x y" for x y
    using that assms(4,5,6) f by (cases "x = h") (auto simp: counter_floor_def counter_value_def split: option.splits)
  ultimately show ?thesis
    by (simp add: nv_good_def)
qed

lemma nv_good_refl: "nv_mid s \<Longrightarrow> nv_good s s"
  by (simp add: nv_good_def)

lemma cached_state_good:
  "nv_mid s \<Longrightarrow> nv_good s (s\<lparr>s_cachedNvRef := a, s_cachedNvRamRef := b, s_cachedNvIndex := x\<rparr>)"
  by (rule nv_good_same) simp_all

lemma nv_good_trans: "nv_good s t \<Longrightarrow> nv_good t u \<Longrightarrow> nv_good s u"
  by (simp add: nv_good_def)

text \<open>Every command on an index that the state has, step by step.\<close>

lemma with_index_good:
  assumes "nv_mid s" "nvIndex (cached_pub s) = TPM_RH_UNASSIGNED" "s_cachedNvRef s = None" "with_index h s k = Ret (x, s')"
    and "\<And>i ix d s1. nv_lookup s h = Some (ix, d) \<Longrightarrow> cached_at s1 h i ix d \<Longrightarrow> nv_mid s1 \<Longrightarrow> s_maxCounter s1 = s_maxCounter s
           \<Longrightarrow> updateOrderly s1 = updateOrderly s \<Longrightarrow> k i (nv_public ix) s1 = Ret (x, s') \<Longrightarrow> nv_good s1 s'"
  shows "nv_good s s'"
proof (cases "nv_lookup s h")
  case None
  then show ?thesis
    using assms(1-4) with_index_undefined [of s h k] by (simp add: nv_mid_def)
next
  case (Some v)
  obtain ix d where v: "v = (ix, d)"
    by (cases v)
  have wf: "nv_wf s"
    using assms(1) by (simp add: nv_mid_def)
  obtain i r where w: "with_index h s k = k i (nv_public ix) (s\<lparr>s_cachedNvRef := Some i, s_cachedNvRamRef := r, s_cachedNvIndex := ix\<rparr>)"
    and c: "cached_at (s\<lparr>s_cachedNvRef := Some i, s_cachedNvRamRef := r, s_cachedNvIndex := ix\<rparr>) h i ix d"
    using with_index_found [OF wf assms(2), of h ix d k] Some v by blast
  have g: "nv_good s (s\<lparr>s_cachedNvRef := Some i, s_cachedNvRamRef := r, s_cachedNvIndex := ix\<rparr>)"
    by (rule cached_state_good [OF assms(1)])
  show ?thesis
    using nv_good_trans [OF g assms(5) [OF _ c]] g w assms(4) Some v by (simp add: nv_good_def)
qed

lemma write_good:
  assumes "cached_at s h i ix d" "nv_mid s" "\<not> IsNvCounterIndex (nv_attributes (nv_public ix))"
    and "NvWriteIndexData offset data s = Ret (rc, s')"
  shows "nv_good s s'"
proof -
  have b: "offset \<le> unat (dataSize (nv_public ix))" "length data \<le> unat (dataSize (nv_public ix)) - offset"
    using assms(1,4) by (auto simp: NvWriteIndexData_def cached_at_def)
  show ?thesis
  proof (cases rule: NvWriteIndexData_spec [OF assms(1) b, case_names ok unavailable])
    case (ok t)
    have t: "t = s'"
      using ok(1) assms(4) by simp
    have l: "nv_lookup s h = Some (ix, d)"
      using assms(1) by (simp add: cached_at_def)
    have nc: "cval (ix, d) = None" "cval (written_index ix offset data d) = None"
      using assms(3) by (simp_all add: cval_def written_index_def written_def IsNvCounterIndex_def)
    have "keeps_saved (ix, d) (written_index ix offset data d)"
      using assms(3) by (simp add: keeps_saved_def written_index_def)
    moreover have "updateOrderly s'" if "updateOrderly s"
      using that ok(5,6) t by (cases "na_ORDERLY (nv_attributes (nv_public ix))") auto
    ultimately show ?thesis
      using nv_good_update [OF assms(2), of s' h "(ix, d)" "written_index ix offset data d"] ok(2,3,4) t l nc by simp
  next
    case unavailable
    then show ?thesis
      using assms(2,4) by (auto intro: nv_good_same)
  qed
qed

lemma attributes_good:
  assumes "cached_at s h i ix d" "nv_mid s" "fixed_attributes a = fixed_attributes (nv_attributes (nv_public ix))"
    and "na_WRITTEN a = na_WRITTEN (nv_attributes (nv_public ix))" "NvWriteIndexAttributes h i a s = Ret (rc, s')"
  shows "nv_good s s'"
proof (cases rule: NvWriteIndexAttributes_spec [OF assms(1,3), case_names ok unavailable])
  case (ok t)
  have t: "t = s'"
    using ok(1) assms(5) by simp
  have l: "nv_lookup s h = Some (ix, d)"
    using assms(1) by (simp add: cached_at_def)
  have nt: "IsNvCounterIndex a = IsNvCounterIndex (nv_attributes (nv_public ix))"
    using fixed_attributes_eqD(2) [OF assms(3)] by (simp add: IsNvCounterIndex_def)
  have "keeps_saved (ix, d) (set_attributes a ix, d)" "cval (set_attributes a ix, d) = cval (ix, d)"
    using assms(3,4) nt by (simp_all add: keeps_saved_def cval_def)
  then show ?thesis
    using nv_good_update [OF assms(2), of s' h "(ix, d)" "(set_attributes a ix, d)"] ok(2-5) t l
    by (simp split: option.split)
next
  case unavailable
  then show ?thesis
    using assms(2,5) nv_good_refl by simp
qed

lemma auth_good:
  assumes "cached_at s h i ix d" "nv_mid s" "NvWriteIndexAuth (Some i) auth s = Ret (rc, s')"
  shows "nv_good s s'"
proof (cases rule: NvWriteIndexAuth_spec [OF assms(1), where auth = auth, case_names ok unavailable])
  case (ok t)
  have t: "t = s'"
    using ok(1) assms(3) by simp
  have l: "nv_lookup s h = Some (ix, d)"
    using assms(1) by (simp add: cached_at_def)
  have "keeps_saved (ix, d) (ix\<lparr>nv_auth := auth\<rparr>, d)" "cval (ix\<lparr>nv_auth := auth\<rparr>, d) = cval (ix, d)"
    by (simp_all add: keeps_saved_def cval_def)
  then show ?thesis
    using nv_good_update [OF assms(2), of s' h "(ix, d)" "(ix\<lparr>nv_auth := auth\<rparr>, d)"] ok(2-6) t l
    by (simp split: option.split)
next
  case (unavailable x)
  then show ?thesis
    using assms(2,3) by (auto intro: nv_good_same)
qed

end
