(* ===== verification/NV_Counters.thy ===== *)
theory NV_Counters
  imports NV_Protocol
begin

text \<open>
  Every NV command, the persistent objects, the global lock and the startup processing keep the
  invariant of NV memory and let no counter fall: the steps of the transition system.
\<close>

section \<open>Incrementing a counter\<close>

lemma slice_0 [simp]: "slice 0 n d = take n d"
  by (simp add: slice_def)

lemma word_less_plus_one: "c + 1 \<noteq> (0 :: u64) \<Longrightarrow> c < c + 1"
  by (simp add: word_less_nat_alt unatSuc add.commute)

definition next_count :: "nv_state \<Rightarrow> TPM_HANDLE \<Rightarrow> u64" where
  "next_count s h = (case counter_value s h of Some c \<Rightarrow> c + 1 | None \<Rightarrow> s_maxCounter s + 1)"

lemma increment_cached:
  assumes "cached_at s h i ix d" "IsNvCounterIndex (nv_attributes (nv_public ix))"
  obtains (ok) s' where "NvWriteUINT64Data (next_count s h) s = Ret (TPM_RC_SUCCESS, s')" "nv_wf s'" "nv_frame s s'"
      "nv_lookup s' = (nv_lookup s)(h \<mapsto> (written ix, be 8 (next_count s h)))"
      "updateOrderly s \<Longrightarrow> updateOrderly s'"
      "na_ORDERLY (nv_attributes (nv_public ix)) \<Longrightarrow> \<not> na_WRITTEN (nv_attributes (nv_public ix)) \<Longrightarrow> updateOrderly s'"
  | (unavailable) "NvWriteUINT64Data (next_count s h) s = Ret (nvStatus s, s\<lparr>s_cachedNvIndex := written ix\<rparr>)"
      "nvStatus s \<noteq> TPM_RC_SUCCESS"
proof -
  have c: "nv_wf s" "nv_lookup s h = Some (ix, d)"
    using assms(1) by (auto simp: cached_at_def)
  have n: "dataSize (nv_public ix) = 8" and len: "length d = 8"
    using counter_size nv_lookup_ok [OF c] assms(2) by (auto simp: IsNvCounterIndex_def)
  have w: "written_index ix 0 (be 8 x) d = (written ix, be 8 x)" for x :: u64
    using len by (simp add: written_index_def overwrite_def)
  have p: "0 \<le> unat (dataSize (nv_public ix))" "length (be 8 (next_count s h)) \<le> unat (dataSize (nv_public ix)) - 0"
    by (simp_all add: n)
  show ?thesis
  proof (cases rule: NvWriteIndexData_spec [OF assms(1) p, case_names ok unavailable])
    case (ok t)
    then show ?thesis
      using assms(2) that(1) [of t]
      by (cases "na_ORDERLY (nv_attributes (nv_public ix))") (auto simp: NvWriteUINT64Data_def w)
  next
    case unavailable
    then show ?thesis
      using that(2) by (simp add: NvWriteUINT64Data_def)
  qed
qed

lemma TPM2_NV_Increment_cached:
  assumes "cached_at s h i ix d" "IsNvCounterIndex (nv_attributes (nv_public ix))"
  shows "obind (if \<not> na_WRITTEN (nv_attributes (nv_public ix)) then Ret (NvReadMaxCount s)
             else NvGetUINT64Data (s_cachedNvIndex s) (Some i) s) (\<lambda>c. f (c + 1)) = f (next_count s h)"
proof -
  have c: "nv_wf s" "nv_lookup s h = Some (ix, d)"
    using assms(1) by (auto simp: cached_at_def)
  have "dataSize (nv_public ix) = 8"
    using counter_size nv_lookup_ok [OF c] assms(2) by (auto simp: IsNvCounterIndex_def)
  then show ?thesis
    using NvGetUINT64Data_cached [OF assms(1)] assms(2) c(2)
    by (simp add: next_count_def counter_value_def cval_def NvReadMaxCount_def)
qed

lemma increment_good:
  assumes "cached_at s h i ix d" "nv_mid s" "IsNvCounterIndex (nv_attributes (nv_public ix))" "next_count s h \<noteq> 0"
    and "NvWriteUINT64Data (next_count s h) s = Ret (rc, s1)"
    and "s' = (if rc = TPM_RC_SUCCESS \<and> na_ORDERLY (nv_attributes (nv_public ix)) \<and> next_count s h AND MAX_ORDERLY_COUNT = 0
               then s1\<lparr>updateOrderly := True\<rparr> else s1)"
  shows "nv_good s s'"
proof (cases rule: increment_cached [OF assms(1,3), case_names ok unavailable])
  case (ok t)
  let ?n = "next_count s h" and ?a = "nv_attributes (nv_public ix)"
  have l: "nv_lookup s h = Some (ix, d)"
    using assms(1) by (simp add: cached_at_def)
  have t: "rc = TPM_RC_SUCCESS" "s1 = t"
    using ok(1) assms(5) by auto
  have s': "nv_wf s'" "nv_frame s s'" "nv_lookup s' = (nv_lookup s)(h \<mapsto> (written ix, be 8 ?n))"
    "updateOrderly s \<Longrightarrow> updateOrderly s'"
    using ok(2-5) assms(6) t by simp_all
  have wa: "nv_attributes (nv_public (written ix)) = ?a\<lparr>na_WRITTEN := True\<rparr>"
    by (simp add: written_def)
  have cv: "cval (written ix, be 8 ?n) = Some ?n"
    using assms(3) by (simp add: cval_def wa IsNvCounterIndex_def)
  show ?thesis
  proof (rule nv_good_update [OF assms(2) s'(1,2) l s'(3)])
    show "case (cval (ix, d), cval (written ix, be 8 ?n)) of (Some x, Some y) \<Rightarrow> x \<le> y | (Some x, None) \<Rightarrow> False
        | (None, Some y) \<Rightarrow> s_maxCounter s \<le> y | (None, None) \<Rightarrow> True"
      using assms(4) word_less_plus_one l cv
      by (auto simp: next_count_def counter_value_def less_imp_le split: option.splits)
    show "keeps_saved (ix, d) (written ix, be 8 ?n)" if "\<not> updateOrderly s'" "is_orderly (ix, d) \<or> is_orderly (written ix, be 8 ?n)"
    proof -
      have o: "na_ORDERLY ?a"
        using that(2) by (auto simp: is_orderly_def wa)
      have wr: "na_WRITTEN ?a"
      proof (rule ccontr)
        assume "\<not> na_WRITTEN ?a"
        then have "updateOrderly t"
          using ok(6) [OF o] by simp
        then show False
          using that(1) assms(6) t by (simp split: if_splits)
      qed
      have nz: "?n AND MAX_ORDERLY_COUNT \<noteq> 0"
        using that(1) assms(6) t o by auto
      have c: "cval (ix, d) = Some (from_be (take 8 d))"
        using wr assms(3) by (simp add: cval_def)
      then have n: "?n = from_be (take 8 d) + 1"
        using l by (simp add: next_count_def counter_value_def)
      have "drop_bit 8 ?n = drop_bit 8 (from_be (take 8 d))"
        using increment_keeps_high_bits [of "from_be (take 8 d)"] nz n by simp
      then show ?thesis
        using wr by (simp add: keeps_saved_def wa)
    qed
  qed (use s' in auto)
next
  case unavailable
  then have "s' = s\<lparr>s_cachedNvIndex := written ix\<rparr>"
    using assms(5,6) by auto
  then show ?thesis
    using assms(2) by (auto intro: nv_good_same)
qed

section \<open>Defining and deleting\<close>

lemma define_good:
  assumes "nv_mid s" "entry_of s (nvIndex pub) = None" "public_ok pub" "\<not> na_WRITTEN (nv_attributes pub)"
    and "NvDefineIndex mem pub auth s = Ret (rc, s')"
  shows "nv_good s s'"
proof -
  have wf: "nv_wf s"
    using assms(1) by (simp add: nv_mid_def)
  show ?thesis
  proof (cases rule: NvDefineIndex_spec [OF wf assms(2,3), where mem = mem and auth = auth, case_names space unavailable ok])
    case (ok t)
    let ?v = "(\<lparr>nv_public = pub, nv_auth = auth\<rparr>, new_index_data mem pub)"
    have t: "t = s'"
      using ok(1) assms(5) by simp
    have none: "nv_lookup s (nvIndex pub) = None"
      using nv_lookup_undefined [OF assms(2)] .
    have "nv_mid s'"
    proof (cases "na_ORDERLY (nv_attributes pub)")
      case True
      then show ?thesis
        using ok(2,7) t by (simp add: nv_mid_def)
    next
      case False
      have "saved_ok s'" if "saved_ok s"
        by (rule saved_ok_add_remove [OF wf _ that, of s' "nvIndex pub" "Some ?v"])
          (use ok(2-4) t none False in \<open>simp_all add: nv_consts_def is_orderly_def\<close>)
      then show ?thesis
        using ok(2,8) False t assms(1) by (auto simp: nv_mid_def)
    qed
    moreover have "counter_floor s' h x" if "counter_floor s h x" for h x
      using that ok(4-6) t none assms(4)
      by (cases "h = nvIndex pub") (auto simp: counter_floor_def counter_value_def cval_def split: option.splits)
    ultimately show ?thesis
      by (simp add: nv_good_def)
  qed (use assms(1,5) nv_good_refl in simp_all)
qed

lemma delete_good:
  assumes "cached_at s h i ix d" "nv_mid s" "NvDeleteIndex (s_cachedNvIndex s) (Some i) s = Ret (rc, s')"
  shows "nv_good s s'"
proof (cases rule: NvDeleteIndex_spec [OF assms(1), case_names unavailable ok])
  case unavailable
  then show ?thesis
    using assms(2,3) by (auto intro!: nv_good_same simp: max_after_delete_def)
next
  case (ok t)
  have t: "t = s'"
    using ok(1) assms(3) by simp
  have c: "nv_wf s" "nv_lookup s h = Some (ix, d)"
    using assms(1) by (auto simp: cached_at_def)
  have "nv_mid s'"
  proof (cases "na_ORDERLY (nv_attributes (nv_public ix))")
    case True
    then show ?thesis
      using ok(2,8) t by (simp add: nv_mid_def)
  next
    case False
    have "saved_ok s'" if "saved_ok s"
      by (rule saved_ok_add_remove [OF c(1) _ that, of s' h None])
        (use ok(2-4) t c(2) False in \<open>simp_all add: nv_consts_def is_orderly_def\<close>)
    then show ?thesis
      using ok(2,9) False t assms(2) by (auto simp: nv_mid_def)
  qed
  moreover have "s_maxCounter s \<le> s_maxCounter s'" "nv_endCount s' = s_maxCounter s'"
    and "\<And>x. cval (ix, d) = Some x \<Longrightarrow> x \<le> s_maxCounter s'"
    using ok(6,7) t by (auto simp: max_after_delete_def cval_def)
  then have "counter_floor s' x y" if "counter_floor s x y" for x y
    using that ok(4) t c(2)
    by (cases "x = h") (auto simp: counter_floor_def counter_value_def split: option.splits)
  ultimately show ?thesis
    by (simp add: nv_good_def)
qed

text \<open>Persistent objects share the memory with the indexes and are not seen in the view.\<close>

lemma nv_good_unseen:
  assumes "nv_mid s" "nv_wf s'" "nv_lookup s' = nv_lookup s" "nv_ramData s' = nv_ramData s" "updateOrderly s' = updateOrderly s"
    and "s_maxCounter s' = s_maxCounter s" "nv_endCount s' = s_maxCounter s \<or> nv_endCount s' = nv_endCount s"
  shows "nv_good s s'"
proof -
  have "saved_ok s'" if "saved_ok s"
    by (rule saved_ok_cong [OF _ assms(2) that assms(4)]) (use assms(1,3) in \<open>auto simp: nv_mid_def\<close>)
  then show ?thesis
    using assms by (auto simp: nv_good_def nv_mid_def counter_floor_def counter_value_def split: option.splits)
qed

lemma NvAddEvictObject_spec:
  assumes "nv_wf s" "NvFindHandle s eh = None" "HandleGetType eh = TPM_HT_PERSISTENT"
    and "NvAddEvictObject eh blob s = Ret (rc, s')"
  obtains (same) "s' = s" | (ok) es where "s' = s\<lparr>nv_endCount := s_maxCounter s, nv_list := es\<rparr>" "nv_wf s'" "nv_lookup s' = nv_lookup s"
proof -
  let ?e = "EvictEntry (4 + 4 + length blob) eh blob"
  let ?s = "s\<lparr>nv_endCount := s_maxCounter s, nv_list := nv_list s @ [?e]\<rparr>"
  note wf = assms(1)
  have fresh: "entry_handle ?e \<notin> entry_handle ` set (nv_list s)"
    using assms(2) by (simp add: NvFindHandle_None_iff entry_of_None)
  have ok: "entry_ok (sizeof_NV_INDEX s) ?e"
    using assms(3) by simp
  consider "s' = s" | "s' = ?s" "NvGetEnd s + entry_size ?e + sizeof_NV_LIST_TERMINATOR \<le> s_evictNvEnd s"
  proof (cases "NvTestSpace s (length blob + 4) False False")
    case True
    then have room: "NvGetEnd s + entry_size ?e + sizeof_NV_LIST_TERMINATOR \<le> s_evictNvEnd s"
      using NvTestSpace_room [OF True] by simp
    then show ?thesis
      using that assms(4) True NvAdd_spec [OF wf fresh ok room] by (auto simp: NvAddEvictObject_def split: if_splits)
  qed (use that assms(4) in \<open>auto simp: NvAddEvictObject_def\<close>)
  then show ?thesis
  proof cases
    case 2
    have "ram_wf (nv_list s @ [?e]) (s_indexOrderlyRam s)"
      by (rule ram_wf_add_entry [OF nv_wfD(4) [OF wf] fresh]) simp
    then have wf': "nv_wf ?s"
      using nv_wfD(1,3) [OF wf] fresh ok 2(2) by (auto simp: nv_wf_def NvGetEnd_def)
    have "entry_of ?s = (entry_of s)(eh \<mapsto> ?e)" "ram_of ?s = ram_of s"
      using kmap_snoc [OF fresh] by (simp_all add: entry_of_def ram_of_def)
    moreover have "nv_lookup s eh = None"
      using assms(2) by (simp add: NvFindHandle_None_iff nv_lookup_undefined)
    ultimately have "nv_lookup ?s = nv_lookup s"
      by (intro ext) (auto simp: nv_lookup_def view_entry_def)
    then show ?thesis
      using that(2) 2(1) wf' by blast
  qed (rule that(1))
qed

lemma NvDeleteEvict_spec:
  assumes "nv_wf s" "HandleGetType eh = TPM_HT_PERSISTENT" "NvDeleteEvict eh s = Ret (rc, s')"
  obtains (same) "s' = s" | (ok) es where "s' = s\<lparr>nv_endCount := s_maxCounter s, nv_list := es\<rparr>" "nv_wf s'" "nv_lookup s' = nv_lookup s"
proof (cases "NvFindHandle s eh")
  case None
  then show ?thesis
    using assms(3) that(1) by (simp add: NvDeleteEvict_def)
next
  case (Some i)
  let ?s = "s\<lparr>nv_endCount := s_maxCounter s, nv_list := remove_at i (nv_list s)\<rparr>"
  note wf = assms(1)
  have i: "i < length (nv_list s)" "entry_handle (nv_list s ! i) = eh"
    using NvFindHandle_SomeD [OF Some] by auto
  have "entry_ok (sizeof_NV_INDEX s) (nv_list s ! i)"
    using nv_wfD(3) [OF wf nth_mem [OF i(1)]] .
  then obtain n b where ev: "nv_list s ! i = EvictEntry n eh b"
    using i(2) assms(2) by (cases "nv_list s ! i") (auto simp: public_ok_def tpm_consts)
  then have no: "\<not> orderly_entry (nv_list s ! i)"
    by auto
  have "s' = s \<or> s' = ?s"
    using assms(3) Some NvDelete_available [OF _ nv_wfD(5) [OF wf], of i]
    by (cases "nvStatus s = TPM_RC_SUCCESS") (auto simp: NvDeleteEvict_def NvDelete_def)
  moreover have "nv_wf ?s"
    by (rule nv_wf_remove [OF wf i(1)])
      (use ram_wf_remove_entry [OF nv_wfD(4) [OF wf] nv_wfD(1) [OF wf] i(1) no] in \<open>simp_all add: nv_consts_def\<close>)
  moreover have "entry_of ?s = (entry_of s)(eh := None)" "ram_of ?s = ram_of s"
    using kmap_remove_at [OF nv_wfD(1) [OF wf] i(1)] i(2) by (simp_all add: entry_of_def ram_of_def)
  moreover have "entry_of s eh = Some (EvictEntry n eh b)"
    using entry_of_nth [OF wf i(1)] i(2) ev by simp
  then have "nv_lookup s eh = None"
    by (simp add: nv_lookup_def view_entry_def)
  ultimately have "nv_lookup ?s = nv_lookup s"
    by (intro ext) (auto simp: nv_lookup_def)
  then show ?thesis
    using \<open>s' = s \<or> s' = ?s\<close> \<open>nv_wf ?s\<close> that by blast
qed

lemma evict_good:
  assumes "nv_mid s"
  shows "NvFindHandle s eh = None \<Longrightarrow> HandleGetType eh = TPM_HT_PERSISTENT \<Longrightarrow>
      NvAddEvictObject eh blob s = Ret (rc, s') \<Longrightarrow> nv_good s s'"
    and "HandleGetType eh = TPM_HT_PERSISTENT \<Longrightarrow> NvDeleteEvict eh s = Ret (rc, s') \<Longrightarrow> nv_good s s'"
proof -
  have wf: "nv_wf s"
    using assms by (simp add: nv_mid_def)
  have good: "nv_good s s'" if "s' = s\<lparr>nv_endCount := s_maxCounter s, nv_list := es\<rparr>" "nv_wf s'" "nv_lookup s' = nv_lookup s" for es
    by (rule nv_good_unseen [OF assms that(2,3)]) (simp_all add: that(1))
  show "nv_good s s'" if "NvFindHandle s eh = None" "HandleGetType eh = TPM_HT_PERSISTENT" "NvAddEvictObject eh blob s = Ret (rc, s')"
    using NvAddEvictObject_spec [OF wf that] good nv_good_refl [OF assms] by metis
  show "nv_good s s'" if "HandleGetType eh = TPM_HT_PERSISTENT" "NvDeleteEvict eh s = Ret (rc, s')"
    using NvDeleteEvict_spec [OF wf that] good nv_good_refl [OF assms] by metis
qed

section \<open>Traversals\<close>

lemma NvNextByType_spec:
  "NvNextByType s iter type =
     (let P = (\<lambda>i. HandleGetType (entry_handle (nv_list s ! i)) = type);
          is = filter P [iter..<length (nv_list s)]
      in case is of [] \<Rightarrow> (None, max iter (length (nv_list s))) | i # _ \<Rightarrow> (Some i, Suc i))"
proof (induction s iter type rule: NvNextByType.induct)
  case (1 s iter type)
  show ?case
  proof (cases "iter < length (nv_list s)")
    case True
    then have n: "NvNext s iter = (Some iter, Suc iter)"
      and u: "[iter..<length (nv_list s)] = iter # [Suc iter..<length (nv_list s)]"
      by (simp_all add: NvNext_def upt_conv_Cons)
    show ?thesis
      using "1.IH" [OF n [symmetric] refl] True
      by (subst NvNextByType.simps) (auto simp: n u Let_def max_def split: list.splits)
  next
    case False
    then show ?thesis
      by (subst NvNextByType.simps) (simp add: NvNext_def max_def)
  qed
qed

lemma filter_upt_tail:
  "filter P [k..<n] = i # is \<Longrightarrow> is = filter P [Suc i..<n]"
proof (induction "n - k" arbitrary: k)
  case 0
  then show ?case by simp
next
  case (Suc m)
  then have u: "[k..<n] = k # [Suc k..<n]"
    by (simp add: upt_conv_Cons)
  show ?case
    using Suc(1) [of "Suc k"] Suc(2,3) by (auto simp: u split: if_splits)
qed

lemma nv_scan_spec:
  "nv_scan s iter type = filter (\<lambda>i. HandleGetType (entry_handle (nv_list s ! i)) = type) [iter..<length (nv_list s)]"
proof (induction s iter type rule: nv_scan.induct)
  case (1 s iter type)
  show ?case
  proof (cases "filter (\<lambda>i. HandleGetType (entry_handle (nv_list s ! i)) = type) [iter..<length (nv_list s)]")
    case Nil
    then show ?thesis
      by (subst nv_scan.simps) (simp add: NvNextByType_spec Let_def)
  next
    case (Cons i js)
    then have n: "NvNextByType s iter type = (Some i, Suc i)"
      by (simp add: NvNextByType_spec Let_def)
    show ?thesis
      using "1.IH" [OF n [symmetric] refl] filter_upt_tail [OF Cons] Cons
      by (subst nv_scan.simps) (simp add: n)
  qed
qed

lemma index_entry_at:
  assumes "nv_wf s" "i < length (nv_list s)" "HandleGetType (entry_handle (nv_list s ! i)) = TPM_HT_NV_INDEX"
  obtains n ix d where "nv_list s ! i = IndexEntry n ix d"
  using nv_wfD(3) [OF assms(1) nth_mem [OF assms(2)]] assms(3) that
  by (cases "nv_list s ! i") (auto simp: tpm_consts)

definition same_orderly :: "nv_state \<Rightarrow> nv_state \<Rightarrow> bool" where
  "same_orderly s s' \<longleftrightarrow> (\<forall>h v. is_orderly v \<longrightarrow> (nv_lookup s' h = Some v \<longleftrightarrow> nv_lookup s h = Some v))"

lemma same_orderly_refl [simp]: "same_orderly s s"
  by (simp add: same_orderly_def)

lemma same_orderly_trans: "same_orderly s t \<Longrightarrow> same_orderly t u \<Longrightarrow> same_orderly s u"
  by (simp add: same_orderly_def)

text \<open>A write-locked index keeps its data and its lock.\<close>

definition lock_kept :: "TPM_HANDLE \<Rightarrow> nv_state \<Rightarrow> nv_state \<Rightarrow> bool" where
  "lock_kept h s s' \<longleftrightarrow> (\<forall>ix d. nv_lookup s h = Some (ix, d) \<and> na_WRITELOCKED (nv_attributes (nv_public ix)) \<longrightarrow>
     (\<exists>ix'. nv_lookup s' h = Some (ix', d) \<and> na_WRITELOCKED (nv_attributes (nv_public ix'))))"

lemma lock_kept_same: "nv_lookup s' h = nv_lookup s h \<Longrightarrow> lock_kept h s s'"
  by (simp add: lock_kept_def)

lemma lock_kept_trans: "lock_kept h s t \<Longrightarrow> lock_kept h t u \<Longrightarrow> lock_kept h s u"
  unfolding lock_kept_def by blast

lemma lock_kept_update:
  assumes "nv_lookup s h = Some (ix, d)" "nv_lookup s' = (nv_lookup s)(h \<mapsto> (ix', d))"
    and "na_WRITELOCKED (nv_attributes (nv_public ix)) \<Longrightarrow> na_WRITELOCKED (nv_attributes (nv_public ix'))"
  shows "lock_kept h' s s'"
  using assms by (auto simp: lock_kept_def)

text \<open>Writing the attributes of an index in NV memory.\<close>

lemma plain_attributes_good:
  assumes "nv_mid s" "i < length (nv_list s)" "nv_list s ! i = IndexEntry n ix d"
    and "\<not> na_ORDERLY (nv_attributes (nv_public ix))" "fixed_attributes a = fixed_attributes (nv_attributes (nv_public ix))"
    and "IsNvCounterIndex a \<Longrightarrow> na_WRITTEN a = na_WRITTEN (nv_attributes (nv_public ix))"
    and "NvWriteNvIndexAttributes i a s = (rc, s')"
  shows "nv_good s s'" "map entry_handle (nv_list s') = map entry_handle (nv_list s)" "s_indexOrderlyRam s' = s_indexOrderlyRam s"
    "nv_ramData s' = nv_ramData s" "updateOrderly s' = updateOrderly s" "nvStatus s' = nvStatus s" "same_orderly s s'"
    "na_WRITELOCKED a \<Longrightarrow> lock_kept h s s'"
proof -
  let ?f = "upd_index (set_attributes a)"
  have wf: "nv_wf s"
    using assms(1) by (simp add: nv_mid_def)
  have f: "?f (IndexEntry n ix d) = IndexEntry n (set_attributes a ix) d" "same_index ix (set_attributes a ix)"
    using assms(5) by simp_all
  have fr: "nv_frame s (upd_entry i ?f s)"
    by (rule nv_frame_upd_entry [where f = ?f, OF _ assms(2,3) f(1)]) simp_all
  have e: "entry_of s (nvIndex (nv_public ix)) = Some (IndexEntry n ix d)"
    using entry_of_nth [OF wf assms(2)] assms(3) by simp
  have o: "\<not> na_ORDERLY a" and nt: "IsNvCounterIndex a = IsNvCounterIndex (nv_attributes (nv_public ix))"
    using fixed_attributes_eqD(1,2) [OF assms(5)] assms(4) by (simp_all add: IsNvCounterIndex_def)
  have l: "nv_lookup s (nvIndex (nv_public ix)) = Some (ix, d)"
    using e assms(4) by (simp add: nv_lookup_def view_entry_def)
  have l': "nv_lookup (upd_entry i ?f s) = (nv_lookup s)(nvIndex (nv_public ix) \<mapsto> (set_attributes a ix, d))"
    using nv_wf_upd_entry [where f = ?f, OF wf assms(2,3) f refl] o by (simp add: view_entry_def)
  have "s' = s \<or> s' = upd_entry i ?f s"
    using assms(7) by (auto simp: NvWriteNvIndexAttributes_def NvConditionallyWrite_def split: if_splits)
  moreover have "nv_good s (upd_entry i ?f s)"
  proof (rule nv_good_update [OF assms(1) _ fr, of "nvIndex (nv_public ix)" "(ix, d)" "(set_attributes a ix, d)"])
    show "nv_lookup s (nvIndex (nv_public ix)) = Some (ix, d)"
      by (rule l)
    show "nv_wf (upd_entry i ?f s)" "nv_lookup (upd_entry i ?f s) = (nv_lookup s)(nvIndex (nv_public ix) \<mapsto> (set_attributes a ix, d))"
      using nv_wf_upd_entry [where f = ?f, OF wf assms(2,3) f refl] o by (simp_all add: view_entry_def)
    show "case (cval (ix, d), cval (set_attributes a ix, d)) of (Some x, Some y) \<Rightarrow> x \<le> y | (Some x, None) \<Rightarrow> False
        | (None, Some y) \<Rightarrow> s_maxCounter s \<le> y | (None, None) \<Rightarrow> True"
      using nt assms(6) by (auto simp: cval_def)
    show "keeps_saved (ix, d) (set_attributes a ix, d)" if "is_orderly (ix, d) \<or> is_orderly (set_attributes a ix, d)"
      using that o assms(4) by (simp add: is_orderly_def)
  qed simp
  moreover have "same_orderly s (upd_entry i ?f s)"
    unfolding same_orderly_def l' using l o assms(4) by (auto simp: is_orderly_def)
  moreover have "lock_kept h s (upd_entry i ?f s)" if "na_WRITELOCKED a"
    by (rule lock_kept_update [OF l l']) (simp add: that)
  ultimately show "nv_good s s'" "map entry_handle (nv_list s') = map entry_handle (nv_list s)"
    "s_indexOrderlyRam s' = s_indexOrderlyRam s" "nv_ramData s' = nv_ramData s" "updateOrderly s' = updateOrderly s"
    "nvStatus s' = nvStatus s" "same_orderly s s'" "na_WRITELOCKED a \<Longrightarrow> lock_kept h s s'"
    using nv_good_refl [OF assms(1)] fr lock_kept_same [of s h s] by (auto simp: nv_frame_def)
qed

lemma attribute_of_entry: "nv_list s ! i = IndexEntry n ix d \<Longrightarrow> index_at s i = nv_attributes (nv_public ix)"
  by (simp add: index_at_def)

lemma same_handles_at:
  assumes "map entry_handle es = map entry_handle es'"
  shows "length es = length es'" "entry_handle (es ! i) = entry_handle (es' ! i) \<or> \<not> i < length es"
  using assms by (metis length_map, metis length_map nth_map)

lemma lock_indexes_good:
  assumes "nv_mid s" "\<And>i. i \<in> set js \<Longrightarrow> i < length (nv_list s) \<and> HandleGetType (entry_handle (nv_list s ! i)) = TPM_HT_NV_INDEX"
    and "lock_indexes js s = (rc, s')"
  shows "nv_good s s' \<and> lock_kept h s s'"
  using assms
proof (induction js arbitrary: s)
  case Nil
  then show ?case
    by (simp add: nv_good_refl lock_kept_same)
next
  case (Cons i js)
  have wf: "nv_wf s"
    using Cons.prems(1) by (simp add: nv_mid_def)
  obtain n ix d where e: "nv_list s ! i = IndexEntry n ix d"
    using index_entry_at [OF wf, of i] Cons.prems(2) [of i] by (metis list.set_intros(1))
  let ?a = "nv_attributes (nv_public ix)"
  show ?case
  proof (cases "\<not> na_ORDERLY ?a \<and> na_GLOBALLOCK ?a")
    case False
    then show ?thesis
      using Cons.IH [OF Cons.prems(1)] Cons.prems(2,3) attribute_of_entry [OF e] by (auto simp: Let_def)
  next
    case True
    obtain rc1 s1 where w: "NvWriteNvIndexAttributes i (?a\<lparr>na_WRITELOCKED := True\<rparr>) s = (rc1, s1)"
      by (cases "NvWriteNvIndexAttributes i (?a\<lparr>na_WRITELOCKED := True\<rparr>) s")
    note g = plain_attributes_good [OF Cons.prems(1) _ e _ _ _ w]
    have s1: "nv_good s s1" "map entry_handle (nv_list s1) = map entry_handle (nv_list s)" "lock_kept h s s1"
      using g(1,2,8) True Cons.prems(2) [of i] by simp_all
    have "nv_good s1 s' \<and> lock_kept h s1 s'" if "rc1 = TPM_RC_SUCCESS"
    proof (rule Cons.IH)
      show "nv_mid s1"
        using s1(1) by (simp add: nv_good_def)
      show "j < length (nv_list s1) \<and> HandleGetType (entry_handle (nv_list s1 ! j)) = TPM_HT_NV_INDEX" if "j \<in> set js" for j
        using Cons.prems(2) [of j] that same_handles_at(1) [OF s1(2)] same_handles_at(2) [OF s1(2), of j] by auto
      show "lock_indexes js s1 = (rc, s')"
        using Cons.prems(3) True w that attribute_of_entry [OF e] by (simp add: Let_def)
    qed
    then show ?thesis
      using s1 Cons.prems(3) True w attribute_of_entry [OF e] nv_good_trans [OF s1(1)] lock_kept_trans [OF s1(3)]
      by (cases "rc1 = TPM_RC_SUCCESS") (auto simp: Let_def)
  qed
qed

text \<open>A change of all entries of the orderly RAM that keeps their shape.\<close>

lemma ram_map_wf:
  assumes "nv_wf s" "s' = s\<lparr>s_indexOrderlyRam := map f (s_indexOrderlyRam s)\<rparr>"
    and "\<And>r. r \<in> set (s_indexOrderlyRam s) \<Longrightarrow> r_handle (f r) = r_handle r \<and> r_size (f r) = r_size r
           \<and> length (r_data (f r)) = length (r_data r) \<and> fixed_attributes (r_attributes (f r)) = fixed_attributes (r_attributes r)"
  shows "nv_wf s'" "ram_of s' h = map_option f (ram_of s h)"
proof -
  let ?rs = "s_indexOrderlyRam s"
  have h: "map r_handle (map f ?rs) = map r_handle ?rs" "map r_size (map f ?rs) = map r_size ?rs"
    using assms(3) by simp_all
  have k: "kmap r_handle (map f rs) x = map_option f (kmap r_handle rs x)" if "set rs \<subseteq> set ?rs" for rs x
    using that assms(3) by (induction rs) auto
  then show "ram_of s' h = map_option f (ram_of s h)"
    by (simp add: ram_of_def assms(2))
  have m: "ram_matches e (f r) = ram_matches e r" if "r \<in> set ?rs" for e r
    using assms(3) [OF that] by (cases e) auto
  have "ram_wf (nv_list s) (map f ?rs)"
    using nv_wfD(4) [OF assms(1)] m assms(3) k [of ?rs] unfolding ram_wf_def h by auto
  then show "nv_wf s'"
    using assms(1) by (simp add: nv_wf_def assms(2) NvGetEnd_def)
qed

lemma nv_lookup_ram_map:
  assumes "nv_wf s" "nv_wf s'" "nv_list s' = nv_list s" "\<And>h. ram_of s' h = map_option f (ram_of s h)"
  shows "nv_lookup s' h = map_option (\<lambda>v. if is_orderly v
      then (set_attributes (r_attributes (f (the (ram_of s h)))) (fst v), r_data (f (the (ram_of s h)))) else v) (nv_lookup s h)"
proof (cases "entry_of s h")
  case None
  then show ?thesis
    using assms(3) by (simp add: nv_lookup_def entry_of_def)
next
  case (Some e)
  have e': "entry_of s' h = Some e"
    using Some assms(3) by (simp add: entry_of_def)
  show ?thesis
  proof (cases e)
    case (EvictEntry n h' b)
    then show ?thesis
      using Some e' by (simp add: nv_lookup_def view_entry_def)
  next
    case (IndexEntry n ix d)
    show ?thesis
    proof (cases "na_ORDERLY (nv_attributes (nv_public ix))")
      case True
      obtain r where r: "ram_of s h = Some r" "ram_matches e r"
        using ram_wf_orderly [OF nv_wfD(4) [OF assms(1)], of h e] Some IndexEntry True by (auto simp: entry_of_def ram_of_def)
      then have "na_ORDERLY (r_attributes r)"
        using IndexEntry fixed_attributes_eqD(1) [of "r_attributes r" "nv_attributes (nv_public ix)"] by simp
      then show ?thesis
        using Some e' IndexEntry True r(1) assms(4) [of h] by (simp add: nv_lookup_def view_entry_def is_orderly_def)
    next
      case False
      then show ?thesis
        using Some e' IndexEntry by (simp add: nv_lookup_def view_entry_def is_orderly_def)
    qed
  qed
qed

lemma global_lock_good:
  assumes "nv_mid s" "NvSetGlobalLock s = (rc, s')"
  shows "nv_good s s'" "lock_kept h s s'"
proof -
  obtain rc1 s1 where l: "lock_indexes (nv_scan s 0 TPM_HT_NV_INDEX) s = (rc1, s1)"
    by (cases "lock_indexes (nv_scan s 0 TPM_HT_NV_INDEX) s")
  have "nv_good s s1 \<and> lock_kept h s s1"
    by (rule lock_indexes_good [OF assms(1) _ l]) (simp add: nv_scan_spec)
  then have g: "nv_good s s1" and lk1: "lock_kept h s s1"
    by auto
  let ?s = "s1\<lparr>s_indexOrderlyRam := map lock_ram (s_indexOrderlyRam s1)\<rparr>"
  have wf1: "nv_wf s1" and mid1: "nv_mid s1"
    using g by (auto simp: nv_good_def nv_mid_def)
  have lr: "r_handle (lock_ram r) = r_handle r \<and> r_size (lock_ram r) = r_size r
      \<and> length (r_data (lock_ram r)) = length (r_data r)
      \<and> fixed_attributes (r_attributes (lock_ram r)) = fixed_attributes (r_attributes r)" for r
    by (simp add: lock_ram_def)
  note m = ram_map_wf [OF wf1, of ?s lock_ram]
  have wf: "nv_wf ?s" and ram: "\<And>h. ram_of ?s h = map_option lock_ram (ram_of s1 h)"
    using m lr by simp_all
  let ?f = "\<lambda>h v. if is_orderly v
      then (set_attributes (r_attributes (lock_ram (the (ram_of s1 h)))) (fst v), r_data (lock_ram (the (ram_of s1 h)))) else v"
  have lk: "nv_lookup ?s h = map_option (?f h) (nv_lookup s1 h)" for h
    by (rule nv_lookup_ram_map [OF wf1 wf _ ram]) simp
  have ks: "keeps_saved v (?f h v) \<and> cval (?f h v) = cval v \<and> snd (?f h v) = snd v
      \<and> (na_WRITELOCKED (nv_attributes (nv_public (fst v))) \<longrightarrow> na_WRITELOCKED (nv_attributes (nv_public (fst (?f h v)))))" if v: "nv_lookup s1 h = Some v" for h v
  proof (cases "is_orderly v")
    case True
    then obtain r where r: "ram_of s1 h = Some r" "r_attributes r = nv_attributes (nv_public (fst v))" "snd v = r_data r"
      using nv_lookup_orderlyE [OF wf1, of h "fst v" "snd v"] v unfolding is_orderly_def
      by (metis prod.collapse set_attributes_simps(2))
    then show ?thesis
      using True lr [of r] by (auto simp: keeps_saved_def cval_def lock_ram_def IsNvCounterIndex_def)
  qed simp
  have "nv_good s1 ?s"
  proof -
    have "saved_ok ?s" if "saved_ok s1"
    proof (rule saved_ok_cong [OF wf1 wf that])
      show "\<exists>v'. nv_lookup ?s h = Some v' \<and> keeps_saved v v'" if "nv_lookup s1 h = Some v" for h v
        using lk [of h] ks [OF that] that by simp
      show "\<exists>v. nv_lookup s1 h = Some v \<and> keeps_saved v v'" if lv: "nv_lookup ?s h = Some v'" for h v'
      proof -
        obtain v where v: "nv_lookup s1 h = Some v" "v' = ?f h v"
          using lk [of h] lv by (cases "nv_lookup s1 h") simp_all
        then show ?thesis
          using ks [OF v(1)] by auto
      qed
    qed simp
    moreover have "counter_value ?s h = counter_value s1 h" for h
      using lk [of h] ks [of h] by (cases "nv_lookup s1 h") (auto simp: counter_value_def)
    ultimately show ?thesis
      using mid1 wf by (auto simp: nv_good_def nv_mid_def counter_floor_def split: option.splits)
  qed
  then have "nv_good s ?s"
    by (rule nv_good_trans [OF g])
  moreover have "lock_kept h s1 ?s"
    unfolding lock_kept_def
  proof (intro allI impI, elim conjE)
    fix ix d
    assume v: "nv_lookup s1 h = Some (ix, d)" and w: "na_WRITELOCKED (nv_attributes (nv_public ix))"
    show "\<exists>ix'. nv_lookup ?s h = Some (ix', d) \<and> na_WRITELOCKED (nv_attributes (nv_public ix'))"
      using ks [OF v] lk [of h] v w by (cases "?f h (ix, d)") auto
  qed
  then have "lock_kept h s ?s"
    by (rule lock_kept_trans [OF lk1])
  ultimately show "nv_good s s'" "lock_kept h s s'"
    using assms(2) l g lk1 by (auto simp: NvSetGlobalLock_def split: if_splits)
qed

section \<open>Startup\<close>

lemma NvSetStartupAttributes_fixed [simp]:
  "fixed_attributes (NvSetStartupAttributes a type) = fixed_attributes a"
  "IsNvCounterIndex (NvSetStartupAttributes a type) = IsNvCounterIndex a"
  by (simp_all add: NvSetStartupAttributes_def Let_def IsNvCounterIndex_def)

lemma NvSetStartupAttributes_counter:
  "IsNvCounterIndex a \<Longrightarrow> na_WRITTEN (NvSetStartupAttributes a type) = na_WRITTEN a"
  by (simp add: NvSetStartupAttributes_def Let_def IsNvCounterIndex_def)

definition all_indexes :: "nv_state \<Rightarrow> nat list \<Rightarrow> bool" where
  "all_indexes s js \<longleftrightarrow> (\<forall>i \<in> set js. i < length (nv_list s) \<and> HandleGetType (entry_handle (nv_list s ! i)) = TPM_HT_NV_INDEX)"

lemma startup_index_good:
  assumes "nv_mid s" "i < length (nv_list s)" "HandleGetType (entry_handle (nv_list s ! i)) = TPM_HT_NV_INDEX"
    and "t = (if na_ORDERLY (index_at s i) then s
              else snd (NvWriteNvIndexAttributes i (NvSetStartupAttributes (index_at s i) type) s))"
  shows "nv_good s t" "map entry_handle (nv_list t) = map entry_handle (nv_list s)" "s_indexOrderlyRam t = s_indexOrderlyRam s"
    "nv_ramData t = nv_ramData s" "updateOrderly t = updateOrderly s" "same_orderly s t"
proof -
  let ?a = "NvSetStartupAttributes (index_at s i) type"
  have "nv_good s t \<and> map entry_handle (nv_list t) = map entry_handle (nv_list s) \<and> s_indexOrderlyRam t = s_indexOrderlyRam s
      \<and> nv_ramData t = nv_ramData s \<and> updateOrderly t = updateOrderly s \<and> same_orderly s t"
  proof (cases "na_ORDERLY (index_at s i)")
    case True
    then show ?thesis
      using assms(1,4) by (simp add: nv_good_refl)
  next
    case False
    obtain n ix d where e: "nv_list s ! i = IndexEntry n ix d"
      using index_entry_at [OF _ assms(2,3)] assms(1) unfolding nv_mid_def by metis
    obtain rc u where w: "NvWriteNvIndexAttributes i ?a s = (rc, u)"
      by (cases "NvWriteNvIndexAttributes i ?a s")
    show ?thesis
      using plain_attributes_good [OF assms(1,2) e _ _ _ w] attribute_of_entry [OF e] False w assms(4)
        NvSetStartupAttributes_counter [of "nv_attributes (nv_public ix)" type] by simp
  qed
  then show "nv_good s t" "map entry_handle (nv_list t) = map entry_handle (nv_list s)" "s_indexOrderlyRam t = s_indexOrderlyRam s"
    "nv_ramData t = nv_ramData s" "updateOrderly t = updateOrderly s" "same_orderly s t"
    by blast+
qed

lemma startup_indexes_good:
  "nv_mid s \<Longrightarrow> all_indexes s js \<Longrightarrow>
     nv_good s (startup_indexes type js s) \<and> s_indexOrderlyRam (startup_indexes type js s) = s_indexOrderlyRam s
     \<and> nv_ramData (startup_indexes type js s) = nv_ramData s \<and> updateOrderly (startup_indexes type js s) = updateOrderly s
     \<and> same_orderly s (startup_indexes type js s)"
proof (induction js arbitrary: s)
  case Nil
  then show ?case
    by (simp add: nv_good_refl)
next
  case (Cons i js)
  define t where "t = (if na_ORDERLY (index_at s i) then s
    else snd (NvWriteNvIndexAttributes i (NvSetStartupAttributes (index_at s i) type) s))"
  have i: "i < length (nv_list s)" "HandleGetType (entry_handle (nv_list s ! i)) = TPM_HT_NV_INDEX"
    using Cons.prems(2) by (simp_all add: all_indexes_def)
  note t = startup_index_good [OF Cons.prems(1) i t_def]
  have "all_indexes t js"
    using Cons.prems(2) same_handles_at(1) [OF t(2)] same_handles_at(2) [OF t(2)]
    unfolding all_indexes_def by (metis list.set_intros(2))
  moreover have "nv_mid t"
    using t(1) by (simp add: nv_good_def)
  ultimately have "nv_good t (startup_indexes type js t) \<and> s_indexOrderlyRam (startup_indexes type js t) = s_indexOrderlyRam t
     \<and> nv_ramData (startup_indexes type js t) = nv_ramData t \<and> updateOrderly (startup_indexes type js t) = updateOrderly t
     \<and> same_orderly t (startup_indexes type js t)"
    by (intro Cons.IH)
  moreover have "startup_indexes type (i # js) s = startup_indexes type js t"
    by (simp add: t_def)
  ultimately show ?case
    using t(1,3-6) nv_good_trans [OF t(1)] same_orderly_trans [OF t(6)] by auto
qed

text \<open>Restoring the orderly RAM from its saved image.\<close>

definition restore_ram :: "nv_state \<Rightarrow> nv_state" where
  "restore_ram s = s\<lparr>s_indexOrderlyRam := nv_ramData s, s_maxCounter := nv_endCount s\<rparr>"

lemma restore_ram_simps [simp]:
  "nv_list (restore_ram s) = nv_list s" "nv_ramData (restore_ram s) = nv_ramData s"
  "s_indexOrderlyRam (restore_ram s) = nv_ramData s" "entry_of (restore_ram s) = entry_of s"
  "s_maxCounter (restore_ram s) = nv_endCount s" "nv_endCount (restore_ram s) = nv_endCount s"
  "ram_of (restore_ram s) = saved_of s"
  by (simp_all add: restore_ram_def entry_of_def ram_of_def)

lemma restore_ram_inv: "nv_inv s \<Longrightarrow> nv_inv (restore_ram s)"
  by (auto simp: nv_inv_def saved_ok_def saved_counters_def nv_wf_def restore_ram_def NvGetEnd_def ram_of_def)

lemma restore_ram_lookup:
  assumes "nv_inv s"
  shows "\<And>v. nv_lookup s h = Some v \<Longrightarrow> \<not> is_orderly v \<Longrightarrow> nv_lookup (restore_ram s) h = Some v"
    "nv_lookup s h = None \<Longrightarrow> nv_lookup (restore_ram s) h = None"
    "\<And>v. nv_lookup s h = Some v \<Longrightarrow> is_orderly v \<Longrightarrow> \<exists>v2. nv_lookup (restore_ram s) h = Some v2 \<and> keeps_saved v2 v \<and> is_orderly v2"
proof -
  have wf: "nv_wf s" and wf2: "nv_wf (restore_ram s)"
    using assms restore_ram_inv [OF assms] by (auto simp: nv_inv_def)
  show "nv_lookup (restore_ram s) h = Some v" if v: "nv_lookup s h = Some v" "\<not> is_orderly v" for v
  proof -
    obtain n ix d where e: "entry_of s h = Some (IndexEntry n ix d)" and w: "view_entry (ram_of s) h (IndexEntry n ix d) = Some v"
      using v(1) by (cases "entry_of s h") (auto simp: nv_lookup_def view_entry_def split: nv_entry.splits)
    have "\<not> na_ORDERLY (nv_attributes (nv_public ix))"
    proof
      assume o: "na_ORDERLY (nv_attributes (nv_public ix))"
      then obtain r where "ram_of s h = Some r" "ram_matches (IndexEntry n ix d) r"
        using ram_wf_orderly [OF nv_wfD(4) [OF wf], of h "IndexEntry n ix d"] e by (auto simp: entry_of_def ram_of_def)
      then show False
        using o w v(2) fixed_attributes_eqD(1) [of "r_attributes r" "nv_attributes (nv_public ix)"]
        by (auto simp: view_entry_def is_orderly_def)
    qed
    then show ?thesis
      using e w by (simp add: nv_lookup_def view_entry_def)
  qed
  show "nv_lookup (restore_ram s) h = None" if n: "nv_lookup s h = None"
  proof (cases "entry_of s h")
    case None
    then show ?thesis
      by (simp add: nv_lookup_def)
  next
    case (Some e)
    have "\<not> orderly_entry e"
    proof
      assume o: "orderly_entry e"
      then obtain r where "ram_of s h = Some r"
        using ram_wf_orderly [OF nv_wfD(4) [OF wf], of h e] Some by (auto simp: entry_of_def ram_of_def)
      then show False
        using n Some o by (cases e) (auto simp: nv_lookup_def view_entry_def split: if_splits)
    qed
    then show ?thesis
      using n Some by (cases e) (auto simp: nv_lookup_def view_entry_def)
  qed
  show "\<exists>v2. nv_lookup (restore_ram s) h = Some v2 \<and> keeps_saved v2 v \<and> is_orderly v2"
    if v: "nv_lookup s h = Some v" "is_orderly v" for v
  proof -
    obtain n ix0 d0 r where e: "entry_of s h = Some (IndexEntry n ix0 d0)" "na_ORDERLY (nv_attributes (nv_public ix0))"
      "ram_of s h = Some r" "ram_matches (IndexEntry n ix0 d0) r" "fst v = set_attributes (r_attributes r) ix0" "snd v = r_data r"
      using nv_lookup_orderlyE [OF wf, of h "fst v" "snd v"] v unfolding is_orderly_def by (metis prod.collapse)
    obtain r' where r': "saved_of s h = Some r'" "ram_matches (IndexEntry n ix0 d0) r'"
      using ram_wf_orderly [of "nv_list s" "nv_ramData s" h "IndexEntry n ix0 d0"] e(1,2) assms
      by (auto simp: entry_of_def nv_inv_def saved_ok_def)
    let ?v2 = "(set_attributes (r_attributes r') ix0, r_data r')"
    have l2: "nv_lookup (restore_ram s) h = Some ?v2"
      using nv_lookup_orderlyI [of "restore_ram s" h n ix0 d0 r'] e(1,2) r'(1) by simp
    have fx: "fixed_attributes (r_attributes r') = fixed_attributes (r_attributes r)"
      using r'(2) e(4) by simp
    have "saved_counters s"
      using assms by (simp add: nv_inv_def saved_ok_def)
    then have sc: "IsNvCounterIndex (r_attributes r) \<Longrightarrow> na_WRITTEN (r_attributes r') = na_WRITTEN (r_attributes r)
        \<and> (na_WRITTEN (r_attributes r) \<longrightarrow> drop_bit 8 (ram_value r') = drop_bit 8 (ram_value r))"
      using e(3) r'(1) unfolding saved_counters_def by blast
    have "keeps_saved ?v2 v"
      using sc fx fixed_attributes_eqD(2) [OF fx] e(5,6)
      by (auto simp: keeps_saved_def same_index_def IsNvCounterIndex_def ram_value_def)
    moreover have "is_orderly ?v2"
      using r'(2) fixed_attributes_eqD(1) [of "r_attributes r'" "nv_attributes (nv_public ix0)"] by (simp add: is_orderly_def)
    ultimately show ?thesis
      using l2 by blast
  qed
qed

text \<open>The second loop of \<^verbatim>\<open>NvEntityStartup\<close>: the orderly indexes.\<close>

lemma startup_ram_shape:
  assumes "length (r_data r) = 8 \<or> \<not> IsNvCounterIndex (r_attributes r)"
  shows "r_handle (startup_ram type po r) = r_handle r \<and> r_size (startup_ram type po r) = r_size r
    \<and> length (r_data (startup_ram type po r)) = length (r_data r)
    \<and> fixed_attributes (r_attributes (startup_ram type po r)) = fixed_attributes (r_attributes r)"
  using assms by (auto simp: startup_ram_def Let_def)

lemma drop_bit_OR_MAX_ORDERLY: "drop_bit 8 (x OR MAX_ORDERLY_COUNT) = drop_bit 8 (x :: u64)"
  by (rule bit_word_eqI) (auto simp: MAX_ORDERLY_COUNT_mask bit_drop_bit_eq bit_or_iff bit_mask_iff simp del: mask_numeral)

lemma startup_ram_counter:
  assumes "IsNvCounterIndex (r_attributes r)"
  shows "na_WRITTEN (r_attributes (startup_ram type po r)) = na_WRITTEN (r_attributes r)"
    "ram_value (startup_ram type po r) = (if po = SU_NONE_VALUE then ram_value r OR MAX_ORDERLY_COUNT else ram_value r)"
  using assms NvSetStartupAttributes_counter [OF assms]
  by (simp_all add: startup_ram_def Let_def ram_value_def)

lemma startup_ram_entry:
  assumes "nv_wf s" "ram_of s h = Some r" "IsNvCounterIndex (r_attributes r)"
  shows "length (r_data r) = 8"
proof -
  have "r \<in> set (s_indexOrderlyRam s)" "r_handle r = h"
    using kmap_SomeD [of r_handle "s_indexOrderlyRam s" h r] assms(2) by (auto simp: ram_of_def)
  then obtain e where e: "entry_of s h = Some e" "ram_matches e r"
    using nv_wfD(4) [OF assms(1)] by (auto simp: ram_wf_def entry_of_def)
  then obtain n ix d where i: "e = IndexEntry n ix d"
    by (cases e) auto
  have "IndexEntry n ix d \<in> set (nv_list s)"
    using kmap_SomeD [of entry_handle "nv_list s" h e] e(1) i by (auto simp: entry_of_def)
  then have "public_ok (nv_public ix)"
    using nv_wfD(3) [OF assms(1)] by fastforce
  moreover have "nt_of (nv_attributes (nv_public ix)) = TPM_NT_COUNTER"
    using e(2) i assms(3) fixed_attributes_eqD(2) [of "r_attributes r" "nv_attributes (nv_public ix)"]
    by (simp add: IsNvCounterIndex_def)
  ultimately show ?thesis
    using counter_size [of "nv_public ix"] e(2) i by simp
qed

lemma startup_ram_step:
  assumes "nv_mid s" "\<not> updateOrderly s" "s' = s\<lparr>s_indexOrderlyRam := map (startup_ram type po) (s_indexOrderlyRam s)\<rparr>"
  shows "nv_wf s'" "saved_ok s'"
    "\<And>h v. nv_lookup s h = Some v \<Longrightarrow> \<not> is_orderly v \<Longrightarrow> nv_lookup s' h = Some v"
    "\<And>h. nv_lookup s h = None \<Longrightarrow> nv_lookup s' h = None"
    "\<And>h v. nv_lookup s h = Some v \<Longrightarrow> is_orderly v \<Longrightarrow> \<exists>v'. nv_lookup s' h = Some v' \<and>
       cval v' = map_option (\<lambda>x. if po = SU_NONE_VALUE then x OR MAX_ORDERLY_COUNT else x) (cval v)"
proof -
  let ?f = "startup_ram type po"
  have wf: "nv_wf s" and so: "saved_ok s"
    using assms(1,2) by (auto simp: nv_mid_def)
  have shape: "r_handle (?f r) = r_handle r \<and> r_size (?f r) = r_size r \<and> length (r_data (?f r)) = length (r_data r)
      \<and> fixed_attributes (r_attributes (?f r)) = fixed_attributes (r_attributes r)" if r: "r \<in> set (s_indexOrderlyRam s)" for r
    using startup_ram_shape startup_ram_entry [OF wf, of "r_handle r" r] kmap_self [OF nv_wfD(2) [OF wf] r]
    unfolding ram_of_def by blast
  note m = ram_map_wf [OF wf assms(3) shape]
  show wf': "nv_wf s'"
    by (rule m(1))
  have ram: "ram_of s' h = map_option ?f (ram_of s h)" for h
    by (rule m(2))
  let ?g = "\<lambda>h v. if is_orderly v
      then (set_attributes (r_attributes (?f (the (ram_of s h)))) (fst v), r_data (?f (the (ram_of s h)))) else v"
  have lk: "nv_lookup s' h = map_option (?g h) (nv_lookup s h)" for h
    by (rule nv_lookup_ram_map [OF wf wf' _ ram]) (simp add: assms(3))
  show "nv_lookup s' h = Some v" if "nv_lookup s h = Some v" "\<not> is_orderly v" for h v
    using lk [of h] that by simp
  show "nv_lookup s' h = None" if "nv_lookup s h = None" for h
    using lk [of h] that by simp
  have orderly: "keeps_saved v (?g h v) \<and> cval (?g h v) = map_option (\<lambda>x. if po = SU_NONE_VALUE then x OR MAX_ORDERLY_COUNT else x) (cval v)"
    if l: "nv_lookup s h = Some v" and o: "is_orderly v" for h v
  proof -
    obtain r where r: "ram_of s h = Some r" "r_attributes r = nv_attributes (nv_public (fst v))" "snd v = r_data r"
      using nv_lookup_orderlyE [OF wf, of h "fst v" "snd v"] l o unfolding is_orderly_def
      by (metis prod.collapse set_attributes_simps(2))
    have "r \<in> set (s_indexOrderlyRam s)"
      using kmap_SomeD [of r_handle "s_indexOrderlyRam s" h r] r(1) by (auto simp: ram_of_def)
    then have fx: "fixed_attributes (r_attributes (?f r)) = fixed_attributes (r_attributes r)"
      using shape by blast
    have nt: "IsNvCounterIndex (r_attributes (?f r)) = IsNvCounterIndex (r_attributes r)"
      using fixed_attributes_eqD(2) [OF fx] by (simp add: IsNvCounterIndex_def)
    show ?thesis
      using o r(1) r(2,3) [symmetric] nt fx startup_ram_counter [of r type po] drop_bit_OR_MAX_ORDERLY [of "ram_value r"]
      by (auto simp: keeps_saved_def cval_def ram_value_def)
  qed
  show "\<exists>v'. nv_lookup s' h = Some v' \<and> cval v' = map_option (\<lambda>x. if po = SU_NONE_VALUE then x OR MAX_ORDERLY_COUNT else x) (cval v)"
    if l: "nv_lookup s h = Some v" "is_orderly v" for h v
    using lk [of h] orderly [OF l] l(1) by auto
  have ks: "keeps_saved v (?g h v)" if "nv_lookup s h = Some v" for h v
    using orderly [OF that] by (cases "is_orderly v") simp_all
  show "saved_ok s'"
  proof (rule saved_ok_cong [OF wf wf' so])
    show "\<exists>v'. nv_lookup s' h = Some v' \<and> keeps_saved v v'" if "nv_lookup s h = Some v" for h v
      using lk [of h] ks [OF that] that by simp
    show "\<exists>v. nv_lookup s h = Some v \<and> keeps_saved v v'" if lv: "nv_lookup s' h = Some v'" for h v'
    proof -
      obtain v where v: "nv_lookup s h = Some v" "v' = ?g h v"
        using lk [of h] lv by (cases "nv_lookup s h") simp_all
      then show ?thesis
        using ks [OF v(1)] by auto
    qed
  qed (simp add: assms(3))
qed

lemma NvEntityStartup_unfold:
  "NvEntityStartup type po s = (if type = SU_RESUME then restore_ram s
     else let s3 = startup_indexes type (nv_scan (restore_ram s) 0 TPM_HT_NV_INDEX) (restore_ram s)
          in s3\<lparr>s_indexOrderlyRam := map (startup_ram type po) (s_indexOrderlyRam s3)\<rparr>)"
  by (simp add: NvEntityStartup_def NvSetMaxCount_def NvGetMaxCount_def restore_ram_def Let_def)

lemma keeps_saved_cval:
  assumes "keeps_saved v v'"
  shows "case (cval v, cval v') of (Some x, Some y) \<Rightarrow> drop_bit 8 y = drop_bit 8 x | (None, None) \<Rightarrow> True | _ \<Rightarrow> False"
proof -
  have "IsNvCounterIndex (nv_attributes (nv_public (fst v'))) = IsNvCounterIndex (nv_attributes (nv_public (fst v)))"
    using assms fixed_attributes_eqD(2) [of "nv_attributes (nv_public (fst v'))" "nv_attributes (nv_public (fst v))"]
    by (simp add: keeps_saved_def same_index_def IsNvCounterIndex_def)
  then show ?thesis
    using assms by (auto simp: keeps_saved_def cval_def)
qed

lemma startup_good:
  assumes "nv_inv s" "\<not> updateOrderly s"
    and "type \<noteq> SU_RESUME \<and> po = SU_NONE_VALUE \<or> nv_ramData s = s_indexOrderlyRam s"
  shows "nv_good s (NvEntityStartup type po s)"
proof -
  let ?s2 = "restore_ram s"
  have inv2: "nv_inv ?s2"
    by (rule restore_ram_inv [OF assms(1)])
  have u2: "\<not> updateOrderly ?s2" and mid2: "nv_mid ?s2"
    using assms(2) inv2 by (auto simp: restore_ram_def nv_inv_def nv_mid_def)
  note rl = restore_ram_lookup [OF assms(1)]
  have eq: "nv_lookup ?s2 = nv_lookup s" if "nv_ramData s = s_indexOrderlyRam s"
    using that by (intro ext) (simp add: nv_lookup_def ram_of_def)
  show ?thesis
  proof (cases "type = SU_RESUME")
    case True
    then have "nv_lookup ?s2 = nv_lookup s"
      using assms(3) eq by simp
    then show ?thesis
      using True mid2 by (auto simp: NvEntityStartup_unfold nv_good_def counter_floor_def counter_value_def split: option.splits)
  next
    case False
    define s3 where "s3 = startup_indexes type (nv_scan ?s2 0 TPM_HT_NV_INDEX) ?s2"
    have "all_indexes ?s2 (nv_scan ?s2 0 TPM_HT_NV_INDEX)"
      by (auto simp: all_indexes_def nv_scan_spec)
    then have g3: "nv_good ?s2 s3" and u3: "\<not> updateOrderly s3" and so: "same_orderly ?s2 s3"
      using startup_indexes_good [OF mid2, of "nv_scan ?s2 0 TPM_HT_NV_INDEX" type] u2 by (auto simp: s3_def)
    define s4 where "s4 = s3\<lparr>s_indexOrderlyRam := map (startup_ram type po) (s_indexOrderlyRam s3)\<rparr>"
    have s4: "NvEntityStartup type po s = s4"
      using False by (simp add: NvEntityStartup_unfold s4_def s3_def Let_def)
    have mid3: "nv_mid s3"
      using g3 by (simp add: nv_good_def)
    note st = startup_ram_step [OF mid3 u3 s4_def]
    have c4: "s_maxCounter s4 = s_maxCounter s3" "nv_endCount s4 = nv_endCount s3"
      by (simp_all add: s4_def)
    have "counter_floor s4 h x" if fl: "counter_floor s h x" for h x
    proof (cases "\<exists>v. nv_lookup s h = Some v \<and> is_orderly v")
      case True
      then obtain v where v: "nv_lookup s h = Some v" "is_orderly v"
        by blast
      obtain v2 where v2: "nv_lookup ?s2 h = Some v2" "keeps_saved v2 v" "is_orderly v2"
        using rl(3) [OF v] by blast
      have l3: "nv_lookup s3 h = Some v2"
        using so v2(1,3) unfolding same_orderly_def by blast
      obtain v4 where v4: "nv_lookup s4 h = Some v4"
        "cval v4 = map_option (\<lambda>x. if po = SU_NONE_VALUE then x OR MAX_ORDERLY_COUNT else x) (cval v2)"
        using st(5) [OF l3 v2(3)] by blast
      note kc = keeps_saved_cval [OF v2(2)]
      show ?thesis
      proof (cases "cval v2")
        case None
        then have "cval v = None" "cval v4 = None"
          using kc v4(2) by (auto split: option.splits)
        moreover have "counter_floor ?s2 h x"
          using fl v(1) v2(1) None \<open>cval v = None\<close> by (simp add: counter_floor_def counter_value_def)
        then have "counter_floor s3 h x"
          using g3 by (simp add: nv_good_def)
        ultimately show ?thesis
          using l3 v4(1) None c4 by (simp add: counter_floor_def counter_value_def)
      next
        case (Some y)
        then obtain z where z: "cval v = Some z" "drop_bit 8 y = drop_bit 8 z"
          using kc by (auto split: option.splits)
        have xz: "x \<le> z"
          using fl v(1) z(1) by (simp add: counter_floor_def counter_value_def)
        have "z \<le> (if po = SU_NONE_VALUE then y OR MAX_ORDERLY_COUNT else y)"
        proof (cases "po = SU_NONE_VALUE")
          case True
          then show ?thesis
            using saved_bits_bound [OF z(2)] by simp
        next
          case no: False
          then have "v2 = v"
            using assms(3) eq v(1) v2(1) by simp
          then show ?thesis
            using Some z(1) no by simp
        qed
        then show ?thesis
          using xz Some v4 by (simp add: counter_floor_def counter_value_def)
      qed
    next
      case no: False
      have l2: "nv_lookup ?s2 h = nv_lookup s h"
        using no rl(1,2) by (cases "nv_lookup s h") auto
      then have "counter_floor ?s2 h x"
        using fl by (auto simp: counter_floor_def counter_value_def split: option.splits)
      then have f3: "counter_floor s3 h x"
        using g3 by (simp add: nv_good_def)
      have "\<not> is_orderly v" if "nv_lookup s3 h = Some v" for v
        using that so no l2 unfolding same_orderly_def by metis
      then have "nv_lookup s4 h = nv_lookup s3 h"
        using st(3,4) by (cases "nv_lookup s3 h") auto
      then show ?thesis
        using f3 unfolding counter_floor_def counter_value_def c4 by simp
    qed
    then show ?thesis
      using st(1,2) by (simp add: s4 nv_good_def nv_mid_def)
  qed
qed

section \<open>Commands\<close>

lemma write_command_good:
  assumes "nv_mid s" "nvIndex (cached_pub s) = TPM_RH_UNASSIGNED" "s_cachedNvRef s = None"
    and "TPM2_NV_Write ah h offset data s = Ret (rc, s')"
  shows "nv_good s s'"
proof (rule with_index_good [OF assms(1-3)])
  show "with_index h s (\<lambda>i p s1. let a = nv_attributes p; rc = NvWriteAccessChecks ah h a in
     if rc \<noteq> TPM_RC_SUCCESS then Ret (rc, s1)
     else if IsNvCounterIndex a \<or> IsNvBitsIndex a \<or> IsNvExtendIndex a then Ret (TPM_RC_ATTRIBUTES, s1)
     else if offset > dataSize p then Ret (TPM_RC_VALUE + RC_NV_Write_offset, s1)
     else if length data > unat (dataSize p) - unat offset then Ret (TPM_RC_NV_RANGE, s1)
     else if na_WRITEALL a \<and> length data < unat (dataSize p) then Ret (TPM_RC_NV_RANGE, s1)
     else NvWriteIndexData (unat offset) data s1) = Ret (rc, s')"
    using assms(4) by (simp only: TPM2_NV_Write_def)
qed (auto simp: Let_def word_le_nat_alt not_less split: if_splits intro: nv_good_refl write_good)

lemma increment_command_good:
  assumes "nv_mid s" "nvIndex (cached_pub s) = TPM_RH_UNASSIGNED" "s_cachedNvRef s = None" "next_count s h \<noteq> 0"
    and "TPM2_NV_Increment ah h s = Ret (rc, s')"
  shows "nv_good s s'"
proof (rule with_index_good [OF assms(1-3) assms(5) [unfolded TPM2_NV_Increment_def]])
  fix i ix d s1
  assume l: "nv_lookup s h = Some (ix, d)" and c: "cached_at s1 h i ix d" and mid: "nv_mid s1"
    and mx: "s_maxCounter s1 = s_maxCounter s"
    and k: "(let a = nv_attributes (nv_public ix); rc = NvWriteAccessChecks ah h a in
       if rc \<noteq> TPM_RC_SUCCESS then Ret (rc, s1)
       else if \<not> IsNvCounterIndex a then Ret (TPM_RC_ATTRIBUTES + RC_NV_Increment_nvIndex, s1)
       else obind (if \<not> na_WRITTEN a then Ret (NvReadMaxCount s1)
                   else NvGetUINT64Data (s_cachedNvIndex s1) (Some i) s1) (\<lambda>c.
         obind (NvWriteUINT64Data (c + 1) s1) (\<lambda>(rc, s2).
           Ret (rc, if rc = TPM_RC_SUCCESS \<and> na_ORDERLY a \<and> (c + 1) AND MAX_ORDERLY_COUNT = 0
                    then s2\<lparr>updateOrderly := True\<rparr> else s2)))) = Ret (rc, s')"
  let ?a = "nv_attributes (nv_public ix)"
  let ?f = "\<lambda>n. obind (NvWriteUINT64Data n s1) (\<lambda>(rc, s2).
           Ret (rc, if rc = TPM_RC_SUCCESS \<and> na_ORDERLY ?a \<and> n AND MAX_ORDERLY_COUNT = 0
                    then s2\<lparr>updateOrderly := True\<rparr> else s2))"
  have "nv_lookup s1 h = Some (ix, d)"
    using c by (simp add: cached_at_def)
  then have nc: "next_count s1 h = next_count s h"
    using l mx by (simp add: next_count_def counter_value_def split: option.split)
  show "nv_good s1 s'"
  proof (cases "NvWriteAccessChecks ah h ?a = TPM_RC_SUCCESS \<and> IsNvCounterIndex ?a")
    case True
    then have "?f (next_count s1 h) = Ret (rc, s')"
      using k TPM2_NV_Increment_cached [OF c, of ?f] by (simp add: Let_def)
    then obtain s2 where "NvWriteUINT64Data (next_count s1 h) s1 = Ret (rc, s2)"
      "s' = (if rc = TPM_RC_SUCCESS \<and> na_ORDERLY ?a \<and> next_count s1 h AND MAX_ORDERLY_COUNT = 0
             then s2\<lparr>updateOrderly := True\<rparr> else s2)"
      by (auto simp: obind_Ret_iff)
    then show ?thesis
      using increment_good [OF c mid] True assms(4) nc by simp
  next
    case False
    then show ?thesis
      using k mid nv_good_refl by (auto simp: Let_def split: if_splits)
  qed
qed

lemma lock_good:
  assumes "cached_at s h i ix d" "nv_mid s"
  shows "NvWriteIndexAttributes h i ((nv_attributes (nv_public ix))\<lparr>na_WRITELOCKED := True\<rparr>) s = Ret (rc, s') \<Longrightarrow> nv_good s s'"
    and "NvWriteIndexAttributes h i ((nv_attributes (nv_public ix))\<lparr>na_READLOCKED := True\<rparr>) s = Ret (rc, s') \<Longrightarrow> nv_good s s'"
  by (erule attributes_good [OF assms, rotated 2]; simp)+

text \<open>The other commands: what they do after the index was found keeps the invariant.\<close>

lemma command_good:
  assumes "nv_mid s" "nvIndex (cached_pub s) = TPM_RH_UNASSIGNED" "s_cachedNvRef s = None"
  shows "TPM2_NV_SetBits ah h bits s = Ret (rc, s') \<Longrightarrow> nv_good s s'"
    and "TPM2_NV_Extend hashf ah h data s = Ret (rc, s') \<Longrightarrow> nv_good s s'"
    and "TPM2_NV_WriteLock ah h s = Ret (rc, s') \<Longrightarrow> nv_good s s'"
    and "TPM2_NV_ReadLock ah h s = Ret (rc, s') \<Longrightarrow> nv_good s s'"
    and "TPM2_NV_ChangeAuth h auth s = Ret (rc, s') \<Longrightarrow> nv_good s s'"
    and "TPM2_NV_UndefineSpace ah h s = Ret (rc, s') \<Longrightarrow> nv_good s s'"
    and "TPM2_NV_UndefineSpaceSpecial h as s = Ret (y, s') \<Longrightarrow> nv_good s s'"
    and "TPM2_NV_Read ah h sz offset s = Ret (x, s') \<Longrightarrow> nv_good s s'"
    and "TPM2_NV_ReadPublic hashf h s = Ret (z, s') \<Longrightarrow> nv_good s s'"
proof -
  note wg = with_index_good [OF assms]
  have nc: "IsNvBitsIndex a \<Longrightarrow> \<not> IsNvCounterIndex a" "IsNvExtendIndex a \<Longrightarrow> \<not> IsNvCounterIndex a" for a
    by (auto simp: IsNvBitsIndex_def IsNvExtendIndex_def IsNvCounterIndex_def tpm_consts)
  have h: "nvIndex (nv_public ix) = h" if "cached_at s1 h i ix d" for s1 i ix d
    using that nv_lookup_ok(1) [of s1 h ix d] by (simp add: cached_at_def)
  show "nv_good s s'" if c: "TPM2_NV_SetBits ah h bits s = Ret (rc, s')"
    by (rule wg [OF c [unfolded TPM2_NV_SetBits_def]])
      (auto simp: Let_def obind_Ret_iff NvWriteUINT64Data_def split: if_splits intro: nv_good_refl write_good [OF _ _ nc(1)])
  show "nv_good s s'" if c: "TPM2_NV_Extend hashf ah h data s = Ret (rc, s')"
    by (rule wg [OF c [unfolded TPM2_NV_Extend_def]])
      (auto simp: Let_def obind_Ret_iff split: if_splits intro: nv_good_refl write_good [OF _ _ nc(2)])
  show "nv_good s s'" if c: "TPM2_NV_WriteLock ah h s = Ret (rc, s')"
    by (rule wg [OF c [unfolded TPM2_NV_WriteLock_def]])
      (auto simp: Let_def h split: if_splits intro: nv_good_refl lock_good)
  show "nv_good s s'" if c: "TPM2_NV_ReadLock ah h s = Ret (rc, s')"
    by (rule wg [OF c [unfolded TPM2_NV_ReadLock_def]])
      (auto simp: Let_def h split: if_splits intro: nv_good_refl lock_good)
  show "nv_good s s'" if c: "TPM2_NV_ChangeAuth h auth s = Ret (rc, s')"
    by (rule wg [OF c [unfolded TPM2_NV_ChangeAuth_def]])
      (auto simp: Let_def split: if_splits intro: nv_good_refl auth_good)
  show "nv_good s s'" if c: "TPM2_NV_UndefineSpace ah h s = Ret (rc, s')"
    by (rule wg [OF c [unfolded TPM2_NV_UndefineSpace_def]])
      (auto split: if_splits intro: nv_good_refl delete_good)
  show "nv_good s s'" if c: "TPM2_NV_UndefineSpaceSpecial h as s = Ret (y, s')"
    by (rule wg [OF c [unfolded TPM2_NV_UndefineSpaceSpecial_def]])
      (auto simp: obind_Ret_iff split: if_splits intro: nv_good_refl delete_good)
  show "nv_good s s'" if c: "TPM2_NV_Read ah h sz offset s = Ret (x, s')"
    by (rule wg [OF c [unfolded TPM2_NV_Read_def]])
      (auto simp: Let_def obind_Ret_iff split: if_splits intro: nv_good_refl)
  show "nv_good s s'" if c: "TPM2_NV_ReadPublic hashf h s = Ret (z, s')"
    by (rule wg [OF c [unfolded TPM2_NV_ReadPublic_def]]) (auto intro: nv_good_refl)
qed

lemma define_command_accepts:
  assumes "HandleGetType (nvIndex p) = TPM_HT_NV_INDEX" "TPM2_NV_DefineSpace hs mem ah auth p s = Ret (rc, s')" "s' \<noteq> s"
  shows "public_ok p" "entry_of s (nvIndex p) = None" "\<not> na_WRITTEN (nv_attributes p)"
    "NvDefineIndex mem p (MemoryRemoveTrailingZeros auth) s = Ret (rc, s')"
proof -
  have ok: "supported_type (nt_of (nv_attributes p))" "size_ok p" "type_attributes_ok (nv_attributes p)"
    "\<not> na_WRITTEN (nv_attributes p)" "\<not> NvIndexIsDefined s (nvIndex p)"
    "NvDefineIndex mem p (MemoryRemoveTrailingZeros auth) s = Ret (rc, s')"
    using assms(2,3) unfolding TPM2_NV_DefineSpace_def Let_def by (auto split: if_splits)
  then show "public_ok p" "entry_of s (nvIndex p) = None" "\<not> na_WRITTEN (nv_attributes p)"
    "NvDefineIndex mem p (MemoryRemoveTrailingZeros auth) s = Ret (rc, s')"
    using assms(1) by (simp_all add: public_ok_def NvIndexIsDefined_def NvFindHandle_None_iff)
qed

lemma define_command_good:
  assumes "nv_mid s" "HandleGetType (nvIndex p) = TPM_HT_NV_INDEX" "TPM2_NV_DefineSpace hs mem ah auth p s = Ret (rc, s')"
  shows "nv_good s s'"
proof (cases "s' = s")
  case True
  then show ?thesis
    using assms(1) nv_good_refl by simp
next
  case False
  note ok = define_command_accepts [OF assms(2,3) this]
  show ?thesis
    by (rule define_good [OF assms(1) ok(2,1,3,4)])
qed

section \<open>The transition system\<close>

text \<open>
  The steps: the NV commands, making objects persistent and removing them, NV memory becoming
  available or unavailable, an orderly shutdown followed by a startup of any type, and a startup
  after a power failure. \<^verbatim>\<open>TPM2_Clear\<close> and the other users of \<^verbatim>\<open>NvFlushHierarchy\<close> are not among the steps.
  A counter that reached its largest value is not incremented.
\<close>

inductive nv_command :: "nv_state \<Rightarrow> nv_state \<Rightarrow> bool" where
  define_space: "HandleGetType (nvIndex p) = TPM_HT_NV_INDEX \<Longrightarrow>
     ExecuteNv (TPM2_NV_DefineSpace hs mem ah auth p) s = Ret (rc, s') \<Longrightarrow> nv_command s s'"
| undefine_space: "ExecuteNv (TPM2_NV_UndefineSpace ah h) s = Ret (rc, s') \<Longrightarrow> nv_command s s'"
| undefine_special: "ExecuteNv (TPM2_NV_UndefineSpaceSpecial h as) s = Ret (y, s') \<Longrightarrow> nv_command s s'"
| write_data: "ExecuteNv (TPM2_NV_Write ah h offset data) s = Ret (rc, s') \<Longrightarrow> nv_command s s'"
| increment: "next_count s h \<noteq> 0 \<Longrightarrow> ExecuteNv (TPM2_NV_Increment ah h) s = Ret (rc, s') \<Longrightarrow> nv_command s s'"
| extend_index: "ExecuteNv (TPM2_NV_Extend hashf ah h data) s = Ret (rc, s') \<Longrightarrow> nv_command s s'"
| set_bits: "ExecuteNv (TPM2_NV_SetBits ah h bits) s = Ret (rc, s') \<Longrightarrow> nv_command s s'"
| write_lock: "ExecuteNv (TPM2_NV_WriteLock ah h) s = Ret (rc, s') \<Longrightarrow> nv_command s s'"
| read_lock: "ExecuteNv (TPM2_NV_ReadLock ah h) s = Ret (rc, s') \<Longrightarrow> nv_command s s'"
| global_lock: "ExecuteNv TPM2_NV_GlobalWriteLock s = Ret (rc, s') \<Longrightarrow> nv_command s s'"
| change_auth: "ExecuteNv (TPM2_NV_ChangeAuth h auth) s = Ret (rc, s') \<Longrightarrow> nv_command s s'"
| read_data: "ExecuteNv (TPM2_NV_Read ah h sz offset) s = Ret (x, s') \<Longrightarrow> nv_command s s'"
| read_public: "ExecuteNv (TPM2_NV_ReadPublic hashf h) s = Ret (z, s') \<Longrightarrow> nv_command s s'"
| add_evict: "HandleGetType eh = TPM_HT_PERSISTENT \<Longrightarrow> NvFindHandle s eh = None \<Longrightarrow>
     ExecuteNv (NvAddEvictObject eh blob) s = Ret (rc, s') \<Longrightarrow> nv_command s s'"
| delete_evict: "HandleGetType eh = TPM_HT_PERSISTENT \<Longrightarrow> ExecuteNv (NvDeleteEvict eh) s = Ret (rc, s') \<Longrightarrow> nv_command s s'"
| availability: "nv_command s (s\<lparr>nvStatus := st\<rparr>)"

inductive nv_step :: "nv_state \<Rightarrow> nv_state \<Rightarrow> bool" where
  command: "nv_command s s' \<Longrightarrow> nv_step s s'"
| orderly_restart: "nv_step s (NvEntityStartup type po (begin_command (NvUpdateIndexOrderlyData s)))"
| power_failure: "type \<noteq> SU_RESUME \<Longrightarrow> nv_step s (NvEntityStartup type SU_NONE_VALUE (begin_command s))"

lemma counter_floor_cong:
  "nv_lookup s' h = nv_lookup s h \<Longrightarrow> s_maxCounter s' = s_maxCounter s \<Longrightarrow> nv_endCount s' = nv_endCount s \<Longrightarrow>
     counter_floor s' h v = counter_floor s h v"
  by (simp add: counter_floor_def counter_value_def split: option.split)

lemma counter_floor_begin: "counter_floor (begin_command s) h v = counter_floor s h v"
  by (rule counter_floor_cong) simp_all

lemma counter_floor_end: "counter_floor (end_command s) h v = counter_floor s h v"
  by (rule counter_floor_cong) simp_all

lemma executed_good:
  assumes "nv_inv s" "ExecuteNv cmd s = Ret (x, s')"
    and "\<And>s1. nv_mid (begin_command s) \<Longrightarrow> cmd (begin_command s) = Ret (x, s1) \<Longrightarrow> nv_good (begin_command s) s1"
  shows "nv_inv s' \<and> (counter_floor s h v \<longrightarrow> counter_floor s' h v)"
proof -
  obtain s1 where s1: "cmd (begin_command s) = Ret (x, s1)" "s' = end_command s1"
    using assms(2) by (auto simp: ExecuteNv_Ret)
  then have g: "nv_good (begin_command s) s1"
    using assms(3) begin_command_mid [OF assms(1)] by blast
  then show ?thesis
    using end_command_inv [of s1] s1(2) counter_floor_begin counter_floor_end by (auto simp: nv_good_def)
qed

lemma begin_command_next [simp]: "next_count (begin_command s) h = next_count s h"
  by (simp add: next_count_def counter_value_def split: option.split)

lemma begin_command_find [simp]: "NvFindHandle (begin_command s) h = NvFindHandle s h"
  by (simp add: NvFindHandle_spec)

lemma begin_command_inv [simp]: "nv_inv (begin_command s) = nv_inv s"
  by (simp add: nv_inv_def)

lemma update_saved_inv:
  assumes "nv_inv s"
  shows "nv_inv (NvUpdateIndexOrderlyData s)" "counter_floor (NvUpdateIndexOrderlyData s) h v = counter_floor s h v"
proof -
  show "nv_inv (NvUpdateIndexOrderlyData s)"
    using end_command_inv [of "s\<lparr>updateOrderly := True\<rparr>"] assms
    by (auto simp: nv_inv_def nv_wf_def saved_ok_def saved_counters_def NvUpdateIndexOrderlyData_def ram_of_def NvGetEnd_def)
  have "nv_lookup (NvUpdateIndexOrderlyData s) = nv_lookup s"
    by (simp add: NvUpdateIndexOrderlyData_def nv_lookup_def entry_of_def ram_of_def fun_eq_iff)
  then show "counter_floor (NvUpdateIndexOrderlyData s) h v = counter_floor s h v"
    by (intro counter_floor_cong) (simp_all add: NvUpdateIndexOrderlyData_def)
qed

lemma restart_good:
  assumes "nv_inv s" "type \<noteq> SU_RESUME \<and> po = SU_NONE_VALUE \<or> nv_ramData s = s_indexOrderlyRam s"
  shows "nv_inv (NvEntityStartup type po (begin_command s))
    \<and> (counter_floor s h v \<longrightarrow> counter_floor (NvEntityStartup type po (begin_command s)) h v)"
proof -
  have r: "nv_ramData (begin_command s) = nv_ramData s" "s_indexOrderlyRam (begin_command s) = s_indexOrderlyRam s"
    by (simp_all add: begin_command_def NvIndexCacheInit_def)
  have g: "nv_good (begin_command s) (NvEntityStartup type po (begin_command s))"
    using startup_good [of "begin_command s" type po] assms r by simp
  have "\<not> updateOrderly (NvEntityStartup type po (begin_command s))"
  proof (cases "type = SU_RESUME")
    case True
    then show ?thesis
      by (simp add: NvEntityStartup_unfold restore_ram_def)
  next
    case False
    let ?s2 = "restore_ram (begin_command s)"
    have inv2: "nv_inv ?s2"
      by (rule restore_ram_inv) (use assms(1) in simp)
    have "all_indexes ?s2 (nv_scan ?s2 0 TPM_HT_NV_INDEX)"
      by (auto simp: all_indexes_def nv_scan_spec)
    moreover have "\<not> updateOrderly ?s2"
      by (simp add: restore_ram_def)
    ultimately show ?thesis
      using startup_indexes_good [of ?s2 "nv_scan ?s2 0 TPM_HT_NV_INDEX" type] inv2 False
      by (simp add: NvEntityStartup_unfold Let_def nv_inv_def nv_mid_def)
  qed
  then show ?thesis
    using g counter_floor_begin by (auto simp: nv_good_def nv_mid_def nv_inv_def)
qed

lemma nv_command_good:
  assumes "nv_command s s'" "nv_inv s"
  shows "nv_inv s' \<and> (counter_floor s h v \<longrightarrow> counter_floor s' h v)"
  using assms
proof (cases rule: nv_command.cases)
  case (availability st)
  have "nv_lookup s' = nv_lookup s" "nv_wf s' = nv_wf s" "saved_ok s' = saved_ok s"
    by (simp_all add: availability nv_lookup_def entry_of_def ram_of_def nv_wf_def NvGetEnd_def saved_ok_def saved_counters_def fun_eq_iff)
  then show ?thesis
    using assms(2) counter_floor_cong [of s' h s v] unfolding nv_inv_def by (simp add: availability)
next
  case (global_lock rc)
  show ?thesis
    by (rule executed_good [OF assms(2) global_lock])
      (auto simp: TPM2_NV_GlobalWriteLock_def intro: global_lock_good(1))
next
  case (define_space p hs mem ah auth rc)
  show ?thesis
    by (rule executed_good [OF assms(2) define_space(2)]) (rule define_command_good [OF _ define_space(1)])
next
  case (increment h' ah rc)
  show ?thesis
    by (rule executed_good [OF assms(2) increment(2)]) (rule increment_command_good; use increment(1) in simp)
next
  case (write_data ah h' offset data rc)
  show ?thesis
    by (rule executed_good [OF assms(2) write_data]) (rule write_command_good; simp)
next
  case (add_evict eh blob rc)
  show ?thesis
    by (rule executed_good [OF assms(2) add_evict(3)]) (rule evict_good(1); use add_evict(1,2) in simp)
next
  case (delete_evict eh rc)
  show ?thesis
    by (rule executed_good [OF assms(2) delete_evict(2)]) (rule evict_good(2) [OF _ delete_evict(1)])
qed (erule executed_good [OF assms(2)]; rule command_good; simp)+

lemma nv_step_good:
  assumes "nv_step s s'" "nv_inv s"
  shows "nv_inv s' \<and> (counter_floor s h v \<longrightarrow> counter_floor s' h v)"
  using assms
proof (cases rule: nv_step.cases)
  case command
  then show ?thesis
    using nv_command_good assms(2) by blast
next
  case (orderly_restart type po)
  have "nv_ramData (NvUpdateIndexOrderlyData s) = s_indexOrderlyRam (NvUpdateIndexOrderlyData s)"
    by (simp add: NvUpdateIndexOrderlyData_def)
  then show ?thesis
    using restart_good [OF update_saved_inv(1) [OF assms(2)], of type po h v] update_saved_inv(2) [OF assms(2)] orderly_restart
    by simp
next
  case (power_failure type)
  then show ?thesis
    using restart_good [OF assms(2), of type SU_NONE_VALUE] by simp
qed

definition nv_fresh :: "nv_state \<Rightarrow> bool" where
  "nv_fresh s \<longleftrightarrow> nv_list s = [] \<and> s_indexOrderlyRam s = [] \<and> nv_ramData s = []
     \<and> nv_userDynamic s + sizeof_NV_LIST_TERMINATOR \<le> s_evictNvEnd s"

interpretation nvsys: safe_system nv_fresh nv_step nv_inv
proof
  show "nv_inv s" if "nv_fresh s" for s
    using that by (simp add: nv_fresh_def nv_inv_def nv_wf_def ram_wf_def saved_ok_def saved_counters_def ram_of_def NvGetEnd_def)
  show "nv_inv t" if "nv_inv s" "nv_step s t" for s t
    using nv_step_good that by blast
qed

lemma nv_steps_floor: "nv_step\<^sup>*\<^sup>* s t \<Longrightarrow> nv_inv s \<Longrightarrow> counter_floor s h v \<Longrightarrow> counter_floor t h v"
proof (induction rule: rtranclp_induct)
  case (step y z)
  then show ?case
    using nv_step_good [OF step.hyps(2)] nvsys.steps_inv [OF step.hyps(1)] by blast
qed simp

end
