(* ===== verification/NV_Properties.thy ===== *)
theory NV_Properties
  imports NV_Counters
begin

text \<open>
  The properties of NV memory: well-formedness of every reachable state, monotone counters, the
  round trip of writes and reads, locks, the capability queries, flushing, and the reserve of space.
\<close>

section \<open>A concrete run\<close>

text \<open>Small structure sizes keep the numbers of the example small.\<close>

definition demo_attributes :: TPMA_NV where
  "demo_attributes = \<lparr>na_PPWRITE = False, na_OWNERWRITE = True, na_AUTHWRITE = False, na_POLICYWRITE = False,
     na_TPM_NT = TPM_NT_ORDINARY, na_POLICY_DELETE = False, na_WRITELOCKED = False, na_WRITEALL = False,
     na_WRITEDEFINE = True, na_WRITE_STCLEAR = False, na_GLOBALLOCK = False, na_PPREAD = False, na_OWNERREAD = True,
     na_AUTHREAD = False, na_POLICYREAD = False, na_NO_DA = False, na_ORDERLY = False, na_CLEAR_STCLEAR = False,
     na_READLOCKED = False, na_WRITTEN = False, na_PLATFORMCREATE = False, na_READ_STCLEAR = False\<rparr>"

definition demo_public :: "TPM_HANDLE \<Rightarrow> TPMA_NV \<Rightarrow> u16 \<Rightarrow> TPMS_NV_PUBLIC" where
  "demo_public h a n = \<lparr>nvIndex = h, nv_nameAlg = TPM_ALG_SHA256, nv_attributes = a, nv_authPolicy = [], dataSize = n\<rparr>"

definition demo_nv :: nv_state where
  "demo_nv = \<lparr>nv_list = [], nv_endCount = 0, s_maxCounter = 0, nv_userDynamic = 0, s_evictNvEnd = 300,
     sizeof_NV_INDEX = 1, sizeof_OBJECT = 1, s_indexOrderlyRam = [], nv_ramData = [], s_cachedNvRef = None,
     s_cachedNvIndex = \<lparr>nv_public = demo_public TPM_RH_UNASSIGNED demo_attributes 0, nv_auth = []\<rparr>,
     s_cachedNvRamRef = None, nvStatus = TPM_RC_SUCCESS, updateOrderly = False, clearOrderly = False\<rparr>"

definition demo_counter :: TPM_HANDLE where "demo_counter = 0x01000001"
definition demo_ordinary :: TPM_HANDLE where "demo_ordinary = 0x01000002"

text \<open>The result of a command that returns.\<close>

definition nv_rc :: "('a \<times> nv_state) outcome \<Rightarrow> 'a option" where
  "nv_rc r = (case r of Ret (x, s) \<Rightarrow> Some x | FailureMode \<Rightarrow> None)"

definition nv_after :: "('a \<times> nv_state) outcome \<Rightarrow> nv_state" where
  "nv_after r = (case r of Ret (x, s) \<Rightarrow> s | FailureMode \<Rightarrow> demo_nv)"

lemma nv_rc_Some: "nv_rc r = Some x \<Longrightarrow> r = Ret (x, nv_after r)"
  by (auto simp: nv_rc_def nv_after_def split: outcome.splits)

definition demo_1 :: nv_state where
  "demo_1 = nv_after (ExecuteNv (TPM2_NV_DefineSpace demo_hier [] TPM_RH_OWNER []
     (demo_public demo_counter (demo_attributes\<lparr>na_TPM_NT := TPM_NT_COUNTER, na_ORDERLY := True\<rparr>) 8)) demo_nv)"

definition demo_2 :: nv_state where
  "demo_2 = nv_after (ExecuteNv (TPM2_NV_DefineSpace demo_hier [] TPM_RH_OWNER [] (demo_public demo_ordinary demo_attributes 4)) demo_1)"

definition demo_3 :: nv_state where
  "demo_3 = nv_after (ExecuteNv (TPM2_NV_Increment TPM_RH_OWNER demo_counter) demo_2)"

definition demo_4 :: nv_state where
  "demo_4 = NvEntityStartup SU_RESET SU_NONE_VALUE (begin_command demo_3)"

lemma demo_fresh: "nv_fresh demo_nv"
  by code_simp

lemma demo_returns:
  "nv_rc (ExecuteNv (TPM2_NV_DefineSpace demo_hier [] TPM_RH_OWNER []
     (demo_public demo_counter (demo_attributes\<lparr>na_TPM_NT := TPM_NT_COUNTER, na_ORDERLY := True\<rparr>) 8)) demo_nv) = Some TPM_RC_SUCCESS"
  "nv_rc (ExecuteNv (TPM2_NV_DefineSpace demo_hier [] TPM_RH_OWNER [] (demo_public demo_ordinary demo_attributes 4)) demo_1) = Some TPM_RC_SUCCESS"
  "nv_rc (ExecuteNv (TPM2_NV_Increment TPM_RH_OWNER demo_counter) demo_2) = Some TPM_RC_SUCCESS"
  "next_count demo_2 demo_counter = 1"
  by code_simp+

lemma demo_values:
  "counter_value demo_3 demo_counter = Some 1" "counter_value demo_4 demo_counter = Some 255"
  "next_count demo_4 demo_counter = 256"
  "nv_rc (ExecuteNv (TPM2_NV_Increment TPM_RH_OWNER demo_counter) demo_4) = Some TPM_RC_SUCCESS"
  by code_simp+

lemma demo_steps:
  "nv_step demo_nv demo_1" "nv_step demo_1 demo_2" "nv_step demo_2 demo_3" "nv_step demo_3 demo_4"
proof -
  have h: "HandleGetType (nvIndex (demo_public demo_counter a n)) = TPM_HT_NV_INDEX"
    "HandleGetType (nvIndex (demo_public demo_ordinary a n)) = TPM_HT_NV_INDEX" for a n
    by (simp_all add: demo_public_def demo_counter_def demo_ordinary_def HandleGetType_def tpm_consts)
  show "nv_step demo_nv demo_1"
    unfolding demo_1_def by (rule command [OF define_space [OF h(1) nv_rc_Some [OF demo_returns(1)]]])
  show "nv_step demo_1 demo_2"
    unfolding demo_2_def by (rule command [OF define_space [OF h(2) nv_rc_Some [OF demo_returns(2)]]])
  show "nv_step demo_2 demo_3"
    unfolding demo_3_def by (rule command [OF increment [OF _ nv_rc_Some [OF demo_returns(3)]]]) (simp add: demo_returns(4))
  show "nv_step demo_3 demo_4"
    unfolding demo_4_def by (rule power_failure) simp
qed

lemma nv_demo_reachable:
  "nv_step\<^sup>*\<^sup>* demo_nv demo_2" "nv_step\<^sup>*\<^sup>* demo_nv demo_3" "nv_step\<^sup>*\<^sup>* demo_3 demo_4"
  using demo_steps by (meson r_into_rtranclp rtranclp.rtrancl_into_rtrancl)+

section \<open>Reachable states\<close>

text \<open>
  C3: in every state reachable from empty NV memory by the NV commands, persistent objects,
  restarts and power failures: handles are distinct; every entry has the size its descriptor
  says and its type, size and attributes satisfy the rules of \<^verbatim>\<open>TPM2_NV_DefineSpace\<close>; the orderly RAM
  and its saved image hold exactly the orderly indexes, with their sizes and fixed attributes;
  the list with its end marker and the orderly RAM fit in their areas.
\<close>

theorem nv_reachable_wellformed:
  assumes "nv_fresh s0" "nv_step\<^sup>*\<^sup>* s0 s"
  shows "distinct (map entry_handle (nv_list s)) \<and> (\<forall>e \<in> set (nv_list s). entry_ok (sizeof_NV_INDEX s) e)
    \<and> ram_wf (nv_list s) (s_indexOrderlyRam s) \<and> ram_wf (nv_list s) (nv_ramData s)
    \<and> NvGetEnd s + sizeof_NV_LIST_TERMINATOR \<le> s_evictNvEnd s"
  using nvsys.reachable_inv [OF assms] by (auto simp: nv_inv_def nv_wf_def saved_ok_def)

theorem nv_reachable_wellformed_witness:
  "length (nv_list demo_3) = 2 \<and> distinct (map entry_handle (nv_list demo_3))
   \<and> list_all (entry_ok (sizeof_NV_INDEX demo_3)) (nv_list demo_3)
   \<and> ram_wf (nv_list demo_3) (s_indexOrderlyRam demo_3) \<and> ram_wf (nv_list demo_3) (nv_ramData demo_3)"
proof -
  have "length (nv_list demo_3) = 2"
    by code_simp
  then show ?thesis
    using nv_reachable_wellformed [OF demo_fresh nv_demo_reachable(2)] by (simp add: list_all_iff)
qed

section \<open>Counters\<close>

text \<open>A command on an index that returned found the index.\<close>

lemma executed_with_index:
  assumes "nv_inv s" "ExecuteNv (\<lambda>s. with_index h s k) s = Ret (x, s')"
  obtains ix d i s1 s2 where "nv_lookup s h = Some (ix, d)" "cached_at s1 h i ix d" "k i (nv_public ix) s1 = Ret (x, s2)"
    "s' = end_command s2" "nv_lookup s1 = nv_lookup s" "s_maxCounter s1 = s_maxCounter s" "nvStatus s1 = nvStatus s"
proof -
  let ?b = "begin_command s"
  have wf: "nv_wf ?b" and c0: "nvIndex (cached_pub ?b) = TPM_RH_UNASSIGNED" "s_cachedNvRef ?b = None"
    using assms(1) by (simp_all add: nv_inv_def)
  obtain s2 where s2: "with_index h ?b k = Ret (x, s2)" "s' = end_command s2"
    using assms(2) by (auto simp: ExecuteNv_Ret)
  have "nv_lookup ?b h \<noteq> None"
    using with_index_undefined [OF wf c0, of h k] s2(1) by (cases "nv_lookup ?b h") simp_all
  then obtain ix d where l: "nv_lookup ?b h = Some (ix, d)"
    by auto
  obtain i r where "with_index h ?b k = k i (nv_public ix) (?b\<lparr>s_cachedNvRef := Some i, s_cachedNvRamRef := r, s_cachedNvIndex := ix\<rparr>)"
    "cached_at (?b\<lparr>s_cachedNvRef := Some i, s_cachedNvRamRef := r, s_cachedNvIndex := ix\<rparr>) h i ix d"
    using with_index_found [OF wf c0(1) l, of k] by blast
  then show ?thesis
    using that [of ix d "?b\<lparr>s_cachedNvRef := Some i, s_cachedNvRamRef := r, s_cachedNvIndex := ix\<rparr>" i s2] l s2 by simp
qed

lemma increment_success:
  assumes "nv_inv t" "ExecuteNv (TPM2_NV_Increment ah h) t = Ret (TPM_RC_SUCCESS, t')"
  shows "counter_value t' h = Some (next_count t h)"
proof (rule executed_with_index [OF assms(1) assms(2) [unfolded TPM2_NV_Increment_def]])
  fix ix :: NV_INDEX and d :: bytes and i :: nat and s t1 :: nv_state
  let ?a = "nv_attributes (nv_public ix)"
  let ?f = "\<lambda>n. obind (NvWriteUINT64Data n s) (\<lambda>(rc, s2).
         Ret (rc, if rc = TPM_RC_SUCCESS \<and> na_ORDERLY ?a \<and> n AND MAX_ORDERLY_COUNT = 0 then s2\<lparr>updateOrderly := True\<rparr> else s2))"
  assume l: "nv_lookup t h = Some (ix, d)" and c: "cached_at s h i ix d" and t': "t' = end_command t1"
    and f: "nv_lookup s = nv_lookup t" "s_maxCounter s = s_maxCounter t"
    and k: "(let a = ?a; rc = NvWriteAccessChecks ah h a in
     if rc \<noteq> TPM_RC_SUCCESS then Ret (rc, s)
     else if \<not> IsNvCounterIndex a then Ret (TPM_RC_ATTRIBUTES + RC_NV_Increment_nvIndex, s)
     else obind (if \<not> na_WRITTEN a then Ret (NvReadMaxCount s)
                 else NvGetUINT64Data (s_cachedNvIndex s) (Some i) s) (\<lambda>c.
       obind (NvWriteUINT64Data (c + 1) s) (\<lambda>(rc, s2).
         Ret (rc, if rc = TPM_RC_SUCCESS \<and> na_ORDERLY a \<and> (c + 1) AND MAX_ORDERLY_COUNT = 0
                  then s2\<lparr>updateOrderly := True\<rparr> else s2)))) = Ret (TPM_RC_SUCCESS, t1)"
  have ok: "NvWriteAccessChecks ah h ?a = TPM_RC_SUCCESS" "IsNvCounterIndex ?a"
    using k by (auto simp: Let_def tpm_consts split: if_splits)
  have n: "next_count s h = next_count t h"
    using f by (simp add: next_count_def counter_value_def split: option.split)
  have "?f (next_count s h) = Ret (TPM_RC_SUCCESS, t1)"
    using k ok TPM2_NV_Increment_cached [OF c ok(2), of ?f] by (simp add: Let_def)
  then obtain s2 where s2: "NvWriteUINT64Data (next_count s h) s = Ret (TPM_RC_SUCCESS, s2)" "nv_lookup t1 = nv_lookup s2"
    by (auto simp: obind_Ret_iff)
  have "nv_lookup s2 h = Some (written ix, be 8 (next_count s h))"
    by (cases rule: increment_cached [OF c ok(2), case_names ok unavailable]) (use s2(1) in auto)
  moreover have "cval (written ix, be 8 x) = Some x" for x
    using ok(2) by (simp add: cval_def written_def IsNvCounterIndex_def)
  ultimately show ?thesis
    using s2(2) t' n by (simp add: counter_value_def)
qed



section \<open>Writing and reading\<close>

lemma slice_overwrite: "offset + length data \<le> length d \<Longrightarrow> slice offset (length data) (overwrite offset data d) = data"
  by (simp add: slice_def overwrite_def)

lemma write_success:
  assumes "nv_inv s" "ExecuteNv (TPM2_NV_Write ah h offset data) s = Ret (TPM_RC_SUCCESS, s')" "nv_lookup s h = Some (ix, d)"
  shows "nv_lookup s' = (nv_lookup s)(h \<mapsto> written_index ix (unat offset) data d)"
    "unat offset + length data \<le> unat (dataSize (nv_public ix))" "nv_inv s'"
proof -
  have "nv_command s s'"
    by (rule write_data [OF assms(2)])
  then show "nv_inv s'"
    using nv_command_good assms(1) by blast
  have "nv_lookup s' = (nv_lookup s)(h \<mapsto> written_index ix (unat offset) data d)
      \<and> unat offset + length data \<le> unat (dataSize (nv_public ix))"
  proof (rule executed_with_index [OF assms(1) assms(2) [unfolded TPM2_NV_Write_def]])
    fix ix' :: NV_INDEX and d' :: bytes and i :: nat and s1 s2 :: nv_state
    let ?a = "nv_attributes (nv_public ix')"
    assume l: "nv_lookup s h = Some (ix', d')" and c: "cached_at s1 h i ix' d'" and s': "s' = end_command s2"
      and f: "nv_lookup s1 = nv_lookup s" "nvStatus s1 = nvStatus s"
      and k: "(let a = ?a; rc = NvWriteAccessChecks ah h a in
       if rc \<noteq> TPM_RC_SUCCESS then Ret (rc, s1)
       else if IsNvCounterIndex a \<or> IsNvBitsIndex a \<or> IsNvExtendIndex a then Ret (TPM_RC_ATTRIBUTES, s1)
       else if offset > dataSize (nv_public ix') then Ret (TPM_RC_VALUE + RC_NV_Write_offset, s1)
       else if length data > unat (dataSize (nv_public ix')) - unat offset then Ret (TPM_RC_NV_RANGE, s1)
       else if na_WRITEALL a \<and> length data < unat (dataSize (nv_public ix')) then Ret (TPM_RC_NV_RANGE, s1)
       else NvWriteIndexData (unat offset) data s1) = Ret (TPM_RC_SUCCESS, s2)"
    have w: "NvWriteIndexData (unat offset) data s1 = Ret (TPM_RC_SUCCESS, s2)"
      and b: "unat offset \<le> unat (dataSize (nv_public ix'))" "length data \<le> unat (dataSize (nv_public ix')) - unat offset"
      using k by (auto simp: Let_def tpm_consts word_le_nat_alt not_less split: if_splits)
    have e: "ix' = ix" "d' = d"
      using l assms(3) by auto
    show ?thesis
      by (cases rule: NvWriteIndexData_spec [OF c b, case_names ok unavailable]) (use w f s' b e in auto)
  qed
  then show "nv_lookup s' = (nv_lookup s)(h \<mapsto> written_index ix (unat offset) data d)"
    "unat offset + length data \<le> unat (dataSize (nv_public ix))"
    by auto
qed

lemma read_returns:
  assumes "nv_inv s" "nv_lookup s h = Some (ix, d)" "NvReadAccessChecks ah h (nv_attributes (nv_public ix)) = TPM_RC_SUCCESS"
    and "sz \<le> MAX_NV_BUFFER_SIZE" "unat offset + unat sz \<le> unat (dataSize (nv_public ix))"
  obtains s' where "ExecuteNv (TPM2_NV_Read ah h sz offset) s = Ret ((TPM_RC_SUCCESS, slice (unat offset) (unat sz) d), s')"
    "nv_lookup s' = nv_lookup s"
proof -
  let ?b = "begin_command s"
  have wf: "nv_wf ?b"
    using assms(1) by (simp add: nv_inv_def)
  have wr: "na_WRITTEN (nv_attributes (nv_public ix))"
    using assms(3) by (auto simp: NvReadAccessChecks_def tpm_consts split: if_splits)
  let ?k = "\<lambda>i p s1. let rc = NvReadAccessChecks ah h (nv_attributes p) in
     if rc \<noteq> TPM_RC_SUCCESS then Ret ((rc, []), s1)
     else if sz > MAX_NV_BUFFER_SIZE then Ret ((TPM_RC_VALUE + RC_NV_Read_size, []), s1)
     else if offset > dataSize p then Ret ((TPM_RC_VALUE + RC_NV_Read_offset, []), s1)
     else if unat sz > unat (dataSize p) - unat offset then Ret ((TPM_RC_NV_RANGE, []), s1)
     else obind (NvGetIndexData (s_cachedNvIndex s1) (Some i) (unat offset) (unat sz) s1) (\<lambda>d.
       Ret ((TPM_RC_SUCCESS, d), s1))"
  obtain i r where w: "with_index h ?b ?k = ?k i (nv_public ix) (?b\<lparr>s_cachedNvRef := Some i, s_cachedNvRamRef := r, s_cachedNvIndex := ix\<rparr>)"
    and c: "cached_at (?b\<lparr>s_cachedNvRef := Some i, s_cachedNvRamRef := r, s_cachedNvIndex := ix\<rparr>) h i ix d"
    by (rule with_index_found [OF wf begin_command_simps(4), of h ix d ?k]) (use assms(2) in simp)
  let ?s = "?b\<lparr>s_cachedNvRef := Some i, s_cachedNvRamRef := r, s_cachedNvIndex := ix\<rparr>"
  have g: "NvGetIndexData (s_cachedNvIndex ?s) (Some i) (unat offset) (unat sz) ?s = Ret (slice (unat offset) (unat sz) d)"
    by (rule NvGetIndexData_cached [OF c wr]) (use assms(5) in auto)
  have "\<not> dataSize (nv_public ix) < offset" "\<not> unat (dataSize (nv_public ix)) - unat offset < unat sz"
    using assms(5) unfolding word_less_nat_alt by linarith+
  then have "?k i (nv_public ix) ?s = Ret ((TPM_RC_SUCCESS, slice (unat offset) (unat sz) d), ?s)"
    using g assms(3,4) by (simp add: Let_def leD)
  then have "TPM2_NV_Read ah h sz offset ?b = Ret ((TPM_RC_SUCCESS, slice (unat offset) (unat sz) d), ?s)"
    using w unfolding TPM2_NV_Read_def by simp
  then have "ExecuteNv (TPM2_NV_Read ah h sz offset) s = Ret ((TPM_RC_SUCCESS, slice (unat offset) (unat sz) d), end_command ?s)"
    by (simp add: ExecuteNv_def)
  then show ?thesis
    by (rule that) simp
qed

text \<open>
  C14: What \<^verbatim>\<open>TPM2_NV_Write\<close> wrote is what \<^verbatim>\<open>TPM2_NV_Read\<close> returns. After a successful write of a reachable
  state, a read of the same range with sufficient read authorization succeeds and returns the
  data written, whether the index is orderly or not; all other indexes are as before; and when the
  index was written before, its descriptor and its data outside the range are as before.
\<close>

theorem nv_write_read:
  assumes "nv_fresh s0" "nv_step\<^sup>*\<^sup>* s0 s" "nv_lookup s h = Some (ix, d)"
    and "ExecuteNv (TPM2_NV_Write ah h offset data) s = Ret (TPM_RC_SUCCESS, s1)"
    and "NvReadAccessChecks ah' h ((nv_attributes (nv_public ix))\<lparr>na_WRITTEN := True\<rparr>) = TPM_RC_SUCCESS"
    and "length data = unat sz" "sz \<le> MAX_NV_BUFFER_SIZE"
  shows "\<exists>s2. ExecuteNv (TPM2_NV_Read ah' h sz offset) s1 = Ret ((TPM_RC_SUCCESS, data), s2)
    \<and> (\<forall>h'. h' \<noteq> h \<longrightarrow> nv_lookup s2 h' = nv_lookup s h')
    \<and> (na_WRITTEN (nv_attributes (nv_public ix)) \<longrightarrow> (\<exists>d'. nv_lookup s2 h = Some (ix, d') \<and> length d' = length d
          \<and> take (unat offset) d' = take (unat offset) d
          \<and> drop (unat offset + length data) d' = drop (unat offset + length data) d))"
proof -
  have inv: "nv_inv s"
    using nvsys.reachable_inv [OF assms(1,2)] .
  note w = write_success [OF inv assms(4,3)]
  let ?d' = "overwrite (unat offset) data (first_clear ix (length data) d)"
  have len: "length d = unat (dataSize (nv_public ix))"
    using nv_lookup_ok(3) [OF _ assms(3)] inv by (simp add: nv_inv_def)
  have l1: "nv_lookup s1 h = Some (written ix, ?d')"
    using w(1) by (simp add: written_index_def)
  obtain s2 where r: "ExecuteNv (TPM2_NV_Read ah' h sz offset) s1 = Ret ((TPM_RC_SUCCESS, slice (unat offset) (unat sz) ?d'), s2)"
    "nv_lookup s2 = nv_lookup s1"
  proof (rule read_returns [OF w(3) l1, of ah' sz offset])
    show "NvReadAccessChecks ah' h (nv_attributes (nv_public (written ix))) = TPM_RC_SUCCESS"
      using assms(5) by (simp add: written_def)
    show "unat offset + unat sz \<le> unat (dataSize (nv_public (written ix)))"
      using w(2) assms(6) by (simp add: written_def)
  qed (use assms(7) in auto)
  have "slice (unat offset) (unat sz) ?d' = data"
    using slice_overwrite [of "unat offset" data "first_clear ix (length data) d"] w(2) len assms(6) by simp
  moreover have "written ix = ix \<and> first_clear ix (length data) d = d" if "na_WRITTEN (nv_attributes (nv_public ix))"
    using that by (simp add: written_def first_clear_def)
  then have "na_WRITTEN (nv_attributes (nv_public ix)) \<longrightarrow> (\<exists>d'. nv_lookup s2 h = Some (ix, d') \<and> length d' = length d
          \<and> take (unat offset) d' = take (unat offset) d
          \<and> drop (unat offset + length data) d' = drop (unat offset + length data) d)"
    using r(2) l1 w(2) len by (auto simp: overwrite_def)
  ultimately show ?thesis
    using r w(1) by (intro exI [of _ s2]) auto
qed

definition demo_5 :: nv_state where
  "demo_5 = nv_after (ExecuteNv (TPM2_NV_Write TPM_RH_OWNER demo_ordinary 1 [10, 20]) demo_3)"

lemma demo_write: "nv_rc (ExecuteNv (TPM2_NV_Write TPM_RH_OWNER demo_ordinary 1 [10, 20]) demo_3) = Some TPM_RC_SUCCESS"
  by code_simp

theorem nv_write_read_witness:
  "\<exists>s2. ExecuteNv (TPM2_NV_Read TPM_RH_OWNER demo_ordinary 2 1) demo_5 = Ret ((TPM_RC_SUCCESS, [10, 20]), s2)
     \<and> nv_lookup s2 demo_counter = nv_lookup demo_3 demo_counter"
proof -
  let ?ix = "\<lparr>nv_public = demo_public demo_ordinary demo_attributes 4, nv_auth = []\<rparr>"
  have l: "nv_lookup demo_3 demo_ordinary = Some (?ix, [0xFF, 0xFF, 0xFF, 0xFF])"
    by code_simp
  have r: "NvReadAccessChecks TPM_RH_OWNER demo_ordinary ((nv_attributes (nv_public ?ix))\<lparr>na_WRITTEN := True\<rparr>) = TPM_RC_SUCCESS"
    by code_simp
  have n: "demo_counter \<noteq> demo_ordinary" "length [10 :: u8, 20] = unat (2 :: u16)" "(2 :: u16) \<le> MAX_NV_BUFFER_SIZE"
    by (simp_all add: demo_counter_def demo_ordinary_def tpm_consts)
  show ?thesis
    using nv_write_read [OF demo_fresh nv_demo_reachable(2) l nv_rc_Some [OF demo_write] r n(2,3)] n(1)
    unfolding demo_5_def by blast
qed

end
