(* ===== verification/NV_Locks.thy ===== *)
theory NV_Locks
  imports NV_Properties
begin

text \<open>
  Write locks. A write-locked index can be deleted, but until it is, and until the next startup, no
  NV command changes its data or releases the lock.
\<close>

section \<open>One command\<close>

lemma end_command_lookup: "nv_lookup (end_command s) = nv_lookup s"
  by simp

lemma lock_kept_unlocked:
  assumes "nv_lookup s h' = Some (ix, d)" "\<not> na_WRITELOCKED (nv_attributes (nv_public ix))"
    and "\<And>x. x \<noteq> h' \<Longrightarrow> nv_lookup s' x = nv_lookup s x"
  shows "lock_kept h s s'"
  using assms by (cases "h = h'") (auto simp: lock_kept_def)

lemma write_unlocked:
  assumes "cached_at s h' i ix d" "NvWriteAccessChecks ah h' (nv_attributes (nv_public ix)) = TPM_RC_SUCCESS"
    and "NvWriteIndexData offset data s = Ret (rc, s')"
  shows "lock_kept h s s'"
proof (rule lock_kept_unlocked)
  show "nv_lookup s h' = Some (ix, d)"
    using assms(1) by (simp add: cached_at_def)
  show "\<not> na_WRITELOCKED (nv_attributes (nv_public ix))"
    using assms(2) by (auto simp: NvWriteAccessChecks_def tpm_consts)
  fix x assume x: "x \<noteq> h'"
  have b: "offset \<le> unat (dataSize (nv_public ix))" "length data \<le> unat (dataSize (nv_public ix)) - offset"
    using assms(1,3) by (auto simp: NvWriteIndexData_def cached_at_def)
  show "nv_lookup s' x = nv_lookup s x"
    by (cases rule: NvWriteIndexData_spec [OF assms(1) b, case_names ok unavailable]) (use assms(3) x in auto)
qed

lemma attributes_locked:
  assumes "cached_at s h' i ix d" "a = (nv_attributes (nv_public ix))\<lparr>na_WRITELOCKED := True\<rparr>
      \<or> a = (nv_attributes (nv_public ix))\<lparr>na_READLOCKED := True\<rparr>"
    and "NvWriteIndexAttributes h' i a s = Ret (rc, s')"
  shows "lock_kept h s s'"
proof -
  have f: "fixed_attributes a = fixed_attributes (nv_attributes (nv_public ix))"
    using assms(2) by auto
  have l: "nv_lookup s h' = Some (ix, d)"
    using assms(1) by (simp add: cached_at_def)
  show ?thesis
  proof (cases rule: NvWriteIndexAttributes_spec [OF assms(1) f, case_names ok unavailable])
    case (ok t)
    then show ?thesis
      using lock_kept_update [OF l, of s' "set_attributes a ix" h] assms(2,3) by auto
  qed (use assms(3) lock_kept_same in auto)
qed

lemma auth_locked:
  assumes "cached_at s h' i ix d" "NvWriteIndexAuth (Some i) auth s = Ret (rc, s')"
  shows "lock_kept h s s'"
proof -
  have l: "nv_lookup s h' = Some (ix, d)"
    using assms(1) by (simp add: cached_at_def)
  show ?thesis
  proof (cases rule: NvWriteIndexAuth_spec [OF assms(1), of auth, case_names ok unavailable])
    case (ok t)
    then show ?thesis
      using lock_kept_update [OF l, of s' "ix\<lparr>nv_auth := auth\<rparr>" h] assms(2) by auto
  qed (use assms(2) lock_kept_same in auto)
qed

lemma delete_locked:
  assumes "cached_at s h' i ix d" "NvDeleteIndex (s_cachedNvIndex s) (Some i) s = Ret (rc, s')" "nv_lookup s' h \<noteq> None"
  shows "lock_kept h s s'"
proof (rule lock_kept_same, cases rule: NvDeleteIndex_spec [OF assms(1), case_names unavailable ok])
  case (ok t)
  then show "nv_lookup s' h = nv_lookup s h"
    using assms(2,3) by (auto split: if_splits)
qed (use assms(2) in auto)

text \<open>A command that accesses an index; \<open>h\<close> is the locked index, \<open>h'\<close> the one that is accessed.\<close>

lemma indexed_locked:
  assumes "nv_inv s" "ExecuteNv (\<lambda>s. with_index h' s k) s = Ret (x, s')" "nv_lookup s' h \<noteq> None"
    and "\<And>ix d i s1 s2. cached_at s1 h' i ix d \<Longrightarrow> k i (nv_public ix) s1 = Ret (x, s2) \<Longrightarrow> nv_lookup s2 h \<noteq> None
           \<Longrightarrow> lock_kept h s1 s2"
  shows "lock_kept h s s'"
proof (rule executed_with_index [OF assms(1,2)])
  fix ix :: NV_INDEX and d :: bytes and i :: nat and s1 s2 :: nv_state
  assume c: "cached_at s1 h' i ix d" "k i (nv_public ix) s1 = Ret (x, s2)" "s' = end_command s2" "nv_lookup s1 = nv_lookup s"
  have "nv_lookup s2 h \<noteq> None"
    using assms(3) c(3) by simp
  then have "lock_kept h s1 s2"
    using assms(4) c(1,2) by blast
  then show ?thesis
    using c(3,4) by (simp add: lock_kept_def)
qed

lemma cached_handle: "cached_at s h i ix d \<Longrightarrow> nvIndex (nv_public ix) = h"
  using nv_lookup_ok(1) [of s h ix d] by (simp add: cached_at_def)

lemma command_locked:
  assumes "nv_inv s" "nv_lookup s' h \<noteq> None"
  shows "ExecuteNv (TPM2_NV_Write ah h' offset data) s = Ret (rc, s') \<Longrightarrow> lock_kept h s s'"
    and "ExecuteNv (TPM2_NV_Increment ah h') s = Ret (rc, s') \<Longrightarrow> lock_kept h s s'"
    and "ExecuteNv (TPM2_NV_SetBits ah h' bits) s = Ret (rc, s') \<Longrightarrow> lock_kept h s s'"
    and "ExecuteNv (TPM2_NV_Extend hashf ah h' data) s = Ret (rc, s') \<Longrightarrow> lock_kept h s s'"
    and "ExecuteNv (TPM2_NV_WriteLock ah h') s = Ret (rc, s') \<Longrightarrow> lock_kept h s s'"
    and "ExecuteNv (TPM2_NV_ReadLock ah h') s = Ret (rc, s') \<Longrightarrow> lock_kept h s s'"
    and "ExecuteNv (TPM2_NV_ChangeAuth h' auth) s = Ret (rc, s') \<Longrightarrow> lock_kept h s s'"
    and "ExecuteNv (TPM2_NV_UndefineSpace ah h') s = Ret (rc, s') \<Longrightarrow> lock_kept h s s'"
    and "ExecuteNv (TPM2_NV_UndefineSpaceSpecial h' assoc) s = Ret (y, s') \<Longrightarrow> lock_kept h s s'"
    and "ExecuteNv (TPM2_NV_Read ah h' sz offset) s = Ret (x, s') \<Longrightarrow> lock_kept h s s'"
    and "ExecuteNv (TPM2_NV_ReadPublic hashf h') s = Ret (z, s') \<Longrightarrow> lock_kept h s s'"
proof -
  note il = indexed_locked [OF assms(1) _ assms(2)]
  show "lock_kept h s s'" if c: "ExecuteNv (TPM2_NV_Write ah h' offset data) s = Ret (rc, s')"
    by (rule il [OF c [unfolded TPM2_NV_Write_def]])
      (auto simp: Let_def split: if_splits intro: lock_kept_same write_unlocked)
  show "lock_kept h s s'" if c: "ExecuteNv (TPM2_NV_Increment ah h') s = Ret (rc, s')"
  proof (rule il [OF c [unfolded TPM2_NV_Increment_def]])
    fix ix :: NV_INDEX and d :: bytes and i :: nat and s1 s2 :: nv_state
    let ?a = "nv_attributes (nv_public ix)"
    assume l: "cached_at s1 h' i ix d"
      and k: "(let a = ?a; rc = NvWriteAccessChecks ah h' a in
       if rc \<noteq> TPM_RC_SUCCESS then Ret (rc, s1)
       else if \<not> IsNvCounterIndex a then Ret (TPM_RC_ATTRIBUTES + RC_NV_Increment_nvIndex, s1)
       else obind (if \<not> na_WRITTEN a then Ret (NvReadMaxCount s1)
                   else NvGetUINT64Data (s_cachedNvIndex s1) (Some i) s1) (\<lambda>c.
         obind (NvWriteUINT64Data (c + 1) s1) (\<lambda>(rc, s2).
           Ret (rc, if rc = TPM_RC_SUCCESS \<and> na_ORDERLY a \<and> (c + 1) AND MAX_ORDERLY_COUNT = 0
                    then s2\<lparr>updateOrderly := True\<rparr> else s2)))) = Ret (rc, s2)"
    consider "s2 = s1" | n t where "NvWriteAccessChecks ah h' ?a = TPM_RC_SUCCESS" "NvWriteIndexData 0 (be 8 (n :: u64)) s1 = Ret (rc, t)"
      "nv_lookup s2 = nv_lookup t"
      using k by (auto simp: Let_def obind_Ret_iff NvWriteUINT64Data_def split: if_splits)
    then show "lock_kept h s1 s2"
    proof cases
      case 2
      then have "lock_kept h s1 t"
        using write_unlocked [OF l] by blast
      then show ?thesis
        using 2(3) by (simp add: lock_kept_def)
    qed (simp add: lock_kept_same)
  qed
  show "lock_kept h s s'" if c: "ExecuteNv (TPM2_NV_SetBits ah h' bits) s = Ret (rc, s')"
    by (rule il [OF c [unfolded TPM2_NV_SetBits_def]])
      (auto simp: Let_def obind_Ret_iff NvWriteUINT64Data_def split: if_splits intro: lock_kept_same write_unlocked)
  show "lock_kept h s s'" if c: "ExecuteNv (TPM2_NV_Extend hashf ah h' data) s = Ret (rc, s')"
    by (rule il [OF c [unfolded TPM2_NV_Extend_def]])
      (auto simp: Let_def obind_Ret_iff split: if_splits intro: lock_kept_same write_unlocked)
  show "lock_kept h s s'" if c: "ExecuteNv (TPM2_NV_WriteLock ah h') s = Ret (rc, s')"
    by (rule il [OF c [unfolded TPM2_NV_WriteLock_def]])
      (auto simp: Let_def cached_handle split: if_splits intro: lock_kept_same attributes_locked)
  show "lock_kept h s s'" if c: "ExecuteNv (TPM2_NV_ReadLock ah h') s = Ret (rc, s')"
    by (rule il [OF c [unfolded TPM2_NV_ReadLock_def]])
      (auto simp: Let_def cached_handle split: if_splits intro: lock_kept_same attributes_locked)
  show "lock_kept h s s'" if c: "ExecuteNv (TPM2_NV_ChangeAuth h' auth) s = Ret (rc, s')"
    by (rule il [OF c [unfolded TPM2_NV_ChangeAuth_def]])
      (auto simp: Let_def split: if_splits intro: lock_kept_same auth_locked)
  show "lock_kept h s s'" if c: "ExecuteNv (TPM2_NV_UndefineSpace ah h') s = Ret (rc, s')"
    by (rule il [OF c [unfolded TPM2_NV_UndefineSpace_def]])
      (auto split: if_splits intro: lock_kept_same delete_locked)
  show "lock_kept h s s'" if c: "ExecuteNv (TPM2_NV_UndefineSpaceSpecial h' assoc) s = Ret (y, s')"
    by (rule il [OF c [unfolded TPM2_NV_UndefineSpaceSpecial_def]])
      (auto simp: obind_Ret_iff split: if_splits intro: lock_kept_same delete_locked)
  show "lock_kept h s s'" if c: "ExecuteNv (TPM2_NV_Read ah h' sz offset) s = Ret (x, s')"
    by (rule il [OF c [unfolded TPM2_NV_Read_def]])
      (auto simp: Let_def obind_Ret_iff split: if_splits intro: lock_kept_same)
  show "lock_kept h s s'" if c: "ExecuteNv (TPM2_NV_ReadPublic hashf h') s = Ret (z, s')"
    by (rule il [OF c [unfolded TPM2_NV_ReadPublic_def]]) (auto intro: lock_kept_same)
qed

lemma executed_locked:
  assumes "nv_inv s" "ExecuteNv cmd s = Ret (x, s')"
    and "\<And>s1. nv_mid (begin_command s) \<Longrightarrow> cmd (begin_command s) = Ret (x, s1) \<Longrightarrow> lock_kept h (begin_command s) s1"
  shows "lock_kept h s s'"
proof -
  obtain s1 where s1: "cmd (begin_command s) = Ret (x, s1)" "s' = end_command s1"
    using assms(2) by (auto simp: ExecuteNv_Ret)
  then show ?thesis
    using assms(3) [OF begin_command_mid [OF assms(1)]] by (simp add: lock_kept_def)
qed

lemma evict_locked:
  assumes "nv_mid s"
  shows "NvFindHandle s eh = None \<Longrightarrow> HandleGetType eh = TPM_HT_PERSISTENT \<Longrightarrow>
      NvAddEvictObject eh blob s = Ret (rc, s') \<Longrightarrow> lock_kept h s s'"
    and "HandleGetType eh = TPM_HT_PERSISTENT \<Longrightarrow> NvDeleteEvict eh s = Ret (rc, s') \<Longrightarrow> lock_kept h s s'"
proof -
  have wf: "nv_wf s"
    using assms by (simp add: nv_mid_def)
  show "lock_kept h s s'" if "NvFindHandle s eh = None" "HandleGetType eh = TPM_HT_PERSISTENT" "NvAddEvictObject eh blob s = Ret (rc, s')"
    using NvAddEvictObject_spec [OF wf that] lock_kept_same by metis
  show "lock_kept h s s'" if "HandleGetType eh = TPM_HT_PERSISTENT" "NvDeleteEvict eh s = Ret (rc, s')"
    using NvDeleteEvict_spec [OF wf that] lock_kept_same by metis
qed

lemma define_locked:
  assumes "nv_mid s" "HandleGetType (nvIndex p) = TPM_HT_NV_INDEX" "TPM2_NV_DefineSpace hs mem ah auth p s = Ret (rc, s')"
  shows "lock_kept h s s'"
proof (cases "s' = s")
  case True
  then show ?thesis
    by (simp add: lock_kept_same)
next
  case False
  note ok = define_command_accepts [OF assms(2,3) this]
  have wf: "nv_wf s"
    using assms(1) by (simp add: nv_mid_def)
  show ?thesis
  proof (cases rule: NvDefineIndex_spec [OF wf ok(2,1), where mem = mem and auth = "MemoryRemoveTrailingZeros auth",
        case_names space unavailable ok])
    case (ok t)
    then show ?thesis
      using \<open>NvDefineIndex _ _ _ s = Ret (rc, s')\<close> nv_lookup_undefined [OF \<open>entry_of s (nvIndex p) = None\<close>]
      by (cases "h = nvIndex p") (simp_all add: lock_kept_def)
  qed (use ok(4) False in simp_all)
qed

lemma nv_command_locked:
  assumes "nv_command s s'" "nv_inv s" "nv_lookup s' h \<noteq> None"
  shows "lock_kept h s s'"
  using assms
proof (cases rule: nv_command.cases)
  case (availability st)
  have "nv_lookup s' = nv_lookup s"
    by (simp add: availability nv_lookup_def entry_of_def ram_of_def fun_eq_iff)
  then show ?thesis
    by (simp add: lock_kept_same)
next
  case (global_lock rc)
  show ?thesis
    by (rule executed_locked [OF assms(2) global_lock])
      (auto simp: TPM2_NV_GlobalWriteLock_def intro: global_lock_good(2))
next
  case (define_space p hs mem ah auth rc)
  show ?thesis
    by (rule executed_locked [OF assms(2) define_space(2)]) (rule define_locked [OF _ define_space(1)])
next
  case (add_evict eh blob rc)
  show ?thesis
    by (rule executed_locked [OF assms(2) add_evict(3)]) (rule evict_locked(1); use add_evict(1,2) in simp)
next
  case (delete_evict eh rc)
  show ?thesis
    by (rule executed_locked [OF assms(2) delete_evict(2)]) (rule evict_locked(2) [OF _ delete_evict(1)])
qed (erule command_locked [OF assms(2,3)])+

section \<open>Runs\<close>


definition demo_locked :: nv_state where
  "demo_locked = nv_after (ExecuteNv (TPM2_NV_WriteLock TPM_RH_OWNER demo_ordinary) demo_3)"

definition demo_refused :: nv_state where
  "demo_refused = nv_after (ExecuteNv (TPM2_NV_Write TPM_RH_OWNER demo_ordinary 0 [1, 2, 3, 4]) demo_locked)"

lemma demo_lock_returns:
  "nv_rc (ExecuteNv (TPM2_NV_WriteLock TPM_RH_OWNER demo_ordinary) demo_3) = Some TPM_RC_SUCCESS"
  "nv_rc (ExecuteNv (TPM2_NV_Write TPM_RH_OWNER demo_ordinary 0 [1, 2, 3, 4]) demo_locked) = Some TPM_RC_NV_LOCKED"
  by code_simp+

lemma demo_lock_lookup:
  "nv_lookup demo_locked demo_ordinary = Some (\<lparr>nv_public = demo_public demo_ordinary (demo_attributes\<lparr>na_WRITELOCKED := True\<rparr>) 4,
      nv_auth = []\<rparr>, [0xFF, 0xFF, 0xFF, 0xFF])"
  "nv_lookup demo_refused demo_ordinary \<noteq> None"
  by code_simp+


end
