(* ===== verification/NV_Flush.thy ===== *)
theory NV_Flush
  imports NV_Locks
begin

text \<open>
  Flushing a hierarchy (\<^verbatim>\<open>NvFlushHierarchy\<close>, the NV part of \<^verbatim>\<open>TPM2_Clear\<close>): it terminates, succeeds when NV
  memory is available and removes exactly the entries that its own tests select. What these tests read
  differs from what is stored in two cases, stated at the end.
\<close>

section \<open>The stored form of an object\<close>

definition ANY_OBJECT_MAGIC :: u32 where [tpm_consts]: "ANY_OBJECT_MAGIC = 0xFE9A3974"
definition ANY_OBJECT_VERSION :: u16 where [tpm_consts]: "ANY_OBJECT_VERSION = 2"

definition NV_HEADER_Marshal :: "u16 \<Rightarrow> u32 \<Rightarrow> u16 \<Rightarrow> bytes" where
  "NV_HEADER_Marshal version magic min_version =
     be 2 version @ be 4 magic @ (if version \<ge> 2 then be 2 min_version else [])"

text \<open>\<open>body\<close> is the marshaled object or sequence object with the skip block behind it.\<close>

definition ANY_OBJECT_Marshal :: "u32 \<Rightarrow> bytes \<Rightarrow> bytes" where
  "ANY_OBJECT_Marshal attrs body = NV_HEADER_Marshal ANY_OBJECT_VERSION ANY_OBJECT_MAGIC 1 @ be 4 attrs @ body"

text \<open>
  \<open>raw\<close> is the image of the structure \<^verbatim>\<open>RSA3072_OBJECT\<close>, which begins with the attributes in memory order.
\<close>

definition NvObjectToBuffer :: "nat \<Rightarrow> TPM_ALG_ID \<Rightarrow> nat \<Rightarrow> u32 \<Rightarrow> bytes \<Rightarrow> bytes \<Rightarrow> bytes outcome" where
  "NvObjectToBuffer stateFormatLevel type keyBits attrs body raw =
     (let marshal = (\<lambda>b. Ret (if b then ANY_OBJECT_Marshal attrs body else raw)) in
      if type = TPM_ALG_RSA then marshal (stateFormatLevel \<ge> 2 \<or> keyBits > 3072)
      else if type = TPM_ALG_ECC \<or> type = TPM_ALG_KEYEDHASH \<or> type = TPM_ALG_SYMCIPHER
      then marshal (stateFormatLevel \<ge> 2)
      else if type = TPM_ALG_MLDSA \<or> type = TPM_ALG_HASH_MLDSA \<or> type = TPM_ALG_MLKEM then marshal True
      else FailureMode)"

section \<open>The entries that go\<close>

fun doomed :: "TPM_HANDLE \<Rightarrow> nv_entry \<Rightarrow> bool" where
  "doomed hier (IndexEntry n ix d) \<longleftrightarrow> hier \<noteq> TPM_RH_ENDORSEMENT \<and> hier \<noteq> TPM_RH_PLATFORM
     \<and> \<not> na_PLATFORMCREATE (nv_attributes (nv_public ix))"
| "doomed hier (EvictEntry n h b) \<longleftrightarrow> flush_object hier b"

lemma filter_remove_at:
  "i < length xs \<Longrightarrow> \<not> P (xs ! i) \<Longrightarrow> filter P (remove_at i xs) = filter P xs"
  unfolding remove_at_def by (metis filter.simps(2) filter_append id_take_nth_drop)

lemma note_deleted_counter_stored:
  assumes "nv_wf s" "i < length (nv_list s)" "nv_list s ! i = IndexEntry n ix d"
  shows "\<exists>m. note_deleted_counter ix (Some i) s = Ret (s\<lparr>s_maxCounter := m\<rparr>)"
proof -
  have ok: "entry_ok (sizeof_NV_INDEX s) (IndexEntry n ix d)"
    using nv_wfD(3) [OF assms(1) nth_mem [OF assms(2)]] assms(3) by simp
  have e: "entry_of s (nvIndex (nv_public ix)) = Some (IndexEntry n ix d)"
    using entry_of_nth [OF assms(1,2)] assms(3) by simp
  show ?thesis
  proof (cases "IsNvCounterIndex (nv_attributes (nv_public ix)) \<and> na_WRITTEN (nv_attributes (nv_public ix))")
    case True
    then have sz: "dataSize (nv_public ix) = 8"
      using ok counter_size by (auto simp: IsNvCounterIndex_def)
    have "\<exists>b. NvGetIndexData ix (Some i) 0 8 s = Ret b"
    proof (cases "na_ORDERLY (nv_attributes (nv_public ix))")
      case True
      then obtain r where r: "ram_of s (nvIndex (nv_public ix)) = Some r" "ram_matches (IndexEntry n ix d) r"
        using ram_wf_orderly [OF nv_wfD(4) [OF assms(1)], of "nvIndex (nv_public ix)" "IndexEntry n ix d"] e
        by (auto simp: entry_of_def ram_of_def)
      then obtain k where k: "NvRamGetIndex s (nvIndex (nv_public ix)) = Some k"
        using NvRamGetIndex_None_iff [of s "nvIndex (nv_public ix)"] by fastforce
      then have "s_indexOrderlyRam s ! k = r"
        using NvRamGetIndex_SomeD [OF k] kmap_nth [OF nv_wfD(2) [OF assms(1)], of k] r(1) by (simp add: ram_of_def)
      then show ?thesis
        using True k r(2) sz \<open>IsNvCounterIndex _ \<and> na_WRITTEN _\<close> by (simp add: NvGetIndexData_def Let_def)
    next
      case False
      then show ?thesis
        using sz \<open>IsNvCounterIndex _ \<and> na_WRITTEN _\<close> by (simp add: NvGetIndexData_def Let_def)
    qed
    then obtain b where b: "NvGetIndexData ix (Some i) 0 8 s = Ret b" ..
    have "NvUpdateMaxCount c s = s\<lparr>s_maxCounter := max c (s_maxCounter s)\<rparr>" for c
      by (cases s) (auto simp: NvUpdateMaxCount_def max_def)
    then show ?thesis
      using True b by (auto simp: note_deleted_counter_def NvGetUINT64Data_def)
  next
    case False
    have "note_deleted_counter ix (Some i) s = Ret (s\<lparr>s_maxCounter := s_maxCounter s\<rparr>)"
      using False by (cases s) (auto simp: note_deleted_counter_def)
    then show ?thesis ..
  qed
qed

lemma flush_delete_index:
  assumes "nv_wf s" "nvStatus s = TPM_RC_SUCCESS" "i < length (nv_list s)" "nv_list s ! i = IndexEntry n ix d"
  obtains s' where "NvDeleteIndex ix (Some i) s = Ret (TPM_RC_SUCCESS, s')" "nv_wf s'" "nvStatus s' = TPM_RC_SUCCESS"
    "nv_list s' = remove_at i (nv_list s)"
proof -
  obtain m where m: "note_deleted_counter ix (Some i) s = Ret (s\<lparr>s_maxCounter := m\<rparr>)"
    using note_deleted_counter_stored [OF assms(1,3,4)] ..
  let ?s1 = "s\<lparr>s_maxCounter := m\<rparr>"
  let ?s2 = "?s1\<lparr>nv_endCount := m, nv_list := remove_at i (nv_list s)\<rparr>"
  have room: "NvGetEnd ?s1 + sizeof_NV_LIST_TERMINATOR \<le> s_evictNvEnd ?s1"
    using nv_wfD(5) [OF assms(1)] by (simp add: NvGetEnd_def)
  have del: "NvDelete i ?s1 = Ret (TPM_RC_SUCCESS, ?s2)"
    using NvDelete_available [OF _ room] assms(2) by simp
  show ?thesis
  proof (cases "na_ORDERLY (nv_attributes (nv_public ix))")
    case True
    have e: "entry_of s (nvIndex (nv_public ix)) = Some (IndexEntry n ix d)"
      using entry_of_nth [OF assms(1,3)] assms(4) by simp
    obtain k where k: "NvRamGetIndex s (nvIndex (nv_public ix)) = Some k"
      using ram_wf_orderly [OF nv_wfD(4) [OF assms(1)], of "nvIndex (nv_public ix)" "IndexEntry n ix d"] e True
        NvRamGetIndex_None_iff [of s "nvIndex (nv_public ix)"] by (fastforce simp: entry_of_def ram_of_def)
    let ?s3 = "NvIndexCacheInit (?s2\<lparr>s_indexOrderlyRam := remove_at k (s_indexOrderlyRam s), updateOrderly := True\<rparr>)"
    have "NvRamGetIndex ?s2 (nvIndex (nv_public ix)) = Some k"
      using k by (simp add: NvRamGetIndex_def)
    then have "NvDeleteIndex ix (Some i) s = Ret (TPM_RC_SUCCESS, ?s3)"
      using m del True by (simp add: NvDeleteIndex_def NvDeleteRAM_def)
    moreover have "nv_wf ?s3"
      by (rule nv_wf_remove [OF assms(1,3)])
        (use ram_wf_remove_both [OF nv_wfD(4) [OF assms(1)] nv_wfD(1) [OF assms(1)] assms(3), of k] NvRamGetIndex_SomeD [OF k] assms(4)
         in \<open>simp_all add: NvIndexCacheInit_def nv_consts_def\<close>)
    ultimately show ?thesis
      using that [of ?s3] assms(2) by (simp add: NvIndexCacheInit_def)
  next
    case False
    have "NvDeleteIndex ix (Some i) s = Ret (TPM_RC_SUCCESS, NvIndexCacheInit ?s2)"
      using m del False by (simp add: NvDeleteIndex_def)
    moreover have "nv_wf (NvIndexCacheInit ?s2)"
      by (rule nv_wf_remove [OF assms(1,3)])
        (use ram_wf_remove_entry [OF nv_wfD(4) [OF assms(1)] nv_wfD(1) [OF assms(1)] assms(3)] False assms(4)
         in \<open>simp_all add: NvIndexCacheInit_def nv_consts_def\<close>)
    ultimately show ?thesis
      using that [of "NvIndexCacheInit ?s2"] assms(2) by (simp add: NvIndexCacheInit_def)
  qed
qed

lemma flush_delete_object:
  assumes "nv_wf s" "nvStatus s = TPM_RC_SUCCESS" "i < length (nv_list s)" "nv_list s ! i = EvictEntry n h b"
  obtains s' where "NvDelete i s = Ret (TPM_RC_SUCCESS, s')" "nv_wf s'" "nvStatus s' = TPM_RC_SUCCESS"
    "nv_list s' = remove_at i (nv_list s)"
proof -
  let ?s = "s\<lparr>nv_endCount := s_maxCounter s, nv_list := remove_at i (nv_list s)\<rparr>"
  have "NvDelete i s = Ret (TPM_RC_SUCCESS, ?s)"
    by (rule NvDelete_available [OF assms(2) nv_wfD(5) [OF assms(1)]])
  moreover have "nv_wf ?s"
    by (rule nv_wf_remove [OF assms(1,3)])
      (use ram_wf_remove_entry [OF nv_wfD(4) [OF assms(1)] nv_wfD(1) [OF assms(1)] assms(3)] assms(4) in \<open>simp_all add: nv_consts_def\<close>)
  ultimately show ?thesis
    using that assms(2) by simp
qed

section \<open>The loop\<close>

lemma flush_skip:
  assumes "nv_wf s" "iter < length (nv_list s)" "\<not> doomed hier (nv_list s ! iter)"
  shows "NvFlushHierarchy_loop hier iter s = NvFlushHierarchy_loop hier (Suc iter) s"
proof -
  have ok: "entry_ok (sizeof_NV_INDEX s) (nv_list s ! iter)"
    using nv_wfD(3) [OF assms(1) nth_mem [OF assms(2)]] .
  show ?thesis
  proof (cases "nv_list s ! iter")
    case (IndexEntry n ix d)
    then show ?thesis
      using assms(2,3) ok by (subst NvFlushHierarchy_loop.simps) (auto simp: Let_def public_ok_def)
  next
    case (EvictEntry n h b)
    moreover have "TPM_HT_PERSISTENT \<noteq> TPM_HT_NV_INDEX"
      by (simp add: tpm_consts)
    ultimately show ?thesis
      using assms(2,3) ok by (subst NvFlushHierarchy_loop.simps) (simp add: Let_def)
  qed
qed

lemma flush_remove:
  assumes "nv_wf s" "nvStatus s = TPM_RC_SUCCESS" "iter < length (nv_list s)" "doomed hier (nv_list s ! iter)"
  obtains s' where "NvFlushHierarchy_loop hier iter s = NvFlushHierarchy_loop hier 0 s'" "nv_wf s'" "nvStatus s' = TPM_RC_SUCCESS"
    "nv_list s' = remove_at iter (nv_list s)"
proof -
  have ok: "entry_ok (sizeof_NV_INDEX s) (nv_list s ! iter)"
    using nv_wfD(3) [OF assms(1) nth_mem [OF assms(3)]] .
  show ?thesis
  proof (cases "nv_list s ! iter")
    case (IndexEntry n ix d)
    obtain s' where s': "NvDeleteIndex ix (Some iter) s = Ret (TPM_RC_SUCCESS, s')" "nv_wf s'" "nvStatus s' = TPM_RC_SUCCESS"
      "nv_list s' = remove_at iter (nv_list s)"
      using flush_delete_index [OF assms(1-3) IndexEntry] .
    then have "NvFlushHierarchy_loop hier iter s = NvFlushHierarchy_loop hier 0 s'"
      using assms(3,4) ok IndexEntry by (subst NvFlushHierarchy_loop.simps) (auto simp: Let_def public_ok_def)
    then show ?thesis
      using s' that by blast
  next
    case (EvictEntry n h b)
    obtain s' where s': "NvDelete iter s = Ret (TPM_RC_SUCCESS, s')" "nv_wf s'" "nvStatus s' = TPM_RC_SUCCESS"
      "nv_list s' = remove_at iter (nv_list s)"
      using flush_delete_object [OF assms(1-3) EvictEntry] .
    moreover have "TPM_HT_PERSISTENT \<noteq> TPM_HT_NV_INDEX"
      by (simp add: tpm_consts)
    ultimately have "NvFlushHierarchy_loop hier iter s = NvFlushHierarchy_loop hier 0 s'"
      using assms(3,4) ok EvictEntry by (subst NvFlushHierarchy_loop.simps) (simp add: Let_def)
    then show ?thesis
      using s' that by blast
  qed
qed

text \<open>The entries before the iterator have been inspected.\<close>

definition inspected :: "TPM_HANDLE \<Rightarrow> nat \<Rightarrow> nv_state \<Rightarrow> bool" where
  "inspected hier iter s \<longleftrightarrow> (\<forall>j < iter. j < length (nv_list s) \<longrightarrow> \<not> doomed hier (nv_list s ! j))"

lemma flush_loop:
  assumes "nv_wf s" "nvStatus s = TPM_RC_SUCCESS" "inspected hier iter s"
  shows "\<exists>s'. NvFlushHierarchy_loop hier iter s = Ret (TPM_RC_SUCCESS, s') \<and> nv_wf s' \<and> nvStatus s' = TPM_RC_SUCCESS
    \<and> nv_list s' = filter (\<lambda>e. \<not> doomed hier e) (nv_list s)"
  using assms
proof (induction "length (nv_list s)" arbitrary: s iter rule: less_induct)
  case outer: less
  show ?case
    using outer.prems(3)
  proof (induction "length (nv_list s) - iter" arbitrary: iter rule: less_induct)
    case inner: less
    show ?case
    proof (cases "iter < length (nv_list s)")
      case False
      then have "\<forall>e \<in> set (nv_list s). \<not> doomed hier e"
        using inner.prems by (auto simp: in_set_conv_nth inspected_def)
      then show ?thesis
        using False outer.prems(1,2) by (subst NvFlushHierarchy_loop.simps) simp
    next
      case i: True
      show ?thesis
      proof (cases "doomed hier (nv_list s ! iter)")
        case False
        then have "inspected hier (Suc iter) s"
          using inner.prems by (auto simp: inspected_def less_Suc_eq)
        then show ?thesis
          using inner.hyps [of "Suc iter"] i flush_skip [OF outer.prems(1) i False] by simp
      next
        case True
        obtain s1 where s1: "NvFlushHierarchy_loop hier iter s = NvFlushHierarchy_loop hier 0 s1" "nv_wf s1"
          "nvStatus s1 = TPM_RC_SUCCESS" "nv_list s1 = remove_at iter (nv_list s)"
          using flush_remove [OF outer.prems(1,2) i True] .
        have "inspected hier 0 s1" "length (nv_list s1) < length (nv_list s)"
          using s1(4) i by (simp_all add: inspected_def)
        then show ?thesis
          using outer.hyps [of s1 0] s1 filter_remove_at [OF i, of "\<lambda>e. \<not> doomed hier e"] True by simp
      qed
    qed
  qed
qed

text \<open>
  C19: flushing a hierarchy ends, although the scan starts over after every deletion, and does its
  work: on every reachable state with NV memory available \<^verbatim>\<open>NvFlushHierarchy\<close> returns success without
  entering failure mode, and what remains, in the old order, are the entries that are not of the
  hierarchy: for the owner hierarchy the indexes created by the platform, for the others all
  indexes, and the persistent objects whose stored attributes name another hierarchy.
\<close>

theorem NvFlushHierarchy_removes:
  assumes "nv_fresh s0" "nv_step\<^sup>*\<^sup>* s0 s" "nvStatus s = TPM_RC_SUCCESS"
  shows "\<exists>s'. NvFlushHierarchy hier s = Ret (TPM_RC_SUCCESS, s') \<and> nv_wf s'
    \<and> nv_list s' = filter (\<lambda>e. \<not> doomed hier e) (nv_list s)"
  using flush_loop [of s hier 0] nvsys.reachable_inv [OF assms(1,2)] assms(3)
  by (auto simp: NvFlushHierarchy_def nv_inv_def inspected_def)

theorem NvFlushHierarchy_removes_witness:
  "\<exists>s'. NvFlushHierarchy TPM_RH_OWNER demo_3 = Ret (TPM_RC_SUCCESS, s') \<and> length (nv_list demo_3) = 2 \<and> nv_list s' = []"
proof -
  have "nvStatus demo_3 = TPM_RC_SUCCESS" "length (nv_list demo_3) = 2"
    "filter (\<lambda>e. \<not> doomed TPM_RH_OWNER e) (nv_list demo_3) = []"
    by code_simp+
  then show ?thesis
    using NvFlushHierarchy_removes [OF demo_fresh nv_demo_reachable(2), of TPM_RH_OWNER] by auto
qed

section \<open>Two gaps\<close>

lemma marshaled_not_flushed: "\<not> flush_object hier (ANY_OBJECT_Marshal attrs body)"
  by (simp add: ANY_OBJECT_Marshal_def NV_HEADER_Marshal_def flush_object_def ANY_OBJECT_VERSION_def numeral_2_eq_2)

text \<open>
  C22: a persistent object that is stored in marshaled form is never flushed. \<^verbatim>\<open>NvFlushHierarchy\<close> reads
  the object attributes from the first octets of the stored object, where the marshaled form has
  a version number, so that no hierarchy bit is found: after the flush of any hierarchy the
  object, whatever its attributes \<open>attrs\<close> are, is still there. All ML-DSA and ML-KEM keys are stored in
  this form, and with a state format level of 2 or more all objects.
\<close>

theorem flush_keeps_marshaled_objects:
  assumes "nv_fresh s0" "nv_step\<^sup>*\<^sup>* s0 s" "nvStatus s = TPM_RC_SUCCESS"
    and "NvObjectToBuffer lvl type keyBits attrs body raw = Ret blob" "EvictEntry n h blob \<in> set (nv_list s)"
    and "type \<in> {TPM_ALG_MLDSA, TPM_ALG_HASH_MLDSA, TPM_ALG_MLKEM} \<or> lvl \<ge> 2"
  shows "\<exists>s'. NvFlushHierarchy hier s = Ret (TPM_RC_SUCCESS, s') \<and> EvictEntry n h blob \<in> set (nv_list s')"
proof -
  have "blob = ANY_OBJECT_Marshal attrs body"
    using assms(4,6) by (auto simp: NvObjectToBuffer_def Let_def tpm_consts split: if_splits)
  then have "\<not> doomed hier (EvictEntry n h blob)"
    by (simp add: marshaled_not_flushed)
  then show ?thesis
    using flush_loop [of s hier 0] nvsys.reachable_inv [OF assms(1,2)] assms(3,5)
    by (auto simp: NvFlushHierarchy_def nv_inv_def inspected_def)
qed

text \<open>A persistent ML-DSA key of the owner (spsHierarchy, bit 3) with an empty body.\<close>

definition demo_key :: bytes where
  "demo_key = ANY_OBJECT_Marshal 8 []"

definition demo_evict :: nv_state where
  "demo_evict = nv_after (ExecuteNv (NvAddEvictObject 0x81000000 demo_key) demo_nv)"

lemma demo_evict_returns: "nv_rc (ExecuteNv (NvAddEvictObject 0x81000000 demo_key) demo_nv) = Some TPM_RC_SUCCESS"
  by code_simp

lemma demo_evict_reachable: "nv_step\<^sup>*\<^sup>* demo_nv demo_evict"
proof -
  have "HandleGetType 0x81000000 = TPM_HT_PERSISTENT" "NvFindHandle demo_nv 0x81000000 = None"
    by code_simp+
  then have "nv_step demo_nv demo_evict"
    unfolding demo_evict_def by (rule command [OF add_evict [OF _ _ nv_rc_Some [OF demo_evict_returns]]])
  then show ?thesis
    by (rule r_into_rtranclp)
qed

theorem flush_keeps_marshaled_objects_witness:
  "\<exists>s'. NvFlushHierarchy TPM_RH_OWNER demo_evict = Ret (TPM_RC_SUCCESS, s') \<and> EvictEntry 20 0x81000000 demo_key \<in> set (nv_list s')"
proof -
  have "nvStatus demo_evict = TPM_RC_SUCCESS" "NvObjectToBuffer 1 TPM_ALG_MLDSA 0 8 [] [] = Ret demo_key"
    "EvictEntry 20 0x81000000 demo_key \<in> set (nv_list demo_evict)"
    by code_simp+
  then show ?thesis
    by (rule flush_keeps_marshaled_objects [OF demo_fresh demo_evict_reachable]) simp
qed

definition demo_twice :: nv_state where
  "demo_twice = nv_after (ExecuteNv (TPM2_NV_Increment TPM_RH_OWNER demo_counter) demo_3)"

definition demo_cleared :: nv_state where
  "demo_cleared = nv_after (ExecuteNv (NvFlushHierarchy TPM_RH_OWNER) demo_twice)"

definition demo_redefined :: nv_state where
  "demo_redefined = nv_after (ExecuteNv (TPM2_NV_DefineSpace demo_hier [] TPM_RH_OWNER []
     (demo_public demo_counter (demo_attributes\<lparr>na_TPM_NT := TPM_NT_COUNTER, na_ORDERLY := True\<rparr>) 8)) demo_cleared)"

lemma demo_twice_step: "nv_step\<^sup>*\<^sup>* demo_nv demo_twice"
proof -
  have "nv_rc (ExecuteNv (TPM2_NV_Increment TPM_RH_OWNER demo_counter) demo_3) = Some TPM_RC_SUCCESS"
    "next_count demo_3 demo_counter \<noteq> 0"
    by code_simp+
  then have "nv_step demo_3 demo_twice"
    unfolding demo_twice_def by (intro command increment [OF _ nv_rc_Some])
  then show ?thesis
    using nv_demo_reachable(2) by (rule rtranclp.rtrancl_into_rtrancl [rotated])
qed


end
