(* ===== verification/NV_Capacity.thy ===== *)
theory NV_Capacity
  imports NV_Flush "HOL-Library.Multiset"
begin

text \<open>
  The capability queries of NV memory, which sort the handles by insertion into an array of bounded
  size, against the sorted list of the handles, and the reserve of space that is kept for
  persistent objects and counters.
\<close>

section \<open>Sorting by insertion\<close>

lemma shift_up_length [simp]: "length (shift_up hl i j) = length hl"
  by (induction hl i j rule: shift_up.induct) auto

lemma shift_up_nth:
  "j < length hl \<Longrightarrow> k < length hl \<Longrightarrow> shift_up hl i j ! k = (if i < k \<and> k \<le> j then hl ! (k - 1) else hl ! k)"
proof (induction hl i j rule: shift_up.induct)
  case (2 hl i j)
  then show ?case
    by (auto simp: nth_list_update le_Suc_eq)
qed auto

text \<open>Insertion before the first larger element.\<close>

fun ins :: "TPM_HANDLE \<Rightarrow> TPM_HANDLE list \<Rightarrow> TPM_HANDLE list" where
  "ins h [] = [h]"
| "ins h (x # xs) = (if x > h then h # x # xs else x # ins h xs)"

lemma ins_first_index: "ins h xs = take (first_index (\<lambda>x. x > h) xs) xs @ h # drop (first_index (\<lambda>x. x > h) xs) xs"
  by (induction xs) auto

lemma length_ins [simp]: "length (ins h xs) = Suc (length xs)"
  by (induction xs) auto

lemma take_ins: "take n (ins h (take n xs)) = take n (ins h xs)"
proof (induction xs arbitrary: n)
  case (Cons x xs)
  then show ?case
    by (cases n) (auto simp: take_Cons')
qed simp

lemma sort_snoc: "sort (hs @ [h]) = ins h (sort hs)"
proof (rule properties_for_sort)
  have m: "mset (ins h xs) = add_mset h (mset xs)" for xs
    by (induction xs) auto
  then show "mset (ins h (sort hs)) = mset (hs @ [h])"
    by simp
  have s: "sorted xs \<Longrightarrow> sorted (ins h xs)" for xs
  proof (induction xs)
    case (Cons x xs)
    have "set (ins h xs) = insert h (set xs)"
      using m [of xs] by (metis set_mset_add_mset_insert set_mset_mset)
    then show ?case
      using Cons by auto
  qed simp
  then show "sorted (ins h (sort hs))"
    by simp
qed

lemma nth_split_insert:
  assumes "i \<le> length xs" "k \<le> length xs"
  shows "(take i xs @ x # drop i xs) ! k = (if k < i then xs ! k else if k = i then x else xs ! (k - 1))"
  using assms by (auto simp: nth_append nth_Cons' min_def)

lemma InsertSort_spec:
  assumes "length hl \<le> n"
  shows "InsertSort hl n h = take n (ins h hl)"
proof (cases "n = 0 \<or> hl = []")
  case True
  then show ?thesis
    using assms by (auto simp: InsertSort_def)
next
  case False
  let ?i = "first_index (\<lambda>x. x > h) hl"
  let ?hl1 = "if length hl < n then hl @ [0] else hl"
  have i: "?i \<le> length hl"
    using first_index_le [of "\<lambda>x. x > h" hl] .
  have len: "length ?hl1 = min n (Suc (length hl))"
    using assms by auto
  show ?thesis
  proof (rule nth_equalityI)
    show "length (InsertSort hl n h) = length (take n (ins h hl))"
      using False assms by (auto simp: InsertSort_def Let_def min_def)
    fix k assume "k < length (InsertSort hl n h)"
    then have k: "k < length ?hl1"
      using False by (simp add: InsertSort_def Let_def split: if_splits)
    have "ins h hl ! k = (if k < ?i then hl ! k else if k = ?i then h else hl ! (k - 1))"
      unfolding ins_first_index by (rule nth_split_insert [OF i]) (use k in \<open>simp split: if_splits\<close>)
    moreover have "InsertSort hl n h ! k = (if k < ?i then hl ! k else if k = ?i then h else hl ! (k - 1))"
    proof (cases "?i < length hl")
      case True
      then show ?thesis
        using False k len by (auto simp: InsertSort_def Let_def nth_list_update shift_up_nth nth_append)
    next
      case no_larger: False
      then have "?i = length hl"
        using i by linarith
      then show ?thesis
        using False no_larger k len by (auto simp: InsertSort_def Let_def nth_list_update nth_append)
    qed
    ultimately show "InsertSort hl n h ! k = take n (ins h hl) ! k"
      using k len by simp
  qed
qed

lemma cap_insert_fold:
  "foldl (cap_insert start n) (False, []) hs =
     (length (filter (\<lambda>h. start \<le> h) hs) > n, take n (sort (filter (\<lambda>h. start \<le> h) hs)))"
proof (induction hs rule: rev_induct)
  case (snoc h hs)
  let ?L = "filter (\<lambda>h. start \<le> h) hs"
  show ?case
  proof (cases "h < start")
    case True
    then show ?thesis
      using snoc by (simp add: cap_insert_def not_le [symmetric])
  next
    case False
    then have "InsertSort (take n (sort ?L)) n h = take n (sort (?L @ [h]))"
      by (simp add: InsertSort_spec take_ins sort_snoc del: sort_append)
    then show ?thesis
      using snoc False by (auto simp: cap_insert_def min_def)
  qed
qed simp

lemma scan_handles:
  "map (\<lambda>i. entry_handle (nv_list s ! i)) (nv_scan s 0 type)
     = filter (\<lambda>h. HandleGetType h = type) (map entry_handle (nv_list s))"
proof -
  let ?xs = "nv_list s"
  have "map (\<lambda>i. entry_handle (?xs ! i)) (filter (\<lambda>i. HandleGetType (entry_handle (?xs ! i)) = type) [0..<length ?xs])
      = filter (\<lambda>h. HandleGetType h = type) (map (\<lambda>i. entry_handle (?xs ! i)) [0..<length ?xs])"
    by (simp add: filter_map comp_def)
  also have "map (\<lambda>i. entry_handle (?xs ! i)) [0..<length ?xs] = map entry_handle ?xs"
    by (rule nth_equalityI) simp_all
  finally show ?thesis
    by (simp add: nv_scan_spec)
qed

text \<open>
  C20: \<^verbatim>\<open>NvCapGetIndex\<close> and \<^verbatim>\<open>NvCapGetPersistent\<close>, which insert every handle into an array of bounded size
  while they traverse NV memory in the order of definition, return the sorted list of the defined handles from
  the given one on, cut to the requested count and to the capacity of a response, and report that there
  is more exactly when something was cut off.
\<close>

theorem NvCapGet_sorted:
  "NvCapGetIndex start n s = (if HandleGetType start \<noteq> TPM_HT_NV_INDEX then FailureMode else
     let hs = sort (filter (\<lambda>h. HandleGetType h = TPM_HT_NV_INDEX \<and> start \<le> h) (map entry_handle (nv_list s)));
         m = min n MAX_CAP_HANDLES
     in Ret (length hs > m, take m hs))
   \<and> NvCapGetPersistent start n s = (if HandleGetType start \<noteq> TPM_HT_PERSISTENT then FailureMode else
     let hs = sort (filter (\<lambda>h. HandleGetType h = TPM_HT_PERSISTENT \<and> start \<le> h) (map entry_handle (nv_list s)));
         m = min n MAX_CAP_HANDLES
     in Ret (length hs > m, take m hs))"
  by (simp add: NvCapGetIndex_def NvCapGetPersistent_def cap_handles_def cap_insert_fold scan_handles Let_def
      filter_filter conj_commute)

section \<open>The reserve of space\<close>

lemma length_filter_nth: "length (filter (\<lambda>i. P (xs ! i)) [0..<length xs]) = length (filter P xs)"
proof -
  have "filter P xs = filter P (map (\<lambda>i. xs ! i) [0..<length xs])"
    by (simp add: map_nth)
  then show ?thesis
    by (simp add: filter_map comp_def)
qed

definition counter_entry :: "nv_entry \<Rightarrow> bool" where
  "counter_entry e \<longleftrightarrow> HandleGetType (entry_handle e) = TPM_HT_NV_INDEX \<and> IsNvCounterIndex (nv_attributes (nv_public (entry_index e)))"

lemma numbers:
  "NvCapGetPersistentNumber s = length (filter (\<lambda>e. HandleGetType (entry_handle e) = TPM_HT_PERSISTENT) (nv_list s))"
  "NvCapGetCounterNumber s = length (filter counter_entry (nv_list s))"
  using length_filter_nth [of "\<lambda>e. HandleGetType (entry_handle e) = TPM_HT_PERSISTENT" "nv_list s"]
    length_filter_nth [of counter_entry "nv_list s"]
  by (simp_all add: NvCapGetPersistentNumber_def NvCapGetCounterNumber_def nv_scan_spec index_at_def counter_entry_def conj_commute)

text \<open>The room for the end marker and for the missing objects and counters is there.\<close>

definition reserve_ok :: "nv_state \<Rightarrow> bool" where
  "reserve_ok s \<longleftrightarrow> sizeof_NV_LIST_TERMINATOR + evict_reserve s + counter_reserve s \<le> NvGetFreeBytes s"

lemma append_entry:
  assumes "nv_list s' = nv_list s @ [e]" "nv_consts s s'" "NvGetEnd s + entry_size e \<le> s_evictNvEnd s"
  shows "NvGetFreeBytes s' + entry_size e = NvGetFreeBytes s" "NV_EVICT_OBJECT_SIZE s' = NV_EVICT_OBJECT_SIZE s"
    "NV_INDEX_COUNTER_SIZE s' = NV_INDEX_COUNTER_SIZE s"
    "NvCapGetPersistentNumber s' = NvCapGetPersistentNumber s + (if HandleGetType (entry_handle e) = TPM_HT_PERSISTENT then 1 else 0)"
    "NvCapGetCounterNumber s' = NvCapGetCounterNumber s + (if counter_entry e then 1 else 0)"
  using assms by (auto simp: NvGetFreeBytes_def NvGetEnd_def nv_consts_def NV_EVICT_OBJECT_SIZE_def NV_INDEX_COUNTER_SIZE_def numbers)

text \<open>A new object or counter takes its share of the reserve.\<close>

lemma share_step:
  "n < m \<Longrightarrow> (if n < m then (m - n) * k else 0) = (if Suc n < m then (m - Suc n) * k else 0) + (k :: nat)"
  by (auto simp: Suc_diff_Suc [symmetric] not_less simp del: diff_Suc_Suc dest!: Suc_leI)

lemma reserve_share:
  "NvCapGetPersistentNumber s < MIN_EVICT_OBJECTS \<Longrightarrow> NvCapGetPersistentNumber s' = Suc (NvCapGetPersistentNumber s) \<Longrightarrow>
     NV_EVICT_OBJECT_SIZE s' = NV_EVICT_OBJECT_SIZE s \<Longrightarrow> evict_reserve s = evict_reserve s' + NV_EVICT_OBJECT_SIZE s"
  "NvCapGetCounterNumber s < MIN_COUNTER_INDICES \<Longrightarrow> NvCapGetCounterNumber s' = Suc (NvCapGetCounterNumber s) \<Longrightarrow>
     NV_INDEX_COUNTER_SIZE s' = NV_INDEX_COUNTER_SIZE s \<Longrightarrow> counter_reserve s = counter_reserve s' + NV_INDEX_COUNTER_SIZE s"
  using share_step [of "NvCapGetPersistentNumber s" MIN_EVICT_OBJECTS "NV_EVICT_OBJECT_SIZE s"]
    share_step [of "NvCapGetCounterNumber s" MIN_COUNTER_INDICES "NV_INDEX_COUNTER_SIZE s"]
  unfolding evict_reserve_def counter_reserve_def by simp_all

lemma reserve_same:
  "NvCapGetPersistentNumber s' = NvCapGetPersistentNumber s \<Longrightarrow> NV_EVICT_OBJECT_SIZE s' = NV_EVICT_OBJECT_SIZE s \<Longrightarrow>
     evict_reserve s' = evict_reserve s"
  "NvCapGetCounterNumber s' = NvCapGetCounterNumber s \<Longrightarrow> NV_INDEX_COUNTER_SIZE s' = NV_INDEX_COUNTER_SIZE s \<Longrightarrow>
     counter_reserve s' = counter_reserve s"
  by (simp_all add: evict_reserve_def counter_reserve_def)

lemma NvDefineIndex_shape:
  assumes "NvDefineIndex mem pub auth s = Ret (TPM_RC_SUCCESS, s')" "nvStatus s = TPM_RC_SUCCESS"
  obtains d where
    "nv_list s' = nv_list s @ [IndexEntry (4 + (sizeof_NV_INDEX s + (if \<not> na_ORDERLY (nv_attributes pub) then unat (dataSize pub) else 0)))
       \<lparr>nv_public = pub, nv_auth = auth\<rparr> d]" "nv_consts s s'"
    "NvTestSpace s (sizeof_NV_INDEX s + (if \<not> na_ORDERLY (nv_attributes pub) then unat (dataSize pub) else 0)) True
       (IsNvCounterIndex (nv_attributes pub))"
  using assms
  by (auto simp: NvDefineIndex_def Let_def NvAdd_def NvWriteNvListEnd_def obind_Ret_iff NvAddRAM_def tpm_consts nv_consts_def
      split: if_splits)

lemma define_reserve:
  assumes "NvDefineIndex mem pub auth s = Ret (TPM_RC_SUCCESS, s')" "nvStatus s = TPM_RC_SUCCESS"
    and "\<not> IsNvCounterIndex (nv_attributes pub)" "HandleGetType (nvIndex pub) = TPM_HT_NV_INDEX"
  shows "reserve_ok s'" "nv_consts s s'"
proof -
  let ?n = "sizeof_NV_INDEX s + (if \<not> na_ORDERLY (nv_attributes pub) then unat (dataSize pub) else 0)"
  let ?e = "\<lambda>d. IndexEntry (4 + ?n) \<lparr>nv_public = pub, nv_auth = auth\<rparr> d"
  obtain d where d: "nv_list s' = nv_list s @ [?e d]" "nv_consts s s'" "NvTestSpace s ?n True False"
    by (rule NvDefineIndex_shape [OF assms(1,2)]) (use assms(3) in simp)
  have room: "NvGetEnd s + entry_size (?e d) \<le> s_evictNvEnd s"
    using NvTestSpace_room [OF d(3)] by simp
  note n = append_entry [OF d(1,2) room]
  have "TPM_HT_NV_INDEX \<noteq> TPM_HT_PERSISTENT"
    by (simp add: tpm_consts)
  then have "evict_reserve s' = evict_reserve s" "counter_reserve s' = counter_reserve s"
    using n(2-5) assms(3,4) by (intro reserve_same; simp add: counter_entry_def)+
  moreover have "?n + (16 + evict_reserve s + counter_reserve s) \<le> NvGetFreeBytes s"
    using d(3) by (simp add: NvTestSpace_def Let_def sizeof_NV_LIST_TERMINATOR_def)
  ultimately show "reserve_ok s'"
    using n(1) by (simp add: reserve_ok_def sizeof_NV_LIST_TERMINATOR_def)
  show "nv_consts s s'"
    by (rule d(2))
qed

lemma evict_fits:
  assumes "reserve_ok s" "nvStatus s = TPM_RC_SUCCESS" "NvCapGetPersistentNumber s < MIN_EVICT_OBJECTS"
    and "HandleGetType eh = TPM_HT_PERSISTENT" "length blob \<le> sizeof_OBJECT s"
  obtains s' where "NvAddEvictObject eh blob s = Ret (TPM_RC_SUCCESS, s')" "reserve_ok s'" "nv_consts s s'"
    "NvCapGetPersistentNumber s' = Suc (NvCapGetPersistentNumber s)" "NvCapGetCounterNumber s' = NvCapGetCounterNumber s"
proof -
  let ?e = "EvictEntry (4 + 4 + length blob) eh blob"
  let ?s = "s\<lparr>nv_endCount := s_maxCounter s, nv_list := nv_list s @ [?e]\<rparr>"
  have "evict_reserve s \<ge> NV_EVICT_OBJECT_SIZE s"
    using assms(3) by (simp add: evict_reserve_def Suc_le_eq)
  then have t: "NvTestSpace s (length blob + 4) False False"
    using assms(1,5) by (simp add: NvTestSpace_def Let_def reserve_ok_def sizeof_NV_LIST_TERMINATOR_def NV_EVICT_OBJECT_SIZE_def)
  note r = NvTestSpace_room [OF t]
  have add: "NvAddEvictObject eh blob s = Ret (TPM_RC_SUCCESS, ?s)"
    using t r assms(2) by (simp add: NvAddEvictObject_def NvAdd_def NvWriteNvListEnd_def)
  have room: "NvGetEnd s + entry_size ?e \<le> s_evictNvEnd s"
    using r by simp
  have con: "nv_consts s ?s"
    by (simp add: nv_consts_def)
  note n = append_entry [OF _ con room]
  have k: "NvCapGetPersistentNumber ?s = Suc (NvCapGetPersistentNumber s)" "NvCapGetCounterNumber ?s = NvCapGetCounterNumber s"
    using n(4,5) assms(4) by (simp_all add: counter_entry_def tpm_consts)
  have "evict_reserve s = evict_reserve ?s + NV_EVICT_OBJECT_SIZE s" "counter_reserve ?s = counter_reserve s"
    using n(2,3) k by (intro reserve_share(1) [OF assms(3)] reserve_same(2); simp)+
  then have "reserve_ok ?s"
    using assms(1,5) n(1) by (simp add: reserve_ok_def NV_EVICT_OBJECT_SIZE_def)
  then show ?thesis
    using that add con k by blast
qed

lemma counter_fits:
  assumes "reserve_ok s" "nvStatus s = TPM_RC_SUCCESS" "NvCapGetCounterNumber s < MIN_COUNTER_INDICES"
    and "IsNvCounterIndex (nv_attributes pub)" "\<not> na_ORDERLY (nv_attributes pub)" "dataSize pub = 8"
    "HandleGetType (nvIndex pub) = TPM_HT_NV_INDEX"
  obtains s' where "NvDefineIndex mem pub auth s = Ret (TPM_RC_SUCCESS, s')" "reserve_ok s'" "nv_consts s s'"
    "NvCapGetCounterNumber s' = Suc (NvCapGetCounterNumber s)"
proof -
  let ?e = "IndexEntry (4 + (sizeof_NV_INDEX s + 8)) \<lparr>nv_public = pub, nv_auth = auth\<rparr> (take 8 (mem @ replicate 8 0xFF))"
  let ?s = "s\<lparr>nv_endCount := s_maxCounter s, nv_list := nv_list s @ [?e]\<rparr>"
  have "counter_reserve s \<ge> NV_INDEX_COUNTER_SIZE s"
    using assms(3) by (simp add: counter_reserve_def Suc_le_eq)
  then have t: "NvTestSpace s (sizeof_NV_INDEX s + 8) True True"
    using assms(1) by (simp add: NvTestSpace_def Let_def reserve_ok_def sizeof_NV_LIST_TERMINATOR_def NV_INDEX_COUNTER_SIZE_def)
  note r = NvTestSpace_room [OF t]
  have def: "NvDefineIndex mem pub auth s = Ret (TPM_RC_SUCCESS, ?s)"
    using t r assms(2,4-6) by (simp add: NvDefineIndex_def NvAdd_def NvWriteNvListEnd_def)
  have room: "NvGetEnd s + entry_size ?e \<le> s_evictNvEnd s"
    using r by simp
  have con: "nv_consts s ?s"
    by (simp add: nv_consts_def)
  note n = append_entry [OF _ con room]
  have k: "NvCapGetPersistentNumber ?s = NvCapGetPersistentNumber s" "NvCapGetCounterNumber ?s = Suc (NvCapGetCounterNumber s)"
    using n(4,5) assms(4,7) by (simp_all add: counter_entry_def tpm_consts)
  have "counter_reserve s = counter_reserve ?s + NV_INDEX_COUNTER_SIZE s" "evict_reserve ?s = evict_reserve s"
    using n(2,3) k by (intro reserve_share(2) [OF assms(3)] reserve_same(1); simp)+
  then have "reserve_ok ?s"
    using assms(1) n(1) by (simp add: reserve_ok_def NV_INDEX_COUNTER_SIZE_def)
  then show ?thesis
    using that def con k(2) by blast
qed

text \<open>Making objects persistent, and defining counters, one after the other.\<close>

fun persist_all :: "(TPM_HANDLE \<times> bytes) list \<Rightarrow> nv_state \<Rightarrow> (TPM_RC \<times> nv_state) outcome" where
  "persist_all [] s = Ret (TPM_RC_SUCCESS, s)"
| "persist_all ((eh, blob) # xs) s = obind (NvAddEvictObject eh blob s) (\<lambda>(rc, s1).
     if rc \<noteq> TPM_RC_SUCCESS then Ret (rc, s1) else persist_all xs s1)"

fun define_all :: "bytes \<Rightarrow> TPMS_NV_PUBLIC list \<Rightarrow> nv_state \<Rightarrow> (TPM_RC \<times> nv_state) outcome" where
  "define_all mem [] s = Ret (TPM_RC_SUCCESS, s)"
| "define_all mem (p # ps) s = obind (NvDefineIndex mem p [] s) (\<lambda>(rc, s1).
     if rc \<noteq> TPM_RC_SUCCESS then Ret (rc, s1) else define_all mem ps s1)"

definition plain_counter :: "TPMS_NV_PUBLIC \<Rightarrow> bool" where
  "plain_counter p \<longleftrightarrow> HandleGetType (nvIndex p) = TPM_HT_NV_INDEX \<and> IsNvCounterIndex (nv_attributes p)
     \<and> \<not> na_ORDERLY (nv_attributes p) \<and> dataSize p = 8"

lemma persist_all_fits:
  assumes "reserve_ok s" "nvStatus s = TPM_RC_SUCCESS" "NvCapGetPersistentNumber s + length xs \<le> MIN_EVICT_OBJECTS"
    and "\<forall>(eh, blob) \<in> set xs. HandleGetType eh = TPM_HT_PERSISTENT \<and> length blob \<le> sizeof_OBJECT s"
  shows "\<exists>t. persist_all xs s = Ret (TPM_RC_SUCCESS, t) \<and> reserve_ok t \<and> nv_consts s t
    \<and> NvCapGetCounterNumber t = NvCapGetCounterNumber s"
  using assms
proof (induction xs arbitrary: s)
  case Nil
  then show ?case
    by (simp add: nv_consts_def)
next
  case (Cons x xs)
  obtain eh blob where x: "x = (eh, blob)"
    by (cases x)
  obtain s1 where s1: "NvAddEvictObject eh blob s = Ret (TPM_RC_SUCCESS, s1)" "reserve_ok s1" "nv_consts s s1"
    "NvCapGetPersistentNumber s1 = Suc (NvCapGetPersistentNumber s)" "NvCapGetCounterNumber s1 = NvCapGetCounterNumber s"
    by (rule evict_fits [OF Cons.prems(1,2), of eh blob]) (use Cons.prems(3,4) x in auto)
  then show ?case
    using Cons.IH [of s1] Cons.prems x by (fastforce simp: nv_consts_def)
qed

lemma define_all_fits:
  assumes "reserve_ok s" "nvStatus s = TPM_RC_SUCCESS" "NvCapGetCounterNumber s + length ps \<le> MIN_COUNTER_INDICES"
    and "\<forall>p \<in> set ps. plain_counter p"
  shows "\<exists>t. define_all mem ps s = Ret (TPM_RC_SUCCESS, t)"
  using assms
proof (induction ps arbitrary: s)
  case (Cons p ps)
  obtain s1 where "NvDefineIndex mem p [] s = Ret (TPM_RC_SUCCESS, s1)" "reserve_ok s1" "nv_consts s s1"
    "NvCapGetCounterNumber s1 = Suc (NvCapGetCounterNumber s)"
    by (rule counter_fits [OF Cons.prems(1,2), of p mem "[]"]) (use Cons.prems(3,4) in \<open>auto simp: plain_counter_def\<close>)
  then show ?case
    using Cons.IH [of s1] Cons.prems by (simp add: nv_consts_def)
qed simp

text \<open>
  C21: indexes cannot use up the space of persistent objects and counters. After every successful
  \<^verbatim>\<open>TPM2_NV_DefineSpace\<close> of an index that is not a counter there is room for what the platform promises:
  as many objects as are missing to \<^verbatim>\<open>MIN_EVICT_OBJECTS\<close>, each up to the size of \<^verbatim>\<open>OBJECT\<close>, can be made
  persistent, and after that as many counters as are missing to \<^verbatim>\<open>MIN_COUNTER_INDICES\<close> can be defined, without
  a report of lacking space and without failure mode.
\<close>

theorem reserve_is_kept:
  assumes "HandleGetType (nvIndex p) = TPM_HT_NV_INDEX" "\<not> IsNvCounterIndex (nv_attributes p)" "nvStatus s = TPM_RC_SUCCESS"
    and "TPM2_NV_DefineSpace hs mem ah auth p s = Ret (TPM_RC_SUCCESS, s')"
    and "NvCapGetPersistentNumber s' + length xs \<le> MIN_EVICT_OBJECTS"
    "\<forall>(eh, blob) \<in> set xs. HandleGetType eh = TPM_HT_PERSISTENT \<and> length blob \<le> sizeof_OBJECT s'"
    and "NvCapGetCounterNumber s' + length ps \<le> MIN_COUNTER_INDICES" "\<forall>p \<in> set ps. plain_counter p"
  shows "\<exists>t u. persist_all xs s' = Ret (TPM_RC_SUCCESS, t) \<and> define_all mem' ps t = Ret (TPM_RC_SUCCESS, u)"
proof -
  have "NvDefineIndex mem p (MemoryRemoveTrailingZeros auth) s = Ret (TPM_RC_SUCCESS, s')"
    using assms(4) unfolding TPM2_NV_DefineSpace_def Let_def by (auto simp: tpm_consts split: if_splits)
  note d = define_reserve [OF this assms(3,2,1)]
  have st: "nvStatus s' = TPM_RC_SUCCESS"
    using d(2) assms(3) by (simp add: nv_consts_def)
  obtain t where t: "persist_all xs s' = Ret (TPM_RC_SUCCESS, t)" "reserve_ok t" "nv_consts s' t"
    "NvCapGetCounterNumber t = NvCapGetCounterNumber s'"
    using persist_all_fits [OF d(1) st assms(5,6)] by blast
  then show ?thesis
    using define_all_fits [of t ps mem'] st assms(7,8) by (auto simp: nv_consts_def)
qed

definition demo_room :: nv_state where
  "demo_room = nv_after (TPM2_NV_DefineSpace demo_hier [] TPM_RH_OWNER [] (demo_public demo_ordinary demo_attributes 4) demo_1)"

theorem reserve_is_kept_witness:
  "\<exists>t u. persist_all [(0x81000000, [7]), (0x81000001, [])] demo_room = Ret (TPM_RC_SUCCESS, t)
     \<and> define_all [] [demo_public 0x01000005 (demo_attributes\<lparr>na_TPM_NT := TPM_NT_COUNTER\<rparr>) 8] t = Ret (TPM_RC_SUCCESS, u)"
proof -
  have r: "nv_rc (TPM2_NV_DefineSpace demo_hier [] TPM_RH_OWNER [] (demo_public demo_ordinary demo_attributes 4) demo_1) = Some TPM_RC_SUCCESS"
    by code_simp
  show ?thesis
    by (rule reserve_is_kept [OF _ _ _ nv_rc_Some [OF r, folded demo_room_def]]; code_simp)
qed

end
