(* ===== verification/Policy_Support.thy ===== *)
theory Policy_Support
  imports NV_Commands
begin

text \<open>
  The support functions of the policy commands, \<^verbatim>\<open>Policy_spt.c\<close>, with the comparison of octet
  strings of \<^verbatim>\<open>MathOnByteBuffers.c\<close>. A policy session is a \<open>SESSION\<close>; its policy digest is the member
  \<open>u2\<close>, and \<open>u1\<close> is the cpHash, nameHash, parameters hash or template hash that it is bound to.
\<close>

section \<open>Constants and environment\<close>

definition TPM_EO_EQ :: u16 where [tpm_consts]: "TPM_EO_EQ = 0x0000"
definition TPM_EO_NEQ :: u16 where [tpm_consts]: "TPM_EO_NEQ = 0x0001"
definition TPM_EO_SIGNED_GT :: u16 where [tpm_consts]: "TPM_EO_SIGNED_GT = 0x0002"
definition TPM_EO_UNSIGNED_GT :: u16 where [tpm_consts]: "TPM_EO_UNSIGNED_GT = 0x0003"
definition TPM_EO_SIGNED_LT :: u16 where [tpm_consts]: "TPM_EO_SIGNED_LT = 0x0004"
definition TPM_EO_UNSIGNED_LT :: u16 where [tpm_consts]: "TPM_EO_UNSIGNED_LT = 0x0005"
definition TPM_EO_SIGNED_GE :: u16 where [tpm_consts]: "TPM_EO_SIGNED_GE = 0x0006"
definition TPM_EO_UNSIGNED_GE :: u16 where [tpm_consts]: "TPM_EO_UNSIGNED_GE = 0x0007"
definition TPM_EO_SIGNED_LE :: u16 where [tpm_consts]: "TPM_EO_SIGNED_LE = 0x0008"
definition TPM_EO_UNSIGNED_LE :: u16 where [tpm_consts]: "TPM_EO_UNSIGNED_LE = 0x0009"
definition TPM_EO_BITSET :: u16 where [tpm_consts]: "TPM_EO_BITSET = 0x000A"
definition TPM_EO_BITCLEAR :: u16 where [tpm_consts]: "TPM_EO_BITCLEAR = 0x000B"

text \<open>
  What the policy commands read of the rest of the TPM: the hash function, time and epoch, the PCR
  generation counter, the availability of NV memory, the level of the state format, names and
  hierarchies of entities, signature validation, the current PCR digest with the filtered
  selection, the implemented commands, the marshaled time, the marshaled capabilities, the ticket
  environment, and the first octets behind two empty operands.
\<close>

type_synonym pcr_selection = "(TPM_ALG_ID \<times> bytes) list"

record policy_env =
  pe_hash :: "TPM_ALG_ID \<Rightarrow> bytes \<Rightarrow> bytes"
  pe_time :: u64
  pe_timeEpoch :: u32
  pe_pcrCounter :: u32
  pe_NvStatus :: TPM_RC
  pe_stateFormatLevel :: nat
  pe_name :: "TPM_HANDLE \<Rightarrow> bytes"
  pe_hierarchy :: "TPM_HANDLE \<Rightarrow> TPM_HANDLE"
  pe_signHashAlg :: "bytes \<Rightarrow> TPM_ALG_ID"
  pe_validate :: "TPM_HANDLE \<Rightarrow> bytes \<Rightarrow> bytes \<Rightarrow> TPM_RC"
  pe_pcrDigest :: "TPM_ALG_ID \<Rightarrow> pcr_selection \<Rightarrow> pcr_selection \<times> bytes"
  pe_implemented :: "TPM_CC \<Rightarrow> bool"
  pe_hashEnabled :: "TPM_ALG_ID \<Rightarrow> bool"
  pe_pinPass :: "TPM_HANDLE \<Rightarrow> bool"
  pe_timeInfo :: bytes
  pe_capability :: "u32 \<Rightarrow> u32 \<Rightarrow> TPM_RC + bytes"
  pe_tickets :: ticket_env
  pe_hs :: hier_state
  pe_stale :: "u8 \<times> u8"

definition TimeGetMarshaled :: "u64 \<Rightarrow> TPMS_CLOCK_INFO \<Rightarrow> bytes" where
  "TimeGetMarshaled time ci = be 8 time @ be 8 (ci_clock ci) @ be 4 (ci_resetCount ci) @ be 4 (ci_restartCount ci)
     @ [of_bool (ci_safe ci)]"

section \<open>Comparison\<close>

fun compare_octets :: "bytes \<Rightarrow> bytes \<Rightarrow> int" where
  "compare_octets (a # as) (b # bs) = (if a \<noteq> b then (if a > b then 1 else - 1) else compare_octets as bs)"
| "compare_octets _ _ = 0"

definition UnsignedCompareB :: "bytes \<Rightarrow> bytes \<Rightarrow> int" where
  "UnsignedCompareB a b = (if length a > length b then 1 else if length a < length b then - 1 else compare_octets a b)"

fun octet0 :: "u8 \<Rightarrow> bytes \<Rightarrow> u8" where
  "octet0 g [] = g"
| "octet0 g (x # xs) = x"

text \<open>The C code reads the first octets also when the size is zero; \<open>stale\<close> is what they hold then.\<close>

definition SignedCompareB :: "u8 \<times> u8 \<Rightarrow> bytes \<Rightarrow> bytes \<Rightarrow> int" where
  "SignedCompareB stale a b =
     (let a0 = octet0 (fst stale) a; b0 = octet0 (snd stale) b in
      if (a0 XOR b0) AND 0x80 > 0 then (if a0 AND 0x80 \<noteq> 0 then - 1 else 1)
      else UnsignedCompareB a b)"

definition PolicySptCheckCondition :: "u8 \<times> u8 \<Rightarrow> u16 \<Rightarrow> bytes \<Rightarrow> bytes \<Rightarrow> bool outcome" where
  "PolicySptCheckCondition stale operation a b =
     (let u = UnsignedCompareB a b; sg = SignedCompareB stale a b in
      if operation = TPM_EO_EQ then Ret (u = 0)
      else if operation = TPM_EO_NEQ then Ret (u \<noteq> 0)
      else if operation = TPM_EO_SIGNED_GT then Ret (sg > 0)
      else if operation = TPM_EO_UNSIGNED_GT then Ret (u > 0)
      else if operation = TPM_EO_SIGNED_LT then Ret (sg < 0)
      else if operation = TPM_EO_UNSIGNED_LT then Ret (u < 0)
      else if operation = TPM_EO_SIGNED_GE then Ret (sg \<ge> 0)
      else if operation = TPM_EO_UNSIGNED_GE then Ret (u \<ge> 0)
      else if operation = TPM_EO_SIGNED_LE then Ret (sg \<le> 0)
      else if operation = TPM_EO_UNSIGNED_LE then Ret (u \<le> 0)
      else if operation = TPM_EO_BITSET then Ret (list_all2 (\<lambda>x y. x AND y = y) a b)
      else if operation = TPM_EO_BITCLEAR then Ret (list_all2 (\<lambda>x y. x AND y = 0) a b)
      else FailureMode)"

section \<open>Checks and updates\<close>

text \<open>The nonce is absent for a ticket.\<close>

definition PolicyParameterChecks ::
  "policy_env \<Rightarrow> SESSION \<Rightarrow> u64 \<Rightarrow> bytes \<Rightarrow> bytes option \<Rightarrow> TPM_RC \<Rightarrow> TPM_RC \<Rightarrow> TPM_RC \<Rightarrow> TPM_RC" where
  "PolicyParameterChecks env se authTimeout cpHashA nonce blameNonce blameCpHash blameExpiration =
     (if (case nonce of None \<Rightarrow> False | Some n \<Rightarrow> n \<noteq> [] \<and> n \<noteq> nonceTPM se) then TPM_RC_NONCE + blameNonce
      else if authTimeout \<noteq> 0 \<and> pe_NvStatus env \<noteq> TPM_RC_SUCCESS then pe_NvStatus env
      else if authTimeout \<noteq> 0 \<and> (authTimeout < pe_time env \<or> epoch se \<noteq> pe_timeEpoch env)
      then TPM_RC_EXPIRED + blameExpiration
      else if cpHashA \<noteq> [] \<and> length cpHashA \<noteq> length (u2 se) then TPM_RC_SIZE + blameCpHash
      else if cpHashA \<noteq> [] \<and> u1 se \<noteq> [] \<and> cpHashA \<noteq> u1 se then TPM_RC_CPHASH
      else TPM_RC_SUCCESS)"

definition policy_extend :: "policy_env \<Rightarrow> bytes \<Rightarrow> SESSION \<Rightarrow> SESSION" where
  "policy_extend env data se = se\<lparr>u2 := pe_hash env (authHashAlg se) (u2 se @ data)\<rparr>"

definition set_cpHash :: "bytes \<Rightarrow> SESSION \<Rightarrow> SESSION" where
  "set_cpHash h se = se\<lparr>u1 := h, attributes := (attributes se)\<lparr>isCpHashDefined := True\<rparr>\<rparr>"

definition PolicyContextUpdate ::
  "policy_env \<Rightarrow> TPM_CC \<Rightarrow> bytes \<Rightarrow> bytes option \<Rightarrow> bytes \<Rightarrow> u64 \<Rightarrow> SESSION \<Rightarrow> SESSION outcome" where
  "PolicyContextUpdate env cc name ref cpHash policyTimeout se =
     pAssert (length (u2 se) = CryptHashGetDigestSize (authHashAlg se))
      (let se1 = policy_extend env (be 4 cc @ name) se;
           se2 = (case ref of None \<Rightarrow> se1 | Some r \<Rightarrow> policy_extend env r se1);
           se3 = (if cpHash \<noteq> [] then set_cpHash cpHash se2 else se2)
       in Ret (if policyTimeout \<noteq> 0 \<and> (timeout se3 = 0 \<or> timeout se3 > policyTimeout)
               then se3\<lparr>timeout := policyTimeout\<rparr> else se3))"

definition ComputeAuthTimeout :: "policy_env \<Rightarrow> SESSION \<Rightarrow> u32 \<Rightarrow> bytes \<Rightarrow> u64" where
  "ComputeAuthTimeout env se expiration nonce =
     (if expiration = 0 then 0
      else
        let e = (if sint expiration < 0
                 then - (if expiration = 0x80000000 then expiration + 1 else expiration) else expiration)
        in if nonce = [] then ucast e * 1000 + pe_time env mod 1000
           else startTime se + ucast e * 1000)"

definition PolicyDigestClear :: "SESSION \<Rightarrow> SESSION" where
  "PolicyDigestClear se = se\<lparr>u2 := replicate (CryptHashGetDigestSize (authHashAlg se)) 0\<rparr>"

end
