(* ===== verification/Policy_Commands.thy ===== *)
theory Policy_Commands
  imports Policy_Support
begin

text \<open>
  The policy commands of \<^verbatim>\<open>EACommands.c\<close> and \<^verbatim>\<open>TPM2_PolicyRestart\<close>. The C code takes the session from
  \<^verbatim>\<open>SessionGet\<close> as a pointer and changes it in place: a handler here takes the session and returns the
  response code, what it outputs and the new session; \<open>on_policy_session\<close> applies it to the slot of a handle.
\<close>

section \<open>Constants\<close>

definition TPM_CC_PolicyNV :: TPM_CC where [tpm_consts]: "TPM_CC_PolicyNV = 0x149"
definition TPM_CC_Duplicate :: TPM_CC where [tpm_consts]: "TPM_CC_Duplicate = 0x14B"
definition TPM_CC_PolicySecret :: TPM_CC where [tpm_consts]: "TPM_CC_PolicySecret = 0x151"
definition TPM_CC_PolicySigned :: TPM_CC where [tpm_consts]: "TPM_CC_PolicySigned = 0x160"
definition TPM_CC_PolicyAuthorize :: TPM_CC where [tpm_consts]: "TPM_CC_PolicyAuthorize = 0x16A"
definition TPM_CC_PolicyAuthValue :: TPM_CC where [tpm_consts]: "TPM_CC_PolicyAuthValue = 0x16B"
definition TPM_CC_PolicyCommandCode :: TPM_CC where [tpm_consts]: "TPM_CC_PolicyCommandCode = 0x16C"
definition TPM_CC_PolicyCounterTimer :: TPM_CC where [tpm_consts]: "TPM_CC_PolicyCounterTimer = 0x16D"
definition TPM_CC_PolicyCpHash :: TPM_CC where [tpm_consts]: "TPM_CC_PolicyCpHash = 0x16E"
definition TPM_CC_PolicyLocality :: TPM_CC where [tpm_consts]: "TPM_CC_PolicyLocality = 0x16F"
definition TPM_CC_PolicyNameHash :: TPM_CC where [tpm_consts]: "TPM_CC_PolicyNameHash = 0x170"
definition TPM_CC_PolicyOR :: TPM_CC where [tpm_consts]: "TPM_CC_PolicyOR = 0x171"
definition TPM_CC_PolicyPCR :: TPM_CC where [tpm_consts]: "TPM_CC_PolicyPCR = 0x17F"
definition TPM_CC_PolicyPhysicalPresence :: TPM_CC where [tpm_consts]: "TPM_CC_PolicyPhysicalPresence = 0x187"
definition TPM_CC_PolicyDuplicationSelect :: TPM_CC where [tpm_consts]: "TPM_CC_PolicyDuplicationSelect = 0x188"
definition TPM_CC_PolicyNvWritten :: TPM_CC where [tpm_consts]: "TPM_CC_PolicyNvWritten = 0x18F"
definition TPM_CC_PolicyTemplate :: TPM_CC where [tpm_consts]: "TPM_CC_PolicyTemplate = 0x190"
definition TPM_CC_PolicyAuthorizeNV :: TPM_CC where [tpm_consts]: "TPM_CC_PolicyAuthorizeNV = 0x192"
definition TPM_CC_PolicyCapability :: TPM_CC where [tpm_consts]: "TPM_CC_PolicyCapability = 0x19B"
definition TPM_CC_PolicyParameters :: TPM_CC where [tpm_consts]: "TPM_CC_PolicyParameters = 0x19C"
definition TPM_RC_POLICY :: TPM_RC where [tpm_consts]: "TPM_RC_POLICY = 0x126"
definition TPM_RC_PCR_CHANGED :: TPM_RC where [tpm_consts]: "TPM_RC_PCR_CHANGED = 0x128"
definition TPM_RC_COMMAND_CODE :: TPM_RC where [tpm_consts]: "TPM_RC_COMMAND_CODE = 0x143"
definition TPM_RC_HASH :: TPM_RC where [tpm_consts]: "TPM_RC_HASH = 0x083"
definition TPM_RC_RANGE :: TPM_RC where [tpm_consts]: "TPM_RC_RANGE = 0x08D"
definition TPM_RC_PP :: TPM_RC where [tpm_consts]: "TPM_RC_PP = 0x090"
definition TPM_RC_INSUFFICIENT :: TPM_RC where [tpm_consts]: "TPM_RC_INSUFFICIENT = 0x09A"
definition TPM_RC_POLICY_FAIL :: TPM_RC where [tpm_consts]: "TPM_RC_POLICY_FAIL = 0x09D"
definition TPM_RC_POLICY_CC :: TPM_RC where [tpm_consts]: "TPM_RC_POLICY_CC = 0x0A4"
definition TPM_RC_4 :: TPM_RC where [tpm_consts]: "TPM_RC_4 = 0x400"
definition TPM_RC_5 :: TPM_RC where [tpm_consts]: "TPM_RC_5 = 0x500"
definition RC_PolicySigned_nonceTPM :: TPM_RC where [tpm_consts]: "RC_PolicySigned_nonceTPM = TPM_RC_P + TPM_RC_1"
definition RC_PolicySigned_cpHashA :: TPM_RC where [tpm_consts]: "RC_PolicySigned_cpHashA = TPM_RC_P + TPM_RC_2"
definition RC_PolicySigned_expiration :: TPM_RC where [tpm_consts]: "RC_PolicySigned_expiration = TPM_RC_P + TPM_RC_4"
definition RC_PolicySigned_auth :: TPM_RC where [tpm_consts]: "RC_PolicySigned_auth = TPM_RC_P + TPM_RC_5"
definition RC_PolicySecret_nonceTPM :: TPM_RC where [tpm_consts]: "RC_PolicySecret_nonceTPM = TPM_RC_P + TPM_RC_1"
definition RC_PolicySecret_cpHashA :: TPM_RC where [tpm_consts]: "RC_PolicySecret_cpHashA = TPM_RC_P + TPM_RC_2"
definition RC_PolicySecret_expiration :: TPM_RC where [tpm_consts]: "RC_PolicySecret_expiration = TPM_RC_P + TPM_RC_4"
definition RC_PolicyTicket_policySession :: TPM_RC where [tpm_consts]: "RC_PolicyTicket_policySession = TPM_RC_H + TPM_RC_1"
definition RC_PolicyTicket_timeout :: TPM_RC where [tpm_consts]: "RC_PolicyTicket_timeout = TPM_RC_P + TPM_RC_1"
definition RC_PolicyTicket_cpHashA :: TPM_RC where [tpm_consts]: "RC_PolicyTicket_cpHashA = TPM_RC_P + TPM_RC_2"
definition RC_PolicyTicket_ticket :: TPM_RC where [tpm_consts]: "RC_PolicyTicket_ticket = TPM_RC_P + TPM_RC_5"
definition RC_PolicyOR_pHashList :: TPM_RC where [tpm_consts]: "RC_PolicyOR_pHashList = TPM_RC_P + TPM_RC_1"
definition RC_PolicyPCR_pcrDigest :: TPM_RC where [tpm_consts]: "RC_PolicyPCR_pcrDigest = TPM_RC_P + TPM_RC_1"
definition RC_PolicyLocality_locality :: TPM_RC where [tpm_consts]: "RC_PolicyLocality_locality = TPM_RC_P + TPM_RC_1"
definition RC_PolicyNV_operandB :: TPM_RC where [tpm_consts]: "RC_PolicyNV_operandB = TPM_RC_P + TPM_RC_1"
definition RC_PolicyNV_offset :: TPM_RC where [tpm_consts]: "RC_PolicyNV_offset = TPM_RC_P + TPM_RC_2"
definition RC_PolicyCounterTimer_offset :: TPM_RC where [tpm_consts]: "RC_PolicyCounterTimer_offset = TPM_RC_P + TPM_RC_2"
definition RC_PolicyCommandCode_code :: TPM_RC where [tpm_consts]: "RC_PolicyCommandCode_code = TPM_RC_P + TPM_RC_1"
definition RC_PolicyCpHash_cpHashA :: TPM_RC where [tpm_consts]: "RC_PolicyCpHash_cpHashA = TPM_RC_P + TPM_RC_1"
definition RC_PolicyNameHash_nameHash :: TPM_RC where [tpm_consts]: "RC_PolicyNameHash_nameHash = TPM_RC_P + TPM_RC_1"
definition RC_PolicyAuthorize_approvedPolicy :: TPM_RC where [tpm_consts]: "RC_PolicyAuthorize_approvedPolicy = TPM_RC_P + TPM_RC_1"
definition RC_PolicyAuthorize_keySign :: TPM_RC where [tpm_consts]: "RC_PolicyAuthorize_keySign = TPM_RC_P + TPM_RC_3"
definition RC_PolicyAuthorize_checkTicket :: TPM_RC where [tpm_consts]: "RC_PolicyAuthorize_checkTicket = TPM_RC_P + TPM_RC_4"
definition RC_PolicyNvWritten_writtenSet :: TPM_RC where [tpm_consts]: "RC_PolicyNvWritten_writtenSet = TPM_RC_P + TPM_RC_1"
definition RC_PolicyTemplate_templateHash :: TPM_RC where [tpm_consts]: "RC_PolicyTemplate_templateHash = TPM_RC_P + TPM_RC_1"
definition RC_PolicyParameters_pHash :: TPM_RC where [tpm_consts]: "RC_PolicyParameters_pHash = TPM_RC_P + TPM_RC_1"
definition RC_PolicyCapability_operandB :: TPM_RC where [tpm_consts]: "RC_PolicyCapability_operandB = TPM_RC_P + TPM_RC_1"
definition RC_PolicyCapability_offset :: TPM_RC where [tpm_consts]: "RC_PolicyCapability_offset = TPM_RC_P + TPM_RC_2"
definition EXPIRATION_BIT :: u64 where [tpm_consts]: "EXPIRATION_BIT = push_bit 63 1"

section \<open>Authorizations\<close>

text \<open>The output of \<^verbatim>\<open>TPM2_PolicySigned\<close> and \<^verbatim>\<open>TPM2_PolicySecret\<close>: the timeout and the ticket.\<close>

type_synonym auth_out = "bytes \<times> TPMT_TK"

definition null_auth :: "TPM_ST \<Rightarrow> auth_out" where
  "null_auth tag = ([], \<lparr>tk_tag = tag, tk_hierarchy = TPM_RH_NULL, tk_digest = []\<rparr>)"

definition authorization_ticket ::
  "policy_env \<Rightarrow> TPM_ST \<Rightarrow> TPM_HANDLE \<Rightarrow> u64 \<Rightarrow> bytes \<Rightarrow> bytes \<Rightarrow> bytes \<Rightarrow> bytes \<Rightarrow> TPM_RC \<times> auth_out" where
  "authorization_ticket env tag entity authTimeout nonce cpHashA policyRef name =
     (let t = authTimeout AND NOT EXPIRATION_BIT; expiresOnReset = (nonce = []) in
      case TicketComputeAuth (pe_tickets env) (pe_hs env) tag (pe_hierarchy env entity) t expiresOnReset cpHashA policyRef name of
        Inl rc \<Rightarrow> (rc, null_auth tag)
      | Inr tk \<Rightarrow> (TPM_RC_SUCCESS, (be 8 (if expiresOnReset then t OR EXPIRATION_BIT else t), tk)))"

definition TPM2_PolicySigned ::
  "policy_env \<Rightarrow> TPM_HANDLE \<Rightarrow> bytes \<Rightarrow> bytes \<Rightarrow> bytes \<Rightarrow> u32 \<Rightarrow> bytes \<Rightarrow> SESSION \<Rightarrow> ((TPM_RC \<times> auth_out) \<times> SESSION) outcome" where
  "TPM2_PolicySigned env authObject nonce cpHashA policyRef expiration auth se =
     (let none = null_auth TPM_ST_AUTH_SIGNED;
          trial = isTrialPolicy (attributes se);
          authTimeout = (if trial then 0 else ComputeAuthTimeout env se expiration nonce);
          alg = pe_signHashAlg env auth;
          rc1 = (if trial then TPM_RC_SUCCESS
                 else PolicyParameterChecks env se authTimeout cpHashA (Some nonce)
                        RC_PolicySigned_nonceTPM RC_PolicySigned_cpHashA RC_PolicySigned_expiration);
          rc2 = (if trial then TPM_RC_SUCCESS
                 else if CryptHashGetDigestSize alg = 0 then TPM_RC_SCHEME + RC_PolicySigned_auth
                 else let rc = pe_validate env authObject
                        (pe_hash env alg (nonce @ be 4 expiration @ cpHashA @ policyRef)) auth
                      in if rc \<noteq> TPM_RC_SUCCESS then RcSafeAddToResult rc RC_PolicySigned_auth else TPM_RC_SUCCESS)
      in if rc1 \<noteq> TPM_RC_SUCCESS then Ret ((rc1, none), se)
         else if rc2 \<noteq> TPM_RC_SUCCESS then Ret ((rc2, none), se)
         else obind (PolicyContextUpdate env TPM_CC_PolicySigned (pe_name env authObject) (Some policyRef) cpHashA authTimeout se) (\<lambda>se1.
           if sint expiration < 0 \<and> \<not> trial
           then Ret (authorization_ticket env TPM_ST_AUTH_SIGNED authObject authTimeout nonce cpHashA policyRef (pe_name env authObject), se1)
           else Ret ((TPM_RC_SUCCESS, none), se1)))"

definition TPM2_PolicySecret ::
  "policy_env \<Rightarrow> TPM_HANDLE \<Rightarrow> bytes \<Rightarrow> bytes \<Rightarrow> bytes \<Rightarrow> u32 \<Rightarrow> SESSION \<Rightarrow> ((TPM_RC \<times> auth_out) \<times> SESSION) outcome" where
  "TPM2_PolicySecret env authHandle nonce cpHashA policyRef expiration se =
     (let none = null_auth TPM_ST_AUTH_SECRET;
          trial = isTrialPolicy (attributes se);
          authTimeout = (if trial then 0 else ComputeAuthTimeout env se expiration nonce);
          rc1 = (if trial then TPM_RC_SUCCESS
                 else PolicyParameterChecks env se authTimeout cpHashA (Some nonce)
                        RC_PolicySecret_nonceTPM RC_PolicySecret_cpHashA RC_PolicySecret_expiration)
      in if rc1 \<noteq> TPM_RC_SUCCESS then Ret ((rc1, none), se)
         else obind (PolicyContextUpdate env TPM_CC_PolicySecret (pe_name env authHandle) (Some policyRef) cpHashA authTimeout se) (\<lambda>se1.
           if sint expiration < 0 \<and> \<not> trial \<and> \<not> pe_pinPass env authHandle
           then Ret (authorization_ticket env TPM_ST_AUTH_SECRET authHandle authTimeout nonce cpHashA policyRef (pe_name env authHandle), se1)
           else Ret ((TPM_RC_SUCCESS, none), se1)))"

definition TPM2_PolicyTicket ::
  "policy_env \<Rightarrow> bytes \<Rightarrow> bytes \<Rightarrow> bytes \<Rightarrow> bytes \<Rightarrow> TPMT_TK \<Rightarrow> SESSION \<Rightarrow> (TPM_RC \<times> SESSION) outcome" where
  "TPM2_PolicyTicket env tmo cpHashA policyRef authName ticket se =
     (let t = from_be tmo; expiresOnReset = (t AND EXPIRATION_BIT \<noteq> 0); authTimeout = t AND NOT EXPIRATION_BIT in
      if isTrialPolicy (attributes se) then Ret (TPM_RC_ATTRIBUTES + RC_PolicyTicket_policySession, se)
      else if length tmo \<noteq> 8 then Ret (TPM_RC_SIZE + RC_PolicyTicket_timeout, se)
      else
        let rc = PolicyParameterChecks env se authTimeout cpHashA None 0 RC_PolicyTicket_cpHashA RC_PolicyTicket_timeout in
        if rc \<noteq> TPM_RC_SUCCESS then Ret (rc, se)
        else case TicketComputeAuth (pe_tickets env) (pe_hs env) (tk_tag ticket) (tk_hierarchy ticket) authTimeout
                    expiresOnReset cpHashA policyRef authName of
               Inl rc \<Rightarrow> Ret (rc, se)
             | Inr tk \<Rightarrow>
                 if tk_digest ticket \<noteq> tk_digest tk then Ret (TPM_RC_TICKET + RC_PolicyTicket_ticket, se)
                 else pAssert (tk_tag ticket = TPM_ST_AUTH_SIGNED \<or> tk_tag ticket = TPM_ST_AUTH_SECRET)
                   (obind (PolicyContextUpdate env
                       (if tk_tag ticket = TPM_ST_AUTH_SIGNED then TPM_CC_PolicySigned else TPM_CC_PolicySecret)
                       authName (Some policyRef) cpHashA authTimeout se) (\<lambda>se1. Ret (TPM_RC_SUCCESS, se1))))"

section \<open>Alternatives and approvals\<close>

definition zero_digest :: "SESSION \<Rightarrow> bytes" where
  "zero_digest se = replicate (CryptHashGetDigestSize (authHashAlg se)) 0"

definition TPM2_PolicyOR :: "policy_env \<Rightarrow> bytes list \<Rightarrow> SESSION \<Rightarrow> (TPM_RC \<times> SESSION) outcome" where
  "TPM2_PolicyOR env pHashList se =
     (if list_ex (\<lambda>h. isTrialPolicy (attributes se) \<or> u2 se = h) pHashList
      then Ret (TPM_RC_SUCCESS, policy_extend env (be 4 TPM_CC_PolicyOR @ concat pHashList) (se\<lparr>u2 := zero_digest se\<rparr>))
      else Ret (TPM_RC_VALUE + RC_PolicyOR_pHashList, se))"

definition CryptHashIsValidAlg :: "TPM_ALG_ID \<Rightarrow> bool" where
  "CryptHashIsValidAlg alg \<longleftrightarrow> alg \<noteq> TPM_ALG_NULL \<and> CryptHashGetDigestSize alg \<noteq> 0"

definition TPM2_PolicyAuthorize ::
  "policy_env \<Rightarrow> bytes \<Rightarrow> bytes \<Rightarrow> bytes \<Rightarrow> TPMT_TK \<Rightarrow> SESSION \<Rightarrow> (TPM_RC \<times> SESSION) outcome" where
  "TPM2_PolicyAuthorize env approvedPolicy policyRef keySign checkTicket se =
     (let hashAlg = ucast (from_be (take 2 keySign)) :: TPM_ALG_ID in
      if length keySign < 2 then Ret (TPM_RC_SIZE + RC_PolicyAuthorize_keySign, se)
      else if \<not> CryptHashIsValidAlg hashAlg then Ret (TPM_RC_HASH + RC_PolicyAuthorize_keySign, se)
      else if CryptHashGetDigestSize hashAlg \<noteq> length keySign - 2 then Ret (TPM_RC_SIZE + RC_PolicyAuthorize_keySign, se)
      else
        let rc = (if isTrialPolicy (attributes se) then TPM_RC_SUCCESS
                  else if u2 se \<noteq> approvedPolicy then TPM_RC_VALUE + RC_PolicyAuthorize_approvedPolicy
                  else case TicketComputeVerified (pe_tickets env) (pe_hs env) (tk_hierarchy checkTicket)
                              (pe_hash env hashAlg (approvedPolicy @ policyRef)) keySign of
                         Inl rc \<Rightarrow> rc
                       | Inr tk \<Rightarrow> if tk_digest checkTicket \<noteq> tk_digest tk
                                  then TPM_RC_VALUE + RC_PolicyAuthorize_checkTicket else TPM_RC_SUCCESS)
        in if rc \<noteq> TPM_RC_SUCCESS then Ret (rc, se)
           else obind (PolicyContextUpdate env TPM_CC_PolicyAuthorize keySign (Some policyRef) [] 0 (PolicyDigestClear se))
             (\<lambda>se1. Ret (TPM_RC_SUCCESS, se1)))"

text \<open>\<^verbatim>\<open>TPMT_HA_Unmarshal\<close> of what the index holds: algorithm and digest.\<close>

definition TPMT_HA_Unmarshal :: "policy_env \<Rightarrow> bytes \<Rightarrow> TPM_RC + (TPM_ALG_ID \<times> bytes)" where
  "TPMT_HA_Unmarshal env b =
     (let alg = ucast (from_be (take 2 b)) :: TPM_ALG_ID; n = CryptHashGetDigestSize alg in
      if length b < 2 then Inl TPM_RC_INSUFFICIENT
      else if n = 0 \<or> \<not> pe_hashEnabled env alg then Inl TPM_RC_HASH
      else if length (drop 2 b) < n then Inl TPM_RC_INSUFFICIENT
      else Inr (alg, take n (drop 2 b)))"

definition sizeof_TPMT_HA :: nat where
  "sizeof_TPMT_HA = 2 + 64"

definition TPM2_PolicyAuthorizeNV ::
  "policy_env \<Rightarrow> TPM_HANDLE \<Rightarrow> TPM_HANDLE \<Rightarrow> SESSION \<Rightarrow> nv_state \<Rightarrow> ((TPM_RC \<times> SESSION) \<times> nv_state) outcome" where
  "TPM2_PolicyAuthorizeNV env authHandle h se s = with_index h s (\<lambda>i p s1.
     obind (if isTrialPolicy (attributes se) then Ret TPM_RC_SUCCESS
            else
              let rc = NvReadAccessChecks authHandle h (nv_attributes p) in
              if rc \<noteq> TPM_RC_SUCCESS then Ret rc
              else obind (NvGetIndexData (s_cachedNvIndex s1) (Some i) 0 (min (unat (dataSize p)) sizeof_TPMT_HA) s1) (\<lambda>b.
                case TPMT_HA_Unmarshal env b of
                  Inl rc \<Rightarrow> Ret rc
                | Inr (alg, d) \<Rightarrow>
                    Ret (if alg \<noteq> authHashAlg se then TPM_RC_HASH
                         else if take (length (u2 se)) d \<noteq> u2 se then TPM_RC_VALUE else TPM_RC_SUCCESS))) (\<lambda>rc.
     if rc \<noteq> TPM_RC_SUCCESS then Ret ((rc, se), s1)
     else obind (PolicyContextUpdate env TPM_CC_PolicyAuthorizeNV (pe_name env h) None [] 0 (PolicyDigestClear se)) (\<lambda>se1.
       Ret ((TPM_RC_SUCCESS, se1), s1))))"

section \<open>Restrictions\<close>

definition TPMS_PCR_SELECTION_Marshal :: "TPM_ALG_ID \<times> bytes \<Rightarrow> bytes" where
  "TPMS_PCR_SELECTION_Marshal s = be 2 (fst s) @ [word_of_nat (length (snd s))] @ snd s"

definition TPML_PCR_SELECTION_Marshal :: "pcr_selection \<Rightarrow> bytes" where
  "TPML_PCR_SELECTION_Marshal sel = be 4 (word_of_nat (length sel) :: u32) @ concat (map TPMS_PCR_SELECTION_Marshal sel)"

text \<open>The selection that enters the digest is the one that the computation of the PCR digest has filtered.\<close>

definition TPM2_PolicyPCR :: "policy_env \<Rightarrow> bytes \<Rightarrow> pcr_selection \<Rightarrow> SESSION \<Rightarrow> (TPM_RC \<times> SESSION) outcome" where
  "TPM2_PolicyPCR env pcrDigest pcrs se =
     (let (sel, current) = pe_pcrDigest env (authHashAlg se) pcrs;
          trial = isTrialPolicy (attributes se);
          used = (if trial \<and> pcrDigest \<noteq> [] then pcrDigest else current)
      in if \<not> trial \<and> pcrCounter se \<noteq> 0 \<and> pcrCounter se \<noteq> pe_pcrCounter env then Ret (TPM_RC_PCR_CHANGED, se)
         else if \<not> trial \<and> pcrDigest \<noteq> [] \<and> pcrDigest \<noteq> current then Ret (TPM_RC_VALUE + RC_PolicyPCR_pcrDigest, se)
         else
           let se1 = policy_extend env (be 4 TPM_CC_PolicyPCR @ TPML_PCR_SELECTION_Marshal sel @ used) se
           in Ret (TPM_RC_SUCCESS, if trial then se1 else se1\<lparr>pcrCounter := pe_pcrCounter env\<rparr>))"

definition TPM2_PolicyPhysicalPresence :: "policy_env \<Rightarrow> SESSION \<Rightarrow> (TPM_RC \<times> SESSION) outcome" where
  "TPM2_PolicyPhysicalPresence env se =
     (let se1 = policy_extend env (be 4 TPM_CC_PolicyPhysicalPresence) se
      in Ret (TPM_RC_SUCCESS, se1\<lparr>attributes := (attributes se1)\<lparr>isPPRequired := True\<rparr>\<rparr>))"

definition TPM2_PolicyLocality :: "policy_env \<Rightarrow> u8 \<Rightarrow> SESSION \<Rightarrow> (TPM_RC \<times> SESSION) outcome" where
  "TPM2_PolicyLocality env locality se =
     (let prev = commandLocality se;
          prev1 = (if prev = 0 then 0x1F else prev) AND locality;
          setting = (if locality < 32 then prev1 else locality)
      in if locality = 0 then Ret (TPM_RC_RANGE + RC_PolicyLocality_locality, se)
         else if prev \<noteq> 0 \<and> (prev < 32) \<noteq> (locality < 32) then Ret (TPM_RC_RANGE + RC_PolicyLocality_locality, se)
         else if locality < 32 \<and> prev1 = 0 then Ret (TPM_RC_RANGE + RC_PolicyLocality_locality, se)
         else if \<not> locality < 32 \<and> prev \<noteq> 0 \<and> prev \<noteq> locality then Ret (TPM_RC_RANGE + RC_PolicyLocality_locality, se)
         else Ret (TPM_RC_SUCCESS,
           (policy_extend env (be 4 TPM_CC_PolicyLocality @ [locality]) se)\<lparr>commandLocality := setting\<rparr>))"

definition policy_args :: "policy_env \<Rightarrow> SESSION \<Rightarrow> bytes \<Rightarrow> bytes" where
  "policy_args env se b = pe_hash env (authHashAlg se) b"

definition TPM2_PolicyNV ::
  "policy_env \<Rightarrow> TPM_HANDLE \<Rightarrow> TPM_HANDLE \<Rightarrow> bytes \<Rightarrow> u16 \<Rightarrow> u16 \<Rightarrow> SESSION \<Rightarrow> nv_state
     \<Rightarrow> ((TPM_RC \<times> SESSION) \<times> nv_state) outcome" where
  "TPM2_PolicyNV env authHandle h operandB offset operation se s =
     obind (if isTrialPolicy (attributes se) then Ret (TPM_RC_SUCCESS, s)
            else with_index h s (\<lambda>i p s1.
              let rc = NvReadAccessChecks authHandle h (nv_attributes p) in
              if rc \<noteq> TPM_RC_SUCCESS then Ret (rc, s1)
              else if offset > dataSize p then Ret (TPM_RC_VALUE + RC_PolicyNV_offset, s1)
              else if unat (dataSize p) - unat offset < length operandB then Ret (TPM_RC_SIZE + RC_PolicyNV_operandB, s1)
              else obind (NvGetIndexData (s_cachedNvIndex s1) (Some i) (unat offset) (length operandB) s1) (\<lambda>d.
                obind (PolicySptCheckCondition (pe_stale env) operation d operandB) (\<lambda>ok.
                  Ret (if ok then TPM_RC_SUCCESS else TPM_RC_POLICY, s1))))) (\<lambda>(rc, s1).
       if rc \<noteq> TPM_RC_SUCCESS then Ret ((rc, se), s1)
       else Ret ((TPM_RC_SUCCESS, policy_extend env (be 4 TPM_CC_PolicyNV
              @ policy_args env se (operandB @ be 2 offset @ be 2 operation) @ pe_name env h) se), s1))"

definition TPM2_PolicyCounterTimer ::
  "policy_env \<Rightarrow> bytes \<Rightarrow> u16 \<Rightarrow> u16 \<Rightarrow> SESSION \<Rightarrow> (TPM_RC \<times> SESSION) outcome" where
  "TPM2_PolicyCounterTimer env operandB offset operation se =
     (let info = pe_timeInfo env; trial = isTrialPolicy (attributes se) in
      if unat offset > length info then Ret (TPM_RC_VALUE + RC_PolicyCounterTimer_offset, se)
      else if unat offset + length operandB > length info then Ret (TPM_RC_RANGE, se)
      else if \<not> trial \<and> unat offset < 16 \<and> pe_NvStatus env \<noteq> TPM_RC_SUCCESS then Ret (pe_NvStatus env, se)
      else obind (if trial then Ret True
                  else PolicySptCheckCondition (pe_stale env) operation (slice (unat offset) (length operandB) info) operandB) (\<lambda>ok.
        if \<not> ok then Ret (TPM_RC_POLICY, se)
        else Ret (TPM_RC_SUCCESS, policy_extend env (be 4 TPM_CC_PolicyCounterTimer
               @ policy_args env se (operandB @ be 2 offset @ be 2 operation)) se)))"

definition TPM2_PolicyCommandCode :: "policy_env \<Rightarrow> TPM_CC \<Rightarrow> SESSION \<Rightarrow> (TPM_RC \<times> SESSION) outcome" where
  "TPM2_PolicyCommandCode env code se =
     (if commandCode se \<noteq> 0 \<and> commandCode se \<noteq> code then Ret (TPM_RC_VALUE + RC_PolicyCommandCode_code, se)
      else if \<not> pe_implemented env code then Ret (TPM_RC_POLICY_CC + RC_PolicyCommandCode_code, se)
      else Ret (TPM_RC_SUCCESS,
        (policy_extend env (be 4 TPM_CC_PolicyCommandCode @ be 4 code) se)\<lparr>commandCode := code\<rparr>))"

definition TPM2_PolicyCpHash :: "policy_env \<Rightarrow> bytes \<Rightarrow> SESSION \<Rightarrow> (TPM_RC \<times> SESSION) outcome" where
  "TPM2_PolicyCpHash env cpHashA se =
     (if length cpHashA \<noteq> CryptHashGetDigestSize (authHashAlg se) then Ret (TPM_RC_SIZE + RC_PolicyCpHash_cpHashA, se)
      else if IsCpHashUnionOccupied (attributes se) \<and> (\<not> isCpHashDefined (attributes se) \<or> cpHashA \<noteq> u1 se)
      then Ret (TPM_RC_CPHASH, se)
      else Ret (TPM_RC_SUCCESS, set_cpHash cpHashA (policy_extend env (be 4 TPM_CC_PolicyCpHash @ cpHashA) se)))"

definition set_nameHash :: "policy_env \<Rightarrow> bytes \<Rightarrow> SESSION \<Rightarrow> SESSION" where
  "set_nameHash env h se =
     (let se1 = se\<lparr>u1 := h\<rparr> in
      if pe_stateFormatLevel env \<ge> 4 then se1\<lparr>attributes := (attributes se1)\<lparr>isNameHashDefined := True\<rparr>\<rparr> else se1)"

definition TPM2_PolicyNameHash :: "policy_env \<Rightarrow> bytes \<Rightarrow> SESSION \<Rightarrow> (TPM_RC \<times> SESSION) outcome" where
  "TPM2_PolicyNameHash env nameHash se =
     (if length nameHash \<noteq> CryptHashGetDigestSize (authHashAlg se) then Ret (TPM_RC_SIZE + RC_PolicyNameHash_nameHash, se)
      else if IsCpHashUnionOccupied (attributes se) then Ret (TPM_RC_CPHASH, se)
      else Ret (TPM_RC_SUCCESS, set_nameHash env nameHash (policy_extend env (be 4 TPM_CC_PolicyNameHash @ nameHash) se)))"

definition TPM2_PolicyDuplicationSelect ::
  "policy_env \<Rightarrow> bytes \<Rightarrow> bytes \<Rightarrow> bool \<Rightarrow> SESSION \<Rightarrow> (TPM_RC \<times> SESSION) outcome" where
  "TPM2_PolicyDuplicationSelect env objectName newParentName includeObject se =
     (if u1 se \<noteq> [] then Ret (TPM_RC_CPHASH, se)
      else if commandCode se \<noteq> 0 then Ret (TPM_RC_COMMAND_CODE, se)
      else
        let se1 = set_nameHash env (pe_hash env (authHashAlg se) (objectName @ newParentName)) se;
            se2 = policy_extend env (be 4 TPM_CC_PolicyDuplicationSelect @ (if includeObject then objectName else [])
                    @ newParentName @ [of_bool includeObject]) se1
        in Ret (TPM_RC_SUCCESS, se2\<lparr>commandCode := TPM_CC_Duplicate\<rparr>))"

definition TPM2_PolicyAuthValue :: "policy_env \<Rightarrow> SESSION \<Rightarrow> (TPM_RC \<times> SESSION) outcome" where
  "TPM2_PolicyAuthValue env se =
     (let se1 = policy_extend env (be 4 TPM_CC_PolicyAuthValue) se
      in Ret (TPM_RC_SUCCESS, se1\<lparr>attributes := (attributes se1)\<lparr>isAuthValueNeeded := True, isPasswordNeeded := False\<rparr>\<rparr>))"

definition TPM2_PolicyPassword :: "policy_env \<Rightarrow> SESSION \<Rightarrow> (TPM_RC \<times> SESSION) outcome" where
  "TPM2_PolicyPassword env se =
     (let se1 = policy_extend env (be 4 TPM_CC_PolicyAuthValue) se
      in Ret (TPM_RC_SUCCESS, se1\<lparr>attributes := (attributes se1)\<lparr>isPasswordNeeded := True, isAuthValueNeeded := False\<rparr>\<rparr>))"

definition TPM2_PolicyGetDigest :: "SESSION \<Rightarrow> ((TPM_RC \<times> bytes) \<times> SESSION) outcome" where
  "TPM2_PolicyGetDigest se = Ret ((TPM_RC_SUCCESS, u2 se), se)"

definition TPM2_PolicyNvWritten :: "policy_env \<Rightarrow> bool \<Rightarrow> SESSION \<Rightarrow> (TPM_RC \<times> SESSION) outcome" where
  "TPM2_PolicyNvWritten env writtenSet se =
     (if checkNvWritten (attributes se) \<and> nvWrittenState (attributes se) \<noteq> writtenSet
      then Ret (TPM_RC_VALUE + RC_PolicyNvWritten_writtenSet, se)
      else Ret (TPM_RC_SUCCESS, policy_extend env (be 4 TPM_CC_PolicyNvWritten @ [of_bool writtenSet])
        (se\<lparr>attributes := (attributes se)\<lparr>checkNvWritten := True, nvWrittenState := writtenSet\<rparr>\<rparr>)))"

definition TPM2_PolicyTemplate :: "policy_env \<Rightarrow> bytes \<Rightarrow> SESSION \<Rightarrow> (TPM_RC \<times> SESSION) outcome" where
  "TPM2_PolicyTemplate env templateHash se =
     (if IsCpHashUnionOccupied (attributes se) \<and> (\<not> isTemplateHashDefined (attributes se) \<or> templateHash \<noteq> u1 se)
      then Ret (TPM_RC_CPHASH, se)
      else if length templateHash \<noteq> CryptHashGetDigestSize (authHashAlg se)
      then Ret (TPM_RC_SIZE + RC_PolicyTemplate_templateHash, se)
      else
        let se1 = policy_extend env (be 4 TPM_CC_PolicyTemplate @ templateHash) se
        in Ret (TPM_RC_SUCCESS, se1\<lparr>u1 := templateHash, attributes := (attributes se1)\<lparr>isTemplateHashDefined := True\<rparr>\<rparr>))"

definition TPM2_PolicyParameters :: "policy_env \<Rightarrow> bytes \<Rightarrow> SESSION \<Rightarrow> (TPM_RC \<times> SESSION) outcome" where
  "TPM2_PolicyParameters env pHash se =
     (if length pHash \<noteq> CryptHashGetDigestSize (authHashAlg se) then Ret (TPM_RC_SIZE + RC_PolicyParameters_pHash, se)
      else if IsCpHashUnionOccupied (attributes se) then Ret (TPM_RC_CPHASH, se)
      else
        let se1 = policy_extend env (be 4 TPM_CC_PolicyParameters @ pHash) se
        in Ret (TPM_RC_SUCCESS, se1\<lparr>u1 := pHash, attributes := (attributes se1)\<lparr>isParametersHashDefined := True\<rparr>\<rparr>))"

text \<open>
  The marshaled property that the \<^verbatim>\<open>switch\<close> over the capabilities finds, empty when there is none, or the
  error for an unsupported capability or property, is a parameter.
\<close>

definition TPM2_PolicyCapability ::
  "policy_env \<Rightarrow> bytes \<Rightarrow> u16 \<Rightarrow> u16 \<Rightarrow> u32 \<Rightarrow> u32 \<Rightarrow> SESSION \<Rightarrow> (TPM_RC \<times> SESSION) outcome" where
  "TPM2_PolicyCapability env operandB offset operation cap property se =
     obind (if isTrialPolicy (attributes se) then Ret TPM_RC_SUCCESS
            else case pe_capability env cap property of
              Inl rc \<Rightarrow> Ret rc
            | Inr data \<Rightarrow>
                if data = [] then Ret (if operation \<noteq> TPM_EO_NEQ then TPM_RC_POLICY else TPM_RC_SUCCESS)
                else if unat offset > length data then Ret (TPM_RC_VALUE + RC_PolicyCapability_offset)
                else if length data - unat offset < length operandB then Ret (TPM_RC_SIZE + RC_PolicyCapability_operandB)
                else obind (PolicySptCheckCondition (pe_stale env) operation (slice (unat offset) (length operandB) data) operandB)
                  (\<lambda>ok. Ret (if ok then TPM_RC_SUCCESS else TPM_RC_POLICY))) (\<lambda>rc.
       if rc \<noteq> TPM_RC_SUCCESS then Ret (rc, se)
       else Ret (TPM_RC_SUCCESS, policy_extend env (be 4 TPM_CC_PolicyCapability
              @ policy_args env se (operandB @ be 2 offset @ be 2 operation @ be 4 cap @ be 4 property)) se))"

definition TPM2_PolicyRestart :: "SESSION \<Rightarrow> (TPM_RC \<times> SESSION) outcome" where
  "TPM2_PolicyRestart se = Ret (TPM_RC_SUCCESS, SessionResetPolicyData se)"

section \<open>Application to a session slot\<close>

definition on_policy_session ::
  "TPM_HANDLE \<Rightarrow> (SESSION \<Rightarrow> ('a \<times> SESSION) outcome) \<Rightarrow> sess_state \<Rightarrow> ('a \<times> sess_state) outcome" where
  "on_policy_session h cmd s = obind (SessionGet s h) (\<lambda>k.
     obind (cmd (session (s_sessions s ! k))) (\<lambda>(x, se).
       Ret (x, s\<lparr>s_sessions := (s_sessions s)[k := (s_sessions s ! k)\<lparr>session := se\<rparr>]\<rparr>)))"

end
