(* ===== verification/Policy_Check.thy ===== *)
theory Policy_Check
  imports Policy_Commands
begin

text \<open>
  The use of a policy session for an authorization, \<^verbatim>\<open>CheckPolicyAuthSession\<close> of
  \<^verbatim>\<open>SessionProcess.c\<close> with the digests of the command that it compares. \<open>COMMAND\<close> holds the members of
  the C structure that the digests read; the digest cache of the C structure is filled from the
  same octets and is not modelled.
\<close>

section \<open>Commands\<close>

definition TPM_CC_CreatePrimary :: TPM_CC where [tpm_consts]: "TPM_CC_CreatePrimary = 0x131"
definition TPM_CC_Create :: TPM_CC where [tpm_consts]: "TPM_CC_Create = 0x153"
definition TPM_CC_CreateLoaded :: TPM_CC where [tpm_consts]: "TPM_CC_CreateLoaded = 0x191"

datatype AUTH_ROLE = AUTH_NONE | AUTH_USER | AUTH_ADMIN | AUTH_DUP

record COMMAND =
  c_code :: TPM_CC
  c_handles :: "TPM_HANDLE list"
  c_parameterBuffer :: bytes

text \<open>
  What the check reads beside the policy environment: the policy of an entity, the role of a handle
  of a command, the locality and the physical presence of the platform.
\<close>

record check_env = policy_env +
  ce_authPolicy :: "TPM_HANDLE \<Rightarrow> TPM_ALG_ID \<times> bytes"
  ce_role :: "TPM_CC \<Rightarrow> nat \<Rightarrow> AUTH_ROLE"
  ce_locality :: u8
  ce_physicalPresence :: bool

section \<open>Digests of a command\<close>

definition handle_names :: "'a policy_env_scheme \<Rightarrow> COMMAND \<Rightarrow> bytes" where
  "handle_names env c = concat (map (pe_name env) (c_handles c))"

definition ComputeCpHash :: "'a policy_env_scheme \<Rightarrow> TPM_ALG_ID \<Rightarrow> COMMAND \<Rightarrow> bytes" where
  "ComputeCpHash env alg c = pe_hash env alg (be 4 (c_code c) @ handle_names env c @ c_parameterBuffer c)"

text \<open>
  The second parameter as a sized buffer. The remaining size is signed in the C code: a first size that
  runs past the end makes it negative. Whatever is then read for the second size, it exceeds the remaining
  size, and the function returns \<^verbatim>\<open>FALSE\<close>.
\<close>

definition second_parameter :: "bytes \<Rightarrow> bytes option" where
  "second_parameter b =
     (if length b < 2 then None
      else
        let n1 = unat (from_be (take 2 b));
            rest = drop (2 + n1) b
        in if length b < 2 + n1 + 2 then None
           else
             let n2 = unat (from_be (take 2 rest))
             in if n2 > length rest - 2 then None else Some (take n2 (drop 2 rest)))"

definition CompareTemplateHash :: "'a policy_env_scheme \<Rightarrow> COMMAND \<Rightarrow> SESSION \<Rightarrow> bool" where
  "CompareTemplateHash env c se \<longleftrightarrow>
     c_code c \<in> {TPM_CC_Create, TPM_CC_CreatePrimary, TPM_CC_CreateLoaded} \<and>
     (case second_parameter (c_parameterBuffer c) of
        None \<Rightarrow> False
      | Some t \<Rightarrow> u1 se = pe_hash env (authHashAlg se) t)"

text \<open>The name hash is compared in the length of the computed digest, whatever the size in the session is.\<close>

definition CompareNameHash :: "'a policy_env_scheme \<Rightarrow> COMMAND \<Rightarrow> SESSION \<Rightarrow> bool" where
  "CompareNameHash env c se \<longleftrightarrow>
     (let h = pe_hash env (authHashAlg se) (handle_names env c) in take (length h) (u1 se) = h)"

definition CompareParametersHash :: "'a policy_env_scheme \<Rightarrow> COMMAND \<Rightarrow> SESSION \<Rightarrow> bool" where
  "CompareParametersHash env c se \<longleftrightarrow>
     u1 se = pe_hash env (authHashAlg se) (be 4 (c_code c) @ c_parameterBuffer c)"

section \<open>The check\<close>

definition locality_allowed :: "u8 \<Rightarrow> u8 \<Rightarrow> bool" where
  "locality_allowed setting locality \<longleftrightarrow>
     setting = 0 \<or>
     (if locality < 5 then setting AND push_bit (unat locality) 1 \<noteq> 0 \<and> \<not> setting > 31
      else if locality > 31 then setting = locality else False)"

definition command_hash_ok :: "'a policy_env_scheme \<Rightarrow> COMMAND \<Rightarrow> SESSION \<Rightarrow> bool" where
  "command_hash_ok env c se \<longleftrightarrow>
     (let a = attributes se in
      if isCpHashDefined a then u1 se = ComputeCpHash env (authHashAlg se) c
      else if pe_stateFormatLevel env \<ge> 4 \<and> isNameHashDefined a then CompareNameHash env c se
      else if isParametersHashDefined a then CompareParametersHash env c se
      else if isTemplateHashDefined a then CompareTemplateHash env c se
      else if pe_stateFormatLevel env < 4 then CompareNameHash env c se
      else False)"

definition CheckPolicyAuthSession ::
  "check_env \<Rightarrow> sess_state \<Rightarrow> COMMAND \<Rightarrow> nat \<Rightarrow> TPM_HANDLE \<Rightarrow> SESSION \<Rightarrow> nv_state \<Rightarrow> (TPM_RC \<times> nv_state) outcome" where
  "CheckPolicyAuthSession env ss c sessionIndex handle se s =
     (let a = attributes se; (policyAlg, authPolicy) = ce_authPolicy env handle in
      if c_code c = TPM_CC_PolicySecret \<and> \<not> isPasswordNeeded a \<and> \<not> isAuthValueNeeded a then Ret (TPM_RC_MODE, s)
      else if \<not> SessionPCRValueIsCurrent ss se then Ret (TPM_RC_PCR_CHANGED, s)
      else if u2 se \<noteq> authPolicy then Ret (TPM_RC_POLICY_FAIL, s)
      else if policyAlg \<noteq> authHashAlg se then Ret (TPM_RC_POLICY_FAIL, s)
      else if timeout se \<noteq> 0 \<and> pe_NvStatus env \<noteq> TPM_RC_SUCCESS then Ret (pe_NvStatus env, s)
      else if timeout se \<noteq> 0 \<and> (timeout se < pe_time env \<or> epoch se \<noteq> pe_timeEpoch env) then Ret (TPM_RC_EXPIRED, s)
      else if commandCode se \<noteq> 0 \<and> commandCode se \<noteq> c_code c then Ret (TPM_RC_POLICY_CC, s)
      else if commandCode se = 0 \<and> ce_role env (c_code c) sessionIndex \<in> {AUTH_ADMIN, AUTH_DUP}
      then Ret (TPM_RC_POLICY_FAIL, s)
      else if \<not> locality_allowed (commandLocality se) (ce_locality env) then Ret (TPM_RC_LOCALITY, s)
      else if isPPRequired a \<and> \<not> ce_physicalPresence env then Ret (TPM_RC_PP, s)
      else if u1 se \<noteq> [] \<and> \<not> command_hash_ok env c se then Ret (TPM_RC_POLICY_FAIL, s)
      else if checkNvWritten a then
        if HandleGetType handle \<noteq> TPM_HT_NV_INDEX then Ret (TPM_RC_POLICY_FAIL, s)
        else with_index handle s (\<lambda>i p s1.
          Ret (if na_WRITTEN (nv_attributes p) \<noteq> nvWrittenState a then TPM_RC_POLICY_FAIL else TPM_RC_SUCCESS, s1))
      else Ret (TPM_RC_SUCCESS, s))"

end
