(* ===== verification/Policy_Runs.thy ===== *)
theory Policy_Runs
  imports Policy_Check
begin

text \<open>
  Policies and runs. A policy, as its author means it, is a tree of assertions and alternatives; its
  digest is what an entity carries as its policy. A run is the sequence of policy commands that a
  session sees. Both are related to the members that a session records.
\<close>

section \<open>Assertions\<close>

text \<open>
  An assertion enters a digest as its command code and arguments in one hash, for three commands followed by
  the policy reference in a second hash.
\<close>

datatype passert = Assert TPM_CC bytes "bytes option"

fun blocks :: "passert \<Rightarrow> bytes list" where
  "blocks (Assert cc b None) = [be 4 cc @ b]"
| "blocks (Assert cc b (Some r)) = [be 4 cc @ b, r]"

definition two_stage :: "TPM_CC \<Rightarrow> bool" where
  "two_stage cc \<longleftrightarrow> cc \<in> {TPM_CC_PolicySigned, TPM_CC_PolicySecret, TPM_CC_PolicyAuthorize}"

definition restarting :: "TPM_CC \<Rightarrow> bool" where
  "restarting cc \<longleftrightarrow> cc \<in> {TPM_CC_PolicyOR, TPM_CC_PolicyAuthorize, TPM_CC_PolicyAuthorizeNV}"

fun assert_wf :: "passert \<Rightarrow> bool" where
  "assert_wf (Assert cc b r) \<longleftrightarrow> (r \<noteq> None) = two_stage cc"

fun assert_cc :: "passert \<Rightarrow> TPM_CC" where
  "assert_cc (Assert cc b r) = cc"

definition extends :: "(bytes \<Rightarrow> bytes) \<Rightarrow> bytes \<Rightarrow> bytes list \<Rightarrow> bytes" where
  "extends H d bs = foldl (\<lambda>d b. H (d @ b)) d bs"

fun extend_msgs :: "(bytes \<Rightarrow> bytes) \<Rightarrow> bytes \<Rightarrow> bytes list \<Rightarrow> bytes list" where
  "extend_msgs H d [] = []"
| "extend_msgs H d (b # bs) = (d @ b) # extend_msgs H (H (d @ b)) bs"

lemma extends_simps [simp]:
  "extends H d [] = d" "extends H d (b # bs) = extends H (H (d @ b)) bs"
  by (simp_all add: extends_def)

section \<open>Policies\<close>

datatype policy = Unrestricted | And policy passert | Or "policy list" | Approved passert

fun policy_digest :: "(bytes \<Rightarrow> bytes) \<Rightarrow> nat \<Rightarrow> policy \<Rightarrow> bytes" where
  "policy_digest H n Unrestricted = replicate n 0"
| "policy_digest H n (And p a) = extends H (policy_digest H n p) (blocks a)"
| "policy_digest H n (Or ps) = H (replicate n 0 @ be 4 TPM_CC_PolicyOR @ concat (map (policy_digest H n) ps))"
| "policy_digest H n (Approved a) = extends H (replicate n 0) (blocks a)"

fun policy_msgs :: "(bytes \<Rightarrow> bytes) \<Rightarrow> nat \<Rightarrow> policy \<Rightarrow> bytes list" where
  "policy_msgs H n Unrestricted = []"
| "policy_msgs H n (And p a) = policy_msgs H n p @ extend_msgs H (policy_digest H n p) (blocks a)"
| "policy_msgs H n (Or ps) = concat (map (policy_msgs H n) ps)
     @ [replicate n 0 @ be 4 TPM_CC_PolicyOR @ concat (map (policy_digest H n) ps)]"
| "policy_msgs H n (Approved a) = extend_msgs H (replicate n 0) (blocks a)"

fun policy_wf :: "policy \<Rightarrow> bool" where
  "policy_wf Unrestricted \<longleftrightarrow> True"
| "policy_wf (And p a) \<longleftrightarrow> policy_wf p \<and> assert_wf a \<and> \<not> restarting (assert_cc a)"
| "policy_wf (Or ps) \<longleftrightarrow> list_all policy_wf ps"
| "policy_wf (Approved a) \<longleftrightarrow> assert_wf a \<and> assert_cc a \<in> {TPM_CC_PolicyAuthorize, TPM_CC_PolicyAuthorizeNV}"

text \<open>
  The digests of a \<^verbatim>\<open>TPM2_PolicyOR\<close> enter the hash without their sizes. A policy is clear of a digest when
  each of its alternatives contains the digest only as one of the listed digests, not across them.
\<close>

definition occurs_in :: "bytes \<Rightarrow> bytes \<Rightarrow> bool" where
  "occurs_in d b \<longleftrightarrow> list_ex (\<lambda>k. take (length d) (drop k b) = d) [0..<Suc (length b)]"

fun policy_clear :: "(bytes \<Rightarrow> bytes) \<Rightarrow> nat \<Rightarrow> bytes \<Rightarrow> policy \<Rightarrow> bool" where
  "policy_clear H n d Unrestricted \<longleftrightarrow> True"
| "policy_clear H n d (And p a) \<longleftrightarrow> policy_clear H n d p"
| "policy_clear H n d (Or ps) \<longleftrightarrow> list_all (policy_clear H n d) ps \<and>
     (occurs_in d (concat (map (policy_digest H n) ps)) \<longrightarrow> d \<in> set (map (policy_digest H n) ps))"
| "policy_clear H n d (Approved a) \<longleftrightarrow> True"

section \<open>Commands and runs\<close>

datatype policy_cmd =
    PolicySigned TPM_HANDLE bytes bytes bytes u32 bytes
  | PolicySecret TPM_HANDLE bytes bytes bytes u32
  | PolicyTicket bytes bytes bytes bytes TPMT_TK
  | PolicyOR "bytes list"
  | PolicyAuthorize bytes bytes bytes TPMT_TK
  | PolicyAuthorizeNV TPM_HANDLE TPM_HANDLE
  | PolicyPCR bytes pcr_selection
  | PolicyPhysicalPresence
  | PolicyLocality u8
  | PolicyNV TPM_HANDLE TPM_HANDLE bytes u16 u16
  | PolicyCounterTimer bytes u16 u16
  | PolicyCommandCode TPM_CC
  | PolicyCpHash bytes
  | PolicyNameHash bytes
  | PolicyDuplicationSelect bytes bytes bool
  | PolicyAuthValue
  | PolicyPassword
  | PolicyGetDigest
  | PolicyNvWritten bool
  | PolicyTemplate bytes
  | PolicyParameters bytes
  | PolicyCapability bytes u16 u16 u32 u32

definition keep_nv :: "nv_state \<Rightarrow> 'a outcome \<Rightarrow> ('a \<times> nv_state) outcome" where
  "keep_nv s r = obind r (\<lambda>x. Ret (x, s))"

definition drop_out :: "((TPM_RC \<times> 'a) \<times> SESSION) outcome \<Rightarrow> (TPM_RC \<times> SESSION) outcome" where
  "drop_out r = obind r (\<lambda>((rc, x), se). Ret (rc, se))"

fun policy_exec :: "policy_env \<Rightarrow> policy_cmd \<Rightarrow> SESSION \<Rightarrow> nv_state \<Rightarrow> ((TPM_RC \<times> SESSION) \<times> nv_state) outcome" where
  "policy_exec env (PolicySigned k nonce cp r e au) se s = keep_nv s (drop_out (TPM2_PolicySigned env k nonce cp r e au se))"
| "policy_exec env (PolicySecret h nonce cp r e) se s = keep_nv s (drop_out (TPM2_PolicySecret env h nonce cp r e se))"
| "policy_exec env (PolicyTicket tmo cp r nm tk) se s = keep_nv s (TPM2_PolicyTicket env tmo cp r nm tk se)"
| "policy_exec env (PolicyOR hs) se s = keep_nv s (TPM2_PolicyOR env hs se)"
| "policy_exec env (PolicyAuthorize ap r k tk) se s = keep_nv s (TPM2_PolicyAuthorize env ap r k tk se)"
| "policy_exec env (PolicyAuthorizeNV ah h) se s = TPM2_PolicyAuthorizeNV env ah h se s"
| "policy_exec env (PolicyPCR d sel) se s = keep_nv s (TPM2_PolicyPCR env d sel se)"
| "policy_exec env PolicyPhysicalPresence se s = keep_nv s (TPM2_PolicyPhysicalPresence env se)"
| "policy_exec env (PolicyLocality l) se s = keep_nv s (TPM2_PolicyLocality env l se)"
| "policy_exec env (PolicyNV ah h b off op) se s = TPM2_PolicyNV env ah h b off op se s"
| "policy_exec env (PolicyCounterTimer b off op) se s = keep_nv s (TPM2_PolicyCounterTimer env b off op se)"
| "policy_exec env (PolicyCommandCode cc) se s = keep_nv s (TPM2_PolicyCommandCode env cc se)"
| "policy_exec env (PolicyCpHash h) se s = keep_nv s (TPM2_PolicyCpHash env h se)"
| "policy_exec env (PolicyNameHash h) se s = keep_nv s (TPM2_PolicyNameHash env h se)"
| "policy_exec env (PolicyDuplicationSelect ob np inc) se s = keep_nv s (TPM2_PolicyDuplicationSelect env ob np inc se)"
| "policy_exec env PolicyAuthValue se s = keep_nv s (TPM2_PolicyAuthValue env se)"
| "policy_exec env PolicyPassword se s = keep_nv s (TPM2_PolicyPassword env se)"
| "policy_exec env PolicyGetDigest se s = keep_nv s (drop_out (TPM2_PolicyGetDigest se))"
| "policy_exec env (PolicyNvWritten w) se s = keep_nv s (TPM2_PolicyNvWritten env w se)"
| "policy_exec env (PolicyTemplate h) se s = keep_nv s (TPM2_PolicyTemplate env h se)"
| "policy_exec env (PolicyParameters h) se s = keep_nv s (TPM2_PolicyParameters env h se)"
| "policy_exec env (PolicyCapability b off op cap pr) se s = keep_nv s (TPM2_PolicyCapability env b off op cap pr se)"

text \<open>The assertion that a command adds to the digest when it succeeds.\<close>

fun contribution :: "policy_env \<Rightarrow> TPM_ALG_ID \<Rightarrow> policy_cmd \<Rightarrow> passert option" where
  "contribution env alg (PolicySigned k nonce cp r e au) = Some (Assert TPM_CC_PolicySigned (pe_name env k) (Some r))"
| "contribution env alg (PolicySecret h nonce cp r e) = Some (Assert TPM_CC_PolicySecret (pe_name env h) (Some r))"
| "contribution env alg (PolicyTicket tmo cp r nm tk) =
     Some (Assert (if tk_tag tk = TPM_ST_AUTH_SIGNED then TPM_CC_PolicySigned else TPM_CC_PolicySecret) nm (Some r))"
| "contribution env alg (PolicyOR hs) = Some (Assert TPM_CC_PolicyOR (concat hs) None)"
| "contribution env alg (PolicyAuthorize ap r k tk) = Some (Assert TPM_CC_PolicyAuthorize k (Some r))"
| "contribution env alg (PolicyAuthorizeNV ah h) = Some (Assert TPM_CC_PolicyAuthorizeNV (pe_name env h) None)"
| "contribution env alg (PolicyPCR d sel) = Some (Assert TPM_CC_PolicyPCR
     (TPML_PCR_SELECTION_Marshal (fst (pe_pcrDigest env alg sel)) @ snd (pe_pcrDigest env alg sel)) None)"
| "contribution env alg PolicyPhysicalPresence = Some (Assert TPM_CC_PolicyPhysicalPresence [] None)"
| "contribution env alg (PolicyLocality l) = Some (Assert TPM_CC_PolicyLocality [l] None)"
| "contribution env alg (PolicyNV ah h b off op) = Some (Assert TPM_CC_PolicyNV
     (pe_hash env alg (b @ be 2 off @ be 2 op) @ pe_name env h) None)"
| "contribution env alg (PolicyCounterTimer b off op) = Some (Assert TPM_CC_PolicyCounterTimer
     (pe_hash env alg (b @ be 2 off @ be 2 op)) None)"
| "contribution env alg (PolicyCommandCode cc) = Some (Assert TPM_CC_PolicyCommandCode (be 4 cc) None)"
| "contribution env alg (PolicyCpHash h) = Some (Assert TPM_CC_PolicyCpHash h None)"
| "contribution env alg (PolicyNameHash h) = Some (Assert TPM_CC_PolicyNameHash h None)"
| "contribution env alg (PolicyDuplicationSelect ob np inc) = Some (Assert TPM_CC_PolicyDuplicationSelect
     ((if inc then ob else []) @ np @ [of_bool inc]) None)"
| "contribution env alg PolicyAuthValue = Some (Assert TPM_CC_PolicyAuthValue [] None)"
| "contribution env alg PolicyPassword = Some (Assert TPM_CC_PolicyAuthValue [] None)"
| "contribution env alg PolicyGetDigest = None"
| "contribution env alg (PolicyNvWritten w) = Some (Assert TPM_CC_PolicyNvWritten [of_bool w] None)"
| "contribution env alg (PolicyTemplate h) = Some (Assert TPM_CC_PolicyTemplate h None)"
| "contribution env alg (PolicyParameters h) = Some (Assert TPM_CC_PolicyParameters h None)"
| "contribution env alg (PolicyCapability b off op cap pr) = Some (Assert TPM_CC_PolicyCapability
     (pe_hash env alg (b @ be 2 off @ be 2 op @ be 4 cap @ be 4 pr)) None)"

text \<open>The digest that the assertion extends, and the messages that are hashed.\<close>

definition extended_digest :: "nat \<Rightarrow> passert \<Rightarrow> SESSION \<Rightarrow> bytes" where
  "extended_digest n a se = (if restarting (assert_cc a) then replicate n 0 else u2 se)"

definition cmd_msgs :: "policy_env \<Rightarrow> policy_cmd \<Rightarrow> SESSION \<Rightarrow> bytes list" where
  "cmd_msgs env cmd se = (let alg = authHashAlg se in
     case contribution env alg cmd of
       None \<Rightarrow> []
     | Some a \<Rightarrow> extend_msgs (pe_hash env alg) (extended_digest (CryptHashGetDigestSize alg) a se) (blocks a))"

text \<open>
  A policy session (not a trial) from its creation or restart. \<open>hist\<close> holds the commands since then, the
  latest first, each with what it saw of the rest of the TPM; \<open>M\<close> bounds the messages hashed. The use of the
  session for an authorization changes its nonce and the flag \<open>includeAuth\<close>, and a use that does not end the
  session resets its policy data.
\<close>

type_synonym policy_event = "policy_env \<times> nv_state \<times> policy_cmd"

definition fresh_policy :: "TPM_ALG_ID \<Rightarrow> SESSION \<Rightarrow> bool" where
  "fresh_policy alg se \<longleftrightarrow> authHashAlg se = alg \<and> u1 se = [] \<and> u2 se = replicate (CryptHashGetDigestSize alg) 0
     \<and> \<not> isTrialPolicy (attributes se) \<and> \<not> IsCpHashUnionOccupied (attributes se)"

definition env_ok :: "(bytes \<Rightarrow> bytes) \<Rightarrow> TPM_ALG_ID \<Rightarrow> 'a policy_env_scheme \<Rightarrow> bool" where
  "env_ok H alg env \<longleftrightarrow> pe_hash env alg = H \<and> CryptHashGetDigestSize alg \<noteq> 0
     \<and> (\<forall>m. length (H m) = CryptHashGetDigestSize alg) \<and> pe_stateFormatLevel env \<ge> 4 \<and> pe_pcrCounter env \<noteq> 0
     \<and> \<not> pe_implemented env 0 \<and> (\<forall>cap pr. pe_capability env cap pr \<noteq> Inl TPM_RC_SUCCESS)"

inductive policy_run :: "(bytes \<Rightarrow> bytes) \<Rightarrow> TPM_ALG_ID \<Rightarrow> bytes set \<Rightarrow> policy_event list \<Rightarrow> SESSION \<Rightarrow> bool"
  for H alg M where
  run_start: "fresh_policy alg se \<Longrightarrow> policy_run H alg M [] se"
| run_cmd: "policy_run H alg M hist se \<Longrightarrow> env_ok H alg env \<Longrightarrow> policy_exec env cmd se s = Ret ((rc, se'), s') \<Longrightarrow>
    set (cmd_msgs env cmd se) \<subseteq> M \<Longrightarrow> policy_run H alg M ((env, s, cmd) # hist) se'"
| run_restart: "policy_run H alg M hist se \<Longrightarrow> TPM2_PolicyRestart se = Ret (rc, se') \<Longrightarrow> policy_run H alg M [] se'"
| run_use: "policy_run H alg M hist se \<Longrightarrow>
    policy_run H alg M hist (se\<lparr>nonceTPM := nn, attributes := (attributes se)\<lparr>includeAuth := ia\<rparr>\<rparr>)"

section \<open>What a policy demands\<close>

text \<open>The use of a session: the environment of the check, the PCR counter, the command, the authorized handle, the NV state, whether
  the authorization value is demanded, the hash algorithm and the history of the session.\<close>

record policy_use =
  x_env :: check_env
  x_pcrCounter :: u32
  x_command :: COMMAND
  x_handle :: TPM_HANDLE
  x_nv :: nv_state
  x_authNeeded :: bool
  x_alg :: TPM_ALG_ID
  x_hist :: "policy_event list"

text \<open>Assertions that were settled when their command ran: a command of the history that made them, with its evidence.\<close>

fun evidence :: "TPM_ALG_ID \<Rightarrow> passert \<Rightarrow> policy_event \<Rightarrow> bool" where
  "evidence alg a (env, s, PolicySigned k nonce cp r e au) \<longleftrightarrow>
     contribution env alg (PolicySigned k nonce cp r e au) = Some a \<and>
     pe_validate env k (pe_hash env (pe_signHashAlg env au) (nonce @ be 4 e @ cp @ r)) au = TPM_RC_SUCCESS"
| "evidence alg a (env, s, PolicySecret h nonce cp r e) \<longleftrightarrow> contribution env alg (PolicySecret h nonce cp r e) = Some a"
| "evidence alg a (env, s, PolicyTicket tmo cp r nm tk) \<longleftrightarrow>
     contribution env alg (PolicyTicket tmo cp r nm tk) = Some a \<and>
     tk_tag tk \<in> {TPM_ST_AUTH_SIGNED, TPM_ST_AUTH_SECRET} \<and>
     (case TicketComputeAuth (pe_tickets env) (pe_hs env) (tk_tag tk) (tk_hierarchy tk) (from_be tmo AND NOT EXPIRATION_BIT)
             (from_be tmo AND EXPIRATION_BIT \<noteq> 0) cp r nm of
        Inl rc \<Rightarrow> False | Inr t \<Rightarrow> tk_digest t = tk_digest tk)"
| "evidence alg a (env, s, PolicyAuthorize ap r k tk) \<longleftrightarrow>
     contribution env alg (PolicyAuthorize ap r k tk) = Some a \<and>
     (case TicketComputeVerified (pe_tickets env) (pe_hs env) (tk_hierarchy tk)
             (pe_hash env (ucast (from_be (take 2 k))) (ap @ r)) k of
        Inl rc \<Rightarrow> False | Inr t \<Rightarrow> tk_digest t = tk_digest tk)"
| "evidence alg a (env, s, PolicyAuthorizeNV ah h) \<longleftrightarrow> contribution env alg (PolicyAuthorizeNV ah h) = Some a"
| "evidence alg a (env, s, PolicyNV ah h b off op) \<longleftrightarrow>
     contribution env alg (PolicyNV ah h b off op) = Some a \<and>
     with_index h s (\<lambda>i p s1. obind (NvGetIndexData (s_cachedNvIndex s1) (Some i) (unat off) (length b) s1) (\<lambda>d.
       PolicySptCheckCondition (pe_stale env) op d b)) = Ret True"
| "evidence alg a (env, s, PolicyCounterTimer b off op) \<longleftrightarrow>
     contribution env alg (PolicyCounterTimer b off op) = Some a \<and>
     PolicySptCheckCondition (pe_stale env) op (slice (unat off) (length b) (pe_timeInfo env)) b = Ret True"
| "evidence alg a (env, s, PolicyCapability b off op cap pr) \<longleftrightarrow>
     contribution env alg (PolicyCapability b off op cap pr) = Some a \<and>
     (case pe_capability env cap pr of
        Inl rc \<Rightarrow> False
      | Inr data \<Rightarrow> if data = [] then op = TPM_EO_NEQ
                    else PolicySptCheckCondition (pe_stale env) op (slice (unat off) (length b) data) b = Ret True)"
| "evidence alg a _ \<longleftrightarrow> False"

definition settled :: "policy_use \<Rightarrow> passert \<Rightarrow> bool" where
  "settled x a \<longleftrightarrow> list_ex (evidence (x_alg x) a) (x_hist x)"

text \<open>Assertions about the command: they hold of the command that is authorized, at the time of the check.\<close>

definition is_cpHash :: "policy_use \<Rightarrow> bytes \<Rightarrow> bool" where
  "is_cpHash x h \<longleftrightarrow> h = ComputeCpHash (x_env x) (x_alg x) (x_command x)"

definition is_nameHash :: "policy_use \<Rightarrow> bytes \<Rightarrow> bool" where
  "is_nameHash x h \<longleftrightarrow> h = pe_hash (x_env x) (x_alg x) (handle_names (x_env x) (x_command x))"

definition is_parametersHash :: "policy_use \<Rightarrow> bytes \<Rightarrow> bool" where
  "is_parametersHash x h \<longleftrightarrow>
     h = pe_hash (x_env x) (x_alg x) (be 4 (c_code (x_command x)) @ c_parameterBuffer (x_command x))"

definition is_templateHash :: "policy_use \<Rightarrow> bytes \<Rightarrow> bool" where
  "is_templateHash x h \<longleftrightarrow>
     c_code (x_command x) \<in> {TPM_CC_Create, TPM_CC_CreatePrimary, TPM_CC_CreateLoaded} \<and>
     (case second_parameter (c_parameterBuffer (x_command x)) of
        None \<Rightarrow> False | Some t \<Rightarrow> h = pe_hash (x_env x) (x_alg x) t)"

definition is_written :: "policy_use \<Rightarrow> bool \<Rightarrow> bool" where
  "is_written x w \<longleftrightarrow> HandleGetType (x_handle x) = TPM_HT_NV_INDEX \<and>
     with_index (x_handle x) (x_nv x) (\<lambda>i p s1. Ret (na_WRITTEN (nv_attributes p))) = Ret w"

text \<open>
  A PCR assertion of the history must be what the command would assert now; a duplication selection names the
  two objects.
\<close>

fun pcr_current :: "policy_use \<Rightarrow> bytes \<Rightarrow> policy_event \<Rightarrow> bool" where
  "pcr_current x b (env, s, PolicyPCR d sel) \<longleftrightarrow>
     b = TPML_PCR_SELECTION_Marshal (fst (pe_pcrDigest (x_env x) (x_alg x) sel)) @ snd (pe_pcrDigest (x_env x) (x_alg x) sel)"
| "pcr_current x b _ \<longleftrightarrow> False"

fun dup_selected :: "policy_use \<Rightarrow> bytes \<Rightarrow> policy_event \<Rightarrow> bool" where
  "dup_selected x b (env, s, PolicyDuplicationSelect ob np inc) \<longleftrightarrow>
     b = (if inc then ob else []) @ np @ [of_bool inc] \<and>
     (let h = pe_hash (x_env x) (x_alg x) (ob @ np) in is_nameHash x h \<or> is_cpHash x h)"
| "dup_selected x b _ \<longleftrightarrow> False"

fun assertion_holds :: "policy_use \<Rightarrow> passert \<Rightarrow> bool" where
  "assertion_holds x (Assert cc b r) \<longleftrightarrow>
     (if cc = TPM_CC_PolicyCommandCode then b = be 4 (c_code (x_command x))
      else if cc = TPM_CC_PolicyLocality then
        (case b of [l] \<Rightarrow> l \<noteq> 0 \<and> locality_allowed l (ce_locality (x_env x)) | _ \<Rightarrow> False)
      else if cc = TPM_CC_PolicyPhysicalPresence then ce_physicalPresence (x_env x)
      else if cc = TPM_CC_PolicyAuthValue then x_authNeeded x
      else if cc = TPM_CC_PolicyCpHash then is_cpHash x b
      else if cc = TPM_CC_PolicyNameHash then is_nameHash x b \<or> is_cpHash x b
      else if cc = TPM_CC_PolicyParameters then is_parametersHash x b \<or> is_cpHash x b
      else if cc = TPM_CC_PolicyTemplate then is_templateHash x b \<or> is_cpHash x b
      else if cc = TPM_CC_PolicyDuplicationSelect then
        c_code (x_command x) = TPM_CC_Duplicate \<and> list_ex (dup_selected x b) (x_hist x)
      else if cc = TPM_CC_PolicyNvWritten then (case b of [w] \<Rightarrow> is_written x (w \<noteq> 0) | _ \<Rightarrow> False)
      else if cc = TPM_CC_PolicyPCR then list_ex (pcr_current x b) (x_hist x)
      else settled x (Assert cc b r))"

fun policy_holds :: "policy_use \<Rightarrow> policy \<Rightarrow> bool" where
  "policy_holds x Unrestricted \<longleftrightarrow> True"
| "policy_holds x (And p a) \<longleftrightarrow> policy_holds x p \<and> assertion_holds x a"
| "policy_holds x (Or ps) \<longleftrightarrow> list_ex (policy_holds x) ps"
| "policy_holds x (Approved a) \<longleftrightarrow> settled x a"

end
