(* ===== verification/Policy_Digests.thy ===== *)
theory Policy_Digests
  imports Policy_Runs
begin

text \<open>
  A policy digest determines the last assertion and the digest that it extends, when no two of the messages
  concerned collide and none of them hashes to the start value. An assertion takes one or two hashes;
  completeness of a digest excludes the confusion of a whole digest with one between the two hashes.
\<close>

definition collision_free :: "(bytes \<Rightarrow> bytes) \<Rightarrow> nat \<Rightarrow> bytes set \<Rightarrow> bool" where
  "collision_free H n M \<longleftrightarrow> inj_on H M \<and> (\<forall>m\<in>M. length (H m) = n \<and> H m \<noteq> replicate n 0)"

lemma collision_freeD:
  assumes "collision_free H n M" "m \<in> M"
  shows "length (H m) = n" "H m \<noteq> replicate n 0" "m' \<in> M \<Longrightarrow> H m = H m' \<longleftrightarrow> m = m'"
  using assms by (auto simp: collision_free_def inj_on_eq_iff)

lemma collision_free_extend:
  assumes "collision_free H n M" "d @ b \<in> M" "d' @ b' \<in> M" "length d = n" "length d' = n"
  shows "H (d @ b) = H (d' @ b') \<longleftrightarrow> d = d' \<and> b = b'"
  using collision_freeD(3) [OF assms(1) assms(2) assms(3)] assms(4,5) by simp

section \<open>Shapes\<close>

definition opens_two_stage :: "bytes \<Rightarrow> bool" where
  "opens_two_stage b \<longleftrightarrow> (\<exists>cc r. two_stage cc \<and> b = be 4 cc @ r)"

definition assertion_shape :: "bytes list \<Rightarrow> bool" where
  "assertion_shape bs \<longleftrightarrow> (\<exists>b. bs = [b] \<and> \<not> opens_two_stage b) \<or> (\<exists>b r. bs = [b, r] \<and> opens_two_stage b)"

lemma be4_inject: "be 4 v = be 4 (w :: u32) \<Longrightarrow> v = w"
proof -
  assume a: "be 4 v = be 4 w"
  show ?thesis
  proof (rule bit_word_eqI)
    fix n assume n: "n < LENGTH(32)"
    have e: "ucast (drop_bit (8 * k) v) = (ucast (drop_bit (8 * k) w) :: u8)" if "k < 4" for k
      using a that by (auto simp: numeral_eq_Suc less_Suc_eq)
    have "bit (ucast (drop_bit (8 * (n div 8)) v) :: u8) (n mod 8) = bit (ucast (drop_bit (8 * (n div 8)) w) :: u8) (n mod 8)"
      using e [of "n div 8"] n by simp
    then show "bit v n = bit w n"
      by (simp add: bit_ucast_iff bit_drop_bit_eq)
  qed
qed

lemma be4_append_inject [simp]: "be 4 (v :: u32) @ xs = be 4 w @ ys \<longleftrightarrow> v = w \<and> xs = ys"
  by (auto dest: be4_inject)

lemma opens_two_stage_be [simp]: "opens_two_stage (be 4 cc @ r) \<longleftrightarrow> two_stage cc"
  by (auto simp: opens_two_stage_def)

lemma blocks_shape: "assert_wf a \<Longrightarrow> assertion_shape (blocks a)"
  by (cases a rule: blocks.cases) (auto simp: assertion_shape_def)

lemma blocks_inject: "assert_wf a \<Longrightarrow> assert_wf a' \<Longrightarrow> blocks a = blocks a' \<Longrightarrow> a = a'"
  by (cases a rule: blocks.cases; cases a' rule: blocks.cases) auto

fun policy_base :: "(bytes \<Rightarrow> bytes) \<Rightarrow> nat \<Rightarrow> policy \<Rightarrow> bytes" where
  "policy_base H n (And p a) = policy_digest H n p"
| "policy_base H n p = replicate n 0"

fun policy_blocks :: "(bytes \<Rightarrow> bytes) \<Rightarrow> nat \<Rightarrow> policy \<Rightarrow> bytes list" where
  "policy_blocks H n Unrestricted = []"
| "policy_blocks H n (And p a) = blocks a"
| "policy_blocks H n (Or ps) = [be 4 TPM_CC_PolicyOR @ concat (map (policy_digest H n) ps)]"
| "policy_blocks H n (Approved a) = blocks a"

lemma policy_digest_base: "policy_digest H n p = extends H (policy_base H n p) (policy_blocks H n p)"
  by (cases p) simp_all

lemma policy_msgs_base: "set (extend_msgs H (policy_base H n p) (policy_blocks H n p)) \<subseteq> set (policy_msgs H n p)"
  by (cases p) simp_all

lemma policy_base_policy:
  assumes "policy_wf p" "set (policy_msgs H n p) \<subseteq> M"
  obtains q where "policy_wf q" "set (policy_msgs H n q) \<subseteq> M" "policy_base H n p = policy_digest H n q"
proof (cases p)
  case (And q a)
  then show ?thesis using assms that [of q] by simp
qed (use that [of Unrestricted] in simp_all)

lemma or_shape: "assertion_shape [be 4 TPM_CC_PolicyOR @ b]"
  by (simp add: assertion_shape_def two_stage_def tpm_consts)

lemma policy_blocks_shape: "policy_wf p \<Longrightarrow> p \<noteq> Unrestricted \<Longrightarrow> assertion_shape (policy_blocks H n p)"
  by (cases p) (auto intro: blocks_shape or_shape)

lemma extends_length:
  assumes "collision_free H n M" "length d = n" "set (extend_msgs H d bs) \<subseteq> M"
  shows "length (extends H d bs) = n"
  using assms(2,3) by (induction bs arbitrary: d) (simp_all add: collision_freeD(1) [OF assms(1)])

lemma policy_digest_length:
  assumes "collision_free H n M" "set (policy_msgs H n p) \<subseteq> M"
  shows "length (policy_digest H n p) = n"
  using assms(2)
proof (induction p)
  case (And p a)
  then show ?case by (simp add: extends_length [OF assms(1)])
next
  case (Or ps)
  then show ?case by (simp add: collision_freeD(1) [OF assms(1)])
next
  case (Approved a)
  then show ?case by (simp add: extends_length [OF assms(1)])
qed simp

section \<open>Complete digests\<close>

definition complete_digest :: "(bytes \<Rightarrow> bytes) \<Rightarrow> nat \<Rightarrow> bytes set \<Rightarrow> bytes \<Rightarrow> bool" where
  "complete_digest H n M d \<longleftrightarrow> length d = n \<and>
     (\<forall>p b. policy_wf p \<longrightarrow> set (policy_msgs H n p) \<subseteq> M \<longrightarrow> opens_two_stage b \<longrightarrow>
        policy_digest H n p @ b \<in> M \<longrightarrow> d \<noteq> H (policy_digest H n p @ b))"

lemma complete_start: "collision_free H n M \<Longrightarrow> complete_digest H n M (replicate n 0)"
  by (auto simp: complete_digest_def dest: collision_freeD(2))

text \<open>How the last hash of a policy digest can be read.\<close>

lemma policy_digest_last:
  assumes cf: "collision_free H n M" and p: "policy_wf p" "set (policy_msgs H n p) \<subseteq> M"
    and d: "length d = n" "d @ b \<in> M" and eq: "policy_digest H n p = H (d @ b)"
  obtains
    (one) "policy_base H n p = d" "policy_blocks H n p = [b]" "\<not> opens_two_stage b"
  | (two) b1 where "d = H (policy_base H n p @ b1)" "policy_blocks H n p = [b1, b]" "opens_two_stage b1"
      "policy_base H n p @ b1 \<in> M"
proof -
  let ?e = "policy_base H n p"
  have "p \<noteq> Unrestricted" using eq collision_freeD(2) [OF cf d(2)] by auto
  then have sh: "assertion_shape (policy_blocks H n p)" by (rule policy_blocks_shape [OF p(1)])
  have ms: "set (extend_msgs H ?e (policy_blocks H n p)) \<subseteq> M" using policy_msgs_base p(2) by blast
  have e: "length ?e = n"
    using policy_base_policy [OF p] policy_digest_length [OF cf] by metis
  from sh consider b' where "policy_blocks H n p = [b']" "\<not> opens_two_stage b'"
    | b1 r where "policy_blocks H n p = [b1, r]" "opens_two_stage b1"
    by (auto simp: assertion_shape_def)
  then show thesis
  proof cases
    case 1
    then have "H (?e @ b') = H (d @ b)" "?e @ b' \<in> M" using eq ms policy_digest_base [of H n p] by auto
    then have "?e = d" "b' = b" using collision_free_extend [OF cf _ d(2) e d(1)] by auto
    then show ?thesis using one 1 by blast
  next
    case 2
    then have m: "H (H (?e @ b1) @ r) = H (d @ b)" "?e @ b1 \<in> M" "H (?e @ b1) @ r \<in> M"
      using eq ms policy_digest_base [of H n p] by auto
    then have "H (?e @ b1) = d" "r = b"
      using collision_free_extend [OF cf m(3) d(2) collision_freeD(1) [OF cf m(2)] d(1)] by auto
    then show ?thesis using two 2 m(2) by blast
  qed
qed

lemma complete_not_partial:
  assumes cf: "collision_free H n M" and c: "complete_digest H n M d" and b: "opens_two_stage b" "d @ b \<in> M"
    and p: "policy_wf p" "set (policy_msgs H n p) \<subseteq> M"
  shows "policy_digest H n p \<noteq> H (d @ b)"
proof
  assume eq: "policy_digest H n p = H (d @ b)"
  have ld: "length d = n" using c by (simp add: complete_digest_def)
  from cf p ld b(2) eq show False
  proof (cases rule: policy_digest_last)
    case one
    then show ?thesis using b(1) by simp
  next
    case (two b1)
    obtain q where "policy_wf q" "set (policy_msgs H n q) \<subseteq> M" "policy_base H n p = policy_digest H n q"
      using policy_base_policy [OF p] .
    then show ?thesis using c two by (auto simp: complete_digest_def)
  qed
qed

lemma complete_extends:
  assumes cf: "collision_free H n M" and c: "complete_digest H n M d" and sh: "assertion_shape bs"
    and ms: "set (extend_msgs H d bs) \<subseteq> M"
  shows "complete_digest H n M (extends H d bs)"
proof -
  have ld: "length d = n" using c by (simp add: complete_digest_def)
  have "extends H d bs \<noteq> H (policy_digest H n p @ b)"
    if p: "policy_wf p" "set (policy_msgs H n p) \<subseteq> M" and b: "opens_two_stage b" "policy_digest H n p @ b \<in> M" for p b
  proof
    assume eq: "extends H d bs = H (policy_digest H n p @ b)"
    have lp: "length (policy_digest H n p) = n" using policy_digest_length [OF cf p(2)] .
    from sh consider b' where "bs = [b']" "\<not> opens_two_stage b'" | b1 r where "bs = [b1, r]" "opens_two_stage b1"
      by (auto simp: assertion_shape_def)
    then show False
    proof cases
      case 1
      then show ?thesis using eq ms collision_free_extend [OF cf _ b(2) ld lp, of b'] b(1) by simp
    next
      case 2
      then have m: "d @ b1 \<in> M" "H (d @ b1) @ r \<in> M" "H (H (d @ b1) @ r) = H (policy_digest H n p @ b)"
        using ms eq by auto
      then have "H (d @ b1) = policy_digest H n p"
        using collision_free_extend [OF cf m(2) b(2) collision_freeD(1) [OF cf m(1)] lp] by simp
      then show ?thesis using complete_not_partial [OF cf c 2(2) m(1) p] by simp
    qed
  qed
  then show ?thesis using extends_length [OF cf ld ms] by (simp add: complete_digest_def)
qed

theorem policy_digest_unique:
  assumes cf: "collision_free H n M" and c: "complete_digest H n M d" and sh: "assertion_shape bs"
    and ms: "set (extend_msgs H d bs) \<subseteq> M" and p: "policy_wf p" "set (policy_msgs H n p) \<subseteq> M"
    and eq: "policy_digest H n p = extends H d bs"
  shows "policy_base H n p = d \<and> policy_blocks H n p = bs"
proof -
  have ld: "length d = n" using c by (simp add: complete_digest_def)
  obtain q where q: "policy_wf q" "set (policy_msgs H n q) \<subseteq> M" "policy_base H n p = policy_digest H n q"
    using policy_base_policy [OF p] .
  from sh consider b where "bs = [b]" "\<not> opens_two_stage b" | b1 r where "bs = [b1, r]" "opens_two_stage b1"
    by (auto simp: assertion_shape_def)
  then show ?thesis
  proof cases
    case 1
    then have m: "d @ b \<in> M" "policy_digest H n p = H (d @ b)" using ms eq by auto
    from cf p ld m show ?thesis
    proof (cases rule: policy_digest_last)
      case (two b1)
      then show ?thesis using c q by (auto simp: complete_digest_def)
    qed (use 1 in simp)
  next
    case 2
    then have m: "d @ b1 \<in> M" "H (d @ b1) @ r \<in> M" "policy_digest H n p = H (H (d @ b1) @ r)" using ms eq by auto
    from cf p collision_freeD(1) [OF cf m(1)] m(2,3) show ?thesis
    proof (cases rule: policy_digest_last)
      case one
      then show ?thesis using complete_not_partial [OF cf c 2(2) m(1) q(1,2)] q(3) by simp
    next
      case (two c1)
      then have "d = policy_base H n p" "b1 = c1"
        using collision_free_extend [OF cf m(1) two(4) ld] q(3) policy_digest_length [OF cf q(2)] by auto
      then show ?thesis using two 2 by simp
    qed
  qed
qed

end
