(* ===== verification/Policy_Records.thy ===== *)
theory Policy_Records
  imports Policy_Digests
begin

text \<open>
  What a policy command leaves in the session. The recorded members only become more demanding, and they
  demand what the command has added to the digest.
\<close>

section \<open>Demands of a session\<close>

definition policy_ok :: "TPM_ALG_ID \<Rightarrow> SESSION \<Rightarrow> bool" where
  "policy_ok alg se \<longleftrightarrow>
     (let a = attributes se in
      authHashAlg se = alg \<and> \<not> isTrialPolicy a \<and> \<not> isBound a \<and>
      (u1 se \<noteq> [] \<longrightarrow> length (u1 se) = CryptHashGetDigestSize alg) \<and>
      (IsCpHashUnionOccupied a \<longleftrightarrow> u1 se \<noteq> []) \<and>
      (isNameHashDefined a \<longrightarrow> \<not> isParametersHashDefined a \<and> \<not> isTemplateHashDefined a) \<and>
      (isParametersHashDefined a \<longrightarrow> \<not> isTemplateHashDefined a))"

definition hash_admits :: "policy_use \<Rightarrow> SESSION \<Rightarrow> bool" where
  "hash_admits x se \<longleftrightarrow>
     (let a = attributes se; h = u1 se in
      (isCpHashDefined a \<longrightarrow> is_cpHash x h) \<and>
      (isNameHashDefined a \<longrightarrow> is_nameHash x h \<or> is_cpHash x h) \<and>
      (isParametersHashDefined a \<longrightarrow> is_parametersHash x h \<or> is_cpHash x h) \<and>
      (isTemplateHashDefined a \<longrightarrow> is_templateHash x h \<or> is_cpHash x h))"

definition admits :: "policy_use \<Rightarrow> SESSION \<Rightarrow> bool" where
  "admits x se \<longleftrightarrow>
     (let a = attributes se in
      (pcrCounter se \<noteq> 0 \<longrightarrow> pcrCounter se = x_pcrCounter x) \<and>
      (commandCode se \<noteq> 0 \<longrightarrow> commandCode se = c_code (x_command x)) \<and>
      locality_allowed (commandLocality se) (ce_locality (x_env x)) \<and>
      (isPPRequired a \<longrightarrow> ce_physicalPresence (x_env x)) \<and>
      (isAuthValueNeeded a \<or> isPasswordNeeded a \<longrightarrow> x_authNeeded x) \<and>
      hash_admits x se \<and>
      (checkNvWritten a \<longrightarrow> is_written x (nvWrittenState a)))"

text \<open>The registers of a PCR assertion have not changed while the PCR counter has not.\<close>

fun pcr_unchanged :: "policy_use \<Rightarrow> policy_event \<Rightarrow> bool" where
  "pcr_unchanged x (env, s, PolicyPCR d sel) \<longleftrightarrow>
     (pe_pcrCounter env = x_pcrCounter x \<longrightarrow> pe_pcrDigest env (x_alg x) sel = pe_pcrDigest (x_env x) (x_alg x) sel)"
| "pcr_unchanged x _ \<longleftrightarrow> True"

definition use_ok :: "(bytes \<Rightarrow> bytes) \<Rightarrow> TPM_ALG_ID \<Rightarrow> policy_use \<Rightarrow> bool" where
  "use_ok H alg x \<longleftrightarrow> env_ok H alg (x_env x) \<and> x_alg x = alg \<and> list_all (pcr_unchanged x) (x_hist x)"

definition asserted :: "policy_use \<Rightarrow> passert \<Rightarrow> bool" where
  "asserted x a \<longleftrightarrow>
     (if assert_cc a = TPM_CC_PolicyOR then True
      else if restarting (assert_cc a) then settled x a else assertion_holds x a)"

definition adds :: "(bytes \<Rightarrow> bytes) \<Rightarrow> TPM_ALG_ID \<Rightarrow> policy_event \<Rightarrow> SESSION \<Rightarrow> SESSION \<Rightarrow> bool" where
  "adds H alg e se se' \<longleftrightarrow>
     (\<exists>a. contribution (fst e) alg (snd (snd e)) = Some a \<and> assert_wf a \<and>
        u2 se' = extends H (extended_digest (CryptHashGetDigestSize alg) a se) (blocks a) \<and> policy_ok alg se' \<and>
        (\<forall>x. use_ok H alg x \<longrightarrow> e \<in> set (x_hist x) \<longrightarrow> admits x se' \<longrightarrow> admits x se \<and> asserted x a))"

lemma addsI:
  assumes "contribution env alg cmd = Some a" "assert_wf a"
    and "u2 se' = extends H (extended_digest (CryptHashGetDigestSize alg) a se) (blocks a)" "policy_ok alg se'"
    and "\<And>x. use_ok H alg x \<Longrightarrow> (env, s, cmd) \<in> set (x_hist x) \<Longrightarrow> admits x se' \<Longrightarrow> admits x se \<and> asserted x a"
  shows "adds H alg (env, s, cmd) se se'"
  using assms by (auto simp: adds_def)

lemma settledI: "e \<in> set (x_hist x) \<Longrightarrow> evidence (x_alg x) a e \<Longrightarrow> settled x a"
  by (auto simp: settled_def list_ex_iff)

lemma asserted_settled:
  assumes "settled x a"
    and "assert_cc a \<in> {TPM_CC_PolicySigned, TPM_CC_PolicySecret, TPM_CC_PolicyAuthorize, TPM_CC_PolicyAuthorizeNV,
       TPM_CC_PolicyNV, TPM_CC_PolicyCounterTimer, TPM_CC_PolicyCapability}"
  shows "asserted x a"
  using assms by (cases a) (auto simp: asserted_def assertion_holds.simps restarting_def tpm_consts)

lemmas record_defs = admits_def hash_admits_def policy_ok_def IsCpHashUnionOccupied_def Let_def

lemma use_okD: "use_ok H alg x \<Longrightarrow> x_alg x = alg \<and> pe_hash (x_env x) alg = H"
  by (auto simp: use_ok_def env_ok_def)

section \<open>Authorizations\<close>

lemma PolicyParameterChecks_cp:
  assumes "PolicyParameterChecks env se t cp nonce b1 b2 b3 = TPM_RC_SUCCESS" "b1 = TPM_RC_P + TPM_RC_1 \<or> b1 = 0"
    "b2 = TPM_RC_P + TPM_RC_2" "b3 \<in> {TPM_RC_P + TPM_RC_4, TPM_RC_P + TPM_RC_1}"
  shows "cp = [] \<or> length cp = length (u2 se) \<and> (u1 se = [] \<or> u1 se = cp)"
  using assms by (auto simp: PolicyParameterChecks_def tpm_consts split: if_splits)

definition bind_cpHash :: "bytes \<Rightarrow> SESSION \<Rightarrow> SESSION" where
  "bind_cpHash cp se = (if cp = [] then se else set_cpHash cp se)"

lemma PolicyContextUpdate_Ret:
  assumes "PolicyContextUpdate env cc name ref cp t se = Ret se'"
  obtains t' where "length (u2 se) = CryptHashGetDigestSize (authHashAlg se)"
    "se' = (bind_cpHash cp se)\<lparr>u2 := extends (pe_hash env (authHashAlg se)) (u2 se) (blocks (Assert cc name ref)), timeout := t'\<rparr>"
proof -
  have l: "length (u2 se) = CryptHashGetDigestSize (authHashAlg se)"
    using assms by (simp add: PolicyContextUpdate_def)
  have "se' = (bind_cpHash cp se)\<lparr>u2 := extends (pe_hash env (authHashAlg se)) (u2 se) (blocks (Assert cc name ref)),
      timeout := timeout se'\<rparr>"
    using assms
    by (cases ref; cases "cp = []"; cases se)
      (auto simp: PolicyContextUpdate_def policy_extend_def set_cpHash_def bind_cpHash_def Let_def split: if_splits)
  then show thesis using l that by blast
qed

lemma admits_digest [simp]:
  "admits x (se\<lparr>u2 := d\<rparr>) = admits x se" "admits x (se\<lparr>u2 := d, timeout := t\<rparr>) = admits x se"
  by (simp_all add: admits_def hash_admits_def)

lemma policy_ok_digest [simp]:
  "policy_ok alg (se\<lparr>u2 := d\<rparr>) = policy_ok alg se" "policy_ok alg (se\<lparr>u2 := d, timeout := t\<rparr>) = policy_ok alg se"
  by (simp_all add: policy_ok_def)

lemma bind_cpHash_records:
  assumes "policy_ok alg se" "cp = [] \<or> length cp = CryptHashGetDigestSize alg \<and> (u1 se = [] \<or> u1 se = cp)"
  shows "policy_ok alg (bind_cpHash cp se)" "admits x (bind_cpHash cp se) \<Longrightarrow> admits x se"
proof -
  show "policy_ok alg (bind_cpHash cp se)"
    using assms by (auto simp: bind_cpHash_def set_cpHash_def policy_ok_def Let_def IsCpHashUnionOccupied_def)
  have "hash_admits x se" if "hash_admits x (bind_cpHash cp se)"
    using assms that
    by (auto simp: bind_cpHash_def set_cpHash_def hash_admits_def policy_ok_def Let_def IsCpHashUnionOccupied_def split: if_splits)
  then show "admits x (bind_cpHash cp se) \<Longrightarrow> admits x se"
    by (simp add: admits_def) (simp add: bind_cpHash_def set_cpHash_def split: if_splits)
qed

lemma PolicyContextUpdate_records:
  assumes upd: "PolicyContextUpdate env cc name ref cp t se = Ret se'" and ok: "policy_ok alg se"
    and cp: "cp = [] \<or> length cp = length (u2 se) \<and> (u1 se = [] \<or> u1 se = cp)"
  shows "u2 se' = extends (pe_hash env alg) (u2 se) (blocks (Assert cc name ref))" "policy_ok alg se'"
    "admits x se' \<Longrightarrow> admits x se"
proof -
  have alg: "authHashAlg se = alg" using ok by (simp add: policy_ok_def Let_def)
  obtain t' where l: "length (u2 se) = CryptHashGetDigestSize (authHashAlg se)"
    and se': "se' = (bind_cpHash cp se)\<lparr>u2 := extends (pe_hash env (authHashAlg se)) (u2 se) (blocks (Assert cc name ref)), timeout := t'\<rparr>"
    using PolicyContextUpdate_Ret [OF upd] .
  show "u2 se' = extends (pe_hash env alg) (u2 se) (blocks (Assert cc name ref))" using se' alg by simp
  have cp': "cp = [] \<or> length cp = CryptHashGetDigestSize alg \<and> (u1 se = [] \<or> u1 se = cp)" using cp l alg by simp
  show "policy_ok alg se'" using se' bind_cpHash_records(1) [OF ok cp'] by simp
  show "admits x se' \<Longrightarrow> admits x se" using se' bind_cpHash_records(2) [OF ok cp'] by simp
qed

lemma RcSafeAddToResult_error:
  assumes "rc \<noteq> TPM_RC_SUCCESS" "m = TPM_RC_P + TPM_RC_5"
  shows "RcSafeAddToResult rc m \<noteq> TPM_RC_SUCCESS"
proof -
  have "rc + 0x540 = rc OR 0x540" if "rc AND 0xf40 = 0"
  proof (rule disjunctive_add_eq_or)
    have "rc AND 0x540 = (rc AND 0xf40) AND 0x540" by (simp add: and.assoc)
    then show "rc AND 0x540 = 0" using that by simp
  qed
  moreover have "bit (rc OR 0x540) 6" by (simp add: bit_or_iff)
  then have "rc OR 0x540 \<noteq> 0" by (metis bit_0_eq bot_apply bot_bool_def)
  ultimately show ?thesis using assms by (auto simp: RcSafeAddToResult_def tpm_consts)
qed

text \<open>A command whose assertion is settled when it runs and enters through \<^verbatim>\<open>PolicyContextUpdate\<close>.\<close>

lemma update_adds:
  assumes u: "PolicyContextUpdate env cc name ref cp t (if restarting cc then PolicyDigestClear se else se) = Ret se'"
    and c: "contribution env alg cmd = Some (Assert cc name ref)" and wf: "assert_wf (Assert cc name ref)"
    and ev: "evidence alg (Assert cc name ref) (env, s, cmd)"
    and cc: "cc \<in> {TPM_CC_PolicySigned, TPM_CC_PolicySecret, TPM_CC_PolicyAuthorize, TPM_CC_PolicyAuthorizeNV}"
    and cp: "cp = [] \<or> \<not> restarting cc \<and> length cp = length (u2 se) \<and> (u1 se = [] \<or> u1 se = cp)"
    and ok: "policy_ok alg se" and e: "env_ok H alg env"
  shows "adds H alg (env, s, cmd) se se'"
proof (rule addsI [OF c wf])
  let ?a = "Assert cc name ref" and ?s = "if restarting cc then PolicyDigestClear se else se"
  have H: "pe_hash env alg = H" and alg: "authHashAlg se = alg" using e ok by (simp_all add: env_ok_def policy_ok_def Let_def)
  have ok': "policy_ok alg ?s" and ad: "\<And>x. admits x ?s = admits x se" using ok by (simp_all add: PolicyDigestClear_def)
  have cp': "cp = [] \<or> length cp = length (u2 ?s) \<and> (u1 ?s = [] \<or> u1 ?s = cp)" using cp by auto
  show "u2 se' = extends H (extended_digest (CryptHashGetDigestSize alg) ?a se) (blocks ?a)"
    using PolicyContextUpdate_records(1) [OF u ok' cp'] H alg by (simp add: extended_digest_def PolicyDigestClear_def split: if_splits)
  show "policy_ok alg se'" by (rule PolicyContextUpdate_records(2) [OF u ok' cp'])
  fix x assume x: "use_ok H alg x" "(env, s, cmd) \<in> set (x_hist x)" "admits x se'"
  have "admits x se" using PolicyContextUpdate_records(3) [OF u ok' cp' x(3)] ad by simp
  moreover have "asserted x ?a"
    using asserted_settled [OF settledI [OF x(2)]] ev cc use_okD [OF x(1)] by auto
  ultimately show "admits x se \<and> asserted x ?a" ..
qed

lemma restarting_simps [simp]:
  "\<not> restarting TPM_CC_PolicySigned" "\<not> restarting TPM_CC_PolicySecret"
  "restarting TPM_CC_PolicyAuthorize" "restarting TPM_CC_PolicyAuthorizeNV" "restarting TPM_CC_PolicyOR"
  by (simp_all add: restarting_def tpm_consts)

lemma two_stage_simps [simp]:
  "two_stage TPM_CC_PolicySigned" "two_stage TPM_CC_PolicySecret" "two_stage TPM_CC_PolicyAuthorize"
  "\<not> two_stage TPM_CC_PolicyAuthorizeNV" "\<not> two_stage TPM_CC_PolicyOR"
  by (simp_all add: two_stage_def tpm_consts)

lemma policy_ok_not_trial: "policy_ok alg se \<Longrightarrow> \<not> isTrialPolicy (attributes se) \<and> authHashAlg se = alg"
  by (simp add: policy_ok_def Let_def)

lemma PolicySigned_adds:
  assumes ex: "TPM2_PolicySigned env k nonce cp r ex au se = Ret (out, se')"
    and ok: "policy_ok alg se" and e: "env_ok H alg env"
  shows "se' = se \<or> adds H alg (env, s, PolicySigned k nonce cp r ex au) se se'"
proof (cases "se' = se")
  case False
  have nt: "\<not> isTrialPolicy (attributes se)" using policy_ok_not_trial [OF ok] ..
  have sch: "TPM_RC_SCHEME + RC_PolicySigned_auth \<noteq> TPM_RC_SUCCESS" by (simp add: tpm_consts)
  obtain t where pc: "PolicyParameterChecks env se t cp (Some nonce) RC_PolicySigned_nonceTPM RC_PolicySigned_cpHashA RC_PolicySigned_expiration = TPM_RC_SUCCESS"
    and v: "pe_validate env k (pe_hash env (pe_signHashAlg env au) (nonce @ be 4 ex @ cp @ r)) au = TPM_RC_SUCCESS"
    and u: "PolicyContextUpdate env TPM_CC_PolicySigned (pe_name env k) (Some r) cp t se = Ret se'"
    using ex nt False sch RcSafeAddToResult_error [OF _ RC_PolicySigned_auth_def]
    by (auto simp: TPM2_PolicySigned_def Let_def obind_Ret_iff split: if_splits)
  have "cp = [] \<or> length cp = length (u2 se) \<and> (u1 se = [] \<or> u1 se = cp)"
    by (rule PolicyParameterChecks_cp [OF pc])
      (simp_all add: RC_PolicySigned_nonceTPM_def RC_PolicySigned_cpHashA_def RC_PolicySigned_expiration_def)
  then show ?thesis
    using u v update_adds [of env TPM_CC_PolicySigned _ _ _ _ se se', OF _ _ _ _ _ _ ok e] by (simp add: two_stage_def)
qed simp

lemma PolicySecret_adds:
  assumes ex: "TPM2_PolicySecret env h nonce cp r ex se = Ret (out, se')"
    and ok: "policy_ok alg se" and e: "env_ok H alg env"
  shows "se' = se \<or> adds H alg (env, s, PolicySecret h nonce cp r ex) se se'"
proof (cases "se' = se")
  case False
  have nt: "\<not> isTrialPolicy (attributes se)" using policy_ok_not_trial [OF ok] ..
  obtain t where pc: "PolicyParameterChecks env se t cp (Some nonce) RC_PolicySecret_nonceTPM RC_PolicySecret_cpHashA RC_PolicySecret_expiration = TPM_RC_SUCCESS"
    and u: "PolicyContextUpdate env TPM_CC_PolicySecret (pe_name env h) (Some r) cp t se = Ret se'"
    using ex nt False by (auto simp: TPM2_PolicySecret_def Let_def obind_Ret_iff split: if_splits)
  have "cp = [] \<or> length cp = length (u2 se) \<and> (u1 se = [] \<or> u1 se = cp)"
    by (rule PolicyParameterChecks_cp [OF pc])
      (simp_all add: RC_PolicySecret_nonceTPM_def RC_PolicySecret_cpHashA_def RC_PolicySecret_expiration_def)
  then show ?thesis
    using u update_adds [of env TPM_CC_PolicySecret _ _ _ _ se se', OF _ _ _ _ _ _ ok e] by (simp add: two_stage_def)
qed simp

lemma PolicyTicket_adds:
  assumes ex: "TPM2_PolicyTicket env tmo cp r nm tk se = Ret (rc, se')"
    and ok: "policy_ok alg se" and e: "env_ok H alg env"
  shows "se' = se \<or> adds H alg (env, s, PolicyTicket tmo cp r nm tk) se se'"
proof (cases "se' = se")
  case False
  have nt: "\<not> isTrialPolicy (attributes se)" using policy_ok_not_trial [OF ok] ..
  let ?cc = "if tk_tag tk = TPM_ST_AUTH_SIGNED then TPM_CC_PolicySigned else TPM_CC_PolicySecret"
  let ?t = "from_be tmo AND NOT EXPIRATION_BIT"
  obtain t where pc: "PolicyParameterChecks env se ?t cp None 0 RC_PolicyTicket_cpHashA RC_PolicyTicket_timeout = TPM_RC_SUCCESS"
    and tk: "TicketComputeAuth (pe_tickets env) (pe_hs env) (tk_tag tk) (tk_hierarchy tk) ?t (from_be tmo AND EXPIRATION_BIT \<noteq> 0) cp r nm = Inr t"
      "tk_digest t = tk_digest tk" "tk_tag tk = TPM_ST_AUTH_SIGNED \<or> tk_tag tk = TPM_ST_AUTH_SECRET"
    and u: "PolicyContextUpdate env ?cc nm (Some r) cp ?t se = Ret se'"
    using ex nt False by (simp add: TPM2_PolicyTicket_def Let_def obind_Ret_iff split: if_splits sum.splits)
  have "cp = [] \<or> length cp = length (u2 se) \<and> (u1 se = [] \<or> u1 se = cp)"
    by (rule PolicyParameterChecks_cp [OF pc]) (simp_all add: RC_PolicyTicket_cpHashA_def RC_PolicyTicket_timeout_def)
  then have "adds H alg (env, s, PolicyTicket tmo cp r nm tk) se se'"
    by (intro update_adds [of env ?cc nm "Some r" cp ?t se se', OF _ _ _ _ _ _ ok e])
      (use u tk in \<open>auto simp: two_stage_def split: if_splits\<close>)
  then show ?thesis ..
qed simp

section \<open>Alternatives and approvals\<close>

lemma PolicyOR_adds:
  assumes ex: "TPM2_PolicyOR env hs se = Ret (rc, se')"
    and ok: "policy_ok alg se" and e: "env_ok H alg env"
  shows "se' = se \<or> adds H alg (env, s, PolicyOR hs) se se' \<and> u2 se \<in> set hs"
proof (cases "u2 se \<in> set hs")
  case True
  have H: "pe_hash env alg = H" using e by (simp add: env_ok_def)
  have se': "se' = se\<lparr>u2 := H (replicate (CryptHashGetDigestSize alg) 0 @ be 4 TPM_CC_PolicyOR @ concat hs)\<rparr>"
    using ex True policy_ok_not_trial [OF ok] H
    by (auto simp: TPM2_PolicyOR_def policy_extend_def zero_digest_def list_ex_iff split: if_splits)
  have "adds H alg (env, s, PolicyOR hs) se se'"
    by (rule addsI [of _ _ _ "Assert TPM_CC_PolicyOR (concat hs) None"])
      (use ok se' in \<open>simp_all add: two_stage_def extended_digest_def asserted_def tpm_consts restarting_def\<close>)
  then show ?thesis using True by simp
next
  case False
  then show ?thesis
    using ex policy_ok_not_trial [OF ok] by (auto simp: TPM2_PolicyOR_def list_ex_iff split: if_splits)
qed

lemma ticket_for_error: "ticket_for env s tag h body \<noteq> Inl TPM_RC_SUCCESS"
  by (simp add: ticket_for_def HierarchyGetProof_cases tpm_consts split: sum.splits HIERARCHY_MODIFIER.splits)

lemma PolicyAuthorize_adds:
  assumes ex: "TPM2_PolicyAuthorize env ap r k tk se = Ret (rc, se')"
    and ok: "policy_ok alg se" and e: "env_ok H alg env"
  shows "se' = se \<or> adds H alg (env, s, PolicyAuthorize ap r k tk) se se'"
proof (cases "se' = se")
  case False
  let ?tc = "TicketComputeVerified (pe_tickets env) (pe_hs env) (tk_hierarchy tk)
      (pe_hash env (ucast (from_be (take 2 k))) (ap @ r)) k"
  have ne: "?tc \<noteq> Inl TPM_RC_SUCCESS" unfolding TicketComputeVerified_def by (rule ticket_for_error)
  have vn: "TPM_RC_VALUE + RC_PolicyAuthorize_checkTicket \<noteq> TPM_RC_SUCCESS"
    "TPM_RC_VALUE + RC_PolicyAuthorize_approvedPolicy \<noteq> TPM_RC_SUCCESS" by (simp_all add: tpm_consts)
  obtain t where "?tc = Inr t" "tk_digest t = tk_digest tk"
    and u: "PolicyContextUpdate env TPM_CC_PolicyAuthorize k (Some r) [] 0 (PolicyDigestClear se) = Ret se'"
    using ex ne vn False policy_ok_not_trial [OF ok]
    by (simp add: TPM2_PolicyAuthorize_def Let_def obind_Ret_iff split: if_splits sum.splits)
  then have "adds H alg (env, s, PolicyAuthorize ap r k tk) se se'"
    by (intro update_adds [of env TPM_CC_PolicyAuthorize k "Some r" "[]" 0 se se', OF _ _ _ _ _ _ ok e])
      (simp_all add: two_stage_def)
  then show ?thesis ..
qed simp

lemma PolicyAuthorizeNV_adds:
  assumes ex: "TPM2_PolicyAuthorizeNV env ah h se s = Ret ((rc, se'), s')"
    and ok: "policy_ok alg se" and e: "env_ok H alg env"
  shows "se' = se \<or> adds H alg (env, s, PolicyAuthorizeNV ah h) se se'"
proof (cases "se' = se")
  case False
  have "PolicyContextUpdate env TPM_CC_PolicyAuthorizeNV (pe_name env h) None [] 0 (PolicyDigestClear se) = Ret se'"
    using ex False
    by (auto simp: TPM2_PolicyAuthorizeNV_def with_index_def obind_Ret_iff split: if_splits option.splits)
  then have "adds H alg (env, s, PolicyAuthorizeNV ah h) se se'"
    by (intro update_adds [of env TPM_CC_PolicyAuthorizeNV "pe_name env h" None "[]" 0 se se', OF _ _ _ _ _ _ ok e]) simp_all
  then show ?thesis ..
qed simp

section \<open>Restrictions\<close>

text \<open>The commands of this section extend the digest once and change a few members.\<close>

definition plain_cc :: "TPM_CC \<Rightarrow> bool" where
  "plain_cc cc \<longleftrightarrow> \<not> two_stage cc \<and> \<not> restarting cc"

lemma plain_cc_simps [simp]:
  "plain_cc TPM_CC_PolicyPCR" "plain_cc TPM_CC_PolicyPhysicalPresence" "plain_cc TPM_CC_PolicyLocality" "plain_cc TPM_CC_PolicyNV"
  "plain_cc TPM_CC_PolicyCounterTimer" "plain_cc TPM_CC_PolicyCommandCode" "plain_cc TPM_CC_PolicyCpHash"
  "plain_cc TPM_CC_PolicyNameHash" "plain_cc TPM_CC_PolicyDuplicationSelect" "plain_cc TPM_CC_PolicyAuthValue"
  "plain_cc TPM_CC_PolicyNvWritten" "plain_cc TPM_CC_PolicyTemplate" "plain_cc TPM_CC_PolicyParameters" "plain_cc TPM_CC_PolicyCapability"
  by (simp_all add: plain_cc_def two_stage_def restarting_def tpm_consts)

lemma plain_adds:
  assumes c: "contribution env alg cmd = Some (Assert cc b None)" "plain_cc cc"
    and d: "u2 se' = H (u2 se @ be 4 cc @ b)" and ok: "policy_ok alg se'"
    and x: "\<And>x. use_ok H alg x \<Longrightarrow> (env, s, cmd) \<in> set (x_hist x) \<Longrightarrow> admits x se' \<Longrightarrow>
      admits x se \<and> assertion_holds x (Assert cc b None)"
  shows "adds H alg (env, s, cmd) se se'"
proof (rule addsI [OF c(1)])
  have nr: "\<not> restarting cc" "cc \<noteq> TPM_CC_PolicyOR" using c(2) by (auto simp: plain_cc_def)
  show "assert_wf (Assert cc b None)" using c(2) by (simp add: plain_cc_def)
  show "u2 se' = extends H (extended_digest (CryptHashGetDigestSize alg) (Assert cc b None) se) (blocks (Assert cc b None))"
    using d nr by (simp add: extended_digest_def)
  fix x assume "use_ok H alg x" "(env, s, cmd) \<in> set (x_hist x)" "admits x se'"
  from x [OF this] show "admits x se \<and> asserted x (Assert cc b None)" using nr by (simp add: asserted_def)
qed (rule ok)

lemma assertion_holds_simps:
  "assertion_holds x (Assert TPM_CC_PolicyCommandCode b r) \<longleftrightarrow> b = be 4 (c_code (x_command x))"
  "assertion_holds x (Assert TPM_CC_PolicyLocality b r) \<longleftrightarrow>
     (case b of [l] \<Rightarrow> l \<noteq> 0 \<and> locality_allowed l (ce_locality (x_env x)) | _ \<Rightarrow> False)"
  "assertion_holds x (Assert TPM_CC_PolicyPhysicalPresence b r) \<longleftrightarrow> ce_physicalPresence (x_env x)"
  "assertion_holds x (Assert TPM_CC_PolicyAuthValue b r) \<longleftrightarrow> x_authNeeded x"
  "assertion_holds x (Assert TPM_CC_PolicyCpHash b r) \<longleftrightarrow> is_cpHash x b"
  "assertion_holds x (Assert TPM_CC_PolicyNameHash b r) \<longleftrightarrow> is_nameHash x b \<or> is_cpHash x b"
  "assertion_holds x (Assert TPM_CC_PolicyParameters b r) \<longleftrightarrow> is_parametersHash x b \<or> is_cpHash x b"
  "assertion_holds x (Assert TPM_CC_PolicyTemplate b r) \<longleftrightarrow> is_templateHash x b \<or> is_cpHash x b"
  "assertion_holds x (Assert TPM_CC_PolicyDuplicationSelect b r) \<longleftrightarrow>
     c_code (x_command x) = TPM_CC_Duplicate \<and> list_ex (dup_selected x b) (x_hist x)"
  "assertion_holds x (Assert TPM_CC_PolicyNvWritten b r) \<longleftrightarrow> (case b of [w] \<Rightarrow> is_written x (w \<noteq> 0) | _ \<Rightarrow> False)"
  "assertion_holds x (Assert TPM_CC_PolicyPCR b r) \<longleftrightarrow> list_ex (pcr_current x b) (x_hist x)"
  by (simp_all only: assertion_holds.simps) (simp_all add: tpm_consts)

declare assertion_holds.simps [simp del]

lemma settled_plain:
  assumes "use_ok H alg x" "(env, s, cmd) \<in> set (x_hist x)" "evidence alg (Assert cc b None) (env, s, cmd)"
    and "cc \<in> {TPM_CC_PolicyNV, TPM_CC_PolicyCounterTimer, TPM_CC_PolicyCapability}"
  shows "assertion_holds x (Assert cc b None)"
  using settledI [OF assms(2)] assms(3,4) use_okD [OF assms(1)] by (auto simp: assertion_holds.simps tpm_consts)

lemma PolicyNV_adds:
  assumes ex: "TPM2_PolicyNV env ah h b off opr se s = Ret ((rc, se'), s')"
    and ok: "policy_ok alg se" and e: "env_ok H alg env"
  shows "se' = se \<or> adds H alg (env, s, PolicyNV ah h b off opr) se se'"
proof (cases "se' = se")
  case False
  have H: "pe_hash env alg = H" and alg: "authHashAlg se = alg" using e policy_ok_not_trial [OF ok] by (simp_all add: env_ok_def)
  let ?b = "H (b @ be 2 off @ be 2 opr) @ pe_name env h"
  have errs: "TPM_RC_VALUE + RC_PolicyNV_offset \<noteq> TPM_RC_SUCCESS" "TPM_RC_SIZE + RC_PolicyNV_operandB \<noteq> TPM_RC_SUCCESS"
    "TPM_RC_POLICY \<noteq> TPM_RC_SUCCESS" by (simp_all add: tpm_consts)
  have se': "se' = se\<lparr>u2 := H (u2 se @ be 4 TPM_CC_PolicyNV @ ?b)\<rparr>"
    and cond: "with_index h s (\<lambda>i p s1. obind (NvGetIndexData (s_cachedNvIndex s1) (Some i) (unat off) (length b) s1) (\<lambda>d.
       PolicySptCheckCondition (pe_stale env) opr d b)) = Ret True"
    using ex False policy_ok_not_trial [OF ok] H errs
    by (auto simp: TPM2_PolicyNV_def with_index_def obind_Ret_iff policy_extend_def policy_args_def Let_def
        split: if_splits option.splits)
  have "adds H alg (env, s, PolicyNV ah h b off opr) se se'"
  proof (rule plain_adds)
    show "contribution env alg (PolicyNV ah h b off opr) = Some (Assert TPM_CC_PolicyNV ?b None)" using H by simp
    fix x assume x: "use_ok H alg x" "(env, s, PolicyNV ah h b off opr) \<in> set (x_hist x)" "admits x se'"
    show "admits x se \<and> assertion_holds x (Assert TPM_CC_PolicyNV ?b None)"
      using settled_plain [OF x(1,2)] x(3) se' cond H by simp
  qed (use se' ok in simp_all)
  then show ?thesis ..
qed simp

lemma PolicyCounterTimer_adds:
  assumes ex: "TPM2_PolicyCounterTimer env b off opr se = Ret (rc, se')"
    and ok: "policy_ok alg se" and e: "env_ok H alg env"
  shows "se' = se \<or> adds H alg (env, s, PolicyCounterTimer b off opr) se se'"
proof (cases "se' = se")
  case False
  have H: "pe_hash env alg = H" using e by (simp add: env_ok_def)
  let ?b = "H (b @ be 2 off @ be 2 opr)"
  have se': "se' = se\<lparr>u2 := H (u2 se @ be 4 TPM_CC_PolicyCounterTimer @ ?b)\<rparr>"
    and cond: "PolicySptCheckCondition (pe_stale env) opr (slice (unat off) (length b) (pe_timeInfo env)) b = Ret True"
    using ex False policy_ok_not_trial [OF ok] H
    by (auto simp: TPM2_PolicyCounterTimer_def obind_Ret_iff policy_extend_def policy_args_def Let_def split: if_splits)
  have "adds H alg (env, s, PolicyCounterTimer b off opr) se se'"
  proof (rule plain_adds)
    show "contribution env alg (PolicyCounterTimer b off opr) = Some (Assert TPM_CC_PolicyCounterTimer ?b None)" using H by simp
    fix x assume x: "use_ok H alg x" "(env, s, PolicyCounterTimer b off opr) \<in> set (x_hist x)" "admits x se'"
    show "admits x se \<and> assertion_holds x (Assert TPM_CC_PolicyCounterTimer ?b None)"
      using settled_plain [OF x(1,2)] x(3) se' cond H by simp
  qed (use se' ok in simp_all)
  then show ?thesis ..
qed simp

lemma PolicyCapability_adds:
  assumes ex: "TPM2_PolicyCapability env b off opr cap pr se = Ret (rc, se')"
    and ok: "policy_ok alg se" and e: "env_ok H alg env"
  shows "se' = se \<or> adds H alg (env, s, PolicyCapability b off opr cap pr) se se'"
proof (cases "se' = se")
  case False
  have H: "pe_hash env alg = H" and ni: "pe_capability env cap pr \<noteq> Inl TPM_RC_SUCCESS" using e by (simp_all add: env_ok_def)
  let ?b = "H (b @ be 2 off @ be 2 opr @ be 4 cap @ be 4 pr)"
  have errs: "TPM_RC_VALUE + RC_PolicyCapability_offset \<noteq> TPM_RC_SUCCESS"
    "TPM_RC_SIZE + RC_PolicyCapability_operandB \<noteq> TPM_RC_SUCCESS" "TPM_RC_POLICY \<noteq> TPM_RC_SUCCESS" by (simp_all add: tpm_consts)
  have se': "se' = se\<lparr>u2 := H (u2 se @ be 4 TPM_CC_PolicyCapability @ ?b)\<rparr>"
    and cond: "case pe_capability env cap pr of Inl rc \<Rightarrow> False
      | Inr data \<Rightarrow> if data = [] then opr = TPM_EO_NEQ
                    else PolicySptCheckCondition (pe_stale env) opr (slice (unat off) (length b) data) b = Ret True"
    using ex False policy_ok_not_trial [OF ok] H ni errs
    by (auto simp: TPM2_PolicyCapability_def obind_Ret_iff policy_extend_def policy_args_def Let_def split: if_splits sum.splits)
  have "adds H alg (env, s, PolicyCapability b off opr cap pr) se se'"
  proof (rule plain_adds)
    show "contribution env alg (PolicyCapability b off opr cap pr) = Some (Assert TPM_CC_PolicyCapability ?b None)" using H by simp
    fix x assume x: "use_ok H alg x" "(env, s, PolicyCapability b off opr cap pr) \<in> set (x_hist x)" "admits x se'"
    show "admits x se \<and> assertion_holds x (Assert TPM_CC_PolicyCapability ?b None)"
      using settled_plain [OF x(1,2)] x(3) se' cond H by simp
  qed (use se' ok in simp_all)
  then show ?thesis ..
qed simp

lemma PolicyCommandCode_adds:
  assumes ex: "TPM2_PolicyCommandCode env cc se = Ret (rc, se')"
    and ok: "policy_ok alg se" and e: "env_ok H alg env"
  shows "se' = se \<or> adds H alg (env, s, PolicyCommandCode cc) se se'"
proof (cases "se' = se")
  case False
  have H: "pe_hash env alg = H" and ni: "\<not> pe_implemented env 0" using e by (simp_all add: env_ok_def)
  have se': "se' = se\<lparr>u2 := H (u2 se @ be 4 TPM_CC_PolicyCommandCode @ be 4 cc), commandCode := cc\<rparr>"
    and cc: "commandCode se = 0 \<or> commandCode se = cc" "cc \<noteq> 0"
    using ex False policy_ok_not_trial [OF ok] H ni by (auto simp: TPM2_PolicyCommandCode_def policy_extend_def split: if_splits)
  have "adds H alg (env, s, PolicyCommandCode cc) se se'"
  proof (rule plain_adds)
    show "policy_ok alg se'" using ok se' by (simp add: policy_ok_def)
    fix x assume x: "admits x se'"
    show "admits x se \<and> assertion_holds x (Assert TPM_CC_PolicyCommandCode (be 4 cc) None)"
      using x se' cc by (auto simp: admits_def hash_admits_def Let_def assertion_holds_simps)
  qed (use se' in simp_all)
  then show ?thesis ..
qed simp

lemma PolicyPhysicalPresence_adds:
  assumes ex: "TPM2_PolicyPhysicalPresence env se = Ret (rc, se')"
    and ok: "policy_ok alg se" and e: "env_ok H alg env"
  shows "adds H alg (env, s, PolicyPhysicalPresence) se se'"
proof (rule plain_adds)
  have H: "pe_hash env alg = H" using e by (simp add: env_ok_def)
  have se': "se' = se\<lparr>u2 := H (u2 se @ be 4 TPM_CC_PolicyPhysicalPresence), attributes := (attributes se)\<lparr>isPPRequired := True\<rparr>\<rparr>"
    using ex policy_ok_not_trial [OF ok] H by (auto simp: TPM2_PolicyPhysicalPresence_def policy_extend_def Let_def)
  show "u2 se' = H (u2 se @ be 4 TPM_CC_PolicyPhysicalPresence @ [])" using se' by simp
  show "policy_ok alg se'" using ok se' by (auto simp: policy_ok_def IsCpHashUnionOccupied_def Let_def)
  fix x assume "admits x se'"
  then show "admits x se \<and> assertion_holds x (Assert TPM_CC_PolicyPhysicalPresence [] None)"
    using se' by (simp add: admits_def hash_admits_def Let_def assertion_holds_simps)
qed simp_all

lemma PolicyAuthValue_adds:
  assumes ex: "TPM2_PolicyAuthValue env se = Ret (rc, se') \<or> TPM2_PolicyPassword env se = Ret (rc, se')"
    and ok: "policy_ok alg se" and e: "env_ok H alg env" and cmd: "cmd \<in> {PolicyAuthValue, PolicyPassword}"
  shows "adds H alg (env, s, cmd) se se'"
proof (rule plain_adds)
  have H: "pe_hash env alg = H" using e by (simp add: env_ok_def)
  obtain p where se': "se' = se\<lparr>u2 := H (u2 se @ be 4 TPM_CC_PolicyAuthValue),
      attributes := (attributes se)\<lparr>isAuthValueNeeded := p, isPasswordNeeded := \<not> p\<rparr>\<rparr>"
    using ex
  proof (elim disjE)
    assume "TPM2_PolicyAuthValue env se = Ret (rc, se')"
    then show thesis using that [of True] policy_ok_not_trial [OF ok] H
      by (simp add: TPM2_PolicyAuthValue_def policy_extend_def Let_def)
  next
    assume "TPM2_PolicyPassword env se = Ret (rc, se')"
    then show thesis using that [of False] policy_ok_not_trial [OF ok] H
      by (cases "attributes se") (auto simp: TPM2_PolicyPassword_def policy_extend_def Let_def)
  qed
  show "contribution env alg cmd = Some (Assert TPM_CC_PolicyAuthValue [] None)" using cmd by auto
  show "u2 se' = H (u2 se @ be 4 TPM_CC_PolicyAuthValue @ [])" using se' by simp
  show "policy_ok alg se'" using ok se' by (auto simp: policy_ok_def IsCpHashUnionOccupied_def Let_def)
  fix x assume "admits x se'"
  then show "admits x se \<and> assertion_holds x (Assert TPM_CC_PolicyAuthValue [] None)"
    using se' by (cases p) (simp_all add: admits_def hash_admits_def Let_def assertion_holds_simps)
qed simp_all

lemma PolicyNvWritten_adds:
  assumes ex: "TPM2_PolicyNvWritten env w se = Ret (rc, se')"
    and ok: "policy_ok alg se" and e: "env_ok H alg env"
  shows "se' = se \<or> adds H alg (env, s, PolicyNvWritten w) se se'"
proof (cases "se' = se")
  case False
  have H: "pe_hash env alg = H" using e by (simp add: env_ok_def)
  have se': "se' = se\<lparr>u2 := H (u2 se @ be 4 TPM_CC_PolicyNvWritten @ [of_bool w]),
      attributes := (attributes se)\<lparr>checkNvWritten := True, nvWrittenState := w\<rparr>\<rparr>"
    and w: "checkNvWritten (attributes se) \<Longrightarrow> nvWrittenState (attributes se) = w"
    using ex False policy_ok_not_trial [OF ok] H by (auto simp: TPM2_PolicyNvWritten_def policy_extend_def split: if_splits)
  have "adds H alg (env, s, PolicyNvWritten w) se se'"
  proof (rule plain_adds)
    show "policy_ok alg se'" using ok se' by (auto simp: policy_ok_def IsCpHashUnionOccupied_def Let_def)
    fix x assume "admits x se'"
    then show "admits x se \<and> assertion_holds x (Assert TPM_CC_PolicyNvWritten [of_bool w] None)"
      using se' w by (auto simp: admits_def hash_admits_def Let_def assertion_holds_simps)
  qed (use se' in simp_all)
  then show ?thesis ..
qed simp

section \<open>Restrictions of the command digest\<close>

lemma env_ok_length: "env_ok H alg env \<Longrightarrow> length (H m) = CryptHashGetDigestSize alg \<and> 0 < CryptHashGetDigestSize alg"
  by (auto simp: env_ok_def)

lemma hash_admits_bind: "admits x (bind_cpHash h se) \<Longrightarrow> h \<noteq> [] \<Longrightarrow> is_cpHash x h"
  by (simp add: admits_def hash_admits_def bind_cpHash_def set_cpHash_def Let_def)

lemma PolicyCpHash_adds:
  assumes ex: "TPM2_PolicyCpHash env h se = Ret (rc, se')"
    and ok: "policy_ok alg se" and e: "env_ok H alg env"
  shows "se' = se \<or> adds H alg (env, s, PolicyCpHash h) se se'"
proof (cases "se' = se")
  case False
  have H: "pe_hash env alg = H" using e by (simp add: env_ok_def)
  have h: "length h = CryptHashGetDigestSize alg" "\<not> IsCpHashUnionOccupied (attributes se) \<or> u1 se = h"
    and eq: "se' = set_cpHash h (policy_extend env (be 4 TPM_CC_PolicyCpHash @ h) se)"
    using ex False policy_ok_not_trial [OF ok] by (auto simp: TPM2_PolicyCpHash_def split: if_splits)
  have ne: "h \<noteq> []" using h(1) env_ok_length [OF e] by auto
  have u: "u1 se = [] \<or> u1 se = h" using h(2) ok by (auto simp: policy_ok_def Let_def)
  have se': "se' = (bind_cpHash h se)\<lparr>u2 := H (u2 se @ be 4 TPM_CC_PolicyCpHash @ h)\<rparr>"
    using eq ne H policy_ok_not_trial [OF ok] by (simp add: policy_extend_def bind_cpHash_def set_cpHash_def)
  have b: "policy_ok alg (bind_cpHash h se)" "\<And>x. admits x (bind_cpHash h se) \<Longrightarrow> admits x se"
    using bind_cpHash_records [OF ok, of h] h u by auto
  have "adds H alg (env, s, PolicyCpHash h) se se'"
  proof (rule plain_adds)
    fix x assume x: "admits x se'"
    show "admits x se \<and> assertion_holds x (Assert TPM_CC_PolicyCpHash h None)"
      using x b(2) [of x] se' ne hash_admits_bind [of x h se] by (simp add: assertion_holds_simps)
  qed (use se' b in simp_all)
  then show ?thesis ..
qed simp

lemma unoccupied_hash_admits: "\<not> IsCpHashUnionOccupied (attributes se) \<Longrightarrow> hash_admits x se"
  by (simp add: hash_admits_def IsCpHashUnionOccupied_def Let_def)

lemma admits_unoccupied:
  assumes "\<not> IsCpHashUnionOccupied (attributes se)"
    and "pcrCounter se' = pcrCounter se" "commandCode se' = commandCode se \<or> commandCode se = 0" "commandLocality se' = commandLocality se"
    "attributes se' = (attributes se)\<lparr>isNameHashDefined := a, isParametersHashDefined := b, isTemplateHashDefined := c\<rparr>"
  shows "admits x se' \<Longrightarrow> admits x se"
  using assms(2-) unoccupied_hash_admits [OF assms(1), of x] unfolding admits_def Let_def by auto

lemma policy_ok_unoccupied:
  assumes "policy_ok alg se" "\<not> IsCpHashUnionOccupied (attributes se)"
    and "authHashAlg se' = authHashAlg se" "length (u1 se') = CryptHashGetDigestSize alg" "u1 se' \<noteq> []"
    "attributes se' = (attributes se)\<lparr>isNameHashDefined := a, isParametersHashDefined := b, isTemplateHashDefined := c\<rparr>"
    and "(a \<and> \<not> b \<and> \<not> c) \<or> (\<not> a \<and> b \<and> \<not> c) \<or> (\<not> a \<and> \<not> b \<and> c)"
  shows "policy_ok alg se'"
  using assms by (auto simp: policy_ok_def IsCpHashUnionOccupied_def Let_def)

lemma unoccupied_flags:
  assumes "\<not> IsCpHashUnionOccupied (attributes se)"
  shows "(attributes se)\<lparr>isNameHashDefined := True\<rparr> =
      (attributes se)\<lparr>isNameHashDefined := True, isParametersHashDefined := False, isTemplateHashDefined := False\<rparr>"
    "(attributes se)\<lparr>isParametersHashDefined := True\<rparr> =
      (attributes se)\<lparr>isNameHashDefined := False, isParametersHashDefined := True, isTemplateHashDefined := False\<rparr>"
    "(attributes se)\<lparr>isTemplateHashDefined := True\<rparr> =
      (attributes se)\<lparr>isNameHashDefined := False, isParametersHashDefined := False, isTemplateHashDefined := True\<rparr>"
  using assms by (cases "attributes se"; simp add: IsCpHashUnionOccupied_def)+

lemma PolicyNameHash_adds:
  assumes ex: "TPM2_PolicyNameHash env h se = Ret (rc, se')"
    and ok: "policy_ok alg se" and e: "env_ok H alg env"
  shows "se' = se \<or> adds H alg (env, s, PolicyNameHash h) se se'"
proof (cases "se' = se")
  case False
  have H: "pe_hash env alg = H" and lv: "pe_stateFormatLevel env \<ge> 4" using e by (simp_all add: env_ok_def)
  have h: "length h = CryptHashGetDigestSize alg" and un: "\<not> IsCpHashUnionOccupied (attributes se)"
    and eq: "se' = set_nameHash env h (policy_extend env (be 4 TPM_CC_PolicyNameHash @ h) se)"
    using ex False policy_ok_not_trial [OF ok] by (auto simp: TPM2_PolicyNameHash_def split: if_splits)
  have ne: "h \<noteq> []" using h env_ok_length [OF e] by auto
  have se': "se' = se\<lparr>u2 := H (u2 se @ be 4 TPM_CC_PolicyNameHash @ h), u1 := h, attributes := (attributes se)\<lparr>isNameHashDefined := True\<rparr>\<rparr>"
    using eq H lv policy_ok_not_trial [OF ok] by (simp add: policy_extend_def set_nameHash_def Let_def)
  have fl: "attributes se' = (attributes se)\<lparr>isNameHashDefined := True, isParametersHashDefined := False, isTemplateHashDefined := False\<rparr>"
    using se' unoccupied_flags(1) [OF un] by simp
  have "adds H alg (env, s, PolicyNameHash h) se se'"
  proof (rule plain_adds)
    show "policy_ok alg se'" by (rule policy_ok_unoccupied [OF ok un _ _ _ fl]) (use se' h ne in simp_all)
    fix x assume x: "admits x se'"
    have "admits x se" by (rule admits_unoccupied [OF un _ _ _ fl x]) (use se' in simp_all)
    moreover have "is_nameHash x h \<or> is_cpHash x h" using x se' by (simp add: admits_def hash_admits_def Let_def)
    ultimately show "admits x se \<and> assertion_holds x (Assert TPM_CC_PolicyNameHash h None)" by (simp add: assertion_holds_simps)
  qed (use se' in simp_all)
  then show ?thesis ..
qed simp

lemma PolicyParameters_adds:
  assumes ex: "TPM2_PolicyParameters env h se = Ret (rc, se')"
    and ok: "policy_ok alg se" and e: "env_ok H alg env"
  shows "se' = se \<or> adds H alg (env, s, PolicyParameters h) se se'"
proof (cases "se' = se")
  case False
  have H: "pe_hash env alg = H" using e by (simp add: env_ok_def)
  have h: "length h = CryptHashGetDigestSize alg" and un: "\<not> IsCpHashUnionOccupied (attributes se)"
    and se': "se' = se\<lparr>u2 := H (u2 se @ be 4 TPM_CC_PolicyParameters @ h), u1 := h, attributes := (attributes se)\<lparr>isParametersHashDefined := True\<rparr>\<rparr>"
    using ex False policy_ok_not_trial [OF ok] H by (auto simp: TPM2_PolicyParameters_def policy_extend_def Let_def split: if_splits)
  have ne: "h \<noteq> []" using h env_ok_length [OF e] by auto
  have fl: "attributes se' = (attributes se)\<lparr>isNameHashDefined := False, isParametersHashDefined := True, isTemplateHashDefined := False\<rparr>"
    using se' unoccupied_flags(2) [OF un] by simp
  have "adds H alg (env, s, PolicyParameters h) se se'"
  proof (rule plain_adds)
    show "policy_ok alg se'" by (rule policy_ok_unoccupied [OF ok un _ _ _ fl]) (use se' h ne in simp_all)
    fix x assume x: "admits x se'"
    have "admits x se" by (rule admits_unoccupied [OF un _ _ _ fl x]) (use se' in simp_all)
    moreover have "is_parametersHash x h \<or> is_cpHash x h" using x se' by (simp add: admits_def hash_admits_def Let_def)
    ultimately show "admits x se \<and> assertion_holds x (Assert TPM_CC_PolicyParameters h None)" by (simp add: assertion_holds_simps)
  qed (use se' in simp_all)
  then show ?thesis ..
qed simp

lemma PolicyTemplate_adds:
  assumes ex: "TPM2_PolicyTemplate env h se = Ret (rc, se')"
    and ok: "policy_ok alg se" and e: "env_ok H alg env"
  shows "se' = se \<or> adds H alg (env, s, PolicyTemplate h) se se'"
proof (cases "se' = se")
  case False
  have H: "pe_hash env alg = H" using e by (simp add: env_ok_def)
  have h: "length h = CryptHashGetDigestSize alg"
    and un: "\<not> IsCpHashUnionOccupied (attributes se) \<or> isTemplateHashDefined (attributes se) \<and> u1 se = h"
    and se': "se' = se\<lparr>u2 := H (u2 se @ be 4 TPM_CC_PolicyTemplate @ h), u1 := h, attributes := (attributes se)\<lparr>isTemplateHashDefined := True\<rparr>\<rparr>"
    using ex False policy_ok_not_trial [OF ok] H by (auto simp: TPM2_PolicyTemplate_def policy_extend_def Let_def split: if_splits)
  have ne: "h \<noteq> []" using h env_ok_length [OF e] by auto
  have keep: "policy_ok alg se' \<and> (admits x se' \<longrightarrow> admits x se)" for x
  proof (cases "IsCpHashUnionOccupied (attributes se)")
    case True
    then have "se' = se\<lparr>u2 := u2 se'\<rparr>" using un se' by (cases se; cases "attributes se") simp
    then show ?thesis using ok admits_digest(1) policy_ok_digest(1) by metis
  next
    case un: False
    have fl: "attributes se' = (attributes se)\<lparr>isNameHashDefined := False, isParametersHashDefined := False, isTemplateHashDefined := True\<rparr>"
      using se' unoccupied_flags(3) [OF un] by simp
    have "policy_ok alg se'" by (rule policy_ok_unoccupied [OF ok un _ _ _ fl]) (use se' h ne in simp_all)
    moreover have "admits x se' \<Longrightarrow> admits x se" by (rule admits_unoccupied [OF un _ _ _ fl]) (use se' in simp_all)
    ultimately show ?thesis by blast
  qed
  have "adds H alg (env, s, PolicyTemplate h) se se'"
  proof (rule plain_adds)
    fix x assume x: "admits x se'"
    then have "is_templateHash x h \<or> is_cpHash x h" using se' by (simp add: admits_def hash_admits_def Let_def)
    then show "admits x se \<and> assertion_holds x (Assert TPM_CC_PolicyTemplate h None)"
      using keep [of x] x by (simp add: assertion_holds_simps)
  qed (use se' keep in simp_all)
  then show ?thesis ..
qed simp

lemma PolicyDuplicationSelect_adds:
  assumes ex: "TPM2_PolicyDuplicationSelect env ob np inc se = Ret (rc, se')"
    and ok: "policy_ok alg se" and e: "env_ok H alg env"
  shows "se' = se \<or> adds H alg (env, s, PolicyDuplicationSelect ob np inc) se se'"
proof (cases "se' = se")
  case False
  have H: "pe_hash env alg = H" and lv: "pe_stateFormatLevel env \<ge> 4" using e by (simp_all add: env_ok_def)
  let ?h = "H (ob @ np)" and ?b = "(if inc then ob else []) @ np @ [of_bool inc]"
  have u1: "u1 se = []" and cc: "commandCode se = 0"
    and eq: "se' = (policy_extend env (be 4 TPM_CC_PolicyDuplicationSelect @ ?b) (set_nameHash env ?h se))\<lparr>commandCode := TPM_CC_Duplicate\<rparr>"
    using ex False policy_ok_not_trial [OF ok] H by (auto simp: TPM2_PolicyDuplicationSelect_def Let_def split: if_splits)
  have un: "\<not> IsCpHashUnionOccupied (attributes se)" using u1 ok by (simp add: policy_ok_def Let_def)
  have se': "se' = se\<lparr>u2 := H (u2 se @ be 4 TPM_CC_PolicyDuplicationSelect @ ?b), u1 := ?h,
      attributes := (attributes se)\<lparr>isNameHashDefined := True\<rparr>, commandCode := TPM_CC_Duplicate\<rparr>"
    using eq H lv policy_ok_not_trial [OF ok] by (simp add: policy_extend_def set_nameHash_def Let_def)
  have fl: "attributes se' = (attributes se)\<lparr>isNameHashDefined := True, isParametersHashDefined := False, isTemplateHashDefined := False\<rparr>"
    using se' unoccupied_flags(1) [OF un] by simp
  have "adds H alg (env, s, PolicyDuplicationSelect ob np inc) se se'"
  proof (rule plain_adds)
    show "policy_ok alg se'" by (rule policy_ok_unoccupied [OF ok un _ _ _ fl]) (use se' env_ok_length [OF e, of "ob @ np"] in auto)
    fix x assume x: "use_ok H alg x" "(env, s, PolicyDuplicationSelect ob np inc) \<in> set (x_hist x)" "admits x se'"
    have "admits x se" by (rule admits_unoccupied [OF un _ _ _ fl x(3)]) (use se' cc in simp_all)
    moreover have "is_nameHash x ?h \<or> is_cpHash x ?h" using x se' by (simp add: admits_def hash_admits_def Let_def)
    then have "dup_selected x ?b (env, s, PolicyDuplicationSelect ob np inc)" using use_okD [OF x(1)] by simp
    then have "list_ex (dup_selected x ?b) (x_hist x)" using x(2) list_ex_iff by blast
    moreover have "c_code (x_command x) = TPM_CC_Duplicate" using x(3) se' by (simp add: admits_def Let_def tpm_consts)
    ultimately show "admits x se \<and> assertion_holds x (Assert TPM_CC_PolicyDuplicationSelect ?b None)"
      by (simp add: assertion_holds_simps)
  qed (use se' in simp_all)
  then show ?thesis ..
qed simp

section \<open>Locality and PCR\<close>

lemma locality_narrows:
  assumes "l < 32" "prev < 32" "((if prev = 0 then 0x1F else prev) AND l) \<noteq> (0 :: u8)"
    and "locality_allowed ((if prev = 0 then 0x1F else prev) AND l) loc"
  shows "locality_allowed prev loc \<and> locality_allowed l loc"
proof -
  let ?w = "(if prev = 0 then 0x1F else prev) AND l"
  have "?w \<le> l" using word_and_le1 word_and_le2 by blast
  then have lt: "?w < 32" using assms(1) by simp
  then have loc: "loc < 5" "?w AND push_bit (unat loc) 1 \<noteq> 0"
    using assms(3,4) by (auto simp: locality_allowed_def word_less_nat_alt word_le_nat_alt split: if_splits)
  have b: "bit ?w (unat loc)"
    using loc(2) by (simp add: and_exp_eq_0_iff_not_bit push_bit_of_1)
  then have "prev = 0 \<or> bit prev (unat loc)" "bit l (unat loc)" by (auto simp: bit_and_iff split: if_splits)
  then show ?thesis
    using loc(1) assms(1,2) by (auto simp: locality_allowed_def and_exp_eq_0_iff_not_bit push_bit_of_1 word_less_nat_alt word_le_nat_alt)
qed

lemma PolicyLocality_adds:
  assumes ex: "TPM2_PolicyLocality env l se = Ret (rc, se')"
    and ok: "policy_ok alg se" and e: "env_ok H alg env"
  shows "se' = se \<or> adds H alg (env, s, PolicyLocality l) se se'"
proof (cases "se' = se")
  case False
  have H: "pe_hash env alg = H" using e by (simp add: env_ok_def)
  let ?prev = "commandLocality se"
  let ?w = "(if ?prev = 0 then 0x1F else ?prev) AND l"
  let ?set = "if l < 32 then ?w else l"
  have se': "se' = se\<lparr>u2 := H (u2 se @ be 4 TPM_CC_PolicyLocality @ [l]), commandLocality := ?set\<rparr>"
    and l: "l \<noteq> 0" "?prev = 0 \<or> (?prev < 32) = (l < 32)" "l < 32 \<Longrightarrow> ?w \<noteq> 0" "\<not> l < 32 \<Longrightarrow> ?prev = 0 \<or> ?prev = l"
    using ex False policy_ok_not_trial [OF ok] H
    by (auto simp: TPM2_PolicyLocality_def policy_extend_def Let_def split: if_splits)
  have nar: "locality_allowed ?prev loc \<and> locality_allowed l loc" if "locality_allowed ?set loc" for loc
  proof (cases "l < 32")
    case True
    then have "?prev < 32" using l(2) by auto
    then show ?thesis using locality_narrows [OF True _ l(3) [OF True]] that True by simp
  next
    case False
    then show ?thesis using that l(4) [OF False] by (auto simp: locality_allowed_def)
  qed
  have "adds H alg (env, s, PolicyLocality l) se se'"
  proof (rule plain_adds)
    show "policy_ok alg se'" using ok se' by (simp add: policy_ok_def)
    fix x assume x: "admits x se'"
    then have "locality_allowed ?set (ce_locality (x_env x))" using se' by (simp add: admits_def Let_def)
    from nar [OF this] show "admits x se \<and> assertion_holds x (Assert TPM_CC_PolicyLocality [l] None)"
      using x se' l(1) by (simp add: admits_def hash_admits_def Let_def assertion_holds_simps)
  qed (use se' in simp_all)
  then show ?thesis ..
qed simp

lemma PolicyPCR_adds:
  assumes ex: "TPM2_PolicyPCR env d sel se = Ret (rc, se')"
    and ok: "policy_ok alg se" and e: "env_ok H alg env"
  shows "se' = se \<or> adds H alg (env, s, PolicyPCR d sel) se se'"
proof (cases "se' = se")
  case False
  have H: "pe_hash env alg = H" and cnt: "pe_pcrCounter env \<noteq> 0" using e by (simp_all add: env_ok_def)
  let ?b = "TPML_PCR_SELECTION_Marshal (fst (pe_pcrDigest env alg sel)) @ snd (pe_pcrDigest env alg sel)"
  have se': "se' = se\<lparr>u2 := H (u2 se @ be 4 TPM_CC_PolicyPCR @ ?b), pcrCounter := pe_pcrCounter env\<rparr>"
    and c: "pcrCounter se = 0 \<or> pcrCounter se = pe_pcrCounter env"
    using ex False policy_ok_not_trial [OF ok] H
    by (auto simp: TPM2_PolicyPCR_def policy_extend_def Let_def split: if_splits prod.splits)
  have "adds H alg (env, s, PolicyPCR d sel) se se'"
  proof (rule plain_adds)
    show "policy_ok alg se'" using ok se' by (simp add: policy_ok_def)
    fix x assume x: "use_ok H alg x" "(env, s, PolicyPCR d sel) \<in> set (x_hist x)" "admits x se'"
    have "pe_pcrCounter env = x_pcrCounter x" using x(3) se' cnt by (simp add: admits_def Let_def)
    then have "pe_pcrDigest env alg sel = pe_pcrDigest (x_env x) alg sel" "x_alg x = alg"
      using x(1,2) by (auto simp: use_ok_def list_all_iff)
    then have "pcr_current x ?b (env, s, PolicyPCR d sel)" by simp
    then have "list_ex (pcr_current x ?b) (x_hist x)" using x(2) list_ex_iff by blast
    moreover have "admits x se" using x(3) se' c cnt by (auto simp: admits_def hash_admits_def Let_def)
    ultimately show "admits x se \<and> assertion_holds x (Assert TPM_CC_PolicyPCR ?b None)" by (simp add: assertion_holds_simps)
  qed (use se' in simp_all)
  then show ?thesis ..
qed simp

section \<open>All commands\<close>

lemma policy_step_adds:
  assumes ex: "policy_exec env cmd se s = Ret ((rc, se'), s')" and ok: "policy_ok alg se" and e: "env_ok H alg env"
  shows "se' = se \<or> adds H alg (env, s, cmd) se se'"
proof (cases cmd)
  case (PolicySigned k nonce cp r ex' au)
  then show ?thesis using ex PolicySigned_adds [OF _ ok e] by (fastforce simp: keep_nv_def drop_out_def obind_Ret_iff split: prod.splits)
next
  case (PolicySecret h nonce cp r ex')
  then show ?thesis using ex PolicySecret_adds [OF _ ok e] by (fastforce simp: keep_nv_def drop_out_def obind_Ret_iff split: prod.splits)
next
  case PolicyGetDigest
  then show ?thesis using ex by (simp add: keep_nv_def drop_out_def TPM2_PolicyGetDigest_def)
next
  case PolicyAuthValue
  then show ?thesis using ex PolicyAuthValue_adds [OF _ ok e] by (fastforce simp: keep_nv_def obind_Ret_iff)
next
  case PolicyPassword
  then show ?thesis using ex PolicyAuthValue_adds [OF _ ok e] by (fastforce simp: keep_nv_def obind_Ret_iff)
next
  case (PolicyTicket v0 v1 v2 v3 v4)
  then show ?thesis using ex PolicyTicket_adds [OF _ ok e] by (auto simp: keep_nv_def obind_Ret_iff)
next
  case (PolicyOR v0)
  then show ?thesis using ex PolicyOR_adds [OF _ ok e] by (auto simp: keep_nv_def obind_Ret_iff)
next
  case (PolicyAuthorize v0 v1 v2 v3)
  then show ?thesis using ex PolicyAuthorize_adds [OF _ ok e] by (auto simp: keep_nv_def obind_Ret_iff)
next
  case (PolicyPCR v0 v1)
  then show ?thesis using ex PolicyPCR_adds [OF _ ok e] by (auto simp: keep_nv_def obind_Ret_iff)
next
  case PolicyPhysicalPresence
  then show ?thesis using ex PolicyPhysicalPresence_adds [OF _ ok e] by (auto simp: keep_nv_def obind_Ret_iff)
next
  case (PolicyLocality v0)
  then show ?thesis using ex PolicyLocality_adds [OF _ ok e] by (auto simp: keep_nv_def obind_Ret_iff)
next
  case (PolicyCounterTimer v0 v1 v2)
  then show ?thesis using ex PolicyCounterTimer_adds [OF _ ok e] by (auto simp: keep_nv_def obind_Ret_iff)
next
  case (PolicyCommandCode v0)
  then show ?thesis using ex PolicyCommandCode_adds [OF _ ok e] by (auto simp: keep_nv_def obind_Ret_iff)
next
  case (PolicyCpHash v0)
  then show ?thesis using ex PolicyCpHash_adds [OF _ ok e] by (auto simp: keep_nv_def obind_Ret_iff)
next
  case (PolicyNameHash v0)
  then show ?thesis using ex PolicyNameHash_adds [OF _ ok e] by (auto simp: keep_nv_def obind_Ret_iff)
next
  case (PolicyDuplicationSelect v0 v1 v2)
  then show ?thesis using ex PolicyDuplicationSelect_adds [OF _ ok e] by (auto simp: keep_nv_def obind_Ret_iff)
next
  case (PolicyNvWritten v0)
  then show ?thesis using ex PolicyNvWritten_adds [OF _ ok e] by (auto simp: keep_nv_def obind_Ret_iff)
next
  case (PolicyTemplate v0)
  then show ?thesis using ex PolicyTemplate_adds [OF _ ok e] by (auto simp: keep_nv_def obind_Ret_iff)
next
  case (PolicyParameters v0)
  then show ?thesis using ex PolicyParameters_adds [OF _ ok e] by (auto simp: keep_nv_def obind_Ret_iff)
next
  case (PolicyCapability v0 v1 v2 v3 v4)
  then show ?thesis using ex PolicyCapability_adds [OF _ ok e] by (auto simp: keep_nv_def obind_Ret_iff)
next
  case (PolicyAuthorizeNV v0 v1)
  then show ?thesis using ex PolicyAuthorizeNV_adds [OF _ ok e] by simp
next
  case (PolicyNV v0 v1 v2 v3 v4)
  then show ?thesis using ex PolicyNV_adds [OF _ ok e] by simp
qed

end
