(* ===== verification/Policy_Soundness.thy ===== *)
theory Policy_Soundness
  imports Policy_Records NV_Properties Session_Protocol
begin

text \<open>
  What the authorization by a policy session guarantees: the command satisfies the policy whose digest the
  authorized entity carries.
\<close>

section \<open>Invariant of a run\<close>

definition start_or_hash :: "(bytes \<Rightarrow> bytes) \<Rightarrow> nat \<Rightarrow> bytes set \<Rightarrow> bytes set" where
  "start_or_hash H n M = insert (replicate n 0) (H ` M)"

definition good_policy :: "(bytes \<Rightarrow> bytes) \<Rightarrow> nat \<Rightarrow> bytes set \<Rightarrow> policy \<Rightarrow> bool" where
  "good_policy H n M p \<longleftrightarrow> policy_wf p \<and> set (policy_msgs H n p) \<subseteq> M \<and> (\<forall>d \<in> start_or_hash H n M. policy_clear H n d p)"

definition run_inv :: "(bytes \<Rightarrow> bytes) \<Rightarrow> TPM_ALG_ID \<Rightarrow> bytes set \<Rightarrow> policy_event list \<Rightarrow> SESSION \<Rightarrow> bool" where
  "run_inv H alg M hist se \<longleftrightarrow>
     (let n = CryptHashGetDigestSize alg in
      policy_ok alg se \<and> complete_digest H n M (u2 se) \<and> u2 se \<in> start_or_hash H n M \<and>
      (\<forall>p x. good_policy H n M p \<longrightarrow> policy_digest H n p = u2 se \<longrightarrow> use_ok H alg x \<longrightarrow> set hist \<subseteq> set (x_hist x) \<longrightarrow>
         admits x se \<longrightarrow> policy_holds x p))"

lemma extends_in_hash:
  assumes "set (extend_msgs H d bs) \<subseteq> M" "bs \<noteq> []"
  shows "extends H d bs \<in> H ` M"
  using assms
proof (induction bs arbitrary: d)
  case (Cons b bs)
  then show ?case by (cases bs) auto
qed simp

lemma shape_not_Nil: "assertion_shape bs \<Longrightarrow> bs \<noteq> []"
  by (auto simp: assertion_shape_def)

lemma policy_digest_start:
  assumes "collision_free H n M" "policy_wf p" "set (policy_msgs H n p) \<subseteq> M" "policy_digest H n p = replicate n 0"
  shows "p = Unrestricted"
proof (rule ccontr)
  assume "p \<noteq> Unrestricted"
  then have "policy_blocks H n p \<noteq> []" using policy_blocks_shape [OF assms(2)] shape_not_Nil by blast
  then have "policy_digest H n p \<in> H ` M"
    using extends_in_hash policy_msgs_base assms(3) policy_digest_base [of H n p] by (metis subset_trans)
  then show False using assms(1,4) by (auto simp: collision_free_def)
qed

lemma run_inv_start:
  assumes cf: "collision_free H (CryptHashGetDigestSize alg) M" and ok: "policy_ok alg se"
    and d: "u2 se = replicate (CryptHashGetDigestSize alg) 0"
  shows "run_inv H alg M hist se"
  using complete_start [OF cf] policy_digest_start [OF cf] ok d
  by (fastforce simp: run_inv_def Let_def good_policy_def start_or_hash_def)

lemma fresh_policy_ok: "fresh_policy alg se \<Longrightarrow> policy_ok alg se"
  by (simp add: fresh_policy_def policy_ok_def IsCpHashUnionOccupied_def Let_def)

lemma occurs_in_concat: "d \<in> set hs \<Longrightarrow> occurs_in d (concat hs)"
proof -
  assume "d \<in> set hs"
  then obtain xs ys where "concat hs = xs @ d @ ys" by (metis concat.simps(2) concat_append split_list)
  then have "take (length d) (drop (length xs) (concat hs)) = d \<and> length xs \<le> length (concat hs)" by simp
  then show ?thesis unfolding occurs_in_def list_ex_iff by force
qed

text \<open>One policy demanded by the digest after a command: what it extends is demanded by the digest before.\<close>

lemma holds_after_command:
  assumes cf: "collision_free H n M" and n: "n = CryptHashGetDigestSize alg"
    and inv: "run_inv H alg M hist se" and ex: "policy_exec env cmd se s = Ret ((rc, se'), s')" and e: "env_ok H alg env"
    and a: "contribution env alg cmd = Some a" "assert_wf a" "u2 se' = extends H (extended_digest n a se) (blocks a)"
      "set (extend_msgs H (extended_digest n a se) (blocks a)) \<subseteq> M" "se' \<noteq> se"
    and cd: "complete_digest H n M (extended_digest n a se)"
    and p: "good_policy H n M p" "policy_digest H n p = u2 se'"
    and x: "use_ok H alg x" "set hist \<subseteq> set (x_hist x)" "admits x se" "asserted x a"
  shows "policy_holds x p"
proof -
  have pw: "policy_wf p" "set (policy_msgs H n p) \<subseteq> M" using p(1) by (auto simp: good_policy_def)
  have pb: "policy_base H n p = extended_digest n a se" "policy_blocks H n p = blocks a"
    using policy_digest_unique [OF cf cd blocks_shape [OF a(2)] a(4) pw] p(2) a(3) by auto
  have ih: "policy_holds x q" if "good_policy H n M q" "policy_digest H n q = u2 se" for q
    using inv that x n by (auto simp: run_inv_def Let_def)
  show ?thesis
  proof (cases p)
    case Unrestricted
    then show ?thesis by simp
  next
    case (And q a')
    then have wf: "assert_wf a'" "\<not> restarting (assert_cc a')" using pw(1) by auto
    have aa: "a' = a" using blocks_inject [OF wf(1) a(2)] pb(2) And by simp
    then have "policy_digest H n q = u2 se" using pb(1) And wf(2) by (simp add: extended_digest_def)
    moreover have "good_policy H n M q" using p(1) And by (auto simp: good_policy_def)
    ultimately have "policy_holds x q" using ih by blast
    moreover have "assertion_holds x a"
      using x(4) wf(2) aa by (auto simp: asserted_def split: if_splits)
    ultimately show ?thesis using And aa by simp
  next
    case (Or ps)
    let ?ds = "map (policy_digest H n) ps"
    have aor: "a = Assert TPM_CC_PolicyOR (concat ?ds) None"
      using blocks_inject [OF _ a(2), of "Assert TPM_CC_PolicyOR (concat ?ds) None"] pb(2) Or by simp
    then obtain hs where hs: "cmd = PolicyOR hs" "concat hs = concat ?ds"
      using a(1) by (cases cmd) (auto simp: tpm_consts split: if_splits)
    have ok: "policy_ok alg se" "u2 se \<in> start_or_hash H n M" using inv n by (simp_all add: run_inv_def Let_def)
    have "u2 se \<in> set hs"
      using PolicyOR_adds [OF _ ok(1) e] ex hs(1) a(5) by (auto simp: keep_nv_def obind_Ret_iff)
    then have "occurs_in (u2 se) (concat ?ds)" using occurs_in_concat hs(2) by metis
    moreover have "policy_clear H n (u2 se) p" using p(1) ok(2) by (simp add: good_policy_def)
    ultimately obtain q where q: "q \<in> set ps" "policy_digest H n q = u2 se" using Or by auto
    moreover have "good_policy H n M q" using p(1) Or q(1) by (force simp: good_policy_def list_all_iff)
    ultimately have "policy_holds x q" using ih by blast
    then show ?thesis using Or q(1) by (auto simp: list_ex_iff)
  next
    case (Approved a')
    then have wf: "assert_wf a'" "assert_cc a' \<in> {TPM_CC_PolicyAuthorize, TPM_CC_PolicyAuthorizeNV}" using pw(1) by auto
    have aa: "a' = a" using blocks_inject [OF wf(1) a(2)] pb(2) Approved by simp
    then show ?thesis using x(4) wf(2) Approved by (auto simp: asserted_def tpm_consts restarting_def)
  qed
qed

lemma run_inv_command:
  assumes cf: "collision_free H (CryptHashGetDigestSize alg) M"
    and inv: "run_inv H alg M hist se" and e: "env_ok H alg env" and ex: "policy_exec env cmd se s = Ret ((rc, se'), s')"
    and ms: "set (cmd_msgs env cmd se) \<subseteq> M"
  shows "run_inv H alg M ((env, s, cmd) # hist) se'"
proof (cases "se' = se")
  case True
  then show ?thesis using inv by (simp add: run_inv_def Let_def)
next
  case False
  let ?n = "CryptHashGetDigestSize alg"
  have ok: "policy_ok alg se" and c: "complete_digest H ?n M (u2 se)" using inv by (simp_all add: run_inv_def Let_def)
  obtain a where a: "contribution env alg cmd = Some a" "assert_wf a" "u2 se' = extends H (extended_digest ?n a se) (blocks a)"
      "policy_ok alg se'"
    and x: "\<And>x. use_ok H alg x \<Longrightarrow> (env, s, cmd) \<in> set (x_hist x) \<Longrightarrow> admits x se' \<Longrightarrow> admits x se \<and> asserted x a"
    using policy_step_adds [OF ex ok e] False by (auto simp: adds_def)
  have am: "set (extend_msgs H (extended_digest ?n a se) (blocks a)) \<subseteq> M"
    using ms a(1) policy_ok_not_trial [OF ok] e by (simp add: cmd_msgs_def Let_def env_ok_def)
  have cd: "complete_digest H ?n M (extended_digest ?n a se)"
    using c complete_start [OF cf] by (simp add: extended_digest_def)
  have "complete_digest H ?n M (u2 se')"
    using complete_extends [OF cf cd blocks_shape [OF a(2)] am] a(3) by simp
  moreover have "u2 se' \<in> start_or_hash H ?n M"
    using extends_in_hash [OF am shape_not_Nil [OF blocks_shape [OF a(2)]]] a(3) by (simp add: start_or_hash_def)
  moreover have "policy_holds y p" if "good_policy H ?n M p" "policy_digest H ?n p = u2 se'" "use_ok H alg y"
      "set ((env, s, cmd) # hist) \<subseteq> set (x_hist y)" "admits y se'" for p y
    using holds_after_command [OF cf refl inv ex e a(1,2,3) am False cd that(1,2,3)] x [OF that(3) _ that(5)] that(4) by simp
  ultimately show ?thesis using a(4) by (simp add: run_inv_def Let_def)
qed

lemma run_inv_reset:
  assumes "collision_free H (CryptHashGetDigestSize alg) M" "run_inv H alg M hist se"
  shows "run_inv H alg M [] (SessionResetPolicyData se)"
proof (rule run_inv_start [OF assms(1)])
  show "policy_ok alg (SessionResetPolicyData se)"
    using assms(2) by (auto simp: run_inv_def policy_ok_def SessionResetPolicyData_def IsCpHashUnionOccupied_def
        SESSION_ATTRIBUTES_zero_def Let_def)
  show "u2 (SessionResetPolicyData se) = replicate (CryptHashGetDigestSize alg) 0"
    using assms(2) by (simp add: run_inv_def complete_digest_def SessionResetPolicyData_def Let_def)
qed

lemma run_inv_use:
  "run_inv H alg M hist (se\<lparr>nonceTPM := nn, attributes := (attributes se)\<lparr>includeAuth := ia\<rparr>\<rparr>) = run_inv H alg M hist se"
proof -
  let ?se = "se\<lparr>nonceTPM := nn, attributes := (attributes se)\<lparr>includeAuth := ia\<rparr>\<rparr>"
  have "policy_ok alg ?se = policy_ok alg se" by (simp add: policy_ok_def IsCpHashUnionOccupied_def Let_def)
  moreover have "admits x ?se = admits x se" for x by (simp add: admits_def hash_admits_def Let_def)
  ultimately show ?thesis by (simp add: run_inv_def)
qed

lemma policy_run_inv:
  assumes "policy_run H alg M hist se" "collision_free H (CryptHashGetDigestSize alg) M"
  shows "run_inv H alg M hist se"
  using assms(1)
proof (induction rule: policy_run.induct)
  case (run_start se)
  then show ?case using run_inv_start [OF assms(2) fresh_policy_ok] by (simp add: fresh_policy_def)
next
  case (run_cmd hist se env cmd s rc se' s')
  then show ?case using run_inv_command [OF assms(2)] by blast
next
  case (run_restart hist se rc se')
  then show ?case using run_inv_reset [OF assms(2)] by (auto simp: TPM2_PolicyRestart_def)
next
  case (run_use hist se nn ia)
  then show ?case by (simp add: run_inv_use)
qed

section \<open>Authorization\<close>

text \<open>The use of a session that a check is about.\<close>

definition use_of ::
  "check_env \<Rightarrow> sess_state \<Rightarrow> COMMAND \<Rightarrow> TPM_HANDLE \<Rightarrow> nv_state \<Rightarrow> SESSION \<Rightarrow> policy_event list \<Rightarrow> policy_use" where
  "use_of env ss c handle s se hist = \<lparr>x_env = env, x_pcrCounter = gr_pcrCounter ss, x_command = c, x_handle = handle, x_nv = s,
     x_authNeeded = (isAuthValueNeeded (attributes se) \<or> isPasswordNeeded (attributes se)),
     x_alg = authHashAlg se, x_hist = hist\<rparr>"

lemma command_hash_admits:
  assumes "policy_ok alg se" "use_ok H alg (use_of env ss c handle s se hist)" "u1 se \<noteq> [] \<longrightarrow> command_hash_ok env c se"
  shows "hash_admits (use_of env ss c handle s se hist) se"
proof (cases "u1 se = []")
  case True
  then show ?thesis using assms(1) by (intro unoccupied_hash_admits) (simp add: policy_ok_def Let_def)
next
  case False
  have H: "pe_hash env alg = H" "\<And>m. length (H m) = CryptHashGetDigestSize alg" "authHashAlg se = alg" "pe_stateFormatLevel env \<ge> 4"
    using assms(1,2) by (simp_all add: use_ok_def env_ok_def use_of_def policy_ok_def Let_def)
  have l: "length (u1 se) = CryptHashGetDigestSize alg" using assms(1) False by (simp add: policy_ok_def Let_def)
  have "CompareNameHash env c se \<Longrightarrow> is_nameHash (use_of env ss c handle s se hist) (u1 se)"
    using H l by (simp add: CompareNameHash_def is_nameHash_def use_of_def)
  moreover have "CompareParametersHash env c se \<Longrightarrow> is_parametersHash (use_of env ss c handle s se hist) (u1 se)"
    by (simp add: CompareParametersHash_def is_parametersHash_def use_of_def)
  moreover have "CompareTemplateHash env c se \<Longrightarrow> is_templateHash (use_of env ss c handle s se hist) (u1 se)"
    by (auto simp: CompareTemplateHash_def is_templateHash_def use_of_def split: option.splits)
  moreover have "u1 se = ComputeCpHash env (authHashAlg se) c \<Longrightarrow> is_cpHash (use_of env ss c handle s se hist) (u1 se)"
    by (simp add: is_cpHash_def use_of_def)
  ultimately show ?thesis
    using assms(1,3) False H(4) by (auto simp: hash_admits_def command_hash_ok_def policy_ok_def Let_def split: if_splits)
qed

lemma CheckPolicyAuthSession_admits:
  assumes chk: "CheckPolicyAuthSession env ss c i handle se s = Ret (TPM_RC_SUCCESS, s')"
    and ok: "policy_ok alg se" "use_ok H alg (use_of env ss c handle s se hist)"
  shows "admits (use_of env ss c handle s se hist) se" "ce_authPolicy env handle = (authHashAlg se, u2 se)"
proof -
  have f: "TPM_RC_MODE \<noteq> TPM_RC_SUCCESS" "TPM_RC_PCR_CHANGED \<noteq> TPM_RC_SUCCESS" "TPM_RC_POLICY_FAIL \<noteq> TPM_RC_SUCCESS"
    "TPM_RC_EXPIRED \<noteq> TPM_RC_SUCCESS" "TPM_RC_POLICY_CC \<noteq> TPM_RC_SUCCESS" "TPM_RC_LOCALITY \<noteq> TPM_RC_SUCCESS" "TPM_RC_PP \<noteq> TPM_RC_SUCCESS"
    by (simp_all add: tpm_consts)
  show "ce_authPolicy env handle = (authHashAlg se, u2 se)"
    using chk f by (simp add: CheckPolicyAuthSession_def Let_def split: prod.splits if_splits)
  have "SessionPCRValueIsCurrent ss se" "commandCode se \<noteq> 0 \<longrightarrow> commandCode se = c_code c"
    "locality_allowed (commandLocality se) (ce_locality env)" "isPPRequired (attributes se) \<longrightarrow> ce_physicalPresence env"
    "u1 se \<noteq> [] \<longrightarrow> command_hash_ok env c se"
    using chk f by (auto simp: CheckPolicyAuthSession_def Let_def split: prod.splits if_splits)
  moreover have "is_written (use_of env ss c handle s se hist) (nvWrittenState (attributes se))" if "checkNvWritten (attributes se)"
    using chk f that
    by (auto simp: CheckPolicyAuthSession_def Let_def is_written_def use_of_def with_index_def obind_Ret_iff
        split: prod.splits if_splits option.splits)
  ultimately show "admits (use_of env ss c handle s se hist) se"
    using command_hash_admits [OF ok] by (simp add: admits_def Let_def SessionPCRValueIsCurrent_def) (auto simp: use_of_def)
qed

section \<open>Executing a run\<close>

fun policy_exec_all :: "policy_event list \<Rightarrow> SESSION \<Rightarrow> SESSION outcome" where
  "policy_exec_all [] se = Ret se"
| "policy_exec_all ((env, s, cmd) # es) se = obind (policy_exec env cmd se s) (\<lambda>((rc, se1), s1). policy_exec_all es se1)"

fun policy_msgs_all :: "policy_event list \<Rightarrow> SESSION \<Rightarrow> bytes list" where
  "policy_msgs_all [] se = []"
| "policy_msgs_all ((env, s, cmd) # es) se = cmd_msgs env cmd se @
     (case policy_exec env cmd se s of Ret ((rc, se1), s1) \<Rightarrow> policy_msgs_all es se1 | FailureMode \<Rightarrow> [])"

lemma policy_exec_all_run:
  assumes "policy_run H alg M hist se" "policy_exec_all es se = Ret se'"
    and "\<forall>e \<in> set es. env_ok H alg (fst e)" "set (policy_msgs_all es se) \<subseteq> M"
  shows "policy_run H alg M (rev es @ hist) se'"
  using assms
proof (induction es arbitrary: hist se)
  case (Cons e es)
  obtain env s cmd where e: "e = (env, s, cmd)" by (cases e)
  obtain rc se1 s1 where x: "policy_exec env cmd se s = Ret ((rc, se1), s1)" "policy_exec_all es se1 = Ret se'"
    using Cons.prems(2) e by (auto simp: obind_Ret_iff)
  have "policy_run H alg M ((env, s, cmd) # hist) se1"
    by (rule run_cmd [OF Cons.prems(1) _ x(1)]) (use Cons.prems e in auto)
  from Cons.IH [OF this x(2)] show ?case using Cons.prems(3,4) e x(1) by simp
qed simp

text \<open>An example: read the owner's NV index at locality 0, or do anything at locality 0.\<close>

definition demo_hash :: "bytes \<Rightarrow> bytes" where
  "demo_hash m = word_of_nat (length m) # replicate 19 0"

definition demo_penv :: policy_env where
  "demo_penv = \<lparr>pe_hash = (\<lambda>alg. demo_hash), pe_time = 0, pe_timeEpoch = 0, pe_pcrCounter = 1, pe_NvStatus = TPM_RC_SUCCESS,
     pe_stateFormatLevel = 4, pe_name = (\<lambda>h. be 4 h), pe_hierarchy = (\<lambda>h. TPM_RH_NULL), pe_signHashAlg = (\<lambda>b. TPM_ALG_SHA1),
     pe_validate = (\<lambda>h d a. TPM_RC_SIGNATURE), pe_pcrDigest = (\<lambda>alg sel. (sel, [])), pe_implemented = (\<lambda>cc. cc = 0x14E),
     pe_hashEnabled = (\<lambda>alg. True), pe_pinPass = (\<lambda>h. False), pe_timeInfo = [], pe_capability = (\<lambda>c p. Inr []),
     pe_tickets = \<lparr>te_kdfa = (\<lambda>a b. []), te_hmac = (\<lambda>k m. m), te_timeEpoch = 0, te_totalResetCount = 0\<rparr>,
     pe_hs = demo_hier, pe_stale = (0, 0)\<rparr>"

definition demo_policy :: policy where
  "demo_policy = And (Or [And Unrestricted (Assert TPM_CC_PolicyCommandCode (be 4 (0x14E :: TPM_CC)) None), Unrestricted])
     (Assert TPM_CC_PolicyLocality [1] None)"

definition demo_cenv :: check_env where
  "demo_cenv = policy_env.extend demo_penv \<lparr>ce_authPolicy = (\<lambda>h. (TPM_ALG_SHA1, policy_digest demo_hash 20 demo_policy)),
     ce_role = (\<lambda>cc i. AUTH_USER), ce_locality = 0, ce_physicalPresence = False\<rparr>"

definition demo_se :: SESSION where
  "demo_se = SESSION_zero\<lparr>authHashAlg := TPM_ALG_SHA1, u2 := replicate 20 0, attributes := SESSION_ATTRIBUTES_zero\<lparr>isPolicy := True\<rparr>\<rparr>"

definition demo_policy_run :: "policy_event list" where
  "demo_policy_run = [(demo_penv, demo_nv, PolicyCommandCode 0x14E),
     (demo_penv, demo_nv, PolicyOR [demo_hash (replicate 20 0 @ be 4 TPM_CC_PolicyCommandCode @ be 4 (0x14E :: TPM_CC)), replicate 20 0]),
     (demo_penv, demo_nv, PolicyLocality 1)]"

definition demo_msgs :: "bytes list" where
  "demo_msgs = policy_msgs demo_hash 20 demo_policy"

definition demo_used :: SESSION where
  "demo_used = demo_se\<lparr>u2 := policy_digest demo_hash 20 demo_policy, commandCode := 0x14E, commandLocality := 1\<rparr>"

definition demo_read :: COMMAND where
  "demo_read = \<lparr>c_code = 0x14E, c_handles = [0x40000001, 0x01000001], c_parameterBuffer = []\<rparr>"

lemma demo_run_value: "policy_exec_all demo_policy_run demo_se = Ret demo_used"
  by code_simp

lemma demo_run_msgs: "policy_msgs_all demo_policy_run demo_se = demo_msgs"
  by code_simp

lemma demo_collision_free: "collision_free demo_hash 20 (set demo_msgs)"
proof -
  have "distinct (map demo_hash demo_msgs) \<and> list_all (\<lambda>m. length (demo_hash m) = 20 \<and> demo_hash m \<noteq> replicate 20 0) demo_msgs"
    by code_simp
  then show ?thesis by (auto simp: collision_free_def list_all_iff distinct_map)
qed

lemma demo_good_policy: "good_policy demo_hash 20 (set demo_msgs) demo_policy"
proof -
  have "policy_wf demo_policy" by code_simp
  moreover have "list_all (\<lambda>d. policy_clear demo_hash 20 d demo_policy) (replicate 20 0 # map demo_hash demo_msgs)"
    by code_simp
  ultimately show ?thesis by (auto simp: good_policy_def start_or_hash_def demo_msgs_def list_all_iff)
qed

lemma demo_env_ok: "env_ok demo_hash TPM_ALG_SHA1 demo_penv"
  by (simp add: env_ok_def demo_penv_def demo_hash_def CryptHashGetDigestSize_def TPM_ALG_SHA1_def)

lemma demo_cenv_ok: "env_ok demo_hash TPM_ALG_SHA1 demo_cenv"
  by (simp add: env_ok_def demo_cenv_def demo_penv_def demo_hash_def CryptHashGetDigestSize_def TPM_ALG_SHA1_def policy_env.defs)

lemma demo_run_policy: "policy_run demo_hash TPM_ALG_SHA1 (set demo_msgs) (rev demo_policy_run) demo_used"
proof -
  have "fresh_policy TPM_ALG_SHA1 demo_se" by code_simp
  moreover have "\<forall>e \<in> set demo_policy_run. env_ok demo_hash TPM_ALG_SHA1 (fst e)"
    using demo_env_ok by (simp add: demo_policy_run_def)
  moreover have "set (policy_msgs_all demo_policy_run demo_se) \<subseteq> set demo_msgs"
    using demo_run_msgs by simp
  ultimately have "policy_run demo_hash TPM_ALG_SHA1 (set demo_msgs) (rev demo_policy_run @ []) demo_used"
    by (intro policy_exec_all_run [OF run_start demo_run_value])
  then show ?thesis by simp
qed

lemma demo_check: "CheckPolicyAuthSession demo_cenv (demo_boot\<lparr>gr_pcrCounter := 1\<rparr>) demo_read 0 0x01000001 demo_used demo_nv = Ret (TPM_RC_SUCCESS, demo_nv)"
  by code_simp



end
