(* ===== verification/Policy_Trial.thy ===== *)
theory Policy_Trial
  imports Policy_Soundness
begin

text \<open>
  A trial session computes the digest of a policy without satisfying it. It follows the session that
  satisfies the policy, step by step.
\<close>

definition trial_twin :: "SESSION \<Rightarrow> u32 \<Rightarrow> u64 \<Rightarrow> SESSION" where
  "trial_twin se pc tm = se\<lparr>pcrCounter := pc, timeout := tm, attributes := (attributes se)\<lparr>isTrialPolicy := True\<rparr>\<rparr>"

lemma trial_twin_sel [simp]:
  "authHashAlg (trial_twin se pc tm) = authHashAlg se" "u1 (trial_twin se pc tm) = u1 se" "u2 (trial_twin se pc tm) = u2 se"
  "commandCode (trial_twin se pc tm) = commandCode se" "commandLocality (trial_twin se pc tm) = commandLocality se"
  "timeout (trial_twin se pc tm) = tm"
  "attributes (trial_twin se pc tm) = (attributes se)\<lparr>isTrialPolicy := True\<rparr>"
  by (simp_all add: trial_twin_def)

lemma trial_twin_upd [simp]:
  "(trial_twin se pc tm)\<lparr>u2 := d\<rparr> = trial_twin (se\<lparr>u2 := d\<rparr>) pc tm"
  "(trial_twin se pc tm)\<lparr>u1 := h\<rparr> = trial_twin (se\<lparr>u1 := h\<rparr>) pc tm"
  "(trial_twin se pc tm)\<lparr>commandCode := cc\<rparr> = trial_twin (se\<lparr>commandCode := cc\<rparr>) pc tm"
  "(trial_twin se pc tm)\<lparr>commandLocality := l\<rparr> = trial_twin (se\<lparr>commandLocality := l\<rparr>) pc tm"
  "(trial_twin se pc tm)\<lparr>timeout := t\<rparr> = trial_twin se pc t"
  "trial_twin (se\<lparr>pcrCounter := p\<rparr>) pc tm = trial_twin se pc tm"
  "trial_twin (se\<lparr>timeout := t\<rparr>) pc tm = trial_twin se pc tm"
  by (simp_all add: trial_twin_def)

lemma trial_extend [simp]: "policy_extend env b (trial_twin se pc tm) = trial_twin (policy_extend env b se) pc tm"
  by (simp add: policy_extend_def)

lemma trial_set_cpHash [simp]: "set_cpHash h (trial_twin se pc tm) = trial_twin (set_cpHash h se) pc tm"
  by (simp add: set_cpHash_def trial_twin_def)

lemma trial_clear [simp]: "PolicyDigestClear (trial_twin se pc tm) = trial_twin (PolicyDigestClear se) pc tm"
  by (simp add: PolicyDigestClear_def)

lemma trial_set_nameHash [simp]: "set_nameHash env h (trial_twin se pc tm) = trial_twin (set_nameHash env h se) pc tm"
  by (simp add: set_nameHash_def trial_twin_def Let_def)

lemma trial_update:
  assumes "PolicyContextUpdate env cc name ref cp t se = Ret se'"
  obtains tm' where "PolicyContextUpdate env cc name ref cp 0 (trial_twin se pc tm) = Ret (trial_twin se' pc tm')"
proof -
  have "PolicyContextUpdate env cc name ref cp 0 (trial_twin se pc tm) = Ret (trial_twin se' pc tm)"
    using assms by (cases ref) (auto simp: PolicyContextUpdate_def Let_def split: if_splits)
  then show thesis by (rule that)
qed

definition follows :: "policy_env \<Rightarrow> policy_cmd \<Rightarrow> SESSION \<Rightarrow> SESSION \<Rightarrow> nv_state \<Rightarrow> bool" where
  "follows env cmd se se' s \<longleftrightarrow> (\<forall>pc tm. \<exists>pc' tm' s'. policy_exec env cmd (trial_twin se pc tm) s = Ret ((TPM_RC_SUCCESS, trial_twin se' pc' tm'), s'))"

lemma followsI:
  assumes "\<And>pc tm. \<exists>pc' tm' s'. policy_exec env cmd (trial_twin se pc tm) s = Ret ((TPM_RC_SUCCESS, trial_twin se' pc' tm'), s')"
  shows "follows env cmd se se' s"
  using assms by (simp add: follows_def)

lemma trial_twin_refl [simp]: "\<exists>pc' tm'. trial_twin se pc tm = trial_twin se pc' tm'"
  by blast

lemma trial_signed:
  assumes "TPM2_PolicySigned env k nonce cp r ex au se = Ret ((TPM_RC_SUCCESS, out), se')" "\<not> isTrialPolicy (attributes se)"
  shows "follows env (PolicySigned k nonce cp r ex au) se se' s"
proof (rule followsI)
  fix pc tm
  obtain t where u: "PolicyContextUpdate env TPM_CC_PolicySigned (pe_name env k) (Some r) cp t se = Ret se'"
    using assms by (auto simp: TPM2_PolicySigned_def Let_def obind_Ret_iff split: if_splits)
  show "\<exists>pc' tm' s'. policy_exec env (PolicySigned k nonce cp r ex au) (trial_twin se pc tm) s = Ret ((TPM_RC_SUCCESS, trial_twin se' pc' tm'), s')"
    by (rule trial_update [OF u, of pc tm]) (auto simp: TPM2_PolicySigned_def keep_nv_def drop_out_def)
qed

lemma trial_secret:
  assumes "TPM2_PolicySecret env h nonce cp r ex se = Ret ((TPM_RC_SUCCESS, out), se')" "\<not> isTrialPolicy (attributes se)"
  shows "follows env (PolicySecret h nonce cp r ex) se se' s"
proof (rule followsI)
  fix pc tm
  obtain t where u: "PolicyContextUpdate env TPM_CC_PolicySecret (pe_name env h) (Some r) cp t se = Ret se'"
    using assms by (auto simp: TPM2_PolicySecret_def Let_def obind_Ret_iff split: if_splits)
  show "\<exists>pc' tm' s'. policy_exec env (PolicySecret h nonce cp r ex) (trial_twin se pc tm) s = Ret ((TPM_RC_SUCCESS, trial_twin se' pc' tm'), s')"
    by (rule trial_update [OF u, of pc tm]) (auto simp: TPM2_PolicySecret_def keep_nv_def drop_out_def)
qed

lemma policy_rc_errors [simp]:
  "TPM_RC_SIZE + RC_PolicyAuthorize_keySign \<noteq> TPM_RC_SUCCESS" "TPM_RC_HASH + RC_PolicyAuthorize_keySign \<noteq> TPM_RC_SUCCESS"
  "TPM_RC_VALUE + RC_PolicyAuthorize_approvedPolicy \<noteq> TPM_RC_SUCCESS" "TPM_RC_VALUE + RC_PolicyOR_pHashList \<noteq> TPM_RC_SUCCESS"
  "TPM_RC_PCR_CHANGED \<noteq> TPM_RC_SUCCESS" "TPM_RC_VALUE + RC_PolicyPCR_pcrDigest \<noteq> TPM_RC_SUCCESS"
  "TPM_RC_RANGE + RC_PolicyLocality_locality \<noteq> TPM_RC_SUCCESS" "TPM_RC_VALUE + RC_PolicyCounterTimer_offset \<noteq> TPM_RC_SUCCESS"
  "TPM_RC_RANGE \<noteq> TPM_RC_SUCCESS" "TPM_RC_POLICY \<noteq> TPM_RC_SUCCESS" "TPM_RC_VALUE + RC_PolicyCommandCode_code \<noteq> TPM_RC_SUCCESS"
  "TPM_RC_POLICY_CC + RC_PolicyCommandCode_code \<noteq> TPM_RC_SUCCESS" "TPM_RC_SIZE + RC_PolicyCpHash_cpHashA \<noteq> TPM_RC_SUCCESS"
  "TPM_RC_CPHASH \<noteq> TPM_RC_SUCCESS" "TPM_RC_SIZE + RC_PolicyNameHash_nameHash \<noteq> TPM_RC_SUCCESS" "TPM_RC_COMMAND_CODE \<noteq> TPM_RC_SUCCESS"
  "TPM_RC_VALUE + RC_PolicyNvWritten_writtenSet \<noteq> TPM_RC_SUCCESS" "TPM_RC_SIZE + RC_PolicyTemplate_templateHash \<noteq> TPM_RC_SUCCESS"
  "TPM_RC_SIZE + RC_PolicyParameters_pHash \<noteq> TPM_RC_SUCCESS" "TPM_RC_ATTRIBUTES + RC_PolicyTicket_policySession \<noteq> TPM_RC_SUCCESS"
  by (simp_all add: tpm_consts)

lemma trial_authorize:
  assumes "TPM2_PolicyAuthorize env ap r k tk se = Ret (TPM_RC_SUCCESS, se')"
  shows "follows env (PolicyAuthorize ap r k tk) se se' s"
proof (rule followsI)
  fix pc tm
  have u: "PolicyContextUpdate env TPM_CC_PolicyAuthorize k (Some r) [] 0 (PolicyDigestClear se) = Ret se'"
    and c: "\<not> length k < 2" "CryptHashIsValidAlg (ucast (from_be (take 2 k)))" "CryptHashGetDigestSize (ucast (from_be (take 2 k))) = length k - 2"
    using assms by (auto simp: TPM2_PolicyAuthorize_def Let_def obind_Ret_iff split: if_splits)
  show "\<exists>pc' tm' s'. policy_exec env (PolicyAuthorize ap r k tk) (trial_twin se pc tm) s = Ret ((TPM_RC_SUCCESS, trial_twin se' pc' tm'), s')"
    by (rule trial_update [OF u, of pc tm]) (auto simp: TPM2_PolicyAuthorize_def keep_nv_def c)
qed

lemma trial_authorizeNV:
  assumes "TPM2_PolicyAuthorizeNV env ah h se s = Ret ((TPM_RC_SUCCESS, se'), s')"
  shows "follows env (PolicyAuthorizeNV ah h) se se' s"
proof (rule followsI)
  fix pc tm
  have u: "PolicyContextUpdate env TPM_CC_PolicyAuthorizeNV (pe_name env h) None [] 0 (PolicyDigestClear se) = Ret se'"
    and w: "\<exists>i s1. NvGetIndexInfo h s = Ret (Some i, s1)"
    using assms by (auto simp: TPM2_PolicyAuthorizeNV_def with_index_def obind_Ret_iff split: if_splits option.splits)
  then obtain i s1 where w: "NvGetIndexInfo h s = Ret (Some i, s1)" by blast
  show "\<exists>pc' tm' s'. policy_exec env (PolicyAuthorizeNV ah h) (trial_twin se pc tm) s = Ret ((TPM_RC_SUCCESS, trial_twin se' pc' tm'), s')"
    by (rule trial_update [OF u, of pc tm]) (auto simp: TPM2_PolicyAuthorizeNV_def with_index_def w)
qed

lemma trial_or:
  assumes "TPM2_PolicyOR env hs se = Ret (TPM_RC_SUCCESS, se')" "\<not> isTrialPolicy (attributes se)"
  shows "follows env (PolicyOR hs) se se' s"
proof (rule followsI)
  fix pc tm
  have "se' = policy_extend env (be 4 TPM_CC_PolicyOR @ concat hs) (se\<lparr>u2 := zero_digest se\<rparr>)" "hs \<noteq> []"
    using assms by (auto simp: TPM2_PolicyOR_def split: if_splits)
  then show "\<exists>pc' tm' s'. policy_exec env (PolicyOR hs) (trial_twin se pc tm) s = Ret ((TPM_RC_SUCCESS, trial_twin se' pc' tm'), s')"
    by (cases hs) (auto simp: TPM2_PolicyOR_def keep_nv_def zero_digest_def)
qed

lemma trial_pcr:
  assumes "TPM2_PolicyPCR env d sel se = Ret (TPM_RC_SUCCESS, se')" "\<not> isTrialPolicy (attributes se)"
  shows "follows env (PolicyPCR d sel) se se' s"
proof (rule followsI)
  fix pc tm
  show "\<exists>pc' tm' s'. policy_exec env (PolicyPCR d sel) (trial_twin se pc tm) s = Ret ((TPM_RC_SUCCESS, trial_twin se' pc' tm'), s')"
    using assms by (cases "pe_pcrDigest env (authHashAlg se) sel") (auto simp: TPM2_PolicyPCR_def keep_nv_def Let_def split: if_splits)
qed

lemma trial_locality:
  assumes "TPM2_PolicyLocality env l se = Ret (TPM_RC_SUCCESS, se')"
  shows "follows env (PolicyLocality l) se se' s"
  by (rule followsI) (use assms in \<open>auto simp: TPM2_PolicyLocality_def keep_nv_def Let_def split: if_splits\<close>)

lemma trial_nv:
  assumes "TPM2_PolicyNV env ah h b off opr se s = Ret ((TPM_RC_SUCCESS, se'), s')"
  shows "follows env (PolicyNV ah h b off opr) se se' s"
  by (rule followsI)
    (use assms in \<open>auto simp: TPM2_PolicyNV_def policy_args_def obind_Ret_iff split: if_splits\<close>)

lemma trial_counterTimer:
  assumes "TPM2_PolicyCounterTimer env b off opr se = Ret (TPM_RC_SUCCESS, se')"
  shows "follows env (PolicyCounterTimer b off opr) se se' s"
  by (rule followsI)
    (use assms in \<open>auto simp: TPM2_PolicyCounterTimer_def keep_nv_def policy_args_def obind_Ret_iff Let_def split: if_splits\<close>)

lemma trial_capability:
  assumes "TPM2_PolicyCapability env b off opr cap pr se = Ret (TPM_RC_SUCCESS, se')"
  shows "follows env (PolicyCapability b off opr cap pr) se se' s"
  by (rule followsI)
    (use assms in \<open>auto simp: TPM2_PolicyCapability_def keep_nv_def policy_args_def obind_Ret_iff Let_def split: if_splits\<close>)

lemma trial_commandCode:
  assumes "TPM2_PolicyCommandCode env cc se = Ret (TPM_RC_SUCCESS, se')"
  shows "follows env (PolicyCommandCode cc) se se' s"
  by (rule followsI) (use assms in \<open>auto simp: TPM2_PolicyCommandCode_def keep_nv_def split: if_splits\<close>)

lemma trial_cpHash:
  assumes "TPM2_PolicyCpHash env h se = Ret (TPM_RC_SUCCESS, se')"
  shows "follows env (PolicyCpHash h) se se' s"
  by (rule followsI) (use assms in \<open>auto simp: TPM2_PolicyCpHash_def keep_nv_def IsCpHashUnionOccupied_def split: if_splits\<close>)

lemma trial_nameHash:
  assumes "TPM2_PolicyNameHash env h se = Ret (TPM_RC_SUCCESS, se')"
  shows "follows env (PolicyNameHash h) se se' s"
  by (rule followsI) (use assms in \<open>auto simp: TPM2_PolicyNameHash_def keep_nv_def IsCpHashUnionOccupied_def split: if_splits\<close>)

lemma trial_duplicationSelect:
  assumes "TPM2_PolicyDuplicationSelect env ob np inc se = Ret (TPM_RC_SUCCESS, se')"
  shows "follows env (PolicyDuplicationSelect ob np inc) se se' s"
  by (rule followsI) (use assms in \<open>auto simp: TPM2_PolicyDuplicationSelect_def keep_nv_def Let_def split: if_splits\<close>)

lemma trial_flag_outermost [simp]:
  "a\<lparr>isTrialPolicy := True, isPPRequired := b\<rparr> = a\<lparr>isPPRequired := b, isTrialPolicy := True\<rparr>"
  "a\<lparr>isTrialPolicy := True, isAuthValueNeeded := b\<rparr> = a\<lparr>isAuthValueNeeded := b, isTrialPolicy := True\<rparr>"
  "a\<lparr>isTrialPolicy := True, isPasswordNeeded := b\<rparr> = a\<lparr>isPasswordNeeded := b, isTrialPolicy := True\<rparr>"
  "a\<lparr>isTrialPolicy := True, checkNvWritten := b\<rparr> = a\<lparr>checkNvWritten := b, isTrialPolicy := True\<rparr>"
  "a\<lparr>isTrialPolicy := True, nvWrittenState := b\<rparr> = a\<lparr>nvWrittenState := b, isTrialPolicy := True\<rparr>"
  "a\<lparr>isTrialPolicy := True, isTemplateHashDefined := b\<rparr> = a\<lparr>isTemplateHashDefined := b, isTrialPolicy := True\<rparr>"
  "a\<lparr>isTrialPolicy := True, isParametersHashDefined := b\<rparr> = a\<lparr>isParametersHashDefined := b, isTrialPolicy := True\<rparr>"
  "(trial_twin se pc tm)\<lparr>attributes := a\<lparr>isTrialPolicy := True\<rparr>\<rparr> = trial_twin (se\<lparr>attributes := a\<rparr>) pc tm"
  by (simp_all add: trial_twin_def)

lemma trial_physicalPresence:
  "TPM2_PolicyPhysicalPresence env se = Ret (TPM_RC_SUCCESS, se') \<Longrightarrow> follows env PolicyPhysicalPresence se se' s"
  by (rule followsI) (auto simp: TPM2_PolicyPhysicalPresence_def keep_nv_def Let_def)

lemma trial_authValue:
  "TPM2_PolicyAuthValue env se = Ret (TPM_RC_SUCCESS, se') \<Longrightarrow> follows env PolicyAuthValue se se' s"
  by (rule followsI) (auto simp: TPM2_PolicyAuthValue_def keep_nv_def Let_def)

lemma trial_password:
  "TPM2_PolicyPassword env se = Ret (TPM_RC_SUCCESS, se') \<Longrightarrow> follows env PolicyPassword se se' s"
  by (rule followsI) (auto simp: TPM2_PolicyPassword_def keep_nv_def Let_def)

lemma trial_nvWritten:
  "TPM2_PolicyNvWritten env w se = Ret (TPM_RC_SUCCESS, se') \<Longrightarrow> follows env (PolicyNvWritten w) se se' s"
  by (rule followsI) (auto simp: TPM2_PolicyNvWritten_def keep_nv_def split: if_splits)

lemma trial_template:
  "TPM2_PolicyTemplate env h se = Ret (TPM_RC_SUCCESS, se') \<Longrightarrow> follows env (PolicyTemplate h) se se' s"
  by (rule followsI) (auto simp: TPM2_PolicyTemplate_def keep_nv_def IsCpHashUnionOccupied_def Let_def split: if_splits)

lemma trial_parameters:
  "TPM2_PolicyParameters env h se = Ret (TPM_RC_SUCCESS, se') \<Longrightarrow> follows env (PolicyParameters h) se se' s"
  by (rule followsI) (auto simp: TPM2_PolicyParameters_def keep_nv_def IsCpHashUnionOccupied_def Let_def split: if_splits)

section \<open>Runs\<close>

fun is_ticket :: "policy_cmd \<Rightarrow> bool" where
  "is_ticket (PolicyTicket tmo cp r nm tk) = True"
| "is_ticket _ = False"

lemmas trial_steps = trial_signed trial_secret trial_authorize trial_authorizeNV trial_or trial_pcr trial_locality trial_nv
  trial_counterTimer trial_capability trial_commandCode trial_cpHash trial_nameHash trial_duplicationSelect
  trial_physicalPresence trial_authValue trial_password trial_nvWritten trial_template trial_parameters

lemma trial_step:
  assumes ex: "policy_exec env cmd se s = Ret ((TPM_RC_SUCCESS, se'), s')" and "\<not> isTrialPolicy (attributes se)" "\<not> is_ticket cmd"
  shows "follows env cmd se se' s"
proof (cases cmd)
  case PolicyGetDigest
  then show ?thesis using ex by (auto simp: follows_def keep_nv_def drop_out_def TPM2_PolicyGetDigest_def)
qed (use assms in \<open>auto simp: keep_nv_def drop_out_def obind_Ret_iff intro: trial_steps split: prod.splits\<close>)

lemma update_trial_flag:
  assumes "PolicyContextUpdate env cc name ref cp t se = Ret se'"
  shows "isTrialPolicy (attributes se') = isTrialPolicy (attributes se)"
proof -
  obtain t' where "se' = (bind_cpHash cp se)\<lparr>u2 := extends (pe_hash env (authHashAlg se)) (u2 se) (blocks (Assert cc name ref)), timeout := t'\<rparr>"
    using PolicyContextUpdate_Ret [OF assms] .
  then show ?thesis by (simp add: bind_cpHash_def set_cpHash_def)
qed

lemmas flag_defs = keep_nv_def drop_out_def obind_Ret_iff policy_extend_def set_cpHash_def set_nameHash_def PolicyDigestClear_def Let_def
  TPM2_PolicyOR_def TPM2_PolicyPCR_def TPM2_PolicyPhysicalPresence_def TPM2_PolicyLocality_def TPM2_PolicyNV_def TPM2_PolicyCounterTimer_def
  TPM2_PolicyCommandCode_def TPM2_PolicyCpHash_def TPM2_PolicyNameHash_def TPM2_PolicyDuplicationSelect_def TPM2_PolicyAuthValue_def
  TPM2_PolicyPassword_def TPM2_PolicyGetDigest_def TPM2_PolicyNvWritten_def TPM2_PolicyTemplate_def TPM2_PolicyParameters_def
  TPM2_PolicyCapability_def

lemma exec_trial_flag:
  assumes ex: "policy_exec env cmd se s = Ret ((rc, se'), s')"
  shows "isTrialPolicy (attributes se') = isTrialPolicy (attributes se)"
proof (cases cmd)
  case (PolicySigned k nonce cp r e au)
  then have "se' = se \<or> (\<exists>t. PolicyContextUpdate env TPM_CC_PolicySigned (pe_name env k) (Some r) cp t se = Ret se')"
    using ex by (auto simp: keep_nv_def drop_out_def TPM2_PolicySigned_def obind_Ret_iff Let_def split: if_splits)
  then show ?thesis using update_trial_flag by blast
next
  case (PolicySecret h nonce cp r e)
  then have "se' = se \<or> (\<exists>t. PolicyContextUpdate env TPM_CC_PolicySecret (pe_name env h) (Some r) cp t se = Ret se')"
    using ex by (auto simp: keep_nv_def drop_out_def TPM2_PolicySecret_def obind_Ret_iff Let_def split: if_splits)
  then show ?thesis using update_trial_flag by blast
next
  case (PolicyTicket tmo cp r nm tk)
  then have "se' = se \<or> (\<exists>cc t. PolicyContextUpdate env cc nm (Some r) cp t se = Ret se')"
    using ex by (auto simp: keep_nv_def TPM2_PolicyTicket_def obind_Ret_iff Let_def split: if_splits sum.splits)
  then show ?thesis using update_trial_flag by blast
next
  case (PolicyAuthorize ap r k tk)
  then have "se' = se \<or> PolicyContextUpdate env TPM_CC_PolicyAuthorize k (Some r) [] 0 (PolicyDigestClear se) = Ret se'"
    using ex by (simp add: keep_nv_def TPM2_PolicyAuthorize_def obind_Ret_iff Let_def split: if_splits)
  then show ?thesis using update_trial_flag by (fastforce simp: PolicyDigestClear_def)
next
  case (PolicyAuthorizeNV ah h)
  then have "se' = se \<or> PolicyContextUpdate env TPM_CC_PolicyAuthorizeNV (pe_name env h) None [] 0 (PolicyDigestClear se) = Ret se'"
    using ex by (auto simp: TPM2_PolicyAuthorizeNV_def with_index_def obind_Ret_iff split: if_splits option.splits)
  then show ?thesis using update_trial_flag by (fastforce simp: PolicyDigestClear_def)
qed (use ex in \<open>auto simp: flag_defs split: if_splits prod.splits\<close>)

fun policy_exec_ok :: "policy_event list \<Rightarrow> SESSION \<Rightarrow> SESSION option" where
  "policy_exec_ok [] se = Some se"
| "policy_exec_ok ((env, s, cmd) # es) se =
     (case policy_exec env cmd se s of
        Ret ((rc, se1), s1) \<Rightarrow> if rc = TPM_RC_SUCCESS then policy_exec_ok es se1 else None
      | FailureMode \<Rightarrow> None)"

lemma trial_run:
  assumes "policy_exec_ok es se = Some se'" "\<not> isTrialPolicy (attributes se)" "list_all (\<lambda>(env, s, cmd). \<not> is_ticket cmd) es"
  shows "\<exists>pc' tm'. policy_exec_ok es (trial_twin se pc tm) = Some (trial_twin se' pc' tm')"
  using assms
proof (induction es arbitrary: se pc tm)
  case (Cons e es)
  obtain env s cmd where e: "e = (env, s, cmd)" by (cases e)
  obtain se1 s1 where x: "policy_exec env cmd se s = Ret ((TPM_RC_SUCCESS, se1), s1)" "policy_exec_ok es se1 = Some se'"
    using Cons.prems(1) e by (auto split: outcome.splits if_splits)
  then obtain pc1 tm1 s2 where t: "policy_exec env cmd (trial_twin se pc tm) s = Ret ((TPM_RC_SUCCESS, trial_twin se1 pc1 tm1), s2)"
    using trial_step [OF x(1) Cons.prems(2)] Cons.prems(3) e unfolding follows_def by (simp, metis)
  have "\<not> isTrialPolicy (attributes se1)" using exec_trial_flag [OF x(1)] Cons.prems(2) by simp
  from Cons.IH [OF x(2) this, of pc1 tm1] show ?case using t Cons.prems(3) e by simp
qed simp



section \<open>The name hash before state format level 4\<close>

text \<open>
  With a state format level below 4 the name hash of \<^verbatim>\<open>TPM2_PolicyNameHash\<close> is not marked as such, so a later
  \<^verbatim>\<open>TPM2_PolicyCpHash\<close> succeeds and replaces it: the digest contains both restrictions, and the session enforces
  only the second.
\<close>

theorem legacy_nameHash_lost:
  assumes "pe_stateFormatLevel env < 4" "\<not> IsCpHashUnionOccupied (attributes se)"
    and "length h = CryptHashGetDigestSize (authHashAlg se)" "length cp = CryptHashGetDigestSize (authHashAlg se)"
  shows "\<exists>se'. policy_exec_ok [(env, s, PolicyNameHash h), (env, s, PolicyCpHash cp)] se = Some se' \<and>
    u2 se' = pe_hash env (authHashAlg se) (pe_hash env (authHashAlg se) (u2 se @ be 4 TPM_CC_PolicyNameHash @ h)
      @ be 4 TPM_CC_PolicyCpHash @ cp) \<and>
    (\<forall>c. command_hash_ok env c se' \<longleftrightarrow> cp = ComputeCpHash env (authHashAlg se) c)"
  using assms
  by (auto simp: keep_nv_def TPM2_PolicyNameHash_def TPM2_PolicyCpHash_def set_nameHash_def set_cpHash_def policy_extend_def
      command_hash_ok_def Let_def)

theorem legacy_nameHash_lost_witness:
  "\<exists>se'. policy_exec_ok [(demo_penv\<lparr>pe_stateFormatLevel := 3\<rparr>, demo_nv, PolicyNameHash (replicate 20 1)),
      (demo_penv\<lparr>pe_stateFormatLevel := 3\<rparr>, demo_nv, PolicyCpHash (replicate 20 2))] demo_se = Some se' \<and>
    (\<forall>c. command_hash_ok (demo_penv\<lparr>pe_stateFormatLevel := 3\<rparr>) c se' \<longleftrightarrow>
       replicate 20 2 = ComputeCpHash (demo_penv\<lparr>pe_stateFormatLevel := 3\<rparr>) TPM_ALG_SHA1 c)"
proof -
  have a: "authHashAlg demo_se = TPM_ALG_SHA1" "\<not> IsCpHashUnionOccupied (attributes demo_se)"
    "length (replicate 20 (x :: u8)) = CryptHashGetDigestSize TPM_ALG_SHA1" for x
    by (simp_all add: demo_se_def SESSION_ATTRIBUTES_zero_def IsCpHashUnionOccupied_def CryptHashGetDigestSize_def)
  show ?thesis
    using legacy_nameHash_lost [of "demo_penv\<lparr>pe_stateFormatLevel := 3\<rparr>" demo_se "replicate 20 1" "replicate 20 2" demo_nv] a
    by auto
qed

end
