(* ===== verification/Policy_Conditions.thy ===== *)
theory Policy_Conditions
  imports Policy_Runs
begin

text \<open>
  The comparisons of \<^verbatim>\<open>PolicySptCheckCondition\<close> work octet by octet; for operands of the same size they are
  the comparisons of the numbers that the octets denote.
\<close>

section \<open>Numbers\<close>

definition be_nat :: "bytes \<Rightarrow> nat" where
  "be_nat bs = foldl (\<lambda>n b. n * 256 + unat b) 0 bs"

definition be_signed :: "bytes \<Rightarrow> int" where
  "be_signed bs = (if bs \<noteq> [] \<and> hd bs \<ge> 0x80 then int (be_nat bs) - 256 ^ length bs else int (be_nat bs))"

lemma be_nat_foldl: "foldl (\<lambda>n b. n * 256 + unat b) k bs = k * 256 ^ length bs + be_nat (bs :: bytes)"
proof (induction bs arbitrary: k)
  case (Cons b bs)
  have "be_nat (b # bs) = unat b * 256 ^ length bs + be_nat bs"
    unfolding be_nat_def using Cons.IH [of "unat b"] by (simp add: be_nat_def)
  then show ?case using Cons.IH [of "k * 256 + unat b"] by (simp add: algebra_simps)
qed (simp add: be_nat_def)

lemma be_nat_Nil [simp]: "be_nat [] = 0"
  by (simp add: be_nat_def)

lemma be_nat_Cons [simp]: "be_nat (b # bs) = unat b * 256 ^ length bs + be_nat bs"
  using be_nat_foldl [of "unat b" bs] by (simp add: be_nat_def)

lemma be_nat_less: "be_nat bs < 256 ^ length bs"
proof (induction bs)
  case (Cons b bs)
  have "unat b + 1 \<le> 256" using unsigned_less [of b, where 'a = nat] by simp
  then have "(unat b + 1) * 256 ^ length bs \<le> 256 ^ Suc (length bs)" by (simp del: Suc_eq_plus1 add: mult_right_mono)
  moreover have "be_nat (b # bs) < (unat b + 1) * 256 ^ length bs" using Cons by simp
  ultimately show ?case by (simp only: length_Cons)
qed simp

lemma be_nat_head_less:
  assumes "unat a < unat b" "length as = length bs"
  shows "be_nat (a # as) < be_nat (b # bs)"
proof -
  have "(unat a + 1) * 256 ^ length bs \<le> unat b * 256 ^ length bs" using assms(1) by (intro mult_right_mono) simp_all
  then show ?thesis using be_nat_less [of as] assms(2) by simp
qed

section \<open>Comparison\<close>

lemma compare_octets_be_nat:
  assumes "length a = length b"
  shows "compare_octets a b = (if be_nat a > be_nat b then 1 else if be_nat a < be_nat b then - 1 else 0) \<and>
    (compare_octets a b = 0 \<longleftrightarrow> a = b)"
  using assms
proof (induction a b rule: list_induct2)
  case (Cons x xs y ys)
  show ?case
  proof (cases "x = y")
    case True
    then show ?thesis using Cons.IH Cons.hyps by (auto split: if_splits)
  next
    case False
    then consider "unat x < unat y" | "unat y < unat x" using word_unat_eq_iff by (metis linorder_cases)
    then show ?thesis
    proof cases
      case 1
      then show ?thesis using be_nat_head_less [OF 1 Cons.hyps] False by (auto simp: word_less_nat_alt simp del: be_nat_Cons)
    next
      case 2
      then show ?thesis using be_nat_head_less [OF 2] Cons.hyps False by (auto simp: word_less_nat_alt simp del: be_nat_Cons)
    qed
  qed
qed simp

lemma UnsignedCompareB_be_nat:
  assumes "length a = length b"
  shows "UnsignedCompareB a b = sgn (int (be_nat a) - int (be_nat b))" "UnsignedCompareB a b = 0 \<longleftrightarrow> a = b"
  using compare_octets_be_nat [OF assms] assms by (auto simp: UnsignedCompareB_def sgn_if)

lemma high_bit_u8: "(a :: u8) AND 0x80 = 0 \<longleftrightarrow> a < 0x80"
proof -
  have "a AND 0x80 = 0 \<longleftrightarrow> \<not> bit a 7"
    using and_exp_eq_0_iff_not_bit [of a 7] by simp
  moreover have "bit a 7 \<longleftrightarrow> 128 \<le> unat a"
  proof -
    have "unat a < 256" using unsigned_less [of a, where 'a = nat] by simp
    moreover have "odd (x div 128) \<longleftrightarrow> 128 \<le> x" if "x < 256" for x :: nat
      using that by (cases "x < 128") (auto simp: div_nat_eqI [of 128 1 x])
    ultimately have "odd (unat a div 128) \<longleftrightarrow> 128 \<le> unat a" by blast
    then have "bit (unat a) 7 \<longleftrightarrow> 128 \<le> unat a" by (simp add: bit_iff_odd)
    then show ?thesis by (simp add: bit_unsigned_iff)
  qed
  ultimately show ?thesis by (auto simp: word_less_nat_alt)
qed

lemma be_signed_negative: "bs \<noteq> [] \<Longrightarrow> \<not> hd bs < 0x80 \<Longrightarrow> be_signed bs < 0"
proof -
  have "int (be_nat bs) < int (256 ^ length bs)" using be_nat_less [of bs] by (simp only: of_nat_less_iff)
  then show "bs \<noteq> [] \<Longrightarrow> \<not> hd bs < 0x80 \<Longrightarrow> be_signed bs < 0" by (simp add: be_signed_def not_less)
qed

lemma xor_high_bit: "((a :: u8) XOR b) AND 0x80 > 0 \<longleftrightarrow> (a < 0x80) \<noteq> (b < 0x80)"
proof -
  have "x AND 0x80 = 0 \<longleftrightarrow> \<not> bit x 7" for x :: u8 using and_exp_eq_0_iff_not_bit [of x 7] by simp
  then show ?thesis
    using high_bit_u8 [of a] high_bit_u8 [of b] by (auto simp: word_gt_0 bit_xor_iff)
qed

lemma SignedCompareB_be_signed:
  assumes "length a = length b" "a \<noteq> []"
  shows "sgn (SignedCompareB stale a b) = sgn (be_signed a - be_signed b)"
proof -
  obtain x xs y ys where ab: "a = x # xs" "b = y # ys" using assms by (cases a; cases b) auto
  show ?thesis
  proof (cases "(x < 0x80) = (y < 0x80)")
    case True
    then have "SignedCompareB stale a b = UnsignedCompareB a b" using ab xor_high_bit by (simp add: SignedCompareB_def)
    moreover have "be_signed a - be_signed b = int (be_nat a) - int (be_nat b)"
      using True ab assms(1) by (auto simp: be_signed_def not_less)
    ultimately show ?thesis using UnsignedCompareB_be_nat(1) [OF assms(1)] by simp
  next
    case False
    then have s: "SignedCompareB stale a b = (if x < 0x80 then 1 else - 1)"
      using ab xor_high_bit [of x y] high_bit_u8 [of x] by (simp add: SignedCompareB_def)
    show ?thesis
    proof (cases "x < 0x80")
      case True
      then have "be_signed a \<ge> 0" "be_signed b < 0" using False ab be_signed_negative [of b] by (auto simp: be_signed_def)
      then show ?thesis using s True by simp
    next
      case h: False
      then have "be_signed a < 0" "be_signed b \<ge> 0" using False ab be_signed_negative [of a] by (auto simp: be_signed_def)
      then show ?thesis using s h by simp
    qed
  qed
qed

section \<open>Conditions\<close>

text \<open>The operations as relations on octet strings of the same size.\<close>

definition eo_relation :: "u16 \<Rightarrow> (bytes \<Rightarrow> bytes \<Rightarrow> bool) option" where
  "eo_relation opr =
     (if opr = TPM_EO_EQ then Some (=)
      else if opr = TPM_EO_NEQ then Some (\<noteq>)
      else if opr = TPM_EO_SIGNED_GT then Some (\<lambda>a b. be_signed a > be_signed b)
      else if opr = TPM_EO_UNSIGNED_GT then Some (\<lambda>a b. be_nat a > be_nat b)
      else if opr = TPM_EO_SIGNED_LT then Some (\<lambda>a b. be_signed a < be_signed b)
      else if opr = TPM_EO_UNSIGNED_LT then Some (\<lambda>a b. be_nat a < be_nat b)
      else if opr = TPM_EO_SIGNED_GE then Some (\<lambda>a b. be_signed a \<ge> be_signed b)
      else if opr = TPM_EO_UNSIGNED_GE then Some (\<lambda>a b. be_nat a \<ge> be_nat b)
      else if opr = TPM_EO_SIGNED_LE then Some (\<lambda>a b. be_signed a \<le> be_signed b)
      else if opr = TPM_EO_UNSIGNED_LE then Some (\<lambda>a b. be_nat a \<le> be_nat b)
      else if opr = TPM_EO_BITSET then Some (\<lambda>a b. \<forall>i k. i < length b \<longrightarrow> bit (b ! i) k \<longrightarrow> bit (a ! i) k)
      else if opr = TPM_EO_BITCLEAR then Some (\<lambda>a b. \<forall>i k. i < length b \<longrightarrow> bit (b ! i) k \<longrightarrow> \<not> bit (a ! i) k)
      else None)"

lemma u8_eq_iff_bits: "(x :: u8) = y \<longleftrightarrow> (\<forall>n. bit x n = bit y n)"
  by (auto intro: bit_word_eqI)

lemma and_superset: "(x :: u8) AND y = y \<longleftrightarrow> (\<forall>k. bit y k \<longrightarrow> bit x k)"
  by (auto simp: u8_eq_iff_bits bit_and_iff)

lemma and_disjoint: "(x :: u8) AND y = 0 \<longleftrightarrow> (\<forall>k. bit y k \<longrightarrow> \<not> bit x k)"
  by (auto simp: u8_eq_iff_bits bit_and_iff)

lemma sgn_int_cases: "(0 < (x :: int)) = (sgn x = 1)" "(x < 0) = (sgn x = - 1)" "(0 \<le> x) = (sgn x \<noteq> - 1)" "(x \<le> 0) = (sgn x \<noteq> 1)"
  by (auto simp: sgn_if)



end
