(* ===== verification/PCR_Banks.thy ===== *)
theory PCR_Banks
  imports Policy_Commands
begin

text \<open>
  Platform configuration registers, \<^verbatim>\<open>PCR.c\<close> with the attribute table of \<^verbatim>\<open>PlatformPCR.c\<close>. A bank is an
  algorithm; the register array and its saved copy are functions of algorithm and number. A selection is an
  algorithm with its bit map, whose length is \<^verbatim>\<open>sizeofSelect\<close>. The locality of the command is an argument.
\<close>

section \<open>Constants and state\<close>

definition IMPLEMENTATION_PCR :: nat where [tpm_consts]: "IMPLEMENTATION_PCR = 24"
definition PCR_SELECT_MAX :: nat where [tpm_consts]: "PCR_SELECT_MAX = (IMPLEMENTATION_PCR + 7) div 8"
definition DRTM_PCR :: nat where [tpm_consts]: "DRTM_PCR = 17"
definition HCRTM_PCR :: nat where [tpm_consts]: "HCRTM_PCR = 0"
definition NUM_POLICY_PCR_GROUP :: nat where [tpm_consts]: "NUM_POLICY_PCR_GROUP = 1"
definition NUM_AUTHVALUE_PCR_GROUP :: nat where [tpm_consts]: "NUM_AUTHVALUE_PCR_GROUP = 1"
definition TPM_RC_PCR :: TPM_RC where [tpm_consts]: "TPM_RC_PCR = 0x127"

text \<open>The implemented hash algorithms, in the order of \<^verbatim>\<open>FOR_EACH_HASH\<close>.\<close>

definition hash_algs :: "TPM_ALG_ID list" where
  "hash_algs = [TPM_ALG_SHA1, TPM_ALG_SHA256, TPM_ALG_SHA384, TPM_ALG_SHA512]"

definition CryptHashGetAlgByIndex :: "nat \<Rightarrow> TPM_ALG_ID" where
  "CryptHashGetAlgByIndex i = (if i < length hash_algs then hash_algs ! i else TPM_ALG_NULL)"

record PCR_Attributes =
  stateSave :: bool
  doNotIncrementPcrCounter :: bool
  policyAuthGroup :: nat
  authValuesGroup :: nat
  resetLocality :: u8
  extendLocality :: u8

definition pcr_attr :: "bool \<Rightarrow> bool \<Rightarrow> nat \<Rightarrow> nat \<Rightarrow> u8 \<Rightarrow> u8 \<Rightarrow> PCR_Attributes" where
  "pcr_attr sv dn pg ag rl el = \<lparr>stateSave = sv, doNotIncrementPcrCounter = dn, policyAuthGroup = pg, authValuesGroup = ag,
     resetLocality = rl, extendLocality = el\<rparr>"

definition s_initAttributes :: "PCR_Attributes list" where
  "s_initAttributes = replicate 16 (pcr_attr True False 0 0 0 0x1F) @
     [pcr_attr False True 0 0 0x0F 0x1F, pcr_attr False False 0 0 0x10 0x1C, pcr_attr False False 0 0 0x10 0x1C,
      pcr_attr False False 0 0 0x10 0x0C, pcr_attr False False 0 0 0x1C 0x0E, pcr_attr False True 0 0 0x1C 0x04,
      pcr_attr False True 0 0 0x1C 0x04, pcr_attr False True 0 0 0x0F 0x1F]"

definition platPcr_NumberOfPcrs :: nat where
  "platPcr_NumberOfPcrs = length s_initAttributes"

definition platPcr_GetPcrInitializationAttributes :: "nat \<Rightarrow> PCR_Attributes" where
  "platPcr_GetPcrInitializationAttributes pcrNumber =
     s_initAttributes ! (if pcrNumber \<ge> platPcr_NumberOfPcrs then 0 else pcrNumber)"

definition platPcr_IsPcrBankDefaultActive :: "TPM_ALG_ID \<Rightarrow> bool" where
  "platPcr_IsPcrBankDefaultActive alg \<longleftrightarrow> alg \<in> {TPM_ALG_SHA1, TPM_ALG_SHA256, TPM_ALG_SHA384, TPM_ALG_SHA512}"

definition set_last :: "u8 \<Rightarrow> bytes \<Rightarrow> bytes" where
  "set_last x b = b[length b - 1 := x]"

definition pcr_default :: "nat \<Rightarrow> nat \<Rightarrow> u8 \<Rightarrow> bytes" where
  "pcr_default pcr pcrSize locality =
     (let v = replicate pcrSize (if resetLocality (platPcr_GetPcrInitializationAttributes pcr) AND 0x10 \<noteq> 0 then 0xFF else 0)
      in if pcr = HCRTM_PCR then set_last locality v else v)"

definition platPcr_GetInitialValueForPcr :: "nat \<Rightarrow> TPM_ALG_ID \<Rightarrow> u8 \<Rightarrow> nat \<Rightarrow> (TPM_RC \<times> bytes) outcome" where
  "platPcr_GetInitialValueForPcr pcrNumber pcrAlg startupLocality bufferSize =
     (let pcrSize = CryptHashGetDigestSize pcrAlg in
      pAssert (pcrNumber < platPcr_NumberOfPcrs) (pAssert (bufferSize \<ge> pcrSize)
        (Ret (TPM_RC_SUCCESS, pcr_default pcrNumber pcrSize startupLocality))))"

record pcr_state =
  s_pcrs :: "TPM_ALG_ID \<Rightarrow> nat \<Rightarrow> bytes"
  pcrSave :: "TPM_ALG_ID \<Rightarrow> nat \<Rightarrow> bytes"
  pcrAllocated :: pcr_selection
  nv_pcrAllocated :: pcr_selection
  pcrPolicies :: "(TPM_ALG_ID \<times> bytes) list"
  pcrAuthValues :: "bytes list"
  p_pcrCounter :: u32
  g_pcrReConfig :: bool
  g_DrtmPreStartup :: bool
  p_started :: bool
  p_restartCount :: u32

text \<open>The loop \<^verbatim>\<open>for(x in xs) body\<close> over a state, left by a failure.\<close>

fun ofold :: "('a \<Rightarrow> 's \<Rightarrow> 's outcome) \<Rightarrow> 'a list \<Rightarrow> 's \<Rightarrow> 's outcome" where
  "ofold f [] s = Ret s"
| "ofold f (x # xs) s = obind (f x s) (ofold f xs)"

section \<open>Groups and selections\<close>

definition PCRBelongsAuthGroup :: "nat \<Rightarrow> nat option outcome" where
  "PCRBelongsAuthGroup pcr =
     (let g = authValuesGroup (platPcr_GetPcrInitializationAttributes pcr) in
      if g \<noteq> 0 then pAssert (g - 1 < NUM_AUTHVALUE_PCR_GROUP) (Ret (Some (g - 1))) else Ret None)"

definition PCRBelongsPolicyGroup :: "nat \<Rightarrow> nat option outcome" where
  "PCRBelongsPolicyGroup pcr =
     (let g = policyAuthGroup (platPcr_GetPcrInitializationAttributes pcr) in
      if g \<noteq> 0 then pAssert (g - 1 < NUM_POLICY_PCR_GROUP) (Ret (Some (g - 1))) else Ret None)"

definition PCRBelongsTCBGroup :: "nat \<Rightarrow> bool" where
  "PCRBelongsTCBGroup pcr = doNotIncrementPcrCounter (platPcr_GetPcrInitializationAttributes pcr)"

definition PCRPolicyIsAvailable :: "nat \<Rightarrow> bool outcome" where
  "PCRPolicyIsAvailable pcr = obind (PCRBelongsPolicyGroup pcr) (\<lambda>g. Ret (g \<noteq> None))"

definition PCRGetAuthValue :: "pcr_state \<Rightarrow> nat \<Rightarrow> bytes option outcome" where
  "PCRGetAuthValue s pcr = obind (PCRBelongsAuthGroup pcr) (\<lambda>g.
     Ret (case g of None \<Rightarrow> None | Some i \<Rightarrow> Some (pcrAuthValues s ! i)))"

definition PCRGetAuthPolicy :: "pcr_state \<Rightarrow> nat \<Rightarrow> (TPM_ALG_ID \<times> bytes) outcome" where
  "PCRGetAuthPolicy s pcr = obind (PCRBelongsPolicyGroup pcr) (\<lambda>g.
     Ret (case g of None \<Rightarrow> (TPM_ALG_NULL, []) | Some i \<Rightarrow> pcrPolicies s ! i))"

definition PCRManufacture :: "pcr_state \<Rightarrow> pcr_state" where
  "PCRManufacture s =
     (let alloc = map (\<lambda>alg. (alg, replicate PCR_SELECT_MAX (if platPcr_IsPcrBankDefaultActive alg then 0xFF else 0))) hash_algs
      in s\<lparr>pcrPolicies := replicate NUM_POLICY_PCR_GROUP (TPM_ALG_NULL, []),
           pcrAuthValues := replicate NUM_AUTHVALUE_PCR_GROUP [],
           pcrAllocated := alloc, nv_pcrAllocated := alloc\<rparr>)"

definition sel_octet :: "bytes \<Rightarrow> nat \<Rightarrow> u8" where
  "sel_octet b i = (if i < length b then b ! i else 0)"

definition sel_bit :: "bytes \<Rightarrow> nat \<Rightarrow> bool" where
  "sel_bit b pcr \<longleftrightarrow> sel_octet b (pcr div 8) AND push_bit (pcr mod 8) 1 \<noteq> 0"

definition bank_of :: "pcr_selection \<Rightarrow> TPM_ALG_ID \<Rightarrow> bytes option" where
  "bank_of alloc alg = map_option snd (find (\<lambda>x. fst x = alg) alloc)"

definition PcrIsAllocated :: "pcr_state \<Rightarrow> nat \<Rightarrow> TPM_ALG_ID \<Rightarrow> bool" where
  "PcrIsAllocated s pcr hashAlg \<longleftrightarrow> pcr < IMPLEMENTATION_PCR \<and>
     (case bank_of (pcrAllocated s) hashAlg of None \<Rightarrow> False | Some b \<Rightarrow> sel_bit b pcr)"

text \<open>The pointer to a register, if it is allocated; an unknown algorithm is a failure.\<close>

definition GetPcrPointer :: "pcr_state \<Rightarrow> TPM_ALG_ID \<Rightarrow> nat \<Rightarrow> bool outcome" where
  "GetPcrPointer s alg pcrNumber =
     (if \<not> PcrIsAllocated s pcrNumber alg then Ret False else pAssert (alg \<in> set hash_algs) (Ret True))"

definition set_pcr :: "TPM_ALG_ID \<Rightarrow> nat \<Rightarrow> bytes \<Rightarrow> pcr_state \<Rightarrow> pcr_state" where
  "set_pcr alg pcr v s = s\<lparr>s_pcrs := (s_pcrs s)(alg := (s_pcrs s alg)(pcr := v))\<rparr>"

definition IsPcrSelected :: "nat \<Rightarrow> bytes \<Rightarrow> bool" where
  "IsPcrSelected pcr sel \<longleftrightarrow> pcr < IMPLEMENTATION_PCR \<and> sel_bit sel pcr"

definition FilterPcr :: "pcr_state \<Rightarrow> TPM_ALG_ID \<times> bytes \<Rightarrow> TPM_ALG_ID \<times> bytes" where
  "FilterPcr s sel =
     (case bank_of (pcrAllocated s) (fst sel) of
        None \<Rightarrow> (fst sel, map (\<lambda>x. 0) (snd sel))
      | Some b \<Rightarrow> (fst sel, map (\<lambda>i. snd sel ! i AND sel_octet b i) [0..<length (snd sel)]))"

section \<open>Changes\<close>

definition PCRChanged :: "nat \<Rightarrow> pcr_state \<Rightarrow> pcr_state outcome" where
  "PCRChanged pcr s =
     (if pcr = 0 \<or> \<not> PCRBelongsTCBGroup pcr
      then pAssert (p_pcrCounter s + 1 \<noteq> 0) (Ret (s\<lparr>p_pcrCounter := p_pcrCounter s + 1\<rparr>)) else Ret s)"

definition PCRExtend :: "(TPM_ALG_ID \<Rightarrow> bytes \<Rightarrow> bytes) \<Rightarrow> nat \<Rightarrow> TPM_ALG_ID \<Rightarrow> bytes \<Rightarrow> pcr_state \<Rightarrow> pcr_state outcome" where
  "PCRExtend hash pcr alg data s = obind (GetPcrPointer s alg pcr) (\<lambda>here.
     if here then PCRChanged pcr (set_pcr alg pcr (hash alg (s_pcrs s alg pcr @ data)) s) else Ret s)"

definition PcrDrtm :: "(TPM_ALG_ID \<Rightarrow> bytes \<Rightarrow> bytes) \<Rightarrow> nat \<Rightarrow> TPM_ALG_ID \<Rightarrow> bytes \<Rightarrow> pcr_state \<Rightarrow> pcr_state outcome" where
  "PcrDrtm hash pcr alg digest s = obind (GetPcrPointer s alg pcr) (\<lambda>here.
     if here then
       let z = replicate (length digest) 0
       in PCRExtend hash pcr alg digest (set_pcr alg pcr (if p_started s then z else set_last 4 z) s)
     else Ret s)"

definition PCR_ClearAuth :: "pcr_state \<Rightarrow> pcr_state" where
  "PCR_ClearAuth s = s\<lparr>pcrAuthValues := replicate NUM_AUTHVALUE_PCR_GROUP []\<rparr>"

text \<open>One register of one bank in \<^verbatim>\<open>PCRStartup\<close>.\<close>

definition startup_bank :: "u8 \<Rightarrow> bool \<Rightarrow> nat \<Rightarrow> nat \<Rightarrow> TPM_ALG_ID \<times> bytes \<Rightarrow> pcr_state \<Rightarrow> pcr_state outcome" where
  "startup_bank locality stateSaved saveIndex pcr bank s =
     (let hash = fst bank; pcrSize = CryptHashGetDigestSize hash in
      obind (GetPcrPointer s hash pcr) (\<lambda>here.
        if \<not> here then Ret s
        else if stateSaved then Ret (set_pcr hash pcr (pcrSave s hash saveIndex) s)
        else obind (platPcr_GetInitialValueForPcr pcr hash locality pcrSize) (\<lambda>(rc, v).
          pAssert (rc = TPM_RC_SUCCESS \<or> rc = TPM_RC_PCR)
            (Ret (set_pcr hash pcr (if rc = TPM_RC_SUCCESS \<and> length v = pcrSize then v else pcr_default pcr pcrSize locality) s)))))"

definition startup_pcr :: "STARTUP_TYPE \<Rightarrow> u8 \<Rightarrow> nat \<Rightarrow> nat \<times> pcr_state \<Rightarrow> (nat \<times> pcr_state) outcome" where
  "startup_pcr type locality pcr = (\<lambda>(saveIndex, s).
     let stateSaved = (type = SU_RESUME \<and> stateSave (platPcr_GetPcrInitializationAttributes pcr)) in
     obind (if stateSaved then Ret s else PCRChanged pcr s) (\<lambda>s1.
       if pcr = HCRTM_PCR \<and> type \<noteq> SU_RESUME \<and> g_DrtmPreStartup s1 then Ret (saveIndex, s1)
       else obind (ofold (startup_bank locality stateSaved saveIndex pcr) (pcrAllocated s1) s1) (\<lambda>s2.
         Ret (if stateSaved then saveIndex + 1 else saveIndex, s2))))"

definition PCRStartup :: "STARTUP_TYPE \<Rightarrow> u8 \<Rightarrow> pcr_state \<Rightarrow> pcr_state outcome" where
  "PCRStartup type locality s =
     (let s0 = s\<lparr>g_pcrReConfig := False, p_pcrCounter := (if type \<noteq> SU_RESUME \<and> type \<noteq> SU_RESTART then 0 else p_pcrCounter s)\<rparr>
      in pAssert (platPcr_NumberOfPcrs = IMPLEMENTATION_PCR)
          (obind (ofold (startup_pcr type locality) [0..<IMPLEMENTATION_PCR] (0, s0)) (\<lambda>(k, s1).
            Ret (if type \<noteq> SU_RESUME then PCR_ClearAuth s1 else s1))))"

definition save_pcr :: "TPM_ALG_ID \<Rightarrow> nat \<Rightarrow> bytes \<Rightarrow> pcr_state \<Rightarrow> pcr_state" where
  "save_pcr alg k v s = s\<lparr>pcrSave := (pcrSave s)(alg := (pcrSave s alg)(k := v))\<rparr>"

definition save_step :: "nat \<Rightarrow> nat \<times> pcr_state \<Rightarrow> (nat \<times> pcr_state) outcome" where
  "save_step pcr = (\<lambda>(saveIndex, s).
     let saved = stateSave (platPcr_GetPcrInitializationAttributes pcr) in
     obind (ofold (\<lambda>bank s. obind (GetPcrPointer s (fst bank) pcr) (\<lambda>here.
         Ret (if here \<and> saved then save_pcr (fst bank) saveIndex (s_pcrs s (fst bank) pcr) s else s))) (pcrAllocated s) s) (\<lambda>s1.
       Ret (if saved then saveIndex + 1 else saveIndex, s1)))"

definition PCRStateSave :: "u16 \<Rightarrow> pcr_state \<Rightarrow> pcr_state outcome" where
  "PCRStateSave type s =
     (if type = TPM_SU_CLEAR then Ret s
      else obind (ofold save_step [0..<IMPLEMENTATION_PCR] (0, s)) (\<lambda>(k, s1). Ret s1))"

definition PCRIsStateSaved :: "nat \<Rightarrow> bool" where
  "PCRIsStateSaved pcr = stateSave (platPcr_GetPcrInitializationAttributes pcr)"

text \<open>
  The localities are 0 to 4 and 32 to 255. The C code shifts an \<^verbatim>\<open>int\<close> by the locality and keeps the low octet; a
  shift by 32 or more is undefined, and its result is the argument \<open>wide\<close>.
\<close>

definition locality_bits :: "(u8 \<Rightarrow> u8) \<Rightarrow> u8 \<Rightarrow> u8" where
  "locality_bits wide locality = (if locality < 32 then push_bit (unat locality) 1 else wide locality)"

definition PCRIsResetAllowed :: "(u8 \<Rightarrow> u8) \<Rightarrow> u8 \<Rightarrow> nat \<Rightarrow> bool" where
  "PCRIsResetAllowed wide locality pcr \<longleftrightarrow> locality \<noteq> 4 \<and>
     locality_bits wide locality AND resetLocality (platPcr_GetPcrInitializationAttributes pcr) \<noteq> 0"

definition PCRIsExtendAllowed :: "(u8 \<Rightarrow> u8) \<Rightarrow> u8 \<Rightarrow> nat \<Rightarrow> bool" where
  "PCRIsExtendAllowed wide locality pcr \<longleftrightarrow>
     locality_bits wide locality AND extendLocality (platPcr_GetPcrInitializationAttributes pcr) \<noteq> 0"

definition PCRSetValue :: "nat \<Rightarrow> u8 \<Rightarrow> pcr_state \<Rightarrow> pcr_state outcome" where
  "PCRSetValue pcr initialValue s = ofold (\<lambda>i s.
     let hash = CryptHashGetAlgByIndex i; bank = fst (pcrAllocated s ! i) in
     obind (GetPcrPointer s bank pcr) (\<lambda>here.
       Ret (if here
            then let n = CryptHashGetDigestSize hash;
                     v = replicate (n - 1) (if sint initialValue \<ge> 0 then 0 else 0xFF) @ [initialValue]
                 in set_pcr bank pcr (v @ drop n (s_pcrs s bank pcr)) s
            else s))) [0..<length hash_algs] s"

definition PCRResetDynamics :: "pcr_state \<Rightarrow> pcr_state outcome" where
  "PCRResetDynamics s = ofold (\<lambda>pcr s. ofold (\<lambda>bank s. obind (GetPcrPointer s (fst bank) pcr) (\<lambda>here.
     Ret (if here \<and> resetLocality (platPcr_GetPcrInitializationAttributes pcr) AND 0x10 \<noteq> 0
          then set_pcr (fst bank) pcr (replicate (CryptHashGetDigestSize (fst bank)) 0) s else s))) (pcrAllocated s) s)
     [0..<IMPLEMENTATION_PCR] s"

section \<open>Reading\<close>

fun digest_bank :: "pcr_state \<Rightarrow> TPM_ALG_ID \<times> bytes \<Rightarrow> nat list \<Rightarrow> bytes \<Rightarrow> bytes outcome" where
  "digest_bank s sel [] acc = Ret acc"
| "digest_bank s sel (pcr # ps) acc =
     (if IsPcrSelected pcr (snd sel)
      then obind (GetPcrPointer s (fst sel) pcr) (\<lambda>here. pAssert here
        (digest_bank s sel ps (acc @ take (CryptHashGetDigestSize (fst sel)) (s_pcrs s (fst sel) pcr))))
      else digest_bank s sel ps acc)"

fun digest_banks :: "pcr_state \<Rightarrow> pcr_selection \<Rightarrow> bytes \<Rightarrow> bytes outcome" where
  "digest_banks s [] acc = Ret acc"
| "digest_banks s (sel # sels) acc =
     obind (digest_bank s (FilterPcr s sel) [0..<IMPLEMENTATION_PCR] acc) (digest_banks s sels)"

definition PCRComputeCurrentDigest ::
  "(TPM_ALG_ID \<Rightarrow> bytes \<Rightarrow> bytes) \<Rightarrow> pcr_state \<Rightarrow> TPM_ALG_ID \<Rightarrow> pcr_selection \<Rightarrow> (pcr_selection \<times> bytes) outcome" where
  "PCRComputeCurrentDigest hash s hashAlg sel =
     pAssert (CryptHashGetDigestSize hashAlg > 0)
      (obind (digest_banks s sel []) (\<lambda>b. Ret (map (FilterPcr s) sel, hash hashAlg b)))"

definition clear_bit :: "bytes \<Rightarrow> nat \<Rightarrow> bytes" where
  "clear_bit b pcr = b[pcr div 8 := (b ! (pcr div 8)) AND NOT (push_bit (pcr mod 8) 1)]"

function clear_rest :: "bytes \<Rightarrow> nat \<Rightarrow> bytes \<times> nat" where
  "clear_rest b pcr =
     (if pcr < IMPLEMENTATION_PCR \<and> pcr div 8 < length b then clear_rest (clear_bit b pcr) (Suc pcr) else (b, pcr))"
  by auto
termination by (relation "measure (\<lambda>(b, pcr). IMPLEMENTATION_PCR - pcr)") auto

declare clear_rest.simps [simp del]

text \<open>The inner loop of \<^verbatim>\<open>PCRRead\<close>: the bit map, the digests so far and the value of \<^verbatim>\<open>pcr\<close> where it ends.\<close>

function read_bank :: "pcr_state \<Rightarrow> TPM_ALG_ID \<Rightarrow> nat \<Rightarrow> bytes \<Rightarrow> bytes list \<Rightarrow> (bytes \<times> bytes list \<times> nat) outcome" where
  "read_bank s alg pcr sel ds =
     (if pcr \<ge> IMPLEMENTATION_PCR then Ret (sel, ds, pcr)
      else if IsPcrSelected pcr sel then
        if length ds > 7 then (case clear_rest sel pcr of (sel', pcr') \<Rightarrow> Ret (sel', ds, pcr'))
        else (case GetPcrPointer s alg pcr of
                Ret True \<Rightarrow> read_bank s alg (Suc pcr) sel (ds @ [take (CryptHashGetDigestSize alg) (s_pcrs s alg pcr)])
              | _ \<Rightarrow> FailureMode)
      else read_bank s alg (Suc pcr) sel ds)"
  by pat_completeness auto
termination by (relation "measure (\<lambda>(s, alg, pcr, sel, ds). IMPLEMENTATION_PCR - pcr)") auto

declare read_bank.simps [simp del]

fun read_banks :: "pcr_state \<Rightarrow> pcr_selection \<Rightarrow> bytes list \<Rightarrow> (pcr_selection \<times> bytes list) outcome" where
  "read_banks s [] ds = Ret ([], ds)"
| "read_banks s (sel # sels) ds =
     (let f = FilterPcr s sel in
      obind (read_bank s (fst f) 0 (snd f) ds) (\<lambda>(b, ds1, pcr).
        if length ds1 > 7 \<and> pcr < IMPLEMENTATION_PCR
        then Ret (map (\<lambda>x. (fst x, map (\<lambda>y. 0) (snd x))) ((fst f, b) # sels), ds1)
        else obind (read_banks s sels ds1) (\<lambda>(rest, ds2). Ret ((fst f, b) # rest, ds2))))"

definition PCRRead :: "pcr_state \<Rightarrow> pcr_selection \<Rightarrow> (pcr_selection \<times> bytes list \<times> u32) outcome" where
  "PCRRead s sel = obind (read_banks s sel []) (\<lambda>(out, ds). Ret (out, ds, p_pcrCounter s))"

section \<open>Allocation\<close>

text \<open>The bank of an algorithm is replaced where it first occurs; there must be one.\<close>

fun replace_bank :: "TPM_ALG_ID \<times> bytes \<Rightarrow> pcr_selection \<Rightarrow> pcr_selection outcome" where
  "replace_bank sel [] = FailureMode"
| "replace_bank sel (b # bs) = (if fst b = fst sel then Ret (sel # bs) else obind (replace_bank sel bs) (\<lambda>r. Ret (b # r)))"

definition TestBit :: "nat \<Rightarrow> bytes \<Rightarrow> bool outcome" where
  "TestBit bitNum b = pAssert (8 * length b > bitNum) (Ret (sel_bit b bitNum))"

definition octet_bits :: "u8 \<Rightarrow> nat" where
  "octet_bits x = length (filter (\<lambda>k. x AND push_bit k 1 \<noteq> 0) [0..<8])"

definition bank_size :: "TPM_ALG_ID \<times> bytes \<Rightarrow> nat" where
  "bank_size sel = CryptHashGetDigestSize (fst sel) * sum_list (map octet_bits (snd sel))"

definition sizeof_s_pcrs :: nat where
  "sizeof_s_pcrs = IMPLEMENTATION_PCR * sum_list (map CryptHashGetDigestSize hash_algs)"

fun any_bank :: "nat \<Rightarrow> pcr_selection \<Rightarrow> bool outcome" where
  "any_bank pcr [] = Ret False"
| "any_bank pcr (sel # sels) = obind (TestBit pcr (snd sel)) (\<lambda>t. if t then Ret True else any_bank pcr sels)"

text \<open>The results are the code, the new state, and the maximum number, the size needed and the size available.\<close>

definition PCRAllocate :: "pcr_selection \<Rightarrow> pcr_state \<Rightarrow> ((TPM_RC \<times> nat \<times> nat \<times> nat) \<times> pcr_state) outcome" where
  "PCRAllocate allocate s =
     obind (ofold replace_bank allocate (pcrAllocated s)) (\<lambda>new.
       let maxPCR = min platPcr_NumberOfPcrs IMPLEMENTATION_PCR;
           sizeNeeded = sum_list (map bank_size new)
       in obind (any_bank DRTM_PCR new) (\<lambda>drtm. obind (any_bank HCRTM_PCR new) (\<lambda>hcrtm.
            if \<not> drtm \<or> \<not> hcrtm then Ret ((TPM_RC_PCR, maxPCR, sizeNeeded, 0), s)
            else Ret ((TPM_RC_SUCCESS, maxPCR, sizeNeeded, sizeof_s_pcrs), s\<lparr>nv_pcrAllocated := new\<rparr>))))"

section \<open>Capabilities\<close>

text \<open>
  \<^verbatim>\<open>RuntimeAlgorithmsFilterPCRSelection\<close>: the array with its count, and the index. The copy moves what
  follows the index, and is left out when the count minus one is not above the index.
\<close>

function filter_selection :: "(TPM_ALG_ID \<Rightarrow> bool) \<Rightarrow> pcr_selection \<Rightarrow> nat \<Rightarrow> nat \<Rightarrow> pcr_selection" where
  "filter_selection enabled a n i =
     (if i < n \<and> n \<le> length a then
        if \<not> enabled (fst (a ! i)) then
          let n1 = n - 1
          in if n1 > 0 \<and> n1 - 1 > i then filter_selection enabled (take i a @ drop (Suc i) a @ [(0, [])]) n1 i
             else filter_selection enabled a n1 i
        else filter_selection enabled a n (Suc i)
      else take n a)"
  by pat_completeness auto
termination by (relation "measure (\<lambda>(e, a, n, i). n + (n - i))") auto

declare filter_selection.simps [simp del]

definition RuntimeAlgorithmsFilterPCRSelection :: "(TPM_ALG_ID \<Rightarrow> bool) \<Rightarrow> pcr_selection \<Rightarrow> pcr_selection" where
  "RuntimeAlgorithmsFilterPCRSelection enabled sel = filter_selection enabled sel (length sel) 0"

definition PCRCapGetAllocation :: "(TPM_ALG_ID \<Rightarrow> bool) \<Rightarrow> pcr_state \<Rightarrow> nat \<Rightarrow> bool \<times> pcr_selection" where
  "PCRCapGetAllocation enabled s cnt =
     (if cnt = 0 then (True, []) else (False, RuntimeAlgorithmsFilterPCRSelection enabled (pcrAllocated s)))"

definition PCRSetSelectBit :: "nat \<Rightarrow> bytes \<Rightarrow> bytes" where
  "PCRSetSelectBit pcr bitmap = bitmap[pcr div 8 := (bitmap ! (pcr div 8)) OR push_bit (pcr mod 8) 1]"

end
