(* ===== verification/PCR_Commands.thy ===== *)
theory PCR_Commands
  imports PCR_Banks
begin

text \<open>
  The capabilities of \<^verbatim>\<open>PCR.c\<close> and the commands of \<^verbatim>\<open>IntegrityCommands.c\<close>. \<open>orderly\<close> is what
  \<^verbatim>\<open>RETURN_IF_ORDERLY\<close> returns and \<open>nv\<close> the NV status; the digests of the DRTM sequence are an argument of
  \<^verbatim>\<open>_hash_end_pcrs\<close>.
\<close>

section \<open>Capabilities\<close>

definition TPM_PT_PCR_SAVE :: u32 where [tpm_consts]: "TPM_PT_PCR_SAVE = 0x00"
definition TPM_PT_PCR_EXTEND_L0 :: u32 where [tpm_consts]: "TPM_PT_PCR_EXTEND_L0 = 0x01"
definition TPM_PT_PCR_RESET_L0 :: u32 where [tpm_consts]: "TPM_PT_PCR_RESET_L0 = 0x02"
definition TPM_PT_PCR_EXTEND_L1 :: u32 where [tpm_consts]: "TPM_PT_PCR_EXTEND_L1 = 0x03"
definition TPM_PT_PCR_RESET_L1 :: u32 where [tpm_consts]: "TPM_PT_PCR_RESET_L1 = 0x04"
definition TPM_PT_PCR_EXTEND_L2 :: u32 where [tpm_consts]: "TPM_PT_PCR_EXTEND_L2 = 0x05"
definition TPM_PT_PCR_RESET_L2 :: u32 where [tpm_consts]: "TPM_PT_PCR_RESET_L2 = 0x06"
definition TPM_PT_PCR_EXTEND_L3 :: u32 where [tpm_consts]: "TPM_PT_PCR_EXTEND_L3 = 0x07"
definition TPM_PT_PCR_RESET_L3 :: u32 where [tpm_consts]: "TPM_PT_PCR_RESET_L3 = 0x08"
definition TPM_PT_PCR_EXTEND_L4 :: u32 where [tpm_consts]: "TPM_PT_PCR_EXTEND_L4 = 0x09"
definition TPM_PT_PCR_RESET_L4 :: u32 where [tpm_consts]: "TPM_PT_PCR_RESET_L4 = 0x0A"
definition TPM_PT_PCR_NO_INCREMENT :: u32 where [tpm_consts]: "TPM_PT_PCR_NO_INCREMENT = 0x11"
definition TPM_PT_PCR_DRTM_RESET :: u32 where [tpm_consts]: "TPM_PT_PCR_DRTM_RESET = 0x12"
definition TPM_PT_PCR_POLICY :: u32 where [tpm_consts]: "TPM_PT_PCR_POLICY = 0x13"
definition TPM_PT_PCR_AUTH :: u32 where [tpm_consts]: "TPM_PT_PCR_AUTH = 0x14"
definition TPM_PT_PCR_LAST :: u32 where [tpm_consts]: "TPM_PT_PCR_LAST = 0x14"
definition MAX_PCR_PROPERTIES :: nat where [tpm_consts]: "MAX_PCR_PROPERTIES = 127"
definition RC_PCR_SetAuthPolicy_authPolicy :: TPM_RC where [tpm_consts]: "RC_PCR_SetAuthPolicy_authPolicy = TPM_RC_P + TPM_RC_1"
definition RC_PCR_SetAuthPolicy_pcrNum :: TPM_RC where [tpm_consts]: "RC_PCR_SetAuthPolicy_pcrNum = TPM_RC_P + TPM_RC_3"

text \<open>Whether a register has a property, for the properties of the \<^verbatim>\<open>switch\<close>; none for any other.\<close>

definition has_property :: "u32 \<Rightarrow> nat \<Rightarrow> bool option outcome" where
  "has_property property pcr =
     (let a = platPcr_GetPcrInitializationAttributes pcr; e = extendLocality a; r = resetLocality a;
          bits = (\<lambda>w m. Ret (Some (w AND m \<noteq> 0))) :: u8 \<Rightarrow> u8 \<Rightarrow> bool option outcome in
      if property = TPM_PT_PCR_SAVE then Ret (Some (stateSave a))
      else if property = TPM_PT_PCR_EXTEND_L0 then bits e 0x01
      else if property = TPM_PT_PCR_RESET_L0 then bits r 0x01
      else if property = TPM_PT_PCR_EXTEND_L1 then bits e 0x02
      else if property = TPM_PT_PCR_RESET_L1 then bits r 0x02
      else if property = TPM_PT_PCR_EXTEND_L2 then bits e 0x04
      else if property = TPM_PT_PCR_RESET_L2 then bits r 0x04
      else if property = TPM_PT_PCR_EXTEND_L3 then bits e 0x08
      else if property = TPM_PT_PCR_RESET_L3 then bits r 0x08
      else if property = TPM_PT_PCR_EXTEND_L4 then bits e 0x10
      else if property = TPM_PT_PCR_RESET_L4 then bits r 0x10
      else if property = TPM_PT_PCR_DRTM_RESET then bits r 0x10
      else if property = TPM_PT_PCR_POLICY then obind (PCRBelongsPolicyGroup pcr) (\<lambda>g. Ret (Some (g \<noteq> None)))
      else if property = TPM_PT_PCR_AUTH then obind (PCRBelongsAuthGroup pcr) (\<lambda>g. Ret (Some (g \<noteq> None)))
      else if property = TPM_PT_PCR_NO_INCREMENT then Ret (Some (PCRBelongsTCBGroup pcr))
      else Ret None)"

fun property_bits :: "u32 \<Rightarrow> nat list \<Rightarrow> bytes \<Rightarrow> bytes option outcome" where
  "property_bits property [] bitmap = Ret (Some bitmap)"
| "property_bits property (pcr # ps) bitmap = obind (has_property property pcr) (\<lambda>p.
     case p of None \<Rightarrow> Ret None
     | Some x \<Rightarrow> property_bits property ps (if x then PCRSetSelectBit pcr bitmap else bitmap))"

definition PCRGetProperty :: "u32 \<Rightarrow> (u32 \<times> bytes) option outcome" where
  "PCRGetProperty property =
     obind (property_bits property [0..<IMPLEMENTATION_PCR] (replicate PCR_SELECT_MAX 0)) (\<lambda>b.
       Ret (map_option (\<lambda>m. (property, m)) b))"

fun properties_loop :: "nat \<Rightarrow> u32 list \<Rightarrow> (u32 \<times> bytes) list \<Rightarrow> (bool \<times> (u32 \<times> bytes) list) outcome" where
  "properties_loop cnt [] acc = Ret (False, acc)"
| "properties_loop cnt (i # js) acc =
     (if length acc < cnt
      then obind (PCRGetProperty i) (\<lambda>p. properties_loop cnt js (case p of None \<Rightarrow> acc | Some x \<Rightarrow> acc @ [x]))
      else Ret (True, acc))"

definition PCRCapGetProperties :: "u32 \<Rightarrow> nat \<Rightarrow> (bool \<times> (u32 \<times> bytes) list) outcome" where
  "PCRCapGetProperties property cnt =
     properties_loop (min cnt MAX_PCR_PROPERTIES) (map word_of_nat [unat property..<Suc (unat TPM_PT_PCR_LAST)]) []"

fun handles_loop :: "nat \<Rightarrow> nat list \<Rightarrow> TPM_HANDLE list \<Rightarrow> bool \<times> TPM_HANDLE list" where
  "handles_loop cnt [] acc = (False, acc)"
| "handles_loop cnt (i # js) acc =
     (if length acc < cnt then handles_loop cnt js (acc @ [word_of_nat i]) else (True, acc))"

definition PCRCapGetHandles :: "TPM_HANDLE \<Rightarrow> nat \<Rightarrow> (bool \<times> TPM_HANDLE list) outcome" where
  "PCRCapGetHandles handle cnt = pAssert (HandleGetType handle = TPM_HT_PCR)
     (Ret (handles_loop (min cnt MAX_CAP_HANDLES) [unat (handle AND HR_HANDLE_MASK)..<IMPLEMENTATION_PCR] []))"

definition PCRCapGetOneHandle :: "TPM_HANDLE \<Rightarrow> bool outcome" where
  "PCRCapGetOneHandle handle = pAssert (HandleGetType handle = TPM_HT_PCR)
     (Ret (unat (handle AND HR_HANDLE_MASK) < IMPLEMENTATION_PCR))"

section \<open>Commands\<close>

text \<open>The hash functions, the undefined shift, the locality, and the two NV results.\<close>

record pcr_env =
  v_hash :: "TPM_ALG_ID \<Rightarrow> bytes \<Rightarrow> bytes"
  v_wide :: "u8 \<Rightarrow> u8"
  v_locality :: u8
  v_nv :: TPM_RC
  v_orderly :: TPM_RC

definition TPM2_PCR_Extend ::
  "pcr_env \<Rightarrow> TPM_HANDLE \<Rightarrow> (TPM_ALG_ID \<times> bytes) list \<Rightarrow> pcr_state \<Rightarrow> (TPM_RC \<times> pcr_state) outcome" where
  "TPM2_PCR_Extend env handle digests s =
     (if handle = TPM_RH_NULL then Ret (TPM_RC_SUCCESS, s)
      else if \<not> PCRIsExtendAllowed (v_wide env) (v_locality env) (unat handle) then Ret (TPM_RC_LOCALITY, s)
      else if PCRIsStateSaved (unat handle) \<and> v_orderly env \<noteq> TPM_RC_SUCCESS then Ret (v_orderly env, s)
      else obind (ofold (\<lambda>(alg, d). PCRExtend (v_hash env) (unat handle) alg d) digests s) (\<lambda>s1. Ret (TPM_RC_SUCCESS, s1)))"

definition event_digests :: "pcr_env \<Rightarrow> bytes \<Rightarrow> (TPM_ALG_ID \<times> bytes) list" where
  "event_digests env data = map (\<lambda>alg. (alg, v_hash env alg data)) hash_algs"

definition TPM2_PCR_Event ::
  "pcr_env \<Rightarrow> TPM_HANDLE \<Rightarrow> bytes \<Rightarrow> pcr_state \<Rightarrow> ((TPM_RC \<times> (TPM_ALG_ID \<times> bytes) list) \<times> pcr_state) outcome" where
  "TPM2_PCR_Event env handle eventData s =
     (if handle \<noteq> TPM_RH_NULL \<and> \<not> PCRIsExtendAllowed (v_wide env) (v_locality env) (unat handle) then Ret ((TPM_RC_LOCALITY, []), s)
      else if handle \<noteq> TPM_RH_NULL \<and> PCRIsStateSaved (unat handle) \<and> v_orderly env \<noteq> TPM_RC_SUCCESS then Ret ((v_orderly env, []), s)
      else obind (ofold (\<lambda>(alg, d). if handle \<noteq> TPM_RH_NULL then PCRExtend (v_hash env) (unat handle) alg d else Ret)
             (event_digests env eventData) s) (\<lambda>s1.
        Ret ((TPM_RC_SUCCESS, event_digests env eventData), s1)))"

definition TPM2_PCR_Read :: "pcr_selection \<Rightarrow> pcr_state \<Rightarrow> (TPM_RC \<times> u32 \<times> pcr_selection \<times> bytes list) outcome" where
  "TPM2_PCR_Read pcrSelectionIn s = obind (PCRRead s pcrSelectionIn) (\<lambda>(out, values, counter).
     Ret (TPM_RC_SUCCESS, counter, out, values))"

definition TPM2_PCR_Allocate ::
  "pcr_env \<Rightarrow> pcr_selection \<Rightarrow> pcr_state \<Rightarrow> ((TPM_RC \<times> bool \<times> nat \<times> nat \<times> nat) \<times> pcr_state) outcome" where
  "TPM2_PCR_Allocate env pcrAllocation s =
     (if v_nv env \<noteq> TPM_RC_SUCCESS then Ret ((v_nv env, False, 0, 0, 0), s)
      else obind (PCRAllocate pcrAllocation s) (\<lambda>((rc, maxPCR, need, avail), s1).
        if rc = TPM_RC_PCR then Ret ((rc, False, maxPCR, need, avail), s1)
        else let ok = (rc = TPM_RC_SUCCESS)
             in Ret ((TPM_RC_SUCCESS, ok, maxPCR, need, avail), if ok then s1\<lparr>g_pcrReConfig := True\<rparr> else s1)))"

definition TPM2_PCR_SetAuthPolicy ::
  "pcr_env \<Rightarrow> bytes \<Rightarrow> TPM_ALG_ID \<Rightarrow> TPM_HANDLE \<Rightarrow> pcr_state \<Rightarrow> (TPM_RC \<times> pcr_state) outcome" where
  "TPM2_PCR_SetAuthPolicy env newPolicy hashAlg pcrNum s =
     (if v_nv env \<noteq> TPM_RC_SUCCESS then Ret (v_nv env, s)
      else if length newPolicy \<noteq> CryptHashGetDigestSize hashAlg then Ret (TPM_RC_SIZE + RC_PCR_SetAuthPolicy_authPolicy, s)
      else obind (PCRBelongsPolicyGroup (unat pcrNum)) (\<lambda>g.
        case g of
          None \<Rightarrow> Ret (TPM_RC_VALUE + RC_PCR_SetAuthPolicy_pcrNum, s)
        | Some i \<Rightarrow> Ret (TPM_RC_SUCCESS, s\<lparr>pcrPolicies := (pcrPolicies s)[i := (hashAlg, newPolicy)]\<rparr>)))"

definition TPM2_PCR_SetAuthValue :: "pcr_env \<Rightarrow> TPM_HANDLE \<Rightarrow> bytes \<Rightarrow> pcr_state \<Rightarrow> (TPM_RC \<times> pcr_state) outcome" where
  "TPM2_PCR_SetAuthValue env handle auth s = obind (PCRBelongsAuthGroup (unat handle)) (\<lambda>g.
     case g of
       None \<Rightarrow> Ret (TPM_RC_VALUE, s)
     | Some i \<Rightarrow>
         if v_orderly env \<noteq> TPM_RC_SUCCESS then Ret (v_orderly env, s)
         else Ret (TPM_RC_SUCCESS, s\<lparr>pcrAuthValues := (pcrAuthValues s)[i := MemoryRemoveTrailingZeros auth]\<rparr>))"

definition TPM2_PCR_Reset :: "pcr_env \<Rightarrow> TPM_HANDLE \<Rightarrow> pcr_state \<Rightarrow> (TPM_RC \<times> pcr_state) outcome" where
  "TPM2_PCR_Reset env handle s =
     (if \<not> PCRIsResetAllowed (v_wide env) (v_locality env) (unat handle) then Ret (TPM_RC_LOCALITY, s)
      else if PCRIsStateSaved (unat handle) \<and> v_orderly env \<noteq> TPM_RC_SUCCESS then Ret (v_orderly env, s)
      else obind (PCRSetValue (unat handle) 0 s) (\<lambda>s1. obind (PCRChanged (unat handle) s1) (\<lambda>s2. Ret (TPM_RC_SUCCESS, s2))))"

text \<open>The end of a DRTM sequence that exists: the digests of the sequence, one for each algorithm.\<close>

definition hash_end_pcrs :: "pcr_env \<Rightarrow> (TPM_ALG_ID \<Rightarrow> bytes) \<Rightarrow> pcr_state \<Rightarrow> pcr_state outcome" where
  "hash_end_pcrs env digest s =
     (let pcr = (if p_started s then DRTM_PCR else HCRTM_PCR) in
      obind (if p_started s then obind (PCRResetDynamics s) (\<lambda>s1. Ret (s1\<lparr>p_restartCount := p_restartCount s1 + 1\<rparr>))
             else Ret (s\<lparr>g_DrtmPreStartup := True\<rparr>)) (\<lambda>s1.
        ofold (\<lambda>alg s. if PcrIsAllocated s pcr alg then PcrDrtm (v_hash env) pcr alg (digest alg) s else Ret s) hash_algs s1))"

end
