(* ===== verification/PCR_Counter.thy ===== *)
theory PCR_Counter
  imports PCR_Commands Policy_Runs
begin

text \<open>
  The PCR generation counter. A policy session remembers its value; while the counter keeps it, the registers
  that count are as they were.
\<close>

section \<open>Well-formed states\<close>

definition alloc_wf :: "pcr_selection \<Rightarrow> bool" where
  "alloc_wf alloc \<longleftrightarrow> map fst alloc = hash_algs \<and> list_all (\<lambda>x. length (snd x) = PCR_SELECT_MAX) alloc \<and>
     list_ex (\<lambda>x. sel_bit (snd x) DRTM_PCR) alloc \<and> list_ex (\<lambda>x. sel_bit (snd x) HCRTM_PCR) alloc"

definition counted_pcr :: "nat \<Rightarrow> bool" where
  "counted_pcr pcr \<longleftrightarrow> pcr = 0 \<or> \<not> PCRBelongsTCBGroup pcr"

definition keeps_counted :: "pcr_state \<Rightarrow> pcr_state \<Rightarrow> bool" where
  "keeps_counted s s' \<longleftrightarrow> pcrAllocated s' = pcrAllocated s \<and> unat (p_pcrCounter s) \<le> unat (p_pcrCounter s') \<and>
     (p_pcrCounter s' = p_pcrCounter s \<longrightarrow> (\<forall>alg pcr. counted_pcr pcr \<longrightarrow> s_pcrs s' alg pcr = s_pcrs s alg pcr))"

definition counts_up :: "pcr_state \<Rightarrow> pcr_state \<Rightarrow> bool" where
  "counts_up s s' \<longleftrightarrow> pcrAllocated s' = pcrAllocated s \<and> unat (p_pcrCounter s) < unat (p_pcrCounter s')"

definition mono_counter :: "pcr_state \<Rightarrow> pcr_state \<Rightarrow> bool" where
  "mono_counter s s' \<longleftrightarrow> pcrAllocated s' = pcrAllocated s \<and> unat (p_pcrCounter s) \<le> unat (p_pcrCounter s')"

lemma keeps_counted_refl [simp]: "keeps_counted s s"
  by (simp add: keeps_counted_def)

lemma keeps_counted_trans: "keeps_counted s t \<Longrightarrow> keeps_counted t u \<Longrightarrow> keeps_counted s u"
  unfolding keeps_counted_def by (metis le_antisym le_trans word_unat_eq_iff)

lemma counts_up_keeps: "counts_up s s' \<Longrightarrow> keeps_counted s s'"
  by (auto simp: counts_up_def keeps_counted_def)

lemma mono_counter_refl [simp]: "mono_counter s s"
  by (simp add: mono_counter_def)

lemma mono_counter_trans: "mono_counter s t \<Longrightarrow> mono_counter t u \<Longrightarrow> mono_counter s u"
  by (auto simp: mono_counter_def)

lemma keeps_mono: "keeps_counted s t \<Longrightarrow> mono_counter s t"
  by (simp add: keeps_counted_def mono_counter_def)

lemma counts_up_mono: "counts_up s t \<Longrightarrow> mono_counter t u \<Longrightarrow> counts_up s u" "mono_counter s t \<Longrightarrow> counts_up t u \<Longrightarrow> counts_up s u"
  by (auto simp: counts_up_def mono_counter_def)

section \<open>Loops\<close>

text \<open>A relation that every step keeps holds across a loop.\<close>

lemma ofold_rel:
  assumes "ofold f xs s = Ret s'" "\<And>s. R s s" "\<And>s t u. R s t \<Longrightarrow> R t u \<Longrightarrow> R s u"
    and "\<And>x t t'. x \<in> set xs \<Longrightarrow> f x t = Ret t' \<Longrightarrow> R t t'"
  shows "R s s'"
  using assms(1,4)
proof (induction xs arbitrary: s)
  case (Cons x xs)
  then obtain t where t: "f x s = Ret t" "ofold f xs t = Ret s'" by (auto simp: obind_Ret_iff)
  have "R s t" using Cons.prems(2) [OF _ t(1)] by simp
  moreover have "R t s'" by (rule Cons.IH [OF t(2)]) (use Cons.prems(2) in auto)
  ultimately show ?case by (rule assms(3))
qed (simp add: assms(2))

lemma ofold_append: "ofold f (xs @ ys) s = obind (ofold f xs s) (ofold f ys)"
proof (induction xs arbitrary: s)
  case (Cons x xs)
  then show ?case by (cases "f x s") simp_all
qed simp

section \<open>Elementary changes\<close>

lemma set_pcr_sel [simp]:
  "pcrAllocated (set_pcr alg pcr v s) = pcrAllocated s" "p_pcrCounter (set_pcr alg pcr v s) = p_pcrCounter s"
  "p_started (set_pcr alg pcr v s) = p_started s" "pcrSave (set_pcr alg pcr v s) = pcrSave s"
  "g_DrtmPreStartup (set_pcr alg pcr v s) = g_DrtmPreStartup s"
  by (simp_all add: set_pcr_def)

lemma set_pcr_value: "s_pcrs (set_pcr alg pcr v s) a q = (if a = alg \<and> q = pcr then v else s_pcrs s a q)"
  by (simp add: set_pcr_def)

lemma u32_incr: "(w :: u32) + 1 \<noteq> 0 \<Longrightarrow> unat (w + 1) = unat w + 1"
proof -
  assume a: "w + 1 \<noteq> 0"
  have l: "unat w + 1 \<le> 2 ^ 32" using unsigned_less [of w, where 'a = nat] by simp
  have "unat w + 1 \<noteq> 2 ^ 32"
  proof
    assume "unat w + 1 = 2 ^ 32"
    then have "unat (w + 1) = 0" by (simp add: unat_word_ariths)
    then show False using a by (simp add: unat_eq_zero)
  qed
  then show "unat (w + 1) = unat w + 1" using l by (simp add: unat_word_ariths)
qed

lemma PCRChanged_Ret:
  assumes "PCRChanged pcr s = Ret s'"
  shows "counted_pcr pcr \<Longrightarrow> unat (p_pcrCounter s') = unat (p_pcrCounter s) + 1" "\<not> counted_pcr pcr \<Longrightarrow> s' = s"
    "s_pcrs s' = s_pcrs s" "pcrAllocated s' = pcrAllocated s" "pcrSave s' = pcrSave s" "p_started s' = p_started s"
    "g_DrtmPreStartup s' = g_DrtmPreStartup s"
  using assms by (auto simp: PCRChanged_def counted_pcr_def u32_incr split: if_splits)

lemma PCRChanged_counts: "PCRChanged pcr s = Ret s' \<Longrightarrow> counted_pcr pcr \<Longrightarrow> counts_up s s'"
  using PCRChanged_Ret [of pcr s s'] by (simp add: counts_up_def)

lemma PCRChanged_keeps: "PCRChanged pcr s = Ret s' \<Longrightarrow> keeps_counted s s'"
  using PCRChanged_Ret [of pcr s s'] by (cases "counted_pcr pcr") (auto simp: keeps_counted_def)

text \<open>A change of one register followed by its count.\<close>

lemma change_then_count:
  assumes "PCRChanged pcr t = Ret s'" "pcrAllocated t = pcrAllocated s" "p_pcrCounter t = p_pcrCounter s"
    and "\<And>alg q. q \<noteq> pcr \<Longrightarrow> s_pcrs t alg q = s_pcrs s alg q"
  shows "keeps_counted s s'"
proof (cases "counted_pcr pcr")
  case True
  then show ?thesis
    using PCRChanged_Ret [OF assms(1)] assms(2,3) by (intro counts_up_keeps) (simp add: counts_up_def)
next
  case False
  then have "s' = t" using PCRChanged_Ret(2) [OF assms(1)] by simp
  moreover have "\<And>q. counted_pcr q \<Longrightarrow> q \<noteq> pcr" using False by auto
  ultimately show ?thesis using assms(2-4) by (simp add: keeps_counted_def)
qed

lemma PCRExtend_keeps: "PCRExtend hash pcr alg d s = Ret s' \<Longrightarrow> keeps_counted s s'"
  by (auto simp: PCRExtend_def obind_Ret_iff set_pcr_value split: if_splits intro: change_then_count)

lemma PCRExtend_counts:
  assumes "PCRExtend hash pcr alg d s = Ret s'" "PcrIsAllocated s pcr alg" "counted_pcr pcr"
  shows "counts_up s s'"
proof -
  obtain v where "PCRChanged pcr (set_pcr alg pcr v s) = Ret s'"
    using assms(1,2) by (auto simp: PCRExtend_def obind_Ret_iff GetPcrPointer_def split: if_splits)
  from PCRChanged_counts [OF this assms(3)] show ?thesis by (simp add: counts_up_def)
qed

section \<open>Operations\<close>

lemma TPM2_PCR_Extend_keeps:
  assumes "TPM2_PCR_Extend env h ds s = Ret (rc, s')"
  shows "keeps_counted s s'"
proof (cases "s' = s")
  case False
  then have "ofold (\<lambda>(alg, d). PCRExtend (v_hash env) (unat h) alg d) ds s = Ret s'"
    using assms by (auto simp: TPM2_PCR_Extend_def obind_Ret_iff split: if_splits)
  then show ?thesis by (rule ofold_rel) (auto intro: keeps_counted_trans PCRExtend_keeps)
qed simp

lemma TPM2_PCR_Event_keeps:
  assumes "TPM2_PCR_Event env h d s = Ret (out, s')"
  shows "keeps_counted s s'"
proof (cases "s' = s")
  case False
  then have "ofold (\<lambda>(alg, d). if h \<noteq> TPM_RH_NULL then PCRExtend (v_hash env) (unat h) alg d else Ret) (event_digests env d) s = Ret s'"
    using assms by (auto simp: TPM2_PCR_Event_def obind_Ret_iff split: if_splits)
  then show ?thesis
    by (rule ofold_rel) (auto intro: keeps_counted_trans PCRExtend_keeps split: if_splits)
qed simp

definition only_pcr :: "nat \<Rightarrow> pcr_state \<Rightarrow> pcr_state \<Rightarrow> bool" where
  "only_pcr pcr s t \<longleftrightarrow> pcrAllocated t = pcrAllocated s \<and> p_pcrCounter t = p_pcrCounter s \<and>
     (\<forall>alg q. q \<noteq> pcr \<longrightarrow> s_pcrs t alg q = s_pcrs s alg q)"

lemma PCRSetValue_only: "PCRSetValue pcr v s = Ret t \<Longrightarrow> only_pcr pcr s t"
  unfolding PCRSetValue_def
  by (rule ofold_rel) (auto simp: only_pcr_def obind_Ret_iff set_pcr_value Let_def split: if_splits)

lemma TPM2_PCR_Reset_keeps:
  assumes "TPM2_PCR_Reset env h s = Ret (rc, s')"
  shows "keeps_counted s s'"
proof (cases "s' = s")
  case False
  then obtain t where "PCRSetValue (unat h) 0 s = Ret t" "PCRChanged (unat h) t = Ret s'"
    using assms by (auto simp: TPM2_PCR_Reset_def obind_Ret_iff split: if_splits)
  then show ?thesis using PCRSetValue_only change_then_count unfolding only_pcr_def by blast
qed simp

lemma TPM2_PCR_Allocate_keeps:
  assumes "TPM2_PCR_Allocate env a s = Ret (out, s')"
  shows "keeps_counted s s'"
  using assms
  by (auto simp: TPM2_PCR_Allocate_def PCRAllocate_def obind_Ret_iff keeps_counted_def Let_def split: if_splits)

lemma TPM2_PCR_SetAuth_keeps:
  "TPM2_PCR_SetAuthPolicy env pol alg n s = Ret (rc, s') \<Longrightarrow> keeps_counted s s'"
  "TPM2_PCR_SetAuthValue env h a s = Ret (rc, s') \<Longrightarrow> keeps_counted s s'"
  by (auto simp: TPM2_PCR_SetAuthPolicy_def TPM2_PCR_SetAuthValue_def obind_Ret_iff keeps_counted_def split: if_splits option.splits)

section \<open>DRTM\<close>

lemma PCRResetDynamics_mono: "PCRResetDynamics s = Ret t \<Longrightarrow> mono_counter s t \<and> p_started t = p_started s"
proof -
  have inner: "mono_counter u u' \<and> p_started u' = p_started u"
    if "ofold (\<lambda>bank s. obind (GetPcrPointer s (fst bank) pcr) (\<lambda>here.
       Ret (if here \<and> resetLocality (platPcr_GetPcrInitializationAttributes pcr) AND 0x10 \<noteq> 0
          then set_pcr (fst bank) pcr (replicate (CryptHashGetDigestSize (fst bank)) 0) s else s))) bs u = Ret u'" for pcr bs u u'
    using that by (rule ofold_rel) (auto simp: mono_counter_def obind_Ret_iff split: if_splits)
  show "PCRResetDynamics s = Ret t \<Longrightarrow> mono_counter s t \<and> p_started t = p_started s"
    unfolding PCRResetDynamics_def by (rule ofold_rel) (auto dest: inner intro: mono_counter_trans)
qed

lemma PcrDrtm_counts:
  assumes "PcrDrtm hash pcr alg d s = Ret s'" "PcrIsAllocated s pcr alg" "counted_pcr pcr"
  shows "counts_up s s'"
proof -
  obtain v where v: "PCRExtend hash pcr alg d (set_pcr alg pcr v s) = Ret s'"
    using assms(1,2) by (auto simp: PcrDrtm_def GetPcrPointer_def obind_Ret_iff Let_def split: if_splits)
  have "PcrIsAllocated (set_pcr alg pcr v s) pcr alg" using assms(2) by (simp add: PcrIsAllocated_def)
  from PCRExtend_counts [OF v this assms(3)] show ?thesis by (simp add: counts_up_def)
qed

lemma bank_of_exists:
  assumes "list_ex (\<lambda>x. sel_bit (snd x) pcr) alloc" "distinct (map fst alloc)"
  obtains alg b where "alg \<in> set (map fst alloc)" "bank_of alloc alg = Some b" "sel_bit b pcr"
proof -
  obtain x where x: "x \<in> set alloc" "sel_bit (snd x) pcr" using assms(1) by (auto simp: list_ex_iff)
  have "find (\<lambda>y. fst y = fst x) alloc = Some x"
    using x(1) assms(2)
  proof (induction alloc)
    case (Cons y ys)
    then show ?case by (cases "fst y = fst x") (auto simp: rev_image_eqI)
  qed simp
  then show thesis using that [of "fst x" "snd x"] x by (simp add: bank_of_def)
qed

lemma hash_algs_distinct [simp]: "distinct hash_algs"
  by (simp add: hash_algs_def tpm_consts)

lemma counted_marks [simp]: "counted_pcr DRTM_PCR" "counted_pcr HCRTM_PCR"
  by (simp_all add: counted_pcr_def PCRBelongsTCBGroup_def platPcr_GetPcrInitializationAttributes_def platPcr_NumberOfPcrs_def
      s_initAttributes_def pcr_attr_def tpm_consts nth_append)

lemma drtm_loop_counts:
  assumes "ofold (\<lambda>alg s. if PcrIsAllocated s pcr alg then PcrDrtm hash pcr alg (digest alg) s else Ret s) algs s = Ret s'"
    and "alg \<in> set algs" "PcrIsAllocated s pcr alg" "counted_pcr pcr"
  shows "counts_up s s'"
proof -
  let ?f = "\<lambda>alg s. if PcrIsAllocated s pcr alg then PcrDrtm hash pcr alg (digest alg) s else Ret s"
  have m: "mono_counter t t'" if "ofold ?f xs t = Ret t'" for xs t t'
    using that
    by (rule ofold_rel) (auto intro: mono_counter_trans keeps_mono counts_up_keeps PcrDrtm_counts assms(4) split: if_splits)
  obtain xs ys where xy: "algs = xs @ alg # ys" using split_list [OF assms(2)] by blast
  obtain t u where t: "ofold ?f xs s = Ret t" "?f alg t = Ret u" "ofold ?f ys u = Ret s'"
    using assms(1) xy by (auto simp: ofold_append obind_Ret_iff)
  have "PcrIsAllocated t pcr alg" using m [OF t(1)] assms(3) by (simp add: PcrIsAllocated_def mono_counter_def)
  then have "counts_up t u" using PcrDrtm_counts [OF _ _ assms(4)] t(2) by simp
  then show ?thesis using counts_up_mono(1) [OF counts_up_mono(2) [OF m [OF t(1)]] m [OF t(3)]] by blast
qed

lemma hash_end_pcrs_counts:
  assumes "hash_end_pcrs env digest s = Ret s'" "alloc_wf (pcrAllocated s)"
  shows "counts_up s s'"
proof -
  define pcr where "pcr = (if p_started s then DRTM_PCR else HCRTM_PCR)"
  let ?loop = "ofold (\<lambda>alg s. if PcrIsAllocated s pcr alg then PcrDrtm (v_hash env) pcr alg (digest alg) s else Ret s) hash_algs"
  obtain t where t: "mono_counter s t" "?loop t = Ret s'"
  proof (cases "p_started s")
    case True
    have p: "pcr = DRTM_PCR" using True by (simp add: pcr_def)
    from True obtain u where u: "PCRResetDynamics s = Ret u" "?loop (u\<lparr>p_restartCount := p_restartCount u + 1\<rparr>) = Ret s'"
      using assms(1) unfolding p by (auto simp: hash_end_pcrs_def obind_Ret_iff)
    then show thesis using that [of "u\<lparr>p_restartCount := p_restartCount u + 1\<rparr>"] PCRResetDynamics_mono [OF u(1)]
      by (simp add: mono_counter_def)
  next
    case False
    have p: "pcr = HCRTM_PCR" using False by (simp add: pcr_def)
    show thesis
    proof (rule that [of "s\<lparr>pcr_state.g_DrtmPreStartup := True\<rparr>"])
      show "?loop (s\<lparr>pcr_state.g_DrtmPreStartup := True\<rparr>) = Ret s'"
        using assms(1) False unfolding p by (simp add: hash_end_pcrs_def)
    qed (simp add: mono_counter_def)
  qed
  have al: "list_ex (\<lambda>x. sel_bit (snd x) pcr) (pcrAllocated s)" "map fst (pcrAllocated s) = hash_algs"
    using assms(2) by (auto simp: alloc_wf_def pcr_def)
  obtain alg b where "alg \<in> set hash_algs" "bank_of (pcrAllocated s) alg = Some b" "sel_bit b pcr"
    using bank_of_exists [OF al(1)] al(2) by (metis hash_algs_distinct)
  moreover have "pcr < IMPLEMENTATION_PCR" by (simp add: pcr_def DRTM_PCR_def HCRTM_PCR_def IMPLEMENTATION_PCR_def)
  moreover have "counted_pcr pcr" by (simp add: pcr_def)
  ultimately have "alg \<in> set hash_algs" "PcrIsAllocated t pcr alg" "counted_pcr pcr"
    using t(1) by (simp_all add: PcrIsAllocated_def mono_counter_def)
  then show ?thesis using drtm_loop_counts [OF t(2)] counts_up_mono(2) [OF t(1)] by blast
qed

section \<open>Startup and state save\<close>

lemma startup_bank_mono: "startup_bank l sv k pcr bank s = Ret t \<Longrightarrow> mono_counter s t"
  by (auto simp: startup_bank_def obind_Ret_iff mono_counter_def Let_def split: if_splits)

lemma startup_pcr_mono:
  assumes "startup_pcr type l pcr (k, s) = Ret (k', t)"
  shows "mono_counter s t" "\<not> stateSave (platPcr_GetPcrInitializationAttributes pcr) \<Longrightarrow> counted_pcr pcr \<Longrightarrow> counts_up s t"
proof -
  let ?sv = "type = SU_RESUME \<and> stateSave (platPcr_GetPcrInitializationAttributes pcr)"
  obtain u where u: "(if ?sv then Ret s else PCRChanged pcr s) = Ret u" "mono_counter u t"
  proof -
    obtain u where u: "(if ?sv then Ret s else PCRChanged pcr s) = Ret u"
      "u = t \<or> ofold (startup_bank l ?sv k pcr) (pcrAllocated u) u = Ret t"
      using assms by (auto simp: startup_pcr_def obind_Ret_iff Let_def split: if_splits)
    from u(2) have "mono_counter u t"
    proof
      assume "ofold (startup_bank l ?sv k pcr) (pcrAllocated u) u = Ret t"
      then show ?thesis by (rule ofold_rel) (auto intro: mono_counter_trans startup_bank_mono)
    qed simp
    then show thesis using that u(1) by blast
  qed
  have "mono_counter s u" using u(1) by (auto split: if_splits intro: keeps_mono PCRChanged_keeps)
  then show "mono_counter s t" using u(2) by (rule mono_counter_trans)
  show "counts_up s t" if "\<not> stateSave (platPcr_GetPcrInitializationAttributes pcr)" "counted_pcr pcr"
    using that u PCRChanged_counts counts_up_mono(1) by fastforce
qed

lemma startup_loop_mono: "ofold (startup_pcr type l) ps (k, s) = Ret (k', t) \<Longrightarrow> mono_counter s t"
proof -
  assume a: "ofold (startup_pcr type l) ps (k, s) = Ret (k', t)"
  have "mono_counter (snd (k, s)) (snd (k', t))"
    by (rule ofold_rel [where R = "\<lambda>x y. mono_counter (snd x) (snd y)", OF a]) (auto intro: mono_counter_trans startup_pcr_mono(1))
  then show ?thesis by simp
qed

lemma drtm_not_saved: "\<not> stateSave (platPcr_GetPcrInitializationAttributes DRTM_PCR)"
  by (simp add: platPcr_GetPcrInitializationAttributes_def platPcr_NumberOfPcrs_def s_initAttributes_def pcr_attr_def tpm_consts nth_append)

lemma pcr_numbers: "[0..<IMPLEMENTATION_PCR] = [0..<DRTM_PCR] @ DRTM_PCR # [Suc DRTM_PCR..<IMPLEMENTATION_PCR]"
  by (simp add: IMPLEMENTATION_PCR_def DRTM_PCR_def upt_rec)

lemma PCRStartup_counts:
  assumes "PCRStartup type l s = Ret s'" "type \<noteq> SU_RESET"
  shows "counts_up s s'"
proof -
  let ?s0 = "s\<lparr>g_pcrReConfig := False, p_pcrCounter := p_pcrCounter s\<rparr>"
  obtain k t where t: "ofold (startup_pcr type l) [0..<IMPLEMENTATION_PCR] (0, ?s0) = Ret (k, t)"
      "s' = (if type \<noteq> SU_RESUME then PCR_ClearAuth t else t)"
    using assms by (cases type) (auto simp: PCRStartup_def obind_Ret_iff Let_def)
  obtain k1 t1 k2 t2 where m: "ofold (startup_pcr type l) [0..<DRTM_PCR] (0, ?s0) = Ret (k1, t1)"
      "startup_pcr type l DRTM_PCR (k1, t1) = Ret (k2, t2)"
      "ofold (startup_pcr type l) [Suc DRTM_PCR..<IMPLEMENTATION_PCR] (k2, t2) = Ret (k, t)"
    using t(1) unfolding pcr_numbers ofold_append by (auto simp: obind_Ret_iff)
  have "counts_up t1 t2" by (rule startup_pcr_mono(2) [OF m(2) drtm_not_saved]) simp
  then have "counts_up ?s0 t"
    using counts_up_mono(1) [OF counts_up_mono(2) [OF startup_loop_mono [OF m(1)]] startup_loop_mono [OF m(3)]] by blast
  then show ?thesis using t(2) by (simp add: counts_up_def PCR_ClearAuth_def)
qed

lemma PCRStateSave_keeps:
  assumes "PCRStateSave type s = Ret s'"
  shows "keeps_counted s s'"
proof (cases "type = TPM_SU_CLEAR")
  case False
  have inner: "keeps_counted u u'"
    if "ofold (\<lambda>bank s. obind (GetPcrPointer s (fst bank) pcr) (\<lambda>here.
       Ret (if here \<and> saved then save_pcr (fst bank) k (s_pcrs s (fst bank) pcr) s else s))) bs u = Ret u'" for pcr saved k bs u u'
  proof (rule ofold_rel [OF that])
    fix x t t'
    assume "obind (GetPcrPointer t (fst x) pcr) (\<lambda>here.
       Ret (if here \<and> saved then save_pcr (fst x) k (s_pcrs t (fst x) pcr) t else t)) = Ret t'"
    then show "keeps_counted t t'" by (auto simp: obind_Ret_iff save_pcr_def keeps_counted_def split: if_splits)
  qed (auto intro: keeps_counted_trans)
  obtain k where k: "ofold save_step [0..<IMPLEMENTATION_PCR] (0, s) = Ret (k, s')"
    using assms False by (auto simp: PCRStateSave_def obind_Ret_iff)
  have "keeps_counted (snd (0 :: nat, s)) (snd (k, s'))"
    by (rule ofold_rel [where R = "\<lambda>x y. keeps_counted (snd x) (snd y)", OF k])
      (auto simp: save_step_def obind_Ret_iff Let_def dest: inner intro: keeps_counted_trans split: if_splits)
  then show ?thesis by simp
qed (use assms in \<open>simp add: PCRStateSave_def\<close>)

section \<open>Runs\<close>

datatype pcr_op =
    OpExtend pcr_env TPM_HANDLE "(TPM_ALG_ID \<times> bytes) list"
  | OpEvent pcr_env TPM_HANDLE bytes
  | OpReset pcr_env TPM_HANDLE
  | OpAllocate pcr_env pcr_selection
  | OpSetAuthPolicy pcr_env bytes TPM_ALG_ID TPM_HANDLE
  | OpSetAuthValue pcr_env TPM_HANDLE bytes
  | OpHashEnd pcr_env "TPM_ALG_ID \<Rightarrow> bytes"
  | OpStateSave u16
  | OpStartup STARTUP_TYPE u8

definition state_of :: "('a \<times> 's) outcome \<Rightarrow> 's outcome" where
  "state_of r = obind r (\<lambda>(x, s). Ret s)"

fun pcr_exec :: "pcr_op \<Rightarrow> pcr_state \<Rightarrow> pcr_state outcome" where
  "pcr_exec (OpExtend env h ds) s = state_of (TPM2_PCR_Extend env h ds s)"
| "pcr_exec (OpEvent env h d) s = state_of (TPM2_PCR_Event env h d s)"
| "pcr_exec (OpReset env h) s = state_of (TPM2_PCR_Reset env h s)"
| "pcr_exec (OpAllocate env a) s = state_of (TPM2_PCR_Allocate env a s)"
| "pcr_exec (OpSetAuthPolicy env p alg h) s = state_of (TPM2_PCR_SetAuthPolicy env p alg h s)"
| "pcr_exec (OpSetAuthValue env h a) s = state_of (TPM2_PCR_SetAuthValue env h a s)"
| "pcr_exec (OpHashEnd env d) s = hash_end_pcrs env d s"
| "pcr_exec (OpStateSave t) s = PCRStateSave t s"
| "pcr_exec (OpStartup t l) s = PCRStartup t l s"

fun is_reset :: "pcr_op \<Rightarrow> bool" where
  "is_reset (OpStartup t l) = (t = SU_RESET)"
| "is_reset _ = False"

lemma pcr_exec_keeps:
  assumes "pcr_exec x s = Ret s'" "\<not> is_reset x" "alloc_wf (pcrAllocated s)"
  shows "keeps_counted s s'"
proof (cases x)
  case (OpHashEnd env d)
  then show ?thesis using assms hash_end_pcrs_counts counts_up_keeps by auto
next
  case (OpStartup t l)
  then show ?thesis using assms PCRStartup_counts counts_up_keeps by auto
next
  case (OpStateSave t)
  then show ?thesis using assms PCRStateSave_keeps by auto
qed (use assms in \<open>auto simp: state_of_def obind_Ret_iff intro: TPM2_PCR_Extend_keeps TPM2_PCR_Event_keeps
      TPM2_PCR_Reset_keeps TPM2_PCR_Allocate_keeps TPM2_PCR_SetAuth_keeps\<close>)

lemma pcr_run_keeps:
  assumes "ofold pcr_exec ops s = Ret s'" "list_all (\<lambda>x. \<not> is_reset x) ops" "alloc_wf (pcrAllocated s)"
  shows "keeps_counted s s'"
  using assms
proof (induction ops arbitrary: s)
  case (Cons x ops)
  then obtain t where t: "pcr_exec x s = Ret t" "ofold pcr_exec ops t = Ret s'" by (auto simp: obind_Ret_iff)
  have st: "keeps_counted s t" using pcr_exec_keeps [OF t(1)] Cons.prems by simp
  then have "alloc_wf (pcrAllocated t)" using Cons.prems(3) by (simp add: keeps_counted_def)
  with Cons.IH [OF t(2)] Cons.prems(2) have "keeps_counted t s'" by simp
  then show ?case using st keeps_counted_trans by blast
qed simp

section \<open>Digests\<close>

definition counted_selection :: "pcr_selection \<Rightarrow> bool" where
  "counted_selection sel \<longleftrightarrow> list_all (\<lambda>x. list_all (\<lambda>pcr. sel_bit (snd x) pcr \<longrightarrow> counted_pcr pcr) [0..<IMPLEMENTATION_PCR]) sel"

lemma and_mask: "(a AND b) AND m \<noteq> 0 \<Longrightarrow> a AND m \<noteq> (0 :: u8)"
  by (metis and.assoc and.commute and_zero_eq)

lemma sel_bit_and: "sel_bit (map (\<lambda>i. b ! i AND sel_octet c i) [0..<length b]) pcr \<Longrightarrow> sel_bit b pcr"
proof -
  assume a: "sel_bit (map (\<lambda>i. b ! i AND sel_octet c i) [0..<length b]) pcr"
  then have l: "pcr div 8 < length b" by (cases "pcr div 8 < length b") (simp_all add: sel_bit_def sel_octet_def)
  have "sel_octet (map (\<lambda>i. b ! i AND sel_octet c i) [0..<length b]) (pcr div 8) = b ! (pcr div 8) AND sel_octet c (pcr div 8)"
    unfolding sel_octet_def [of "map f xs" for f xs] using l by simp
  moreover have "sel_octet b (pcr div 8) = b ! (pcr div 8)" using l by (simp add: sel_octet_def)
  ultimately show "sel_bit b pcr" using a and_mask unfolding sel_bit_def by metis
qed

lemma sel_bit_zero: "\<not> sel_bit (map (\<lambda>x. 0) b) pcr"
  by (simp add: sel_bit_def sel_octet_def)

lemma FilterPcr_subset: "sel_bit (snd (FilterPcr s x)) pcr \<Longrightarrow> sel_bit (snd x) pcr"
  by (auto simp: FilterPcr_def sel_bit_zero split: option.splits dest: sel_bit_and)

lemma GetPcrPointer_cong: "pcrAllocated s' = pcrAllocated s \<Longrightarrow> GetPcrPointer s' alg pcr = GetPcrPointer s alg pcr"
  by (simp add: GetPcrPointer_def PcrIsAllocated_def)

lemma digest_bank_cong:
  assumes "pcrAllocated s' = pcrAllocated s" "\<And>pcr. pcr \<in> set ps \<Longrightarrow> sel_bit (snd x) pcr \<Longrightarrow> s_pcrs s' (fst x) pcr = s_pcrs s (fst x) pcr"
  shows "digest_bank s' x ps acc = digest_bank s x ps acc"
  using assms(2)
proof (induction ps arbitrary: acc)
  case (Cons pcr ps)
  then show ?case using GetPcrPointer_cong [OF assms(1)] by (simp add: IsPcrSelected_def)
qed simp

lemma digest_banks_cong:
  assumes "pcrAllocated s' = pcrAllocated s" "counted_selection sel" "\<And>alg pcr. counted_pcr pcr \<Longrightarrow> s_pcrs s' alg pcr = s_pcrs s alg pcr"
  shows "digest_banks s' sel acc = digest_banks s sel acc"
  using assms(2)
proof (induction sel arbitrary: acc)
  case (Cons x sel)
  have f: "FilterPcr s' x = FilterPcr s x" using assms(1) by (simp add: FilterPcr_def)
  have "digest_bank s' (FilterPcr s x) [0..<IMPLEMENTATION_PCR] acc = digest_bank s (FilterPcr s x) [0..<IMPLEMENTATION_PCR] acc"
    by (rule digest_bank_cong [OF assms(1)])
      (use Cons.prems FilterPcr_subset assms(3) in \<open>auto simp: counted_selection_def list_all_iff\<close>)
  then show ?case using Cons f by (cases "digest_bank s (FilterPcr s x) [0..<IMPLEMENTATION_PCR] acc") (simp_all add: counted_selection_def)
qed simp


definition demo_pcr :: pcr_state where
  "demo_pcr = PCRManufacture \<lparr>s_pcrs = (\<lambda>alg pcr. replicate (CryptHashGetDigestSize alg) 0), pcrSave = (\<lambda>alg pcr. []), pcrAllocated = [],
     nv_pcrAllocated = [], pcrPolicies = [], pcrAuthValues = [], p_pcrCounter = 1, g_pcrReConfig = False, g_DrtmPreStartup = False,
     p_started = True, p_restartCount = 0\<rparr>"

definition demo_penv0 :: pcr_env where
  "demo_penv0 = \<lparr>v_hash = (\<lambda>alg m. replicate (CryptHashGetDigestSize alg) (word_of_nat (length m))), v_wide = (\<lambda>l. 0), v_locality = 0,
     v_nv = TPM_RC_SUCCESS, v_orderly = TPM_RC_SUCCESS\<rparr>"

definition demo_pcr_after :: pcr_state where
  "demo_pcr_after = set_pcr TPM_ALG_SHA256 23 (replicate 32 64) demo_pcr"

lemma demo_pcr_run: "ofold pcr_exec [OpExtend demo_penv0 23 [(TPM_ALG_SHA256, replicate 32 1)]] demo_pcr = Ret demo_pcr_after"
proof -
  have a: "PCRIsExtendAllowed (\<lambda>l. 0) 0 23" "\<not> PCRIsStateSaved 23" "PCRBelongsTCBGroup 23" by code_simp+
  have g: "GetPcrPointer demo_pcr TPM_ALG_SHA256 23 = Ret True" by code_simp
  have v: "s_pcrs demo_pcr TPM_ALG_SHA256 23 = replicate 32 0"
    by (simp add: demo_pcr_def PCRManufacture_def Let_def CryptHashGetDigestSize_def tpm_consts)
  have n: "CryptHashGetDigestSize TPM_ALG_SHA256 = 32" by (simp add: CryptHashGetDigestSize_def tpm_consts)
  show ?thesis
    using a by (simp add: state_of_def TPM2_PCR_Extend_def demo_penv0_def TPM_RH_NULL_def PCRExtend_def g v n PCRChanged_def demo_pcr_after_def)
qed


end
