(* ===== verification/PCR_Log.thy ===== *)
theory PCR_Log
  imports PCR_Counter Policy_Digests
begin

text \<open>
  A register as the digest of a log. Between startups a static register holds the chained hash of what was
  extended into it, and the value determines the sequence of digests.
\<close>

section \<open>Chained hashes\<close>

lemma extends_snoc: "extends H d (bs @ [b]) = H (extends H d bs @ b)"
  by (simp add: extends_def)

lemma extends_append: "extends H d (bs @ cs) = extends H (extends H d bs) cs"
  by (simp add: extends_def)

lemma extend_msgs_snoc: "extend_msgs H d (bs @ [b]) = extend_msgs H d bs @ [extends H d bs @ b]"
  by (induction bs arbitrary: d) simp_all

text \<open>Two logs with the same chained hash are the same, when the messages hashed do not collide.\<close>

lemma extends_inject:
  assumes H: "inj_on H M" "\<And>m. m \<in> M \<Longrightarrow> length (H m) = n" and d: "length d = n" "d \<notin> H ` M"
    and "set (extend_msgs H d bs) \<subseteq> M" "set (extend_msgs H d cs) \<subseteq> M" "extends H d bs = extends H d cs"
  shows "bs = cs"
  using assms(5-7)
proof (induction bs arbitrary: cs rule: rev_induct)
  case Nil
  then show ?case using d(2) by (cases cs rule: rev_cases) (auto simp: extends_snoc extend_msgs_snoc)
next
  case (snoc b bs)
  have len: "length (extends H d xs) = n" if "set (extend_msgs H d xs) \<subseteq> M" for xs
    using that d(1) H(2) by (cases xs rule: rev_cases) (auto simp: extends_snoc extend_msgs_snoc)
  have mb: "extends H d bs @ b \<in> M" "set (extend_msgs H d bs) \<subseteq> M" using snoc.prems(1) by (auto simp: extend_msgs_snoc)
  have "extends H d cs \<in> H ` M" using snoc.prems(3) mb(1) by (simp add: extends_snoc image_iff) (metis mb(1))
  then have "cs \<noteq> []" using d(2) by (auto simp: extends_def)
  then obtain c ds where cs: "cs = ds @ [c]" by (cases cs rule: rev_cases) auto
  have mc: "extends H d ds @ c \<in> M" "set (extend_msgs H d ds) \<subseteq> M" using snoc.prems(2) cs by (auto simp: extend_msgs_snoc)
  have "extends H d bs @ b = extends H d ds @ c"
    using H(1) mb(1) mc(1) snoc.prems(3) cs by (auto simp: extends_snoc inj_on_eq_iff)
  then have "extends H d bs = extends H d ds" "b = c" using len [OF mb(2)] len [OF mc(2)] by simp_all
  then show ?case using snoc.IH [OF mb(2) mc(2)] cs by simp
qed

section \<open>Extending\<close>

lemma PCRExtend_value:
  assumes "PCRExtend hash pcr alg d s = Ret s'"
  shows "s_pcrs s' a q = (if a = alg \<and> q = pcr \<and> PcrIsAllocated s pcr alg then hash alg (s_pcrs s alg pcr @ d) else s_pcrs s a q)"
proof (cases "PcrIsAllocated s pcr alg")
  case True
  then have "PCRChanged pcr (set_pcr alg pcr (hash alg (s_pcrs s alg pcr @ d)) s) = Ret s'"
    using assms by (auto simp: PCRExtend_def GetPcrPointer_def obind_Ret_iff split: if_splits)
  from PCRChanged_Ret(3) [OF this] show ?thesis using True by (simp add: set_pcr_value)
next
  case False
  then have "s' = s" using assms by (simp add: PCRExtend_def GetPcrPointer_def)
  then show ?thesis using False by simp
qed

definition bank_digests :: "TPM_ALG_ID \<Rightarrow> (TPM_ALG_ID \<times> bytes) list \<Rightarrow> bytes list" where
  "bank_digests alg ds = map snd (filter (\<lambda>x. fst x = alg) ds)"

lemma extend_loop_value:
  assumes "ofold (\<lambda>(alg, d). PCRExtend hash pcr alg d) ds s = Ret s'"
  shows "s_pcrs s' alg q = (if q = pcr \<and> PcrIsAllocated s pcr alg then extends (hash alg) (s_pcrs s alg pcr) (bank_digests alg ds)
    else s_pcrs s alg q)"
  using assms
proof (induction ds arbitrary: s)
  case (Cons x ds)
  obtain a d where x: "x = (a, d)" by (cases x)
  obtain t where t: "PCRExtend hash pcr a d s = Ret t" "ofold (\<lambda>(alg, d). PCRExtend hash pcr alg d) ds t = Ret s'"
    using Cons.prems x by (auto simp: obind_Ret_iff)
  have al: "PcrIsAllocated t pcr alg = PcrIsAllocated s pcr alg"
    using PCRExtend_keeps [OF t(1)] by (simp add: keeps_counted_def PcrIsAllocated_def)
  show ?case
    using Cons.IH [OF t(2)] PCRExtend_value [OF t(1), of alg] al x by (auto simp: bank_digests_def)
qed (simp add: bank_digests_def)

section \<open>The log\<close>

text \<open>The digests that an operation extends into a register of a bank: those of an accepted command.\<close>

fun op_log :: "TPM_ALG_ID \<Rightarrow> nat \<Rightarrow> pcr_op \<Rightarrow> pcr_state \<Rightarrow> bytes list" where
  "op_log alg pcr (OpExtend env h ds) s =
     (if h \<noteq> TPM_RH_NULL \<and> unat h = pcr \<and> PCRIsExtendAllowed (v_wide env) (v_locality env) pcr
        \<and> \<not> (PCRIsStateSaved pcr \<and> v_orderly env \<noteq> TPM_RC_SUCCESS) \<and> PcrIsAllocated s pcr alg
      then bank_digests alg ds else [])"
| "op_log alg pcr (OpEvent env h d) s =
     (if h \<noteq> TPM_RH_NULL \<and> unat h = pcr \<and> PCRIsExtendAllowed (v_wide env) (v_locality env) pcr
        \<and> \<not> (PCRIsStateSaved pcr \<and> v_orderly env \<noteq> TPM_RC_SUCCESS) \<and> PcrIsAllocated s pcr alg
      then bank_digests alg (event_digests env d) else [])"
| "op_log alg pcr _ s = []"

fun run_log :: "TPM_ALG_ID \<Rightarrow> nat \<Rightarrow> pcr_op list \<Rightarrow> pcr_state \<Rightarrow> bytes list" where
  "run_log alg pcr [] s = []"
| "run_log alg pcr (x # xs) s = op_log alg pcr x s @ (case pcr_exec x s of Ret s1 \<Rightarrow> run_log alg pcr xs s1 | FailureMode \<Rightarrow> [])"

text \<open>Operations between startups, with one hash function.\<close>

fun plain_op :: "(bytes \<Rightarrow> bytes) \<Rightarrow> TPM_ALG_ID \<Rightarrow> pcr_op \<Rightarrow> bool" where
  "plain_op H alg (OpExtend env h ds) \<longleftrightarrow> v_hash env alg = H"
| "plain_op H alg (OpEvent env h d) \<longleftrightarrow> v_hash env alg = H"
| "plain_op H alg (OpHashEnd env d) \<longleftrightarrow> False"
| "plain_op H alg (OpStartup t l) \<longleftrightarrow> False"
| "plain_op H alg _ \<longleftrightarrow> True"

definition static_pcr :: "nat \<Rightarrow> bool" where
  "static_pcr pcr \<longleftrightarrow> pcr < IMPLEMENTATION_PCR \<and> resetLocality (platPcr_GetPcrInitializationAttributes pcr) = 0"

lemma extend_value:
  assumes "TPM2_PCR_Extend env h ds s = Ret (rc, s')"
  shows "s_pcrs s' alg pcr = extends (v_hash env alg) (s_pcrs s alg pcr) (op_log alg pcr (OpExtend env h ds) s)"
proof (cases "h \<noteq> TPM_RH_NULL \<and> PCRIsExtendAllowed (v_wide env) (v_locality env) (unat h)
    \<and> \<not> (PCRIsStateSaved (unat h) \<and> v_orderly env \<noteq> TPM_RC_SUCCESS)")
  case True
  then have "ofold (\<lambda>(alg, d). PCRExtend (v_hash env) (unat h) alg d) ds s = Ret s'"
    using assms by (auto simp: TPM2_PCR_Extend_def obind_Ret_iff split: if_splits)
  from extend_loop_value [OF this, of alg pcr] show ?thesis using True by auto
next
  case False
  then have "s' = s" using assms by (auto simp: TPM2_PCR_Extend_def split: if_splits)
  then show ?thesis using False by auto
qed

lemma event_value:
  assumes "TPM2_PCR_Event env h d s = Ret (out, s')"
  shows "s_pcrs s' alg pcr = extends (v_hash env alg) (s_pcrs s alg pcr) (op_log alg pcr (OpEvent env h d) s)"
proof (cases "h \<noteq> TPM_RH_NULL \<and> PCRIsExtendAllowed (v_wide env) (v_locality env) (unat h)
    \<and> \<not> (PCRIsStateSaved (unat h) \<and> v_orderly env \<noteq> TPM_RC_SUCCESS)")
  case True
  then have "ofold (\<lambda>(alg, d). PCRExtend (v_hash env) (unat h) alg d) (event_digests env d) s = Ret s'"
    using assms by (auto simp: TPM2_PCR_Event_def obind_Ret_iff split: if_splits)
  from extend_loop_value [OF this, of alg pcr] show ?thesis using True by auto
next
  case False
  have "ofold (\<lambda>(alg, d). Ret) xs s = Ret s" for xs :: "(TPM_ALG_ID \<times> bytes) list" by (induction xs) auto
  then have "s' = s" using False assms by (auto simp: TPM2_PCR_Event_def obind_Ret_iff split: if_splits)
  then show ?thesis using False by auto
qed

lemma PCRStateSave_values:
  assumes "PCRStateSave type s = Ret s'"
  shows "s_pcrs s' = s_pcrs s"
proof (cases "type = TPM_SU_CLEAR")
  case False
  have inner: "s_pcrs u' = s_pcrs u"
    if "ofold (\<lambda>bank s. obind (GetPcrPointer s (fst bank) pcr) (\<lambda>here.
       Ret (if here \<and> saved then save_pcr (fst bank) k (s_pcrs s (fst bank) pcr) s else s))) bs u = Ret u'" for pcr saved k bs u u'
    by (rule ofold_rel [where R = "\<lambda>s t. s_pcrs t = s_pcrs s", OF that]) (auto simp: obind_Ret_iff save_pcr_def split: if_splits)
  obtain k where k: "ofold save_step [0..<IMPLEMENTATION_PCR] (0, s) = Ret (k, s')"
    using assms False by (auto simp: PCRStateSave_def obind_Ret_iff)
  have "s_pcrs (snd (k, s')) = s_pcrs (snd (0 :: nat, s))"
    by (rule ofold_rel [where R = "\<lambda>x y. s_pcrs (snd y) = s_pcrs (snd x)", OF k])
      (auto simp: save_step_def obind_Ret_iff Let_def dest: inner split: if_splits)
  then show ?thesis by simp
qed (use assms in \<open>simp add: PCRStateSave_def\<close>)

lemma op_value:
  assumes ex: "pcr_exec x s = Ret s'" and pl: "plain_op H alg x" and st: "static_pcr pcr"
  shows "s_pcrs s' alg pcr = extends H (s_pcrs s alg pcr) (op_log alg pcr x s)"
proof (cases x)
  case (OpExtend env h ds)
  then show ?thesis using ex pl extend_value by (auto simp: state_of_def obind_Ret_iff simp del: op_log.simps)
next
  case (OpEvent env h d)
  then show ?thesis using ex pl event_value by (auto simp: state_of_def obind_Ret_iff simp del: op_log.simps)
next
  case (OpReset env h)
  show ?thesis
  proof (cases "unat h = pcr")
    case True
    then have "s' = s"
      using ex OpReset st by (auto simp: state_of_def obind_Ret_iff TPM2_PCR_Reset_def PCRIsResetAllowed_def static_pcr_def)
    then show ?thesis using OpReset by simp
  next
    case False
    have "s' = s \<or> (\<exists>t. PCRSetValue (unat h) 0 s = Ret t \<and> PCRChanged (unat h) t = Ret s')"
      using ex OpReset by (auto simp: state_of_def obind_Ret_iff TPM2_PCR_Reset_def split: if_splits)
    then have "s_pcrs s' alg pcr = s_pcrs s alg pcr"
      using False PCRSetValue_only PCRChanged_Ret(3) unfolding only_pcr_def by (metis (no_types))
    then show ?thesis using OpReset by simp
  qed
next
  case (OpStateSave t)
  then show ?thesis using ex PCRStateSave_values by simp
qed (use ex pl in \<open>auto simp: state_of_def obind_Ret_iff TPM2_PCR_Allocate_def PCRAllocate_def TPM2_PCR_SetAuthPolicy_def
      TPM2_PCR_SetAuthValue_def Let_def split: if_splits option.splits\<close>)

section \<open>The value of a register determines its log\<close>

lemma run_value:
  assumes "ofold pcr_exec ops s = Ret s'" "list_all (plain_op H alg) ops" "static_pcr pcr"
  shows "s_pcrs s' alg pcr = extends H (s_pcrs s alg pcr) (run_log alg pcr ops s)"
  using assms(1,2)
proof (induction ops arbitrary: s)
  case (Cons x ops)
  then obtain t where t: "pcr_exec x s = Ret t" "ofold pcr_exec ops t = Ret s'" by (auto simp: obind_Ret_iff)
  have "s_pcrs t alg pcr = extends H (s_pcrs s alg pcr) (op_log alg pcr x s)" by (rule op_value) (use t(1) Cons.prems(2) assms(3) in auto)
  then show ?case using Cons.IH [OF t(2)] Cons.prems(2) t(1) by (simp add: extends_append)
qed (simp add: extends_def)

text \<open>
  C5: The value of a static register (no locality resets it) determines its measurement log. If two runs of PCR
  commands and state saves between startups begin with the same value of the register and end with the same
  value, then the digests extended into it by the accepted commands are the same, in the same order. The
  hypotheses are that the messages hashed along the two logs do not collide, that digests have one length, and
  that the value at the start is not itself the digest of one of those messages.
\<close>

theorem pcr_value_binds_log:
  assumes "ofold pcr_exec ops1 s1 = Ret t1" "ofold pcr_exec ops2 s2 = Ret t2"
    and "list_all (plain_op H alg) ops1" "list_all (plain_op H alg) ops2" "static_pcr pcr"
    and "s_pcrs s1 alg pcr = d" "s_pcrs s2 alg pcr = d" "length d = n"
    and "M = set (extend_msgs H d (run_log alg pcr ops1 s1)) \<union> set (extend_msgs H d (run_log alg pcr ops2 s2))"
    and "inj_on H M" "\<And>m. m \<in> M \<Longrightarrow> length (H m) = n" "d \<notin> H ` M"
    and "s_pcrs t1 alg pcr = s_pcrs t2 alg pcr"
  shows "run_log alg pcr ops1 s1 = run_log alg pcr ops2 s2"
proof (rule extends_inject [OF assms(10,11,8,12)])
  show "extends H d (run_log alg pcr ops1 s1) = extends H d (run_log alg pcr ops2 s2)"
    using run_value [OF assms(1,3,5)] run_value [OF assms(2,4,5)] assms(6,7,13) by simp
qed (simp_all add: assms(9))

definition demo_ops1 :: "pcr_op list" where
  "demo_ops1 = [OpExtend demo_penv0 8 [(TPM_ALG_SHA256, replicate 32 1)]]"

definition demo_ops2 :: "pcr_op list" where
  "demo_ops2 = [OpReset demo_penv0 8, OpExtend demo_penv0 9 [(TPM_ALG_SHA256, replicate 32 7)],
     OpExtend demo_penv0 8 [(TPM_ALG_SHA1, replicate 20 1), (TPM_ALG_SHA256, replicate 32 1)]]"

definition demo_end :: "pcr_op list \<Rightarrow> pcr_state" where
  "demo_end ops = (case ofold pcr_exec ops demo_pcr of Ret s \<Rightarrow> s | FailureMode \<Rightarrow> demo_pcr)"

theorem pcr_value_binds_log_witness:
  "run_log TPM_ALG_SHA256 8 demo_ops1 demo_pcr = run_log TPM_ALG_SHA256 8 demo_ops2 demo_pcr"
proof (rule pcr_value_binds_log [where H = "v_hash demo_penv0 TPM_ALG_SHA256" and d = "replicate 32 0" and n = 32])
  have r: "(case ofold pcr_exec demo_ops1 demo_pcr of Ret s \<Rightarrow> True | _ \<Rightarrow> False)"
    "(case ofold pcr_exec demo_ops2 demo_pcr of Ret s \<Rightarrow> True | _ \<Rightarrow> False)" by code_simp+
  then show "ofold pcr_exec demo_ops1 demo_pcr = Ret (demo_end demo_ops1)" "ofold pcr_exec demo_ops2 demo_pcr = Ret (demo_end demo_ops2)"
    by (auto simp: demo_end_def split: outcome.splits)
  show "list_all (plain_op (v_hash demo_penv0 TPM_ALG_SHA256) TPM_ALG_SHA256) demo_ops1"
    "list_all (plain_op (v_hash demo_penv0 TPM_ALG_SHA256) TPM_ALG_SHA256) demo_ops2" by (simp_all add: demo_ops1_def demo_ops2_def)
  show "static_pcr 8" "s_pcrs demo_pcr TPM_ALG_SHA256 8 = replicate 32 0" "s_pcrs demo_pcr TPM_ALG_SHA256 8 = replicate 32 0"
    "length (replicate 32 (0 :: u8)) = 32" "s_pcrs (demo_end demo_ops1) TPM_ALG_SHA256 8 = s_pcrs (demo_end demo_ops2) TPM_ALG_SHA256 8" by code_simp+
  have m: "extend_msgs (v_hash demo_penv0 TPM_ALG_SHA256) (replicate 32 0) (run_log TPM_ALG_SHA256 8 demo_ops1 demo_pcr) = [replicate 32 0 @ replicate 32 1]"
    "extend_msgs (v_hash demo_penv0 TPM_ALG_SHA256) (replicate 32 0) (run_log TPM_ALG_SHA256 8 demo_ops2 demo_pcr) = [replicate 32 0 @ replicate 32 1]"
    by code_simp+
  show "{replicate 32 0 @ replicate 32 1} = set (extend_msgs (v_hash demo_penv0 TPM_ALG_SHA256) (replicate 32 0) (run_log TPM_ALG_SHA256 8 demo_ops1 demo_pcr)) \<union>
    set (extend_msgs (v_hash demo_penv0 TPM_ALG_SHA256) (replicate 32 0) (run_log TPM_ALG_SHA256 8 demo_ops2 demo_pcr))" unfolding m by simp
  have h: "v_hash demo_penv0 TPM_ALG_SHA256 (replicate 32 0 @ replicate 32 1) = replicate 32 64"
    by code_simp
  show "inj_on (v_hash demo_penv0 TPM_ALG_SHA256) {replicate 32 0 @ replicate 32 1}" by simp
  show "replicate 32 0 \<notin> v_hash demo_penv0 TPM_ALG_SHA256 ` {replicate 32 0 @ replicate 32 1}" using h by simp
  fix m :: bytes
  assume "m \<in> {replicate 32 0 @ replicate 32 1}"
  then show "length (v_hash demo_penv0 TPM_ALG_SHA256 m) = 32" using h by simp
qed

end
