(* ===== verification/PCR_Read.thy ===== *)
theory PCR_Read
  imports PCR_Counter
begin

text \<open>
  Reading registers. \<^verbatim>\<open>PCRRead\<close> returns the first eight of the selected registers and the selection that marks
  them, so that a caller can ask for the rest.
\<close>

section \<open>Bits of a selection\<close>

lemma sel_bit_iff: "sel_bit b pcr \<longleftrightarrow> bit (sel_octet b (pcr div 8)) (pcr mod 8)"
  by (simp add: sel_bit_def bit_iff_and_push_bit_not_eq_0)

lemma sel_bit_FilterPcr:
  assumes "pcr < IMPLEMENTATION_PCR"
  shows "sel_bit (snd (FilterPcr s x)) pcr \<longleftrightarrow> sel_bit (snd x) pcr \<and> PcrIsAllocated s pcr (fst x)"
  using assms by (auto simp: FilterPcr_def PcrIsAllocated_def sel_bit_iff sel_octet_def bit_and_iff split: option.splits)

lemma FilterPcr_shape [simp]: "fst (FilterPcr s x) = fst x" "length (snd (FilterPcr s x)) = length (snd x)"
  by (simp_all add: FilterPcr_def split: option.splits)

lemma clear_bit_length [simp]: "length (clear_bit b pcr) = length b"
  by (simp add: clear_bit_def)

lemma sel_bit_clear_bit:
  assumes "pcr div 8 < length b"
  shows "sel_bit (clear_bit b pcr) q \<longleftrightarrow> sel_bit b q \<and> q \<noteq> pcr"
proof (cases "q div 8 = pcr div 8")
  case True
  have "q = pcr \<longleftrightarrow> q mod 8 = pcr mod 8" using True by (metis div_mult_mod_eq)
  then show ?thesis
    using assms True by (auto simp: sel_bit_iff sel_octet_def clear_bit_def bit_and_iff bit_not_iff bit_exp_iff possible_bit_def)
next
  case False
  then have "q \<noteq> pcr" by auto
  then show ?thesis using False by (simp add: sel_bit_iff sel_octet_def clear_bit_def)
qed

lemma clear_rest_spec:
  assumes "length b = PCR_SELECT_MAX" "pcr \<le> IMPLEMENTATION_PCR"
  shows "\<exists>b'. clear_rest b pcr = (b', IMPLEMENTATION_PCR) \<and> length b' = PCR_SELECT_MAX \<and>
    (\<forall>q < IMPLEMENTATION_PCR. sel_bit b' q \<longleftrightarrow> sel_bit b q \<and> q < pcr)"
  using assms
proof (induction b pcr rule: clear_rest.induct)
  case (1 b pcr)
  show ?case
  proof (cases "pcr < IMPLEMENTATION_PCR")
    case True
    then have d: "pcr div 8 < length b" using "1.prems"(1) by (simp add: PCR_SELECT_MAX_def IMPLEMENTATION_PCR_def)
    obtain b' where b': "clear_rest (clear_bit b pcr) (Suc pcr) = (b', IMPLEMENTATION_PCR)" "length b' = PCR_SELECT_MAX"
        "\<forall>q < IMPLEMENTATION_PCR. sel_bit b' q \<longleftrightarrow> sel_bit (clear_bit b pcr) q \<and> q < Suc pcr"
      using "1.IH" True d "1.prems"(1) by auto
    have "clear_rest b pcr = (b', IMPLEMENTATION_PCR)" using b'(1) True d by (simp add: clear_rest.simps [of b pcr])
    then show ?thesis using b'(2,3) sel_bit_clear_bit [OF d] by auto
  next
    case False
    then have "pcr = IMPLEMENTATION_PCR" "clear_rest b pcr = (b, pcr)" using "1.prems"(2) by (simp_all add: clear_rest.simps [of b])
    then show ?thesis using "1.prems"(1) by auto
  qed
qed

section \<open>One bank\<close>

definition pcr_value :: "pcr_state \<Rightarrow> TPM_ALG_ID \<Rightarrow> nat \<Rightarrow> bytes" where
  "pcr_value s alg pcr = take (CryptHashGetDigestSize alg) (s_pcrs s alg pcr)"

definition chosen :: "bytes \<Rightarrow> nat \<Rightarrow> nat list" where
  "chosen b pcr = filter (sel_bit b) [pcr..<IMPLEMENTATION_PCR]"

lemma chosen_step:
  "pcr < IMPLEMENTATION_PCR \<Longrightarrow> chosen b pcr = (if sel_bit b pcr then pcr # chosen b (Suc pcr) else chosen b (Suc pcr))"
  by (simp add: chosen_def upt_rec [of pcr])

lemma chosen_end: "IMPLEMENTATION_PCR \<le> pcr \<Longrightarrow> chosen b pcr = []"
  by (simp add: chosen_def)

lemma read_bank_spec:
  assumes "length sel = PCR_SELECT_MAX" "pcr \<le> IMPLEMENTATION_PCR" "length ds \<le> 8"
    and "\<And>q. q < IMPLEMENTATION_PCR \<Longrightarrow> sel_bit sel q \<Longrightarrow> GetPcrPointer s alg q = Ret True"
  shows "\<exists>sel'. read_bank s alg pcr sel ds = Ret (sel', ds @ map (pcr_value s alg) (take (8 - length ds) (chosen sel pcr)), IMPLEMENTATION_PCR)
    \<and> length sel' = PCR_SELECT_MAX
    \<and> (\<forall>q < IMPLEMENTATION_PCR. sel_bit sel' q \<longleftrightarrow> sel_bit sel q \<and> (q < pcr \<or> q \<in> set (take (8 - length ds) (chosen sel pcr))))"
  using assms
proof (induction s alg pcr sel ds rule: read_bank.induct)
  case (1 s alg pcr sel ds)
  consider "pcr = IMPLEMENTATION_PCR" | "pcr < IMPLEMENTATION_PCR" "\<not> sel_bit sel pcr"
    | "pcr < IMPLEMENTATION_PCR" "sel_bit sel pcr" "length ds = 8" | "pcr < IMPLEMENTATION_PCR" "sel_bit sel pcr" "length ds < 8"
    using "1.prems"(2,3) by linarith
  then show ?case
  proof cases
    case 1
    then have "read_bank s alg pcr sel ds = Ret (sel, ds, pcr)" by (simp add: read_bank.simps [of s alg])
    then show ?thesis using 1 "1.prems"(1) by (auto simp: chosen_end)
  next
    case 2
    then have n: "\<not> IsPcrSelected pcr sel" "read_bank s alg pcr sel ds = read_bank s alg (Suc pcr) sel ds"
      by (simp_all add: IsPcrSelected_def read_bank.simps [of s alg pcr])
    show ?thesis
      using "1.IH"(2) [OF _ n(1)] 2 "1.prems" n(2) chosen_step [of pcr sel] by (auto simp: less_Suc_eq)
  next
    case 3
    obtain b' where b': "clear_rest sel pcr = (b', IMPLEMENTATION_PCR)" "length b' = PCR_SELECT_MAX"
        "\<forall>q < IMPLEMENTATION_PCR. sel_bit b' q \<longleftrightarrow> sel_bit sel q \<and> q < pcr"
      using clear_rest_spec [OF "1.prems"(1,2)] by blast
    then show ?thesis using 3 by (simp add: read_bank.simps [of s alg pcr] IsPcrSelected_def)
  next
    case 4
    then have n: "IsPcrSelected pcr sel" by (simp add: IsPcrSelected_def)
    have g: "GetPcrPointer s alg pcr = Ret True" using "1.prems"(4) 4 by simp
    let ?ds = "ds @ [pcr_value s alg pcr]"
    have r: "read_bank s alg pcr sel ds = read_bank s alg (Suc pcr) sel ?ds"
      using 4 n g by (simp add: read_bank.simps [of s alg pcr] pcr_value_def)
    have t: "take (8 - length ds) (chosen sel pcr) = pcr # take (8 - length ?ds) (chosen sel (Suc pcr))"
      using chosen_step [of pcr sel] 4 by (simp add: take_Cons' Suc_diff_Suc)
    have "\<exists>sel'. read_bank s alg (Suc pcr) sel ?ds =
          Ret (sel', ?ds @ map (pcr_value s alg) (take (8 - length ?ds) (chosen sel (Suc pcr))), IMPLEMENTATION_PCR)
        \<and> length sel' = PCR_SELECT_MAX
        \<and> (\<forall>q < IMPLEMENTATION_PCR. sel_bit sel' q \<longleftrightarrow> sel_bit sel q \<and> (q < Suc pcr \<or> q \<in> set (take (8 - length ?ds) (chosen sel (Suc pcr)))))"
      using "1.IH"(1) [OF _ n _ g] 4 "1.prems" by (simp add: pcr_value_def [abs_def])
    then show ?thesis unfolding r t by (auto simp: less_Suc_eq)
  qed
qed

section \<open>All banks\<close>

text \<open>The registers that a selection asks for and that are allocated, in the order of the banks and of the numbers.\<close>

definition bank_selected :: "pcr_state \<Rightarrow> TPM_ALG_ID \<times> bytes \<Rightarrow> (TPM_ALG_ID \<times> nat) list" where
  "bank_selected s x = map (Pair (fst x)) (filter (\<lambda>pcr. sel_bit (snd x) pcr \<and> PcrIsAllocated s pcr (fst x)) [0..<IMPLEMENTATION_PCR])"

definition selected :: "pcr_state \<Rightarrow> pcr_selection \<Rightarrow> (TPM_ALG_ID \<times> nat) list" where
  "selected s sel = concat (map (bank_selected s) sel)"

lemma bank_selected_chosen: "bank_selected s x = map (Pair (fst x)) (chosen (snd (FilterPcr s x)) 0)"
proof -
  have "filter (\<lambda>pcr. sel_bit (snd x) pcr \<and> PcrIsAllocated s pcr (fst x)) [0..<IMPLEMENTATION_PCR] = chosen (snd (FilterPcr s x)) 0"
    unfolding chosen_def by (rule filter_cong) (auto simp: sel_bit_FilterPcr)
  then show ?thesis by (simp add: bank_selected_def)
qed

lemma filter_in_take: "sorted xs \<Longrightarrow> distinct xs \<Longrightarrow> filter (\<lambda>x. x \<in> set (take n xs)) xs = take n xs"
proof (induction xs arbitrary: n)
  case (Cons x xs)
  show ?case
  proof (cases n)
    case (Suc m)
    have "filter (\<lambda>y. y = x \<or> y \<in> set (take m xs)) xs = filter (\<lambda>y. y \<in> set (take m xs)) xs"
      by (rule filter_cong) (use Cons.prems in auto)
    then show ?thesis using Cons Suc by simp
  qed simp
qed simp

lemma bank_selected_cut:
  assumes "\<forall>q < IMPLEMENTATION_PCR. sel_bit b q \<longleftrightarrow> sel_bit (snd (FilterPcr s x)) q \<and> q \<in> set (take k (chosen (snd (FilterPcr s x)) 0))"
  shows "bank_selected s (fst x, b) = take k (bank_selected s x)"
proof -
  let ?c = "chosen (snd (FilterPcr s x)) 0"
  have "filter (\<lambda>q. sel_bit b q \<and> PcrIsAllocated s q (fst x)) [0..<IMPLEMENTATION_PCR]
      = filter (\<lambda>q. q \<in> set (take k ?c)) (filter (sel_bit (snd (FilterPcr s x))) [0..<IMPLEMENTATION_PCR])"
    unfolding filter_filter by (rule filter_cong) (use assms sel_bit_FilterPcr in auto)
  also have "\<dots> = take k ?c" unfolding chosen_def by (rule filter_in_take) (simp_all add: sorted_wrt_filter)
  finally have "bank_selected s (fst x, b) = map (Pair (fst x)) (take k ?c)" by (simp add: bank_selected_def)
  then show ?thesis using bank_selected_chosen [of s x] by (simp add: take_map)
qed

lemma filtered_pointer:
  assumes "fst x \<in> set hash_algs" "q < IMPLEMENTATION_PCR" "sel_bit (snd (FilterPcr s x)) q"
  shows "GetPcrPointer s (fst x) q = Ret True"
  using assms by (simp add: GetPcrPointer_def sel_bit_FilterPcr)

lemma read_banks_spec:
  assumes "list_all (\<lambda>x. length (snd x) = PCR_SELECT_MAX \<and> fst x \<in> set hash_algs) sel" "length ds \<le> 8"
  shows "\<exists>out. read_banks s sel ds = Ret (out, ds @ map (\<lambda>(alg, pcr). pcr_value s alg pcr) (take (8 - length ds) (selected s sel)))
    \<and> map fst out = map fst sel \<and> selected s out = take (8 - length ds) (selected s sel)"
  using assms
proof (induction sel arbitrary: ds)
  case (Cons x sel)
  let ?f = "FilterPcr s x"
  have p: "\<And>q. q < IMPLEMENTATION_PCR \<Longrightarrow> sel_bit (snd ?f) q \<Longrightarrow> GetPcrPointer s (fst x) q = Ret True"
    by (rule filtered_pointer) (use Cons.prems in auto)
  let ?v = "map (pcr_value s (fst x)) (take (8 - length ds) (chosen (snd ?f) 0))"
  obtain b where b: "read_bank s (fst x) 0 (snd ?f) ds = Ret (b, ds @ ?v, IMPLEMENTATION_PCR)"
      "\<forall>q < IMPLEMENTATION_PCR. sel_bit b q \<longleftrightarrow> sel_bit (snd ?f) q \<and> q \<in> set (take (8 - length ds) (chosen (snd ?f) 0))"
    using read_bank_spec [of "snd ?f" 0 ds s "fst x"] p Cons.prems by auto
  have v: "?v = map (\<lambda>(alg, pcr). pcr_value s alg pcr) (take (8 - length ds) (bank_selected s x))"
    by (simp add: bank_selected_chosen take_map)
  have l: "length (ds @ ?v) \<le> 8" using Cons.prems(2) by simp
  have k: "8 - length (ds @ ?v) = 8 - length ds - length (bank_selected s x)"
    by (simp add: bank_selected_chosen)
  obtain out where o: "read_banks s sel (ds @ ?v) = Ret (out, (ds @ ?v) @ map (\<lambda>(alg, pcr). pcr_value s alg pcr) (take (8 - length (ds @ ?v)) (selected s sel)))"
      "map fst out = map fst sel" "selected s out = take (8 - length (ds @ ?v)) (selected s sel)"
    using Cons.IH [OF _ l] Cons.prems(1) by auto
  have c: "bank_selected s (fst x, b) = take (8 - length ds) (bank_selected s x)" by (rule bank_selected_cut) (rule b(2))
  have "read_banks s (x # sel) ds =
      Ret ((fst x, b) # out, (ds @ ?v) @ map (\<lambda>(alg, pcr). pcr_value s alg pcr) (take (8 - length (ds @ ?v)) (selected s sel)))"
    using b(1) o(1) by (simp add: Let_def)
  moreover have "selected s ((fst x, b) # out) = take (8 - length ds) (selected s (x # sel))"
    using o(3) c k by (simp add: selected_def)
  ultimately show ?case using o(2) v k by (simp add: selected_def)
qed (simp add: selected_def)

text \<open>
  A read of registers with bit maps of full size returns the values of the first eight registers that are both
  selected and allocated, in the order of the banks of the request and of the register numbers, and the selection
  it returns marks exactly these registers; it never fails.
\<close>

theorem PCRRead_first_eight:
  assumes "list_all (\<lambda>x. length (snd x) = PCR_SELECT_MAX \<and> fst x \<in> set hash_algs) sel"
  shows "\<exists>out. TPM2_PCR_Read sel s = Ret (TPM_RC_SUCCESS, p_pcrCounter s, out,
      map (\<lambda>(alg, pcr). take (CryptHashGetDigestSize alg) (s_pcrs s alg pcr)) (take 8 (selected s sel)))
    \<and> map fst out = map fst sel \<and> selected s out = take 8 (selected s sel)"
  using read_banks_spec [OF assms, of "[]" s] by (auto simp: TPM2_PCR_Read_def PCRRead_def pcr_value_def)

theorem PCRRead_first_eight_witness:
  "\<exists>out. TPM2_PCR_Read [(TPM_ALG_SHA1, [0, 0, 1]), (TPM_ALG_SHA256, [0xFF, 0xFF, 0])] demo_pcr = Ret (TPM_RC_SUCCESS, 1, out,
      replicate 20 0 # replicate 7 (replicate 32 0))
    \<and> map fst out = [TPM_ALG_SHA1, TPM_ALG_SHA256]
    \<and> selected demo_pcr out = (TPM_ALG_SHA1, 16) # map (Pair TPM_ALG_SHA256) [0..<7]"
proof -
  let ?sel = "[(TPM_ALG_SHA1, [0, 0, 1]), (TPM_ALG_SHA256, [0xFF, 0xFF, 0])] :: pcr_selection"
  have "list_all (\<lambda>x. length (snd x) = PCR_SELECT_MAX \<and> fst x \<in> set hash_algs) ?sel" by code_simp
  note t = PCRRead_first_eight [OF this, of demo_pcr]
  have a: "take 8 (selected demo_pcr ?sel) = (TPM_ALG_SHA1, 16) # map (Pair TPM_ALG_SHA256) [0..<7]" by code_simp
  have "map (\<lambda>(alg, pcr). take (CryptHashGetDigestSize alg) (s_pcrs demo_pcr alg pcr)) (take 8 (selected demo_pcr ?sel)) =
      replicate 20 0 # replicate 7 (replicate 32 0)" "p_pcrCounter demo_pcr = 1" by code_simp+
  then show ?thesis using t unfolding a by simp
qed

end
