(* ===== verification/PCR_Resume.thy ===== *)
theory PCR_Resume
  imports PCR_Read
begin

text \<open>
  State save and resume. The registers with the attribute \<^verbatim>\<open>stateSave\<close> are packed into the saved array in the
  order of their numbers; a resume puts each back where it was and gives every other register its initial value.
\<close>

section \<open>Loops that count\<close>

lemma ofold_upt_Suc: "ofold f [0..<Suc n] s = obind (ofold f [0..<n] s) (f n)"
proof (cases "ofold f [0..<n] s")
  case (Ret t)
  then show ?thesis by (cases "f n t") (simp_all add: ofold_append)
qed (simp add: ofold_append)

abbreviation saved_pcr :: "nat \<Rightarrow> bool" where
  "saved_pcr pcr \<equiv> stateSave (platPcr_GetPcrInitializationAttributes pcr)"

fun save_index :: "nat \<Rightarrow> nat" where
  "save_index 0 = 0"
| "save_index (Suc n) = save_index n + (if saved_pcr n then 1 else 0)"

lemma save_index_mono: "m \<le> n \<Longrightarrow> save_index m \<le> save_index n"
  by (induction n) (auto simp: le_Suc_eq)

lemma save_index_less: "q < n \<Longrightarrow> saved_pcr q \<Longrightarrow> save_index q < save_index n"
  using save_index_mono [of "Suc q" n] by simp

section \<open>Saving\<close>

definition allocated_banks :: "pcr_state \<Rightarrow> bool" where
  "allocated_banks s \<longleftrightarrow> set (map fst (pcrAllocated s)) \<subseteq> set hash_algs"

lemma GetPcrPointer_allocated:
  "alg \<in> set hash_algs \<Longrightarrow> GetPcrPointer s alg pcr = Ret (PcrIsAllocated s pcr alg)"
  by (simp add: GetPcrPointer_def)

lemma PcrIsAllocated_cong: "pcrAllocated s' = pcrAllocated s \<Longrightarrow> PcrIsAllocated s' pcr alg = PcrIsAllocated s pcr alg"
  by (simp add: PcrIsAllocated_def)

lemma PcrIsAllocated_bank: "PcrIsAllocated s pcr alg \<Longrightarrow> alg \<in> fst ` set (pcrAllocated s)"
  by (auto simp: PcrIsAllocated_def bank_of_def find_Some_iff image_iff split: option.splits)

lemma save_banks:
  assumes "fst ` set bs \<subseteq> set hash_algs"
  shows "\<exists>u'. ofold (\<lambda>bank s. obind (GetPcrPointer s (fst bank) pcr) (\<lambda>here.
       Ret (if here \<and> saved then save_pcr (fst bank) k (s_pcrs s (fst bank) pcr) s else s))) bs u = Ret u'
    \<and> s_pcrs u' = s_pcrs u \<and> pcrAllocated u' = pcrAllocated u
    \<and> (\<forall>alg j. pcrSave u' alg j = (if saved \<and> j = k \<and> alg \<in> fst ` set bs \<and> PcrIsAllocated u pcr alg then s_pcrs u alg pcr else pcrSave u alg j))"
  using assms
proof (induction bs arbitrary: u)
  case (Cons x bs)
  let ?v = "if PcrIsAllocated u pcr (fst x) \<and> saved then save_pcr (fst x) k (s_pcrs u (fst x) pcr) u else u"
  have g: "GetPcrPointer u (fst x) pcr = Ret (PcrIsAllocated u pcr (fst x))" using Cons.prems by (auto intro: GetPcrPointer_allocated)
  have v: "s_pcrs ?v = s_pcrs u" "pcrAllocated ?v = pcrAllocated u" by (simp_all add: save_pcr_def)
  have "PcrIsAllocated ?v pcr alg = PcrIsAllocated u pcr alg" for alg by (rule PcrIsAllocated_cong) (rule v(2))
  then show ?case using Cons.IH [of ?v] Cons.prems g v by (auto simp: save_pcr_def)
qed simp

lemma save_loop:
  assumes "allocated_banks s"
  shows "\<exists>s'. ofold save_step [0..<n] (0, s) = Ret (save_index n, s') \<and> s_pcrs s' = s_pcrs s \<and> pcrAllocated s' = pcrAllocated s \<and>
    (\<forall>alg q. q < n \<longrightarrow> saved_pcr q \<longrightarrow> PcrIsAllocated s q alg \<longrightarrow> pcrSave s' alg (save_index q) = s_pcrs s alg q)"
proof (induction n)
  case (Suc n)
  then obtain s' where s': "ofold save_step [0..<n] (0, s) = Ret (save_index n, s')" "s_pcrs s' = s_pcrs s" "pcrAllocated s' = pcrAllocated s"
      "\<And>alg q. q < n \<Longrightarrow> saved_pcr q \<Longrightarrow> PcrIsAllocated s q alg \<Longrightarrow> pcrSave s' alg (save_index q) = s_pcrs s alg q" by blast
  have b: "fst ` set (pcrAllocated s') \<subseteq> set hash_algs" using assms s'(3) by (simp add: allocated_banks_def)
  obtain u where u: "ofold (\<lambda>bank s. obind (GetPcrPointer s (fst bank) n) (\<lambda>here.
       Ret (if here \<and> saved_pcr n then save_pcr (fst bank) (save_index n) (s_pcrs s (fst bank) n) s else s))) (pcrAllocated s') s' = Ret u"
      "s_pcrs u = s_pcrs s'" "pcrAllocated u = pcrAllocated s'"
      "\<And>alg j. pcrSave u alg j = (if saved_pcr n \<and> j = save_index n \<and> alg \<in> fst ` set (pcrAllocated s') \<and> PcrIsAllocated s' n alg
        then s_pcrs s' alg n else pcrSave s' alg j)"
    using save_banks [OF b, of n "saved_pcr n" "save_index n" s'] by blast
  have a: "PcrIsAllocated s' n alg = PcrIsAllocated s n alg" for alg by (rule PcrIsAllocated_cong) (rule s'(3))
  have "save_step n (save_index n, s') = Ret (save_index (Suc n), u)" using u(1) by (simp add: save_step_def Let_def)
  moreover have "pcrSave u alg (save_index q) = s_pcrs s alg q" if "q < Suc n" "saved_pcr q" "PcrIsAllocated s q alg" for alg q
  proof (cases "q = n")
    case True
    then show ?thesis using that u(4) a s'(2) PcrIsAllocated_bank [of s' n alg] by simp
  next
    case False
    then show ?thesis using that s'(4) save_index_less [of q n] u(4) by simp
  qed
  ultimately show ?case using s' u(2,3) by (auto simp only: ofold_upt_Suc obind.simps)
qed simp

section \<open>Resuming\<close>

lemma startup_banks:
  assumes "fst ` set bs \<subseteq> set hash_algs" "pcr < IMPLEMENTATION_PCR"
  shows "\<exists>u'. ofold (startup_bank l sv k pcr) bs u = Ret u' \<and> pcrSave u' = pcrSave u \<and> pcrAllocated u' = pcrAllocated u \<and>
      p_pcrCounter u' = p_pcrCounter u \<and>
      (\<forall>alg q. s_pcrs u' alg q = (if q = pcr \<and> alg \<in> fst ` set bs \<and> PcrIsAllocated u pcr alg
         then (if sv then pcrSave u alg k else pcr_default pcr (CryptHashGetDigestSize alg) l) else s_pcrs u alg q))"
  using assms
proof (induction bs arbitrary: u)
  case (Cons x bs)
  let ?n = "CryptHashGetDigestSize (fst x)"
  let ?v = "if PcrIsAllocated u pcr (fst x) then set_pcr (fst x) pcr (if sv then pcrSave u (fst x) k else pcr_default pcr ?n l) u else u"
  have g: "GetPcrPointer u (fst x) pcr = Ret (PcrIsAllocated u pcr (fst x))" using Cons.prems by (auto intro: GetPcrPointer_allocated)
  have "platPcr_GetInitialValueForPcr pcr (fst x) l ?n = Ret (TPM_RC_SUCCESS, pcr_default pcr ?n l)"
    using assms(2) by (simp add: platPcr_GetInitialValueForPcr_def Let_def platPcr_NumberOfPcrs_def s_initAttributes_def IMPLEMENTATION_PCR_def)
  then have st: "startup_bank l sv k pcr x u = Ret ?v" using g by (simp add: startup_bank_def Let_def)
  have v: "pcrSave ?v = pcrSave u" "pcrAllocated ?v = pcrAllocated u" "p_pcrCounter ?v = p_pcrCounter u" by simp_all
  have a: "PcrIsAllocated ?v pcr alg = PcrIsAllocated u pcr alg" for alg by (rule PcrIsAllocated_cong) (rule v(2))
  have sub: "fst ` set bs \<subseteq> set hash_algs" using Cons.prems(1) by simp
  from Cons.IH [OF sub assms(2), of ?v]
  obtain w where w: "ofold (startup_bank l sv k pcr) bs ?v = Ret w" "pcrSave w = pcrSave u" "pcrAllocated w = pcrAllocated u" "p_pcrCounter w = p_pcrCounter u"
    "\<And>alg q. s_pcrs w alg q = (if q = pcr \<and> alg \<in> fst ` set bs \<and> PcrIsAllocated u pcr alg
         then (if sv then pcrSave u alg k else pcr_default pcr (CryptHashGetDigestSize alg) l) else s_pcrs ?v alg q)"
    unfolding a v by blast
  have "s_pcrs w alg q = (if q = pcr \<and> alg \<in> fst ` set (x # bs) \<and> PcrIsAllocated u pcr alg
         then (if sv then pcrSave u alg k else pcr_default pcr (CryptHashGetDigestSize alg) l) else s_pcrs u alg q)" for alg q
    using w(5) [of alg q] by (cases "PcrIsAllocated u pcr (fst x)") (auto simp: set_pcr_value)
  then show ?case using w(1-4) st by auto
qed simp

lemma PCRChanged_small:
  assumes "unat (p_pcrCounter s) < 2 ^ 32 - 1"
  shows "\<exists>s'. PCRChanged pcr s = Ret s' \<and> s_pcrs s' = s_pcrs s \<and> pcrSave s' = pcrSave s \<and> pcrAllocated s' = pcrAllocated s \<and>
    unat (p_pcrCounter s') \<le> unat (p_pcrCounter s) + 1"
proof -
  have "unat (p_pcrCounter s + 1) = unat (p_pcrCounter s) + 1" using assms by (simp add: unat_word_ariths)
  then have "p_pcrCounter s + 1 \<noteq> 0" by (metis Suc_eq_plus1 Zero_not_Suc unsigned_0)
  then show ?thesis using \<open>unat (p_pcrCounter s + 1) = _\<close> by (simp add: PCRChanged_def)
qed

lemma resume_loop:
  assumes "allocated_banks t" "n \<le> IMPLEMENTATION_PCR" "unat (p_pcrCounter t) + IMPLEMENTATION_PCR < 2 ^ 32"
  shows "\<exists>t'. ofold (startup_pcr SU_RESUME l) [0..<n] (0, t) = Ret (save_index n, t') \<and> pcrSave t' = pcrSave t \<and>
    pcrAllocated t' = pcrAllocated t \<and> unat (p_pcrCounter t') \<le> unat (p_pcrCounter t) + n \<and>
    (\<forall>alg q. q < n \<longrightarrow> PcrIsAllocated t q alg \<longrightarrow>
       s_pcrs t' alg q = (if saved_pcr q then pcrSave t alg (save_index q) else pcr_default q (CryptHashGetDigestSize alg) l))"
  using assms(2)
proof (induction n)
  case (Suc n)
  then obtain t' where t': "ofold (startup_pcr SU_RESUME l) [0..<n] (0, t) = Ret (save_index n, t')" "pcrSave t' = pcrSave t"
      "pcrAllocated t' = pcrAllocated t" "unat (p_pcrCounter t') \<le> unat (p_pcrCounter t) + n"
      "\<And>alg q. q < n \<Longrightarrow> PcrIsAllocated t q alg \<Longrightarrow>
       s_pcrs t' alg q = (if saved_pcr q then pcrSave t alg (save_index q) else pcr_default q (CryptHashGetDigestSize alg) l)" by fastforce
  have "unat (p_pcrCounter t') < 2 ^ 32 - 1" using t'(4) assms(3) Suc.prems by linarith
  from PCRChanged_small [OF this, of n] obtain v where v:
      "(if saved_pcr n then Ret t' else PCRChanged n t') = Ret v" "s_pcrs v = s_pcrs t'" "pcrSave v = pcrSave t" "pcrAllocated v = pcrAllocated t"
      "unat (p_pcrCounter v) \<le> unat (p_pcrCounter t) + Suc n"
    using t'(2-4) by (cases "saved_pcr n") auto
  have b: "fst ` set (pcrAllocated v) \<subseteq> set hash_algs" using assms(1) v(4) by (simp add: allocated_banks_def)
  have a: "PcrIsAllocated v n alg = PcrIsAllocated t n alg" for alg by (rule PcrIsAllocated_cong) (rule v(4))
  from startup_banks [OF b, of n l "saved_pcr n" "save_index n" v] Suc.prems
  obtain w where w: "ofold (startup_bank l (saved_pcr n) (save_index n) n) (pcrAllocated v) v = Ret w" "pcrSave w = pcrSave t"
      "pcrAllocated w = pcrAllocated t" "p_pcrCounter w = p_pcrCounter v"
      "\<And>alg q. s_pcrs w alg q = (if q = n \<and> alg \<in> fst ` set (pcrAllocated v) \<and> PcrIsAllocated t n alg
         then (if saved_pcr n then pcrSave t alg (save_index n) else pcr_default n (CryptHashGetDigestSize alg) l) else s_pcrs t' alg q)"
    unfolding a v(2-4) by auto
  have "startup_pcr SU_RESUME l n (save_index n, t') = Ret (save_index (Suc n), w)"
    using v(1) w(1) by (cases "saved_pcr n") (simp_all add: startup_pcr_def Let_def)
  moreover have "s_pcrs w alg q = (if saved_pcr q then pcrSave t alg (save_index q) else pcr_default q (CryptHashGetDigestSize alg) l)"
    if "q < Suc n" "PcrIsAllocated t q alg" for alg q
    using that w(5) [of alg q] t'(5) [of q alg] PcrIsAllocated_bank [OF that(2)] v(4) by (cases "q = n") auto
  ultimately show ?case using t'(1) w(2-4) v(5) by (auto simp only: ofold_upt_Suc obind.simps)
qed simp

text \<open>
  C36: A state save followed, after any loss of the registers, by a resume restores every allocated register
  whose attribute is \<^verbatim>\<open>stateSave\<close> and gives every other allocated register its initial value; both succeed if the
  generation counter has room for one step per register.
\<close>

theorem pcr_save_resume:
  assumes "allocated_banks s"
  shows "\<exists>s1. PCRStateSave TPM_SU_STATE s = Ret s1 \<and>
    (\<forall>t. pcrSave t = pcrSave s1 \<longrightarrow> pcrAllocated t = pcrAllocated s \<longrightarrow> unat (p_pcrCounter t) + IMPLEMENTATION_PCR < 2 ^ 32 \<longrightarrow>
      (\<exists>t1. PCRStartup SU_RESUME l t = Ret t1 \<and>
        (\<forall>alg pcr. PcrIsAllocated s pcr alg \<longrightarrow>
           s_pcrs t1 alg pcr = (if PCRIsStateSaved pcr then s_pcrs s alg pcr else pcr_default pcr (CryptHashGetDigestSize alg) l))))"
proof -
  obtain s1 where s1: "ofold save_step [0..<IMPLEMENTATION_PCR] (0, s) = Ret (save_index IMPLEMENTATION_PCR, s1)"
      "\<And>alg q. q < IMPLEMENTATION_PCR \<Longrightarrow> saved_pcr q \<Longrightarrow> PcrIsAllocated s q alg \<Longrightarrow> pcrSave s1 alg (save_index q) = s_pcrs s alg q"
    using save_loop [OF assms, of IMPLEMENTATION_PCR] by blast
  have "PCRStateSave TPM_SU_STATE s = Ret s1" using s1(1) by (simp add: PCRStateSave_def tpm_consts)
  moreover have "\<exists>t1. PCRStartup SU_RESUME l t = Ret t1 \<and> (\<forall>alg pcr. PcrIsAllocated s pcr alg \<longrightarrow>
           s_pcrs t1 alg pcr = (if PCRIsStateSaved pcr then s_pcrs s alg pcr else pcr_default pcr (CryptHashGetDigestSize alg) l))"
    if t: "pcrSave t = pcrSave s1" "pcrAllocated t = pcrAllocated s" "unat (p_pcrCounter t) + IMPLEMENTATION_PCR < 2 ^ 32" for t
  proof -
    let ?t = "t\<lparr>g_pcrReConfig := False\<rparr>"
    have "allocated_banks ?t" "unat (p_pcrCounter ?t) + IMPLEMENTATION_PCR < 2 ^ 32" using assms t by (simp_all add: allocated_banks_def)
    from resume_loop [OF this(1) order_refl this(2), of l]
    obtain t1 where t1: "ofold (startup_pcr SU_RESUME l) [0..<IMPLEMENTATION_PCR] (0, ?t) = Ret (save_index IMPLEMENTATION_PCR, t1)"
        "\<And>alg q. q < IMPLEMENTATION_PCR \<Longrightarrow> PcrIsAllocated ?t q alg \<Longrightarrow>
           s_pcrs t1 alg q = (if saved_pcr q then pcrSave ?t alg (save_index q) else pcr_default q (CryptHashGetDigestSize alg) l)" by blast
    have "PCRStartup SU_RESUME l t = Ret t1"
      using t1(1) by (simp add: PCRStartup_def Let_def platPcr_NumberOfPcrs_def s_initAttributes_def IMPLEMENTATION_PCR_def)
    moreover have "PcrIsAllocated ?t q alg = PcrIsAllocated s q alg" for q alg using t(2) by (simp add: PcrIsAllocated_def)
    moreover have "q < IMPLEMENTATION_PCR" if "PcrIsAllocated s q alg" for q alg using that by (simp add: PcrIsAllocated_def)
    ultimately show ?thesis using t1(2) s1(2) t(1) by (auto simp: PCRIsStateSaved_def)
  qed
  ultimately show ?thesis by blast
qed

theorem pcr_save_resume_witness:
  "\<exists>s1. PCRStateSave TPM_SU_STATE demo_pcr = Ret s1 \<and>
    (\<exists>t1. PCRStartup SU_RESUME 3 (s1\<lparr>s_pcrs := \<lambda>alg pcr. []\<rparr>) = Ret t1 \<and>
      s_pcrs t1 TPM_ALG_SHA256 5 = replicate 32 0 \<and> s_pcrs t1 TPM_ALG_SHA256 17 = replicate 32 0xFF)"
proof -
  have "allocated_banks demo_pcr" by code_simp
  from pcr_save_resume [OF this, of 3] obtain s1 where s1: "PCRStateSave TPM_SU_STATE demo_pcr = Ret s1"
    "\<And>t. pcrSave t = pcrSave s1 \<Longrightarrow> pcrAllocated t = pcrAllocated demo_pcr \<Longrightarrow> unat (p_pcrCounter t) + IMPLEMENTATION_PCR < 2 ^ 32 \<Longrightarrow>
      \<exists>t1. PCRStartup SU_RESUME 3 t = Ret t1 \<and> (\<forall>alg pcr. PcrIsAllocated demo_pcr pcr alg \<longrightarrow> s_pcrs t1 alg pcr =
        (if PCRIsStateSaved pcr then s_pcrs demo_pcr alg pcr else pcr_default pcr (CryptHashGetDigestSize alg) 3))" by blast
  have k: "keeps_counted demo_pcr s1" by (rule PCRStateSave_keeps [OF s1(1)])
  have "case PCRStateSave TPM_SU_STATE demo_pcr of Ret s \<Rightarrow> p_pcrCounter s = 1 | FailureMode \<Rightarrow> False" by code_simp
  then have "p_pcrCounter s1 = 1" using s1(1) by simp
  with k obtain t1 where t1: "PCRStartup SU_RESUME 3 (s1\<lparr>s_pcrs := \<lambda>alg pcr. []\<rparr>) = Ret t1"
    "\<And>alg pcr. PcrIsAllocated demo_pcr pcr alg \<Longrightarrow> s_pcrs t1 alg pcr =
        (if PCRIsStateSaved pcr then s_pcrs demo_pcr alg pcr else pcr_default pcr (CryptHashGetDigestSize alg) 3)"
    using s1(2) [of "s1\<lparr>s_pcrs := \<lambda>alg pcr. []\<rparr>"] by (auto simp: keeps_counted_def IMPLEMENTATION_PCR_def)
  have "PcrIsAllocated demo_pcr 5 TPM_ALG_SHA256" "PcrIsAllocated demo_pcr 17 TPM_ALG_SHA256" "PCRIsStateSaved 5" "\<not> PCRIsStateSaved 17"
    "s_pcrs demo_pcr TPM_ALG_SHA256 5 = replicate 32 0" "pcr_default 17 (CryptHashGetDigestSize TPM_ALG_SHA256) 3 = replicate 32 0xFF" by code_simp+
  then show ?thesis using s1(1) t1 by auto
qed

end
