(* ===== verification/Event_Sequences.thy ===== *)
theory Event_Sequences
  imports PCR_Resume Pqc_Sequences
begin

text \<open>
  Event sequences: \<^verbatim>\<open>TPM2_EventSequenceComplete\<close> of \<^verbatim>\<open>HashCommands.c\<close> and the indications \<^verbatim>\<open>_TPM_Hash_Start\<close>,
  \<^verbatim>\<open>_TPM_Hash_Data\<close> and \<^verbatim>\<open>_TPM_Hash_End\<close> of \<^verbatim>\<open>IntegrityCommands.c\<close>, which measure a dynamic launch. They work on the
  object slots and on the registers.
\<close>

section \<open>Definitions\<close>

definition RC_EventSequenceComplete_sequenceHandle :: TPM_RC where
  [tpm_consts]: "RC_EventSequenceComplete_sequenceHandle = TPM_RC_H + TPM_RC_2"

text \<open>A hash state that was ended is removed; ending one again is a failure.\<close>

definition sequence_digests :: "pcr_env \<Rightarrow> bytes \<Rightarrow> HASH_STATE list \<Rightarrow> (TPM_ALG_ID \<times> bytes) list outcome" where
  "sequence_digests env data sts =
     pAssert (length sts = length hash_algs)
       (Ret (map2 (\<lambda>alg st. (alg, v_hash env (fst st) (snd (digest_update data st)))) hash_algs sts))"

definition TPM2_EventSequenceComplete ::
  "pcr_env \<Rightarrow> TPM_HANDLE \<Rightarrow> TPM_HANDLE \<Rightarrow> bytes \<Rightarrow> obj_state \<Rightarrow> pcr_state
     \<Rightarrow> ((TPM_RC \<times> (TPM_ALG_ID \<times> bytes) list) \<times> obj_state \<times> pcr_state) outcome" where
  "TPM2_EventSequenceComplete env pcrHandle sequenceHandle data s p =
     obind (HandleToObject s sequenceHandle) (\<lambda>i. obind (deref s i) (\<lambda>ob.
       if \<not> eventSeq (o_attributes ob) then Ret ((TPM_RC_MODE + RC_EventSequenceComplete_sequenceHandle, []), s, p)
       else if pcrHandle \<noteq> TPM_RH_NULL \<and> \<not> PCRIsExtendAllowed (v_wide env) (v_locality env) (unat pcrHandle)
       then Ret ((TPM_RC_LOCALITY, []), s, p)
       else if pcrHandle \<noteq> TPM_RH_NULL \<and> PCRIsStateSaved (unat pcrHandle) \<and> v_orderly env \<noteq> TPM_RC_SUCCESS
       then Ret ((v_orderly env, []), s, p)
       else obind (sequence_digests env data (hashState ob)) (\<lambda>ds.
         obind (ofold (\<lambda>(alg, d). if pcrHandle \<noteq> TPM_RH_NULL then PCRExtend (v_hash env) (unat pcrHandle) alg d else Ret) ds p) (\<lambda>p1.
           Ret ((TPM_RC_SUCCESS, ds),
                upd_slot (slot_of sequenceHandle) (\<lambda>ob. (upd_attr (evict_update (\<lambda>_. True)) ob)\<lparr>hashState := []\<rparr>) s, p1)))))"

text \<open>The first occupied slot below the last one.\<close>

definition present_handle :: "obj_state \<Rightarrow> TPM_HANDLE option" where
  "present_handle s = map_option handle_of (find (\<lambda>i. IsObjectPresent s (handle_of i)) [0..<MAX_LOADED_OBJECTS - 1])"

definition TPM_Hash_Start :: "obj_state \<Rightarrow> obj_state outcome" where
  "TPM_Hash_Start s =
     obind (if g_DRTMHandle s \<noteq> TPM_RH_UNASSIGNED
            then obind (FlushObject (g_DRTMHandle s) s) (\<lambda>s1. Ret (s1\<lparr>g_DRTMHandle := TPM_RH_UNASSIGNED\<rparr>)) else Ret s) (\<lambda>s1.
       case ObjectCreateEventSequence hash_algs None s1 of (rc, h, s2) \<Rightarrow>
         if rc = TPM_RC_SUCCESS then Ret (s2\<lparr>g_DRTMHandle := h\<rparr>)
         else case present_handle s2 of
           None \<Rightarrow> FailureMode
         | Some k \<Rightarrow> obind (FlushObject k s2) (\<lambda>s3.
             case ObjectCreateEventSequence hash_algs None s3 of (rc, h, s4) \<Rightarrow>
               pAssert (rc = TPM_RC_SUCCESS) (Ret (s4\<lparr>g_DRTMHandle := h\<rparr>))))"

definition drtm_pcr :: "pcr_state \<Rightarrow> nat" where
  "drtm_pcr p = (if p_started p then DRTM_PCR else HCRTM_PCR)"

definition TPM_Hash_Data :: "bytes \<Rightarrow> pcr_state \<Rightarrow> obj_state \<Rightarrow> obj_state outcome" where
  "TPM_Hash_Data data p s =
     (if g_DRTMHandle s = TPM_RH_UNASSIGNED then Ret s
      else obind (HandleToObject s (g_DRTMHandle s)) (\<lambda>i. obind (deref s i) (\<lambda>ob.
        pAssert (eventSeq (o_attributes ob))
          (Ret (upd_slot (slot_of (g_DRTMHandle s)) (\<lambda>ob. ob\<lparr>hashState :=
             map (\<lambda>st. if PcrIsAllocated p (drtm_pcr p) (fst st) then digest_update data st else st) (hashState ob)\<rparr>) s)))))"

definition TPM_Hash_End :: "pcr_env \<Rightarrow> obj_state \<Rightarrow> pcr_state \<Rightarrow> (obj_state \<times> pcr_state) outcome" where
  "TPM_Hash_End env s p =
     (if g_DRTMHandle s = TPM_RH_UNASSIGNED then Ret (s, p)
      else obind (HandleToObject s (g_DRTMHandle s)) (\<lambda>i. obind (deref s i) (\<lambda>ob.
        obind (sequence_digests env [] (hashState ob)) (\<lambda>ds.
          obind (hash_end_pcrs env (\<lambda>alg. case map_of ds alg of Some d \<Rightarrow> d | None \<Rightarrow> []) p) (\<lambda>p1.
            obind (FlushObject (g_DRTMHandle s) s) (\<lambda>s1. Ret (s1\<lparr>g_DRTMHandle := TPM_RH_UNASSIGNED\<rparr>, p1)))))))"

section \<open>Event sequences and events\<close>

lemma obind_assoc: "obind (obind m f) g = obind m (\<lambda>x. obind (f x) g)"
  by (cases m) simp_all

definition event_object :: "bytes option \<Rightarrow> bytes \<Rightarrow> OBJECT \<Rightarrow> bool" where
  "event_object auth data ob \<longleftrightarrow> occ ob \<and> eventSeq (o_attributes ob) \<and> \<not> pqcSeq (o_attributes ob) \<and>
     authPolicy (publicArea ob) = (case auth of Some a \<Rightarrow> a | None \<Rightarrow> []) \<and> hashState ob = map (\<lambda>alg. (alg, data)) hash_algs"

lemma create_event:
  assumes "obj_ok s" "ObjectCreateEventSequence hash_algs auth s = (TPM_RC_SUCCESS, h, s1)"
  shows "obj_ok s1" "\<exists>ob. obj_lookup s1 h = Some ob \<and> event_object auth [] ob" "obj_lookup s h = None"
    "\<And>k. k \<noteq> h \<Longrightarrow> obj_lookup s1 k = obj_lookup s k" "g_DRTMHandle s1 = g_DRTMHandle s"
proof -
  obtain i t where a: "ObjectAllocateSlot s = (Some i, t)"
    using assms(2) by (auto simp: ObjectCreateEventSequence_def AllocateSequenceSlot_def tpm_consts split: prod.splits option.splits)
  note i = a [unfolded ObjectAllocateSlot_Some [OF assms(1)]]
  then have im: "i < MAX_LOADED_OBJECTS" by simp
  have h: "h = handle_of i" using assms(2) a by (simp add: ObjectCreateEventSequence_def AllocateSequenceSlot_def)
  then have sl: "slot_of h = i" using i by (simp add: handle_of_small)
  obtain f where f: "s1 = upd_slot (slot_of h) (\<lambda>_. f) s" "event_object auth [] f"
    using assms(2) a i sl by (auto simp: ObjectCreateEventSequence_def AllocateSequenceSlot_def comp_def event_object_def upd_attr_def
        fresh_object_def ObjectSetInUse_def OBJECT_zero_def OBJECT_ATTRIBUTES_zero_def intro!: that)
  show "obj_ok s1" using assms(1) f by simp
  have m: "slot_of h < MAX_LOADED_OBJECTS" using sl im by simp
  show "\<exists>ob. obj_lookup s1 h = Some ob \<and> event_object auth [] ob"
    using f by (simp add: obj_lookup_upd [OF assms(1) m] event_object_def)
  show "\<And>k. k \<noteq> h \<Longrightarrow> obj_lookup s1 k = obj_lookup s k" using f by (simp add: obj_lookup_upd [OF assms(1) m])
  show "obj_lookup s h = None"
    by (rule obj_alloc_Some(2) [OF assms(1), where t = t]) (simp add: obj_alloc_def a h)
  show "g_DRTMHandle s1 = g_DRTMHandle s" using f by (simp add: upd_slot_def)
qed

lemma update_event:
  assumes "obj_ok s" "obj_lookup s h = Some ob" "event_object auth d ob"
  shows "\<exists>s1 ob1. TPM2_SequenceUpdate h data s = Ret (TPM_RC_SUCCESS, s1) \<and> obj_ok s1 \<and> obj_lookup s1 h = Some ob1 \<and>
    event_object auth (d @ data) ob1 \<and> (\<forall>k. k \<noteq> h \<longrightarrow> obj_lookup s1 k = obj_lookup s k)"
proof -
  note l = HandleToObject_loaded [OF assms(2)]
  have n: "PqcSequenceIsHandle s h = Ret False" using assms(2,3) by (simp add: PqcSequenceIsHandle_eq seq_at_def event_object_def)
  let ?s1 = "upd_slot (slot_of h) (update_hash_object data) s"
  have "TPM2_SequenceUpdate h data s = Ret (TPM_RC_SUCCESS, ?s1)"
    using n l assms(3) by (simp add: TPM2_SequenceUpdate_def ObjectIsSequence_def event_object_def)
  moreover have "event_object auth (d @ data) (update_hash_object data ob)"
    using assms(3) by (simp add: event_object_def update_hash_object_def digest_update_def)
  ultimately show ?thesis
    using assms(1) l by (simp add: obj_lookup_upd event_object_def)
qed

fun sequence_updates :: "TPM_HANDLE \<Rightarrow> bytes list \<Rightarrow> obj_state \<Rightarrow> obj_state outcome" where
  "sequence_updates h [] s = Ret s"
| "sequence_updates h (d # ds) s = obind (TPM2_SequenceUpdate h d s) (\<lambda>(rc, s1). pAssert (rc = TPM_RC_SUCCESS) (sequence_updates h ds s1))"

lemma updates_event:
  assumes "obj_ok s" "obj_lookup s h = Some ob" "event_object auth d ob"
  shows "\<exists>s1 ob1. sequence_updates h ds s = Ret s1 \<and> obj_ok s1 \<and> obj_lookup s1 h = Some ob1 \<and> event_object auth (d @ concat ds) ob1 \<and>
    (\<forall>k. k \<noteq> h \<longrightarrow> obj_lookup s1 k = obj_lookup s k)"
  using assms
proof (induction ds arbitrary: s d ob)
  case (Cons x ds)
  from update_event [OF Cons.prems, of x] obtain s1 ob1 where s1: "TPM2_SequenceUpdate h x s = Ret (TPM_RC_SUCCESS, s1)" "obj_ok s1"
    "obj_lookup s1 h = Some ob1" "event_object auth (d @ x) ob1" "\<forall>k. k \<noteq> h \<longrightarrow> obj_lookup s1 k = obj_lookup s k" by auto
  from Cons.IH [OF s1(2-4)] s1(1,5) show ?case by auto
qed simp

lemma sequence_digests_event:
  "event_object auth d ob \<Longrightarrow> sequence_digests env data (hashState ob) = Ret (event_digests env (d @ data))"
  by (simp add: sequence_digests_def event_object_def event_digests_def digest_update_def zip_map2 comp_def hash_algs_def)

text \<open>
  C35: An event sequence measures like a single event. For every register handle and every partition of the
  data over the updates and the completion, the sequence commands succeed and the completion returns the
  response code and the digests of \<^verbatim>\<open>TPM2_PCR_Event\<close> on the whole data and leaves the registers as that command
  does; other objects are not touched, and when the completion succeeds the end of the command frees the slot.
\<close>

theorem event_sequence_is_event:
  assumes "obj_ok s" "TPM2_HashSequenceStart hash_algs auth TPM_ALG_NULL s = (TPM_RC_SUCCESS, h, s1)"
  shows "\<exists>s2. sequence_updates h ds s1 = Ret s2 \<and>
    (\<exists>s3. TPM2_EventSequenceComplete env pcrHandle h d s2 p = obind (TPM2_PCR_Event env pcrHandle (concat ds @ d) p) (\<lambda>(out, p1). Ret (out, s3, p1)) \<and>
      (\<forall>k. k \<noteq> h \<longrightarrow> obj_lookup s3 k = obj_lookup s k) \<and>
      (no_evict s \<longrightarrow> (case TPM2_PCR_Event env pcrHandle (concat ds @ d) p of Ret ((rc, x), y) \<Rightarrow> rc = TPM_RC_SUCCESS | _ \<Rightarrow> False) \<longrightarrow>
         obj_lookup (ObjectCleanupEvict s3) = obj_lookup s))"
proof -
  have c: "ObjectCreateEventSequence hash_algs (Some auth) s = (TPM_RC_SUCCESS, h, s1)"
    using assms(2) by (simp add: TPM2_HashSequenceStart_def)
  note e = create_event [OF assms(1) c]
  then obtain ob where ob: "obj_lookup s1 h = Some ob" "event_object (Some auth) [] ob" by blast
  from updates_event [OF e(1) ob, of ds] obtain s2 ob2 where s2: "sequence_updates h ds s1 = Ret s2" "obj_ok s2" "obj_lookup s2 h = Some ob2"
      "event_object (Some auth) (concat ds) ob2" "\<And>k. k \<noteq> h \<Longrightarrow> obj_lookup s2 k = obj_lookup s k"
    using e(4) by auto
  note l = HandleToObject_loaded [OF s2(3)]
  have q: "sequence_digests env d (hashState ob2) = Ret (event_digests env (concat ds @ d))" by (rule sequence_digests_event) (rule s2(4))
  have ev: "eventSeq (o_attributes ob2)" using s2(4) by (simp add: event_object_def)
  let ?f = "\<lambda>ob. (upd_attr (evict_update (\<lambda>_. True)) ob)\<lparr>hashState := []\<rparr>"
  let ?bad = "pcrHandle \<noteq> TPM_RH_NULL \<and> (\<not> PCRIsExtendAllowed (v_wide env) (v_locality env) (unat pcrHandle)
      \<or> PCRIsStateSaved (unat pcrHandle) \<and> v_orderly env \<noteq> TPM_RC_SUCCESS)"
  let ?s3 = "if ?bad then s2 else upd_slot (slot_of h) ?f s2"
  have occf: "occ (?f x) = occ x" for x by (simp add: upd_attr_def)
  have oc: "occ ob2" using s2(4) by (simp add: event_object_def)
  have lk: "obj_lookup ?s3 k = (if k = h then Some (if ?bad then ob2 else ?f ob2) else obj_lookup s k)" for k
    using obj_lookup_upd [OF s2(2) l(4), of ?f k] l(3) s2(3,5) oc occf by auto
  have "TPM2_EventSequenceComplete env pcrHandle h d s2 p =
      obind (TPM2_PCR_Event env pcrHandle (concat ds @ d) p) (\<lambda>(out, p1). Ret (out, ?s3, p1))"
    using l q ev by (auto simp: TPM2_EventSequenceComplete_def TPM2_PCR_Event_def obind_assoc)
  moreover have "obj_lookup (ObjectCleanupEvict ?s3) = obj_lookup s"
    if "no_evict s" "case TPM2_PCR_Event env pcrHandle (concat ds @ d) p of Ret ((rc, x), y) \<Rightarrow> rc = TPM_RC_SUCCESS | _ \<Rightarrow> False"
  proof
    fix k
    have nb: "\<not> ?bad" using that(2) by (auto simp: TPM2_PCR_Event_def tpm_consts split: if_splits)
    have ok3: "obj_ok ?s3" using s2(2) by simp
    show "obj_lookup (ObjectCleanupEvict ?s3) k = obj_lookup s k"
      unfolding ObjectCleanupEvict_lookup [OF ok3] lk
      using nb e(3) no_evict_lookup [OF assms(1) that(1), of k] by (auto simp: upd_attr_def split: option.splits)
  qed
  ultimately show ?thesis using s2(1) lk by (intro exI [of _ s2] conjI exI [of _ ?s3]) auto
qed

definition demo_objs :: obj_state where
  "demo_objs = \<lparr>s_objects = replicate MAX_LOADED_OBJECTS OBJECT_zero, g_DRTMHandle = TPM_RH_UNASSIGNED\<rparr>"

lemma demo_objs_ok: "obj_ok demo_objs" "no_evict demo_objs"
  by (simp_all add: demo_objs_def obj_ok_def no_evict_def OBJECT_zero_def OBJECT_ATTRIBUTES_zero_def)

theorem event_sequence_is_event_witness:
  "\<exists>h s1 s2 s3 p1. TPM2_HashSequenceStart hash_algs [7] TPM_ALG_NULL demo_objs = (TPM_RC_SUCCESS, h, s1) \<and>
     sequence_updates h [[1, 2], [3]] s1 = Ret s2 \<and>
     TPM2_PCR_Event demo_penv0 8 [1, 2, 3, 4] demo_pcr = Ret ((TPM_RC_SUCCESS, event_digests demo_penv0 [1, 2, 3, 4]), p1) \<and>
     TPM2_EventSequenceComplete demo_penv0 8 h [4] s2 demo_pcr = Ret ((TPM_RC_SUCCESS, event_digests demo_penv0 [1, 2, 3, 4]), s3, p1)"
proof -
  have "fst (TPM2_HashSequenceStart hash_algs [7] TPM_ALG_NULL demo_objs) = TPM_RC_SUCCESS" by code_simp
  then obtain h s1 where st: "TPM2_HashSequenceStart hash_algs [7] TPM_ALG_NULL demo_objs = (TPM_RC_SUCCESS, h, s1)"
    by (metis prod.collapse)
  have "case TPM2_PCR_Event demo_penv0 8 [1, 2, 3, 4] demo_pcr of Ret ((rc, ds), p) \<Rightarrow> rc = TPM_RC_SUCCESS \<and> ds = event_digests demo_penv0 [1, 2, 3, 4]
      | FailureMode \<Rightarrow> False" by code_simp
  then obtain p1 where p1: "TPM2_PCR_Event demo_penv0 8 [1, 2, 3, 4] demo_pcr = Ret ((TPM_RC_SUCCESS, event_digests demo_penv0 [1, 2, 3, 4]), p1)"
    by (auto split: outcome.splits prod.splits)
  show ?thesis
    using event_sequence_is_event [OF demo_objs_ok(1) st, of "[[1, 2], [3]]" demo_penv0 8 "[4]" demo_pcr] st p1 by auto
qed

section \<open>Dynamic launch\<close>

lemma ObjectCreateEventSequence_cases:
  assumes "obj_ok s"
  obtains h s1 where "ObjectCreateEventSequence algs auth s = (TPM_RC_SUCCESS, h, s1)"
  | "ObjectCreateEventSequence algs auth s = (TPM_RC_OBJECT_MEMORY, 0, s)" "\<forall>ob \<in> set (s_objects s). occ ob"
proof (cases "fst (ObjectAllocateSlot s)")
  case None
  then obtain t where "ObjectAllocateSlot s = (None, t)" by (metis prod.collapse)
  then show ?thesis using that(2) ObjectAllocateSlot_None [of s t] by (simp add: ObjectCreateEventSequence_def AllocateSequenceSlot_def)
next
  case (Some i)
  then obtain t where "ObjectAllocateSlot s = (Some i, t)" by (metis prod.collapse)
  then show ?thesis using that(1) by (simp add: ObjectCreateEventSequence_def AllocateSequenceSlot_def)
qed

lemma TPM_Hash_Start_spec:
  assumes "obj_ok s" "g_DRTMHandle s = TPM_RH_UNASSIGNED \<or> obj_lookup s (g_DRTMHandle s) \<noteq> None"
  shows "\<exists>s1 h ob. TPM_Hash_Start s = Ret s1 \<and> obj_ok s1 \<and> g_DRTMHandle s1 = h \<and> obj_lookup s1 h = Some ob \<and> event_object None [] ob"
proof -
  have "\<exists>t. (if g_DRTMHandle s \<noteq> TPM_RH_UNASSIGNED
            then obind (FlushObject (g_DRTMHandle s) s) (\<lambda>s1. Ret (s1\<lparr>g_DRTMHandle := TPM_RH_UNASSIGNED\<rparr>)) else Ret s) = Ret t \<and> obj_ok t"
    using assms by (auto simp: FlushObject_def obj_lookup_Some obj_ok_def upd_slot_def)
  then obtain t where t: "(if g_DRTMHandle s \<noteq> TPM_RH_UNASSIGNED
            then obind (FlushObject (g_DRTMHandle s) s) (\<lambda>s1. Ret (s1\<lparr>g_DRTMHandle := TPM_RH_UNASSIGNED\<rparr>)) else Ret s) = Ret t" "obj_ok t" by blast
  have lk: "obj_lookup (u\<lparr>g_DRTMHandle := x\<rparr>) k = obj_lookup u k" "obj_ok (u\<lparr>g_DRTMHandle := x\<rparr>) = obj_ok u" for u x k
    by (simp_all add: obj_lookup_def IsObjectPresent_def obj_ok_def)
  from t(2) show ?thesis
  proof (cases rule: ObjectCreateEventSequence_cases [where algs = hash_algs and auth = None])
    case (1 h s1)
    then show ?thesis using create_event [OF t(2) 1] t(1) lk by (auto simp: TPM_Hash_Start_def)
  next
    case 2
    have m: "0 < MAX_LOADED_OBJECTS" "slot_of (handle_of 0) = 0" by (simp_all add: MAX_LOADED_OBJECTS_def handle_of_small)
    have "occ (s_objects t ! 0)" using 2(2) t(2) m(1) by (auto simp: obj_ok_def all_set_conv_all_nth)
    then have p: "present_handle t = Some (handle_of 0)"
      using m by (simp add: present_handle_def IsObjectPresent_def MAX_LOADED_OBJECTS_def numeral_2_eq_2 upt_rec)
    let ?t = "upd_slot 0 (upd_attr (\<lambda>_. OBJECT_ATTRIBUTES_zero)) t"
    have f: "FlushObject (handle_of 0) t = Ret ?t" "obj_ok ?t" using m t(2) by (simp_all add: FlushObject_def)
    have "\<not> occ (s_objects ?t ! 0)" using t(2) m(1) by (simp add: upd_slot_nth obj_ok_def upd_attr_def OBJECT_ATTRIBUTES_zero_def)
    moreover have "s_objects ?t ! 0 \<in> set (s_objects ?t)" using f(2) m(1) by (simp add: obj_ok_def)
    ultimately have n: "\<not> (\<forall>ob \<in> set (s_objects ?t). occ ob)" by blast
    from f(2) show ?thesis
    proof (cases rule: ObjectCreateEventSequence_cases [where algs = hash_algs and auth = None])
      case (1 h s1)
      then show ?thesis using create_event [OF f(2) 1] t(1) lk 2(1) p f(1) by (auto simp: TPM_Hash_Start_def tpm_consts)
    next
      case 2
      then show ?thesis using n by simp
    qed
  qed
qed

definition drtm_object :: "pcr_state \<Rightarrow> bytes \<Rightarrow> OBJECT \<Rightarrow> bool" where
  "drtm_object p data ob \<longleftrightarrow> occ ob \<and> eventSeq (o_attributes ob) \<and>
     hashState ob = map (\<lambda>alg. (alg, if PcrIsAllocated p (drtm_pcr p) alg then data else [])) hash_algs"

fun hash_data :: "bytes list \<Rightarrow> pcr_state \<Rightarrow> obj_state \<Rightarrow> obj_state outcome" where
  "hash_data [] p s = Ret s"
| "hash_data (d # ds) p s = obind (TPM_Hash_Data d p s) (hash_data ds p)"

lemma hash_data_spec:
  assumes "obj_ok s" "obj_lookup s (g_DRTMHandle s) = Some ob" "drtm_object p d ob"
  shows "\<exists>s1 ob1. hash_data ds p s = Ret s1 \<and> obj_ok s1 \<and> g_DRTMHandle s1 = g_DRTMHandle s \<and> obj_lookup s1 (g_DRTMHandle s) = Some ob1 \<and>
    drtm_object p (d @ concat ds) ob1"
  using assms
proof (induction ds arbitrary: s d ob)
  case (Cons x ds)
  note l = HandleToObject_loaded [OF Cons.prems(2)]
  let ?f = "\<lambda>ob. ob\<lparr>hashState := map (\<lambda>st. if PcrIsAllocated p (drtm_pcr p) (fst st) then digest_update x st else st) (hashState ob)\<rparr>"
  let ?s1 = "upd_slot (slot_of (g_DRTMHandle s)) ?f s"
  have h: "TPM_Hash_Data x p s = Ret ?s1"
    using l Cons.prems(3) slot_handle_type(4) [OF l(4)] by (simp add: TPM_Hash_Data_def drtm_object_def)
  have g: "g_DRTMHandle ?s1 = g_DRTMHandle s" by (simp add: upd_slot_def)
  have o: "obj_lookup ?s1 (g_DRTMHandle ?s1) = Some (?f ob)" "drtm_object p (d @ x) (?f ob)"
    using Cons.prems l by (auto simp: g obj_lookup_upd drtm_object_def digest_update_def)
  have "obj_ok ?s1" using Cons.prems(1) by simp
  from Cons.IH [OF this o] show ?case using h by (simp add: g)
qed simp

lemma drtm_digests:
  assumes "drtm_object p d ob"
  shows "\<exists>ds. sequence_digests env [] (hashState ob) = Ret ds \<and>
    (\<forall>alg. alg \<in> set hash_algs \<longrightarrow> PcrIsAllocated p (drtm_pcr p) alg \<longrightarrow> map_of ds alg = Some (v_hash env alg d))"
  using assms by (simp add: sequence_digests_def drtm_object_def digest_update_def hash_algs_def)

section \<open>Registers at the end of a launch\<close>

definition dynamic_pcr :: "nat \<Rightarrow> bool" where
  "dynamic_pcr pcr \<longleftrightarrow> resetLocality (platPcr_GetPcrInitializationAttributes pcr) AND 0x10 \<noteq> 0"

definition frame_pcr :: "pcr_state \<Rightarrow> pcr_state \<Rightarrow> bool" where
  "frame_pcr p q \<longleftrightarrow> pcrAllocated q = pcrAllocated p \<and> p_started q = p_started p \<and> g_DrtmPreStartup q = g_DrtmPreStartup p"

lemma frame_alloc: "frame_pcr p q \<Longrightarrow> PcrIsAllocated q pcr alg = PcrIsAllocated p pcr alg"
  by (simp add: frame_pcr_def PcrIsAllocated_def)

lemma reset_banks:
  assumes "fst ` set bs \<subseteq> set hash_algs"
  shows "\<exists>u'. ofold (\<lambda>bank s. obind (GetPcrPointer s (fst bank) pcr) (\<lambda>here.
       Ret (if here \<and> dyn then set_pcr (fst bank) pcr (replicate (CryptHashGetDigestSize (fst bank)) 0) s else s))) bs u = Ret u' \<and>
      frame_pcr u u' \<and> p_pcrCounter u' = p_pcrCounter u \<and>
      (\<forall>alg q. s_pcrs u' alg q = (if dyn \<and> q = pcr \<and> alg \<in> fst ` set bs \<and> PcrIsAllocated u pcr alg
         then replicate (CryptHashGetDigestSize alg) 0 else s_pcrs u alg q))"
  using assms
proof (induction bs arbitrary: u)
  case (Cons x bs)
  let ?v = "if PcrIsAllocated u pcr (fst x) \<and> dyn then set_pcr (fst x) pcr (replicate (CryptHashGetDigestSize (fst x)) 0) u else u"
  have g: "GetPcrPointer u (fst x) pcr = Ret (PcrIsAllocated u pcr (fst x))" using Cons.prems by (auto intro: GetPcrPointer_allocated)
  have v: "frame_pcr u ?v" "p_pcrCounter ?v = p_pcrCounter u" by (simp_all add: frame_pcr_def)
  have sub: "fst ` set bs \<subseteq> set hash_algs" using Cons.prems(1) by simp
  from Cons.IH [OF sub, of ?v]
  obtain w where w: "ofold (\<lambda>bank s. obind (GetPcrPointer s (fst bank) pcr) (\<lambda>here.
       Ret (if here \<and> dyn then set_pcr (fst bank) pcr (replicate (CryptHashGetDigestSize (fst bank)) 0) s else s))) bs ?v = Ret w"
    "frame_pcr ?v w" "p_pcrCounter w = p_pcrCounter u"
    "\<And>alg q. s_pcrs w alg q = (if dyn \<and> q = pcr \<and> alg \<in> fst ` set bs \<and> PcrIsAllocated u pcr alg
         then replicate (CryptHashGetDigestSize alg) 0 else s_pcrs ?v alg q)"
    unfolding frame_alloc [OF v(1)] v(2) by blast
  have "frame_pcr u w" using v(1) w(2) by (auto simp: frame_pcr_def)
  moreover have "s_pcrs w alg q = (if dyn \<and> q = pcr \<and> alg \<in> fst ` set (x # bs) \<and> PcrIsAllocated u pcr alg
         then replicate (CryptHashGetDigestSize alg) 0 else s_pcrs u alg q)" for alg q
    using w(4) [of alg q] by (cases "PcrIsAllocated u pcr (fst x) \<and> dyn") (auto simp: set_pcr_value)
  ultimately show ?case using w(1,3) g by auto
qed (simp add: frame_pcr_def)

lemma reset_dynamics:
  assumes "allocated_banks p"
  shows "\<exists>p'. PCRResetDynamics p = Ret p' \<and> frame_pcr p p' \<and> p_pcrCounter p' = p_pcrCounter p \<and>
    (\<forall>alg q. s_pcrs p' alg q = (if dynamic_pcr q \<and> PcrIsAllocated p q alg then replicate (CryptHashGetDigestSize alg) 0 else s_pcrs p alg q))"
proof -
  let ?b = "\<lambda>pcr s. ofold (\<lambda>bank s. obind (GetPcrPointer s (fst bank) pcr) (\<lambda>here.
     Ret (if here \<and> dynamic_pcr pcr then set_pcr (fst bank) pcr (replicate (CryptHashGetDigestSize (fst bank)) 0) s else s))) (pcrAllocated s) s"
  have "\<exists>p'. ofold ?b [0..<n] p = Ret p' \<and> frame_pcr p p' \<and> p_pcrCounter p' = p_pcrCounter p \<and>
    (\<forall>alg q. s_pcrs p' alg q = (if q < n \<and> dynamic_pcr q \<and> PcrIsAllocated p q alg then replicate (CryptHashGetDigestSize alg) 0 else s_pcrs p alg q))" for n
  proof (induction n)
    case (Suc n)
    then obtain p' where p': "ofold ?b [0..<n] p = Ret p'" "frame_pcr p p'" "p_pcrCounter p' = p_pcrCounter p"
      "\<And>alg q. s_pcrs p' alg q = (if q < n \<and> dynamic_pcr q \<and> PcrIsAllocated p q alg then replicate (CryptHashGetDigestSize alg) 0 else s_pcrs p alg q)" by blast
    have b: "fst ` set (pcrAllocated p') \<subseteq> set hash_algs" using assms p'(2) by (simp add: allocated_banks_def frame_pcr_def)
    from reset_banks [OF b, of n "dynamic_pcr n" p'] frame_alloc [OF p'(2)] p'(3)
    obtain w where w: "?b n p' = Ret w" "frame_pcr p' w" "p_pcrCounter w = p_pcrCounter p"
      "\<And>alg q. s_pcrs w alg q = (if dynamic_pcr n \<and> q = n \<and> alg \<in> fst ` set (pcrAllocated p') \<and> PcrIsAllocated p n alg
         then replicate (CryptHashGetDigestSize alg) 0 else s_pcrs p' alg q)" by auto
    have "frame_pcr p w" using p'(2) w(2) by (auto simp: frame_pcr_def)
    moreover have "s_pcrs w alg q = (if q < Suc n \<and> dynamic_pcr q \<and> PcrIsAllocated p q alg
        then replicate (CryptHashGetDigestSize alg) 0 else s_pcrs p alg q)" for alg q
      using w(4) [of alg q] p'(4) [of alg q] PcrIsAllocated_bank [of p n alg] p'(2) by (cases "q = n") (auto simp: frame_pcr_def)
    ultimately show ?case using p'(1) w(1,3) by (auto simp only: ofold_upt_Suc obind.simps)
  qed (simp add: frame_pcr_def)
  from this [of IMPLEMENTATION_PCR] obtain p' where p': "ofold ?b [0..<IMPLEMENTATION_PCR] p = Ret p'" "frame_pcr p p'" "p_pcrCounter p' = p_pcrCounter p"
      "\<And>alg q. s_pcrs p' alg q = (if q < IMPLEMENTATION_PCR \<and> dynamic_pcr q \<and> PcrIsAllocated p q alg
         then replicate (CryptHashGetDigestSize alg) 0 else s_pcrs p alg q)" by blast
  have "PCRResetDynamics p = Ret p'" using p'(1) by (simp add: PCRResetDynamics_def dynamic_pcr_def)
  moreover have "q < IMPLEMENTATION_PCR" if "PcrIsAllocated p q alg" for q alg using that by (simp add: PcrIsAllocated_def)
  ultimately show ?thesis using p'(2-4) by auto
qed

definition launch_start :: "pcr_state \<Rightarrow> bytes \<Rightarrow> bytes" where
  "launch_start p digest = (let z = replicate (length digest) 0 in if p_started p then z else set_last 4 z)"

lemma PcrDrtm_spec:
  assumes "alg \<in> set hash_algs" "PcrIsAllocated p pcr alg" "unat (p_pcrCounter p) < 2 ^ 32 - 1"
  shows "\<exists>p'. PcrDrtm H pcr alg d p = Ret p' \<and> frame_pcr p p' \<and> unat (p_pcrCounter p') \<le> unat (p_pcrCounter p) + 1 \<and>
    (\<forall>a q. s_pcrs p' a q = (if a = alg \<and> q = pcr then H alg (launch_start p d @ d) else s_pcrs p a q))"
proof -
  let ?t = "set_pcr alg pcr (launch_start p d) p"
  let ?u = "set_pcr alg pcr (H alg (s_pcrs ?t alg pcr @ d)) ?t"
  have al: "PcrIsAllocated ?t pcr alg" using assms(2) by (simp add: PcrIsAllocated_def)
  have e: "PcrDrtm H pcr alg d p = PCRChanged pcr ?u"
    using assms(1,2) al by (simp add: PcrDrtm_def GetPcrPointer_allocated launch_start_def Let_def PCRExtend_def)
  have c: "unat (p_pcrCounter ?u) < 2 ^ 32 - 1" using assms(3) by simp
  obtain p' where p': "PCRChanged pcr ?u = Ret p'" "unat (p_pcrCounter p') \<le> unat (p_pcrCounter p) + 1"
    using PCRChanged_small [OF c, of pcr] by auto
  then show ?thesis
    using e PCRChanged_Ret [OF p'(1)] by (auto simp: frame_pcr_def set_pcr_value)
qed

lemma drtm_loop:
  assumes "set as' \<subseteq> set hash_algs" "distinct as'" "unat (p_pcrCounter p) + length as' < 2 ^ 32"
  shows "\<exists>p'. ofold (\<lambda>alg s. if PcrIsAllocated s pcr alg then PcrDrtm H pcr alg (d alg) s else Ret s) as' p = Ret p' \<and> frame_pcr p p' \<and>
    (\<forall>a q. s_pcrs p' a q = (if a \<in> set as' \<and> q = pcr \<and> PcrIsAllocated p pcr a then H a (launch_start p (d a) @ d a) else s_pcrs p a q))"
  using assms
proof (induction as' arbitrary: p)
  case (Cons x xs)
  have "\<exists>t. (if PcrIsAllocated p pcr x then PcrDrtm H pcr x (d x) p else Ret p) = Ret t \<and> frame_pcr p t \<and>
      unat (p_pcrCounter t) \<le> unat (p_pcrCounter p) + 1 \<and>
      (\<forall>a q. s_pcrs t a q = (if a = x \<and> q = pcr \<and> PcrIsAllocated p pcr x then H x (launch_start p (d x) @ d x) else s_pcrs p a q))"
    using PcrDrtm_spec [of x p pcr H "d x"] Cons.prems(1,3) by (cases "PcrIsAllocated p pcr x") (auto simp: frame_pcr_def)
  then obtain t where t: "(if PcrIsAllocated p pcr x then PcrDrtm H pcr x (d x) p else Ret p) = Ret t" "frame_pcr p t"
      "unat (p_pcrCounter t) \<le> unat (p_pcrCounter p) + 1"
      "\<And>a q. s_pcrs t a q = (if a = x \<and> q = pcr \<and> PcrIsAllocated p pcr x then H x (launch_start p (d x) @ d x) else s_pcrs p a q)" by blast
  have l: "launch_start t = launch_start p" using t(2) by (auto simp: launch_start_def frame_pcr_def)
  have "set xs \<subseteq> set hash_algs" "distinct xs" "unat (p_pcrCounter t) + length xs < 2 ^ 32" using Cons.prems t(3) by auto
  from Cons.IH [OF this] obtain w where w: "ofold (\<lambda>alg s. if PcrIsAllocated s pcr alg then PcrDrtm H pcr alg (d alg) s else Ret s) xs t = Ret w"
      "frame_pcr t w" "\<And>a q. s_pcrs w a q = (if a \<in> set xs \<and> q = pcr \<and> PcrIsAllocated p pcr a then H a (launch_start p (d a) @ d a) else s_pcrs t a q)"
    unfolding l frame_alloc [OF t(2)] by blast
  have "frame_pcr p w" using t(2) w(2) by (simp add: frame_pcr_def)
  moreover have "x \<notin> set xs" using Cons.prems(2) by simp
  ultimately show ?case using t(1,4) w(1,3) by (auto simp: obind_Ret_iff)
qed (simp add: frame_pcr_def)

lemma hash_end_spec:
  assumes "allocated_banks p" "unat (p_pcrCounter p) + 4 < 2 ^ 32"
  shows "\<exists>p'. hash_end_pcrs env d p = Ret p' \<and> p_started p' = p_started p \<and> (\<not> p_started p \<longrightarrow> PCR_Banks.g_DrtmPreStartup p') \<and>
    (\<forall>alg q. s_pcrs p' alg q =
       (if alg \<in> set hash_algs \<and> q = drtm_pcr p \<and> PcrIsAllocated p q alg then v_hash env alg (launch_start p (d alg) @ d alg)
        else if p_started p \<and> dynamic_pcr q \<and> PcrIsAllocated p q alg then replicate (CryptHashGetDigestSize alg) 0
        else s_pcrs p alg q))"
proof -
  have ha: "set hash_algs \<subseteq> set hash_algs" "distinct hash_algs" "length hash_algs = 4" by (simp_all add: hash_algs_def tpm_consts)
  have "\<exists>t. (if p_started p then obind (PCRResetDynamics p) (\<lambda>s1. Ret (s1\<lparr>p_restartCount := p_restartCount s1 + 1\<rparr>))
             else Ret (p\<lparr>PCR_Banks.g_DrtmPreStartup := True\<rparr>)) = Ret t \<and> pcrAllocated t = pcrAllocated p \<and> p_started t = p_started p \<and>
      (\<not> p_started p \<longrightarrow> PCR_Banks.g_DrtmPreStartup t) \<and> p_pcrCounter t = p_pcrCounter p \<and>
      (\<forall>alg q. s_pcrs t alg q = (if p_started p \<and> dynamic_pcr q \<and> PcrIsAllocated p q alg then replicate (CryptHashGetDigestSize alg) 0 else s_pcrs p alg q))"
    using reset_dynamics [OF assms(1)] by (cases "p_started p") (auto simp: frame_pcr_def)
  then obtain t where t: "(if p_started p then obind (PCRResetDynamics p) (\<lambda>s1. Ret (s1\<lparr>p_restartCount := p_restartCount s1 + 1\<rparr>))
             else Ret (p\<lparr>PCR_Banks.g_DrtmPreStartup := True\<rparr>)) = Ret t" "pcrAllocated t = pcrAllocated p" "p_started t = p_started p"
      "\<not> p_started p \<longrightarrow> PCR_Banks.g_DrtmPreStartup t" "p_pcrCounter t = p_pcrCounter p"
      "\<And>alg q. s_pcrs t alg q = (if p_started p \<and> dynamic_pcr q \<and> PcrIsAllocated p q alg then replicate (CryptHashGetDigestSize alg) 0 else s_pcrs p alg q)"
    by blast
  have c: "unat (p_pcrCounter t) + length hash_algs < 2 ^ 32" using assms(2) t(5) ha(3) by simp
  have l: "launch_start t = launch_start p" using t(3) by (auto simp: launch_start_def)
  have a: "PcrIsAllocated t q alg = PcrIsAllocated p q alg" for q alg by (rule PcrIsAllocated_cong) (rule t(2))
  from drtm_loop [OF ha(1,2) c, of "drtm_pcr p" "v_hash env" d]
  obtain w where w: "ofold (\<lambda>alg s. if PcrIsAllocated s (drtm_pcr p) alg then PcrDrtm (v_hash env) (drtm_pcr p) alg (d alg) s else Ret s) hash_algs t = Ret w"
      "frame_pcr t w" "\<And>alg q. s_pcrs w alg q = (if alg \<in> set hash_algs \<and> q = drtm_pcr p \<and> PcrIsAllocated p (drtm_pcr p) alg
        then v_hash env alg (launch_start p (d alg) @ d alg) else s_pcrs t alg q)"
    unfolding l a by blast
  have "hash_end_pcrs env d p = Ret w" using t(1) w(1) unfolding hash_end_pcrs_def Let_def drtm_pcr_def by (cases "p_started p") simp_all
  then show ?thesis using t(3,4,6) w(2,3) by (auto simp: frame_pcr_def)
qed

lemma hash_end_cong:
  assumes "\<And>alg. alg \<in> set hash_algs \<Longrightarrow> PcrIsAllocated p (drtm_pcr p) alg \<Longrightarrow> d alg = e alg" "allocated_banks p" "unat (p_pcrCounter p) + 4 < 2 ^ 32"
    and "hash_end_pcrs env d p = Ret p'"
  shows "s_pcrs p' alg q =
       (if alg \<in> set hash_algs \<and> q = drtm_pcr p \<and> PcrIsAllocated p q alg then v_hash env alg (launch_start p (e alg) @ e alg)
        else if p_started p \<and> dynamic_pcr q \<and> PcrIsAllocated p q alg then replicate (CryptHashGetDigestSize alg) 0
        else s_pcrs p alg q)"
  using hash_end_spec [OF assms(2,3), of env d] assms(1,4) by auto

text \<open>
  C34: A dynamic launch is measured. In every state of the object slots, also a full one, the indications start,
  data and end go through; afterwards the sequence is gone, and in every allocated bank the launch register is
  the hash of its start value and the digest of all the data. After startup this is PCR 17 from zero, and
  all other registers that locality 4 resets are zero; before startup it is PCR 0 from the value 4. Every other
  register is as it was.
\<close>

theorem dynamic_launch_measured:
  assumes "obj_ok s" "g_DRTMHandle s = TPM_RH_UNASSIGNED \<or> obj_lookup s (g_DRTMHandle s) \<noteq> None"
    and "allocated_banks p" "unat (p_pcrCounter p) + 4 < 2 ^ 32"
  shows "\<exists>s1 s2 s3 p'. TPM_Hash_Start s = Ret s1 \<and> hash_data ds p s1 = Ret s2 \<and> TPM_Hash_End env s2 p = Ret (s3, p') \<and>
    g_DRTMHandle s3 = TPM_RH_UNASSIGNED \<and>
    (\<forall>alg q. s_pcrs p' alg q =
       (if q = drtm_pcr p \<and> PcrIsAllocated p q alg then
          let digest = v_hash env alg (concat ds); z = replicate (length digest) 0
          in v_hash env alg ((if p_started p then z else set_last 4 z) @ digest)
        else if p_started p \<and> dynamic_pcr q \<and> PcrIsAllocated p q alg then replicate (CryptHashGetDigestSize alg) 0
        else s_pcrs p alg q))"
proof -
  from TPM_Hash_Start_spec [OF assms(1,2)] obtain s1 ob where s1: "TPM_Hash_Start s = Ret s1" "obj_ok s1" "obj_lookup s1 (g_DRTMHandle s1) = Some ob"
    "event_object None [] ob" by blast
  have "drtm_object p [] ob" using s1(4) by (simp add: event_object_def drtm_object_def)
  from hash_data_spec [OF s1(2,3) this, of ds] obtain s2 ob2 where s2: "hash_data ds p s1 = Ret s2" "obj_ok s2" "g_DRTMHandle s2 = g_DRTMHandle s1"
    "obj_lookup s2 (g_DRTMHandle s2) = Some ob2" "drtm_object p (concat ds) ob2" by auto
  note l = HandleToObject_loaded [OF s2(4)]
  from drtm_digests [OF s2(5), of env] obtain dg where dg: "sequence_digests env [] (hashState ob2) = Ret dg"
    "\<And>alg. alg \<in> set hash_algs \<Longrightarrow> PcrIsAllocated p (drtm_pcr p) alg \<Longrightarrow> map_of dg alg = Some (v_hash env alg (concat ds))" by blast
  let ?d = "\<lambda>alg. case map_of dg alg of Some d \<Rightarrow> d | None \<Rightarrow> []"
  from hash_end_spec [OF assms(3,4), of env ?d] obtain p' where p': "hash_end_pcrs env ?d p = Ret p'" by blast
  have v: "s_pcrs p' alg q =
       (if alg \<in> set hash_algs \<and> q = drtm_pcr p \<and> PcrIsAllocated p q alg
        then v_hash env alg (launch_start p (v_hash env alg (concat ds)) @ v_hash env alg (concat ds))
        else if p_started p \<and> dynamic_pcr q \<and> PcrIsAllocated p q alg then replicate (CryptHashGetDigestSize alg) 0
        else s_pcrs p alg q)" for alg q
    by (rule hash_end_cong [OF _ assms(3,4) p']) (use dg(2) in simp)
  have f: "FlushObject (g_DRTMHandle s2) s2 = Ret (upd_slot (slot_of (g_DRTMHandle s2)) (upd_attr (\<lambda>_. OBJECT_ATTRIBUTES_zero)) s2)"
    using l(4) by (simp add: FlushObject_def)
  let ?s3 = "(upd_slot (slot_of (g_DRTMHandle s2)) (upd_attr (\<lambda>_. OBJECT_ATTRIBUTES_zero)) s2)\<lparr>g_DRTMHandle := TPM_RH_UNASSIGNED\<rparr>"
  have "TPM_Hash_End env s2 p = Ret (?s3, p')"
    using slot_handle_type(4) [OF l(4)] l(1,2) dg(1) p' f by (simp add: TPM_Hash_End_def)
  moreover have "alg \<in> set hash_algs" if "PcrIsAllocated p q alg" for q alg
    using PcrIsAllocated_bank [OF that] assms(3) by (auto simp: allocated_banks_def)
  ultimately show ?thesis
    using s1(1) s2(1) v
    by (intro exI [of _ s1] exI [of _ s2] exI [of _ ?s3] exI [of _ p'] conjI allI) (auto simp: launch_start_def Let_def)
qed

theorem dynamic_launch_measured_witness:
  "\<exists>s1 s2 s3 p'. TPM_Hash_Start demo_objs = Ret s1 \<and> hash_data [[1, 2], [3]] demo_pcr s1 = Ret s2 \<and>
    TPM_Hash_End demo_penv0 s2 demo_pcr = Ret (s3, p') \<and> s_pcrs p' TPM_ALG_SHA256 17 = replicate 32 64 \<and> s_pcrs p' TPM_ALG_SHA256 18 = replicate 32 0"
proof -
  have a: "obj_ok demo_objs" "g_DRTMHandle demo_objs = TPM_RH_UNASSIGNED \<or> obj_lookup demo_objs (g_DRTMHandle demo_objs) \<noteq> None"
    by (simp_all add: demo_objs_def obj_ok_def)
  have "p_pcrCounter demo_pcr = 1" by code_simp
  then have b: "allocated_banks demo_pcr" "unat (p_pcrCounter demo_pcr) + 4 < 2 ^ 32" by (code_simp, simp)
  have c: "drtm_pcr demo_pcr = 17" "p_started demo_pcr" "PcrIsAllocated demo_pcr 17 TPM_ALG_SHA256" "PcrIsAllocated demo_pcr 18 TPM_ALG_SHA256"
    "dynamic_pcr 18" "CryptHashGetDigestSize TPM_ALG_SHA256 = 32" "v_hash demo_penv0 TPM_ALG_SHA256 (replicate 32 0 @ replicate 32 3) = replicate 32 64"
    "v_hash demo_penv0 TPM_ALG_SHA256 (concat [[1, 2], [3]]) = replicate 32 3" by code_simp+
  note m = dynamic_launch_measured [OF a b, of "[[1, 2], [3]]" demo_penv0]
  show ?thesis
  proof (rule exE [OF m], elim exE conjE)
    fix s1 s2 s3 p'
    assume r: "TPM_Hash_Start demo_objs = Ret s1" "hash_data [[1, 2], [3]] demo_pcr s1 = Ret s2" "TPM_Hash_End demo_penv0 s2 demo_pcr = Ret (s3, p')"
      and v: "\<forall>alg q. s_pcrs p' alg q =
       (if q = drtm_pcr demo_pcr \<and> PcrIsAllocated demo_pcr q alg then
          let digest = v_hash demo_penv0 alg (concat [[1, 2], [3]]); z = replicate (length digest) 0
          in v_hash demo_penv0 alg ((if p_started demo_pcr then z else set_last 4 z) @ digest)
        else if p_started demo_pcr \<and> dynamic_pcr q \<and> PcrIsAllocated demo_pcr q alg then replicate (CryptHashGetDigestSize alg) 0
        else s_pcrs demo_pcr alg q)"
    have "s_pcrs p' TPM_ALG_SHA256 17 = replicate 32 64" unfolding v [rule_format] using c by (simp add: Let_def)
    moreover have "s_pcrs p' TPM_ALG_SHA256 18 = replicate 32 0" unfolding v [rule_format] using c by simp
    ultimately show ?thesis using r by (intro exI conjI)
  qed
qed

end
