(* ===== verification/Entity_Access.thy ===== *)
theory Entity_Access
  imports Policy_Check PCR_Commands Pqc_Sequences DA_Time
begin

text \<open>
  Entities, \<^verbatim>\<open>Entity.c\<close>: what a handle of any type gives access to. The state joins the states of the
  components. A lookup of an NV index goes through the cache of \<^verbatim>\<open>NvGetIndexInfo\<close>; where only its answer
  matters, the cache is left as it was. The build has no ACT and no vendor authorization handle.
\<close>

section \<open>State\<close>

record world =
  w_hs :: hier_state
  w_objs :: obj_state
  w_nv :: nv_state
  w_pcr :: pcr_state
  w_sess :: sess_state
  w_da :: tpm
  g_exclusiveAuditSession :: TPM_HANDLE
  commandAuditDigest :: bytes
  auditCounter :: u64
  auditHashAlg :: TPM_ALG_ID
  w_cpHash :: "(TPM_ALG_ID \<times> bytes) list"

definition TPM_HT_EXTERNAL_NV :: u8 where [tpm_consts]: "TPM_HT_EXTERNAL_NV = 0x11"
definition TPM_HT_PERMANENT_NV :: u8 where [tpm_consts]: "TPM_HT_PERMANENT_NV = 0x12"
definition TPM_RH_AUTH_00 :: TPM_HANDLE where [tpm_consts]: "TPM_RH_AUTH_00 = 0x40000010"
definition TPM_RH_AUTH_FF :: TPM_HANDLE where [tpm_consts]: "TPM_RH_AUTH_FF = 0x4000010F"
definition TPM_ALG_ERROR :: TPM_ALG_ID where [tpm_consts]: "TPM_ALG_ERROR = 0x0000"

text \<open>The array \<^verbatim>\<open>g_rcIndex\<close>.\<close>

definition g_rcIndex :: "nat \<Rightarrow> TPM_RC" where
  "g_rcIndex i = word_of_nat (Suc i) * TPM_RC_1"

section \<open>Lookups\<close>

definition nv_entity :: "world \<Rightarrow> TPM_HANDLE \<Rightarrow> NV_INDEX option outcome" where
  "nv_entity w h = obind (NvGetIndexInfo h (w_nv w)) (\<lambda>(loc, s). Ret (if loc = None then None else Some (s_cachedNvIndex s)))"

definition nv_index :: "world \<Rightarrow> TPM_HANDLE \<Rightarrow> NV_INDEX outcome" where
  "nv_index w h = obind (nv_entity w h) (\<lambda>ix. case ix of None \<Rightarrow> FailureMode | Some x \<Rightarrow> Ret x)"

definition object_at :: "world \<Rightarrow> TPM_HANDLE \<Rightarrow> OBJECT outcome" where
  "object_at w h = obind (HandleToObject (w_objs w) h) (\<lambda>p. deref (w_objs w) p)"

definition session_at :: "world \<Rightarrow> TPM_HANDLE \<Rightarrow> SESSION outcome" where
  "session_at w h = obind (SessionGet (w_sess w) h) (\<lambda>k. Ret (session (s_sessions (w_sess w) ! k)))"

definition update_session :: "TPM_HANDLE \<Rightarrow> (SESSION \<Rightarrow> SESSION) \<Rightarrow> world \<Rightarrow> world outcome" where
  "update_session h f w = obind (SessionGet (w_sess w) h) (\<lambda>k. let ss = w_sess w in
     Ret (w\<lparr>w_sess := ss\<lparr>s_sessions := (s_sessions ss)[k := (s_sessions ss ! k)\<lparr>session := f (session (s_sessions ss ! k))\<rparr>]\<rparr>\<rparr>))"

section \<open>Entity functions\<close>

definition session_status :: "bool \<Rightarrow> world \<Rightarrow> TPM_HANDLE \<Rightarrow> TPM_RC outcome" where
  "session_status policy w h = obind (SessionIsLoaded (w_sess w) h) (\<lambda>loaded.
     if loaded then obind (session_at w h) (\<lambda>se. Ret (if isPolicy (attributes se) \<noteq> policy then TPM_RC_HANDLE else TPM_RC_SUCCESS))
     else Ret TPM_RC_REFERENCE_H0)"

text \<open>The load status of one handle, with the handle that stands for it from then on. \<open>stored\<close> is the persistent object that NV memory holds.\<close>

definition handle_status ::
  "(TPM_HANDLE \<Rightarrow> OBJECT option) \<Rightarrow> TPM_CC \<Rightarrow> TPM_HANDLE \<Rightarrow> world \<Rightarrow> (TPM_RC \<times> TPM_HANDLE \<times> world) outcome" where
  "handle_status stored cc h w =
     (let t = HandleGetType h in
      if t = TPM_HT_PERMANENT then
        Ret (if h = TPM_RS_PW \<or> h = TPM_RH_LOCKOUT then TPM_RC_SUCCESS
             else if TPM_RH_AUTH_00 \<le> h \<and> h \<le> TPM_RH_AUTH_FF then TPM_RC_VALUE
             else ValidateHierarchy (w_hs w) h, h, w)
      else if t = TPM_HT_TRANSIENT then Ret (if IsObjectPresent (w_objs w) h then TPM_RC_SUCCESS else TPM_RC_REFERENCE_H0, h, w)
      else if t = TPM_HT_PERSISTENT then
        (case ObjectLoadEvict stored (w_hs w) cc h (w_objs w) of (rc, h1, s) \<Rightarrow> Ret (rc, h1, w\<lparr>w_objs := s\<rparr>))
      else if t = TPM_HT_HMAC_SESSION then obind (session_status False w h) (\<lambda>rc. Ret (rc, h, w))
      else if t = TPM_HT_POLICY_SESSION then obind (session_status True w h) (\<lambda>rc. Ret (rc, h, w))
      else if t = TPM_HT_NV_INDEX then obind (NvIndexIsAccessible (w_hs w) h (w_nv w)) (\<lambda>(rc, nv). Ret (rc, h, w\<lparr>w_nv := nv\<rparr>))
      else if t = TPM_HT_PCR then Ret (TPM_RC_SUCCESS, h, w)
      else if t = TPM_HT_EXTERNAL_NV \<or> t = TPM_HT_PERMANENT_NV then Ret (TPM_RC_VALUE, h, w)
      else FailureMode)"

fun load_status :: "(TPM_HANDLE \<Rightarrow> OBJECT option) \<Rightarrow> TPM_CC \<Rightarrow> nat \<Rightarrow> TPM_HANDLE list \<Rightarrow> world \<Rightarrow> (TPM_RC \<times> TPM_HANDLE list \<times> world) outcome" where
  "load_status stored cc i [] w = Ret (TPM_RC_SUCCESS, [], w)"
| "load_status stored cc i (h # hs) w = obind (handle_status stored cc h w) (\<lambda>(rc, h1, w1).
     if rc = TPM_RC_SUCCESS then obind (load_status stored cc (Suc i) hs w1) (\<lambda>(rc2, hs2, w2). Ret (rc2, h1 # hs2, w2))
     else Ret (if rc = TPM_RC_REFERENCE_H0 then rc + word_of_nat i else RcSafeAddToResult rc (TPM_RC_H + g_rcIndex i), h1 # hs, w1))"

definition EntityGetLoadStatus :: "(TPM_HANDLE \<Rightarrow> OBJECT option) \<Rightarrow> COMMAND \<Rightarrow> world \<Rightarrow> (TPM_RC \<times> COMMAND \<times> world) outcome" where
  "EntityGetLoadStatus stored c w = obind (load_status stored (c_code c) 0 (c_handles c) w) (\<lambda>(rc, hs, w1).
     Ret (rc, c\<lparr>c_handles := hs\<rparr>, w1))"

definition EntityGetAuthValue :: "world \<Rightarrow> TPM_HANDLE \<Rightarrow> bytes outcome" where
  "EntityGetAuthValue w h =
     (let t = HandleGetType h in
      if t = TPM_HT_PERMANENT then
        (let n = HierarchyNormalizeHandle h in
         if n = TPM_RH_OWNER then Ret (MemoryRemoveTrailingZeros (ownerAuth (hgp (w_hs w))))
         else if n = TPM_RH_ENDORSEMENT then Ret (MemoryRemoveTrailingZeros (endorsementAuth (hgp (w_hs w))))
         else if n = TPM_RH_PLATFORM then Ret (MemoryRemoveTrailingZeros (platformAuth (w_hs w)))
         else if n = TPM_RH_LOCKOUT then Ret (MemoryRemoveTrailingZeros (lockoutAuth (hgp (w_hs w))))
         else if n = TPM_RH_NULL then Ret [] else FailureMode)
      else if t = TPM_HT_TRANSIENT then
        obind (object_at w h) (\<lambda>ob.
          if ObjectIsSequence ob then Ret (MemoryRemoveTrailingZeros (authPolicy (publicArea ob)))
          else pAssert (\<not> publicOnly (o_attributes ob)) (Ret (MemoryRemoveTrailingZeros (sens_auth (sensitive ob)))))
      else if t = TPM_HT_NV_INDEX then obind (nv_index w h) (\<lambda>ix. Ret (MemoryRemoveTrailingZeros (nv_auth ix)))
      else if t = TPM_HT_PCR then obind (PCRGetAuthValue (w_pcr w) (unat h)) (\<lambda>a.
        Ret (case a of None \<Rightarrow> [] | Some v \<Rightarrow> MemoryRemoveTrailingZeros v))
      else FailureMode)"

definition EntityGetAuthPolicy :: "world \<Rightarrow> TPM_HANDLE \<Rightarrow> (TPM_ALG_ID \<times> bytes) outcome" where
  "EntityGetAuthPolicy w h =
     (let t = HandleGetType h; p = hgp (w_hs w) in
      if t = TPM_HT_PERMANENT then
        (let n = HierarchyNormalizeHandle h in
         Ret (if n = TPM_RH_OWNER then (ownerAlg p, ownerPolicy p)
              else if n = TPM_RH_ENDORSEMENT then (endorsementAlg p, endorsementPolicy p)
              else if n = TPM_RH_PLATFORM then (platformAlg (w_hs w), platformPolicy (w_hs w))
              else if n = TPM_RH_LOCKOUT then (lockoutAlg p, lockoutPolicy p)
              else (TPM_ALG_ERROR, [])))
      else if t = TPM_HT_TRANSIENT then obind (object_at w h) (\<lambda>ob. Ret (nameAlg (publicArea ob), authPolicy (publicArea ob)))
      else if t = TPM_HT_NV_INDEX then obind (nv_index w h) (\<lambda>ix. Ret (nv_nameAlg (nv_public ix), nv_authPolicy (nv_public ix)))
      else if t = TPM_HT_PCR then PCRGetAuthPolicy (w_pcr w) (unat h)
      else FailureMode)"

definition EntityGetName :: "(TPM_ALG_ID \<Rightarrow> bytes \<Rightarrow> bytes) \<Rightarrow> world \<Rightarrow> TPM_HANDLE \<Rightarrow> bytes outcome" where
  "EntityGetName hashf w h =
     (let t = HandleGetType h in
      if t = TPM_HT_TRANSIENT then obind (object_at w h) (\<lambda>ob. Ret (if nameAlg (publicArea ob) = TPM_ALG_NULL then [] else o_name ob))
      else if t = TPM_HT_NV_INDEX then obind (nv_index w h) (\<lambda>ix. Ret (NvGetIndexName hashf (nv_public ix)))
      else Ret (be 4 h))"

definition EntityGetHierarchy :: "world \<Rightarrow> TPM_HANDLE \<Rightarrow> TPM_HANDLE outcome" where
  "EntityGetHierarchy w h =
     (let t = HandleGetType h in
      if t = TPM_HT_PERMANENT then
        Ret (if HierarchyIsFirmwareLimited h \<or> HierarchyIsSvnLimited h then h
             else if h = TPM_RH_PLATFORM \<or> h = TPM_RH_ENDORSEMENT \<or> h = TPM_RH_NULL then h else TPM_RH_OWNER)
      else if t = TPM_HT_NV_INDEX then
        obind (nv_index w h) (\<lambda>ix. Ret (if na_PLATFORMCREATE (nv_attributes (nv_public ix)) then TPM_RH_PLATFORM else TPM_RH_OWNER))
      else if t = TPM_HT_TRANSIENT then
        obind (object_at w h) (\<lambda>ob. let a = o_attributes ob in
          Ret (if ppsHierarchy a then TPM_RH_PLATFORM else if epsHierarchy a then TPM_RH_ENDORSEMENT
               else if spsHierarchy a then TPM_RH_OWNER else TPM_RH_NULL))
      else if t = TPM_HT_PCR then Ret TPM_RH_OWNER
      else FailureMode)"

end
