(* ===== verification/Auth_Requests.thy ===== *)
theory Auth_Requests
  imports Entity_Access
begin

text \<open>
  The session area of a command, first half of \<^verbatim>\<open>SessionProcess.c\<close>: unmarshaling, the checks of each
  authorization and \<^verbatim>\<open>ParseSessionBuffer\<close>. The parallel arrays \<^verbatim>\<open>s_sessionHandles\<close>, \<^verbatim>\<open>s_nonceCaller\<close>,
  \<^verbatim>\<open>s_attributes\<close>, \<^verbatim>\<open>s_inputAuthValues\<close> and \<^verbatim>\<open>s_associatedHandles\<close> are one list of records; the tables of command
  attributes, HMAC and parameter decryption are members of the environment.
\<close>

section \<open>Constants and data\<close>

definition MAX_SESSION_NUM :: nat where [tpm_consts]: "MAX_SESSION_NUM = 3"
definition HMAC_SESSION_LAST :: TPM_HANDLE where [tpm_consts]: "HMAC_SESSION_LAST = HMAC_SESSION_FIRST + word_of_nat (MAX_ACTIVE_SESSIONS - 1)"
definition POLICY_SESSION_LAST :: TPM_HANDLE where [tpm_consts]: "POLICY_SESSION_LAST = POLICY_SESSION_FIRST + word_of_nat (MAX_ACTIVE_SESSIONS - 1)"
definition sizeof_TPMU_HA :: nat where [tpm_consts]: "sizeof_TPMU_HA = 64"
definition TPM_RC_S :: TPM_RC where [tpm_consts]: "TPM_RC_S = 0x800"
definition TPM_RC_EXCLUSIVE :: TPM_RC where [tpm_consts]: "TPM_RC_EXCLUSIVE = 0x121"
definition TPM_RC_AUTH_TYPE :: TPM_RC where [tpm_consts]: "TPM_RC_AUTH_TYPE = 0x124"
definition TPM_RC_AUTH_MISSING :: TPM_RC where [tpm_consts]: "TPM_RC_AUTH_MISSING = 0x125"
definition TPM_RC_AUTH_UNAVAILABLE :: TPM_RC where [tpm_consts]: "TPM_RC_AUTH_UNAVAILABLE = 0x12F"
definition TPM_RC_AUTH_CONTEXT :: TPM_RC where [tpm_consts]: "TPM_RC_AUTH_CONTEXT = 0x145"
definition TPM_RC_SYMMETRIC :: TPM_RC where [tpm_consts]: "TPM_RC_SYMMETRIC = 0x096"
definition TPM_RC_RESERVED_BITS :: TPM_RC where [tpm_consts]: "TPM_RC_RESERVED_BITS = 0x0A1"
definition TPM_RC_REFERENCE_S0 :: TPM_RC where [tpm_consts]: "TPM_RC_REFERENCE_S0 = 0x918"
definition TPM_CC_GetCommandAuditDigest :: TPM_CC where [tpm_consts]: "TPM_CC_GetCommandAuditDigest = 0x133"

type_synonym TPMA_SESSION = u8

definition TPMA_SESSION_continueSession :: TPMA_SESSION where "TPMA_SESSION_continueSession = 0x01"
definition TPMA_SESSION_auditExclusive :: TPMA_SESSION where "TPMA_SESSION_auditExclusive = 0x02"
definition TPMA_SESSION_auditReset :: TPMA_SESSION where "TPMA_SESSION_auditReset = 0x04"
definition TPMA_SESSION_reserved :: TPMA_SESSION where "TPMA_SESSION_reserved = 0x18"
definition TPMA_SESSION_decrypt :: TPMA_SESSION where "TPMA_SESSION_decrypt = 0x20"
definition TPMA_SESSION_encrypt :: TPMA_SESSION where "TPMA_SESSION_encrypt = 0x40"
definition TPMA_SESSION_audit :: TPMA_SESSION where "TPMA_SESSION_audit = 0x80"

definition IS_ATTRIBUTE :: "TPMA_SESSION \<Rightarrow> TPMA_SESSION \<Rightarrow> bool" where
  "IS_ATTRIBUTE a b \<longleftrightarrow> a AND b \<noteq> 0"

definition TPM_ALG_NULL_sym :: "SESSION \<Rightarrow> bool" where
  "TPM_ALG_NULL_sym se \<longleftrightarrow> sym_algorithm (symmetric se) = TPM_ALG_NULL"

record AUTH_SESSION =
  sessionHandle :: TPM_HANDLE
  nonceCaller :: bytes
  sessionAttributes :: TPMA_SESSION
  inputAuthValue :: bytes
  associatedHandle :: TPM_HANDLE

record session_area =
  sa_sessions :: "AUTH_SESSION list"
  sa_decrypt :: "nat option"
  sa_encrypt :: "nat option"
  sa_audit :: "nat option"

text \<open>
  The environment of the session processing: the hash-based MAC, the attributes of a command, and the decryption
  and encryption of the first parameter under a session with the nonce of the caller, the size of the
  leading size field and an extra key.
\<close>

record auth_env = check_env +
  ae_hmac :: "TPM_ALG_ID \<Rightarrow> bytes \<Rightarrow> bytes \<Rightarrow> bytes"
  ae_sessionAllowed :: "TPM_CC \<Rightarrow> bool"
  ae_decryptSize :: "TPM_CC \<Rightarrow> nat"
  ae_encryptSize :: "TPM_CC \<Rightarrow> nat"
  ae_ppRequired :: "TPM_CC \<Rightarrow> bool"
  ae_isWrite :: "TPM_CC \<Rightarrow> bool"
  ae_auditRequired :: "TPM_CC \<Rightarrow> bool"
  ae_decryption :: "SESSION \<Rightarrow> bytes \<Rightarrow> nat \<Rightarrow> bytes \<Rightarrow> bytes \<Rightarrow> TPM_RC \<times> bytes"
  ae_encryption :: "SESSION \<Rightarrow> bytes \<Rightarrow> nat \<Rightarrow> bytes \<Rightarrow> bytes \<Rightarrow> bytes outcome"
  ae_nonce :: "nat \<Rightarrow> nat \<Rightarrow> bytes"

text \<open>The environment of the policy check in a state of the TPM.\<close>

definition value_or :: "'a \<Rightarrow> 'a outcome \<Rightarrow> 'a" where
  "value_or d x = (case x of Ret v \<Rightarrow> v | FailureMode \<Rightarrow> d)"

definition view :: "auth_env \<Rightarrow> world \<Rightarrow> check_env" where
  "view env w = (check_env.truncate env)\<lparr>
     pe_name := (\<lambda>h. value_or [] (EntityGetName (pe_hash env) w h)),
     ce_authPolicy := (\<lambda>h. value_or (TPM_ALG_ERROR, []) (EntityGetAuthPolicy w h)),
     pe_NvStatus := g_NvStatus (w_da w), pe_time := g_time (w_sess w), pe_timeEpoch := g_timeEpoch (w_sess w)\<rparr>"

section \<open>Unmarshaling\<close>

definition UINT32_Unmarshal :: "bytes \<Rightarrow> TPM_RC + (u32 \<times> bytes)" where
  "UINT32_Unmarshal b = (if length b < 4 then Inl TPM_RC_INSUFFICIENT else Inr (ucast (from_be (take 4 b)), drop 4 b))"

definition UINT16_Unmarshal :: "bytes \<Rightarrow> TPM_RC + (u16 \<times> bytes)" where
  "UINT16_Unmarshal b = (if length b < 2 then Inl TPM_RC_INSUFFICIENT else Inr (ucast (from_be (take 2 b)), drop 2 b))"

definition TPM2B_Unmarshal :: "nat \<Rightarrow> bytes \<Rightarrow> TPM_RC + (bytes \<times> bytes)" where
  "TPM2B_Unmarshal targetSize b = (case UINT16_Unmarshal b of
      Inl rc \<Rightarrow> Inl rc
    | Inr (n, b1) \<Rightarrow> if unat n > targetSize then Inl TPM_RC_SIZE
        else if length b1 < unat n then Inl TPM_RC_INSUFFICIENT else Inr (take (unat n) b1, drop (unat n) b1))"

definition TPMA_SESSION_Unmarshal :: "bytes \<Rightarrow> TPM_RC + (TPMA_SESSION \<times> bytes)" where
  "TPMA_SESSION_Unmarshal b = (case b of
      [] \<Rightarrow> Inl TPM_RC_INSUFFICIENT
    | x # b1 \<Rightarrow> if x AND TPMA_SESSION_reserved \<noteq> 0 then Inl TPM_RC_RESERVED_BITS else Inr (x, b1))"

definition TPMI_SH_AUTH_SESSION_Unmarshal :: "bytes \<Rightarrow> TPM_RC + (TPM_HANDLE \<times> bytes)" where
  "TPMI_SH_AUTH_SESSION_Unmarshal b = (case UINT32_Unmarshal b of
      Inl rc \<Rightarrow> Inl rc
    | Inr (h, b1) \<Rightarrow>
        if (h < HMAC_SESSION_FIRST \<or> h > HMAC_SESSION_LAST) \<and> (h < POLICY_SESSION_FIRST \<or> h > POLICY_SESSION_LAST) \<and> h \<noteq> TPM_RS_PW
        then Inl TPM_RC_VALUE else Inr (h, b1))"

text \<open>One session of the area, with what follows it.\<close>

definition unmarshal_session :: "bytes \<Rightarrow> TPM_RC + (AUTH_SESSION \<times> bytes)" where
  "unmarshal_session b = (case TPMI_SH_AUTH_SESSION_Unmarshal b of Inl rc \<Rightarrow> Inl rc | Inr (h, b1) \<Rightarrow>
     (case TPM2B_Unmarshal sizeof_TPMU_HA b1 of Inl rc \<Rightarrow> Inl rc | Inr (nonce, b2) \<Rightarrow>
       (case TPMA_SESSION_Unmarshal b2 of Inl rc \<Rightarrow> Inl rc | Inr (a, b3) \<Rightarrow>
         (case TPM2B_Unmarshal sizeof_TPMU_HA b3 of Inl rc \<Rightarrow> Inl rc | Inr (auth, b4) \<Rightarrow>
           Inr (\<lparr>sessionHandle = h, nonceCaller = nonce, sessionAttributes = a, inputAuthValue = auth,
                 associatedHandle = TPM_RH_UNASSIGNED\<rparr>, b4)))))"

text \<open>The checks of the uses for decryption, encryption and audit; each use belongs to one session.\<close>

definition mark_use ::
  "auth_env \<Rightarrow> world \<Rightarrow> TPM_CC \<Rightarrow> AUTH_SESSION \<Rightarrow> SESSION \<Rightarrow> nat \<Rightarrow> session_area \<Rightarrow> TPM_RC + session_area" where
  "mark_use env w cc s se i area =
     (let e = TPM_RC_S + g_rcIndex i; a = sessionAttributes s in
      if IS_ATTRIBUTE a TPMA_SESSION_decrypt \<and> (ae_decryptSize env cc = 0 \<or> sa_decrypt area \<noteq> None) then Inl (TPM_RC_ATTRIBUTES + e)
      else if IS_ATTRIBUTE a TPMA_SESSION_decrypt \<and> TPM_ALG_NULL_sym se then Inl (TPM_RC_SYMMETRIC + e)
      else if IS_ATTRIBUTE a TPMA_SESSION_encrypt \<and> (ae_encryptSize env cc = 0 \<or> sa_encrypt area \<noteq> None) then Inl (TPM_RC_ATTRIBUTES + e)
      else if IS_ATTRIBUTE a TPMA_SESSION_encrypt \<and> TPM_ALG_NULL_sym se then Inl (TPM_RC_SYMMETRIC + e)
      else if IS_ATTRIBUTE a TPMA_SESSION_audit \<and> (sa_audit area \<noteq> None \<or> HandleGetType (sessionHandle s) = TPM_HT_POLICY_SESSION)
      then Inl (TPM_RC_ATTRIBUTES + e)
      else if IS_ATTRIBUTE a TPMA_SESSION_audit \<and> \<not> IS_ATTRIBUTE a TPMA_SESSION_auditReset \<and> isAudit (attributes se)
        \<and> IS_ATTRIBUTE a TPMA_SESSION_auditExclusive \<and> g_exclusiveAuditSession w \<noteq> sessionHandle s
      then Inl TPM_RC_EXCLUSIVE
      else Inr (area\<lparr>sa_sessions := sa_sessions area @ [s],
        sa_decrypt := (if IS_ATTRIBUTE a TPMA_SESSION_decrypt then Some i else sa_decrypt area),
        sa_encrypt := (if IS_ATTRIBUTE a TPMA_SESSION_encrypt then Some i else sa_encrypt area),
        sa_audit := (if IS_ATTRIBUTE a TPMA_SESSION_audit then Some i else sa_audit area)\<rparr>))"

definition retrieve_session ::
  "auth_env \<Rightarrow> world \<Rightarrow> TPM_CC \<Rightarrow> nat \<Rightarrow> AUTH_SESSION \<Rightarrow> session_area \<Rightarrow> (TPM_RC + session_area) outcome" where
  "retrieve_session env w cc i s area =
     (let e = TPM_RC_S + g_rcIndex i; a = sessionAttributes s in
      if sessionHandle s = TPM_RS_PW then
        Ret (if IS_ATTRIBUTE a (TPMA_SESSION_encrypt OR TPMA_SESSION_decrypt OR TPMA_SESSION_audit OR TPMA_SESSION_auditExclusive
                  OR TPMA_SESSION_auditReset) then Inl (TPM_RC_ATTRIBUTES + e)
             else if nonceCaller s \<noteq> [] then Inl (TPM_RC_NONCE + e)
             else Inr (area\<lparr>sa_sessions := sa_sessions area @ [s]\<rparr>))
      else obind (SessionIsLoaded (w_sess w) (sessionHandle s)) (\<lambda>loaded.
        if \<not> loaded then Ret (Inl (TPM_RC_REFERENCE_S0 + word_of_nat i))
        else obind (session_at w (sessionHandle s)) (\<lambda>se.
          let t = HandleGetType (sessionHandle s) in
          Ret (if isPolicy (attributes se) \<and> t = TPM_HT_HMAC_SESSION \<or> \<not> isPolicy (attributes se) \<and> t = TPM_HT_POLICY_SESSION
               then Inl (TPM_RC_HANDLE + e)
               else if sessionHandle s \<in> set (map sessionHandle (sa_sessions area)) then Inl (TPM_RC_HANDLE + e)
               else mark_use env w cc s se i area))))"

text \<open>The loop ends with the area or, after the third session, with an error.\<close>

fun retrieve_loop ::
  "auth_env \<Rightarrow> world \<Rightarrow> TPM_CC \<Rightarrow> nat \<Rightarrow> bytes \<Rightarrow> session_area \<Rightarrow> (TPM_RC + session_area) outcome" where
  "retrieve_loop env w cc n [] area = Ret (Inr area)"
| "retrieve_loop env w cc 0 (x # b) area = Ret (Inl (TPM_RC_SIZE + TPM_RC_S + g_rcIndex MAX_SESSION_NUM))"
| "retrieve_loop env w cc (Suc n) (x # b) area =
     (let i = MAX_SESSION_NUM - Suc n in
      case unmarshal_session (x # b) of
        Inl rc \<Rightarrow> Ret (Inl (rc + TPM_RC_S + g_rcIndex i))
      | Inr (s, b1) \<Rightarrow> obind (retrieve_session env w cc i s area) (\<lambda>r.
          case r of Inl rc \<Rightarrow> Ret (Inl rc) | Inr area1 \<Rightarrow> retrieve_loop env w cc n b1 area1))"

definition RetrieveSessionData :: "auth_env \<Rightarrow> world \<Rightarrow> TPM_CC \<Rightarrow> bytes \<Rightarrow> (TPM_RC + session_area) outcome" where
  "RetrieveSessionData env w cc b = retrieve_loop env w cc MAX_SESSION_NUM b \<lparr>sa_sessions = [], sa_decrypt = None, sa_encrypt = None, sa_audit = None\<rparr>"

section \<open>Availability\<close>

definition IsSessionBindEntity :: "auth_env \<Rightarrow> world \<Rightarrow> TPM_HANDLE \<Rightarrow> SESSION \<Rightarrow> bool outcome" where
  "IsSessionBindEntity env w h se =
     (if isBound (attributes se)
      then obind (EntityGetName (pe_hash env) w h) (\<lambda>name. obind (EntityGetAuthValue w h) (\<lambda>auth.
        Ret (bound_entity name auth = u1 se)))
      else Ret False)"

definition pqc_handle :: "TPM_HANDLE \<Rightarrow> bool" where
  "pqc_handle h \<longleftrightarrow> 0x80FF0000 \<le> h \<and> h \<le> 0x80FF00FF"

definition IsPolicySessionRequired :: "auth_env \<Rightarrow> world \<Rightarrow> COMMAND \<Rightarrow> nat \<Rightarrow> TPM_HANDLE \<Rightarrow> bool outcome" where
  "IsPolicySessionRequired env w c i h =
     (let role = ce_role env (c_code c) i; t = HandleGetType h in
      if role = AUTH_DUP then Ret True
      else if role = AUTH_ADMIN then
        if t = TPM_HT_TRANSIENT then
          if pqc_handle h then Ret False
          else obind (object_at w h) (\<lambda>ob. Ret (ta_adminWithPolicy (objectAttributes (publicArea ob))))
        else Ret True
      else if t = TPM_HT_PCR then obind (PCRPolicyIsAvailable (unat h)) (\<lambda>available.
        if available then obind (PCRGetAuthPolicy (w_pcr w) (unat h)) (\<lambda>(alg, policy). Ret (alg \<noteq> TPM_ALG_NULL)) else Ret False)
      else Ret False)"

definition pinCount :: "u64 \<Rightarrow> u32" where "pinCount v = ucast (drop_bit 32 v)"
definition pinLimit :: "u64 \<Rightarrow> u32" where "pinLimit v = ucast v"
definition set_pinCount :: "u32 \<Rightarrow> u64 \<Rightarrow> u64" where "set_pinCount n v = push_bit 32 (ucast n) OR ucast (pinLimit v)"

definition IsNvPinFailIndex :: "TPMA_NV \<Rightarrow> bool" where "IsNvPinFailIndex a \<longleftrightarrow> nt_of a = TPM_NT_PIN_FAIL"
definition IsNvPinPassIndex :: "TPMA_NV \<Rightarrow> bool" where "IsNvPinPassIndex a \<longleftrightarrow> nt_of a = TPM_NT_PIN_PASS"

definition nv_uint64 :: "world \<Rightarrow> TPM_HANDLE \<Rightarrow> u64 outcome" where
  "nv_uint64 w h = with_index h (w_nv w) (\<lambda>i p s. NvGetUINT64Data (s_cachedNvIndex s) (Some i) s)"

definition nv_value_available :: "auth_env \<Rightarrow> world \<Rightarrow> COMMAND \<Rightarrow> TPM_HANDLE \<Rightarrow> bool outcome" where
  "nv_value_available env w c h = obind (nv_index w h) (\<lambda>ix.
     let a = nv_attributes (nv_public ix) in
     if ae_isWrite env (c_code c) then Ret (na_AUTHWRITE a)
     else if IsNvPinFailIndex a \<or> IsNvPinPassIndex a then
       if \<not> na_WRITTEN a then Ret False
       else obind (nv_uint64 w h) (\<lambda>v. Ret (pinCount v < pinLimit v))
     else Ret (na_AUTHREAD a))"

definition IsAuthValueAvailable :: "auth_env \<Rightarrow> world \<Rightarrow> COMMAND \<Rightarrow> nat \<Rightarrow> TPM_HANDLE \<Rightarrow> bool outcome" where
  "IsAuthValueAvailable env w c i h =
     (let t = HandleGetType h in
      if t = TPM_HT_PERMANENT then Ret (h \<in> {TPM_RH_OWNER, TPM_RH_ENDORSEMENT, TPM_RH_PLATFORM, TPM_RH_LOCKOUT, TPM_RH_NULL})
      else if t = TPM_HT_TRANSIENT then
        if pqc_handle h then Ret True
        else obind (object_at w h) (\<lambda>ob. let a = objectAttributes (publicArea ob) in
          Ret (ObjectIsSequence ob \<or> \<not> publicOnly (o_attributes ob) \<and>
            (ta_userWithAuth a \<or> ce_role env (c_code c) i = AUTH_ADMIN \<and> \<not> ta_adminWithPolicy a)))
      else if t = TPM_HT_NV_INDEX then nv_value_available env w c h
      else Ret (t = TPM_HT_PCR))"

definition IsAuthPolicyAvailable :: "auth_env \<Rightarrow> world \<Rightarrow> COMMAND \<Rightarrow> nat \<Rightarrow> TPM_HANDLE \<Rightarrow> bool outcome" where
  "IsAuthPolicyAvailable env w c i h =
     (let t = HandleGetType h; p = hgp (w_hs w) in
      if t = TPM_HT_PERMANENT then
        Ret (if h = TPM_RH_OWNER then ownerPolicy p \<noteq> [] else if h = TPM_RH_ENDORSEMENT then endorsementPolicy p \<noteq> []
             else if h = TPM_RH_PLATFORM then platformPolicy (w_hs w) \<noteq> [] else if h = TPM_RH_LOCKOUT then lockoutPolicy p \<noteq> [] else False)
      else if t = TPM_HT_TRANSIENT then
        if pqc_handle h then Ret False
        else obind (object_at w h) (\<lambda>ob. Ret (\<not> publicOnly (o_attributes ob) \<and> \<not> ObjectIsSequence ob))
      else if t = TPM_HT_NV_INDEX then
        obind (nv_index w h) (\<lambda>ix. let a = nv_attributes (nv_public ix) in
          if nv_authPolicy (nv_public ix) = [] then Ret False
          else obind (IsPolicySessionRequired env w c i h) (\<lambda>required.
            Ret (required \<or> (if ae_isWrite env (c_code c) then na_POLICYWRITE a else na_POLICYREAD a))))
      else if t = TPM_HT_PCR then PCRPolicyIsAvailable (unat h)
      else Ret False)"

end
