(* ===== verification/Auth_Checks.thy ===== *)
theory Auth_Checks
  imports Auth_Requests
begin

text \<open>
  The authorization checks of \<^verbatim>\<open>SessionProcess.c\<close>: the HMAC of a command, \<^verbatim>\<open>CheckAuthSession\<close> with its effects on
  the lockout state and on PIN indexes, \<^verbatim>\<open>ParseSessionBuffer\<close> and \<^verbatim>\<open>CheckAuthNoSession\<close>. The cpHash is computed
  once for each algorithm and kept until the response; \<^verbatim>\<open>CheckPolicyAuthSession\<close> computes the same value.
\<close>

section \<open>HMAC\<close>

definition cp_hash :: "auth_env \<Rightarrow> TPM_ALG_ID \<Rightarrow> COMMAND \<Rightarrow> world \<Rightarrow> bytes \<times> world" where
  "cp_hash env alg c w = (case map_of (w_cpHash w) alg of
      Some h \<Rightarrow> (h, w)
    | None \<Rightarrow> let h = ComputeCpHash (view env w) alg c in (h, w\<lparr>w_cpHash := (alg, h) # w_cpHash w\<rparr>))"

text \<open>The nonces of the decrypt and the encrypt session, included in the first authorization when they are other sessions.\<close>

definition nonce_of :: "world \<Rightarrow> session_area \<Rightarrow> nat \<Rightarrow> bytes outcome" where
  "nonce_of w area k = obind (session_at w (sessionHandle (sa_sessions area ! k))) (\<lambda>se. Ret (nonceTPM se))"

definition extra_nonces :: "world \<Rightarrow> session_area \<Rightarrow> nat \<Rightarrow> bytes outcome" where
  "extra_nonces w area i =
     (if i = 0 \<and> associatedHandle (sa_sessions area ! i) \<noteq> TPM_RH_UNASSIGNED then
        obind (case sa_decrypt area of Some d \<Rightarrow> if d \<noteq> i then nonce_of w area d else Ret [] | None \<Rightarrow> Ret []) (\<lambda>nd.
          obind (case sa_encrypt area of
                   Some e \<Rightarrow> if e \<noteq> i \<and> sa_encrypt area \<noteq> sa_decrypt area then nonce_of w area e else Ret []
                 | None \<Rightarrow> Ret []) (\<lambda>ne. Ret (nd @ ne)))
      else Ret [])"

definition hmac_key :: "world \<Rightarrow> AUTH_SESSION \<Rightarrow> SESSION \<Rightarrow> bytes outcome" where
  "hmac_key w s se =
     (if includeAuth (attributes se)
      then obind (EntityGetAuthValue w (associatedHandle s)) (\<lambda>auth. Ret (sessionKey se @ auth))
      else Ret (sessionKey se))"

definition ComputeCommandHMAC :: "auth_env \<Rightarrow> COMMAND \<Rightarrow> session_area \<Rightarrow> nat \<Rightarrow> world \<Rightarrow> (bytes \<times> world) outcome" where
  "ComputeCommandHMAC env c area i w =
     (let s = sa_sessions area ! i in
      obind (extra_nonces w area i) (\<lambda>nonces.
      obind (session_at w (sessionHandle s)) (\<lambda>se.
      obind (hmac_key w s se) (\<lambda>key.
        if key = [] \<and> inputAuthValue s = [] then Ret ([], w)
        else case cp_hash env (authHashAlg se) c w of (h, w1) \<Rightarrow>
          Ret (ae_hmac env (authHashAlg se) key (h @ nonceCaller s @ nonceTPM se @ nonces @ [sessionAttributes s]), w1)))))"

definition obj_noDA :: "world \<Rightarrow> TPM_HANDLE \<Rightarrow> bool" where
  "obj_noDA w h = value_or False (obind (object_at w h) (\<lambda>ob. Ret (ta_noDA (objectAttributes (publicArea ob)))))"

definition nv_noDA :: "world \<Rightarrow> TPM_HANDLE \<Rightarrow> bool" where
  "nv_noDA w h = value_or False (obind (nv_index w h) (\<lambda>ix. Ret (na_NO_DA (nv_attributes (nv_public ix)))))"

definition count_failure :: "AUTH_SESSION \<Rightarrow> world \<Rightarrow> (TPM_RC \<times> world) outcome" where
  "count_failure s w = obind (IncrementLockout (obj_noDA w) (nv_noDA w) (w_sess w) (associatedHandle s) (sessionHandle s) (w_da w))
     (\<lambda>(rc, da). Ret (rc, w\<lparr>w_da := da\<rparr>))"

definition CheckSessionHMAC :: "auth_env \<Rightarrow> COMMAND \<Rightarrow> session_area \<Rightarrow> nat \<Rightarrow> world \<Rightarrow> (TPM_RC \<times> world) outcome" where
  "CheckSessionHMAC env c area i w = obind (ComputeCommandHMAC env c area i w) (\<lambda>(hmac, w1).
     if inputAuthValue (sa_sessions area ! i) = hmac then Ret (TPM_RC_SUCCESS, w1)
     else count_failure (sa_sessions area ! i) w1)"

definition check_password :: "AUTH_SESSION \<Rightarrow> world \<Rightarrow> (TPM_RC \<times> world) outcome" where
  "check_password s w = obind (EntityGetAuthValue w (associatedHandle s)) (\<lambda>auth.
     obind (CheckPWAuthSession (obj_noDA w) (nv_noDA w) (\<lambda>_. auth) (w_sess w) (associatedHandle s) (sessionHandle s) (inputAuthValue s) (w_da w))
       (\<lambda>(rc, da). Ret (rc, w\<lparr>w_da := da\<rparr>)))"

section \<open>One authorization\<close>

definition set_includeAuth :: "bool \<Rightarrow> SESSION \<Rightarrow> SESSION" where
  "set_includeAuth b se = se\<lparr>attributes := (attributes se)\<lparr>includeAuth := b\<rparr>\<rparr>"

text \<open>Whether the value of the entity takes part, recorded in the session.\<close>

definition note_auth_use :: "auth_env \<Rightarrow> AUTH_SESSION \<Rightarrow> world \<Rightarrow> (bool \<times> world) outcome" where
  "note_auth_use env s w =
     (if sessionHandle s = TPM_RS_PW then Ret (True, w)
      else obind (session_at w (sessionHandle s)) (\<lambda>se.
        obind (if HandleGetType (sessionHandle s) = TPM_HT_POLICY_SESSION
               then Ret (isAuthValueNeeded (attributes se) \<or> isPasswordNeeded (attributes se))
               else obind (IsSessionBindEntity env w (associatedHandle s) se) (\<lambda>b. Ret (\<not> b))) (\<lambda>inc.
          obind (update_session (sessionHandle s) (set_includeAuth inc) w) (\<lambda>w1. Ret (inc, w1)))))"

definition lockout_check :: "bool \<Rightarrow> TPM_HANDLE \<Rightarrow> world \<Rightarrow> TPM_RC \<times> world" where
  "lockout_check authUsed h w =
     (if authUsed \<and> \<not> DA_Time.IsDAExempted (obj_noDA w) (nv_noDA w) h
      then case CheckLockedOut (h = TPM_RH_LOCKOUT) (w_da w) of (rc, da) \<Rightarrow> (rc, w\<lparr>w_da := da\<rparr>)
      else (TPM_RC_SUCCESS, w))"

text \<open>The policy of the entity for a policy session, the availability of its value for the others.\<close>

definition check_kind :: "auth_env \<Rightarrow> COMMAND \<Rightarrow> nat \<Rightarrow> AUTH_SESSION \<Rightarrow> world \<Rightarrow> (TPM_RC \<times> world) outcome" where
  "check_kind env c i s w =
     (let h = associatedHandle s in
      if HandleGetType (sessionHandle s) \<noteq> TPM_HT_POLICY_SESSION then
        obind (IsPolicySessionRequired env w c i h) (\<lambda>required.
          if required then Ret (TPM_RC_AUTH_TYPE, w)
          else obind (IsAuthValueAvailable env w c i h) (\<lambda>available.
            Ret (if available then TPM_RC_SUCCESS else TPM_RC_AUTH_UNAVAILABLE, w)))
      else obind (IsAuthPolicyAvailable env w c i h) (\<lambda>available.
        if \<not> available then Ret (TPM_RC_AUTH_UNAVAILABLE, w)
        else obind (session_at w (sessionHandle s)) (\<lambda>se.
          obind (CheckPolicyAuthSession (view env w) (w_sess w) c i h se (w_nv w)) (\<lambda>(rc, nv). Ret (rc, w\<lparr>w_nv := nv\<rparr>)))))"

definition check_value :: "auth_env \<Rightarrow> COMMAND \<Rightarrow> session_area \<Rightarrow> nat \<Rightarrow> world \<Rightarrow> (TPM_RC \<times> world) outcome" where
  "check_value env c area i w =
     (let s = sa_sessions area ! i in
      if sessionHandle s = TPM_RS_PW then check_password s w
      else obind (session_at w (sessionHandle s)) (\<lambda>se.
        if isPasswordNeeded (attributes se) then check_password s w else CheckSessionHMAC env c area i w))"

text \<open>The counter of a PIN index; the response code of the write is not looked at.\<close>

definition update_pin :: "TPM_RC \<Rightarrow> TPM_HANDLE \<Rightarrow> nv_state \<Rightarrow> nv_state outcome" where
  "update_pin result h nv = with_index h nv (\<lambda>i p s.
     let a = nv_attributes p in
     if IsNvPinFailIndex a \<and> na_WRITTEN a then
       obind (NvGetUINT64Data (s_cachedNvIndex s) (Some i) s) (\<lambda>v.
         obind (NvWriteUINT64Data (set_pinCount (if result \<noteq> TPM_RC_SUCCESS then pinCount v + 1 else 0) v) s) (\<lambda>(rc, s1). Ret s1))
     else if IsNvPinPassIndex a \<and> na_WRITTEN a \<and> result = TPM_RC_SUCCESS then
       obind (NvGetUINT64Data (s_cachedNvIndex s) (Some i) s) (\<lambda>v.
         obind (NvWriteUINT64Data (set_pinCount (pinCount v + 1) v) s) (\<lambda>(rc, s1). Ret s1))
     else Ret s)"

definition CheckAuthSession :: "auth_env \<Rightarrow> COMMAND \<Rightarrow> session_area \<Rightarrow> nat \<Rightarrow> world \<Rightarrow> (TPM_RC \<times> world) outcome" where
  "CheckAuthSession env c area i w =
     (let s = sa_sessions area ! i; h = associatedHandle s in
      pAssert (sessionHandle s \<noteq> TPM_RH_UNASSIGNED)
       (if h = TPM_RH_PLATFORM \<and> ae_ppRequired env (c_code c) \<and> \<not> ce_physicalPresence env then Ret (TPM_RC_PP, w)
        else obind (note_auth_use env s w) (\<lambda>(authUsed, w1).
          case lockout_check authUsed h w1 of (rc, w2) \<Rightarrow>
            if rc \<noteq> TPM_RC_SUCCESS then Ret (rc, w2)
            else obind (check_kind env c i s w2) (\<lambda>(rc, w3).
              if rc \<noteq> TPM_RC_SUCCESS then Ret (rc, w3)
              else obind (check_value env c area i w3) (\<lambda>(rc, w4).
                if HandleGetType h = TPM_HT_NV_INDEX \<and> authUsed
                then obind (update_pin rc h (w_nv w4)) (\<lambda>nv. Ret (rc, w4\<lparr>w_nv := nv\<rparr>))
                else Ret (rc, w4))))))"

section \<open>The session area\<close>

definition CheckCommandAudit :: "auth_env \<Rightarrow> COMMAND \<Rightarrow> world \<Rightarrow> TPM_RC \<times> world" where
  "CheckCommandAudit env c w =
     (if (commandAuditDigest w = [] \<or> c_code c = TPM_CC_GetCommandAuditDigest) \<and> g_NvStatus (w_da w) \<noteq> TPM_RC_SUCCESS
      then (g_NvStatus (w_da w), w)
      else (TPM_RC_SUCCESS, snd (cp_hash env (auditHashAlg w) c w)))"

fun associate :: "auth_env \<Rightarrow> TPM_CC \<Rightarrow> nat \<Rightarrow> TPM_HANDLE list \<Rightarrow> AUTH_SESSION list \<Rightarrow> TPM_RC + AUTH_SESSION list" where
  "associate env cc i [] ss = Inr ss"
| "associate env cc i (h # hs) ss =
     (if ce_role env cc i \<noteq> AUTH_NONE then
        if length ss = 0 \<or> i > length ss - 1 then Inl TPM_RC_AUTH_MISSING
        else associate env cc (Suc i) hs (ss[i := (ss ! i)\<lparr>associatedHandle := HierarchyNormalizeHandle h\<rparr>])
      else associate env cc (Suc i) hs ss)"

text \<open>What is checked of a session that is not a password before its authorization.\<close>

definition check_state :: "auth_env \<Rightarrow> COMMAND \<Rightarrow> nat \<Rightarrow> AUTH_SESSION \<Rightarrow> world \<Rightarrow> (TPM_RC \<times> world) outcome" where
  "check_state env c i s w =
     (let e = TPM_RC_S + g_rcIndex i; a = sessionAttributes s in
      if sessionHandle s = TPM_RS_PW then
        Ret (if associatedHandle s = TPM_RH_UNASSIGNED then TPM_RC_HANDLE + e
             else if IS_ATTRIBUTE a (TPMA_SESSION_audit OR TPMA_SESSION_encrypt OR TPMA_SESSION_decrypt) then TPM_RC_ATTRIBUTES + e
             else TPM_RC_SUCCESS, w)
      else obind (session_at w (sessionHandle s)) (\<lambda>se.
        if isTrialPolicy (attributes se) then Ret (TPM_RC_ATTRIBUTES + e, w)
        else case (if isDaBound (attributes se)
                   then (case CheckLockedOut (isLockoutBound (attributes se)) (w_da w) of (rc, da) \<Rightarrow> (rc, w\<lparr>w_da := da\<rparr>))
                   else (TPM_RC_SUCCESS, w)) of (rc, w1) \<Rightarrow>
          Ret (rc, if rc = TPM_RC_SUCCESS \<and> IS_ATTRIBUTE a TPMA_SESSION_audit then snd (cp_hash env (authHashAlg se) c w1) else w1)))"

definition check_session :: "auth_env \<Rightarrow> COMMAND \<Rightarrow> session_area \<Rightarrow> nat \<Rightarrow> world \<Rightarrow> (TPM_RC \<times> world) outcome" where
  "check_session env c area i w =
     (let s = sa_sessions area ! i; e = TPM_RC_S + g_rcIndex i in
      obind (check_state env c i s w) (\<lambda>(rc, w1).
        if rc \<noteq> TPM_RC_SUCCESS then Ret (rc, w1)
        else if associatedHandle s \<noteq> TPM_RH_UNASSIGNED then
          obind (CheckAuthSession env c area i w1) (\<lambda>(rc, w2). Ret (if rc = TPM_RC_SUCCESS then rc else RcSafeAddToResult rc e, w2))
        else if \<not> IS_ATTRIBUTE (sessionAttributes s) (TPMA_SESSION_audit OR TPMA_SESSION_encrypt OR TPMA_SESSION_decrypt)
        then Ret (TPM_RC_ATTRIBUTES + e, w1)
        else obind (update_session (sessionHandle s) (set_includeAuth False) w1) (\<lambda>w2.
          obind (CheckSessionHMAC env c area i w2) (\<lambda>(rc, w3). Ret (if rc = TPM_RC_SUCCESS then rc else RcSafeAddToResult rc e, w3)))))"

fun check_sessions :: "auth_env \<Rightarrow> COMMAND \<Rightarrow> session_area \<Rightarrow> nat list \<Rightarrow> world \<Rightarrow> (TPM_RC \<times> world) outcome" where
  "check_sessions env c area [] w = Ret (TPM_RC_SUCCESS, w)"
| "check_sessions env c area (i # is') w = obind (check_session env c area i w) (\<lambda>(rc, w1).
     if rc \<noteq> TPM_RC_SUCCESS then Ret (rc, w1) else check_sessions env c area is' w1)"

definition decrypt_parameter :: "auth_env \<Rightarrow> COMMAND \<Rightarrow> session_area \<Rightarrow> world \<Rightarrow> (TPM_RC \<times> COMMAND) outcome" where
  "decrypt_parameter env c area w =
     (case sa_decrypt area of
        None \<Rightarrow> Ret (TPM_RC_SUCCESS, c)
      | Some d \<Rightarrow> let s = sa_sessions area ! d in
          obind (if associatedHandle s \<noteq> TPM_RH_UNASSIGNED then EntityGetAuthValue w (associatedHandle s) else Ret []) (\<lambda>extraKey.
          obind (session_at w (sessionHandle s)) (\<lambda>se.
            case ae_decryption env se (nonceCaller s) (ae_decryptSize env (c_code c)) extraKey (c_parameterBuffer c) of (rc, b) \<Rightarrow>
              Ret (if rc \<noteq> TPM_RC_SUCCESS then (RcSafeAddToResult rc (TPM_RC_S + g_rcIndex d), c) else (TPM_RC_SUCCESS, c\<lparr>c_parameterBuffer := b\<rparr>)))))"

definition ParseSessionBuffer ::
  "auth_env \<Rightarrow> COMMAND \<Rightarrow> bytes \<Rightarrow> world \<Rightarrow> (TPM_RC \<times> COMMAND \<times> session_area option \<times> world) outcome" where
  "ParseSessionBuffer env c b w =
     (if \<not> ae_sessionAllowed env (c_code c) then Ret (TPM_RC_AUTH_CONTEXT, c, None, w)
      else obind (RetrieveSessionData env w (c_code c) b) (\<lambda>r.
        case r of
          Inl rc \<Rightarrow> Ret (rc, c, None, w)
        | Inr area0 \<Rightarrow> pAssert (length (c_handles c) \<le> MAX_SESSION_NUM)
            (case associate env (c_code c) 0 (c_handles c) (sa_sessions area0) of
               Inl rc \<Rightarrow> Ret (rc, c, None, w)
             | Inr ss \<Rightarrow> let area = area0\<lparr>sa_sessions := ss\<rparr> in
                 obind (check_sessions env c area [0..<length ss] w) (\<lambda>(rc, w1).
                   if rc \<noteq> TPM_RC_SUCCESS then Ret (rc, c, None, w1)
                   else case (if ae_auditRequired env (c_code c) then CheckCommandAudit env c w1 else (TPM_RC_SUCCESS, w1)) of (rc, w2) \<Rightarrow>
                     if rc \<noteq> TPM_RC_SUCCESS then Ret (rc, c, None, w2)
                     else obind (decrypt_parameter env c area w2) (\<lambda>(rc, c1). Ret (rc, c1, Some area, w2))))))"

definition CheckAuthNoSession :: "auth_env \<Rightarrow> COMMAND \<Rightarrow> world \<Rightarrow> TPM_RC \<times> world" where
  "CheckAuthNoSession env c w =
     (if list_ex (\<lambda>i. ce_role env (c_code c) i \<noteq> AUTH_NONE) [0..<length (c_handles c)] then (TPM_RC_AUTH_MISSING, w)
      else if ae_auditRequired env (c_code c) then CheckCommandAudit env c w else (TPM_RC_SUCCESS, w))"

end
