(* ===== verification/NV_Cache.thy ===== *)
theory NV_Cache
  imports NV_Counters
begin

text \<open>
  The cache of the last NV index that was looked up. In a state in which the cache is empty or agrees with the
  store, a lookup through the cache is a lookup in the store, and a write to the data of an index keeps the
  agreement. The authorization of a command uses several lookups and PIN updates one after the other.
\<close>

definition nv_sync :: "nv_state \<Rightarrow> bool" where
  "nv_sync s \<longleftrightarrow> nv_wf s \<and> (nvIndex (cached_pub s) = TPM_RH_UNASSIGNED
     \<or> (\<exists>i d. cached_at s (nvIndex (cached_pub s)) i (s_cachedNvIndex s) d))"

lemma nv_sync_wf: "nv_sync s \<Longrightarrow> nv_wf s"
  by (simp add: nv_sync_def)

lemma cached_at_sync: "cached_at s h i ix d \<Longrightarrow> nv_sync s"
  using nv_lookup_ok [of s h ix d] by (auto simp: nv_sync_def cached_at_def)

lemma find_cache_simps [simp]:
  fixes s :: nv_state
  shows "NvFindHandle (s\<lparr>s_cachedNvIndex := x\<rparr>) h = NvFindHandle s h" "NvRamGetIndex (s\<lparr>s_cachedNvIndex := x\<rparr>) h = NvRamGetIndex s h"
  by (simp_all add: NvFindHandle_spec NvRamGetIndex_def)

lemma NvGetIndexInfo_uncached:
  assumes "nvIndex (cached_pub s) \<noteq> h" "h \<noteq> TPM_RH_UNASSIGNED"
  shows "NvGetIndexInfo h s = NvGetIndexInfo h (s\<lparr>s_cachedNvIndex := (s_cachedNvIndex s)\<lparr>nv_public :=
     (nv_public (s_cachedNvIndex s))\<lparr>nvIndex := TPM_RH_UNASSIGNED\<rparr>\<rparr>\<rparr>)"
  using assms
  by (cases "NvFindHandle s h"; cases "nv_list s ! the (NvFindHandle s h)"; cases "NvRamGetIndex s h")
    (simp_all add: NvGetIndexInfo_def Let_def)

lemma nv_index_handle: "HandleGetType h = TPM_HT_NV_INDEX \<Longrightarrow> h \<noteq> TPM_RH_UNASSIGNED"
  by (auto simp: HandleGetType_def tpm_consts)

lemma cache_index_simps [simp]:
  fixes s :: nv_state
  shows "entry_of (s\<lparr>s_cachedNvIndex := x\<rparr>) = entry_of s" "ram_of (s\<lparr>s_cachedNvIndex := x\<rparr>) = ram_of s"
    "nv_lookup (s\<lparr>s_cachedNvIndex := x\<rparr>) = nv_lookup s" "nv_wf (s\<lparr>s_cachedNvIndex := x\<rparr>) = nv_wf s"
  by (simp_all add: entry_of_def ram_of_def nv_lookup_def nv_wf_def NvGetEnd_def fun_eq_iff)

lemma NvGetIndexInfo_sync:
  assumes "nv_sync s" "nv_lookup s h = Some (ix, d)"
  obtains i s' where "NvGetIndexInfo h s = Ret (Some i, s')" "cached_at s' h i ix d" "nv_lookup s' = nv_lookup s"
    "nvStatus s' = nvStatus s" "s_cachedNvIndex s' = ix"
proof (cases "nvIndex (cached_pub s) = h")
  case True
  have "h \<noteq> TPM_RH_UNASSIGNED"
    using nv_lookup_ok [OF nv_sync_wf [OF assms(1)] assms(2)] nv_index_handle by auto
  then obtain i d1 where c: "cached_at s h i (s_cachedNvIndex s) d1"
    using assms(1) True by (auto simp: nv_sync_def)
  then have "s_cachedNvIndex s = ix" "d1 = d"
    using assms(2) by (auto simp: cached_at_def)
  with c True that [of i s] show ?thesis
    by (simp add: NvGetIndexInfo_def cached_at_def)
next
  case False
  let ?s = "s\<lparr>s_cachedNvIndex := (s_cachedNvIndex s)\<lparr>nv_public := (nv_public (s_cachedNvIndex s))\<lparr>nvIndex := TPM_RH_UNASSIGNED\<rparr>\<rparr>\<rparr>"
  have ne: "h \<noteq> TPM_RH_UNASSIGNED"
    using nv_lookup_ok [OF nv_sync_wf [OF assms(1)] assms(2)] nv_index_handle by auto
  have "nv_wf ?s" "nvIndex (cached_pub ?s) = TPM_RH_UNASSIGNED" "nv_lookup ?s h = Some (ix, d)"
    using assms by (simp_all add: nv_sync_def)
  then obtain i r where
    "NvGetIndexInfo h ?s = Ret (Some i, ?s\<lparr>s_cachedNvRef := Some i, s_cachedNvRamRef := r, s_cachedNvIndex := ix\<rparr>)"
    "cached_at (?s\<lparr>s_cachedNvRef := Some i, s_cachedNvRamRef := r, s_cachedNvIndex := ix\<rparr>) h i ix d"
    by (rule NvGetIndexInfo_found)
  with that [of i "s\<lparr>s_cachedNvRef := Some i, s_cachedNvRamRef := r, s_cachedNvIndex := ix\<rparr>"]
  show ?thesis
    unfolding NvGetIndexInfo_uncached [OF False ne] by simp
qed

lemma NvGetIndexInfo_sync_None:
  assumes "nv_sync s" "nv_lookup s h = None" "HandleGetType h = TPM_HT_NV_INDEX"
  obtains s' where "NvGetIndexInfo h s = Ret (None, s')" "nv_sync s'" "nv_lookup s' = nv_lookup s" "nvStatus s' = nvStatus s"
proof -
  have ne: "h \<noteq> TPM_RH_UNASSIGNED"
    using assms(3) by (rule nv_index_handle)
  have "nvIndex (cached_pub s) \<noteq> h"
    using assms(1,2) ne by (auto simp: nv_sync_def cached_at_def)
  moreover have "entry_of s h = None"
  proof (rule ccontr)
    assume "entry_of s h \<noteq> None"
    then obtain e where e: "entry_of s h = Some e" "view_entry (ram_of s) h e = None"
      using assms(2) by (auto simp: nv_lookup_def)
    then have m: "e \<in> set (nv_list s)" "entry_handle e = h"
      using kmap_SomeD by (fastforce simp: entry_of_def)+
    from e m ram_wf_orderly [OF nv_wfD(4) [OF nv_sync_wf [OF assms(1)]], of h e] nv_wfD(3) [OF nv_sync_wf [OF assms(1)] m(1)] assms(3)
    show False
      by (cases e) (auto simp: view_entry_def entry_of_def ram_of_def tpm_consts split: if_splits)
  qed
  ultimately show ?thesis
    using that [of "s\<lparr>s_cachedNvIndex := (s_cachedNvIndex s)\<lparr>nv_public := (nv_public (s_cachedNvIndex s))\<lparr>nvIndex := TPM_RH_UNASSIGNED\<rparr>\<rparr>,
        s_cachedNvRamRef := None, s_cachedNvRef := None\<rparr>"] assms(1)
    by (simp add: NvGetIndexInfo_def NvFindHandle_None_iff [THEN iffD2] nv_sync_def entry_of_def ram_of_def nv_lookup_def nv_wf_def
        NvGetEnd_def fun_eq_iff)
qed

lemma clearOrderly_simps [simp]:
  fixes s :: nv_state
  shows "nv_lookup (s\<lparr>clearOrderly := b\<rparr>) = nv_lookup s" "nv_wf (s\<lparr>clearOrderly := b\<rparr>) = nv_wf s"
    "cached_at (s\<lparr>clearOrderly := b\<rparr>) = cached_at s"
  by (simp_all add: cached_at_def nv_lookup_def entry_of_def ram_of_def nv_wf_def NvGetEnd_def fun_eq_iff)

text \<open>A write of eight octets to a written index of that size.\<close>

lemma NvWriteUINT64Data_sync:
  assumes "cached_at s h i ix d" "na_WRITTEN (nv_attributes (nv_public ix))" "dataSize (nv_public ix) = 8"
  obtains rc s' where "NvWriteUINT64Data v s = Ret (rc, s')" "nv_sync s'" "nvStatus s' = nvStatus s"
    "nv_lookup s' = (nv_lookup s)(h \<mapsto> (ix, if nvStatus s = TPM_RC_SUCCESS \<or> na_ORDERLY (nv_attributes (nv_public ix)) then be 8 v else d))"
proof -
  have c: "nv_wf s" "s_cachedNvRef s = Some i" "s_cachedNvIndex s = ix" "i < length (nv_list s)"
    "entry_handle (nv_list s ! i) = h" "nv_lookup s h = Some (ix, d)"
    using assms(1) by (auto simp: cached_at_def)
  have k: "nvIndex (nv_public ix) = h" and len: "length d = 8"
    using nv_lookup_ok [OF c(1,6)] assms(3) by auto
  have ov: "overwrite 0 (be 8 v) d = be 8 v"
    using len by (simp add: overwrite_def)
  show ?thesis
  proof (cases "na_ORDERLY (nv_attributes (nv_public ix))")
    case True
    obtain r ix0 where r: "s_cachedNvRamRef s = Some r" "r < length (s_indexOrderlyRam s)"
      "r_handle (s_indexOrderlyRam s ! r) = h" "r_data (s_indexOrderlyRam s ! r) = d"
      "r_attributes (s_indexOrderlyRam s ! r) = nv_attributes (nv_public ix)"
      "nv_list s ! i = IndexEntry (4 + sizeof_NV_INDEX s) ix0 []" "ix = set_attributes (nv_attributes (nv_public ix)) ix0"
      "na_ORDERLY (nv_attributes (nv_public ix0))"
      by (rule cached_at_orderly [OF assms(1) True])
    let ?g = "r_data_update (overwrite 0 (be 8 v))"
    let ?s = "upd_ram r ?g s"
    have e: "entry_of s (r_handle (s_indexOrderlyRam s ! r)) = Some (IndexEntry (4 + sizeof_NV_INDEX s) ix0 [])"
      using entry_of_nth [OF c(1,4)] c(5) r(3,6) by simp
    have u: "nv_wf ?s" "nv_lookup ?s = (nv_lookup s)(h \<mapsto> (ix, be 8 v))"
      using nv_wf_upd_ram [OF c(1) r(2) refl, of ?g, OF _ _ _ _ e r(8)] r ov len by auto
    have "cached_at ?s h i ix (be 8 v)"
      using u c r True by (auto simp: cached_at_def) (auto simp: upd_ram_def)
    then have "nv_sync ?s"
      by (rule cached_at_sync)
    then have sy: "nv_sync (?s\<lparr>clearOrderly := True\<rparr>)"
      by (simp add: nv_sync_def)
    show ?thesis
      by (rule that [of TPM_RC_SUCCESS "?s\<lparr>clearOrderly := True\<rparr>"])
        (use True assms(2,3) c r sy u in \<open>simp_all add: NvWriteUINT64Data_def NvWriteIndexData_def\<close>)
  next
    case False
    have e: "nv_list s ! i = IndexEntry (4 + sizeof_NV_INDEX s + length d) ix d"
      by (rule cached_at_plain [OF assms(1) False])
    have w: "NvWriteUINT64Data v s = Ret (NvConditionallyWrite i (upd_data (overwrite 0 (be 8 v))) s)"
      using False assms(2,3) c by (simp add: NvWriteUINT64Data_def NvWriteIndexData_def)
    show ?thesis
    proof (cases "nvStatus s = TPM_RC_SUCCESS")
      case True
      let ?s = "upd_entry i (upd_data (overwrite 0 (be 8 v))) s"
      have u: "nv_wf ?s" "nv_lookup ?s = (nv_lookup s)(h \<mapsto> (ix, be 8 v))"
        using nv_wf_upd_entry [OF c(1,4) e, of "upd_data (overwrite 0 (be 8 v))" ix "be 8 v"] ov len k False
        by (simp_all add: view_entry_def)
      have "cached_at ?s h i ix (be 8 v)"
        using u c e k False by (simp add: cached_at_def) (simp add: upd_entry_def)
      then show ?thesis
        by (intro that [of TPM_RC_SUCCESS ?s]) (use True w u c cached_at_sync in \<open>auto simp: NvConditionallyWrite_available\<close>)
    next
      case un: False
      then show ?thesis
        by (intro that) (use w False cached_at_sync [OF assms(1)] c(6) in \<open>auto simp: NvConditionallyWrite_unavailable fun_eq_iff\<close>)
    qed
  qed
qed

end
