(* ===== verification/Auth_Frame.thy ===== *)
theory Auth_Frame
  imports Auth_Checks NV_Cache
begin

text \<open>
  What the checks of a session area leave alone: the entities, up to the data of PIN indexes and the NV cache, and
  the sessions, up to the note whether the value of the entity takes part. Everything that an
  authorization depends on is the same in two states that agree in this sense.
\<close>

section \<open>Agreement\<close>

definition plain_sess :: "sess_state \<Rightarrow> sess_state" where
  "plain_sess ss = ss\<lparr>s_sessions := map (session_update (set_includeAuth False)) (s_sessions ss)\<rparr>"

definition nv_public_of :: "nv_state \<Rightarrow> TPM_HANDLE \<rightharpoonup> NV_INDEX" where
  "nv_public_of s h = map_option fst (nv_lookup s h)"

definition same_entities :: "world \<Rightarrow> world \<Rightarrow> bool" where
  "same_entities w w' \<longleftrightarrow> w_hs w' = w_hs w \<and> w_objs w' = w_objs w \<and> w_pcr w' = w_pcr w
     \<and> nv_sync (w_nv w) \<and> nv_sync (w_nv w') \<and> nv_public_of (w_nv w') = nv_public_of (w_nv w)
     \<and> plain_sess (w_sess w') = plain_sess (w_sess w) \<and> length (s_sessions (w_sess w)) = MAX_LOADED_SESSIONS
     \<and> g_NvStatus (w_da w') = g_NvStatus (w_da w) \<and> failedTries (gp (w_da w')) = failedTries (gp (w_da w))
     \<and> maxTries (gp (w_da w')) = maxTries (gp (w_da w)) \<and> lockOutAuthEnabled (gp (w_da w')) = lockOutAuthEnabled (gp (w_da w))"

lemma same_entities_refl:
  "nv_sync (w_nv w) \<Longrightarrow> length (s_sessions (w_sess w)) = MAX_LOADED_SESSIONS \<Longrightarrow> same_entities w w"
  by (simp add: same_entities_def)

lemma same_entities_trans [trans]: "same_entities w w1 \<Longrightarrow> same_entities w1 w2 \<Longrightarrow> same_entities w w2"
  by (simp add: same_entities_def)

section \<open>Lookups\<close>

lemma nv_entity_sync:
  assumes "nv_sync (w_nv w)" "HandleGetType h = TPM_HT_NV_INDEX"
  shows "nv_entity w h = Ret (nv_public_of (w_nv w) h)"
proof (cases "nv_lookup (w_nv w) h")
  case None
  then obtain s' where "NvGetIndexInfo h (w_nv w) = Ret (None, s')"
    by (rule NvGetIndexInfo_sync_None [OF assms(1) _ assms(2)])
  with None show ?thesis
    by (simp add: nv_entity_def nv_public_of_def)
next
  case (Some x)
  then have "nv_lookup (w_nv w) h = Some (fst x, snd x)"
    by simp
  then obtain i s' where "NvGetIndexInfo h (w_nv w) = Ret (Some i, s')" "s_cachedNvIndex s' = fst x"
    by (rule NvGetIndexInfo_sync [OF assms(1)])
  with Some show ?thesis
    by (simp add: nv_entity_def nv_public_of_def)
qed

lemma nv_index_same:
  "same_entities w w' \<Longrightarrow> HandleGetType h = TPM_HT_NV_INDEX \<Longrightarrow> nv_index w' h = nv_index w h"
  by (simp add: nv_index_def nv_entity_sync same_entities_def)

lemma object_at_same: "same_entities w w' \<Longrightarrow> object_at w' h = object_at w h"
  by (simp add: object_at_def same_entities_def)

lemma entity_same:
  assumes "same_entities w w'"
  shows "EntityGetAuthValue w' h = EntityGetAuthValue w h" "EntityGetAuthPolicy w' h = EntityGetAuthPolicy w h"
    "EntityGetName hashf w' h = EntityGetName hashf w h"
  unfolding EntityGetAuthValue_def EntityGetAuthPolicy_def EntityGetName_def Let_def
  using assms nv_index_same [OF assms, of h] object_at_same [OF assms, of h]
  by (auto simp: same_entities_def)

lemma plain_sess_eqD:
  assumes "plain_sess ss' = plain_sess ss"
  shows "contextArray ss' = contextArray ss" "g_time ss' = g_time ss" "g_timeEpoch ss' = g_timeEpoch ss"
    "gr_pcrCounter ss' = gr_pcrCounter ss"
    "map (session_update (set_includeAuth False)) (s_sessions ss') = map (session_update (set_includeAuth False)) (s_sessions ss)"
  using arg_cong [OF assms, of contextArray] arg_cong [OF assms, of g_time] arg_cong [OF assms, of g_timeEpoch]
    arg_cong [OF assms, of gr_pcrCounter] arg_cong [OF assms, of s_sessions]
  by (simp_all add: plain_sess_def)

lemma view_same:
  assumes "same_entities w w'"
  shows "view env w' = view env w"
proof -
  have p: "plain_sess (w_sess w') = plain_sess (w_sess w)" and n: "g_NvStatus (w_da w') = g_NvStatus (w_da w)"
    using assms by (simp_all add: same_entities_def)
  show ?thesis
    unfolding view_def entity_same [OF assms] plain_sess_eqD [OF p] n ..
qed

section \<open>Sessions\<close>

lemma map_eq_nth: "map f xs = map f ys \<Longrightarrow> f (xs ! k) = f (ys ! k)"
proof -
  assume a: "map f xs = map f ys"
  then have "length xs = length ys"
    by (rule map_eq_imp_length_eq)
  then show ?thesis
    using a by (induction xs ys arbitrary: k rule: list_induct2) (auto simp: nth_Cons split: nat.splits)
qed

definition same_session :: "SESSION \<Rightarrow> SESSION \<Rightarrow> bool" where
  "same_session se se' \<longleftrightarrow> set_includeAuth False se' = set_includeAuth False se"

lemma same_session_refl [simp]: "same_session se se"
  by (simp add: same_session_def)

lemma set_includeAuth_twice [simp]: "set_includeAuth a (set_includeAuth b se) = set_includeAuth a se"
  by (simp add: set_includeAuth_def)

lemma set_includeAuth_self [simp]: "set_includeAuth (includeAuth (attributes se)) se = se"
  by (simp add: set_includeAuth_def)

lemma same_session_set [simp]: "same_session se (set_includeAuth b se)"
  by (simp add: same_session_def)

lemma set_includeAuth_fields [simp]:
  "includeAuth (attributes (set_includeAuth b se)) = b" "isPolicy (attributes (set_includeAuth b se)) = isPolicy (attributes se)"
  "isPasswordNeeded (attributes (set_includeAuth b se)) = isPasswordNeeded (attributes se)"
  "isAuthValueNeeded (attributes (set_includeAuth b se)) = isAuthValueNeeded (attributes se)"
  "isBound (attributes (set_includeAuth b se)) = isBound (attributes se)"
  "isTrialPolicy (attributes (set_includeAuth b se)) = isTrialPolicy (attributes se)"
  "nonceTPM (set_includeAuth b se) = nonceTPM se" "sessionKey (set_includeAuth b se) = sessionKey se"
  "authHashAlg (set_includeAuth b se) = authHashAlg se" "u1 (set_includeAuth b se) = u1 se" "u2 (set_includeAuth b se) = u2 se"
  by (simp_all add: set_includeAuth_def)

lemma same_sessionE:
  assumes "same_session se se'"
  obtains b where "se' = set_includeAuth b se"
proof
  let ?b = "includeAuth (attributes se')"
  have "set_includeAuth ?b (set_includeAuth False se') = set_includeAuth ?b (set_includeAuth False se)"
    using assms by (simp add: same_session_def)
  then show "se' = set_includeAuth ?b se"
    by simp
qed

lemma session_at_same:
  assumes "same_entities w w'" "session_at w' h = Ret se'"
  obtains se where "session_at w h = Ret se" "same_session se se'"
proof -
  have p: "plain_sess (w_sess w') = plain_sess (w_sess w)"
    using assms(1) by (simp add: same_entities_def)
  have g: "SessionGet (w_sess w') h = SessionGet (w_sess w) h"
    by (simp add: SessionGet_def plain_sess_eqD [OF p])
  obtain k where k: "SessionGet (w_sess w) h = Ret k" "se' = session (s_sessions (w_sess w') ! k)"
    using assms(2) by (cases "SessionGet (w_sess w) h") (auto simp: session_at_def g)
  have "session_update (set_includeAuth False) (s_sessions (w_sess w') ! k) = session_update (set_includeAuth False) (s_sessions (w_sess w) ! k)"
    by (rule map_eq_nth) (rule plain_sess_eqD(5) [OF p])
  then have "same_session (session (s_sessions (w_sess w) ! k)) se'"
    unfolding same_session_def k(2) by (metis SESSION_SLOT.select_convs(2) SESSION_SLOT.surjective SESSION_SLOT.update_convs(2))
  then show ?thesis
    using that k by (simp add: session_at_def)
qed

lemma update_includeAuth:
  assumes "same_entities w0 w" "update_session h (set_includeAuth b) w = Ret w1"
  obtains se where "session_at w h = Ret se" "session_at w1 h = Ret (set_includeAuth b se)" "same_entities w0 w1"
    "w_cpHash w1 = w_cpHash w"
proof -
  have p: "plain_sess (w_sess w) = plain_sess (w_sess w0)" and l: "length (s_sessions (w_sess w0)) = MAX_LOADED_SESSIONS"
    using assms(1) by (simp_all add: same_entities_def)
  have n: "length (s_sessions (w_sess w)) = MAX_LOADED_SESSIONS"
    using l map_eq_imp_length_eq [OF plain_sess_eqD(5) [OF p]] by simp
  obtain k where k: "SessionGet (w_sess w) h = Ret k"
    using assms(2) by (cases "SessionGet (w_sess w) h") (auto simp: update_session_def)
  then have lk: "k < length (s_sessions (w_sess w))"
    using n by (auto simp: SessionGet_def pAssert_def Let_def split: if_splits)
  let ?x = "s_sessions (w_sess w) ! k"
  have w1: "w1 = w\<lparr>w_sess := (w_sess w)\<lparr>s_sessions := (s_sessions (w_sess w))[k := ?x\<lparr>session := set_includeAuth b (session ?x)\<rparr>]\<rparr>\<rparr>"
    using assms(2) k by (simp add: update_session_def Let_def)
  have m: "map f (xs[k := y]) = map f xs" if "f y = f (xs ! k)" for f :: "SESSION_SLOT \<Rightarrow> SESSION_SLOT" and xs y
    using that by (metis list_update_id map_update)
  have "plain_sess (w_sess w1) = plain_sess (w_sess w)"
    unfolding w1 by (simp add: plain_sess_def m)
  then have "same_entities w0 w1"
    using assms(1) w1 by (simp add: same_entities_def)
  moreover have "SessionGet (w_sess w1) h = Ret k"
    using k by (simp add: w1 SessionGet_def)
  ultimately show ?thesis
    using that [of "session ?x"] k lk by (simp add: session_at_def w1)
qed

section \<open>The policy check and PIN indexes\<close>

lemma with_index_sync:
  assumes "nv_sync s" "HandleGetType h = TPM_HT_NV_INDEX" "with_index h s k = Ret r"
  obtains i ix d s1 where "nv_lookup s h = Some (ix, d)" "cached_at s1 h i ix d" "nv_lookup s1 = nv_lookup s" "nvStatus s1 = nvStatus s"
    "k i (nv_public ix) s1 = Ret r"
proof (cases "nv_lookup s h")
  case None
  then obtain s' where "NvGetIndexInfo h s = Ret (None, s')"
    by (rule NvGetIndexInfo_sync_None [OF assms(1) _ assms(2)])
  with assms(3) show ?thesis
    by (simp add: with_index_def)
next
  case (Some x)
  then have x: "nv_lookup s h = Some (fst x, snd x)"
    by simp
  obtain i s' where "NvGetIndexInfo h s = Ret (Some i, s')" "cached_at s' h i (fst x) (snd x)" "nv_lookup s' = nv_lookup s"
    "nvStatus s' = nvStatus s" "s_cachedNvIndex s' = fst x"
    by (rule NvGetIndexInfo_sync [OF assms(1) x])
  with x that [of "fst x" "snd x" s' i] assms(3) show ?thesis
    by (simp add: with_index_def)
qed

lemma update_pin_same:
  assumes "nv_sync s" "HandleGetType h = TPM_HT_NV_INDEX" "update_pin rc h s = Ret s'"
  shows "nv_sync s' \<and> nv_public_of s' = nv_public_of s"
proof -
  obtain i ix d s1 where lk: "nv_lookup s h = Some (ix, d)" and c: "cached_at s1 h i ix d" and s1: "nv_lookup s1 = nv_lookup s"
    and k: "(let a = nv_attributes (nv_public ix) in
       if IsNvPinFailIndex a \<and> na_WRITTEN a then
         obind (NvGetUINT64Data (s_cachedNvIndex s1) (Some i) s1) (\<lambda>v.
           obind (NvWriteUINT64Data (set_pinCount (if rc \<noteq> TPM_RC_SUCCESS then pinCount v + 1 else 0) v) s1) (\<lambda>(rc, s2). Ret s2))
       else if IsNvPinPassIndex a \<and> na_WRITTEN a \<and> rc = TPM_RC_SUCCESS then
         obind (NvGetUINT64Data (s_cachedNvIndex s1) (Some i) s1) (\<lambda>v.
           obind (NvWriteUINT64Data (set_pinCount (pinCount v + 1) v) s1) (\<lambda>(rc, s2). Ret s2))
       else Ret s1) = Ret s'"
    by (rule with_index_sync [OF assms(1,2) assms(3) [unfolded update_pin_def]])
  let ?a = "nv_attributes (nv_public ix)"
  consider "s' = s1" | v where "na_WRITTEN ?a" "IsNvPinFailIndex ?a \<or> IsNvPinPassIndex ?a"
      "obind (NvWriteUINT64Data v s1) (\<lambda>(rc, s2). Ret s2) = Ret s'"
    using k by (cases "NvGetUINT64Data (s_cachedNvIndex s1) (Some i) s1") (auto simp: Let_def split: if_splits)
  then show ?thesis
  proof cases
    case 1
    then show ?thesis
      using cached_at_sync [OF c] s1 by (simp add: nv_public_of_def fun_eq_iff)
  next
    case 2
    have "public_ok (nv_public ix)"
      using nv_lookup_ok [OF nv_sync_wf [OF assms(1)] lk] by simp
    then have "dataSize (nv_public ix) = 8"
      using 2(2) by (auto simp: public_ok_def size_ok_def IsNvPinFailIndex_def IsNvPinPassIndex_def Let_def tpm_consts split: if_splits)
    then obtain rc2 t where t: "NvWriteUINT64Data v s1 = Ret (rc2, t)" "nv_sync t"
      "nv_lookup t = (nv_lookup s1)(h \<mapsto> (ix, if nvStatus s1 = TPM_RC_SUCCESS \<or> na_ORDERLY ?a then be 8 v else d))"
      by (rule NvWriteUINT64Data_sync [OF c 2(1)])
    then show ?thesis
      using 2(3) lk s1 by (simp add: nv_public_of_def fun_eq_iff)
  qed
qed

text \<open>The policy check looks at the NV index only to compare its written state.\<close>

definition written_check :: "TPM_HANDLE \<Rightarrow> SESSION \<Rightarrow> nv_state \<Rightarrow> (TPM_RC \<times> nv_state) outcome" where
  "written_check h se s = with_index h s (\<lambda>i p s1.
     Ret (if na_WRITTEN (nv_attributes p) \<noteq> nvWrittenState (attributes se) then TPM_RC_POLICY_FAIL else TPM_RC_SUCCESS, s1))"

definition settled_or_written :: "TPM_HANDLE \<Rightarrow> SESSION \<Rightarrow> (nv_state \<Rightarrow> (TPM_RC \<times> nv_state) outcome) \<Rightarrow> bool" where
  "settled_or_written h se f \<longleftrightarrow> (\<exists>rc. f = (\<lambda>s. Ret (rc, s))) \<or> HandleGetType h = TPM_HT_NV_INDEX \<and> f = written_check h se"

lemma settled_or_written_if:
  "settled_or_written h se (\<lambda>s. Ret (rc, s))"
  "settled_or_written h se f \<Longrightarrow> settled_or_written h se g \<Longrightarrow> settled_or_written h se (\<lambda>s. if P then f s else g s)"
  by (auto simp: settled_or_written_def) (cases P; auto)+

lemma settled_or_written_nv:
  "settled_or_written h se (\<lambda>s. if HandleGetType h \<noteq> TPM_HT_NV_INDEX then Ret (rc, s) else written_check h se s)"
  by (cases "HandleGetType h = TPM_HT_NV_INDEX") (auto simp: settled_or_written_def)

lemma CheckPolicyAuthSession_settled: "settled_or_written h se (CheckPolicyAuthSession env ss c i h se)"
  unfolding CheckPolicyAuthSession_def [abs_def] Let_def split_beta written_check_def [symmetric]
  by (intro settled_or_written_if settled_or_written_nv)

lemma CheckPolicyAuthSession_includeAuth:
  assumes "gr_pcrCounter ss' = gr_pcrCounter ss"
  shows "CheckPolicyAuthSession env ss' c i h (set_includeAuth b se) = CheckPolicyAuthSession env ss c i h se"
proof -
  have f: "command_hash_ok env c (set_includeAuth b se) = command_hash_ok env c se"
    "SessionPCRValueIsCurrent ss' (set_includeAuth b se) = SessionPCRValueIsCurrent ss se"
    using assms
    by (simp_all add: command_hash_ok_def CompareNameHash_def CompareParametersHash_def CompareTemplateHash_def set_includeAuth_def
        SessionPCRValueIsCurrent_def Let_def split: option.splits)
  have a: "timeout (set_includeAuth b se) = timeout se" "epoch (set_includeAuth b se) = epoch se"
    "commandCode (set_includeAuth b se) = commandCode se" "commandLocality (set_includeAuth b se) = commandLocality se"
    "isPPRequired (attributes (set_includeAuth b se)) = isPPRequired (attributes se)"
    "checkNvWritten (attributes (set_includeAuth b se)) = checkNvWritten (attributes se)"
    "nvWrittenState (attributes (set_includeAuth b se)) = nvWrittenState (attributes se)"
    by (simp_all add: set_includeAuth_def)
  show ?thesis
    unfolding CheckPolicyAuthSession_def [abs_def] Let_def f a set_includeAuth_fields ..
qed

lemma written_check_same:
  assumes "written_check h se s' = Ret (rc, t')" "HandleGetType h = TPM_HT_NV_INDEX"
    and "nv_sync s" "nv_sync s'" "nv_public_of s' = nv_public_of s"
  shows "nv_sync t' \<and> nv_public_of t' = nv_public_of s \<and> (\<exists>t. written_check h se s = Ret (rc, t))"
proof -
  obtain j ix d s1 where lk: "nv_lookup s' h = Some (ix, d)" "cached_at s1 h j ix d" "nv_lookup s1 = nv_lookup s'"
    and r: "Ret (if na_WRITTEN (nv_attributes (nv_public ix)) \<noteq> nvWrittenState (attributes se) then TPM_RC_POLICY_FAIL
       else TPM_RC_SUCCESS, s1) = Ret (rc, t')"
    by (rule with_index_sync [OF assms(4,2) assms(1) [unfolded written_check_def]])
  obtain d2 where "nv_lookup s h = Some (ix, d2)"
    using fun_cong [OF assms(5), of h] lk(1) by (cases "nv_lookup s h") (auto simp: nv_public_of_def)
  then obtain i2 s2 where "NvGetIndexInfo h s = Ret (Some i2, s2)" "s_cachedNvIndex s2 = ix"
    by (rule NvGetIndexInfo_sync [OF assms(3)])
  then show ?thesis
    using r lk cached_at_sync [OF lk(2)] assms(5) by (simp add: written_check_def with_index_def nv_public_of_def fun_eq_iff)
qed

lemma CheckPolicyAuthSession_same:
  assumes "CheckPolicyAuthSession env ss' c i h (set_includeAuth b se) s' = Ret (rc, t')"
    and "nv_sync s" "nv_sync s'" "nv_public_of s' = nv_public_of s" "gr_pcrCounter ss' = gr_pcrCounter ss"
  shows "nv_sync t' \<and> nv_public_of t' = nv_public_of s \<and> (\<exists>t. CheckPolicyAuthSession env ss c i h se s = Ret (rc, t))"
  using CheckPolicyAuthSession_settled [of h se env ss c i] written_check_same [of h se s' rc t' s] assms
  unfolding settled_or_written_def CheckPolicyAuthSession_includeAuth [OF assms(5)] by auto

end
