(* ===== verification/Auth_Demo.thy ===== *)
theory Auth_Demo
  imports Auth_Frame Policy_Soundness DA_Protection PCR_Counter
begin

text \<open>
  A TPM in which the authorization theorems are exercised: an NV index with a PIN that has two failed uses of five, an
  HMAC session and the command that reads the index.
\<close>

text \<open>Big-endian values are evaluated on words.\<close>

lemma foldl_be_word:
  "foldl (\<lambda>v b. v * 256 + ucast b) (word_of_nat n) bs = (word_of_nat (foldl (\<lambda>n b. n * 256 + unat b) n bs) :: u64)"
proof (induction bs arbitrary: n)
  case (Cons b bs)
  have e: "word_of_nat n * 256 + ucast b = (word_of_nat (n * 256 + unat b) :: u64)"
    by (simp add: unsigned_ucast_eq)
  show ?case
    unfolding foldl_Cons e Cons.IH ..
qed simp

lemma from_be_word [code]: "from_be bs = foldl (\<lambda>v b. v * 256 + ucast b) 0 bs"
  using foldl_be_word [of 0 bs] unfolding from_be_def by (metis semiring_1_class.of_nat_0)

definition demo_pin :: TPM_HANDLE where "demo_pin = 0x01000001"

definition demo_pin_index :: NV_INDEX where
  "demo_pin_index = \<lparr>nv_public = demo_public demo_pin (demo_attributes\<lparr>na_TPM_NT := TPM_NT_PIN_FAIL, na_AUTHREAD := True, na_WRITTEN := True,
     na_NO_DA := True, na_WRITEDEFINE := False\<rparr>) 8, nv_auth = [1, 2, 3, 4]\<rparr>"

definition demo_pin_nv :: nv_state where
  "demo_pin_nv = demo_nv\<lparr>nv_list := [IndexEntry 13 demo_pin_index (be 8 (0x0000000200000005 :: u64))]\<rparr>"

definition demo_world :: world where
  "demo_world = \<lparr>w_hs = demo_hier, w_objs = \<lparr>s_objects = replicate MAX_LOADED_OBJECTS OBJECT_zero, g_DRTMHandle = TPM_RH_UNASSIGNED\<rparr>,
     w_nv = demo_pin_nv, w_pcr = demo_pcr, w_sess = demo_s1, w_da = demo_tpm, g_exclusiveAuditSession = TPM_RH_UNASSIGNED,
     commandAuditDigest = [], auditCounter = 0, auditHashAlg = TPM_ALG_SHA256, w_cpHash = []\<rparr>"

definition demo_aenv :: auth_env where
  "demo_aenv = check_env.extend (demo_cenv\<lparr>ce_role := (\<lambda>cc i. if i = 0 then AUTH_USER else AUTH_NONE)\<rparr>)
     \<lparr>ae_hmac = (\<lambda>alg k m. demo_hash (k @ m)), ae_sessionAllowed = (\<lambda>cc. True), ae_decryptSize = (\<lambda>cc. 0), ae_encryptSize = (\<lambda>cc. 0),
      ae_ppRequired = (\<lambda>cc. False), ae_isWrite = (\<lambda>cc. False), ae_auditRequired = (\<lambda>cc. False),
      ae_decryption = (\<lambda>se n k x b. (TPM_RC_SUCCESS, b)), ae_encryption = (\<lambda>se n k x b. Ret b), ae_nonce = (\<lambda>i n. replicate n 9)\<rparr>"

definition demo_command :: COMMAND where
  "demo_command = \<lparr>c_code = 0x14E, c_handles = [demo_pin, demo_pin], c_parameterBuffer = [0, 8, 0, 0]\<rparr>"

definition demo_password :: "bytes \<Rightarrow> bytes" where
  "demo_password p = be 4 TPM_RS_PW @ [0, 0, 1] @ be 2 (word_of_nat (length p) :: u16) @ p"

lemma demo_pin_sync: "nv_sync demo_pin_nv"
  by (simp add: nv_sync_def nv_wf_def ram_wf_def demo_pin_nv_def demo_nv_def demo_pin_index_def demo_public_def demo_attributes_def
      public_ok_def size_ok_def type_attributes_ok_def supported_type_def Let_def NvGetEnd_def HandleGetType_def demo_pin_def
      orderly_entry_def tpm_consts)

end
