(* ===== verification/Auth_Soundness.thy ===== *)
theory Auth_Soundness
  imports Auth_Demo
begin

text \<open>
  Soundness of the session processing: a command that passes \<^verbatim>\<open>ParseSessionBuffer\<close> carries, for every handle
  whose role asks for it, an authorization that is valid in the state in which the command arrived. The
  checks of the earlier sessions of the area change PIN counters, lockout state and caches; they do not change
  what the later checks accept.
\<close>

section \<open>What an authorization is\<close>

definition password_valid :: "world \<Rightarrow> AUTH_SESSION \<Rightarrow> bool" where
  "password_valid w s \<longleftrightarrow> EntityGetAuthValue w (associatedHandle s) = Ret (MemoryRemoveTrailingZeros (inputAuthValue s))"

definition hmac_valid :: "auth_env \<Rightarrow> world \<Rightarrow> COMMAND \<Rightarrow> session_area \<Rightarrow> nat \<Rightarrow> bool \<Rightarrow> bool" where
  "hmac_valid env w c area i inc \<longleftrightarrow>
     (let s = sa_sessions area ! i in
      \<exists>se nonces auth. session_at w (sessionHandle s) = Ret se \<and> extra_nonces w area i = Ret nonces
        \<and> (if inc then EntityGetAuthValue w (associatedHandle s) = Ret auth else auth = [])
        \<and> (sessionKey se @ auth = [] \<and> inputAuthValue s = []
           \<or> inputAuthValue s = ae_hmac env (authHashAlg se) (sessionKey se @ auth)
               (ComputeCpHash (view env w) (authHashAlg se) c @ nonceCaller s @ nonceTPM se @ nonces @ [sessionAttributes s])))"

text \<open>For the counters of a PIN index the value is available at the moment of the check.\<close>

definition value_allowed :: "auth_env \<Rightarrow> world \<Rightarrow> COMMAND \<Rightarrow> nat \<Rightarrow> TPM_HANDLE \<Rightarrow> bool" where
  "value_allowed env w c i h \<longleftrightarrow> IsPolicySessionRequired env w c i h = Ret False
     \<and> (HandleGetType h \<noteq> TPM_HT_NV_INDEX \<longrightarrow> IsAuthValueAvailable env w c i h = Ret True)"

definition policy_satisfied :: "auth_env \<Rightarrow> world \<Rightarrow> COMMAND \<Rightarrow> nat \<Rightarrow> TPM_HANDLE \<Rightarrow> SESSION \<Rightarrow> bool" where
  "policy_satisfied env w c i h se \<longleftrightarrow> IsAuthPolicyAvailable env w c i h = Ret True
     \<and> (\<exists>nv. CheckPolicyAuthSession (view env w) (w_sess w) c i h se (w_nv w) = Ret (TPM_RC_SUCCESS, nv))"

definition not_locked :: "world \<Rightarrow> TPM_HANDLE \<Rightarrow> bool" where
  "not_locked w h \<longleftrightarrow> IsDAExempted (obj_noDA w) (nv_noDA w) h
     \<or> (if h = TPM_RH_LOCKOUT then lockOutAuthEnabled (gp (w_da w)) else failedTries (gp (w_da w)) < maxTries (gp (w_da w)))"

definition authorized :: "auth_env \<Rightarrow> world \<Rightarrow> COMMAND \<Rightarrow> session_area \<Rightarrow> nat \<Rightarrow> bool" where
  "authorized env w c area i \<longleftrightarrow>
     (let s = sa_sessions area ! i; h = associatedHandle s in
      (h = TPM_RH_PLATFORM \<and> ae_ppRequired env (c_code c) \<longrightarrow> ce_physicalPresence env)
      \<and> (if sessionHandle s = TPM_RS_PW then value_allowed env w c i h \<and> not_locked w h \<and> password_valid w s
         else \<exists>se. session_at w (sessionHandle s) = Ret se \<and> \<not> isTrialPolicy (attributes se)
           \<and> (if HandleGetType (sessionHandle s) = TPM_HT_POLICY_SESSION then
                policy_satisfied env w c i h se
                \<and> (isAuthValueNeeded (attributes se) \<or> isPasswordNeeded (attributes se) \<longrightarrow> not_locked w h)
                \<and> (if isPasswordNeeded (attributes se) then password_valid w s
                   else hmac_valid env w c area i (isAuthValueNeeded (attributes se)))
              else value_allowed env w c i h
                \<and> (\<exists>bound. IsSessionBindEntity env w h se = Ret bound \<and> (\<not> bound \<longrightarrow> not_locked w h)
                     \<and> (if isPasswordNeeded (attributes se) then password_valid w s else hmac_valid env w c area i (\<not> bound))))))"

section \<open>States along the checks\<close>

definition follows :: "auth_env \<Rightarrow> COMMAND \<Rightarrow> world \<Rightarrow> world \<Rightarrow> bool" where
  "follows env c w0 w \<longleftrightarrow> same_entities w0 w
     \<and> (\<forall>alg h. map_of (w_cpHash w) alg = Some h \<longrightarrow> h = ComputeCpHash (view env w0) alg c)"

lemma followsD: "follows env c w0 w \<Longrightarrow> same_entities w0 w"
  by (simp add: follows_def)

lemma follows_update:
  assumes "follows env c w0 w"
  shows "nv_sync nv \<Longrightarrow> nv_public_of nv = nv_public_of (w_nv w0) \<Longrightarrow> follows env c w0 (w\<lparr>w_nv := nv\<rparr>)"
    and "g_NvStatus da = g_NvStatus (w_da w) \<Longrightarrow> failedTries (gp da) = failedTries (gp (w_da w)) \<Longrightarrow>
      maxTries (gp da) = maxTries (gp (w_da w)) \<Longrightarrow> lockOutAuthEnabled (gp da) = lockOutAuthEnabled (gp (w_da w)) \<Longrightarrow>
      follows env c w0 (w\<lparr>w_da := da\<rparr>)"
  using assms by (simp_all add: follows_def same_entities_def)

lemma cp_hash_follows:
  assumes "follows env c w0 w" "cp_hash env alg c w = (h, w1)"
  shows "h = ComputeCpHash (view env w0) alg c" "follows env c w0 w1" "w_sess w1 = w_sess w"
proof -
  have "view env w = view env w0"
    by (rule view_same) (rule followsD [OF assms(1)])
  then show "h = ComputeCpHash (view env w0) alg c" "follows env c w0 w1" "w_sess w1 = w_sess w"
    using assms by (auto simp: cp_hash_def follows_def same_entities_def Let_def split: option.splits if_splits)
qed

lemma CheckLockedOut_keeps:
  assumes "CheckLockedOut b s = (rc, s')"
  shows "g_NvStatus s' = g_NvStatus s" "failedTries (gp s') = failedTries (gp s)" "maxTries (gp s') = maxTries (gp s)"
    "lockOutAuthEnabled (gp s') = lockOutAuthEnabled (gp s)"
    "rc = TPM_RC_SUCCESS \<Longrightarrow> if b then lockOutAuthEnabled (gp s) else failedTries (gp s) < maxTries (gp s)"
  using assms
  by (auto simp: CheckLockedOut_def Let_def NV_SYNC_PERSISTENT_def tpm_consts split: if_splits)

lemma locked_out_follows:
  assumes "follows env c w0 w" "CheckLockedOut b (w_da w) = (rc, da)"
  shows "follows env c w0 (w\<lparr>w_da := da\<rparr>)"
  using follows_update(2) [OF assms(1)] CheckLockedOut_keeps [OF assms(2)] by blast

lemma noDA_same:
  assumes "same_entities w0 w"
  shows "IsDAExempted (obj_noDA w) (nv_noDA w) h = IsDAExempted (obj_noDA w0) (nv_noDA w0) h"
  using object_at_same [OF assms, of h] nv_index_same [OF assms, of h]
  by (simp add: IsDAExempted_def obj_noDA_def nv_noDA_def)

lemma lockout_check_ok:
  assumes "follows env c w0 w" "lockout_check used h w = (TPM_RC_SUCCESS, w1)"
  shows "follows env c w0 w1" "w_sess w1 = w_sess w" "used \<Longrightarrow> not_locked w0 h"
proof -
  note same = followsD [OF assms(1)]
  have "follows env c w0 w1 \<and> w_sess w1 = w_sess w \<and> (used \<longrightarrow> not_locked w0 h)"
  proof (cases "used \<and> \<not> IsDAExempted (obj_noDA w) (nv_noDA w) h")
    case True
    obtain rc da where l: "CheckLockedOut (h = TPM_RH_LOCKOUT) (w_da w) = (rc, da)"
      by fastforce
    then have "rc = TPM_RC_SUCCESS" "w1 = w\<lparr>w_da := da\<rparr>"
      using assms(2) True by (simp_all add: lockout_check_def)
    then show ?thesis
      using locked_out_follows [OF assms(1) l] CheckLockedOut_keeps(5) [OF l] same
      by (auto simp: not_locked_def same_entities_def)
  next
    case False
    then show ?thesis
      using assms noDA_same [OF same, of h] by (auto simp: lockout_check_def not_locked_def split: if_splits)
  qed
  then show "follows env c w0 w1" "w_sess w1 = w_sess w" "used \<Longrightarrow> not_locked w0 h"
    by auto
qed

section \<open>One authorization\<close>

lemma value_checks_same:
  assumes "same_entities w0 w"
  shows "IsPolicySessionRequired env w c i h = IsPolicySessionRequired env w0 c i h"
    "IsAuthPolicyAvailable env w c i h = IsAuthPolicyAvailable env w0 c i h"
    "HandleGetType h \<noteq> TPM_HT_NV_INDEX \<Longrightarrow> IsAuthValueAvailable env w c i h = IsAuthValueAvailable env w0 c i h"
    "same_session se se' \<Longrightarrow> IsSessionBindEntity env w h se' = IsSessionBindEntity env w0 h se"
proof -
  have e: "w_hs w = w_hs w0" "w_pcr w = w_pcr w0"
    using assms by (simp_all add: same_entities_def)
  show r: "IsPolicySessionRequired env w c i h = IsPolicySessionRequired env w0 c i h"
    unfolding IsPolicySessionRequired_def object_at_same [OF assms] e ..
  show "IsAuthPolicyAvailable env w c i h = IsAuthPolicyAvailable env w0 c i h"
    using nv_index_same [OF assms, of h] unfolding IsAuthPolicyAvailable_def object_at_same [OF assms] e r Let_def by auto
  show "IsAuthValueAvailable env w c i h = IsAuthValueAvailable env w0 c i h" if "HandleGetType h \<noteq> TPM_HT_NV_INDEX"
    using that unfolding IsAuthValueAvailable_def object_at_same [OF assms] Let_def by simp
  show "IsSessionBindEntity env w h se' = IsSessionBindEntity env w0 h se" if "same_session se se'"
    using that unfolding IsSessionBindEntity_def entity_same [OF assms] by (elim same_sessionE) simp
qed

lemma note_auth_use_ok:
  assumes "follows env c w0 w" "note_auth_use env s w = Ret (used, w1)" "sessionHandle s \<noteq> TPM_RS_PW"
  obtains se where "follows env c w0 w1" "session_at w0 (sessionHandle s) = Ret se" "session_at w1 (sessionHandle s) = Ret (set_includeAuth used se)"
    "HandleGetType (sessionHandle s) = TPM_HT_POLICY_SESSION \<longrightarrow> used = (isAuthValueNeeded (attributes se) \<or> isPasswordNeeded (attributes se))"
    "HandleGetType (sessionHandle s) \<noteq> TPM_HT_POLICY_SESSION \<longrightarrow> IsSessionBindEntity env w0 (associatedHandle s) se = Ret (\<not> used)"
proof -
  note same = followsD [OF assms(1)]
  obtain se1 where s1: "session_at w (sessionHandle s) = Ret se1"
    using assms(2,3) by (cases "session_at w (sessionHandle s)") (auto simp: note_auth_use_def)
  obtain se where se: "session_at w0 (sessionHandle s) = Ret se" "same_session se se1"
    by (rule session_at_same [OF same s1])
  obtain inc where inc: "(if HandleGetType (sessionHandle s) = TPM_HT_POLICY_SESSION
       then Ret (isAuthValueNeeded (attributes se1) \<or> isPasswordNeeded (attributes se1))
       else obind (IsSessionBindEntity env w (associatedHandle s) se1) (\<lambda>b. Ret (\<not> b))) = Ret inc"
    "obind (update_session (sessionHandle s) (set_includeAuth inc) w) (\<lambda>w1. Ret (inc, w1)) = Ret (used, w1)"
    using assms(2,3) s1
    by (cases "IsSessionBindEntity env w (associatedHandle s) se1") (auto simp: note_auth_use_def split: if_splits)
  then have u: "inc = used" "update_session (sessionHandle s) (set_includeAuth used) w = Ret w1"
    by (cases "update_session (sessionHandle s) (set_includeAuth inc) w"; simp)+
  obtain se2 where u2: "session_at w (sessionHandle s) = Ret se2" "session_at w1 (sessionHandle s) = Ret (set_includeAuth used se2)"
    "same_entities w0 w1" "w_cpHash w1 = w_cpHash w"
    by (rule update_includeAuth [OF same u(2)])
  obtain b where b: "se1 = set_includeAuth b se"
    using se(2) by (rule same_sessionE)
  show ?thesis
  proof (rule that [of se])
    show "follows env c w0 w1"
      using assms(1) u2 by (simp add: follows_def)
    show "HandleGetType (sessionHandle s) \<noteq> TPM_HT_POLICY_SESSION \<longrightarrow> IsSessionBindEntity env w0 (associatedHandle s) se = Ret (\<not> used)"
      using inc(1) u(1) value_checks_same(4) [OF same se(2), of env "associatedHandle s"]
      by (cases "IsSessionBindEntity env w0 (associatedHandle s) se") (auto split: if_splits)
  qed (use u u2 se s1 b inc(1) in auto)
qed

lemma check_kind_ok:
  assumes "follows env c w0 w" "check_kind env c i s w = Ret (TPM_RC_SUCCESS, w1)"
  shows "follows env c w0 w1" "w_sess w1 = w_sess w"
    "HandleGetType (sessionHandle s) \<noteq> TPM_HT_POLICY_SESSION \<Longrightarrow> value_allowed env w0 c i (associatedHandle s)"
    "HandleGetType (sessionHandle s) = TPM_HT_POLICY_SESSION \<Longrightarrow>
       \<exists>se. session_at w0 (sessionHandle s) = Ret se \<and> policy_satisfied env w0 c i (associatedHandle s) se"
proof -
  let ?h = "associatedHandle s" and ?sh = "sessionHandle s"
  note same = followsD [OF assms(1)]
  have "follows env c w0 w1 \<and> w_sess w1 = w_sess w
    \<and> (if HandleGetType ?sh \<noteq> TPM_HT_POLICY_SESSION then value_allowed env w0 c i ?h
       else \<exists>se. session_at w0 ?sh = Ret se \<and> policy_satisfied env w0 c i ?h se)"
  proof (cases "HandleGetType ?sh = TPM_HT_POLICY_SESSION")
    case False
    then show ?thesis
      using assms value_checks_same(3) [OF same, of ?h]
      by (auto simp: check_kind_def value_allowed_def value_checks_same(1) [OF same] Let_def obind_Ret_iff tpm_consts split: if_splits)
  next
    case True
    obtain se1 rc nv where s1: "session_at w ?sh = Ret se1" and a: "IsAuthPolicyAvailable env w0 c i ?h = Ret True"
      and p: "CheckPolicyAuthSession (view env w) (w_sess w) c i ?h se1 (w_nv w) = Ret (TPM_RC_SUCCESS, nv)"
      and w1: "w1 = w\<lparr>w_nv := nv\<rparr>"
      using assms(2) True
      by (auto simp: check_kind_def value_checks_same(2) [OF same] Let_def obind_Ret_iff tpm_consts split: if_splits)
    obtain se where se: "session_at w0 ?sh = Ret se" "same_session se se1"
      by (rule session_at_same [OF same s1])
    obtain b where b: "se1 = set_includeAuth b se"
      using se(2) by (rule same_sessionE)
    have n: "nv_sync (w_nv w0)" "nv_sync (w_nv w)" "nv_public_of (w_nv w) = nv_public_of (w_nv w0)"
      "gr_pcrCounter (w_sess w) = gr_pcrCounter (w_sess w0)"
      using same plain_sess_eqD(4) [of "w_sess w" "w_sess w0"] by (auto simp: same_entities_def)
    have q: "nv_sync nv \<and> nv_public_of nv = nv_public_of (w_nv w0) \<and>
        (\<exists>t. CheckPolicyAuthSession (view env w0) (w_sess w0) c i ?h se (w_nv w0) = Ret (TPM_RC_SUCCESS, t))"
      by (rule CheckPolicyAuthSession_same [OF p [unfolded b view_same [OF same]] n])
    show ?thesis
      using True q a se follows_update(1) [OF assms(1), of nv] by (simp add: w1 policy_satisfied_def)
  qed
  then show "follows env c w0 w1" "w_sess w1 = w_sess w"
    "HandleGetType ?sh \<noteq> TPM_HT_POLICY_SESSION \<Longrightarrow> value_allowed env w0 c i ?h"
    "HandleGetType ?sh = TPM_HT_POLICY_SESSION \<Longrightarrow> \<exists>se. session_at w0 ?sh = Ret se \<and> policy_satisfied env w0 c i ?h se"
    by (auto split: if_splits)
qed

lemma record_failure_code: "record_failure h s = Ret (rc, s') \<Longrightarrow> rc = TPM_RC_AUTH_FAIL"
  unfolding record_failure_def pAssert_def Let_def by (cases "h = TPM_RH_LOCKOUT"; cases "lockOutAuthEnabled (gp s)") simp_all

lemma IncrementLockout_not_success:
  assumes "IncrementLockout f g ss h sh s = Ret (rc, s')"
  shows "rc \<noteq> TPM_RC_SUCCESS"
proof -
  have "rc = TPM_RC_AUTH_FAIL \<or> rc = TPM_RC_BAD_AUTH"
    using assms unfolding IncrementLockout_def Let_def
    by (auto simp: obind_Ret_iff split: if_splits dest: record_failure_code)
  then show ?thesis
    by (auto simp: tpm_consts)
qed

lemma check_password_ok:
  assumes "same_entities w0 w" "check_password s w = Ret (TPM_RC_SUCCESS, w1)"
  shows "password_valid w0 s" "w1 = w"
  using assms(2)
  by (auto simp: check_password_def password_valid_def CheckPWAuthSession_def entity_same [OF assms(1)] obind_Ret_iff
      split: if_splits dest: IncrementLockout_not_success)

lemma nonces_same:
  assumes "same_entities w0 w" "extra_nonces w area i = Ret ns"
  shows "extra_nonces w0 area i = Ret ns"
proof -
  have n: "nonce_of w0 area k = Ret x" if k: "nonce_of w area k = Ret x" for k x
  proof -
    let ?h = "sessionHandle (sa_sessions area ! k)"
    obtain se1 where s1: "session_at w ?h = Ret se1" "nonceTPM se1 = x"
      using k by (auto simp: nonce_of_def obind_Ret_iff)
    obtain se where se: "session_at w0 ?h = Ret se" "same_session se se1"
      by (rule session_at_same [OF assms(1) s1(1)])
    then show ?thesis
      using s1(2) by (elim same_sessionE) (simp add: nonce_of_def)
  qed
  show ?thesis
    using assms(2) by (auto simp: extra_nonces_def obind_Ret_iff split: if_splits option.splits dest: n)
qed

lemma CheckSessionHMAC_ok:
  assumes "follows env c w0 w" "CheckSessionHMAC env c area i w = Ret (TPM_RC_SUCCESS, w1)"
    and "session_at w (sessionHandle (sa_sessions area ! i)) = Ret se1"
  shows "follows env c w0 w1" "hmac_valid env w0 c area i (includeAuth (attributes se1))"
proof -
  let ?s = "sa_sessions area ! i"
  note same = followsD [OF assms(1)]
  obtain hmac where m: "ComputeCommandHMAC env c area i w = Ret (hmac, w1)" "inputAuthValue ?s = hmac"
    using assms(2)
    by (auto simp: CheckSessionHMAC_def count_failure_def obind_Ret_iff split: if_splits dest: IncrementLockout_not_success)
  then obtain ns key where n: "extra_nonces w area i = Ret ns" and k: "hmac_key w ?s se1 = Ret key"
    and r: "(if key = [] \<and> inputAuthValue ?s = [] then Ret ([], w)
        else case cp_hash env (authHashAlg se1) c w of (h, w1) \<Rightarrow>
          Ret (ae_hmac env (authHashAlg se1) key (h @ nonceCaller ?s @ nonceTPM se1 @ ns @ [sessionAttributes ?s]), w1)) = Ret (hmac, w1)"
    using assms(3) by (auto simp: ComputeCommandHMAC_def Let_def obind_Ret_iff)
  obtain h2 w2 where cp: "cp_hash env (authHashAlg se1) c w = (h2, w2)"
    by fastforce
  have h2: "h2 = ComputeCpHash (view env w0) (authHashAlg se1) c" "follows env c w0 w2"
    using cp_hash_follows [OF assms(1) cp] by auto
  then show "follows env c w0 w1"
    using r cp assms(1) by (auto split: if_splits)
  obtain se where se: "session_at w0 (sessionHandle ?s) = Ret se" "same_session se se1"
    by (rule session_at_same [OF same assms(3)])
  obtain b where b: "se1 = set_includeAuth b se"
    using se(2) by (rule same_sessionE)
  obtain auth where a: "if b then EntityGetAuthValue w0 (associatedHandle ?s) = Ret auth else auth = []" "key = sessionKey se @ auth"
    using k b by (cases b) (auto simp: hmac_key_def entity_same [OF same] obind_Ret_iff)
  have "sessionKey se @ auth = [] \<and> inputAuthValue ?s = [] \<or> inputAuthValue ?s = ae_hmac env (authHashAlg se) (sessionKey se @ auth)
      (ComputeCpHash (view env w0) (authHashAlg se) c @ nonceCaller ?s @ nonceTPM se @ ns @ [sessionAttributes ?s])"
    using r cp h2(1) m(2) a(2) b by (auto split: if_splits)
  then show "hmac_valid env w0 c area i (includeAuth (attributes se1))"
    using se(1) nonces_same [OF same n] a(1) b unfolding hmac_valid_def Let_def set_includeAuth_fields b by blast
qed

lemma update_pin_follows:
  assumes "follows env c w0 w" "HandleGetType h = TPM_HT_NV_INDEX" "update_pin rc h (w_nv w) = Ret nv"
  shows "follows env c w0 (w\<lparr>w_nv := nv\<rparr>)"
  using update_pin_same [OF _ assms(2,3)] followsD [OF assms(1)]
  by (intro follows_update(1) [OF assms(1)]) (simp_all add: same_entities_def)

lemma TPM_RS_PW_not_policy: "HandleGetType TPM_RS_PW \<noteq> TPM_HT_POLICY_SESSION"
  by (simp add: HandleGetType_def tpm_consts)

text \<open>The state before the value is checked, the value, and the PIN counter.\<close>

lemma CheckAuthSession_steps:
  assumes "CheckAuthSession env c area i w = Ret (TPM_RC_SUCCESS, w')"
  defines "s \<equiv> sa_sessions area ! i" and "h \<equiv> associatedHandle (sa_sessions area ! i)"
  obtains used w1 w2 w3 w4 where "h = TPM_RH_PLATFORM \<and> ae_ppRequired env (c_code c) \<longrightarrow> ce_physicalPresence env"
    "note_auth_use env s w = Ret (used, w1)" "lockout_check used h w1 = (TPM_RC_SUCCESS, w2)"
    "check_kind env c i s w2 = Ret (TPM_RC_SUCCESS, w3)" "check_value env c area i w3 = Ret (TPM_RC_SUCCESS, w4)"
    "w' = w4 \<or> HandleGetType h = TPM_HT_NV_INDEX \<and> (\<exists>nv. update_pin TPM_RC_SUCCESS h (w_nv w4) = Ret nv \<and> w' = w4\<lparr>w_nv := nv\<rparr>)"
proof -
  have hs: "h = associatedHandle s"
    by (simp add: h_def s_def)
  have pp: "\<not> (h = TPM_RH_PLATFORM \<and> ae_ppRequired env (c_code c) \<and> \<not> ce_physicalPresence env)"
    using assms(1) by (auto simp: CheckAuthSession_def pAssert_def Let_def s_def h_def tpm_consts split: if_splits)
  obtain used w1 where n: "note_auth_use env s w = Ret (used, w1)"
    and r1: "(case lockout_check used h w1 of (rc, w2) \<Rightarrow>
            if rc \<noteq> TPM_RC_SUCCESS then Ret (rc, w2)
            else obind (check_kind env c i s w2) (\<lambda>(rc, w3).
              if rc \<noteq> TPM_RC_SUCCESS then Ret (rc, w3)
              else obind (check_value env c area i w3) (\<lambda>(rc, w4).
                if HandleGetType h = TPM_HT_NV_INDEX \<and> used
                then obind (update_pin rc h (w_nv w4)) (\<lambda>nv. Ret (rc, w4\<lparr>w_nv := nv\<rparr>))
                else Ret (rc, w4)))) = Ret (TPM_RC_SUCCESS, w')"
    using assms(1) pp unfolding CheckAuthSession_def Let_def s_def [symmetric] hs [symmetric]
    by (auto simp: pAssert_def obind_Ret_iff split: if_splits)
  obtain rc2 w2 where l: "lockout_check used h w1 = (rc2, w2)"
    by fastforce
  then obtain w3 where l0: "rc2 = TPM_RC_SUCCESS" and k: "check_kind env c i s w2 = Ret (TPM_RC_SUCCESS, w3)"
    and r2: "obind (check_value env c area i w3) (\<lambda>(rc, w4).
                if HandleGetType h = TPM_HT_NV_INDEX \<and> used
                then obind (update_pin rc h (w_nv w4)) (\<lambda>nv. Ret (rc, w4\<lparr>w_nv := nv\<rparr>))
                else Ret (rc, w4)) = Ret (TPM_RC_SUCCESS, w')"
    using r1 by (auto simp: obind_Ret_iff split: if_splits)
  obtain w4 where v: "check_value env c area i w3 = Ret (TPM_RC_SUCCESS, w4)"
    and r3: "w' = w4 \<or> HandleGetType h = TPM_HT_NV_INDEX \<and> (\<exists>nv. update_pin TPM_RC_SUCCESS h (w_nv w4) = Ret nv \<and> w' = w4\<lparr>w_nv := nv\<rparr>)"
    using r2 by (auto simp: obind_Ret_iff split: if_splits)
  show ?thesis
    using pp n l l0 k v r3 by (intro that [of used w1 w2 w3 w4]) auto
qed

lemma check_value_ok:
  assumes "follows env c w0 w" "check_value env c area i w = Ret (TPM_RC_SUCCESS, w1)"
  defines "s \<equiv> sa_sessions area ! i"
  shows "follows env c w0 w1" "sessionHandle s = TPM_RS_PW \<Longrightarrow> password_valid w0 s"
    "sessionHandle s \<noteq> TPM_RS_PW \<Longrightarrow> session_at w (sessionHandle s) = Ret se1 \<Longrightarrow>
       if isPasswordNeeded (attributes se1) then password_valid w0 s else hmac_valid env w0 c area i (includeAuth (attributes se1))"
proof -
  note same = followsD [OF assms(1)]
  have v: "if sessionHandle s = TPM_RS_PW then check_password s w = Ret (TPM_RC_SUCCESS, w1)
    else \<exists>se. session_at w (sessionHandle s) = Ret se \<and>
      (if isPasswordNeeded (attributes se) then check_password s w else CheckSessionHMAC env c area i w) = Ret (TPM_RC_SUCCESS, w1)"
    using assms(2) unfolding check_value_def Let_def s_def [symmetric] 
    by (cases "sessionHandle s = TPM_RS_PW") (simp_all only: obind_Ret_iff if_True if_False simp_thms)
  show "follows env c w0 w1"
    using v check_password_ok(2) [OF same] CheckSessionHMAC_ok(1) [OF assms(1)] assms(1) unfolding s_def
    by (auto split: if_splits)
  show "password_valid w0 s" if "sessionHandle s = TPM_RS_PW"
    using v that check_password_ok(1) [OF same] by simp
  show "if isPasswordNeeded (attributes se1) then password_valid w0 s else hmac_valid env w0 c area i (includeAuth (attributes se1))"
    if "sessionHandle s \<noteq> TPM_RS_PW" "session_at w (sessionHandle s) = Ret se1"
    using v that check_password_ok(1) [OF same] CheckSessionHMAC_ok(2) [OF assms(1)] unfolding s_def by (auto split: if_splits)
qed

lemma CheckAuthSession_ok:
  assumes "follows env c w0 w" "CheckAuthSession env c area i w = Ret (TPM_RC_SUCCESS, w')"
    and "\<And>se. sessionHandle (sa_sessions area ! i) \<noteq> TPM_RS_PW \<Longrightarrow> session_at w0 (sessionHandle (sa_sessions area ! i)) = Ret se \<Longrightarrow>
      \<not> isTrialPolicy (attributes se)"
  shows "follows env c w0 w'" "authorized env w0 c area i"
proof -
  let ?s = "sa_sessions area ! i"
  let ?h = "associatedHandle ?s" and ?sh = "sessionHandle ?s"
  obtain used w1 w2 w3 w4 where pp: "?h = TPM_RH_PLATFORM \<and> ae_ppRequired env (c_code c) \<longrightarrow> ce_physicalPresence env"
    and n: "note_auth_use env ?s w = Ret (used, w1)" and l: "lockout_check used ?h w1 = (TPM_RC_SUCCESS, w2)"
    and k: "check_kind env c i ?s w2 = Ret (TPM_RC_SUCCESS, w3)" and v: "check_value env c area i w3 = Ret (TPM_RC_SUCCESS, w4)"
    and u: "w' = w4 \<or> HandleGetType ?h = TPM_HT_NV_INDEX \<and> (\<exists>nv. update_pin TPM_RC_SUCCESS ?h (w_nv w4) = Ret nv \<and> w' = w4\<lparr>w_nv := nv\<rparr>)"
    by (rule CheckAuthSession_steps [OF assms(2)])
  have f1: "follows env c w0 w1"
  proof (cases "?sh = TPM_RS_PW")
    case True
    then show ?thesis
      using n assms(1) by (simp add: note_auth_use_def)
  next
    case False
    show ?thesis
      by (rule note_auth_use_ok [OF assms(1) n False])
  qed
  note l = lockout_check_ok [OF f1 l]
  note k = check_kind_ok [OF l(1) k]
  note v = check_value_ok [OF k(1) v]
  show "follows env c w0 w'"
    using u v(1) update_pin_follows [OF v(1)] by auto
  show "authorized env w0 c area i"
  proof (cases "?sh = TPM_RS_PW")
    case True
    then have "used"
      using n by (simp add: note_auth_use_def)
    then show ?thesis
      using True pp l(3) k(3) v(2) TPM_RS_PW_not_policy by (simp add: authorized_def Let_def)
  next
    case False
    obtain se where "follows env c w0 w1" and se: "session_at w0 ?sh = Ret se" "session_at w1 ?sh = Ret (set_includeAuth used se)"
      and pol: "HandleGetType ?sh = TPM_HT_POLICY_SESSION \<longrightarrow> used = (isAuthValueNeeded (attributes se) \<or> isPasswordNeeded (attributes se))"
      and bnd: "HandleGetType ?sh \<noteq> TPM_HT_POLICY_SESSION \<longrightarrow> IsSessionBindEntity env w0 ?h se = Ret (\<not> used)"
      by (rule note_auth_use_ok [OF assms(1) n False])
    have "session_at w3 ?sh = session_at w1 ?sh"
      by (simp add: session_at_def k(2) l(2))
    then have val: "if isPasswordNeeded (attributes se) then password_valid w0 ?s else hmac_valid env w0 c area i used"
      using v(3) [OF False, of "set_includeAuth used se"] se(2) by (simp split: if_split_asm)
    have t: "\<not> isTrialPolicy (attributes se)"
      using assms(3) [OF False se(1)] .
    show ?thesis
    proof (cases "HandleGetType ?sh = TPM_HT_POLICY_SESSION")
      case True
      then show ?thesis
        using False pp l(3) k(4) [OF True] se(1) t val pol True by (auto simp: authorized_def Let_def)
    next
      case hm: False
      then show ?thesis
        using False pp l(3) k(3) [OF hm] se(1) t val bnd hm unfolding authorized_def Let_def by auto
    qed
  qed
qed

section \<open>The session area\<close>

lemma session_rc_nonzero:
  "i < MAX_SESSION_NUM \<Longrightarrow> TPM_RC_ATTRIBUTES + (TPM_RC_S + g_rcIndex i) \<noteq> TPM_RC_SUCCESS"
  "i < MAX_SESSION_NUM \<Longrightarrow> TPM_RC_HANDLE + (TPM_RC_S + g_rcIndex i) \<noteq> TPM_RC_SUCCESS"
  by (auto simp: g_rcIndex_def tpm_consts less_Suc_eq numeral_3_eq_3)

lemma RcSafeAddToResult_modifier:
  assumes "rc \<noteq> TPM_RC_SUCCESS" "m AND 0xf40 = m" "m \<noteq> 0"
  shows "RcSafeAddToResult rc m \<noteq> TPM_RC_SUCCESS"
proof -
  have "rc + m = rc OR m" if "rc AND 0xf40 = 0"
  proof (rule disjunctive_add_eq_or)
    have "rc AND m = (rc AND 0xf40) AND m"
      by (metis assms(2) and.assoc and.commute)
    then show "rc AND m = 0"
      using that by simp
  qed
  moreover have "rc OR m \<noteq> 0"
    using assms(3) by (simp add: or_eq_0_iff)
  ultimately show ?thesis
    using assms(1) by (auto simp: RcSafeAddToResult_def TPM_RC_SUCCESS_def)
qed

lemma session_modifier: "i < MAX_SESSION_NUM \<Longrightarrow> TPM_RC_S + g_rcIndex i \<in> {0x900, 0xA00, 0xB00}"
  "i < MAX_SESSION_NUM \<Longrightarrow> TPM_RC_H + g_rcIndex i \<in> {0x100, 0x200, 0x300}"
  by (auto simp: g_rcIndex_def tpm_consts less_Suc_eq numeral_3_eq_3)

lemma RcSafeAddToResult_not_success:
  assumes "rc \<noteq> TPM_RC_SUCCESS" "i < MAX_SESSION_NUM"
  shows "RcSafeAddToResult rc (TPM_RC_S + g_rcIndex i) \<noteq> TPM_RC_SUCCESS" "RcSafeAddToResult rc (TPM_RC_H + g_rcIndex i) \<noteq> TPM_RC_SUCCESS"
  by (rule RcSafeAddToResult_modifier [OF assms(1)]; use session_modifier [OF assms(2)] in auto)+

lemma check_state_ok:
  assumes "follows env c w0 w" "check_state env c i s w = Ret (TPM_RC_SUCCESS, w1)" "i < MAX_SESSION_NUM"
  shows "follows env c w0 w1"
    "sessionHandle s \<noteq> TPM_RS_PW \<Longrightarrow> session_at w0 (sessionHandle s) = Ret se \<Longrightarrow> \<not> isTrialPolicy (attributes se)"
proof -
  have "follows env c w0 w1 \<and> (sessionHandle s \<noteq> TPM_RS_PW \<and> session_at w0 (sessionHandle s) = Ret se \<longrightarrow> \<not> isTrialPolicy (attributes se))"
  proof (cases "sessionHandle s = TPM_RS_PW")
    case True
    then show ?thesis
      using assms(1,2) by (auto simp: check_state_def Let_def)
  next
    case False
    obtain se1 where s1: "session_at w (sessionHandle s) = Ret se1" and t: "\<not> isTrialPolicy (attributes se1)"
      and r: "(case (if isDaBound (attributes se1)
                   then (case CheckLockedOut (isLockoutBound (attributes se1)) (w_da w) of (rc, da) \<Rightarrow> (rc, w\<lparr>w_da := da\<rparr>))
                   else (TPM_RC_SUCCESS, w)) of (rc, w1) \<Rightarrow>
          Ret (rc, if rc = TPM_RC_SUCCESS \<and> IS_ATTRIBUTE (sessionAttributes s) TPMA_SESSION_audit
            then snd (cp_hash env (authHashAlg se1) c w1) else w1)) = Ret (TPM_RC_SUCCESS, w1)"
      using assms(2,3) False session_rc_nonzero(1) [OF assms(3)]
      by (auto simp: check_state_def Let_def obind_Ret_iff simp del: split_paired_Ex split: if_split_asm)
    obtain se0 b where se0: "session_at w0 (sessionHandle s) = Ret se0" "se1 = set_includeAuth b se0"
      using session_at_same [OF followsD [OF assms(1)] s1] same_sessionE by metis
    have "follows env c w0 (snd (if isDaBound (attributes se1)
                   then (case CheckLockedOut (isLockoutBound (attributes se1)) (w_da w) of (rc, da) \<Rightarrow> (rc, w\<lparr>w_da := da\<rparr>))
                   else (TPM_RC_SUCCESS, w)))" (is "follows env c w0 (snd ?x)")
      using assms(1) locked_out_follows [OF assms(1)] by (auto split: prod.splits)
    then have "follows env c w0 (snd (cp_hash env (authHashAlg se1) c (snd ?x)))" "follows env c w0 (snd ?x)"
      using cp_hash_follows(2) [OF _ surjective_pairing] by auto
    then have "follows env c w0 w1"
      using r unfolding split_beta by (auto split: if_split_asm)
    then show ?thesis
      using t se0 by auto
  qed
  then show "follows env c w0 w1"
    "sessionHandle s \<noteq> TPM_RS_PW \<Longrightarrow> session_at w0 (sessionHandle s) = Ret se \<Longrightarrow> \<not> isTrialPolicy (attributes se)"
    by auto
qed

lemma check_session_ok:
  assumes "follows env c w0 w" "check_session env c area i w = Ret (TPM_RC_SUCCESS, w')" "i < MAX_SESSION_NUM"
  shows "follows env c w0 w'" "associatedHandle (sa_sessions area ! i) \<noteq> TPM_RH_UNASSIGNED \<Longrightarrow> authorized env w0 c area i"
proof -
  let ?s = "sa_sessions area ! i"
  obtain w1 where st: "check_state env c i ?s w = Ret (TPM_RC_SUCCESS, w1)"
    and r: "if associatedHandle ?s \<noteq> TPM_RH_UNASSIGNED then CheckAuthSession env c area i w1 = Ret (TPM_RC_SUCCESS, w')
       else \<exists>w2. update_session (sessionHandle ?s) (set_includeAuth False) w1 = Ret w2 \<and> CheckSessionHMAC env c area i w2 = Ret (TPM_RC_SUCCESS, w')"
    using assms(2) session_rc_nonzero(1) [OF assms(3)] RcSafeAddToResult_not_success(1) [OF _ assms(3)]
    by (auto simp: check_session_def Let_def obind_Ret_iff split: if_split_asm)
  note st = check_state_ok [OF assms(1) st assms(3)]
  show "authorized env w0 c area i" if "associatedHandle ?s \<noteq> TPM_RH_UNASSIGNED"
    using r that CheckAuthSession_ok(2) [OF st(1) _ st(2)] by simp
  show "follows env c w0 w'"
  proof (cases "associatedHandle ?s = TPM_RH_UNASSIGNED")
    case True
    then obtain w2 where w2: "update_session (sessionHandle ?s) (set_includeAuth False) w1 = Ret w2"
      "CheckSessionHMAC env c area i w2 = Ret (TPM_RC_SUCCESS, w')"
      using r by auto
    obtain se where "session_at w1 (sessionHandle ?s) = Ret se" and se: "session_at w2 (sessionHandle ?s) = Ret (set_includeAuth False se)"
      and w2s: "same_entities w0 w2" "w_cpHash w2 = w_cpHash w1"
      by (rule update_includeAuth [OF followsD [OF st(1)] w2(1)])
    have "follows env c w0 w2"
      using st(1) w2s by (simp add: follows_def)
    then show ?thesis
      by (rule CheckSessionHMAC_ok(1) [OF _ w2(2) se])
  next
    case False
    then show ?thesis
      using r CheckAuthSession_ok(1) [OF st(1) _ st(2)] by simp
  qed
qed

lemma check_sessions_ok:
  assumes "follows env c w0 w" "check_sessions env c area is w = Ret (TPM_RC_SUCCESS, w')" "\<forall>i \<in> set is. i < MAX_SESSION_NUM"
  shows "follows env c w0 w' \<and> (\<forall>i \<in> set is. associatedHandle (sa_sessions area ! i) \<noteq> TPM_RH_UNASSIGNED \<longrightarrow> authorized env w0 c area i)"
  using assms
proof (induction "is" arbitrary: w)
  case (Cons i js)
  then obtain w1 where "check_session env c area i w = Ret (TPM_RC_SUCCESS, w1)" "check_sessions env c area js w1 = Ret (TPM_RC_SUCCESS, w')"
    by (auto simp: obind_Ret_iff split: if_splits)
  with Cons check_session_ok [OF Cons.prems(1)] show ?case
    by auto
qed simp

lemma associate_ok:
  assumes "associate env cc i hs ss = Inr ss'"
  shows "length ss' = length ss \<and> (\<forall>j < i. ss' ! j = ss ! j)
    \<and> (\<forall>j < length hs. ce_role env cc (i + j) \<noteq> AUTH_NONE \<longrightarrow> i + j < length ss \<and> associatedHandle (ss' ! (i + j)) = HierarchyNormalizeHandle (hs ! j))"
  using assms
proof (induction hs arbitrary: i ss)
  case (Cons h hs)
  let ?ss = "if ce_role env cc i \<noteq> AUTH_NONE then ss[i := (ss ! i)\<lparr>associatedHandle := HierarchyNormalizeHandle h\<rparr>] else ss"
  have r: "associate env cc (Suc i) hs ?ss = Inr ss'" and l: "ce_role env cc i \<noteq> AUTH_NONE \<Longrightarrow> i < length ss"
    using Cons.prems by (cases "length ss"; auto split: if_splits)+
  have IH: "length ss' = length ss" "\<And>j. j < Suc i \<Longrightarrow> ss' ! j = ?ss ! j"
    "\<And>j. j < length hs \<Longrightarrow> ce_role env cc (Suc i + j) \<noteq> AUTH_NONE \<Longrightarrow>
       Suc i + j < length ss \<and> associatedHandle (ss' ! (Suc i + j)) = HierarchyNormalizeHandle (hs ! j)"
    using Cons.IH [OF r] by (auto split: if_splits)
  show ?case
  proof (intro conjI allI impI)
    fix j assume j: "j < length (h # hs)" "ce_role env cc (i + j) \<noteq> AUTH_NONE"
    then show "i + j < length ss" "associatedHandle (ss' ! (i + j)) = HierarchyNormalizeHandle ((h # hs) ! j)"
      using IH(2) [of i] IH(3) [of "j - 1"] l by (cases j; auto)+
  qed (use IH(1,2) in auto)
qed simp

lemma if_Inl_InrE: "(if P then Inl x else y) = Inr z \<Longrightarrow> (y = Inr z \<Longrightarrow> R) \<Longrightarrow> R"
  by (auto split: if_splits)

lemma mark_use_count: "mark_use env w cc s se i area = Inr area' \<Longrightarrow> length (sa_sessions area') = Suc (length (sa_sessions area))"
  unfolding mark_use_def Let_def by (elim if_Inl_InrE) auto

lemma retrieve_session_count:
  "retrieve_session env w cc i s area = Ret (Inr area') \<Longrightarrow> length (sa_sessions area') = Suc (length (sa_sessions area))"
  by (auto simp: retrieve_session_def Let_def obind_Ret_iff split: if_splits dest: mark_use_count)

lemma retrieve_loop_count:
  "retrieve_loop env w cc n b area = Ret (Inr area') \<Longrightarrow> length (sa_sessions area') \<le> length (sa_sessions area) + n"
proof (induction env w cc n b area rule: retrieve_loop.induct)
  case (3 env w cc n x b area)
  obtain s b1 where u: "unmarshal_session (x # b) = Inr (s, b1)"
    using "3.prems" by (cases "unmarshal_session (x # b)") (auto simp: Let_def)
  then obtain r where r: "retrieve_session env w cc (MAX_SESSION_NUM - Suc n) s area = Ret r"
    "(case r of Inl rc \<Rightarrow> Ret (Inl rc) | Inr area1 \<Rightarrow> retrieve_loop env w cc n b1 area1) = Ret (Inr area')"
    using "3.prems" by (auto simp: Let_def obind_Ret_iff)
  then obtain area1 where r: "retrieve_session env w cc (MAX_SESSION_NUM - Suc n) s area = Ret (Inr area1)"
    "retrieve_loop env w cc n b1 area1 = Ret (Inr area')"
    by (cases r) auto
  show ?case
    using "3.IH" [OF refl u refl r(1) refl r(2)] retrieve_session_count [OF r(1)] by simp
qed auto

lemma RetrieveSessionData_count: "RetrieveSessionData env w cc b = Ret (Inr area) \<Longrightarrow> length (sa_sessions area) \<le> MAX_SESSION_NUM"
  using retrieve_loop_count [of env w cc MAX_SESSION_NUM b] by (fastforce simp: RetrieveSessionData_def)

text \<open>What is known of a handle after \<^verbatim>\<open>EntityGetLoadStatus\<close>.\<close>

definition world_ok :: "world \<Rightarrow> bool" where
  "world_ok w \<longleftrightarrow> nv_sync (w_nv w) \<and> length (s_sessions (w_sess w)) = MAX_LOADED_SESSIONS \<and> length (s_objects (w_objs w)) = MAX_LOADED_OBJECTS"

lemma normalize_not_unassigned:
  "HandleGetType h \<noteq> TPM_HT_PERMANENT \<Longrightarrow> HierarchyNormalizeHandle h \<noteq> TPM_RH_UNASSIGNED"
  "ValidateHierarchy hs h = TPM_RC_SUCCESS \<Longrightarrow> HierarchyNormalizeHandle h \<noteq> TPM_RH_UNASSIGNED"
  "HierarchyNormalizeHandle TPM_RS_PW \<noteq> TPM_RH_UNASSIGNED" "HierarchyNormalizeHandle TPM_RH_LOCKOUT \<noteq> TPM_RH_UNASSIGNED"
  subgoal by (auto simp: HierarchyNormalizeHandle_def DecomposeHandle_def Let_def HandleGetType_def tpm_consts split: if_splits)
  subgoal by (auto simp: HierarchyNormalizeHandle_def ValidateHierarchy_def tpm_consts split: prod.splits HIERARCHY_MODIFIER.splits if_splits)
  subgoal by (simp add: HierarchyNormalizeHandle_def DecomposeHandle_def Let_def tpm_consts)
  subgoal by (simp add: HierarchyNormalizeHandle_def DecomposeHandle_def Let_def tpm_consts)
  done

lemma handle_of_type: "i < MAX_LOADED_OBJECTS \<Longrightarrow> HandleGetType (handle_of i) \<noteq> TPM_HT_PERMANENT"
  by (auto simp: handle_of_def HandleGetType_def tpm_consts less_Suc_eq numeral_3_eq_3)

lemma ObjectLoadEvict_handle:
  assumes "ObjectLoadEvict nv hs cc h s = (TPM_RC_SUCCESS, h1, t)" "length (s_objects s) = MAX_LOADED_OBJECTS"
  shows "HandleGetType h1 \<noteq> TPM_HT_PERMANENT" "length (s_objects t) = MAX_LOADED_OBJECTS"
proof -
  obtain x s1 where a: "ObjectAllocateSlot s = (x, s1)"
    by fastforce
  have e: "TPM_RC_HANDLE \<noteq> TPM_RC_SUCCESS" "TPM_RC_OBJECT_MEMORY \<noteq> TPM_RC_SUCCESS"
    by (simp_all add: tpm_consts)
  obtain i where i: "x = Some i"
    using assms(1) a e by (cases x) (auto simp: ObjectLoadEvict_def split: if_splits)
  have l: "i < MAX_LOADED_OBJECTS" "length (s_objects s1) = MAX_LOADED_OBJECTS"
    using a i assms(2) by (auto simp: ObjectAllocateSlot_def FindEmptyObjectSlot_def Let_def upd_slot_def split: if_splits)
  have "h1 = handle_of i" "length (s_objects t) = length (s_objects s1)"
    using assms(1) a i e by (auto simp: ObjectLoadEvict_def Let_def upd_slot_def split: if_splits)
  then show "HandleGetType h1 \<noteq> TPM_HT_PERMANENT" "length (s_objects t) = MAX_LOADED_OBJECTS"
    using l handle_of_type by auto
qed

lemma NvIndexIsAccessible_sync:
  assumes "nv_sync nv" "NvIndexIsAccessible hs h nv = Ret (rc, nv')" "HandleGetType h = TPM_HT_NV_INDEX"
  shows "nv_sync nv'"
proof (cases "nv_lookup nv h")
  case None
  then obtain s' where "NvGetIndexInfo h nv = Ret (None, s')" "nv_sync s'"
    by (rule NvGetIndexInfo_sync_None [OF assms(1) _ assms(3)])
  then show ?thesis
    using assms(2) by (simp add: NvIndexIsAccessible_def)
next
  case (Some x)
  then have x: "nv_lookup nv h = Some (fst x, snd x)"
    by simp
  obtain i s' where "NvGetIndexInfo h nv = Ret (Some i, s')" "cached_at s' h i (fst x) (snd x)"
    by (rule NvGetIndexInfo_sync [OF assms(1) x])
  then show ?thesis
    using assms(2) cached_at_sync by (auto simp: NvIndexIsAccessible_def split: if_splits)
qed

lemma handle_status_ok:
  assumes "handle_status stored cc h w = Ret (TPM_RC_SUCCESS, h1, w1)" "world_ok w"
  shows "HierarchyNormalizeHandle h1 \<noteq> TPM_RH_UNASSIGNED \<and> world_ok w1 \<and> w_cpHash w1 = w_cpHash w"
proof -
  let ?t = "HandleGetType h"
  have e: "TPM_RC_VALUE \<noteq> TPM_RC_SUCCESS" "TPM_RC_REFERENCE_H0 \<noteq> TPM_RC_SUCCESS"
    by (simp_all add: tpm_consts)
  consider "?t = TPM_HT_PERMANENT" | "?t = TPM_HT_PERSISTENT" | "?t = TPM_HT_NV_INDEX"
    | "?t \<notin> {TPM_HT_PERMANENT, TPM_HT_PERSISTENT, TPM_HT_NV_INDEX}"
    by auto
  then show ?thesis
  proof cases
    case 1
    then show ?thesis
      using assms e normalize_not_unassigned(2-4) by (auto simp: handle_status_def Let_def split: if_splits)
  next
    case 2
    obtain rc h2 s where o: "ObjectLoadEvict stored (w_hs w) cc h (w_objs w) = (rc, h2, s)"
      by (cases "ObjectLoadEvict stored (w_hs w) cc h (w_objs w)") auto
    have "TPM_HT_PERSISTENT \<noteq> TPM_HT_PERMANENT" "TPM_HT_PERSISTENT \<noteq> TPM_HT_TRANSIENT"
      by (simp_all add: tpm_consts)
    then have "rc = TPM_RC_SUCCESS" "h1 = h2" "w1 = w\<lparr>w_objs := s\<rparr>"
      using assms(1) 2 o by (simp_all add: handle_status_def Let_def)
    then show ?thesis
      using ObjectLoadEvict_handle [of stored "w_hs w" cc h "w_objs w" h2 s] o assms(2) normalize_not_unassigned(1)
      by (simp add: world_ok_def)
  next
    case 3
    have "TPM_HT_NV_INDEX \<noteq> TPM_HT_PERMANENT" "TPM_HT_NV_INDEX \<noteq> TPM_HT_TRANSIENT" "TPM_HT_NV_INDEX \<noteq> TPM_HT_PERSISTENT"
      "TPM_HT_NV_INDEX \<noteq> TPM_HT_HMAC_SESSION" "TPM_HT_NV_INDEX \<noteq> TPM_HT_POLICY_SESSION"
      by (simp_all add: tpm_consts)
    then obtain nv where nv: "NvIndexIsAccessible (w_hs w) h (w_nv w) = Ret (TPM_RC_SUCCESS, nv)" "h1 = h" "w1 = w\<lparr>w_nv := nv\<rparr>"
      using assms(1) 3 by (auto simp: handle_status_def Let_def obind_Ret_iff)
    then show ?thesis
      using NvIndexIsAccessible_sync [OF _ nv(1) 3] 3 assms(2) normalize_not_unassigned(1) [of h]
      by (simp add: world_ok_def \<open>TPM_HT_NV_INDEX \<noteq> TPM_HT_PERMANENT\<close>)
  next
    case 4
    then have "h1 = h \<and> w1 = w"
      using assms(1) by (auto simp: handle_status_def Let_def obind_Ret_iff split: if_splits)
    then show ?thesis
      using 4 assms(2) normalize_not_unassigned(1) [of h] by simp
  qed
qed

lemma load_status_length: "load_status stored cc i hs w = Ret (rc, hs1, w1) \<Longrightarrow> length hs1 = length hs"
proof (induction hs arbitrary: i w hs1 w1)
  case (Cons h hs)
  obtain rc1 h1 w2 where h: "handle_status stored cc h w = Ret (rc1, h1, w2)"
    using Cons.prems by (auto simp: obind_Ret_iff)
  show ?case
  proof (cases "rc1 = TPM_RC_SUCCESS")
    case True
    then obtain hs2 where "load_status stored cc (Suc i) hs w2 = Ret (rc, hs2, w1)" "hs1 = h1 # hs2"
      using Cons.prems h by (auto simp: obind_Ret_iff)
    then show ?thesis
      using Cons.IH by simp
  qed (use Cons.prems h in auto)
qed auto

lemma load_status_ok:
  assumes "load_status stored cc i hs w = Ret (TPM_RC_SUCCESS, hs1, w1)" "world_ok w" "i + length hs \<le> MAX_SESSION_NUM"
  shows "TPM_RH_UNASSIGNED \<notin> HierarchyNormalizeHandle ` set hs1 \<and> world_ok w1 \<and> w_cpHash w1 = w_cpHash w"
  using assms
proof (induction hs arbitrary: i w hs1)
  case (Cons h hs)
  have i: "i < MAX_SESSION_NUM"
    using Cons.prems(3) by simp
  have e: "TPM_RC_REFERENCE_H0 + word_of_nat i \<noteq> TPM_RC_SUCCESS"
    using i by (auto simp: tpm_consts less_Suc_eq numeral_3_eq_3)
  obtain h1 w2 hs2 where h: "handle_status stored cc h w = Ret (TPM_RC_SUCCESS, h1, w2)"
    and r: "load_status stored cc (Suc i) hs w2 = Ret (TPM_RC_SUCCESS, hs2, w1)" "hs1 = h1 # hs2"
    using Cons.prems(1) e RcSafeAddToResult_not_success(2) [OF _ i] by (auto simp: obind_Ret_iff split: if_split_asm)
  show ?case
    using handle_status_ok [OF h Cons.prems(2)] Cons.IH [OF r(1)] r(2) Cons.prems(3) by auto
qed simp

section \<open>Soundness\<close>

lemma ParseSessionBuffer_steps:
  assumes "ParseSessionBuffer env c b w = Ret (rc, c', Some area, w')"
  obtains area0 ss w1 where "RetrieveSessionData env w (c_code c) b = Ret (Inr area0)"
    "associate env (c_code c) 0 (c_handles c) (sa_sessions area0) = Inr ss" "area = area0\<lparr>sa_sessions := ss\<rparr>"
    "check_sessions env c area [0..<length ss] w = Ret (TPM_RC_SUCCESS, w1)" "length (c_handles c) \<le> MAX_SESSION_NUM"
proof -
  obtain r where r: "RetrieveSessionData env w (c_code c) b = Ret r"
    using assms by (cases "RetrieveSessionData env w (c_code c) b") (auto simp: ParseSessionBuffer_def split: if_split_asm)
  then obtain area0 where r0: "r = Inr area0" and l: "length (c_handles c) \<le> MAX_SESSION_NUM"
    using assms by (cases r) (auto simp: ParseSessionBuffer_def pAssert_def split: if_split_asm)
  then obtain ss where s: "associate env (c_code c) 0 (c_handles c) (sa_sessions area0) = Inr ss"
    using assms r by (cases "associate env (c_code c) 0 (c_handles c) (sa_sessions area0)")
      (auto simp: ParseSessionBuffer_def pAssert_def split: if_split_asm)
  let ?area = "area0\<lparr>sa_sessions := ss\<rparr>"
  obtain w1 where k: "check_sessions env c ?area [0..<length ss] w = Ret (TPM_RC_SUCCESS, w1)"
    and rest: "(case (if ae_auditRequired env (c_code c) then CheckCommandAudit env c w1 else (TPM_RC_SUCCESS, w1)) of (rc, w2) \<Rightarrow>
       if rc \<noteq> TPM_RC_SUCCESS then Ret (rc, c, None, w2)
       else obind (decrypt_parameter env c ?area w2) (\<lambda>(rc, c1). Ret (rc, c1, Some ?area, w2))) = Ret (rc, c', Some area, w')"
    using assms r r0 s l
    by (cases "check_sessions env c ?area [0..<length ss] w")
      (auto simp: ParseSessionBuffer_def pAssert_def Let_def simp del: split_paired_Ex split: if_split_asm)
  have "area = ?area"
    using rest by (auto simp: obind_Ret_iff split_beta split: if_split_asm)
  with that r r0 s k l show ?thesis
    by blast
qed

lemma ParseSessionBuffer_sound:
  assumes "ParseSessionBuffer env c b w = Ret (TPM_RC_SUCCESS, c', Some area, w')"
    and "world_ok w" "w_cpHash w = []" "TPM_RH_UNASSIGNED \<notin> HierarchyNormalizeHandle ` set (c_handles c)"
    and "i < length (c_handles c)" "ce_role env (c_code c) i \<noteq> AUTH_NONE"
  shows "i < length (sa_sessions area) \<and> associatedHandle (sa_sessions area ! i) = HierarchyNormalizeHandle (c_handles c ! i)
    \<and> authorized env w c area i"
proof -
  obtain area0 ss w1 where a: "RetrieveSessionData env w (c_code c) b = Ret (Inr area0)"
    and s: "associate env (c_code c) 0 (c_handles c) (sa_sessions area0) = Inr ss" and area: "area = area0\<lparr>sa_sessions := ss\<rparr>"
    and k: "check_sessions env c area [0..<length ss] w = Ret (TPM_RC_SUCCESS, w1)"
    by (rule ParseSessionBuffer_steps [OF assms(1)])
  have i: "i < length ss" "associatedHandle (ss ! i) = HierarchyNormalizeHandle (c_handles c ! i)" and l: "length ss \<le> MAX_SESSION_NUM"
    using associate_ok [OF s] assms(5,6) RetrieveSessionData_count [OF a] by auto
  have f: "follows env c w w"
    using assms(2,3) same_entities_refl by (simp add: follows_def world_ok_def)
  have n: "associatedHandle (sa_sessions area ! i) \<noteq> TPM_RH_UNASSIGNED"
    using assms(4,5) i(2) area by (metis imageI nth_mem session_area.select_convs(1) session_area.surjective session_area.update_convs(1))
  show ?thesis
    using check_sessions_ok [OF f k] l n i area by auto
qed

text \<open>
  C2: A command that is executed is authorized. After \<^verbatim>\<open>EntityGetLoadStatus\<close> has accepted the handles of a
  command and \<^verbatim>\<open>ParseSessionBuffer\<close> its session area, every handle whose role requires authorization has a session
  of its own position, associated with the entity the handle normalizes to, and that session authorizes the
  command in the state in which the area arrived: a password session gives the authorization value of the entity; an HMAC
  session gives the HMAC, under the session key and (unless bound to the entity) the authorization value, of the command
  parameters, nonces and attributes; a policy session satisfies the policy of the entity and, where the
  policy says so, gives its password or an HMAC with its value. A value that is subject to
  dictionary-attack protection was not locked out, a policy session is never a trial session, and the value was not used
  where a policy is required. PIN counters, caches and lockout bookkeeping of the other sessions in the area do not interfere.
\<close>

theorem session_authorization_sound:
  assumes "EntityGetLoadStatus stored c0 w0 = Ret (TPM_RC_SUCCESS, c, w)"
    and "ParseSessionBuffer env c b w = Ret (TPM_RC_SUCCESS, c', Some area, w')"
    and "world_ok w0" "w_cpHash w0 = []"
    and "i < length (c_handles c)" "ce_role env (c_code c) i \<noteq> AUTH_NONE"
  shows "i < length (sa_sessions area) \<and> associatedHandle (sa_sessions area ! i) = HierarchyNormalizeHandle (c_handles c ! i)
    \<and> authorized env w c area i"
proof -
  obtain hs where ld: "load_status stored (c_code c0) 0 (c_handles c0) w0 = Ret (TPM_RC_SUCCESS, hs, w)" and c: "c = c0\<lparr>c_handles := hs\<rparr>"
    using assms(1) by (auto simp: EntityGetLoadStatus_def obind_Ret_iff)
  have "length (c_handles c) \<le> MAX_SESSION_NUM"
    by (rule ParseSessionBuffer_steps [OF assms(2)])
  then have "0 + length (c_handles c0) \<le> MAX_SESSION_NUM"
    using load_status_length [OF ld] c by simp
  then show ?thesis
    using ParseSessionBuffer_sound [OF assms(2) _ _ _ assms(5,6)] load_status_ok [OF ld assms(3)] c assms(4) by simp
qed

definition demo_area :: "bytes \<Rightarrow> session_area" where
  "demo_area p = \<lparr>sa_sessions = [\<lparr>sessionHandle = TPM_RS_PW, nonceCaller = [], sessionAttributes = 1, inputAuthValue = p, associatedHandle = demo_pin\<rparr>],
     sa_decrypt = None, sa_encrypt = None, sa_audit = None\<rparr>"

definition demo_loaded :: world where
  "demo_loaded = (case EntityGetLoadStatus (\<lambda>h. None) demo_command demo_world of Ret (rc, c, w) \<Rightarrow> w | FailureMode \<Rightarrow> demo_world)"

lemma demo_load: "EntityGetLoadStatus (\<lambda>h. None) demo_command demo_world = Ret (TPM_RC_SUCCESS, demo_command, demo_loaded)"
proof -
  have "case EntityGetLoadStatus (\<lambda>h. None) demo_command demo_world of Ret (rc, c, w) \<Rightarrow> rc = TPM_RC_SUCCESS \<and> c = demo_command | FailureMode \<Rightarrow> False"
    by code_simp
  then show ?thesis
    by (auto simp: demo_loaded_def split: outcome.splits)
qed

lemma demo_parse:
  obtains c' w' where "ParseSessionBuffer demo_aenv demo_command (demo_password [1, 2, 3, 4]) demo_loaded
    = Ret (TPM_RC_SUCCESS, c', Some (demo_area [1, 2, 3, 4]), w')"
proof -
  have "case ParseSessionBuffer demo_aenv demo_command (demo_password [1, 2, 3, 4]) demo_loaded of
      Ret (rc, c', a, w') \<Rightarrow> rc = TPM_RC_SUCCESS \<and> a = Some (demo_area [1, 2, 3, 4]) | FailureMode \<Rightarrow> False"
    by code_simp
  then show ?thesis
    using that by (auto split: outcome.splits)
qed

lemma demo_world_ok: "world_ok demo_world"
proof -
  have "length (s_sessions demo_s1) = MAX_LOADED_SESSIONS"
    by code_simp
  then show ?thesis
    using demo_pin_sync by (simp add: world_ok_def demo_world_def)
qed

theorem session_authorization_sound_witness:
  "authorized demo_aenv demo_loaded demo_command (demo_area [1, 2, 3, 4]) 0"
proof (rule demo_parse)
  fix c' w'
  assume p: "ParseSessionBuffer demo_aenv demo_command (demo_password [1, 2, 3, 4]) demo_loaded
    = Ret (TPM_RC_SUCCESS, c', Some (demo_area [1, 2, 3, 4]), w')"
  note demo_world_ok
  moreover have "w_cpHash demo_world = []" "0 < length (c_handles demo_command)" "ce_role demo_aenv (c_code demo_command) 0 \<noteq> AUTH_NONE"
    by code_simp+
  ultimately show ?thesis
    using session_authorization_sound [OF demo_load p] by blast
qed

end
