(* ===== verification/Auth_Pin.thy ===== *)
theory Auth_Pin
  imports Auth_Soundness
begin

text \<open>
  PIN indexes. The value of a PIN FAIL index is compared at most as often as its limit allows between two correct
  uses: every wrong value moves the counter in NV memory, and at the limit the value is not
  available any more. A correct value clears the counter.
\<close>

section \<open>The counter\<close>

lemma pin_words [simp]:
  "pinCount (set_pinCount n v) = n" "pinLimit (set_pinCount n v) = pinLimit v"
  unfolding pinCount_def pinLimit_def set_pinCount_def
  by (rule bit_word_eqI; auto simp: bit_simps)+

definition pin_value :: "bytes \<Rightarrow> u64" where
  "pin_value d = from_be (slice 0 8 d)"

lemma pin_value_be [simp]: "pin_value (be 8 v) = v"
  by (simp add: pin_value_def slice_def)

lemma pin_size: "public_ok p \<Longrightarrow> IsNvPinFailIndex (nv_attributes p) \<Longrightarrow> dataSize p = 8"
  by (auto simp: public_ok_def size_ok_def IsNvPinFailIndex_def Let_def tpm_consts split: if_splits)

section \<open>One attempt\<close>

text \<open>Whether the value of the entity is compared: the value takes part, there is no lockout, and the value is available.\<close>

definition compared :: "auth_env \<Rightarrow> COMMAND \<Rightarrow> session_area \<Rightarrow> nat \<Rightarrow> world \<Rightarrow> bool" where
  "compared env c area i w \<longleftrightarrow>
     (let s = sa_sessions area ! i; h = associatedHandle s in
      \<not> (h = TPM_RH_PLATFORM \<and> ae_ppRequired env (c_code c) \<and> \<not> ce_physicalPresence env) \<and>
      (case note_auth_use env s w of
         FailureMode \<Rightarrow> False
       | Ret (used, w1) \<Rightarrow> used \<and> (case lockout_check used h w1 of (rc, w2) \<Rightarrow>
           rc = TPM_RC_SUCCESS \<and> (case check_kind env c i s w2 of Ret (rc, w3) \<Rightarrow> rc = TPM_RC_SUCCESS | FailureMode \<Rightarrow> False))))"

lemma lockout_check_nv: "lockout_check used h w = (rc, w1) \<Longrightarrow> w_nv w1 = w_nv w"
  by (auto simp: lockout_check_def split: if_splits prod.splits)

lemma note_auth_use_nv: "note_auth_use env s w = Ret (used, w1) \<Longrightarrow> w_nv w1 = w_nv w"
  by (auto simp: note_auth_use_def update_session_def Let_def obind_Ret_iff split: if_splits)

lemma check_kind_nv:
  "check_kind env c i s w = Ret (rc, w1) \<Longrightarrow> HandleGetType (sessionHandle s) \<noteq> TPM_HT_POLICY_SESSION \<Longrightarrow> w_nv w1 = w_nv w"
  by (cases "IsPolicySessionRequired env w c i (associatedHandle s)"; cases "IsAuthValueAvailable env w c i (associatedHandle s)")
    (auto simp: check_kind_def Let_def split: if_split_asm)

lemma check_password_nv: "check_password s w = Ret (rc, w1) \<Longrightarrow> w_nv w1 = w_nv w"
  by (auto simp: check_password_def obind_Ret_iff)

lemma CheckSessionHMAC_nv:
  assumes "CheckSessionHMAC env c area i w = Ret (rc, w1)"
  shows "w_nv w1 = w_nv w"
proof -
  obtain hmac w2 where "ComputeCommandHMAC env c area i w = Ret (hmac, w2)" and r: "w1 = w2 \<or> count_failure (sa_sessions area ! i) w2 = Ret (rc, w1)"
    using assms by (auto simp: CheckSessionHMAC_def obind_Ret_iff split: if_split_asm)
  then have "w_nv w2 = w_nv w"
    by (auto simp: ComputeCommandHMAC_def cp_hash_def Let_def obind_Ret_iff split: if_split_asm option.split_asm)
  then show ?thesis
    using r by (auto simp: count_failure_def obind_Ret_iff)
qed

lemma check_value_nv: "check_value env c area i w = Ret (rc, w1) \<Longrightarrow> w_nv w1 = w_nv w"
  by (auto simp: check_value_def Let_def obind_Ret_iff split: if_split_asm dest: check_password_nv CheckSessionHMAC_nv)

lemma pin_available:
  assumes "check_kind env c i s w = Ret (TPM_RC_SUCCESS, w1)" "HandleGetType (sessionHandle s) \<noteq> TPM_HT_POLICY_SESSION"
    and "nv_sync (w_nv w)" "nv_lookup (w_nv w) (associatedHandle s) = Some (ix, d)" "\<not> ae_isWrite env (c_code c)"
    and "IsNvPinFailIndex (nv_attributes (nv_public ix))" "na_WRITTEN (nv_attributes (nv_public ix))"
  shows "pinCount (pin_value d) < pinLimit (pin_value d)"
proof -
  let ?h = "associatedHandle s"
  have ok: "HandleGetType ?h = TPM_HT_NV_INDEX" "public_ok (nv_public ix)"
    using nv_lookup_ok [OF nv_sync_wf [OF assms(3)] assms(4)] by auto
  have t: "TPM_HT_NV_INDEX \<noteq> TPM_HT_PERMANENT" "TPM_HT_NV_INDEX \<noteq> TPM_HT_TRANSIENT"
    by (simp_all add: tpm_consts)
  have e: "TPM_RC_AUTH_TYPE \<noteq> TPM_RC_SUCCESS" "TPM_RC_AUTH_UNAVAILABLE \<noteq> TPM_RC_SUCCESS"
    by (simp_all add: tpm_consts)
  have "IsAuthValueAvailable env w c i ?h = Ret True"
    using assms(1,2) e by (cases "IsPolicySessionRequired env w c i ?h"; cases "IsAuthValueAvailable env w c i ?h")
      (auto simp: check_kind_def Let_def split: if_split_asm)
  then have v: "nv_value_available env w c ?h = Ret True"
    using ok(1) t by (simp add: IsAuthValueAvailable_def Let_def)
  have ix: "nv_index w ?h = Ret ix"
    using assms(4) by (simp add: nv_index_def nv_entity_sync [OF assms(3) ok(1)] nv_public_of_def)
  obtain j s1 where g: "NvGetIndexInfo ?h (w_nv w) = Ret (Some j, s1)" "cached_at s1 ?h j ix d" "s_cachedNvIndex s1 = ix"
    by (rule NvGetIndexInfo_sync [OF assms(3,4)])
  have "nv_uint64 w ?h = Ret (pin_value d)"
    using NvGetUINT64Data_cached [OF g(2) assms(7) pin_size [OF ok(2) assms(6)]] g
    by (simp add: nv_uint64_def with_index_def pin_value_def)
  then show ?thesis
    using v ix assms(5-7) by (simp add: nv_value_available_def Let_def)
qed

lemma update_pin_fail:
  assumes "nv_sync s" "nv_lookup s h = Some (ix, d)" "update_pin rc h s = Ret s'"
    and "IsNvPinFailIndex (nv_attributes (nv_public ix))" "na_WRITTEN (nv_attributes (nv_public ix))"
    and "nvStatus s = TPM_RC_SUCCESS \<or> na_ORDERLY (nv_attributes (nv_public ix))"
  shows "nv_sync s' \<and> nvStatus s' = nvStatus s
    \<and> nv_lookup s' h = Some (ix, be 8 (set_pinCount (if rc \<noteq> TPM_RC_SUCCESS then pinCount (pin_value d) + 1 else 0) (pin_value d)))"
proof -
  have ok: "public_ok (nv_public ix)"
    using nv_lookup_ok [OF nv_sync_wf [OF assms(1)] assms(2)] by auto
  note n = pin_size [OF ok assms(4)]
  obtain j s1 where g: "NvGetIndexInfo h s = Ret (Some j, s1)" "cached_at s1 h j ix d" "nv_lookup s1 = nv_lookup s" "nvStatus s1 = nvStatus s"
    "s_cachedNvIndex s1 = ix"
    by (rule NvGetIndexInfo_sync [OF assms(1,2)])
  let ?v = "set_pinCount (if rc \<noteq> TPM_RC_SUCCESS then pinCount (pin_value d) + 1 else 0) (pin_value d)"
  obtain rc2 t where t: "NvWriteUINT64Data ?v s1 = Ret (rc2, t)" "nv_sync t" "nvStatus t = nvStatus s1"
    "nv_lookup t = (nv_lookup s1)(h \<mapsto> (ix, if nvStatus s1 = TPM_RC_SUCCESS \<or> na_ORDERLY (nv_attributes (nv_public ix)) then be 8 ?v else d))"
    by (rule NvWriteUINT64Data_sync [OF g(2) assms(5) n])
  have "NvGetUINT64Data (s_cachedNvIndex s1) (Some j) s1 = Ret (pin_value d)"
    using NvGetUINT64Data_cached [OF g(2) assms(5) n] by (simp add: pin_value_def)
  then have "s' = t"
    using assms(3-5) g t by (simp add: update_pin_def with_index_def)
  then show ?thesis
    using t g(4) assms(6) by simp
qed

text \<open>An attempt without a policy session on a PIN FAIL index.\<close>

lemma pin_attempt:
  assumes "CheckAuthSession env c area i w = Ret (rc, w')" "HandleGetType (sessionHandle (sa_sessions area ! i)) \<noteq> TPM_HT_POLICY_SESSION"
    and "associatedHandle (sa_sessions area ! i) = h" "nv_sync (w_nv w)" "nv_lookup (w_nv w) h = Some (ix, d)" "\<not> ae_isWrite env (c_code c)"
    and "IsNvPinFailIndex (nv_attributes (nv_public ix))" "na_WRITTEN (nv_attributes (nv_public ix))"
    and "nvStatus (w_nv w) = TPM_RC_SUCCESS \<or> na_ORDERLY (nv_attributes (nv_public ix))"
  obtains d' where "nv_sync (w_nv w')" "nvStatus (w_nv w') = nvStatus (w_nv w)" "nv_lookup (w_nv w') h = Some (ix, d')"
    "if compared env c area i w
     then pinCount (pin_value d) < pinLimit (pin_value d)
       \<and> d' = be 8 (set_pinCount (if rc \<noteq> TPM_RC_SUCCESS then pinCount (pin_value d) + 1 else 0) (pin_value d))
     else d' = d"
proof -
  let ?s = "sa_sessions area ! i" and ?c = "compared env c area i w"
  let ?pp = "h = TPM_RH_PLATFORM \<and> ae_ppRequired env (c_code c) \<and> \<not> ce_physicalPresence env"
  note h = assms(3)
  have nv: "HandleGetType h = TPM_HT_NV_INDEX"
    using nv_lookup_ok [OF nv_sync_wf [OF assms(4)] assms(5)] by auto
  note found = that
  have same: ?thesis if "w_nv w' = w_nv w" "\<not> ?c"
    using that assms(4,5) by (intro found [of d]) auto
  show ?thesis
  proof (cases ?pp)
    case True
    then show ?thesis
      using assms(1) h by (intro same) (auto simp: CheckAuthSession_def compared_def pAssert_def Let_def split: if_split_asm)
  next
    case False
    obtain used w1 where n: "note_auth_use env ?s w = Ret (used, w1)"
      using assms(1) False h by (cases "note_auth_use env ?s w") (auto simp: CheckAuthSession_def pAssert_def Let_def split: if_split_asm)
    obtain rc2 w2 where l: "lockout_check used h w1 = (rc2, w2)"
      by fastforce
    have w2: "w_nv w2 = w_nv w"
      using note_auth_use_nv [OF n] lockout_check_nv [OF l] by simp
    show ?thesis
    proof (cases "rc2 = TPM_RC_SUCCESS")
      case False
      then show ?thesis
        using assms(1) h n l w2 \<open>\<not> ?pp\<close> by (intro same) (auto simp: CheckAuthSession_def compared_def pAssert_def Let_def split: if_split_asm)
    next
      case True
      obtain rc3 w3 where k: "check_kind env c i ?s w2 = Ret (rc3, w3)"
        using assms(1) h n l True \<open>\<not> ?pp\<close>
        by (cases "check_kind env c i ?s w2") (auto simp: CheckAuthSession_def pAssert_def Let_def split: if_split_asm)
      have w3: "w_nv w3 = w_nv w"
        using check_kind_nv [OF k assms(2)] w2 by simp
      show ?thesis
      proof (cases "rc3 = TPM_RC_SUCCESS")
        case False
        then show ?thesis
          using assms(1) h n l k w3 True \<open>\<not> ?pp\<close>
          by (intro same) (auto simp: CheckAuthSession_def compared_def pAssert_def Let_def split: if_split_asm)
      next
        case k0: True
        obtain rc4 w4 where v: "check_value env c area i w3 = Ret (rc4, w4)"
          and r: "(if used then obind (update_pin rc4 h (w_nv w4)) (\<lambda>nv. Ret (rc4, w4\<lparr>w_nv := nv\<rparr>)) else Ret (rc4, w4)) = Ret (rc, w')"
          using assms(1) h n l k k0 True \<open>\<not> ?pp\<close> nv
          by (cases "check_value env c area i w3") (auto simp: CheckAuthSession_def pAssert_def Let_def split: if_split_asm)
        have w4: "w_nv w4 = w_nv w"
          using check_value_nv [OF v] w3 by simp
        have cmp: "?c = used"
          using h n l k k0 True \<open>\<not> ?pp\<close> by (auto simp: compared_def Let_def)
        show ?thesis
        proof (cases used)
          case True
          obtain nv1 where u: "update_pin rc (associatedHandle ?s) (w_nv w4) = Ret nv1" "w_nv w' = nv1"
            using r True h by (auto simp: obind_Ret_iff)
          have av: "pinCount (pin_value d) < pinLimit (pin_value d)"
            by (rule pin_available [OF k [unfolded k0] assms(2)]) (use assms h w2 in auto)
          have "nv_sync nv1 \<and> nvStatus nv1 = nvStatus (w_nv w) \<and>
            nv_lookup nv1 h = Some (ix, be 8 (set_pinCount (if rc \<noteq> TPM_RC_SUCCESS then pinCount (pin_value d) + 1 else 0) (pin_value d)))"
            by (rule update_pin_fail [OF assms(4,5) u(1) [unfolded h w4] assms(7-9)])
          then show ?thesis
            using av cmp True u(2) by (intro found) auto
        qed (use same r w4 cmp in auto)
      qed
    qed
  qed
qed

section \<open>A run of attempts\<close>

text \<open>The response codes of a run of attempts and the number of comparisons in it.\<close>

type_synonym attempt = "auth_env \<times> COMMAND \<times> session_area \<times> nat"

fun attempts :: "attempt list \<Rightarrow> world \<Rightarrow> (TPM_RC list \<times> nat \<times> world) outcome" where
  "attempts [] w = Ret ([], 0, w)"
| "attempts ((env, c, area, i) # as) w = obind (CheckAuthSession env c area i w) (\<lambda>(rc, w1).
     obind (attempts as w1) (\<lambda>(rcs, n, w2). Ret (rc # rcs, (if compared env c area i w then Suc n else n), w2)))"

definition pin_attempt_ok :: "TPM_HANDLE \<Rightarrow> attempt \<Rightarrow> bool" where
  "pin_attempt_ok h a = (case a of (env, c, area, i) \<Rightarrow> associatedHandle (sa_sessions area ! i) = h
     \<and> HandleGetType (sessionHandle (sa_sessions area ! i)) \<noteq> TPM_HT_POLICY_SESSION \<and> \<not> ae_isWrite env (c_code c))"



end
