(* ===== verification/Auth_Responses.thy ===== *)
theory Auth_Responses
  imports Auth_Checks
begin

text \<open>
  The session area of a response, second half of \<^verbatim>\<open>SessionProcess.c\<close>: new nonces, parameter encryption, audit
  sessions and command audit, the response HMAC and the end of sessions that are not continued.
\<close>

section \<open>Associations and digests of the command\<close>

definition SessionRemoveAssociationToHandle :: "TPM_HANDLE \<Rightarrow> session_area \<Rightarrow> session_area" where
  "SessionRemoveAssociationToHandle h area = area\<lparr>sa_sessions := map (\<lambda>s.
     if associatedHandle s = HierarchyNormalizeHandle h then s\<lparr>associatedHandle := TPM_RH_NULL\<rparr> else s) (sa_sessions area)\<rparr>"

definition ClearCpRpHashes :: "world \<Rightarrow> world" where
  "ClearCpRpHashes w = w\<lparr>w_cpHash := []\<rparr>"

section \<open>Audit\<close>

definition ComputeRpHash :: "auth_env \<Rightarrow> TPM_ALG_ID \<Rightarrow> TPM_CC \<Rightarrow> bytes \<Rightarrow> bytes" where
  "ComputeRpHash env alg cc params = pe_hash env alg (be 4 TPM_RC_SUCCESS @ be 4 cc @ params)"

definition InitAuditSession :: "SESSION \<Rightarrow> SESSION" where
  "InitAuditSession se = se\<lparr>attributes := (attributes se)\<lparr>isAudit := True, isBound := False\<rparr>,
     u2 := replicate (CryptHashGetDigestSize (authHashAlg se)) 0\<rparr>"

definition GetCpHash :: "TPM_ALG_ID \<Rightarrow> world \<Rightarrow> bytes outcome" where
  "GetCpHash alg w = (case map_of (w_cpHash w) alg of Some h \<Rightarrow> pAssert (h \<noteq> []) (Ret h) | None \<Rightarrow> FailureMode)"

definition UpdateAuditDigest :: "auth_env \<Rightarrow> TPM_CC \<Rightarrow> bytes \<Rightarrow> TPM_ALG_ID \<Rightarrow> bytes \<Rightarrow> world \<Rightarrow> bytes outcome" where
  "UpdateAuditDigest env cc params alg digest w = obind (GetCpHash alg w) (\<lambda>cpHash.
     Ret (pe_hash env alg (digest @ cpHash @ ComputeRpHash env alg cc params)))"

definition Audit :: "auth_env \<Rightarrow> TPM_CC \<Rightarrow> bytes \<Rightarrow> TPM_HANDLE \<Rightarrow> world \<Rightarrow> world outcome" where
  "Audit env cc params h w = obind (session_at w h) (\<lambda>se.
     obind (UpdateAuditDigest env cc params (authHashAlg se) (u2 se) w) (\<lambda>d. update_session h (\<lambda>se. se\<lparr>u2 := d\<rparr>) w))"

text \<open>A digest of one octet marks a change of the audit algorithm.\<close>

definition CommandAudit :: "auth_env \<Rightarrow> TPM_CC \<Rightarrow> bytes \<Rightarrow> world \<Rightarrow> world outcome" where
  "CommandAudit env cc params w =
     (if length (commandAuditDigest w) = 1 then Ret (w\<lparr>commandAuditDigest := []\<rparr>)
      else
        let w1 = (if commandAuditDigest w = []
                  then w\<lparr>commandAuditDigest := replicate (CryptHashGetDigestSize (auditHashAlg w)) 0, auditCounter := auditCounter w + 1\<rparr>
                  else w)
        in obind (UpdateAuditDigest env cc params (auditHashAlg w1) (commandAuditDigest w1) w1) (\<lambda>d. Ret (w1\<lparr>commandAuditDigest := d\<rparr>)))"

definition set_exclusive :: "bool \<Rightarrow> AUTH_SESSION \<Rightarrow> AUTH_SESSION" where
  "set_exclusive b s = s\<lparr>sessionAttributes := (if b then sessionAttributes s OR TPMA_SESSION_auditExclusive
     else sessionAttributes s AND NOT TPMA_SESSION_auditExclusive)\<rparr>"

text \<open>One session of \<^verbatim>\<open>UpdateAuditSessionStatus\<close>: the session as it will be reported and the audit session found so far.\<close>

definition audit_session ::
  "auth_env \<Rightarrow> TPM_CC \<Rightarrow> bytes \<Rightarrow> AUTH_SESSION \<Rightarrow> TPM_HANDLE \<Rightarrow> world \<Rightarrow> (AUTH_SESSION \<times> TPM_HANDLE \<times> world) outcome" where
  "audit_session env cc params s found w =
     (let h = sessionHandle s; a = sessionAttributes s in
      if h = TPM_RS_PW then Ret (s, found, w)
      else obind (session_at w h) (\<lambda>se.
        if \<not> IS_ATTRIBUTE a TPMA_SESSION_audit then Ret (s, found, w)
        else obind (if \<not> isAudit (attributes se) \<or> IS_ATTRIBUTE a TPMA_SESSION_auditReset
                    then obind (update_session h InitAuditSession w) (\<lambda>w1. Ret (w1\<lparr>g_exclusiveAuditSession := h\<rparr>))
                    else Ret (if g_exclusiveAuditSession w \<noteq> h then w\<lparr>g_exclusiveAuditSession := TPM_RH_UNASSIGNED\<rparr> else w)) (\<lambda>w1.
          obind (Audit env cc params h w1) (\<lambda>w2. Ret (set_exclusive (g_exclusiveAuditSession w1 = h) s, h, w2)))))"

fun audit_sessions ::
  "auth_env \<Rightarrow> TPM_CC \<Rightarrow> bytes \<Rightarrow> AUTH_SESSION list \<Rightarrow> TPM_HANDLE \<Rightarrow> world \<Rightarrow> (AUTH_SESSION list \<times> TPM_HANDLE \<times> world) outcome" where
  "audit_sessions env cc params [] found w = Ret ([], found, w)"
| "audit_sessions env cc params (s # ss) found w = obind (audit_session env cc params s found w) (\<lambda>(s1, found1, w1).
     obind (audit_sessions env cc params ss found1 w1) (\<lambda>(ss1, found2, w2). Ret (s1 # ss1, found2, w2)))"

definition UpdateAuditSessionStatus ::
  "auth_env \<Rightarrow> TPM_CC \<Rightarrow> bytes \<Rightarrow> AUTH_SESSION list \<Rightarrow> world \<Rightarrow> (AUTH_SESSION list \<times> world) outcome" where
  "UpdateAuditSessionStatus env cc params ss w = obind (audit_sessions env cc params ss TPM_RH_UNASSIGNED w) (\<lambda>(ss1, found, w1).
     Ret (ss1, if found = TPM_RH_UNASSIGNED \<and> ae_sessionAllowed env cc then w1\<lparr>g_exclusiveAuditSession := TPM_RH_UNASSIGNED\<rparr> else w1))"

section \<open>Response\<close>

definition ComputeResponseHMAC :: "auth_env \<Rightarrow> TPM_CC \<Rightarrow> bytes \<Rightarrow> AUTH_SESSION \<Rightarrow> SESSION \<Rightarrow> world \<Rightarrow> bytes outcome" where
  "ComputeResponseHMAC env cc params s se w = obind (hmac_key w s se) (\<lambda>key.
     if key = [] \<and> inputAuthValue s = [] then Ret []
     else Ret (ae_hmac env (authHashAlg se) key
       (ComputeRpHash env (authHashAlg se) cc params @ nonceTPM se @ nonceCaller s @ [sessionAttributes s])))"

definition UpdateInternalSession :: "AUTH_SESSION \<Rightarrow> world \<Rightarrow> world outcome" where
  "UpdateInternalSession s w =
     (if HandleGetType (sessionHandle s) = TPM_HT_POLICY_SESSION \<and> IS_ATTRIBUTE (sessionAttributes s) TPMA_SESSION_continueSession
      then update_session (sessionHandle s) (\<lambda>se. SessionSetStartTime (w_sess w) (SessionResetPolicyData se)) w
      else Ret w)"

text \<open>The nonce and the authorization of a session in the response.\<close>

definition BuildSingleResponseAuth ::
  "auth_env \<Rightarrow> TPM_CC \<Rightarrow> bytes \<Rightarrow> AUTH_SESSION \<Rightarrow> world \<Rightarrow> (bytes \<times> bytes \<times> world) outcome" where
  "BuildSingleResponseAuth env cc params s w = obind (session_at w (sessionHandle s)) (\<lambda>se.
     obind (if HandleGetType (sessionHandle s) = TPM_HT_POLICY_SESSION \<and> isPasswordNeeded (attributes se) then Ret []
            else ComputeResponseHMAC env cc params s se w) (\<lambda>auth.
       obind (UpdateInternalSession s w) (\<lambda>w1. Ret (nonceTPM se, auth, w1))))"

text \<open>The session \<open>i\<close> draws its nonce as \<open>ae_nonce env i\<close>.\<close>

fun update_nonces :: "auth_env \<Rightarrow> nat \<Rightarrow> AUTH_SESSION list \<Rightarrow> world \<Rightarrow> world outcome" where
  "update_nonces env i [] w = Ret w"
| "update_nonces env i (s # ss) w =
     obind (if sessionHandle s = TPM_RS_PW then Ret w
            else update_session (sessionHandle s) (\<lambda>se. se\<lparr>nonceTPM := ae_nonce env i (length (nonceTPM se))\<rparr>) w) (update_nonces env (Suc i) ss)"

definition UpdateAllNonceTPM :: "auth_env \<Rightarrow> AUTH_SESSION list \<Rightarrow> world \<Rightarrow> world outcome" where
  "UpdateAllNonceTPM env ss w = update_nonces env 0 ss w"

definition TPM2B_Marshal :: "bytes \<Rightarrow> bytes" where
  "TPM2B_Marshal b = be 2 (word_of_nat (length b) :: u16) @ b"

fun response_sessions :: "auth_env \<Rightarrow> TPM_CC \<Rightarrow> bytes \<Rightarrow> AUTH_SESSION list \<Rightarrow> world \<Rightarrow> (bytes \<times> world) outcome" where
  "response_sessions env cc params [] w = Ret ([], w)"
| "response_sessions env cc params (s # ss) w =
     (if sessionHandle s = TPM_RS_PW
      then obind (response_sessions env cc params ss w) (\<lambda>(b, w1).
        Ret (TPM2B_Marshal [] @ [sessionAttributes s OR TPMA_SESSION_continueSession] @ TPM2B_Marshal [] @ b, w1))
      else obind (BuildSingleResponseAuth env cc params s w) (\<lambda>(nonce, auth, w1).
        obind (if IS_ATTRIBUTE (sessionAttributes s) TPMA_SESSION_continueSession then Ret w1
               else obind (SessionFlush (w_sess w1) (sessionHandle s)) (\<lambda>ss1. Ret (w1\<lparr>w_sess := ss1\<rparr>))) (\<lambda>w2.
          obind (response_sessions env cc params ss w2) (\<lambda>(b, w3).
            Ret (TPM2B_Marshal nonce @ [sessionAttributes s] @ TPM2B_Marshal auth @ b, w3)))))"

definition encrypt_parameter :: "auth_env \<Rightarrow> TPM_CC \<Rightarrow> session_area \<Rightarrow> bytes \<Rightarrow> world \<Rightarrow> bytes outcome" where
  "encrypt_parameter env cc area params w =
     (case sa_encrypt area of
        None \<Rightarrow> Ret params
      | Some e \<Rightarrow> let s = sa_sessions area ! e in
          obind (if associatedHandle s \<noteq> TPM_RH_UNASSIGNED then EntityGetAuthValue w (associatedHandle s) else Ret []) (\<lambda>extraKey.
          obind (session_at w (sessionHandle s)) (\<lambda>se. ae_encryption env se (nonceCaller s) (ae_encryptSize env cc) extraKey params)))"

text \<open>No session area stands for a command with the tag \<^verbatim>\<open>TPM_ST_NO_SESSIONS\<close>. The result is the parameters and the session area of the response.\<close>

definition BuildResponseSession ::
  "auth_env \<Rightarrow> TPM_CC \<Rightarrow> session_area option \<Rightarrow> bytes \<Rightarrow> world \<Rightarrow> (bytes \<times> bytes \<times> world) outcome" where
  "BuildResponseSession env cc area params w =
     obind (case area of
              None \<Rightarrow> Ret (params, w)
            | Some ar \<Rightarrow> obind (UpdateAllNonceTPM env (sa_sessions ar) w) (\<lambda>w1.
                obind (encrypt_parameter env cc ar params w1) (\<lambda>p. Ret (p, w1)))) (\<lambda>(params1, w1).
     obind (UpdateAuditSessionStatus env cc params1 (case area of None \<Rightarrow> [] | Some ar \<Rightarrow> sa_sessions ar) w1) (\<lambda>(ss, w2).
     obind (if ae_auditRequired env cc then CommandAudit env cc params1 w2 else Ret w2) (\<lambda>w3.
       case area of
         None \<Rightarrow> Ret (params1, [], w3)
       | Some ar \<Rightarrow> pAssert (ss \<noteq> []) (obind (response_sessions env cc params1 ss w3) (\<lambda>(b, w4). Ret (params1, b, w4))))))"

end
