(* ===== verification/Auth_Area.thy ===== *)
theory Auth_Area
  imports Auth_Soundness Auth_Responses Policy_Conditions
begin

text \<open>
  The encoding of the session area. Unmarshaling a session inverts its encoding and accepts nothing else, so that an
  accepted area is, octet for octet, the encoding of the sessions that are then checked; each use for decryption, encryption
  and audit belongs to the one session that asks for it.
\<close>

section \<open>Integers\<close>

lemma be_nat_inject: "length xs = length ys \<Longrightarrow> be_nat xs = be_nat ys \<Longrightarrow> xs = ys"
proof (induction xs ys rule: list_induct2)
  case (Cons x xs y ys)
  have l: "be_nat xs < 256 ^ length xs" "be_nat ys < 256 ^ length xs"
    using be_nat_less [of xs] be_nat_less [of ys] Cons.hyps by simp_all
  have e: "unat x * 256 ^ length xs + be_nat xs = unat y * 256 ^ length xs + be_nat ys"
    using Cons.prems Cons.hyps by simp
  have "unat x = (unat x * 256 ^ length xs + be_nat xs) div 256 ^ length xs"
    using l(1) by simp
  also have "\<dots> = unat y"
    unfolding e using l(2) by simp
  finally have "unat x = unat y" .
  then show ?case
    using e Cons.IH by (simp add: word_unat_eq_iff)
qed simp

lemma from_be_be_nat: "from_be bs = word_of_nat (be_nat bs)"
  using be_nat_foldl [of 0 bs] by (simp add: from_be_def)

lemma be_nat_be: "be_nat (be n w) = unat w mod 256 ^ n"
proof (induction n)
  case (Suc n)
  have "unat (ucast (drop_bit (8 * n) w) :: u8) = unat (drop_bit (8 * n) w) mod 256"
    by (simp add: unsigned_ucast_eq take_bit_nat_def)
  also have "unat (drop_bit (8 * n) w) = unat w div 256 ^ n"
    unfolding unat_drop_bit_eq by (simp add: drop_bit_eq_div power_mult)
  finally show ?case
    using Suc.IH mod_mult2_eq [of "unat w" "256 ^ n" 256] by (simp add: mult.commute)
qed simp

lemma unat_from_be: "length bs \<le> 8 \<Longrightarrow> unat (from_be bs) = be_nat bs"
proof -
  assume l: "length bs \<le> 8"
  have "be_nat bs < 256 ^ length bs"
    by (rule be_nat_less)
  also have "(256 :: nat) ^ length bs \<le> 256 ^ 8"
    using l by (intro power_increasing) simp_all
  finally show ?thesis
    unfolding from_be_be_nat by (simp add: unat_of_nat)
qed

lemma be_from_be:
  assumes "length bs = n" "LENGTH('a::len) = 8 * n" "n \<le> 8"
  shows "be n (ucast (from_be bs) :: 'a word) = bs"
proof (rule be_nat_inject)
  have b: "be_nat bs < 256 ^ n"
    using be_nat_less [of bs] assms(1) by simp
  have p: "(256 :: nat) ^ n = 2 ^ (8 * n)"
    by (simp add: power_mult)
  have "unat (ucast (from_be bs) :: 'a word) = be_nat bs"
    using b unat_from_be [of bs] assms p by (simp add: unsigned_ucast_eq take_bit_nat_eq_self)
  then show "be_nat (be n (ucast (from_be bs) :: 'a word)) = be_nat bs"
    using b by (simp add: be_nat_be)
qed (use assms in simp)

lemma from_be_of_be:
  fixes v :: "'a::len word"
  assumes "LENGTH('a) = 8 * n" "n \<le> 8"
  shows "ucast (from_be (be n v)) = v"
proof -
  have p: "(256 :: nat) ^ n = 2 ^ (8 * n)"
    by (simp add: power_mult)
  have "unat v < 256 ^ n"
    using unsigned_less [of v] assms(1) p by simp
  then have "unat (from_be (be n v)) = unat v"
    using assms(2) by (simp add: unat_from_be be_nat_be)
  then show ?thesis
    using unsigned_less [of v, where 'a = nat] by (simp add: word_unat_eq_iff unsigned_ucast_eq take_bit_nat_eq_self)
qed

section \<open>One session\<close>

definition marshal_session :: "AUTH_SESSION \<Rightarrow> bytes" where
  "marshal_session s = be 4 (sessionHandle s) @ TPM2B_Marshal (nonceCaller s) @ [sessionAttributes s] @ TPM2B_Marshal (inputAuthValue s)"

definition session_handle_ok :: "TPM_HANDLE \<Rightarrow> bool" where
  "session_handle_ok h \<longleftrightarrow> HMAC_SESSION_FIRST \<le> h \<and> h \<le> HMAC_SESSION_LAST \<or> POLICY_SESSION_FIRST \<le> h \<and> h \<le> POLICY_SESSION_LAST \<or> h = TPM_RS_PW"

definition session_wf :: "AUTH_SESSION \<Rightarrow> bool" where
  "session_wf s \<longleftrightarrow> session_handle_ok (sessionHandle s) \<and> length (nonceCaller s) \<le> sizeof_TPMU_HA
     \<and> sessionAttributes s AND TPMA_SESSION_reserved = 0 \<and> length (inputAuthValue s) \<le> sizeof_TPMU_HA \<and> associatedHandle s = TPM_RH_UNASSIGNED"

lemma UINT32_Unmarshal_iff: "UINT32_Unmarshal b = Inr (v, r) \<longleftrightarrow> b = be 4 v @ r"
proof
  assume "UINT32_Unmarshal b = Inr (v, r)"
  then have "4 \<le> length b" "v = ucast (from_be (take 4 b))" "r = drop 4 b"
    by (auto simp: UINT32_Unmarshal_def split: if_splits)
  then show "b = be 4 v @ r"
    using be_from_be [of "take 4 b" 4, where 'a = 32] by simp
next
  assume "b = be 4 v @ r"
  then show "UINT32_Unmarshal b = Inr (v, r)"
    using from_be_of_be [of 4 v] by (simp add: UINT32_Unmarshal_def)
qed

lemma UINT16_Unmarshal_iff: "UINT16_Unmarshal b = Inr (v, r) \<longleftrightarrow> b = be 2 v @ r"
proof
  assume "UINT16_Unmarshal b = Inr (v, r)"
  then have "2 \<le> length b" "v = ucast (from_be (take 2 b))" "r = drop 2 b"
    by (auto simp: UINT16_Unmarshal_def split: if_splits)
  then show "b = be 2 v @ r"
    using be_from_be [of "take 2 b" 2, where 'a = 16] by simp
next
  assume "b = be 2 v @ r"
  then show "UINT16_Unmarshal b = Inr (v, r)"
    using from_be_of_be [of 2 v] by (simp add: UINT16_Unmarshal_def)
qed

lemma TPM2B_Unmarshal_iff:
  assumes "n < 2 ^ 16"
  shows "TPM2B_Unmarshal n b = Inr (x, r) \<longleftrightarrow> b = TPM2B_Marshal x @ r \<and> length x \<le> n"
proof
  assume a: "TPM2B_Unmarshal n b = Inr (x, r)"
  then obtain k b1 where k: "UINT16_Unmarshal b = Inr (k, b1)" and "unat k \<le> n" "unat k \<le> length b1" "x = take (unat k) b1" "r = drop (unat k) b1"
    by (auto simp: TPM2B_Unmarshal_def split: sum.splits if_splits)
  moreover then have "word_of_nat (length x) = k"
    by simp
  ultimately show "b = TPM2B_Marshal x @ r \<and> length x \<le> n"
    using k by (simp add: UINT16_Unmarshal_iff TPM2B_Marshal_def)
next
  assume a: "b = TPM2B_Marshal x @ r \<and> length x \<le> n"
  then have k: "UINT16_Unmarshal b = Inr (word_of_nat (length x), x @ r)"
    by (simp add: UINT16_Unmarshal_iff TPM2B_Marshal_def)
  have "unat (word_of_nat (length x) :: u16) = length x"
    using a assms by (simp add: unat_of_nat)
  then show "TPM2B_Unmarshal n b = Inr (x, r)"
    using a k by (simp add: TPM2B_Unmarshal_def)
qed

lemma TPMA_SESSION_Unmarshal_iff: "TPMA_SESSION_Unmarshal b = Inr (a, r) \<longleftrightarrow> b = a # r \<and> a AND TPMA_SESSION_reserved = 0"
  by (auto simp: TPMA_SESSION_Unmarshal_def split: list.splits if_splits)

lemma UINT32_Unmarshal_be [simp]: "UINT32_Unmarshal (be 4 v @ r) = Inr (v, r)"
  by (simp add: UINT32_Unmarshal_iff)

lemma TPMI_SH_AUTH_SESSION_Unmarshal_iff: "TPMI_SH_AUTH_SESSION_Unmarshal b = Inr (h, r) \<longleftrightarrow> b = be 4 h @ r \<and> session_handle_ok h"
  using UINT32_Unmarshal_iff [of b h r]
  by (auto simp: TPMI_SH_AUTH_SESSION_Unmarshal_def session_handle_ok_def not_less UINT32_Unmarshal_iff split: sum.splits if_splits)

lemma sum_bind_iff: "(case x of Inl e \<Rightarrow> Inl e | Inr p \<Rightarrow> f p) = Inr y \<longleftrightarrow> (\<exists>p. x = Inr p \<and> f p = Inr y)"
  by (cases x) auto

lemma unmarshal_session_iff: "unmarshal_session b = Inr (s, r) \<longleftrightarrow> b = marshal_session s @ r \<and> session_wf s"
proof -
  have n: "sizeof_TPMU_HA < 2 ^ 16"
    by (simp add: tpm_consts)
  have "unmarshal_session b = Inr (s, r) \<longleftrightarrow> (\<exists>b1 b2 b3. TPMI_SH_AUTH_SESSION_Unmarshal b = Inr (sessionHandle s, b1)
      \<and> TPM2B_Unmarshal sizeof_TPMU_HA b1 = Inr (nonceCaller s, b2) \<and> TPMA_SESSION_Unmarshal b2 = Inr (sessionAttributes s, b3)
      \<and> TPM2B_Unmarshal sizeof_TPMU_HA b3 = Inr (inputAuthValue s, r)) \<and> associatedHandle s = TPM_RH_UNASSIGNED"
    unfolding unmarshal_session_def sum_bind_iff split_beta
    by (cases s) (auto simp: sum_bind_iff)
  then show ?thesis
    by (auto simp: TPMI_SH_AUTH_SESSION_Unmarshal_iff TPM2B_Unmarshal_iff [OF n] TPMA_SESSION_Unmarshal_iff marshal_session_def session_wf_def)
qed

section \<open>The area\<close>

definition use_ok :: "TPMA_SESSION \<Rightarrow> nat option \<Rightarrow> AUTH_SESSION list \<Rightarrow> bool" where
  "use_ok a u ss \<longleftrightarrow> (\<forall>i < length ss. IS_ATTRIBUTE (sessionAttributes (ss ! i)) a \<longleftrightarrow> u = Some i) \<and> (\<forall>i. u = Some i \<longrightarrow> i < length ss)"

definition handles_once :: "AUTH_SESSION list \<Rightarrow> bool" where
  "handles_once ss \<longleftrightarrow> distinct (filter (\<lambda>h. h \<noteq> TPM_RS_PW) (map sessionHandle ss))"

definition area_ok :: "session_area \<Rightarrow> bool" where
  "area_ok area \<longleftrightarrow> use_ok TPMA_SESSION_decrypt (sa_decrypt area) (sa_sessions area) \<and> use_ok TPMA_SESSION_encrypt (sa_encrypt area) (sa_sessions area)
     \<and> use_ok TPMA_SESSION_audit (sa_audit area) (sa_sessions area) \<and> handles_once (sa_sessions area) \<and> list_all session_wf (sa_sessions area)"

lemma use_ok_snoc:
  assumes "use_ok a u ss" "IS_ATTRIBUTE (sessionAttributes s) a \<longrightarrow> u = None"
  shows "use_ok a (if IS_ATTRIBUTE (sessionAttributes s) a then Some (length ss) else u) (ss @ [s])"
  using assms by (auto simp: use_ok_def nth_append less_Suc_eq)

lemma IS_ATTRIBUTE_or: "IS_ATTRIBUTE x (a OR b) \<longleftrightarrow> IS_ATTRIBUTE x a \<or> IS_ATTRIBUTE x b"
  by (simp add: IS_ATTRIBUTE_def bit.conj_disj_distrib or_eq_0_iff)

lemma if_Inl_Inr_iff: "(if P then Inl x else y) = Inr z \<longleftrightarrow> \<not> P \<and> y = Inr z"
  by simp

lemma mark_use_ok:
  assumes "mark_use env w cc s se (length (sa_sessions area)) area = Inr area'" "area_ok area" "session_wf s"
    and "sessionHandle s \<notin> set (map sessionHandle (sa_sessions area))"
  shows "area_ok area' \<and> sa_sessions area' = sa_sessions area @ [s]"
proof -
  let ?a = "sessionAttributes s" and ?n = "length (sa_sessions area)"
  have u: "IS_ATTRIBUTE ?a TPMA_SESSION_decrypt \<longrightarrow> sa_decrypt area = None" "IS_ATTRIBUTE ?a TPMA_SESSION_encrypt \<longrightarrow> sa_encrypt area = None"
    "IS_ATTRIBUTE ?a TPMA_SESSION_audit \<longrightarrow> sa_audit area = None"
    and e: "area' = area\<lparr>sa_sessions := sa_sessions area @ [s],
        sa_decrypt := (if IS_ATTRIBUTE ?a TPMA_SESSION_decrypt then Some ?n else sa_decrypt area),
        sa_encrypt := (if IS_ATTRIBUTE ?a TPMA_SESSION_encrypt then Some ?n else sa_encrypt area),
        sa_audit := (if IS_ATTRIBUTE ?a TPMA_SESSION_audit then Some ?n else sa_audit area)\<rparr>"
    using assms(1) unfolding mark_use_def Let_def if_Inl_Inr_iff sum.inject by blast+
  show ?thesis
    using assms(2-4) use_ok_snoc [OF _ u(1)] use_ok_snoc [OF _ u(2)] use_ok_snoc [OF _ u(3)]
    unfolding e by (auto simp: area_ok_def handles_once_def)
qed

lemma retrieve_session_ok:
  assumes "retrieve_session env w cc (length (sa_sessions area)) s area = Ret (Inr area')" "area_ok area" "session_wf s"
  shows "area_ok area' \<and> sa_sessions area' = sa_sessions area @ [s]"
proof (cases "sessionHandle s = TPM_RS_PW")
  case True
  then have e: "area' = area\<lparr>sa_sessions := sa_sessions area @ [s]\<rparr>"
    and n: "\<not> IS_ATTRIBUTE (sessionAttributes s) TPMA_SESSION_encrypt" "\<not> IS_ATTRIBUTE (sessionAttributes s) TPMA_SESSION_decrypt"
      "\<not> IS_ATTRIBUTE (sessionAttributes s) TPMA_SESSION_audit"
    using assms(1) by (auto simp: retrieve_session_def Let_def IS_ATTRIBUTE_or split: if_split_asm)
  show ?thesis
    using assms(2,3) n True use_ok_snoc [of TPMA_SESSION_decrypt "sa_decrypt area" "sa_sessions area" s]
      use_ok_snoc [of TPMA_SESSION_encrypt "sa_encrypt area" "sa_sessions area" s]
      use_ok_snoc [of TPMA_SESSION_audit "sa_audit area" "sa_sessions area" s]
    unfolding e by (auto simp: area_ok_def handles_once_def)
next
  case False
  then obtain se where "mark_use env w cc s se (length (sa_sessions area)) area = Inr area'"
    "sessionHandle s \<notin> set (map sessionHandle (sa_sessions area))"
    using assms(1) by (auto simp: retrieve_session_def Let_def obind_Ret_iff split: if_split_asm)
  then show ?thesis
    using mark_use_ok assms(2,3) by blast
qed

lemma retrieve_loop_ok:
  assumes "retrieve_loop env w cc n b area = Ret (Inr area')" "area_ok area" "length (sa_sessions area) + n = MAX_SESSION_NUM"
  shows "area_ok area' \<and> concat (map marshal_session (sa_sessions area')) = concat (map marshal_session (sa_sessions area)) @ b"
  using assms
proof (induction env w cc n b area rule: retrieve_loop.induct)
  case (3 env w cc n x b area)
  obtain s b1 where u: "unmarshal_session (x # b) = Inr (s, b1)"
    using "3.prems"(1) by (cases "unmarshal_session (x # b)") (auto simp: Let_def)
  have i: "MAX_SESSION_NUM - Suc n = length (sa_sessions area)"
    using "3.prems"(3) by simp
  obtain r where "retrieve_session env w cc (length (sa_sessions area)) s area = Ret r"
    "(case r of Inl rc \<Rightarrow> Ret (Inl rc) | Inr area1 \<Rightarrow> retrieve_loop env w cc n b1 area1) = Ret (Inr area')"
    using "3.prems"(1) u by (auto simp: Let_def obind_Ret_iff i)
  then obtain area1 where r: "retrieve_session env w cc (length (sa_sessions area)) s area = Ret (Inr area1)"
    "retrieve_loop env w cc n b1 area1 = Ret (Inr area')"
    by (cases r) auto
  have s: "x # b = marshal_session s @ b1" "session_wf s"
    using u by (simp_all add: unmarshal_session_iff)
  have a1: "area_ok area1" "sa_sessions area1 = sa_sessions area @ [s]"
    using retrieve_session_ok [OF r(1) "3.prems"(2) s(2)] by auto
  have "area_ok area' \<and> concat (map marshal_session (sa_sessions area')) = concat (map marshal_session (sa_sessions area1)) @ b1"
    by (rule "3.IH" [OF refl u refl r(1) [folded i] refl r(2) a1(1)]) (use a1(2) "3.prems"(3) in simp)
  then show ?case
    using a1(2) s(1) by simp
qed auto



end
