(* ===== verification/Auth_Replay.thy ===== *)
theory Auth_Replay
  imports Auth_Soundness Auth_Responses
begin

text \<open>
  Freshness of HMAC authorizations. The response to a command gives every session of the command a new nonce; an
  authorization that was accepted is refused from then on, whatever command it is sent with.
\<close>

section \<open>Rolling nonces\<close>

definition set_nonce :: "bytes \<Rightarrow> SESSION \<Rightarrow> SESSION" where
  "set_nonce x se = se\<lparr>nonceTPM := x\<rparr>"

lemma set_nonce_fields [simp]:
  "nonceTPM (set_nonce x se) = x" "authHashAlg (set_nonce x se) = authHashAlg se" "set_nonce x (set_nonce y se) = set_nonce x se"
  "set_nonce (nonceTPM se) se = se"
  by (simp_all add: set_nonce_def)

lemma update_session_at:
  assumes "update_session h f w = Ret w1" "session_at w g = Ret se" "length (s_sessions (w_sess w)) = MAX_LOADED_SESSIONS"
  shows "session_at w1 g = Ret se \<and> h \<noteq> g \<or> session_at w1 g = Ret (f se)"
    "length (s_sessions (w_sess w1)) = MAX_LOADED_SESSIONS" "w_nv w1 = w_nv w"
proof -
  obtain k where k: "SessionGet (w_sess w) h = Ret k"
    using assms(1) by (cases "SessionGet (w_sess w) h") (auto simp: update_session_def)
  obtain j where j: "SessionGet (w_sess w) g = Ret j" "se = session (s_sessions (w_sess w) ! j)"
    using assms(2) by (cases "SessionGet (w_sess w) g") (auto simp: session_at_def)
  let ?x = "s_sessions (w_sess w) ! k"
  have w1: "w1 = w\<lparr>w_sess := (w_sess w)\<lparr>s_sessions := (s_sessions (w_sess w))[k := ?x\<lparr>session := f (session ?x)\<rparr>]\<rparr>\<rparr>"
    using assms(1) k by (simp add: update_session_def Let_def)
  have l: "j < length (s_sessions (w_sess w))"
    using j assms(3) by (auto simp: SessionGet_def pAssert_def Let_def split: if_splits)
  have g: "SessionGet (w_sess w1) g = Ret j"
    using j(1) by (simp add: w1 SessionGet_def)
  show "session_at w1 g = Ret se \<and> h \<noteq> g \<or> session_at w1 g = Ret (f se)"
  proof (cases "k = j")
    case True
    then show ?thesis
      using g j l by (simp add: session_at_def) (simp add: w1)
  next
    case False
    then have "h \<noteq> g"
      using k j(1) by auto
    then show ?thesis
      using False g j l by (simp add: session_at_def) (simp add: w1)
  qed
  show "length (s_sessions (w_sess w1)) = MAX_LOADED_SESSIONS" "w_nv w1 = w_nv w"
    using assms(3) by (simp_all add: w1)
qed

lemma update_nonces_at:
  assumes "update_nonces env i ss w = Ret w1" "session_at w g = Ret se" "length (s_sessions (w_sess w)) = MAX_LOADED_SESSIONS"
    and len: "\<And>k n. length (ae_nonce env k n) = n"
  shows "w_nv w1 = w_nv w \<and> length (s_sessions (w_sess w1)) = MAX_LOADED_SESSIONS
    \<and> (\<exists>x. session_at w1 g = Ret (set_nonce x se) \<and> length x = length (nonceTPM se)
         \<and> (x = nonceTPM se \<and> (g = TPM_RS_PW \<or> g \<notin> sessionHandle ` set ss) \<or> (\<exists>k. x = ae_nonce env k (length (nonceTPM se)))))"
  using assms(1-3)
proof (induction ss arbitrary: i w se)
  case Nil
  then show ?case
    by (intro conjI exI [of _ "nonceTPM se"]) auto
next
  case (Cons s ss)
  let ?f = "\<lambda>se. set_nonce (ae_nonce env i (length (nonceTPM se))) se"
  obtain w2 where w2: "if sessionHandle s = TPM_RS_PW then w2 = w else update_session (sessionHandle s) ?f w = Ret w2"
    "update_nonces env (Suc i) ss w2 = Ret w1"
    using Cons.prems(1) by (auto simp: obind_Ret_iff set_nonce_def split: if_splits)
  have s2: "session_at w2 g = Ret se \<and> (sessionHandle s = TPM_RS_PW \<or> sessionHandle s \<noteq> g) \<or> session_at w2 g = Ret (?f se)"
    and l2: "length (s_sessions (w_sess w2)) = MAX_LOADED_SESSIONS" and n2: "w_nv w2 = w_nv w"
    using w2(1) Cons.prems(2,3) update_session_at [of "sessionHandle s" ?f w w2 g se] by (auto split: if_splits)
  from s2 show ?case
  proof
    assume "session_at w2 g = Ret se \<and> (sessionHandle s = TPM_RS_PW \<or> sessionHandle s \<noteq> g)"
    then show ?thesis
      using Cons.IH [OF w2(2) _ l2, of se] n2 by auto
  next
    assume "session_at w2 g = Ret (?f se)"
    then show ?thesis
      using Cons.IH [OF w2(2) _ l2, of "?f se"] n2 len by auto
  qed
qed

section \<open>Replay\<close>

lemma CheckSessionHMAC_sess: "CheckSessionHMAC env c area i w = Ret (TPM_RC_SUCCESS, w1) \<Longrightarrow> w_sess w1 = w_sess w"
  by (auto simp: CheckSessionHMAC_def ComputeCommandHMAC_def count_failure_def cp_hash_def Let_def obind_Ret_iff
      split: if_splits option.splits dest: IncrementLockout_not_success)

lemma hmac_validD:
  assumes "hmac_valid env w c area i inc" "session_at w (sessionHandle (sa_sessions area ! i)) = Ret se" "inputAuthValue (sa_sessions area ! i) \<noteq> []"
  obtains key rest where "inputAuthValue (sa_sessions area ! i) = ae_hmac env (authHashAlg se) key
      (ComputeCpHash (view env w) (authHashAlg se) c @ nonceCaller (sa_sessions area ! i) @ nonceTPM se @ rest)"
  using assms unfolding hmac_valid_def Let_def by auto


definition demo_renv :: auth_env where
  "demo_renv = demo_aenv\<lparr>ae_hmac := (\<lambda>alg k m. m), pe_hash := (\<lambda>alg m. replicate (CryptHashGetDigestSize alg) 0)\<rparr>"

definition demo_hmac_session :: AUTH_SESSION where
  "demo_hmac_session = \<lparr>sessionHandle = 0x02000000, nonceCaller = [1, 2, 3], sessionAttributes = 0x81,
     inputAuthValue = replicate 32 0 @ [1, 2, 3] @ replicate 16 7 @ [0x81], associatedHandle = TPM_RH_UNASSIGNED\<rparr>"

definition demo_hmac_area :: session_area where
  "demo_hmac_area = \<lparr>sa_sessions = [demo_hmac_session], sa_decrypt = None, sa_encrypt = None, sa_audit = Some 0\<rparr>"


end
