(* ===== verification/Auth_Audit.thy ===== *)
theory Auth_Audit
  imports Auth_Replay
begin

text \<open>
  Audit sessions. An audit session that is exclusive has recorded every command since it was started or reset, except
  commands that cannot have sessions: its digest is the hash chain over exactly these commands and responses.
\<close>

section \<open>Runs\<close>

record audit_event =
  ev_env :: auth_env
  ev_cc :: TPM_CC
  ev_params :: bytes
  ev_sessions :: "AUTH_SESSION list"
  ev_cpHash :: "(TPM_ALG_ID \<times> bytes) list"

fun audit_run :: "audit_event list \<Rightarrow> world \<Rightarrow> world outcome" where
  "audit_run [] w = Ret w"
| "audit_run (e # es) w = obind (UpdateAuditSessionStatus (ev_env e) (ev_cc e) (ev_params e) (ev_sessions e) (w\<lparr>w_cpHash := ev_cpHash e\<rparr>))
     (\<lambda>(ss, w1). audit_run es w1)"

definition auditing :: "AUTH_SESSION \<Rightarrow> bool" where
  "auditing s \<longleftrightarrow> sessionHandle s \<noteq> TPM_RS_PW \<and> IS_ATTRIBUTE (sessionAttributes s) TPMA_SESSION_audit"

definition audited_by :: "audit_event \<Rightarrow> TPM_HANDLE option" where
  "audited_by e = (case filter auditing (ev_sessions e) of [] \<Rightarrow> None | s # ss \<Rightarrow> Some (sessionHandle s))"

definition one_audit :: "audit_event \<Rightarrow> bool" where
  "one_audit e \<longleftrightarrow> length (filter auditing (ev_sessions e)) \<le> 1"

definition audit_link :: "TPM_ALG_ID \<Rightarrow> bytes \<Rightarrow> audit_event \<Rightarrow> bytes" where
  "audit_link alg d e = pe_hash (ev_env e) alg (d @ the (map_of (ev_cpHash e) alg) @ ComputeRpHash (ev_env e) alg (ev_cc e) (ev_params e))"

definition audit_chain :: "TPM_ALG_ID \<Rightarrow> audit_event list \<Rightarrow> bytes" where
  "audit_chain alg es = foldl (audit_link alg) (replicate (CryptHashGetDigestSize alg) 0) es"

section \<open>One command\<close>

lemma audit_session_other: "\<not> auditing s \<Longrightarrow> audit_session env cc params s found w = Ret r \<Longrightarrow> r = (s, found, w)"
  by (auto simp: audit_session_def auditing_def Let_def obind_Ret_iff split: if_splits)

lemma audit_sessions_none:
  "filter auditing ss = [] \<Longrightarrow> audit_sessions env cc params ss found w = Ret r \<Longrightarrow> r = (ss, found, w)"
proof (induction ss arbitrary: r)
  case (Cons s ss)
  have "\<not> auditing s" "filter auditing ss = []"
    using Cons.prems(1) by (auto split: if_splits)
  then show ?case
    using Cons.prems(2) Cons.IH by (fastforce simp: obind_Ret_iff dest: audit_session_other)
qed simp

lemma audit_sessions_one:
  assumes "filter auditing ss = [s]" "audit_sessions env cc params ss found w = Ret (ss', found', w')"
  shows "\<exists>s'. audit_session env cc params s found w = Ret (s', found', w')"
  using assms
proof (induction ss arbitrary: ss' found w)
  case (Cons t ss)
  obtain t' found1 w1 ss1 where t: "audit_session env cc params t found w = Ret (t', found1, w1)"
    and r: "audit_sessions env cc params ss found1 w1 = Ret (ss1, found', w')"
    using Cons.prems(2) by (auto simp: obind_Ret_iff)
  show ?case
  proof (cases "auditing t")
    case True
    then have "t = s" "filter auditing ss = []"
      using Cons.prems(1) by auto
    then show ?thesis
      using t audit_sessions_none [OF _ r] by auto
  next
    case False
    then show ?thesis
      using Cons.IH [OF _ r] Cons.prems(1) audit_session_other [OF False t] by simp
  qed
qed simp

lemma InitAuditSession_fields [simp]:
  "authHashAlg (InitAuditSession se) = authHashAlg se" "u2 (InitAuditSession se) = replicate (CryptHashGetDigestSize (authHashAlg se)) 0"
  by (simp_all add: InitAuditSession_def)

lemma Audit_extends:
  assumes "Audit env cc params h w = Ret w'" "session_at w h = Ret se" "length (s_sessions (w_sess w)) = MAX_LOADED_SESSIONS"
  shows "session_at w' h = Ret (se\<lparr>u2 := pe_hash env (authHashAlg se) (u2 se @ the (map_of (w_cpHash w) (authHashAlg se))
      @ ComputeRpHash env (authHashAlg se) cc params)\<rparr>)"
    "length (s_sessions (w_sess w')) = MAX_LOADED_SESSIONS" "g_exclusiveAuditSession w' = g_exclusiveAuditSession w"
proof -
  obtain d where d: "UpdateAuditDigest env cc params (authHashAlg se) (u2 se) w = Ret d"
    and u: "update_session h (\<lambda>se. se\<lparr>u2 := d\<rparr>) w = Ret w'"
    using assms(1,2) by (auto simp: Audit_def obind_Ret_iff)
  have "d = pe_hash env (authHashAlg se) (u2 se @ the (map_of (w_cpHash w) (authHashAlg se)) @ ComputeRpHash env (authHashAlg se) cc params)"
    using d by (auto simp: UpdateAuditDigest_def GetCpHash_def pAssert_def obind_Ret_iff split: option.splits if_splits)
  then show "session_at w' h = Ret (se\<lparr>u2 := pe_hash env (authHashAlg se) (u2 se @ the (map_of (w_cpHash w) (authHashAlg se))
      @ ComputeRpHash env (authHashAlg se) cc params)\<rparr>)" "length (s_sessions (w_sess w')) = MAX_LOADED_SESSIONS"
    using update_session_at [OF u assms(2,3)] by auto
  show "g_exclusiveAuditSession w' = g_exclusiveAuditSession w"
    using u by (auto simp: update_session_def Let_def obind_Ret_iff)
qed

text \<open>A command without an audit session ends exclusive use, unless it cannot have sessions.\<close>

lemma audit_step_none:
  assumes "audit_run [e] w = Ret w'" "audited_by e = None"
  shows "g_exclusiveAuditSession w' = (if ae_sessionAllowed (ev_env e) (ev_cc e) then TPM_RH_UNASSIGNED else g_exclusiveAuditSession w)"
    "w_sess w' = w_sess w"
proof -
  have n: "filter auditing (ev_sessions e) = []"
    using assms(2) by (auto simp: audited_by_def split: list.splits)
  show "g_exclusiveAuditSession w' = (if ae_sessionAllowed (ev_env e) (ev_cc e) then TPM_RH_UNASSIGNED else g_exclusiveAuditSession w)"
    "w_sess w' = w_sess w"
    using assms(1) by (auto simp: UpdateAuditSessionStatus_def obind_Ret_iff dest: audit_sessions_none [OF n])
qed

text \<open>A command with one audit session: the session starts its log and is exclusive, or it extends its log and keeps what it had.\<close>

lemma audit_step_some:
  assumes run: "audit_run [e] w = Ret w'" and au: "audited_by e = Some h" and one: "one_audit e"
    and len: "length (s_sessions (w_sess w)) = MAX_LOADED_SESSIONS"
  obtains (start) se where "g_exclusiveAuditSession w' = h" "length (s_sessions (w_sess w')) = MAX_LOADED_SESSIONS"
      "session_at w' h = Ret se" "u2 se = audit_chain (authHashAlg se) [e]"
  | (extend) se where "g_exclusiveAuditSession w' = (if g_exclusiveAuditSession w = h then h else TPM_RH_UNASSIGNED)"
      "length (s_sessions (w_sess w')) = MAX_LOADED_SESSIONS"
      "session_at w h = Ret se" "session_at w' h = Ret (se\<lparr>u2 := audit_link (authHashAlg se) (u2 se) e\<rparr>)"
proof -
  let ?w = "w\<lparr>w_cpHash := ev_cpHash e\<rparr>"
  obtain s where s: "filter auditing (ev_sessions e) = [s]" "sessionHandle s = h"
    using au one by (auto simp: audited_by_def one_audit_def split: list.splits)
  then have a: "auditing s"
    by (metis filter_eq_Cons_iff)
  obtain ss' found w2 where "audit_sessions (ev_env e) (ev_cc e) (ev_params e) (ev_sessions e) TPM_RH_UNASSIGNED ?w = Ret (ss', found, w2)"
    and w': "w' = (if found = TPM_RH_UNASSIGNED \<and> ae_sessionAllowed (ev_env e) (ev_cc e) then w2\<lparr>g_exclusiveAuditSession := TPM_RH_UNASSIGNED\<rparr> else w2)"
    using run by (auto simp: UpdateAuditSessionStatus_def obind_Ret_iff)
  with audit_sessions_one [OF s(1)]
  obtain s' where "audit_session (ev_env e) (ev_cc e) (ev_params e) s TPM_RH_UNASSIGNED ?w = Ret (s', found, w2)"
    by blast
  then obtain se w1 where se: "session_at ?w h = Ret se" and found: "found = h"
    and w1: "(if \<not> isAudit (attributes se) \<or> IS_ATTRIBUTE (sessionAttributes s) TPMA_SESSION_auditReset
              then obind (update_session h InitAuditSession ?w) (\<lambda>w1. Ret (w1\<lparr>g_exclusiveAuditSession := h\<rparr>))
              else Ret (if g_exclusiveAuditSession ?w \<noteq> h then ?w\<lparr>g_exclusiveAuditSession := TPM_RH_UNASSIGNED\<rparr> else ?w)) = Ret w1"
    and w2: "Audit (ev_env e) (ev_cc e) (ev_params e) h w1 = Ret w2"
    using a unfolding audit_session_def Let_def auditing_def s(2) by (auto simp: obind_Ret_iff)
  have same: "session_at w h = session_at ?w h" "session_at w' h = session_at w2 h" "w_sess w' = w_sess w2"
    using w' by (simp_all add: session_at_def)
  show ?thesis
  proof (cases "\<not> isAudit (attributes se) \<or> IS_ATTRIBUTE (sessionAttributes s) TPMA_SESSION_auditReset")
    case True
    then obtain w0 where w0: "update_session h InitAuditSession ?w = Ret w0" and w1: "w1 = w0\<lparr>g_exclusiveAuditSession := h\<rparr>"
      using w1 by (auto simp: obind_Ret_iff)
    have "session_at w0 h = Ret (InitAuditSession se)" and l0: "length (s_sessions (w_sess w0)) = MAX_LOADED_SESSIONS"
      using update_session_at [OF w0 se] len by auto
    then have se1: "session_at w1 h = Ret (InitAuditSession se)" and l1: "length (s_sessions (w_sess w1)) = MAX_LOADED_SESSIONS"
      by (simp_all add: w1 session_at_def)
    have c: "w_cpHash w1 = ev_cpHash e"
      using w0 by (auto simp: w1 update_session_def Let_def obind_Ret_iff)
    note x = Audit_extends [OF w2 se1 l1]
    show ?thesis
      by (rule start [OF _ _ _]) (use x w' found same w1 c in \<open>auto simp: audit_chain_def audit_link_def\<close>)
  next
    case False
    then have w1: "w1 = (if g_exclusiveAuditSession w \<noteq> h then ?w\<lparr>g_exclusiveAuditSession := TPM_RH_UNASSIGNED\<rparr> else ?w)"
      using w1 by simp
    have se1: "session_at w1 h = Ret se" and l1: "length (s_sessions (w_sess w1)) = MAX_LOADED_SESSIONS" and c: "w_cpHash w1 = ev_cpHash e"
      using se len by (auto simp: w1 session_at_def)
    note x = Audit_extends [OF w2 se1 l1]
    show ?thesis
      by (rule extend [of se]) (use x w' found same w1 c se in \<open>auto simp: audit_link_def\<close>)
  qed
qed

section \<open>Exclusive logs\<close>

lemma audit_run_snoc: "audit_run (es @ [e]) w = obind (audit_run es w) (audit_run [e])"
proof (induction es arbitrary: w)
  case (Cons a es)
  show ?case
    by (cases "UpdateAuditSessionStatus (ev_env a) (ev_cc a) (ev_params a) (ev_sessions a) (w\<lparr>w_cpHash := ev_cpHash a\<rparr>)")
      (auto simp: Cons.IH simp del: audit_run.simps(2)[of e])
qed simp

text \<open>The log of an exclusive session: it starts with a command that the session audited and has the later ones, of which none was left out.\<close>

definition exclusive_log :: "TPM_HANDLE \<Rightarrow> audit_event list \<Rightarrow> world \<Rightarrow> bool" where
  "exclusive_log h es w \<longleftrightarrow> (\<exists>pre e post se. es = pre @ e # post \<and> audited_by e = Some h
     \<and> list_all (\<lambda>x. audited_by x = Some h \<or> audited_by x = None \<and> \<not> ae_sessionAllowed (ev_env x) (ev_cc x)) post
     \<and> session_at w h = Ret se \<and> u2 se = audit_chain (authHashAlg se) (e # filter (\<lambda>x. audited_by x = Some h) post))"

lemma exclusive_log_skip:
  assumes "exclusive_log h es w" "audited_by x = None" "\<not> ae_sessionAllowed (ev_env x) (ev_cc x)" "w_sess w' = w_sess w"
  shows "exclusive_log h (es @ [x]) w'"
proof -
  from assms(1) obtain pre e post se where l: "es = pre @ e # post" "audited_by e = Some h"
    "list_all (\<lambda>x. audited_by x = Some h \<or> audited_by x = None \<and> \<not> ae_sessionAllowed (ev_env x) (ev_cc x)) post"
    "session_at w h = Ret se" "u2 se = audit_chain (authHashAlg se) (e # filter (\<lambda>x. audited_by x = Some h) post)"
    unfolding exclusive_log_def by blast
  show ?thesis
    unfolding exclusive_log_def
    by (intro exI [of _ pre] exI [of _ e] exI [of _ "post @ [x]"] exI [of _ se]) (use l assms in \<open>simp add: session_at_def\<close>)
qed

lemma exclusive_log_extend:
  assumes "exclusive_log h es w" "audited_by x = Some h" "session_at w h = Ret se"
    "session_at w' h = Ret (se\<lparr>u2 := audit_link (authHashAlg se) (u2 se) x\<rparr>)"
  shows "exclusive_log h (es @ [x]) w'"
proof -
  from assms(1,3) obtain pre e post where l: "es = pre @ e # post" "audited_by e = Some h"
    "list_all (\<lambda>x. audited_by x = Some h \<or> audited_by x = None \<and> \<not> ae_sessionAllowed (ev_env x) (ev_cc x)) post"
    "u2 se = audit_chain (authHashAlg se) (e # filter (\<lambda>x. audited_by x = Some h) post)"
    unfolding exclusive_log_def by auto
  show ?thesis
    unfolding exclusive_log_def
    by (intro exI [of _ pre] exI [of _ e] exI [of _ "post @ [x]"] exI [of _ "se\<lparr>u2 := audit_link (authHashAlg se) (u2 se) x\<rparr>"])
      (use l assms in \<open>simp add: audit_chain_def\<close>)
qed

lemma exclusive_log_start:
  assumes "audited_by x = Some h" "session_at w' h = Ret se" "u2 se = audit_chain (authHashAlg se) [x]"
  shows "exclusive_log h (es @ [x]) w'"
  unfolding exclusive_log_def using assms by (intro exI [of _ es] exI [of _ x] exI [of _ "[]"] exI [of _ se]) simp

text \<open>C12: In any run of commands with at most one audit session each, from a state in which no session is exclusive, the session that
  is the exclusive audit session at the end holds a complete log. It audited some command of the run; every command after that one was
  audited by it too, or is one of those that may have no session; and the digest of the session is the hash chain, in its own
  algorithm and from the digest of zeros, over exactly these commands and their responses.\<close>

theorem exclusive_audit_is_complete:
  assumes "audit_run es w = Ret w'" "list_all one_audit es" "g_exclusiveAuditSession w = TPM_RH_UNASSIGNED"
    "length (s_sessions (w_sess w)) = MAX_LOADED_SESSIONS"
    "g_exclusiveAuditSession w' = h" "h \<noteq> TPM_RH_UNASSIGNED"
  shows "\<exists>pre e post se. es = pre @ e # post \<and> audited_by e = Some h
     \<and> list_all (\<lambda>x. audited_by x = Some h \<or> audited_by x = None \<and> \<not> ae_sessionAllowed (ev_env x) (ev_cc x)) post
     \<and> session_at w' h = Ret se \<and> u2 se = audit_chain (authHashAlg se) (e # filter (\<lambda>x. audited_by x = Some h) post)"
proof -
  have "(g_exclusiveAuditSession w' = h \<and> h \<noteq> TPM_RH_UNASSIGNED \<longrightarrow> exclusive_log h es w') \<and> length (s_sessions (w_sess w')) = MAX_LOADED_SESSIONS"
    using assms(1,2)
  proof (induction es arbitrary: w' h rule: rev_induct)
    case Nil
    then show ?case
      using assms(3,4) by auto
  next
    case (snoc x es)
    obtain w1 where w1: "audit_run es w = Ret w1" "audit_run [x] w1 = Ret w'"
      using snoc.prems(1) unfolding audit_run_snoc by (auto simp: obind_Ret_iff simp del: audit_run.simps)
    have one: "one_audit x" "list_all one_audit es"
      using snoc.prems(2) by auto
    note IH = snoc.IH [OF w1(1) one(2)]
    show ?case
    proof (cases "audited_by x")
      case None
      note st = audit_step_none [OF w1(2) None]
      show ?thesis
        using st IH [of h] exclusive_log_skip [OF _ None _ st(2)] by (auto split: if_splits)
    next
      case (Some g)
      show ?thesis
        using IH [of h] by (cases rule: audit_step_some [OF w1(2) Some one(1)])
          (use IH [of h] Some in \<open>auto intro: exclusive_log_start exclusive_log_extend split: if_splits\<close>)
    qed
  qed
  then show ?thesis
    using assms(5,6) unfolding exclusive_log_def by blast
qed

definition demo_audit_session :: AUTH_SESSION where
  "demo_audit_session = demo_hmac_session\<lparr>sessionAttributes := TPMA_SESSION_audit OR TPMA_SESSION_continueSession\<rparr>"

definition demo_audit_event :: "bytes \<Rightarrow> AUTH_SESSION list \<Rightarrow> audit_event" where
  "demo_audit_event params ss = \<lparr>ev_env = demo_renv\<lparr>ae_sessionAllowed := (\<lambda>cc. ss \<noteq> [])\<rparr>, ev_cc = 0x14E, ev_params = params, ev_sessions = ss,
     ev_cpHash = [(TPM_ALG_SHA256, [1, 2, 3, 4]), (TPM_ALG_SHA1, [1, 2])]\<rparr>"

definition demo_audit_events :: "audit_event list" where
  "demo_audit_events = [demo_audit_event [1] [demo_audit_session], demo_audit_event [2] [], demo_audit_event [3] [demo_audit_session]]"

theorem exclusive_audit_is_complete_witness:
  "\<exists>w' pre e post se. audit_run demo_audit_events demo_world = Ret w' \<and> g_exclusiveAuditSession w' = 0x02000000
     \<and> demo_audit_events = pre @ e # post \<and> audited_by e = Some 0x02000000
     \<and> session_at w' 0x02000000 = Ret se \<and> u2 se = audit_chain (authHashAlg se) (e # filter (\<lambda>x. audited_by x = Some 0x02000000) post)"
proof -
  have "case audit_run demo_audit_events demo_world of Ret w' \<Rightarrow> g_exclusiveAuditSession w' = 0x02000000 | FailureMode \<Rightarrow> False"
    by code_simp
  then obtain w' where w': "audit_run demo_audit_events demo_world = Ret w'" "g_exclusiveAuditSession w' = 0x02000000"
    by (cases "audit_run demo_audit_events demo_world") auto
  have "list_all one_audit demo_audit_events" "g_exclusiveAuditSession demo_world = TPM_RH_UNASSIGNED"
    "length (s_sessions (w_sess demo_world)) = MAX_LOADED_SESSIONS" "(0x02000000 :: TPM_HANDLE) \<noteq> TPM_RH_UNASSIGNED"
    by code_simp+
  from exclusive_audit_is_complete [OF w'(1) this(1-3) w'(2) this(4)] w' show ?thesis
    by blast
qed

end
