(* ===== verification/Hierarchy_Commands.thy ===== *)
theory Hierarchy_Commands
  imports Auth_Requests
begin

text \<open>
  The hierarchy commands, \<^verbatim>\<open>HierarchyCommands.c\<close> without \<^verbatim>\<open>TPM2_CreatePrimary\<close>: they change the enables, seeds, proofs,
  authorization values and policies of the hierarchies and, when a hierarchy ends, the object slots, NV memory, the
  dictionary-attack parameters, the clock and the authorization values of registers. The build has no ACT.
\<close>

definition TPM_RC_DISABLED :: TPM_RC where [tpm_consts]: "TPM_RC_DISABLED = 0x120"
definition CONTEXT_INTEGRITY_HASH_SIZE :: nat where [tpm_consts]: "CONTEXT_INTEGRITY_HASH_SIZE = 64"
definition RC_SetPrimaryPolicy_authPolicy :: TPM_RC where [tpm_consts]: "RC_SetPrimaryPolicy_authPolicy = TPM_RC_P + TPM_RC_1"
definition RC_HierarchyChangeAuth_newAuth :: TPM_RC where [tpm_consts]: "RC_HierarchyChangeAuth_newAuth = TPM_RC_P + TPM_RC_2"

section \<open>Handles\<close>

text \<open>The handle types of the commands: a handle that the type does not list is refused.\<close>

definition rh_Unmarshal :: "TPM_HANDLE set \<Rightarrow> bytes \<Rightarrow> TPM_RC + (TPM_HANDLE \<times> bytes)" where
  "rh_Unmarshal hs b = (case UINT32_Unmarshal b of
      Inl rc \<Rightarrow> Inl rc
    | Inr (h, b1) \<Rightarrow> if h \<in> hs then Inr (h, b1) else Inl TPM_RC_VALUE)"

definition TPMI_RH_HIERARCHY_Unmarshal :: "bool \<Rightarrow> bytes \<Rightarrow> TPM_RC + (TPM_HANDLE \<times> bytes)" where
  "TPMI_RH_HIERARCHY_Unmarshal allowNull =
     rh_Unmarshal ({TPM_RH_OWNER, TPM_RH_PLATFORM, TPM_RH_ENDORSEMENT} \<union> (if allowNull then {TPM_RH_NULL} else {}))"

definition TPMI_RH_ENABLES_Unmarshal :: "bool \<Rightarrow> bytes \<Rightarrow> TPM_RC + (TPM_HANDLE \<times> bytes)" where
  "TPMI_RH_ENABLES_Unmarshal allowNull =
     rh_Unmarshal ({TPM_RH_OWNER, TPM_RH_PLATFORM, TPM_RH_ENDORSEMENT, TPM_RH_PLATFORM_NV} \<union> (if allowNull then {TPM_RH_NULL} else {}))"

definition TPMI_RH_HIERARCHY_AUTH_Unmarshal :: "bytes \<Rightarrow> TPM_RC + (TPM_HANDLE \<times> bytes)" where
  "TPMI_RH_HIERARCHY_AUTH_Unmarshal = rh_Unmarshal {TPM_RH_OWNER, TPM_RH_PLATFORM, TPM_RH_ENDORSEMENT, TPM_RH_LOCKOUT}"

definition TPM_RH_ACT_0 :: TPM_HANDLE where [tpm_consts]: "TPM_RH_ACT_0 = 0x40000110"
definition TPM_RH_ACT_F :: TPM_HANDLE where [tpm_consts]: "TPM_RH_ACT_F = 0x4000011F"

definition TPMI_RH_HIERARCHY_POLICY_Unmarshal :: "bytes \<Rightarrow> TPM_RC + (TPM_HANDLE \<times> bytes)" where
  "TPMI_RH_HIERARCHY_POLICY_Unmarshal b = (case UINT32_Unmarshal b of
      Inl rc \<Rightarrow> Inl rc
    | Inr (h, b1) \<Rightarrow>
        if h \<in> {TPM_RH_OWNER, TPM_RH_PLATFORM, TPM_RH_ENDORSEMENT, TPM_RH_LOCKOUT} \<or> \<not> (h < TPM_RH_ACT_0 \<or> h > TPM_RH_ACT_F)
        then Inr (h, b1) else Inl TPM_RC_VALUE)"

definition TPMI_RH_PLATFORM_Unmarshal :: "bytes \<Rightarrow> TPM_RC + (TPM_HANDLE \<times> bytes)" where
  "TPMI_RH_PLATFORM_Unmarshal = rh_Unmarshal {TPM_RH_PLATFORM}"

definition TPMI_RH_CLEAR_Unmarshal :: "bytes \<Rightarrow> TPM_RC + (TPM_HANDLE \<times> bytes)" where
  "TPMI_RH_CLEAR_Unmarshal = rh_Unmarshal {TPM_RH_LOCKOUT, TPM_RH_PLATFORM}"

section \<open>Enables\<close>

definition enable_check :: "TPM_HANDLE \<Rightarrow> TPM_HANDLE \<Rightarrow> bool \<Rightarrow> hier_state \<Rightarrow> TPM_RC outcome" where
  "enable_check authHandle enable state hs =
     (if enable = TPM_RH_PLATFORM \<or> enable = TPM_RH_PLATFORM_NV
      then Ret (if authHandle \<noteq> TPM_RH_PLATFORM then TPM_RC_AUTH_TYPE else TPM_RC_SUCCESS)
      else if enable = TPM_RH_OWNER
      then Ret (if authHandle \<noteq> TPM_RH_PLATFORM \<and> authHandle \<noteq> TPM_RH_OWNER then TPM_RC_AUTH_TYPE
                else if \<not> shEnable hs \<and> state \<and> authHandle \<noteq> TPM_RH_PLATFORM then TPM_RC_AUTH_TYPE else TPM_RC_SUCCESS)
      else if enable = TPM_RH_ENDORSEMENT
      then Ret (if authHandle \<noteq> TPM_RH_PLATFORM \<and> authHandle \<noteq> TPM_RH_ENDORSEMENT then TPM_RC_AUTH_TYPE
                else if \<not> ehEnable hs \<and> state \<and> authHandle \<noteq> TPM_RH_PLATFORM then TPM_RC_AUTH_TYPE else TPM_RC_SUCCESS)
      else FailureMode)"

definition selected :: "TPM_HANDLE \<Rightarrow> hier_state \<Rightarrow> bool" where
  "selected enable hs = (if enable = TPM_RH_OWNER then shEnable hs else if enable = TPM_RH_ENDORSEMENT then ehEnable hs
     else if enable = TPM_RH_PLATFORM then g_phEnable hs else phEnableNV hs)"

definition set_selected :: "TPM_HANDLE \<Rightarrow> bool \<Rightarrow> hier_state \<Rightarrow> hier_state" where
  "set_selected enable b hs = (if enable = TPM_RH_OWNER then hs\<lparr>shEnable := b\<rparr> else if enable = TPM_RH_ENDORSEMENT then hs\<lparr>ehEnable := b\<rparr>
     else if enable = TPM_RH_PLATFORM then hs\<lparr>g_phEnable := b\<rparr> else hs\<lparr>phEnableNV := b\<rparr>)"

definition TPM2_HierarchyControl :: "TPM_HANDLE \<Rightarrow> TPM_HANDLE \<Rightarrow> bool \<Rightarrow> world \<Rightarrow> (TPM_RC \<times> world) outcome" where
  "TPM2_HierarchyControl authHandle enable state w = obind (enable_check authHandle enable state (w_hs w)) (\<lambda>rc.
     if rc \<noteq> TPM_RC_SUCCESS then Ret (rc, w)
     else if selected enable (w_hs w) = state then Ret (TPM_RC_SUCCESS, w)
     else case NvClearOrderly (w_da w) of (rc1, da) \<Rightarrow>
       if rc1 \<noteq> TPM_RC_SUCCESS then Ret (g_NvStatus da, w\<lparr>w_da := da\<rparr>)
       else
         let w1 = w\<lparr>w_hs := set_selected enable state (w_hs w), w_da := da\<rparr> in
         obind (if \<not> state \<and> enable \<noteq> TPM_RH_PLATFORM_NV then ObjectFlushHierarchy enable (w_objs w1) else Ret (w_objs w1)) (\<lambda>objs.
           Ret (TPM_RC_SUCCESS, w1\<lparr>w_objs := objs, w_da := (w_da w1)\<lparr>g_clearOrderly := True\<rparr>\<rparr>)))"

section \<open>Policies and authorization values\<close>

text \<open>\<^verbatim>\<open>NV_SYNC_PERSISTENT\<close> for the persistent data of the hierarchies.\<close>

definition sync_hier :: "(hier_gp \<Rightarrow> hier_gp \<Rightarrow> hier_gp) \<Rightarrow> world \<Rightarrow> world" where
  "sync_hier cp w = w\<lparr>w_hs := (w_hs w)\<lparr>nv_hgp := cp (hgp (w_hs w)) (nv_hgp (w_hs w))\<rparr>, w_da := (w_da w)\<lparr>g_updateNV := True\<rparr>\<rparr>"

definition clear_orderly :: "world \<Rightarrow> world" where
  "clear_orderly w = w\<lparr>w_da := (w_da w)\<lparr>g_clearOrderly := True\<rparr>\<rparr>"

definition upd_hgp :: "(hier_gp \<Rightarrow> hier_gp) \<Rightarrow> world \<Rightarrow> world" where
  "upd_hgp f w = w\<lparr>w_hs := (w_hs w)\<lparr>hgp := f (hgp (w_hs w))\<rparr>\<rparr>"

definition TPM2_SetPrimaryPolicy :: "TPM_HANDLE \<Rightarrow> bytes \<Rightarrow> TPM_ALG_ID \<Rightarrow> world \<Rightarrow> (TPM_RC \<times> world) outcome" where
  "TPM2_SetPrimaryPolicy authHandle policy hashAlg w =
     (if length policy \<noteq> CryptHashGetDigestSize hashAlg then Ret (TPM_RC_SIZE + RC_SetPrimaryPolicy_authPolicy, w)
      else if g_NvStatus (w_da w) \<noteq> TPM_RC_SUCCESS then Ret (g_NvStatus (w_da w), w)
      else if authHandle = TPM_RH_OWNER then
        Ret (TPM_RC_SUCCESS, sync_hier (\<lambda>p q. q\<lparr>ownerAlg := ownerAlg p, ownerPolicy := ownerPolicy p\<rparr>)
          (upd_hgp (\<lambda>p. p\<lparr>ownerAlg := hashAlg, ownerPolicy := policy\<rparr>) w))
      else if authHandle = TPM_RH_ENDORSEMENT then
        Ret (TPM_RC_SUCCESS, sync_hier (\<lambda>p q. q\<lparr>endorsementAlg := endorsementAlg p, endorsementPolicy := endorsementPolicy p\<rparr>)
          (upd_hgp (\<lambda>p. p\<lparr>endorsementAlg := hashAlg, endorsementPolicy := policy\<rparr>) w))
      else if authHandle = TPM_RH_PLATFORM then
        Ret (TPM_RC_SUCCESS, clear_orderly (w\<lparr>w_hs := (w_hs w)\<lparr>platformAlg := hashAlg, platformPolicy := policy\<rparr>\<rparr>))
      else if authHandle = TPM_RH_LOCKOUT then
        Ret (TPM_RC_SUCCESS, sync_hier (\<lambda>p q. q\<lparr>lockoutAlg := lockoutAlg p, lockoutPolicy := lockoutPolicy p\<rparr>)
          (upd_hgp (\<lambda>p. p\<lparr>lockoutAlg := hashAlg, lockoutPolicy := policy\<rparr>) w))
      else FailureMode)"

definition TPM2_HierarchyChangeAuth :: "TPM_HANDLE \<Rightarrow> bytes \<Rightarrow> world \<Rightarrow> (TPM_RC \<times> world) outcome" where
  "TPM2_HierarchyChangeAuth authHandle newAuth w =
     (let auth = MemoryRemoveTrailingZeros newAuth in
      if g_NvStatus (w_da w) \<noteq> TPM_RC_SUCCESS then Ret (g_NvStatus (w_da w), w)
      else if length auth > CONTEXT_INTEGRITY_HASH_SIZE then Ret (TPM_RC_SIZE + RC_HierarchyChangeAuth_newAuth, w)
      else if authHandle = TPM_RH_OWNER then
        Ret (TPM_RC_SUCCESS, sync_hier (\<lambda>p q. q\<lparr>ownerAuth := ownerAuth p\<rparr>) (upd_hgp (\<lambda>p. p\<lparr>ownerAuth := auth\<rparr>) w))
      else if authHandle = TPM_RH_ENDORSEMENT then
        Ret (TPM_RC_SUCCESS, sync_hier (\<lambda>p q. q\<lparr>endorsementAuth := endorsementAuth p\<rparr>) (upd_hgp (\<lambda>p. p\<lparr>endorsementAuth := auth\<rparr>) w))
      else if authHandle = TPM_RH_PLATFORM then
        Ret (TPM_RC_SUCCESS, clear_orderly (w\<lparr>w_hs := (w_hs w)\<lparr>platformAuth := auth\<rparr>\<rparr>))
      else if authHandle = TPM_RH_LOCKOUT then
        Ret (TPM_RC_SUCCESS, sync_hier (\<lambda>p q. q\<lparr>lockoutAuth := lockoutAuth p\<rparr>) (upd_hgp (\<lambda>p. p\<lparr>lockoutAuth := auth\<rparr>) w))
      else FailureMode)"

section \<open>End of a hierarchy\<close>

text \<open>Loaded objects and NV memory of a hierarchy; the response code of \<^verbatim>\<open>NvFlushHierarchy\<close> is ignored.\<close>

definition flush_objects :: "TPM_HANDLE \<Rightarrow> world \<Rightarrow> world outcome" where
  "flush_objects h w = obind (ObjectFlushHierarchy h (w_objs w)) (\<lambda>objs. Ret (w\<lparr>w_objs := objs\<rparr>))"

definition flush_nv :: "TPM_HANDLE \<Rightarrow> world \<Rightarrow> world outcome" where
  "flush_nv h w = obind (NvFlushHierarchy h (w_nv w)) (\<lambda>(rc, nv). Ret (w\<lparr>w_nv := nv\<rparr>))"

text \<open>\<open>rng i n\<close> is the \<open>i\<close>-th draw of a command; \<open>level\<close> is what \<^verbatim>\<open>RuntimeProfileGetSeedCompatLevel\<close> gives.\<close>

definition TPM2_ChangePPS :: "(nat \<Rightarrow> nat \<Rightarrow> bytes) \<Rightarrow> u8 \<Rightarrow> world \<Rightarrow> (TPM_RC \<times> world) outcome" where
  "TPM2_ChangePPS rng level w =
     (if g_NvStatus (w_da w) \<noteq> TPM_RC_SUCCESS then Ret (g_NvStatus (w_da w), w)
      else
        let w1 = upd_hgp (\<lambda>p. p\<lparr>PPSeed := rng 0 PRIMARY_SEED_SIZE, PPSeedCompatLevel := level, phProof := rng 1 PROOF_SIZE\<rparr>) w;
            w2 = w1\<lparr>w_hs := (w_hs w1)\<lparr>platformAlg := TPM_ALG_NULL, platformPolicy := []\<rparr>\<rparr>
        in obind (flush_objects TPM_RH_PLATFORM w2) (\<lambda>w3. obind (flush_nv TPM_RH_PLATFORM w3) (\<lambda>w4.
             let w5 = sync_hier (\<lambda>p q. q\<lparr>PPSeed := PPSeed p, PPSeedCompatLevel := PPSeedCompatLevel p, phProof := phProof p\<rparr>) w4;
                 w6 = w5\<lparr>w_pcr := (w_pcr w5)\<lparr>pcrPolicies := replicate NUM_POLICY_PCR_GROUP (TPM_ALG_NULL, [])\<rparr>\<rparr>
             in Ret (TPM_RC_SUCCESS, clear_orderly w6))))"

definition TPM2_ChangeEPS :: "(nat \<Rightarrow> nat \<Rightarrow> bytes) \<Rightarrow> u8 \<Rightarrow> world \<Rightarrow> (TPM_RC \<times> world) outcome" where
  "TPM2_ChangeEPS rng level w =
     (if g_NvStatus (w_da w) \<noteq> TPM_RC_SUCCESS then Ret (g_NvStatus (w_da w), w)
      else
        let w1 = upd_hgp (\<lambda>p. p\<lparr>EPSeed := rng 0 PRIMARY_SEED_SIZE, EPSeedCompatLevel := level, ehProof := rng 1 PROOF_SIZE,
                   endorsementAuth := [], endorsementAlg := TPM_ALG_NULL, endorsementPolicy := []\<rparr>) w;
            w2 = w1\<lparr>w_hs := (w_hs w1)\<lparr>ehEnable := True\<rparr>\<rparr>
        in obind (flush_objects TPM_RH_ENDORSEMENT w2) (\<lambda>w3. obind (flush_nv TPM_RH_ENDORSEMENT w3) (\<lambda>w4.
             Ret (TPM_RC_SUCCESS, clear_orderly (sync_hier (\<lambda>p q. q\<lparr>EPSeed := EPSeed p, EPSeedCompatLevel := EPSeedCompatLevel p,
               ehProof := ehProof p, endorsementAuth := endorsementAuth p, endorsementAlg := endorsementAlg p,
               endorsementPolicy := endorsementPolicy p\<rparr>) w4)))))"

definition clear_hierarchies :: "(nat \<Rightarrow> nat \<Rightarrow> bytes) \<Rightarrow> u8 \<Rightarrow> world \<Rightarrow> world" where
  "clear_hierarchies rng level w =
     (let w1 = upd_hgp (\<lambda>p. p\<lparr>SPSeed := rng 0 PRIMARY_SEED_SIZE, SPSeedCompatLevel := level, shProof := rng 1 PROOF_SIZE, ehProof := rng 2 PROOF_SIZE,
                ownerAuth := [], endorsementAuth := [], lockoutAuth := [], ownerAlg := TPM_ALG_NULL, endorsementAlg := TPM_ALG_NULL,
                lockoutAlg := TPM_ALG_NULL, ownerPolicy := [], endorsementPolicy := [], lockoutPolicy := []\<rparr>) w
      in w1\<lparr>w_hs := (w_hs w1)\<lparr>shEnable := True, ehEnable := True\<rparr>\<rparr>)"

text \<open>The clock and the counters, and \<^verbatim>\<open>NvWrite\<close> of all orderly and all persistent data.\<close>

definition clear_counters :: "world \<Rightarrow> world" where
  "clear_counters w =
     (let s = DAPreInstall_Init (w_da w);
          s1 = NvWrite_go (s\<lparr>go := (go s)\<lparr>clock := 0, clockSafe := True\<rparr>\<rparr>);
          s2 = s1\<lparr>gp := (gp s1)\<lparr>resetCount := 0\<rparr>, gr := (gr s1)\<lparr>restartCount := 0, clearCount := 0\<rparr>\<rparr>;
          s3 = s2\<lparr>s_NV := (s_NV s2)\<lparr>nv_gp := gp s2\<rparr>, g_updateNV := True\<rparr>
      in sync_hier (\<lambda>p q. p) (w\<lparr>w_da := s3, auditCounter := 0, w_pcr := (w_pcr w)\<lparr>p_restartCount := 0\<rparr>\<rparr>))"

definition TPM2_Clear :: "(nat \<Rightarrow> nat \<Rightarrow> bytes) \<Rightarrow> u8 \<Rightarrow> world \<Rightarrow> (TPM_RC \<times> world) outcome" where
  "TPM2_Clear rng level w =
     (if g_NvStatus (w_da w) \<noteq> TPM_RC_SUCCESS then Ret (g_NvStatus (w_da w), w)
      else if disableClear (hgp (w_hs w)) then Ret (TPM_RC_DISABLED, w)
      else
        obind (flush_objects TPM_RH_OWNER (clear_hierarchies rng level w)) (\<lambda>w1.
        obind (flush_objects TPM_RH_ENDORSEMENT w1) (\<lambda>w2.
        obind (flush_nv TPM_RH_OWNER w2) (\<lambda>w3.
        obind (flush_nv TPM_RH_ENDORSEMENT w3) (\<lambda>w4.
          let w5 = clear_counters w4
          in obind (PCRChanged 0 (PCR_ClearAuth (w_pcr w5))) (\<lambda>pcr. Ret (TPM_RC_SUCCESS, clear_orderly (w5\<lparr>w_pcr := pcr\<rparr>))))))))"

definition TPM2_ClearControl :: "TPM_HANDLE \<Rightarrow> bool \<Rightarrow> world \<Rightarrow> (TPM_RC \<times> world) outcome" where
  "TPM2_ClearControl auth disable w =
     (if g_NvStatus (w_da w) \<noteq> TPM_RC_SUCCESS then Ret (g_NvStatus (w_da w), w)
      else if auth = TPM_RH_LOCKOUT \<and> \<not> disable then Ret (TPM_RC_AUTH_FAIL, w)
      else Ret (TPM_RC_SUCCESS, sync_hier (\<lambda>p q. q\<lparr>disableClear := disableClear p\<rparr>) (upd_hgp (\<lambda>p. p\<lparr>disableClear := disable\<rparr>) w)))"

end
