(* ===== verification/Hierarchy_Lockdown.thy ===== *)
theory Hierarchy_Lockdown
  imports Hierarchy_Commands Auth_Demo NV_Flush Object_Pool
begin

text \<open>
  What the hierarchy commands promise: \<^verbatim>\<open>TPM2_Clear\<close> ends the owner and the endorsement hierarchy in every component, and a
  platform that has been disabled, and has disabled \<^verbatim>\<open>TPM2_Clear\<close>, cannot be undone by any sequence of commands.
\<close>

lemmas hier_updates = sync_hier_def clear_orderly_def upd_hgp_def set_selected_def

section \<open>Clear\<close>

definition in_hierarchy :: "TPM_HANDLE \<Rightarrow> OBJECT \<Rightarrow> bool" where
  "in_hierarchy h ob \<longleftrightarrow> (h = TPM_RH_PLATFORM \<and> ppsHierarchy (o_attributes ob)) \<or> (h = TPM_RH_OWNER \<and> spsHierarchy (o_attributes ob))
     \<or> (h = TPM_RH_ENDORSEMENT \<and> epsHierarchy (o_attributes ob))"

lemma in_hierarchy_simps [simp]:
  "in_hierarchy TPM_RH_OWNER ob = spsHierarchy (o_attributes ob)" "in_hierarchy TPM_RH_ENDORSEMENT ob = epsHierarchy (o_attributes ob)"
  by (auto simp: in_hierarchy_def tpm_consts)

lemma flush_objects_exact:
  assumes "obj_ok (w_objs w)" "h = TPM_RH_PLATFORM \<or> h = TPM_RH_OWNER \<or> h = TPM_RH_ENDORSEMENT"
  shows "\<exists>objs. flush_objects h w = Ret (w\<lparr>w_objs := objs\<rparr>) \<and> obj_ok objs
    \<and> (\<forall>k. obj_lookup objs k = (case obj_lookup (w_objs w) k of None \<Rightarrow> None | Some ob \<Rightarrow> if in_hierarchy h ob then None else Some ob))"
proof -
  obtain t where t: "ObjectFlushHierarchy h (w_objs w) = Ret t"
    "\<forall>k. obj_lookup t k = (case obj_lookup (w_objs w) k of None \<Rightarrow> None | Some ob \<Rightarrow> if in_hierarchy h ob then None else Some ob)"
    using ObjectFlushHierarchy_exact [of "w_objs w" h] assms unfolding obj_ok_def in_hierarchy_def by blast
  moreover have "obj_ok t"
    using t(1) assms(1) by (auto simp: ObjectFlushHierarchy_def obj_ok_def split: if_splits)
  ultimately show ?thesis
    unfolding flush_objects_def by auto
qed

lemma flush_nv_exact:
  assumes "nv_wf (w_nv w)" "nvStatus (w_nv w) = TPM_RC_SUCCESS"
  obtains nv where "flush_nv h w = Ret (w\<lparr>w_nv := nv\<rparr>)" "nv_wf nv" "nvStatus nv = TPM_RC_SUCCESS"
    "nv_list nv = filter (\<lambda>e. \<not> doomed h e) (nv_list (w_nv w))"
  using flush_loop [of "w_nv w" h 0] assms that by (auto simp: flush_nv_def NvFlushHierarchy_def inspected_def)

text \<open>\<^verbatim>\<open>TPM2_Clear\<close> after the checks, as one state.\<close>

definition cleared :: "(nat \<Rightarrow> nat \<Rightarrow> bytes) \<Rightarrow> u8 \<Rightarrow> obj_state \<Rightarrow> nv_state \<Rightarrow> world \<Rightarrow> world" where
  "cleared rng level objs nv w = (let w1 = clear_counters ((clear_hierarchies rng level w)\<lparr>w_objs := objs, w_nv := nv\<rparr>);
     p = PCR_ClearAuth (w_pcr w1) in clear_orderly (w1\<lparr>w_pcr := p\<lparr>p_pcrCounter := p_pcrCounter p + 1\<rparr>\<rparr>))"

lemma Clear_cases:
  assumes "nv_wf (w_nv w)" "nvStatus (w_nv w) = TPM_RC_SUCCESS" "obj_ok (w_objs w)" "g_NvStatus (w_da w) = TPM_RC_SUCCESS"
    and "\<not> disableClear (hgp (w_hs w))" "p_pcrCounter (w_pcr w) + 1 \<noteq> 0"
  obtains objs nv where "TPM2_Clear rng level w = Ret (TPM_RC_SUCCESS, cleared rng level objs nv w)"
    "\<And>k. obj_lookup objs k = (case obj_lookup (w_objs w) k of None \<Rightarrow> None
       | Some ob \<Rightarrow> if spsHierarchy (o_attributes ob) \<or> epsHierarchy (o_attributes ob) then None else Some ob)"
    "nv_wf nv" "nv_list nv = filter (\<lambda>e. \<not> doomed TPM_RH_OWNER e \<and> \<not> doomed TPM_RH_ENDORSEMENT e) (nv_list (w_nv w))"
proof -
  let ?w = "clear_hierarchies rng level w"
  have f: "w_objs ?w = w_objs w" "w_nv ?w = w_nv w"
    by (simp_all add: clear_hierarchies_def upd_hgp_def)
  obtain o1 where o1: "flush_objects TPM_RH_OWNER ?w = Ret (?w\<lparr>w_objs := o1\<rparr>)" "obj_ok o1"
    "\<And>k. obj_lookup o1 k = (case obj_lookup (w_objs w) k of None \<Rightarrow> None | Some ob \<Rightarrow> if spsHierarchy (o_attributes ob) then None else Some ob)"
    using flush_objects_exact [of ?w TPM_RH_OWNER] assms(3) f unfolding in_hierarchy_simps by auto
  obtain o2 where o2: "flush_objects TPM_RH_ENDORSEMENT (?w\<lparr>w_objs := o1\<rparr>) = Ret (?w\<lparr>w_objs := o2\<rparr>)"
    "\<And>k. obj_lookup o2 k = (case obj_lookup o1 k of None \<Rightarrow> None | Some ob \<Rightarrow> if epsHierarchy (o_attributes ob) then None else Some ob)"
    using flush_objects_exact [of "?w\<lparr>w_objs := o1\<rparr>" TPM_RH_ENDORSEMENT] o1(2) unfolding in_hierarchy_simps by auto
  obtain n1 where n1: "flush_nv TPM_RH_OWNER (?w\<lparr>w_objs := o2\<rparr>) = Ret (?w\<lparr>w_objs := o2, w_nv := n1\<rparr>)" "nv_wf n1" "nvStatus n1 = TPM_RC_SUCCESS"
    "nv_list n1 = filter (\<lambda>e. \<not> doomed TPM_RH_OWNER e) (nv_list (w_nv w))"
    using flush_nv_exact [of "?w\<lparr>w_objs := o2\<rparr>" TPM_RH_OWNER] assms(1,2) f by auto
  obtain n2 where n2: "flush_nv TPM_RH_ENDORSEMENT (?w\<lparr>w_objs := o2, w_nv := n1\<rparr>) = Ret (?w\<lparr>w_objs := o2, w_nv := n2\<rparr>)" "nv_wf n2"
    "nv_list n2 = filter (\<lambda>e. \<not> doomed TPM_RH_ENDORSEMENT e) (nv_list n1)"
    using flush_nv_exact [of "?w\<lparr>w_objs := o2, w_nv := n1\<rparr>" TPM_RH_ENDORSEMENT] n1(2,3) by auto
  have c: "p_pcrCounter (w_pcr (clear_counters (?w\<lparr>w_objs := o2, w_nv := n2\<rparr>))) = p_pcrCounter (w_pcr w)"
    by (simp add: clear_counters_def clear_hierarchies_def hier_updates Let_def)
  have "TPM2_Clear rng level w = Ret (TPM_RC_SUCCESS, cleared rng level o2 n2 w)"
    using assms(4-6) by (simp add: TPM2_Clear_def o1(1) o2(1) n1(1) n2(1) PCRChanged_def PCR_ClearAuth_def c cleared_def Let_def)
  moreover have "obj_lookup o2 k = (case obj_lookup (w_objs w) k of None \<Rightarrow> None
       | Some ob \<Rightarrow> if spsHierarchy (o_attributes ob) \<or> epsHierarchy (o_attributes ob) then None else Some ob)" for k
    by (simp add: o1(3) o2(2) split: option.split)
  ultimately show thesis
    using that n2 n1(4) by (simp add: conj_commute)
qed



section \<open>A disabled platform\<close>

text \<open>
  A hierarchy command as it is dispatched: its handle is read, the entity must be accessible, then the command runs, with any
  parameters and random draws, whatever its response code is; authorizations are not asked for. \<open>other\<close> is any other command: it
  leaves the hierarchies as they are.
\<close>

inductive hier_step :: "world \<Rightarrow> world \<Rightarrow> bool" where
  control: "TPMI_RH_HIERARCHY_Unmarshal False b = Inr (h, b1) \<Longrightarrow> TPMI_RH_ENABLES_Unmarshal False b2 = Inr (enable, b3) \<Longrightarrow>
    handle_status stored cc h w = Ret (TPM_RC_SUCCESS, h1, w1) \<Longrightarrow> TPM2_HierarchyControl h1 enable state w1 = Ret (rc, w2) \<Longrightarrow> hier_step w w2"
| policy: "TPMI_RH_HIERARCHY_POLICY_Unmarshal b = Inr (h, b1) \<Longrightarrow>
    handle_status stored cc h w = Ret (TPM_RC_SUCCESS, h1, w1) \<Longrightarrow> TPM2_SetPrimaryPolicy h1 p alg w1 = Ret (rc, w2) \<Longrightarrow> hier_step w w2"
| change_auth: "TPMI_RH_HIERARCHY_AUTH_Unmarshal b = Inr (h, b1) \<Longrightarrow>
    handle_status stored cc h w = Ret (TPM_RC_SUCCESS, h1, w1) \<Longrightarrow> TPM2_HierarchyChangeAuth h1 auth w1 = Ret (rc, w2) \<Longrightarrow> hier_step w w2"
| change_pps: "TPMI_RH_PLATFORM_Unmarshal b = Inr (h, b1) \<Longrightarrow>
    handle_status stored cc h w = Ret (TPM_RC_SUCCESS, h1, w1) \<Longrightarrow> TPM2_ChangePPS rng level w1 = Ret (rc, w2) \<Longrightarrow> hier_step w w2"
| change_eps: "TPMI_RH_PLATFORM_Unmarshal b = Inr (h, b1) \<Longrightarrow>
    handle_status stored cc h w = Ret (TPM_RC_SUCCESS, h1, w1) \<Longrightarrow> TPM2_ChangeEPS rng level w1 = Ret (rc, w2) \<Longrightarrow> hier_step w w2"
| clear: "TPMI_RH_CLEAR_Unmarshal b = Inr (h, b1) \<Longrightarrow>
    handle_status stored cc h w = Ret (TPM_RC_SUCCESS, h1, w1) \<Longrightarrow> TPM2_Clear rng level w1 = Ret (rc, w2) \<Longrightarrow> hier_step w w2"
| clear_control: "TPMI_RH_CLEAR_Unmarshal b = Inr (h, b1) \<Longrightarrow>
    handle_status stored cc h w = Ret (TPM_RC_SUCCESS, h1, w1) \<Longrightarrow> TPM2_ClearControl h1 disable w1 = Ret (rc, w2) \<Longrightarrow> hier_step w w2"
| other: "w_hs w2 = w_hs w \<Longrightarrow> hier_step w w2"

definition platform_part :: "hier_state \<Rightarrow> bool \<times> bool \<times> TPM_ALG_ID \<times> bytes \<times> bytes \<times> bytes \<times> bytes \<times> bytes" where
  "platform_part hs = (g_phEnable hs, phEnableNV hs, platformAlg hs, platformPolicy hs, platformAuth hs, PPSeed (hgp hs), phProof (hgp hs), EPSeed (hgp hs))"

definition owner_secrets :: "hier_state \<Rightarrow> bytes \<times> bytes \<times> bytes" where
  "owner_secrets hs = (SPSeed (hgp hs), shProof (hgp hs), ehProof (hgp hs))"

definition locked_down :: "hier_state \<Rightarrow> hier_state \<Rightarrow> bool" where
  "locked_down hs hs' \<longleftrightarrow> platform_part hs' = platform_part hs
     \<and> (disableClear (hgp hs) \<longrightarrow> disableClear (hgp hs') \<and> owner_secrets hs' = owner_secrets hs
          \<and> (shEnable hs' \<longrightarrow> shEnable hs) \<and> (ehEnable hs' \<longrightarrow> ehEnable hs))"

lemmas locked_defs = locked_down_def platform_part_def owner_secrets_def

text \<open>A permanent handle does not change the state, and the platform is accessible only while it is enabled.\<close>

lemma handle_status_permanent:
  assumes "handle_status stored cc h w = Ret (TPM_RC_SUCCESS, h1, w1)" "HandleGetType h = TPM_HT_PERMANENT" "\<not> g_phEnable (w_hs w)"
  shows "h1 = h" "w1 = w" "h \<noteq> TPM_RH_PLATFORM"
proof -
  have "DecomposeHandle TPM_RH_PLATFORM = (TPM_RH_PLATFORM, HM_NONE)" "TPM_RC_HIERARCHY \<noteq> TPM_RC_SUCCESS" "TPM_RH_PLATFORM \<noteq> TPM_RS_PW"
    "TPM_RH_PLATFORM \<noteq> TPM_RH_LOCKOUT" "\<not> (TPM_RH_AUTH_00 \<le> TPM_RH_PLATFORM \<and> TPM_RH_PLATFORM \<le> TPM_RH_AUTH_FF)"
    by (simp_all add: DecomposeHandle_def tpm_consts)
  then show "h1 = h" "w1 = w" "h \<noteq> TPM_RH_PLATFORM"
    using assms by (auto simp: handle_status_def ValidateHierarchy_def Let_def split: if_splits)
qed

lemma rh_Unmarshal_mem: "rh_Unmarshal hs b = Inr (h, b1) \<Longrightarrow> h \<in> hs"
  by (auto simp: rh_Unmarshal_def split: sum.splits if_splits)

lemma permanent_handles:
  "h \<in> {TPM_RH_OWNER, TPM_RH_PLATFORM, TPM_RH_ENDORSEMENT, TPM_RH_LOCKOUT} \<Longrightarrow> HandleGetType h = TPM_HT_PERMANENT"
  by (auto simp: HandleGetType_def tpm_consts)

lemma act_permanent:
  assumes "\<not> h < TPM_RH_ACT_0" "\<not> TPM_RH_ACT_F < h"
  shows "HandleGetType h = TPM_HT_PERMANENT"
proof -
  define k where "k = unat h - 0x40000110"
  have u: "unat h = 0x40000110 + k" "k < 16"
    using assms by (auto simp: k_def tpm_consts word_less_nat_alt)
  then have "h = word_of_nat (0x40000110 + k)"
    by (simp flip: u(1))
  then have h: "h = 0x40000110 + word_of_nat k"
    by simp
  have "list_all (\<lambda>k. HandleGetType (0x40000110 + word_of_nat k) = TPM_HT_PERMANENT) [0..<16]"
    by code_simp
  then show ?thesis
    using u(2) by (simp add: h list_all_iff)
qed

lemma enable_check_locked:
  assumes "enable_check h enable state hs = Ret TPM_RC_SUCCESS" "h \<noteq> TPM_RH_PLATFORM"
  shows "locked_down hs (set_selected enable state hs)"
proof -
  have "TPM_RC_AUTH_TYPE \<noteq> TPM_RC_SUCCESS"
    by (simp add: tpm_consts)
  then show ?thesis
    using assms by (auto simp: enable_check_def set_selected_def locked_defs split: if_splits)
qed

lemma HierarchyControl_locked:
  assumes "TPM2_HierarchyControl h enable state w = Ret (rc, w2)" "h \<noteq> TPM_RH_PLATFORM"
  shows "locked_down (w_hs w) (w_hs w2)"
proof -
  obtain rc1 where rc1: "enable_check h enable state (w_hs w) = Ret rc1"
    using assms(1) by (auto simp: TPM2_HierarchyControl_def obind_Ret_iff)
  have "w_hs w2 = w_hs w \<or> rc1 = TPM_RC_SUCCESS \<and> w_hs w2 = set_selected enable state (w_hs w)"
    using assms(1) unfolding TPM2_HierarchyControl_def rc1
    by (auto simp: obind_Ret_iff Let_def split: if_split_asm prod.split_asm)
  then show ?thesis
    using enable_check_locked assms(2) rc1 by (auto simp: locked_defs)
qed

lemma SetPrimaryPolicy_locked:
  "TPM2_SetPrimaryPolicy h p alg w = Ret (rc, w2) \<Longrightarrow> h \<noteq> TPM_RH_PLATFORM \<Longrightarrow> locked_down (w_hs w) (w_hs w2)"
  by (auto simp: TPM2_SetPrimaryPolicy_def hier_updates locked_defs split: if_splits)

lemma HierarchyChangeAuth_locked:
  "TPM2_HierarchyChangeAuth h auth w = Ret (rc, w2) \<Longrightarrow> h \<noteq> TPM_RH_PLATFORM \<Longrightarrow> locked_down (w_hs w) (w_hs w2)"
  by (auto simp: TPM2_HierarchyChangeAuth_def hier_updates locked_defs Let_def split: if_splits)

lemma ClearControl_locked:
  "TPM2_ClearControl h disable w = Ret (rc, w2) \<Longrightarrow> h = TPM_RH_LOCKOUT \<Longrightarrow> locked_down (w_hs w) (w_hs w2)"
  by (auto simp: TPM2_ClearControl_def hier_updates locked_defs split: if_splits)

lemma flush_hs [simp]:
  "flush_objects h w = Ret w' \<Longrightarrow> w_hs w' = w_hs w" "flush_nv h w = Ret w' \<Longrightarrow> w_hs w' = w_hs w"
  by (auto simp: flush_objects_def flush_nv_def obind_Ret_iff)

lemma Clear_locked:
  assumes "TPM2_Clear rng level w = Ret (rc, w2)"
  shows "locked_down (w_hs w) (w_hs w2)"
proof (cases "g_NvStatus (w_da w) \<noteq> TPM_RC_SUCCESS \<or> disableClear (hgp (w_hs w))")
  case True
  then show ?thesis
    using assms by (auto simp: TPM2_Clear_def locked_defs split: if_splits)
next
  case False
  then obtain w1 w3 w4 w5 pcr where c: "flush_objects TPM_RH_OWNER (clear_hierarchies rng level w) = Ret w1"
    "flush_objects TPM_RH_ENDORSEMENT w1 = Ret w3" "flush_nv TPM_RH_OWNER w3 = Ret w4" "flush_nv TPM_RH_ENDORSEMENT w4 = Ret w5"
    "w2 = clear_orderly ((clear_counters w5)\<lparr>w_pcr := pcr\<rparr>)"
    using assms by (auto simp: TPM2_Clear_def obind_Ret_iff Let_def)
  have "w_hs w5 = w_hs (clear_hierarchies rng level w)"
    using flush_hs(1) [OF c(1)] flush_hs(1) [OF c(2)] flush_hs(2) [OF c(3)] flush_hs(2) [OF c(4)] by simp
  then show ?thesis
    using False by (simp add: c(5) clear_counters_def clear_hierarchies_def hier_updates locked_defs Let_def)
qed

lemma hier_step_locked:
  assumes "hier_step w w'" "\<not> g_phEnable (w_hs w)"
  shows "locked_down (w_hs w) (w_hs w')"
  using assms
proof (induction rule: hier_step.induct)
  case (control b h b1 b2 enable b3 stored cc w h1 w1 state rc w2)
  have "HandleGetType h = TPM_HT_PERMANENT"
    using rh_Unmarshal_mem control.hyps(1) by (fastforce simp: TPMI_RH_HIERARCHY_Unmarshal_def intro: permanent_handles)
  from handle_status_permanent [OF control.hyps(3) this control.prems] show ?case
    using HierarchyControl_locked control.hyps(4) by blast
next
  case (policy b h b1 stored cc w h1 w1 p alg rc w2)
  have "HandleGetType h = TPM_HT_PERMANENT"
    using policy.hyps(1) permanent_handles act_permanent by (auto simp: TPMI_RH_HIERARCHY_POLICY_Unmarshal_def split: sum.splits if_splits)
  from handle_status_permanent [OF policy.hyps(2) this policy.prems] show ?case
    using SetPrimaryPolicy_locked policy.hyps(3) by blast
next
  case (change_auth b h b1 stored cc w h1 w1 auth rc w2)
  have "HandleGetType h = TPM_HT_PERMANENT"
    using rh_Unmarshal_mem change_auth.hyps(1) by (fastforce simp: TPMI_RH_HIERARCHY_AUTH_Unmarshal_def intro: permanent_handles)
  from handle_status_permanent [OF change_auth.hyps(2) this change_auth.prems] show ?case
    using HierarchyChangeAuth_locked change_auth.hyps(3) by blast
next
  case (change_pps b h b1 stored cc w h1 w1 rng level rc w2)
  then have "h = TPM_RH_PLATFORM"
    using rh_Unmarshal_mem by (fastforce simp: TPMI_RH_PLATFORM_Unmarshal_def)
  then show ?case
    using handle_status_permanent [OF change_pps.hyps(2) _ change_pps.prems] permanent_handles by blast
next
  case (change_eps b h b1 stored cc w h1 w1 rng level rc w2)
  then have "h = TPM_RH_PLATFORM"
    using rh_Unmarshal_mem by (fastforce simp: TPMI_RH_PLATFORM_Unmarshal_def)
  then show ?case
    using handle_status_permanent [OF change_eps.hyps(2) _ change_eps.prems] permanent_handles by blast
next
  case (clear b h b1 stored cc w h1 w1 rng level rc w2)
  then have "HandleGetType h = TPM_HT_PERMANENT"
    using rh_Unmarshal_mem by (fastforce simp: TPMI_RH_CLEAR_Unmarshal_def intro: permanent_handles)
  from handle_status_permanent [OF clear.hyps(2) this clear.prems] show ?case
    using Clear_locked clear.hyps(3) by blast
next
  case (clear_control b h b1 stored cc w h1 w1 disable rc w2)
  then have h: "h \<in> {TPM_RH_LOCKOUT, TPM_RH_PLATFORM}"
    using rh_Unmarshal_mem by (fastforce simp: TPMI_RH_CLEAR_Unmarshal_def)
  then have "HandleGetType h = TPM_HT_PERMANENT"
    by (auto intro: permanent_handles)
  from handle_status_permanent [OF clear_control.hyps(2) this clear_control.prems] show ?case
    using ClearControl_locked clear_control.hyps(3) h by blast
qed (simp add: locked_defs)

lemma locked_down_trans: "locked_down a b \<Longrightarrow> locked_down b c \<Longrightarrow> locked_down a c"
  by (auto simp: locked_down_def)

interpretation lockdown: safe_system "\<lambda>w. w = w0" hier_step "\<lambda>w. \<not> g_phEnable (w_hs w0) \<longrightarrow> locked_down (w_hs w0) (w_hs w)" for w0
proof
  show "\<not> g_phEnable (w_hs w0) \<longrightarrow> locked_down (w_hs w0) (w_hs s)" if "s = w0" for s
    using that by (simp add: locked_defs)
next
  show "\<not> g_phEnable (w_hs w0) \<longrightarrow> locked_down (w_hs w0) (w_hs t)"
    if "\<not> g_phEnable (w_hs w0) \<longrightarrow> locked_down (w_hs w0) (w_hs s)" "hier_step s t" for s t
    using that hier_step_locked [OF that(2)] locked_down_trans by (auto simp: locked_down_def platform_part_def)
qed

text \<open>C8: A disabled platform hierarchy stays disabled until the next startup. From a state in which it is disabled, no sequence of
  hierarchy commands, with any handles, parameters and authorizations and with any other commands in between, enables it or changes the platform's
  authorization value, policy, seed, proof or the endorsement seed. If \<^verbatim>\<open>TPM2_Clear\<close> was disabled too, then it stays disabled, the owner seed and the proofs
  stay what they are, and an owner or endorsement hierarchy that is disabled stays so.\<close>

theorem platform_disable_is_final:
  assumes "hier_step\<^sup>*\<^sup>* w w'" "\<not> g_phEnable (w_hs w)"
  shows "\<not> g_phEnable (w_hs w') \<and> platform_part (w_hs w') = platform_part (w_hs w)
    \<and> (disableClear (hgp (w_hs w)) \<longrightarrow> disableClear (hgp (w_hs w')) \<and> owner_secrets (w_hs w') = owner_secrets (w_hs w)
         \<and> (shEnable (w_hs w') \<longrightarrow> shEnable (w_hs w)) \<and> (ehEnable (w_hs w') \<longrightarrow> ehEnable (w_hs w)))"
  using lockdown.reachable_inv [OF refl assms(1)] assms(2) by (auto simp: locked_down_def platform_part_def)

definition demo_off :: world where
  "demo_off = demo_world\<lparr>w_hs := demo_hier\<lparr>g_phEnable := False, hgp := (hgp demo_hier)\<lparr>disableClear := True\<rparr>\<rparr>\<rparr>"

theorem platform_disable_is_final_witness:
  "\<exists>w'. hier_step\<^sup>*\<^sup>* demo_off w' \<and> shEnable (w_hs demo_off) \<and> \<not> shEnable (w_hs w') \<and> \<not> g_phEnable (w_hs w') \<and> disableClear (hgp (w_hs w'))"
proof -
  have u: "TPMI_RH_HIERARCHY_Unmarshal False [0x40, 0, 0, 1] = Inr (TPM_RH_OWNER, [])" "TPMI_RH_ENABLES_Unmarshal False [0x40, 0, 0, 1] = Inr (TPM_RH_OWNER, [])"
    by code_simp+
  have h: "handle_status (\<lambda>_. None) 0 TPM_RH_OWNER demo_off = Ret (TPM_RC_SUCCESS, TPM_RH_OWNER, demo_off)"
    by (simp add: handle_status_def demo_off_def demo_hier_def ValidateHierarchy_def DecomposeHandle_def HandleGetType_def Let_def tpm_consts)
  have "case TPM2_HierarchyControl TPM_RH_OWNER TPM_RH_OWNER False demo_off of Ret (rc, w) \<Rightarrow> rc = TPM_RC_SUCCESS \<and> \<not> shEnable (w_hs w) | FailureMode \<Rightarrow> False"
    by code_simp
  then obtain rc w' where w': "TPM2_HierarchyControl TPM_RH_OWNER TPM_RH_OWNER False demo_off = Ret (rc, w')" "\<not> shEnable (w_hs w')"
    by (auto split: outcome.splits)
  have r: "hier_step\<^sup>*\<^sup>* demo_off w'"
    using hier_step.control [OF u h w'(1)] by (rule r_into_rtranclp)
  have d: "\<not> g_phEnable (w_hs demo_off)" "disableClear (hgp (w_hs demo_off))" "shEnable (w_hs demo_off)"
    by (simp_all add: demo_off_def demo_hier_def Let_def)
  show ?thesis
    using platform_disable_is_final [OF r d(1)] r w'(2) d(2,3) by blast
qed

end
