(* ===== verification/Command_Codes.thy ===== *)
theory Command_Codes
  imports Auth_Requests
begin

text \<open>
  Command codes and their attributes: the tables of \<^verbatim>\<open>CommandAttributeData.h\<close>, the functions of \<^verbatim>\<open>CommandCodeAttributes.c\<close>, the
  enabled commands of \<^verbatim>\<open>RuntimeCommands.c\<close> and, of the descriptors of \<^verbatim>\<open>CommandDispatchData.h\<close>, the number of handles. The lists are not
  compressed: an entry stands for every code from the first to the last, a command that is not built has no attributes. There
  are no vendor commands. A command index is the 16-bit unsigned integer of the code, with wrap-around.
\<close>

section \<open>Tables\<close>

type_synonym COMMAND_INDEX = u16
type_synonym COMMAND_ATTRIBUTES = u16

definition COMMAND_COUNT :: nat where [tpm_consts]: "COMMAND_COUNT = 140"
definition UNIMPLEMENTED_COMMAND_INDEX :: COMMAND_INDEX where [tpm_consts]: "UNIMPLEMENTED_COMMAND_INDEX = 0xFFFF"
definition CC_VEND :: TPM_CC where [tpm_consts]: "CC_VEND = 0x20000000"
definition TPM_CC_FIRST :: TPM_CC where [tpm_consts]: "TPM_CC_FIRST = 0x11F"
definition TPM_CC_SetCommandCodeAuditStatus :: TPM_CC where [tpm_consts]: "TPM_CC_SetCommandCodeAuditStatus = 0x140"
definition TPM_CC_Shutdown :: TPM_CC where [tpm_consts]: "TPM_CC_Shutdown = 0x145"

definition ENCRYPT_2 :: COMMAND_ATTRIBUTES where [tpm_consts]: "ENCRYPT_2 = 0x0001"
definition ENCRYPT_4 :: COMMAND_ATTRIBUTES where [tpm_consts]: "ENCRYPT_4 = 0x0002"
definition DECRYPT_2 :: COMMAND_ATTRIBUTES where [tpm_consts]: "DECRYPT_2 = 0x0004"
definition DECRYPT_4 :: COMMAND_ATTRIBUTES where [tpm_consts]: "DECRYPT_4 = 0x0008"
definition HANDLE_1_USER :: COMMAND_ATTRIBUTES where [tpm_consts]: "HANDLE_1_USER = 0x0010"
definition HANDLE_1_ADMIN :: COMMAND_ATTRIBUTES where [tpm_consts]: "HANDLE_1_ADMIN = 0x0020"
definition HANDLE_1_DUP :: COMMAND_ATTRIBUTES where [tpm_consts]: "HANDLE_1_DUP = 0x0040"
definition HANDLE_2_USER :: COMMAND_ATTRIBUTES where [tpm_consts]: "HANDLE_2_USER = 0x0080"
definition PP_COMMAND :: COMMAND_ATTRIBUTES where [tpm_consts]: "PP_COMMAND = 0x0100"
definition IS_IMPLEMENTED :: COMMAND_ATTRIBUTES where [tpm_consts]: "IS_IMPLEMENTED = 0x0200"
definition NO_SESSIONS :: COMMAND_ATTRIBUTES where [tpm_consts]: "NO_SESSIONS = 0x0400"
definition NV_COMMAND :: COMMAND_ATTRIBUTES where [tpm_consts]: "NV_COMMAND = 0x0800"
definition PP_REQUIRED :: COMMAND_ATTRIBUTES where [tpm_consts]: "PP_REQUIRED = 0x1000"
definition R_HANDLE :: COMMAND_ATTRIBUTES where [tpm_consts]: "R_HANDLE = 0x2000"
definition ALLOW_TRIAL :: COMMAND_ATTRIBUTES where [tpm_consts]: "ALLOW_TRIAL = 0x4000"

record TPMA_CC =
  cc_commandIndex :: u16
  cc_nv :: bool
  cc_extensive :: bool
  cc_flushed :: bool
  cc_cHandles :: nat
  cc_rHandle :: bool
  cc_V :: bool

definition cca :: "u16 \<Rightarrow> nat \<Rightarrow> nat \<Rightarrow> nat \<Rightarrow> nat \<Rightarrow> nat \<Rightarrow> nat \<Rightarrow> TPMA_CC" where
  "cca i nv e f c r v = \<lparr>cc_commandIndex = i, cc_nv = (nv = 1), cc_extensive = (e = 1), cc_flushed = (f = 1), cc_cHandles = c, cc_rHandle = (r = 1), cc_V = (v = 1)\<rparr>"

definition s_ccAttr :: "TPMA_CC list" where
  "s_ccAttr =
    [cca 0x11f 1 0 0 2 0 0, cca 0x120 1 0 0 2 0 0, cca 0x121 1 1 0 1 0 0, cca 0x122 1 0 0 2 0 0, cca 0x123 0 0 0 0 0 0, cca 0x124 1 1 0 1 0 0,
     cca 0x125 1 1 0 1 0 0, cca 0x126 1 1 0 1 0 0, cca 0x127 1 0 0 1 0 0, cca 0x128 1 0 0 1 0 0, cca 0x129 1 0 0 1 0 0, cca 0x12a 1 0 0 1 0 0,
     cca 0x12b 1 0 0 1 0 0, cca 0x12c 1 0 0 1 0 0, cca 0x12d 1 0 0 1 0 0, cca 0x12e 1 0 0 1 0 0, cca 0x12f 0 0 0 2 0 0, cca 0x130 0 0 0 1 0 0,
     cca 0x131 0 0 0 1 1 0, cca 0x132 1 0 0 1 0 0, cca 0x133 1 0 0 2 0 0, cca 0x134 1 0 0 2 0 0, cca 0x135 1 0 0 2 0 0, cca 0x136 1 0 0 2 0 0,
     cca 0x137 1 0 0 2 0 0, cca 0x138 1 0 0 2 0 0, cca 0x139 1 0 0 1 0 0, cca 0x13a 1 0 0 1 0 0, cca 0x13b 1 0 0 1 0 0, cca 0x13c 1 0 0 1 0 0,
     cca 0x13d 1 0 0 1 0 0, cca 0x13e 0 0 1 1 0 0, cca 0x13f 1 0 0 1 0 0, cca 0x140 1 0 0 1 0 0, cca 0x141 1 0 0 0 0 0, cca 0x142 1 0 0 0 0 0,
     cca 0x143 1 0 0 0 0 0, cca 0x144 1 0 0 0 0 0, cca 0x145 1 0 0 0 0 0, cca 0x146 1 0 0 0 0 0, cca 0x147 0 0 0 2 0 0, cca 0x148 0 0 0 2 0 0,
     cca 0x149 0 0 0 3 0 0, cca 0x14a 0 0 0 2 0 0, cca 0x14b 0 0 0 2 0 0, cca 0x14c 0 0 0 2 0 0, cca 0x14d 0 0 0 3 0 0, cca 0x14e 0 0 0 2 0 0,
     cca 0x14f 1 0 0 2 0 0, cca 0x150 0 0 0 2 0 0, cca 0x151 0 0 0 2 0 0, cca 0x152 0 0 0 2 0 0, cca 0x153 0 0 0 1 0 0, cca 0x154 0 0 0 1 0 0,
     cca 0x155 0 0 0 1 0 0, cca 0x156 0 0 0 1 0 0, cca 0x157 0 0 0 1 1 0, cca 0x158 0 0 0 1 0 0, cca 0x159 0 0 0 1 0 0, cca 0x15a 0 0 0 0 0 0,
     cca 0x15b 0 0 0 1 1 0, cca 0x15c 0 0 0 1 0 0, cca 0x15d 0 0 0 1 0 0, cca 0x15e 0 0 0 1 0 0, cca 0x15f 0 0 0 0 0 0, cca 0x160 0 0 0 2 0 0,
     cca 0x161 0 0 0 0 1 0, cca 0x162 0 0 0 1 0 0, cca 0x163 0 0 0 1 0 0, cca 0x164 0 0 0 1 0 0, cca 0x165 0 0 0 0 0 0, cca 0x166 0 0 0 0 0 0,
     cca 0x167 0 0 0 0 1 0, cca 0x168 0 0 0 1 0 0, cca 0x169 0 0 0 1 0 0, cca 0x16a 0 0 0 1 0 0, cca 0x16b 0 0 0 1 0 0, cca 0x16c 0 0 0 1 0 0,
     cca 0x16d 0 0 0 1 0 0, cca 0x16e 0 0 0 1 0 0, cca 0x16f 0 0 0 1 0 0, cca 0x170 0 0 0 1 0 0, cca 0x171 0 0 0 1 0 0, cca 0x172 0 0 0 1 0 0,
     cca 0x173 0 0 0 1 0 0, cca 0x174 0 0 0 1 0 0, cca 0x175 0 0 0 0 0 0, cca 0x176 0 0 0 2 1 0, cca 0x177 0 0 0 1 0 0, cca 0x178 0 0 0 0 0 0,
     cca 0x179 0 0 0 0 0 0, cca 0x17a 0 0 0 0 0 0, cca 0x17b 0 0 0 0 0 0, cca 0x17c 0 0 0 0 0 0, cca 0x17d 0 0 0 0 0 0, cca 0x17e 0 0 0 0 0 0,
     cca 0x17f 0 0 0 1 0 0, cca 0x180 0 0 0 1 0 0, cca 0x181 0 0 0 0 0 0, cca 0x182 1 0 0 1 0 0, cca 0x183 0 0 0 1 0 0, cca 0x184 0 0 0 3 0 0,
     cca 0x185 1 0 1 2 0 0, cca 0x186 0 0 0 0 1 0, cca 0x187 0 0 0 1 0 0, cca 0x188 0 0 0 1 0 0, cca 0x189 0 0 0 1 0 0, cca 0x18a 0 0 0 0 0 0,
     cca 0x18b 0 0 0 1 0 0, cca 0x18c 0 0 0 1 0 0, cca 0x18d 0 0 0 1 0 0, cca 0x18e 0 0 0 0 0 0, cca 0x18f 0 0 0 1 0 0, cca 0x190 0 0 0 1 0 0,
     cca 0x191 0 0 0 1 1 0, cca 0x192 0 0 0 3 0 0, cca 0x193 0 0 0 1 0 0, cca 0x194 0 0 0 1 0 0, cca 0x195 0 0 0 3 0 0, cca 0x196 0 0 0 1 0 0,
     cca 0x197 0 0 0 2 0 0, cca 0x198 0 0 0 1 0 0, cca 0x199 0 0 0 1 0 0, cca 0x19a 0 0 0 1 0 0, cca 0x19b 0 0 0 1 0 0, cca 0x19c 0 0 0 1 0 0,
     cca 0x19d 1 0 0 1 0 0, cca 0x19e 0 0 0 1 0 0, cca 0x19f 1 0 0 1 0 0, cca 0x1a0 0 0 0 0 0 0, cca 0x1a1 0 0 0 0 0 0, cca 0x1a2 0 0 0 0 0 0,
     cca 0x1a3 0 0 0 1 0 0, cca 0x1a4 0 0 0 1 0 0, cca 0x1a5 0 0 0 1 0 0, cca 0x1a6 0 0 0 1 0 0, cca 0x1a7 0 0 0 1 0 0, cca 0x1a8 0 0 0 1 0 0,
     cca 0x1a9 0 0 0 1 0 0, cca 0x1aa 0 0 0 1 0 0, cca 0x0 0 0 0 0 0 1]"

definition s_commandAttributes :: "COMMAND_ATTRIBUTES list" where
  "s_commandAttributes =
    [IS_IMPLEMENTED + HANDLE_1_ADMIN + HANDLE_2_USER + PP_COMMAND, IS_IMPLEMENTED + HANDLE_1_USER + PP_COMMAND,
     IS_IMPLEMENTED + HANDLE_1_USER + PP_COMMAND, IS_IMPLEMENTED + HANDLE_1_USER + PP_COMMAND, 0, IS_IMPLEMENTED + HANDLE_1_USER + PP_COMMAND,
     IS_IMPLEMENTED + HANDLE_1_USER + PP_COMMAND, IS_IMPLEMENTED + HANDLE_1_USER + PP_COMMAND, IS_IMPLEMENTED + HANDLE_1_USER + PP_COMMAND,
     IS_IMPLEMENTED + HANDLE_1_USER + PP_COMMAND, IS_IMPLEMENTED + DECRYPT_2 + HANDLE_1_USER + PP_COMMAND,
     IS_IMPLEMENTED + DECRYPT_2 + HANDLE_1_USER + PP_COMMAND, IS_IMPLEMENTED + HANDLE_1_USER + PP_COMMAND,
     IS_IMPLEMENTED + DECRYPT_2 + HANDLE_1_USER + PP_COMMAND, IS_IMPLEMENTED + HANDLE_1_USER + PP_REQUIRED,
     IS_IMPLEMENTED + DECRYPT_2 + HANDLE_1_USER + PP_COMMAND, 0, IS_IMPLEMENTED + HANDLE_1_USER + PP_COMMAND,
     IS_IMPLEMENTED + DECRYPT_2 + HANDLE_1_USER + PP_COMMAND + ENCRYPT_2 + R_HANDLE, IS_IMPLEMENTED + HANDLE_1_USER + PP_COMMAND,
     IS_IMPLEMENTED + DECRYPT_2 + HANDLE_1_USER + HANDLE_2_USER + ENCRYPT_2, IS_IMPLEMENTED + HANDLE_1_USER, IS_IMPLEMENTED + HANDLE_1_USER,
     IS_IMPLEMENTED + DECRYPT_2 + HANDLE_1_USER, IS_IMPLEMENTED + DECRYPT_2 + HANDLE_1_USER, IS_IMPLEMENTED + HANDLE_1_USER,
     IS_IMPLEMENTED + HANDLE_1_USER, IS_IMPLEMENTED + HANDLE_1_USER, IS_IMPLEMENTED + DECRYPT_2 + HANDLE_1_ADMIN,
     IS_IMPLEMENTED + DECRYPT_2 + HANDLE_1_USER, IS_IMPLEMENTED + HANDLE_1_USER, IS_IMPLEMENTED + DECRYPT_2 + HANDLE_1_USER + ENCRYPT_2,
     IS_IMPLEMENTED + HANDLE_1_USER, IS_IMPLEMENTED + HANDLE_1_USER + PP_COMMAND, 0, IS_IMPLEMENTED, IS_IMPLEMENTED, IS_IMPLEMENTED + NO_SESSIONS,
     IS_IMPLEMENTED, IS_IMPLEMENTED + DECRYPT_2, IS_IMPLEMENTED + DECRYPT_2 + HANDLE_1_ADMIN + HANDLE_2_USER + ENCRYPT_2,
     IS_IMPLEMENTED + DECRYPT_2 + HANDLE_1_ADMIN + HANDLE_2_USER + ENCRYPT_2, IS_IMPLEMENTED + DECRYPT_2 + HANDLE_1_USER + ALLOW_TRIAL,
     IS_IMPLEMENTED + DECRYPT_2 + HANDLE_1_USER + ENCRYPT_2, IS_IMPLEMENTED + DECRYPT_2 + HANDLE_1_DUP + ENCRYPT_2,
     IS_IMPLEMENTED + DECRYPT_2 + HANDLE_1_USER + HANDLE_2_USER + ENCRYPT_2, IS_IMPLEMENTED + DECRYPT_2 + HANDLE_1_USER + HANDLE_2_USER + ENCRYPT_2,
     IS_IMPLEMENTED + HANDLE_1_USER + ENCRYPT_2, IS_IMPLEMENTED + HANDLE_1_USER, IS_IMPLEMENTED + DECRYPT_2 + HANDLE_1_ADMIN + ENCRYPT_2,
     IS_IMPLEMENTED + DECRYPT_2 + HANDLE_1_USER + ALLOW_TRIAL + ENCRYPT_2, IS_IMPLEMENTED + DECRYPT_2 + HANDLE_1_USER + ENCRYPT_2,
     IS_IMPLEMENTED + DECRYPT_2 + HANDLE_1_USER + ENCRYPT_2, IS_IMPLEMENTED + DECRYPT_2 + HANDLE_1_USER + ENCRYPT_2,
     IS_IMPLEMENTED + DECRYPT_2 + HANDLE_1_USER + ENCRYPT_2, IS_IMPLEMENTED + DECRYPT_2 + HANDLE_1_USER + ENCRYPT_2,
     IS_IMPLEMENTED + DECRYPT_2 + HANDLE_1_USER + ENCRYPT_2 + R_HANDLE, IS_IMPLEMENTED + DECRYPT_2 + HANDLE_1_USER + ENCRYPT_2,
     IS_IMPLEMENTED + DECRYPT_2 + HANDLE_1_USER + ENCRYPT_2, 0, IS_IMPLEMENTED + DECRYPT_2 + HANDLE_1_USER + R_HANDLE,
     IS_IMPLEMENTED + DECRYPT_2 + HANDLE_1_USER, IS_IMPLEMENTED + DECRYPT_2 + HANDLE_1_USER, IS_IMPLEMENTED + HANDLE_1_USER + ENCRYPT_2, 0,
     IS_IMPLEMENTED + DECRYPT_2 + ALLOW_TRIAL + ENCRYPT_2, IS_IMPLEMENTED + NO_SESSIONS + R_HANDLE, IS_IMPLEMENTED + NO_SESSIONS,
     IS_IMPLEMENTED + ENCRYPT_2, IS_IMPLEMENTED + HANDLE_1_USER + ENCRYPT_2, IS_IMPLEMENTED + NO_SESSIONS, 0,
     IS_IMPLEMENTED + DECRYPT_2 + ENCRYPT_2 + R_HANDLE, IS_IMPLEMENTED + DECRYPT_2 + ENCRYPT_2, IS_IMPLEMENTED + ENCRYPT_2,
     IS_IMPLEMENTED + DECRYPT_2 + ALLOW_TRIAL, IS_IMPLEMENTED + ALLOW_TRIAL, IS_IMPLEMENTED + ALLOW_TRIAL, IS_IMPLEMENTED + DECRYPT_2 + ALLOW_TRIAL,
     IS_IMPLEMENTED + DECRYPT_2 + ALLOW_TRIAL, IS_IMPLEMENTED + ALLOW_TRIAL, IS_IMPLEMENTED + DECRYPT_2 + ALLOW_TRIAL, IS_IMPLEMENTED + ALLOW_TRIAL,
     IS_IMPLEMENTED + DECRYPT_2 + ALLOW_TRIAL, IS_IMPLEMENTED + ENCRYPT_2, IS_IMPLEMENTED + DECRYPT_2 + ENCRYPT_2, 0,
     IS_IMPLEMENTED + DECRYPT_2 + ENCRYPT_2 + R_HANDLE, IS_IMPLEMENTED + DECRYPT_2, IS_IMPLEMENTED, 0, IS_IMPLEMENTED, IS_IMPLEMENTED + ENCRYPT_2,
     IS_IMPLEMENTED + ENCRYPT_2, IS_IMPLEMENTED + DECRYPT_2 + ENCRYPT_2, IS_IMPLEMENTED, IS_IMPLEMENTED + DECRYPT_2 + ALLOW_TRIAL,
     IS_IMPLEMENTED + ALLOW_TRIAL, IS_IMPLEMENTED, IS_IMPLEMENTED + HANDLE_1_USER, IS_IMPLEMENTED + DECRYPT_2 + HANDLE_1_USER,
     IS_IMPLEMENTED + DECRYPT_2 + HANDLE_1_USER + HANDLE_2_USER + ENCRYPT_2, IS_IMPLEMENTED + DECRYPT_2 + HANDLE_1_USER + HANDLE_2_USER,
     IS_IMPLEMENTED + DECRYPT_2 + R_HANDLE, IS_IMPLEMENTED + ALLOW_TRIAL, IS_IMPLEMENTED + DECRYPT_2 + ALLOW_TRIAL,
     IS_IMPLEMENTED + ALLOW_TRIAL + ENCRYPT_2, IS_IMPLEMENTED, IS_IMPLEMENTED + DECRYPT_2 + HANDLE_1_USER + ENCRYPT_2, IS_IMPLEMENTED + ALLOW_TRIAL,
     IS_IMPLEMENTED + DECRYPT_2 + HANDLE_1_USER + ENCRYPT_2, IS_IMPLEMENTED + ENCRYPT_2, IS_IMPLEMENTED + ALLOW_TRIAL,
     IS_IMPLEMENTED + DECRYPT_2 + ALLOW_TRIAL, IS_IMPLEMENTED + DECRYPT_2 + HANDLE_1_USER + PP_COMMAND + ENCRYPT_2 + R_HANDLE,
     IS_IMPLEMENTED + HANDLE_1_USER + ALLOW_TRIAL, IS_IMPLEMENTED + DECRYPT_2 + HANDLE_1_USER + ENCRYPT_2, 0, 0, 0,
     IS_IMPLEMENTED + DECRYPT_2 + HANDLE_1_ADMIN + HANDLE_2_USER + ENCRYPT_2, 0, IS_IMPLEMENTED + DECRYPT_2 + ENCRYPT_2,
     IS_IMPLEMENTED + DECRYPT_2 + HANDLE_1_USER + ENCRYPT_2, IS_IMPLEMENTED + DECRYPT_2 + ALLOW_TRIAL, IS_IMPLEMENTED + DECRYPT_2 + ALLOW_TRIAL, 0, 0, 0,
     0, 0, 0, IS_IMPLEMENTED + HANDLE_1_USER + DECRYPT_2, IS_IMPLEMENTED + HANDLE_1_USER + HANDLE_2_USER + DECRYPT_2, IS_IMPLEMENTED + DECRYPT_2,
     IS_IMPLEMENTED + DECRYPT_2 + HANDLE_1_USER, IS_IMPLEMENTED + ENCRYPT_2, IS_IMPLEMENTED + DECRYPT_2 + HANDLE_1_USER + ENCRYPT_2, IS_IMPLEMENTED,
     IS_IMPLEMENTED, 0, 0]"

text \<open>The descriptors as far as handles are concerned: how many handles the type list of a command has, and how many that of its response.\<close>

definition s_CommandDataArray :: "(nat \<times> nat) list" where
  "s_CommandDataArray =
    [(2, 0), (2, 0), (1, 0), (2, 0), (0, 0), (1, 0), (1, 0), (1, 0), (1, 0), (1, 0), (1, 0), (1, 0), (1, 0), (1, 0), (1, 0), (1, 0), (2, 0), (1, 0),
     (1, 1), (1, 0), (2, 0), (2, 0), (2, 0), (2, 0), (2, 0), (2, 0), (1, 0), (1, 0), (1, 0), (1, 0), (1, 0), (1, 0), (1, 0), (1, 0), (0, 0), (0, 0),
     (0, 0), (0, 0), (0, 0), (0, 0), (2, 0), (2, 0), (3, 0), (2, 0), (2, 0), (2, 0), (3, 0), (2, 0), (2, 0), (2, 0), (2, 0), (2, 0), (1, 0), (1, 0),
     (1, 0), (1, 0), (1, 1), (1, 0), (1, 0), (0, 0), (1, 1), (1, 0), (1, 0), (1, 0), (0, 0), (2, 0), (0, 1), (1, 0), (1, 0), (1, 0), (0, 0), (0, 0),
     (0, 1), (1, 0), (1, 0), (1, 0), (1, 0), (1, 0), (1, 0), (1, 0), (1, 0), (1, 0), (1, 0), (1, 0), (1, 0), (1, 0), (0, 0), (2, 1), (1, 0), (0, 0),
     (0, 0), (0, 0), (0, 0), (0, 0), (0, 0), (0, 0), (1, 0), (1, 0), (0, 0), (1, 0), (1, 0), (3, 0), (2, 0), (0, 1), (1, 0), (1, 0), (1, 0), (0, 0),
     (1, 0), (1, 0), (1, 0), (0, 0), (1, 0), (1, 0), (1, 1), (3, 0), (1, 0), (1, 0), (3, 0), (1, 0), (2, 0), (1, 0), (1, 0), (1, 0), (1, 0), (1, 0),
     (1, 0), (1, 0), (1, 0), (0, 0), (0, 0), (0, 0), (2, 0), (2, 0), (1, 0), (1, 0), (1, 0), (1, 0), (1, 1), (1, 1)]"

text \<open>Of \<^verbatim>\<open>s_CommandProperties\<close>: whether the command is built, whether it can be disabled, and the state format level it needs.\<close>

definition s_CommandProperties :: "(bool \<times> bool \<times> nat) list" where
  "s_CommandProperties =
    [(True, True, 1), (True, False, 1), (True, True, 1), (True, True, 1), (False, False, 0), (True, True, 1), (True, True, 1), (True, True, 1),
     (True, True, 1), (True, True, 1), (True, False, 1), (True, True, 1), (True, False, 1), (True, True, 1), (True, True, 1), (True, True, 1),
     (False, True, 0), (True, True, 1), (True, False, 1), (True, True, 1), (True, True, 1), (True, True, 1), (True, True, 1), (True, True, 1),
     (True, True, 1), (True, True, 1), (True, True, 1), (True, True, 1), (True, True, 1), (True, False, 1), (True, True, 1), (True, True, 1),
     (True, True, 1), (True, True, 1), (False, True, 0), (True, True, 1), (True, False, 1), (True, False, 1), (True, False, 1), (True, True, 1),
     (True, True, 1), (True, False, 1), (True, True, 1), (True, True, 1), (True, True, 1), (True, True, 1), (True, True, 1), (True, False, 1),
     (True, True, 1), (True, True, 1), (True, True, 1), (True, True, 1), (True, False, 1), (True, True, 1), (True, True, 1), (True, False, 1),
     (True, False, 1), (True, False, 1), (True, True, 1), (False, False, 0), (True, True, 1), (True, False, 1), (True, True, 1), (True, True, 1),
     (False, False, 0), (True, True, 1), (True, True, 1), (True, True, 1), (True, True, 1), (True, True, 1), (True, False, 1), (False, False, 0),
     (True, True, 1), (True, True, 1), (True, False, 1), (True, True, 1), (True, True, 1), (True, True, 1), (True, True, 1), (True, True, 1),
     (True, True, 1), (True, True, 1), (True, True, 1), (True, True, 1), (True, False, 1), (True, True, 1), (False, False, 0), (True, False, 1),
     (True, True, 1), (True, True, 1), (False, True, 0), (True, False, 1), (True, True, 1), (True, False, 1), (True, False, 1), (True, False, 1),
     (True, True, 1), (True, True, 1), (True, True, 1), (True, False, 1), (True, True, 1), (True, True, 1), (True, False, 1), (True, False, 1),
     (True, True, 1), (True, True, 1), (True, True, 1), (True, True, 1), (True, True, 1), (True, True, 1), (True, True, 1), (True, True, 1),
     (True, True, 1), (True, True, 1), (True, True, 1), (True, True, 1), (True, True, 1), (False, True, 0), (False, True, 0), (False, True, 0),
     (True, True, 1), (False, True, 0), (True, True, 3), (True, True, 3), (True, True, 5), (True, True, 5), (False, True, 0), (False, True, 0),
     (False, True, 0), (False, False, 0), (False, False, 0), (False, False, 0), (True, True, 1), (True, True, 1), (True, True, 1), (True, True, 1),
     (True, True, 1), (True, True, 1), (True, True, 1), (True, True, 1)]"

section \<open>Enabled commands\<close>

text \<open>The bits of \<^verbatim>\<open>enabledCommands\<close> are a function of the command code.\<close>

type_synonym RuntimeCommands = "TPM_CC \<Rightarrow> bool"

definition CcToIdx :: "TPM_CC \<Rightarrow> nat" where
  "CcToIdx cc = unat (cc - TPM_CC_FIRST)"

definition RuntimeCommandsCheckEnabled :: "RuntimeCommands \<Rightarrow> TPM_CC \<Rightarrow> bool" where
  "RuntimeCommandsCheckEnabled en cc \<longleftrightarrow> CcToIdx cc < length s_CommandProperties \<and> en cc"

definition RuntimeCommandsEnableAllCommands :: "nat \<Rightarrow> RuntimeCommands" where
  "RuntimeCommandsEnableAllCommands maxStateFormatLevel cc \<longleftrightarrow> CcToIdx cc < length s_CommandProperties
     \<and> (case s_CommandProperties ! CcToIdx cc of (built, can, level) \<Rightarrow> built \<and> level \<le> maxStateFormatLevel)"

section \<open>Indices\<close>

definition attribute :: "COMMAND_INDEX \<Rightarrow> COMMAND_ATTRIBUTES \<Rightarrow> bool" where
  "attribute i a \<longleftrightarrow> s_commandAttributes ! unat i AND a \<noteq> 0"

definition index_code :: "COMMAND_INDEX \<Rightarrow> TPM_CC" where
  "index_code i = ucast (cc_commandIndex (s_ccAttr ! unat i))"

lemma unat_Suc_index: "unat i < COMMAND_COUNT \<Longrightarrow> unat (i + 1 :: COMMAND_INDEX) = Suc (unat i)"
  by (simp add: unat_word_ariths COMMAND_COUNT_def)

lemma unat_Suc_Suc_index: "unat (i + 1) < COMMAND_COUNT \<Longrightarrow> unat (2 + i :: COMMAND_INDEX) = Suc (unat (i + 1))"
  using unat_Suc_index [of "i + 1"] by (simp add: add.commute)

function NextImplementedIndex :: "RuntimeCommands \<Rightarrow> COMMAND_INDEX \<Rightarrow> COMMAND_INDEX" where
  "NextImplementedIndex en i =
     (if unat i < COMMAND_COUNT
      then if attribute i IS_IMPLEMENTED \<and> RuntimeCommandsCheckEnabled en (index_code i) then i else NextImplementedIndex en (i + 1)
      else UNIMPLEMENTED_COMMAND_INDEX)"
  by pat_completeness auto

termination
  by (relation "measure (\<lambda>(en, i). COMMAND_COUNT - unat i)") (auto simp: unat_Suc_index)

declare NextImplementedIndex.simps [simp del]

definition GetClosestCommandIndex :: "RuntimeCommands \<Rightarrow> TPM_CC \<Rightarrow> COMMAND_INDEX" where
  "GetClosestCommandIndex en code =
     (let vendor = (code AND CC_VEND \<noteq> 0); searchIndex = (ucast code :: COMMAND_INDEX) in
      if code AND NOT CC_VEND \<noteq> ucast searchIndex then UNIMPLEMENTED_COMMAND_INDEX
      else if vendor then UNIMPLEMENTED_COMMAND_INDEX
      else if cc_commandIndex (s_ccAttr ! (COMMAND_COUNT - 1)) < searchIndex then UNIMPLEMENTED_COMMAND_INDEX
      else if cc_commandIndex (s_ccAttr ! 0) \<ge> searchIndex then NextImplementedIndex en 0
      else NextImplementedIndex en (searchIndex - cc_commandIndex (s_ccAttr ! 0)))"

definition CommandCodeToCommandIndex :: "RuntimeCommands \<Rightarrow> TPM_CC \<Rightarrow> COMMAND_INDEX" where
  "CommandCodeToCommandIndex en code =
     (let searchIndex = (ucast code :: COMMAND_INDEX); vendor = (code AND CC_VEND \<noteq> 0) in
      if \<not> vendor then
        let commandIndex = searchIndex - cc_commandIndex (s_ccAttr ! 0) in
        if unat commandIndex \<ge> COMMAND_COUNT \<or> \<not> attribute commandIndex IS_IMPLEMENTED \<or> \<not> RuntimeCommandsCheckEnabled en code
        then UNIMPLEMENTED_COMMAND_INDEX else commandIndex
      else
        let commandIndex = GetClosestCommandIndex en code in
        if commandIndex \<noteq> UNIMPLEMENTED_COMMAND_INDEX
           \<and> (cc_commandIndex (s_ccAttr ! unat commandIndex) \<noteq> searchIndex \<or> cc_V (s_ccAttr ! unat commandIndex) \<noteq> vendor
              \<or> \<not> RuntimeCommandsCheckEnabled en code)
        then UNIMPLEMENTED_COMMAND_INDEX else commandIndex)"

function GetNextCommandIndex :: "RuntimeCommands \<Rightarrow> COMMAND_INDEX \<Rightarrow> COMMAND_INDEX" where
  "GetNextCommandIndex en i =
     (let j = i + 1 in
      if unat j < COMMAND_COUNT
      then if \<not> RuntimeCommandsCheckEnabled en (index_code j) then GetNextCommandIndex en j
           else if attribute j IS_IMPLEMENTED then j else GetNextCommandIndex en j
      else UNIMPLEMENTED_COMMAND_INDEX)"
  by pat_completeness auto

termination
  by (relation "measure (\<lambda>(en, i). COMMAND_COUNT - unat (i + 1))") (auto simp: unat_Suc_Suc_index)

declare GetNextCommandIndex.simps [simp del]

definition GetCommandCode :: "COMMAND_INDEX \<Rightarrow> TPM_CC" where
  "GetCommandCode i = (if cc_V (s_ccAttr ! unat i) then index_code i + CC_VEND else index_code i)"

section \<open>Attributes\<close>

definition CommandAuthRole :: "COMMAND_INDEX \<Rightarrow> nat \<Rightarrow> AUTH_ROLE" where
  "CommandAuthRole i handleIndex =
     (if handleIndex = 0 then
        if attribute i HANDLE_1_USER then AUTH_USER else if attribute i HANDLE_1_ADMIN then AUTH_ADMIN
        else if attribute i HANDLE_1_DUP then AUTH_DUP else AUTH_NONE
      else if handleIndex = 1 then if attribute i HANDLE_2_USER then AUTH_USER else AUTH_NONE
      else AUTH_NONE)"

definition EncryptSize :: "COMMAND_INDEX \<Rightarrow> nat" where
  "EncryptSize i = (if attribute i ENCRYPT_2 then 2 else if attribute i ENCRYPT_4 then 4 else 0)"

definition DecryptSize :: "COMMAND_INDEX \<Rightarrow> nat" where
  "DecryptSize i = (if attribute i DECRYPT_2 then 2 else if attribute i DECRYPT_4 then 4 else 0)"

definition IsSessionAllowed :: "COMMAND_INDEX \<Rightarrow> bool" where
  "IsSessionAllowed i \<longleftrightarrow> \<not> attribute i NO_SESSIONS"

definition IsHandleInResponse :: "COMMAND_INDEX \<Rightarrow> bool" where
  "IsHandleInResponse i \<longleftrightarrow> attribute i R_HANDLE"

text \<open>\<^verbatim>\<open>TPM2_AC_Send\<close> is not built.\<close>

definition IsWriteOperation :: "COMMAND_INDEX \<Rightarrow> bool" where
  "IsWriteOperation i \<longleftrightarrow> \<not> cc_V (s_ccAttr ! unat i) \<and> cc_commandIndex (s_ccAttr ! unat i) \<in> {0x137, 0x134, 0x135, 0x136, 0x138}"

definition IsReadOperation :: "COMMAND_INDEX \<Rightarrow> bool" where
  "IsReadOperation i \<longleftrightarrow> \<not> cc_V (s_ccAttr ! unat i) \<and> cc_commandIndex (s_ccAttr ! unat i) \<in> {0x14E, 0x149, 0x184, 0x14F}"

section \<open>Lists of commands\<close>

lemma index_less_Suc:
  assumes "i \<noteq> UNIMPLEMENTED_COMMAND_INDEX"
  shows "unat i < unat (i + 1)"
proof -
  have "unat i \<noteq> 0xFFFF"
    using assms by (auto simp: UNIMPLEMENTED_COMMAND_INDEX_def word_unat_eq_iff)
  moreover have "unat i < 0x10000"
    using unsigned_less [of i] by simp
  ultimately show ?thesis
    by (simp add: unat_word_ariths)
qed

definition available :: "RuntimeCommands \<Rightarrow> COMMAND_INDEX \<Rightarrow> bool" where
  "available en i \<longleftrightarrow> attribute i IS_IMPLEMENTED \<and> RuntimeCommandsCheckEnabled en (index_code i)"

lemma GetNext_eq: "GetNextCommandIndex en i = NextImplementedIndex en (i + 1)"
proof (induction en i rule: GetNextCommandIndex.induct)
  case (1 en i)
  show ?case
    using 1 by (subst GetNextCommandIndex.simps, subst NextImplementedIndex.simps) (auto simp: Let_def)
qed

lemma NextImplementedIndex_cases:
  "NextImplementedIndex en i = UNIMPLEMENTED_COMMAND_INDEX
   \<or> unat i \<le> unat (NextImplementedIndex en i) \<and> unat (NextImplementedIndex en i) < COMMAND_COUNT \<and> available en (NextImplementedIndex en i)"
proof (induction en i rule: NextImplementedIndex.induct)
  case (1 en i)
  show ?case
    using 1 by (subst (1 2 3 4) NextImplementedIndex.simps) (auto simp: available_def unat_Suc_index)
qed

lemma GetNext_greater:
  assumes "i \<noteq> UNIMPLEMENTED_COMMAND_INDEX" "GetNextCommandIndex en i \<noteq> UNIMPLEMENTED_COMMAND_INDEX"
  shows "unat i < unat (GetNextCommandIndex en i)"
  using NextImplementedIndex_cases [of en "i + 1"] index_less_Suc [OF assms(1)] assms(2) by (simp add: GetNext_eq)

text \<open>The indices that \<^verbatim>\<open>for(i = start; i != UNIMPLEMENTED; i = GetNextCommandIndex(i))\<close> visits.\<close>

function command_indices :: "RuntimeCommands \<Rightarrow> COMMAND_INDEX \<Rightarrow> COMMAND_INDEX list" where
  "command_indices en i = (if i = UNIMPLEMENTED_COMMAND_INDEX then [] else i # command_indices en (GetNextCommandIndex en i))"
  by pat_completeness auto

termination
proof (relation "measure (\<lambda>(en, i). if i = UNIMPLEMENTED_COMMAND_INDEX then 0 else Suc (0x10000 - unat i))", goal_cases)
  case (2 en i)
  have "unat (GetNextCommandIndex en i) < 0x10000"
    using unsigned_less [of "GetNextCommandIndex en i"] by simp
  with 2 show ?case
    using GetNext_greater [of i en] by auto
qed simp

declare command_indices.simps [simp del]

text \<open>The body of the loop: entries that are wanted are collected until the list is full; one more makes \<^verbatim>\<open>more\<close>.\<close>

fun collect :: "(COMMAND_INDEX \<Rightarrow> bool) \<Rightarrow> (COMMAND_INDEX \<Rightarrow> 'a) \<Rightarrow> nat \<Rightarrow> COMMAND_INDEX list \<Rightarrow> 'a list \<times> bool" where
  "collect wanted f room [] = ([], False)"
| "collect wanted f room (i # is) =
     (if \<not> wanted i then collect wanted f room is
      else if room = 0 then ([], True)
      else case collect wanted f (room - 1) is of (xs, m) \<Rightarrow> (f i # xs, m))"

definition CommandCapGetCCList :: "RuntimeCommands \<Rightarrow> TPM_CC \<Rightarrow> nat \<Rightarrow> TPMA_CC list \<times> bool" where
  "CommandCapGetCCList en code count = collect (\<lambda>i. attribute i IS_IMPLEMENTED \<and> RuntimeCommandsCheckEnabled en (index_code i))
     (\<lambda>i. s_ccAttr ! unat i) count (command_indices en (GetClosestCommandIndex en code))"

definition CommandCapGetOneCC :: "RuntimeCommands \<Rightarrow> TPM_CC \<Rightarrow> TPMA_CC option" where
  "CommandCapGetOneCC en code = (let i = CommandCodeToCommandIndex en code in
     if i \<noteq> UNIMPLEMENTED_COMMAND_INDEX then Some (s_ccAttr ! unat i) else None)"

section \<open>Facts of the tables\<close>

lemma table_sizes [simp]: "length s_ccAttr = 141" "length s_commandAttributes = 142" "length s_CommandDataArray = 140" "length s_CommandProperties = 140"
  by (simp_all add: s_ccAttr_def s_commandAttributes_def s_CommandDataArray_def s_CommandProperties_def)

lemma table_codes: "map (\<lambda>c. (cc_commandIndex c, cc_V c)) (take 140 s_ccAttr) = map (\<lambda>k. (0x11F + word_of_nat k, False)) [0..<140]"
  by code_simp

lemma ccAttr_index:
  assumes "unat (i :: COMMAND_INDEX) < COMMAND_COUNT"
  shows "cc_commandIndex (s_ccAttr ! unat i) = 0x11F + i" "\<not> cc_V (s_ccAttr ! unat i)"
  using assms arg_cong [OF table_codes, of "\<lambda>xs. xs ! unat i"] by (simp_all add: COMMAND_COUNT_def)

lemma index_code_eq: "unat i < COMMAND_COUNT \<Longrightarrow> index_code i = ucast (0x11F + i)" "unat i < COMMAND_COUNT \<Longrightarrow> GetCommandCode i = index_code i"
  by (simp_all add: index_code_def GetCommandCode_def ccAttr_index)

text \<open>The codes of the table as 32-bit words: no bit is lost between code and index.\<close>

lemma code_table:
  "list_all (\<lambda>k. (0x11F + word_of_nat k :: TPM_CC) AND CC_VEND = 0 \<and> ucast (0x11F + word_of_nat k :: COMMAND_INDEX) = (0x11F + word_of_nat k :: TPM_CC)
     \<and> ucast (0x11F + word_of_nat k :: TPM_CC) = (0x11F + word_of_nat k :: COMMAND_INDEX)) [0..<140]"
  by code_simp

lemma code_of_nat:
  assumes "k < 140"
  shows "(0x11F + word_of_nat k :: TPM_CC) AND CC_VEND = 0" "ucast (0x11F + word_of_nat k :: COMMAND_INDEX) = (0x11F + word_of_nat k :: TPM_CC)"
    "ucast (0x11F + word_of_nat k :: TPM_CC) = (0x11F + word_of_nat k :: COMMAND_INDEX)"
  using code_table assms by (auto simp: list_all_iff)

lemma CheckEnabled_code:
  assumes "RuntimeCommandsCheckEnabled en code"
  obtains k where "k < 140" "code = 0x11F + word_of_nat k"
proof
  show "CcToIdx code < 140"
    using assms by (simp add: RuntimeCommandsCheckEnabled_def)
  show "code = 0x11F + word_of_nat (CcToIdx code)"
    by (simp add: CcToIdx_def TPM_CC_FIRST_def)
qed

lemma unat_index_of_nat: "k < 140 \<Longrightarrow> unat (word_of_nat k :: COMMAND_INDEX) = k"
  by (rule unat_u16_of_nat) simp

lemma index_code_of_nat: "k < 140 \<Longrightarrow> index_code (word_of_nat k) = 0x11F + word_of_nat k"
  by (simp add: index_code_eq COMMAND_COUNT_def code_of_nat unat_index_of_nat)

lemma not_unimplemented: "unat i < COMMAND_COUNT \<Longrightarrow> i \<noteq> UNIMPLEMENTED_COMMAND_INDEX"
  by (auto simp: COMMAND_COUNT_def UNIMPLEMENTED_COMMAND_INDEX_def)

lemma CommandCodeToCommandIndex_of_nat:
  assumes "k < 140"
  shows "CommandCodeToCommandIndex en (0x11F + word_of_nat k) = (if available en (word_of_nat k) then word_of_nat k else UNIMPLEMENTED_COMMAND_INDEX)"
proof -
  have "cc_commandIndex (s_ccAttr ! 0) = 0x11F"
    using ccAttr_index(1) [of 0] by (simp add: COMMAND_COUNT_def)
  then show ?thesis
    using assms code_of_nat [OF assms]
    by (simp add: CommandCodeToCommandIndex_def Let_def available_def index_code_of_nat unat_index_of_nat COMMAND_COUNT_def)
qed

lemma CommandCodeToCommandIndex_other:
  assumes "\<not> RuntimeCommandsCheckEnabled en code"
  shows "CommandCodeToCommandIndex en code = UNIMPLEMENTED_COMMAND_INDEX"
  using assms by (auto simp: CommandCodeToCommandIndex_def Let_def)

text \<open>C13: a command code and a command index determine each other. \<^verbatim>\<open>CommandCodeToCommandIndex\<close>, which looks only at the low 16 bits of the
  code, answers with an index exactly if the code, in all of its 32 bits, is the one that \<^verbatim>\<open>GetCommandCode\<close> has for this index and the command
  is built and enabled in the profile. So no two codes reach the same command, and no code outside the table reaches any.\<close>

theorem command_index_exact:
  "CommandCodeToCommandIndex en code = i \<and> i \<noteq> UNIMPLEMENTED_COMMAND_INDEX
   \<longleftrightarrow> unat i < COMMAND_COUNT \<and> GetCommandCode i = code \<and> attribute i IS_IMPLEMENTED \<and> RuntimeCommandsCheckEnabled en code"
proof (cases "RuntimeCommandsCheckEnabled en code")
  case False
  then show ?thesis
    using CommandCodeToCommandIndex_other by auto
next
  case True
  then obtain k where k: "k < 140" "code = 0x11F + word_of_nat k"
    by (rule CheckEnabled_code)
  have c: "GetCommandCode (word_of_nat k) = code" "unat (word_of_nat k :: COMMAND_INDEX) < COMMAND_COUNT"
    using k by (simp_all add: index_code_eq(2) index_code_of_nat unat_index_of_nat COMMAND_COUNT_def)
  have a: "available en (word_of_nat k) \<longleftrightarrow> attribute (word_of_nat k) IS_IMPLEMENTED"
    using True k by (simp add: available_def index_code_of_nat)
  have u: "i = word_of_nat k" if "unat i < COMMAND_COUNT" "GetCommandCode i = code"
  proof -
    have "index_code i = 0x11F + word_of_nat (unat i)"
      using index_code_of_nat [of "unat i"] that(1) by (simp add: COMMAND_COUNT_def)
    then have "(word_of_nat (unat i) :: TPM_CC) = word_of_nat k"
      using that k(2) by (simp add: index_code_eq(2))
    then have "unat (word_of_nat (unat i) :: TPM_CC) = unat (word_of_nat k :: TPM_CC)"
      by (rule arg_cong)
    then have "unat i = k"
      using that(1) k(1) by (simp only: unat_u32_of_nat COMMAND_COUNT_def) (simp add: unsigned_ucast_eq take_bit_nat_eq_self)
    then show ?thesis
      by (simp flip: \<open>unat i = k\<close>)
  qed
  show ?thesis
    using CommandCodeToCommandIndex_of_nat [OF k(1), of en] c a True u not_unimplemented [OF c(2)] unfolding k(2) [symmetric]
    by (auto split: if_splits)
qed

section \<open>The list of commands\<close>

lemma command_indices_Next:
  "n = 140 - unat i \<Longrightarrow> command_indices en (NextImplementedIndex en i) = map word_of_nat (filter (\<lambda>k. available en (word_of_nat k)) [unat i..<140])"
proof (induction n arbitrary: i)
  case 0
  then show ?case
    by (subst NextImplementedIndex.simps, subst command_indices.simps) (simp add: COMMAND_COUNT_def)
next
  case (Suc n)
  then have i: "unat i < 140"
    by simp
  have s: "unat (i + 1) = Suc (unat i)"
    using i unat_Suc_index [of i] by (simp add: COMMAND_COUNT_def)
  have IH: "command_indices en (NextImplementedIndex en (i + 1)) = map word_of_nat (filter (\<lambda>k. available en (word_of_nat k)) [Suc (unat i)..<140])"
    using Suc.IH [of "i + 1"] Suc.prems s by simp
  have u: "[unat i..<140] = unat i # [Suc (unat i)..<140]" "word_of_nat (unat i) = i" "i \<noteq> UNIMPLEMENTED_COMMAND_INDEX"
    using i not_unimplemented [of i] by (simp_all add: upt_conv_Cons COMMAND_COUNT_def)
  show ?case
  proof (cases "available en i")
    case True
    then have "NextImplementedIndex en i = i"
      using i by (subst NextImplementedIndex.simps) (simp add: available_def COMMAND_COUNT_def)
    then show ?thesis
      using u IH True by (subst command_indices.simps) (simp add: GetNext_eq)
  next
    case False
    then have "NextImplementedIndex en i = NextImplementedIndex en (i + 1)"
      using i by (subst NextImplementedIndex.simps) (auto simp: available_def COMMAND_COUNT_def)
    then show ?thesis
      using u IH False by simp
  qed
qed

lemma collect_eq: "collect wanted f room is = (take room (map f (filter wanted is)), room < length (filter wanted is))"
  by (induction wanted f room "is" rule: collect.induct) (auto simp: take_Cons' split: prod.splits)

lemma clear_vendor_bit:
  assumes "code AND CC_VEND = 0"
  shows "code AND NOT CC_VEND = code"
proof (rule bit_word_eqI)
  fix n
  show "bit (code AND NOT CC_VEND) n \<longleftrightarrow> bit code n"
    using arg_cong [OF assms, of "\<lambda>w. bit w n"] by (auto simp: bit_and_iff bit_not_iff dest: bit_imp_le_length)
qed

lemma ucast_index: "unat (code :: TPM_CC) < 0x10000 \<Longrightarrow> unat (ucast code :: COMMAND_INDEX) = unat code"
  "unat (ucast i :: TPM_CC) = unat (i :: COMMAND_INDEX)"
proof -
  show "unat (ucast code :: COMMAND_INDEX) = unat code" if "unat (code :: TPM_CC) < 0x10000"
    using that by (simp add: unsigned_ucast_eq take_bit_nat_eq_self)
  have "unat i < 0x10000"
    using unsigned_less [of i] by simp
  then show "unat (ucast i :: TPM_CC) = unat i"
    by (simp add: unsigned_ucast_eq take_bit_nat_eq_self)
qed

lemma small_code:
  assumes "unat (code :: TPM_CC) \<le> 426"
  shows "code AND CC_VEND = 0" "code AND NOT CC_VEND = ucast (ucast code :: COMMAND_INDEX)" "unat (ucast code :: COMMAND_INDEX) = unat code"
proof -
  have "\<not> bit (unat code) 29"
    using assms by (simp add: bit_iff_odd)
  then have "\<not> bit code 29"
    by (simp add: bit_unsigned_iff)
  then show v: "code AND CC_VEND = 0"
    using and_exp_eq_0_iff_not_bit [of code 29] by (simp add: CC_VEND_def)
  show u: "unat (ucast code :: COMMAND_INDEX) = unat code"
    using assms by (intro ucast_index) simp
  then have "unat (ucast (ucast code :: COMMAND_INDEX) :: TPM_CC) = unat code"
    by (simp only: ucast_index)
  then show "code AND NOT CC_VEND = ucast (ucast code :: COMMAND_INDEX)"
    using clear_vendor_bit [OF v] by (simp only: word_unat_eq_iff)
qed

lemma large_code:
  assumes "\<not> unat (code :: TPM_CC) \<le> 426" "code AND CC_VEND = 0" "code AND NOT CC_VEND = ucast (ucast code :: COMMAND_INDEX)"
  shows "0x1AA < (ucast code :: COMMAND_INDEX)"
proof -
  have "unat code = unat (ucast (ucast code :: COMMAND_INDEX) :: TPM_CC)"
    using assms(3) clear_vendor_bit [OF assms(2)] by simp
  then show ?thesis
    using assms(1) by (simp only: ucast_index word_less_nat_alt) simp
qed

lemma closest_indices:
  "command_indices en (GetClosestCommandIndex en code) = map word_of_nat (filter (\<lambda>k. available en (word_of_nat k) \<and> unat code \<le> 0x11F + k) [0..<140])"
proof (cases "unat code \<le> 426")
  case False
  then have "GetClosestCommandIndex en code = UNIMPLEMENTED_COMMAND_INDEX"
    using large_code [OF False] ccAttr_index(1) [of 139] by (auto simp: GetClosestCommandIndex_def Let_def COMMAND_COUNT_def)
  then show ?thesis
    using False by (subst command_indices.simps) (auto simp: filter_empty_conv)
next
  case True
  note sc = small_code [OF True]
  have t: "cc_commandIndex (s_ccAttr ! 139) = 0x1AA" "cc_commandIndex (s_ccAttr ! 0) = 0x11F"
    using ccAttr_index(1) [of 139] ccAttr_index(1) [of 0] by (simp_all add: COMMAND_COUNT_def)
  let ?s = "ucast code :: COMMAND_INDEX"
  show ?thesis
  proof (cases "unat code \<le> 0x11F")
    case small: True
    then have "GetClosestCommandIndex en code = NextImplementedIndex en 0"
      using sc t True by (simp add: GetClosestCommandIndex_def Let_def COMMAND_COUNT_def word_less_nat_alt word_le_nat_alt)
    then show ?thesis
      using small command_indices_Next [of 140 0 en] by (auto intro!: arg_cong [where f = "map word_of_nat"] filter_cong)
  next
    case large: False
    have u: "unat (?s - 0x11F) = unat code - 0x11F"
      using sc(3) large by (subst unat_sub) (auto simp: word_le_nat_alt)
    have "GetClosestCommandIndex en code = NextImplementedIndex en (?s - 0x11F)"
      using sc t True large by (simp add: GetClosestCommandIndex_def Let_def COMMAND_COUNT_def word_less_nat_alt word_le_nat_alt)
    moreover have "[0..<140] = [0..<unat code - 0x11F] @ [unat code - 0x11F..<140]"
      using True upt_add_eq_append [of 0 "unat code - 0x11F" "140 - (unat code - 0x11F)"] by simp
    moreover have "filter (\<lambda>k. available en (word_of_nat k) \<and> unat code \<le> 0x11F + k) [0..<unat code - 0x11F] = []"
      "filter (\<lambda>k. available en (word_of_nat k) \<and> unat code \<le> 0x11F + k) [unat code - 0x11F..<140] = filter (\<lambda>k. available en (word_of_nat k)) [unat code - 0x11F..<140]"
      using large by (auto simp: filter_empty_conv intro!: filter_cong)
    ultimately show ?thesis
      using command_indices_Next [of "140 - unat (?s - 0x11F)" "?s - 0x11F" en] u by simp
  qed
qed

text \<open>C38: the list of commands that the TPM reports is the list of its commands. For every start code, of any 32 bits, \<^verbatim>\<open>CommandCapGetCCList\<close> returns
  the attributes of the built and enabled commands from this code on, in ascending order and without gaps, at most \<open>count\<close> of
  them, and says that there are more exactly if some are left.\<close>

theorem command_list_exact:
  "CommandCapGetCCList en code count =
     (let L = filter (\<lambda>k. available en (word_of_nat k) \<and> unat code \<le> 0x11F + k) [0..<COMMAND_COUNT]
      in (take count (map (\<lambda>k. s_ccAttr ! k) L), count < length L))"
proof -
  let ?L = "filter (\<lambda>k. available en (word_of_nat k) \<and> unat code \<le> 0x11F + k) [0..<140]"
  have w: "filter (\<lambda>i. attribute i IS_IMPLEMENTED \<and> RuntimeCommandsCheckEnabled en (index_code i)) (map word_of_nat ?L) = map word_of_nat ?L"
    by (rule filter_True) (auto simp: available_def)
  have m: "map (\<lambda>i. s_ccAttr ! unat i) (map (word_of_nat :: nat \<Rightarrow> COMMAND_INDEX) ?L) = map (\<lambda>k. s_ccAttr ! k) ?L"
    by (auto simp: unat_index_of_nat)
  show ?thesis
    unfolding CommandCapGetCCList_def collect_eq closest_indices w m by (simp add: COMMAND_COUNT_def Let_def)
qed

end
