(* ===== verification/Command_Bits.thy ===== *)
theory Command_Bits
  imports Command_Codes
begin

text \<open>
  Lists of commands as bit arrays over the command index: the contract that the audited commands and the commands with physical presence
  share, as a locale. A set or clear operation changes the bit of the command it names, if the command is implemented and the operation
  is allowed for it.
\<close>

definition COMMAND_BITS :: nat where [tpm_consts]: "COMMAND_BITS = 144"
definition MAX_CAP_CC :: nat where [tpm_consts]: "MAX_CAP_CC = 254"

lemma index_bound: "CommandCodeToCommandIndex en code \<noteq> UNIMPLEMENTED_COMMAND_INDEX \<Longrightarrow> unat (CommandCodeToCommandIndex en code) < 140"
proof -
  assume a: "CommandCodeToCommandIndex en code \<noteq> UNIMPLEMENTED_COMMAND_INDEX"
  then obtain k where "k < 140" "code = 0x11F + word_of_nat k"
    using CommandCodeToCommandIndex_other [of en code] CheckEnabled_code by metis
  then show "unat (CommandCodeToCommandIndex en code) < 140"
    using a CommandCodeToCommandIndex_of_nat [of k en] by (auto simp: unat_index_of_nat split: if_splits)
qed

lemma index_implemented:
  assumes "CommandCodeToCommandIndex en code \<noteq> UNIMPLEMENTED_COMMAND_INDEX"
  shows "attribute (CommandCodeToCommandIndex en code) IS_IMPLEMENTED"
proof -
  obtain k where "k < 140" "code = 0x11F + word_of_nat k"
    using CommandCodeToCommandIndex_other [of en code] assms CheckEnabled_code by metis
  then show ?thesis
    using assms CommandCodeToCommandIndex_of_nat [of k en] by (auto simp: available_def split: if_splits)
qed

lemma index_eq_iff [simp]: "unat (i :: COMMAND_INDEX) = unat j \<longleftrightarrow> i = j"
  by (simp add: word_unat_eq_iff)

lemma index_inj:
  assumes "CommandCodeToCommandIndex en a = CommandCodeToCommandIndex en c" "CommandCodeToCommandIndex en a \<noteq> UNIMPLEMENTED_COMMAND_INDEX"
  shows "a = c"
proof -
  obtain k where k: "k < 140" "a = 0x11F + word_of_nat k"
    using CommandCodeToCommandIndex_other [of en a] assms(2) CheckEnabled_code by metis
  obtain m where m: "m < 140" "c = 0x11F + word_of_nat m"
    using CommandCodeToCommandIndex_other [of en c] assms CheckEnabled_code by metis
  have "(word_of_nat k :: COMMAND_INDEX) = word_of_nat m"
    using assms CommandCodeToCommandIndex_of_nat [OF k(1), of en] CommandCodeToCommandIndex_of_nat [OF m(1), of en] unfolding k(2) m(2)
    by (auto split: if_splits)
  then have "k = m"
    using unat_index_of_nat [OF k(1)] unat_index_of_nat [OF m(1)] by metis
  then show ?thesis
    using k m by simp
qed


locale command_bits =
  fixes en :: RuntimeCommands
    and bits :: "'s \<Rightarrow> bool list"
    and set_one :: "TPM_CC \<Rightarrow> 's \<Rightarrow> 's"
    and clear_one :: "TPM_CC \<Rightarrow> 's \<Rightarrow> 's"
    and may_set :: "TPM_CC \<Rightarrow> bool"
    and may_clear :: "TPM_CC \<Rightarrow> bool"
  assumes set_bits: "bits (set_one code s) = (let i = CommandCodeToCommandIndex en code in
      if i \<noteq> UNIMPLEMENTED_COMMAND_INDEX \<and> may_set code then (bits s)[unat i := True] else bits s)"
    and clear_bits: "bits (clear_one code s) = (let i = CommandCodeToCommandIndex en code in
      if i \<noteq> UNIMPLEMENTED_COMMAND_INDEX \<and> may_clear code then (bits s)[unat i := False] else bits s)"
begin

lemma one_length [simp]: "length (bits (set_one code s)) = length (bits s)" "length (bits (clear_one code s)) = length (bits s)"
  by (simp_all add: set_bits clear_bits Let_def)

lemma fold_length [simp]: "length (bits (fold set_one codes s)) = length (bits s)" "length (bits (fold clear_one codes s)) = length (bits s)"
  by (induction codes arbitrary: s) simp_all

lemma index_eq: "CommandCodeToCommandIndex en a \<noteq> UNIMPLEMENTED_COMMAND_INDEX \<Longrightarrow>
    CommandCodeToCommandIndex en code = CommandCodeToCommandIndex en a \<longleftrightarrow> a = code"
  using index_inj [of en a code] by metis

lemma set_all:
  assumes "CommandCodeToCommandIndex en a \<noteq> UNIMPLEMENTED_COMMAND_INDEX" "length (bits s) = COMMAND_BITS"
  shows "bits (fold set_one codes s) ! unat (CommandCodeToCommandIndex en a)
    \<longleftrightarrow> a \<in> set codes \<and> may_set a \<or> bits s ! unat (CommandCodeToCommandIndex en a)"
  using assms(2)
proof (induction codes arbitrary: s)
  case (Cons code codes)
  have "unat (CommandCodeToCommandIndex en a) < length (bits s)"
    using index_bound [OF assms(1)] Cons.prems by (simp add: COMMAND_BITS_def)
  then show ?case
    using Cons.IH [of "set_one code s"] Cons.prems index_eq [OF assms(1), of code] assms(1)
    by (cases "a = code") (auto simp: set_bits Let_def)
qed simp

lemma clear_all:
  assumes "CommandCodeToCommandIndex en a \<noteq> UNIMPLEMENTED_COMMAND_INDEX" "length (bits s) = COMMAND_BITS"
  shows "bits (fold clear_one codes s) ! unat (CommandCodeToCommandIndex en a)
    \<longleftrightarrow> \<not> (a \<in> set codes \<and> may_clear a) \<and> bits s ! unat (CommandCodeToCommandIndex en a)"
  using assms(2)
proof (induction codes arbitrary: s)
  case (Cons code codes)
  have "unat (CommandCodeToCommandIndex en a) < length (bits s)"
    using index_bound [OF assms(1)] Cons.prems by (simp add: COMMAND_BITS_def)
  then show ?case
    using Cons.IH [of "clear_one code s"] Cons.prems index_eq [OF assms(1), of code] assms(1)
    by (cases "a = code") (auto simp: clear_bits Let_def)
qed simp

lemma update_exact:
  assumes "CommandCodeToCommandIndex en a \<noteq> UNIMPLEMENTED_COMMAND_INDEX" "length (bits s) = COMMAND_BITS"
  shows "bits (fold clear_one clears (fold set_one sets s)) ! unat (CommandCodeToCommandIndex en a) \<longleftrightarrow>
    (if a \<in> set clears \<and> may_clear a then False else if a \<in> set sets \<and> may_set a then True
     else bits s ! unat (CommandCodeToCommandIndex en a))"
  using assms by (auto simp: clear_all set_all)

end

end
