(* ===== verification/Command_Audit.thy ===== *)
theory Command_Audit
  imports Command_Bits Auth_Demo
begin

text \<open>
  Command audit, \<^verbatim>\<open>CommandAudit.c\<close> and \<^verbatim>\<open>AuditCommands.c\<close>: the commands whose use is recorded in the audit digest. The bit array has
  one bit for every command index, rounded up to octets.
\<close>

section \<open>State\<close>

record audit_bits =
  auditCommands :: "bool list"
  nv_auditCommands :: "bool list"

definition RC_SetCommandCodeAuditStatus_auditAlg :: TPM_RC where [tpm_consts]: "RC_SetCommandCodeAuditStatus_auditAlg = TPM_RC_P + TPM_RC_1"

section \<open>Operations\<close>

definition CommandAuditSet :: "RuntimeCommands \<Rightarrow> TPM_CC \<Rightarrow> audit_bits \<Rightarrow> bool \<times> audit_bits" where
  "CommandAuditSet en code b = (let i = CommandCodeToCommandIndex en code in
     if i \<noteq> UNIMPLEMENTED_COMMAND_INDEX \<and> code \<noteq> TPM_CC_Shutdown \<and> \<not> auditCommands b ! unat i
     then (True, b\<lparr>auditCommands := (auditCommands b)[unat i := True]\<rparr>) else (False, b))"

definition CommandAuditClear :: "RuntimeCommands \<Rightarrow> TPM_CC \<Rightarrow> audit_bits \<Rightarrow> bool \<times> audit_bits" where
  "CommandAuditClear en code b = (let i = CommandCodeToCommandIndex en code in
     if i \<noteq> UNIMPLEMENTED_COMMAND_INDEX \<and> code \<noteq> TPM_CC_SetCommandCodeAuditStatus \<and> auditCommands b ! unat i
     then (True, b\<lparr>auditCommands := (auditCommands b)[unat i := False]\<rparr>) else (False, b))"

definition CommandAuditIsRequired :: "audit_bits \<Rightarrow> COMMAND_INDEX \<Rightarrow> bool" where
  "CommandAuditIsRequired b i = auditCommands b ! unat i"

text \<open>The audit data at manufacture.\<close>

definition CommandAuditPreInstall_Init :: "RuntimeCommands \<Rightarrow> world \<Rightarrow> audit_bits \<times> world" where
  "CommandAuditPreInstall_Init en w =
     (let b = snd (CommandAuditSet en TPM_CC_SetCommandCodeAuditStatus \<lparr>auditCommands = replicate COMMAND_BITS False, nv_auditCommands = []\<rparr>)
      in (b\<lparr>nv_auditCommands := auditCommands b\<rparr>, w\<lparr>auditHashAlg := TPM_ALG_SHA512, auditCounter := 0\<rparr>))"

definition CommandAuditStartup :: "STARTUP_TYPE \<Rightarrow> world \<Rightarrow> world" where
  "CommandAuditStartup type w = (if type \<noteq> SU_RESTART \<and> type \<noteq> SU_RESUME then w\<lparr>commandAuditDigest := []\<rparr> else w)"

definition CommandAuditCapGetCCList :: "RuntimeCommands \<Rightarrow> audit_bits \<Rightarrow> TPM_CC \<Rightarrow> nat \<Rightarrow> TPM_CC list \<times> bool" where
  "CommandAuditCapGetCCList en b code count = collect (CommandAuditIsRequired b)
     (\<lambda>i. index_code i + (if cc_V (s_ccAttr ! unat i) then push_bit 29 1 else 0)) (min count MAX_CAP_CC) (command_indices en (GetClosestCommandIndex en code))"

definition CommandAuditCapGetOneCC :: "RuntimeCommands \<Rightarrow> audit_bits \<Rightarrow> TPM_CC \<Rightarrow> bool" where
  "CommandAuditCapGetOneCC en b code = (let i = CommandCodeToCommandIndex en code in
     i \<noteq> UNIMPLEMENTED_COMMAND_INDEX \<and> CommandAuditIsRequired b i)"

definition CommandAuditGetDigest :: "(TPM_ALG_ID \<Rightarrow> bytes \<Rightarrow> bytes) \<Rightarrow> audit_bits \<Rightarrow> world \<Rightarrow> bytes" where
  "CommandAuditGetDigest hash b w = hash (auditHashAlg w) (concat (map (\<lambda>k. be 4 (GetCommandCode (word_of_nat k)))
     (filter (\<lambda>k. CommandAuditIsRequired b (word_of_nat k)) [0..<COMMAND_COUNT])))"

text \<open>A change of the algorithm sets the size of the digest to one; its octet is the first of the buffer, or zero where there was no digest.\<close>

fun audit_list :: "(TPM_CC \<Rightarrow> audit_bits \<Rightarrow> bool \<times> audit_bits) \<Rightarrow> TPM_CC list \<Rightarrow> audit_bits \<Rightarrow> bool \<times> audit_bits" where
  "audit_list f [] b = (False, b)"
| "audit_list f (code # codes) b = (case f code b of (c, b1) \<Rightarrow> case audit_list f codes b1 of (d, b2) \<Rightarrow> (c \<or> d, b2))"

definition TPM2_SetCommandCodeAuditStatus ::
  "RuntimeCommands \<Rightarrow> TPM_ALG_ID \<Rightarrow> TPM_CC list \<Rightarrow> TPM_CC list \<Rightarrow> audit_bits \<Rightarrow> world \<Rightarrow> TPM_RC \<times> audit_bits \<times> world" where
  "TPM2_SetCommandCodeAuditStatus en auditAlg setList clearList b w =
     (if g_NvStatus (w_da w) \<noteq> TPM_RC_SUCCESS then (g_NvStatus (w_da w), b, w)
      else if auditAlg \<noteq> TPM_ALG_NULL \<and> auditAlg \<noteq> auditHashAlg w then
        if setList \<noteq> [] \<or> clearList \<noteq> [] then (TPM_RC_VALUE + RC_SetCommandCodeAuditStatus_auditAlg, b, w)
        else (TPM_RC_SUCCESS, b, w\<lparr>auditHashAlg := auditAlg, commandAuditDigest := take 1 (commandAuditDigest w @ [0]),
                w_da := (w_da w)\<lparr>g_updateNV := True\<rparr>\<rparr>)
      else
        (case audit_list (CommandAuditSet en) setList b of (c, b1) \<Rightarrow>
         case audit_list (CommandAuditClear en) clearList b1 of (d, b2) \<Rightarrow>
           if c \<or> d then (TPM_RC_SUCCESS, b2\<lparr>nv_auditCommands := auditCommands b2\<rparr>, w\<lparr>w_da := (w_da w)\<lparr>g_updateNV := True\<rparr>\<rparr>)
           else (TPM_RC_SUCCESS, b2, w)))"

section \<open>The audited commands\<close>

interpretation audit: command_bits en auditCommands "\<lambda>code b. snd (CommandAuditSet en code b)" "\<lambda>code b. snd (CommandAuditClear en code b)"
  "\<lambda>code. code \<noteq> TPM_CC_Shutdown" "\<lambda>code. code \<noteq> TPM_CC_SetCommandCodeAuditStatus" for en
proof
  have u: "xs ! k \<Longrightarrow> xs[k := True] = xs" "\<not> xs ! k \<Longrightarrow> xs[k := False] = xs" for xs :: "bool list" and k
    by (metis list_update_id, metis list_update_id)
  show "auditCommands (snd (CommandAuditSet en code s)) = (let i = CommandCodeToCommandIndex en code in
      if i \<noteq> UNIMPLEMENTED_COMMAND_INDEX \<and> code \<noteq> TPM_CC_Shutdown then (auditCommands s)[unat i := True] else auditCommands s)" for code s
    by (simp add: CommandAuditSet_def Let_def u(1))
  show "auditCommands (snd (CommandAuditClear en code s)) = (let i = CommandCodeToCommandIndex en code in
      if i \<noteq> UNIMPLEMENTED_COMMAND_INDEX \<and> code \<noteq> TPM_CC_SetCommandCodeAuditStatus then (auditCommands s)[unat i := False] else auditCommands s)" for code s
    by (simp add: CommandAuditClear_def Let_def u(2))
qed

definition bits_ok :: "audit_bits \<Rightarrow> bool" where
  "bits_ok b \<longleftrightarrow> length (auditCommands b) = COMMAND_BITS"

lemma audit_list_fold: "snd (audit_list f codes b) = fold (\<lambda>code b. snd (f code b)) codes b"
  by (induction codes arbitrary: b) (simp_all add: case_prod_unfold)

lemma audit_list_nv:
  assumes "\<And>code b. nv_auditCommands (snd (f code b)) = nv_auditCommands b" "\<And>code b. \<not> fst (f code b) \<Longrightarrow> snd (f code b) = b"
  shows "nv_auditCommands (snd (audit_list f codes b)) = nv_auditCommands b" "\<not> fst (audit_list f codes b) \<Longrightarrow> snd (audit_list f codes b) = b"
proof (induction codes arbitrary: b)
  case (Cons code codes)
  { case 1 then show ?case using Cons.IH(1) assms(1) [of code b] by (simp add: case_prod_unfold) }
  { case 2 then show ?case using Cons.IH(2) assms(2) [of code b] by (simp add: case_prod_unfold) }
qed simp_all

lemma one_nv:
  "nv_auditCommands (snd (CommandAuditSet en code b)) = nv_auditCommands b" "\<not> fst (CommandAuditSet en code b) \<Longrightarrow> snd (CommandAuditSet en code b) = b"
  "nv_auditCommands (snd (CommandAuditClear en code b)) = nv_auditCommands b" "\<not> fst (CommandAuditClear en code b) \<Longrightarrow> snd (CommandAuditClear en code b) = b"
  by (auto simp: CommandAuditSet_def CommandAuditClear_def Let_def split: if_splits)

text \<open>C39: \<^verbatim>\<open>TPM2_SetCommandCodeAuditStatus\<close> changes exactly the commands it names. With NV memory available and without a change of the
  algorithm it succeeds, and of the commands of the profile those of the set list are audited afterwards, except \<^verbatim>\<open>TPM2_Shutdown\<close>, those of the clear
  list are not, except the command itself, a command in both lists is not, and all others are as before; other codes in the lists have no
  effect. NV memory holds the new list whenever it held the old one.\<close>

theorem audit_status_exact:
  assumes "bits_ok b" "g_NvStatus (w_da w) = TPM_RC_SUCCESS" "alg = TPM_ALG_NULL \<or> alg = auditHashAlg w"
    and "CommandCodeToCommandIndex en a \<noteq> UNIMPLEMENTED_COMMAND_INDEX"
  shows "\<exists>b' w'. TPM2_SetCommandCodeAuditStatus en alg setList clearList b w = (TPM_RC_SUCCESS, b', w') \<and> bits_ok b'
    \<and> (CommandAuditCapGetOneCC en b' a \<longleftrightarrow>
         (if a \<in> set clearList \<and> a \<noteq> TPM_CC_SetCommandCodeAuditStatus then False
          else if a \<in> set setList \<and> a \<noteq> TPM_CC_Shutdown then True else CommandAuditCapGetOneCC en b a))
    \<and> (nv_auditCommands b = auditCommands b \<longrightarrow> nv_auditCommands b' = auditCommands b')
    \<and> auditHashAlg w' = auditHashAlg w \<and> commandAuditDigest w' = commandAuditDigest w"
proof -
  obtain c b1 where s: "audit_list (CommandAuditSet en) setList b = (c, b1)"
    by (cases "audit_list (CommandAuditSet en) setList b")
  obtain d b2 where t: "audit_list (CommandAuditClear en) clearList b1 = (d, b2)"
    by (cases "audit_list (CommandAuditClear en) clearList b1")
  have b: "b2 = fold (\<lambda>code b. snd (CommandAuditClear en code b)) clearList (fold (\<lambda>code b. snd (CommandAuditSet en code b)) setList b)"
    using audit_list_fold [of "CommandAuditSet en" setList b] audit_list_fold [of "CommandAuditClear en" clearList b1] s t by simp
  have u: "nv_auditCommands b2 = nv_auditCommands b" "\<not> (c \<or> d) \<Longrightarrow> b2 = b"
    using audit_list_nv [of "CommandAuditSet en" setList b] audit_list_nv [of "CommandAuditClear en" clearList b1] one_nv s t by auto
  have v: "bits_ok b2"
    using assms(1) by (simp add: b bits_ok_def)
  have n: "CommandAuditCapGetOneCC en (b2\<lparr>nv_auditCommands := x\<rparr>) a = CommandAuditCapGetOneCC en b2 a" "bits_ok (b2\<lparr>nv_auditCommands := x\<rparr>) = bits_ok b2" for x
    by (simp_all add: CommandAuditCapGetOneCC_def CommandAuditIsRequired_def bits_ok_def)
  have e: "CommandAuditCapGetOneCC en b2 a \<longleftrightarrow> (if a \<in> set clearList \<and> a \<noteq> TPM_CC_SetCommandCodeAuditStatus then False
      else if a \<in> set setList \<and> a \<noteq> TPM_CC_Shutdown then True else CommandAuditCapGetOneCC en b a)"
    using audit.update_exact [OF assms(4), of b clearList setList] assms(1,4)
    by (simp add: b bits_ok_def CommandAuditCapGetOneCC_def CommandAuditIsRequired_def Let_def)
  have g: "\<not> (alg \<noteq> TPM_ALG_NULL \<and> alg \<noteq> auditHashAlg w)"
    using assms(3) by blast
  show ?thesis
  proof (cases "c \<or> d")
    case True
    then have "TPM2_SetCommandCodeAuditStatus en alg setList clearList b w
        = (TPM_RC_SUCCESS, b2\<lparr>nv_auditCommands := auditCommands b2\<rparr>, w\<lparr>w_da := (w_da w)\<lparr>g_updateNV := True\<rparr>\<rparr>)"
      using assms(2) g by (simp only: TPM2_SetCommandCodeAuditStatus_def s t if_False if_True simp_thms prod.case)
    then show ?thesis
      using v e n u by simp
  next
    case False
    then have "TPM2_SetCommandCodeAuditStatus en alg setList clearList b w = (TPM_RC_SUCCESS, b2, w)"
      using assms(2) g by (simp only: TPM2_SetCommandCodeAuditStatus_def s t if_False if_True simp_thms prod.case)
    moreover have "b2 = b"
      using False u(2) by simp
    ultimately show ?thesis
      using v e by simp
  qed
qed

definition demo_bits :: audit_bits where
  "demo_bits = fst (CommandAuditPreInstall_Init (RuntimeCommandsEnableAllCommands 7) demo_world)"

theorem audit_status_exact_witness:
  "\<exists>b' w'. TPM2_SetCommandCodeAuditStatus (RuntimeCommandsEnableAllCommands 7) TPM_ALG_NULL [0x137, TPM_CC_Shutdown, 0x999] [TPM_CC_SetCommandCodeAuditStatus] demo_bits demo_world
       = (TPM_RC_SUCCESS, b', w') \<and> CommandAuditCapGetOneCC (RuntimeCommandsEnableAllCommands 7) b' 0x137"
proof -
  have b: "bits_ok demo_bits"
    by (simp add: demo_bits_def CommandAuditPreInstall_Init_def CommandAuditSet_def bits_ok_def Let_def)
  have "available (RuntimeCommandsEnableAllCommands 7) (word_of_nat 24)"
    by (simp add: available_def attribute_def index_code_def s_ccAttr_def s_commandAttributes_def s_CommandProperties_def RuntimeCommandsCheckEnabled_def
        RuntimeCommandsEnableAllCommands_def CcToIdx_def cca_def tpm_consts)
  then have "CommandCodeToCommandIndex (RuntimeCommandsEnableAllCommands 7) 0x137 \<noteq> UNIMPLEMENTED_COMMAND_INDEX"
    using CommandCodeToCommandIndex_of_nat [of 24 "RuntimeCommandsEnableAllCommands 7"] by (simp add: UNIMPLEMENTED_COMMAND_INDEX_def)
  moreover have "g_NvStatus (w_da demo_world) = TPM_RC_SUCCESS"
    by code_simp
  ultimately obtain b' w' where
    "TPM2_SetCommandCodeAuditStatus (RuntimeCommandsEnableAllCommands 7) TPM_ALG_NULL [0x137, TPM_CC_Shutdown, 0x999] [TPM_CC_SetCommandCodeAuditStatus] demo_bits demo_world
       = (TPM_RC_SUCCESS, b', w')"
    "CommandAuditCapGetOneCC (RuntimeCommandsEnableAllCommands 7) b' 0x137 \<longleftrightarrow>
       (if 0x137 \<in> set [TPM_CC_SetCommandCodeAuditStatus] \<and> 0x137 \<noteq> TPM_CC_SetCommandCodeAuditStatus then False
        else if 0x137 \<in> set [0x137, TPM_CC_Shutdown, 0x999] \<and> 0x137 \<noteq> TPM_CC_Shutdown then True
        else CommandAuditCapGetOneCC (RuntimeCommandsEnableAllCommands 7) demo_bits 0x137)"
    using b audit_status_exact [where b = demo_bits and w = demo_world and alg = TPM_ALG_NULL and en = "RuntimeCommandsEnableAllCommands 7" and a = "0x137"
        and setList = "[0x137, TPM_CC_Shutdown, 0x999]" and clearList = "[TPM_CC_SetCommandCodeAuditStatus]"] by blast
  then show ?thesis
    by (auto simp: tpm_consts)
qed

end
