(* ===== verification/Physical_Presence.thy ===== *)
theory Physical_Presence
  imports Command_Bits Auth_Demo
begin

text \<open>
  Commands that require physical presence, \<^verbatim>\<open>PP.c\<close> and \<^verbatim>\<open>ManagementCommands.c\<close>.
\<close>

record pp_state =
  ppList :: "bool list"
  nv_ppList :: "bool list"
  algorithmSet :: u32
  nv_algorithmSet :: u32

section \<open>Operations\<close>

definition PhysicalPresencePreInstall_Init :: "pp_state \<Rightarrow> pp_state" where
  "PhysicalPresencePreInstall_Init s =
     (let l = map (\<lambda>k. k < COMMAND_COUNT \<and> attribute (word_of_nat k) IS_IMPLEMENTED \<and> attribute (word_of_nat k) PP_REQUIRED) [0..<COMMAND_BITS]
      in s\<lparr>ppList := l, nv_ppList := l\<rparr>)"

definition PhysicalPresenceCommandSet :: "RuntimeCommands \<Rightarrow> TPM_CC \<Rightarrow> pp_state \<Rightarrow> pp_state" where
  "PhysicalPresenceCommandSet en code s = (let i = CommandCodeToCommandIndex en code in
     if i = UNIMPLEMENTED_COMMAND_INDEX then s
     else if attribute i PP_COMMAND then s\<lparr>ppList := (ppList s)[unat i := True]\<rparr> else s)"

definition PhysicalPresenceCommandClear :: "RuntimeCommands \<Rightarrow> TPM_CC \<Rightarrow> pp_state \<Rightarrow> pp_state" where
  "PhysicalPresenceCommandClear en code s = (let i = CommandCodeToCommandIndex en code in
     if i = UNIMPLEMENTED_COMMAND_INDEX then s
     else if \<not> attribute i PP_REQUIRED then s\<lparr>ppList := (ppList s)[unat i := False]\<rparr> else s)"

definition PhysicalPresenceIsRequired :: "pp_state \<Rightarrow> COMMAND_INDEX \<Rightarrow> bool" where
  "PhysicalPresenceIsRequired s i = ppList s ! unat i"

definition PhysicalPresenceCapGetCCList :: "RuntimeCommands \<Rightarrow> pp_state \<Rightarrow> TPM_CC \<Rightarrow> nat \<Rightarrow> TPM_CC list \<times> bool" where
  "PhysicalPresenceCapGetCCList en s code count =
     collect (PhysicalPresenceIsRequired s) GetCommandCode (min count MAX_CAP_CC) (command_indices en (GetClosestCommandIndex en code))"

definition PhysicalPresenceCapGetOneCC :: "RuntimeCommands \<Rightarrow> pp_state \<Rightarrow> TPM_CC \<Rightarrow> bool" where
  "PhysicalPresenceCapGetOneCC en s code = (let i = CommandCodeToCommandIndex en code in
     i \<noteq> UNIMPLEMENTED_COMMAND_INDEX \<and> PhysicalPresenceIsRequired s i)"

text \<open>\<open>nv\<close> is the NV status.\<close>

definition TPM2_PP_Commands :: "RuntimeCommands \<Rightarrow> TPM_RC \<Rightarrow> TPM_CC list \<Rightarrow> TPM_CC list \<Rightarrow> pp_state \<Rightarrow> TPM_RC \<times> pp_state" where
  "TPM2_PP_Commands en nv setList clearList s =
     (if nv \<noteq> TPM_RC_SUCCESS then (nv, s)
      else let s1 = fold (PhysicalPresenceCommandClear en) clearList (fold (PhysicalPresenceCommandSet en) setList s)
           in (TPM_RC_SUCCESS, s1\<lparr>nv_ppList := ppList s1\<rparr>))"

definition TPM2_SetAlgorithmSet :: "TPM_RC \<Rightarrow> u32 \<Rightarrow> pp_state \<Rightarrow> TPM_RC \<times> pp_state" where
  "TPM2_SetAlgorithmSet nv a s = (if nv \<noteq> TPM_RC_SUCCESS then (nv, s) else (TPM_RC_SUCCESS, s\<lparr>algorithmSet := a, nv_algorithmSet := a\<rparr>))"

section \<open>The list\<close>

interpretation pp: command_bits en ppList "PhysicalPresenceCommandSet en" "PhysicalPresenceCommandClear en"
  "\<lambda>code. attribute (CommandCodeToCommandIndex en code) PP_COMMAND" "\<lambda>code. \<not> attribute (CommandCodeToCommandIndex en code) PP_REQUIRED" for en
  by unfold_locales (auto simp: PhysicalPresenceCommandSet_def PhysicalPresenceCommandClear_def Let_def)

text \<open>A run of the TPM as far as the list is concerned: \<^verbatim>\<open>TPM2_PP_Commands\<close> with any lists, whether NV memory is available or not.\<close>

inductive pp_step :: "RuntimeCommands \<Rightarrow> pp_state \<Rightarrow> pp_state \<Rightarrow> bool" for en where
  pp_commands: "TPM2_PP_Commands en nv setList clearList s = (rc, t) \<Longrightarrow> pp_step en s t"
| algorithm_set: "TPM2_SetAlgorithmSet nv a s = (rc, t) \<Longrightarrow> pp_step en s t"

text \<open>Every required command is in the list, every command of the list is required or may be put there, and NV memory has the list.\<close>

definition pp_inv :: "RuntimeCommands \<Rightarrow> pp_state \<Rightarrow> bool" where
  "pp_inv en s \<longleftrightarrow> length (ppList s) = COMMAND_BITS \<and> nv_ppList s = ppList s
     \<and> (\<forall>a. let i = CommandCodeToCommandIndex en a in i \<noteq> UNIMPLEMENTED_COMMAND_INDEX \<longrightarrow>
          (attribute i PP_REQUIRED \<longrightarrow> ppList s ! unat i) \<and> (ppList s ! unat i \<longrightarrow> attribute i PP_REQUIRED \<or> attribute i PP_COMMAND))"

lemma pp_commands_inv:
  assumes "pp_inv en s" "TPM2_PP_Commands en nv setList clearList s = (rc, t)"
  shows "pp_inv en t"
proof (cases "nv = TPM_RC_SUCCESS")
  case True
  let ?s = "fold (PhysicalPresenceCommandClear en) clearList (fold (PhysicalPresenceCommandSet en) setList s)"
  have t: "t = ?s\<lparr>nv_ppList := ppList ?s\<rparr>" and l: "length (ppList s) = COMMAND_BITS"
    using assms True by (auto simp: TPM2_PP_Commands_def Let_def pp_inv_def)
  show ?thesis
    using assms(1) l unfolding pp_inv_def Let_def t by (auto simp: pp.update_exact)
next
  case False
  then show ?thesis
    using assms by (simp add: TPM2_PP_Commands_def)
qed

lemma preinstall_inv: "pp_inv en (PhysicalPresencePreInstall_Init s)"
proof -
  have "ppList (PhysicalPresencePreInstall_Init s) ! unat i \<longleftrightarrow> attribute i PP_REQUIRED" if "i = CommandCodeToCommandIndex en a" "i \<noteq> UNIMPLEMENTED_COMMAND_INDEX" for a i
  proof -
    have "unat i < 140" "attribute i IS_IMPLEMENTED"
      using index_bound index_implemented that by blast+
    then show ?thesis
      by (simp add: PhysicalPresencePreInstall_Init_def Let_def COMMAND_COUNT_def COMMAND_BITS_def)
  qed
  then show ?thesis
    by (auto simp: pp_inv_def Let_def) (simp_all add: PhysicalPresencePreInstall_Init_def Let_def)
qed

lemma algorithm_set_inv: "pp_inv en s \<Longrightarrow> TPM2_SetAlgorithmSet nv a s = (rc, t) \<Longrightarrow> pp_inv en t"
  by (auto simp: TPM2_SetAlgorithmSet_def pp_inv_def split: if_splits)

interpretation presence: safe_system "\<lambda>s. \<exists>s0. s = PhysicalPresencePreInstall_Init s0" "pp_step en" "pp_inv en" for en
proof
  show "pp_inv en s" if "\<exists>s0. s = PhysicalPresencePreInstall_Init s0" for s
    using that preinstall_inv by auto
next
  show "pp_inv en t" if "pp_inv en s" "pp_step en s t" for s t
    using that(2,1) by cases (auto intro: pp_commands_inv algorithm_set_inv)
qed

text \<open>C40: the commands that always require physical presence keep requiring it. In every state that is reached from manufacture by any
  sequence of \<^verbatim>\<open>TPM2_PP_Commands\<close> and \<^verbatim>\<open>TPM2_SetAlgorithmSet\<close>, a command of the profile whose attributes have \<^verbatim>\<open>PP_REQUIRED\<close> is in the list, a command whose
  attributes have neither \<^verbatim>\<open>PP_REQUIRED\<close> nor \<^verbatim>\<open>PP_COMMAND\<close> is not, and NV memory has the same list.\<close>

theorem required_presence_kept:
  assumes "(pp_step en)\<^sup>*\<^sup>* (PhysicalPresencePreInstall_Init s0) s" "CommandCodeToCommandIndex en a = i" "i \<noteq> UNIMPLEMENTED_COMMAND_INDEX"
  shows "(attribute i PP_REQUIRED \<longrightarrow> PhysicalPresenceCapGetOneCC en s a) \<and> (\<not> attribute i PP_REQUIRED \<and> \<not> attribute i PP_COMMAND \<longrightarrow> \<not> PhysicalPresenceCapGetOneCC en s a)
    \<and> nv_ppList s = ppList s"
proof -
  have "pp_inv en s"
    using presence.reachable_inv [OF _ assms(1)] by blast
  then show ?thesis
    using assms(2,3) by (auto simp: pp_inv_def Let_def PhysicalPresenceCapGetOneCC_def PhysicalPresenceIsRequired_def)
qed

definition demo_pp :: pp_state where
  "demo_pp = PhysicalPresencePreInstall_Init \<lparr>ppList = [], nv_ppList = [], algorithmSet = 0, nv_algorithmSet = 0\<rparr>"

text \<open>\<^verbatim>\<open>TPM2_PP_Commands\<close> (0x12D) cannot be taken from the list by itself.\<close>

theorem required_presence_kept_witness:
  "\<exists>t. TPM2_PP_Commands (RuntimeCommandsEnableAllCommands 7) TPM_RC_SUCCESS [] [0x12D] demo_pp = (TPM_RC_SUCCESS, t)
     \<and> PhysicalPresenceCapGetOneCC (RuntimeCommandsEnableAllCommands 7) t 0x12D"
proof -
  let ?en = "RuntimeCommandsEnableAllCommands 7"
  obtain t where t: "TPM2_PP_Commands ?en TPM_RC_SUCCESS [] [0x12D] demo_pp = (TPM_RC_SUCCESS, t)"
    by (simp add: TPM2_PP_Commands_def Let_def)
  then have r: "(pp_step ?en)\<^sup>*\<^sup>* (PhysicalPresencePreInstall_Init \<lparr>ppList = [], nv_ppList = [], algorithmSet = 0, nv_algorithmSet = 0\<rparr>) t"
    unfolding demo_pp_def by (intro r_into_rtranclp pp_commands)
  have a: "available ?en (word_of_nat 14)" "attribute (word_of_nat 14) PP_REQUIRED"
    by (simp_all add: available_def attribute_def index_code_def s_ccAttr_def s_commandAttributes_def s_CommandProperties_def RuntimeCommandsCheckEnabled_def
        RuntimeCommandsEnableAllCommands_def CcToIdx_def cca_def tpm_consts)
  then have c: "CommandCodeToCommandIndex ?en 0x12D = word_of_nat 14"
    using CommandCodeToCommandIndex_of_nat [of 14 ?en] by simp
  have n: "word_of_nat 14 \<noteq> UNIMPLEMENTED_COMMAND_INDEX"
    by (simp add: UNIMPLEMENTED_COMMAND_INDEX_def)
  show ?thesis
    using required_presence_kept [OF r c n] a(2) t by blast
qed

end
