(* ===== verification/Response_Layout.thy ===== *)
theory Response_Layout
  imports Command_Codes Auth_Demo
begin

text \<open>
  The response buffer: where \<^verbatim>\<open>ExecuteCommand\<close> lets the parameters start, where the dispatcher and \<^verbatim>\<open>BuildResponseSession\<close> write, and how
  \<^verbatim>\<open>Response.c\<close> puts the header, the handle and the size of the parameters before them. The attributes of a command and the
  descriptor from which it is dispatched both say whether a response has a handle.
\<close>

definition TPM_ST_NO_SESSIONS :: u16 where [tpm_consts]: "TPM_ST_NO_SESSIONS = 0x8001"
definition TPM_ST_SESSIONS :: u16 where [tpm_consts]: "TPM_ST_SESSIONS = 0x8002"
definition STD_RESPONSE_HEADER :: nat where [tpm_consts]: "STD_RESPONSE_HEADER = 10"

definition write_at :: "nat \<Rightarrow> bytes \<Rightarrow> bytes \<Rightarrow> bytes" where
  "write_at i bs buf = take i buf @ bs @ drop (i + length bs) buf"

text \<open>The size of the response and the buffer with its header.\<close>

definition BuildResponseHeader :: "bool \<Rightarrow> TPM_HANDLE list \<Rightarrow> nat \<Rightarrow> nat \<Rightarrow> TPM_RC \<Rightarrow> bytes \<Rightarrow> nat \<times> bytes" where
  "BuildResponseHeader tagged handles parameterSize authSize result buf =
     (let tag = (if result \<noteq> TPM_RC_SUCCESS \<or> \<not> tagged then TPM_ST_NO_SESSIONS else TPM_ST_SESSIONS);
          size = (if result \<noteq> TPM_RC_SUCCESS then 10
                  else STD_RESPONSE_HEADER + length handles * 4 + parameterSize + (if tagged then authSize + 4 else 0));
          rest = (if result \<noteq> TPM_RC_SUCCESS then []
                  else (case handles of [] \<Rightarrow> [] | h # hs \<Rightarrow> be 4 h) @ (if tagged then be 4 (word_of_nat parameterSize :: u32) else []))
      in (size, write_at 0 (be 2 tag @ be 4 (word_of_nat size :: u32) @ be 4 result @ rest) buf))"

text \<open>The handle that the dispatcher takes from the output of the command, if the descriptor has one.\<close>

definition dispatched_handles :: "COMMAND_INDEX \<Rightarrow> TPM_HANDLE \<Rightarrow> TPM_HANDLE list" where
  "dispatched_handles i h = (if snd (s_CommandDataArray ! unat i) > 0 then [h] else [])"

definition response_start :: "COMMAND_INDEX \<Rightarrow> bool \<Rightarrow> nat" where
  "response_start i tagged = STD_RESPONSE_HEADER + (if tagged then 4 else 0) + (if IsHandleInResponse i then 4 else 0)"

text \<open>The response to a command that succeeded with the handle \<open>h\<close>, the marshaled parameters and the session area \<open>auth\<close>.\<close>

definition respond :: "COMMAND_INDEX \<Rightarrow> bool \<Rightarrow> TPM_HANDLE \<Rightarrow> bytes \<Rightarrow> bytes \<Rightarrow> bytes \<Rightarrow> bytes" where
  "respond i tagged h params auth buf =
     (let start = response_start i tagged;
          b1 = write_at start params buf;
          b2 = (if tagged then write_at (start + length params) auth b1 else b1)
      in case BuildResponseHeader tagged (dispatched_handles i h) (length params) (length auth) TPM_RC_SUCCESS b2 of (n, b3) \<Rightarrow> take n b3)"

section \<open>The two tables\<close>

text \<open>The attributes and the descriptors agree on the handle of a response, but for \<^verbatim>\<open>TPM2_VerifySequenceStart\<close> and \<^verbatim>\<open>TPM2_SignSequenceStart\<close>.\<close>

lemma handle_table:
  "list_all (\<lambda>k. snd (s_CommandDataArray ! k) = (if s_commandAttributes ! k AND R_HANDLE \<noteq> 0 then 1 else 0)) [0..<138]"
  "s_commandAttributes ! 138 AND R_HANDLE = 0" "s_commandAttributes ! 139 AND R_HANDLE = 0"
  "snd (s_CommandDataArray ! 138) = 1" "snd (s_CommandDataArray ! 139) = 1"
  by code_simp+

lemma sequence_start_index:
  assumes "unat i < COMMAND_COUNT"
  shows "index_code i \<in> {0x1A9, 0x1AA} \<longleftrightarrow> unat i = 138 \<or> unat i = 139"
proof -
  have "index_code i = 0x11F + word_of_nat (unat i)"
    using index_code_of_nat [of "unat i"] assms by (simp add: COMMAND_COUNT_def)
  then have "unat (index_code i) = 0x11F + unat i"
    using assms by (simp add: COMMAND_COUNT_def unat_word_ariths unsigned_ucast_eq take_bit_nat_eq_self)
  then show ?thesis
    by (auto simp: word_unat_eq_iff)
qed

lemma handle_in_response:
  assumes "unat i < COMMAND_COUNT"
  shows "dispatched_handles i h = (if IsHandleInResponse i \<or> index_code i \<in> {0x1A9, 0x1AA} then [h] else [])"
    "index_code i \<in> {0x1A9, 0x1AA} \<Longrightarrow> \<not> IsHandleInResponse i"
proof -
  have u: "unat i < 138 \<or> unat i = 138 \<or> unat i = 139"
    using assms by (auto simp: COMMAND_COUNT_def)
  have "snd (s_CommandDataArray ! unat i) = (if s_commandAttributes ! unat i AND R_HANDLE \<noteq> 0 then 1 else 0)" if "unat i < 138"
    using handle_table(1) that by (simp add: list_all_iff)
  then show "dispatched_handles i h = (if IsHandleInResponse i \<or> index_code i \<in> {0x1A9, 0x1AA} then [h] else [])"
    unfolding sequence_start_index [OF assms] dispatched_handles_def IsHandleInResponse_def attribute_def using u handle_table(2-5) by (auto split: if_splits)
  show "index_code i \<in> {0x1A9, 0x1AA} \<Longrightarrow> \<not> IsHandleInResponse i"
    unfolding sequence_start_index [OF assms] IsHandleInResponse_def attribute_def using handle_table(2,3) by auto
qed

section \<open>Layout\<close>

text \<open>A response as it is specified.\<close>

definition response_of :: "bool \<Rightarrow> TPM_HANDLE list \<Rightarrow> bytes \<Rightarrow> bytes \<Rightarrow> bytes" where
  "response_of tagged handles params auth =
     (let area = concat (map (be 4) handles) @ (if tagged then be 4 (word_of_nat (length params) :: u32) @ params @ auth else params)
      in be 2 (if tagged then TPM_ST_SESSIONS else TPM_ST_NO_SESSIONS) @ be 4 (word_of_nat (10 + length area) :: u32) @ be 4 TPM_RC_SUCCESS @ area)"

lemma drop_write_at: "n + length p \<le> length buf \<Longrightarrow> drop n (write_at n p buf) = p @ drop (n + length p) buf"
  by (simp add: write_at_def)

lemma drop_write_two:
  assumes "n + length p + length a \<le> length buf"
  shows "drop n (write_at (n + length p) a (write_at n p buf)) = p @ a @ drop (n + length p + length a) buf"
  using assms by (simp add: write_at_def add.commute add.left_commute)

text \<open>The prefix of the response up to the parameters.\<close>

definition response_head :: "bool \<Rightarrow> TPM_HANDLE list \<Rightarrow> nat \<Rightarrow> nat \<Rightarrow> bytes" where
  "response_head tagged handles sz n = be 2 (if tagged then TPM_ST_SESSIONS else TPM_ST_NO_SESSIONS) @ be 4 (word_of_nat sz :: u32) @ be 4 TPM_RC_SUCCESS
     @ concat (map (be 4) handles) @ (if tagged then be 4 (word_of_nat n :: u32) else [])"

lemma length_response_head: "length (response_head tagged handles sz n) = 10 + 4 * length handles + (if tagged then 4 else 0)"
  by (simp add: response_head_def length_concat comp_def sum_list_triv)

lemma respond_eq:
  assumes "length handles \<le> 1" "dispatched_handles i h = handles"
  shows "respond i tagged h params auth buf =
    (let sz = 10 + 4 * length handles + (if tagged then 4 + length auth else 0) + length params; start = response_start i tagged;
         b1 = write_at start params buf; b2 = (if tagged then write_at (start + length params) auth b1 else b1);
         hd = response_head tagged handles sz (length params)
     in hd @ take (sz - length hd) (drop (length hd) b2))"
proof -
  have t: "take n (write_at 0 bs x) = bs @ take (n - length bs) (drop (length bs) x)" if "length bs \<le> n" for n bs x
    using that by (simp add: write_at_def)
  show ?thesis
    using assms by (cases handles) (auto simp: respond_def BuildResponseHeader_def Let_def response_head_def STD_RESPONSE_HEADER_def t algebra_simps)
qed

text \<open>Where the attributes leave room for the handle, nothing is overwritten.\<close>

lemma respond_with_room:
  assumes "dispatched_handles i h = (if IsHandleInResponse i then [h] else [])" "18 + length params + length auth \<le> length buf"
  shows "respond i tagged h params auth buf = response_of tagged (dispatched_handles i h) params auth"
proof -
  have l: "length (dispatched_handles i h) \<le> 1"
    by (simp add: assms(1))
  have s: "response_start i tagged = 10 + 4 * length (dispatched_handles i h) + (if tagged then 4 else 0)"
    by (simp add: response_start_def assms(1) STD_RESPONSE_HEADER_def)
  have r: "response_of tagged hs params auth = response_head tagged hs (10 + 4 * length hs + (if tagged then 4 + length auth else 0) + length params) (length params)
      @ params @ (if tagged then auth else [])" for hs
    by (simp add: response_of_def response_head_def Let_def length_concat comp_def sum_list_triv algebra_simps)
  have "14 + 4 * length (dispatched_handles i h) + length params + length auth \<le> length buf"
    using assms(2) l by simp
  then show ?thesis
    unfolding respond_eq [OF l refl] Let_def length_response_head s r by (cases tagged) (simp_all add: drop_write_two drop_write_at)
qed

text \<open>Where they do not, the header covers the start of the session area.\<close>

lemma respond_without_room:
  assumes "dispatched_handles i h = [h]" "\<not> IsHandleInResponse i" "18 + length auth \<le> length buf" "4 \<le> length auth"
  shows "respond i tagged h [] auth buf =
    (if tagged then response_of tagged [h] [] (drop 4 auth @ take 4 (drop (14 + length auth) buf)) else response_of tagged [h] [] auth)"
proof -
  have s: "response_start i tagged = 10 + (if tagged then 4 else 0)"
    using assms(2) by (simp add: response_start_def STD_RESPONSE_HEADER_def)
  have l: "length (dispatched_handles i h) \<le> 1"
    by (simp add: assms(1))
  have n: "write_at 10 [] buf = buf" "write_at 14 [] buf = buf" "drop 18 (write_at 14 auth buf) = drop 4 auth @ drop (14 + length auth) buf"
    using assms(3,4) by (simp_all add: write_at_def)
  show ?thesis
    using assms(3,4) unfolding respond_eq [OF l refl] Let_def length_response_head s assms(1)
    by (cases tagged) (simp_all add: n response_of_def response_head_def)
qed

text \<open>C37: what a caller receives. For every command but two the response is laid out as specified: header, handle if the command returns one,
  size of the parameters, parameters, session area. The two are \<^verbatim>\<open>TPM2_VerifySequenceStart\<close> and \<^verbatim>\<open>TPM2_SignSequenceStart\<close>, whose attributes lack
  \<^verbatim>\<open>R_HANDLE\<close>: with sessions no room is left for the handle, the header overwrites the first four octets of the session area, and the area that is
  sent starts with the fifth octet and ends with four octets that were in the buffer before.\<close>

theorem response_layout_exact:
  assumes "unat i < COMMAND_COUNT" "18 + length params + length auth \<le> length buf" "4 \<le> length auth"
    and "index_code i \<in> {0x1A9, 0x1AA} \<Longrightarrow> params = []"
  shows "respond i tagged h params auth buf =
    (if index_code i \<in> {0x1A9, 0x1AA} \<and> tagged then response_of tagged [h] [] (drop 4 auth @ take 4 (drop (14 + length auth) buf))
     else response_of tagged (dispatched_handles i h) params auth)"
proof (cases "index_code i \<in> {0x1A9, 0x1AA}")
  case False
  then show ?thesis
    using respond_with_room [of i h params auth buf tagged] handle_in_response(1) [OF assms(1), of h] assms(2) by auto
next
  case True
  then show ?thesis
    using respond_without_room [of i h auth buf tagged] handle_in_response [OF assms(1)] assms(2-4) by auto
qed

definition demo_auth :: bytes where
  "demo_auth = [0, 2, 7, 7, 1, 0, 1, 9]"

theorem response_layout_exact_witness:
  "respond 139 True 0x80000001 [] demo_auth (replicate 40 0xEE)
     = response_of True [0x80000001] [] ([1, 0, 1, 9] @ replicate 4 0xEE)
   \<and> respond 10 False 0x80000001 [] demo_auth (replicate 40 0xEE) = response_of False [] [] demo_auth"
proof -
  have i: "unat (139 :: COMMAND_INDEX) < COMMAND_COUNT" "unat (10 :: COMMAND_INDEX) < COMMAND_COUNT"
    by (simp_all add: COMMAND_COUNT_def)
  have c: "index_code 139 = 0x1AA" "index_code 10 = 0x129"
    using index_code_of_nat [of 139] index_code_of_nat [of 10] by simp_all
  have d: "dispatched_handles 10 0x80000001 = []"
    by (simp add: dispatched_handles_def s_CommandDataArray_def)
  have l: "18 + length [] + length demo_auth \<le> length (replicate 40 (0xEE :: u8))" "4 \<le> length demo_auth"
    by (simp_all add: demo_auth_def)
  show ?thesis
    using response_layout_exact [OF i(1) l, of True "0x80000001"] response_layout_exact [OF i(2) l, of False "0x80000001"]
    by (simp add: c d) (simp add: demo_auth_def drop_Cons')
qed

end
