(* ===== verification/Spec2Isabelle.thy ===== *)
theory Spec2Isabelle
  imports Session_Protocol DA_Protection Pqc_Roundtrip NV_Capacity Policy_Trial Policy_Conditions PCR_Log Event_Sequences Auth_Pin Auth_Area Auth_Audit
    Hierarchy_Lockdown Command_Audit Physical_Presence Response_Layout
begin

text \<open>
  \<^bold>\<open>Verification of pqctoday-tpm: the TPM 2.0 core\<close>

  The repository is a software TPM: \<^verbatim>\<open>src/libtpms/src/tpm2\<close> implements the TPM 2.0 library specification with the additions
  for ML-KEM and ML-DSA, \<^verbatim>\<open>src/libtpms/src/tpm12\<close> the older TPM 1.2, \<^verbatim>\<open>src/swtpm\<close> wraps the library as a process, and the rest is a
  browser build, tests and documentation. This development models the state machines of the TPM 2.0 core in HOL, function
  by function, and proves what makes them correct. File names below are relative to \<^verbatim>\<open>src/libtpms/src/tpm2\<close>.

  \<^bold>\<open>How the program works.\<close> A command arrives with handles, a session area and parameters. \<^verbatim>\<open>ExecuteCommand\<close> updates the time and
  the NV status, loads what the handles name (\<^verbatim>\<open>Entity.c\<close>: hierarchies, object slots, NV indexes, registers, sessions), checks the
  authorizations (\<^verbatim>\<open>SessionProcess.c\<close>, with the policies of \<^verbatim>\<open>EACommands.c\<close> and the dictionary-attack logic of \<^verbatim>\<open>DA.c\<close>), calls the command,
  rolls the nonces, writes audit digests and the response sessions, and commits NV memory.

  \<^bold>\<open>Conventions.\<close> A C function is a HOL function of the same name over an explicit state: \<^verbatim>\<open>Ret\<close> gives result and state,
  \<^verbatim>\<open>FailureMode\<close> is the end of a failed \<^verbatim>\<open>pAssert\<close>. Response codes, handles, counters and times are words of their width; buffers are lists of
  octets. Static variables of a file are a record (\<^verbatim>\<open>sess_state\<close>, \<^verbatim>\<open>tpm\<close>, \<^verbatim>\<open>hier_state\<close>, \<^verbatim>\<open>obj_state\<close>, \<^verbatim>\<open>nv_state\<close>, \<^verbatim>\<open>pcr_state\<close>,
  joined in \<^verbatim>\<open>world\<close>). Code outside the modelled files (hashes, HMAC, KDF, random numbers, OpenSSL, the monotonic clock, tables
  of command attributes) is an argument or a member of an environment record; what a theorem needs of it is a hypothesis
  that its witness discharges for a concrete function. Loops are structural recursions or have a measure; there is no fuel. The
  hash-chain theorems count collisions: they say that two logs or policies with one digest are equal or exhibit two
  colliding inputs of the hash.

  \<^bold>\<open>Theories.\<close>
  \<^item> \<^verbatim>\<open>TPM_Prelude\<close>: outcomes, octets, first-index search, generic list and word lemmas, constants of \<^verbatim>\<open>TpmTypes.h\<close>.
  \<^item> \<^verbatim>\<open>Session_Manager\<close>, \<^verbatim>\<open>Session_Invariant\<close>, \<^verbatim>\<open>Session_Protocol\<close>: \<^verbatim>\<open>Session.c\<close>. The invariant of slots, context array, free
    count and oldest index for all reachable states; replay protection of saved contexts; the context gap and its recovery; a leak of
    a slot on counter exhaustion.
  \<^item> \<^verbatim>\<open>Platform_Clock\<close>: \<^verbatim>\<open>Clock.c\<close>. Timer rate and advance.
  \<^item> \<^verbatim>\<open>DA_Time\<close>, \<^verbatim>\<open>DA_Protection\<close>: \<^verbatim>\<open>DA.c\<close>, \<^verbatim>\<open>Time.c\<close>, \<^verbatim>\<open>ClockCommands.c\<close>, \<^verbatim>\<open>DictionaryCommands.c\<close>, \<^verbatim>\<open>StartupCommands.c\<close> and the frame
    of \<^verbatim>\<open>ExecCommand.c\<close>. Bounds on wrong values compared in a boot cycle, across restarts and healing.
  \<^item> \<^verbatim>\<open>Hierarchy_Tickets\<close>, \<^verbatim>\<open>Object_Slots\<close>, \<^verbatim>\<open>Object_Pool\<close>: \<^verbatim>\<open>Hierarchy.c\<close>, \<^verbatim>\<open>Ticket.c\<close>, \<^verbatim>\<open>Object.c\<close>. Proofs and seeds of hierarchies, tickets that
    are bound to hierarchy and content, slots as a finite map.
  \<^item> \<^verbatim>\<open>Pqc_Crypto\<close>, \<^verbatim>\<open>Pqc_Commands\<close>, \<^verbatim>\<open>Sequence_Commands\<close>, \<^verbatim>\<open>Pqc_Sequences\<close>, \<^verbatim>\<open>Pqc_Roundtrip\<close>: \<^verbatim>\<open>crypto/CryptMlKem.c\<close>, \<^verbatim>\<open>CryptMlDsa.c\<close>,
    \<^verbatim>\<open>Pqc*.c\<close>, \<^verbatim>\<open>HashCommands.c\<close>. Encapsulation and sequence round trips, sequences release their slots, the buffer of a sequence refines
    append-if-it-fits.
  \<^item> \<^verbatim>\<open>NV_Store\<close>, \<^verbatim>\<open>NV_Scan\<close>, \<^verbatim>\<open>NV_Commands\<close> and \<^verbatim>\<open>NV_Invariant\<close> to \<^verbatim>\<open>NV_Capacity\<close>, \<^verbatim>\<open>NV_Cache\<close>: \<^verbatim>\<open>NVDynamic.c\<close>, \<^verbatim>\<open>NV_spt.c\<close>, \<^verbatim>\<open>NVCommands.c\<close>. The store
    refines a map from handles to descriptors and data, also through its cache; counters never roll back; locks; space
    reserved for counters; capability lists.
  \<^item> \<^verbatim>\<open>Policy_Support\<close>, \<^verbatim>\<open>Policy_Commands\<close>, \<^verbatim>\<open>Policy_Check\<close>, \<^verbatim>\<open>Policy_Runs\<close>, \<^verbatim>\<open>Policy_Digests\<close>, \<^verbatim>\<open>Policy_Records\<close>, \<^verbatim>\<open>Policy_Soundness\<close>,
    \<^verbatim>\<open>Policy_Conditions\<close>, \<^verbatim>\<open>Policy_Trial\<close>: \<^verbatim>\<open>Policy_spt.c\<close>, \<^verbatim>\<open>EACommands.c\<close> and the policy check. A session that is
    accepted satisfied the policy term whose digest the entity carries; trial sessions compute that digest.
  \<^item> \<^verbatim>\<open>PCR_Banks\<close>, \<^verbatim>\<open>PCR_Commands\<close>, \<^verbatim>\<open>PCR_Counter\<close>, \<^verbatim>\<open>PCR_Log\<close>, \<^verbatim>\<open>PCR_Read\<close>, \<^verbatim>\<open>PCR_Resume\<close>, \<^verbatim>\<open>Event_Sequences\<close>: \<^verbatim>\<open>PCR.c\<close>, \<^verbatim>\<open>PlatformPCR.c\<close>,
    \<^verbatim>\<open>IntegrityCommands.c\<close>. The generation counter covers every change of a digest; a register determines its log; reads, state
    save and resume; event sequences and dynamic launch.
  \<^item> \<^verbatim>\<open>Entity_Access\<close>, \<^verbatim>\<open>Auth_Requests\<close>, \<^verbatim>\<open>Auth_Checks\<close>, \<^verbatim>\<open>Auth_Responses\<close>, \<^verbatim>\<open>Auth_Frame\<close>, \<^verbatim>\<open>Auth_Demo\<close>, \<^verbatim>\<open>Auth_Soundness\<close>, \<^verbatim>\<open>Auth_Pin\<close>,
    \<^verbatim>\<open>Auth_Area\<close>, \<^verbatim>\<open>Auth_Replay\<close>, \<^verbatim>\<open>Auth_Audit\<close>: \<^verbatim>\<open>Entity.c\<close> and \<^verbatim>\<open>SessionProcess.c\<close>. An accepted command is authorized for every handle that asks for it,
    whatever the checks of the other sessions change; the limit of PIN indexes; which octets are a session area; an HMAC is not accepted
    twice; an exclusive audit session has a complete log.
  \<^item> \<^verbatim>\<open>Hierarchy_Commands\<close>, \<^verbatim>\<open>Hierarchy_Lockdown\<close>: \<^verbatim>\<open>HierarchyCommands.c\<close> over the joined state. \<^verbatim>\<open>TPM2_Clear\<close> ends two hierarchies in every component; a disabled
    platform cannot be enabled by any commands.
  \<^item> \<^verbatim>\<open>Command_Codes\<close>, \<^verbatim>\<open>Command_Bits\<close>, \<^verbatim>\<open>Command_Audit\<close>, \<^verbatim>\<open>Physical_Presence\<close>, \<^verbatim>\<open>Response_Layout\<close>: \<^verbatim>\<open>CommandAttributeData.h\<close>, \<^verbatim>\<open>CommandCodeAttributes.c\<close>,
    \<^verbatim>\<open>CommandAudit.c\<close>, \<^verbatim>\<open>AuditCommands.c\<close>, \<^verbatim>\<open>PP.c\<close>, \<^verbatim>\<open>ManagementCommands.c\<close>, \<^verbatim>\<open>Response.c\<close>. Codes and indices determine each other; the list of commands; what the set and
    clear commands change; the layout of responses, which the tables break for two of the new commands.

  \<^bold>\<open>Interfaces.\<close> Three contracts are locales. \<^verbatim>\<open>safe_system\<close> (\<^verbatim>\<open>TPM_Prelude\<close>): start states, a step relation and an invariant; its facts on reachable states are
  used for sessions, NV memory, the dictionary-attack logic, the platform timer, hierarchies and physical presence. \<^verbatim>\<open>slot_pool\<close> (\<^verbatim>\<open>Object_Pool\<close>): slots that are
  allocated, filled and released, as a finite map; interpreted on the object slots. \<^verbatim>\<open>command_bits\<close> (\<^verbatim>\<open>Command_Bits\<close>): a list of commands as a bit array with guarded
  set and clear operations; interpreted on the audited commands and on the commands with physical presence.

  \<^bold>\<open>Not modelled.\<close> TPM 1.2 and the wrapper process (other programs); the big-number, RSA, ECC and symmetric primitives and the
  self-tests (they are called through the environment); marshaling code beyond the session area and the handle types (\<^verbatim>\<open>Marshal.c\<close>, most of
  \<^verbatim>\<open>Unmarshal.c\<close>, \<^verbatim>\<open>NVMarshal.c\<close>: generated tables and field lists); of the dispatch descriptors everything but the number of handles; object creation, import and
  duplication (\<^verbatim>\<open>Object_spt.c\<close> but for the parts used) and with it \<^verbatim>\<open>TPM2_CreatePrimary\<close>; attestation and context commands; the text form of runtime
  profiles; the ACT of the platform, which the build leaves out.
\<close>

end
